(* ===== verification/Prelude.thy ===== *)
theory Prelude
  imports Main "HOL-Library.Word" "HOL-Library.Char_ord" "HOL-Library.List_Lexorder"
begin

text \<open>
  Shared vocabulary of the development: the error codes the services return, C strings and decimal
  conversion, and the two ordered containers of the C++ standard library that the services keep their
  data in. \<open>std::map\<close> is an association list sorted by key and \<open>std::set\<close> a strictly
  sorted list, so that a loop over the container visits the elements in the order the code does.
\<close>

section \<open>Collections and error codes\<close>

named_theorems container_simps \<open>lookups after updates of the ordered containers\<close>
named_theorems wf_intros \<open>operations keep the well-formedness of their component\<close>

type_synonym u32 = "32 word"
type_synonym u64 = "64 word"
type_synonym u8 = "8 word"

text \<open>The range of the signed types; their values are integers of the logic where they cannot overflow.\<close>

abbreviation int32 :: "int \<Rightarrow> bool" where
  "int32 n \<equiv> - (2 ^ 31) \<le> n \<and> n < 2 ^ 31"

abbreviation int64 :: "int \<Rightarrow> bool" where
  "int64 n \<equiv> - (2 ^ 63) \<le> n \<and> n < 2 ^ 63"

text \<open>
  The error codes of \<open>account_error_no.h\<close> that the modelled functions return, by the names
  the source gives them. Those of the manager of the OS accounts and of its messages to other services
  form a type of their own, as do those of the authorization part.
\<close>

datatype (plugins only: code size) OsErrCode =
    Os_GET_SYSTEM_ABILITY_MANAGER
  | Os_CROSS_DISPLAY_ACTIVE
  | Os_DISPLAY_NOT_PRIMARY
  | Os_ACCOUNT_IN_DISPLAY_ID_NOT_FOUND
  | Os_SECRET_CHECK
  | Os_NAME_HAD_EXISTED
  | Os_SHORT_NAME_HAD_EXISTED
  | Os_INNER_ACCOUNT_ALREADY_ACTIVE
  | Os_INNER_ACCOUNT_OPERATING
  | Os_INNER_ACCOUNT_IS_UNCOMPLETED
  | Os_INNER_ACCOUNT_TO_BE_REMOVED
  | Os_INNER_ACCOUNT_PLUGIN_NOT_EXIST
  | Os_INNER_ACCOUNT_LOCK
  | Os_INNER_UPDATE_ACCOUNT
  | Os_INNER_REMOVE_ACCOUNT_ACTIVED
  | Os_LOGGED_IN_ACCOUNTS_OVERSIZE
  | Os_INTERFACE_TO_AM_ACCOUNT_START
  | Os_STORAGE_STOP_USER_FAILED
  | Os_INNER_ACCOUNT_PLUGIN_NOT_ALLOWED_CREATION
  | Os_CONTROL_MAX_TYPE_CAN_CREATE
  | Os_LOCAL_ID_ALREADY_EXISTS
  | Os_CREATE_OS_ACCOUNT_FOR_DOMAIN
  | Os_IAM_ERASE_USER_FAILED
  | Os_IAM_NOT_ENROLLED
  | Os_IPC_ERROR
  | Os_IPC_SA_DIED

datatype (plugins only: code size) AuthErrCode =
    Auth_PRIVILEGE_DENIED
  | Auth_NO_CACHE
  | Auth_KERNEL_DEVICE_NOT_FOUND
  | Auth_KERNEL_NOTIFY_FAILED
  | Auth_CHECK_TIME_FAILED
  | Auth_ADD_DEATH_RECIPIENT

datatype (plugins only: code size) ErrCode =
    ERR_OK
  | ERR_ACCOUNT_COMMON_NULL_PTR_ERROR
  | ERR_ACCOUNT_COMMON_PERMISSION_DENIED
  | ERR_ACCOUNT_COMMON_INVALID_PARAMETER
  | ERR_ACCOUNT_COMMON_BAD_JSON_FORMAT_ERROR
  | ERR_ACCOUNT_COMMON_DUMP_JSON_ERROR
  | ERR_ACCOUNT_COMMON_CHECK_KVSTORE_ERROR
  | ERR_ACCOUNT_COMMON_DELETE_KEY_FROM_KVSTORE_ERROR
  | ERR_ACCOUNT_COMMON_OPERATION_TIMEOUT
  | ERR_ACCOUNT_COMMON_SYSTEM_SERVICE_EXCEPTION
  | ERR_ACCOUNT_COMMON_ACCOUNT_NOT_EXIST_ERROR
  | ERR_ACCOUNT_COMMON_DISPLAY_ID_NOT_EXIST_ERROR
  | ERR_ACCOUNT_COMMON_INTERFACE_NOT_SUPPORT_ERROR
  | ERR_ACCOUNT_COMMON_FILE_NOT_EXIST
  | ERR_ACCOUNT_COMMON_FILE_OPEN_FAILED
  | ERR_ACCOUNT_COMMON_FILE_READ_FAILED
  | ERR_ACCOUNT_COMMON_FILE_WRITE_FAILED
  | ERR_ACCOUNT_COMMON_FILE_ACCESS_DENIED
  | ERR_ACCOUNT_COMMON_FILE_OTHER_ERROR
  | ERR_ACCOUNT_COMMON_FILE_SWAP_FAILED
  | ERR_ACCOUNT_COMMON_FILE_TRANSACTION_FAILED
  | ERR_ACCOUNT_COMMON_DATA_NO_SPACE
  | ERR_OHOSACCOUNT_SERVICE_FILE_CHANGE_DIR_MODE_ERROR
  | ERR_OSACCOUNT_SERVICE_FILE_FIND_FILE_ERROR
  | ERR_OSACCOUNT_SERVICE_FILE_DELE_ERROR
  | ERR_OSACCOUNT_SERVICE_FILE_CREATE_DIR_ERROR
  | ERR_OSACCOUNT_SERVICE_FILE_CHANGE_DIR_MODE_ERROR
  | ERR_OSACCOUNT_SERVICE_GET_DATA_FROM_BASE_CONSTRAINTS_FILE_EMPTY
  | ERR_OSACCOUNT_SERVICE_GET_DATA_FROM_GLOBAL_CONSTRAINTS_FILE_EMPTY
  | ERR_OSACCOUNT_SERVICE_GET_DATA_FROM_SPECIFIC_CONSTRAINTS_FILE_EMPTY
  | ERR_OSACCOUNT_SERVICE_MANAGER_QUERY_DISTRIBUTE_DATA_ERROR
  | ERR_OSACCOUNT_SERVICE_DATA_STORAGE_KEY_EXISTED_ERROR
  | ERR_OSACCOUNT_SERVICE_DATA_STORAGE_KEY_NOT_EXISTS_ERROR
  | ERR_OSACCOUNT_SERVICE_ACCOUNT_INFO_EMPTY_ERROR
  | ERR_OSACCOUNT_SERVICE_CONTROL_MAX_CAN_CREATE_ERROR
  | ERR_OSACCOUNT_SERVICE_CONTROL_ID_CANNOT_CREATE_ERROR
  | ERR_OSACCOUNT_SERVICE_CONTROL_INSERT_FILE_EXISTS_ERROR
  | ERR_OSACCOUNT_SERVICE_CONTROL_CANNOT_DELETE_ID_ERROR
  | ERR_OSACCOUNT_SERVICE_CONTROL_UPDATE_FILE_NOT_EXISTS_ERROR
  | ERR_ACCOUNT_COMMON_CHECK_BUNDLE_INSTALLED_ERROR
  | ERR_APPACCOUNT_SERVICE_DATA_STORAGE_PTR_IS_NULLPTR
  | ERR_APPACCOUNT_SERVICE_GET_ACCOUNT_INFO_BY_ID
  | ERR_APPACCOUNT_SERVICE_ADD_EXISTING_ACCOUNT
  | ERR_APPACCOUNT_SERVICE_ACCOUNT_NOT_EXIST
  | ERR_APPACCOUNT_SERVICE_ACCOUNT_MAX_SIZE
  | ERR_APPACCOUNT_SERVICE_ENABLE_APP_ACCESS_ALREADY_EXISTS
  | ERR_APPACCOUNT_SERVICE_DISABLE_APP_ACCESS_NOT_EXISTED
  | ERR_APPACCOUNT_SERVICE_ASSOCIATED_DATA_KEY_NOT_EXIST
  | ERR_APPACCOUNT_SERVICE_ASSOCIATED_DATA_OVER_SIZE
  | ERR_APPACCOUNT_SERVICE_SET_ASSOCIATED_DATA
  | ERR_APPACCOUNT_SERVICE_ACCOUNT_CREDENTIAL_NOT_EXIST
  | ERR_APPACCOUNT_SERVICE_OAUTH_TOKEN_NOT_EXIST
  | ERR_APPACCOUNT_SERVICE_OAUTH_TOKEN_MAX_SIZE
  | ERR_APPACCOUNT_SERVICE_OAUTH_TYPE_NOT_EXIST
  | ERR_APPACCOUNT_SERVICE_OAUTH_LIST_MAX_SIZE
  | ERR_APPACCOUNT_SERVICE_GET_BUNDLE_INFO
  | ERR_APPACCOUNT_SERVICE_GET_BUNDLE_NAME
  | ERR_APPACCOUNT_SERVICE_GET_APP_INDEX
  | ERR_ACCOUNT_DATADEAL_NOT_READY
  | ERR_ACCOUNT_DATADEAL_INPUT_FILE_ERROR
  | ERR_ACCOUNT_DATADEAL_JSON_FILE_CORRUPTION
  | ERR_ACCOUNT_ZIDL_ACCOUNT_SERVICE_ERROR
  | ERR_OSACCOUNT_SERVICE_MANAGER_ID_ERROR
  | ERR_ACCOUNT_COMMON_ACCOUNT_SUBSCRIBE_NOT_FOUND_ERROR
  | ERR_OHOSACCOUNT_KIT_NO_SPECIFIED_CALLBACK_HAS_BEEN_REGISTERED
  | ERR_APPACCOUNT_SERVICE_OWNERS_SIZE_IS_ZERO | BR_FAILED_REPLY
  | OsErr OsErrCode
  | AuthErr AuthErrCode
  | ERR_EXTERNAL nat

abbreviation ERR_ACCOUNT_COMMON_GET_SYSTEM_ABILITY_MANAGER :: ErrCode where "ERR_ACCOUNT_COMMON_GET_SYSTEM_ABILITY_MANAGER \<equiv> OsErr Os_GET_SYSTEM_ABILITY_MANAGER"
abbreviation ERR_ACCOUNT_COMMON_CROSS_DISPLAY_ACTIVE_ERROR :: ErrCode where "ERR_ACCOUNT_COMMON_CROSS_DISPLAY_ACTIVE_ERROR \<equiv> OsErr Os_CROSS_DISPLAY_ACTIVE"
abbreviation ERR_ACCOUNT_COMMON_DISPLAY_NOT_PRIMARY_ERROR :: ErrCode where "ERR_ACCOUNT_COMMON_DISPLAY_NOT_PRIMARY_ERROR \<equiv> OsErr Os_DISPLAY_NOT_PRIMARY"
abbreviation ERR_ACCOUNT_COMMON_ACCOUNT_IN_DISPLAY_ID_NOT_FOUND_ERROR :: ErrCode where "ERR_ACCOUNT_COMMON_ACCOUNT_IN_DISPLAY_ID_NOT_FOUND_ERROR \<equiv> OsErr Os_ACCOUNT_IN_DISPLAY_ID_NOT_FOUND"
abbreviation ERR_ACCOUNT_COMMON_SECRET_CHECK :: ErrCode where "ERR_ACCOUNT_COMMON_SECRET_CHECK \<equiv> OsErr Os_SECRET_CHECK"
abbreviation ERR_ACCOUNT_COMMON_NAME_HAD_EXISTED :: ErrCode where "ERR_ACCOUNT_COMMON_NAME_HAD_EXISTED \<equiv> OsErr Os_NAME_HAD_EXISTED"
abbreviation ERR_ACCOUNT_COMMON_SHORT_NAME_HAD_EXISTED :: ErrCode where "ERR_ACCOUNT_COMMON_SHORT_NAME_HAD_EXISTED \<equiv> OsErr Os_SHORT_NAME_HAD_EXISTED"
abbreviation ERR_OSACCOUNT_SERVICE_INNER_ACCOUNT_ALREADY_ACTIVE_ERROR :: ErrCode where "ERR_OSACCOUNT_SERVICE_INNER_ACCOUNT_ALREADY_ACTIVE_ERROR \<equiv> OsErr Os_INNER_ACCOUNT_ALREADY_ACTIVE"
abbreviation ERR_OSACCOUNT_SERVICE_INNER_ACCOUNT_OPERATING_ERROR :: ErrCode where "ERR_OSACCOUNT_SERVICE_INNER_ACCOUNT_OPERATING_ERROR \<equiv> OsErr Os_INNER_ACCOUNT_OPERATING"
abbreviation ERR_OSACCOUNT_SERVICE_INNER_ACCOUNT_IS_UNCOMPLETED_ERROR :: ErrCode where "ERR_OSACCOUNT_SERVICE_INNER_ACCOUNT_IS_UNCOMPLETED_ERROR \<equiv> OsErr Os_INNER_ACCOUNT_IS_UNCOMPLETED"
abbreviation ERR_OSACCOUNT_SERVICE_INNER_ACCOUNT_TO_BE_REMOVED_ERROR :: ErrCode where "ERR_OSACCOUNT_SERVICE_INNER_ACCOUNT_TO_BE_REMOVED_ERROR \<equiv> OsErr Os_INNER_ACCOUNT_TO_BE_REMOVED"
abbreviation ERR_OSACCOUNT_SERVICE_INNER_ACCOUNT_PLUGIN_NOT_EXIST_ERROR :: ErrCode where "ERR_OSACCOUNT_SERVICE_INNER_ACCOUNT_PLUGIN_NOT_EXIST_ERROR \<equiv> OsErr Os_INNER_ACCOUNT_PLUGIN_NOT_EXIST"
abbreviation ERR_OSACCOUNT_SERVICE_INNER_ACCOUNT_LOCK_ERROR :: ErrCode where "ERR_OSACCOUNT_SERVICE_INNER_ACCOUNT_LOCK_ERROR \<equiv> OsErr Os_INNER_ACCOUNT_LOCK"
abbreviation ERR_OSACCOUNT_SERVICE_INNER_UPDATE_ACCOUNT_ERROR :: ErrCode where "ERR_OSACCOUNT_SERVICE_INNER_UPDATE_ACCOUNT_ERROR \<equiv> OsErr Os_INNER_UPDATE_ACCOUNT"
abbreviation ERR_OSACCOUNT_SERVICE_INNER_REMOVE_ACCOUNT_ACTIVED_ERROR :: ErrCode where "ERR_OSACCOUNT_SERVICE_INNER_REMOVE_ACCOUNT_ACTIVED_ERROR \<equiv> OsErr Os_INNER_REMOVE_ACCOUNT_ACTIVED"
abbreviation ERR_OSACCOUNT_SERVICE_LOGGED_IN_ACCOUNTS_OVERSIZE :: ErrCode where "ERR_OSACCOUNT_SERVICE_LOGGED_IN_ACCOUNTS_OVERSIZE \<equiv> OsErr Os_LOGGED_IN_ACCOUNTS_OVERSIZE"
abbreviation ERR_OSACCOUNT_SERVICE_INTERFACE_TO_AM_ACCOUNT_START_ERROR :: ErrCode where "ERR_OSACCOUNT_SERVICE_INTERFACE_TO_AM_ACCOUNT_START_ERROR \<equiv> OsErr Os_INTERFACE_TO_AM_ACCOUNT_START"
abbreviation ERR_OSACCOUNT_SERVICE_STORAGE_STOP_USER_FAILED :: ErrCode where "ERR_OSACCOUNT_SERVICE_STORAGE_STOP_USER_FAILED \<equiv> OsErr Os_STORAGE_STOP_USER_FAILED"
abbreviation ERR_OSACCOUNT_SERVICE_INNER_ACCOUNT_PLUGIN_NOT_ALLOWED_CREATION_ERROR :: ErrCode where "ERR_OSACCOUNT_SERVICE_INNER_ACCOUNT_PLUGIN_NOT_ALLOWED_CREATION_ERROR \<equiv> OsErr Os_INNER_ACCOUNT_PLUGIN_NOT_ALLOWED_CREATION"
abbreviation ERR_OSACCOUNT_SERVICE_CONTROL_MAX_TYPE_CAN_CREATE_ERROR :: ErrCode where "ERR_OSACCOUNT_SERVICE_CONTROL_MAX_TYPE_CAN_CREATE_ERROR \<equiv> OsErr Os_CONTROL_MAX_TYPE_CAN_CREATE"
abbreviation ERR_OSACCOUNT_SERVICE_LOCAL_ID_ALREADY_EXISTS_ERROR :: ErrCode where "ERR_OSACCOUNT_SERVICE_LOCAL_ID_ALREADY_EXISTS_ERROR \<equiv> OsErr Os_LOCAL_ID_ALREADY_EXISTS"
abbreviation ERR_OSACCOUNT_KIT_CREATE_OS_ACCOUNT_FOR_DOMAIN_ERROR :: ErrCode where "ERR_OSACCOUNT_KIT_CREATE_OS_ACCOUNT_FOR_DOMAIN_ERROR \<equiv> OsErr Os_CREATE_OS_ACCOUNT_FOR_DOMAIN"
abbreviation ERR_OSACCOUNT_SERVICE_IAM_ERASE_USER_FAILED :: ErrCode where "ERR_OSACCOUNT_SERVICE_IAM_ERASE_USER_FAILED \<equiv> OsErr Os_IAM_ERASE_USER_FAILED"
abbreviation ERR_IAM_NOT_ENROLLED :: ErrCode where "ERR_IAM_NOT_ENROLLED \<equiv> OsErr Os_IAM_NOT_ENROLLED"
abbreviation E_IPC_ERROR :: ErrCode where "E_IPC_ERROR \<equiv> OsErr Os_IPC_ERROR"
abbreviation E_IPC_SA_DIED :: ErrCode where "E_IPC_SA_DIED \<equiv> OsErr Os_IPC_SA_DIED"
abbreviation ERR_AUTHORIZATION_PRIVILEGE_DENIED :: ErrCode where "ERR_AUTHORIZATION_PRIVILEGE_DENIED \<equiv> AuthErr Auth_PRIVILEGE_DENIED"
abbreviation ERR_AUTHORIZATION_NO_CACHE :: ErrCode where "ERR_AUTHORIZATION_NO_CACHE \<equiv> AuthErr Auth_NO_CACHE"
abbreviation ERR_AUTHORIZATION_KERNEL_DEVICE_NOT_FOUND :: ErrCode where "ERR_AUTHORIZATION_KERNEL_DEVICE_NOT_FOUND \<equiv> AuthErr Auth_KERNEL_DEVICE_NOT_FOUND"
abbreviation ERR_AUTHORIZATION_KERNEL_NOTIFY_FAILED :: ErrCode where "ERR_AUTHORIZATION_KERNEL_NOTIFY_FAILED \<equiv> AuthErr Auth_KERNEL_NOTIFY_FAILED"
abbreviation ERR_AUTHORIZATION_CHECK_TIME_FAILED :: ErrCode where "ERR_AUTHORIZATION_CHECK_TIME_FAILED \<equiv> AuthErr Auth_CHECK_TIME_FAILED"
abbreviation ERR_ACCOUNT_COMMON_ADD_DEATH_RECIPIENT :: ErrCode where "ERR_ACCOUNT_COMMON_ADD_DEATH_RECIPIENT \<equiv> AuthErr Auth_ADD_DEATH_RECIPIENT"

text \<open>The events of a distributed account that others may hear of.\<close>

datatype (plugins only: code size) DISTRIBUTED_ACCOUNT_SUBSCRIBE_TYPE = LOGIN | LOGOUT | LOGOFF | TOKEN_INVALID | BOUND | UNBOUND | INVALID_TYPE

section \<open>C strings and decimal numbers\<close>

text \<open>\<open>std::string::c_str\<close> handed to a C function is read up to the first NUL byte.\<close>

definition c_str :: "string \<Rightarrow> string" where
  "c_str s = takeWhile (\<lambda>c. c \<noteq> CHR 0x00) s"

definition nul_free :: "string \<Rightarrow> bool" where
  "nul_free s \<longleftrightarrow> CHR 0x00 \<notin> set s"

lemma c_str_nul_free [simp]: "nul_free s \<Longrightarrow> c_str s = s"
  by (auto simp: nul_free_def c_str_def takeWhile_eq_all_conv)

lemma nul_free_c_str [simp, intro]: "nul_free (c_str s)"
  by (auto simp: nul_free_def c_str_def dest: set_takeWhileD)

lemma nul_free_Nil [simp]: "nul_free []"
  by (simp add: nul_free_def)

lemma nul_free_append [simp]: "nul_free (s @ t) \<longleftrightarrow> nul_free s \<and> nul_free t"
  by (auto simp: nul_free_def)

lemma nul_free_Cons [simp]: "nul_free (c # s) \<longleftrightarrow> c \<noteq> CHR 0x00 \<and> nul_free s"
  by (auto simp: nul_free_def)

text \<open>\<open>std::to_string\<close> of an unsigned and of a signed integer.\<close>

definition digit_char :: "nat \<Rightarrow> char" where
  "digit_char d = char_of (48 + d)"

definition is_digit :: "char \<Rightarrow> bool" where
  "is_digit c \<longleftrightarrow> 48 \<le> (of_char c :: nat) \<and> (of_char c :: nat) \<le> 57"

definition digit_val :: "char \<Rightarrow> nat" where
  "digit_val c = of_char c - 48"

fun to_string_nat :: "nat \<Rightarrow> string" where
  "to_string_nat n =
     (if n < 10 then [digit_char n] else to_string_nat (n div 10) @ [digit_char (n mod 10)])"

declare to_string_nat.simps [simp del]

definition to_string_int :: "int \<Rightarrow> string" where
  "to_string_int i = (if i < 0 then CHR ''-'' # to_string_nat (nat (- i)) else to_string_nat (nat i))"

abbreviation to_string_u32 :: "u32 \<Rightarrow> string" where
  "to_string_u32 w \<equiv> to_string_nat (unat w)"

text \<open>The value of a digit string, most significant digit first.\<close>

definition dec_val :: "string \<Rightarrow> nat" where
  "dec_val s = foldl (\<lambda>n c. n * 10 + digit_val c) 0 s"

lemma digit_char_props [simp]:
  assumes "d < 10"
  shows "is_digit (digit_char d)" and "digit_val (digit_char d) = d"
proof -
  have "(of_char (char_of (48 + d) :: char) :: nat) = 48 + d"
    using assms by (simp add: of_char_of)
  then show "is_digit (digit_char d)" and "digit_val (digit_char d) = d"
    using assms by (simp_all add: is_digit_def digit_char_def digit_val_def)
qed

lemma dec_val_snoc [simp]: "dec_val (s @ [c]) = dec_val s * 10 + digit_val c"
  by (simp add: dec_val_def)

lemma dec_val_to_string [simp]: "dec_val (to_string_nat n) = n"
proof (induction n rule: to_string_nat.induct)
  case (1 n)
  show ?case
  proof (cases "n < 10")
    case True
    then show ?thesis by (simp add: to_string_nat.simps [of n] dec_val_def)
  next
    case False
    with 1 have "dec_val (to_string_nat (n div 10)) = n div 10" by simp
    with False show ?thesis by (simp add: to_string_nat.simps [of n])
  qed
qed

lemma to_string_nat_inject [simp]: "to_string_nat m = to_string_nat n \<longleftrightarrow> m = n"
  by (metis dec_val_to_string)

lemma to_string_digits: "c \<in> set (to_string_nat n) \<Longrightarrow> is_digit c"
proof (induction n rule: to_string_nat.induct)
  case (1 n)
  show ?case
  proof (cases "n < 10")
    case True
    with 1(2) show ?thesis by (simp add: to_string_nat.simps [of n])
  next
    case False
    with 1 show ?thesis by (auto simp: to_string_nat.simps [of n])
  qed
qed

lemma to_string_not_Nil [simp]: "to_string_nat n \<noteq> []"
  by (simp add: to_string_nat.simps [of n])

lemma to_string_no_char:
  assumes "\<not> is_digit c"
  shows "c \<notin> set (to_string_nat n)"
  using assms to_string_digits by blast

lemma hash_not_in_to_string [simp]: "CHR ''#'' \<notin> set (to_string_nat n)"
  by (rule to_string_no_char) (simp add: is_digit_def)

lemma nul_free_to_string [simp]: "nul_free (to_string_nat n)"
  unfolding nul_free_def by (rule to_string_no_char) (simp add: is_digit_def)

lemma nul_free_to_string_int [simp]: "nul_free (to_string_int n)"
  by (simp add: to_string_int_def)

lemma to_string_int_not_Nil [simp]: "to_string_int n \<noteq> []"
  by (simp add: to_string_int_def)

lemma slash_free_to_string_int: "CHR ''/'' \<notin> set (to_string_int u)"
  using to_string_no_char [of "CHR ''/''"] by (simp add: to_string_int_def is_digit_def)

lemma to_string_int_inject [simp]: "to_string_int m = to_string_int n \<longleftrightarrow> m = n"
proof -
  have "CHR ''-'' \<notin> set (to_string_nat k)" for k by (rule to_string_no_char) (simp add: is_digit_def)
  then have "to_string_nat k \<noteq> CHR ''-'' # s" "CHR ''-'' # s \<noteq> to_string_nat k" for k s
    by (metis list.set_intros(1))+
  then show ?thesis by (auto simp: to_string_int_def)
qed

text \<open>
  Joining with a separator is injective when the first part is free of it: the fact behind every
  composite key of the repository.
\<close>

lemma sep_append_inject:
  assumes "c \<notin> set a" and "c \<notin> set b" and "a @ c # x = b @ c # y"
  shows "a = b \<and> x = y"
  using assms by (induction a arbitrary: b) (case_tac b; auto)+

lemma unat_of_nat_u32: "n < 2 ^ 32 \<Longrightarrow> unat (of_nat n :: u32) = n"
  by (simp add: unsigned_of_nat take_bit_nat_eq_self)

text \<open>\<open>std::from_chars\<close> in base ten: the result, whether \<open>ec\<close> is clear, and how many characters were read.\<close>

definition from_chars :: "string \<Rightarrow> u64 \<Rightarrow> u64 \<times> bool \<times> nat" where
  "from_chars s result =
     (let ds = takeWhile is_digit s in
      if ds = [] then (result, False, 0)
      else if int (dec_val ds) \<ge> 2 ^ 64 then (result, False, length ds)
      else (of_nat (dec_val ds), True, length ds))"

lemma digits_all: "list_all P s \<Longrightarrow> takeWhile P s = s" "length (takeWhile P s) = length s \<Longrightarrow> list_all P s"
  by (auto simp: list_all_iff) (metis append_Nil2 length_0_conv length_append add_cancel_left_right set_takeWhileD takeWhile_dropWhile_id)

lemma from_chars_all:
  assumes "from_chars s v = (w, ok, n)"
  shows "ok \<and> n = length s \<longleftrightarrow> s \<noteq> [] \<and> list_all is_digit s \<and> dec_val s < 2 ^ 64"
proof (cases "list_all is_digit s")
  case True
  then show ?thesis using assms digits_all(1) [OF True] by (auto simp: from_chars_def Let_def split: if_splits)
next
  case False
  then have "length (takeWhile is_digit s) \<noteq> length s" using digits_all(2) by blast
  with False assms show ?thesis by (auto simp: from_chars_def Let_def split: if_splits)
qed

section \<open>std::map and std::set as sorted lists\<close>

type_synonym ('k, 'v) smap = "('k \<times> 'v) list"
type_synonym 'k sset = "'k list"

text \<open>\<open>m[k] = v\<close>; \<open>m.emplace(k, v)\<close> (which keeps an existing entry);
  \<open>m.erase(k)\<close>. \<open>m.find(k)\<close> is \<^const>\<open>map_of\<close>.\<close>

fun sm_put :: "'k::linorder \<Rightarrow> 'v \<Rightarrow> ('k, 'v) smap \<Rightarrow> ('k, 'v) smap" where
  "sm_put k v [] = [(k, v)]"
| "sm_put k v (e # m) =
     (if k = fst e then (k, v) # m else if k < fst e then (k, v) # e # m else e # sm_put k v m)"

definition sm_emplace :: "'k::linorder \<Rightarrow> 'v \<Rightarrow> ('k, 'v) smap \<Rightarrow> ('k, 'v) smap" where
  "sm_emplace k v m = (case map_of m k of None \<Rightarrow> sm_put k v m | Some _ \<Rightarrow> m)"

definition sm_erase :: "'k::linorder \<Rightarrow> ('k, 'v) smap \<Rightarrow> ('k, 'v) smap" where
  "sm_erase k m = filter (\<lambda>e. fst e \<noteq> k) m"

definition sm_wf :: "('k::linorder, 'v) smap \<Rightarrow> bool" where
  "sm_wf m \<longleftrightarrow> sorted_wrt (<) (map fst m)"

fun ss_insert :: "'k::linorder \<Rightarrow> 'k sset \<Rightarrow> 'k sset" where
  "ss_insert x [] = [x]"
| "ss_insert x (y # s) = (if x = y then y # s else if x < y then x # y # s else y # ss_insert x s)"

definition ss_erase :: "'k::linorder \<Rightarrow> 'k sset \<Rightarrow> 'k sset" where
  "ss_erase x s = filter (\<lambda>y. y \<noteq> x) s"

definition ss_wf :: "'k::linorder sset \<Rightarrow> bool" where
  "ss_wf s \<longleftrightarrow> sorted_wrt (<) s"

definition ss_of_list :: "'k::linorder list \<Rightarrow> 'k sset" where
  "ss_of_list xs = fold ss_insert xs []"

subsection \<open>Maps\<close>

lemma map_of_sm_put [container_simps, simp]: "map_of (sm_put k v m) = (map_of m)(k \<mapsto> v)"
  by (induction m) (auto simp: fun_eq_iff)

lemma map_of_sm_erase [container_simps, simp]: "map_of (sm_erase k m) = (map_of m)(k := None)"
  by (induction m) (auto simp: fun_eq_iff sm_erase_def)

lemma map_of_sm_emplace [container_simps]:
  "map_of (sm_emplace k v m) = (if map_of m k = None then (map_of m)(k \<mapsto> v) else map_of m)"
  by (auto simp: sm_emplace_def split: option.split)

lemma set_keys_sm_put: "set (map fst (sm_put k v m)) = insert k (set (map fst m))"
  by (induction m) auto

lemma sm_wf_Nil [simp]: "sm_wf []"
  by (simp add: sm_wf_def)

lemma sm_wf_put [wf_intros, intro, simp]: "sm_wf m \<Longrightarrow> sm_wf (sm_put k v m)"
proof (induction m)
  case Nil
  then show ?case by (simp add: sm_wf_def)
next
  case (Cons e m)
  then have "sm_wf (sm_put k v m)" by (simp add: sm_wf_def)
  moreover have "\<forall>x \<in> set (map fst (sm_put k v m)). x = k \<or> x \<in> set (map fst m)"
    unfolding set_keys_sm_put by blast
  ultimately show ?case
    using Cons.prems by (fastforce simp: sm_wf_def)
qed

lemma sm_wf_erase [wf_intros, intro, simp]: "sm_wf m \<Longrightarrow> sm_wf (sm_erase k m)"
  by (induction m) (auto simp: sm_wf_def sm_erase_def)

lemma sm_wf_emplace [wf_intros, intro, simp]: "sm_wf m \<Longrightarrow> sm_wf (sm_emplace k v m)"
  by (auto simp: sm_emplace_def split: option.split)

lemma sm_wf_distinct: "sm_wf m \<Longrightarrow> distinct (map fst m)"
  by (simp add: sm_wf_def strict_sorted_iff)

lemma sm_wf_filter: "sm_wf m \<Longrightarrow> sm_wf (filter P m)"
  by (simp add: sm_wf_def sorted_wrt_map sorted_wrt_filter)

lemma length_sm_put:
  "length (sm_put k v m) \<le> Suc (length m)"
  by (induction m) auto

lemma length_sm_put_present:
  assumes "sm_wf m" and "map_of m k = Some w"
  shows "length (sm_put k v m) = length m"
  using assms
proof (induction m)
  case (Cons e m)
  show ?case
  proof (cases "k = fst e")
    case False
    with Cons.prems have *: "map_of m k = Some w" "sm_wf m"
      by (auto simp: sm_wf_def split: if_splits)
    then have "k \<in> set (map fst m)" by (metis map_of_SomeD fst_conv image_eqI set_map)
    with Cons.prems have "\<not> k < fst e" by (auto simp: sm_wf_def dest: order.asym)
    with False Cons.IH * show ?thesis by simp
  qed simp
qed simp

lemma length_sm_erase [simp]: "length (sm_erase k m) \<le> length m"
  by (simp add: sm_erase_def)

text \<open>Two well-formed maps with the same lookups are the same list.\<close>

lemma alist_from_keys:
  "distinct (map fst m) \<Longrightarrow> map (\<lambda>k. (k, the (map_of m k))) (map fst m) = m"
proof (induction m)
  case (Cons e m)
  have "map (\<lambda>k. (k, the (map_of (e # m) k))) (map fst m) = map (\<lambda>k. (k, the (map_of m k))) (map fst m)"
  proof (intro map_cong refl)
    fix k assume "k \<in> set (map fst m)"
    with Cons.prems have "k \<noteq> fst e" by (metis distinct.simps(2) list.simps(9))
    then show "(k, the (map_of (e # m) k)) = (k, the (map_of m k))" by (cases e) simp
  qed
  with Cons show ?case by (cases e) simp
qed simp

lemma sm_wf_ext:
  assumes "sm_wf m" and "sm_wf n" and "map_of m = map_of n"
  shows "m = n"
proof -
  have "dom (map_of m) = dom (map_of n)" using assms(3) by simp
  then have "set (map fst m) = set (map fst n)" by (simp add: dom_map_of_conv_image_fst)
  with assms(1,2) have "map fst m = map fst n"
    by (intro strict_sorted_equal) (auto simp: sm_wf_def)
  with assms show ?thesis
    by (metis alist_from_keys sm_wf_distinct)
qed

text \<open>Emplacing the entries of a well-formed map one after the other rebuilds it.\<close>

lemma emplace_all:
  assumes "distinct (map fst m)" and "\<forall>e \<in> set m. map_of acc (fst e) = None" and "sm_wf acc"
  shows "map_of (fold (\<lambda>e. sm_emplace (fst e) (snd e)) m acc) = map_of acc ++ map_of m
    \<and> sm_wf (fold (\<lambda>e. sm_emplace (fst e) (snd e)) m acc)"
  using assms
proof (induction m arbitrary: acc)
  case (Cons e m)
  have "map_of (sm_emplace (fst e) (snd e) acc) = (map_of acc)(fst e \<mapsto> snd e)"
    using Cons.prems by (simp add: map_of_sm_emplace)
  moreover from this have "\<forall>f \<in> set m. map_of (sm_emplace (fst e) (snd e) acc) (fst f) = None"
    using Cons.prems by (auto simp: image_iff)
  moreover have "map_of m (fst e) = None"
    using Cons.prems by (simp add: map_of_eq_None_iff)
  ultimately show ?case
    using Cons.IH [of "sm_emplace (fst e) (snd e) acc"] Cons.prems
    by (cases e) (auto simp: map_add_def fun_eq_iff split: option.split)
qed simp

lemma emplace_all_id:
  "sm_wf m \<Longrightarrow> fold (\<lambda>e. sm_emplace (fst e) (snd e)) m [] = m"
  using emplace_all [of m "[]"] by (intro sm_wf_ext) (auto simp: sm_wf_distinct)

subsection \<open>Sets\<close>

lemma set_ss_insert [container_simps, simp]: "set (ss_insert x s) = insert x (set s)"
  by (induction s) auto

lemma set_ss_erase [container_simps, simp]: "set (ss_erase x s) = set s - {x}"
  by (auto simp: ss_erase_def)

lemma ss_wf_Nil [simp]: "ss_wf []"
  by (simp add: ss_wf_def)

lemma ss_wf_insert [wf_intros, intro, simp]: "ss_wf s \<Longrightarrow> ss_wf (ss_insert x s)"
  by (induction s) (auto simp: ss_wf_def)

lemma ss_wf_erase [wf_intros, intro, simp]: "ss_wf s \<Longrightarrow> ss_wf (ss_erase x s)"
  by (simp add: ss_wf_def ss_erase_def sorted_wrt_filter)

lemma ss_erase_absent [simp]: "x \<notin> set s \<Longrightarrow> ss_erase x s = s"
  by (auto simp: ss_erase_def filter_id_conv)

lemma ss_wf_distinct: "ss_wf s \<Longrightarrow> distinct s"
  by (simp add: ss_wf_def strict_sorted_iff)

lemma ss_wf_card: "ss_wf s \<Longrightarrow> length s = card (set s)"
  by (simp add: ss_wf_distinct distinct_card)

lemma ss_wf_ext: "ss_wf s \<Longrightarrow> ss_wf t \<Longrightarrow> set s = set t \<Longrightarrow> s = t"
  by (simp add: ss_wf_def strict_sorted_equal)

lemma ss_wf_fold_insert: "ss_wf s \<Longrightarrow> ss_wf (fold ss_insert xs s)"
  by (induction xs arbitrary: s) auto

lemma set_fold_insert: "set (fold ss_insert xs s) = set s \<union> set xs"
  by (induction xs arbitrary: s) auto

lemma ss_of_list_props [simp]: "set (ss_of_list xs) = set xs" "ss_wf (ss_of_list xs)"
  by (auto simp: ss_of_list_def set_fold_insert ss_wf_fold_insert)

lemma ss_of_list_id: "ss_wf s \<Longrightarrow> ss_of_list s = s"
  by (rule ss_wf_ext) auto

lemma ss_insert_absorb: "ss_wf s \<Longrightarrow> x \<in> set s \<Longrightarrow> ss_insert x s = s"
  by (rule ss_wf_ext) auto

lemma ss_erase_insert: "ss_wf s \<Longrightarrow> x \<notin> set s \<Longrightarrow> ss_erase x (ss_insert x s) = s"
  by (rule ss_wf_ext) auto

section \<open>The contract of the containers\<close>

text \<open>
  What the services rely on when they keep an ordered map: a lookup after an insertion, an
  \<open>emplace\<close> or an erasure, and that each keeps the representation. Everything the
  services need beyond that is proved once from the contract.
\<close>

locale std_map =
  fixes empty :: "'m"
    and find :: "'m \<Rightarrow> 'k \<Rightarrow> 'v option"
    and put :: "'k \<Rightarrow> 'v \<Rightarrow> 'm \<Rightarrow> 'm"
    and emplace :: "'k \<Rightarrow> 'v \<Rightarrow> 'm \<Rightarrow> 'm"
    and erase :: "'k \<Rightarrow> 'm \<Rightarrow> 'm"
    and inv :: "'m \<Rightarrow> bool"
  assumes find_empty: "find empty k = None"
    and find_put: "find (put k v m) = (find m)(k \<mapsto> v)"
    and find_erase: "find (erase k m) = (find m)(k := None)"
    and find_emplace: "find (emplace k v m) k' =
          (if k' = k \<and> find m k = None then Some v else find m k')"
    and inv_empty: "inv empty"
    and inv_put: "inv m \<Longrightarrow> inv (put k v m)"
    and inv_erase: "inv m \<Longrightarrow> inv (erase k m)"
    and inv_emplace: "inv m \<Longrightarrow> inv (emplace k v m)"
    and ext: "inv m \<Longrightarrow> inv n \<Longrightarrow> find m = find n \<Longrightarrow> m = n"
begin

lemma put_put: "inv m \<Longrightarrow> put k v (put k w m) = put k v m"
  by (rule ext) (auto simp: inv_put find_put)

lemma put_commute: "inv m \<Longrightarrow> k \<noteq> l \<Longrightarrow> put k v (put l w m) = put l w (put k v m)"
  by (rule ext) (auto simp: inv_put find_put fun_upd_twist)

lemma put_same: "inv m \<Longrightarrow> find m k = Some v \<Longrightarrow> put k v m = m"
  by (rule ext) (auto simp: inv_put find_put)

lemma erase_put: "inv m \<Longrightarrow> find m k = None \<Longrightarrow> erase k (put k v m) = m"
  by (rule ext) (auto simp: inv_put inv_erase find_put find_erase fun_eq_iff)

lemma erase_absent: "inv m \<Longrightarrow> find m k = None \<Longrightarrow> erase k m = m"
  by (rule ext) (auto simp: inv_erase find_erase fun_eq_iff)

lemma emplace_present: "inv m \<Longrightarrow> find m k = Some w \<Longrightarrow> emplace k v m = m"
  by (rule ext) (auto simp: inv_emplace find_emplace fun_eq_iff)

lemma emplace_absent: "inv m \<Longrightarrow> find m k = None \<Longrightarrow> emplace k v m = put k v m"
  by (rule ext) (auto simp: inv_emplace inv_put find_emplace find_put fun_eq_iff)

end

interpretation smap: std_map "[] :: ('k::linorder, 'v) smap" map_of sm_put sm_emplace sm_erase sm_wf
  by unfold_locales (auto simp: map_of_sm_emplace intro: sm_wf_ext)

lemmas smap_laws = smap.put_put smap.put_commute smap.put_same smap.erase_put smap.erase_absent
  smap.emplace_present smap.emplace_absent

end
