(* ===== verification/Json_Utils.thy ===== *)
theory Json_Utils
  imports Prelude
begin

text \<open>
  The JSON layer (\<open>frameworks/common/json_utils/src/json_utils.cpp\<close>). A node of the cJSON
  tree is a value of \<open>json\<close>; a possibly null \<open>CJson*\<close> or \<open>CJsonUnique\<close> is a
  \<open>json option\<close>. A getter \<open>bool Get(obj, key, T &out)\<close> is a function into \<open>T option\<close>:
  \<open>None\<close> is \<open>false\<close>, after which no caller reads \<open>out\<close>. A setter returns its \<open>bool\<close> and the updated tree.
  The text format is cJSON's own, a parameter: \<open>cj_parse\<close> and \<open>cj_print\<close> stand for
  \<open>cJSON_Parse\<close> and \<open>cJSON_PrintUnformatted\<close>, and \<open>cjson_ok\<close> states what the code relies
  on, that a printed tree parses back. Failing allocations are not modelled.
\<close>

section \<open>The tree\<close>

datatype json = JNull | JBool bool | JNum int | JStr string | JArr "json list"
  | JObj "(string \<times> json) list"

record cjson_lib =
  cj_parse :: "string \<Rightarrow> json option"
  cj_print :: "json \<Rightarrow> string option"

text \<open>The cJSON node operations the file calls, on the list of children.\<close>

fun obj_item :: "json \<Rightarrow> string \<Rightarrow> json option" where
  "obj_item (JObj kvs) k = map_of kvs k"
| "obj_item _ k = None"

fun replace_first :: "string \<Rightarrow> json \<Rightarrow> (string \<times> json) list \<Rightarrow> (string \<times> json) list" where
  "replace_first k v [] = []"
| "replace_first k v (e # kvs) = (if fst e = k then (k, v) # kvs else e # replace_first k v kvs)"

fun delete_first :: "string \<Rightarrow> (string \<times> json) list \<Rightarrow> (string \<times> json) list" where
  "delete_first k [] = []"
| "delete_first k (e # kvs) = (if fst e = k then kvs else e # delete_first k kvs)"

fun obj_add :: "json \<Rightarrow> string \<Rightarrow> json \<Rightarrow> json" where
  "obj_add (JObj kvs) k v = JObj (kvs @ [(k, v)])"
| "obj_add (JArr xs) k v = JArr (xs @ [v])"
| "obj_add j k v = j"

fun obj_replace :: "json \<Rightarrow> string \<Rightarrow> json \<Rightarrow> json" where
  "obj_replace (JObj kvs) k v = JObj (replace_first k v kvs)"
| "obj_replace j k v = j"

fun obj_delete :: "json \<Rightarrow> string \<Rightarrow> json" where
  "obj_delete (JObj kvs) k = JObj (delete_first k kvs)"
| "obj_delete j k = j"

fun array_size :: "json \<Rightarrow> nat" where
  "array_size (JArr xs) = length xs"
| "array_size (JObj kvs) = length kvs"
| "array_size _ = 0"

definition obj_put :: "json \<Rightarrow> string \<Rightarrow> json \<Rightarrow> json" where
  "obj_put j k v = (case obj_item j k of None \<Rightarrow> obj_add j k v | Some _ \<Rightarrow> obj_replace j k v)"

section \<open>Queries\<close>

definition IsKeyExist :: "json option \<Rightarrow> string \<Rightarrow> bool" where
  "IsKeyExist jsonObj key =
     (case jsonObj of None \<Rightarrow> False
      | Some j \<Rightarrow> if key = [] then False else obj_item j (c_str key) \<noteq> None)"

definition IsArray :: "json option \<Rightarrow> bool" where
  "IsArray item = (case item of Some (JArr _) \<Rightarrow> True | _ \<Rightarrow> False)"

definition IsBool :: "json option \<Rightarrow> bool" where
  "IsBool item = (case item of Some (JBool _) \<Rightarrow> True | _ \<Rightarrow> False)"

definition IsNumber :: "json option \<Rightarrow> bool" where
  "IsNumber item = (case item of Some (JNum _) \<Rightarrow> True | _ \<Rightarrow> False)"

definition IsString :: "json option \<Rightarrow> bool" where
  "IsString item = (case item of Some (JStr _) \<Rightarrow> True | _ \<Rightarrow> False)"

definition IsObject :: "json option \<Rightarrow> bool" where
  "IsObject item = (case item of Some (JObj _) \<Rightarrow> True | _ \<Rightarrow> False)"

definition IsStructured :: "json option \<Rightarrow> bool" where
  "IsStructured jsonObj = IsObject jsonObj"

definition CreateJsonFromString :: "'z cjson_lib_scheme \<Rightarrow> string \<Rightarrow> json option" where
  "CreateJsonFromString L jsonStr = (if jsonStr = [] then None else cj_parse L (c_str jsonStr))"

definition CreateJsonNull :: "json option" where
  "CreateJsonNull = Some JNull"

definition CreateJson :: "json option" where
  "CreateJson = Some (JObj [])"

definition CreateJsonArray :: "json option" where
  "CreateJsonArray = Some (JArr [])"

definition DeleteItemFromJson :: "json option \<Rightarrow> string \<Rightarrow> nat \<times> json option" where
  "DeleteItemFromJson jsonObj key =
     (if \<not> IsKeyExist jsonObj key then (0, jsonObj)
      else (1, map_option (\<lambda>j. obj_delete j (c_str key)) jsonObj))"

definition PackJsonToString :: "'z cjson_lib_scheme \<Rightarrow> json option \<Rightarrow> string" where
  "PackJsonToString L jsonObj =
     (case jsonObj of None \<Rightarrow> [] | Some j \<Rightarrow> (case cj_print L j of None \<Rightarrow> [] | Some buf \<Rightarrow> buf))"

definition GetItemNum :: "json option \<Rightarrow> nat" where
  "GetItemNum jsonObj = (case jsonObj of None \<Rightarrow> 0 | Some j \<Rightarrow> array_size j)"

text \<open>\<open>GetObjFromJson\<close> stores the item it finds even where it answers \<open>false\<close>.\<close>

definition GetObjFromJson :: "json option \<Rightarrow> string \<Rightarrow> json option \<Rightarrow> bool \<times> json option" where
  "GetObjFromJson jsonObj key val =
     (case jsonObj of None \<Rightarrow> (False, val)
      | Some j \<Rightarrow> if key = [] then (False, val)
                 else let item = obj_item j (c_str key) in (IsObject item, item))"

definition GetItemFromJson :: "json option \<Rightarrow> string \<Rightarrow> json option" where
  "GetItemFromJson obj key =
     (if \<not> IsKeyExist obj key then None
      else (case obj of None \<Rightarrow> None | Some j \<Rightarrow> obj_item j (c_str key)))"

definition GetStringFromJson :: "json option \<Rightarrow> string \<Rightarrow> string option" where
  "GetStringFromJson jsonObj key =
     (case jsonObj of None \<Rightarrow> None
      | Some j \<Rightarrow> if key = [] then None
                 else (case obj_item j (c_str key) of Some (JStr s) \<Rightarrow> Some s | _ \<Rightarrow> None))"

definition GetBoolFromJson :: "json option \<Rightarrow> string \<Rightarrow> bool option" where
  "GetBoolFromJson jsonObj key =
     (case jsonObj of None \<Rightarrow> None
      | Some j \<Rightarrow> if key = [] then None
                 else (case obj_item j (c_str key) of Some (JBool b) \<Rightarrow> Some b | _ \<Rightarrow> None))"

definition GetJsonArrayFromJson :: "json option \<Rightarrow> string \<Rightarrow> json option" where
  "GetJsonArrayFromJson jsonObj key =
     (case jsonObj of None \<Rightarrow> None
      | Some j \<Rightarrow> if key = [] then None
                 else let item = obj_item j (c_str key) in if IsArray item then item else None)"

fun json_strings :: "json list \<Rightarrow> string list" where
  "json_strings [] = []"
| "json_strings (JStr s # xs) = s # json_strings xs"
| "json_strings (_ # xs) = json_strings xs"

definition GetVectorStringFromJson :: "json option \<Rightarrow> string \<Rightarrow> string list \<Rightarrow> bool \<times> string list" where
  "GetVectorStringFromJson jsonObj key val =
     (if \<not> IsKeyExist jsonObj key then (False, val)
      else (case GetItemFromJson jsonObj key of
              Some (JArr xs) \<Rightarrow> (True, val @ json_strings xs)
            | _ \<Rightarrow> (False, val)))"

text \<open>The digest of a stored record is an array of numbers; \<open>valueint\<close> is limited to 32 bits and then cut to the byte.\<close>

fun json_bytes :: "json list \<Rightarrow> u8 list" where
  "json_bytes [] = []"
| "json_bytes (JNum n # xs) = word_of_int (max (- 2147483648) (min 2147483647 n)) # json_bytes xs"
| "json_bytes (_ # xs) = json_bytes xs"

definition GetVectorUint8FromJson :: "json option \<Rightarrow> string \<Rightarrow> u8 list" where
  "GetVectorUint8FromJson jsonObj key =
     (if \<not> IsKeyExist jsonObj key then []
      else (case GetItemFromJson jsonObj key of Some (JArr xs) \<Rightarrow> json_bytes xs | _ \<Rightarrow> []))"

definition GetSetStringFromJson :: "json option \<Rightarrow> string \<Rightarrow> string sset \<Rightarrow> bool \<times> string sset" where
  "GetSetStringFromJson jsonObj key setData =
     (case jsonObj of None \<Rightarrow> (False, setData)
      | Some j \<Rightarrow> if key = [] then (False, setData)
                 else (case obj_item j (c_str key) of
                         Some (JArr xs) \<Rightarrow> (True, fold ss_insert (json_strings xs) setData)
                       | _ \<Rightarrow> (False, setData)))"

subsection \<open>Numbers, also when they were stored as text\<close>

text \<open>
  \<open>strtol\<close>, \<open>strtoll\<close> and \<open>strtoull\<close> on a whole string: leading white space, an
  optional sign, decimal digits and nothing else (\<open>*endptr == 0\<close>, \<open>endptr != start\<close>).
\<close>

definition is_space :: "char \<Rightarrow> bool" where
  "is_space c \<longleftrightarrow> c = CHR '' '' \<or> (9 \<le> (of_char c :: nat) \<and> (of_char c :: nat) \<le> 13)"

definition c_sign :: "string \<Rightarrow> bool \<times> string" where
  "c_sign s = (case s of [] \<Rightarrow> (False, [])
     | c # t \<Rightarrow> if c = CHR ''-'' then (True, t) else if c = CHR ''+'' then (False, t) else (False, s))"

definition strto_parts :: "string \<Rightarrow> (bool \<times> nat) option" where
  "strto_parts s =
     (let (neg, ds) = c_sign (dropWhile is_space s)
      in if ds = [] \<or> \<not> list_all is_digit ds then None else Some (neg, dec_val ds))"

definition GetIntFromJson :: "json option \<Rightarrow> string \<Rightarrow> int option" where
  "GetIntFromJson jsonObj key =
     (case jsonObj of None \<Rightarrow> None
      | Some j \<Rightarrow> if key = [] then None
          else (case obj_item j (c_str key) of
                  Some (JNum n) \<Rightarrow> Some n
                | Some (JStr str) \<Rightarrow>
                    if str = [] then None
                    else (case strto_parts str of None \<Rightarrow> None
                          | Some (neg, n) \<Rightarrow>
                              let v = (if neg then - int n else int n)
                              in if v < - (2 ^ 31) \<or> v > 2 ^ 31 - 1 then None else Some v)
                | _ \<Rightarrow> None))"

definition GetInt64FromJson :: "json option \<Rightarrow> string \<Rightarrow> int option" where
  "GetInt64FromJson jsonObj key =
     (if \<not> IsKeyExist jsonObj key then None
      else (case GetItemFromJson jsonObj key of
              Some (JStr str) \<Rightarrow>
                if str = [] then None
                else (case strto_parts str of None \<Rightarrow> None
                      | Some (neg, n) \<Rightarrow>
                          let v = (if neg then - int n else int n)
                          in if v < - (2 ^ 63) \<or> v > 2 ^ 63 - 1 then None else Some v)
            | Some (JNum n) \<Rightarrow> Some n
            | _ \<Rightarrow> None))"

text \<open>
  \<open>strtoull\<close> reports a range error only for a magnitude above \<open>2^64 - 1\<close>; a minus sign
  negates the value in the unsigned type.
\<close>

definition GetUint64FromJson :: "json option \<Rightarrow> string \<Rightarrow> 64 word option" where
  "GetUint64FromJson jsonObj key =
     (if \<not> IsKeyExist jsonObj key then None
      else (case GetItemFromJson jsonObj key of
              Some (JStr str) \<Rightarrow>
                if str = [] then None
                else (case strto_parts str of None \<Rightarrow> None
                      | Some (neg, n) \<Rightarrow>
                          if n > 2 ^ 64 - 1 then None
                          else Some (if neg then - of_nat n else of_nat n))
            | Some (JNum n) \<Rightarrow> Some (word_of_int n)
            | _ \<Rightarrow> None))"

section \<open>Updates\<close>

definition AddItem :: "json option \<Rightarrow> string \<Rightarrow> json \<Rightarrow> bool \<times> json option" where
  "AddItem jsonObj key v =
     (case jsonObj of None \<Rightarrow> (False, None)
      | Some j \<Rightarrow> if key = [] then (False, Some j) else (True, Some (obj_put j (c_str key) v)))"

definition AddSetStringToJson :: "json option \<Rightarrow> string \<Rightarrow> string sset \<Rightarrow> bool \<times> json option" where
  "AddSetStringToJson jsonObj key setData = AddItem jsonObj key (JArr (map (\<lambda>s. JStr (c_str s)) setData))"

definition AddVectorStringToJson :: "json option \<Rightarrow> string \<Rightarrow> string list \<Rightarrow> bool \<times> json option" where
  "AddVectorStringToJson jsonObj key vec = AddItem jsonObj key (JArr (map (\<lambda>s. JStr (c_str s)) vec))"

definition AddVectorUint8ToJson :: "json option \<Rightarrow> string \<Rightarrow> u8 list \<Rightarrow> bool \<times> json option" where
  "AddVectorUint8ToJson jsonObj key arr = AddItem jsonObj key (JArr (map (\<lambda>b. JNum (uint b)) arr))"

definition AddStringToJson :: "json option \<Rightarrow> string \<Rightarrow> string \<Rightarrow> bool \<times> json option" where
  "AddStringToJson jsonObj key val = AddItem jsonObj key (JStr (c_str val))"

definition AddBoolToJson :: "json option \<Rightarrow> string \<Rightarrow> bool \<Rightarrow> bool \<times> json option" where
  "AddBoolToJson jsonObj key val = AddItem jsonObj key (JBool val)"

definition AddIntToJson :: "json option \<Rightarrow> string \<Rightarrow> int \<Rightarrow> bool \<times> json option" where
  "AddIntToJson jsonObj key val = AddItem jsonObj key (JNum val)"

definition AddInt64ToJson :: "json option \<Rightarrow> string \<Rightarrow> int \<Rightarrow> bool \<times> json option" where
  "AddInt64ToJson jsonObj key val = AddStringToJson jsonObj key (to_string_int val)"

definition AddUint64ToJson :: "json option \<Rightarrow> string \<Rightarrow> 64 word \<Rightarrow> bool \<times> json option" where
  "AddUint64ToJson jsonObj key val = AddStringToJson jsonObj key (to_string_nat (unat val))"

definition AddObjToJson :: "json option \<Rightarrow> string \<Rightarrow> json option \<Rightarrow> bool \<times> json option" where
  "AddObjToJson jsonObj key childObj =
     (case childObj of None \<Rightarrow> (False, jsonObj) | Some c \<Rightarrow> AddItem jsonObj key c)"

text \<open>An output argument keeps its value when the getter fails.\<close>

definition or_keep :: "'a option \<Rightarrow> 'a \<Rightarrow> 'a" where
  "or_keep x d = (case x of None \<Rightarrow> d | Some y \<Rightarrow> y)"

text \<open>The statement \<open>success &= Add...(object, ...)\<close> of the functions that build an object.\<close>

definition also_add :: "(json option \<Rightarrow> bool \<times> json option) \<Rightarrow> bool \<times> json option \<Rightarrow> bool \<times> json option" where
  "also_add f st = (let (r, j) = f (snd st) in (fst st \<and> r, j))"

definition AddObjToArray :: "json option \<Rightarrow> json option \<Rightarrow> bool \<times> json option" where
  "AddObjToArray jsonArr item =
     (case (jsonArr, item) of (Some (JArr xs), Some v) \<Rightarrow> (True, Some (JArr (xs @ [v])))
      | _ \<Rightarrow> (False, jsonArr))"

text \<open>\<open>CreateJsonFromMap\<close> adds the pairs without looking for an existing key.\<close>

definition CreateJsonFromMap :: "(string, string) smap \<Rightarrow> json option" where
  "CreateJsonFromMap mapData = Some (JObj (map (\<lambda>(k, v). (c_str k, JStr (c_str v))) mapData))"

fun obj_strings :: "(string \<times> json) list \<Rightarrow> (string, string) smap \<Rightarrow> (string, string) smap" where
  "obj_strings [] m = m"
| "obj_strings ((k, JStr s) # kvs) m = obj_strings kvs (sm_put k s m)"
| "obj_strings ((k, _) # kvs) m = obj_strings kvs m"

definition PackJsonToMap :: "json option \<Rightarrow> (string, string) smap" where
  "PackJsonToMap jsonObj = (case jsonObj of Some (JObj kvs) \<Rightarrow> obj_strings kvs [] | _ \<Rightarrow> [])"

section \<open>What cJSON promises\<close>

text \<open>
  A tree is printable when its strings and keys contain no NUL byte and its numbers are exact in a
  double. The documented behaviour of the library is that such a tree prints to a non-empty C string
  which parses to an equal tree.
\<close>

fun json_wf :: "json \<Rightarrow> bool" where
  "json_wf JNull = True"
| "json_wf (JBool b) = True"
| "json_wf (JNum n) = (\<bar>n\<bar> < 2 ^ 53)"
| "json_wf (JStr s) = nul_free s"
| "json_wf (JArr xs) = (\<forall>x \<in> set xs. json_wf x)"
| "json_wf (JObj kvs) = (\<forall>e \<in> set kvs. nul_free (fst e) \<and> json_wf (snd e))"

definition cjson_ok :: "'z cjson_lib_scheme \<Rightarrow> bool" where
  "cjson_ok L \<longleftrightarrow>
     (\<forall>j. json_wf j \<longrightarrow> (\<exists>s. cj_print L j = Some s \<and> s \<noteq> [] \<and> nul_free s \<and> cj_parse L s = Some j))"

lemma pack_then_create:
  assumes "cjson_ok L" and "json_wf j"
  shows "PackJsonToString L (Some j) \<noteq> []"
    and "nul_free (PackJsonToString L (Some j))"
    and "CreateJsonFromString L (PackJsonToString L (Some j)) = Some j"
  using assms unfolding cjson_ok_def
  by (fastforce simp: PackJsonToString_def CreateJsonFromString_def)+

section \<open>Lookups after updates\<close>

named_theorems json_simps \<open>evaluation of the JSON layer\<close>

definition is_obj :: "json \<Rightarrow> bool" where
  "is_obj j \<longleftrightarrow> (\<exists>kvs. j = JObj kvs)"

lemma is_obj_JObj [simp]: "is_obj (JObj kvs)"
  by (simp add: is_obj_def)

lemma map_of_replace_first:
  "map_of kvs k \<noteq> None \<Longrightarrow> map_of (replace_first k v kvs) = (map_of kvs)(k \<mapsto> v)"
  by (induction kvs) (auto simp: fun_eq_iff)

lemma obj_item_put [json_simps]:
  "is_obj j \<Longrightarrow> obj_item (obj_put j k v) = (obj_item j)(k \<mapsto> v)"
  by (auto simp: is_obj_def obj_put_def fun_eq_iff map_add_def map_of_replace_first
      split: option.split)

lemma is_obj_put [simp]: "is_obj j \<Longrightarrow> is_obj (obj_put j k v)"
  by (auto simp: is_obj_def obj_put_def split: option.split)

lemma json_wf_replace_first:
  "\<forall>e \<in> set kvs. nul_free (fst e) \<and> json_wf (snd e) \<Longrightarrow> json_wf v \<Longrightarrow>
   \<forall>e \<in> set (replace_first k v kvs). nul_free (fst e) \<and> json_wf (snd e)"
  by (induction kvs) auto

lemma json_wf_put [wf_intros]:
  "json_wf j \<Longrightarrow> nul_free k \<Longrightarrow> json_wf v \<Longrightarrow> json_wf (obj_put j k v)"
proof (cases j)
  case (JObj kvs)
  then show "json_wf j \<Longrightarrow> nul_free k \<Longrightarrow> json_wf v \<Longrightarrow> ?thesis"
    using json_wf_replace_first [of kvs v k] by (auto simp: obj_put_def split: option.split)
qed (simp_all add: obj_put_def)

lemma json_wf_delete [wf_intros]:
  "json_wf j \<Longrightarrow> json_wf (obj_delete j k)"
proof (cases j)
  case (JObj kvs)
  have "set (delete_first k kvs) \<subseteq> set kvs" by (induction kvs) auto
  with JObj show "json_wf j \<Longrightarrow> ?thesis" by auto
qed auto

lemma json_wf_item: "json_wf j \<Longrightarrow> obj_item j k = Some v \<Longrightarrow> json_wf v"
  by (cases j) (auto dest!: map_of_SomeD)

lemma json_strings_map [simp]: "json_strings (map (\<lambda>s. JStr (f s)) xs) = map f xs"
  by (induction xs) auto

lemma json_bytes_map [simp]: "json_bytes (map (\<lambda>b. JNum (uint b)) bs) = bs"
proof (induction bs)
  case (Cons b bs)
  have "- 2147483648 \<le> uint b" by (rule order_trans [OF _ uint_ge_0]) simp
  then have "max (- 2147483648) (min 2147483647 (uint b)) = uint b" using uint_lt2p [of b] by simp
  with Cons show ?case by simp
qed simp

lemma map_c_str [simp]: "\<forall>x \<in> set xs. nul_free x \<Longrightarrow> map c_str xs = xs"
  by (simp add: map_idI)

lemma obj_strings_map_of:
  assumes "distinct (map fst m)"
  shows "map_of (obj_strings (map (\<lambda>(k, v). (k, JStr v)) m) acc) = map_of acc ++ map_of m"
  using assms
proof (induction m arbitrary: acc)
  case (Cons e m)
  obtain k v where e: "e = (k, v)" by (cases e)
  with Cons.prems have k: "map_of m k = None" by (simp add: map_of_eq_None_iff)
  have "map_of (obj_strings (map (\<lambda>(k, v). (k, JStr v)) (e # m)) acc)
      = (map_of acc)(k \<mapsto> v) ++ map_of m"
    using Cons e by simp
  also have "\<dots> = map_of acc ++ map_of (e # m)"
    using k by (simp add: e map_add_def fun_eq_iff split: option.split)
  finally show ?case .
qed simp

lemma sm_wf_obj_strings: "sm_wf m \<Longrightarrow> sm_wf (obj_strings kvs m)"
  by (induction kvs m rule: obj_strings.induct) auto

text \<open>A string map written as an object is read back unchanged.\<close>

lemma map_json_roundtrip:
  assumes "sm_wf m" and "\<forall>e \<in> set m. nul_free (fst e) \<and> nul_free (snd e)"
  shows "PackJsonToMap (CreateJsonFromMap m) = m"
proof -
  have eq: "map (\<lambda>(k, v). (c_str k, JStr (c_str v))) m = map (\<lambda>(k, v). (k, JStr v)) m"
    using assms(2) by (intro map_cong) auto
  have "map_of (obj_strings (map (\<lambda>(k, v). (k, JStr v)) m) []) = map_of m"
    by (simp add: obj_strings_map_of sm_wf_distinct assms(1))
  then have "obj_strings (map (\<lambda>(k, v). (k, JStr v)) m) [] = m"
    using assms(1) by (intro sm_wf_ext sm_wf_obj_strings) auto
  then show ?thesis by (simp add: PackJsonToMap_def CreateJsonFromMap_def eq)
qed

section \<open>Numbers stored as text\<close>

lemma strto_to_string_int: "strto_parts (to_string_int n) = Some (n < 0, nat \<bar>n\<bar>)"
proof -
  have d: "list_all is_digit (to_string_nat m)" for m by (auto simp: list_all_iff dest: to_string_digits)
  have hd: "dropWhile is_space (to_string_nat m) = to_string_nat m \<and> c_sign (to_string_nat m) = (False, to_string_nat m)" for m
  proof -
    obtain c s where cs: "to_string_nat m = c # s" by (cases "to_string_nat m") auto
    with d [of m] have "is_digit c" by simp
    then have "\<not> is_space c" "c \<noteq> CHR ''-''" "c \<noteq> CHR ''+''" by (auto simp: is_digit_def is_space_def)
    with cs show ?thesis by (simp add: c_sign_def)
  qed
  show ?thesis
  proof (cases "n < 0")
    case True
    then have "to_string_int n = CHR ''-'' # to_string_nat (nat (- n))" by (simp add: to_string_int_def)
    moreover have "\<not> is_space CHR ''-''" by (simp add: is_space_def)
    ultimately show ?thesis using True d by (simp add: strto_parts_def c_sign_def)
  next
    case False
    with hd d show ?thesis by (simp add: to_string_int_def strto_parts_def)
  qed
qed

lemma GetInt64_text:
  assumes "obj_item j k = Some (JStr (to_string_int n))" and "nul_free k" and "k \<noteq> []"
    and "- (2 ^ 63) \<le> n" and "n < 2 ^ 63"
  shows "GetInt64FromJson (Some j) k = Some n"
  using assms by (simp add: GetInt64FromJson_def IsKeyExist_def GetItemFromJson_def strto_to_string_int)

lemma GetUint64_text:
  assumes "obj_item j k = Some (JStr (to_string_nat (unat w)))" and "nul_free k" and "k \<noteq> []"
  shows "GetUint64FromJson (Some j) k = Some w"
proof -
  have "to_string_nat (unat w) = to_string_int (int (unat w))" by (simp add: to_string_int_def)
  then have "strto_parts (to_string_nat (unat w)) = Some (False, unat w)"
    using strto_to_string_int [of "int (unat w)"] by simp
  moreover have "unat w \<le> 2 ^ 64 - 1" using unsigned_less [of w, where ?'a = nat] by (simp add: less_Suc_eq_le [symmetric])
  ultimately show ?thesis
    using assms by (simp add: GetUint64FromJson_def IsKeyExist_def GetItemFromJson_def)
qed

end
