(* ===== verification/Json_Reference.thy ===== *)
theory Json_Reference
  imports Json_Utils
begin

text \<open>
  A reference text format for JSON trees. cJSON's printer and parser are parameters of the model;
  this theory gives a concrete pair of functions with the promise \<open>cjson_ok\<close> that the other
  theories assume of them, so that what is proved under the promise can be evaluated. The format is
  a prefix code: every node opens with a tag, strings escape each character, lists end with a
  bracket.
\<close>

section \<open>Printing\<close>

definition ref_str :: "string \<Rightarrow> string" where
  "ref_str s = concat (map (\<lambda>c. [CHR ''c'', c]) s) @ ''.''"

fun ref_print :: "json \<Rightarrow> string" where
  "ref_print JNull = ''n''"
| "ref_print (JBool b) = (if b then ''t'' else ''f'')"
| "ref_print (JNum i) = (if i < 0 then ''m'' else ''p'') @ to_string_nat (nat \<bar>i\<bar>) @ '';''"
| "ref_print (JStr s) = ''s'' @ ref_str s"
| "ref_print (JArr xs) = ''a'' @ concat (map ref_print xs) @ '']''"
| "ref_print (JObj kvs) = ''o'' @ concat (map (\<lambda>e. ''k'' @ ref_str (fst e) @ ref_print (snd e)) kvs) @ ''}''"

section \<open>Parsing\<close>

fun parse_str :: "string \<Rightarrow> (string \<times> string) option" where
  "parse_str [] = None"
| "parse_str (c # s) =
     (if c = CHR ''.'' then Some ([], s)
      else if c = CHR ''c'' then
        (case s of [] \<Rightarrow> None
         | d # t \<Rightarrow> (case parse_str t of None \<Rightarrow> None | Some (x, r) \<Rightarrow> Some (d # x, r)))
      else None)"

definition parse_num :: "string \<Rightarrow> (nat \<times> string) option" where
  "parse_num s = (let ds = takeWhile is_digit s; r = dropWhile is_digit s in
     case r of [] \<Rightarrow> None | c # r' \<Rightarrow> if ds \<noteq> [] \<and> c = CHR '';'' then Some (dec_val ds, r') else None)"

fun ref_parse :: "nat \<Rightarrow> string \<Rightarrow> (json \<times> string) option"
  and ref_parse_arr :: "nat \<Rightarrow> string \<Rightarrow> (json list \<times> string) option"
  and ref_parse_obj :: "nat \<Rightarrow> string \<Rightarrow> ((string \<times> json) list \<times> string) option" where
  "ref_parse 0 s = None"
| "ref_parse (Suc f) s =
     (case s of [] \<Rightarrow> None
      | c # r \<Rightarrow>
         if c = CHR ''n'' then Some (JNull, r)
         else if c = CHR ''t'' then Some (JBool True, r)
         else if c = CHR ''f'' then Some (JBool False, r)
         else if c = CHR ''m'' then map_option (\<lambda>(n, r'). (JNum (- int n), r')) (parse_num r)
         else if c = CHR ''p'' then map_option (\<lambda>(n, r'). (JNum (int n), r')) (parse_num r)
         else if c = CHR ''s'' then map_option (\<lambda>(x, r'). (JStr x, r')) (parse_str r)
         else if c = CHR ''a'' then map_option (\<lambda>(xs, r'). (JArr xs, r')) (ref_parse_arr f r)
         else if c = CHR ''o'' then map_option (\<lambda>(kvs, r'). (JObj kvs, r')) (ref_parse_obj f r)
         else None)"
| "ref_parse_arr 0 s = None"
| "ref_parse_arr (Suc f) s =
     (case s of [] \<Rightarrow> None
      | c # r \<Rightarrow>
         if c = CHR '']'' then Some ([], r)
         else (case ref_parse f s of None \<Rightarrow> None
               | Some (x, r') \<Rightarrow> map_option (\<lambda>(xs, r''). (x # xs, r'')) (ref_parse_arr f r')))"
| "ref_parse_obj 0 s = None"
| "ref_parse_obj (Suc f) s =
     (case s of [] \<Rightarrow> None
      | c # r \<Rightarrow>
         if c = CHR ''}'' then Some ([], r)
         else if c = CHR ''k'' then
           (case parse_str r of None \<Rightarrow> None
            | Some (k, r1) \<Rightarrow>
               (case ref_parse f r1 of None \<Rightarrow> None
                | Some (x, r2) \<Rightarrow> map_option (\<lambda>(kvs, r3). ((k, x) # kvs, r3)) (ref_parse_obj f r2)))
         else None)"

definition ref_read :: "string \<Rightarrow> json option" where
  "ref_read s = (case ref_parse (2 * length s) s of Some (j, []) \<Rightarrow> Some j | _ \<Rightarrow> None)"

definition ref_lib :: cjson_lib where
  "ref_lib = \<lparr>cj_parse = ref_read, cj_print = (\<lambda>j. Some (ref_print j))\<rparr>"

section \<open>The promise\<close>

lemma parse_str_ref [simp]: "parse_str (ref_str s @ r) = Some (s, r)"
  by (induction s) (simp_all add: ref_str_def)

lemma parse_num_ref [simp]: "parse_num (to_string_nat n @ CHR '';'' # r) = Some (n, r)"
proof -
  have "list_all is_digit (to_string_nat n)" by (auto simp: list_all_iff dest: to_string_digits)
  moreover have "\<not> is_digit (CHR '';'')" by (simp add: is_digit_def)
  ultimately have "takeWhile is_digit (to_string_nat n @ CHR '';'' # r) = to_string_nat n"
    and "dropWhile is_digit (to_string_nat n @ CHR '';'' # r) = CHR '';'' # r"
    by (simp_all add: list_all_iff takeWhile_append2 dropWhile_append2)
  then show ?thesis by (simp add: parse_num_def)
qed

lemma ref_print_cons: "\<exists>c r. ref_print j = c # r \<and> c \<noteq> CHR '']''"
  by (cases j) auto

lemma ref_print_length: "0 < length (ref_print j)"
  using ref_print_cons [of j] by auto

lemma ref_parse_arr_ref:
  assumes "\<And>x f r. x \<in> set xs \<Longrightarrow> 2 * length (ref_print x) \<le> f \<Longrightarrow> ref_parse f (ref_print x @ r) = Some (x, r)"
    and "2 * length (concat (map ref_print xs) @ '']'') + 1 \<le> f"
  shows "ref_parse_arr f (concat (map ref_print xs) @ CHR '']'' # r) = Some (xs, r)"
  using assms
proof (induction xs arbitrary: f)
  case Nil
  then show ?case by (cases f) simp_all
next
  case (Cons x xs)
  obtain g where f: "f = Suc g" using Cons.prems(2) by (cases f) simp_all
  obtain c t where "ref_print x = c # t" and "c \<noteq> CHR '']''" using ref_print_cons by blast
  moreover have "ref_parse g (ref_print x @ concat (map ref_print xs) @ CHR '']'' # r)
      = Some (x, concat (map ref_print xs) @ CHR '']'' # r)"
    using Cons.prems by (simp add: f)
  moreover have "ref_parse_arr g (concat (map ref_print xs) @ CHR '']'' # r) = Some (xs, r)"
    using Cons.prems calculation(1) by (intro Cons.IH) (simp_all add: f)
  ultimately show ?case by (simp add: f)
qed

lemma ref_parse_obj_ref:
  assumes "\<And>e f r. e \<in> set kvs \<Longrightarrow> 2 * length (ref_print (snd e)) \<le> f \<Longrightarrow>
      ref_parse f (ref_print (snd e) @ r) = Some (snd e, r)"
    and "2 * length (concat (map (\<lambda>e. ''k'' @ ref_str (fst e) @ ref_print (snd e)) kvs) @ ''}'') + 1 \<le> f"
  shows "ref_parse_obj f (concat (map (\<lambda>e. ''k'' @ ref_str (fst e) @ ref_print (snd e)) kvs) @ CHR ''}'' # r)
    = Some (kvs, r)"
  using assms
proof (induction kvs arbitrary: f)
  case Nil
  then show ?case by (cases f) simp_all
next
  case (Cons e kvs)
  obtain g where f: "f = Suc g" using Cons.prems(2) by (cases f) simp_all
  let ?t = "concat (map (\<lambda>e. ''k'' @ ref_str (fst e) @ ref_print (snd e)) kvs) @ CHR ''}'' # r"
  obtain c t where "ref_print (snd e) = c # t" using ref_print_cons by blast
  moreover have "ref_parse g (ref_print (snd e) @ ?t) = Some (snd e, ?t)"
    using Cons.prems(2) by (intro Cons.prems(1)) (simp_all add: f)
  moreover have "ref_parse_obj g ?t = Some (kvs, r)"
    using Cons.prems calculation(1) by (intro Cons.IH) (simp_all add: f)
  ultimately show ?case by (simp add: f)
qed

lemma ref_parse_print:
  "2 * length (ref_print j) \<le> f \<Longrightarrow> ref_parse f (ref_print j @ r) = Some (j, r)"
proof (induction j arbitrary: f r)
  case (JArr xs)
  then obtain g where f: "f = Suc g" by (cases f) simp_all
  have "ref_parse_arr g (concat (map ref_print xs) @ CHR '']'' # r) = Some (xs, r)"
    using JArr by (intro ref_parse_arr_ref) (simp_all add: f)
  then show ?case by (simp add: f)
next
  case (JObj kvs)
  then obtain g where f: "f = Suc g" by (cases f) simp_all
  have "ref_parse_obj g (concat (map (\<lambda>e. ''k'' @ ref_str (fst e) @ ref_print (snd e)) kvs) @ CHR ''}'' # r)
    = Some (kvs, r)"
    using JObj by (intro ref_parse_obj_ref) (auto simp: f snds.simps)
  then show ?case by (simp add: f)
next
  case (JBool b)
  then show ?case by (cases f; cases b) simp_all
next
  case (JNum i)
  then show ?case by (cases f; cases "i < 0") simp_all
next
  case (JStr s)
  then show ?case by (cases f) simp_all
next
  case JNull
  then show ?case by (cases f) simp_all
qed

lemma nul_free_concat [simp]: "nul_free (concat xs) = (\<forall>x \<in> set xs. nul_free x)"
  by (auto simp: nul_free_def)

lemma nul_free_ref_str [simp]: "nul_free (ref_str s) = nul_free s"
  by (auto simp: ref_str_def nul_free_def)

lemma nul_free_ref_print: "json_wf j \<Longrightarrow> nul_free (ref_print j)"
  by (induction j) (auto simp: snds.simps)

lemma ref_lib_ok:
  assumes "cj_parse L = ref_read" and "cj_print L = (\<lambda>j. Some (ref_print j))"
  shows "cjson_ok L"
proof -
  have "ref_read (ref_print j) = Some j" for j
    using ref_parse_print [of j _ "[]"] by (simp add: ref_read_def)
  then show ?thesis
    using assms ref_print_length nul_free_ref_print by (auto simp: cjson_ok_def)
qed

end
