(* ===== verification/App_Account_Info.thy ===== *)
theory App_Account_Info
  imports Json_Reference
begin

text \<open>
  The app account record and its operations
  (\<open>frameworks/appaccount/native/src/app_account_info.cpp\<close>). Every operation that may fail
  returns its \<open>ErrCode\<close> and the record as the code leaves it. The build switches
  \<open>HAS_ASSET_PART\<close> and \<open>ENABLE_MULTIPLE_OS_ACCOUNT_SUBSPACE\<close> are fields of the build environment,
  and the SHA-256 of OpenSSL, in upper-case hexadecimal, is its parameter \<open>sha256_hex\<close>.
\<close>

section \<open>Data\<close>

record build_env = cjson_lib +
  HAS_ASSET_PART :: bool
  ENABLE_SUBSPACE :: bool
  DISTRIBUTED_FEATURE :: bool
  sha256_hex :: "string \<Rightarrow> string"

record OAuthTokenInfo =
  ot_authType :: string
  ot_token :: string
  ot_authList :: "string sset"
  ot_status :: bool

definition OAuthTokenInfo_init :: OAuthTokenInfo where
  "OAuthTokenInfo_init = \<lparr>ot_authType = [], ot_token = [], ot_authList = [], ot_status = True\<rparr>"

record AppAccountInfo =
  ai_owner :: string
  ai_name :: string
  ai_alias :: string
  ai_appIndex :: u32
  ai_extraInfo :: string
  ai_authorizedApps :: "string sset"
  ai_syncEnable :: bool
  ai_associatedData :: string
  ai_accountCredential :: string
  ai_oauthTokens :: "(string, OAuthTokenInfo) smap"

definition MAX_TOKEN_NUMBER :: nat where "MAX_TOKEN_NUMBER = 128"
definition MAX_OAUTH_LIST_SIZE :: nat where "MAX_OAUTH_LIST_SIZE = 512"
definition MAX_ASSOCIATED_DATA_NUMBER :: nat where "MAX_ASSOCIATED_DATA_NUMBER = 1024"
definition MAX_APP_AUTH_LIST_SIZE :: nat where "MAX_APP_AUTH_LIST_SIZE = 1024"
definition MAX_CUSTOM_DATA_SIZE :: nat where "MAX_CUSTOM_DATA_SIZE = 1024"
definition API_VERSION9 :: nat where "API_VERSION9 = 9"

lemmas limit_defs = MAX_TOKEN_NUMBER_def MAX_OAUTH_LIST_SIZE_def MAX_ASSOCIATED_DATA_NUMBER_def
  MAX_APP_AUTH_LIST_SIZE_def MAX_CUSTOM_DATA_SIZE_def API_VERSION9_def

abbreviation HYPHEN :: string where "HYPHEN \<equiv> ''#''"

definition AppAccountInfo_new :: "string \<Rightarrow> string \<Rightarrow> AppAccountInfo" where
  "AppAccountInfo_new name owner =
     \<lparr>ai_owner = owner, ai_name = name, ai_alias = [], ai_appIndex = 0, ai_extraInfo = [],
      ai_authorizedApps = [], ai_syncEnable = False, ai_associatedData = [],
      ai_accountCredential = [], ai_oauthTokens = []\<rparr>"

definition AppAccountInfo_init :: AppAccountInfo where
  "AppAccountInfo_init = AppAccountInfo_new [] []"

definition SetOwner :: "string \<Rightarrow> AppAccountInfo \<Rightarrow> AppAccountInfo" where
  "SetOwner owner a = a\<lparr>ai_owner := owner, ai_alias := []\<rparr>"

definition SetName :: "string \<Rightarrow> AppAccountInfo \<Rightarrow> AppAccountInfo" where
  "SetName name a = a\<lparr>ai_name := name, ai_alias := []\<rparr>"

definition SetAppIndex :: "u32 \<Rightarrow> AppAccountInfo \<Rightarrow> AppAccountInfo" where
  "SetAppIndex appIndex a = a\<lparr>ai_appIndex := appIndex, ai_alias := []\<rparr>"

definition SetExtraInfo :: "string \<Rightarrow> AppAccountInfo \<Rightarrow> AppAccountInfo" where
  "SetExtraInfo extraInfo a = a\<lparr>ai_extraInfo := extraInfo\<rparr>"

definition SetSyncEnable :: "bool \<Rightarrow> AppAccountInfo \<Rightarrow> AppAccountInfo" where
  "SetSyncEnable syncEnable a = a\<lparr>ai_syncEnable := syncEnable\<rparr>"

section \<open>Keys\<close>

definition GetPrimeKey :: "AppAccountInfo \<Rightarrow> string" where
  "GetPrimeKey a =
     ai_owner a @ HYPHEN @ to_string_u32 (ai_appIndex a) @ HYPHEN @ ai_name a @ HYPHEN"

definition GetAlias :: "'z build_env_scheme \<Rightarrow> AppAccountInfo \<Rightarrow> string \<times> AppAccountInfo" where
  "GetAlias E a =
     (if HAS_ASSET_PART E \<and> ai_alias a = []
      then (let h = sha256_hex E (GetPrimeKey a) in (h, a\<lparr>ai_alias := h\<rparr>))
      else (ai_alias a, a))"

definition EncodeAuthorizedApp :: "'z build_env_scheme \<Rightarrow> string \<Rightarrow> u32 \<Rightarrow> string" where
  "EncodeAuthorizedApp E bundleName appIndex =
     (if ENABLE_SUBSPACE E then bundleName @ HYPHEN @ to_string_u32 appIndex
      else if appIndex = 0 then bundleName
      else bundleName @ HYPHEN @ to_string_u32 appIndex)"

text \<open>The digit loop of \<open>ParseAuthorizedApp\<close>: \<open>parsed\<close> is a \<open>uint64_t\<close> kept below \<open>2^32\<close>.\<close>

fun parse_index :: "nat \<Rightarrow> string \<Rightarrow> nat option" where
  "parse_index parsed [] = Some parsed"
| "parse_index parsed (c # s) =
     (if \<not> is_digit c then None
      else let p = parsed * 10 + digit_val c in if p > 0xFFFFFFFF then None else parse_index p s)"

definition ParseAuthorizedApp :: "string \<Rightarrow> (string \<times> u32) option" where
  "ParseAuthorizedApp entry =
     (if CHR ''#'' \<notin> set entry then Some (entry, 0)
      else let indexStr = rev (takeWhile (\<lambda>c. c \<noteq> CHR ''#'') (rev entry));
               bundleName = take (length entry - length indexStr - 1) entry
           in if indexStr = [] then None
              else (case parse_index 0 indexStr of None \<Rightarrow> None
                    | Some parsed \<Rightarrow> Some (bundleName, of_nat parsed)))"

definition IsSelfBundle :: "AppAccountInfo \<Rightarrow> string \<Rightarrow> bool" where
  "IsSelfBundle a bundleName =
     (case ParseAuthorizedApp bundleName of
        Some (rawBundle, appIdx) \<Rightarrow> rawBundle = ai_owner a \<and> appIdx = ai_appIndex a
      | None \<Rightarrow> bundleName = ai_owner a)"

section \<open>Access list\<close>

definition EnableAppAccess :: "string \<Rightarrow> nat \<Rightarrow> AppAccountInfo \<Rightarrow> ErrCode \<times> AppAccountInfo" where
  "EnableAppAccess authorizedApp apiVersion a =
     (let inserted = (authorizedApp \<notin> set (ai_authorizedApps a));
          a1 = a\<lparr>ai_authorizedApps := ss_insert authorizedApp (ai_authorizedApps a)\<rparr>
      in if \<not> inserted \<and> apiVersion < API_VERSION9
         then (ERR_APPACCOUNT_SERVICE_ENABLE_APP_ACCESS_ALREADY_EXISTS, a1)
         else if length (ai_authorizedApps a1) > MAX_APP_AUTH_LIST_SIZE
         then (ERR_APPACCOUNT_SERVICE_OAUTH_LIST_MAX_SIZE,
               a1\<lparr>ai_authorizedApps := ss_erase authorizedApp (ai_authorizedApps a1)\<rparr>)
         else (ERR_OK, a1))"

definition DisableAppAccess :: "string \<Rightarrow> nat \<Rightarrow> AppAccountInfo \<Rightarrow> ErrCode \<times> AppAccountInfo" where
  "DisableAppAccess authorizedApp apiVersion a =
     (let erased = (authorizedApp \<in> set (ai_authorizedApps a));
          a1 = a\<lparr>ai_authorizedApps := ss_erase authorizedApp (ai_authorizedApps a)\<rparr>
      in if \<not> erased \<and> apiVersion < API_VERSION9
         then (ERR_APPACCOUNT_SERVICE_DISABLE_APP_ACCESS_NOT_EXISTED, a1)
         else (ERR_OK, a1))"

definition CheckAppAccess :: "string \<Rightarrow> AppAccountInfo \<Rightarrow> ErrCode \<times> bool" where
  "CheckAppAccess authorizedApp a = (ERR_OK, authorizedApp \<in> set (ai_authorizedApps a))"

section \<open>Associated data and credentials\<close>

definition InitCustomData ::
  "'z build_env_scheme \<Rightarrow> (string, string) smap \<Rightarrow> AppAccountInfo \<Rightarrow> ErrCode \<times> AppAccountInfo" where
  "InitCustomData E data a =
     (let jsonObject = CreateJsonFromMap data in
      if jsonObject = None then (ERR_ACCOUNT_COMMON_DUMP_JSON_ERROR, a)
      else let a1 = a\<lparr>ai_associatedData := PackJsonToString E jsonObject\<rparr> in
           if ai_associatedData a1 = [] then (ERR_ACCOUNT_COMMON_DUMP_JSON_ERROR, a1) else (ERR_OK, a1))"

definition GetAllAssociatedData ::
  "'z build_env_scheme \<Rightarrow> AppAccountInfo \<Rightarrow> (string, string) smap \<Rightarrow> ErrCode \<times> (string, string) smap" where
  "GetAllAssociatedData E a data =
     (let jsonObject = CreateJsonFromString E (ai_associatedData a) in
      if jsonObject = None \<or> \<not> IsObject jsonObject then (ERR_ACCOUNT_COMMON_DUMP_JSON_ERROR, data)
      else (ERR_OK, PackJsonToMap jsonObject))"

definition GetAssociatedData ::
  "'z build_env_scheme \<Rightarrow> string \<Rightarrow> AppAccountInfo \<Rightarrow> string \<Rightarrow> ErrCode \<times> string" where
  "GetAssociatedData E key a val =
     (let jsonObject = (case CreateJsonFromString E (ai_associatedData a) of
                          None \<Rightarrow> CreateJson | Some j \<Rightarrow> Some j) in
      if \<not> IsKeyExist jsonObject key then (ERR_APPACCOUNT_SERVICE_ASSOCIATED_DATA_KEY_NOT_EXIST, val)
      else (ERR_OK, case GetStringFromJson jsonObject key of None \<Rightarrow> [] | Some s \<Rightarrow> s))"

definition SetAssociatedData ::
  "'z build_env_scheme \<Rightarrow> string \<Rightarrow> string \<Rightarrow> AppAccountInfo \<Rightarrow> ErrCode \<times> AppAccountInfo" where
  "SetAssociatedData E key val a =
     (let jsonObject = (case CreateJsonFromString E (ai_associatedData a) of
                          None \<Rightarrow> CreateJson | Some j \<Rightarrow> Some j) in
      if \<not> IsKeyExist jsonObject key \<and> GetItemNum jsonObject \<ge> MAX_ASSOCIATED_DATA_NUMBER
      then (ERR_APPACCOUNT_SERVICE_ASSOCIATED_DATA_OVER_SIZE, a)
      else let (success, jsonObject) = AddStringToJson jsonObject key val in
           if \<not> success then (ERR_ACCOUNT_COMMON_DUMP_JSON_ERROR, a)
           else let a1 = a\<lparr>ai_associatedData := PackJsonToString E jsonObject\<rparr> in
                if ai_associatedData a1 = [] then (ERR_ACCOUNT_COMMON_DUMP_JSON_ERROR, a1)
                else (ERR_OK, a1))"

definition GetAccountCredential ::
  "'z build_env_scheme \<Rightarrow> string \<Rightarrow> AppAccountInfo \<Rightarrow> string \<Rightarrow> ErrCode \<times> string" where
  "GetAccountCredential E credentialType a credential =
     (let jsonObject = (case CreateJsonFromString E (ai_accountCredential a) of
                          None \<Rightarrow> CreateJson | Some j \<Rightarrow> Some j) in
      if \<not> IsKeyExist jsonObject credentialType
      then (ERR_APPACCOUNT_SERVICE_ACCOUNT_CREDENTIAL_NOT_EXIST, credential)
      else (ERR_OK, case GetStringFromJson jsonObject credentialType of None \<Rightarrow> [] | Some s \<Rightarrow> s))"

definition SetAccountCredential ::
  "'z build_env_scheme \<Rightarrow> string \<Rightarrow> string \<Rightarrow> AppAccountInfo \<Rightarrow> ErrCode \<times> AppAccountInfo" where
  "SetAccountCredential E credentialType credential a =
     (let jsonObject = (if ai_accountCredential a = [] then CreateJson
                        else CreateJsonFromString E (ai_accountCredential a)) in
      if ai_accountCredential a \<noteq> [] \<and> (jsonObject = None \<or> \<not> IsObject jsonObject)
      then (ERR_ACCOUNT_COMMON_BAD_JSON_FORMAT_ERROR, a)
      else if HAS_ASSET_PART E \<and> IsKeyExist jsonObject credentialType then (ERR_OK, a)
      else let credentialTypeAlias = sha256_hex E credentialType;
               (alias, a1) = (if HAS_ASSET_PART E then GetAlias E a else ([], a));
               stored = (if HAS_ASSET_PART E then alias @ credentialTypeAlias else credential);
               (success, jsonObject) = AddStringToJson jsonObject credentialType stored in
           if \<not> success then (ERR_ACCOUNT_COMMON_DUMP_JSON_ERROR, a1)
           else let a2 = a1\<lparr>ai_accountCredential := PackJsonToString E jsonObject\<rparr> in
                if ai_accountCredential a2 = [] then (ERR_ACCOUNT_COMMON_DUMP_JSON_ERROR, a2)
                else (ERR_OK, a2))"

definition DeleteAccountCredential ::
  "'z build_env_scheme \<Rightarrow> string \<Rightarrow> AppAccountInfo \<Rightarrow> ErrCode \<times> AppAccountInfo" where
  "DeleteAccountCredential E credentialType a =
     (let jsonObject = CreateJsonFromString E (ai_accountCredential a);
          (n, jsonObject') = DeleteItemFromJson jsonObject credentialType in
      if jsonObject = None \<or> \<not> IsObject jsonObject \<or> n = 0
      then (ERR_APPACCOUNT_SERVICE_ACCOUNT_CREDENTIAL_NOT_EXIST, a)
      else (ERR_OK, a\<lparr>ai_accountCredential := PackJsonToString E jsonObject'\<rparr>))"

section \<open>OAuth tokens\<close>

definition GetOAuthToken :: "string \<Rightarrow> nat \<Rightarrow> AppAccountInfo \<Rightarrow> ErrCode \<times> string" where
  "GetOAuthToken authType apiVersion a =
     (case map_of (ai_oauthTokens a) authType of
        None \<Rightarrow> (ERR_APPACCOUNT_SERVICE_OAUTH_TOKEN_NOT_EXIST, [])
      | Some t \<Rightarrow>
          if apiVersion \<ge> API_VERSION9
          then (if \<not> ot_status t then (ERR_APPACCOUNT_SERVICE_OAUTH_TOKEN_NOT_EXIST, [])
                else (ERR_OK, ot_token t))
          else (if ot_token t = [] then (ERR_APPACCOUNT_SERVICE_OAUTH_TOKEN_NOT_EXIST, [])
                else (ERR_OK, ot_token t)))"

definition SetOAuthToken ::
  "'z build_env_scheme \<Rightarrow> string \<Rightarrow> string \<Rightarrow> AppAccountInfo \<Rightarrow> ErrCode \<times> AppAccountInfo" where
  "SetOAuthToken E authType token a =
     (case map_of (ai_oauthTokens a) authType of
        Some t \<Rightarrow>
          let t1 = (if HAS_ASSET_PART E then t else t\<lparr>ot_token := token\<rparr>);
              t2 = t1\<lparr>ot_status := True\<rparr>
          in (ERR_OK, a\<lparr>ai_oauthTokens := sm_put authType t2 (ai_oauthTokens a)\<rparr>)
      | None \<Rightarrow>
          if length (ai_oauthTokens a) \<ge> MAX_TOKEN_NUMBER
          then (ERR_APPACCOUNT_SERVICE_OAUTH_TOKEN_MAX_SIZE, a)
          else let (alias, a1) = (if HAS_ASSET_PART E then GetAlias E a else ([], a));
                   stored = (if HAS_ASSET_PART E then alias @ sha256_hex E authType else token);
                   t = OAuthTokenInfo_init\<lparr>ot_status := (token \<noteq> []), ot_token := stored\<rparr>
               in (ERR_OK, a1\<lparr>ai_oauthTokens := sm_emplace authType t (ai_oauthTokens a1)\<rparr>))"

definition DeleteOAuthToken ::
  "'z build_env_scheme \<Rightarrow> string \<Rightarrow> string \<Rightarrow> AppAccountInfo \<Rightarrow> ErrCode \<times> AppAccountInfo" where
  "DeleteOAuthToken E authType token a =
     (case map_of (ai_oauthTokens a) authType of
        None \<Rightarrow> (ERR_APPACCOUNT_SERVICE_OAUTH_TOKEN_NOT_EXIST, a)
      | Some t \<Rightarrow>
          if ot_token t = token
          then let t1 = (if HAS_ASSET_PART E then t else t\<lparr>ot_token := []\<rparr>);
                   t2 = t1\<lparr>ot_status := False\<rparr>
               in (ERR_OK, a\<lparr>ai_oauthTokens := sm_put authType t2 (ai_oauthTokens a)\<rparr>)
          else (ERR_APPACCOUNT_SERVICE_OAUTH_TOKEN_NOT_EXIST, a))"

definition DeleteAuthToken ::
  "string \<Rightarrow> string \<Rightarrow> bool \<Rightarrow> AppAccountInfo \<Rightarrow> ErrCode \<times> AppAccountInfo" where
  "DeleteAuthToken authType token isOwnerSelf a =
     (case map_of (ai_oauthTokens a) authType of
        None \<Rightarrow> (ERR_APPACCOUNT_SERVICE_OAUTH_TOKEN_NOT_EXIST, a)
      | Some t \<Rightarrow>
          if ot_token t \<noteq> token then (ERR_OK, a)
          else if isOwnerSelf
          then (ERR_OK, a\<lparr>ai_oauthTokens := sm_erase authType (ai_oauthTokens a)\<rparr>)
          else (ERR_OK, a\<lparr>ai_oauthTokens := sm_put authType (t\<lparr>ot_status := False\<rparr>) (ai_oauthTokens a)\<rparr>))"

definition SetOAuthTokenVisibility ::
  "string \<Rightarrow> string \<Rightarrow> bool \<Rightarrow> nat \<Rightarrow> AppAccountInfo \<Rightarrow> ErrCode \<times> AppAccountInfo" where
  "SetOAuthTokenVisibility authType bundleName isVisible apiVersion a =
     (if bundleName = ai_owner a \<or> IsSelfBundle a bundleName then (ERR_OK, a)
      else (case map_of (ai_oauthTokens a) authType of
        None \<Rightarrow>
          if apiVersion \<ge> API_VERSION9 then (ERR_APPACCOUNT_SERVICE_OAUTH_TYPE_NOT_EXIST, a)
          else if \<not> isVisible then (ERR_OK, a)
          else if length (ai_oauthTokens a) \<ge> MAX_TOKEN_NUMBER
          then (ERR_APPACCOUNT_SERVICE_OAUTH_TOKEN_MAX_SIZE, a)
          else let t = OAuthTokenInfo_init\<lparr>ot_authList := ss_insert bundleName []\<rparr>
               in (ERR_OK, a\<lparr>ai_oauthTokens := sm_emplace authType t (ai_oauthTokens a)\<rparr>)
      | Some t \<Rightarrow>
          if \<not> isVisible
          then (ERR_OK, a\<lparr>ai_oauthTokens :=
                  sm_put authType (t\<lparr>ot_authList := ss_erase bundleName (ot_authList t)\<rparr>) (ai_oauthTokens a)\<rparr>)
          else let l = ss_insert bundleName (ot_authList t) in
               if length l > MAX_OAUTH_LIST_SIZE
               then (ERR_APPACCOUNT_SERVICE_OAUTH_LIST_MAX_SIZE,
                     a\<lparr>ai_oauthTokens :=
                         sm_put authType (t\<lparr>ot_authList := ss_erase bundleName l\<rparr>) (ai_oauthTokens a)\<rparr>)
               else (ERR_OK, a\<lparr>ai_oauthTokens :=
                         sm_put authType (t\<lparr>ot_authList := l\<rparr>) (ai_oauthTokens a)\<rparr>)))"

definition CheckOAuthTokenVisibility ::
  "string \<Rightarrow> string \<Rightarrow> nat \<Rightarrow> AppAccountInfo \<Rightarrow> ErrCode \<times> bool" where
  "CheckOAuthTokenVisibility authType bundleName apiVersion a =
     (if bundleName = ai_owner a \<or> IsSelfBundle a bundleName then (ERR_OK, True)
      else (case map_of (ai_oauthTokens a) authType of
        None \<Rightarrow> if apiVersion \<ge> API_VERSION9 then (ERR_APPACCOUNT_SERVICE_OAUTH_TYPE_NOT_EXIST, False)
                else (ERR_OK, False)
      | Some t \<Rightarrow> (ERR_OK, bundleName \<in> set (ot_authList t))))"

definition GetAllOAuthTokens :: "AppAccountInfo \<Rightarrow> ErrCode \<times> OAuthTokenInfo list" where
  "GetAllOAuthTokens a = (ERR_OK, map snd (ai_oauthTokens a))"

definition GetOAuthList :: "string \<Rightarrow> nat \<Rightarrow> AppAccountInfo \<Rightarrow> ErrCode \<times> string sset" where
  "GetOAuthList authType apiVersion a =
     (case map_of (ai_oauthTokens a) authType of
        None \<Rightarrow> if apiVersion \<ge> API_VERSION9 then (ERR_APPACCOUNT_SERVICE_OAUTH_TYPE_NOT_EXIST, [])
                else (ERR_OK, [])
      | Some t \<Rightarrow> (ERR_OK, ot_authList t))"


section \<open>The life of an account record\<close>

text \<open>The capacities the operations enforce, and the order of the containers.\<close>

definition token_wf :: "OAuthTokenInfo \<Rightarrow> bool" where
  "token_wf t \<longleftrightarrow> ss_wf (ot_authList t) \<and> length (ot_authList t) \<le> MAX_OAUTH_LIST_SIZE"

definition tokens_wf :: "(string, OAuthTokenInfo) smap \<Rightarrow> bool" where
  "tokens_wf m \<longleftrightarrow> sm_wf m \<and> length m \<le> MAX_TOKEN_NUMBER \<and> (\<forall>e \<in> set m. token_wf (snd e))"

definition info_wf :: "AppAccountInfo \<Rightarrow> bool" where
  "info_wf a \<longleftrightarrow> ss_wf (ai_authorizedApps a) \<and> length (ai_authorizedApps a) \<le> MAX_APP_AUTH_LIST_SIZE
     \<and> tokens_wf (ai_oauthTokens a)"

text \<open>One call of a mutating operation, whatever it returns.\<close>

inductive info_step :: "'z build_env_scheme \<Rightarrow> AppAccountInfo \<Rightarrow> AppAccountInfo \<Rightarrow> bool"
  for E where
  step_owner: "info_step E a (SetOwner s a)"
| step_name: "info_step E a (SetName s a)"
| step_index: "info_step E a (SetAppIndex i a)"
| step_extra: "info_step E a (SetExtraInfo s a)"
| step_sync: "info_step E a (SetSyncEnable b a)"
| step_enable: "info_step E a (snd (EnableAppAccess app v a))"
| step_disable: "info_step E a (snd (DisableAppAccess app v a))"
| step_custom: "info_step E a (snd (InitCustomData E m a))"
| step_assoc: "info_step E a (snd (SetAssociatedData E k s a))"
| step_cred: "info_step E a (snd (SetAccountCredential E k s a))"
| step_del_cred: "info_step E a (snd (DeleteAccountCredential E k a))"
| step_token: "info_step E a (snd (SetOAuthToken E k s a))"
| step_del_token: "info_step E a (snd (DeleteOAuthToken E k s a))"
| step_del_auth: "info_step E a (snd (DeleteAuthToken k s b a))"
| step_visible: "info_step E a (snd (SetOAuthTokenVisibility k app b v a))"

inductive_cases info_stepE: "info_step E a b"

lemma token_wf_init [simp]: "token_wf OAuthTokenInfo_init"
  by (simp add: token_wf_def OAuthTokenInfo_init_def)

lemma token_wf_upd [simp]:
  "token_wf (t\<lparr>ot_token := x\<rparr>) = token_wf t"
  "token_wf (t\<lparr>ot_status := b\<rparr>) = token_wf t"
  by (simp_all add: token_wf_def)

lemma tokens_wf_find: "tokens_wf m \<Longrightarrow> map_of m k = Some t \<Longrightarrow> token_wf t"
  by (auto simp: tokens_wf_def dest!: map_of_SomeD)

lemma set_sm_put_subset: "set (sm_put k v m) \<subseteq> insert (k, v) (set m)"
  by (induction m) auto

lemma tokens_wf_put [wf_intros]:
  assumes "tokens_wf m" and "token_wf u" and "map_of m k = None \<Longrightarrow> length m < MAX_TOKEN_NUMBER"
  shows "tokens_wf (sm_put k u m)"
proof -
  have "length (sm_put k u m) \<le> MAX_TOKEN_NUMBER"
  proof (cases "map_of m k")
    case None
    then show ?thesis using assms(3) length_sm_put [of k u m] by simp
  next
    case (Some t)
    then show ?thesis using assms(1) length_sm_put_present by (fastforce simp: tokens_wf_def)
  qed
  with assms set_sm_put_subset [of k u m] show ?thesis
    unfolding tokens_wf_def by (auto dest: subsetD)
qed

lemma tokens_wf_erase [wf_intros]: "tokens_wf m \<Longrightarrow> tokens_wf (sm_erase k m)"
  by (auto simp: tokens_wf_def sm_erase_def intro: sm_wf_erase [unfolded sm_erase_def]
      order.trans [OF length_filter_le])

lemma ss_length_insert: "ss_wf s \<Longrightarrow> length (ss_insert x s) = (if x \<in> set s then length s else Suc (length s))"
  by (simp add: ss_wf_card insert_absorb)

lemma ss_length_erase: "length (ss_erase x s) \<le> length s"
  by (simp add: ss_erase_def)

lemma ss_erase_insert_length: "ss_wf s \<Longrightarrow> length (ss_erase x (ss_insert x s)) \<le> length s"
  by (simp add: ss_wf_card card_mono)

lemma GetAlias_fields [simp]:
  "ai_owner (snd (GetAlias E a)) = ai_owner a"
  "ai_oauthTokens (snd (GetAlias E a)) = ai_oauthTokens a"
  "ai_authorizedApps (snd (GetAlias E a)) = ai_authorizedApps a"
  by (auto simp: GetAlias_def Let_def)

lemma info_wf_enable: "info_wf a \<Longrightarrow> info_wf (snd (EnableAppAccess app v a))"
  using ss_erase_insert_length [of "ai_authorizedApps a" app]
  by (auto simp: info_wf_def EnableAppAccess_def Let_def insert_absorb ss_insert_absorb)

lemma info_wf_disable: "info_wf a \<Longrightarrow> info_wf (snd (DisableAppAccess app v a))"
  using ss_length_erase [of app "ai_authorizedApps a"]
  by (auto simp: info_wf_def DisableAppAccess_def Let_def intro: order.trans)

lemma info_wf_token: "info_wf a \<Longrightarrow> info_wf (snd (SetOAuthToken E k s a))"
  by (auto simp: info_wf_def SetOAuthToken_def Let_def sm_emplace_def split_beta
      split: option.split intro!: wf_intros dest: tokens_wf_find)

lemma info_wf_visibility: "info_wf a \<Longrightarrow> info_wf (snd (SetOAuthTokenVisibility k app b v a))"
proof -
  assume wf: "info_wf a"
  have one: "token_wf (OAuthTokenInfo_init\<lparr>ot_authList := [app]\<rparr>)"
    by (simp add: token_wf_def limit_defs ss_wf_def)
  have "token_wf (t\<lparr>ot_authList := ss_erase app (ot_authList t)\<rparr>)"
    "token_wf (t\<lparr>ot_authList := ss_erase app (ss_insert app (ot_authList t))\<rparr>)"
    if "map_of (ai_oauthTokens a) k = Some t" for t
    using tokens_wf_find [OF _ that] wf ss_length_erase [of app "ot_authList t"]
      ss_erase_insert_length [of "ot_authList t" app]
    by (auto simp: info_wf_def token_wf_def)
  with wf one show ?thesis
    by (auto simp: info_wf_def SetOAuthTokenVisibility_def Let_def sm_emplace_def token_wf_def
        split: option.split intro!: wf_intros dest: tokens_wf_find)
qed

lemma info_wf_other [simp]:
  "info_wf (snd (InitCustomData E m a)) = info_wf a"
  "info_wf (snd (SetAssociatedData E k s a)) = info_wf a"
  "info_wf (snd (SetAccountCredential E k s a)) = info_wf a"
  "info_wf (snd (DeleteAccountCredential E k a)) = info_wf a"
  by (simp_all add: info_wf_def InitCustomData_def SetAssociatedData_def SetAccountCredential_def
      DeleteAccountCredential_def Let_def split_beta)

lemma info_wf_del_token: "info_wf a \<Longrightarrow> info_wf (snd (DeleteOAuthToken E k s a))"
  by (auto simp: info_wf_def DeleteOAuthToken_def Let_def split: option.split
      intro!: wf_intros dest: tokens_wf_find)

lemma info_wf_del_auth: "info_wf a \<Longrightarrow> info_wf (snd (DeleteAuthToken k s b a))"
  by (auto simp: info_wf_def DeleteAuthToken_def Let_def split: option.split
      intro!: wf_intros dest: tokens_wf_find)

lemma info_step_wf: "info_step E a b \<Longrightarrow> info_wf a \<Longrightarrow> info_wf b"
  by (erule info_stepE)
    (simp_all add: info_wf_enable info_wf_disable info_wf_token info_wf_visibility
      info_wf_del_token info_wf_del_auth,
     simp_all add: info_wf_def SetOwner_def SetName_def SetAppIndex_def SetExtraInfo_def
      SetSyncEnable_def)



section \<open>Keys and encoded application names\<close>

lemma parse_index_digits:
  assumes "list_all is_digit s" and "foldl (\<lambda>n c. n * 10 + digit_val c) p s \<le> 0xFFFFFFFF"
  shows "parse_index p s = Some (foldl (\<lambda>n c. n * 10 + digit_val c) p s)"
  using assms
proof (induction s arbitrary: p)
  case (Cons c s)
  have "q \<le> foldl (\<lambda>n c. n * 10 + digit_val c) q s" for q
  proof (induction s arbitrary: q)
    case (Cons d s)
    from Cons [of "q * 10 + digit_val d"] show ?case by simp
  qed simp
  from this [of "p * 10 + digit_val c"] Cons show ?case
    by (simp add: Let_def)
qed simp

lemma parse_index_to_string: "parse_index 0 (to_string_u32 i) = Some (unat i)"
proof -
  have "dec_val (to_string_u32 i) \<le> 0xFFFFFFFF"
    using unsigned_less [of i, where 'a = nat] by simp
  moreover have "list_all is_digit (to_string_u32 i)"
    by (auto simp: list_all_iff dest: to_string_digits)
  ultimately show ?thesis
    using parse_index_digits [of "to_string_u32 i" 0] dec_val_to_string [of "unat i"]
    unfolding dec_val_def by simp
qed

lemma ParseAuthorizedApp_indexed: "ParseAuthorizedApp (b @ HYPHEN @ to_string_u32 i) = Some (b, i)"
proof -
  have "takeWhile (\<lambda>c. c \<noteq> CHR ''#'') (rev (b @ HYPHEN @ to_string_u32 i)) = rev (to_string_u32 i)"
  proof -
    have "CHR ''#'' \<notin> set (rev (to_string_u32 i))" by simp
    then show ?thesis by (simp add: takeWhile_append2 takeWhile_tail del: set_rev) (metis (mono_tags, lifting) append_Nil2 takeWhile_append2 takeWhile.simps(2))
  qed
  then show ?thesis
    by (simp add: ParseAuthorizedApp_def parse_index_to_string Let_def)
qed

text \<open>
  The authorised-application entry the services store is decoded to the bundle name
  and clone index it was made from. Only a build without subspaces, which stores the main application
  under its bare name, needs that name to be free of the separator.
\<close>

theorem authorized_app_roundtrip:
  assumes "ENABLE_SUBSPACE E \<or> appIndex \<noteq> 0 \<or> CHR ''#'' \<notin> set bundleName"
  shows "ParseAuthorizedApp (EncodeAuthorizedApp E bundleName appIndex) = Some (bundleName, appIndex)"
proof (cases "ENABLE_SUBSPACE E \<or> appIndex \<noteq> 0")
  case True
  then show ?thesis
    by (auto simp: EncodeAuthorizedApp_def ParseAuthorizedApp_indexed [simplified])
next
  case False
  with assms show ?thesis by (simp add: EncodeAuthorizedApp_def ParseAuthorizedApp_def)
qed

lemma GetPrimeKey_cong_iff:
  assumes "CHR ''#'' \<notin> set (ai_owner a)" and "CHR ''#'' \<notin> set (ai_owner b)"
  shows "GetPrimeKey a = GetPrimeKey b \<longleftrightarrow>
    ai_owner a = ai_owner b \<and> ai_appIndex a = ai_appIndex b \<and> ai_name a = ai_name b"
proof
  assume "GetPrimeKey a = GetPrimeKey b"
  then have "ai_owner a @ CHR ''#'' # (to_string_u32 (ai_appIndex a) @ CHR ''#'' # (ai_name a @ HYPHEN))
      = ai_owner b @ CHR ''#'' # (to_string_u32 (ai_appIndex b) @ CHR ''#'' # (ai_name b @ HYPHEN))"
    by (simp add: GetPrimeKey_def)
  from sep_append_inject [OF assms this]
  have "ai_owner a = ai_owner b" and
    *: "to_string_u32 (ai_appIndex a) @ CHR ''#'' # (ai_name a @ HYPHEN)
      = to_string_u32 (ai_appIndex b) @ CHR ''#'' # (ai_name b @ HYPHEN)"
    by auto
  moreover from sep_append_inject [OF _ _ *]
  have "ai_appIndex a = ai_appIndex b" and "ai_name a = ai_name b"
    by (auto simp: word_unat_eq_iff)
  ultimately show "ai_owner a = ai_owner b \<and> ai_appIndex a = ai_appIndex b \<and> ai_name a = ai_name b"
    by blast
qed (simp add: GetPrimeKey_def)


section \<open>Behaviour of the operations\<close>

text \<open>
  The access list behaves as a set of at most 1024 applications:
  \<open>EnableAppAccess\<close> adds exactly its argument when it succeeds and leaves the set as it was
  when it fails, which happens for a repeated entry below API 9 and for a new entry of a full list.
\<close>

theorem enable_access_spec:
  assumes "info_wf a" and "EnableAppAccess app v a = (r, b)"
  shows "r = (if app \<in> set (ai_authorizedApps a) \<and> v < API_VERSION9
              then ERR_APPACCOUNT_SERVICE_ENABLE_APP_ACCESS_ALREADY_EXISTS
              else if app \<notin> set (ai_authorizedApps a) \<and> length (ai_authorizedApps a) = MAX_APP_AUTH_LIST_SIZE
              then ERR_APPACCOUNT_SERVICE_OAUTH_LIST_MAX_SIZE else ERR_OK)
     \<and> (\<forall>x. snd (CheckAppAccess x b) = (snd (CheckAppAccess x a) \<or> r = ERR_OK \<and> x = app))
     \<and> b = a\<lparr>ai_authorizedApps := ai_authorizedApps b\<rparr>"
  using assms
  by (auto simp: EnableAppAccess_def CheckAppAccess_def info_wf_def Let_def ss_length_insert
      ss_insert_absorb ss_erase_insert split: if_splits)

text \<open>
  \<open>DisableAppAccess\<close> removes exactly its argument; it reports an absent
  entry only below API 9, and then the list is unchanged.
\<close>

theorem disable_access_spec:
  assumes "DisableAppAccess app v a = (r, b)"
  shows "r = (if app \<notin> set (ai_authorizedApps a) \<and> v < API_VERSION9
              then ERR_APPACCOUNT_SERVICE_DISABLE_APP_ACCESS_NOT_EXISTED else ERR_OK)
     \<and> (\<forall>x. snd (CheckAppAccess x b) = (snd (CheckAppAccess x a) \<and> x \<noteq> app))
     \<and> (r \<noteq> ERR_OK \<longrightarrow> b = a)"
  using assms
  by (auto simp: DisableAppAccess_def CheckAppAccess_def Let_def split: if_splits)

text \<open>The JSON object behind a stored text, as the associated-data functions read it.\<close>

definition stored_obj :: "'z build_env_scheme \<Rightarrow> string \<Rightarrow> json" where
  "stored_obj E s = (case CreateJsonFromString E s of None \<Rightarrow> JObj [] | Some j \<Rightarrow> j)"

lemma stored_obj_pack [simp]:
  "cjson_ok E \<Longrightarrow> json_wf j \<Longrightarrow> stored_obj E (PackJsonToString E (Some j)) = j"
  by (simp add: stored_obj_def pack_then_create(3))

lemma stored_case [simp]:
  "(case CreateJsonFromString E s of None \<Rightarrow> CreateJson | Some j \<Rightarrow> Some j) = Some (stored_obj E s)"
  by (simp add: stored_obj_def CreateJson_def split: option.split)

lemma GetAssociatedData_stored:
  "GetAssociatedData E k a d =
     (case (if k = [] then None else obj_item (stored_obj E (ai_associatedData a)) (c_str k)) of
        None \<Rightarrow> (ERR_APPACCOUNT_SERVICE_ASSOCIATED_DATA_KEY_NOT_EXIST, d)
      | Some (JStr s) \<Rightarrow> (ERR_OK, s)
      | Some _ \<Rightarrow> (ERR_OK, []))"
  by (auto simp: GetAssociatedData_def IsKeyExist_def GetStringFromJson_def Let_def
      split: option.split json.split)

lemma SetAssociatedData_stored:
  assumes "cjson_ok E" and "json_wf (stored_obj E (ai_associatedData a))"
    and "key \<noteq> []" and "nul_free key" and "nul_free val"
  shows "SetAssociatedData E key val a =
    (let j = stored_obj E (ai_associatedData a) in
     if obj_item j key = None \<and> array_size j \<ge> MAX_ASSOCIATED_DATA_NUMBER
     then (ERR_APPACCOUNT_SERVICE_ASSOCIATED_DATA_OVER_SIZE, a)
     else (ERR_OK, a\<lparr>ai_associatedData := PackJsonToString E (Some (obj_put j key (JStr val)))\<rparr>))"
proof -
  have "json_wf (obj_put (stored_obj E (ai_associatedData a)) key (JStr val))"
    using assms by (simp add: json_wf_put)
  with assms pack_then_create(1) [OF assms(1) this] show ?thesis
    by (auto simp: SetAssociatedData_def IsKeyExist_def GetItemNum_def AddStringToJson_def AddItem_def
        Let_def)
qed

text \<open>
  After \<open>SetAssociatedData(key, value)\<close> succeeds, \<open>GetAssociatedData\<close>
  returns the value for that key and the old answer for every other key; it is refused exactly when
  a new key would exceed 1024 entries, and a refused call changes nothing.
\<close>

theorem associated_data_set_get:
  assumes "cjson_ok E" and "json_wf (stored_obj E (ai_associatedData a))"
    and "is_obj (stored_obj E (ai_associatedData a))"
    and "key \<noteq> []" and "nul_free key" and "nul_free val" and "nul_free k"
    and "SetAssociatedData E key val a = (r, b)"
  shows "GetAssociatedData E k b d =
           (if r = ERR_OK \<and> k = key then (ERR_OK, val) else GetAssociatedData E k a d)
     \<and> (r \<noteq> ERR_OK \<longrightarrow> b = a \<and> array_size (stored_obj E (ai_associatedData a)) \<ge> 1024
          \<and> fst (GetAssociatedData E key a d) = ERR_APPACCOUNT_SERVICE_ASSOCIATED_DATA_KEY_NOT_EXIST)"
proof -
  let ?j = "stored_obj E (ai_associatedData a)"
  have "json_wf (obj_put ?j key (JStr val))"
    using assms by (simp add: json_wf_put)
  then have "obj_item (stored_obj E (PackJsonToString E (Some (obj_put ?j key (JStr val))))) =
      (obj_item ?j)(key \<mapsto> JStr val)"
    using assms(1,3) by (simp add: obj_item_put)
  moreover have "(r, b) = (if obj_item ?j key = None \<and> array_size ?j \<ge> MAX_ASSOCIATED_DATA_NUMBER
     then (ERR_APPACCOUNT_SERVICE_ASSOCIATED_DATA_OVER_SIZE, a)
     else (ERR_OK, a\<lparr>ai_associatedData := PackJsonToString E (Some (obj_put ?j key (JStr val)))\<rparr>))"
    using SetAssociatedData_stored [OF assms(1,2,4,5,6)] assms(8) by (simp add: Let_def)
  ultimately show ?thesis
    using assms(4,5,7)
    by (auto simp: GetAssociatedData_stored limit_defs split: if_splits)
qed


text \<open>
  On a build without the asset service a credential that was set is read back, the
  other credential types are untouched, and after \<open>DeleteAccountCredential\<close> the type no
  longer exists.
\<close>

theorem credential_set_get:
  assumes "cjson_ok E" and "\<not> HAS_ASSET_PART E"
    and "ai_accountCredential a = [] \<or> IsObject (CreateJsonFromString E (ai_accountCredential a))"
    and "json_wf (stored_obj E (ai_accountCredential a))"
    and "ty \<noteq> []" and "nul_free ty" and "nul_free cred" and "nul_free k"
  shows "\<exists>b. SetAccountCredential E ty cred a = (ERR_OK, b)
     \<and> GetAccountCredential E k b d = (if k = ty then (ERR_OK, cred) else GetAccountCredential E k a d)"
proof -
  let ?j = "stored_obj E (ai_accountCredential a)"
  have obj: "is_obj ?j"
    using assms(3) by (cases "ai_accountCredential a = []")
      (auto simp: stored_obj_def IsObject_def is_obj_def CreateJsonFromString_def
        split: option.splits json.splits)
  have start: "(if ai_accountCredential a = [] then CreateJson
      else CreateJsonFromString E (ai_accountCredential a)) = Some ?j"
    using assms(3) by (cases "ai_accountCredential a = []")
      (auto simp: stored_obj_def CreateJson_def CreateJsonFromString_def IsObject_def split: option.splits)
  have wf: "json_wf (obj_put ?j ty (JStr cred))"
    using assms by (simp add: json_wf_put)
  have "SetAccountCredential E ty cred a =
      (ERR_OK, a\<lparr>ai_accountCredential := PackJsonToString E (Some (obj_put ?j ty (JStr cred)))\<rparr>)"
    using assms(2,5,6,7) start pack_then_create(1) [OF assms(1) wf] obj
    by (auto simp: SetAccountCredential_def AddStringToJson_def AddItem_def Let_def IsObject_def is_obj_def)
  moreover have "obj_item (stored_obj E (PackJsonToString E (Some (obj_put ?j ty (JStr cred))))) =
      (obj_item ?j)(ty \<mapsto> JStr cred)"
    using assms(1) wf obj by (simp add: obj_item_put)
  ultimately show ?thesis
    using assms(5,6,8)
    by (auto simp: GetAccountCredential_def IsKeyExist_def GetStringFromJson_def Let_def)
qed

lemma GetOAuthToken_put [simp]:
  "GetOAuthToken k v (a\<lparr>ai_oauthTokens := sm_put ty t m\<rparr>) =
     (if k = ty
      then (if (if v \<ge> API_VERSION9 then ot_status t else ot_token t \<noteq> []) then (ERR_OK, ot_token t)
            else (ERR_APPACCOUNT_SERVICE_OAUTH_TOKEN_NOT_EXIST, []))
      else GetOAuthToken k v (a\<lparr>ai_oauthTokens := m\<rparr>))"
  by (simp add: GetOAuthToken_def)

lemma SetOAuthToken_plain:
  assumes "\<not> HAS_ASSET_PART E" and "SetOAuthToken E ty token a = (ERR_OK, b)"
  obtains t where "b = a\<lparr>ai_oauthTokens := sm_put ty t (ai_oauthTokens a)\<rparr>"
    and "ot_token t = token" and "token \<noteq> [] \<Longrightarrow> ot_status t"
  using assms by (auto simp: SetOAuthToken_def Let_def sm_emplace_def split: option.splits if_splits)

text \<open>
  The life of an OAuth token on a build without the asset service: a non-empty token
  that was set is returned at every API version and does not disturb the tokens of other
  authorisation types; once deleted with the right token it is no longer returned, while a wrong
  token deletes nothing.
\<close>

theorem oauth_token_lifecycle:
  assumes "\<not> HAS_ASSET_PART E" and "token \<noteq> []"
    and "SetOAuthToken E ty token a = (ERR_OK, b)" and "DeleteOAuthToken E ty wrong b = (r, c)"
  shows "GetOAuthToken ty v b = (ERR_OK, token)
     \<and> (k \<noteq> ty \<longrightarrow> GetOAuthToken k v b = GetOAuthToken k v a \<and> GetOAuthToken k v c = GetOAuthToken k v a)
     \<and> (if wrong = token
        then r = ERR_OK \<and> GetOAuthToken ty v c = (ERR_APPACCOUNT_SERVICE_OAUTH_TOKEN_NOT_EXIST, [])
        else r = ERR_APPACCOUNT_SERVICE_OAUTH_TOKEN_NOT_EXIST \<and> c = b)"
proof -
  obtain t where b: "b = a\<lparr>ai_oauthTokens := sm_put ty t (ai_oauthTokens a)\<rparr>"
    and t: "ot_token t = token" "ot_status t"
    using SetOAuthToken_plain [OF assms(1,3)] assms(2) by metis
  then have "map_of (ai_oauthTokens b) ty = Some t" by simp
  then have "(r, c) = (if wrong = token
      then (ERR_OK, b\<lparr>ai_oauthTokens := sm_put ty (t\<lparr>ot_token := [], ot_status := False\<rparr>) (ai_oauthTokens b)\<rparr>)
      else (ERR_APPACCOUNT_SERVICE_OAUTH_TOKEN_NOT_EXIST, b))"
    using assms(1,4) t by (auto simp: DeleteOAuthToken_def Let_def)
  then show ?thesis
    using t assms(2) by (cases "wrong = token") (simp_all add: b)
qed

text \<open>
  On a build with the asset service the record never holds a token or a credential in
  clear text: what \<open>SetOAuthToken\<close> and \<open>SetAccountCredential\<close> write does not depend on the
  secret, only the token's live flag tells whether it was empty.
\<close>

theorem secrets_not_in_record:
  assumes "HAS_ASSET_PART E" and "(x = []) = (y = [])"
  shows "SetOAuthToken E ty x a = SetOAuthToken E ty y a
     \<and> SetAccountCredential E ty x a = SetAccountCredential E ty y a"
proof
  show "SetOAuthToken E ty x a = SetOAuthToken E ty y a"
    using assms by (simp add: SetOAuthToken_def Let_def split: option.split)
  show "SetAccountCredential E ty x a = SetAccountCredential E ty y a"
    unfolding SetAccountCredential_def by (simp only: assms(1) if_True)
qed

lemma IsSelfBundle_tokens [simp]: "IsSelfBundle (a\<lparr>ai_oauthTokens := m\<rparr>) z = IsSelfBundle a z"
  by (simp add: IsSelfBundle_def split: option.split)

lemma CheckOAuthTokenVisibility_put [simp]:
  "CheckOAuthTokenVisibility ty x v (a\<lparr>ai_oauthTokens := sm_put ty t m\<rparr>) =
     (ERR_OK, x = ai_owner a \<or> IsSelfBundle a x \<or> x \<in> set (ot_authList t))"
  by (simp add: CheckOAuthTokenVisibility_def)

definition visible_to :: "AppAccountInfo \<Rightarrow> string \<Rightarrow> string set" where
  "visible_to a ty = (case map_of (ai_oauthTokens a) ty of None \<Rightarrow> {} | Some t \<Rightarrow> set (ot_authList t))"

lemma visibility_before:
  "snd (CheckOAuthTokenVisibility ty x v a) = (x = ai_owner a \<or> IsSelfBundle a x \<or> x \<in> visible_to a ty)"
  by (simp add: CheckOAuthTokenVisibility_def visible_to_def split: option.split)

lemma SetOAuthTokenVisibility_ok:
  assumes "SetOAuthTokenVisibility ty app vis v a = (ERR_OK, b)"
    and "\<not> (app = ai_owner a \<or> IsSelfBundle a app)"
  obtains (unchanged) "b = a" and "\<not> vis" and "map_of (ai_oauthTokens a) ty = None" and "v < API_VERSION9"
  | (put) t where "b = a\<lparr>ai_oauthTokens := sm_put ty t (ai_oauthTokens a)\<rparr>"
    and "set (ot_authList t) = (if vis then insert app (visible_to a ty) else visible_to a ty - {app})"
proof (cases "map_of (ai_oauthTokens a) ty")
  case None
  with assms that show ?thesis
    by (auto simp: SetOAuthTokenVisibility_def visible_to_def sm_emplace_def Let_def split: if_splits)
next
  case (Some t)
  with assms that show ?thesis
    by (auto simp: SetOAuthTokenVisibility_def visible_to_def Let_def split: if_splits)
qed

text \<open>
  Token visibility: when \<open>SetOAuthTokenVisibility\<close> succeeds,
  \<open>CheckOAuthTokenVisibility\<close> answers as was asked for that bundle, the owner always sees its
  tokens, and no answer changes for another bundle.
\<close>

theorem token_visibility_set_check:
  assumes "info_wf a" and "SetOAuthTokenVisibility ty app vis v a = (ERR_OK, b)"
  shows "CheckOAuthTokenVisibility ty app v b = (ERR_OK, vis \<or> app = ai_owner a \<or> IsSelfBundle a app)
     \<and> (x \<noteq> app \<longrightarrow> snd (CheckOAuthTokenVisibility ty x v b) = snd (CheckOAuthTokenVisibility ty x v a))
     \<and> CheckOAuthTokenVisibility ty (ai_owner a) v b = (ERR_OK, True)"
proof (cases "app = ai_owner a \<or> IsSelfBundle a app")
  case True
  with assms(2) have "b = a" by (simp add: SetOAuthTokenVisibility_def)
  with True show ?thesis by (auto simp: CheckOAuthTokenVisibility_def)
next
  case False
  from assms(2) False show ?thesis
  proof (cases rule: SetOAuthTokenVisibility_ok)
    case unchanged
    with False show ?thesis by (simp add: CheckOAuthTokenVisibility_def)
  next
    case (put t)
    with False show ?thesis
      by (simp add: visibility_before split: if_splits)
  qed
qed

section \<open>Witnesses\<close>

definition ref_env :: "bool \<Rightarrow> bool \<Rightarrow> bool \<Rightarrow> build_env" where
  "ref_env asset subspace distributed =
     \<lparr>cj_parse = ref_read, cj_print = (\<lambda>j. Some (ref_print j)), HAS_ASSET_PART = asset,
      ENABLE_SUBSPACE = subspace, DISTRIBUTED_FEATURE = distributed, sha256_hex = (\<lambda>s. s)\<rparr>"

lemma ref_env_simps [simp]:
  "cjson_ok (ref_env x y z)" "HAS_ASSET_PART (ref_env x y z) = x"
  "ENABLE_SUBSPACE (ref_env x y z) = y" "DISTRIBUTED_FEATURE (ref_env x y z) = z"
  by (simp_all add: ref_env_def ref_lib_ok)

abbreviation acc0 :: AppAccountInfo where
  "acc0 \<equiv> AppAccountInfo_new ''alice'' ''com.mail''"

lemma acc0_wf [simp]: "info_wf acc0"
  by (simp add: info_wf_def tokens_wf_def AppAccountInfo_new_def)


theorem authorized_app_witness:
  "ParseAuthorizedApp (EncodeAuthorizedApp (ref_env False False False) ''com.app'' 7) = Some (''com.app'', 7)"
  by (rule authorized_app_roundtrip) simp

theorem enable_access_witness:
  "snd (CheckAppAccess ''com.app'' (snd (EnableAppAccess ''com.app'' 8 acc0)))"
  using enable_access_spec [OF acc0_wf prod.collapse [symmetric], of "''com.app''" 8]
  by (auto simp: AppAccountInfo_new_def limit_defs EnableAppAccess_def Let_def)

theorem disable_access_witness:
  "fst (DisableAppAccess ''com.app'' 8 acc0) = ERR_APPACCOUNT_SERVICE_DISABLE_APP_ACCESS_NOT_EXISTED"
  using disable_access_spec [OF prod.collapse [symmetric], of "''com.app''" 8 acc0]
  by (auto simp: AppAccountInfo_new_def limit_defs)

theorem associated_data_witness:
  "GetAssociatedData (ref_env False False False) ''k''
     (snd (SetAssociatedData (ref_env False False False) ''k'' ''v'' acc0)) [] = (ERR_OK, ''v'')"
proof -
  let ?E = "ref_env False False False"
  have j: "stored_obj ?E (ai_associatedData acc0) = JObj []"
    by (simp add: stored_obj_def CreateJsonFromString_def AppAccountInfo_new_def)
  then have "fst (SetAssociatedData ?E ''k'' ''v'' acc0) = ERR_OK"
    by (subst SetAssociatedData_stored) (simp_all add: Let_def limit_defs)
  with j show ?thesis
    using associated_data_set_get [of ?E acc0 "''k''" "''v''" "''k''", OF _ _ _ _ _ _ _ prod.collapse [symmetric]]
    by simp
qed

theorem credential_witness:
  "\<exists>b. SetAccountCredential (ref_env False False False) ''PIN'' ''1234'' acc0 = (ERR_OK, b)
     \<and> GetAccountCredential (ref_env False False False) ''PIN'' b [] = (ERR_OK, ''1234'')"
  using credential_set_get [of "ref_env False False False" acc0 "''PIN''" "''1234''" "''PIN''" "[]"]
  by (simp add: AppAccountInfo_new_def stored_obj_def CreateJsonFromString_def)

theorem oauth_token_witness:
  "GetOAuthToken ''t'' 9 (snd (SetOAuthToken (ref_env False False False) ''t'' ''secret'' acc0))
     = (ERR_OK, ''secret'')"
proof -
  have "SetOAuthToken (ref_env False False False) ''t'' ''secret'' acc0 =
      (ERR_OK, snd (SetOAuthToken (ref_env False False False) ''t'' ''secret'' acc0))"
    by (simp add: SetOAuthToken_def AppAccountInfo_new_def limit_defs Let_def)
  from oauth_token_lifecycle [OF _ _ this prod.collapse [symmetric]]
  show ?thesis by simp
qed

theorem secrets_witness:
  "SetOAuthToken (ref_env True False False) ''t'' ''s1'' acc0
     = SetOAuthToken (ref_env True False False) ''t'' ''s2'' acc0"
  using secrets_not_in_record [of "ref_env True False False" "''s1''" "''s2''" "''t''" acc0] by simp

theorem token_visibility_witness:
  "CheckOAuthTokenVisibility ''t'' ''com.app'' 8 (snd (SetOAuthTokenVisibility ''t'' ''com.app'' True 8 acc0))
     = (ERR_OK, True)"
proof -
  have "SetOAuthTokenVisibility ''t'' ''com.app'' True 8 acc0 =
      (ERR_OK, snd (SetOAuthTokenVisibility ''t'' ''com.app'' True 8 acc0))"
    by (simp add: SetOAuthTokenVisibility_def AppAccountInfo_new_def limit_defs Let_def
        IsSelfBundle_def ParseAuthorizedApp_def)
  from token_visibility_set_check [OF acc0_wf this] show ?thesis by simp
qed

end
