(* ===== verification/App_Account_Parcel.thy ===== *)
theory App_Account_Parcel
  imports App_Account_Info "HOL-Library.Monad_Syntax"
begin

text \<open>
  The IPC form of the app account types (\<open>Marshalling\<close>, \<open>ReadFromParcel\<close> and
  \<open>Unmarshalling\<close> of \<open>frameworks/appaccount/native/src/app_account_info.cpp\<close>). The
  \<open>Parcel\<close> class is code of another repository, a parameter: each primitive write returns the
  parcel after it or fails, each primitive read returns a value and the rest. \<open>parcel_ok\<close> states
  what the code relies on, that a parcel is a queue of the values written. A \<open>bool\<close> result
  \<open>false\<close> is \<open>None\<close>: the callers drop the parcel and the object then.
\<close>

section \<open>The parcel\<close>

record 'p parcel_lib =
  WriteString :: "'p \<Rightarrow> string \<Rightarrow> 'p option"
  WriteUint32 :: "'p \<Rightarrow> u32 \<Rightarrow> 'p option"
  WriteInt32 :: "'p \<Rightarrow> int \<Rightarrow> 'p option"
  WriteBool :: "'p \<Rightarrow> bool \<Rightarrow> 'p option"
  ReadString :: "'p \<Rightarrow> (string \<times> 'p) option"
  ReadUint32 :: "'p \<Rightarrow> (u32 \<times> 'p) option"
  ReadInt32 :: "'p \<Rightarrow> (int \<times> 'p) option"
  ReadBool :: "'p \<Rightarrow> (bool \<times> 'p) option"

datatype parcel_item = PStr string | PU32 u32 | PI32 int | PBool bool

definition parcel_ok :: "('p, 'z) parcel_lib_scheme \<Rightarrow> ('p \<Rightarrow> parcel_item list) \<Rightarrow> bool" where
  "parcel_ok P c \<longleftrightarrow>
     (\<forall>p s q. WriteString P p s = Some q \<longrightarrow> c q = c p @ [PStr s]) \<and>
     (\<forall>p n q. WriteUint32 P p n = Some q \<longrightarrow> c q = c p @ [PU32 n]) \<and>
     (\<forall>p n q. WriteInt32 P p n = Some q \<longrightarrow> c q = c p @ [PI32 n]) \<and>
     (\<forall>p b q. WriteBool P p b = Some q \<longrightarrow> c q = c p @ [PBool b]) \<and>
     (\<forall>p s r. c p = PStr s # r \<longrightarrow> (\<exists>q. ReadString P p = Some (s, q) \<and> c q = r)) \<and>
     (\<forall>p n r. c p = PU32 n # r \<longrightarrow> (\<exists>q. ReadUint32 P p = Some (n, q) \<and> c q = r)) \<and>
     (\<forall>p n r. c p = PI32 n # r \<longrightarrow> (\<exists>q. ReadInt32 P p = Some (n, q) \<and> c q = r)) \<and>
     (\<forall>p b r. c p = PBool b # r \<longrightarrow> (\<exists>q. ReadBool P p = Some (b, q) \<and> c q = r))"

section \<open>Tokens and string records\<close>

fun write_strings :: "('p, 'z) parcel_lib_scheme \<Rightarrow> string list \<Rightarrow> 'p \<Rightarrow> 'p option" where
  "write_strings P [] p = Some p"
| "write_strings P (s # ss) p = do { p \<leftarrow> WriteString P p s; write_strings P ss p }"

fun read_strings :: "('p, 'z) parcel_lib_scheme \<Rightarrow> nat \<Rightarrow> string sset \<Rightarrow> 'p \<Rightarrow> (string sset \<times> 'p) option" where
  "read_strings P 0 acc p = Some (acc, p)"
| "read_strings P (Suc n) acc p =
     do { (s, p) \<leftarrow> ReadString P p; read_strings P n (ss_insert s acc) p }"

definition OAuthTokenInfo_Marshalling ::
  "('p, 'z) parcel_lib_scheme \<Rightarrow> OAuthTokenInfo \<Rightarrow> 'p \<Rightarrow> 'p option" where
  "OAuthTokenInfo_Marshalling P t p =
     do { p \<leftarrow> WriteString P p (ot_authType t);
          p \<leftarrow> WriteString P p (ot_token t);
          p \<leftarrow> WriteUint32 P p (of_nat (length (ot_authList t)));
          p \<leftarrow> write_strings P (ot_authList t) p;
          WriteBool P p (ot_status t) }"

definition OAuthTokenInfo_ReadFromParcel ::
  "('p, 'z) parcel_lib_scheme \<Rightarrow> 'p \<Rightarrow> (OAuthTokenInfo \<times> 'p) option" where
  "OAuthTokenInfo_ReadFromParcel P p =
     do { (authType, p) \<leftarrow> ReadString P p;
          (token, p) \<leftarrow> ReadString P p;
          (size, p) \<leftarrow> ReadUint32 P p;
          (authList, p) \<leftarrow> read_strings P (unat size) [] p;
          (status, p) \<leftarrow> ReadBool P p;
          Some (\<lparr>ot_authType = authType, ot_token = token, ot_authList = authList, ot_status = status\<rparr>, p) }"

record AppAccountStringInfo =
  si_name :: string
  si_owner :: string
  si_authType :: string

definition AppAccountStringInfo_Marshalling ::
  "('p, 'z) parcel_lib_scheme \<Rightarrow> AppAccountStringInfo \<Rightarrow> 'p \<Rightarrow> 'p option" where
  "AppAccountStringInfo_Marshalling P i p =
     do { p \<leftarrow> WriteString P p (si_name i);
          p \<leftarrow> WriteString P p (si_owner i);
          WriteString P p (si_authType i) }"

definition AppAccountStringInfo_ReadFromParcel ::
  "('p, 'z) parcel_lib_scheme \<Rightarrow> 'p \<Rightarrow> (AppAccountStringInfo \<times> 'p) option" where
  "AppAccountStringInfo_ReadFromParcel P p =
     do { (name, p) \<leftarrow> ReadString P p;
          (owner, p) \<leftarrow> ReadString P p;
          (authType, p) \<leftarrow> ReadString P p;
          Some (\<lparr>si_name = name, si_owner = owner, si_authType = authType\<rparr>, p) }"

record AppAccountAuthenticatorStringInfo =
  asi_name :: string
  asi_authType :: string
  asi_callerBundleName :: string

definition AppAccountAuthenticatorStringInfo_Marshalling ::
  "('p, 'z) parcel_lib_scheme \<Rightarrow> AppAccountAuthenticatorStringInfo \<Rightarrow> 'p \<Rightarrow> 'p option" where
  "AppAccountAuthenticatorStringInfo_Marshalling P i p =
     do { p \<leftarrow> WriteString P p (asi_name i);
          p \<leftarrow> WriteString P p (asi_authType i);
          WriteString P p (asi_callerBundleName i) }"

definition AppAccountAuthenticatorStringInfo_ReadFromParcel ::
  "('p, 'z) parcel_lib_scheme \<Rightarrow> 'p \<Rightarrow> (AppAccountAuthenticatorStringInfo \<times> 'p) option" where
  "AppAccountAuthenticatorStringInfo_ReadFromParcel P p =
     do { (name, p) \<leftarrow> ReadString P p;
          (authType, p) \<leftarrow> ReadString P p;
          (callerBundleName, p) \<leftarrow> ReadString P p;
          Some (\<lparr>asi_name = name, asi_authType = authType, asi_callerBundleName = callerBundleName\<rparr>, p) }"

section \<open>Sets, maps and tokens inside an account\<close>

definition WriteStringSet :: "('p, 'z) parcel_lib_scheme \<Rightarrow> string sset \<Rightarrow> 'p \<Rightarrow> 'p option" where
  "WriteStringSet P stringSet p =
     do { p \<leftarrow> WriteUint32 P p (of_nat (length stringSet)); write_strings P stringSet p }"

text \<open>\<open>ReadStringSet\<close> takes an empty string for a failed read.\<close>

fun read_nonempty :: "('p, 'z) parcel_lib_scheme \<Rightarrow> nat \<Rightarrow> string sset \<Rightarrow> 'p \<Rightarrow> (string sset \<times> 'p) option" where
  "read_nonempty P 0 acc p = Some (acc, p)"
| "read_nonempty P (Suc n) acc p =
     do { (s, p) \<leftarrow> ReadString P p;
          if s = [] then None else read_nonempty P n (ss_insert s acc) p }"

definition ReadStringSet :: "('p, 'z) parcel_lib_scheme \<Rightarrow> 'p \<Rightarrow> (string sset \<times> 'p) option" where
  "ReadStringSet P p =
     do { (size, p) \<leftarrow> ReadUint32 P p;
          if unat size > MAX_CUSTOM_DATA_SIZE then None else read_nonempty P (unat size) [] p }"

fun write_pairs :: "('p, 'z) parcel_lib_scheme \<Rightarrow> (string, string) smap \<Rightarrow> 'p \<Rightarrow> 'p option" where
  "write_pairs P [] p = Some p"
| "write_pairs P ((k, v) # m) p =
     do { p \<leftarrow> WriteString P p k; p \<leftarrow> WriteString P p v; write_pairs P m p }"

definition WriteStringMap :: "('p, 'z) parcel_lib_scheme \<Rightarrow> (string, string) smap \<Rightarrow> 'p \<Rightarrow> 'p option" where
  "WriteStringMap P stringMap p =
     do { p \<leftarrow> WriteInt32 P p (int (length stringMap)); write_pairs P stringMap p }"

fun read_pairs :: "('p, 'z) parcel_lib_scheme \<Rightarrow> nat \<Rightarrow> (string, string) smap \<Rightarrow> 'p \<Rightarrow> ((string, string) smap \<times> 'p) option" where
  "read_pairs P 0 acc p = Some (acc, p)"
| "read_pairs P (Suc n) acc p =
     do { (k, p) \<leftarrow> ReadString P p; (v, p) \<leftarrow> ReadString P p; read_pairs P n (sm_emplace k v acc) p }"

definition MAX_MAP_SZIE :: int where "MAX_MAP_SZIE = 1024"

definition ReadStringMap :: "('p, 'z) parcel_lib_scheme \<Rightarrow> 'p \<Rightarrow> ((string, string) smap \<times> 'p) option" where
  "ReadStringMap P p =
     do { (size, p) \<leftarrow> ReadInt32 P p;
          if size < 0 \<or> size > MAX_MAP_SZIE then None else read_pairs P (nat size) [] p }"

fun write_tokens :: "('p, 'z) parcel_lib_scheme \<Rightarrow> (string, OAuthTokenInfo) smap \<Rightarrow> 'p \<Rightarrow> 'p option" where
  "write_tokens P [] p = Some p"
| "write_tokens P ((k, t) # m) p =
     do { p \<leftarrow> WriteString P p k;
          p \<leftarrow> WriteString P p (ot_token t);
          p \<leftarrow> WriteStringSet P (ot_authList t) p;
          write_tokens P m p }"

definition WriteTokenInfos :: "('p, 'z) parcel_lib_scheme \<Rightarrow> (string, OAuthTokenInfo) smap \<Rightarrow> 'p \<Rightarrow> 'p option" where
  "WriteTokenInfos P tokenInfos p =
     do { p \<leftarrow> WriteUint32 P p (of_nat (length tokenInfos)); write_tokens P tokenInfos p }"

fun read_tokens :: "('p, 'z) parcel_lib_scheme \<Rightarrow> nat \<Rightarrow> (string, OAuthTokenInfo) smap \<Rightarrow> 'p
    \<Rightarrow> ((string, OAuthTokenInfo) smap \<times> 'p) option" where
  "read_tokens P 0 acc p = Some (acc, p)"
| "read_tokens P (Suc n) acc p =
     do { (authType, p) \<leftarrow> ReadString P p;
          (token, p) \<leftarrow> ReadString P p;
          (authList, p) \<leftarrow> ReadStringSet P p;
          read_tokens P n
            (sm_emplace authType
              (OAuthTokenInfo_init\<lparr>ot_authType := authType, ot_token := token, ot_authList := authList\<rparr>) acc) p }"

definition ReadTokenInfos :: "('p, 'z) parcel_lib_scheme \<Rightarrow> 'p \<Rightarrow> ((string, OAuthTokenInfo) smap \<times> 'p) option" where
  "ReadTokenInfos P p =
     do { (size, p) \<leftarrow> ReadUint32 P p;
          if unat size > MAX_TOKEN_NUMBER then None else read_tokens P (unat size) [] p }"

section \<open>The account\<close>

definition Marshalling :: "('p, 'z) parcel_lib_scheme \<Rightarrow> AppAccountInfo \<Rightarrow> 'p \<Rightarrow> 'p option" where
  "Marshalling P a p =
     do { p \<leftarrow> WriteString P p (ai_owner a);
          p \<leftarrow> WriteString P p (ai_name a);
          p \<leftarrow> WriteString P p (ai_extraInfo a);
          p \<leftarrow> WriteStringSet P (ai_authorizedApps a) p;
          p \<leftarrow> WriteBool P p (ai_syncEnable a);
          p \<leftarrow> WriteString P p (ai_associatedData a);
          p \<leftarrow> WriteString P p (ai_accountCredential a);
          p \<leftarrow> WriteTokenInfos P (ai_oauthTokens a) p;
          WriteUint32 P p (ai_appIndex a) }"

definition ReadFromParcel ::
  "('p, 'z) parcel_lib_scheme \<Rightarrow> AppAccountInfo \<Rightarrow> 'p \<Rightarrow> (AppAccountInfo \<times> 'p) option" where
  "ReadFromParcel P a p =
     do { (owner, p) \<leftarrow> ReadString P p;
          (name, p) \<leftarrow> ReadString P p;
          (extraInfo, p) \<leftarrow> ReadString P p;
          (authorizedApps, p) \<leftarrow> ReadStringSet P p;
          (syncEnable, p) \<leftarrow> ReadBool P p;
          (associatedData, p) \<leftarrow> ReadString P p;
          (accountCredential, p) \<leftarrow> ReadString P p;
          (oauthTokens, p) \<leftarrow> ReadTokenInfos P p;
          (appIndex, p) \<leftarrow> ReadUint32 P p;
          Some (a\<lparr>ai_owner := owner, ai_name := name, ai_extraInfo := extraInfo,
                  ai_authorizedApps := authorizedApps, ai_syncEnable := syncEnable,
                  ai_associatedData := associatedData, ai_accountCredential := accountCredential,
                  ai_oauthTokens := oauthTokens, ai_appIndex := appIndex\<rparr>, p) }"

definition Unmarshalling :: "('p, 'z) parcel_lib_scheme \<Rightarrow> 'p \<Rightarrow> (AppAccountInfo \<times> 'p) option" where
  "Unmarshalling P p = ReadFromParcel P AppAccountInfo_init p"


section \<open>What is written and what is read\<close>

named_theorems parcel_intros \<open>composition of writers and readers\<close>

definition writes :: "('p \<Rightarrow> parcel_item list) \<Rightarrow> ('p \<Rightarrow> 'p option) \<Rightarrow> parcel_item list \<Rightarrow> bool" where
  "writes c f xs \<longleftrightarrow> (\<forall>p q. f p = Some q \<longrightarrow> c q = c p @ xs)"

definition reads :: "('p \<Rightarrow> parcel_item list) \<Rightarrow> ('p \<Rightarrow> ('a \<times> 'p) option) \<Rightarrow> 'a \<Rightarrow> parcel_item list \<Rightarrow> bool" where
  "reads c g v xs \<longleftrightarrow> (\<forall>p r. c p = xs @ r \<longrightarrow> (\<exists>q. g p = Some (v, q) \<and> c q = r))"

lemma writes_bind [parcel_intros]:
  "writes c f xs \<Longrightarrow> writes c g ys \<Longrightarrow> writes c (\<lambda>p. f p \<bind> g) (xs @ ys)"
  by (fastforce simp: writes_def bind_eq_Some_conv)

lemma writes_return: "writes c Some []"
  by (simp add: writes_def)

lemma reads_bind [parcel_intros]:
  "reads c g v xs \<Longrightarrow> reads c (h v) w ys \<Longrightarrow> reads c (\<lambda>p. g p \<bind> (\<lambda>(x, p). h x p)) w (xs @ ys)"
  by (fastforce simp: reads_def)

lemma reads_return [parcel_intros]: "reads c (\<lambda>p. Some (v, p)) v []"
  by (simp add: reads_def)

lemma reads_append_Nil: "reads c g v xs \<Longrightarrow> reads c g v (xs @ [])"
  by simp

lemma parcel_writes [parcel_intros]:
  assumes "parcel_ok P c"
  shows "writes c (\<lambda>p. WriteString P p s) [PStr s]" and "writes c (\<lambda>p. WriteUint32 P p n) [PU32 n]"
    and "writes c (\<lambda>p. WriteInt32 P p i) [PI32 i]" and "writes c (\<lambda>p. WriteBool P p b) [PBool b]"
  using assms by (simp_all add: parcel_ok_def writes_def)

lemma parcel_reads [parcel_intros]:
  assumes "parcel_ok P c"
  shows "reads c (ReadString P) s [PStr s]" and "reads c (ReadUint32 P) n [PU32 n]"
    and "reads c (ReadInt32 P) i [PI32 i]" and "reads c (ReadBool P) b [PBool b]"
  using assms by (simp_all add: parcel_ok_def reads_def)

definition set_items :: "string sset \<Rightarrow> parcel_item list" where
  "set_items ss = [PU32 (of_nat (length ss))] @ map PStr ss"

definition token_items :: "string \<times> OAuthTokenInfo \<Rightarrow> parcel_item list" where
  "token_items e = [PStr (fst e)] @ [PStr (ot_token (snd e))] @ set_items (ot_authList (snd e))"

definition info_items :: "AppAccountInfo \<Rightarrow> parcel_item list" where
  "info_items a = [PStr (ai_owner a)] @ [PStr (ai_name a)] @ [PStr (ai_extraInfo a)] @
     set_items (ai_authorizedApps a) @ [PBool (ai_syncEnable a)] @ [PStr (ai_associatedData a)] @
     [PStr (ai_accountCredential a)] @
     ([PU32 (of_nat (length (ai_oauthTokens a)))] @ concat (map token_items (ai_oauthTokens a))) @
     [PU32 (ai_appIndex a)]"

lemma writes_strings [parcel_intros]:
  "parcel_ok P c \<Longrightarrow> writes c (write_strings P ss) (map PStr ss)"
proof (induction ss)
  case (Cons s ss)
  then have "writes c (\<lambda>p. WriteString P p s \<bind> write_strings P ss) ([PStr s] @ map PStr ss)"
    by (intro parcel_intros)
  then show ?case by (simp add: writes_def)
qed (simp add: writes_def)

lemma writes_set [parcel_intros]:
  "parcel_ok P c \<Longrightarrow> writes c (WriteStringSet P ss) (set_items ss)"
  unfolding WriteStringSet_def [abs_def] set_items_def by (intro parcel_intros)

lemma writes_tokens [parcel_intros]:
  "parcel_ok P c \<Longrightarrow> writes c (write_tokens P m) (concat (map token_items m))"
proof (induction m)
  case (Cons e m)
  obtain k t where e: "e = (k, t)" by (cases e)
  have "writes c (\<lambda>p. WriteString P p k \<bind> (\<lambda>p. WriteString P p (ot_token t) \<bind>
      (\<lambda>p. WriteStringSet P (ot_authList t) p \<bind> write_tokens P m)))
    ([PStr k] @ [PStr (ot_token t)] @ set_items (ot_authList t) @ concat (map token_items m))"
    using Cons by (intro parcel_intros) auto
  then show ?case by (simp add: writes_def e token_items_def [of "(k, t)"])
qed (simp add: writes_def)

lemma writes_token_infos [parcel_intros]:
  "parcel_ok P c \<Longrightarrow>
   writes c (WriteTokenInfos P m) ([PU32 (of_nat (length m))] @ concat (map token_items m))"
  unfolding WriteTokenInfos_def [abs_def] by (intro parcel_intros)

lemma writes_info: "parcel_ok P c \<Longrightarrow> writes c (Marshalling P a) (info_items a)"
  unfolding Marshalling_def [abs_def] info_items_def by (intro parcel_intros)

text \<open>The loops re-insert a sorted list, so they give back the list itself.\<close>

lemma reads_nonempty:
  assumes "parcel_ok P c" and "[] \<notin> set ss"
  shows "reads c (read_nonempty P (length ss) acc) (fold ss_insert ss acc) (map PStr ss)"
  using assms(2)
proof (induction ss arbitrary: acc)
  case (Cons s ss)
  have "reads c (\<lambda>p. ReadString P p \<bind> (\<lambda>(s, p). if s = [] then None
      else read_nonempty P (length ss) (ss_insert s acc) p)) (fold ss_insert ss (ss_insert s acc))
      ([PStr s] @ map PStr ss)"
    using Cons parcel_reads(1) [OF assms(1)] by (intro reads_bind) auto
  then show ?case by (simp add: reads_def)
qed (simp add: reads_def)

lemma reads_set [parcel_intros]:
  assumes "parcel_ok P c" and "[] \<notin> set ss" and "ss_wf ss" and "length ss \<le> MAX_CUSTOM_DATA_SIZE"
  shows "reads c (ReadStringSet P) ss (set_items ss)"
proof -
  have n: "unat (of_nat (length ss) :: u32) = length ss"
    using assms(4) by (intro unat_of_nat_u32) (simp add: limit_defs)
  have "fold ss_insert ss [] = ss"
    using ss_of_list_id [OF assms(3)] by (simp add: ss_of_list_def)
  then have "reads c (read_nonempty P (length ss) []) ss (map PStr ss)"
    using reads_nonempty [OF assms(1,2), of "[]"] by simp
  then show ?thesis
    unfolding ReadStringSet_def [abs_def] set_items_def
    using parcel_reads(2) [OF assms(1)] assms(4) by (intro reads_bind) (auto simp: n)
qed

definition sent_token :: "string \<times> OAuthTokenInfo \<Rightarrow> string \<times> OAuthTokenInfo" where
  "sent_token e = (fst e, (snd e)\<lparr>ot_authType := fst e, ot_status := True\<rparr>)"

definition sendable :: "string \<times> OAuthTokenInfo \<Rightarrow> bool" where
  "sendable e \<longleftrightarrow> [] \<notin> set (ot_authList (snd e)) \<and> token_wf (snd e)"

lemma reads_tokens:
  assumes "parcel_ok P c" and "\<forall>e \<in> set m. sendable e"
  shows "reads c (read_tokens P (length m) acc)
    (fold (\<lambda>e. sm_emplace (fst e) (snd e)) (map sent_token m) acc) (concat (map token_items m))"
  using assms(2)
proof (induction m arbitrary: acc)
  case (Cons e m)
  obtain k t where e: "e = (k, t)" by (cases e)
  let ?t = "OAuthTokenInfo_init\<lparr>ot_authType := k, ot_token := ot_token t, ot_authList := ot_authList t\<rparr>"
  have "reads c (ReadStringSet P) (ot_authList t) (set_items (ot_authList t))"
    using Cons.prems assms(1)
    by (intro reads_set) (auto simp: e sendable_def token_wf_def limit_defs)
  then have "reads c (\<lambda>p. ReadString P p \<bind> (\<lambda>(k, p). ReadString P p \<bind> (\<lambda>(tk, p). ReadStringSet P p \<bind>
      (\<lambda>(al, p). read_tokens P (length m) (sm_emplace k
         (OAuthTokenInfo_init\<lparr>ot_authType := k, ot_token := tk, ot_authList := al\<rparr>) acc) p))))
    (fold (\<lambda>e. sm_emplace (fst e) (snd e)) (map sent_token m) (sm_emplace k ?t acc))
    ([PStr k] @ [PStr (ot_token t)] @ set_items (ot_authList t) @ concat (map token_items m))"
    using Cons by (intro reads_bind [OF parcel_reads(1) [OF assms(1)]] reads_bind [rotated]) auto
  moreover have "sent_token e = (k, ?t)"
    by (simp add: sent_token_def e OAuthTokenInfo_init_def)
  ultimately show ?case by (simp add: reads_def token_items_def [of "(k, t)"] e)
qed (simp add: reads_def)


lemma reads_token_infos [parcel_intros]:
  assumes "parcel_ok P c" and "\<forall>e \<in> set m. sendable e" and "tokens_wf m"
  shows "reads c (ReadTokenInfos P) (map sent_token m)
    ([PU32 (of_nat (length m))] @ concat (map token_items m))"
proof -
  have n: "unat (of_nat (length m) :: u32) = length m"
    using assms(3) by (intro unat_of_nat_u32) (simp add: limit_defs tokens_wf_def)
  have "map fst (map sent_token m) = map fst m" by (simp add: sent_token_def comp_def)
  then have "sm_wf (map sent_token m)"
    using assms(3) unfolding tokens_wf_def sm_wf_def by (simp only:)
  then have "reads c (read_tokens P (length m) []) (map sent_token m) (concat (map token_items m))"
    using reads_tokens [OF assms(1,2), of "[]"] emplace_all_id [of "map sent_token m"] by simp
  then show ?thesis
    unfolding ReadTokenInfos_def [abs_def]
    using parcel_reads(2) [OF assms(1)] assms(3) by (intro reads_bind) (auto simp: n tokens_wf_def)
qed

definition sent :: "AppAccountInfo \<Rightarrow> AppAccountInfo" where
  "sent a = a\<lparr>ai_alias := [], ai_oauthTokens := map sent_token (ai_oauthTokens a)\<rparr>"

lemma reads_info:
  assumes "parcel_ok P c" and "info_wf a" and "[] \<notin> set (ai_authorizedApps a)"
    and "\<forall>e \<in> set (ai_oauthTokens a). sendable e"
  shows "reads c (Unmarshalling P) (sent a) (info_items a)"
proof -
  have *: "info_items a = [PStr (ai_owner a)] @ [PStr (ai_name a)] @ [PStr (ai_extraInfo a)] @
     set_items (ai_authorizedApps a) @ [PBool (ai_syncEnable a)] @ [PStr (ai_associatedData a)] @
     [PStr (ai_accountCredential a)] @
     ([PU32 (of_nat (length (ai_oauthTokens a)))] @ concat (map token_items (ai_oauthTokens a))) @
     [PU32 (ai_appIndex a)] @ []" by (simp add: info_items_def)
  have **: "sent a = AppAccountInfo_init\<lparr>ai_owner := ai_owner a, ai_name := ai_name a,
      ai_extraInfo := ai_extraInfo a, ai_authorizedApps := ai_authorizedApps a,
      ai_syncEnable := ai_syncEnable a, ai_associatedData := ai_associatedData a,
      ai_accountCredential := ai_accountCredential a,
      ai_oauthTokens := map sent_token (ai_oauthTokens a), ai_appIndex := ai_appIndex a\<rparr>"
    by (cases a) (simp add: sent_def AppAccountInfo_init_def AppAccountInfo_new_def)
  have apps: "reads c (ReadStringSet P) (ai_authorizedApps a) (set_items (ai_authorizedApps a))"
    using assms by (intro reads_set) (auto simp: info_wf_def limit_defs)
  have tokens: "reads c (ReadTokenInfos P) (map sent_token (ai_oauthTokens a))
      ([PU32 (of_nat (length (ai_oauthTokens a)))] @ concat (map token_items (ai_oauthTokens a)))"
    using assms by (intro reads_token_infos) (auto simp: info_wf_def)
  show ?thesis
    unfolding Unmarshalling_def [abs_def] ReadFromParcel_def [abs_def] * **
    by (intro reads_bind [OF parcel_reads(1) [OF assms(1)]] reads_bind [OF parcel_reads(2) [OF assms(1)]]
        reads_bind [OF parcel_reads(4) [OF assms(1)]] reads_bind [OF apps] reads_bind [OF tokens]
        reads_return)
qed

text \<open>
  C36 (roundtrip). What arrives at the other end of an IPC call: if marshalling an account into an
  empty parcel succeeds, unmarshalling it succeeds, consumes exactly what was written and gives the
  account with its alias cleared and every token marked live (the parcel carries no token status).
  Empty strings in the lists are excluded because \<open>ReadStringSet\<close> refuses them.
\<close>

theorem account_parcel_roundtrip:
  assumes "parcel_ok P c" and "c p = []" and "Marshalling P a p = Some q" and "info_wf a"
    and "[] \<notin> set (ai_authorizedApps a)" and "\<forall>e \<in> set (ai_oauthTokens a). sendable e"
  shows "\<exists>q'. Unmarshalling P q = Some (sent a, q') \<and> c q' = []"
proof -
  have "c q = info_items a @ []"
    using writes_info [OF assms(1), of a] assms(2,3) by (simp add: writes_def)
  with reads_info [OF assms(1,4,5,6)] show ?thesis
    by (fastforce simp: reads_def)
qed


lemma reads_strings:
  assumes "parcel_ok P c"
  shows "reads c (read_strings P (length ss) acc) (fold ss_insert ss acc) (map PStr ss)"
proof (induction ss arbitrary: acc)
  case (Cons s ss)
  then have "reads c (\<lambda>p. ReadString P p \<bind> (\<lambda>(s, p). read_strings P (length ss) (ss_insert s acc) p))
      (fold ss_insert ss (ss_insert s acc)) ([PStr s] @ map PStr ss)"
    by (intro reads_bind [OF parcel_reads(1) [OF assms]])
  then show ?case by (simp add: reads_def)
qed (simp add: reads_def)

text \<open>
  A token sent by itself (\<open>OAuthTokenInfo::Marshalling\<close>), unlike a token inside an
  account, arrives with its status: it is read back unchanged.
\<close>

theorem token_parcel_roundtrip:
  assumes "parcel_ok P c" and "c p = []" and "OAuthTokenInfo_Marshalling P t p = Some q" and "token_wf t"
  shows "\<exists>q'. OAuthTokenInfo_ReadFromParcel P q = Some (t, q') \<and> c q' = []"
proof -
  let ?items = "[PStr (ot_authType t)] @ [PStr (ot_token t)] @ [PU32 (of_nat (length (ot_authList t)))] @
     map PStr (ot_authList t) @ [PBool (ot_status t)]"
  have "writes c (OAuthTokenInfo_Marshalling P t) ?items"
    unfolding OAuthTokenInfo_Marshalling_def [abs_def] using assms(1) by (intro parcel_intros)
  then have "c q = (?items @ []) @ []" using assms(2,3) by (simp add: writes_def)
  moreover have n: "unat (of_nat (length (ot_authList t)) :: u32) = length (ot_authList t)"
    using assms(4) by (intro unat_of_nat_u32) (simp add: token_wf_def limit_defs)
  have "fold ss_insert (ot_authList t) [] = ot_authList t"
    using ss_of_list_id assms(4) unfolding token_wf_def ss_of_list_def by blast
  then have loop: "reads c (read_strings P (unat (of_nat (length (ot_authList t)) :: u32)) []) (ot_authList t)
      (map PStr (ot_authList t))"
    using reads_strings [OF assms(1), of "ot_authList t" "[]"] by (simp add: n)
  have "reads c (OAuthTokenInfo_ReadFromParcel P)
      \<lparr>ot_authType = ot_authType t, ot_token = ot_token t, ot_authList = ot_authList t, ot_status = ot_status t\<rparr>
      (?items @ [])"
    unfolding OAuthTokenInfo_ReadFromParcel_def [abs_def] append_assoc
    by (intro reads_bind [OF parcel_reads(1) [OF assms(1)]] reads_bind [OF parcel_reads(2) [OF assms(1)]]
        reads_bind [OF parcel_reads(4) [OF assms(1)]] reads_bind [OF loop] reads_return)
  ultimately show ?thesis
    by (fastforce simp: reads_def)
qed

text \<open>A parcel as a plain list of items.\<close>

definition ref_parcel :: "parcel_item list parcel_lib" where
  "ref_parcel =
     \<lparr>WriteString = (\<lambda>p s. Some (p @ [PStr s])), WriteUint32 = (\<lambda>p n. Some (p @ [PU32 n])),
      WriteInt32 = (\<lambda>p n. Some (p @ [PI32 n])), WriteBool = (\<lambda>p b. Some (p @ [PBool b])),
      ReadString = (\<lambda>p. case p of PStr s # r \<Rightarrow> Some (s, r) | _ \<Rightarrow> None),
      ReadUint32 = (\<lambda>p. case p of PU32 n # r \<Rightarrow> Some (n, r) | _ \<Rightarrow> None),
      ReadInt32 = (\<lambda>p. case p of PI32 n # r \<Rightarrow> Some (n, r) | _ \<Rightarrow> None),
      ReadBool = (\<lambda>p. case p of PBool b # r \<Rightarrow> Some (b, r) | _ \<Rightarrow> None)\<rparr>"

lemma ref_parcel_ok [simp]: "parcel_ok ref_parcel (\<lambda>p. p)"
  by (simp add: parcel_ok_def ref_parcel_def)

definition dead_token :: OAuthTokenInfo where
  "dead_token = \<lparr>ot_authType = ''t'', ot_token = [], ot_authList = [''com.app''], ot_status = False\<rparr>"

definition dead_account :: AppAccountInfo where
  "dead_account = acc0\<lparr>ai_oauthTokens := [(''t'', dead_token)]\<rparr>"

lemmas dead_defs = dead_account_def dead_token_def AppAccountInfo_new_def

theorem account_parcel_witness:
  "\<exists>q q'. Marshalling ref_parcel dead_account [] = Some q \<and> Unmarshalling ref_parcel q = Some (sent dead_account, q')"
proof -
  obtain q where q: "Marshalling ref_parcel dead_account [] = Some q"
    by (simp add: Marshalling_def ref_parcel_def WriteStringSet_def WriteTokenInfos_def dead_defs)
  have "info_wf dead_account" and "[] \<notin> set (ai_authorizedApps dead_account)"
    and "\<forall>e \<in> set (ai_oauthTokens dead_account). sendable e"
    by (simp_all add: dead_defs info_wf_def tokens_wf_def sm_wf_def token_wf_def ss_wf_def limit_defs sendable_def)
  from account_parcel_roundtrip [OF ref_parcel_ok refl q this] q show ?thesis by blast
qed

theorem token_parcel_witness:
  "\<exists>q q'. OAuthTokenInfo_Marshalling ref_parcel dead_token [] = Some q
     \<and> OAuthTokenInfo_ReadFromParcel ref_parcel q = Some (dead_token, q')"
proof -
  obtain q where q: "OAuthTokenInfo_Marshalling ref_parcel dead_token [] = Some q"
    by (simp add: OAuthTokenInfo_Marshalling_def ref_parcel_def dead_defs)
  have "token_wf dead_token" by (simp add: dead_defs token_wf_def ss_wf_def limit_defs)
  from token_parcel_roundtrip [OF ref_parcel_ok refl q this] q show ?thesis by blast
qed

text \<open>
  The consequence of the missing status: a deleted token of the sender is reported as existing, with
  an empty value, by the receiver's copy.
\<close>

lemma deleted_token_revives:
  "GetOAuthToken ''t'' 9 dead_account = (ERR_APPACCOUNT_SERVICE_OAUTH_TOKEN_NOT_EXIST, [])
   \<and> GetOAuthToken ''t'' 9 (sent dead_account) = (ERR_OK, [])"
  by (simp add: dead_defs GetOAuthToken_def sent_def sent_token_def limit_defs)

end
