(* ===== verification/Account_File_Operator.thy ===== *)
theory Account_File_Operator
  imports Json_Reference
begin

text \<open>
  Reading and writing the account files
  (\<open>frameworks/common/file_operator/src/account_file_operator.cpp\<close>): a file is replaced by
  writing a temporary file and renaming it. The operating system is a parameter: \<open>sys_errno\<close>
  tells which errno the n-th system call fails with, if any, \<open>sys_short\<close> how much a failing write
  left behind, and \<open>space_ok\<close> whether the partition has room. The state holds the regular files
  with their contents, the directories and the number of system calls made. A process that dies at
  its n-th call is one whose calls all fail from n on, so what holds for every parameter holds at
  every crash point. Locks taken and released within one call are omitted, except the write lock of
  a transaction, whose release is proved. Log and report calls and the file-watcher flags are left
  out: no result depends on them.
\<close>

section \<open>System calls\<close>

record file_env = cjson_lib +
  sys_errno :: "nat \<Rightarrow> nat option"
  sys_short :: "nat \<Rightarrow> nat"
  space_ok :: "nat \<Rightarrow> nat \<Rightarrow> bool"

record fs_state =
  fs_files :: "string \<Rightarrow> string option"
  fs_dirs :: "string \<Rightarrow> bool"
  fs_tick :: nat

definition ENOENT :: nat where "ENOENT = 2"
definition EAGAIN :: nat where "EAGAIN = 11"
definition EACCES :: nat where "EACCES = 13"
definition RETRY_TIMES :: nat where "RETRY_TIMES = 3"
definition MAX_FILE_SIZE :: nat where "MAX_FILE_SIZE = 16777216"

definition sys_call :: "'z file_env_scheme \<Rightarrow> fs_state \<Rightarrow> nat option \<times> fs_state" where
  "sys_call E fs = (sys_errno E (fs_tick fs), fs\<lparr>fs_tick := Suc (fs_tick fs)\<rparr>)"

datatype stat_result = S_ISREG | S_ISDIR | StatErr nat

definition sys_stat :: "'z file_env_scheme \<Rightarrow> string \<Rightarrow> fs_state \<Rightarrow> stat_result \<times> fs_state" where
  "sys_stat E path fs =
     (let (e, fs1) = sys_call E fs in
      (case e of Some n \<Rightarrow> StatErr n
       | None \<Rightarrow> if fs_files fs path \<noteq> None then S_ISREG
                 else if fs_dirs fs path then S_ISDIR else StatErr ENOENT, fs1))"

definition put_file :: "string \<Rightarrow> string option \<Rightarrow> fs_state \<Rightarrow> fs_state" where
  "put_file path c fs = fs\<lparr>fs_files := (fs_files fs)(path := c)\<rparr>"

text \<open>\<open>path.substr(0, path.rfind('/'))\<close>, the path itself when it has no separator.\<close>

definition dirname :: "string \<Rightarrow> string" where
  "dirname path = (if CHR ''/'' \<in> set path then rev (tl (dropWhile (\<lambda>c. c \<noteq> CHR ''/'') (rev path))) else path)"

section \<open>Looking at files\<close>

fun file_exists_loop :: "'z file_env_scheme \<Rightarrow> string \<Rightarrow> nat \<Rightarrow> fs_state \<Rightarrow> bool \<times> fs_state" where
  "file_exists_loop E path 0 fs = (False, fs)"
| "file_exists_loop E path (Suc n) fs =
     (case sys_stat E path fs of
        (S_ISREG, fs1) \<Rightarrow> (True, fs1)
      | (S_ISDIR, fs1) \<Rightarrow> (False, fs1)
      | (StatErr e, fs1) \<Rightarrow> if e \<noteq> ENOENT then file_exists_loop E path n fs1 else (False, fs1))"

definition FileExists :: "'z file_env_scheme \<Rightarrow> string \<Rightarrow> fs_state \<Rightarrow> bool \<times> fs_state" where
  "FileExists E path fs = file_exists_loop E path RETRY_TIMES fs"

definition IsExistFile :: "'z file_env_scheme \<Rightarrow> string \<Rightarrow> fs_state \<Rightarrow> bool \<times> fs_state" where
  "IsExistFile E path fs = (if path = [] then (False, fs) else FileExists E path fs)"

definition IsExistDir :: "'z file_env_scheme \<Rightarrow> string \<Rightarrow> fs_state \<Rightarrow> bool \<times> fs_state" where
  "IsExistDir E path fs =
     (if path = [] then (False, fs)
      else case sys_stat E path fs of (S_ISDIR, fs1) \<Rightarrow> (True, fs1) | (_, fs1) \<Rightarrow> (False, fs1))"

fun check_existence_loop :: "'z file_env_scheme \<Rightarrow> string \<Rightarrow> nat \<Rightarrow> fs_state \<Rightarrow> ErrCode \<times> fs_state" where
  "check_existence_loop E path 0 fs = (ERR_ACCOUNT_COMMON_FILE_OTHER_ERROR, fs)"
| "check_existence_loop E path (Suc n) fs =
     (case sys_stat E path fs of
        (S_ISREG, fs1) \<Rightarrow> (ERR_OK, fs1)
      | (S_ISDIR, fs1) \<Rightarrow> (ERR_ACCOUNT_COMMON_FILE_OTHER_ERROR, fs1)
      | (StatErr e, fs1) \<Rightarrow>
          if e = EACCES then (ERR_ACCOUNT_COMMON_FILE_ACCESS_DENIED, fs1)
          else if e = ENOENT then (ERR_ACCOUNT_COMMON_FILE_NOT_EXIST, fs1)
          else check_existence_loop E path n fs1)"

definition CheckFileExistence :: "'z file_env_scheme \<Rightarrow> string \<Rightarrow> fs_state \<Rightarrow> ErrCode \<times> fs_state" where
  "CheckFileExistence E path fs =
     (if path = [] then (ERR_ACCOUNT_COMMON_INVALID_PARAMETER, fs)
      else check_existence_loop E path RETRY_TIMES fs)"

definition IsFileSizeExceedsLimit :: "'z file_env_scheme \<Rightarrow> string \<Rightarrow> int \<Rightarrow> fs_state \<Rightarrow> bool \<times> fs_state" where
  "IsFileSizeExceedsLimit E path maxSize fs =
     (if path = [] then (False, fs)
      else case sys_stat E path fs of
             (S_ISREG, fs1) \<Rightarrow> (int (length (the (fs_files fs path))) > maxSize, fs1)
           | (_, fs1) \<Rightarrow> (False, fs1))"

definition ReadFile :: "'z file_env_scheme \<Rightarrow> string \<Rightarrow> fs_state \<Rightarrow> (ErrCode \<times> string option) \<times> fs_state" where
  "ReadFile E path fs =
     (let (ex, fs1) = FileExists E path fs in
      if \<not> ex then ((ERR_OSACCOUNT_SERVICE_FILE_FIND_FILE_ERROR, None), fs1)
      else let (e, fs2) = sys_call E fs1 in
        (case e of
           Some n \<Rightarrow> ((if n = EACCES then ERR_ACCOUNT_COMMON_FILE_ACCESS_DENIED
                       else ERR_ACCOUNT_COMMON_FILE_OPEN_FAILED, None), fs2)
         | None \<Rightarrow>
             let content = the (fs_files fs2 path);
                 (tellErr, fs3) = sys_call E fs2 in
             if tellErr \<noteq> None \<or> length content > MAX_FILE_SIZE
             then ((ERR_ACCOUNT_COMMON_FILE_READ_FAILED, None), fs3)
             else let (readErr, fs4) = sys_call E fs3 in
               if readErr \<noteq> None then ((ERR_ACCOUNT_COMMON_FILE_READ_FAILED, None), fs4)
               else ((ERR_OK, Some content), fs4)))"

text \<open>The output string keeps its earlier value when the call fails.\<close>

definition GetFileContentByPath ::
  "'z file_env_scheme \<Rightarrow> string \<Rightarrow> string \<Rightarrow> fs_state \<Rightarrow> (ErrCode \<times> string) \<times> fs_state" where
  "GetFileContentByPath E path content fs =
     (let (ex, fs1) = IsExistFile E path fs in
      if \<not> ex then ((ERR_OSACCOUNT_SERVICE_FILE_FIND_FILE_ERROR, content), fs1)
      else let ((ret, c), fs2) = ReadFile E path fs1 in
           ((ret, case c of None \<Rightarrow> content | Some s \<Rightarrow> s), fs2))"

definition IsJsonFormat :: "'z file_env_scheme \<Rightarrow> string \<Rightarrow> fs_state \<Rightarrow> bool \<times> fs_state" where
  "IsJsonFormat E path fs =
     (let ((ret, content), fs1) = GetFileContentByPath E path [] fs in
      if ret \<noteq> ERR_OK then (False, fs1)
      else (IsStructured (CreateJsonFromString E content), fs1))"

definition IsJsonFileReady :: "'z file_env_scheme \<Rightarrow> string \<Rightarrow> fs_state \<Rightarrow> bool \<times> fs_state" where
  "IsJsonFileReady E path fs =
     (let (ex, fs1) = IsExistFile E path fs in if ex then IsJsonFormat E path fs1 else (False, fs1))"

section \<open>Directories and deletion\<close>

definition CreateDir :: "'z file_env_scheme \<Rightarrow> string \<Rightarrow> fs_state \<Rightarrow> ErrCode \<times> fs_state" where
  "CreateDir E path fs =
     (let (e, fs1) = sys_call E fs in
      if e \<noteq> None then (ERR_OSACCOUNT_SERVICE_FILE_CREATE_DIR_ERROR, fs1)
      else let fs2 = fs1\<lparr>fs_dirs := (fs_dirs fs1)(path := True)\<rparr>;
               (e, fs3) = sys_call E fs2 in
           if e \<noteq> None then (ERR_OSACCOUNT_SERVICE_FILE_CHANGE_DIR_MODE_ERROR, fs3) else (ERR_OK, fs3))"

definition below :: "string \<Rightarrow> string \<Rightarrow> bool" where
  "below dir path \<longleftrightarrow> take (Suc (length dir)) path = dir @ ''/''"

definition DeleteDir :: "'z file_env_scheme \<Rightarrow> string \<Rightarrow> fs_state \<Rightarrow> ErrCode \<times> fs_state" where
  "DeleteDir E path fs =
     (let (e, fs1) = sys_call E fs in
      if e \<noteq> None then (ERR_OSACCOUNT_SERVICE_FILE_DELE_ERROR, fs1)
      else (ERR_OK, fs1\<lparr>fs_files := (\<lambda>p. if below path p then None else fs_files fs1 p),
                       fs_dirs := (\<lambda>p. fs_dirs fs1 p \<and> p \<noteq> path \<and> \<not> below path p)\<rparr>))"

definition DeleteFile :: "'z file_env_scheme \<Rightarrow> string \<Rightarrow> fs_state \<Rightarrow> ErrCode \<times> fs_state" where
  "DeleteFile E path fs =
     (let (e, fs1) = sys_call E fs in
      if e \<noteq> None then (ERR_OSACCOUNT_SERVICE_FILE_DELE_ERROR, fs1)
      else (ERR_OK, put_file path None fs1))"

definition DeleteDirOrFile :: "'z file_env_scheme \<Rightarrow> string \<Rightarrow> fs_state \<Rightarrow> ErrCode \<times> fs_state" where
  "DeleteDirOrFile E path fs =
     (let (isDir, fs1) = IsExistDir E path fs in
      if isDir then DeleteDir E path fs1
      else let (isFile, fs2) = IsExistFile E path fs1 in
           if isFile then DeleteFile E path fs2 else (ERR_OK, fs2))"

section \<open>Transactions\<close>

record FileTransaction =
  ft_path :: string
  isOpenTransaction :: bool
  isWriteSuccessOnce :: bool
  ft_wlocked :: bool

definition GetTempFilePath :: "string \<Rightarrow> string" where
  "GetTempFilePath path = path @ ''.tmp''"

definition GetFileTransaction :: "string \<Rightarrow> FileTransaction" where
  "GetFileTransaction path =
     \<lparr>ft_path = path, isOpenTransaction = False, isWriteSuccessOnce = False, ft_wlocked = False\<rparr>"

definition BeginWriteTransaction ::
  "'z file_env_scheme \<Rightarrow> FileTransaction \<Rightarrow> fs_state \<Rightarrow> ErrCode \<times> FileTransaction \<times> fs_state" where
  "BeginWriteTransaction E t fs =
     (if isOpenTransaction t then (ERR_ACCOUNT_COMMON_FILE_TRANSACTION_FAILED, t, fs)
      else let t1 = t\<lparr>ft_wlocked := True, isOpenTransaction := True\<rparr>;
               closed = t1\<lparr>isOpenTransaction := False, ft_wlocked := False\<rparr>;
               tempFilePath = GetTempFilePath (ft_path t);
               folderPath = dirname tempFilePath;
               (isDir, fs1) = IsExistDir E folderPath fs;
               (errCode, fs2) = (if isDir then (ERR_OK, fs1) else CreateDir E folderPath fs1) in
           if errCode \<noteq> ERR_OK then (errCode, closed, fs2)
           else let (e, fs3) = sys_call E fs2 in
                if e \<noteq> None then (ERR_ACCOUNT_COMMON_FILE_OPEN_FAILED, closed, fs3)
                else (ERR_OK, t1, put_file tempFilePath (Some []) fs3))"

definition ForceUnlock :: "FileTransaction \<Rightarrow> FileTransaction" where
  "ForceUnlock t = (if \<not> isOpenTransaction t then t else t\<lparr>ft_wlocked := False, isOpenTransaction := False\<rparr>)"

fun delete_temp_loop :: "'z file_env_scheme \<Rightarrow> string \<Rightarrow> nat \<Rightarrow> fs_state \<Rightarrow> ErrCode \<times> fs_state" where
  "delete_temp_loop E temp 0 fs = (ERR_OSACCOUNT_SERVICE_FILE_DELE_ERROR, fs)"
| "delete_temp_loop E temp (Suc n) fs =
     (let (e, fs1) = sys_call E fs in
      if e = None then (ERR_OK, put_file temp None fs1) else delete_temp_loop E temp n fs1)"

definition DeleteTempFile :: "'z file_env_scheme \<Rightarrow> FileTransaction \<Rightarrow> fs_state \<Rightarrow> ErrCode \<times> fs_state" where
  "DeleteTempFile E t fs = delete_temp_loop E (GetTempFilePath (ft_path t)) (Suc RETRY_TIMES) fs"

definition Rollback ::
  "'z file_env_scheme \<Rightarrow> FileTransaction \<Rightarrow> fs_state \<Rightarrow> ErrCode \<times> FileTransaction \<times> fs_state" where
  "Rollback E t fs =
     (if \<not> isOpenTransaction t then (ERR_OK, t, fs)
      else let (ret, fs1) = DeleteTempFile E t fs in (ret, ForceUnlock t, fs1))"

fun rename_loop :: "'z file_env_scheme \<Rightarrow> string \<Rightarrow> string \<Rightarrow> nat \<Rightarrow> fs_state \<Rightarrow> ErrCode \<times> fs_state" where
  "rename_loop E temp path 0 fs = (ERR_ACCOUNT_COMMON_FILE_SWAP_FAILED, fs)"
| "rename_loop E temp path (Suc n) fs =
     (let (e, fs1) = sys_call E fs in
      case e of
        None \<Rightarrow> (ERR_OK, put_file temp None (put_file path (fs_files fs1 temp) fs1))
      | Some n' \<Rightarrow> if n' \<noteq> EAGAIN then (ERR_ACCOUNT_COMMON_FILE_SWAP_FAILED, fs1)
                   else rename_loop E temp path n fs1)"

definition SwapFileNames :: "'z file_env_scheme \<Rightarrow> FileTransaction \<Rightarrow> fs_state \<Rightarrow> ErrCode \<times> fs_state" where
  "SwapFileNames E t fs =
     (let temp = GetTempFilePath (ft_path t);
          (ex, fs1) = FileExists E temp fs in
      if \<not> ex then (ERR_ACCOUNT_COMMON_FILE_NOT_EXIST, fs1)
      else rename_loop E temp (ft_path t) (Suc RETRY_TIMES) fs1)"

definition EndTransaction ::
  "'z file_env_scheme \<Rightarrow> FileTransaction \<Rightarrow> fs_state \<Rightarrow> ErrCode \<times> FileTransaction \<times> fs_state" where
  "EndTransaction E t fs =
     (if \<not> isOpenTransaction t then (ERR_OK, t, fs)
      else if isWriteSuccessOnce t
      then let (ret, fs1) = SwapFileNames E t fs in (ret, ForceUnlock t, fs1)
      else let (_, t1, fs1) = Rollback E t fs in (ERR_OK, t1, fs1))"

definition WriteFile :: "'z file_env_scheme \<Rightarrow> string \<Rightarrow> string \<Rightarrow> fs_state \<Rightarrow> ErrCode \<times> fs_state" where
  "WriteFile E path content fs =
     (let (e, fs1) = sys_call E fs in
      case e of
        Some n \<Rightarrow> (if n = EACCES then ERR_ACCOUNT_COMMON_FILE_ACCESS_DENIED
                    else ERR_ACCOUNT_COMMON_FILE_OPEN_FAILED, fs1)
      | None \<Rightarrow>
          let k = fs_tick fs1; (werr, fs2) = sys_call E (put_file path (Some []) fs1) in
          if werr \<noteq> None
          then (ERR_ACCOUNT_COMMON_FILE_WRITE_FAILED, put_file path (Some (take (sys_short E k) content)) fs2)
          else let (ferr, fs3) = sys_call E (put_file path (Some content) fs2) in
          if ferr \<noteq> None then (ERR_ACCOUNT_COMMON_FILE_WRITE_FAILED, fs3)
          else let (serr, fs4) = sys_call E fs3 in
          if serr \<noteq> None then (ERR_ACCOUNT_COMMON_FILE_WRITE_FAILED, fs4)
          else let (oerr, fs5) = sys_call E fs4 in
          if oerr \<noteq> None then (ERR_OHOSACCOUNT_SERVICE_FILE_CHANGE_DIR_MODE_ERROR, fs5)
          else let (merr, fs6) = sys_call E fs5 in
          if merr \<noteq> None then (ERR_OHOSACCOUNT_SERVICE_FILE_CHANGE_DIR_MODE_ERROR, fs6)
          else (ERR_OK, fs6))"

definition FileTransaction_WriteFile ::
  "'z file_env_scheme \<Rightarrow> string \<Rightarrow> FileTransaction \<Rightarrow> fs_state \<Rightarrow> ErrCode \<times> FileTransaction \<times> fs_state" where
  "FileTransaction_WriteFile E content t fs =
     (if \<not> isOpenTransaction t then (ERR_ACCOUNT_COMMON_FILE_WRITE_FAILED, t, fs)
      else let (err, fs1) = WriteFile E (GetTempFilePath (ft_path t)) content fs in
           if err \<noteq> ERR_OK then (ERR_ACCOUNT_COMMON_FILE_WRITE_FAILED, t, fs1)
           else (ERR_OK, t\<lparr>isWriteSuccessOnce := True\<rparr>, fs1))"

text \<open>\<open>ReleaseAction\<close> runs when the last reference to the transaction goes away.\<close>

definition ReleaseAction ::
  "'z file_env_scheme \<Rightarrow> FileTransaction \<Rightarrow> fs_state \<Rightarrow> FileTransaction \<times> fs_state" where
  "ReleaseAction E t fs =
     (if isOpenTransaction t then (let (_, t1, fs1) = Rollback E t fs in (t1, fs1)) else (t, fs))"

definition sys_access :: "'z file_env_scheme \<Rightarrow> string \<Rightarrow> fs_state \<Rightarrow> bool \<times> fs_state" where
  "sys_access E path fs =
     (let (e, fs1) = sys_call E fs in (e = None \<and> (fs_files fs path \<noteq> None \<or> fs_dirs fs path), fs1))"

text \<open>The body between taking and dropping the transaction.\<close>

definition run_transaction ::
  "'z file_env_scheme \<Rightarrow> string \<Rightarrow> FileTransaction \<Rightarrow> fs_state \<Rightarrow> ErrCode \<times> FileTransaction \<times> fs_state" where
  "run_transaction E content t fs =
     (let (errCode, t1, fs1) = BeginWriteTransaction E t fs in
      if errCode \<noteq> ERR_OK then (errCode, t1, fs1)
      else let (errCode, t2, fs2) = FileTransaction_WriteFile E content t1 fs1 in
           if errCode \<noteq> ERR_OK then (errCode, t2, fs2)
           else EndTransaction E t2 fs2)"

definition WriteFileWithTransaction ::
  "'z file_env_scheme \<Rightarrow> string \<Rightarrow> string \<Rightarrow> fs_state \<Rightarrow> ErrCode \<times> FileTransaction \<times> fs_state" where
  "WriteFileWithTransaction E path content fs =
     (let (exists, fs1) = sys_access E path fs;
          (rw, fs2) = (if exists then sys_access E path fs1 else (True, fs1)) in
      if exists \<and> \<not> rw then (ERR_ACCOUNT_COMMON_PERMISSION_DENIED, GetFileTransaction path, fs2)
      else let (errCode, t, fs3) = run_transaction E content (GetFileTransaction path) fs2;
               (t', fs4) = ReleaseAction E t fs3
           in (errCode, t', fs4))"

definition InputFileByPathAndContentWithTransaction ::
  "'z file_env_scheme \<Rightarrow> string \<Rightarrow> string \<Rightarrow> fs_state \<Rightarrow> ErrCode \<times> fs_state" where
  "InputFileByPathAndContentWithTransaction E path content fs =
     (if \<not> space_ok E (fs_tick fs) (length content) then (ERR_ACCOUNT_COMMON_DATA_NO_SPACE, fs)
      else let (errCode, _, fs1) = WriteFileWithTransaction E path content fs in (errCode, fs1))"

definition InputFileByPathAndContent ::
  "'z file_env_scheme \<Rightarrow> string \<Rightarrow> string \<Rightarrow> fs_state \<Rightarrow> ErrCode \<times> fs_state" where
  "InputFileByPathAndContent E path content fs =
     (let str = dirname path;
          (isDir, fs1) = IsExistDir E str fs;
          (errCode, fs2) = (if isDir then (ERR_OK, fs1) else CreateDir E str fs1) in
      if errCode \<noteq> ERR_OK then (errCode, fs2)
      else InputFileByPathAndContentWithTransaction E path content fs2)"


section \<open>What the calls leave alone\<close>

named_theorems fs_frame \<open>calls that do not change the files\<close>

lemma sys_call_files [simp]: "fs_files (snd (sys_call E fs)) = fs_files fs"
  by (simp add: sys_call_def)

lemma put_file_files [simp]: "fs_files (put_file p c fs) = (fs_files fs)(p := c)"
  by (simp add: put_file_def)

lemma sys_stat_files [simp]: "fs_files (snd (sys_stat E path fs)) = fs_files fs"
  by (simp add: sys_stat_def split_beta Let_def)

lemma file_exists_loop_files [simp]: "fs_files (snd (file_exists_loop E path n fs)) = fs_files fs"
proof (induction n arbitrary: fs)
  case (Suc n)
  obtain r fs1 where "sys_stat E path fs = (r, fs1)" by (cases "sys_stat E path fs")
  with Suc sys_stat_files [of E path fs] show ?case
    by (simp split: stat_result.split)
qed simp

lemma FileExists_files [simp]: "fs_files (snd (FileExists E path fs)) = fs_files fs"
  by (simp add: FileExists_def)

lemma IsExistFile_files [simp]: "fs_files (snd (IsExistFile E path fs)) = fs_files fs"
  by (simp add: IsExistFile_def)

lemma IsExistDir_files [simp]: "fs_files (snd (IsExistDir E path fs)) = fs_files fs"
proof -
  obtain r fs1 where r: "sys_stat E path fs = (r, fs1)" by (cases "sys_stat E path fs")
  then have "fs_files fs1 = fs_files fs" by (metis sys_stat_files snd_conv)
  with r show ?thesis by (simp add: IsExistDir_def split: stat_result.split)
qed

lemma sys_access_files [simp]: "fs_files (snd (sys_access E path fs)) = fs_files fs"
  by (simp add: sys_access_def split_beta Let_def)

lemma CreateDir_files [simp]: "fs_files (snd (CreateDir E path fs)) = fs_files fs"
  by (simp add: CreateDir_def split_beta Let_def)

lemma ReadFile_files [simp]: "fs_files (snd (ReadFile E path fs)) = fs_files fs"
  by (simp add: ReadFile_def split_beta Let_def split: option.split)

lemma GetFileContentByPath_files [simp]: "fs_files (snd (GetFileContentByPath E path c fs)) = fs_files fs"
  by (simp add: GetFileContentByPath_def split_beta Let_def)

lemma FileExists_true: "fst (FileExists E path fs) \<Longrightarrow> fs_files fs path \<noteq> None"
proof -
  have "fst (file_exists_loop E path n fs) \<Longrightarrow> fs_files fs path \<noteq> None" for n
  proof (induction n arbitrary: fs)
    case (Suc n)
    obtain r fs1 where r: "sys_stat E path fs = (r, fs1)" by (cases "sys_stat E path fs")
    then have f: "fs_files fs1 = fs_files fs" by (metis sys_stat_files snd_conv)
    from r have "r = S_ISREG \<Longrightarrow> fs_files fs path \<noteq> None"
      by (auto simp: sys_stat_def Let_def split_beta split: option.splits if_splits)
    with Suc.IH [of fs1] Suc.prems r f show ?case
      by (auto split: stat_result.splits if_splits)
  qed simp
  then show "fst (FileExists E path fs) \<Longrightarrow> fs_files fs path \<noteq> None" by (simp add: FileExists_def)
qed

lemma temp_neq [simp]: "GetTempFilePath path \<noteq> path" "path \<noteq> GetTempFilePath path"
  by (simp_all add: GetTempFilePath_def)

section \<open>Atomic replacement\<close>

text \<open>\<open>fs\<close> and \<open>fs'\<close> agree on every file but the temporary one.\<close>

definition same_but :: "string \<Rightarrow> fs_state \<Rightarrow> fs_state \<Rightarrow> bool" where
  "same_but temp fs fs' \<longleftrightarrow> (\<forall>p. p \<noteq> temp \<longrightarrow> fs_files fs' p = fs_files fs p)"

lemma same_but_refl [simp]: "fs_files fs' = fs_files fs \<Longrightarrow> same_but temp fs fs'"
  by (simp add: same_but_def)

lemma same_but_trans: "same_but temp a b \<Longrightarrow> same_but temp b c \<Longrightarrow> same_but temp a c"
  by (simp add: same_but_def)

lemma BeginWriteTransaction_spec:
  assumes "BeginWriteTransaction E t fs = (r, t', fs')" and "\<not> isOpenTransaction t"
  shows "same_but (GetTempFilePath (ft_path t)) fs fs' \<and> ft_path t' = ft_path t
    \<and> isOpenTransaction t' = (r = ERR_OK) \<and> ft_wlocked t' = (r = ERR_OK)"
proof -
  let ?d = "dirname (GetTempFilePath (ft_path t))"
  obtain isDir fs1 where 1: "IsExistDir E ?d fs = (isDir, fs1)" by (cases "IsExistDir E ?d fs")
  obtain e fs2 where 2: "(if isDir then (ERR_OK, fs1) else CreateDir E ?d fs1) = (e, fs2)"
    by (cases "if isDir then (ERR_OK, fs1) else CreateDir E ?d fs1")
  obtain n fs3 where 3: "sys_call E fs2 = (n, fs3)" by (cases "sys_call E fs2")
  have "fs_files fs1 = fs_files fs" using IsExistDir_files [of E ?d fs] by (simp add: 1)
  moreover have "fs_files fs2 = fs_files fs1"
    using 2 by (metis CreateDir_files snd_conv)
  moreover have "fs_files fs3 = fs_files fs2" using sys_call_files [of E fs2] by (simp add: 3)
  ultimately show ?thesis
    using assms by (auto simp: BeginWriteTransaction_def Let_def 1 2 3 same_but_def split: if_splits)
qed

lemma delete_temp_loop_same: "same_but temp fs (snd (delete_temp_loop E temp n fs))"
proof (induction n arbitrary: fs)
  case (Suc n)
  obtain e fs1 where e: "sys_call E fs = (e, fs1)" by (cases "sys_call E fs")
  with sys_call_files [of E fs] have "fs_files fs1 = fs_files fs" by simp
  with Suc [of fs1] e show ?case by (auto simp: same_but_def)
qed simp

lemma Rollback_spec:
  assumes "Rollback E t fs = (r, t', fs')" and "isOpenTransaction t = ft_wlocked t"
  shows "same_but (GetTempFilePath (ft_path t)) fs fs' \<and> \<not> isOpenTransaction t' \<and> \<not> ft_wlocked t'"
  using assms delete_temp_loop_same [of "GetTempFilePath (ft_path t)" fs E "Suc RETRY_TIMES"]
  by (auto simp: Rollback_def DeleteTempFile_def ForceUnlock_def split_beta Let_def split: if_splits)

lemma rename_loop_spec:
  assumes "rename_loop E temp path n fs = (r, fs')" and "path \<noteq> temp"
  shows "if r = ERR_OK then fs_files fs' = (fs_files fs)(path := fs_files fs temp, temp := None)
    else fs_files fs' = fs_files fs"
  using assms
proof (induction n arbitrary: fs)
  case (Suc n)
  obtain e fs1 where e: "sys_call E fs = (e, fs1)" by (cases "sys_call E fs")
  with sys_call_files [of E fs] have "fs_files fs1 = fs_files fs" by simp
  with Suc.IH [of fs1] Suc.prems e show ?case by (auto split: option.splits if_splits)
qed simp

lemma SwapFileNames_spec:
  assumes "SwapFileNames E t fs = (r, fs')"
  shows "if r = ERR_OK
    then fs_files fs' (ft_path t) = fs_files fs (GetTempFilePath (ft_path t))
      \<and> (\<forall>p. p \<noteq> ft_path t \<and> p \<noteq> GetTempFilePath (ft_path t) \<longrightarrow> fs_files fs' p = fs_files fs p)
    else fs_files fs' = fs_files fs"
proof -
  let ?t = "GetTempFilePath (ft_path t)"
  obtain ex fs1 where 1: "FileExists E ?t fs = (ex, fs1)" by (cases "FileExists E ?t fs")
  have "fs_files fs1 = fs_files fs" using FileExists_files [of E ?t fs] by (simp add: 1)
  with assms rename_loop_spec [of E ?t "ft_path t" "Suc RETRY_TIMES" fs1 r fs'] show ?thesis
    by (auto simp: SwapFileNames_def Let_def 1 split: if_splits)
qed

lemma WriteFile_spec:
  assumes "WriteFile E path content fs = (r, fs')"
  shows "same_but path fs fs' \<and> (r = ERR_OK \<longrightarrow> fs_files fs' path = Some content)"
  using assms by (auto simp: WriteFile_def Let_def split_beta same_but_def split: option.splits if_splits)

lemma run_transaction_spec:
  assumes "run_transaction E content (GetFileTransaction path) fs = (r, t', fs')"
  shows "ft_path t' = path \<and> isOpenTransaction t' = ft_wlocked t'
    \<and> (r = ERR_OK \<longrightarrow> \<not> isOpenTransaction t' \<and> fs_files fs' path = Some content
          \<and> (\<forall>p. p \<noteq> path \<and> p \<noteq> GetTempFilePath path \<longrightarrow> fs_files fs' p = fs_files fs p))
    \<and> (r \<noteq> ERR_OK \<longrightarrow> same_but (GetTempFilePath path) fs fs')"
proof -
  let ?temp = "GetTempFilePath path"
  obtain r1 t1 fs1 where 1: "BeginWriteTransaction E (GetFileTransaction path) fs = (r1, t1, fs1)"
    by (metis prod_cases3)
  from BeginWriteTransaction_spec [OF 1]
  have b: "same_but ?temp fs fs1" "ft_path t1 = path" "isOpenTransaction t1 = (r1 = ERR_OK)"
    "ft_wlocked t1 = (r1 = ERR_OK)" by (auto simp: GetFileTransaction_def)
  obtain w fs2 where 2: "WriteFile E ?temp content fs1 = (w, fs2)"
    by (cases "WriteFile E ?temp content fs1")
  from WriteFile_spec [OF 2] b(1)
  have w: "same_but ?temp fs fs2" "w = ERR_OK \<longrightarrow> fs_files fs2 ?temp = Some content"
    by (auto intro: same_but_trans)
  obtain s fs3 where 3: "SwapFileNames E (t1\<lparr>isWriteSuccessOnce := True\<rparr>) fs2 = (s, fs3)"
    by (cases "SwapFileNames E (t1\<lparr>isWriteSuccessOnce := True\<rparr>) fs2")
  show ?thesis
  proof (cases "r1 = ERR_OK \<and> w = ERR_OK")
    case True
    with assms b have "r = s" "fs' = fs3" "t' = ForceUnlock (t1\<lparr>isWriteSuccessOnce := True\<rparr>)"
      by (simp_all add: run_transaction_def 1 FileTransaction_WriteFile_def 2 EndTransaction_def 3)
    with SwapFileNames_spec [OF 3] True b w show ?thesis
      by (auto simp: ForceUnlock_def same_but_def split: if_splits)
  next
    case False
    with assms b w show ?thesis
      by (auto simp: run_transaction_def 1 FileTransaction_WriteFile_def 2 split: if_splits)
  qed
qed


lemma WriteFileWithTransaction_spec:
  assumes "WriteFileWithTransaction E path content fs = (r, t, fs')"
  shows "\<not> isOpenTransaction t \<and> \<not> ft_wlocked t
    \<and> (if r = ERR_OK then fs_files fs' path = Some content else fs_files fs' path = fs_files fs path)
    \<and> (\<forall>p. p \<noteq> path \<and> p \<noteq> GetTempFilePath path \<longrightarrow> fs_files fs' p = fs_files fs p)"
proof -
  obtain ex fs1 where 1: "sys_access E path fs = (ex, fs1)" by (cases "sys_access E path fs")
  obtain rw fs2 where 2: "(if ex then sys_access E path fs1 else (True, fs1)) = (rw, fs2)"
    by (cases "if ex then sys_access E path fs1 else (True, fs1)")
  have f: "fs_files fs2 = fs_files fs"
    using 1 2 by (metis sys_access_files snd_conv)
  obtain r3 t3 fs3 where 3: "run_transaction E content (GetFileTransaction path) fs2 = (r3, t3, fs3)"
    by (metis prod_cases3)
  obtain r4 t4 fs4 where 4: "Rollback E t3 fs3 = (r4, t4, fs4)" by (metis prod_cases3)
  show ?thesis
  proof (cases "ex \<and> \<not> rw")
    case True
    with 2 have "sys_access E path fs1 = (rw, fs2)" by simp
    with True assms f show ?thesis
      by (auto simp: WriteFileWithTransaction_def 1 GetFileTransaction_def)
  next
    case False
    then have eq: "(r, t, fs') = (if isOpenTransaction t3 then (r3, t4, fs4) else (r3, t3, fs3))"
      using assms by (simp only: WriteFileWithTransaction_def Let_def 1 2 3 4 ReleaseAction_def prod.case
          False if_False) (simp split: if_splits)
    from run_transaction_spec [OF 3] have t3: "ft_path t3 = path" "isOpenTransaction t3 = ft_wlocked t3"
      by blast+
    from Rollback_spec [OF 4 t3(2)] have "same_but (GetTempFilePath path) fs3 fs4"
      and "\<not> isOpenTransaction t4" "\<not> ft_wlocked t4" by (simp_all add: t3)
    with run_transaction_spec [OF 3] eq f show ?thesis
      by (cases "isOpenTransaction t3"; cases "r3 = ERR_OK") (simp_all add: same_but_def)
  qed
qed

text \<open>
  C3 (safety). Replacing a file is atomic for every behaviour of the operating system, hence also
  when the process dies in the middle: if the call reports success the file holds exactly the new
  content, if it reports any error the file is what it was; no file other than the target and its
  temporary sibling changes, and the transaction's write lock is released on every path.
\<close>

theorem write_transaction_atomic:
  assumes "WriteFileWithTransaction E path content fs = (r, t, fs')"
  shows "fs_files fs' path = (if r = ERR_OK then Some content else fs_files fs path)
    \<and> (\<forall>p. p \<noteq> path \<and> p \<noteq> GetTempFilePath path \<longrightarrow> fs_files fs' p = fs_files fs p)
    \<and> \<not> isOpenTransaction t \<and> \<not> ft_wlocked t"
  using WriteFileWithTransaction_spec [OF assms] by (simp split: if_splits)

lemma InputFileTransaction_spec:
  assumes "InputFileByPathAndContentWithTransaction E path content fs = (r, fs')"
  shows "fs_files fs' path = (if r = ERR_OK then Some content else fs_files fs path)
    \<and> (\<forall>p. p \<noteq> path \<and> p \<noteq> GetTempFilePath path \<longrightarrow> fs_files fs' p = fs_files fs p)"
proof -
  obtain r1 t fs1 where 1: "WriteFileWithTransaction E path content fs = (r1, t, fs1)" by (metis prod_cases3)
  from WriteFileWithTransaction_spec [OF 1] assms show ?thesis
    by (auto simp: InputFileByPathAndContentWithTransaction_def 1 split: if_splits)
qed

lemma InputFile_spec:
  assumes "InputFileByPathAndContent E path content fs = (r, fs')"
  shows "fs_files fs' path = (if r = ERR_OK then Some content else fs_files fs path)
    \<and> (\<forall>p. p \<noteq> path \<and> p \<noteq> GetTempFilePath path \<longrightarrow> fs_files fs' p = fs_files fs p)"
proof -
  obtain isDir fs1 where 1: "IsExistDir E (dirname path) fs = (isDir, fs1)"
    by (cases "IsExistDir E (dirname path) fs")
  obtain e fs2 where 2: "(if isDir then (ERR_OK, fs1) else CreateDir E (dirname path) fs1) = (e, fs2)"
    by (cases "if isDir then (ERR_OK, fs1) else CreateDir E (dirname path) fs1")
  have f: "fs_files fs2 = fs_files fs"
    using 1 2 by (metis IsExistDir_files CreateDir_files snd_conv)
  from InputFileTransaction_spec [of E path content fs2 r fs'] f assms show ?thesis
    by (auto simp: InputFileByPathAndContent_def Let_def 1 2 split: if_splits)
qed

lemma GetFileContent_ok:
  assumes "GetFileContentByPath E path c fs = ((ERR_OK, s), fs')"
  shows "fs_files fs path = Some s"
proof -
  obtain ex fs1 where 1: "IsExistFile E path fs = (ex, fs1)" by (cases "IsExistFile E path fs")
  obtain ex2 fs2 where 2: "FileExists E path fs1 = (ex2, fs2)" by (cases "FileExists E path fs1")
  have f: "fs_files fs1 = fs_files fs" "fs_files fs2 = fs_files fs"
    using 1 2 by (metis IsExistFile_files FileExists_files snd_conv)+
  have "ex2 \<Longrightarrow> fs_files fs path \<noteq> None"
    using FileExists_true [of E path fs1] f by (simp add: 2)
  with assms f show ?thesis
    by (auto simp: GetFileContentByPath_def ReadFile_def Let_def 1 2 split_beta
        split: if_splits option.splits)
qed

lemma GetFileContent_err:
  "GetFileContentByPath E path c fs = ((r, s), fs') \<Longrightarrow> r \<noteq> ERR_OK \<Longrightarrow> s = c"
  by (auto simp: GetFileContentByPath_def ReadFile_def Let_def split_beta split: if_splits option.splits)

section \<open>The store the account managers use\<close>

text \<open>
  The contract the managers rely on: reading changes nothing and returns what is stored, writing
  stores exactly the new content or reports an error and leaves the file as it was. The managers
  read a file, compute, and write it back; the lemmas of the contract say what is stored then.
\<close>

locale file_store =
  fixes content :: "'fs \<Rightarrow> string \<Rightarrow> string option"
    and load :: "string \<Rightarrow> 'fs \<Rightarrow> (ErrCode \<times> string) \<times> 'fs"
    and store :: "string \<Rightarrow> string \<Rightarrow> 'fs \<Rightarrow> ErrCode \<times> 'fs"
    and temp :: "string \<Rightarrow> string"
  assumes read_frame: "content (snd (load p fs)) = content fs"
    and read_ok: "load p fs = ((ERR_OK, s), fs') \<Longrightarrow> content fs p = Some s"
    and write_target: "store p s fs = (r, fs') \<Longrightarrow>
          content fs' p = (if r = ERR_OK then Some s else content fs p)"
    and write_frame: "store p s fs = (r, fs') \<Longrightarrow> q \<noteq> p \<Longrightarrow> q \<noteq> temp p \<Longrightarrow> content fs' q = content fs q"
    and temp_other: "temp p \<noteq> p"
begin

lemma read_after_write:
  assumes "store p s fs = (ERR_OK, fs1)" and "load p fs1 = ((ERR_OK, s'), fs2)"
  shows "s' = s"
  using write_target [OF assms(1)] read_ok [OF assms(2)] by simp

lemma failed_write_invisible:
  assumes "store p s fs = (r, fs1)" and "r \<noteq> ERR_OK" and "load p fs1 = ((ERR_OK, s'), fs2)"
  shows "content fs p = Some s'"
  using write_target [OF assms(1)] read_ok [OF assms(3)] assms(2) by simp

lemma read_keeps: "load p fs = (r, fs') \<Longrightarrow> content fs' = content fs"
  using read_frame [of p fs] by simp

lemma read_then_write:
  assumes "load p fs = (x, fs1)" and "store p s fs1 = (r, fs2)"
  shows "content fs2 p = (if r = ERR_OK then Some s else content fs p)"
  using write_target [OF assms(2)] read_keeps [OF assms(1)] by simp

end

interpretation account_files: file_store fs_files
  "\<lambda>p. GetFileContentByPath E p []" "InputFileByPathAndContent E" GetTempFilePath for E :: "'z file_env_scheme"
proof
  show "fs_files (snd (GetFileContentByPath E p [] fs)) = fs_files fs" for p fs by simp
  show "fs_files fs p = Some s" if "GetFileContentByPath E p [] fs = ((ERR_OK, s), fs')" for p fs s fs'
    using that by (rule GetFileContent_ok)
qed (auto dest: InputFile_spec)

section \<open>When nothing fails\<close>

definition os_quiet :: "'z file_env_scheme \<Rightarrow> bool" where
  "os_quiet E \<longleftrightarrow> (\<forall>n. sys_errno E n = None) \<and> (\<forall>n k. space_ok E n k)"

lemma quiet_sys_call [simp]: "os_quiet E \<Longrightarrow> fst (sys_call E fs) = None"
  by (simp add: os_quiet_def sys_call_def)

lemma quiet_sys_call_eq: "os_quiet E \<Longrightarrow> sys_call E fs = (None, fs\<lparr>fs_tick := Suc (fs_tick fs)\<rparr>)"
  by (simp add: os_quiet_def sys_call_def)

lemma quiet_exists:
  "os_quiet E \<Longrightarrow> fs_files fs path \<noteq> None \<Longrightarrow>
   FileExists E path fs = (True, fs\<lparr>fs_tick := Suc (fs_tick fs)\<rparr>)"
  by (simp add: FileExists_def RETRY_TIMES_def numeral_3_eq_3 sys_stat_def quiet_sys_call_eq)

lemma quiet_read:
  assumes "os_quiet E" and "path \<noteq> []" and "fs_files fs path = Some s" and "length s \<le> MAX_FILE_SIZE"
  shows "\<exists>fs'. GetFileContentByPath E path c fs = ((ERR_OK, s), fs')"
  using assms by (simp add: GetFileContentByPath_def IsExistFile_def ReadFile_def quiet_exists quiet_sys_call_eq
      not_less)

lemma quiet_begin:
  assumes "os_quiet E" and "\<not> isOpenTransaction t"
  shows "fst (BeginWriteTransaction E t fs) = ERR_OK"
  using assms
  by (simp add: BeginWriteTransaction_def Let_def IsExistDir_def sys_stat_def CreateDir_def quiet_sys_call_eq)

lemma quiet_write_file: "os_quiet E \<Longrightarrow> fst (WriteFile E path content fs) = ERR_OK"
  by (simp add: WriteFile_def Let_def quiet_sys_call_eq)

lemma quiet_swap:
  "os_quiet E \<Longrightarrow> fs_files fs (GetTempFilePath (ft_path t)) \<noteq> None \<Longrightarrow> fst (SwapFileNames E t fs) = ERR_OK"
  by (simp add: SwapFileNames_def quiet_exists Let_def quiet_sys_call_eq)

lemma quiet_transaction:
  assumes "os_quiet E"
  shows "fst (WriteFileWithTransaction E path content fs) = ERR_OK"
proof -
  have run: "fst (run_transaction E content (GetFileTransaction path) fs) = ERR_OK" for fs
  proof -
    obtain r1 t1 fs1 where 1: "BeginWriteTransaction E (GetFileTransaction path) fs = (r1, t1, fs1)"
      by (metis prod_cases3)
    have r1: "r1 = ERR_OK" using quiet_begin [OF assms, of "GetFileTransaction path" fs] 1
      by (simp add: GetFileTransaction_def)
    from BeginWriteTransaction_spec [OF 1] r1
    have b: "ft_path t1 = path" "isOpenTransaction t1" by (simp_all add: GetFileTransaction_def)
    obtain w fs2 where 2: "WriteFile E (GetTempFilePath path) content fs1 = (w, fs2)"
      by (cases "WriteFile E (GetTempFilePath path) content fs1")
    with quiet_write_file [OF assms] have w: "w = ERR_OK" by (metis fst_conv)
    with WriteFile_spec [OF 2] have "fs_files fs2 (GetTempFilePath path) \<noteq> None" by simp
    then have "fst (SwapFileNames E (t1\<lparr>isWriteSuccessOnce := True\<rparr>) fs2) = ERR_OK"
      by (intro quiet_swap [OF assms]) (simp add: b)
    then show ?thesis
      by (simp add: run_transaction_def 1 r1 FileTransaction_WriteFile_def b 2 w EndTransaction_def split_beta Let_def)
  qed
  have acc: "fst (sys_access E path fs1)" if "fst (sys_access E path fs)" "fs1 = snd (sys_access E path fs)" for fs fs1
    using that assms by (auto simp: sys_access_def quiet_sys_call_eq)
  show ?thesis
    using run acc by (auto simp: WriteFileWithTransaction_def Let_def split_beta)
qed

lemma quiet_write:
  assumes "os_quiet E"
  shows "fst (InputFileByPathAndContent E path content fs) = ERR_OK"
    and "fst (InputFileByPathAndContentWithTransaction E path content fs) = ERR_OK"
  using quiet_transaction [OF assms] assms
  by (auto simp: InputFileByPathAndContent_def InputFileByPathAndContentWithTransaction_def Let_def
      IsExistDir_def sys_stat_def CreateDir_def quiet_sys_call_eq split_beta os_quiet_def)

text \<open>
  When no system call fails and there is room, storing a file succeeds, and a file of
  at most 16 MiB is then read back with exactly the content stored.
\<close>

theorem store_and_load:
  assumes "os_quiet E" and "path \<noteq> []" and "length content \<le> MAX_FILE_SIZE"
  shows "\<exists>fs1 fs2. InputFileByPathAndContent E path content fs = (ERR_OK, fs1)
    \<and> GetFileContentByPath E path [] fs1 = ((ERR_OK, content), fs2)"
proof -
  obtain fs1 where w: "InputFileByPathAndContent E path content fs = (ERR_OK, fs1)"
    using quiet_write(1) [OF assms(1), of path content fs] by (metis prod.collapse)
  then have "fs_files fs1 path = Some content" using InputFile_spec by fastforce
  with w quiet_read [OF assms(1,2) _ assms(3)] show ?thesis by blast
qed


definition quiet_env :: file_env where
  "quiet_env = \<lparr>cj_parse = ref_read, cj_print = (\<lambda>j. Some (ref_print j)), sys_errno = (\<lambda>_. None),
     sys_short = (\<lambda>_. 0), space_ok = (\<lambda>_ _. True)\<rparr>"

definition empty_fs :: fs_state where
  "empty_fs = \<lparr>fs_files = (\<lambda>_. None), fs_dirs = (\<lambda>_. False), fs_tick = 0\<rparr>"

text \<open>An operating system whose third call and all later ones fail.\<close>

definition dying_env :: file_env where
  "dying_env = quiet_env\<lparr>sys_errno := (\<lambda>n. if n < 3 then None else Some 5)\<rparr>"

theorem write_transaction_witness:
  "fs_files (snd (snd (WriteFileWithTransaction dying_env ''/d/f'' ''new'' (put_file ''/d/f'' (Some ''old'') empty_fs))))
     ''/d/f'' = Some ''old''"
proof -
  let ?fs = "put_file ''/d/f'' (Some ''old'') empty_fs"
  have "fst (WriteFileWithTransaction dying_env ''/d/f'' ''new'' ?fs) \<noteq> ERR_OK" by code_simp
  moreover obtain r t fs' where w: "WriteFileWithTransaction dying_env ''/d/f'' ''new'' ?fs = (r, t, fs')"
    by (metis prod_cases3)
  ultimately show ?thesis
    using write_transaction_atomic [OF w] by simp
qed

theorem store_and_load_witness:
  "\<exists>fs1 fs2. InputFileByPathAndContent quiet_env ''/d/f'' ''x'' empty_fs = (ERR_OK, fs1)
    \<and> GetFileContentByPath quiet_env ''/d/f'' [] fs1 = ((ERR_OK, ''x''), fs2)"
  by (rule store_and_load) (simp_all add: os_quiet_def quiet_env_def MAX_FILE_SIZE_def)

end
