(* ===== verification/Os_Account_Files.thy ===== *)
theory Os_Account_Files
  imports Account_File_Operator
begin

text \<open>
  The files of the OS account manager
  (\<open>services/accountmgr/src/osaccount/os_account_control_file_manager.cpp\<close> and
  \<open>os_account_file_operator.cpp\<close>): the account list and the three constraint files, each a JSON
  object, read as a whole and written back as a whole. A result \<open>(errCode, json option)\<close> is the
  returned code and the output pointer. \<open>StrToInt\<close> is a function of another repository and a
  parameter, as is \<open>db_account_list\<close>, the answer of the distributed database when the list file
  cannot be parsed. What is written to that database is never read back by the functions modelled
  here, and the digests of the file watcher are only logged, so neither is part of the state.
\<close>

record os_env = file_env +
  StrToInt :: "string \<Rightarrow> int option"
  DISTRIBUTED :: bool
  db_account_list :: "nat \<Rightarrow> ErrCode \<times> json option"

definition USER_INFO_BASE :: string where "USER_INFO_BASE = ''/data/service/el1/public/account''"
definition ACCOUNT_LIST_FILE_JSON_PATH :: string where
  "ACCOUNT_LIST_FILE_JSON_PATH = USER_INFO_BASE @ ''/account_list.json''"
definition BASE_OSACCOUNT_CONSTRAINTS_JSON_PATH :: string where
  "BASE_OSACCOUNT_CONSTRAINTS_JSON_PATH = USER_INFO_BASE @ ''/base_os_account_constraints.json''"
definition GLOBAL_OSACCOUNT_CONSTRAINTS_JSON_PATH :: string where
  "GLOBAL_OSACCOUNT_CONSTRAINTS_JSON_PATH = USER_INFO_BASE @ ''/global_os_account_constraints.json''"
definition SPECIFIC_OSACCOUNT_CONSTRAINTS_JSON_PATH :: string where
  "SPECIFIC_OSACCOUNT_CONSTRAINTS_JSON_PATH = USER_INFO_BASE @ ''/specific_os_account_constraints.json''"

lemmas path_defs = USER_INFO_BASE_def ACCOUNT_LIST_FILE_JSON_PATH_def
  BASE_OSACCOUNT_CONSTRAINTS_JSON_PATH_def GLOBAL_OSACCOUNT_CONSTRAINTS_JSON_PATH_def
  SPECIFIC_OSACCOUNT_CONSTRAINTS_JSON_PATH_def

definition ALL_GLOBAL_CONSTRAINTS :: string where "ALL_GLOBAL_CONSTRAINTS = ''allGlobalConstraints''"
definition ALL_SPECIFIC_CONSTRAINTS :: string where "ALL_SPECIFIC_CONSTRAINTS = ''allSpecificConstraints''"
definition DEVICE_OWNER_ID :: string where "DEVICE_OWNER_ID = ''deviceOwnerId''"

lemmas key_defs = ALL_GLOBAL_CONSTRAINTS_def ALL_SPECIFIC_CONSTRAINTS_def DEVICE_OWNER_ID_def

section \<open>Reading\<close>

definition GetAccountListFromFile :: "'z os_env_scheme \<Rightarrow> fs_state \<Rightarrow> (ErrCode \<times> json option) \<times> fs_state" where
  "GetAccountListFromFile E fs =
     (let ((errCode, accountList), fs1) = GetFileContentByPath E ACCOUNT_LIST_FILE_JSON_PATH [] fs in
      if errCode \<noteq> ERR_OK then ((errCode, None), fs1)
      else case CreateJsonFromString E accountList of
             Some j \<Rightarrow> ((ERR_OK, Some j), fs1)
           | None \<Rightarrow> if DISTRIBUTED E then (db_account_list E (fs_tick fs1), fs1)
                     else ((ERR_ACCOUNT_COMMON_BAD_JSON_FORMAT_ERROR, None), fs1))"

text \<open>
  A constraint file that does not parse, or is not an object, is logged; the code returned is still
  the one of the successful read.
\<close>

definition constraints_from_file :: "'z os_env_scheme \<Rightarrow> string \<Rightarrow> fs_state \<Rightarrow> (ErrCode \<times> json option) \<times> fs_state" where
  "constraints_from_file E path fs =
     (let ((errCode, str), fs1) = GetFileContentByPath E path [] fs in
      if errCode \<noteq> ERR_OK then ((errCode, None), fs1)
      else let jsonObj = CreateJsonFromString E str in
           if jsonObj = None \<or> \<not> IsObject jsonObj then ((errCode, jsonObj), fs1)
           else ((ERR_OK, jsonObj), fs1))"

definition GetBaseOAConstraintsFromFile :: "'z os_env_scheme \<Rightarrow> fs_state \<Rightarrow> (ErrCode \<times> json option) \<times> fs_state" where
  "GetBaseOAConstraintsFromFile E = constraints_from_file E BASE_OSACCOUNT_CONSTRAINTS_JSON_PATH"

definition GetGlobalOAConstraintsFromFile :: "'z os_env_scheme \<Rightarrow> fs_state \<Rightarrow> (ErrCode \<times> json option) \<times> fs_state" where
  "GetGlobalOAConstraintsFromFile E = constraints_from_file E GLOBAL_OSACCOUNT_CONSTRAINTS_JSON_PATH"

definition GetSpecificOAConstraintsFromFile :: "'z os_env_scheme \<Rightarrow> fs_state \<Rightarrow> (ErrCode \<times> json option) \<times> fs_state" where
  "GetSpecificOAConstraintsFromFile E = constraints_from_file E SPECIFIC_OSACCOUNT_CONSTRAINTS_JSON_PATH"

section \<open>Writing\<close>

text \<open>The empty text of an unprintable object is logged and written all the same.\<close>

definition json_to_file :: "'z os_env_scheme \<Rightarrow> string \<Rightarrow> json option \<Rightarrow> fs_state \<Rightarrow> ErrCode \<times> fs_state" where
  "json_to_file E path jsonObj fs = InputFileByPathAndContent E path (PackJsonToString E jsonObj) fs"

definition SaveAccountListToFile :: "'z os_env_scheme \<Rightarrow> json option \<Rightarrow> fs_state \<Rightarrow> ErrCode \<times> fs_state" where
  "SaveAccountListToFile E = json_to_file E ACCOUNT_LIST_FILE_JSON_PATH"

definition SaveAccountListToFileAndDataBase :: "'z os_env_scheme \<Rightarrow> json option \<Rightarrow> fs_state \<Rightarrow> ErrCode \<times> fs_state" where
  "SaveAccountListToFileAndDataBase E = SaveAccountListToFile E"

definition SaveBaseOAConstraintsToFile :: "'z os_env_scheme \<Rightarrow> json option \<Rightarrow> fs_state \<Rightarrow> ErrCode \<times> fs_state" where
  "SaveBaseOAConstraintsToFile E = json_to_file E BASE_OSACCOUNT_CONSTRAINTS_JSON_PATH"

definition SaveGlobalOAConstraintsToFile :: "'z os_env_scheme \<Rightarrow> json option \<Rightarrow> fs_state \<Rightarrow> ErrCode \<times> fs_state" where
  "SaveGlobalOAConstraintsToFile E = json_to_file E GLOBAL_OSACCOUNT_CONSTRAINTS_JSON_PATH"

definition SaveSpecificOAConstraintsToFile :: "'z os_env_scheme \<Rightarrow> json option \<Rightarrow> fs_state \<Rightarrow> ErrCode \<times> fs_state" where
  "SaveSpecificOAConstraintsToFile E = json_to_file E SPECIFIC_OSACCOUNT_CONSTRAINTS_JSON_PATH"

lemmas os_file_defs = GetBaseOAConstraintsFromFile_def GetGlobalOAConstraintsFromFile_def
  GetSpecificOAConstraintsFromFile_def SaveAccountListToFile_def SaveAccountListToFileAndDataBase_def
  SaveBaseOAConstraintsToFile_def SaveGlobalOAConstraintsToFile_def SaveSpecificOAConstraintsToFile_def

section \<open>The stored objects\<close>

text \<open>The object a file holds, as the readers see it.\<close>

definition file_json :: "'z os_env_scheme \<Rightarrow> string \<Rightarrow> fs_state \<Rightarrow> json option" where
  "file_json E path fs = (case fs_files fs path of None \<Rightarrow> None | Some s \<Rightarrow> CreateJsonFromString E s)"

lemma constraints_from_file_json:
  assumes "constraints_from_file E path fs = ((ERR_OK, j), fs1)"
  shows "j = file_json E path fs \<and> fs_files fs1 = fs_files fs"
proof -
  obtain r s fs2 where g: "GetFileContentByPath E path [] fs = ((r, s), fs2)" by (metis prod.collapse)
  have "fs_files fs2 = fs_files fs" using g by (rule account_files.read_keeps)
  with assms g account_files.read_ok [of E path fs s fs2] show ?thesis
    by (auto simp: constraints_from_file_def file_json_def Let_def split: if_splits)
qed

lemma GetAccountList_json:
  assumes "GetAccountListFromFile E fs = ((ERR_OK, j), fs1)" and "\<not> DISTRIBUTED E"
  shows "j = file_json E ACCOUNT_LIST_FILE_JSON_PATH fs \<and> j \<noteq> None \<and> fs_files fs1 = fs_files fs"
proof -
  obtain r s fs2 where g: "GetFileContentByPath E ACCOUNT_LIST_FILE_JSON_PATH [] fs = ((r, s), fs2)"
    by (metis prod.collapse)
  have "fs_files fs2 = fs_files fs" using g by (rule account_files.read_keeps)
  with assms g account_files.read_ok [of E ACCOUNT_LIST_FILE_JSON_PATH fs s fs2] show ?thesis
    by (cases "CreateJsonFromString E s")
      (auto simp: GetAccountListFromFile_def file_json_def dest!: sym [of "Some _"] split: if_splits)
qed

lemma json_to_file_ok:
  assumes "json_to_file E path (Some j) fs = (ERR_OK, fs1)" and "cjson_ok E" and "json_wf j"
  shows "file_json E path fs1 = Some j"
  using account_files.write_target [OF assms(1) [unfolded json_to_file_def]] assms(2,3)
  by (simp add: file_json_def pack_then_create(3))

lemma json_to_file_err:
  assumes "json_to_file E path j fs = (r, fs1)" and "r \<noteq> ERR_OK"
  shows "file_json E path fs1 = file_json E path fs"
  using account_files.write_target [OF assms(1) [unfolded json_to_file_def]] assms(2)
  by (simp add: file_json_def)

lemma json_to_file_frame:
  assumes "json_to_file E path j fs = (r, fs1)" and "q \<noteq> path" and "q \<noteq> GetTempFilePath path"
  shows "file_json E q fs1 = file_json E q fs"
  using account_files.write_frame [OF assms(1) [unfolded json_to_file_def] assms(2,3)]
  by (simp add: file_json_def)

section \<open>Lists of strings inside an object\<close>

text \<open>
  The strings stored under a key, and the objects the manager writes: their keys are distinct and,
  because the setters refuse an empty key, not empty.
\<close>

definition strs :: "json \<Rightarrow> string \<Rightarrow> string list" where
  "strs j k = (case obj_item j k of Some (JArr xs) \<Rightarrow> json_strings xs | _ \<Rightarrow> [])"

definition obj_ok :: "json \<Rightarrow> bool" where
  "obj_ok j \<longleftrightarrow> json_wf j \<and> (\<exists>kvs. j = JObj kvs \<and> distinct (map fst kvs) \<and> [] \<notin> set (map fst kvs))"

abbreviation good_key :: "string \<Rightarrow> bool" where
  "good_key k \<equiv> k \<noteq> [] \<and> nul_free k"

definition put_strs :: "json \<Rightarrow> string \<Rightarrow> string list \<Rightarrow> json" where
  "put_strs j k ss = obj_put j k (JArr (map (\<lambda>s. JStr (c_str s)) ss))"

lemma obj_ok_is_obj [simp]: "obj_ok j \<Longrightarrow> is_obj j"
  by (auto simp: obj_ok_def)

lemma fst_replace_first [simp]: "map fst (replace_first k v kvs) = map fst kvs"
  by (induction kvs) auto

lemma obj_ok_put [wf_intros]:
  assumes "obj_ok j" and "good_key k" and "json_wf v"
  shows "obj_ok (obj_put j k v)"
proof -
  obtain kvs where j: "j = JObj kvs" "distinct (map fst kvs)" "[] \<notin> set (map fst kvs)"
    using assms(1) by (auto simp: obj_ok_def)
  have wf: "json_wf (obj_put j k v)" using assms by (simp add: json_wf_put obj_ok_def)
  show ?thesis
  proof (cases "map_of kvs k")
    case None
    then have "obj_put j k v = JObj (kvs @ [(k, v)])" using j by (simp add: obj_put_def)
    moreover have "k \<notin> set (map fst kvs)" using None by (simp add: map_of_eq_None_iff)
    ultimately show ?thesis using wf j assms(2) by (auto simp: obj_ok_def)
  next
    case (Some u)
    then have "obj_put j k v = JObj (replace_first k v kvs)" using j by (simp add: obj_put_def)
    moreover have "set (map fst (replace_first k v kvs)) = set (map fst kvs)" by simp
    ultimately show ?thesis using wf j by (simp add: obj_ok_def del: set_map)
  qed
qed

lemma delete_first_distinct:
  "distinct (map fst kvs) \<Longrightarrow> delete_first k kvs = filter (\<lambda>e. fst e \<noteq> k) kvs"
proof (induction kvs)
  case (Cons e kvs)
  have "fst e \<notin> fst ` set kvs \<Longrightarrow> filter (\<lambda>x. fst x \<noteq> fst e) kvs = kvs"
    by (rule filter_True) (metis imageI)
  with Cons show ?case by auto
qed simp

lemma obj_item_delete:
  "obj_ok j \<Longrightarrow> obj_item (obj_delete j k) = (obj_item j)(k := None)"
proof -
  have "map_of (filter (\<lambda>e. fst e \<noteq> k) kvs) = (map_of kvs)(k := None)" for kvs :: "(string \<times> json) list"
    by (induction kvs) (auto simp: fun_eq_iff)
  then show "obj_ok j \<Longrightarrow> ?thesis" by (auto simp: obj_ok_def delete_first_distinct)
qed

lemma obj_ok_delete [wf_intros]: "obj_ok j \<Longrightarrow> obj_ok (obj_delete j k)"
  using json_wf_delete [of j k]
  by (fastforce simp: obj_ok_def delete_first_distinct distinct_map_filter)

lemma strs_put [simp]:
  "obj_ok j \<Longrightarrow> \<forall>s \<in> set ss. nul_free s \<Longrightarrow> strs (put_strs j k ss) = (strs j)(k := ss)"
  by (auto simp: strs_def put_strs_def obj_item_put fun_eq_iff)

lemma obj_ok_put_strs [wf_intros, intro, simp]: "obj_ok j \<Longrightarrow> good_key k \<Longrightarrow> obj_ok (put_strs j k ss)"
  unfolding put_strs_def by (rule obj_ok_put) auto

lemma obj_item_put_strs:
  "obj_ok j \<Longrightarrow> obj_item (put_strs j k ss) = (obj_item j)(k \<mapsto> JArr (map (\<lambda>s. JStr (c_str s)) ss))"
  by (simp add: put_strs_def obj_item_put)

lemma strs_delete [simp]: "obj_ok j \<Longrightarrow> strs (obj_delete j k) = (strs j)(k := [])"
  by (auto simp: strs_def obj_item_delete fun_eq_iff)

lemma strs_nul_free: "obj_ok j \<Longrightarrow> s \<in> set (strs j k) \<Longrightarrow> nul_free s"
proof -
  have "json_wf (JArr xs) \<Longrightarrow> s \<in> set (json_strings xs) \<Longrightarrow> nul_free s" for xs
    by (induction xs rule: json_strings.induct) auto
  then show "obj_ok j \<Longrightarrow> s \<in> set (strs j k) \<Longrightarrow> nul_free s"
    using json_wf_item [of j k] by (fastforce simp: strs_def obj_ok_def split: option.splits json.splits)
qed

lemma GetVector_strs [json_simps]:
  "good_key k \<Longrightarrow> snd (GetVectorStringFromJson (Some j) k []) = strs j k"
  by (auto simp: GetVectorStringFromJson_def GetItemFromJson_def IsKeyExist_def strs_def
      split: option.splits json.splits)

lemma AddVector_strs [json_simps]:
  "good_key k \<Longrightarrow> AddVectorStringToJson (Some j) k ss = (True, Some (put_strs j k ss))"
  by (simp add: AddVectorStringToJson_def AddItem_def put_strs_def)

lemma DeleteItem_json [json_simps]:
  "good_key k \<Longrightarrow> snd (DeleteItemFromJson (Some j) k) = Some (if obj_item j k = None then j else obj_delete j k)"
  by (simp add: DeleteItemFromJson_def IsKeyExist_def)

lemma delete_absent: "obj_ok j \<Longrightarrow> obj_item j k = None \<Longrightarrow> obj_delete j k = j"
  by (auto simp: obj_ok_def delete_first_distinct map_of_eq_None_iff image_iff intro!: filter_True)

lemma IsKeyExist_item [json_simps]: "good_key k \<Longrightarrow> IsKeyExist (Some j) k = (obj_item j k \<noteq> None)"
  by (simp add: IsKeyExist_def)

end
