(* ===== verification/Os_Account_Constraints.thy ===== *)
theory Os_Account_Constraints
  imports Os_Account_Files
begin

text \<open>
  The constraints of OS accounts (the constraint part of
  \<open>os_account_control_file_manager.cpp\<close> and \<open>os_account_file_operator.cpp\<close>). A base constraint is
  listed per account; a global constraint and a specific constraint (one that binds a target account)
  carry the list of the accounts that imposed them, and are in force while that list is not empty.
  \<open>GetDataByType<vector<string>>\<close> into a fresh vector is \<open>get_strings\<close>; a failing \<open>Add...ToJson\<close> is
  only logged by the code, so its result is dropped. Vectors are lists, \<open>erase(remove(...))\<close> is
  \<^const>\<open>removeAll\<close>.
\<close>

definition get_strings :: "json option \<Rightarrow> string \<Rightarrow> string list" where
  "get_strings j key = snd (GetVectorStringFromJson j key [])"

definition add_strings :: "json option \<Rightarrow> string \<Rightarrow> string list \<Rightarrow> json option" where
  "add_strings j key ss = snd (AddVectorStringToJson j key ss)"

definition delete_keys :: "string list \<Rightarrow> json option \<Rightarrow> json option" where
  "delete_keys ks j = fold (\<lambda>k j. snd (DeleteItemFromJson j k)) ks j"

section \<open>Base constraints\<close>

fun merge_base :: "bool \<Rightarrow> string list \<Rightarrow> string list \<Rightarrow> string list" where
  "merge_base isAdd [] base = base"
| "merge_base isAdd (c # cs) base =
     (if \<not> isAdd then merge_base isAdd cs (removeAll c base)
      else if c \<notin> set base then merge_base isAdd cs (base @ [c])
      else merge_base isAdd cs base)"

definition UpdateBaseOAConstraints ::
  "'z os_env_scheme \<Rightarrow> string \<Rightarrow> string list \<Rightarrow> bool \<Rightarrow> fs_state \<Rightarrow> ErrCode \<times> fs_state" where
  "UpdateBaseOAConstraints E idStr ConstraintStr isAdd fs =
     (let ((result, j), fs1) = GetBaseOAConstraintsFromFile E fs in
      if result \<noteq> ERR_OK then (result, fs1)
      else if \<not> IsKeyExist j idStr
      then (if \<not> isAdd then (ERR_OK, fs1)
            else SaveBaseOAConstraintsToFile E (add_strings j idStr ConstraintStr) fs1)
      else let baseOAConstraints = merge_base isAdd ConstraintStr (get_strings j idStr)
           in SaveBaseOAConstraintsToFile E (add_strings j idStr baseOAConstraints) fs1)"

definition RemoveOABaseConstraintsInfo :: "'z os_env_scheme \<Rightarrow> int \<Rightarrow> fs_state \<Rightarrow> ErrCode \<times> fs_state" where
  "RemoveOABaseConstraintsInfo E i fs =
     (let ((result, j), fs1) = GetBaseOAConstraintsFromFile E fs in
      if result \<noteq> ERR_OK then (result, fs1)
      else SaveBaseOAConstraintsToFile E (snd (DeleteItemFromJson j (to_string_int i))) fs1)"

section \<open>Global constraints\<close>

definition RemoveConstraintsFromJsonOperate ::
  "string \<Rightarrow> string \<Rightarrow> string \<Rightarrow> json option \<Rightarrow> string list \<Rightarrow> string list
   \<Rightarrow> json option \<times> string list \<times> string list" where
  "RemoveConstraintsFromJsonOperate constraintType constraint idStr j waitForErase oldConstraintsList =
     (let constraintSourceList = removeAll idStr (get_strings j constraint) in
      if constraintSourceList = []
      then let old = removeAll constraint oldConstraintsList;
               (ok, j1) = AddVectorStringToJson j constraintType old in
           if \<not> ok then (j1, waitForErase, old) else (j1, waitForErase @ [constraint], old)
      else (add_strings j constraint constraintSourceList, waitForErase, oldConstraintsList))"

fun global_loop :: "string \<Rightarrow> bool \<Rightarrow> string list \<Rightarrow> json option \<times> string list \<times> string list
    \<Rightarrow> json option \<times> string list \<times> string list" where
  "global_loop idStr isAdd [] st = st"
| "global_loop idStr isAdd (c # cs) (j, waitForErase, lst) =
     (if \<not> isAdd
      then (if c \<notin> set lst then global_loop idStr isAdd cs (j, waitForErase, lst)
            else global_loop idStr isAdd cs
                   (RemoveConstraintsFromJsonOperate ALL_GLOBAL_CONSTRAINTS c idStr j waitForErase lst))
      else if c \<in> set lst
      then let constraintSourceList = get_strings j c in
           if idStr \<in> set constraintSourceList then global_loop idStr isAdd cs (j, waitForErase, lst)
           else global_loop idStr isAdd cs (add_strings j c (constraintSourceList @ [idStr]), waitForErase, lst)
      else let lst' = lst @ [c];
               j1 = add_strings j c [idStr];
               j2 = add_strings j1 ALL_GLOBAL_CONSTRAINTS lst'
           in global_loop idStr isAdd cs (j2, waitForErase, lst'))"

definition GlobalConstraintsDataOperate ::
  "string \<Rightarrow> string list \<Rightarrow> bool \<Rightarrow> json option \<Rightarrow> json option" where
  "GlobalConstraintsDataOperate idStr ConstraintStr isAdd j =
     (let (j', waitForErase, _) =
        global_loop idStr isAdd ConstraintStr (j, [], get_strings j ALL_GLOBAL_CONSTRAINTS)
      in delete_keys waitForErase j')"

definition UpdateGlobalOAConstraints ::
  "'z os_env_scheme \<Rightarrow> string \<Rightarrow> string list \<Rightarrow> bool \<Rightarrow> fs_state \<Rightarrow> ErrCode \<times> fs_state" where
  "UpdateGlobalOAConstraints E idStr ConstraintStr isAdd fs =
     (let ((result, j), fs1) = GetGlobalOAConstraintsFromFile E fs in
      if result \<noteq> ERR_OK then (result, fs1)
      else SaveGlobalOAConstraintsToFile E (GlobalConstraintsDataOperate idStr ConstraintStr isAdd j) fs1)"

text \<open>The keys of an object in order, as the loops collect them before they change it.\<close>

definition obj_keys :: "json option \<Rightarrow> string list" where
  "obj_keys j = (case j of Some (JObj kvs) \<Rightarrow> map fst kvs | _ \<Rightarrow> [])"

definition remove_global_key :: "string \<Rightarrow> string \<Rightarrow> json option \<times> string list \<Rightarrow> json option \<times> string list" where
  "remove_global_key idStr key st =
     (let (j, waitForErase) = st in
      if key = ALL_GLOBAL_CONSTRAINTS \<or> key = DEVICE_OWNER_ID then st
      else let sourceList = removeAll idStr (get_strings j key) in
           if sourceList = []
           then (add_strings j ALL_GLOBAL_CONSTRAINTS (removeAll key (get_strings j ALL_GLOBAL_CONSTRAINTS)),
                 waitForErase @ [key])
           else (add_strings j key sourceList, waitForErase))"

definition remove_global_json :: "string \<Rightarrow> json option \<Rightarrow> json option" where
  "remove_global_json idStr j =
     (let (j', waitForErase) = fold (remove_global_key idStr) (obj_keys j) (j, [])
      in delete_keys waitForErase j')"

definition RemoveOAGlobalConstraintsInfo :: "'z os_env_scheme \<Rightarrow> int \<Rightarrow> fs_state \<Rightarrow> ErrCode \<times> fs_state" where
  "RemoveOAGlobalConstraintsInfo E i fs =
     (let ((result, j), fs1) = GetGlobalOAConstraintsFromFile E fs in
      if result \<noteq> ERR_OK then (result, fs1)
      else SaveGlobalOAConstraintsToFile E (remove_global_json (to_string_int i) j) fs1)"

section \<open>Specific constraints\<close>

fun specific_loop :: "string \<Rightarrow> bool \<Rightarrow> string list \<Rightarrow> json option \<times> string list \<times> string list
    \<Rightarrow> json option \<times> string list \<times> string list" where
  "specific_loop idStr isAdd [] st = st"
| "specific_loop idStr isAdd (c # cs) (j, waitForErase, lst) =
     (if \<not> isAdd
      then (if \<not> IsKeyExist j c then specific_loop idStr isAdd cs (j, waitForErase, lst)
            else specific_loop idStr isAdd cs
                   (RemoveConstraintsFromJsonOperate ALL_SPECIFIC_CONSTRAINTS c idStr j waitForErase lst))
      else if c \<in> set lst
      then let constraintSourceList = get_strings j c in
           if idStr \<in> set constraintSourceList then specific_loop idStr isAdd cs (j, waitForErase, lst)
           else specific_loop idStr isAdd cs (add_strings j c (constraintSourceList @ [idStr]), waitForErase, lst)
      else let lst' = lst @ [c];
               j1 = add_strings j c [idStr];
               j2 = add_strings j1 ALL_SPECIFIC_CONSTRAINTS lst'
           in specific_loop idStr isAdd cs (j2, waitForErase, lst'))"

definition SpecificConstraintsDataOperate ::
  "string \<Rightarrow> string list \<Rightarrow> bool \<Rightarrow> json option \<Rightarrow> json option" where
  "SpecificConstraintsDataOperate idStr ConstraintStr isAdd j =
     (let (j', waitForErase, _) =
        specific_loop idStr isAdd ConstraintStr (j, [], get_strings j ALL_SPECIFIC_CONSTRAINTS)
      in delete_keys waitForErase j')"

definition UpdateSpecificOAConstraints ::
  "'z os_env_scheme \<Rightarrow> string \<Rightarrow> string \<Rightarrow> string list \<Rightarrow> bool \<Rightarrow> fs_state \<Rightarrow> ErrCode \<times> fs_state" where
  "UpdateSpecificOAConstraints E idStr targetIdStr ConstraintStr isAdd fs =
     (let ((result, j), fs1) = GetSpecificOAConstraintsFromFile E fs in
      if result \<noteq> ERR_OK then (result, fs1)
      else if \<not> IsKeyExist j targetIdStr \<and> \<not> isAdd then (ERR_OK, fs1)
      else let fresh = snd (AddObjToJson CreateJson ALL_SPECIFIC_CONSTRAINTS CreateJsonNull);
               j1 = (if IsKeyExist j targetIdStr then j else snd (AddObjToJson j targetIdStr fresh));
               userPrivate = GetItemFromJson j1 targetIdStr;
               userPrivate' = SpecificConstraintsDataOperate idStr ConstraintStr isAdd userPrivate
           in SaveSpecificOAConstraintsToFile E (snd (AddObjToJson j1 targetIdStr userPrivate')) fs1)"

definition remove_specific_key :: "string \<Rightarrow> string
    \<Rightarrow> json option \<times> string list \<times> string list \<Rightarrow> json option \<times> string list \<times> string list" where
  "remove_specific_key idStr key st =
     (let (j, waitForErase, lst) = st in
      if key = ALL_SPECIFIC_CONSTRAINTS then st
      else let sourceList = removeAll idStr (get_strings j key) in
           if sourceList = []
           then (let lst' = removeAll key lst
                 in (add_strings j ALL_SPECIFIC_CONSTRAINTS lst', waitForErase @ [key], lst'))
           else (add_strings j key sourceList, waitForErase, lst))"

definition RemoveUserConstraintsFromSpecificObj :: "string \<Rightarrow> string \<Rightarrow> json option \<Rightarrow> json option" where
  "RemoveUserConstraintsFromSpecificObj idStr target j =
     (let userPrivate = snd (GetObjFromJson j target None);
          allSpecificConstraints = get_strings userPrivate ALL_SPECIFIC_CONSTRAINTS in
      if allSpecificConstraints = [] then j
      else let (u, waitForErase, _) =
             fold (remove_specific_key idStr) (obj_keys userPrivate) (userPrivate, [], allSpecificConstraints)
           in snd (AddObjToJson j target (delete_keys waitForErase u)))"

definition RemoveAllUsersConstraintsInfo :: "string \<Rightarrow> json option \<Rightarrow> json option" where
  "RemoveAllUsersConstraintsInfo idStr j =
     fold (RemoveUserConstraintsFromSpecificObj idStr) (obj_keys j) j"

definition RemoveOASpecificConstraintsInfo :: "'z os_env_scheme \<Rightarrow> int \<Rightarrow> fs_state \<Rightarrow> ErrCode \<times> fs_state" where
  "RemoveOASpecificConstraintsInfo E i fs =
     (let ((result, j), fs1) = GetSpecificOAConstraintsFromFile E fs;
          idStr = to_string_int i in
      if result \<noteq> ERR_OK then (result, fs1)
      else let j1 = (if IsKeyExist j idStr then snd (DeleteItemFromJson j idStr) else j)
           in SaveSpecificOAConstraintsToFile E (RemoveAllUsersConstraintsInfo idStr j1) fs1)"

definition RemoveOAConstraintsInfo :: "'z os_env_scheme \<Rightarrow> int \<Rightarrow> fs_state \<Rightarrow> ErrCode \<times> fs_state" where
  "RemoveOAConstraintsInfo E i fs =
     (let (errCode, fs1) = RemoveOABaseConstraintsInfo E i fs in
      if errCode \<noteq> ERR_OK then (errCode, fs1)
      else let (errCode, fs2) = RemoveOAGlobalConstraintsInfo E i fs1 in
           if errCode \<noteq> ERR_OK then (errCode, fs2)
           else RemoveOASpecificConstraintsInfo E i fs2)"

section \<open>Queries\<close>

definition GetBaseOAConstraintsList :: "'z os_env_scheme \<Rightarrow> int \<Rightarrow> fs_state \<Rightarrow> (ErrCode \<times> string list) \<times> fs_state" where
  "GetBaseOAConstraintsList E i fs =
     (let (ex, fs1) = IsExistFile E BASE_OSACCOUNT_CONSTRAINTS_JSON_PATH fs;
          ((_, str), fs2) = (if ex then GetFileContentByPath E BASE_OSACCOUNT_CONSTRAINTS_JSON_PATH [] fs1
                             else ((ERR_OK, []), fs1));
          j = (if ex then CreateJsonFromString E str else CreateJson) in
      if j = None \<or> GetItemNum j = 0
      then ((ERR_OSACCOUNT_SERVICE_GET_DATA_FROM_BASE_CONSTRAINTS_FILE_EMPTY, []), fs2)
      else ((ERR_OK, get_strings j (to_string_int i)), fs2))"

definition GetGlobalOAConstraintsList :: "'z os_env_scheme \<Rightarrow> fs_state \<Rightarrow> (ErrCode \<times> string list) \<times> fs_state" where
  "GetGlobalOAConstraintsList E fs =
     (let (ex, fs1) = IsExistFile E GLOBAL_OSACCOUNT_CONSTRAINTS_JSON_PATH fs;
          ((_, str), fs2) = (if ex then GetFileContentByPath E GLOBAL_OSACCOUNT_CONSTRAINTS_JSON_PATH [] fs1
                             else ((ERR_OK, []), fs1));
          j = (if ex then CreateJsonFromString E str else CreateJson) in
      if j = None \<or> GetItemNum j = 0
      then ((ERR_OSACCOUNT_SERVICE_GET_DATA_FROM_GLOBAL_CONSTRAINTS_FILE_EMPTY, []), fs2)
      else ((ERR_OK, get_strings j ALL_GLOBAL_CONSTRAINTS), fs2))"

definition GetSpecificOAConstraintsList :: "'z os_env_scheme \<Rightarrow> int \<Rightarrow> fs_state \<Rightarrow> (ErrCode \<times> string list) \<times> fs_state" where
  "GetSpecificOAConstraintsList E i fs =
     (let (ex, fs1) = IsExistFile E SPECIFIC_OSACCOUNT_CONSTRAINTS_JSON_PATH fs;
          ((_, str), fs2) = (if ex then GetFileContentByPath E SPECIFIC_OSACCOUNT_CONSTRAINTS_JSON_PATH [] fs1
                             else ((ERR_OK, []), fs1));
          j = (if ex then CreateJsonFromString E str else CreateJson) in
      if j = None \<or> GetItemNum j = 0
      then ((ERR_OSACCOUNT_SERVICE_GET_DATA_FROM_SPECIFIC_CONSTRAINTS_FILE_EMPTY, []), fs2)
      else ((ERR_OK, get_strings (snd (GetObjFromJson j (to_string_int i) None)) ALL_SPECIFIC_CONSTRAINTS), fs2))"

definition IsFromBaseOAConstraintsList ::
  "'z os_env_scheme \<Rightarrow> int \<Rightarrow> string \<Rightarrow> fs_state \<Rightarrow> (ErrCode \<times> bool) \<times> fs_state" where
  "IsFromBaseOAConstraintsList E i constraint fs =
     (let ((errCode, constraintsList), fs1) = GetBaseOAConstraintsList E i fs in
      if errCode \<noteq> ERR_OK then ((errCode, False), fs1)
      else ((ERR_OK, constraint \<in> set constraintsList), fs1))"

datatype ConstraintSourceType = CONSTRAINT_TYPE_DEVICE_OWNER | CONSTRAINT_TYPE_PROFILE_OWNER

fun source_infos :: "'z os_env_scheme \<Rightarrow> int \<Rightarrow> string list \<Rightarrow> (int \<times> ConstraintSourceType) list" where
  "source_infos E deviceOwnerId [] = []"
| "source_infos E deviceOwnerId (s # ss) =
     (case StrToInt E s of None \<Rightarrow> source_infos E deviceOwnerId ss
      | Some localId \<Rightarrow>
          (localId, if localId = deviceOwnerId then CONSTRAINT_TYPE_DEVICE_OWNER else CONSTRAINT_TYPE_PROFILE_OWNER)
            # source_infos E deviceOwnerId ss)"

definition IsFromGlobalOAConstraintsList ::
  "'z os_env_scheme \<Rightarrow> int \<Rightarrow> string \<Rightarrow> fs_state \<Rightarrow> (ErrCode \<times> (int \<times> ConstraintSourceType) list) \<times> fs_state" where
  "IsFromGlobalOAConstraintsList E deviceOwnerId constraint fs =
     (let ((errCode, constraintsList), fs1) = GetGlobalOAConstraintsList E fs in
      if errCode \<noteq> ERR_OK then ((errCode, []), fs1)
      else if constraintsList = [] then ((ERR_OK, []), fs1)
      else if constraint \<notin> set constraintsList then ((ERR_OK, []), fs1)
      else let ((errCode, j), fs2) = GetGlobalOAConstraintsFromFile E fs1 in
           if errCode \<noteq> ERR_OK then ((errCode, []), fs2)
           else ((ERR_OK, source_infos E deviceOwnerId (get_strings j constraint)), fs2))"

definition IsFromSpecificOAConstraintsList ::
  "'z os_env_scheme \<Rightarrow> int \<Rightarrow> int \<Rightarrow> string \<Rightarrow> fs_state \<Rightarrow> (ErrCode \<times> (int \<times> ConstraintSourceType) list) \<times> fs_state" where
  "IsFromSpecificOAConstraintsList E i deviceOwnerId constraint fs =
     (let ((errCode, constraintsList), fs1) = GetSpecificOAConstraintsList E i fs in
      if errCode \<noteq> ERR_OK then ((errCode, []), fs1)
      else if constraint \<notin> set constraintsList then ((ERR_OK, []), fs1)
      else let ((errCode, j), fs2) = GetSpecificOAConstraintsFromFile E fs1 in
           if errCode \<noteq> ERR_OK then ((errCode, []), fs2)
           else ((ERR_OK, source_infos E deviceOwnerId
                   (get_strings (snd (GetObjFromJson j (to_string_int i) None)) constraint)), fs2))"

definition GetDeviceOwnerId :: "'z os_env_scheme \<Rightarrow> int \<Rightarrow> fs_state \<Rightarrow> (ErrCode \<times> int) \<times> fs_state" where
  "GetDeviceOwnerId E deviceOwnerId fs =
     (let ((result, j), fs1) = GetGlobalOAConstraintsFromFile E fs in
      if result \<noteq> ERR_OK then ((result, deviceOwnerId), fs1)
      else ((ERR_OK, case GetIntFromJson j DEVICE_OWNER_ID of None \<Rightarrow> deviceOwnerId | Some i \<Rightarrow> i), fs1))"

definition UpdateDeviceOwnerId :: "'z os_env_scheme \<Rightarrow> int \<Rightarrow> fs_state \<Rightarrow> ErrCode \<times> fs_state" where
  "UpdateDeviceOwnerId E deviceOwnerId fs =
     (let ((result, j), fs1) = GetGlobalOAConstraintsFromFile E fs in
      if result \<noteq> ERR_OK then (result, fs1)
      else let (ok, j1) = AddIntToJson j DEVICE_OWNER_ID deviceOwnerId in
           if \<not> ok then (ERR_ACCOUNT_COMMON_DUMP_JSON_ERROR, fs1)
           else SaveGlobalOAConstraintsToFile E j1 fs1)"


section \<open>The table of sources\<close>

lemma get_strings_strs [simp]: "good_key k \<Longrightarrow> get_strings (Some j) k = strs j k"
  by (simp add: get_strings_def GetVector_strs)

lemma add_strings_put [simp]: "good_key k \<Longrightarrow> add_strings (Some j) k ss = Some (put_strs j k ss)"
  by (simp add: add_strings_def AddVector_strs)

lemma nul_free_key_consts [simp]:
  "good_key ALL_GLOBAL_CONSTRAINTS" "good_key ALL_SPECIFIC_CONSTRAINTS" "good_key DEVICE_OWNER_ID"
  "DEVICE_OWNER_ID \<noteq> ALL_GLOBAL_CONSTRAINTS" "ALL_GLOBAL_CONSTRAINTS \<noteq> DEVICE_OWNER_ID"
  by (simp_all add: key_defs)

lemma delete_keys_spec:
  assumes "obj_ok j" and "\<forall>k \<in> set ks. good_key k"
  shows "\<exists>j'. delete_keys ks (Some j) = Some j' \<and> obj_ok j'
    \<and> obj_item j' = (\<lambda>k. if k \<in> set ks then None else obj_item j k)"
  using assms
proof (induction ks arbitrary: j)
  case (Cons k ks)
  have "snd (DeleteItemFromJson (Some j) k) = Some (obj_delete j k)"
    using Cons.prems by (simp add: DeleteItem_json delete_absent)
  moreover have "obj_ok (obj_delete j k)" using Cons.prems by (simp add: obj_ok_delete)
  moreover have "obj_item (obj_delete j k) = (obj_item j)(k := None)"
    using Cons.prems by (simp add: obj_item_delete)
  ultimately show ?case
    using Cons.IH [of "obj_delete j k"] Cons.prems by (fastforce simp: delete_keys_def)
qed (simp add: delete_keys_def)

text \<open>
  The loops keep the list of constraints in force next to the object, and erase the keys of
  \<open>wait\<close> at the end. \<open>table_inv\<close> is their invariant, with \<open>all\<close> the key of the list and
  \<open>R\<close> the reserved keys; \<open>sources\<close> is the relation the object stands for.
\<close>

definition table_inv :: "string \<Rightarrow> string set \<Rightarrow> json \<Rightarrow> string list \<Rightarrow> string list \<Rightarrow> bool" where
  "table_inv all R j wait lst \<longleftrightarrow> obj_ok j \<and> strs j all = lst \<and> set lst \<inter> R = {} \<and> set wait \<inter> R = {}
     \<and> (\<forall>k \<in> set wait. good_key k)
     \<and> (\<forall>c. c \<notin> R \<longrightarrow> (c \<in> set lst \<longleftrightarrow> c \<notin> set wait \<and> strs j c \<noteq> []))"

definition sources :: "string set \<Rightarrow> json \<Rightarrow> string list \<Rightarrow> (string \<times> string) set" where
  "sources R j wait = {(c, s). c \<notin> R \<and> c \<notin> set wait \<and> s \<in> set (strs j c)}"

lemma table_nul_free: "table_inv all R j wait lst \<Longrightarrow> s \<in> set lst \<Longrightarrow> nul_free s"
  by (auto simp: table_inv_def dest: strs_nul_free)

lemma table_new:
  assumes "table_inv all R j [] lst" and "all \<in> R" and "c \<notin> R" and "c \<notin> set lst"
    and "good_key c" and "good_key i" and "good_key all"
  shows "table_inv all R (put_strs (put_strs j c [i]) all (lst @ [c])) [] (lst @ [c])
    \<and> sources R (put_strs (put_strs j c [i]) all (lst @ [c])) [] = sources R j [] \<union> {(c, i)}"
proof -
  have ok: "obj_ok j" "obj_ok (put_strs j c [i])" "obj_ok (put_strs (put_strs j c [i]) all (lst @ [c]))"
    using assms by (auto simp: table_inv_def intro!: obj_ok_put_strs)
  have nf: "\<forall>s \<in> set (lst @ [c]). nul_free s" using assms table_nul_free [OF assms(1)] by auto
  have "strs (put_strs (put_strs j c [i]) all (lst @ [c])) = (strs j)(c := [i], all := lst @ [c])"
    using ok nf assms(6) by simp
  moreover have "strs j c = []" and "c \<noteq> all" using assms by (auto simp: table_inv_def)
  ultimately show ?thesis
    using assms ok by (auto simp: table_inv_def sources_def split: if_splits)
qed

lemma table_source:
  assumes "table_inv all R j [] lst" and "all \<in> R" and "c \<notin> R" and "c \<in> set lst"
    and "good_key c" and "good_key i"
  shows "table_inv all R (put_strs j c (strs j c @ [i])) [] lst
    \<and> sources R (put_strs j c (strs j c @ [i])) [] = sources R j [] \<union> {(c, i)}"
proof -
  have ok: "obj_ok j" "obj_ok (put_strs j c (strs j c @ [i]))"
    using assms by (auto simp: table_inv_def intro!: obj_ok_put_strs)
  have "strs (put_strs j c (strs j c @ [i])) = (strs j)(c := strs j c @ [i])"
    using ok assms(6) strs_nul_free [OF ok(1)] by (intro strs_put) auto
  moreover have "c \<noteq> all" using assms by auto
  ultimately show ?thesis
    using assms ok by (auto simp: table_inv_def sources_def split: if_splits)
qed

lemma table_remove:
  fixes i :: string and j :: json and c :: string
  defines "rest \<equiv> removeAll i (strs j c)"
  assumes "table_inv all R j wait lst" and "all \<in> R" and "c \<notin> R" and "good_key c" and "good_key all"
    and "c \<in> set lst \<or> rest = []"
  shows "\<exists>j' wait' lst'. RemoveConstraintsFromJsonOperate all c i (Some j) wait lst = (Some j', wait', lst')
    \<and> table_inv all R j' wait' lst' \<and> sources R j' wait' = sources R j wait - {(c, i)}
    \<and> wait' = (if rest = [] then wait @ [c] else wait)
    \<and> strs j' = (if rest = [] then (strs j)(all := lst') else (strs j)(c := rest))
    \<and> (\<forall>k. k \<noteq> all \<longrightarrow> (obj_item j' k = None) = (obj_item j k = None))"
proof (cases "rest = []")
  case True
  let ?l = "removeAll c lst" let ?j = "put_strs j all ?l"
  have ok: "obj_ok j" "obj_ok ?j" using assms by (auto simp: table_inv_def intro!: obj_ok_put_strs)
  have st: "strs ?j = (strs j)(all := ?l)"
    using ok(1) table_nul_free [OF assms(2)] by (intro strs_put) auto
  have "RemoveConstraintsFromJsonOperate all c i (Some j) wait lst = (Some ?j, wait @ [c], ?l)"
    using True assms(5,6) by (simp add: RemoveConstraintsFromJsonOperate_def AddVector_strs Let_def rest_def)
  moreover have "table_inv all R ?j (wait @ [c]) ?l"
    using assms ok st by (auto simp: table_inv_def)
  moreover have "set (strs j c) \<subseteq> {i}"
    using True by (auto simp: rest_def removeAll_filter_not_eq filter_empty_conv)
  then have "sources R ?j (wait @ [c]) = sources R j wait - {(c, i)}"
    using assms(3,4) st by (auto simp: sources_def split: if_splits)
  moreover have "\<forall>k. k \<noteq> all \<longrightarrow> (obj_item ?j k = None) = (obj_item j k = None)"
    using ok by (auto simp: obj_item_put_strs)
  ultimately show ?thesis
    using True st by (intro exI [of _ ?j] exI [of _ "wait @ [c]"] exI [of _ ?l]) simp
next
  case False
  let ?j = "put_strs j c rest"
  have ok: "obj_ok j" "obj_ok ?j" using assms by (auto simp: table_inv_def intro!: obj_ok_put_strs)
  have st: "strs ?j = (strs j)(c := rest)"
    using ok(1) strs_nul_free [OF ok(1)] by (intro strs_put) (auto simp: rest_def)
  have c: "c \<noteq> all" "strs j c \<noteq> []" "c \<in> set lst" using assms False by auto
  have "RemoveConstraintsFromJsonOperate all c i (Some j) wait lst = (Some ?j, wait, lst)"
    using False assms(5) by (simp add: RemoveConstraintsFromJsonOperate_def rest_def)
  moreover have "table_inv all R ?j wait lst"
    using assms(2-6) ok st c False by (auto simp: table_inv_def)
  moreover have "sources R ?j wait = sources R j wait - {(c, i)}"
    using st by (auto simp: sources_def rest_def split: if_splits)
  moreover have "obj_item j c \<noteq> None" using c(2) by (auto simp: strs_def split: option.splits)
  then have "\<forall>k. (obj_item ?j k = None) = (obj_item j k = None)"
    using ok by (auto simp: obj_item_put_strs)
  ultimately show ?thesis
    using False st by (intro exI [of _ ?j] exI [of _ wait] exI [of _ lst]) simp
qed

section \<open>Global constraints as a relation\<close>

definition global_reserved :: "string set" where
  "global_reserved = {ALL_GLOBAL_CONSTRAINTS, DEVICE_OWNER_ID}"

definition global_name :: "string \<Rightarrow> bool" where
  "global_name c \<longleftrightarrow> good_key c \<and> c \<noteq> ALL_GLOBAL_CONSTRAINTS \<and> c \<noteq> DEVICE_OWNER_ID"

definition global_inv :: "json \<Rightarrow> bool" where
  "global_inv j \<longleftrightarrow> table_inv ALL_GLOBAL_CONSTRAINTS global_reserved j [] (strs j ALL_GLOBAL_CONSTRAINTS)"

definition global_rel :: "json \<Rightarrow> (string \<times> string) set" where
  "global_rel j = sources global_reserved j []"

definition global_upd :: "string \<Rightarrow> string list \<Rightarrow> bool \<Rightarrow> json \<Rightarrow> json" where
  "global_upd i cs isAdd j = the (GlobalConstraintsDataOperate i cs isAdd (Some j))"

abbreviation "global_table \<equiv> table_inv ALL_GLOBAL_CONSTRAINTS global_reserved"

lemma global_reserved_mem [simp]: "ALL_GLOBAL_CONSTRAINTS \<in> global_reserved"
  by (simp add: global_reserved_def)

lemma global_name_notin: "global_name c \<Longrightarrow> c \<notin> global_reserved"
  by (simp add: global_name_def global_reserved_def)

lemma global_loop_add:
  assumes "global_table j [] lst" and "\<forall>c \<in> set cs. global_name c" and "good_key i"
  shows "\<exists>j' lst'. global_loop i True cs (Some j, [], lst) = (Some j', [], lst') \<and> global_table j' [] lst'
    \<and> sources global_reserved j' [] = sources global_reserved j [] \<union> set cs \<times> {i}"
  using assms
proof (induction cs arbitrary: j lst)
  case (Cons c cs)
  have c: "good_key c" "c \<notin> global_reserved" using Cons.prems global_name_notin by (auto simp: global_name_def)
  show ?case
  proof (cases "c \<in> set lst")
    case True
    show ?thesis
    proof (cases "i \<in> set (strs j c)")
      case i: True
      then have "(c, i) \<in> sources global_reserved j []" using c by (simp add: sources_def)
      with Cons True i c show ?thesis by fastforce
    next
      case False
      from table_source [OF Cons.prems(1) global_reserved_mem c(2) True c(1) Cons.prems(3)]
      have s: "global_table (put_strs j c (strs j c @ [i])) [] lst"
        "sources global_reserved (put_strs j c (strs j c @ [i])) [] = sources global_reserved j [] \<union> {(c, i)}"
        by simp_all
      from Cons.IH [OF s(1)] Cons.prems s(2) True False c show ?thesis by fastforce
    qed
  next
    case False
    let ?j = "put_strs (put_strs j c [i]) ALL_GLOBAL_CONSTRAINTS (lst @ [c])"
    from table_new [OF Cons.prems(1) global_reserved_mem c(2) False c(1) Cons.prems(3)]
    have s: "global_table ?j [] (lst @ [c])" "sources global_reserved ?j [] = sources global_reserved j [] \<union> {(c, i)}"
      by simp_all
    from Cons.IH [OF s(1)] Cons.prems s(2) False c show ?thesis by (fastforce simp: Let_def)
  qed
qed simp

lemma global_loop_remove:
  assumes "global_table j wait lst" and "\<forall>c \<in> set cs. global_name c"
  shows "\<exists>j' wait' lst'. global_loop i False cs (Some j, wait, lst) = (Some j', wait', lst')
    \<and> global_table j' wait' lst'
    \<and> sources global_reserved j' wait' = sources global_reserved j wait - set cs \<times> {i}"
  using assms
proof (induction cs arbitrary: j wait lst)
  case (Cons c cs)
  have c: "good_key c" "c \<notin> global_reserved" using Cons.prems global_name_notin by (auto simp: global_name_def)
  show ?case
  proof (cases "c \<in> set lst")
    case True
    from table_remove [OF Cons.prems(1) global_reserved_mem c(2,1) _ disjI1 [OF True], of i]
    obtain j' wait' lst' where r:
      "RemoveConstraintsFromJsonOperate ALL_GLOBAL_CONSTRAINTS c i (Some j) wait lst = (Some j', wait', lst')"
      "global_table j' wait' lst'"
      "sources global_reserved j' wait' = sources global_reserved j wait - {(c, i)}" by auto
    from Cons.IH [OF r(2)] Cons.prems r True show ?thesis by fastforce
  next
    case False
    then have "(c, x) \<notin> sources global_reserved j wait" for x
      using Cons.prems(1) c by (auto simp: sources_def table_inv_def)
    with Cons.IH [OF Cons.prems(1)] Cons.prems False show ?thesis by fastforce
  qed
qed simp

lemma table_erase:
  assumes "table_inv all R j wait lst" and "all \<in> R"
  shows "\<exists>j'. delete_keys wait (Some j) = Some j' \<and> table_inv all R j' [] lst \<and> sources R j' [] = sources R j wait"
proof -
  obtain j' where j': "delete_keys wait (Some j) = Some j'" "obj_ok j'"
    "obj_item j' = (\<lambda>k. if k \<in> set wait then None else obj_item j k)"
    using delete_keys_spec [of j wait] assms(1) by (auto simp: table_inv_def)
  then have "strs j' = (\<lambda>k. if k \<in> set wait then [] else strs j k)" by (auto simp: strs_def)
  with j' assms show ?thesis by (auto simp: table_inv_def sources_def split: if_splits)
qed

lemma GlobalConstraintsDataOperate_rel:
  assumes "global_inv j" and "\<forall>c \<in> set cs. global_name c" and "good_key i"
  shows "\<exists>j'. GlobalConstraintsDataOperate i cs isAdd (Some j) = Some j' \<and> global_inv j'
    \<and> global_rel j' = (if isAdd then global_rel j \<union> set cs \<times> {i} else global_rel j - set cs \<times> {i})"
proof -
  let ?l = "strs j ALL_GLOBAL_CONSTRAINTS"
  have inv: "global_table j [] ?l" using assms(1) by (simp add: global_inv_def)
  have "\<exists>j1 wait lst. global_loop i isAdd cs (Some j, [], ?l) = (Some j1, wait, lst) \<and> global_table j1 wait lst
    \<and> sources global_reserved j1 wait =
      (if isAdd then global_rel j \<union> set cs \<times> {i} else global_rel j - set cs \<times> {i})"
    using global_loop_add [OF inv assms(2,3)] global_loop_remove [OF inv assms(2)]
    by (cases isAdd) (fastforce simp: global_rel_def)+
  then obtain j1 wait lst where 1: "global_loop i isAdd cs (Some j, [], ?l) = (Some j1, wait, lst)"
    "global_table j1 wait lst" "sources global_reserved j1 wait =
      (if isAdd then global_rel j \<union> set cs \<times> {i} else global_rel j - set cs \<times> {i})" by blast
  from table_erase [OF 1(2) global_reserved_mem] obtain j' where 2: "delete_keys wait (Some j1) = Some j'"
    "global_table j' [] lst" "sources global_reserved j' [] = sources global_reserved j1 wait" by blast
  have "strs j' ALL_GLOBAL_CONSTRAINTS = lst" using 2(2) by (simp add: table_inv_def)
  with 1 2 show ?thesis
    by (simp add: GlobalConstraintsDataOperate_def global_inv_def global_rel_def)
qed


section \<open>Specific constraints as a relation\<close>

definition specific_reserved :: "string set" where
  "specific_reserved = {ALL_SPECIFIC_CONSTRAINTS}"

definition specific_name :: "string \<Rightarrow> bool" where
  "specific_name c \<longleftrightarrow> good_key c \<and> c \<noteq> ALL_SPECIFIC_CONSTRAINTS"

abbreviation "specific_table \<equiv> table_inv ALL_SPECIFIC_CONSTRAINTS specific_reserved"

text \<open>No key is left behind with an empty list of sources.\<close>

definition no_empty :: "json \<Rightarrow> bool" where
  "no_empty j \<longleftrightarrow> (\<forall>c. c \<noteq> ALL_SPECIFIC_CONSTRAINTS \<longrightarrow> obj_item j c \<noteq> None \<longrightarrow> strs j c \<noteq> [])"

definition specific_inv :: "json \<Rightarrow> bool" where
  "specific_inv j \<longleftrightarrow> specific_table j [] (strs j ALL_SPECIFIC_CONSTRAINTS) \<and> no_empty j"

definition specific_rel :: "json \<Rightarrow> (string \<times> string) set" where
  "specific_rel j = sources specific_reserved j []"

definition specific_upd :: "string \<Rightarrow> string list \<Rightarrow> bool \<Rightarrow> json \<Rightarrow> json" where
  "specific_upd i cs isAdd j = the (SpecificConstraintsDataOperate i cs isAdd (Some j))"

lemma specific_reserved_mem [simp]: "ALL_SPECIFIC_CONSTRAINTS \<in> specific_reserved"
  by (simp add: specific_reserved_def)

lemma specific_name_notin: "specific_name c \<Longrightarrow> c \<notin> specific_reserved"
  by (simp add: specific_name_def specific_reserved_def)

lemma strs_item: "strs j c \<noteq> [] \<Longrightarrow> obj_item j c \<noteq> None"
  by (auto simp: strs_def split: option.splits)

lemma no_empty_put:
  assumes "obj_ok j" and "\<forall>s \<in> set ss. nul_free s" and "no_empty j" and "ss \<noteq> [] \<or> c = ALL_SPECIFIC_CONSTRAINTS"
  shows "no_empty (put_strs j c ss)"
  using assms by (auto simp: no_empty_def obj_item_put_strs)

lemma specific_loop_add:
  assumes "specific_table j [] lst" and "no_empty j" and "\<forall>c \<in> set cs. specific_name c" and "good_key i"
  shows "\<exists>j' lst'. specific_loop i True cs (Some j, [], lst) = (Some j', [], lst') \<and> specific_table j' [] lst'
    \<and> no_empty j' \<and> sources specific_reserved j' [] = sources specific_reserved j [] \<union> set cs \<times> {i}"
  using assms
proof (induction cs arbitrary: j lst)
  case (Cons c cs)
  have c: "good_key c" "c \<notin> specific_reserved"
    using Cons.prems specific_name_notin by (auto simp: specific_name_def)
  have ok: "obj_ok j" using Cons.prems(1) by (simp add: table_inv_def)
  show ?case
  proof (cases "c \<in> set lst")
    case True
    show ?thesis
    proof (cases "i \<in> set (strs j c)")
      case i: True
      then have "(c, i) \<in> sources specific_reserved j []" using c by (simp add: sources_def)
      with Cons True i c show ?thesis by fastforce
    next
      case False
      from table_source [OF Cons.prems(1) specific_reserved_mem c(2) True c(1) Cons.prems(4)]
      have s: "specific_table (put_strs j c (strs j c @ [i])) [] lst"
        "sources specific_reserved (put_strs j c (strs j c @ [i])) [] = sources specific_reserved j [] \<union> {(c, i)}"
        by simp_all
      have n: "no_empty (put_strs j c (strs j c @ [i]))"
        using Cons.prems ok strs_nul_free [OF ok] by (intro no_empty_put) auto
      from Cons.IH [OF s(1) n] Cons.prems s(2) True False c show ?thesis by fastforce
    qed
  next
    case False
    let ?j = "put_strs (put_strs j c [i]) ALL_SPECIFIC_CONSTRAINTS (lst @ [c])"
    from table_new [OF Cons.prems(1) specific_reserved_mem c(2) False c(1) Cons.prems(4)]
    have s: "specific_table ?j [] (lst @ [c])"
      "sources specific_reserved ?j [] = sources specific_reserved j [] \<union> {(c, i)}" by simp_all
    have n: "no_empty ?j"
      using Cons.prems ok c table_nul_free [OF Cons.prems(1)] by (intro no_empty_put) auto
    from Cons.IH [OF s(1) n] Cons.prems s(2) False c show ?thesis by (fastforce simp: Let_def)
  qed
qed simp

text \<open>
  While constraints are removed the key of an erased constraint stays until the end, so a constraint
  named twice is met again: \<open>pending\<close> says that nothing but the remover is left under it.
\<close>

definition pending :: "string \<Rightarrow> json \<Rightarrow> string list \<Rightarrow> bool" where
  "pending i j wait \<longleftrightarrow> no_empty j \<and> (\<forall>c \<in> set wait. removeAll i (strs j c) = [])"

lemma strs_cong: "obj_item j' k = obj_item j k \<Longrightarrow> strs j' k = strs j k"
  by (simp add: strs_def)

lemma specific_loop_remove:
  assumes "specific_table j wait lst" and "pending i j wait" and "\<forall>c \<in> set cs. specific_name c"
  shows "\<exists>j' wait' lst'. specific_loop i False cs (Some j, wait, lst) = (Some j', wait', lst')
    \<and> specific_table j' wait' lst' \<and> pending i j' wait'
    \<and> sources specific_reserved j' wait' = sources specific_reserved j wait - set cs \<times> {i}"
  using assms
proof (induction cs arbitrary: j wait lst)
  case (Cons c cs)
  have c: "good_key c" "c \<notin> specific_reserved" "c \<noteq> ALL_SPECIFIC_CONSTRAINTS"
    using Cons.prems specific_name_notin by (auto simp: specific_name_def)
  show ?case
  proof (cases "obj_item j c = None")
    case True
    then have "(c, x) \<notin> sources specific_reserved j wait" for x
      by (auto simp: sources_def strs_def)
    with Cons.IH [OF Cons.prems(1,2)] Cons.prems True c show ?thesis
      by (fastforce simp: IsKeyExist_item)
  next
    case False
    have ne: "strs j c \<noteq> []" using Cons.prems(2) False c(3) by (simp add: pending_def no_empty_def)
    have "c \<in> set lst \<or> removeAll i (strs j c) = []"
      using Cons.prems(1,2) c(2) ne by (auto simp: table_inv_def pending_def)
    from table_remove [OF Cons.prems(1) specific_reserved_mem c(2,1) _ this]
    obtain j' wait' lst' where r:
      "RemoveConstraintsFromJsonOperate ALL_SPECIFIC_CONSTRAINTS c i (Some j) wait lst = (Some j', wait', lst')"
      "specific_table j' wait' lst'"
      "sources specific_reserved j' wait' = sources specific_reserved j wait - {(c, i)}"
      and w: "wait' = (if removeAll i (strs j c) = [] then wait @ [c] else wait)"
      "strs j' = (if removeAll i (strs j c) = [] then (strs j)(ALL_SPECIFIC_CONSTRAINTS := lst')
                  else (strs j)(c := removeAll i (strs j c)))"
      "\<forall>k. k \<noteq> ALL_SPECIFIC_CONSTRAINTS \<longrightarrow> (obj_item j' k = None) = (obj_item j k = None)"
      by auto
    have "ALL_SPECIFIC_CONSTRAINTS \<notin> set wait"
      using Cons.prems(1) by (auto simp: table_inv_def specific_reserved_def)
    then have "pending i j' wait'"
      using w Cons.prems(2) c(3) by (auto simp: pending_def no_empty_def)
    from Cons.IH [OF r(2) this] Cons.prems r False c show ?thesis
      by (fastforce simp: IsKeyExist_item)
  qed
qed simp


lemma SpecificConstraintsDataOperate_rel:
  assumes "specific_inv j" and "\<forall>c \<in> set cs. specific_name c" and "good_key i"
  shows "\<exists>j'. SpecificConstraintsDataOperate i cs isAdd (Some j) = Some j' \<and> specific_inv j'
    \<and> specific_rel j' = (if isAdd then specific_rel j \<union> set cs \<times> {i} else specific_rel j - set cs \<times> {i})"
proof -
  let ?l = "strs j ALL_SPECIFIC_CONSTRAINTS"
  have inv: "specific_table j [] ?l" "no_empty j" "pending i j []"
    using assms(1) by (simp_all add: specific_inv_def pending_def)
  have "\<exists>j1 wait lst. specific_loop i isAdd cs (Some j, [], ?l) = (Some j1, wait, lst)
    \<and> specific_table j1 wait lst \<and> no_empty j1 \<and> sources specific_reserved j1 wait =
      (if isAdd then specific_rel j \<union> set cs \<times> {i} else specific_rel j - set cs \<times> {i})"
    using specific_loop_add [OF inv(1,2) assms(2,3)] specific_loop_remove [OF inv(1,3) assms(2)]
    by (cases isAdd) (fastforce simp: specific_rel_def pending_def)+
  then obtain j1 wait lst where 1: "specific_loop i isAdd cs (Some j, [], ?l) = (Some j1, wait, lst)"
    "specific_table j1 wait lst" "no_empty j1" "sources specific_reserved j1 wait =
      (if isAdd then specific_rel j \<union> set cs \<times> {i} else specific_rel j - set cs \<times> {i})" by blast
  from 1(2) delete_keys_spec [of j1 wait] obtain j' where 2: "delete_keys wait (Some j1) = Some j'"
    "obj_item j' = (\<lambda>k. if k \<in> set wait then None else obj_item j1 k)" by (auto simp: table_inv_def)
  from table_erase [OF 1(2) specific_reserved_mem] 2(1)
  have 3: "specific_table j' [] lst" "sources specific_reserved j' [] = sources specific_reserved j1 wait" by auto
  have "no_empty j'" using 1(3) 2(2) by (auto simp: no_empty_def strs_def)
  moreover have "strs j' ALL_SPECIFIC_CONSTRAINTS = lst" using 3 by (simp add: table_inv_def)
  ultimately show ?thesis
    using 1 2(1) 3 by (simp add: SpecificConstraintsDataOperate_def specific_inv_def specific_rel_def)
qed

section \<open>What the tables promise\<close>

text \<open>
  The contract of a constraint table: an update adds or removes exactly the pairs of the named
  constraints with the acting account, and a constraint is listed as in force exactly while some
  account imposes it. What the account manager needs follows from it.
\<close>

locale source_table =
  fixes upd :: "string \<Rightarrow> string list \<Rightarrow> bool \<Rightarrow> 'j \<Rightarrow> 'j"
    and valid :: "'j \<Rightarrow> bool"
    and imposed :: "'j \<Rightarrow> (string \<times> string) set"
    and in_force :: "'j \<Rightarrow> string set"
    and name_ok :: "string \<Rightarrow> bool"
    and id_ok :: "string \<Rightarrow> bool"
  assumes upd_valid: "valid j \<Longrightarrow> \<forall>c \<in> set cs. name_ok c \<Longrightarrow> id_ok i \<Longrightarrow> valid (upd i cs isAdd j)"
    and upd_imposed: "valid j \<Longrightarrow> \<forall>c \<in> set cs. name_ok c \<Longrightarrow> id_ok i \<Longrightarrow>
          imposed (upd i cs isAdd j) = (if isAdd then imposed j \<union> set cs \<times> {i} else imposed j - set cs \<times> {i})"
    and in_force_imposed: "valid j \<Longrightarrow> in_force j = fst ` imposed j"
begin

lemma added_in_force:
  assumes "valid j" and "\<forall>c \<in> set cs. name_ok c" and "id_ok i"
  shows "in_force (upd i cs True j) = in_force j \<union> set cs"
  using assms by (auto simp: in_force_imposed upd_valid upd_imposed image_Un image_iff)

lemma removed_in_force:
  assumes "valid j" and "\<forall>c \<in> set cs. name_ok c" and "id_ok i"
  shows "c \<in> in_force (upd i cs False j) \<longleftrightarrow>
    (\<exists>s. (c, s) \<in> imposed j \<and> (c \<notin> set cs \<or> s \<noteq> i))"
  using assms by (force simp: in_force_imposed upd_valid upd_imposed)

text \<open>Another account's constraint survives, whatever one account removes.\<close>

lemma survives_other_source:
  assumes "valid j" and "\<forall>c \<in> set cs. name_ok c" and "id_ok i" and "(c, s) \<in> imposed j" and "s \<noteq> i"
  shows "c \<in> in_force (upd i cs False j)"
  using assms removed_in_force by blast

lemma add_then_remove:
  assumes "valid j" and "\<forall>c \<in> set cs. name_ok c" and "id_ok i" and "imposed j \<inter> set cs \<times> {i} = {}"
  shows "imposed (upd i cs False (upd i cs True j)) = imposed j \<and> in_force (upd i cs False (upd i cs True j)) = in_force j"
  using assms by (auto simp: upd_valid upd_imposed in_force_imposed)

lemma updates_commute:
  assumes "valid j" and "\<forall>c \<in> set cs. name_ok c" and "\<forall>c \<in> set ds. name_ok c" and "id_ok i" and "id_ok k"
    and "i \<noteq> k"
  shows "imposed (upd i cs a (upd k ds b j)) = imposed (upd k ds b (upd i cs a j))"
  using assms by (auto simp: upd_valid upd_imposed)

end

interpretation global_tab: source_table global_upd global_inv global_rel
  "\<lambda>j. set (strs j ALL_GLOBAL_CONSTRAINTS)" global_name good_key
proof
  fix j cs i isAdd assume "global_inv j" "\<forall>c \<in> set cs. global_name c" "good_key i"
  from GlobalConstraintsDataOperate_rel [OF this, of isAdd]
  show "global_inv (global_upd i cs isAdd j)" and
    "global_rel (global_upd i cs isAdd j) = (if isAdd then global_rel j \<union> set cs \<times> {i} else global_rel j - set cs \<times> {i})"
    by (auto simp: global_upd_def)
next
  fix j assume "global_inv j"
  then have *: "set (strs j ALL_GLOBAL_CONSTRAINTS) \<inter> global_reserved = {}"
    "\<And>c. c \<notin> global_reserved \<Longrightarrow> (c \<in> set (strs j ALL_GLOBAL_CONSTRAINTS)) = (strs j c \<noteq> [])"
    by (auto simp: global_inv_def table_inv_def)
  show "set (strs j ALL_GLOBAL_CONSTRAINTS) = fst ` global_rel j"
  proof
    show "set (strs j ALL_GLOBAL_CONSTRAINTS) \<subseteq> fst ` global_rel j"
      using * by (fastforce simp: global_rel_def sources_def image_iff neq_Nil_conv)
    show "fst ` global_rel j \<subseteq> set (strs j ALL_GLOBAL_CONSTRAINTS)"
      using * by (auto simp: global_rel_def sources_def)
  qed
qed

interpretation specific_tab: source_table specific_upd specific_inv specific_rel
  "\<lambda>j. set (strs j ALL_SPECIFIC_CONSTRAINTS)" specific_name good_key
proof
  fix j cs i isAdd assume "specific_inv j" "\<forall>c \<in> set cs. specific_name c" "good_key i"
  from SpecificConstraintsDataOperate_rel [OF this, of isAdd]
  show "specific_inv (specific_upd i cs isAdd j)" and
    "specific_rel (specific_upd i cs isAdd j) =
      (if isAdd then specific_rel j \<union> set cs \<times> {i} else specific_rel j - set cs \<times> {i})"
    by (auto simp: specific_upd_def)
next
  fix j assume "specific_inv j"
  then have *: "set (strs j ALL_SPECIFIC_CONSTRAINTS) \<inter> specific_reserved = {}"
    "\<And>c. c \<notin> specific_reserved \<Longrightarrow> (c \<in> set (strs j ALL_SPECIFIC_CONSTRAINTS)) = (strs j c \<noteq> [])"
    by (auto simp: specific_inv_def table_inv_def)
  show "set (strs j ALL_SPECIFIC_CONSTRAINTS) = fst ` specific_rel j"
  proof
    show "set (strs j ALL_SPECIFIC_CONSTRAINTS) \<subseteq> fst ` specific_rel j"
      using * by (fastforce simp: specific_rel_def sources_def image_iff neq_Nil_conv)
    show "fst ` specific_rel j \<subseteq> set (strs j ALL_SPECIFIC_CONSTRAINTS)"
      using * by (auto simp: specific_rel_def sources_def)
  qed
qed


section \<open>The stored constraints\<close>

abbreviation "base_path \<equiv> BASE_OSACCOUNT_CONSTRAINTS_JSON_PATH"
abbreviation "global_path \<equiv> GLOBAL_OSACCOUNT_CONSTRAINTS_JSON_PATH"
abbreviation "specific_path \<equiv> SPECIFIC_OSACCOUNT_CONSTRAINTS_JSON_PATH"

lemma obj_ok_wf: "obj_ok j \<Longrightarrow> json_wf j"
  by (simp add: obj_ok_def)

lemma save_after_load:
  assumes "constraints_from_file E path fs = ((ERR_OK, x), fs1)" and "cjson_ok E" and "json_wf j'"
    and "json_to_file E path (Some j') fs1 = (r, fs')"
  shows "file_json E path fs' = (if r = ERR_OK then Some j' else file_json E path fs)"
  using constraints_from_file_json [OF assms(1)] json_to_file_ok [of E path j' fs1 fs'] json_to_file_err [OF assms(4)]
    assms(2-4) by (auto simp: file_json_def split: if_splits)

text \<open>A read-modify-write of one constraint file, as all the updates have it.\<close>

definition rmw :: "'z os_env_scheme \<Rightarrow> string \<Rightarrow> (json option \<Rightarrow> json option) \<Rightarrow> fs_state \<Rightarrow> ErrCode \<times> fs_state" where
  "rmw E path f fs =
     (let ((result, j), fs1) = constraints_from_file E path fs in
      if result \<noteq> ERR_OK then (result, fs1) else json_to_file E path (f j) fs1)"

lemma rmw_spec:
  assumes "rmw E path f fs = (r, fs')" and "cjson_ok E" and "file_json E path fs = Some j"
    and "f (Some j) = Some j'" and "json_wf j'"
  shows "file_json E path fs' = Some (if r = ERR_OK then j' else j)"
proof -
  obtain r1 x fs1 where 1: "constraints_from_file E path fs = ((r1, x), fs1)" by (metis prod.collapse)
  show ?thesis
  proof (cases "r1 = ERR_OK")
    case True
    with 1 constraints_from_file_json assms(3) have "x = Some j" by metis
    with assms 1 True save_after_load [of E path fs x fs1 j' r fs'] show ?thesis
      by (simp add: rmw_def)
  next
    case False
    have "fs_files fs1 = fs_files fs"
      using 1 account_files.read_frame [of E path fs]
      by (auto simp: constraints_from_file_def Let_def split_beta split: if_splits)
    with assms 1 False show ?thesis by (auto simp: rmw_def file_json_def)
  qed
qed

lemma UpdateGlobal_rmw: "UpdateGlobalOAConstraints E i cs isAdd = rmw E global_path (GlobalConstraintsDataOperate i cs isAdd)"
  by (rule ext) (simp add: UpdateGlobalOAConstraints_def rmw_def os_file_defs split_beta Let_def)

text \<open>
  C21 (refinement). \<open>UpdateGlobalOAConstraints\<close> implements the update of a relation between
  constraints and the accounts that impose them: on success the file represents the relation with
  exactly the named pairs added or removed, on any error it represents the old one, and in both cases
  it stays well formed.
\<close>

theorem global_update_refines:
  assumes "cjson_ok E" and "file_json E global_path fs = Some j" and "global_inv j"
    and "\<forall>c \<in> set cs. global_name c" and "good_key i"
    and "UpdateGlobalOAConstraints E i cs isAdd fs = (r, fs')"
  shows "\<exists>j'. file_json E global_path fs' = Some j' \<and> global_inv j' \<and>
    global_rel j' = (if r \<noteq> ERR_OK then global_rel j
                     else if isAdd then global_rel j \<union> set cs \<times> {i} else global_rel j - set cs \<times> {i})"
proof -
  obtain j' where j': "GlobalConstraintsDataOperate i cs isAdd (Some j) = Some j'" "global_inv j'"
    "global_rel j' = (if isAdd then global_rel j \<union> set cs \<times> {i} else global_rel j - set cs \<times> {i})"
    using GlobalConstraintsDataOperate_rel [OF assms(3,4,5)] by blast
  have "json_wf j'" using j'(2) by (simp add: global_inv_def table_inv_def obj_ok_wf)
  from rmw_spec [OF assms(6) [unfolded UpdateGlobal_rmw] assms(1,2) j'(1) this] j' assms(3) show ?thesis
    by (cases "r = ERR_OK") auto
qed

text \<open>What the three list queries read.\<close>

definition list_query :: "'z os_env_scheme \<Rightarrow> string \<Rightarrow> ErrCode \<Rightarrow> (json option \<Rightarrow> string list) \<Rightarrow> fs_state
    \<Rightarrow> (ErrCode \<times> string list) \<times> fs_state" where
  "list_query E path e g fs =
     (let (ex, fs1) = IsExistFile E path fs;
          ((_, str), fs2) = (if ex then GetFileContentByPath E path [] fs1 else ((ERR_OK, []), fs1));
          j = (if ex then CreateJsonFromString E str else CreateJson) in
      if j = None \<or> GetItemNum j = 0 then ((e, []), fs2) else ((ERR_OK, g j), fs2))"

lemma list_queries:
  "GetBaseOAConstraintsList E i = list_query E base_path
     ERR_OSACCOUNT_SERVICE_GET_DATA_FROM_BASE_CONSTRAINTS_FILE_EMPTY (\<lambda>j. get_strings j (to_string_int i))"
  "GetGlobalOAConstraintsList E = list_query E global_path
     ERR_OSACCOUNT_SERVICE_GET_DATA_FROM_GLOBAL_CONSTRAINTS_FILE_EMPTY (\<lambda>j. get_strings j ALL_GLOBAL_CONSTRAINTS)"
  "GetSpecificOAConstraintsList E i = list_query E specific_path
     ERR_OSACCOUNT_SERVICE_GET_DATA_FROM_SPECIFIC_CONSTRAINTS_FILE_EMPTY
     (\<lambda>j. get_strings (snd (GetObjFromJson j (to_string_int i) None)) ALL_SPECIFIC_CONSTRAINTS)"
  by (rule ext; simp add: GetBaseOAConstraintsList_def GetGlobalOAConstraintsList_def
      GetSpecificOAConstraintsList_def list_query_def Let_def split_beta)+

lemma list_query_ok:
  assumes "list_query E path e g fs = ((ERR_OK, l), fs')" and "e \<noteq> ERR_OK"
  shows "l = g (file_json E path fs) \<and> file_json E path fs \<noteq> None"
proof -
  obtain ex fs1 where 1: "IsExistFile E path fs = (ex, fs1)" by (cases "IsExistFile E path fs")
  obtain r s fs2 where 2: "GetFileContentByPath E path [] fs1 = ((r, s), fs2)" by (metis prod.collapse)
  have f: "fs_files fs1 = fs_files fs" using 1 by (metis IsExistFile_files snd_conv)
  have ex: "ex" and s: "CreateJsonFromString E s \<noteq> None" and l: "l = g (CreateJsonFromString E s)"
    using assms by (auto simp: list_query_def Let_def 1 2 CreateJson_def GetItemNum_def split: if_splits)
  have "s \<noteq> []" using s by (auto simp: CreateJsonFromString_def)
  then have "r = ERR_OK" using GetFileContent_err [OF 2] by blast
  with account_files.read_ok [of E path fs1 s fs2] 2 f have "fs_files fs path = Some s" by simp
  with s l show ?thesis by (simp add: file_json_def)
qed

text \<open>
  A global constraint imposed by several accounts stays in force until the last of them
  removes it: after a successful removal by one account, a successful query still lists every
  constraint that another account imposes.
\<close>

theorem global_constraint_survives:
  assumes "cjson_ok E" and "file_json E global_path fs = Some j" and "global_inv j"
    and "\<forall>c \<in> set cs. global_name c" and "good_key i"
    and "(c, s) \<in> global_rel j" and "s \<noteq> i"
    and "UpdateGlobalOAConstraints E i cs False fs = (ERR_OK, fs1)"
    and "GetGlobalOAConstraintsList E fs1 = ((ERR_OK, l), fs2)"
  shows "c \<in> set l"
proof -
  obtain j' where j': "GlobalConstraintsDataOperate i cs False (Some j) = Some j'" "global_inv j'"
    using GlobalConstraintsDataOperate_rel [OF assms(3,4,5)] by blast
  have "json_wf j'" using j'(2) by (simp add: global_inv_def table_inv_def obj_ok_wf)
  from rmw_spec [OF assms(8) [unfolded UpdateGlobal_rmw] assms(1,2) j'(1) this]
  have "file_json E global_path fs1 = Some j'" by simp
  moreover have "l = get_strings (file_json E global_path fs1) ALL_GLOBAL_CONSTRAINTS"
    using list_query_ok [OF assms(9) [unfolded list_queries]] by simp
  moreover have "c \<in> set (strs (global_upd i cs False j) ALL_GLOBAL_CONSTRAINTS)"
    using global_tab.survives_other_source [OF assms(3,4,5,6,7)] .
  ultimately show ?thesis using j' by (simp add: global_upd_def)
qed

section \<open>Base constraints\<close>

lemma merge_base_set:
  "set (merge_base isAdd cs base) = (if isAdd then set base \<union> set cs else set base - set cs)"
  by (induction isAdd cs base rule: merge_base.induct) auto

lemma merge_base_nul_free:
  "\<forall>c \<in> set cs \<union> set base. nul_free c \<Longrightarrow> \<forall>c \<in> set (merge_base isAdd cs base). nul_free c"
  by (auto simp: merge_base_set)

definition base_update :: "string \<Rightarrow> string list \<Rightarrow> bool \<Rightarrow> json \<Rightarrow> json" where
  "base_update i cs isAdd j =
     (if obj_item j i = None then (if isAdd then put_strs j i cs else j)
      else put_strs j i (merge_base isAdd cs (strs j i)))"

lemma UpdateBase_spec:
  assumes "UpdateBaseOAConstraints E i cs isAdd fs = (r, fs')" and "cjson_ok E"
    and "file_json E base_path fs = Some j" and "obj_ok j" and "good_key i"
  shows "file_json E base_path fs' = Some (if r = ERR_OK then base_update i cs isAdd j else j)"
proof -
  obtain r1 x fs1 where 1: "constraints_from_file E base_path fs = ((r1, x), fs1)" by (metis prod.collapse)
  have f: "fs_files fs1 = fs_files fs"
    using 1 account_files.read_frame [of E base_path fs]
    by (auto simp: constraints_from_file_def Let_def split_beta split: if_splits)
  show ?thesis
  proof (cases "r1 = ERR_OK")
    case True
    with 1 constraints_from_file_json assms(3) have x: "x = Some j" by metis
    have "json_wf (put_strs j i ss)" for ss using assms(4,5) by (simp add: obj_ok_wf)
    note save = save_after_load [OF 1 [unfolded True] assms(2) this, of _ r fs']
    show ?thesis
      using assms 1 x True f save [of cs] save [of "merge_base isAdd cs (strs j i)"]
      by (auto simp: UpdateBaseOAConstraints_def os_file_defs base_update_def IsKeyExist_item file_json_def
          split: if_splits)
  next
    case False
    with assms 1 f show ?thesis by (auto simp: UpdateBaseOAConstraints_def os_file_defs file_json_def)
  qed
qed

text \<open>
  Base constraints of an account after \<open>UpdateBaseOAConstraints\<close>: on success
  the account's list holds exactly the old ones plus (or minus) the named ones, the lists of other
  accounts are unchanged, and on error nothing changes.
\<close>

theorem base_update_spec:
  assumes "cjson_ok E" and "file_json E base_path fs = Some j" and "obj_ok j" and "good_key i"
    and "\<forall>c \<in> set cs. nul_free c" and "UpdateBaseOAConstraints E i cs isAdd fs = (r, fs')"
  shows "\<exists>j'. file_json E base_path fs' = Some j' \<and> obj_ok j' \<and> (\<forall>k. k \<noteq> i \<longrightarrow> strs j' k = strs j k)
    \<and> set (strs j' i) = (if r \<noteq> ERR_OK then set (strs j i)
        else if isAdd then set (strs j i) \<union> set cs else set (strs j i) - set cs)"
proof -
  have "obj_ok (base_update i cs isAdd j)"
    using assms(3,4) by (auto simp: base_update_def)
  moreover have "strs (put_strs j i ss) = (strs j)(i := ss)" if "\<forall>s \<in> set ss. nul_free s" for ss
    using that assms(3) by simp
  moreover have "\<forall>c \<in> set (merge_base isAdd cs (strs j i)). nul_free c"
    using assms(5) strs_nul_free [OF assms(3)] by (intro merge_base_nul_free) auto
  moreover have "obj_item j i = None \<Longrightarrow> strs j i = []" by (simp add: strs_def)
  ultimately show ?thesis
    using UpdateBase_spec [OF assms(6,1,2,3,4)] assms(3,5)
    by (cases "r = ERR_OK") (auto simp: base_update_def merge_base_set)
qed


section \<open>Specific constraints in their file\<close>

definition specific_file_inv :: "json \<Rightarrow> bool" where
  "specific_file_inv j \<longleftrightarrow> obj_ok j \<and> (\<forall>t u. obj_item j t = Some u \<longrightarrow> specific_inv u)"

definition specific_of :: "json \<Rightarrow> string \<Rightarrow> (string \<times> string) set" where
  "specific_of j t = (case obj_item j t of None \<Rightarrow> {} | Some u \<Rightarrow> specific_rel u)"

abbreviation fresh_target :: json where
  "fresh_target \<equiv> JObj [(ALL_SPECIFIC_CONSTRAINTS, JNull)]"

lemma c_str_all_specific [simp]: "c_str ALL_SPECIFIC_CONSTRAINTS = ALL_SPECIFIC_CONSTRAINTS"
  using nul_free_key_consts(2) by simp

lemma fresh_target_json:
  "snd (AddObjToJson CreateJson ALL_SPECIFIC_CONSTRAINTS CreateJsonNull) = Some fresh_target"
  by (simp add: AddObjToJson_def CreateJson_def CreateJsonNull_def AddItem_def obj_put_def)

lemma fresh_target_inv: "specific_inv fresh_target" "specific_rel fresh_target = {}"
  by (auto simp: specific_inv_def table_inv_def obj_ok_def no_empty_def specific_rel_def sources_def strs_def
      key_defs split: if_splits)

lemma specific_inv_put:
  assumes "specific_file_inv j" and "good_key t" and "specific_inv u"
  shows "specific_file_inv (obj_put j t u) \<and> specific_of (obj_put j t u) = (specific_of j)(t := specific_rel u)"
proof -
  have "json_wf u" using assms(3) by (simp add: specific_inv_def table_inv_def obj_ok_wf)
  moreover have "obj_item (obj_put j t u) = (obj_item j)(t \<mapsto> u)"
    using assms(1) by (simp add: specific_file_inv_def obj_item_put)
  ultimately show ?thesis
    using assms by (auto simp: specific_file_inv_def specific_of_def fun_eq_iff intro: obj_ok_put)
qed

lemma AddObj_put [simp]: "good_key t \<Longrightarrow> snd (AddObjToJson (Some j) t (Some u)) = Some (obj_put j t u)"
  by (simp add: AddObjToJson_def AddItem_def)

lemma GetItem_some [simp]: "good_key t \<Longrightarrow> GetItemFromJson (Some j) t = obj_item j t"
  by (simp add: GetItemFromJson_def IsKeyExist_def)

definition specific_target :: "json \<Rightarrow> string \<Rightarrow> json" where
  "specific_target j t = (case obj_item j t of None \<Rightarrow> fresh_target | Some u \<Rightarrow> u)"

lemma UpdateSpecific_unfold:
  assumes "constraints_from_file E specific_path fs = ((ERR_OK, Some j), fs1)"
    and "specific_file_inv j" and "good_key t" and "\<forall>c \<in> set cs. specific_name c" and "good_key i"
  shows "UpdateSpecificOAConstraints E i t cs isAdd fs =
    (if obj_item j t = None \<and> \<not> isAdd then (ERR_OK, fs1)
     else json_to_file E specific_path
       (Some (obj_put (if obj_item j t = None then obj_put j t fresh_target else j) t
          (specific_upd i cs isAdd (specific_target j t)))) fs1)"
proof -
  have "specific_inv (specific_target j t)"
    using assms(2) fresh_target_inv by (auto simp: specific_target_def specific_file_inv_def split: option.split)
  from SpecificConstraintsDataOperate_rel [OF this assms(4,5), of isAdd]
  have op: "SpecificConstraintsDataOperate i cs isAdd (Some (specific_target j t))
      = Some (specific_upd i cs isAdd (specific_target j t))" by (auto simp: specific_upd_def)
  have "obj_item (obj_put j t fresh_target) t = Some fresh_target"
    using assms(2) by (simp add: specific_file_inv_def obj_item_put)
  with op assms(1,3) show ?thesis
    by (cases isAdd; cases "obj_item j t")
      (simp_all add: UpdateSpecificOAConstraints_def os_file_defs IsKeyExist_item fresh_target_json
        specific_target_def)
qed

text \<open>
  C22 (refinement). \<open>UpdateSpecificOAConstraints\<close> on the relation between constraints and sources
  kept for each target account: on success exactly the named pairs are added to or removed from the
  target's relation, the other targets are unchanged, and on error nothing changes.
\<close>

theorem specific_update_refines:
  assumes "cjson_ok E" and "file_json E specific_path fs = Some j" and "specific_file_inv j"
    and "good_key t" and "\<forall>c \<in> set cs. specific_name c" and "good_key i"
    and "UpdateSpecificOAConstraints E i t cs isAdd fs = (r, fs')"
  shows "\<exists>j'. file_json E specific_path fs' = Some j' \<and> specific_file_inv j' \<and>
    specific_of j' = (if r \<noteq> ERR_OK then specific_of j
       else (specific_of j)(t := (if isAdd then specific_of j t \<union> set cs \<times> {i} else specific_of j t - set cs \<times> {i})))"
proof -
  obtain r1 x fs1 where 1: "constraints_from_file E specific_path fs = ((r1, x), fs1)" by (metis prod.collapse)
  have f: "fs_files fs1 = fs_files fs"
    using 1 account_files.read_frame [of E specific_path fs]
    by (auto simp: constraints_from_file_def Let_def split_beta split: if_splits)
  show ?thesis
  proof (cases "r1 = ERR_OK")
    case False
    with assms 1 f show ?thesis by (auto simp: UpdateSpecificOAConstraints_def os_file_defs file_json_def)
  next
    case True
    with 1 constraints_from_file_json assms(2) have x: "x = Some j" by metis
    note upd = UpdateSpecific_unfold [OF 1 [unfolded True x] assms(3,4,5,6), of isAdd]
    show ?thesis
    proof (cases "obj_item j t = None \<and> \<not> isAdd")
      case none: True
      then have "specific_of j t = {}" by (simp add: specific_of_def)
      with none upd assms f show ?thesis by (auto simp: file_json_def fun_upd_idem)
    next
      case False
      let ?u = "specific_upd i cs isAdd (specific_target j t)"
      let ?j1 = "if obj_item j t = None then obj_put j t fresh_target else j"
      have tgt: "specific_inv (specific_target j t)" "specific_rel (specific_target j t) = specific_of j t"
        using assms(3) fresh_target_inv
        by (auto simp: specific_target_def specific_of_def specific_file_inv_def split: option.split)
      have u: "specific_inv ?u" "specific_rel ?u =
          (if isAdd then specific_of j t \<union> set cs \<times> {i} else specific_of j t - set cs \<times> {i})"
        using specific_tab.upd_valid [OF tgt(1) assms(5,6)] specific_tab.upd_imposed [OF tgt(1) assms(5,6)] tgt(2)
        by simp_all
      have j1: "specific_file_inv ?j1" "(specific_of ?j1)(t := s) = (specific_of j)(t := s)" for s
        using specific_inv_put [OF assms(3,4) fresh_target_inv(1)] assms(3) by auto
      have j2: "specific_file_inv (obj_put ?j1 t ?u)" "specific_of (obj_put ?j1 t ?u) = (specific_of j)(t := specific_rel ?u)"
        using specific_inv_put [OF j1(1) assms(4) u(1)] j1(2) by simp_all
      then have "json_wf (obj_put ?j1 t ?u)" by (simp add: specific_file_inv_def obj_ok_wf)
      from save_after_load [OF 1 [unfolded True] assms(1) this, of r fs'] upd False assms(2,7)
      have "file_json E specific_path fs' = Some (if r = ERR_OK then obj_put ?j1 t ?u else j)" by auto
      with j2 u assms(3) show ?thesis by (cases "r = ERR_OK") auto
    qed
  qed
qed


section \<open>Removing an account from the tables\<close>

text \<open>One key of the loops that remove an account, on a table with reserved keys \<open>R\<close>.\<close>

definition key_step :: "string \<Rightarrow> string set \<Rightarrow> string \<Rightarrow> string
    \<Rightarrow> json option \<times> string list \<times> string list \<Rightarrow> json option \<times> string list \<times> string list" where
  "key_step all R i k st =
     (if k \<in> R then st else RemoveConstraintsFromJsonOperate all k i (fst st) (fst (snd st)) (snd (snd st)))"

definition all_listed :: "string \<Rightarrow> json \<Rightarrow> bool" where
  "all_listed all j \<longleftrightarrow> (\<forall>c. c \<noteq> all \<longrightarrow> obj_item j c \<noteq> None \<longrightarrow> strs j c \<noteq> [])"

lemma key_fold:
  assumes "table_inv all R j wait lst" and "all \<in> R" and "good_key all" and "distinct ks"
    and "set ks \<inter> set wait = {}" and "\<forall>k \<in> set ks. good_key k"
  shows "\<exists>j' wait' lst'. fold (key_step all R i) ks (Some j, wait, lst) = (Some j', wait', lst')
    \<and> table_inv all R j' wait' lst' \<and> sources R j' wait' = sources R j wait - set ks \<times> {i}
    \<and> (all_listed all j \<longrightarrow> all_listed all j')"
  using assms
proof (induction ks arbitrary: j wait lst)
  case (Cons k ks)
  show ?case
  proof (cases "k \<in> R")
    case True
    then have "(k, i) \<notin> sources R j wait" by (simp add: sources_def)
    moreover have "sources R j wait - set (k # ks) \<times> {i} = sources R j wait - set ks \<times> {i}"
      using True by (auto simp: sources_def)
    ultimately show ?thesis
      using Cons.IH [OF Cons.prems(1,2,3)] Cons.prems(4-6) True by (auto simp: key_step_def)
  next
    case False
    have "k \<in> set lst \<or> removeAll i (strs j k) = []"
      using Cons.prems(1,5) False by (auto simp: table_inv_def)
    from table_remove [OF Cons.prems(1,2) False _ Cons.prems(3) this] Cons.prems(6)
    obtain j' wait' lst' where r:
      "RemoveConstraintsFromJsonOperate all k i (Some j) wait lst = (Some j', wait', lst')"
      "table_inv all R j' wait' lst'" "sources R j' wait' = sources R j wait - {(k, i)}"
      "wait' = (if removeAll i (strs j k) = [] then wait @ [k] else wait)"
      "strs j' = (if removeAll i (strs j k) = [] then (strs j)(all := lst') else (strs j)(k := removeAll i (strs j k)))"
      "\<forall>k. k \<noteq> all \<longrightarrow> (obj_item j' k = None) = (obj_item j k = None)" by auto
    have d: "distinct ks" "set ks \<inter> set wait' = {}" "\<forall>k \<in> set ks. good_key k"
      using Cons.prems(4-6) r(4) by auto
    have "all_listed all j \<longrightarrow> all_listed all j'"
      using r(5,6) by (auto simp: all_listed_def)
    with Cons.IH [OF r(2) Cons.prems(2,3) d] r(1,3) False show ?thesis
      by (auto simp: key_step_def Diff_eq Int_assoc)
  qed
qed auto

lemma obj_ok_keys:
  assumes "obj_ok j"
  shows "\<forall>k \<in> set (obj_keys (Some j)). good_key k" and "distinct (obj_keys (Some j))"
proof -
  obtain kvs where kvs: "j = JObj kvs" "distinct (map fst kvs)" "[] \<notin> set (map fst kvs)"
    "\<forall>k \<in> set (map fst kvs). nul_free k"
    using assms by (auto simp: obj_ok_def)
  then show "\<forall>k \<in> set (obj_keys (Some j)). good_key k" and "distinct (obj_keys (Some j))"
    unfolding obj_keys_def kvs(1) option.case json.case by blast+
qed

lemma remove_global_fold:
  assumes "global_table j wait lst" and "distinct ks" and "set ks \<inter> set wait = {}" and "\<forall>k \<in> set ks. good_key k"
  shows "\<exists>j' wait' lst'. fold (remove_global_key i) ks (Some j, wait) = (Some j', wait')
    \<and> global_table j' wait' lst' \<and> sources global_reserved j' wait' = sources global_reserved j wait - set ks \<times> {i}"
proof -
  let ?step = "key_step ALL_GLOBAL_CONSTRAINTS global_reserved i"
  have eq: "fold (remove_global_key i) ks (Some j, wait) =
      (\<lambda>(j, w, l). (j, w)) (fold ?step ks (Some j, wait, lst))"
    using assms
  proof (induction ks arbitrary: j wait lst)
    case (Cons k ks)
    have k: "good_key k" using Cons.prems by simp
    obtain j' wait' lst' where s: "?step k (Some j, wait, lst) = (Some j', wait', lst')"
      "global_table j' wait' lst'" "set wait' \<subseteq> insert k (set wait)"
    proof (cases "k \<in> global_reserved")
      case True
      with that Cons.prems(1) show ?thesis by (auto simp: key_step_def)
    next
      case False
      have "k \<in> set lst \<or> removeAll i (strs j k) = []"
        using Cons.prems(1,3) False by (auto simp: table_inv_def)
      from table_remove [OF Cons.prems(1) global_reserved_mem False k _ this] False that show ?thesis
        by (auto simp: key_step_def split: if_splits)
    qed
    have lst: "strs j ALL_GLOBAL_CONSTRAINTS = lst" using Cons.prems(1) by (simp add: table_inv_def)
    have "remove_global_key i k (Some j, wait) = (Some j', wait')"
      using s(1) k lst
      by (auto simp: remove_global_key_def key_step_def global_reserved_def RemoveConstraintsFromJsonOperate_def
          Let_def AddVector_strs split: if_splits)
    moreover have "distinct ks" "set ks \<inter> set wait' = {}" "\<forall>k \<in> set ks. good_key k"
      using Cons.prems s(3) by auto
    ultimately show ?case using Cons.IH [OF s(2)] s(1) by simp
  qed simp
  obtain j' wait' lst' where "fold ?step ks (Some j, wait, lst) = (Some j', wait', lst')"
    "global_table j' wait' lst'" "sources global_reserved j' wait' = sources global_reserved j wait - set ks \<times> {i}"
    using key_fold [OF assms(1) global_reserved_mem nul_free_key_consts(1) assms(2,3,4), of i] by blast
  with eq show ?thesis by auto
qed

lemma rel_keys: "global_rel j \<subseteq> set (obj_keys (Some j)) \<times> UNIV"
proof
  fix e assume "e \<in> global_rel j"
  then have "strs j (fst e) \<noteq> []" by (auto simp: global_rel_def sources_def)
  then have "obj_item j (fst e) \<noteq> None" by (rule strs_item)
  then show "e \<in> set (obj_keys (Some j)) \<times> UNIV"
    by (cases j) (auto simp: obj_keys_def mem_Times_iff dest!: map_of_SomeD intro: rev_image_eqI)
qed

lemma remove_global_json_rel:
  assumes "global_inv j"
  shows "\<exists>j'. remove_global_json i (Some j) = Some j' \<and> global_inv j' \<and> global_rel j' = {(c, s) \<in> global_rel j. s \<noteq> i}"
proof -
  have ok: "obj_ok j" "global_table j [] (strs j ALL_GLOBAL_CONSTRAINTS)"
    using assms(1) by (auto simp: global_inv_def table_inv_def)
  note keys = obj_ok_keys [OF ok(1)]
  from remove_global_fold [OF ok(2) keys(2) _ keys(1), of i]
  obtain j1 wait lst where 1: "fold (remove_global_key i) (obj_keys (Some j)) (Some j, []) = (Some j1, wait)"
    "global_table j1 wait lst"
    "sources global_reserved j1 wait = global_rel j - set (obj_keys (Some j)) \<times> {i}"
    by (auto simp: global_rel_def)
  from table_erase [OF 1(2) global_reserved_mem] obtain j' where 2: "delete_keys wait (Some j1) = Some j'"
    "global_table j' [] lst" "sources global_reserved j' [] = sources global_reserved j1 wait" by blast
  have "strs j' ALL_GLOBAL_CONSTRAINTS = lst" using 2(2) by (simp add: table_inv_def)
  moreover have "global_rel j - set (obj_keys (Some j)) \<times> {i} = {(c, s) \<in> global_rel j. s \<noteq> i}"
    using rel_keys [of j] by auto
  ultimately show ?thesis
    using 1 2 by (auto simp: remove_global_json_def global_inv_def global_rel_def)
qed

lemma RemoveGlobal_rmw:
  "RemoveOAGlobalConstraintsInfo E i = rmw E global_path (remove_global_json (to_string_int i))"
  by (rule ext) (simp add: RemoveOAGlobalConstraintsInfo_def rmw_def os_file_defs split_beta Let_def)

lemma remove_specific_key_step:
  assumes "good_key k" and "strs j ALL_SPECIFIC_CONSTRAINTS = lst"
  shows "remove_specific_key i k (Some j, wait, lst) =
    key_step ALL_SPECIFIC_CONSTRAINTS specific_reserved i k (Some j, wait, lst)"
  using assms by (simp add: remove_specific_key_def key_step_def specific_reserved_def
      RemoveConstraintsFromJsonOperate_def Let_def AddVector_strs)

lemma remove_specific_fold:
  assumes "specific_table j wait lst" and "distinct ks" and "set ks \<inter> set wait = {}" and "\<forall>k \<in> set ks. good_key k"
  shows "fold (remove_specific_key i) ks (Some j, wait, lst) =
    fold (key_step ALL_SPECIFIC_CONSTRAINTS specific_reserved i) ks (Some j, wait, lst)"
  using assms
proof (induction ks arbitrary: j wait lst)
  case (Cons k ks)
  let ?step = "key_step ALL_SPECIFIC_CONSTRAINTS specific_reserved i"
  have k: "good_key k" "strs j ALL_SPECIFIC_CONSTRAINTS = lst"
    using Cons.prems by (auto simp: table_inv_def)
  obtain j' wait' lst' where s: "?step k (Some j, wait, lst) = (Some j', wait', lst')"
    "specific_table j' wait' lst'" "set wait' \<subseteq> insert k (set wait)"
  proof (cases "k \<in> specific_reserved")
    case True
    with that Cons.prems(1) show ?thesis by (auto simp: key_step_def)
  next
    case False
    have "k \<in> set lst \<or> removeAll i (strs j k) = []"
      using Cons.prems(1,3) False by (auto simp: table_inv_def)
    from table_remove [OF Cons.prems(1) specific_reserved_mem False k(1) _ this] False that show ?thesis
      by (auto simp: key_step_def split: if_splits)
  qed
  moreover have "distinct ks" "set ks \<inter> set wait' = {}" "\<forall>k \<in> set ks. good_key k"
    using Cons.prems s(3) by auto
  ultimately show ?case
    using Cons.IH [OF s(2)] remove_specific_key_step [OF k] by simp
qed simp

lemma specific_rel_keys: "specific_rel u \<subseteq> set (obj_keys (Some u)) \<times> UNIV"
proof
  fix e assume "e \<in> specific_rel u"
  then have "strs u (fst e) \<noteq> []" by (auto simp: specific_rel_def sources_def)
  then have "obj_item u (fst e) \<noteq> None" by (rule strs_item)
  then show "e \<in> set (obj_keys (Some u)) \<times> UNIV"
    by (cases u) (auto simp: obj_keys_def mem_Times_iff dest!: map_of_SomeD intro: rev_image_eqI)
qed

lemma remove_specific_target:
  assumes "specific_inv u"
  shows "\<exists>u1 wait lst u'. fold (remove_specific_key i) (obj_keys (Some u))
      (Some u, [], strs u ALL_SPECIFIC_CONSTRAINTS) = (Some u1, wait, lst)
    \<and> delete_keys wait (Some u1) = Some u' \<and> specific_inv u'
    \<and> specific_rel u' = {(c, s) \<in> specific_rel u. s \<noteq> i}"
proof -
  have tab: "specific_table u [] (strs u ALL_SPECIFIC_CONSTRAINTS)" "all_listed ALL_SPECIFIC_CONSTRAINTS u"
    and ok: "obj_ok u"
    using assms by (auto simp: specific_inv_def table_inv_def no_empty_def all_listed_def)
  note keys = obj_ok_keys [OF ok]
  obtain u1 wait lst where 1: "fold (key_step ALL_SPECIFIC_CONSTRAINTS specific_reserved i) (obj_keys (Some u))
      (Some u, [], strs u ALL_SPECIFIC_CONSTRAINTS) = (Some u1, wait, lst)"
    "specific_table u1 wait lst" "all_listed ALL_SPECIFIC_CONSTRAINTS u1"
    "sources specific_reserved u1 wait = sources specific_reserved u [] - set (obj_keys (Some u)) \<times> {i}"
    using key_fold [OF tab(1) specific_reserved_mem nul_free_key_consts(2) keys(2) _ keys(1), of i] tab(2) by auto
  obtain u' where 2: "delete_keys wait (Some u1) = Some u'"
    "obj_item u' = (\<lambda>k. if k \<in> set wait then None else obj_item u1 k)"
    using delete_keys_spec [of u1 wait] 1(2) by (auto simp: table_inv_def)
  have 3: "specific_table u' [] lst" "sources specific_reserved u' [] = sources specific_reserved u1 wait"
    using table_erase [OF 1(2) specific_reserved_mem] 2(1) by auto
  have "no_empty u'" using 1(3) 2(2) by (auto simp: no_empty_def all_listed_def strs_def)
  moreover have "strs u' ALL_SPECIFIC_CONSTRAINTS = lst" using 3(1) by (simp add: table_inv_def)
  moreover have "specific_rel u - set (obj_keys (Some u)) \<times> {i} = {(c, s) \<in> specific_rel u. s \<noteq> i}"
    using specific_rel_keys [of u] by auto
  ultimately show ?thesis
    using 1 2(1) 3 remove_specific_fold [OF tab(1) keys(2) _ keys(1)]
    by (auto simp: specific_inv_def specific_rel_def)
qed

lemma RemoveUser_target:
  assumes "specific_file_inv j" and "good_key t" and "obj_item j t \<noteq> None"
  shows "\<exists>j'. RemoveUserConstraintsFromSpecificObj i t (Some j) = Some j' \<and> specific_file_inv j'
    \<and> specific_of j' = (specific_of j)(t := {(c, s) \<in> specific_of j t. s \<noteq> i})
    \<and> (\<forall>k. (obj_item j' k = None) = (obj_item j k = None))"
proof -
  obtain u where u: "obj_item j t = Some u" using assms(3) by blast
  then have inv: "specific_inv u" using assms(1) by (auto simp: specific_file_inv_def)
  have g: "snd (GetObjFromJson (Some j) t None) = Some u" using u assms(2) by (simp add: GetObjFromJson_def Let_def)
  have rel: "specific_of j t = specific_rel u" using u by (simp add: specific_of_def)
  show ?thesis
  proof (cases "strs u ALL_SPECIFIC_CONSTRAINTS = []")
    case True
    then have "specific_of j t = {}" using specific_tab.in_force_imposed [OF inv] rel by simp
    then have "specific_of j = (specific_of j)(t := {(c, s) \<in> specific_of j t. s \<noteq> i})" by (simp add: fun_upd_idem)
    with True assms(1) g show ?thesis by (simp add: RemoveUserConstraintsFromSpecificObj_def)
  next
    case False
    obtain u1 wait lst u' where r: "fold (remove_specific_key i) (obj_keys (Some u))
        (Some u, [], strs u ALL_SPECIFIC_CONSTRAINTS) = (Some u1, wait, lst)"
      "delete_keys wait (Some u1) = Some u'" "specific_inv u'" "specific_rel u' = {(c, s) \<in> specific_rel u. s \<noteq> i}"
      using remove_specific_target [OF inv] by blast
    have "RemoveUserConstraintsFromSpecificObj i t (Some j) = Some (obj_put j t u')"
      using False g r assms(2) by (simp add: RemoveUserConstraintsFromSpecificObj_def)
    moreover have "\<forall>k. (obj_item (obj_put j t u') k = None) = (obj_item j k = None)"
      using assms(1) u by (auto simp: obj_item_put specific_file_inv_def)
    ultimately show ?thesis
      using specific_inv_put [OF assms(1,2) r(3)] r(4) rel by auto
  qed
qed

lemma RemoveAll_fold:
  assumes "specific_file_inv j" and "\<forall>t \<in> set ts. good_key t \<and> obj_item j t \<noteq> None" and "distinct ts"
  shows "\<exists>j'. fold (RemoveUserConstraintsFromSpecificObj i) ts (Some j) = Some j' \<and> specific_file_inv j'
    \<and> specific_of j' = (\<lambda>t. if t \<in> set ts then {(c, s) \<in> specific_of j t. s \<noteq> i} else specific_of j t)"
  using assms
proof (induction ts arbitrary: j)
  case (Cons t ts)
  have t: "good_key t" "obj_item j t \<noteq> None" using Cons.prems(2) by auto
  obtain j1 where 1: "RemoveUserConstraintsFromSpecificObj i t (Some j) = Some j1" "specific_file_inv j1"
    "specific_of j1 = (specific_of j)(t := {(c, s) \<in> specific_of j t. s \<noteq> i})"
    "\<forall>k. (obj_item j1 k = None) = (obj_item j k = None)"
    using RemoveUser_target [OF Cons.prems(1) t, of i] by blast
  have "\<forall>t \<in> set ts. good_key t \<and> obj_item j1 t \<noteq> None" "distinct ts"
    using Cons.prems 1(4) by auto
  from Cons.IH [OF 1(2) this] obtain j' where "fold (RemoveUserConstraintsFromSpecificObj i) ts (Some j1) = Some j'"
    "specific_file_inv j'" "specific_of j' = (\<lambda>t. if t \<in> set ts then {(c, s) \<in> specific_of j1 t. s \<noteq> i} else specific_of j1 t)"
    by blast
  moreover have "(\<lambda>t. if t \<in> set ts then {(c, s) \<in> specific_of j1 t. s \<noteq> i} else specific_of j1 t) =
      (\<lambda>x. if x \<in> set (t # ts) then {(c, s) \<in> specific_of j x. s \<noteq> i} else specific_of j x)"
    using Cons.prems(3) by (intro ext) (simp add: 1(3))
  ultimately show ?case using 1(1) by simp
qed simp


definition remove_specific_json :: "string \<Rightarrow> json option \<Rightarrow> json option" where
  "remove_specific_json i j =
     RemoveAllUsersConstraintsInfo i (if IsKeyExist j i then snd (DeleteItemFromJson j i) else j)"

lemma remove_rmw:
  "RemoveOABaseConstraintsInfo E i = rmw E base_path (\<lambda>j. snd (DeleteItemFromJson j (to_string_int i)))"
  "RemoveOASpecificConstraintsInfo E i = rmw E specific_path (remove_specific_json (to_string_int i))"
  by (rule ext; simp add: RemoveOABaseConstraintsInfo_def RemoveOASpecificConstraintsInfo_def
      remove_specific_json_def rmw_def os_file_defs split_beta Let_def)+

lemma obj_keys_items: "obj_ok j \<Longrightarrow> t \<in> set (obj_keys (Some j)) \<longleftrightarrow> obj_item j t \<noteq> None"
  by (cases j) (auto simp: obj_ok_def obj_keys_def map_of_eq_None_iff simp flip: set_map)

lemma remove_specific_json_rel:
  assumes "specific_file_inv j" and "good_key i"
  shows "\<exists>j'. remove_specific_json i (Some j) = Some j' \<and> specific_file_inv j'
    \<and> specific_of j' = (\<lambda>t. if t = i then {} else {(c, s) \<in> specific_of j t. s \<noteq> i})"
proof -
  have ok: "obj_ok j" using assms(1) by (simp add: specific_file_inv_def)
  let ?j = "obj_delete j i"
  have d: "(if IsKeyExist (Some j) i then snd (DeleteItemFromJson (Some j) i) else Some j) = Some ?j"
    using assms(2) ok by (auto simp: IsKeyExist_item DeleteItem_json delete_absent)
  have items: "obj_item ?j = (obj_item j)(i := None)" using ok by (rule obj_item_delete)
  have inv: "specific_file_inv ?j" "specific_of ?j = (specific_of j)(i := {})"
    using assms(1) ok items by (auto simp: specific_file_inv_def specific_of_def fun_eq_iff intro: obj_ok_delete
        split: if_splits)
  have okj: "obj_ok ?j" using ok by (rule obj_ok_delete)
  obtain j' where j': "fold (RemoveUserConstraintsFromSpecificObj i) (obj_keys (Some ?j)) (Some ?j) = Some j'"
    "specific_file_inv j'" "specific_of j' = (\<lambda>t. if t \<in> set (obj_keys (Some ?j))
        then {(c, s) \<in> specific_of ?j t. s \<noteq> i} else specific_of ?j t)"
    using RemoveAll_fold [OF inv(1), of "obj_keys (Some ?j)" i] obj_ok_keys [OF okj] obj_keys_items [OF okj] by auto
  have "specific_of ?j t = {}" if "t \<notin> set (obj_keys (Some ?j))" for t
    using that obj_keys_items [OF okj] by (simp add: specific_of_def)
  with j' inv(2) have "specific_of j' = (\<lambda>t. if t = i then {} else {(c, s) \<in> specific_of j t. s \<noteq> i})"
    by (fastforce simp: fun_eq_iff split: if_splits)
  with j' d show ?thesis by (simp add: remove_specific_json_def RemoveAllUsersConstraintsInfo_def)
qed

lemma rmw_frame:
  assumes "rmw E path f fs = (r, fs')" and "q \<noteq> path" and "q \<noteq> GetTempFilePath path"
  shows "file_json E q fs' = file_json E q fs"
proof -
  obtain r1 x fs1 where 1: "constraints_from_file E path fs = ((r1, x), fs1)" by (metis prod.collapse)
  have f: "fs_files fs1 = fs_files fs"
    using 1 account_files.read_frame [of E path fs]
    by (auto simp: constraints_from_file_def Let_def split_beta split: if_splits)
  then have q: "file_json E q fs1 = file_json E q fs" by (simp add: file_json_def)
  show ?thesis
  proof (cases "r1 = ERR_OK")
    case True
    with assms(1) 1 have "json_to_file E path (f x) fs1 = (r, fs')" by (simp add: rmw_def)
    from json_to_file_frame [OF this assms(2,3)] q show ?thesis by simp
  next
    case False
    with assms(1) 1 q show ?thesis by (simp add: rmw_def)
  qed
qed

lemma good_key_id [simp]: "good_key (to_string_int i)"
  by (simp add: to_string_int_def)

lemma distinct_paths [simp]:
  "base_path \<noteq> global_path" "base_path \<noteq> specific_path" "global_path \<noteq> base_path"
  "global_path \<noteq> specific_path" "specific_path \<noteq> base_path" "specific_path \<noteq> global_path"
  "base_path \<noteq> GetTempFilePath global_path" "base_path \<noteq> GetTempFilePath specific_path"
  "global_path \<noteq> GetTempFilePath base_path" "global_path \<noteq> GetTempFilePath specific_path"
  "specific_path \<noteq> GetTempFilePath base_path" "specific_path \<noteq> GetTempFilePath global_path"
  by (simp_all add: path_defs GetTempFilePath_def)

text \<open>
  C28 (safety). When an account is deleted, \<open>RemoveOAConstraintsInfo\<close> leaves no trace of it and
  touches nothing else: after success the account has no base constraints, imposes no global and no
  specific constraint, is no target of a specific constraint, and everything that other accounts
  imposed on each other is kept.
\<close>

theorem removed_account_leaves_no_trace:
  assumes "cjson_ok E" and "RemoveOAConstraintsInfo E i fs = (ERR_OK, fs')"
    and "file_json E base_path fs = Some jb" and "obj_ok jb"
    and "file_json E global_path fs = Some jg" and "global_inv jg"
    and "file_json E specific_path fs = Some js" and "specific_file_inv js"
  shows "\<exists>jb' jg' js'. file_json E base_path fs' = Some jb' \<and> obj_item jb' = (obj_item jb)(to_string_int i := None)
    \<and> file_json E global_path fs' = Some jg' \<and> global_inv jg'
    \<and> global_rel jg' = {(c, s) \<in> global_rel jg. s \<noteq> to_string_int i}
    \<and> file_json E specific_path fs' = Some js' \<and> specific_file_inv js'
    \<and> specific_of js' = (\<lambda>t. if t = to_string_int i then {} else {(c, s) \<in> specific_of js t. s \<noteq> to_string_int i})"
proof -
  let ?i = "to_string_int i"
  obtain r1 fs1 where 1: "RemoveOABaseConstraintsInfo E i fs = (r1, fs1)" by (metis prod.collapse)
  obtain r2 fs2 where 2: "RemoveOAGlobalConstraintsInfo E i fs1 = (r2, fs2)" by (metis prod.collapse)
  have r: "r1 = ERR_OK" "r2 = ERR_OK" and 3: "RemoveOASpecificConstraintsInfo E i fs2 = (ERR_OK, fs')"
    using assms(2) by (auto simp: RemoveOAConstraintsInfo_def 1 2 split: if_splits)
  note 1 = 1 [unfolded remove_rmw r] and 2 = 2 [unfolded RemoveGlobal_rmw r] and 3 = 3 [unfolded remove_rmw]
  obtain jg' where g: "remove_global_json ?i (Some jg) = Some jg'" "global_inv jg'"
    "global_rel jg' = {(c, s) \<in> global_rel jg. s \<noteq> ?i}" using remove_global_json_rel [OF assms(6)] by blast
  obtain js' where s: "remove_specific_json ?i (Some js) = Some js'" "specific_file_inv js'"
    "specific_of js' = (\<lambda>t. if t = ?i then {} else {(c, s) \<in> specific_of js t. s \<noteq> ?i})"
    using remove_specific_json_rel [OF assms(8) good_key_id] by blast
  have b: "snd (DeleteItemFromJson (Some jb) ?i) = Some (obj_delete jb ?i)"
    using assms(4) by (simp add: DeleteItem_json delete_absent)
  have wf: "json_wf (obj_delete jb ?i)" "json_wf jg'" "json_wf js'"
    using assms(4) g(2) s(2) by (auto simp: global_inv_def table_inv_def specific_file_inv_def obj_ok_wf obj_ok_delete)
  have "file_json E base_path fs1 = Some (obj_delete jb ?i)" "file_json E global_path fs1 = Some jg"
    "file_json E specific_path fs1 = Some js"
    using rmw_spec [OF 1 assms(1,3) b wf(1)] rmw_frame [OF 1] assms(5,7) by simp_all
  moreover from this rmw_spec [OF 2 assms(1) _ g(1) wf(2)] rmw_frame [OF 2]
  have "file_json E base_path fs2 = Some (obj_delete jb ?i)" "file_json E global_path fs2 = Some jg'"
    "file_json E specific_path fs2 = Some js" by simp_all
  ultimately have "file_json E base_path fs' = Some (obj_delete jb ?i)" "file_json E global_path fs' = Some jg'"
    "file_json E specific_path fs' = Some js'"
    using rmw_spec [OF 3 assms(1) _ s(1) wf(3)] rmw_frame [OF 3] by simp_all
  with g s assms(4) show ?thesis by (auto simp: obj_item_delete)
qed


section \<open>A constraint file that does not parse\<close>

text \<open>
  A base constraint file whose text is not JSON is taken for a successfully read one: an
  addition then reports success, although the constraint is not stored and the file is left empty.
\<close>

theorem unparsable_constraints_lost:
  assumes "os_quiet E" and "fs_files fs base_path = Some s" and "length s \<le> MAX_FILE_SIZE"
    and "CreateJsonFromString E s = None"
  shows "\<exists>fs'. UpdateBaseOAConstraints E i cs True fs = (ERR_OK, fs') \<and> fs_files fs' base_path = Some []"
proof -
  obtain fs1 where 1: "GetFileContentByPath E base_path [] fs = ((ERR_OK, s), fs1)"
    using quiet_read [OF assms(1) _ assms(2,3), of "[]"] by (auto simp: path_defs)
  then have c: "constraints_from_file E base_path fs = ((ERR_OK, None), fs1)"
    using assms(4) by (simp add: constraints_from_file_def)
  obtain fs2 where 2: "InputFileByPathAndContent E base_path [] fs1 = (ERR_OK, fs2)"
    using quiet_write(1) [OF assms(1), of base_path "[]" fs1] by (metis prod.collapse)
  have "fs_files fs2 base_path = Some []"
    using account_files.write_target [OF 2] by simp
  moreover have "UpdateBaseOAConstraints E i cs True fs = (ERR_OK, fs2)"
    using c 2 by (simp add: UpdateBaseOAConstraints_def os_file_defs json_to_file_def IsKeyExist_def add_strings_def
        AddVectorStringToJson_def AddItem_def PackJsonToString_def)
  ultimately show ?thesis by blast
qed

lemma quiet_rmw:
  assumes "os_quiet E" and "path \<noteq> []" and "fs_files fs path = Some s" and "length s \<le> MAX_FILE_SIZE"
  shows "\<exists>fs'. rmw E path f fs = (ERR_OK, fs')
    \<and> fs_files fs' path = Some (PackJsonToString E (f (CreateJsonFromString E s)))
    \<and> (\<forall>q. q \<noteq> path \<and> q \<noteq> GetTempFilePath path \<longrightarrow> fs_files fs' q = fs_files fs q)"
proof -
  obtain fs1 where 1: "GetFileContentByPath E path [] fs = ((ERR_OK, s), fs1)"
    using quiet_read [OF assms] by blast
  let ?c = "PackJsonToString E (f (CreateJsonFromString E s))"
  obtain fs2 where 2: "InputFileByPathAndContent E path ?c fs1 = (ERR_OK, fs2)"
    using quiet_write(1) [OF assms(1), of path ?c fs1] by (metis prod.collapse)
  have "fs_files fs1 = fs_files fs" using 1 by (rule account_files.read_keeps)
  with 1 2 InputFile_spec [OF 2] show ?thesis
    by (simp add: rmw_def constraints_from_file_def json_to_file_def Let_def)
qed

lemma quiet_list_query:
  assumes "os_quiet E" and "path \<noteq> []" and "fs_files fs path = Some s" and "length s \<le> MAX_FILE_SIZE"
    and "CreateJsonFromString E s = Some j" and "array_size j \<noteq> 0"
  shows "\<exists>fs'. list_query E path e g fs = ((ERR_OK, g (Some j)), fs')"
proof -
  let ?fs1 = "fs\<lparr>fs_tick := Suc (fs_tick fs)\<rparr>"
  have ex: "IsExistFile E path fs = (True, ?fs1)"
    using assms by (simp add: IsExistFile_def quiet_exists)
  obtain fs2 where "GetFileContentByPath E path [] ?fs1 = ((ERR_OK, s), fs2)"
    using quiet_read [OF assms(1,2), of ?fs1 s "[]"] assms(3,4) by auto
  with ex assms(5,6) show ?thesis by (simp add: list_query_def GetItemNum_def)
qed

section \<open>Witnesses\<close>

definition os_ref_env :: os_env where
  "os_ref_env = \<lparr>cj_parse = ref_read, cj_print = (\<lambda>j. Some (ref_print j)), sys_errno = (\<lambda>_. None),
     sys_short = (\<lambda>_. 0), space_ok = (\<lambda>_ _. True),
     StrToInt = (\<lambda>s. if s \<noteq> [] \<and> list_all is_digit s then Some (int (dec_val s)) else None),
     DISTRIBUTED = False, db_account_list = (\<lambda>_. (ERR_OK, None))\<rparr>"

lemma os_ref_env_ok [simp]: "cjson_ok os_ref_env" "os_quiet os_ref_env" "\<not> DISTRIBUTED os_ref_env"
  by (simp_all add: os_ref_env_def ref_lib_ok os_quiet_def)

definition demo_base :: json where
  "demo_base = JObj [(''100'', JArr [JStr ''c.wifi''])]"

definition demo_global :: json where
  "demo_global = JObj [(ALL_GLOBAL_CONSTRAINTS, JArr [JStr ''c.usb'']), (''c.usb'', JArr [JStr ''100'', JStr ''101''])]"

definition demo_specific :: json where
  "demo_specific = JObj [(''101'', JObj [(ALL_SPECIFIC_CONSTRAINTS, JArr [JStr ''c.sms'']),
     (''c.sms'', JArr [JStr ''100''])])]"

definition demo_fs :: fs_state where
  "demo_fs = put_file base_path (Some (ref_print demo_base))
     (put_file global_path (Some (ref_print demo_global))
     (put_file specific_path (Some (ref_print demo_specific)) empty_fs))"

lemma ref_file_json:
  assumes "fs_files fs path = Some (ref_print j)" and "json_wf j"
  shows "file_json os_ref_env path fs = Some j"
  using assms pack_then_create(3) [of os_ref_env j]
  by (simp add: file_json_def PackJsonToString_def os_ref_env_def ref_lib_ok)

lemma demo_json:
  "file_json os_ref_env base_path demo_fs = Some demo_base"
  "file_json os_ref_env global_path demo_fs = Some demo_global"
  "file_json os_ref_env specific_path demo_fs = Some demo_specific"
  by (rule ref_file_json; simp add: demo_fs_def demo_base_def demo_global_def demo_specific_def key_defs)+

lemma demo_global_inv: "global_inv demo_global" "global_rel demo_global = {(''c.usb'', ''100''), (''c.usb'', ''101'')}"
  by (auto simp: global_inv_def global_rel_def table_inv_def sources_def demo_global_def obj_ok_def strs_def
      global_reserved_def key_defs split: if_splits)

lemma demo_specific_inv: "specific_file_inv demo_specific"
  by (auto simp: specific_file_inv_def specific_inv_def table_inv_def demo_specific_def obj_ok_def strs_def
      specific_reserved_def no_empty_def key_defs split: if_splits)

lemma demo_base_ok: "obj_ok demo_base"
  by (simp add: obj_ok_def demo_base_def)

theorem global_update_witness:
  "\<exists>j'. file_json os_ref_env global_path
      (snd (UpdateGlobalOAConstraints os_ref_env ''100'' [''c.usb''] False demo_fs)) = Some j' \<and> global_inv j'"
  using global_update_refines [OF os_ref_env_ok(1) demo_json(2) demo_global_inv(1),
      of "[''c.usb'']" "''100''" False, OF _ _ prod.collapse [symmetric]]
  by (auto simp: global_name_def key_defs)

lemma demo_sizes:
  "length (ref_print demo_base) \<le> MAX_FILE_SIZE" "length (ref_print demo_global) \<le> MAX_FILE_SIZE"
  "length (ref_print demo_specific) \<le> MAX_FILE_SIZE"
  by (simp_all add: demo_base_def demo_global_def demo_specific_def key_defs ref_str_def MAX_FILE_SIZE_def)

lemma path_not_Nil [simp]: "base_path \<noteq> []" "global_path \<noteq> []" "specific_path \<noteq> []"
  by (simp_all add: path_defs)

lemma demo_files:
  "fs_files demo_fs base_path = Some (ref_print demo_base)"
  "fs_files demo_fs global_path = Some (ref_print demo_global)"
  "fs_files demo_fs specific_path = Some (ref_print demo_specific)"
  by (simp_all add: demo_fs_def)

definition demo_global' :: json where
  "demo_global' = JObj [(ALL_GLOBAL_CONSTRAINTS, JArr [JStr ''c.usb'']), (''c.usb'', JArr [JStr ''101''])]"

lemma ref_pack [simp]: "PackJsonToString os_ref_env (Some j) = ref_print j"
  by (simp add: PackJsonToString_def os_ref_env_def)

lemma ref_create: "json_wf j \<Longrightarrow> CreateJsonFromString os_ref_env (ref_print j) = Some j"
  using pack_then_create(3) [of os_ref_env j] by simp

theorem global_survives_witness:
  "\<exists>fs1 l fs2. UpdateGlobalOAConstraints os_ref_env ''100'' [''c.usb''] False demo_fs = (ERR_OK, fs1)
     \<and> GetGlobalOAConstraintsList os_ref_env fs1 = ((ERR_OK, l), fs2) \<and> ''c.usb'' \<in> set l"
proof -
  have op: "GlobalConstraintsDataOperate ''100'' [''c.usb''] False (Some demo_global) = Some demo_global'"
    by code_simp
  have wf: "json_wf demo_global" "json_wf demo_global'"
    by (simp_all add: demo_global_def demo_global'_def key_defs)
  obtain fs1 where u: "UpdateGlobalOAConstraints os_ref_env ''100'' [''c.usb''] False demo_fs = (ERR_OK, fs1)"
    and c: "fs_files fs1 global_path = Some (ref_print demo_global')"
    using quiet_rmw [OF os_ref_env_ok(2) path_not_Nil(2) demo_files(2) demo_sizes(2)] op ref_create [OF wf(1)]
    unfolding UpdateGlobal_rmw by (metis ref_pack)
  have "length (ref_print demo_global') \<le> MAX_FILE_SIZE"
    by (simp add: demo_global'_def key_defs ref_str_def MAX_FILE_SIZE_def)
  from quiet_list_query [OF os_ref_env_ok(2) path_not_Nil(2) c this ref_create [OF wf(2)]]
  obtain l fs2 where q: "GetGlobalOAConstraintsList os_ref_env fs1 = ((ERR_OK, l), fs2)"
    unfolding list_queries by (fastforce simp: demo_global'_def)
  have "''c.usb'' \<in> set l"
    by (rule global_constraint_survives [OF os_ref_env_ok(1) demo_json(2) demo_global_inv(1) _ _ _ _ u q, of _ "''101''"])
      (simp_all add: demo_global_inv global_name_def key_defs)
  with u q show ?thesis by blast
qed

theorem base_update_witness:
  "\<exists>j'. file_json os_ref_env base_path
      (snd (UpdateBaseOAConstraints os_ref_env ''100'' [''c.sms''] True demo_fs)) = Some j' \<and> obj_ok j'"
  using base_update_spec [OF os_ref_env_ok(1) demo_json(1) demo_base_ok, of "''100''" "[''c.sms'']" True,
      OF _ _ prod.collapse [symmetric]]
  by auto

theorem specific_update_witness:
  "\<exists>j'. file_json os_ref_env specific_path
      (snd (UpdateSpecificOAConstraints os_ref_env ''100'' ''102'' [''c.sms''] True demo_fs)) = Some j' \<and> specific_file_inv j'"
  using specific_update_refines [OF os_ref_env_ok(1) demo_json(3) demo_specific_inv, of "''102''" "[''c.sms'']" "''100''" True,
      OF _ _ _ prod.collapse [symmetric]]
  by (auto simp: specific_name_def key_defs)

theorem removed_account_witness:
  "\<exists>fs' jg'. RemoveOAConstraintsInfo os_ref_env 100 demo_fs = (ERR_OK, fs')
     \<and> file_json os_ref_env global_path fs' = Some jg' \<and> global_rel jg' = {(''c.usb'', ''101'')}"
proof -
  obtain fs1 where 1: "RemoveOABaseConstraintsInfo os_ref_env 100 demo_fs = (ERR_OK, fs1)"
    "fs_files fs1 global_path = Some (ref_print demo_global)"
    "fs_files fs1 specific_path = Some (ref_print demo_specific)"
    using quiet_rmw [OF os_ref_env_ok(2) path_not_Nil(1) demo_files(1) demo_sizes(1)] demo_files(2,3)
    unfolding remove_rmw by (metis distinct_paths)
  obtain fs2 where 2: "RemoveOAGlobalConstraintsInfo os_ref_env 100 fs1 = (ERR_OK, fs2)"
    "fs_files fs2 specific_path = Some (ref_print demo_specific)"
    using quiet_rmw [OF os_ref_env_ok(2) path_not_Nil(2) 1(2) demo_sizes(2)] 1(3)
    unfolding RemoveGlobal_rmw by (metis distinct_paths)
  obtain fs' where 3: "RemoveOASpecificConstraintsInfo os_ref_env 100 fs2 = (ERR_OK, fs')"
    using quiet_rmw [OF os_ref_env_ok(2) path_not_Nil(3) 2(2) demo_sizes(3)] unfolding remove_rmw by metis
  have u: "RemoveOAConstraintsInfo os_ref_env 100 demo_fs = (ERR_OK, fs')"
    by (simp add: RemoveOAConstraintsInfo_def 1 2 3)
  have "to_string_int 100 = ''100''" by code_simp
  then have "{(c, s) \<in> global_rel demo_global. s \<noteq> to_string_int 100} = {(''c.usb'', ''101'')}"
    by (auto simp: demo_global_inv)
  with removed_account_leaves_no_trace [OF os_ref_env_ok(1) u demo_json(1) demo_base_ok demo_json(2)
      demo_global_inv(1) demo_json(3) demo_specific_inv] u
  show ?thesis by auto
qed

theorem unparsable_constraints_witness:
  "\<exists>fs'. UpdateBaseOAConstraints os_ref_env ''100'' [''c.sms''] True (put_file base_path (Some ''x'') empty_fs)
      = (ERR_OK, fs') \<and> fs_files fs' base_path = Some []"
proof -
  have "CreateJsonFromString os_ref_env ''x'' = None" by code_simp
  then show ?thesis
    by (intro unparsable_constraints_lost [of _ _ "''x''"]) (simp_all add: MAX_FILE_SIZE_def)
qed

end
