(* ===== verification/Os_Account_Ids.thy ===== *)
theory Os_Account_Ids
  imports Os_Account_Constraints
begin

text \<open>
  The account list of the OS account manager (the list part of
  \<open>os_account_control_file_manager.cpp\<close>): which local ids exist, which id and serial number a new
  account gets, and which account is activated by default on a display. The search for a serial number takes the
  serial numbers of the accounts as an argument, and
  \<open>InsertOsAccount\<close> and \<open>UpdateOsAccount\<close> take the local id and the text of the account; the
  account record itself is not modelled here. Local ids are below \<open>2^31\<close>, so integers stand for them.
\<close>

definition ACCOUNT_LIST :: string where "ACCOUNT_LIST = ''AccountList''"
definition COUNT_ACCOUNT_NUM :: string where "COUNT_ACCOUNT_NUM = ''CountAccountNum''"
definition NEXT_LOCAL_ID :: string where "NEXT_LOCAL_ID = ''NextLocalId''"
definition SERIAL_NUMBER_NUM :: string where "SERIAL_NUMBER_NUM = ''SerialNumber''"
definition IS_SERIAL_NUMBER_FULL :: string where "IS_SERIAL_NUMBER_FULL = ''isSerialNumberFull''"
definition DEFAULT_ACTIVATED_ACCOUNT_ID :: string where "DEFAULT_ACTIVATED_ACCOUNT_ID = ''DefaultActivatedAccountID''"

lemmas list_key_defs = ACCOUNT_LIST_def COUNT_ACCOUNT_NUM_def NEXT_LOCAL_ID_def SERIAL_NUMBER_NUM_def
  IS_SERIAL_NUMBER_FULL_def DEFAULT_ACTIVATED_ACCOUNT_ID_def

definition ADMIN_LOCAL_ID :: int where "ADMIN_LOCAL_ID = 0"
definition START_USER_ID :: int where "START_USER_ID = 100"
definition MAX_USER_ID :: int where "MAX_USER_ID = 10736"
definition MAX_CREATABLE_USER_ID :: int where "MAX_CREATABLE_USER_ID = 999"
definition MAX_USER_ID_LENGTH :: nat where "MAX_USER_ID_LENGTH = 4"
definition SERIAL_NUMBER_NUM_START_FOR_ADMIN :: int where "SERIAL_NUMBER_NUM_START_FOR_ADMIN = 20210231"
definition SERIAL_NUMBER_NUM_START :: int where "SERIAL_NUMBER_NUM_START = 1"
definition CARRY_NUM :: int where "CARRY_NUM = 100000000"

lemmas id_defs = ADMIN_LOCAL_ID_def START_USER_ID_def MAX_USER_ID_def MAX_CREATABLE_USER_ID_def
  MAX_USER_ID_LENGTH_def SERIAL_NUMBER_NUM_START_FOR_ADMIN_def SERIAL_NUMBER_NUM_START_def CARRY_NUM_def

section \<open>The list of accounts\<close>

text \<open>A directory name of at most four digits read as a local id.\<close>

definition GetValidAccountID :: "string \<Rightarrow> int option" where
  "GetValidAccountID dirName =
     (if dirName = [] \<or> length dirName > MAX_USER_ID_LENGTH \<or> list_ex (\<lambda>c. \<not> is_digit c) dirName then None
      else let accountID = int (dec_val dirName) in
           if accountID \<ge> ADMIN_LOCAL_ID \<and> accountID \<le> MAX_USER_ID then Some accountID else None)"

definition GetOsAccountIdList :: "'z os_env_scheme \<Rightarrow> fs_state \<Rightarrow> (ErrCode \<times> int list) \<times> fs_state" where
  "GetOsAccountIdList E fs =
     (let ((errCode, j), fs1) = GetAccountListFromFile E fs in
      if errCode \<noteq> ERR_OK then ((errCode, []), fs1)
      else ((errCode, List.map_filter (StrToInt E) (get_strings j ACCOUNT_LIST)), fs1))"

definition UpdateAccountList :: "'z os_env_scheme \<Rightarrow> string \<Rightarrow> bool \<Rightarrow> fs_state \<Rightarrow> ErrCode \<times> fs_state" where
  "UpdateAccountList E idStr isAdd fs =
     (let ((result, j), fs1) = GetAccountListFromFile E fs in
      if result \<noteq> ERR_OK then (result, fs1)
      else let accountIdList = get_strings j ACCOUNT_LIST in
        if isAdd \<and> idStr \<in> set accountIdList then (ERR_OK, fs1)
        else let accountIdList = (if isAdd then accountIdList @ [idStr] else removeAll idStr accountIdList);
                 (ok, j1) = AddVectorStringToJson j ACCOUNT_LIST accountIdList in
             if \<not> ok then (ERR_ACCOUNT_COMMON_DUMP_JSON_ERROR, fs1)
             else let (ok, j2) = AddIntToJson j1 COUNT_ACCOUNT_NUM (int (length accountIdList)) in
                  if \<not> ok then (ERR_ACCOUNT_COMMON_DUMP_JSON_ERROR, fs1)
                  else SaveAccountListToFileAndDataBase E j2 fs1)"

definition account_path :: "string \<Rightarrow> string" where
  "account_path primeKey = USER_INFO_BASE @ ''/'' @ primeKey @ ''/account_info.json''"

definition InsertOsAccount :: "'z os_env_scheme \<Rightarrow> int \<Rightarrow> string \<Rightarrow> fs_state \<Rightarrow> ErrCode \<times> fs_state" where
  "InsertOsAccount E localId accountInfoStr fs =
     (if localId < ADMIN_LOCAL_ID then (ERR_OSACCOUNT_SERVICE_CONTROL_ID_CANNOT_CREATE_ERROR, fs)
      else let primeKey = to_string_int localId;
               path = account_path primeKey;
               (ready, fs1) = IsJsonFileReady E path fs in
        if ready then (ERR_OSACCOUNT_SERVICE_CONTROL_INSERT_FILE_EXISTS_ERROR, fs1)
        else if accountInfoStr = [] then (ERR_OSACCOUNT_SERVICE_ACCOUNT_INFO_EMPTY_ERROR, fs1)
        else let (updateRet, fs2) =
               (if localId \<ge> START_USER_ID then UpdateAccountList E primeKey True fs1 else (ERR_OK, fs1)) in
             if updateRet \<noteq> ERR_OK then (updateRet, fs2)
             else InputFileByPathAndContent E path accountInfoStr fs2)"

definition DelOsAccount :: "'z os_env_scheme \<Rightarrow> int \<Rightarrow> fs_state \<Rightarrow> ErrCode \<times> fs_state" where
  "DelOsAccount E i fs =
     (if i \<le> START_USER_ID \<or> i > MAX_USER_ID then (ERR_OSACCOUNT_SERVICE_CONTROL_CANNOT_DELETE_ID_ERROR, fs)
      else let (result, fs1) = DeleteDirOrFile E (USER_INFO_BASE @ ''/'' @ to_string_int i) fs in
           if result \<noteq> ERR_OK then (result, fs1) else UpdateAccountList E (to_string_int i) False fs1)"

definition UpdateOsAccount :: "'z os_env_scheme \<Rightarrow> int \<Rightarrow> string \<Rightarrow> fs_state \<Rightarrow> ErrCode \<times> fs_state" where
  "UpdateOsAccount E localId accountInfoStr fs =
     (let path = account_path (to_string_int localId);
          (ex, fs1) = IsExistFile E path fs in
      if \<not> ex then (ERR_OSACCOUNT_SERVICE_CONTROL_UPDATE_FILE_NOT_EXISTS_ERROR, fs1)
      else if accountInfoStr = [] then (ERR_OSACCOUNT_SERVICE_ACCOUNT_INFO_EMPTY_ERROR, fs1)
      else InputFileByPathAndContent E path accountInfoStr fs1)"

section \<open>New local ids\<close>

text \<open>The search of \<open>GetNextLocalId\<close>, with its counter of tried ids.\<close>

function next_id_loop :: "string list \<Rightarrow> int \<Rightarrow> int \<Rightarrow> int" where
  "next_id_loop accountIdList startId searchCount =
     (if to_string_int startId \<notin> set accountIdList then startId
      else let startId' = (if startId + 1 > MAX_CREATABLE_USER_ID then START_USER_ID + 1 else startId + 1);
               searchCount' = searchCount + 1 in
           if searchCount' \<ge> MAX_CREATABLE_USER_ID - START_USER_ID then MAX_CREATABLE_USER_ID + 1
           else next_id_loop accountIdList startId' searchCount')"
  by pat_completeness auto
termination
  by (relation "measure (\<lambda>(_, _, searchCount). nat (MAX_CREATABLE_USER_ID - START_USER_ID - searchCount))")
    (auto simp: id_defs)

declare next_id_loop.simps [simp del]

definition GetNextLocalId :: "string list \<Rightarrow> int \<Rightarrow> int" where
  "GetNextLocalId accountIdList startId =
     next_id_loop accountIdList
       (if startId \<le> START_USER_ID \<or> startId > MAX_CREATABLE_USER_ID then START_USER_ID + 1 else startId) 0"

definition GetAllowCreateId :: "'z os_env_scheme \<Rightarrow> int \<Rightarrow> fs_state \<Rightarrow> (ErrCode \<times> int) \<times> fs_state" where
  "GetAllowCreateId E i fs =
     (let ((result, j), fs1) = GetAccountListFromFile E fs in
      if result \<noteq> ERR_OK then ((result, i), fs1)
      else let (ok, accountIdList) = GetVectorStringFromJson j ACCOUNT_LIST [] in
        if \<not> ok then ((ERR_ACCOUNT_COMMON_BAD_JSON_FORMAT_ERROR, i), fs1)
        else let nextLocalId =
               (case GetIntFromJson j NEXT_LOCAL_ID of Some n \<Rightarrow> n
                | None \<Rightarrow> if accountIdList = [] then START_USER_ID + 1
                          else (case StrToInt E (last accountIdList) of
                                  Some lastLocalId \<Rightarrow> lastLocalId + 1 | None \<Rightarrow> START_USER_ID + 1));
                 newId = GetNextLocalId accountIdList nextLocalId in
             if newId > MAX_CREATABLE_USER_ID
             then ((ERR_OSACCOUNT_SERVICE_CONTROL_MAX_CAN_CREATE_ERROR, newId), fs1)
             else let (ok, j1) = AddIntToJson j NEXT_LOCAL_ID (newId + 1) in
                  if \<not> ok then ((ERR_ACCOUNT_COMMON_DUMP_JSON_ERROR, newId), fs1)
                  else let (result, fs2) = SaveAccountListToFileAndDataBase E j1 fs1 in ((result, newId), fs2))"

definition SetNextLocalId :: "'z os_env_scheme \<Rightarrow> int \<Rightarrow> fs_state \<Rightarrow> ErrCode \<times> fs_state" where
  "SetNextLocalId E nextLocalId fs =
     (let ((result, j), fs1) = GetAccountListFromFile E fs in
      if result \<noteq> ERR_OK then (result, fs1)
      else let nextLocalIdJson = (case GetIntFromJson j NEXT_LOCAL_ID of Some n \<Rightarrow> n | None \<Rightarrow> START_USER_ID + 1);
               (ok, j1) = AddIntToJson j NEXT_LOCAL_ID (max nextLocalId nextLocalIdJson) in
           if \<not> ok then (ERR_ACCOUNT_COMMON_DUMP_JSON_ERROR, fs1)
           else SaveAccountListToFileAndDataBase E j1 fs1)"

section \<open>Serial numbers\<close>

text \<open>The parameter is an \<open>int\<close>, to which the caller's 64 bit number is converted.\<close>

definition AccountExistsWithSerialNumber :: "int list \<Rightarrow> int \<Rightarrow> bool" where
  "AccountExistsWithSerialNumber osAccountInfos serialNumber =
     list_ex (\<lambda>s. s = SERIAL_NUMBER_NUM_START_FOR_ADMIN * CARRY_NUM + sint (word_of_int serialNumber :: 32 word)) osAccountInfos"

lemma serial_fits: "0 \<le> s \<Longrightarrow> s < CARRY_NUM \<Longrightarrow> sint (word_of_int s :: 32 word) = s"
  by (simp add: CARRY_NUM_def sint_sbintrunc' signed_take_bit_int_eq_self)

text \<open>The \<open>while\<close> loop, which need not end; \<open>None\<close> is running forever.\<close>

partial_function (option) serial_loop :: "int list \<Rightarrow> int \<Rightarrow> int option" where
  "serial_loop osAccountInfos serialNumber =
     (if serialNumber < CARRY_NUM
      then (if \<not> AccountExistsWithSerialNumber osAccountInfos serialNumber then Some serialNumber
            else serial_loop osAccountInfos
                   (if serialNumber + 1 = CARRY_NUM then SERIAL_NUMBER_NUM_START else serialNumber + 1))
      else Some serialNumber)"

section \<open>The account activated by default\<close>

text \<open>A display id is a \<open>uint64_t\<close>; older files hold one number instead of an object per display.\<close>

definition SetDefaultActivatedOsAccount :: "'z os_env_scheme \<Rightarrow> nat \<Rightarrow> int \<Rightarrow> fs_state \<Rightarrow> ErrCode \<times> fs_state" where
  "SetDefaultActivatedOsAccount E displayId i fs =
     (let ((result, j), fs1) = GetAccountListFromFile E fs in
      if result \<noteq> ERR_OK then (result, fs1)
      else let (isObj, child) = GetObjFromJson j DEFAULT_ACTIVATED_ACCOUNT_ID None in
        if isObj
        then let (ok, child1) = AddIntToJson child (to_string_nat displayId) i in
             if \<not> ok then (ERR_ACCOUNT_COMMON_DUMP_JSON_ERROR, fs1)
             else SaveAccountListToFileAndDataBase E
               (case (j, child1) of (Some t, Some c) \<Rightarrow> Some (obj_replace t DEFAULT_ACTIVATED_ACCOUNT_ID c) | _ \<Rightarrow> j) fs1
        else (case GetIntFromJson j DEFAULT_ACTIVATED_ACCOUNT_ID of
            None \<Rightarrow> (ERR_ACCOUNT_COMMON_BAD_JSON_FORMAT_ERROR, fs1)
          | Some tmpId \<Rightarrow>
              let (ok1, tmp1) = (if displayId \<noteq> 0 then AddIntToJson CreateJson (to_string_nat 0) tmpId
                                 else (True, CreateJson)) in
              if \<not> ok1 then (ERR_ACCOUNT_COMMON_DUMP_JSON_ERROR, fs1)
              else let (ok2, tmp2) = AddIntToJson tmp1 (to_string_nat displayId) i in
                if \<not> ok2 then (ERR_ACCOUNT_COMMON_DUMP_JSON_ERROR, fs1)
                else let (ok3, j1) = AddObjToJson j DEFAULT_ACTIVATED_ACCOUNT_ID tmp2 in
                  if \<not> ok3 then (ERR_ACCOUNT_COMMON_DUMP_JSON_ERROR, fs1)
                  else SaveAccountListToFileAndDataBase E j1 fs1))"

definition GetDefaultActivatedOsAccount :: "'z os_env_scheme \<Rightarrow> nat \<Rightarrow> int \<Rightarrow> fs_state \<Rightarrow> (ErrCode \<times> int) \<times> fs_state" where
  "GetDefaultActivatedOsAccount E displayId i fs =
     (let ((result, j), fs1) = GetAccountListFromFile E fs in
      if result \<noteq> ERR_OK then ((result, i), fs1)
      else let (isObj, child) = GetObjFromJson j DEFAULT_ACTIVATED_ACCOUNT_ID None in
        if \<not> isObj
        then (if displayId \<noteq> 0 then ((ERR_ACCOUNT_COMMON_DISPLAY_ID_NOT_EXIST_ERROR, i), fs1)
              else ((ERR_OK, case GetIntFromJson j DEFAULT_ACTIVATED_ACCOUNT_ID of None \<Rightarrow> i | Some n \<Rightarrow> n), fs1))
        else (case GetIntFromJson child (to_string_nat displayId) of
                None \<Rightarrow> ((ERR_ACCOUNT_COMMON_DISPLAY_ID_NOT_EXIST_ERROR, i), fs1)
              | Some n \<Rightarrow> ((ERR_OK, n), fs1)))"


section \<open>Searching a ring of numbers\<close>

text \<open>Steps from \<open>s\<close> up to \<open>f\<close> on the ring \<open>lo .. hi\<close>.\<close>

definition ring_dist :: "int \<Rightarrow> int \<Rightarrow> int \<Rightarrow> int \<Rightarrow> int" where
  "ring_dist lo hi f s = (if s \<le> f then f - s else f - s + (hi - lo + 1))"

lemma ring_dist_bounds:
  "lo \<le> s \<Longrightarrow> s \<le> hi \<Longrightarrow> lo \<le> f \<Longrightarrow> f \<le> hi \<Longrightarrow> 0 \<le> ring_dist lo hi f s \<and> ring_dist lo hi f s \<le> hi - lo"
  by (simp add: ring_dist_def)

lemma ring_dist_step:
  "lo \<le> s \<Longrightarrow> s \<le> hi \<Longrightarrow> lo \<le> f \<Longrightarrow> f \<le> hi \<Longrightarrow> s \<noteq> f \<Longrightarrow>
   ring_dist lo hi f (if s + 1 > hi then lo else s + 1) = ring_dist lo hi f s - 1"
  by (simp add: ring_dist_def)

lemma next_id_loop_finds:
  assumes "101 \<le> s" and "s \<le> 999" and "101 \<le> f" and "f \<le> 999" and "to_string_int f \<notin> set ids"
    and "n + ring_dist 101 999 f s < 899"
  shows "101 \<le> next_id_loop ids s n \<and> next_id_loop ids s n \<le> 999 \<and> to_string_int (next_id_loop ids s n) \<notin> set ids"
  using assms
proof (induction ids s n rule: next_id_loop.induct)
  case (1 ids s n)
  show ?case
  proof (cases "to_string_int s \<notin> set ids")
    case True
    with 1(2,3) show ?thesis by (simp add: next_id_loop.simps [of ids s n])
  next
    case False
    let ?s = "if s + 1 > 999 then 101 else s + 1"
    have "s \<noteq> f" using False 1(6) by auto
    then have d: "ring_dist 101 999 f ?s = ring_dist 101 999 f s - 1"
      using 1(2-5) by (intro ring_dist_step) auto
    have s: "101 \<le> ?s" "?s \<le> 999" using 1(2,3) by auto
    have "0 \<le> ring_dist 101 999 f ?s" using ring_dist_bounds [OF s 1(4,5)] by simp
    then have n: "n + 1 < 899" "n + 1 + ring_dist 101 999 f ?s < 899" using d 1(7) by auto
    have "101 \<le> next_id_loop ids ?s (n + 1) \<and> next_id_loop ids ?s (n + 1) \<le> 999
        \<and> to_string_int (next_id_loop ids ?s (n + 1)) \<notin> set ids"
      using 1(1) [OF False refl refl, unfolded id_defs] n s 1(4-6) by (simp cong: if_cong)
    moreover have "next_id_loop ids s n = next_id_loop ids ?s (n + 1)"
      using False n(1) by (simp add: next_id_loop.simps [of ids s n] id_defs Let_def)
    ultimately show ?thesis by simp
  qed
qed

lemma next_id_loop_none:
  assumes "\<forall>f. 101 \<le> f \<and> f \<le> 999 \<longrightarrow> to_string_int f \<in> set ids" and "101 \<le> s" and "s \<le> 999"
  shows "next_id_loop ids s n = 1000"
  using assms
proof (induction ids s n rule: next_id_loop.induct)
  case (1 ids s n)
  have occ: "\<not> to_string_int s \<notin> set ids" using 1 by auto
  show ?case
  proof (cases "n + 1 \<ge> 899")
    case True
    with occ show ?thesis by (simp add: next_id_loop.simps [of ids s n] id_defs)
  next
    case False
    with 1(1) [OF occ refl refl] 1(2-4) occ show ?thesis
      by (simp add: next_id_loop.simps [of ids s n] id_defs Let_def)
  qed
qed

lemma next_local_id:
  shows "if \<exists>f. 101 \<le> f \<and> f \<le> 999 \<and> to_string_int f \<notin> set ids
    then 101 \<le> GetNextLocalId ids start \<and> GetNextLocalId ids start \<le> 999
         \<and> to_string_int (GetNextLocalId ids start) \<notin> set ids
    else GetNextLocalId ids start = 1000"
proof -
  let ?s = "if start \<le> START_USER_ID \<or> start > MAX_CREATABLE_USER_ID then START_USER_ID + 1 else start"
  have s: "101 \<le> ?s" "?s \<le> 999" by (auto simp: id_defs)
  show ?thesis
  proof (cases "\<exists>f. 101 \<le> f \<and> f \<le> 999 \<and> to_string_int f \<notin> set ids")
    case True
    then obtain f where f: "101 \<le> f" "f \<le> 999" "to_string_int f \<notin> set ids" by blast
    have "0 + ring_dist 101 999 f ?s < 899" using ring_dist_bounds [OF s f(1,2)] by simp
    from next_id_loop_finds [OF s f this] True show ?thesis by (simp add: GetNextLocalId_def)
  next
    case False
    with next_id_loop_none [OF _ s, of ids 0] show ?thesis by (auto simp: GetNextLocalId_def)
  qed
qed

text \<open>
  Whatever the stored next id is, \<open>GetNextLocalId\<close> ends, and it returns an id from 101
  to 999 that no account has whenever there is one, and 1000, the failure value, only when all are taken.
\<close>

theorem next_local_id_correct:
  shows "if \<exists>f. 101 \<le> f \<and> f \<le> 999 \<and> to_string_int f \<notin> set ids
    then 101 \<le> GetNextLocalId ids start \<and> GetNextLocalId ids start \<le> 999
         \<and> to_string_int (GetNextLocalId ids start) \<notin> set ids
    else GetNextLocalId ids start = 1000"
  by (rule next_local_id)

lemma serial_loop_finds:
  assumes "1 \<le> s" and "s < CARRY_NUM" and "1 \<le> f" and "f < CARRY_NUM" and "\<not> AccountExistsWithSerialNumber infos f"
  shows "\<exists>y. serial_loop infos s = Some y \<and> 1 \<le> y \<and> y < CARRY_NUM \<and> \<not> AccountExistsWithSerialNumber infos y"
  using assms(1,2)
proof (induction "nat (ring_dist 1 (CARRY_NUM - 1) f s)" arbitrary: s rule: less_induct)
  case less
  show ?case
  proof (cases "AccountExistsWithSerialNumber infos s")
    case False
    with less.prems show ?thesis by (simp add: serial_loop.simps [of infos s])
  next
    case True
    let ?s = "if s + 1 = CARRY_NUM then SERIAL_NUMBER_NUM_START else s + 1"
    have "s \<noteq> f" using True assms(5) by auto
    have eq: "?s = (if s + 1 > CARRY_NUM - 1 then 1 else s + 1)"
      using less.prems by (auto simp: SERIAL_NUMBER_NUM_START_def)
    have s: "1 \<le> ?s" "?s < CARRY_NUM" using less.prems by (auto simp: id_defs)
    have "ring_dist 1 (CARRY_NUM - 1) f ?s = ring_dist 1 (CARRY_NUM - 1) f s - 1"
      unfolding eq using less.prems assms(3,4) \<open>s \<noteq> f\<close> by (intro ring_dist_step) auto
    moreover have "0 \<le> ring_dist 1 (CARRY_NUM - 1) f ?s"
      using ring_dist_bounds [of 1 ?s "CARRY_NUM - 1" f] s assms(3,4) by auto
    ultimately have "nat (ring_dist 1 (CARRY_NUM - 1) f ?s) < nat (ring_dist 1 (CARRY_NUM - 1) f s)" by simp
    from less.hyps [OF this s] show ?thesis
      using True less.prems by (simp add: serial_loop.simps [of infos s])
  qed
qed

lemma free_serial:
  assumes "int (length infos) < CARRY_NUM - 1"
  shows "\<exists>f. 1 \<le> f \<and> f < CARRY_NUM \<and> \<not> AccountExistsWithSerialNumber infos f"
proof (rule ccontr)
  assume "\<not> ?thesis"
  then have "(\<lambda>f. SERIAL_NUMBER_NUM_START_FOR_ADMIN * CARRY_NUM + f) ` {1..<CARRY_NUM} \<subseteq> set infos"
    by (intro image_subsetI) (auto simp: AccountExistsWithSerialNumber_def list_ex_iff serial_fits)
  then have "card ((\<lambda>f. SERIAL_NUMBER_NUM_START_FOR_ADMIN * CARRY_NUM + f) ` {1..<CARRY_NUM}) \<le> length infos"
    by (meson List.finite_set card_length card_mono order.trans)
  moreover have "card ((\<lambda>f. SERIAL_NUMBER_NUM_START_FOR_ADMIN * CARRY_NUM + f) ` {1..<CARRY_NUM}) = nat (CARRY_NUM - 1)"
    by (subst card_image) (auto simp: inj_on_def)
  ultimately show False using assms by simp
qed


section \<open>The stored list\<close>

abbreviation "list_path \<equiv> ACCOUNT_LIST_FILE_JSON_PATH"

lemma list_keys [simp]:
  "good_key ACCOUNT_LIST" "good_key COUNT_ACCOUNT_NUM" "good_key NEXT_LOCAL_ID" "good_key SERIAL_NUMBER_NUM"
  "good_key IS_SERIAL_NUMBER_FULL" "good_key DEFAULT_ACTIVATED_ACCOUNT_ID"
  "ACCOUNT_LIST \<noteq> COUNT_ACCOUNT_NUM" "COUNT_ACCOUNT_NUM \<noteq> ACCOUNT_LIST" "NEXT_LOCAL_ID \<noteq> ACCOUNT_LIST"
  "ACCOUNT_LIST \<noteq> NEXT_LOCAL_ID"
  by (simp_all add: list_key_defs)

lemma AddInt_put: "good_key k \<Longrightarrow> AddIntToJson (Some j) k n = (True, Some (obj_put j k (JNum n)))"
  by (simp add: AddIntToJson_def AddItem_def)

lemma strs_put_other: "is_obj j \<Longrightarrow> k \<noteq> k' \<Longrightarrow> strs (obj_put j k v) k' = strs j k'"
  by (simp add: strs_def obj_item_put)

lemma GetInt_put: "is_obj j \<Longrightarrow> good_key k \<Longrightarrow> GetIntFromJson (Some (obj_put j k (JNum n))) k = Some n"
  by (simp add: GetIntFromJson_def obj_item_put)

lemma list_save:
  assumes "GetAccountListFromFile E fs = ((ERR_OK, x), fs1)" and "\<not> DISTRIBUTED E" and "cjson_ok E" and "json_wf j'"
    and "SaveAccountListToFileAndDataBase E (Some j') fs1 = (r, fs')"
  shows "file_json E list_path fs' = (if r = ERR_OK then Some j' else file_json E list_path fs)"
  using GetAccountList_json [OF assms(1,2)] json_to_file_ok [of E list_path j' fs1 fs']
    json_to_file_err [of E list_path "Some j'" fs1 r fs'] assms(3-5)
  by (auto simp: os_file_defs file_json_def split: if_splits)

lemma GetAccountList_frame: "GetAccountListFromFile E fs = (x, fs1) \<Longrightarrow> fs_files fs1 = fs_files fs"
  using account_files.read_frame [of E list_path fs]
  by (auto simp: GetAccountListFromFile_def Let_def split_beta split: if_splits option.splits)

lemma AllowCreateId_spec:
  assumes "cjson_ok E" and "\<not> DISTRIBUTED E" and "file_json E list_path fs = Some j" and "obj_ok j"
    and "GetAllowCreateId E i fs = ((r, k), fs')"
  shows "(r = ERR_OK \<longrightarrow> 101 \<le> k \<and> k \<le> 999 \<and> to_string_int k \<notin> set (strs j ACCOUNT_LIST)
      \<and> (\<exists>j'. file_json E list_path fs' = Some j' \<and> obj_ok j' \<and> strs j' ACCOUNT_LIST = strs j ACCOUNT_LIST
            \<and> GetIntFromJson (Some j') NEXT_LOCAL_ID = Some (k + 1)))
    \<and> (r \<noteq> ERR_OK \<longrightarrow> file_json E list_path fs' = Some j)"
proof -
  obtain r1 x fs1 where 1: "GetAccountListFromFile E fs = ((r1, x), fs1)" by (metis prod.collapse)
  have f: "file_json E list_path fs1 = Some j"
    using GetAccountList_frame [OF 1] assms(3) by (simp add: file_json_def)
  show ?thesis
  proof (cases "r1 = ERR_OK")
    case False
    with assms(5) f 1 show ?thesis by (auto simp: GetAllowCreateId_def)
  next
    case True
    then have x: "x = Some j" using GetAccountList_json [OF 1 [unfolded True] assms(2)] assms(3) by simp
    obtain ok ids where g: "GetVectorStringFromJson (Some j) ACCOUNT_LIST [] = (ok, ids)" by (metis prod.collapse)
    then have ids: "ids = strs j ACCOUNT_LIST" using GetVector_strs [of ACCOUNT_LIST j] by simp
    define nxt where "nxt = (case GetIntFromJson (Some j) NEXT_LOCAL_ID of Some n \<Rightarrow> n
      | None \<Rightarrow> if ids = [] then START_USER_ID + 1
                else (case StrToInt E (last ids) of Some l \<Rightarrow> l + 1 | None \<Rightarrow> START_USER_ID + 1))"
    let ?k = "GetNextLocalId ids nxt" let ?j = "obj_put j NEXT_LOCAL_ID (JNum (?k + 1))"
    have eq: "((r, k), fs') = (if \<not> ok then ((ERR_ACCOUNT_COMMON_BAD_JSON_FORMAT_ERROR, i), fs1)
        else if ?k > MAX_CREATABLE_USER_ID then ((ERR_OSACCOUNT_SERVICE_CONTROL_MAX_CAN_CREATE_ERROR, ?k), fs1)
        else let (result, fs2) = SaveAccountListToFileAndDataBase E (Some ?j) fs1 in ((result, ?k), fs2))"
      using assms(5) [symmetric]
      by (cases ok) (simp_all add: GetAllowCreateId_def 1 True x g nxt_def AddInt_put Let_def)
    show ?thesis
    proof (cases "ok \<and> ?k \<le> MAX_CREATABLE_USER_ID")
      case False
      with eq f show ?thesis by (auto split: if_splits)
    next
      case k: True
      then have range: "101 \<le> ?k" "?k \<le> 999" "to_string_int ?k \<notin> set ids"
        using next_local_id [of ids nxt] by (auto simp: id_defs split: if_splits)
      have ok': "obj_ok ?j" using assms(4) range by (intro obj_ok_put) auto
      obtain r2 fs2 where s: "SaveAccountListToFileAndDataBase E (Some ?j) fs1 = (r2, fs2)" by (metis prod.collapse)
      with eq k have e: "r = r2" "k = ?k" "fs' = fs2" by (auto simp: Let_def)
      from list_save [OF 1 [unfolded True] assms(2,1) obj_ok_wf [OF ok'] s] e ok' range assms(3,4)
      show ?thesis by (auto simp: ids strs_put_other GetInt_put)
    qed
  qed
qed

text \<open>
  C35 (functional). \<open>GetAllowCreateId\<close> hands out an id between 101 and 999 that is not in the account
  list and stores its successor as the next candidate without touching the list; when it fails, the
  stored list is unchanged.
\<close>

theorem allow_create_id_fresh:
  assumes "cjson_ok E" and "\<not> DISTRIBUTED E" and "file_json E list_path fs = Some j" and "obj_ok j"
    and "GetAllowCreateId E i fs = ((r, k), fs')"
  shows "(r = ERR_OK \<longrightarrow> 101 \<le> k \<and> k \<le> 999 \<and> to_string_int k \<notin> set (strs j ACCOUNT_LIST)
      \<and> (\<exists>j'. file_json E list_path fs' = Some j' \<and> obj_ok j' \<and> strs j' ACCOUNT_LIST = strs j ACCOUNT_LIST
            \<and> GetIntFromJson (Some j') NEXT_LOCAL_ID = Some (k + 1)))
    \<and> (r \<noteq> ERR_OK \<longrightarrow> file_json E list_path fs' = Some j)"
  using assms by (rule AllowCreateId_spec)

text \<open>
  \<open>GetSerialNumber\<close> does not hang: with fewer than \<open>CARRY_NUM - 1\<close>
  accounts the search for a serial number ends, from any starting value in range, with a number in range that no
  account has.
\<close>

theorem serial_search_ends:
  assumes "int (length infos) < CARRY_NUM - 1" and "1 \<le> s" and "s < CARRY_NUM"
  shows "\<exists>y. serial_loop infos s = Some y \<and> 1 \<le> y \<and> y < CARRY_NUM \<and> \<not> AccountExistsWithSerialNumber infos y"
  using free_serial [OF assms(1)] serial_loop_finds [OF assms(2,3)] by blast

lemma UpdateAccountList_spec:
  assumes "cjson_ok E" and "\<not> DISTRIBUTED E" and "file_json E list_path fs = Some j" and "obj_ok j"
    and "nul_free s" and "length (strs j ACCOUNT_LIST) < 2 ^ 52"
    and "UpdateAccountList E s isAdd fs = (r, fs')"
  shows "\<exists>j'. file_json E list_path fs' = Some j' \<and> obj_ok j' \<and>
     (if r \<noteq> ERR_OK then j' = j
      else strs j' ACCOUNT_LIST = (if \<not> isAdd then removeAll s (strs j ACCOUNT_LIST)
             else if s \<in> set (strs j ACCOUNT_LIST) then strs j ACCOUNT_LIST else strs j ACCOUNT_LIST @ [s])
        \<and> (j' = j \<or> GetIntFromJson (Some j') COUNT_ACCOUNT_NUM = Some (int (length (strs j' ACCOUNT_LIST)))))"
proof -
  obtain r1 x fs1 where 1: "GetAccountListFromFile E fs = ((r1, x), fs1)" by (metis prod.collapse)
  have f: "file_json E list_path fs1 = Some j"
    using GetAccountList_frame [OF 1] assms(3) by (simp add: file_json_def)
  let ?old = "strs j ACCOUNT_LIST" let ?new = "if isAdd then ?old @ [s] else removeAll s ?old"
  let ?j = "obj_put (put_strs j ACCOUNT_LIST ?new) COUNT_ACCOUNT_NUM (JNum (int (length ?new)))"
  show ?thesis
  proof (cases "r1 = ERR_OK \<and> \<not> (isAdd \<and> s \<in> set ?old)")
    case False
    then show ?thesis
    proof (cases "r1 = ERR_OK")
      case True
      then have "x = Some j" using GetAccountList_json [OF 1 [unfolded True] assms(2)] assms(3) by simp
      with False True f assms(4,7) 1 show ?thesis by (auto simp: UpdateAccountList_def)
    next
      case False
      with f assms(4,7) 1 show ?thesis by (auto simp: UpdateAccountList_def)
    qed
  next
    case True
    then have r1: "GetAccountListFromFile E fs = ((ERR_OK, x), fs1)" using 1 by simp
    then have x: "x = Some j" using GetAccountList_json [OF _ assms(2)] assms(3) by metis
    have save: "SaveAccountListToFileAndDataBase E (Some ?j) fs1 = (r, fs')"
      using assms(7) True
      by (cases isAdd) (simp_all add: UpdateAccountList_def 1 x AddVector_strs AddInt_put Let_def)
    have len: "length ?new < 2 ^ 52 + 1"
      using assms(6) le_less_trans [OF length_removeAll_less_eq, of ?old "2 ^ 52 + 1" s] by simp
    have nf: "\<forall>y \<in> set ?new. nul_free y" using assms(5) strs_nul_free [OF assms(4)] by auto
    have okp: "obj_ok (put_strs j ACCOUNT_LIST ?new)" using assms(4) by simp
    then have ok: "obj_ok ?j" using len by (intro obj_ok_put) auto
    have "strs ?j ACCOUNT_LIST = ?new" using okp nf assms(4) by (simp add: strs_put_other)
    moreover have "GetIntFromJson (Some ?j) COUNT_ACCOUNT_NUM = Some (int (length ?new))"
      using okp by (intro GetInt_put) auto
    moreover have "file_json E list_path fs' = (if r = ERR_OK then Some ?j else Some j)"
      using list_save [OF r1 assms(2,1) obj_ok_wf [OF ok] save] assms(3) by simp
    ultimately show ?thesis using ok assms(4) True by (cases "r = ERR_OK") auto
  qed
qed

text \<open>
  Updating the account list adds an id once and removes it completely, keeps the
  other entries in order, and stores the number of entries; an error leaves the stored list unchanged.
\<close>

theorem account_list_update:
  assumes "cjson_ok E" and "\<not> DISTRIBUTED E" and "file_json E list_path fs = Some j" and "obj_ok j"
    and "nul_free s" and "length (strs j ACCOUNT_LIST) < 2 ^ 31"
    and "UpdateAccountList E s isAdd fs = (r, fs')"
  shows "\<exists>j'. file_json E list_path fs' = Some j' \<and> obj_ok j' \<and>
     (if r \<noteq> ERR_OK then j' = j
      else strs j' ACCOUNT_LIST = (if \<not> isAdd then removeAll s (strs j ACCOUNT_LIST)
             else if s \<in> set (strs j ACCOUNT_LIST) then strs j ACCOUNT_LIST else strs j ACCOUNT_LIST @ [s])
        \<and> (j' = j \<or> GetIntFromJson (Some j') COUNT_ACCOUNT_NUM = Some (int (length (strs j' ACCOUNT_LIST)))))"
  using assms by (intro UpdateAccountList_spec) simp_all


section \<open>Default accounts per display\<close>

definition default_of :: "json \<Rightarrow> nat \<Rightarrow> int option" where
  "default_of j d =
     (case obj_item j DEFAULT_ACTIVATED_ACCOUNT_ID of
        Some (JObj kvs) \<Rightarrow> GetIntFromJson (Some (JObj kvs)) (to_string_nat d)
      | _ \<Rightarrow> if d = 0 then GetIntFromJson (Some j) DEFAULT_ACTIVATED_ACCOUNT_ID else None)"

lemma good_key_nat [simp]: "good_key (to_string_nat d)"
  by simp

lemma GetInt_bound: "json_wf j \<Longrightarrow> GetIntFromJson (Some j) k = Some n \<Longrightarrow> \<bar>n\<bar> < 2 ^ 53"
  using json_wf_item [of j "c_str k"]
  by (fastforce simp: GetIntFromJson_def Let_def split: if_splits option.splits json.splits prod.splits)

lemma GetInt_put_any:
  "is_obj j \<Longrightarrow> good_key k \<Longrightarrow> good_key k' \<Longrightarrow>
   GetIntFromJson (Some (obj_put j k (JNum n))) k' = (if k' = k then Some n else GetIntFromJson (Some j) k')"
  by (simp add: GetIntFromJson_def obj_item_put)

definition set_default :: "json \<Rightarrow> nat \<Rightarrow> int \<Rightarrow> json option" where
  "set_default j d i =
     (case obj_item j DEFAULT_ACTIVATED_ACCOUNT_ID of
        Some (JObj kvs) \<Rightarrow> Some (obj_put j DEFAULT_ACTIVATED_ACCOUNT_ID (obj_put (JObj kvs) (to_string_nat d) (JNum i)))
      | _ \<Rightarrow> (case GetIntFromJson (Some j) DEFAULT_ACTIVATED_ACCOUNT_ID of None \<Rightarrow> None
              | Some old \<Rightarrow> Some (obj_put j DEFAULT_ACTIVATED_ACCOUNT_ID
                  (obj_put (if d \<noteq> 0 then obj_put (JObj []) (to_string_nat 0) (JNum old) else JObj [])
                     (to_string_nat d) (JNum i)))))"

lemma SetDefault_unfold:
  assumes "GetAccountListFromFile E fs = ((ERR_OK, Some j), fs1)"
  shows "SetDefaultActivatedOsAccount E d i fs =
    (case set_default j d i of None \<Rightarrow> (ERR_ACCOUNT_COMMON_BAD_JSON_FORMAT_ERROR, fs1)
     | Some j' \<Rightarrow> SaveAccountListToFileAndDataBase E (Some j') fs1)"
proof -
  let ?k = DEFAULT_ACTIVATED_ACCOUNT_ID
  have k: "c_str ?k = ?k" "?k \<noteq> []" using list_keys(6) by simp_all
  show ?thesis
  proof (cases "\<exists>kvs. obj_item j ?k = Some (JObj kvs)")
    case True
    then obtain kvs where "obj_item j ?k = Some (JObj kvs)" by blast
    then show ?thesis
      using assms k by (simp add: SetDefaultActivatedOsAccount_def GetObjFromJson_def Let_def IsObject_def
          AddInt_put set_default_def obj_put_def [of j])
  next
    case False
    then have "\<not> IsObject (obj_item j ?k)"
      by (auto simp: IsObject_def split: option.splits json.splits)
    moreover have "set_default j d i = (case GetIntFromJson (Some j) ?k of None \<Rightarrow> None
        | Some old \<Rightarrow> Some (obj_put j ?k
            (obj_put (if d \<noteq> 0 then obj_put (JObj []) (to_string_nat 0) (JNum old) else JObj [])
               (to_string_nat d) (JNum i))))"
      using False by (auto simp: set_default_def split: option.split json.split)
    ultimately show ?thesis
      using assms k
      by (cases "d = 0"; cases "GetIntFromJson (Some j) ?k")
        (simp_all add: SetDefaultActivatedOsAccount_def GetObjFromJson_def Let_def AddInt_put CreateJson_def
          AddObjToJson_def AddItem_def)
  qed
qed

lemma default_of_put_obj:
  "is_obj j \<Longrightarrow> is_obj c \<Longrightarrow>
   default_of (obj_put j DEFAULT_ACTIVATED_ACCOUNT_ID c) = (\<lambda>d. GetIntFromJson (Some c) (to_string_nat d))"
  by (auto simp: default_of_def obj_item_put is_obj_def)

lemma set_default_spec:
  assumes "set_default j d i = Some j'" and "obj_ok j" and "\<bar>i\<bar> < 2 ^ 31"
  shows "obj_ok j' \<and> default_of j' = (default_of j)(d \<mapsto> i)"
proof -
  let ?k = DEFAULT_ACTIVATED_ACCOUNT_ID
  show ?thesis
  proof (cases "\<exists>kvs. obj_item j ?k = Some (JObj kvs)")
    case True
    then obtain kvs where kvs: "obj_item j ?k = Some (JObj kvs)" by blast
    let ?c = "obj_put (JObj kvs) (to_string_nat d) (JNum i)"
    have "json_wf (JObj kvs)" using kvs assms(2) json_wf_item obj_ok_wf by blast
    then have "json_wf ?c" using assms(3) by (intro json_wf_put) auto
    moreover have "j' = obj_put j ?k ?c" using assms(1) kvs by (simp add: set_default_def)
    moreover have "default_of (obj_put j ?k ?c) = (default_of j)(d \<mapsto> i)"
      using assms(2) by (auto simp: default_of_put_obj GetInt_put_any default_of_def [of j] kvs fun_eq_iff)
    ultimately show ?thesis using assms(2) by (auto intro!: obj_ok_put)
  next
    case False
    then obtain old where old: "GetIntFromJson (Some j) ?k = Some old"
      and j': "j' = obj_put j ?k (obj_put (if d \<noteq> 0 then obj_put (JObj []) (to_string_nat 0) (JNum old) else JObj [])
               (to_string_nat d) (JNum i))"
      using assms(1) by (auto simp: set_default_def split: option.splits json.splits)
    let ?base = "if d \<noteq> 0 then obj_put (JObj []) (to_string_nat 0) (JNum old) else JObj []"
    let ?c = "obj_put ?base (to_string_nat d) (JNum i)"
    have "json_wf ?base" using GetInt_bound [OF obj_ok_wf [OF assms(2)] old] by (auto intro!: json_wf_put)
    moreover have "json_wf (JNum i)" using assms(3) by auto
    ultimately have wf: "json_wf ?c" by (intro json_wf_put) auto
    have c: "is_obj ?base" "is_obj ?c" by auto
    have "default_of j x = (if x = 0 then Some old else None)" for x
      using False old by (auto simp: default_of_def split: option.split json.split)
    moreover have "GetIntFromJson (Some ?c) (to_string_nat x) = (if x = d then Some i else if x = 0 then Some old else None)" for x
      using c(1) by (auto simp: GetInt_put_any) (simp_all add: GetIntFromJson_def)
    ultimately have "default_of (obj_put j ?k ?c) = (default_of j)(d \<mapsto> i)"
      unfolding default_of_put_obj [OF obj_ok_is_obj [OF assms(2)] c(2)] by (auto simp: fun_eq_iff)
    with wf show ?thesis
      unfolding j' using assms(2) by (auto intro!: obj_ok_put)
  qed
qed

text \<open>
  Setting the account activated by default on a display changes that display only:
  the other displays keep their account, also when the file still holds the single number of an
  older version, which becomes the entry of display 0. An error leaves the file unchanged.
\<close>

theorem default_account_per_display:
  assumes "cjson_ok E" and "\<not> DISTRIBUTED E" and "file_json E list_path fs = Some j" and "obj_ok j"
    and "\<bar>i\<bar> < 2 ^ 31" and "SetDefaultActivatedOsAccount E d i fs = (r, fs')"
  shows "\<exists>j'. file_json E list_path fs' = Some j' \<and> obj_ok j'
    \<and> default_of j' = (if r = ERR_OK then (default_of j)(d \<mapsto> i) else default_of j)"
proof -
  obtain r1 x fs1 where 1: "GetAccountListFromFile E fs = ((r1, x), fs1)" by (metis prod.collapse)
  have f: "file_json E list_path fs1 = Some j"
    using GetAccountList_frame [OF 1] assms(3) by (simp add: file_json_def)
  show ?thesis
  proof (cases "r1 = ERR_OK")
    case False
    with assms(4,6) f 1 show ?thesis by (auto simp: SetDefaultActivatedOsAccount_def)
  next
    case True
    then have g: "GetAccountListFromFile E fs = ((ERR_OK, Some j), fs1)"
      using GetAccountList_json [OF 1 [unfolded True] assms(2)] assms(3) 1 by simp
    show ?thesis
    proof (cases "set_default j d i")
      case None
      with assms(4,6) f SetDefault_unfold [OF g] show ?thesis by auto
    next
      case (Some j')
      with assms(6) SetDefault_unfold [OF g, of d i]
      have s: "SaveAccountListToFileAndDataBase E (Some j') fs1 = (r, fs')" by simp
      from set_default_spec [OF Some assms(4,5)] list_save [OF g assms(2,1) _ s] assms(3,4)
      show ?thesis by (cases "r = ERR_OK") (auto simp: obj_ok_wf)
    qed
  qed
qed


section \<open>Witnesses\<close>

definition demo_list :: json where
  "demo_list = JObj [(ACCOUNT_LIST, JArr [JStr ''100'', JStr ''101'']), (COUNT_ACCOUNT_NUM, JNum 2),
     (NEXT_LOCAL_ID, JNum 101), (DEFAULT_ACTIVATED_ACCOUNT_ID, JNum 100)]"

definition list_fs :: fs_state where
  "list_fs = put_file list_path (Some (ref_print demo_list)) empty_fs"

lemma demo_list_ok: "obj_ok demo_list"
  by (simp add: obj_ok_def demo_list_def list_key_defs)

lemma demo_list_json: "file_json os_ref_env list_path list_fs = Some demo_list"
  using obj_ok_wf [OF demo_list_ok] by (intro ref_file_json) (simp_all add: list_fs_def)

lemma demo_list_strs: "strs demo_list ACCOUNT_LIST = [''100'', ''101'']"
  by (simp add: strs_def demo_list_def)

lemma quiet_list_save:
  assumes "os_quiet E"
  shows "fst (SaveAccountListToFileAndDataBase E j fs) = ERR_OK"
  using quiet_write(1) [OF assms] by (simp add: os_file_defs json_to_file_def Let_def split_beta)

lemma demo_list_read: "\<exists>fs1. GetAccountListFromFile os_ref_env list_fs = ((ERR_OK, Some demo_list), fs1)"
proof -
  have f: "fs_files list_fs list_path = Some (ref_print demo_list)" by (simp add: list_fs_def)
  have n: "to_string_nat 2 = ''2''" "to_string_nat 100 = ''100''" "to_string_nat 101 = ''101''"
    by code_simp+
  have "length (ref_print demo_list) \<le> MAX_FILE_SIZE"
    by (simp add: n demo_list_def list_key_defs ref_str_def MAX_FILE_SIZE_def)
  from quiet_read [OF os_ref_env_ok(2) _ f this] obtain fs1
    where "GetFileContentByPath os_ref_env list_path [] list_fs = ((ERR_OK, ref_print demo_list), fs1)"
    by (auto simp: ACCOUNT_LIST_FILE_JSON_PATH_def)
  then show ?thesis
    using ref_create [OF obj_ok_wf [OF demo_list_ok]] by (simp add: GetAccountListFromFile_def)
qed

theorem allow_create_id_witness:
  "\<exists>k fs'. GetAllowCreateId os_ref_env 0 list_fs = ((ERR_OK, k), fs') \<and> 101 \<le> k \<and> k \<le> 999
     \<and> to_string_int k \<notin> {''100'', ''101''}"
proof -
  obtain fs1 where r: "GetAccountListFromFile os_ref_env list_fs = ((ERR_OK, Some demo_list), fs1)"
    using demo_list_read by blast
  have v: "GetVectorStringFromJson (Some demo_list) ACCOUNT_LIST [] = (True, [''100'', ''101''])"
    "GetIntFromJson (Some demo_list) NEXT_LOCAL_ID = Some 101" "GetNextLocalId [''100'', ''101''] 101 = 102"
    by code_simp+
  obtain fs' where g: "GetAllowCreateId os_ref_env 0 list_fs = ((ERR_OK, 102), fs')"
    using quiet_list_save [OF os_ref_env_ok(2)]
    by (simp add: GetAllowCreateId_def r v AddInt_put id_defs split_beta Let_def)
  from allow_create_id_fresh [OF os_ref_env_ok(1,3) demo_list_json demo_list_ok g] g
  show ?thesis by (simp add: demo_list_strs)
qed

theorem serial_search_witness:
  "\<exists>y. serial_loop [2021023100000001, 2021023100000002] 1 = Some y \<and> 1 \<le> y \<and> y < CARRY_NUM
     \<and> \<not> AccountExistsWithSerialNumber [2021023100000001, 2021023100000002] y"
  by (rule serial_search_ends) (simp_all add: id_defs)

theorem account_list_witness:
  "\<exists>j'. file_json os_ref_env list_path (snd (UpdateAccountList os_ref_env ''101'' False list_fs)) = Some j' \<and> obj_ok j'"
  using account_list_update [OF os_ref_env_ok(1,3) demo_list_json demo_list_ok, of "''101''" False,
      OF _ _ prod.collapse [symmetric]]
  by (auto simp: demo_list_strs)

theorem default_account_witness:
  "\<exists>j'. file_json os_ref_env list_path (snd (SetDefaultActivatedOsAccount os_ref_env 5 101 list_fs)) = Some j' \<and> obj_ok j'"
  using default_account_per_display [OF os_ref_env_ok(1,3) demo_list_json demo_list_ok, of 101 5,
      OF _ prod.collapse [symmetric]]
  by auto

end
