(* ===== verification/Account_State_Machine.thy ===== *)
theory Account_State_Machine
  imports Prelude
begin

text \<open>
  The state machine of the distributed account
  (\<open>services/accountmgr/src/account_state_machine.cpp\<close>): a table that gives for a state and an
  event the action to run, of which only the next state is used. States and events are the integers of
  the enumerations, because the current state comes from a file and may be any integer. The build
  switch \<open>ENABLE_MULTIPLE_OS_ACCOUNT_SUBSPACE\<close> is the argument \<open>subspace\<close>; a null
  action is \<open>None\<close>. The performance record is left out.
\<close>

section \<open>States, events and actions\<close>

definition ACCOUNT_STATE_UNBOUND :: int where "ACCOUNT_STATE_UNBOUND = 0"
definition ACCOUNT_STATE_LOGIN :: int where "ACCOUNT_STATE_LOGIN = 1"
definition ACCOUNT_STATE_NOTLOGIN :: int where "ACCOUNT_STATE_NOTLOGIN = 2"
definition ACCOUNT_STATE_LOGOFF :: int where "ACCOUNT_STATE_LOGOFF = 3"
definition ACCOUNT_STATE_TOKEN_EXPIRED :: int where "ACCOUNT_STATE_TOKEN_EXPIRED = 4"

lemmas state_defs = ACCOUNT_STATE_UNBOUND_def ACCOUNT_STATE_LOGIN_def ACCOUNT_STATE_NOTLOGIN_def
  ACCOUNT_STATE_LOGOFF_def ACCOUNT_STATE_TOKEN_EXPIRED_def

definition ACCOUNT_BIND_SUCCESS_EVT :: int where "ACCOUNT_BIND_SUCCESS_EVT = 0"
definition ACCOUNT_BIND_FAILED_EVT :: int where "ACCOUNT_BIND_FAILED_EVT = 1"
definition ACCOUNT_AUTHENTICATE_SUCCESS_EVT :: int where "ACCOUNT_AUTHENTICATE_SUCCESS_EVT = 2"
definition ACCOUNT_AUTHENTICATE_FAILED_EVT :: int where "ACCOUNT_AUTHENTICATE_FAILED_EVT = 3"
definition ACCOUNT_TOKEN_EXPIRED_EVT :: int where "ACCOUNT_TOKEN_EXPIRED_EVT = 4"
definition ACCOUNT_PASSWORD_CHANGED_EVT :: int where "ACCOUNT_PASSWORD_CHANGED_EVT = 5"
definition ACCOUNT_MANUAL_LOGOUT_EVT :: int where "ACCOUNT_MANUAL_LOGOUT_EVT = 6"
definition ACCOUNT_MANUAL_UNBOUND_EVT :: int where "ACCOUNT_MANUAL_UNBOUND_EVT = 7"
definition ACCOUNT_MANUAL_LOGOFF_EVT :: int where "ACCOUNT_MANUAL_LOGOFF_EVT = 8"

lemmas event_defs = ACCOUNT_BIND_SUCCESS_EVT_def ACCOUNT_BIND_FAILED_EVT_def
  ACCOUNT_AUTHENTICATE_SUCCESS_EVT_def ACCOUNT_AUTHENTICATE_FAILED_EVT_def ACCOUNT_TOKEN_EXPIRED_EVT_def
  ACCOUNT_PASSWORD_CHANGED_EVT_def ACCOUNT_MANUAL_LOGOUT_EVT_def ACCOUNT_MANUAL_UNBOUND_EVT_def
  ACCOUNT_MANUAL_LOGOFF_EVT_def

datatype AccountStateAction =
  ExceptionAction int | UnboundAction int | LoginAction int | LogoutAction int | LogoffAction int

primrec GetNextState :: "AccountStateAction \<Rightarrow> int" where
  "GetNextState (ExceptionAction s) = s"
| "GetNextState (UnboundAction s) = s"
| "GetNextState (LoginAction s) = s"
| "GetNextState (LogoutAction s) = s"
| "GetNextState (LogoffAction s) = s"

type_synonym action_table = "int \<rightharpoonup> (int \<rightharpoonup> AccountStateAction option)"

record AccountStateMachine =
  currentState :: int
  stateMachineMap :: action_table

section \<open>The table\<close>

text \<open>The rows of the states that only handle login, logout, token expiry and logoff.\<close>

definition short_row :: "int \<Rightarrow> int \<Rightarrow> (int \<times> AccountStateAction option) list" where
  "short_row logout logoff =
     [(ACCOUNT_BIND_SUCCESS_EVT, Some (LoginAction ACCOUNT_STATE_LOGIN)),
      (ACCOUNT_MANUAL_LOGOUT_EVT, Some (LogoutAction logout)),
      (ACCOUNT_TOKEN_EXPIRED_EVT, Some (LogoutAction ACCOUNT_STATE_TOKEN_EXPIRED)),
      (ACCOUNT_MANUAL_LOGOFF_EVT, Some (LogoffAction logoff))]"

definition OnInitialize :: "bool \<Rightarrow> action_table" where
  "OnInitialize subspace =
     map_of
      ([(ACCOUNT_STATE_UNBOUND, map_of
          [(ACCOUNT_BIND_SUCCESS_EVT, Some (LoginAction ACCOUNT_STATE_LOGIN)),
           (ACCOUNT_BIND_FAILED_EVT, Some (ExceptionAction ACCOUNT_STATE_UNBOUND)),
           (ACCOUNT_AUTHENTICATE_SUCCESS_EVT, Some (LoginAction ACCOUNT_STATE_LOGIN)),
           (ACCOUNT_AUTHENTICATE_FAILED_EVT, None),
           (ACCOUNT_TOKEN_EXPIRED_EVT, None),
           (ACCOUNT_PASSWORD_CHANGED_EVT, None),
           (ACCOUNT_MANUAL_LOGOUT_EVT, None),
           (ACCOUNT_MANUAL_UNBOUND_EVT, None),
           (ACCOUNT_MANUAL_LOGOFF_EVT, None)]),
        (ACCOUNT_STATE_LOGIN, map_of
          [(ACCOUNT_BIND_SUCCESS_EVT, None),
           (ACCOUNT_BIND_FAILED_EVT, Some (ExceptionAction ACCOUNT_STATE_LOGIN)),
           (ACCOUNT_AUTHENTICATE_SUCCESS_EVT, None),
           (ACCOUNT_AUTHENTICATE_FAILED_EVT, None),
           (ACCOUNT_TOKEN_EXPIRED_EVT, Some (LogoutAction ACCOUNT_STATE_TOKEN_EXPIRED)),
           (ACCOUNT_PASSWORD_CHANGED_EVT, Some (LogoutAction ACCOUNT_STATE_UNBOUND)),
           (ACCOUNT_MANUAL_LOGOUT_EVT,
             Some (LogoutAction (if subspace then ACCOUNT_STATE_NOTLOGIN else ACCOUNT_STATE_UNBOUND))),
           (ACCOUNT_MANUAL_UNBOUND_EVT, Some (UnboundAction ACCOUNT_STATE_UNBOUND)),
           (ACCOUNT_MANUAL_LOGOFF_EVT,
             Some (LogoffAction (if subspace then ACCOUNT_STATE_LOGOFF else ACCOUNT_STATE_UNBOUND)))])]
       @ (if \<not> subspace
          then [(ACCOUNT_STATE_TOKEN_EXPIRED, map_of (short_row ACCOUNT_STATE_UNBOUND ACCOUNT_STATE_UNBOUND))]
          else [(ACCOUNT_STATE_NOTLOGIN, map_of (short_row ACCOUNT_STATE_NOTLOGIN ACCOUNT_STATE_LOGOFF)),
                (ACCOUNT_STATE_TOKEN_EXPIRED, map_of (short_row ACCOUNT_STATE_NOTLOGIN ACCOUNT_STATE_LOGOFF)),
                (ACCOUNT_STATE_LOGOFF, map_of (short_row ACCOUNT_STATE_NOTLOGIN ACCOUNT_STATE_LOGOFF))]))"

definition AccountStateMachine_new :: "bool \<Rightarrow> AccountStateMachine" where
  "AccountStateMachine_new subspace = \<lparr>currentState = ACCOUNT_STATE_UNBOUND, stateMachineMap = OnInitialize subspace\<rparr>"

definition Clean :: "AccountStateMachine \<Rightarrow> AccountStateMachine" where
  "Clean m = m\<lparr>stateMachineMap := (\<lambda>s. map_option (\<lambda>row e. map_option (\<lambda>_. None) (row e)) (stateMachineMap m s))\<rparr>"

definition SetAccountState :: "int \<Rightarrow> AccountStateMachine \<Rightarrow> AccountStateMachine" where
  "SetAccountState s m = m\<lparr>currentState := s\<rparr>"

definition StateChangeProcess :: "int \<Rightarrow> AccountStateMachine \<Rightarrow> bool \<times> AccountStateMachine" where
  "StateChangeProcess evt m =
     (case stateMachineMap m (currentState m) of
        None \<Rightarrow> (False, m)
      | Some row \<Rightarrow>
          (case row evt of
             None \<Rightarrow> (False, m)
           | Some None \<Rightarrow> (True, m)
           | Some (Some action) \<Rightarrow>
               let nextState = GetNextState action in
               (True, if currentState m \<noteq> nextState then m\<lparr>currentState := nextState\<rparr> else m)))"

section \<open>Runs of the machine\<close>

inductive sm_reachable :: "bool \<Rightarrow> AccountStateMachine \<Rightarrow> bool" for subspace where
  sm_start: "sm_reachable subspace (AccountStateMachine_new subspace)"
| sm_event: "sm_reachable subspace m \<Longrightarrow> StateChangeProcess evt m = (ok, m') \<Longrightarrow> sm_reachable subspace m'"

definition sm_inv :: "bool \<Rightarrow> AccountStateMachine \<Rightarrow> bool" where
  "sm_inv subspace m \<longleftrightarrow> stateMachineMap m = OnInitialize subspace \<and> OnInitialize subspace (currentState m) \<noteq> None"

lemma table_closed:
  assumes "OnInitialize subspace s = Some row" and "row e = Some (Some a)"
  shows "OnInitialize subspace (GetNextState a) \<noteq> None"
    and "GetNextState a = ACCOUNT_STATE_LOGIN \<Longrightarrow>
      s = ACCOUNT_STATE_LOGIN \<or> e = ACCOUNT_BIND_SUCCESS_EVT \<or> e = ACCOUNT_AUTHENTICATE_SUCCESS_EVT"
  using assms by (auto simp: OnInitialize_def short_row_def state_defs split: if_splits)

lemma sm_inv_step: "sm_inv subspace m \<Longrightarrow> StateChangeProcess evt m = (ok, m') \<Longrightarrow> sm_inv subspace m'"
  using table_closed(1)
  by (fastforce simp: sm_inv_def StateChangeProcess_def Let_def split: option.splits if_splits)

lemma reachable_inv: "sm_reachable subspace m \<Longrightarrow> sm_inv subspace m"
proof (induction rule: sm_reachable.induct)
  case sm_start
  then show ?case by (simp add: sm_inv_def AccountStateMachine_new_def OnInitialize_def state_defs)
next
  case (sm_event m evt ok m')
  then show ?case by (metis sm_inv_step)
qed

text \<open>
  In both builds, from the initial state and after any sequence of events, the machine
  is in a state that has a row in its table, so no event finds the machine stuck; an event it does not
  know leaves the state alone, and the login state is entered only by a successful bind or
  authentication.
\<close>

theorem state_machine_closed:
  assumes "sm_reachable subspace m" and "StateChangeProcess evt m = (ok, m')"
  shows "stateMachineMap m (currentState m) \<noteq> None \<and> stateMachineMap m' (currentState m') \<noteq> None
    \<and> (\<not> ok \<longrightarrow> m' = m)
    \<and> (currentState m' = ACCOUNT_STATE_LOGIN \<and> currentState m \<noteq> ACCOUNT_STATE_LOGIN \<longrightarrow>
        evt = ACCOUNT_BIND_SUCCESS_EVT \<or> evt = ACCOUNT_AUTHENTICATE_SUCCESS_EVT)"
proof -
  have i: "sm_inv subspace m" "sm_inv subspace m'"
    using reachable_inv assms sm_event by blast+
  moreover have "\<not> ok \<longrightarrow> m' = m"
    using assms(2) by (auto simp: StateChangeProcess_def Let_def split: option.splits)
  moreover have "evt = ACCOUNT_BIND_SUCCESS_EVT \<or> evt = ACCOUNT_AUTHENTICATE_SUCCESS_EVT"
    if "currentState m' = ACCOUNT_STATE_LOGIN" "currentState m \<noteq> ACCOUNT_STATE_LOGIN"
    using that assms(2) i(1) table_closed(2) [of subspace "currentState m"]
    by (fastforce simp: sm_inv_def StateChangeProcess_def Let_def split: option.splits if_splits)
  ultimately show ?thesis by (auto simp: sm_inv_def)
qed

theorem state_machine_witness:
  "\<exists>m. StateChangeProcess ACCOUNT_BIND_SUCCESS_EVT (AccountStateMachine_new False) = (True, m)
     \<and> currentState m = ACCOUNT_STATE_LOGIN \<and> stateMachineMap m (currentState m) \<noteq> None"
proof -
  obtain m where m: "StateChangeProcess ACCOUNT_BIND_SUCCESS_EVT (AccountStateMachine_new False) = (True, m)"
    "currentState m = ACCOUNT_STATE_LOGIN"
    by (simp add: StateChangeProcess_def AccountStateMachine_new_def OnInitialize_def state_defs)
  with state_machine_closed [OF sm_start m(1)] show ?thesis by blast
qed

end
