(* ===== verification/Ohos_Account_Data.thy ===== *)
theory Ohos_Account_Data
  imports Account_File_Operator Account_State_Machine
begin

text \<open>
  The storage of the distributed account of a user
  (\<open>services/accountmgr/src/ohos_account_data_deal.cpp\<close>, the records of
  \<open>interfaces/innerkits/ohosaccount/native/include/account_info.h\<close>): one JSON file per user, and
  the avatar in a file of its own beside it. The clock is a parameter read at the number of system
  calls made so far. \<open>cast_int\<close> is the conversion of a JSON number to \<open>int\<close>, which
  C++ leaves undefined outside the range of \<open>int\<close>. \<open>std::ifstream\<close> opens the file
  and reads to its end, or to the place where a read fails, without reporting that failure.
  The file watcher, which only reports changes made by others, and the reports are left out.
\<close>

record ohos_env = file_env +
  cast_int :: "int \<Rightarrow> int"
  time_now :: "nat \<Rightarrow> int"
  now_ms :: "nat \<Rightarrow> int"

definition cast_ok :: "'z ohos_env_scheme \<Rightarrow> bool" where
  "cast_ok E \<longleftrightarrow> (\<forall>n. - (2 ^ 31) \<le> n \<and> n < 2 ^ 31 \<longrightarrow> cast_int E n = n)"

section \<open>The records\<close>

record OhosAccountInfo =
  oa_name :: string
  oa_uid :: string
  oa_status :: int
  oa_callingUid :: int
  oa_nickname :: string
  oa_avatar :: string
  oa_scalableData :: string
  oa_rawUid :: string

record AccountInfo =
  ohosAccountInfo :: OhosAccountInfo
  bindTime :: int
  userId :: int
  digest :: string
  version :: int
  createTime :: int

definition DEFAULT_OHOS_ACCOUNT_NAME :: string where "DEFAULT_OHOS_ACCOUNT_NAME = ''ohosAnonymousName''"
definition DEFAULT_OHOS_ACCOUNT_UID :: string where "DEFAULT_OHOS_ACCOUNT_UID = ''ohosAnonymousUid''"
definition DEFAULT_CALLING_UID :: int where "DEFAULT_CALLING_UID = -1"
definition ACCOUNT_VERSION_DEFAULT :: int where "ACCOUNT_VERSION_DEFAULT = 0"
definition ACCOUNT_VERSION_ANON :: int where "ACCOUNT_VERSION_ANON = 1"

lemmas ohos_defs = DEFAULT_OHOS_ACCOUNT_NAME_def DEFAULT_OHOS_ACCOUNT_UID_def DEFAULT_CALLING_UID_def
  ACCOUNT_VERSION_DEFAULT_def ACCOUNT_VERSION_ANON_def

definition OhosAccountInfo_init :: OhosAccountInfo where
  "OhosAccountInfo_init = \<lparr>oa_name = [], oa_uid = [], oa_status = ACCOUNT_STATE_UNBOUND,
     oa_callingUid = DEFAULT_CALLING_UID, oa_nickname = [], oa_avatar = [], oa_scalableData = [], oa_rawUid = []\<rparr>"

definition AccountInfo_init :: AccountInfo where
  "AccountInfo_init = \<lparr>ohosAccountInfo = OhosAccountInfo_init, bindTime = 0, userId = 0, digest = [],
     version = ACCOUNT_VERSION_DEFAULT, createTime = 0\<rparr>"

definition AccountInfo_clear :: "int \<Rightarrow> AccountInfo \<Rightarrow> AccountInfo" where
  "AccountInfo_clear clrStatus a =
     a\<lparr>ohosAccountInfo := (ohosAccountInfo a)\<lparr>oa_name := DEFAULT_OHOS_ACCOUNT_NAME,
          oa_uid := DEFAULT_OHOS_ACCOUNT_UID, oa_status := clrStatus, oa_nickname := [], oa_avatar := [],
          oa_scalableData := [], oa_callingUid := DEFAULT_CALLING_UID, oa_rawUid := []\<rparr>,
       digest := [], bindTime := 0\<rparr>"

section \<open>Writing\<close>

definition ACCOUNT_CFG_DIR_ROOT_PATH :: string where
  "ACCOUNT_CFG_DIR_ROOT_PATH = ''/data/service/el1/public/account/''"

definition config_file :: "int \<Rightarrow> string" where
  "config_file u = ACCOUNT_CFG_DIR_ROOT_PATH @ to_string_int u @ ''/account.json''"

definition avatar_file :: "int \<Rightarrow> string" where
  "avatar_file u = ACCOUNT_CFG_DIR_ROOT_PATH @ to_string_int u @ ''/account_avatar''"

text \<open>An argument of type \<open>int\<close> given a wider integer keeps its low 32 bits.\<close>

definition to_int32 :: "int \<Rightarrow> int" where
  "to_int32 n = sint (word_of_int n :: 32 word)"

definition SerializeAccountInfoToJson :: "AccountInfo \<Rightarrow> json option" where
  "SerializeAccountInfoToJson a =
     (let oi = ohosAccountInfo a;
          (success, jsonData) =
            also_add (\<lambda>j. AddStringToJson j ''account_scalableData'' (oa_scalableData oi))
            (also_add (\<lambda>j. AddStringToJson j ''account_nickname'' (oa_nickname oi))
            (also_add (\<lambda>j. AddIntToJson j ''calling_uid'' (oa_callingUid oi))
            (also_add (\<lambda>j. AddIntToJson j ''bind_status'' (oa_status oi))
            (also_add (\<lambda>j. AddStringToJson j ''open_id'' (oa_uid oi))
            (also_add (\<lambda>j. AddStringToJson j ''raw_uid'' (oa_rawUid oi))
            (also_add (\<lambda>j. AddStringToJson j ''account_name'' (oa_name oi))
            (also_add (\<lambda>j. AddIntToJson j ''user_id'' (userId a))
            (also_add (\<lambda>j. AddInt64ToJson j ''createTime'' (createTime a))
            (also_add (\<lambda>j. AddIntToJson j ''bind_time'' (to_int32 (bindTime a)))
            (also_add (\<lambda>j. AddIntToJson j ''version'' (version a)) (True, CreateJson)))))))))))
      in if \<not> success then None else jsonData)"

definition SaveAccountInfo :: "'z ohos_env_scheme \<Rightarrow> AccountInfo \<Rightarrow> fs_state \<Rightarrow> ErrCode \<times> fs_state" where
  "SaveAccountInfo E a fs =
     (case SerializeAccountInfoToJson a of
        None \<Rightarrow> (ERR_ACCOUNT_COMMON_DUMP_JSON_ERROR, fs)
      | Some jsonData \<Rightarrow>
          let (ret, fs1) = InputFileByPathAndContentWithTransaction E (avatar_file (userId a))
                (oa_avatar (ohosAccountInfo a)) fs in
          if ret \<noteq> ERR_OK then (ret, fs1)
          else InputFileByPathAndContent E (config_file (userId a)) (PackJsonToString E (Some jsonData)) fs1)"

definition BuildJsonFileFromScratch :: "'z ohos_env_scheme \<Rightarrow> int \<Rightarrow> fs_state \<Rightarrow> fs_state" where
  "BuildJsonFileFromScratch E u fs =
     snd (SaveAccountInfo E
       (AccountInfo_init\<lparr>userId := u, bindTime := 0, createTime := now_ms E (fs_tick fs), digest := [],
          ohosAccountInfo := OhosAccountInfo_init\<lparr>oa_uid := DEFAULT_OHOS_ACCOUNT_UID,
            oa_name := DEFAULT_OHOS_ACCOUNT_NAME, oa_status := ACCOUNT_STATE_UNBOUND,
            oa_callingUid := DEFAULT_CALLING_UID, oa_rawUid := DEFAULT_OHOS_ACCOUNT_UID\<rparr>\<rparr>) fs)"

section \<open>Reading\<close>

definition RemoveFile :: "'z ohos_env_scheme \<Rightarrow> string \<Rightarrow> fs_state \<Rightarrow> bool \<times> fs_state" where
  "RemoveFile E path fs =
     (let (e, fs1) = sys_call E fs in if e \<noteq> None then (False, fs1) else (True, put_file path None fs1))"

definition read_stream :: "'z ohos_env_scheme \<Rightarrow> string \<Rightarrow> fs_state \<Rightarrow> string option \<times> fs_state" where
  "read_stream E path fs =
     (let (e, fs1) = sys_call E fs in
      case (e, fs_files fs1 path) of
        (None, Some content) \<Rightarrow>
          let k = fs_tick fs1; (readErr, fs2) = sys_call E fs1 in
          (Some (if readErr \<noteq> None then take (sys_short E k) content else content), fs2)
      | _ \<Rightarrow> (None, fs1))"

definition FillAvatarIntoJson ::
  "'z ohos_env_scheme \<Rightarrow> json option \<Rightarrow> int \<Rightarrow> fs_state \<Rightarrow> (ErrCode \<times> json option) \<times> fs_state" where
  "FillAvatarIntoJson E jsonData u fs =
     (if IsKeyExist jsonData ''account_avatar''
      then (case GetItemFromJson jsonData ''account_avatar'' of
              Some (JStr s) \<Rightarrow>
                let (ok, j) = AddStringToJson jsonData ''account_avatar'' s in
                if \<not> ok then ((ERR_ACCOUNT_COMMON_DUMP_JSON_ERROR, j), fs) else ((ERR_OK, j), fs)
            | _ \<Rightarrow> ((ERR_OK, jsonData), fs))
      else let ((ret, avatarData), fs1) = GetFileContentByPath E (avatar_file u) [] fs in
           if ret = ERR_OK
           then let (ok, j) = AddStringToJson jsonData ''account_avatar'' avatarData in
                if \<not> ok then ((ERR_ACCOUNT_COMMON_DUMP_JSON_ERROR, j), fs1) else ((ERR_OK, j), fs1)
           else ((ERR_OK, jsonData), fs1))"

definition MAX_ACCOUNT_JSON_FILE_SIZE :: int where "MAX_ACCOUNT_JSON_FILE_SIZE = 16777216"

definition ParseJsonFromFile ::
  "'z ohos_env_scheme \<Rightarrow> string \<Rightarrow> int \<Rightarrow> fs_state \<Rightarrow> (ErrCode \<times> json option) \<times> fs_state" where
  "ParseJsonFromFile E filePath u fs =
     (let (exceeds, fs1) = IsFileSizeExceedsLimit E filePath MAX_ACCOUNT_JSON_FILE_SIZE fs;
          (removed, fs2) = (if exceeds then RemoveFile E filePath fs1 else (True, fs1)) in
      if \<not> removed then ((ERR_ACCOUNT_DATADEAL_INPUT_FILE_ERROR, None), fs2)
      else let fs3 = (if exceeds then BuildJsonFileFromScratch E u fs2 else fs2);
               (content, fs4) = read_stream E filePath fs3 in
           case content of
             None \<Rightarrow> ((ERR_ACCOUNT_DATADEAL_INPUT_FILE_ERROR, None), fs4)
           | Some fileContent \<Rightarrow>
               let jsonData = CreateJsonFromString E fileContent in
               if \<not> IsObject jsonData then ((ERR_ACCOUNT_DATADEAL_JSON_FILE_CORRUPTION, jsonData), fs4)
               else FillAvatarIntoJson E jsonData u fs4)"

text \<open>\<open>GetJsonField<int>\<close>, \<open><std::time_t>\<close> and \<open><std::string>\<close>.\<close>

definition GetJsonField_num :: "json option \<Rightarrow> string \<Rightarrow> int option" where
  "GetJsonField_num jsonData key =
     (if \<not> IsKeyExist jsonData key then None
      else case GetItemFromJson jsonData key of Some (JNum n) \<Rightarrow> Some n | _ \<Rightarrow> None)"

definition GetJsonField_str :: "json option \<Rightarrow> string \<Rightarrow> string option" where
  "GetJsonField_str jsonData key =
     (if \<not> IsKeyExist jsonData key then None
      else case GetItemFromJson jsonData key of Some (JStr s) \<Rightarrow> Some s | _ \<Rightarrow> None)"

definition GetAccountInfoFromJson :: "'z ohos_env_scheme \<Rightarrow> json option \<Rightarrow> AccountInfo \<Rightarrow> int \<Rightarrow> AccountInfo" where
  "GetAccountInfoFromJson E j a u =
     (let int_field = (\<lambda>k. map_option (cast_int E) (GetJsonField_num j k));
          oi = ohosAccountInfo a;
          o1 = oi\<lparr>oa_name := or_keep (GetJsonField_str j ''account_name'') (oa_name oi),
                 oa_rawUid := or_keep (GetJsonField_str j ''raw_uid'') (oa_rawUid oi),
                 oa_uid := or_keep (GetJsonField_str j ''open_id'') (oa_uid oi),
                 oa_status := or_keep (int_field ''bind_status'') (oa_status oi),
                 oa_callingUid := or_keep (int_field ''calling_uid'') (oa_callingUid oi),
                 oa_nickname := or_keep (GetJsonField_str j ''account_nickname'') (oa_nickname oi),
                 oa_avatar := or_keep (GetJsonField_str j ''account_avatar'') (oa_avatar oi),
                 oa_scalableData := or_keep (GetJsonField_str j ''account_scalableData'') (oa_scalableData oi)\<rparr>
      in a\<lparr>version := or_keep (int_field ''version'') (version a),
           bindTime := or_keep (GetJsonField_num j ''bind_time'') (bindTime a),
           createTime := or_keep (GetInt64FromJson j ''createTime'') (createTime a),
           ohosAccountInfo := o1, userId := u\<rparr>)"

definition GetAccountInfo ::
  "'z ohos_env_scheme \<Rightarrow> AccountInfo \<Rightarrow> int \<Rightarrow> fs_state \<Rightarrow> (ErrCode \<times> AccountInfo) \<times> fs_state" where
  "GetAccountInfo E a u fs =
     (if u < 0 then ((ERR_OSACCOUNT_SERVICE_MANAGER_ID_ERROR, a), fs)
      else let configFile = config_file u;
               (ret, fs1) = CheckFileExistence E configFile fs in
        if ret \<noteq> ERR_OK \<and> ret \<noteq> ERR_ACCOUNT_COMMON_FILE_NOT_EXIST
        then ((ERR_ACCOUNT_DATADEAL_INPUT_FILE_ERROR, a), fs1)
        else let fs2 = (if ret \<noteq> ERR_OK then BuildJsonFileFromScratch E u fs1 else fs1);
                 ((ret, jsonData), fs3) = ParseJsonFromFile E configFile u fs2 in
             if ret \<noteq> ERR_OK then ((ret, a), fs3)
             else ((ERR_OK, GetAccountInfoFromJson E jsonData a u), fs3))"

text \<open>The object's \<open>initOk_\<close> is the argument and the result \<open>initOk\<close>.\<close>

definition AccountInfoFromJson ::
  "'z ohos_env_scheme \<Rightarrow> bool \<Rightarrow> AccountInfo \<Rightarrow> int \<Rightarrow> fs_state \<Rightarrow> (ErrCode \<times> AccountInfo) \<times> fs_state" where
  "AccountInfoFromJson E initOk a u fs =
     (if \<not> initOk then ((ERR_ACCOUNT_DATADEAL_NOT_READY, a), fs) else GetAccountInfo E a u fs)"

definition AccountInfoToJson :: "'z ohos_env_scheme \<Rightarrow> bool \<Rightarrow> AccountInfo \<Rightarrow> fs_state \<Rightarrow> ErrCode \<times> fs_state" where
  "AccountInfoToJson E initOk a fs =
     (if \<not> initOk then (ERR_ACCOUNT_DATADEAL_NOT_READY, fs) else SaveAccountInfo E a fs)"

definition DataDeal_Init :: "'z ohos_env_scheme \<Rightarrow> int \<Rightarrow> bool \<Rightarrow> fs_state \<Rightarrow> (ErrCode \<times> bool) \<times> fs_state" where
  "DataDeal_Init E u initOk fs =
     (let configFile = config_file u;
          (ex, fs1) = IsExistFile E configFile fs;
          fs2 = (if \<not> ex then BuildJsonFileFromScratch E u fs1 else fs1);
          (exceeds, fs3) = IsFileSizeExceedsLimit E configFile MAX_ACCOUNT_JSON_FILE_SIZE fs2;
          fs4 = (if exceeds then BuildJsonFileFromScratch E u (snd (RemoveFile E configFile fs3)) else fs3);
          (content, fs5) = read_stream E configFile fs4 in
      case content of
        None \<Rightarrow> ((ERR_ACCOUNT_DATADEAL_INPUT_FILE_ERROR, initOk), fs5)
      | Some fileContent \<Rightarrow>
          if \<not> IsObject (CreateJsonFromString E fileContent)
          then ((ERR_ACCOUNT_DATADEAL_JSON_FILE_CORRUPTION, initOk), snd (RemoveFile E configFile fs5))
          else ((ERR_OK, True), fs5))"


section \<open>The stored form\<close>

text \<open>The object written for an account, and what it means that the files of its user hold it.\<close>

definition account_json :: "AccountInfo \<Rightarrow> json" where
  "account_json a = (let oi = ohosAccountInfo a in
     JObj [(''version'', JNum (version a)), (''bind_time'', JNum (to_int32 (bindTime a))),
       (''createTime'', JStr (c_str (to_string_int (createTime a)))), (''user_id'', JNum (userId a)),
       (''account_name'', JStr (c_str (oa_name oi))), (''raw_uid'', JStr (c_str (oa_rawUid oi))),
       (''open_id'', JStr (c_str (oa_uid oi))), (''bind_status'', JNum (oa_status oi)),
       (''calling_uid'', JNum (oa_callingUid oi)), (''account_nickname'', JStr (c_str (oa_nickname oi))),
       (''account_scalableData'', JStr (c_str (oa_scalableData oi)))])"

definition holds_account :: "'z ohos_env_scheme \<Rightarrow> AccountInfo \<Rightarrow> fs_state \<Rightarrow> bool" where
  "holds_account E a fs \<longleftrightarrow>
     fs_files fs (config_file (userId a)) = Some (PackJsonToString E (Some (account_json a)))
     \<and> fs_files fs (avatar_file (userId a)) = Some (oa_avatar (ohosAccountInfo a))"

text \<open>
  The values a record has in the program: 32 and 64 bit integers, C strings, a user id that is not
  negative, a bind time before 2038, and files below the limit of the readers.
\<close>

definition account_ok :: "'z ohos_env_scheme \<Rightarrow> AccountInfo \<Rightarrow> bool" where
  "account_ok E a \<longleftrightarrow> (let oi = ohosAccountInfo a in
     nul_free (oa_name oi) \<and> nul_free (oa_uid oi) \<and> nul_free (oa_nickname oi) \<and> nul_free (oa_avatar oi)
     \<and> nul_free (oa_scalableData oi) \<and> nul_free (oa_rawUid oi) \<and> int32 (oa_status oi) \<and> int32 (oa_callingUid oi)
     \<and> int32 (version a) \<and> int32 (bindTime a) \<and> int32 (userId a) \<and> 0 \<le> userId a
     \<and> - (2 ^ 63) \<le> createTime a \<and> createTime a < 2 ^ 63
     \<and> length (PackJsonToString E (Some (account_json a))) \<le> MAX_FILE_SIZE \<and> length (oa_avatar oi) \<le> MAX_FILE_SIZE)"

lemma Serialize_json: "SerializeAccountInfoToJson a = Some (account_json a)"
  by (simp add: SerializeAccountInfoToJson_def also_add_def AddStringToJson_def AddIntToJson_def AddInt64ToJson_def
      AddItem_def CreateJson_def obj_put_def account_json_def Let_def)

lemma to_int32_id: "int32 n \<Longrightarrow> to_int32 n = n"
  by (simp add: to_int32_def signed_of_int signed_take_bit_int_eq_self)

lemma account_json_wf: "account_ok E a \<Longrightarrow> json_wf (account_json a)"
  by (auto simp: account_json_def account_ok_def Let_def to_int32_id)

text \<open>Reading the object of an account, with its avatar filled in, gives the account.\<close>

lemma read_account_json:
  assumes "account_ok E a" and "cast_ok E"
  shows "GetAccountInfoFromJson E (Some (obj_put (account_json a) ''account_avatar'' (JStr (oa_avatar (ohosAccountInfo a))))) b (userId a)
    = a\<lparr>digest := digest b\<rparr>"
proof -
  let ?j = "obj_put (account_json a) ''account_avatar'' (JStr (oa_avatar (ohosAccountInfo a)))"
  have c: "GetInt64FromJson (Some ?j) ''createTime'' = Some (createTime a)"
    using assms(1) by (intro GetInt64_text) (simp_all add: account_json_def obj_put_def Let_def account_ok_def)
  have "cast_int E n = n" if "int32 n" for n using assms(2) that by (simp add: cast_ok_def)
  with assms(1) c show ?thesis
    by (simp add: GetAccountInfoFromJson_def GetJsonField_num_def GetJsonField_str_def IsKeyExist_def
        GetItemFromJson_def account_json_def obj_put_def Let_def account_ok_def or_keep_def to_int32_id)
qed


section \<open>The files of a user\<close>

definition user_file :: "int \<Rightarrow> string \<Rightarrow> string" where
  "user_file u name = ACCOUNT_CFG_DIR_ROOT_PATH @ to_string_int u @ CHR ''/'' # name"

lemma user_file_inject [simp]: "user_file u n = user_file v m \<longleftrightarrow> u = v \<and> n = m"
  using sep_append_inject [OF slash_free_to_string_int slash_free_to_string_int, of u n v m]
  by (auto simp: user_file_def)

lemma user_files:
  "config_file u = user_file u ''account.json''" "avatar_file u = user_file u ''account_avatar''"
  "GetTempFilePath (user_file u n) = user_file u (n @ ''.tmp'')"
  by (simp_all add: config_file_def avatar_file_def user_file_def GetTempFilePath_def)

lemma user_file_not_Nil [simp]: "user_file u n \<noteq> []"
  by (simp add: user_file_def)

lemma save_spec:
  assumes "SaveAccountInfo E a fs = (r, fs')"
  shows "(r = ERR_OK \<longrightarrow> holds_account E a fs')
    \<and> (r \<noteq> ERR_OK \<longrightarrow> fs_files fs' (config_file (userId a)) = fs_files fs (config_file (userId a)))
    \<and> fs_files fs' (avatar_file (userId a)) \<in> {fs_files fs (avatar_file (userId a)), Some (oa_avatar (ohosAccountInfo a))}
    \<and> (\<forall>u n. u \<noteq> userId a \<longrightarrow> fs_files fs' (user_file u n) = fs_files fs (user_file u n))"
proof -
  let ?u = "userId a" let ?j = "PackJsonToString E (Some (account_json a))"
  obtain r1 fs1 where 1: "InputFileByPathAndContentWithTransaction E (avatar_file ?u) (oa_avatar (ohosAccountInfo a)) fs = (r1, fs1)"
    by (metis prod.collapse)
  obtain r2 fs2 where 2: "InputFileByPathAndContent E (config_file ?u) ?j fs1 = (r2, fs2)" by (metis prod.collapse)
  have "(r, fs') = (if r1 \<noteq> ERR_OK then (r1, fs1) else (r2, fs2))"
    using assms by (auto simp: SaveAccountInfo_def Serialize_json 1 2 split: if_splits)
  with InputFileTransaction_spec [OF 1] InputFile_spec [OF 2] show ?thesis
    by (cases "r1 = ERR_OK"; cases "r2 = ERR_OK") (simp_all add: holds_account_def user_files)
qed

lemma quiet_save:
  assumes "os_quiet E"
  shows "fst (SaveAccountInfo E a fs) = ERR_OK"
  using quiet_write(1) [OF assms] quiet_write(2) [OF assms]
  by (simp add: SaveAccountInfo_def Serialize_json split_beta Let_def)

lemma quiet_stat:
  "os_quiet E \<Longrightarrow> fs_files fs p = Some s \<Longrightarrow> sys_stat E p fs = (S_ISREG, fs\<lparr>fs_tick := Suc (fs_tick fs)\<rparr>)"
  by (simp add: sys_stat_def quiet_sys_call_eq)

lemma quiet_load:
  assumes "os_quiet E" and "cjson_ok E" and "cast_ok E" and "holds_account E a fs" and "account_ok E a"
  shows "\<exists>fs'. GetAccountInfo E b (userId a) fs = ((ERR_OK, a\<lparr>digest := digest b\<rparr>), fs') \<and> fs_files fs' = fs_files fs"
proof -
  let ?u = "userId a" let ?c = "config_file ?u" let ?s = "PackJsonToString E (Some (account_json a))"
  have c: "fs_files fs ?c = Some ?s" and av: "fs_files fs (avatar_file ?u) = Some (oa_avatar (ohosAccountInfo a))"
    using assms(4) by (simp_all add: holds_account_def)
  have len: "length ?s \<le> 16777216" "length (oa_avatar (ohosAccountInfo a)) \<le> MAX_FILE_SIZE" and u: "0 \<le> ?u"
    and nf: "nul_free (oa_avatar (ohosAccountInfo a))"
    using assms(5) by (simp_all add: account_ok_def Let_def MAX_FILE_SIZE_def)
  let ?t = "\<lambda>n. fs\<lparr>fs_tick := fs_tick fs + n\<rparr>"
  have 1: "CheckFileExistence E ?c fs = (ERR_OK, ?t 1)"
    using c by (simp add: CheckFileExistence_def user_files RETRY_TIMES_def numeral_3_eq_3 quiet_stat [OF assms(1)])
  have 2: "IsFileSizeExceedsLimit E ?c MAX_ACCOUNT_JSON_FILE_SIZE (?t 1) = (False, ?t 2)"
    using c len by (simp add: IsFileSizeExceedsLimit_def user_files quiet_stat [OF assms(1)] MAX_ACCOUNT_JSON_FILE_SIZE_def)
  have 3: "read_stream E ?c (?t 2) = (Some ?s, ?t 4)"
    using c by (simp add: read_stream_def quiet_sys_call_eq [OF assms(1)])
  have 4: "CreateJsonFromString E ?s = Some (account_json a)"
    by (rule pack_then_create(3) [OF assms(2) account_json_wf [OF assms(5)]])
  obtain fs5 where 5: "GetFileContentByPath E (avatar_file ?u) [] (?t 4) = ((ERR_OK, oa_avatar (ohosAccountInfo a)), fs5)"
    using quiet_read [OF assms(1), of "avatar_file ?u" "?t 4" _ "[]"] av len(2) by (auto simp: user_files)
  have f: "fs_files fs5 = fs_files fs" using GetFileContentByPath_files [of E "avatar_file ?u" "[]" "?t 4"] by (simp add: 5)
  have "FillAvatarIntoJson E (Some (account_json a)) ?u (?t 4)
      = ((ERR_OK, Some (obj_put (account_json a) ''account_avatar'' (JStr (oa_avatar (ohosAccountInfo a))))), fs5)"
    using nf by (simp add: FillAvatarIntoJson_def IsKeyExist_def account_json_def Let_def 5 AddStringToJson_def AddItem_def)
  moreover have "IsObject (Some (account_json a))" by (simp add: IsObject_def account_json_def Let_def)
  ultimately have "ParseJsonFromFile E ?c ?u (?t 1)
      = ((ERR_OK, Some (obj_put (account_json a) ''account_avatar'' (JStr (oa_avatar (ohosAccountInfo a))))), fs5)"
    by (simp only: ParseJsonFromFile_def Let_def 2 3 4 prod.case option.case if_False simp_thms)
  then show ?thesis
    using f u read_account_json [OF assms(5,3)] by (simp add: GetAccountInfo_def Let_def 1)
qed

text \<open>
  Whatever the operating system does, saving an account either succeeds and the files of its user
  hold it, or fails and the account file is what it was, the avatar being the old or the new one;
  no file of another user changes.
\<close>

theorem save_account_safe:
  assumes "SaveAccountInfo E a fs = (r, fs')"
  shows "(if r = ERR_OK then holds_account E a fs'
      else fs_files fs' (config_file (userId a)) = fs_files fs (config_file (userId a))
        \<and> fs_files fs' (avatar_file (userId a)) \<in> {fs_files fs (avatar_file (userId a)), Some (oa_avatar (ohosAccountInfo a))})
    \<and> (\<forall>u n. u \<noteq> userId a \<longrightarrow> fs_files fs' (user_file u n) = fs_files fs (user_file u n))"
  using save_spec [OF assms] by simp

text \<open>
  When the system calls succeed, an account that is saved is read back, all fields but the digest,
  which is not stored.
\<close>

theorem save_then_read_account:
  assumes "os_quiet E" and "cjson_ok E" and "cast_ok E" and "account_ok E a"
  shows "\<exists>fs1 fs2. SaveAccountInfo E a fs = (ERR_OK, fs1)
    \<and> GetAccountInfo E AccountInfo_init (userId a) fs1 = ((ERR_OK, a\<lparr>digest := []\<rparr>), fs2)"
proof -
  obtain fs1 where s: "SaveAccountInfo E a fs = (ERR_OK, fs1)"
    using quiet_save [OF assms(1), of a fs] by (metis prod.collapse)
  with save_spec [OF s] have "holds_account E a fs1" by simp
  from quiet_load [OF assms(1-3) this assms(4), of AccountInfo_init] s show ?thesis
    by (auto simp: AccountInfo_init_def)
qed

section \<open>Witnesses\<close>

definition ohos_ref_env :: ohos_env where
  "ohos_ref_env = \<lparr>cj_parse = ref_read, cj_print = (\<lambda>j. Some (ref_print j)), sys_errno = (\<lambda>_. None),
     sys_short = (\<lambda>_. 0), space_ok = (\<lambda>_ _. True), cast_int = (\<lambda>n. n), time_now = (\<lambda>_. 7), now_ms = (\<lambda>_. 9)\<rparr>"

lemma ohos_ref_env_ok [simp]: "os_quiet ohos_ref_env" "cjson_ok ohos_ref_env" "cast_ok ohos_ref_env"
  by (simp_all add: ohos_ref_env_def ref_lib_ok os_quiet_def cast_ok_def)

definition demo_account :: "int \<Rightarrow> AccountInfo" where
  "demo_account s = \<lparr>ohosAccountInfo = \<lparr>oa_name = ''ann'', oa_uid = replicate 64 CHR ''0'', oa_status = s, oa_callingUid = 5,
     oa_nickname = ''a'', oa_avatar = ''img'', oa_scalableData = [], oa_rawUid = ''1234''\<rparr>,
     bindTime = 7, userId = 1, digest = [], version = 1, createTime = 9\<rparr>"

lemma small_numbers:
  "to_string_nat 0 = ''0''" "to_string_nat 1 = ''1''" "to_string_nat (Suc 0) = ''1''" "to_string_nat 4 = ''4''"
  "to_string_nat 5 = ''5''" "to_string_nat 7 = ''7''" "to_string_nat 9 = ''9''" "to_int32 7 = 7"
  by code_simp+

lemma demo_account_ok:
  assumes "cj_print E = (\<lambda>j. Some (ref_print j))" and "s \<in> {1, 4}"
  shows "account_ok E (demo_account s)"
  using assms by (auto simp: account_ok_def demo_account_def account_json_def PackJsonToString_def ref_str_def
      to_string_int_def small_numbers MAX_FILE_SIZE_def nul_free_def length_concat sum_list_replicate)

theorem save_account_witness:
  "holds_account ohos_ref_env (demo_account 1) (snd (SaveAccountInfo ohos_ref_env (demo_account 1) empty_fs))"
proof -
  obtain fs' where s: "SaveAccountInfo ohos_ref_env (demo_account 1) empty_fs = (ERR_OK, fs')"
    using quiet_save [OF ohos_ref_env_ok(1)] by (metis prod.collapse)
  with save_account_safe [OF s] show ?thesis by simp
qed

theorem save_then_read_witness:
  "\<exists>fs1 fs2. SaveAccountInfo ohos_ref_env (demo_account 1) empty_fs = (ERR_OK, fs1)
    \<and> GetAccountInfo ohos_ref_env AccountInfo_init 1 fs1 = ((ERR_OK, demo_account 1), fs2)"
  using save_then_read_account [OF ohos_ref_env_ok demo_account_ok [of _ 1], of empty_fs]
  by (simp add: ohos_ref_env_def demo_account_def)

end
