(* ===== verification/Ohos_Account_Manager.thy ===== *)
theory Ohos_Account_Manager
  imports Ohos_Account_Data
begin

unbundle bit_operations_syntax

text \<open>
  The distributed account manager (\<open>services/accountmgr/src/ohos_account_manager.cpp\<close>): login,
  logout, logoff and token expiry of the distributed account that is bound to an OS account, in the
  build without sub spaces. The handlers check the stored account, ask the state machine for the next
  state, write the account back and publish events, which the model collects in a list. SHA-256 and
  PBKDF2 are parameters that may fail to load. The calling uid and the answers of the OS account manager
  are arguments. Locks, logs and reports are left out.
\<close>

record ohos_mgr_env = ohos_env +
  SHA256 :: "string \<Rightarrow> u8 list option"
  PKCS5_PBKDF2_HMAC :: "string \<Rightarrow> string \<Rightarrow> u8 list option"

datatype common_event =
    COMMON_EVENT_HWID_LOGIN | COMMON_EVENT_HWID_LOGOUT | COMMON_EVENT_HWID_LOGOFF | COMMON_EVENT_HWID_TOKEN_INVALID
  | COMMON_EVENT_DISTRIBUTED_ACCOUNT_LOGIN | COMMON_EVENT_DISTRIBUTED_ACCOUNT_LOGOUT
  | COMMON_EVENT_DISTRIBUTED_ACCOUNT_LOGOFF | COMMON_EVENT_DISTRIBUTED_ACCOUNT_TOKEN_INVALID
  | COMMON_EVENT_DISTRIBUTED_ACCOUNT_BOUND | COMMON_EVENT_DISTRIBUTED_ACCOUNT_UNBOUND
  | COMMON_EVENT_USER_INFO_UPDATED

datatype published =
    Publish int DISTRIBUTED_ACCOUNT_SUBSCRIBE_TYPE
  | EventPublishAsUser common_event int
  | EventPublish common_event int

record ohos_mgr =
  om_fs :: fs_state
  om_initOk :: bool
  om_isInit :: bool
  om_subscribed :: bool
  om_state :: AccountStateMachine
  om_published :: "published list"

definition OHOS_ACCOUNT_EVENT_LOGIN :: string where "OHOS_ACCOUNT_EVENT_LOGIN = ''Ohos.account.event.LOGIN''"
definition OHOS_ACCOUNT_EVENT_LOGOUT :: string where "OHOS_ACCOUNT_EVENT_LOGOUT = ''Ohos.account.event.LOGOUT''"
definition OHOS_ACCOUNT_EVENT_TOKEN_INVALID :: string where
  "OHOS_ACCOUNT_EVENT_TOKEN_INVALID = ''Ohos.account.event.TOKEN_INVALID''"
definition OHOS_ACCOUNT_EVENT_LOGOFF :: string where "OHOS_ACCOUNT_EVENT_LOGOFF = ''Ohos.account.event.LOGOFF''"

lemmas event_name_defs = OHOS_ACCOUNT_EVENT_LOGIN_def OHOS_ACCOUNT_EVENT_LOGOUT_def
  OHOS_ACCOUNT_EVENT_TOKEN_INVALID_def OHOS_ACCOUNT_EVENT_LOGOFF_def

definition MAX_NAME_LENGTH :: nat where "MAX_NAME_LENGTH = 256"
definition MAX_UID_LENGTH :: nat where "MAX_UID_LENGTH = 512"
definition HASH_LENGTH :: nat where "HASH_LENGTH = 32"
definition OHOS_ACCOUNT_UDID_LENGTH :: nat where "OHOS_ACCOUNT_UDID_LENGTH = HASH_LENGTH * 2"
definition DEFAULT_ANON_STR :: string where "DEFAULT_ANON_STR = ''**********''"

section \<open>Identifiers\<close>

definition hex_char :: "nat \<Rightarrow> char" where
  "hex_char d = (if d < 10 then digit_char d else char_of (55 + d))"

definition hex_byte :: "u8 \<Rightarrow> string" where
  "hex_byte b = [hex_char (unat b div 16), hex_char (unat b mod 16)]"

definition ReturnOhosUdidWithSha256 :: "'z ohos_mgr_env_scheme \<Rightarrow> string \<Rightarrow> string" where
  "ReturnOhosUdidWithSha256 E uid =
     (case SHA256 E uid of None \<Rightarrow> [] | Some hash \<Rightarrow> concat (map hex_byte (take HASH_LENGTH hash)))"

definition GenerateOhosUdidWithSha256 :: "'z ohos_mgr_env_scheme \<Rightarrow> string \<Rightarrow> string \<Rightarrow> string" where
  "GenerateOhosUdidWithSha256 E name uid =
     (if name = [] \<or> length name > MAX_NAME_LENGTH then []
      else if uid = [] \<or> length uid > MAX_UID_LENGTH then []
      else ReturnOhosUdidWithSha256 E uid)"

text \<open>\<open>DexToHexString\<close> prints no leading zero, so the loop puts it in front.\<close>

definition GenerateDVID :: "'z ohos_mgr_env_scheme \<Rightarrow> string \<Rightarrow> string \<Rightarrow> string" where
  "GenerateDVID E bundleName uid =
     (case PKCS5_PBKDF2_HMAC E uid bundleName of
        None \<Rightarrow> []
      | Some newId \<Rightarrow> concat (map (\<lambda>b.
          (if b AND 0xF0 = 0 then ''0'' else []) @
          (if unat b < 16 then [hex_char (unat b)] else hex_byte b)) newId))"

definition ExtractFirstUtf8Char :: "string \<Rightarrow> string" where
  "ExtractFirstUtf8Char str =
     (case str of
        [] \<Rightarrow> []
      | c # _ \<Rightarrow>
          let firstByte = (of_char c :: u8) in
          if firstByte AND 0x80 = 0x00 then take 1 str
          else if firstByte AND 0xE0 = 0xC0 then take 2 str
          else if firstByte AND 0xF0 = 0xE0 then take 3 str
          else if firstByte AND 0xF8 = 0xF0 then take 4 str
          else [])"

definition AnonymizeOhosAccountInfo :: "'z ohos_mgr_env_scheme \<Rightarrow> string \<Rightarrow> OhosAccountInfo \<Rightarrow> OhosAccountInfo" where
  "AnonymizeOhosAccountInfo E bundleName i =
     (let i1 = (if \<not> (oa_uid i = DEFAULT_OHOS_ACCOUNT_UID \<or> oa_uid i = [])
                then i\<lparr>oa_uid := GenerateDVID E bundleName (oa_rawUid i)\<rparr> else i);
          i2 = (if \<not> (oa_name i1 = DEFAULT_OHOS_ACCOUNT_NAME \<or> oa_name i1 = [])
                then i1\<lparr>oa_name := ExtractFirstUtf8Char (oa_name i1) @ DEFAULT_ANON_STR\<rparr> else i1);
          i3 = (if oa_nickname i2 \<noteq> []
                then i2\<lparr>oa_nickname := ExtractFirstUtf8Char (oa_nickname i2) @ DEFAULT_ANON_STR\<rparr> else i2);
          i4 = (if oa_avatar i3 \<noteq> [] then i3\<lparr>oa_avatar := DEFAULT_ANON_STR\<rparr> else i3)
      in i4\<lparr>oa_scalableData := []\<rparr>)"

section \<open>Checks\<close>

definition CheckEventValid :: "bool \<Rightarrow> string \<Rightarrow> int option" where
  "CheckEventValid subspace eventStr =
     map_of [(OHOS_ACCOUNT_EVENT_LOGIN, ACCOUNT_BIND_SUCCESS_EVT),
       (OHOS_ACCOUNT_EVENT_LOGOUT, if subspace then ACCOUNT_MANUAL_LOGOUT_EVT else ACCOUNT_MANUAL_UNBOUND_EVT),
       (OHOS_ACCOUNT_EVENT_TOKEN_INVALID, ACCOUNT_TOKEN_EXPIRED_EVT),
       (OHOS_ACCOUNT_EVENT_LOGOFF, ACCOUNT_MANUAL_LOGOFF_EVT)] eventStr"

definition HandleEvent ::
  "bool \<Rightarrow> string \<Rightarrow> AccountInfo \<Rightarrow> ohos_mgr \<Rightarrow> bool \<times> AccountInfo \<times> ohos_mgr" where
  "HandleEvent subspace eventStr a st =
     (case CheckEventValid subspace eventStr of
        None \<Rightarrow> (False, a, st)
      | Some event \<Rightarrow>
          let (ret, sm) = StateChangeProcess event (SetAccountState (oa_status (ohosAccountInfo a)) (om_state st));
              st1 = st\<lparr>om_state := sm\<rparr> in
          if \<not> ret then (False, a, st1)
          else let newState = currentState sm in
               (True, if newState \<noteq> oa_status (ohosAccountInfo a)
                      then a\<lparr>ohosAccountInfo := (ohosAccountInfo a)\<lparr>oa_status := newState\<rparr>\<rparr> else a, st1))"

definition CheckOhosAccountCanBind :: "AccountInfo \<Rightarrow> OhosAccountInfo \<Rightarrow> string \<Rightarrow> ErrCode" where
  "CheckOhosAccountCanBind cur new newOhosUid =
     (if length newOhosUid \<noteq> OHOS_ACCOUNT_UDID_LENGTH then ERR_ACCOUNT_COMMON_INVALID_PARAMETER
      else if oa_status (ohosAccountInfo cur) = ACCOUNT_STATE_LOGIN
        \<and> (oa_uid (ohosAccountInfo cur) \<noteq> newOhosUid \<or> oa_name (ohosAccountInfo cur) \<noteq> oa_name new)
      then ERR_ACCOUNT_COMMON_ACCOUNT_NOT_EXIST_ERROR
      else ERR_OK)"

definition CheckSameDistributedAccount :: "'z ohos_mgr_env_scheme \<Rightarrow> OhosAccountInfo \<Rightarrow> OhosAccountInfo \<Rightarrow> bool" where
  "CheckSameDistributedAccount E cur new \<longleftrightarrow>
     oa_name new = oa_name cur \<and> GenerateOhosUdidWithSha256 E (oa_name new) (oa_uid new) = oa_uid cur"

definition read_account ::
  "'z ohos_mgr_env_scheme \<Rightarrow> int \<Rightarrow> ohos_mgr \<Rightarrow> (ErrCode \<times> AccountInfo) \<times> ohos_mgr" where
  "read_account E u st =
     (let (x, fs) = AccountInfoFromJson E (om_initOk st) AccountInfo_init u (om_fs st) in (x, st\<lparr>om_fs := fs\<rparr>))"

definition GetCurOhosAccountAndCheckMatch ::
  "'z ohos_mgr_env_scheme \<Rightarrow> string \<Rightarrow> string \<Rightarrow> int \<Rightarrow> ohos_mgr \<Rightarrow> (ErrCode \<times> AccountInfo) \<times> ohos_mgr" where
  "GetCurOhosAccountAndCheckMatch E inputName inputUid u st =
     (let ((errCode, cur), st1) = read_account E u st in
      if errCode \<noteq> ERR_OK then ((errCode, cur), st1)
      else if \<not> CheckSameDistributedAccount E (ohosAccountInfo cur)
                 (OhosAccountInfo_init\<lparr>oa_name := inputName, oa_uid := inputUid\<rparr>)
      then ((ERR_ACCOUNT_COMMON_ACCOUNT_NOT_EXIST_ERROR, cur), st1)
      else ((ERR_OK, cur), st1))"

section \<open>Saving and publishing\<close>

definition SaveOhosAccountInfo :: "'z ohos_mgr_env_scheme \<Rightarrow> AccountInfo \<Rightarrow> ohos_mgr \<Rightarrow> ErrCode \<times> ohos_mgr" where
  "SaveOhosAccountInfo E a st =
     (let (r, fs) = AccountInfoToJson E (om_initOk st) a (om_fs st) in (r, st\<lparr>om_fs := fs\<rparr>))"

definition ClearOhosAccount :: "'z ohos_mgr_env_scheme \<Rightarrow> AccountInfo \<Rightarrow> int \<Rightarrow> ohos_mgr \<Rightarrow> ErrCode \<times> ohos_mgr" where
  "ClearOhosAccount E a clrStatus st = SaveOhosAccountInfo E (AccountInfo_clear clrStatus a) st"

definition publish_all :: "published list \<Rightarrow> ohos_mgr \<Rightarrow> ohos_mgr" where
  "publish_all ps st = st\<lparr>om_published := om_published st @ ps\<rparr>"

definition PublishLoginEvents :: "int \<Rightarrow> int \<Rightarrow> ohos_mgr \<Rightarrow> ErrCode \<times> ohos_mgr" where
  "PublishLoginEvents u originalStatus st =
     (let st1 = (if originalStatus = ACCOUNT_STATE_UNBOUND
                 then publish_all [Publish u BOUND, EventPublishAsUser COMMON_EVENT_DISTRIBUTED_ACCOUNT_BOUND u] st
                 else st);
          st2 = publish_all [Publish u LOGIN] st1 in
      if originalStatus = ACCOUNT_STATE_LOGIN
      then (ERR_OK, (publish_all [EventPublish COMMON_EVENT_USER_INFO_UPDATED u] st2)\<lparr>om_subscribed := True\<rparr>)
      else (ERR_OK, (publish_all [EventPublishAsUser COMMON_EVENT_HWID_LOGIN u,
                       EventPublishAsUser COMMON_EVENT_DISTRIBUTED_ACCOUNT_LOGIN u] st2)\<lparr>om_subscribed := True\<rparr>))"

section \<open>The handlers\<close>

definition UpdateOhosAccountInfo ::
  "'z ohos_mgr_env_scheme \<Rightarrow> int \<Rightarrow> OhosAccountInfo \<Rightarrow> string \<Rightarrow> nat \<Rightarrow> AccountInfo \<Rightarrow> AccountInfo" where
  "UpdateOhosAccountInfo E callingUid new ohosAccountUid tick a =
     a\<lparr>ohosAccountInfo := new\<lparr>oa_rawUid := oa_uid new, oa_uid := ohosAccountUid,
          oa_status := ACCOUNT_STATE_LOGIN, oa_callingUid := callingUid\<rparr>,
       bindTime := time_now E tick, version := ACCOUNT_VERSION_ANON\<rparr>"

definition LoginOhosAccount ::
  "'z ohos_mgr_env_scheme \<Rightarrow> int \<Rightarrow> int \<Rightarrow> OhosAccountInfo \<Rightarrow> string \<Rightarrow> ohos_mgr \<Rightarrow> ErrCode \<times> ohos_mgr" where
  "LoginOhosAccount E callingUid u new eventStr st =
     (let ((res, cur), st1) = read_account E u st in
      if res \<noteq> ERR_OK then (res, st1)
      else let ohosAccountUid = GenerateOhosUdidWithSha256 E (oa_name new) (oa_uid new) in
        if CheckOhosAccountCanBind cur new ohosAccountUid \<noteq> ERR_OK
        then (ERR_ACCOUNT_COMMON_ACCOUNT_NOT_EXIST_ERROR, st1)
        else let originalStatus = oa_status (ohosAccountInfo cur);
                 (handled, cur, st2) = HandleEvent False eventStr cur st1 in
          if \<not> handled then (ERR_ACCOUNT_ZIDL_ACCOUNT_SERVICE_ERROR, st2)
          else let cur = UpdateOhosAccountInfo E callingUid new ohosAccountUid (fs_tick (om_fs st2)) cur;
                   (saveErr, st3) = SaveOhosAccountInfo E cur st2 in
               if saveErr \<noteq> ERR_OK then (ERR_ACCOUNT_ZIDL_ACCOUNT_SERVICE_ERROR, st3)
               else PublishLoginEvents u originalStatus st3)"

text \<open>Logout and logoff have the same body up to the event they publish.\<close>

definition leave_account ::
  "'z ohos_mgr_env_scheme \<Rightarrow> published list \<Rightarrow> int \<Rightarrow> OhosAccountInfo \<Rightarrow> string \<Rightarrow> ohos_mgr \<Rightarrow> ErrCode \<times> ohos_mgr" where
  "leave_account E events u info eventStr st =
     (let ((matchErr, cur), st1) = GetCurOhosAccountAndCheckMatch E (oa_name info) (oa_uid info) u st in
      if matchErr \<noteq> ERR_OK then (ERR_ACCOUNT_COMMON_ACCOUNT_NOT_EXIST_ERROR, st1)
      else let (ret, cur, st2) = HandleEvent False eventStr cur st1 in
        if \<not> ret then (ERR_ACCOUNT_ZIDL_ACCOUNT_SERVICE_ERROR, st2)
        else let (clearErr, st3) = ClearOhosAccount E cur ACCOUNT_STATE_UNBOUND st2 in
             if clearErr \<noteq> ERR_OK then (ERR_ACCOUNT_ZIDL_ACCOUNT_SERVICE_ERROR, st3)
             else (ERR_OK, publish_all events st3))"

definition LogoutOhosAccount ::
  "'z ohos_mgr_env_scheme \<Rightarrow> int \<Rightarrow> OhosAccountInfo \<Rightarrow> string \<Rightarrow> ohos_mgr \<Rightarrow> ErrCode \<times> ohos_mgr" where
  "LogoutOhosAccount E u = leave_account E
     [Publish u LOGOUT, Publish u UNBOUND, EventPublishAsUser COMMON_EVENT_HWID_LOGOUT u,
      EventPublishAsUser COMMON_EVENT_DISTRIBUTED_ACCOUNT_LOGOUT u,
      EventPublishAsUser COMMON_EVENT_DISTRIBUTED_ACCOUNT_UNBOUND u] u"

definition LogoffOhosAccount ::
  "'z ohos_mgr_env_scheme \<Rightarrow> int \<Rightarrow> OhosAccountInfo \<Rightarrow> string \<Rightarrow> ohos_mgr \<Rightarrow> ErrCode \<times> ohos_mgr" where
  "LogoffOhosAccount E u = leave_account E
     [Publish u LOGOFF, Publish u UNBOUND, EventPublishAsUser COMMON_EVENT_HWID_LOGOFF u,
      EventPublishAsUser COMMON_EVENT_DISTRIBUTED_ACCOUNT_LOGOFF u,
      EventPublishAsUser COMMON_EVENT_DISTRIBUTED_ACCOUNT_UNBOUND u] u"

definition HandleOhosAccountTokenInvalidEvent ::
  "'z ohos_mgr_env_scheme \<Rightarrow> int \<Rightarrow> OhosAccountInfo \<Rightarrow> string \<Rightarrow> ohos_mgr \<Rightarrow> ErrCode \<times> ohos_mgr" where
  "HandleOhosAccountTokenInvalidEvent E u info eventStr st =
     (let ((matchErr, cur), st1) = GetCurOhosAccountAndCheckMatch E (oa_name info) (oa_uid info) u st in
      if matchErr \<noteq> ERR_OK then (ERR_ACCOUNT_COMMON_ACCOUNT_NOT_EXIST_ERROR, st1)
      else let (ret, cur, st2) = HandleEvent False eventStr cur st1 in
        if \<not> ret then (ERR_ACCOUNT_ZIDL_ACCOUNT_SERVICE_ERROR, st2)
        else let (_, st3) = SaveOhosAccountInfo E cur st2 in
             (ERR_OK, publish_all [Publish u TOKEN_INVALID, EventPublishAsUser COMMON_EVENT_HWID_TOKEN_INVALID u,
                EventPublishAsUser COMMON_EVENT_DISTRIBUTED_ACCOUNT_TOKEN_INVALID u] st3))"

definition OhosAccountStateChange ::
  "'z ohos_mgr_env_scheme \<Rightarrow> int \<Rightarrow> int \<Rightarrow> OhosAccountInfo \<Rightarrow> string \<Rightarrow> ohos_mgr \<Rightarrow> ErrCode \<times> ohos_mgr" where
  "OhosAccountStateChange E callingUid u info eventStr st =
     (if eventStr = OHOS_ACCOUNT_EVENT_LOGIN then LoginOhosAccount E callingUid u info eventStr st
      else if eventStr = OHOS_ACCOUNT_EVENT_LOGOUT then LogoutOhosAccount E u info eventStr st
      else if eventStr = OHOS_ACCOUNT_EVENT_LOGOFF then LogoffOhosAccount E u info eventStr st
      else if eventStr = OHOS_ACCOUNT_EVENT_TOKEN_INVALID then HandleOhosAccountTokenInvalidEvent E u info eventStr st
      else (ERR_ACCOUNT_COMMON_INVALID_PARAMETER, st))"

definition ClearMainAccountIfMatch :: "'z ohos_mgr_env_scheme \<Rightarrow> int \<Rightarrow> int \<Rightarrow> ohos_mgr \<Rightarrow> ohos_mgr" where
  "ClearMainAccountIfMatch E localId bundleUid st =
     (let ((r, a), st1) = read_account E localId st in
      if r \<noteq> ERR_OK then st1
      else if oa_callingUid (ohosAccountInfo a) \<noteq> bundleUid \<or> oa_status (ohosAccountInfo a) = ACCOUNT_STATE_UNBOUND
      then st1
      else let (_, st2) = ClearOhosAccount E a ACCOUNT_STATE_UNBOUND st1 in
           publish_all [Publish localId LOGOUT, Publish localId UNBOUND, EventPublishAsUser COMMON_EVENT_HWID_LOGOUT localId,
             EventPublishAsUser COMMON_EVENT_DISTRIBUTED_ACCOUNT_LOGOUT localId,
             EventPublishAsUser COMMON_EVENT_DISTRIBUTED_ACCOUNT_UNBOUND localId] st2)"

text \<open>\<open>None\<close> is an OS account manager that does not answer.\<close>

definition OnPackageRemoved :: "'z ohos_mgr_env_scheme \<Rightarrow> int list option \<Rightarrow> int \<Rightarrow> ohos_mgr \<Rightarrow> ohos_mgr" where
  "OnPackageRemoved E localIds callingUid st =
     (case localIds of None \<Rightarrow> st
      | Some ids \<Rightarrow> fold (\<lambda>i. ClearMainAccountIfMatch E i callingUid) ids st)"

definition DEVICE_ACCOUNT_OWNER :: int where "DEVICE_ACCOUNT_OWNER = 0"

fun init_loop :: "'z ohos_mgr_env_scheme \<Rightarrow> nat \<Rightarrow> ohos_mgr \<Rightarrow> bool \<times> ohos_mgr" where
  "init_loop E 0 st = (True, st)"
| "init_loop E (Suc n) st =
     (let ((errCode, ok), fs) = DataDeal_Init E DEVICE_ACCOUNT_OWNER (om_initOk st) (om_fs st);
          st1 = st\<lparr>om_initOk := ok, om_fs := fs\<rparr> in
      if errCode = ERR_OK then (True, st1)
      else if n = 0 \<or> errCode \<noteq> ERR_ACCOUNT_DATADEAL_JSON_FILE_CORRUPTION then (False, st1)
      else init_loop E n st1)"

definition MAX_RETRY_TIMES :: nat where "MAX_RETRY_TIMES = 2"

definition OhosAccountManager_OnInitialize :: "'z ohos_mgr_env_scheme \<Rightarrow> ohos_mgr \<Rightarrow> bool \<times> ohos_mgr" where
  "OhosAccountManager_OnInitialize E st =
     (if om_isInit st then (True, st)
      else let (ok, st1) = init_loop E MAX_RETRY_TIMES st in
           if ok then (True, st1\<lparr>om_isInit := True\<rparr>) else (False, st1))"

definition GetAccountInfoByUserId ::
  "'z ohos_mgr_env_scheme \<Rightarrow> int \<Rightarrow> int \<Rightarrow> ohos_mgr \<Rightarrow> (ErrCode \<times> AccountInfo) \<times> ohos_mgr" where
  "GetAccountInfoByUserId E callingUserId u st =
     (let ((ret, a), st1) = read_account E (if u = 0 then callingUserId else u) st in
      if ret \<noteq> ERR_OK then ((ret, AccountInfo_clear ACCOUNT_STATE_UNBOUND a), st1) else ((ERR_OK, a), st1))"

text \<open>The calling application: \<open>(bundleName, isSystemApp)\<close>.\<close>

definition GetOhosAccountDistributedInfo ::
  "'z ohos_mgr_env_scheme \<Rightarrow> string \<times> bool \<Rightarrow> int \<Rightarrow> int \<Rightarrow> ohos_mgr \<Rightarrow> (ErrCode \<times> OhosAccountInfo option) \<times> ohos_mgr" where
  "GetOhosAccountDistributedInfo E caller callingUserId u st =
     (let ((ret, a), st1) = GetAccountInfoByUserId E callingUserId u st in
      if ret \<noteq> ERR_OK then ((ret, None), st1)
      else let i = ohosAccountInfo a in
        if oa_rawUid i = DEFAULT_OHOS_ACCOUNT_UID \<or> version a = ACCOUNT_VERSION_DEFAULT then ((ERR_OK, Some i), st1)
        else if snd caller \<or> fst caller = [] then ((ERR_OK, Some i), st1)
        else ((ERR_OK, Some (AnonymizeOhosAccountInfo E (fst caller) i)), st1))"


section \<open>The abstract account\<close>

text \<open>
  What an event does to the account of a user, without files: the result code and the account
  afterwards. \<open>hash\<close> is the identifier computed from the account that the caller names.
\<close>

definition same_account :: "string \<Rightarrow> OhosAccountInfo \<Rightarrow> AccountInfo \<Rightarrow> bool" where
  "same_account hash new a \<longleftrightarrow> oa_name new = oa_name (ohosAccountInfo a) \<and> hash = oa_uid (ohosAccountInfo a)"

definition set_status :: "int \<Rightarrow> AccountInfo \<Rightarrow> AccountInfo" where
  "set_status s a = a\<lparr>ohosAccountInfo := (ohosAccountInfo a)\<lparr>oa_status := s\<rparr>\<rparr>"

definition account_step ::
  "string \<Rightarrow> string \<Rightarrow> OhosAccountInfo \<Rightarrow> int \<Rightarrow> int \<Rightarrow> AccountInfo \<Rightarrow> ErrCode \<times> AccountInfo" where
  "account_step event hash new callingUid now a =
     (let s = oa_status (ohosAccountInfo a);
          known = s \<in> {ACCOUNT_STATE_UNBOUND, ACCOUNT_STATE_LOGIN, ACCOUNT_STATE_TOKEN_EXPIRED} in
      if event = OHOS_ACCOUNT_EVENT_LOGIN
      then if length hash \<noteq> 64 \<or> s = ACCOUNT_STATE_LOGIN \<and> \<not> same_account hash new a
           then (ERR_ACCOUNT_COMMON_ACCOUNT_NOT_EXIST_ERROR, a)
           else if \<not> known then (ERR_ACCOUNT_ZIDL_ACCOUNT_SERVICE_ERROR, a)
           else (ERR_OK, a\<lparr>ohosAccountInfo := new\<lparr>oa_rawUid := oa_uid new, oa_uid := hash,
                   oa_status := ACCOUNT_STATE_LOGIN, oa_callingUid := callingUid\<rparr>,
                   bindTime := now, version := ACCOUNT_VERSION_ANON\<rparr>)
      else if event \<notin> {OHOS_ACCOUNT_EVENT_LOGOUT, OHOS_ACCOUNT_EVENT_LOGOFF, OHOS_ACCOUNT_EVENT_TOKEN_INVALID}
      then (ERR_ACCOUNT_COMMON_INVALID_PARAMETER, a)
      else if \<not> same_account hash new a then (ERR_ACCOUNT_COMMON_ACCOUNT_NOT_EXIST_ERROR, a)
      else if \<not> known \<or> event = OHOS_ACCOUNT_EVENT_LOGOUT \<and> s = ACCOUNT_STATE_TOKEN_EXPIRED
      then (ERR_ACCOUNT_ZIDL_ACCOUNT_SERVICE_ERROR, a)
      else if event = OHOS_ACCOUNT_EVENT_TOKEN_INVALID
      then (ERR_OK, if s = ACCOUNT_STATE_UNBOUND then a else set_status ACCOUNT_STATE_TOKEN_EXPIRED a)
      else (ERR_OK, AccountInfo_clear ACCOUNT_STATE_UNBOUND a))"

definition table_next :: "int \<Rightarrow> int \<Rightarrow> int option" where
  "table_next s e = (case OnInitialize False s of None \<Rightarrow> None
     | Some row \<Rightarrow> (case row e of None \<Rightarrow> None | Some None \<Rightarrow> Some s | Some (Some act) \<Rightarrow> Some (GetNextState act)))"

lemma set_status_same: "oa_status (ohosAccountInfo a) = s \<Longrightarrow> set_status s a = a"
  by (auto simp: set_status_def)

lemma HandleEvent_table:
  assumes "stateMachineMap (om_state st) = OnInitialize False" and "CheckEventValid False ev = Some e"
  shows "\<exists>sm. stateMachineMap sm = OnInitialize False \<and> HandleEvent False ev a st =
    (case table_next (oa_status (ohosAccountInfo a)) e of None \<Rightarrow> (False, a, st\<lparr>om_state := sm\<rparr>)
     | Some s \<Rightarrow> (True, set_status s a, st\<lparr>om_state := sm\<rparr>))"
  using assms
  by (intro exI [of _ "(om_state st)\<lparr>currentState := or_keep (table_next (oa_status (ohosAccountInfo a)) e)
        (oa_status (ohosAccountInfo a))\<rparr>"])
    (auto simp: HandleEvent_def StateChangeProcess_def SetAccountState_def table_next_def set_status_def or_keep_def
      Let_def split: option.split)

lemma table_next_eval:
  "table_next s ACCOUNT_BIND_SUCCESS_EVT = (if s \<in> {0, 1, 4} then Some 1 else None)"
  "table_next s ACCOUNT_MANUAL_UNBOUND_EVT = (if s \<in> {0, 1} then Some 0 else None)"
  "table_next s ACCOUNT_MANUAL_LOGOFF_EVT = (if s \<in> {0, 1, 4} then Some 0 else None)"
  "table_next s ACCOUNT_TOKEN_EXPIRED_EVT = (if s = 0 then Some 0 else if s \<in> {1, 4} then Some 4 else None)"
  by (simp_all add: table_next_def OnInitialize_def short_row_def state_defs event_defs)

lemma CheckEventValid_eval:
  "CheckEventValid False OHOS_ACCOUNT_EVENT_LOGIN = Some ACCOUNT_BIND_SUCCESS_EVT"
  "CheckEventValid False OHOS_ACCOUNT_EVENT_LOGOUT = Some ACCOUNT_MANUAL_UNBOUND_EVT"
  "CheckEventValid False OHOS_ACCOUNT_EVENT_LOGOFF = Some ACCOUNT_MANUAL_LOGOFF_EVT"
  "CheckEventValid False OHOS_ACCOUNT_EVENT_TOKEN_INVALID = Some ACCOUNT_TOKEN_EXPIRED_EVT"
  by (simp_all add: CheckEventValid_def event_name_defs)

section \<open>The manager implements the abstract account\<close>

definition mgr_ready :: "'z ohos_mgr_env_scheme \<Rightarrow> ohos_mgr \<Rightarrow> bool" where
  "mgr_ready E st \<longleftrightarrow> os_quiet E \<and> cjson_ok E \<and> cast_ok E \<and> om_initOk st
     \<and> stateMachineMap (om_state st) = OnInitialize False"

lemma ready_read:
  assumes "mgr_ready E st" and "holds_account E a (om_fs st)" and "account_ok E a" and "digest a = []"
  shows "\<exists>fs. read_account E (userId a) st = ((ERR_OK, a), st\<lparr>om_fs := fs\<rparr>) \<and> fs_files fs = fs_files (om_fs st)"
  using quiet_load [of E a "om_fs st" AccountInfo_init] assms
  by (auto simp: mgr_ready_def read_account_def AccountInfoFromJson_def AccountInfo_init_def)

lemma ready_save:
  assumes "mgr_ready E st"
  shows "\<exists>fs. SaveOhosAccountInfo E a st = (ERR_OK, st\<lparr>om_fs := fs\<rparr>) \<and> holds_account E a fs"
proof -
  obtain fs where s: "SaveAccountInfo E a (om_fs st) = (ERR_OK, fs)"
    using quiet_save [of E a "om_fs st"] assms by (metis mgr_ready_def prod.collapse)
  with save_spec [OF s] assms show ?thesis
    by (auto simp: SaveOhosAccountInfo_def AccountInfoToJson_def mgr_ready_def)
qed

lemma save_holds:
  assumes "SaveOhosAccountInfo E a st = (ERR_OK, st')"
  shows "holds_account E a (om_fs st')"
proof -
  obtain r fs where s: "SaveAccountInfo E a (om_fs st) = (r, fs)" by (metis prod.collapse)
  with assms save_spec [OF s] show ?thesis
    by (auto simp: SaveOhosAccountInfo_def AccountInfoToJson_def split: if_splits)
qed

lemma holds_files: "fs_files fs = fs_files fs' \<Longrightarrow> holds_account E a fs = holds_account E a fs'"
  by (simp add: holds_account_def)

lemma publish_all_simps [simp]:
  "om_fs (publish_all ps st) = om_fs st" "om_state (publish_all ps st) = om_state st"
  "om_initOk (publish_all ps st) = om_initOk st"
  by (simp_all add: publish_all_def)

definition login_events :: "int \<Rightarrow> int \<Rightarrow> published list" where
  "login_events u s =
     (if s = ACCOUNT_STATE_UNBOUND then [Publish u BOUND, EventPublishAsUser COMMON_EVENT_DISTRIBUTED_ACCOUNT_BOUND u] else [])
     @ [Publish u LOGIN]
     @ (if s = ACCOUNT_STATE_LOGIN then [EventPublish COMMON_EVENT_USER_INFO_UPDATED u]
        else [EventPublishAsUser COMMON_EVENT_HWID_LOGIN u, EventPublishAsUser COMMON_EVENT_DISTRIBUTED_ACCOUNT_LOGIN u])"

lemma PublishLoginEvents_ok:
  "PublishLoginEvents u s st = (ERR_OK, (publish_all (login_events u s) st)\<lparr>om_subscribed := True\<rparr>)"
  by (simp add: PublishLoginEvents_def publish_all_def login_events_def Let_def)

lemma ready_event:
  assumes "mgr_ready E st" and "holds_account E a (om_fs st)" and "account_ok E a" and "digest a = []"
    and "CheckEventValid False ev = Some e"
  obtains st1 st2 where "read_account E (userId a) st = ((ERR_OK, a), st1)"
    and "HandleEvent False ev a st1 = (case table_next (oa_status (ohosAccountInfo a)) e of None \<Rightarrow> (False, a, st2)
           | Some s \<Rightarrow> (True, set_status s a, st2))"
    and "mgr_ready E st1" "holds_account E a (om_fs st1)" "om_published st1 = om_published st"
    and "mgr_ready E st2" "holds_account E a (om_fs st2)" "om_published st2 = om_published st"
proof -
  obtain fs where r: "read_account E (userId a) st = ((ERR_OK, a), st\<lparr>om_fs := fs\<rparr>)"
    and f: "fs_files fs = fs_files (om_fs st)" using ready_read [OF assms(1-4)] by blast
  let ?st1 = "st\<lparr>om_fs := fs\<rparr>"
  have r1: "mgr_ready E ?st1" and h1: "holds_account E a fs"
    using assms(1,2) holds_files [OF f] by (auto simp: mgr_ready_def)
  obtain sm where sm: "stateMachineMap sm = OnInitialize False"
    and he: "HandleEvent False ev a ?st1 = (case table_next (oa_status (ohosAccountInfo a)) e of
       None \<Rightarrow> (False, a, ?st1\<lparr>om_state := sm\<rparr>) | Some s \<Rightarrow> (True, set_status s a, ?st1\<lparr>om_state := sm\<rparr>))"
    using HandleEvent_table [OF _ assms(5), of ?st1 a] r1 unfolding mgr_ready_def by blast
  show thesis
    by (rule that [OF r he r1]) (use r1 h1 sm in \<open>simp_all add: mgr_ready_def\<close>)
qed

lemma known_states:
  "(s = ACCOUNT_STATE_UNBOUND \<or> s = ACCOUNT_STATE_LOGIN \<or> s = ACCOUNT_STATE_TOKEN_EXPIRED) \<longleftrightarrow> s \<in> {0, 1, 4}"
  by (simp add: state_defs)

definition account_events :: "string \<Rightarrow> int \<Rightarrow> int \<Rightarrow> published list" where
  "account_events ev u s =
     (if ev = OHOS_ACCOUNT_EVENT_LOGIN then login_events u s
      else if ev = OHOS_ACCOUNT_EVENT_LOGOUT
      then [Publish u LOGOUT, Publish u UNBOUND, EventPublishAsUser COMMON_EVENT_HWID_LOGOUT u,
        EventPublishAsUser COMMON_EVENT_DISTRIBUTED_ACCOUNT_LOGOUT u,
        EventPublishAsUser COMMON_EVENT_DISTRIBUTED_ACCOUNT_UNBOUND u]
      else if ev = OHOS_ACCOUNT_EVENT_LOGOFF
      then [Publish u LOGOFF, Publish u UNBOUND, EventPublishAsUser COMMON_EVENT_HWID_LOGOFF u,
        EventPublishAsUser COMMON_EVENT_DISTRIBUTED_ACCOUNT_LOGOFF u,
        EventPublishAsUser COMMON_EVENT_DISTRIBUTED_ACCOUNT_UNBOUND u]
      else [Publish u TOKEN_INVALID, EventPublishAsUser COMMON_EVENT_HWID_TOKEN_INVALID u,
        EventPublishAsUser COMMON_EVENT_DISTRIBUTED_ACCOUNT_TOKEN_INVALID u])"

text \<open>The result of a handler is the one of the abstract account, for the time of its clock.\<close>

definition implements ::
  "'z ohos_mgr_env_scheme \<Rightarrow> string \<Rightarrow> string \<Rightarrow> OhosAccountInfo \<Rightarrow> int \<Rightarrow> AccountInfo \<Rightarrow> ohos_mgr \<Rightarrow> ErrCode \<times> ohos_mgr \<Rightarrow> bool" where
  "implements E ev hash new callingUid a st res \<longleftrightarrow>
     (\<exists>now a'. account_step ev hash new callingUid now a = (fst res, a')
        \<and> mgr_ready E (snd res) \<and> holds_account E a' (om_fs (snd res))
        \<and> om_published (snd res) = om_published st @
            (if fst res = ERR_OK then account_events ev (userId a) (oa_status (ohosAccountInfo a)) else []))"

lemma login_refines:
  assumes "mgr_ready E st" and "holds_account E a (om_fs st)" and "account_ok E a" and "digest a = []"
    and hash: "hash = GenerateOhosUdidWithSha256 E (oa_name new) (oa_uid new)"
  shows "implements E OHOS_ACCOUNT_EVENT_LOGIN hash new callingUid a st
    (LoginOhosAccount E callingUid (userId a) new OHOS_ACCOUNT_EVENT_LOGIN st)" (is "implements _ _ _ _ _ _ _ ?r")
proof -
  let ?s = "oa_status (ohosAccountInfo a)"
  from ready_event [OF assms(1-4) CheckEventValid_eval(1)] obtain st1 st2
    where r: "read_account E (userId a) st = ((ERR_OK, a), st1)"
      and he: "HandleEvent False OHOS_ACCOUNT_EVENT_LOGIN a st1 = (case table_next ?s ACCOUNT_BIND_SUCCESS_EVT of
            None \<Rightarrow> (False, a, st2) | Some s \<Rightarrow> (True, set_status s a, st2))"
      and 1: "mgr_ready E st1" "holds_account E a (om_fs st1)" "om_published st1 = om_published st"
      and 2: "mgr_ready E st2" "holds_account E a (om_fs st2)" "om_published st2 = om_published st" by blast
  have bind: "(CheckOhosAccountCanBind a new hash \<noteq> ERR_OK) = (length hash \<noteq> 64 \<or> ?s = ACCOUNT_STATE_LOGIN \<and> \<not> same_account hash new a)"
    by (auto simp: CheckOhosAccountCanBind_def same_account_def OHOS_ACCOUNT_UDID_LENGTH_def HASH_LENGTH_def)
  consider "CheckOhosAccountCanBind a new hash \<noteq> ERR_OK" | "CheckOhosAccountCanBind a new hash = ERR_OK" "?s \<notin> {0, 1, 4}"
    | "CheckOhosAccountCanBind a new hash = ERR_OK" "?s \<in> {0, 1, 4}" by blast
  then show ?thesis
  proof cases
    case 1
    then have "?r = (ERR_ACCOUNT_COMMON_ACCOUNT_NOT_EXIST_ERROR, st1)" by (simp add: LoginOhosAccount_def r hash)
    with 1 bind \<open>mgr_ready E st1\<close> \<open>holds_account E a (om_fs st1)\<close> \<open>om_published st1 = om_published st\<close> show ?thesis
      by (auto simp: implements_def account_step_def Let_def)
  next
    case 2
    then have "?r = (ERR_ACCOUNT_ZIDL_ACCOUNT_SERVICE_ERROR, st2)"
      using he by (simp add: LoginOhosAccount_def r hash table_next_eval)
    with 2 bind \<open>mgr_ready E st2\<close> \<open>holds_account E a (om_fs st2)\<close> \<open>om_published st2 = om_published st\<close> show ?thesis
      by (auto simp: implements_def account_step_def Let_def known_states)
  next
    case 3
    let ?a' = "UpdateOhosAccountInfo E callingUid new hash (fs_tick (om_fs st2)) (set_status 1 a)"
    obtain fs3 where sv: "SaveOhosAccountInfo E ?a' st2 = (ERR_OK, st2\<lparr>om_fs := fs3\<rparr>)" "holds_account E ?a' fs3"
      using ready_save [OF \<open>mgr_ready E st2\<close>] by blast
    have "?r = (ERR_OK, (publish_all (login_events (userId a) ?s) (st2\<lparr>om_fs := fs3\<rparr>))\<lparr>om_subscribed := True\<rparr>)"
      using 3 he sv by (simp add: LoginOhosAccount_def r hash table_next_eval PublishLoginEvents_ok)
    moreover have "account_step OHOS_ACCOUNT_EVENT_LOGIN hash new callingUid (time_now E (fs_tick (om_fs st2))) a = (ERR_OK, ?a')"
      using 3 bind by (auto simp: account_step_def Let_def known_states UpdateOhosAccountInfo_def set_status_def)
    ultimately show ?thesis
      using sv 2 by (auto simp: implements_def mgr_ready_def publish_all_def account_events_def)
  qed
qed

lemma match_check:
  assumes "read_account E u st = ((ERR_OK, a), st1)"
  shows "GetCurOhosAccountAndCheckMatch E (oa_name new) (oa_uid new) u st =
    ((if same_account (GenerateOhosUdidWithSha256 E (oa_name new) (oa_uid new)) new a then ERR_OK
      else ERR_ACCOUNT_COMMON_ACCOUNT_NOT_EXIST_ERROR, a), st1)"
  using assms by (auto simp: GetCurOhosAccountAndCheckMatch_def CheckSameDistributedAccount_def same_account_def)

lemma clear_set_status [simp]: "AccountInfo_clear c (set_status s a) = AccountInfo_clear c a"
  by (simp add: AccountInfo_clear_def set_status_def)

lemma leave_refines:
  assumes "mgr_ready E st" and "holds_account E a (om_fs st)" and "account_ok E a" and "digest a = []"
    and hash: "hash = GenerateOhosUdidWithSha256 E (oa_name new) (oa_uid new)"
    and ev: "ev \<in> {OHOS_ACCOUNT_EVENT_LOGOUT, OHOS_ACCOUNT_EVENT_LOGOFF}"
    and ps: "ps = account_events ev (userId a) (oa_status (ohosAccountInfo a))"
  shows "implements E ev hash new callingUid a st (leave_account E ps (userId a) new ev st)"
    (is "implements _ _ _ _ _ _ _ ?r")
proof -
  let ?s = "oa_status (ohosAccountInfo a)"
  let ?e = "if ev = OHOS_ACCOUNT_EVENT_LOGOUT then ACCOUNT_MANUAL_UNBOUND_EVT else ACCOUNT_MANUAL_LOGOFF_EVT"
  let ?go = "?s \<in> {0, 1} \<or> ?s = 4 \<and> ev = OHOS_ACCOUNT_EVENT_LOGOFF"
  have "CheckEventValid False ev = Some ?e" using ev CheckEventValid_eval by (auto simp: event_name_defs)
  from ready_event [OF assms(1-4) this] obtain st1 st2
    where r: "read_account E (userId a) st = ((ERR_OK, a), st1)"
      and he: "HandleEvent False ev a st1 = (case table_next ?s ?e of
            None \<Rightarrow> (False, a, st2) | Some s \<Rightarrow> (True, set_status s a, st2))"
      and 1: "mgr_ready E st1" "holds_account E a (om_fs st1)" "om_published st1 = om_published st"
      and 2: "mgr_ready E st2" "holds_account E a (om_fs st2)" "om_published st2 = om_published st" by blast
  have tn: "table_next ?s ?e = (if ?go then Some 0 else None)"
    using ev by (auto simp: table_next_eval event_name_defs)
  have m: "GetCurOhosAccountAndCheckMatch E (oa_name new) (oa_uid new) (userId a) st =
      ((if same_account hash new a then ERR_OK else ERR_ACCOUNT_COMMON_ACCOUNT_NOT_EXIST_ERROR, a), st1)"
    unfolding hash by (rule match_check [OF r])
  consider "\<not> same_account hash new a" | "same_account hash new a" "\<not> ?go" | "same_account hash new a" "?go" by blast
  then show ?thesis
  proof cases
    case 1
    then have "?r = (ERR_ACCOUNT_COMMON_ACCOUNT_NOT_EXIST_ERROR, st1)" by (simp add: leave_account_def m)
    with 1 ev \<open>mgr_ready E st1\<close> \<open>holds_account E a (om_fs st1)\<close> \<open>om_published st1 = om_published st\<close> show ?thesis
      by (auto simp: implements_def account_step_def Let_def event_name_defs)
  next
    case 2
    then have "?r = (ERR_ACCOUNT_ZIDL_ACCOUNT_SERVICE_ERROR, st2)" by (auto simp: leave_account_def m he tn)
    with 2 ev \<open>mgr_ready E st2\<close> \<open>holds_account E a (om_fs st2)\<close> \<open>om_published st2 = om_published st\<close> show ?thesis
      by (auto simp: implements_def account_step_def Let_def known_states state_defs event_name_defs)
  next
    case 3
    let ?a' = "AccountInfo_clear ACCOUNT_STATE_UNBOUND a"
    obtain fs3 where sv: "SaveOhosAccountInfo E ?a' st2 = (ERR_OK, st2\<lparr>om_fs := fs3\<rparr>)" "holds_account E ?a' fs3"
      using ready_save [OF \<open>mgr_ready E st2\<close>] by blast
    have "?r = (ERR_OK, publish_all ps (st2\<lparr>om_fs := fs3\<rparr>))"
      using 3 sv by (simp add: leave_account_def m he tn ClearOhosAccount_def)
    moreover have "account_step ev hash new callingUid 0 a = (ERR_OK, ?a')"
      using 3 ev by (auto simp: account_step_def Let_def state_defs event_name_defs)
    ultimately show ?thesis
      using sv 2 by (auto simp: implements_def mgr_ready_def publish_all_def ps)
  qed
qed

lemma token_refines:
  assumes "mgr_ready E st" and "holds_account E a (om_fs st)" and "account_ok E a" and "digest a = []"
    and hash: "hash = GenerateOhosUdidWithSha256 E (oa_name new) (oa_uid new)"
  shows "implements E OHOS_ACCOUNT_EVENT_TOKEN_INVALID hash new callingUid a st
    (HandleOhosAccountTokenInvalidEvent E (userId a) new OHOS_ACCOUNT_EVENT_TOKEN_INVALID st)"
    (is "implements _ _ _ _ _ _ _ ?r")
proof -
  let ?s = "oa_status (ohosAccountInfo a)"
  from ready_event [OF assms(1-4) CheckEventValid_eval(4)] obtain st1 st2
    where r: "read_account E (userId a) st = ((ERR_OK, a), st1)"
      and he: "HandleEvent False OHOS_ACCOUNT_EVENT_TOKEN_INVALID a st1 = (case table_next ?s ACCOUNT_TOKEN_EXPIRED_EVT of
            None \<Rightarrow> (False, a, st2) | Some s \<Rightarrow> (True, set_status s a, st2))"
      and 1: "mgr_ready E st1" "holds_account E a (om_fs st1)" "om_published st1 = om_published st"
      and 2: "mgr_ready E st2" "holds_account E a (om_fs st2)" "om_published st2 = om_published st" by blast
  have m: "GetCurOhosAccountAndCheckMatch E (oa_name new) (oa_uid new) (userId a) st =
      ((if same_account hash new a then ERR_OK else ERR_ACCOUNT_COMMON_ACCOUNT_NOT_EXIST_ERROR, a), st1)"
    unfolding hash by (rule match_check [OF r])
  consider "\<not> same_account hash new a" | "same_account hash new a" "?s \<notin> {0, 1, 4}" | "same_account hash new a" "?s \<in> {0, 1, 4}"
    by blast
  then show ?thesis
  proof cases
    case 1
    then have "?r = (ERR_ACCOUNT_COMMON_ACCOUNT_NOT_EXIST_ERROR, st1)"
      by (simp add: HandleOhosAccountTokenInvalidEvent_def m)
    with 1 \<open>mgr_ready E st1\<close> \<open>holds_account E a (om_fs st1)\<close> \<open>om_published st1 = om_published st\<close> show ?thesis
      by (auto simp: implements_def account_step_def Let_def event_name_defs)
  next
    case 2
    then have "?r = (ERR_ACCOUNT_ZIDL_ACCOUNT_SERVICE_ERROR, st2)"
      by (auto simp: HandleOhosAccountTokenInvalidEvent_def m he table_next_eval)
    with 2 \<open>mgr_ready E st2\<close> \<open>holds_account E a (om_fs st2)\<close> \<open>om_published st2 = om_published st\<close> show ?thesis
      by (auto simp: implements_def account_step_def Let_def known_states event_name_defs)
  next
    case 3
    let ?a' = "if ?s = 0 then a else set_status 4 a"
    obtain fs3 where sv: "SaveOhosAccountInfo E ?a' st2 = (ERR_OK, st2\<lparr>om_fs := fs3\<rparr>)" "holds_account E ?a' fs3"
      using ready_save [OF \<open>mgr_ready E st2\<close>] by blast
    have "HandleEvent False OHOS_ACCOUNT_EVENT_TOKEN_INVALID a st1 = (True, ?a', st2)"
      using 3 he by (auto simp: table_next_eval set_status_same)
    moreover have "account_events OHOS_ACCOUNT_EVENT_TOKEN_INVALID (userId a) ?s = [Publish (userId a) TOKEN_INVALID,
        EventPublishAsUser COMMON_EVENT_HWID_TOKEN_INVALID (userId a),
        EventPublishAsUser COMMON_EVENT_DISTRIBUTED_ACCOUNT_TOKEN_INVALID (userId a)]"
      by (simp add: account_events_def event_name_defs)
    ultimately have "?r = (ERR_OK, publish_all (account_events OHOS_ACCOUNT_EVENT_TOKEN_INVALID (userId a) ?s) (st2\<lparr>om_fs := fs3\<rparr>))"
      using 3 sv by (simp add: HandleOhosAccountTokenInvalidEvent_def m)
    moreover have "account_step OHOS_ACCOUNT_EVENT_TOKEN_INVALID hash new callingUid 0 a = (ERR_OK, ?a')"
      using 3 by (auto simp: account_step_def Let_def state_defs event_name_defs)
    ultimately show ?thesis
      using sv 2 by (auto simp: implements_def mgr_ready_def publish_all_def)
  qed
qed

lemma state_change_implements:
  assumes "mgr_ready E st" and "holds_account E a (om_fs st)" and "account_ok E a" and "digest a = []"
    and "hash = GenerateOhosUdidWithSha256 E (oa_name new) (oa_uid new)"
  shows "implements E ev hash new callingUid a st (OhosAccountStateChange E callingUid (userId a) new ev st)"
proof -
  let ?known = "{OHOS_ACCOUNT_EVENT_LOGIN, OHOS_ACCOUNT_EVENT_LOGOUT, OHOS_ACCOUNT_EVENT_LOGOFF, OHOS_ACCOUNT_EVENT_TOKEN_INVALID}"
  consider "ev = OHOS_ACCOUNT_EVENT_LOGIN" | "ev \<in> {OHOS_ACCOUNT_EVENT_LOGOUT, OHOS_ACCOUNT_EVENT_LOGOFF}"
    | "ev = OHOS_ACCOUNT_EVENT_TOKEN_INVALID" | "ev \<notin> ?known" by blast
  then show ?thesis
  proof cases
    case 1
    with login_refines [OF assms] show ?thesis by (simp add: OhosAccountStateChange_def)
  next
    case 2
    then have "OhosAccountStateChange E callingUid (userId a) new ev st =
        leave_account E (account_events ev (userId a) (oa_status (ohosAccountInfo a))) (userId a) new ev st"
      by (auto simp: OhosAccountStateChange_def LogoutOhosAccount_def LogoffOhosAccount_def account_events_def event_name_defs)
    with leave_refines [OF assms 2 refl] show ?thesis by simp
  next
    case 3
    with token_refines [OF assms] show ?thesis by (simp add: OhosAccountStateChange_def event_name_defs)
  next
    case 4
    then have "OhosAccountStateChange E callingUid (userId a) new ev st = (ERR_ACCOUNT_COMMON_INVALID_PARAMETER, st)"
      by (simp add: OhosAccountStateChange_def)
    with 4 assms(1,2) show ?thesis by (simp add: implements_def account_step_def Let_def)
  qed
qed

text \<open>
  C20 (refinement). When the system calls succeed, the manager implements the abstract account for every
  event and every caller: the result code, the account that the files of the user hold afterwards
  and the events published are the ones of \<open>account_step\<close>; in particular a login while
  another account is logged in, and a logout or a token event of another account, change nothing.
\<close>

theorem state_change_refines:
  assumes "mgr_ready E st" and "holds_account E a (om_fs st)" and "account_ok E a" and "digest a = []"
    and "OhosAccountStateChange E callingUid (userId a) new ev st = (r, st')"
  shows "\<exists>now a'. account_step ev (GenerateOhosUdidWithSha256 E (oa_name new) (oa_uid new)) new callingUid now a = (r, a')
    \<and> mgr_ready E st' \<and> holds_account E a' (om_fs st')
    \<and> om_published st' = om_published st @
        (if r = ERR_OK then account_events ev (userId a) (oa_status (ohosAccountInfo a)) else [])"
  using state_change_implements [OF assms(1-4) refl, of ev new callingUid] assms(5)
  by (simp add: implements_def)


text \<open>
  An account whose token has expired cannot be logged out: the logout event is translated to
  an event that the table does not have in this state, so the call fails and the account stays bound.
\<close>

theorem expired_token_blocks_logout:
  assumes "mgr_ready E st" and "holds_account E a (om_fs st)" and "account_ok E a" and "digest a = []"
    and "oa_status (ohosAccountInfo a) = ACCOUNT_STATE_TOKEN_EXPIRED"
    and "same_account (GenerateOhosUdidWithSha256 E (oa_name new) (oa_uid new)) new a"
  shows "\<exists>st'. OhosAccountStateChange E callingUid (userId a) new OHOS_ACCOUNT_EVENT_LOGOUT st
      = (ERR_ACCOUNT_ZIDL_ACCOUNT_SERVICE_ERROR, st')
    \<and> holds_account E a (om_fs st') \<and> om_published st' = om_published st"
proof -
  have "account_step OHOS_ACCOUNT_EVENT_LOGOUT (GenerateOhosUdidWithSha256 E (oa_name new) (oa_uid new)) new callingUid now a
      = (ERR_ACCOUNT_ZIDL_ACCOUNT_SERVICE_ERROR, a)" for now
    using assms(5,6) by (simp add: account_step_def Let_def event_name_defs)
  with state_change_implements [OF assms(1-4) refl, of OHOS_ACCOUNT_EVENT_LOGOUT new callingUid] show ?thesis
    by (auto simp: implements_def intro!: exI [of _ "snd (OhosAccountStateChange E callingUid (userId a) new OHOS_ACCOUNT_EVENT_LOGOUT st)"]
        simp: prod_eq_iff)
qed

section \<open>Identifiers and anonymous accounts\<close>

lemma hex_byte_length [simp]: "length (hex_byte b) = 2"
  by (simp add: hex_byte_def)

lemma hex_string_length: "length (concat (map hex_byte bs)) = 2 * length bs"
  by (induction bs) auto

definition hex_digits :: "char set" where
  "hex_digits = set ''0123456789ABCDEF''"

lemma set_hex_byte: "set (hex_byte b) \<subseteq> hex_digits"
proof -
  have "\<forall>d \<in> {0..<16}. hex_char d \<in> set ''0123456789ABCDEF''" by code_simp
  then have "hex_char d \<in> hex_digits" if "d < 16" for d using that by (simp add: hex_digits_def)
  moreover have "unat b < 2 ^ LENGTH(8)" by (rule unsigned_less)
  ultimately show ?thesis by (simp add: hex_byte_def)
qed

text \<open>
  C40 (bounds). With a hash of 32 bytes, a name of 1 to 256 and a uid of 1 to 512 characters give an
  identifier of 64 upper case hexadecimal digits, which the login accepts; all other input gives the
  empty identifier, which it refuses.
\<close>

theorem udid_format:
  assumes "SHA256 E uid = Some hash" and "length hash = 32"
  shows "if name \<noteq> [] \<and> length name \<le> 256 \<and> uid \<noteq> [] \<and> length uid \<le> 512
    then length (GenerateOhosUdidWithSha256 E name uid) = OHOS_ACCOUNT_UDID_LENGTH
      \<and> set (GenerateOhosUdidWithSha256 E name uid) \<subseteq> hex_digits
    else GenerateOhosUdidWithSha256 E name uid = []
      \<and> CheckOhosAccountCanBind cur new (GenerateOhosUdidWithSha256 E name uid) = ERR_ACCOUNT_COMMON_INVALID_PARAMETER"
proof -
  have "set (concat (map hex_byte hash)) \<subseteq> hex_digits"
    using set_hex_byte by auto
  then show ?thesis
    using assms hex_string_length [of hash]
    by (auto simp: GenerateOhosUdidWithSha256_def ReturnOhosUdidWithSha256_def MAX_NAME_LENGTH_def MAX_UID_LENGTH_def
        HASH_LENGTH_def OHOS_ACCOUNT_UDID_LENGTH_def CheckOhosAccountCanBind_def)
qed

lemma ExtractFirst_take: "\<exists>k \<le> 4. ExtractFirstUtf8Char s = take k s"
proof (cases s)
  case (Cons c cs)
  have "ExtractFirstUtf8Char s \<in> {take 0 s, take 1 s, take 2 s, take 3 s, take 4 s}"
    by (simp add: ExtractFirstUtf8Char_def Cons Let_def)
  moreover have "(0 :: nat) \<le> 4" "(1 :: nat) \<le> 4" "(2 :: nat) \<le> 4" "(3 :: nat) \<le> 4" "(4 :: nat) \<le> 4" by simp_all
  ultimately show ?thesis by blast
qed (auto simp: ExtractFirstUtf8Char_def)

text \<open>
  What an ordinary application is shown of an account that is logged in: of the name and the
  nickname at most the first four bytes, nothing of the avatar and the scalable data, and instead
  of the identifier one derived for the application.
\<close>

theorem anonymous_account:
  "oa_scalableData (AnonymizeOhosAccountInfo E b i) = []
   \<and> oa_avatar (AnonymizeOhosAccountInfo E b i) \<in> {[], DEFAULT_ANON_STR}
   \<and> (oa_name (AnonymizeOhosAccountInfo E b i) \<in> {[], DEFAULT_OHOS_ACCOUNT_NAME}
      \<or> (\<exists>k \<le> 4. oa_name (AnonymizeOhosAccountInfo E b i) = take k (oa_name i) @ DEFAULT_ANON_STR))
   \<and> (oa_nickname (AnonymizeOhosAccountInfo E b i) = []
      \<or> (\<exists>k \<le> 4. oa_nickname (AnonymizeOhosAccountInfo E b i) = take k (oa_nickname i) @ DEFAULT_ANON_STR))
   \<and> oa_uid (AnonymizeOhosAccountInfo E b i) \<in> {[], DEFAULT_OHOS_ACCOUNT_UID, GenerateDVID E b (oa_rawUid i)}"
proof -
  obtain k l where "k \<le> 4" "ExtractFirstUtf8Char (oa_name i) = take k (oa_name i)"
    "l \<le> 4" "ExtractFirstUtf8Char (oa_nickname i) = take l (oa_nickname i)" using ExtractFirst_take by meson
  then show ?thesis by (simp add: AnonymizeOhosAccountInfo_def Let_def) blast
qed

section \<open>Start of the service\<close>

definition fresh_account :: "int \<Rightarrow> int \<Rightarrow> AccountInfo" where
  "fresh_account u ms = AccountInfo_init\<lparr>userId := u, createTime := ms,
     ohosAccountInfo := OhosAccountInfo_init\<lparr>oa_uid := DEFAULT_OHOS_ACCOUNT_UID,
       oa_name := DEFAULT_OHOS_ACCOUNT_NAME, oa_rawUid := DEFAULT_OHOS_ACCOUNT_UID\<rparr>\<rparr>"

lemma quiet_build:
  assumes "os_quiet E"
  shows "\<exists>ms. holds_account E (fresh_account u ms) (BuildJsonFileFromScratch E u fs)"
proof -
  let ?a = "fresh_account u (now_ms E (fs_tick fs))"
  have "SaveAccountInfo E ?a fs = (ERR_OK, BuildJsonFileFromScratch E u fs)"
    using quiet_save [OF assms, of ?a fs]
    by (simp add: BuildJsonFileFromScratch_def fresh_account_def OhosAccountInfo_init_def AccountInfo_init_def prod_eq_iff)
  with save_spec show ?thesis by blast
qed

lemma fresh_json:
  assumes "cjson_ok E" and "holds_account E (fresh_account u ms) fs" and "\<bar>u\<bar> < 2 ^ 53"
  shows "\<exists>s. fs_files fs (config_file u) = Some s \<and> IsObject (CreateJsonFromString E s)"
proof -
  have "json_wf (account_json (fresh_account u ms))"
    using assms(3) by (simp add: account_json_def fresh_account_def AccountInfo_init_def OhosAccountInfo_init_def
        to_int32_def ohos_defs state_defs Let_def)
  then show ?thesis
    using assms(1,2) pack_then_create(3) [of E]
    by (simp add: holds_account_def fresh_account_def IsObject_def account_json_def Let_def)
qed

lemma quiet_stream:
  "os_quiet E \<Longrightarrow> fs_files fs p = Some s \<Longrightarrow> \<exists>fs'. read_stream E p fs = (Some s, fs') \<and> fs_files fs' = fs_files fs"
  by (simp add: read_stream_def quiet_sys_call_eq)

lemma quiet_init:
  assumes "os_quiet E" and "cjson_ok E" and "\<bar>u\<bar> < 2 ^ 53"
  shows "\<exists>fs'. DataDeal_Init E u ok fs = ((ERR_OK, True), fs') \<and> (\<exists>s. fs_files fs' (config_file u) = Some s \<and> IsObject (CreateJsonFromString E s))
    \<or> fs_files fs (config_file u) \<noteq> None \<and> fs_files fs' (config_file u) = None
       \<and> DataDeal_Init E u ok fs = ((ERR_ACCOUNT_DATADEAL_JSON_FILE_CORRUPTION, ok), fs')"
proof -
  let ?c = "config_file u"
  obtain ex fs1 where 1: "IsExistFile E ?c fs = (ex, fs1)" by (metis prod.collapse)
  have f1: "fs_files fs1 = fs_files fs" using IsExistFile_files [of E ?c fs] by (simp add: 1)
  define fs2 where "fs2 = (if \<not> ex then BuildJsonFileFromScratch E u fs1 else fs1)"
  obtain big fs3 where 3: "IsFileSizeExceedsLimit E ?c MAX_ACCOUNT_JSON_FILE_SIZE fs2 = (big, fs3)" by (metis prod.collapse)
  have f3: "fs_files fs3 = fs_files fs2" using 3 sys_stat_files [of E ?c fs2]
    by (auto simp: IsFileSizeExceedsLimit_def user_files split_beta split: stat_result.splits prod.splits)
  define fs4 where "fs4 = (if big then BuildJsonFileFromScratch E u (snd (RemoveFile E ?c fs3)) else fs3)"
  have ex: "ex \<Longrightarrow> fs_files fs ?c \<noteq> None"
    using 1 FileExists_true [of E ?c fs] by (auto simp: IsExistFile_def user_files)
  have new: "\<not> (ex \<and> \<not> big) \<Longrightarrow> \<exists>s. fs_files fs4 ?c = Some s \<and> IsObject (CreateJsonFromString E s)"
  proof -
    assume "\<not> (ex \<and> \<not> big)"
    then obtain fs0 where "fs_files fs4 = fs_files (BuildJsonFileFromScratch E u fs0)"
      using f3 by (cases big) (auto simp: fs4_def fs2_def)
    with quiet_build [OF assms(1), of u fs0] fresh_json [OF assms(2) _ assms(3)] show ?thesis by metis
  qed
  obtain s where s: "fs_files fs4 ?c = Some s"
    using new ex f1 f3 by (cases "ex \<and> \<not> big") (auto simp: fs4_def fs2_def)
  then obtain fs5 where 5: "read_stream E ?c fs4 = (Some s, fs5)" "fs_files fs5 = fs_files fs4"
    using quiet_stream [OF assms(1)] by blast
  have d: "DataDeal_Init E u ok fs = (if \<not> IsObject (CreateJsonFromString E s)
      then ((ERR_ACCOUNT_DATADEAL_JSON_FILE_CORRUPTION, ok), snd (RemoveFile E ?c fs5)) else ((ERR_OK, True), fs5))"
    by (simp add: DataDeal_Init_def Let_def 1 fs2_def [symmetric] 3 fs4_def [symmetric] 5(1))
  show ?thesis
  proof (cases "IsObject (CreateJsonFromString E s)")
    case True
    with d s 5(2) show ?thesis by auto
  next
    case False
    with new s have "ex" by auto
    with ex False d show ?thesis by (auto simp: RemoveFile_def quiet_sys_call_eq [OF assms(1)])
  qed
qed


section \<open>Witnesses\<close>

definition mgr_ref_env :: ohos_mgr_env where
  "mgr_ref_env = \<lparr>cj_parse = ref_read, cj_print = (\<lambda>j. Some (ref_print j)), sys_errno = (\<lambda>_. None),
     sys_short = (\<lambda>_. 0), space_ok = (\<lambda>_ _. True), cast_int = (\<lambda>n. n), time_now = (\<lambda>_. 7), now_ms = (\<lambda>_. 9),
     SHA256 = (\<lambda>_. Some (replicate 32 0)), PKCS5_PBKDF2_HMAC = (\<lambda>_ _. Some (replicate 32 1))\<rparr>"

lemma mgr_ref_env_ok [simp]: "os_quiet mgr_ref_env" "cjson_ok mgr_ref_env" "cast_ok mgr_ref_env"
  "cj_print mgr_ref_env = (\<lambda>j. Some (ref_print j))"
  by (simp_all add: mgr_ref_env_def ref_lib_ok os_quiet_def cast_ok_def)

definition mgr_with :: "AccountInfo \<Rightarrow> ohos_mgr" where
  "mgr_with a = \<lparr>om_fs = snd (SaveAccountInfo mgr_ref_env a empty_fs), om_initOk = True, om_isInit = True,
     om_subscribed = False, om_state = AccountStateMachine_new False, om_published = []\<rparr>"

lemma mgr_with_ok: "mgr_ready mgr_ref_env (mgr_with a)" "holds_account mgr_ref_env a (om_fs (mgr_with a))"
proof -
  show "mgr_ready mgr_ref_env (mgr_with a)" by (simp add: mgr_ready_def mgr_with_def AccountStateMachine_new_def)
  obtain fs where s: "SaveAccountInfo mgr_ref_env a empty_fs = (ERR_OK, fs)"
    using quiet_save [OF mgr_ref_env_ok(1)] by (metis prod.collapse)
  with save_spec [OF s] show "holds_account mgr_ref_env a (om_fs (mgr_with a))" by (simp add: mgr_with_def)
qed

definition ann :: OhosAccountInfo where
  "ann = OhosAccountInfo_init\<lparr>oa_name := ''ann'', oa_uid := ''1234''\<rparr>"

definition bob :: OhosAccountInfo where
  "bob = OhosAccountInfo_init\<lparr>oa_name := ''bob'', oa_uid := ''99''\<rparr>"

lemma ann_hash:
  "GenerateOhosUdidWithSha256 mgr_ref_env (oa_name ann) (oa_uid ann) = replicate 64 CHR ''0''"
  "GenerateOhosUdidWithSha256 mgr_ref_env (oa_name bob) (oa_uid bob) = replicate 64 CHR ''0''"
  by code_simp+

lemma demo_simps [simp]: "userId (demo_account s) = 1" "digest (demo_account s) = []"
  "oa_status (ohosAccountInfo (demo_account s)) = s"
  by (simp_all add: demo_account_def)

theorem state_change_witness:
  "\<exists>st'. OhosAccountStateChange mgr_ref_env 5 1 bob OHOS_ACCOUNT_EVENT_LOGIN (mgr_with (demo_account 1))
      = (ERR_ACCOUNT_COMMON_ACCOUNT_NOT_EXIST_ERROR, st') \<and> holds_account mgr_ref_env (demo_account 1) (om_fs st')"
proof -
  obtain r st' where l: "OhosAccountStateChange mgr_ref_env 5 (userId (demo_account 1)) bob OHOS_ACCOUNT_EVENT_LOGIN
      (mgr_with (demo_account 1)) = (r, st')" by (metis prod.collapse)
  have "account_step OHOS_ACCOUNT_EVENT_LOGIN (replicate 64 CHR ''0'') bob 5 now (demo_account 1)
      = (ERR_ACCOUNT_COMMON_ACCOUNT_NOT_EXIST_ERROR, demo_account 1)" for now
    by (simp add: account_step_def same_account_def bob_def demo_account_def state_defs)
  with state_change_refines [OF mgr_with_ok demo_account_ok [OF mgr_ref_env_ok(4)] demo_simps(2) l] l show ?thesis
    by (auto simp: ann_hash)
qed


theorem expired_token_witness:
  "\<exists>st'. OhosAccountStateChange mgr_ref_env 5 1 ann OHOS_ACCOUNT_EVENT_LOGOUT (mgr_with (demo_account 4))
      = (ERR_ACCOUNT_ZIDL_ACCOUNT_SERVICE_ERROR, st') \<and> holds_account mgr_ref_env (demo_account 4) (om_fs st')"
proof -
  have "same_account (replicate 64 CHR ''0'') ann (demo_account 4)"
    by (simp add: same_account_def ann_def demo_account_def)
  then show ?thesis
    using expired_token_blocks_logout [OF mgr_with_ok demo_account_ok [OF mgr_ref_env_ok(4)] demo_simps(2), of 4 ann 5]
    unfolding ann_hash by (auto simp: state_defs)
qed

theorem udid_witness:
  "length (GenerateOhosUdidWithSha256 mgr_ref_env ''ann'' ''1234'') = OHOS_ACCOUNT_UDID_LENGTH
     \<and> set (GenerateOhosUdidWithSha256 mgr_ref_env ''ann'' ''1234'') \<subseteq> hex_digits"
  using udid_format [of mgr_ref_env "''1234''" "replicate 32 0" "''ann''"] by (simp add: mgr_ref_env_def)


end
