(* ===== verification/App_Account_Json.thy ===== *)
theory App_Account_Json
  imports App_Account_Info
begin

text \<open>
  The stored form of an app account
  (\<open>frameworks/common/json_utils/src/app_account_info_json_parser.cpp\<close>): the JSON object that
  \<open>AppAccountInfo::ToString\<close> prints into the database and that \<open>FromJson\<close> reads back into
  a record.
\<close>

section \<open>Writing\<close>

definition token_object :: "string \<Rightarrow> OAuthTokenInfo \<Rightarrow> bool \<times> json option" where
  "token_object authType tokenInfo =
     also_add (\<lambda>j. AddSetStringToJson j ''authList'' (ot_authList tokenInfo))
     (also_add (\<lambda>j. AddBoolToJson j ''status'' (ot_status tokenInfo))
     (also_add (\<lambda>j. AddStringToJson j ''oauthToken'' (ot_token tokenInfo))
     (also_add (\<lambda>j. AddStringToJson j ''authType'' authType) (True, CreateJson))))"

text \<open>The loop over the tokens; \<open>None\<close> is the early \<open>return nullptr\<close>.\<close>

fun token_array :: "(string, OAuthTokenInfo) smap \<Rightarrow> json option \<Rightarrow> json option" where
  "token_array [] tokenArray = tokenArray"
| "token_array ((authType, tokenInfo) # ts) tokenArray =
     (if \<not> ot_status tokenInfo \<and> ot_authList tokenInfo = [] then token_array ts tokenArray
      else let (success, tokenObject) = token_object authType tokenInfo;
               (added, tokenArray) = AddObjToArray tokenArray tokenObject
           in if \<not> (success \<and> added) then None else token_array ts tokenArray)"

definition ToJson :: "AppAccountInfo \<Rightarrow> json option" where
  "ToJson a =
     (case token_array (ai_oauthTokens a) CreateJsonArray of
        None \<Rightarrow> None
      | Some tokenArray \<Rightarrow>
          let (success, jsonObject) =
            also_add (\<lambda>j. AddObjToJson j ''tokenInfos'' (Some tokenArray))
            (also_add (\<lambda>j. AddStringToJson j ''accountCredential'' (ai_accountCredential a))
            (also_add (\<lambda>j. AddStringToJson j ''associatedData'' (ai_associatedData a))
            (also_add (\<lambda>j. AddBoolToJson j ''syncEnable'' (ai_syncEnable a))
            (also_add (\<lambda>j. AddSetStringToJson j ''authorizedApps'' (ai_authorizedApps a))
            (also_add (\<lambda>j. AddIntToJson j ''appIndex'' (sint (ai_appIndex a)))
            (also_add (\<lambda>j. AddStringToJson j ''extraInfo'' (ai_extraInfo a))
            (also_add (\<lambda>j. AddStringToJson j ''alias'' (ai_alias a))
            (also_add (\<lambda>j. AddStringToJson j ''name'' (ai_name a))
            (also_add (\<lambda>j. AddStringToJson j ''owner'' (ai_owner a)) (True, CreateJson))))))))))
          in if \<not> success then None else jsonObject)"

definition ToString :: "'z build_env_scheme \<Rightarrow> AppAccountInfo \<Rightarrow> string" where
  "ToString E a = PackJsonToString E (ToJson a)"

section \<open>Reading\<close>

definition parse_token :: "json \<Rightarrow> OAuthTokenInfo" where
  "parse_token item =
     \<lparr>ot_authType = (case GetStringFromJson (Some item) ''authType'' of None \<Rightarrow> [] | Some s \<Rightarrow> s),
      ot_token = (case GetStringFromJson (Some item) ''oauthToken'' of None \<Rightarrow> [] | Some s \<Rightarrow> s),
      ot_authList = snd (GetSetStringFromJson (Some item) ''authList'' []),
      ot_status = (case GetBoolFromJson (Some item) ''status'' of None \<Rightarrow> False | Some b \<Rightarrow> b)\<rparr>"

fun ParseTokenInfosFromJson :: "json option \<Rightarrow> AppAccountInfo \<Rightarrow> AppAccountInfo" where
  "ParseTokenInfosFromJson (Some (JArr xs)) a =
     a\<lparr>ai_oauthTokens :=
       fold (\<lambda>item m. let t = parse_token item in sm_emplace (ot_authType t) t m)
         (take MAX_TOKEN_NUMBER xs) (ai_oauthTokens a)\<rparr>"
| "ParseTokenInfosFromJson _ a = a"

definition FromJson :: "json option \<Rightarrow> AppAccountInfo \<Rightarrow> bool \<times> AppAccountInfo" where
  "FromJson jsonObject a =
     (if \<not> IsObject jsonObject then (False, a)
      else let a1 = a\<lparr>ai_owner := or_keep (GetStringFromJson jsonObject ''owner'') (ai_owner a)\<rparr>;
               a2 = a1\<lparr>ai_name := or_keep (GetStringFromJson jsonObject ''name'') (ai_name a)\<rparr>;
               a3 = a2\<lparr>ai_alias := or_keep (GetStringFromJson jsonObject ''alias'') (ai_alias a)\<rparr>;
               a4 = a3\<lparr>ai_extraInfo := or_keep (GetStringFromJson jsonObject ''extraInfo'') (ai_extraInfo a)\<rparr>;
               a5 = a4\<lparr>ai_appIndex :=
                      or_keep (map_option word_of_int (GetIntFromJson jsonObject ''appIndex'')) (ai_appIndex a)\<rparr>;
               a6 = a5\<lparr>ai_syncEnable := or_keep (GetBoolFromJson jsonObject ''syncEnable'') (ai_syncEnable a)\<rparr>;
               a7 = a6\<lparr>ai_authorizedApps :=
                      snd (GetSetStringFromJson jsonObject ''authorizedApps'' (ai_authorizedApps a))\<rparr>;
               a8 = a7\<lparr>ai_associatedData :=
                      or_keep (GetStringFromJson jsonObject ''associatedData'') (ai_associatedData a)\<rparr>;
               a9 = a8\<lparr>ai_accountCredential :=
                      or_keep (GetStringFromJson jsonObject ''accountCredential'') (ai_accountCredential a)\<rparr>
           in (True, if IsKeyExist jsonObject ''tokenInfos''
                     then ParseTokenInfosFromJson (GetJsonArrayFromJson jsonObject ''tokenInfos'') a9
                     else a9))"

section \<open>Round trip\<close>

definition kept_tokens :: "(string, OAuthTokenInfo) smap \<Rightarrow> (string, OAuthTokenInfo) smap" where
  "kept_tokens m = map (\<lambda>(k, t). (k, t\<lparr>ot_authType := k\<rparr>))
     (filter (\<lambda>(k, t). ot_status t \<or> ot_authList t \<noteq> []) m)"

definition persisted :: "AppAccountInfo \<Rightarrow> AppAccountInfo" where
  "persisted a = a\<lparr>ai_oauthTokens := kept_tokens (ai_oauthTokens a)\<rparr>"

definition clean_token :: "string \<times> OAuthTokenInfo \<Rightarrow> bool" where
  "clean_token e \<longleftrightarrow> nul_free (fst e) \<and> nul_free (ot_token (snd e)) \<and> (\<forall>x \<in> set (ot_authList (snd e)). nul_free x)"

definition info_clean :: "AppAccountInfo \<Rightarrow> bool" where
  "info_clean a \<longleftrightarrow> nul_free (ai_owner a) \<and> nul_free (ai_name a) \<and> nul_free (ai_alias a)
     \<and> nul_free (ai_extraInfo a) \<and> nul_free (ai_associatedData a) \<and> nul_free (ai_accountCredential a)
     \<and> (\<forall>x \<in> set (ai_authorizedApps a). nul_free x) \<and> (\<forall>e \<in> set (ai_oauthTokens a). clean_token e)"

definition token_json :: "string \<times> OAuthTokenInfo \<Rightarrow> json" where
  "token_json e = JObj [(''authType'', JStr (fst e)), (''oauthToken'', JStr (ot_token (snd e))),
     (''status'', JBool (ot_status (snd e))), (''authList'', JArr (map JStr (ot_authList (snd e))))]"

definition info_json :: "AppAccountInfo \<Rightarrow> json" where
  "info_json a = JObj [(''owner'', JStr (ai_owner a)), (''name'', JStr (ai_name a)),
     (''alias'', JStr (ai_alias a)), (''extraInfo'', JStr (ai_extraInfo a)),
     (''appIndex'', JNum (sint (ai_appIndex a))),
     (''authorizedApps'', JArr (map JStr (ai_authorizedApps a))),
     (''syncEnable'', JBool (ai_syncEnable a)), (''associatedData'', JStr (ai_associatedData a)),
     (''accountCredential'', JStr (ai_accountCredential a)),
     (''tokenInfos'', JArr (map token_json (kept_tokens (ai_oauthTokens a))))]"

lemma c_str_map [simp]: "\<forall>x \<in> set xs. nul_free x \<Longrightarrow> map (\<lambda>s. JStr (c_str s)) xs = map JStr xs"
  by simp

lemma token_object_json:
  assumes "clean_token (k, t)"
  shows "token_object k t = (True, Some (token_json (k, t)))"
  using assms
  by (simp add: token_object_def also_add_def AddStringToJson_def AddBoolToJson_def AddSetStringToJson_def
      AddItem_def CreateJson_def obj_put_def token_json_def clean_token_def)

lemma token_array_json:
  assumes "\<forall>e \<in> set m. clean_token e"
  shows "token_array m (Some (JArr xs)) = Some (JArr (xs @ map token_json (kept_tokens m)))"
  using assms
proof (induction m arbitrary: xs)
  case (Cons e m)
  obtain k t where e: "e = (k, t)" by (cases e)
  have "token_json (k, t\<lparr>ot_authType := k\<rparr>) = token_json (k, t)" by (simp add: token_json_def)
  with Cons e show ?case
    by (simp add: kept_tokens_def token_object_json AddObjToArray_def)
qed (simp add: kept_tokens_def)

lemma ToJson_json:
  assumes "info_clean a"
  shows "ToJson a = Some (info_json a)"
proof -
  have "token_array (ai_oauthTokens a) CreateJsonArray
      = Some (JArr (map token_json (kept_tokens (ai_oauthTokens a))))"
    using assms token_array_json [of "ai_oauthTokens a" "[]"] by (simp add: info_clean_def CreateJsonArray_def)
  with assms show ?thesis
    by (simp add: ToJson_def also_add_def AddStringToJson_def AddBoolToJson_def AddSetStringToJson_def
        AddIntToJson_def AddObjToJson_def AddItem_def CreateJson_def obj_put_def info_json_def info_clean_def)
qed


lemma parse_token_json:
  assumes "ss_wf (ot_authList t)"
  shows "parse_token (token_json (k, t)) = t\<lparr>ot_authType := k\<rparr>"
proof -
  have "json_strings (map JStr xs) = xs" for xs using json_strings_map [of "\<lambda>s. s" xs] by simp
  moreover have "fold ss_insert (ot_authList t) [] = ot_authList t"
    using ss_of_list_id [OF assms] by (simp add: ss_of_list_def)
  ultimately show ?thesis
    by (simp add: parse_token_def token_json_def GetStringFromJson_def GetSetStringFromJson_def
        GetBoolFromJson_def)
qed

lemma kept_tokens_wf: "tokens_wf m \<Longrightarrow> tokens_wf (kept_tokens m)"
proof -
  assume wf: "tokens_wf m"
  have "map fst (kept_tokens m) = map fst (filter (\<lambda>(k, t). ot_status t \<or> ot_authList t \<noteq> []) m)"
    by (simp add: kept_tokens_def comp_def split_beta)
  then have "sm_wf (kept_tokens m)"
    using wf by (simp add: tokens_wf_def sm_wf_def sorted_wrt_map sorted_wrt_filter)
  moreover have "length (kept_tokens m) \<le> MAX_TOKEN_NUMBER"
    using wf by (auto simp: kept_tokens_def tokens_wf_def intro: order.trans [OF length_filter_le])
  moreover have "\<forall>e \<in> set (kept_tokens m). token_wf (snd e)"
    using wf by (auto simp: kept_tokens_def tokens_wf_def token_wf_def)
  ultimately show ?thesis by (simp add: tokens_wf_def)
qed

lemma parse_tokens_kept:
  assumes "tokens_wf m"
  shows "fold (\<lambda>item acc. let t = parse_token item in sm_emplace (ot_authType t) t acc)
    (map token_json (kept_tokens m)) [] = kept_tokens m"
proof -
  have "fold (\<lambda>item acc. let t = parse_token item in sm_emplace (ot_authType t) t acc)
      (map token_json (kept_tokens m)) [] = fold (\<lambda>e. sm_emplace (fst e) (snd e)) (kept_tokens m) []"
    unfolding fold_map comp_def
  proof (rule fold_cong [OF refl refl])
    fix e assume e: "e \<in> set (kept_tokens m)"
    then obtain k t where "e = (k, t)" "ot_authType t = k" by (auto simp: kept_tokens_def)
    moreover have "ss_wf (ot_authList (snd e))"
      using kept_tokens_wf [OF assms] e by (auto simp: tokens_wf_def token_wf_def)
    ultimately have "parse_token (token_json e) = t" and "e = (ot_authType t, t)"
      by (simp_all add: parse_token_json)
    then show "(\<lambda>acc. let t = parse_token (token_json e) in sm_emplace (ot_authType t) t acc)
        = sm_emplace (fst e) (snd e)" by simp
  qed
  then show ?thesis
    using kept_tokens_wf [OF assms] by (simp add: emplace_all_id tokens_wf_def)
qed

lemma FromJson_info_json:
  assumes "info_wf a" and "ai_authorizedApps fresh = []" and "ai_oauthTokens fresh = []"
  shows "FromJson (Some (info_json a)) fresh = (True, persisted a)"
proof -
  have "json_strings (map JStr xs) = xs" for xs using json_strings_map [of "\<lambda>s. s" xs] by simp
  moreover have "fold ss_insert (ai_authorizedApps a) [] = ai_authorizedApps a"
    using ss_of_list_id [of "ai_authorizedApps a"] assms by (simp add: ss_of_list_def info_wf_def)
  moreover have "length (kept_tokens (ai_oauthTokens a)) \<le> MAX_TOKEN_NUMBER"
    using kept_tokens_wf assms by (simp add: info_wf_def tokens_wf_def)
  moreover have "fold (\<lambda>item. sm_emplace (ot_authType (parse_token item)) (parse_token item))
      (map token_json (kept_tokens (ai_oauthTokens a))) [] = kept_tokens (ai_oauthTokens a)"
    using parse_tokens_kept [of "ai_oauthTokens a"] assms by (simp add: Let_def info_wf_def)
  ultimately show ?thesis
    using assms(2,3) by (cases a, cases fresh) (simp add: FromJson_def info_json_def IsObject_def GetStringFromJson_def GetIntFromJson_def
        GetBoolFromJson_def GetSetStringFromJson_def IsKeyExist_def GetJsonArrayFromJson_def IsArray_def
        or_keep_def Let_def persisted_def)
qed

lemma json_wf_info_json: "info_clean a \<Longrightarrow> json_wf (info_json a)"
proof -
  assume clean: "info_clean a"
  have "- (2 ^ 31) \<le> sint (ai_appIndex a)" "sint (ai_appIndex a) < 2 ^ 31"
    using sint_greater_eq [of "ai_appIndex a"] sint_less [of "ai_appIndex a"] by simp_all
  then have "\<bar>sint (ai_appIndex a)\<bar> < 2 ^ 53" by simp
  moreover have "json_wf (token_json e)" if "e \<in> set (kept_tokens (ai_oauthTokens a))" for e
    using clean that by (fastforce simp: kept_tokens_def token_json_def info_clean_def clean_token_def)
  ultimately show ?thesis
    using clean by (auto simp: info_json_def info_clean_def)
qed

text \<open>
  C31 (roundtrip). An account written to the database with \<open>ToString\<close> and read back with
  \<open>FromJson\<close> is the account it was, for every clone index of the 32-bit range, except that
  tokens which are neither live nor visible to anyone are dropped and every token carries its
  authorisation type as a field.
\<close>

theorem account_json_roundtrip:
  assumes "cjson_ok E" and "info_wf a" and "info_clean a"
  shows "FromJson (CreateJsonFromString E (ToString E a)) AppAccountInfo_init = (True, persisted a)"
  using assms
  by (simp add: ToString_def ToJson_json pack_then_create(3) json_wf_info_json FromJson_info_json
      AppAccountInfo_init_def AppAccountInfo_new_def)

theorem account_json_witness:
  "FromJson (CreateJsonFromString (ref_env False False False) (ToString (ref_env False False False) acc0))
     AppAccountInfo_init = (True, acc0)"
proof -
  have "info_clean acc0" and "persisted acc0 = acc0"
    by (simp_all add: info_clean_def AppAccountInfo_new_def persisted_def kept_tokens_def)
  then show ?thesis using account_json_roundtrip [of "ref_env False False False" acc0] by simp
qed

end
