(* ===== verification/Account_Data_Storage.thy ===== *)
theory Account_Data_Storage
  imports App_Account_Json
begin

text \<open>
  The database of the app accounts: the adapter to the key-value store
  (\<open>services/accountmgr/src/common/database/kvstore/kvstore_adapter_impl.cpp\<close>), the storage class
  over it (\<open>services/accountmgr/src/account_data_storage.cpp\<close>) and its subclass for app accounts
  (\<open>services/accountmgr/src/appaccount/app_account_data_storage.cpp\<close>), in the build with the
  key-value store. The distributed key-value store is a parameter: \<open>kv_status\<close> is the status of the
  n-th call and \<open>kv_applied\<close> tells whether a write that reports a failure took effect all the same, as
  after a lost reply. The state holds for every store id whether it is open, its entries in key order, the
  entries to roll back to when a transaction is open, and the depth of the transaction lock. A storage
  object is the store id it was made for. The pause between two tries and the log are left out.
\<close>

section \<open>The key-value store\<close>

datatype kv_Status = KV_SUCCESS | KV_KEY_NOT_FOUND | KV_IPC_ERROR | KV_OTHER

datatype DbAdapterStatus = SUCCESS | IPC_ERROR | INTERNAL_ERROR | KEY_NOT_EXIST | NOT_SUPPORT

type_synonym entries = "(string, string) smap"

record kv_env = build_env +
  kv_status :: "nat \<Rightarrow> kv_Status"
  kv_applied :: "nat \<Rightarrow> bool"

record kv_state =
  kv_tick :: nat
  kv_open :: "string \<Rightarrow> bool"
  kv_entries :: "string \<Rightarrow> entries"
  kv_backup :: "string \<Rightarrow> entries option"
  kv_locks :: "string \<Rightarrow> nat"

definition kv_call :: "'z kv_env_scheme \<Rightarrow> 'w kv_state_scheme \<Rightarrow> kv_Status \<times> 'w kv_state_scheme" where
  "kv_call E st = (kv_status E (kv_tick st), st\<lparr>kv_tick := Suc (kv_tick st)\<rparr>)"

definition kv_write ::
  "'z kv_env_scheme \<Rightarrow> string \<Rightarrow> (entries \<Rightarrow> entries) \<Rightarrow> 'w kv_state_scheme \<Rightarrow> kv_Status \<times> 'w kv_state_scheme" where
  "kv_write E s f st =
     (let (status, st1) = kv_call E st in
      (status, if status = KV_SUCCESS \<or> kv_applied E (kv_tick st)
               then st1\<lparr>kv_entries := (kv_entries st1)(s := f (kv_entries st1 s))\<rparr> else st1))"

definition starts_with :: "string \<Rightarrow> string \<Rightarrow> bool" where
  "starts_with p k \<longleftrightarrow> take (length p) k = p"

section \<open>The adapter\<close>

fun ConvertKvStatus :: "kv_Status \<Rightarrow> DbAdapterStatus" where
  "ConvertKvStatus KV_SUCCESS = SUCCESS"
| "ConvertKvStatus KV_KEY_NOT_FOUND = KEY_NOT_EXIST"
| "ConvertKvStatus KV_IPC_ERROR = IPC_ERROR"
| "ConvertKvStatus KV_OTHER = INTERNAL_ERROR"

definition Db_GetEntries ::
  "'z kv_env_scheme \<Rightarrow> string \<Rightarrow> string \<Rightarrow> 'w kv_state_scheme \<Rightarrow> (DbAdapterStatus \<times> entries) \<times> 'w kv_state_scheme" where
  "Db_GetEntries E s subId st =
     (let (status, st1) = kv_call E st in
      if status \<noteq> KV_SUCCESS then ((ConvertKvStatus status, []), st1)
      else ((SUCCESS, filter (\<lambda>e. starts_with subId (fst e)) (kv_entries st1 s)), st1))"

definition Db_Get ::
  "'z kv_env_scheme \<Rightarrow> string \<Rightarrow> string \<Rightarrow> 'w kv_state_scheme \<Rightarrow> (DbAdapterStatus \<times> string) \<times> 'w kv_state_scheme" where
  "Db_Get E s key st =
     (let (status, st1) = kv_call E st in
      if status \<noteq> KV_SUCCESS then ((ConvertKvStatus status, []), st1)
      else case map_of (kv_entries st1 s) key of
             None \<Rightarrow> ((ConvertKvStatus KV_KEY_NOT_FOUND, []), st1)
           | Some v \<Rightarrow> ((SUCCESS, v), st1))"

definition Db_Delete ::
  "'z kv_env_scheme \<Rightarrow> string \<Rightarrow> string \<Rightarrow> 'w kv_state_scheme \<Rightarrow> DbAdapterStatus \<times> 'w kv_state_scheme" where
  "Db_Delete E s key st = (let (status, st1) = kv_write E s (sm_erase key) st in (ConvertKvStatus status, st1))"

definition Db_Put ::
  "'z kv_env_scheme \<Rightarrow> string \<Rightarrow> string \<Rightarrow> string \<Rightarrow> 'w kv_state_scheme \<Rightarrow> DbAdapterStatus \<times> 'w kv_state_scheme" where
  "Db_Put E s key val st = (let (status, st1) = kv_write E s (sm_put key val) st in (ConvertKvStatus status, st1))"

definition Db_PutBatch ::
  "'z kv_env_scheme \<Rightarrow> string \<Rightarrow> entries \<Rightarrow> 'w kv_state_scheme \<Rightarrow> DbAdapterStatus \<times> 'w kv_state_scheme" where
  "Db_PutBatch E s es st =
     (let (status, st1) = kv_write E s (fold (\<lambda>e. sm_put (fst e) (snd e)) es) st in (ConvertKvStatus status, st1))"

text \<open>The store has one transaction at a time; starting a second one or ending none is an error.\<close>

definition Db_StartTransaction ::
  "'z kv_env_scheme \<Rightarrow> string \<Rightarrow> 'w kv_state_scheme \<Rightarrow> DbAdapterStatus \<times> 'w kv_state_scheme" where
  "Db_StartTransaction E s st =
     (let (status, st1) = kv_call E st in
      if status \<noteq> KV_SUCCESS then (ConvertKvStatus status, st1)
      else case kv_backup st1 s of
             Some _ \<Rightarrow> (INTERNAL_ERROR, st1)
           | None \<Rightarrow> (SUCCESS, st1\<lparr>kv_backup := (kv_backup st1)(s := Some (kv_entries st1 s))\<rparr>))"

definition Db_Commit ::
  "'z kv_env_scheme \<Rightarrow> string \<Rightarrow> 'w kv_state_scheme \<Rightarrow> DbAdapterStatus \<times> 'w kv_state_scheme" where
  "Db_Commit E s st =
     (let (status, st1) = kv_call E st in
      if status \<noteq> KV_SUCCESS then (ConvertKvStatus status, st1)
      else case kv_backup st1 s of
             None \<Rightarrow> (INTERNAL_ERROR, st1)
           | Some _ \<Rightarrow> (SUCCESS, st1\<lparr>kv_backup := (kv_backup st1)(s := None)\<rparr>))"

definition Db_Rollback ::
  "'z kv_env_scheme \<Rightarrow> string \<Rightarrow> 'w kv_state_scheme \<Rightarrow> DbAdapterStatus \<times> 'w kv_state_scheme" where
  "Db_Rollback E s st =
     (let (status, st1) = kv_call E st in
      if status \<noteq> KV_SUCCESS then (ConvertKvStatus status, st1)
      else case kv_backup st1 s of
             None \<Rightarrow> (INTERNAL_ERROR, st1)
           | Some old \<Rightarrow> (SUCCESS, st1\<lparr>kv_backup := (kv_backup st1)(s := None),
                                     kv_entries := (kv_entries st1)(s := old)\<rparr>))"

definition GetSingleKvStore ::
  "'z kv_env_scheme \<Rightarrow> string \<Rightarrow> 'w kv_state_scheme \<Rightarrow> DbAdapterStatus \<times> 'w kv_state_scheme" where
  "GetSingleKvStore E s st =
     (let (status, st1) = kv_call E st in
      if status \<noteq> KV_SUCCESS then (ConvertKvStatus status, st1)
      else (SUCCESS, st1\<lparr>kv_open := (kv_open st1)(s := True)\<rparr>))"

definition CloseKvStore ::
  "'z kv_env_scheme \<Rightarrow> string \<Rightarrow> 'w kv_state_scheme \<Rightarrow> DbAdapterStatus \<times> 'w kv_state_scheme" where
  "CloseKvStore E s st =
     (if \<not> kv_open st s then (INTERNAL_ERROR, st)
      else let (status, st1) = kv_call E st in (ConvertKvStatus status, st1))"

definition Db_DeleteKvStore ::
  "'z kv_env_scheme \<Rightarrow> string \<Rightarrow> 'w kv_state_scheme \<Rightarrow> DbAdapterStatus \<times> 'w kv_state_scheme" where
  "Db_DeleteKvStore E s st = (let (status, st1) = kv_write E s (\<lambda>_. []) st in (ConvertKvStatus status, st1))"

section \<open>The storage class\<close>

definition TryTwice ::
  "('st \<Rightarrow> (DbAdapterStatus \<times> 'a) \<times> 'st) \<Rightarrow> 'st \<Rightarrow> (DbAdapterStatus \<times> 'a) \<times> 'st" where
  "TryTwice func st =
     (let ((status, x), st1) = func st in if status = IPC_ERROR then func st1 else ((status, x), st1))"

definition try_twice :: "('st \<Rightarrow> DbAdapterStatus \<times> 'st) \<Rightarrow> 'st \<Rightarrow> DbAdapterStatus \<times> 'st" where
  "try_twice func st =
     (let (status, st1) = func st in if status = IPC_ERROR then func st1 else (status, st1))"

definition MAX_TIMES :: nat where "MAX_TIMES = 10"

fun open_loop :: "'z kv_env_scheme \<Rightarrow> string \<Rightarrow> nat \<Rightarrow> 'w kv_state_scheme \<Rightarrow> 'w kv_state_scheme" where
  "open_loop E s 0 st = st"
| "open_loop E s (Suc tryTimes) st =
     (let (status, st1) = GetSingleKvStore E s st in
      if status = SUCCESS \<and> kv_open st1 s then st1 else open_loop E s tryTimes st1)"

definition CheckKvStore :: "'z kv_env_scheme \<Rightarrow> string \<Rightarrow> 'w kv_state_scheme \<Rightarrow> bool \<times> 'w kv_state_scheme" where
  "CheckKvStore E s st =
     (if kv_open st s then (True, st)
      else let st1 = open_loop E s MAX_TIMES st in (kv_open st1 s, st1))"

definition PutValueToKvStore ::
  "'z kv_env_scheme \<Rightarrow> string \<Rightarrow> string \<Rightarrow> string \<Rightarrow> 'w kv_state_scheme \<Rightarrow> ErrCode \<times> 'w kv_state_scheme" where
  "PutValueToKvStore E s keyStr valueStr st =
     (let (ready, st1) = CheckKvStore E s st in
      if \<not> ready then (ERR_ACCOUNT_COMMON_CHECK_KVSTORE_ERROR, st1)
      else let (status, st2) = try_twice (Db_Put E s keyStr valueStr) st1 in
           (if status \<noteq> SUCCESS then ERR_OSACCOUNT_SERVICE_MANAGER_QUERY_DISTRIBUTE_DATA_ERROR else ERR_OK, st2))"

definition GetValueFromKvStore ::
  "'z kv_env_scheme \<Rightarrow> string \<Rightarrow> string \<Rightarrow> 'w kv_state_scheme \<Rightarrow> (ErrCode \<times> string) \<times> 'w kv_state_scheme" where
  "GetValueFromKvStore E s keyStr st =
     (let (ready, st1) = CheckKvStore E s st in
      if \<not> ready then ((ERR_ACCOUNT_COMMON_CHECK_KVSTORE_ERROR, []), st1)
      else let ((status, valueStr), st2) = TryTwice (Db_Get E s keyStr) st1 in
           ((if status \<noteq> SUCCESS then ERR_OSACCOUNT_SERVICE_MANAGER_QUERY_DISTRIBUTE_DATA_ERROR else ERR_OK,
             valueStr), st2))"

definition IsKeyExists :: "'z kv_env_scheme \<Rightarrow> string \<Rightarrow> string \<Rightarrow> 'w kv_state_scheme \<Rightarrow> bool \<times> 'w kv_state_scheme" where
  "IsKeyExists E s keyStr st =
     (let ((result, _), st1) = GetValueFromKvStore E s keyStr st in (result = ERR_OK, st1))"

definition AddAccountInfo ::
  "'z kv_env_scheme \<Rightarrow> string \<Rightarrow> AppAccountInfo \<Rightarrow> 'w kv_state_scheme \<Rightarrow> ErrCode \<times> 'w kv_state_scheme" where
  "AddAccountInfo E s info st =
     (let (exist, st1) = IsKeyExists E s (GetPrimeKey info) st in
      if exist then (ERR_OSACCOUNT_SERVICE_DATA_STORAGE_KEY_EXISTED_ERROR, st1)
      else if ToString E info = [] then (ERR_OSACCOUNT_SERVICE_ACCOUNT_INFO_EMPTY_ERROR, st1)
      else PutValueToKvStore E s (GetPrimeKey info) (ToString E info) st1)"

definition SaveAccountInfo_db ::
  "'z kv_env_scheme \<Rightarrow> string \<Rightarrow> AppAccountInfo \<Rightarrow> 'w kv_state_scheme \<Rightarrow> ErrCode \<times> 'w kv_state_scheme" where
  "SaveAccountInfo_db E s info st =
     (let (exist, st1) = IsKeyExists E s (GetPrimeKey info) st in
      if \<not> exist then (ERR_OSACCOUNT_SERVICE_DATA_STORAGE_KEY_NOT_EXISTS_ERROR, st1)
      else if ToString E info = [] then (ERR_OSACCOUNT_SERVICE_ACCOUNT_INFO_EMPTY_ERROR, st1)
      else PutValueToKvStore E s (GetPrimeKey info) (ToString E info) st1)"

definition RemoveValueFromKvStore ::
  "'z kv_env_scheme \<Rightarrow> string \<Rightarrow> string \<Rightarrow> 'w kv_state_scheme \<Rightarrow> ErrCode \<times> 'w kv_state_scheme" where
  "RemoveValueFromKvStore E s keyStr st =
     (let (ready, st1) = CheckKvStore E s st in
      if \<not> ready then (ERR_ACCOUNT_COMMON_CHECK_KVSTORE_ERROR, st1)
      else let ((status, _), st2) = TryTwice (Db_Get E s keyStr) st1 in
           if status \<noteq> SUCCESS then (ERR_OK, st2)
           else let (status, st3) = try_twice (Db_Delete E s keyStr) st2 in
                (if status \<noteq> SUCCESS then ERR_ACCOUNT_COMMON_DELETE_KEY_FROM_KVSTORE_ERROR else ERR_OK, st3))"

text \<open>\<open>SaveEntries\<close> of the app accounts: an entry that is not JSON is deleted from the store.\<close>

fun SaveEntries ::
  "'z kv_env_scheme \<Rightarrow> string \<Rightarrow> entries \<Rightarrow> (string, AppAccountInfo) smap \<Rightarrow> 'w kv_state_scheme \<Rightarrow>
   (string, AppAccountInfo) smap \<times> 'w kv_state_scheme" where
  "SaveEntries E s [] infos st = (infos, st)"
| "SaveEntries E s (item # es) infos st =
     (case CreateJsonFromString E (snd item) of
        None \<Rightarrow> SaveEntries E s es infos (snd (Db_Delete E s (fst item) st))
      | Some j \<Rightarrow> SaveEntries E s es
                   (sm_emplace (fst item) (snd (FromJson (Some j) AppAccountInfo_init)) infos) st)"

definition LoadDataByLocalFuzzyQuery ::
  "'z kv_env_scheme \<Rightarrow> string \<Rightarrow> string \<Rightarrow> 'w kv_state_scheme \<Rightarrow>
   (ErrCode \<times> (string, AppAccountInfo) smap) \<times> 'w kv_state_scheme" where
  "LoadDataByLocalFuzzyQuery E s subId st =
     (let (ready, st1) = CheckKvStore E s st in
      if \<not> ready then ((ERR_OSACCOUNT_SERVICE_MANAGER_QUERY_DISTRIBUTE_DATA_ERROR, []), st1)
      else let ((status, allEntries), st2) = TryTwice (Db_GetEntries E s subId) st1 in
           if status \<noteq> SUCCESS then ((ERR_OSACCOUNT_SERVICE_MANAGER_QUERY_DISTRIBUTE_DATA_ERROR, []), st2)
           else let (infos, st3) = SaveEntries E s allEntries [] st2 in ((ERR_OK, infos), st3))"

definition LoadAllData ::
  "'z kv_env_scheme \<Rightarrow> string \<Rightarrow> 'w kv_state_scheme \<Rightarrow>
   (ErrCode \<times> (string, AppAccountInfo) smap) \<times> 'w kv_state_scheme" where
  "LoadAllData E s st =
     (let (ready, st1) = CheckKvStore E s st in
      if \<not> ready then ((ERR_OSACCOUNT_SERVICE_MANAGER_QUERY_DISTRIBUTE_DATA_ERROR, []), st1)
      else let ((status, allEntries), st2) = TryTwice (Db_GetEntries E s []) st1 in
           if status \<noteq> SUCCESS then ((ERR_OSACCOUNT_SERVICE_MANAGER_QUERY_DISTRIBUTE_DATA_ERROR, []), st2)
           else let (infos, st3) = SaveEntries E s allEntries [] st2 in ((ERR_OK, infos), st3))"

definition GetAccountInfoById ::
  "'z kv_env_scheme \<Rightarrow> string \<Rightarrow> string \<Rightarrow> AppAccountInfo \<Rightarrow> 'w kv_state_scheme \<Rightarrow>
   (ErrCode \<times> AppAccountInfo) \<times> 'w kv_state_scheme" where
  "GetAccountInfoById E s i info st =
     (let ((ret, valueStr), st1) = GetValueFromKvStore E s i st in
      if ret \<noteq> ERR_OK then ((ret, info), st1)
      else let jsonObject = CreateJsonFromString E valueStr in
           if jsonObject = None \<or> \<not> IsStructured jsonObject
           then ((ERR_ACCOUNT_COMMON_BAD_JSON_FORMAT_ERROR, info), st1)
           else ((ERR_OK, snd (FromJson jsonObject info)), st1))"

definition Close :: "'z kv_env_scheme \<Rightarrow> string \<Rightarrow> 'w kv_state_scheme \<Rightarrow> DbAdapterStatus \<times> 'w kv_state_scheme" where
  "Close E s st =
     (let (status, st1) = CloseKvStore E s st in (status, st1\<lparr>kv_open := (kv_open st1)(s := False)\<rparr>))"

definition DeleteKvStore :: "'z kv_env_scheme \<Rightarrow> string \<Rightarrow> 'w kv_state_scheme \<Rightarrow> ErrCode \<times> 'w kv_state_scheme" where
  "DeleteKvStore E s st =
     (let (ready, st1) = CheckKvStore E s st in
      if \<not> ready then (ERR_OSACCOUNT_SERVICE_MANAGER_QUERY_DISTRIBUTE_DATA_ERROR, st1)
      else let (status, st2) = CloseKvStore E s st1 in
           if status \<noteq> SUCCESS then (ERR_OSACCOUNT_SERVICE_MANAGER_QUERY_DISTRIBUTE_DATA_ERROR, st2)
           else let (status, st3) = Db_DeleteKvStore E s (st2\<lparr>kv_open := (kv_open st2)(s := False)\<rparr>) in
                (if status \<noteq> SUCCESS then ERR_OSACCOUNT_SERVICE_MANAGER_QUERY_DISTRIBUTE_DATA_ERROR else ERR_OK, st3))"

subsection \<open>Transactions\<close>

definition lock_transaction :: "string \<Rightarrow> 'w kv_state_scheme \<Rightarrow> 'w kv_state_scheme" where
  "lock_transaction s st = st\<lparr>kv_locks := (kv_locks st)(s := kv_locks st s + 1)\<rparr>"

definition unlock_transaction :: "string \<Rightarrow> 'w kv_state_scheme \<Rightarrow> 'w kv_state_scheme" where
  "unlock_transaction s st = st\<lparr>kv_locks := (kv_locks st)(s := kv_locks st s - 1)\<rparr>"

definition StartTransaction :: "'z kv_env_scheme \<Rightarrow> string \<Rightarrow> 'w kv_state_scheme \<Rightarrow> ErrCode \<times> 'w kv_state_scheme" where
  "StartTransaction E s st =
     (let (ready, st1) = CheckKvStore E s st in
      if \<not> ready then (ERR_ACCOUNT_COMMON_CHECK_KVSTORE_ERROR, st1)
      else let (status, st2) = try_twice (Db_StartTransaction E s) (lock_transaction s st1) in
           if status \<noteq> SUCCESS
           then (ERR_OSACCOUNT_SERVICE_MANAGER_QUERY_DISTRIBUTE_DATA_ERROR, unlock_transaction s st2)
           else (ERR_OK, st2))"

definition Commit :: "'z kv_env_scheme \<Rightarrow> string \<Rightarrow> 'w kv_state_scheme \<Rightarrow> ErrCode \<times> 'w kv_state_scheme" where
  "Commit E s st =
     (let (ready, st1) = CheckKvStore E s st in
      if \<not> ready then (ERR_ACCOUNT_COMMON_CHECK_KVSTORE_ERROR, st1)
      else let (status, st2) = try_twice (Db_Commit E s) st1 in
           if status \<noteq> SUCCESS then (ERR_OSACCOUNT_SERVICE_MANAGER_QUERY_DISTRIBUTE_DATA_ERROR, st2)
           else (ERR_OK, unlock_transaction s st2))"

definition Rollback_db :: "'z kv_env_scheme \<Rightarrow> string \<Rightarrow> 'w kv_state_scheme \<Rightarrow> ErrCode \<times> 'w kv_state_scheme" where
  "Rollback_db E s st =
     (let (ready, st1) = CheckKvStore E s st in
      if \<not> ready then (ERR_ACCOUNT_COMMON_CHECK_KVSTORE_ERROR, unlock_transaction s st1)
      else let (status, st2) = try_twice (Db_Rollback E s) st1 in
           (if status \<noteq> SUCCESS then ERR_OSACCOUNT_SERVICE_MANAGER_QUERY_DISTRIBUTE_DATA_ERROR else ERR_OK,
            unlock_transaction s st2))"

text \<open>
  A function that holds a \<open>DatabaseTransaction\<close>: \<open>StartDbTransaction\<close> arms the guard,
  \<open>CommitDbTransaction\<close> disarms it after a successful commit, and on every other way out the
  guard's deleter calls \<open>Rollback\<close>. \<open>body\<close> is the code between the two calls.
\<close>

definition with_DbTransaction ::
  "'z kv_env_scheme \<Rightarrow> string \<Rightarrow> ('w kv_state_scheme \<Rightarrow> ErrCode \<times> 'w kv_state_scheme) \<Rightarrow>
   'w kv_state_scheme \<Rightarrow> ErrCode \<times> 'w kv_state_scheme" where
  "with_DbTransaction E s body st =
     (let (result, st1) = StartTransaction E s st in
      if result \<noteq> ERR_OK then (result, st1)
      else let (result, st2) = body st1 in
           if result \<noteq> ERR_OK then (result, snd (Rollback_db E s st2))
           else let (result, st3) = Commit E s st2 in
                if result \<noteq> ERR_OK then (result, snd (Rollback_db E s st3)) else (ERR_OK, st3))"

definition MoveData_storage ::
  "'z kv_env_scheme \<Rightarrow> string \<Rightarrow> string \<Rightarrow> 'w kv_state_scheme \<Rightarrow> ErrCode \<times> 'w kv_state_scheme" where
  "MoveData_storage E s ptr st =
     (let (ready, st1) = CheckKvStore E ptr st in
      if \<not> ready then (ERR_ACCOUNT_COMMON_CHECK_KVSTORE_ERROR, st1)
      else let (ready, st2) = CheckKvStore E s st1 in
      if \<not> ready then (ERR_ACCOUNT_COMMON_CHECK_KVSTORE_ERROR, st2)
      else let ((status, es), st3) = Db_GetEntries E ptr [] st2 in
      if status \<noteq> SUCCESS then (ERR_OSACCOUNT_SERVICE_MANAGER_QUERY_DISTRIBUTE_DATA_ERROR, st3)
      else with_DbTransaction E s
        (\<lambda>st. let (status, st1) = Db_PutBatch E s es st in
              (if status \<noteq> SUCCESS then ERR_OSACCOUNT_SERVICE_MANAGER_QUERY_DISTRIBUTE_DATA_ERROR else ERR_OK, st1)) st3)"

section \<open>The storage of app accounts\<close>

definition AUTHORIZED_ACCOUNTS :: string where "AUTHORIZED_ACCOUNTS = ''authorizedAccounts''"

definition GetAccessibleAccountsFromAuthorizedAccounts ::
  "'z kv_env_scheme \<Rightarrow> string \<Rightarrow> string \<Rightarrow> json option \<times> string list" where
  "GetAccessibleAccountsFromAuthorizedAccounts E authorizedAccounts authorizedApp =
     (case CreateJsonFromString E authorizedAccounts of
        None \<Rightarrow> (CreateJson, [])
      | Some j \<Rightarrow> if \<not> IsKeyExist (Some j) authorizedApp
                 then (snd (AddObjToJson (Some j) authorizedApp CreateJsonArray), [])
                 else (Some j, snd (GetVectorStringFromJson (Some j) authorizedApp [])))"

definition GetAccessibleAccountsFromDataStorage ::
  "'z kv_env_scheme \<Rightarrow> string \<Rightarrow> string \<Rightarrow> 'w kv_state_scheme \<Rightarrow> (ErrCode \<times> string list) \<times> 'w kv_state_scheme" where
  "GetAccessibleAccountsFromDataStorage E s authorizedApp st =
     (let ((_, authorizedAccounts), st1) = GetValueFromKvStore E s AUTHORIZED_ACCOUNTS st in
      ((ERR_OK, snd (GetAccessibleAccountsFromAuthorizedAccounts E authorizedAccounts authorizedApp)), st1))"

definition GetAccountInfoFromDataStorage ::
  "'z kv_env_scheme \<Rightarrow> string \<Rightarrow> AppAccountInfo \<Rightarrow> 'w kv_state_scheme \<Rightarrow> (ErrCode \<times> AppAccountInfo) \<times> 'w kv_state_scheme" where
  "GetAccountInfoFromDataStorage E s info st =
     (let ((result, info1), st1) = GetAccountInfoById E s (GetPrimeKey info) info st in
      ((if result \<noteq> ERR_OK then ERR_APPACCOUNT_SERVICE_GET_ACCOUNT_INFO_BY_ID else ERR_OK, info1), st1))"

definition DeleteAccountInfoFromDataStorage ::
  "'z kv_env_scheme \<Rightarrow> string \<Rightarrow> AppAccountInfo \<Rightarrow> 'w kv_state_scheme \<Rightarrow> ErrCode \<times> 'w kv_state_scheme" where
  "DeleteAccountInfoFromDataStorage E s info st = RemoveValueFromKvStore E s (GetPrimeKey info) st"

section \<open>What the calls keep\<close>

named_theorems kv_frame \<open>what a call on the database leaves as it was\<close>

text \<open>Everything but the entries, the open flags and the number of calls.\<close>

definition kv_rest :: "'w kv_state_scheme \<Rightarrow> (string \<Rightarrow> entries option) \<times> (string \<Rightarrow> nat) \<times> 'w" where
  "kv_rest st = (kv_backup st, kv_locks st, kv_state.more st)"

lemma kv_rest_parts:
  assumes "kv_rest st' = kv_rest st"
  shows "kv_backup st' = kv_backup st" "kv_locks st' = kv_locks st" "kv_state.more st' = kv_state.more st"
  using assms by (simp_all add: kv_rest_def)

lemma kv_call_frame [kv_frame, simp]:
  "kv_rest (snd (kv_call E st)) = kv_rest st" "kv_entries (snd (kv_call E st)) = kv_entries st"
  "kv_open (snd (kv_call E st)) = kv_open st"
  by (simp_all add: kv_call_def kv_rest_def)

lemma kv_write_frame [kv_frame, simp]:
  "kv_rest (snd (kv_write E s f st)) = kv_rest st"
  "t \<noteq> s \<Longrightarrow> kv_entries (snd (kv_write E s f st)) t = kv_entries st t"
  by (simp_all add: kv_write_def kv_call_def kv_rest_def)

lemma kv_read_frame [kv_frame, simp]:
  "kv_rest (snd (Db_Get E s key st)) = kv_rest st" "kv_entries (snd (Db_Get E s key st)) = kv_entries st"
  "kv_rest (snd (Db_GetEntries E s p st)) = kv_rest st" "kv_entries (snd (Db_GetEntries E s p st)) = kv_entries st"
  by (simp_all add: Db_Get_def Db_GetEntries_def kv_call_def kv_rest_def split: option.split)

lemma kv_update_frame [kv_frame, simp]:
  "kv_rest (snd (Db_Put E s key v st)) = kv_rest st"
  "kv_rest (snd (Db_Delete E s key st)) = kv_rest st"
  "kv_rest (snd (Db_PutBatch E s es st)) = kv_rest st"
  "t \<noteq> s \<Longrightarrow> kv_entries (snd (Db_Put E s key v st)) t = kv_entries st t"
  "t \<noteq> s \<Longrightarrow> kv_entries (snd (Db_Delete E s key st)) t = kv_entries st t"
  "t \<noteq> s \<Longrightarrow> kv_entries (snd (Db_PutBatch E s es st)) t = kv_entries st t"
  by (simp_all add: Db_Put_def Db_Delete_def Db_PutBatch_def split_beta)

lemma twice_frame [kv_frame, simp]:
  "kv_rest (snd (TryTwice (Db_Get E s key) st)) = kv_rest st"
  "kv_entries (snd (TryTwice (Db_Get E s key) st)) = kv_entries st"
  "kv_rest (snd (TryTwice (Db_GetEntries E s p) st)) = kv_rest st"
  "kv_entries (snd (TryTwice (Db_GetEntries E s p) st)) = kv_entries st"
  "kv_rest (snd (try_twice (Db_Put E s key v) st)) = kv_rest st"
  "kv_rest (snd (try_twice (Db_Delete E s key) st)) = kv_rest st"
  "t \<noteq> s \<Longrightarrow> kv_entries (snd (try_twice (Db_Put E s key v) st)) t = kv_entries st t"
  "t \<noteq> s \<Longrightarrow> kv_entries (snd (try_twice (Db_Delete E s key) st)) t = kv_entries st t"
  by (simp_all add: TryTwice_def try_twice_def split_beta)

lemma open_loop_frame [kv_frame, simp]:
  "kv_rest (open_loop E s n st) = kv_rest st" "kv_entries (open_loop E s n st) = kv_entries st"
  by (induction n arbitrary: st) (auto simp: GetSingleKvStore_def kv_call_def kv_rest_def Let_def)

lemma CheckKvStore_frame [kv_frame, simp]:
  "kv_rest (snd (CheckKvStore E s st)) = kv_rest st"
  "kv_entries (snd (CheckKvStore E s st)) = kv_entries st"
  by (simp_all add: CheckKvStore_def Let_def)

lemma GetValue_frame [kv_frame, simp]:
  "kv_rest (snd (GetValueFromKvStore E s key st)) = kv_rest st"
  "kv_entries (snd (GetValueFromKvStore E s key st)) = kv_entries st"
  by (simp_all add: GetValueFromKvStore_def split_beta Let_def)

lemma PutValue_frame [kv_frame, simp]:
  "kv_rest (snd (PutValueToKvStore E s key v st)) = kv_rest st"
  "t \<noteq> s \<Longrightarrow> kv_entries (snd (PutValueToKvStore E s key v st)) t = kv_entries st t"
  by (simp_all add: PutValueToKvStore_def split_beta Let_def)

lemma IsKeyExists_frame [kv_frame, simp]:
  "kv_rest (snd (IsKeyExists E s key st)) = kv_rest st"
  "kv_entries (snd (IsKeyExists E s key st)) = kv_entries st"
  by (simp_all add: IsKeyExists_def split_beta)

lemma RemoveValue_frame [kv_frame, simp]:
  "kv_rest (snd (RemoveValueFromKvStore E s key st)) = kv_rest st"
  "t \<noteq> s \<Longrightarrow> kv_entries (snd (RemoveValueFromKvStore E s key st)) t = kv_entries st t"
  by (simp_all add: RemoveValueFromKvStore_def split_beta Let_def)

lemma account_info_frame [kv_frame, simp]:
  "kv_rest (snd (AddAccountInfo E s info st)) = kv_rest st"
  "kv_rest (snd (SaveAccountInfo_db E s info st)) = kv_rest st"
  "kv_rest (snd (DeleteAccountInfoFromDataStorage E s info st)) = kv_rest st"
  "t \<noteq> s \<Longrightarrow> kv_entries (snd (AddAccountInfo E s info st)) t = kv_entries st t"
  "t \<noteq> s \<Longrightarrow> kv_entries (snd (SaveAccountInfo_db E s info st)) t = kv_entries st t"
  "t \<noteq> s \<Longrightarrow> kv_entries (snd (DeleteAccountInfoFromDataStorage E s info st)) t = kv_entries st t"
  by (simp_all add: AddAccountInfo_def SaveAccountInfo_db_def DeleteAccountInfoFromDataStorage_def split_beta Let_def)

lemma SaveEntries_frame [kv_frame, simp]:
  "kv_rest (snd (SaveEntries E s es infos st)) = kv_rest st"
  "t \<noteq> s \<Longrightarrow> kv_entries (snd (SaveEntries E s es infos st)) t = kv_entries st t"
  by (induction es arbitrary: infos st) (auto split: option.split)

lemma Load_frame [kv_frame, simp]:
  "kv_rest (snd (LoadDataByLocalFuzzyQuery E s p st)) = kv_rest st"
  "kv_rest (snd (LoadAllData E s st)) = kv_rest st"
  "t \<noteq> s \<Longrightarrow> kv_entries (snd (LoadDataByLocalFuzzyQuery E s p st)) t = kv_entries st t"
  "t \<noteq> s \<Longrightarrow> kv_entries (snd (LoadAllData E s st)) t = kv_entries st t"
  by (simp_all add: LoadDataByLocalFuzzyQuery_def LoadAllData_def split_beta Let_def)

lemma account_read_frame [kv_frame, simp]:
  "kv_rest (snd (GetAccountInfoById E s i info st)) = kv_rest st"
  "kv_entries (snd (GetAccountInfoById E s i info st)) = kv_entries st"
  "kv_rest (snd (GetAccountInfoFromDataStorage E s info st)) = kv_rest st"
  "kv_entries (snd (GetAccountInfoFromDataStorage E s info st)) = kv_entries st"
  "kv_rest (snd (GetAccessibleAccountsFromDataStorage E s app st)) = kv_rest st"
  "kv_entries (snd (GetAccessibleAccountsFromDataStorage E s app st)) = kv_entries st"
  by (simp_all add: GetAccountInfoById_def GetAccountInfoFromDataStorage_def
      GetAccessibleAccountsFromDataStorage_def split_beta Let_def)

section \<open>Transactions are atomic\<close>

lemma Convert_SUCCESS [simp]:
  "ConvertKvStatus x = SUCCESS \<longleftrightarrow> x = KV_SUCCESS" "SUCCESS = ConvertKvStatus x \<longleftrightarrow> x = KV_SUCCESS"
  "ConvertKvStatus x = IPC_ERROR \<longleftrightarrow> x = KV_IPC_ERROR"
  by (cases x; simp)+

lemma StartTransaction_spec:
  assumes "kv_backup st s = None" and "StartTransaction E s st = (r, st1)"
  shows "kv_entries st1 = kv_entries st" "kv_state.more st1 = kv_state.more st"
    and "r = ERR_OK \<Longrightarrow> kv_backup st1 = (kv_backup st)(s := Some (kv_entries st s))
           \<and> kv_locks st1 = (kv_locks st)(s := kv_locks st s + 1)"
    and "r \<noteq> ERR_OK \<Longrightarrow> kv_backup st1 = kv_backup st \<and> kv_locks st1 = kv_locks st"
proof -
  obtain ready st0 where c: "CheckKvStore E s st = (ready, st0)" by force
  then have f: "kv_entries st0 = kv_entries st" "kv_backup st0 = kv_backup st" "kv_locks st0 = kv_locks st"
      "kv_state.more st0 = kv_state.more st"
    using CheckKvStore_frame(2) [of E s st] kv_rest_parts [OF CheckKvStore_frame(1) [of E s st]] by auto
  show "kv_entries st1 = kv_entries st" "kv_state.more st1 = kv_state.more st"
    "r = ERR_OK \<Longrightarrow> kv_backup st1 = (kv_backup st)(s := Some (kv_entries st s))
       \<and> kv_locks st1 = (kv_locks st)(s := kv_locks st s + 1)"
    "r \<noteq> ERR_OK \<Longrightarrow> kv_backup st1 = kv_backup st \<and> kv_locks st1 = kv_locks st"
    using assms c f
    by (auto simp: StartTransaction_def try_twice_def Db_StartTransaction_def kv_call_def lock_transaction_def
        unlock_transaction_def Let_def split: if_splits)
qed

lemma Commit_spec:
  assumes "kv_backup st s = Some old" and "Commit E s st = (r, st1)"
  shows "kv_entries st1 = kv_entries st" "kv_state.more st1 = kv_state.more st"
    and "r = ERR_OK \<Longrightarrow> kv_backup st1 = (kv_backup st)(s := None)
           \<and> kv_locks st1 = (kv_locks st)(s := kv_locks st s - 1)"
    and "r \<noteq> ERR_OK \<Longrightarrow> kv_backup st1 = kv_backup st \<and> kv_locks st1 = kv_locks st"
proof -
  obtain ready st0 where c: "CheckKvStore E s st = (ready, st0)" by force
  then have f: "kv_entries st0 = kv_entries st" "kv_backup st0 = kv_backup st" "kv_locks st0 = kv_locks st"
      "kv_state.more st0 = kv_state.more st"
    using CheckKvStore_frame(2) [of E s st] kv_rest_parts [OF CheckKvStore_frame(1) [of E s st]] by auto
  show "kv_entries st1 = kv_entries st" "kv_state.more st1 = kv_state.more st"
    "r = ERR_OK \<Longrightarrow> kv_backup st1 = (kv_backup st)(s := None) \<and> kv_locks st1 = (kv_locks st)(s := kv_locks st s - 1)"
    "r \<noteq> ERR_OK \<Longrightarrow> kv_backup st1 = kv_backup st \<and> kv_locks st1 = kv_locks st"
    using assms c f
    by (auto simp: Commit_def try_twice_def Db_Commit_def kv_call_def unlock_transaction_def Let_def split: if_splits)
qed

lemma Rollback_db_spec:
  assumes "kv_backup st s = Some old"
  shows "kv_locks (snd (Rollback_db E s st)) = (kv_locks st)(s := kv_locks st s - 1)"
    and "kv_state.more (snd (Rollback_db E s st)) = kv_state.more st"
    and "(kv_entries (snd (Rollback_db E s st)) = (kv_entries st)(s := old)
          \<and> kv_backup (snd (Rollback_db E s st)) = (kv_backup st)(s := None))
       \<or> (kv_entries (snd (Rollback_db E s st)) = kv_entries st \<and> kv_backup (snd (Rollback_db E s st)) = kv_backup st)"
proof -
  obtain ready st0 where c: "CheckKvStore E s st = (ready, st0)" by force
  then have f: "kv_entries st0 = kv_entries st" "kv_backup st0 = kv_backup st" "kv_locks st0 = kv_locks st"
      "kv_state.more st0 = kv_state.more st"
    using CheckKvStore_frame(2) [of E s st] kv_rest_parts [OF CheckKvStore_frame(1) [of E s st]] by auto
  show "kv_locks (snd (Rollback_db E s st)) = (kv_locks st)(s := kv_locks st s - 1)"
    "kv_state.more (snd (Rollback_db E s st)) = kv_state.more st"
    "(kv_entries (snd (Rollback_db E s st)) = (kv_entries st)(s := old)
          \<and> kv_backup (snd (Rollback_db E s st)) = (kv_backup st)(s := None))
       \<or> (kv_entries (snd (Rollback_db E s st)) = kv_entries st \<and> kv_backup (snd (Rollback_db E s st)) = kv_backup st)"
    using assms c f
    by (auto simp: Rollback_db_def try_twice_def Db_Rollback_def kv_call_def unlock_transaction_def Let_def split: if_splits)
qed

text \<open>
  The contract between a transaction and the code inside it: the body works through the storage and
  touches neither the transaction nor its lock. What every guarded function promises is proved once.
\<close>

definition rolled_back :: "string \<Rightarrow> 'w kv_state_scheme \<Rightarrow> 'w kv_state_scheme \<Rightarrow> bool" where
  "rolled_back s st st' \<longleftrightarrow> kv_backup st' s = Some (kv_entries st s)
     \<or> kv_backup st' s = None \<and> kv_entries st' s = kv_entries st s"

locale guarded_body =
  fixes E :: "'z kv_env_scheme" and s :: string
    and body :: "'w kv_state_scheme \<Rightarrow> ErrCode \<times> 'w kv_state_scheme"
  assumes keeps_backup: "kv_backup (snd (body st)) = kv_backup st"
    and keeps_locks: "kv_locks (snd (body st)) = kv_locks st"
begin

lemma started:
  assumes "kv_backup st s = None" and "StartTransaction E s st = (ERR_OK, st1)" and "body st1 = (r, st2)"
  shows "kv_backup st2 = (kv_backup st)(s := Some (kv_entries st s))"
    and "kv_locks st2 = (kv_locks st)(s := kv_locks st s + 1)"
  using StartTransaction_spec(3) [OF assms(1,2)] keeps_backup [of st1] keeps_locks [of st1] assms(3) by auto

lemma locks_released:
  assumes "kv_backup st s = None"
  shows "kv_locks (snd (with_DbTransaction E s body st)) = kv_locks st"
proof -
  obtain r st1 where st1: "StartTransaction E s st = (r, st1)" by force
  obtain r2 st2 where st2: "body st1 = (r2, st2)" by force
  obtain r3 st3 where st3: "Commit E s st2 = (r3, st3)" by force
  show ?thesis
  proof (cases "r = ERR_OK")
    case True
    note f = started [OF assms st1 [unfolded True] st2]
    have b: "kv_backup st2 s = Some (kv_entries st s)" using f by simp
    have b3: "kv_backup st3 s = Some (kv_entries st s)" if "r3 \<noteq> ERR_OK"
      using Commit_spec(4) [OF b st3 that] b by auto
    show ?thesis
      using True f b st1 st2 st3 Commit_spec(3,4) [OF b st3] Rollback_db_spec(1) [OF b, of E] Rollback_db_spec(1) [OF b3, of E]
      by (auto simp: with_DbTransaction_def)
  qed (use StartTransaction_spec(4) [OF assms st1] st1 in \<open>simp add: with_DbTransaction_def\<close>)
qed

lemma atomic:
  assumes "kv_backup st s = None" and "with_DbTransaction E s body st = (r, st')" and "r \<noteq> ERR_OK"
  shows "rolled_back s st st'"
proof -
  obtain q st1 where st1: "StartTransaction E s st = (q, st1)" by force
  obtain r2 st2 where st2: "body st1 = (r2, st2)" by force
  obtain r3 st3 where st3: "Commit E s st2 = (r3, st3)" by force
  show ?thesis
  proof (cases "q = ERR_OK")
    case True
    note f = started [OF assms(1) st1 [unfolded True] st2]
    have b: "kv_backup st2 s = Some (kv_entries st s)" using f by simp
    have b3: "kv_backup st3 s = Some (kv_entries st s)" if "r3 \<noteq> ERR_OK"
      using Commit_spec(4) [OF b st3 that] b by simp
    have "st' = snd (Rollback_db E s st2) \<or> st' = snd (Rollback_db E s st3) \<and> r3 \<noteq> ERR_OK"
      using assms(2,3) True st1 st2 st3 by (auto simp: with_DbTransaction_def split: if_splits)
    then show ?thesis
      using Rollback_db_spec(3) [OF b, of E] Rollback_db_spec(3) [OF b3, of E] b b3 by (auto simp: rolled_back_def)
  next
    case False
    then show ?thesis
      using StartTransaction_spec(1,4) [OF assms(1) st1] assms st1 by (auto simp: with_DbTransaction_def rolled_back_def)
  qed
qed

lemma committed:
  assumes "kv_backup st s = None" and "with_DbTransaction E s body st = (ERR_OK, st')"
  shows "\<exists>st1 st2. kv_entries st1 = kv_entries st \<and> kv_state.more st1 = kv_state.more st \<and> body st1 = (ERR_OK, st2)
    \<and> kv_entries st' = kv_entries st2 \<and> kv_state.more st' = kv_state.more st2 \<and> kv_backup st' = kv_backup st"
proof -
  obtain q st1 where st1: "StartTransaction E s st = (q, st1)" by force
  obtain r2 st2 where st2: "body st1 = (r2, st2)" by force
  obtain r3 st3 where st3: "Commit E s st2 = (r3, st3)" by force
  have ok: "q = ERR_OK" "r2 = ERR_OK" "r3 = ERR_OK" "st' = st3"
    using assms(2) st1 st2 st3 by (auto simp: with_DbTransaction_def split: if_splits)
  note f = started [OF assms(1) st1 [unfolded ok] st2]
  have b: "kv_backup st2 s = Some (kv_entries st s)" using f by simp
  have "kv_backup st3 = kv_backup st"
    using Commit_spec(3) [OF b st3 ok(3)] f assms(1) by (auto simp: fun_eq_iff)
  with ok st2 Commit_spec(1,2) [OF b st3] StartTransaction_spec(1,2) [OF assms(1) st1] show ?thesis by auto
qed

end

section \<open>A database that answers\<close>

text \<open>What the calls return and store when every call of the key-value store succeeds.\<close>

definition kv_ok :: "'z kv_env_scheme \<Rightarrow> bool" where
  "kv_ok E \<longleftrightarrow> (\<forall>n. kv_status E n = KV_SUCCESS)"

named_theorems kv_healthy \<open>results on a database that answers\<close>

lemma kv_ok_call [simp]: "kv_ok E \<Longrightarrow> fst (kv_call E st) = KV_SUCCESS"
  by (simp add: kv_ok_def kv_call_def)

lemma kv_ok_write [simp]:
  assumes "kv_ok E"
  shows "fst (kv_write E s f st) = KV_SUCCESS"
    and "kv_entries (snd (kv_write E s f st)) = (kv_entries st)(s := f (kv_entries st s))"
  using assms by (simp_all add: kv_write_def kv_call_def kv_ok_def)

lemma CheckKvStore_ok [kv_healthy, simp]:
  assumes "kv_ok E"
  shows "fst (CheckKvStore E s st)"
proof -
  have "kv_open (open_loop E s (Suc n) st) s" for n
    using assms by (simp add: GetSingleKvStore_def kv_call_def kv_ok_def)
  then show ?thesis by (simp add: CheckKvStore_def MAX_TIMES_def Let_def eval_nat_numeral del: open_loop.simps)
qed

lemma twice_ok [kv_healthy, simp]:
  assumes "kv_ok E"
  shows "fst (TryTwice (Db_Get E s key) st) =
      (case map_of (kv_entries st s) key of None \<Rightarrow> (KEY_NOT_EXIST, []) | Some v \<Rightarrow> (SUCCESS, v))"
    and "fst (TryTwice (Db_GetEntries E s p) st) = (SUCCESS, filter (\<lambda>e. starts_with p (fst e)) (kv_entries st s))"
    and "fst (try_twice (Db_Put E s key v) st) = SUCCESS"
    and "fst (try_twice (Db_Delete E s key) st) = SUCCESS"
    and "kv_entries (snd (try_twice (Db_Put E s key v) st)) = (kv_entries st)(s := sm_put key v (kv_entries st s))"
    and "kv_entries (snd (try_twice (Db_Delete E s key) st)) = (kv_entries st)(s := sm_erase key (kv_entries st s))"
  using assms
  by (simp_all add: TryTwice_def try_twice_def Db_Get_def Db_GetEntries_def Db_Put_def Db_Delete_def split_beta
      split: option.split)

lemma GetValue_ok [kv_healthy, simp]:
  "kv_ok E \<Longrightarrow> fst (GetValueFromKvStore E s key st) =
     (case map_of (kv_entries st s) key of
        None \<Rightarrow> (ERR_OSACCOUNT_SERVICE_MANAGER_QUERY_DISTRIBUTE_DATA_ERROR, []) | Some v \<Rightarrow> (ERR_OK, v))"
  by (simp add: GetValueFromKvStore_def split_beta Let_def split: option.split)

lemma PutValue_ok [kv_healthy, simp]:
  assumes "kv_ok E"
  shows "fst (PutValueToKvStore E s key v st) = ERR_OK"
    and "kv_entries (snd (PutValueToKvStore E s key v st)) = (kv_entries st)(s := sm_put key v (kv_entries st s))"
  using assms by (simp_all add: PutValueToKvStore_def split_beta Let_def)

lemma sm_erase_none: "map_of m k = None \<Longrightarrow> sm_erase k m = m"
  by (force simp: sm_erase_def map_of_eq_None_iff filter_id_conv)

lemma RemoveValue_ok [kv_healthy, simp]:
  assumes "kv_ok E"
  shows "fst (RemoveValueFromKvStore E s key st) = ERR_OK"
    and "kv_entries (snd (RemoveValueFromKvStore E s key st)) = (kv_entries st)(s := sm_erase key (kv_entries st s))"
  using assms by (auto simp: RemoveValueFromKvStore_def split_beta Let_def sm_erase_none split: option.split)

lemma IsKeyExists_ok [kv_healthy, simp]:
  "kv_ok E \<Longrightarrow> fst (IsKeyExists E s key st) \<longleftrightarrow> map_of (kv_entries st s) key \<noteq> None"
  by (auto simp: IsKeyExists_def split_beta split: option.split)

lemma AddAccountInfo_ok [kv_healthy]:
  assumes "kv_ok E" and "ToString E info \<noteq> []"
  shows "fst (AddAccountInfo E s info st) = (if map_of (kv_entries st s) (GetPrimeKey info) = None then ERR_OK
      else ERR_OSACCOUNT_SERVICE_DATA_STORAGE_KEY_EXISTED_ERROR)"
    and "map_of (kv_entries st s) (GetPrimeKey info) = None \<Longrightarrow> kv_entries (snd (AddAccountInfo E s info st)) =
      (kv_entries st)(s := sm_put (GetPrimeKey info) (ToString E info) (kv_entries st s))"
  using assms by (auto simp: AddAccountInfo_def split_beta Let_def)

lemma SaveAccountInfo_ok [kv_healthy]:
  assumes "kv_ok E" and "ToString E info \<noteq> []" and "map_of (kv_entries st s) (GetPrimeKey info) \<noteq> None"
  shows "fst (SaveAccountInfo_db E s info st) = ERR_OK"
    and "kv_entries (snd (SaveAccountInfo_db E s info st)) =
      (kv_entries st)(s := sm_put (GetPrimeKey info) (ToString E info) (kv_entries st s))"
  using assms by (auto simp: SaveAccountInfo_db_def split_beta Let_def)

text \<open>A transaction on such a database runs its body and keeps what the body stored.\<close>

lemma transaction_ok:
  assumes "kv_ok E"
  shows "kv_backup st s = None \<Longrightarrow> fst (StartTransaction E s st) = ERR_OK"
    and "kv_backup st s = Some old \<Longrightarrow> fst (Commit E s st) = ERR_OK"
  using assms CheckKvStore_ok [OF assms, of s st] kv_rest_parts(1) [OF CheckKvStore_frame(1) [of E s st]]
  by (simp_all add: StartTransaction_def Commit_def try_twice_def Db_StartTransaction_def Db_Commit_def
      kv_call_def kv_ok_def lock_transaction_def split_beta Let_def)

lemma Rollback_ok:
  assumes "kv_ok E" and "kv_backup st s = Some old"
  shows "kv_entries (snd (Rollback_db E s st)) = (kv_entries st)(s := old)"
    and "kv_backup (snd (Rollback_db E s st)) = (kv_backup st)(s := None)"
  using assms CheckKvStore_ok [OF assms(1), of s st] kv_rest_parts(1) [OF CheckKvStore_frame(1) [of E s st]]
  by (simp_all add: Rollback_db_def try_twice_def Db_Rollback_def kv_call_def kv_ok_def unlock_transaction_def
      split_beta Let_def)

context guarded_body
begin

lemma run_ok:
  assumes "kv_ok E" and "kv_backup st s = None"
  obtains st1 where "kv_entries st1 = kv_entries st" "kv_state.more st1 = kv_state.more st"
    "fst (with_DbTransaction E s body st) = fst (body st1)"
    "kv_backup (snd (with_DbTransaction E s body st)) = kv_backup st"
    "kv_entries (snd (with_DbTransaction E s body st)) =
       (if fst (body st1) = ERR_OK then kv_entries (snd (body st1)) else (kv_entries (snd (body st1)))(s := kv_entries st s))"
    "kv_state.more (snd (with_DbTransaction E s body st)) = kv_state.more (snd (body st1))"
proof -
  obtain st1 where st1: "StartTransaction E s st = (ERR_OK, st1)"
    using transaction_ok(1) [OF assms] by (metis prod.collapse)
  obtain r st2 where st2: "body st1 = (r, st2)" by force
  note f = started [OF assms(2) st1 st2]
  have b: "kv_backup st2 s = Some (kv_entries st s)" using f by simp
  obtain st3 where st3: "Commit E s st2 = (ERR_OK, st3)"
    using transaction_ok(2) [OF assms(1) b] by (metis prod.collapse)
  have b3: "kv_backup st3 = kv_backup st"
    using Commit_spec(3) [OF b st3 refl] f assms(2) by (auto simp: fun_eq_iff)
  have bf: "kv_backup (snd (Rollback_db E s st2)) = kv_backup st"
    using Rollback_ok(2) [OF assms(1) b] f assms(2) by (auto simp: fun_eq_iff)
  note start = StartTransaction_spec(1,2) [OF assms(2) st1]
  show ?thesis
  proof (cases "r = ERR_OK")
    case True
    then show ?thesis
      using that [of st1] start b3 Commit_spec(1,2) [OF b st3] st1 st2 st3 by (simp add: with_DbTransaction_def)
  next
    case False
    then show ?thesis
      using that [of st1] start bf Rollback_ok(1) [OF assms(1) b] Rollback_db_spec(2) [OF b, of E] st1 st2
      by (simp add: with_DbTransaction_def)
  qed
qed

end

end
