(* ===== verification/App_Account_Control.thy ===== *)
theory App_Account_Control
  imports Account_Data_Storage
begin

text \<open>
  The control manager of the app accounts
  (\<open>services/accountmgr/src/appaccount/app_account_control_manager.cpp\<close>): every request reads the
  account from the database of its user, changes the record and writes it back; the entry
  \<open>authorizedAccounts\<close> is an index from applications to the accounts they may see; with the distributed
  feature a synchronized account is written to a second store as well; with the asset part secrets live in
  the asset store; associated data is cached for a few callers. The state extends that of the database.

  The asset store, the bundle manager, the access token kit and the system parameters are parameters or
  arguments. \<open>GetDataStorage\<close> never returns a null pointer, so the tests for it are left out, and a storage
  object that was closed or dropped is a store that is not open. An output argument of a call that fails is
  not read by the callers and is empty here. The functions that ask for the visible clone index are modelled
  for the build without sub spaces.
\<close>

section \<open>State and environment\<close>

record AssociatedDataCacheItem =
  ac_data :: "(string, string) smap"
  ac_name :: string
  ac_freq :: int

record asset =
  as_secret :: string
  as_label1 :: string
  as_label2 :: string

record app_ctl = kv_state +
  associatedDataCache :: "(nat, AssociatedDataCacheItem) smap"
  removedOsAccounts :: "nat sset"
  migratedAccounts :: "nat sset"
  ctl_assets :: "nat \<Rightarrow> string \<Rightarrow> asset option"

record app_env = kv_env +
  asset_status :: "nat \<Rightarrow> nat option"
  GetNameForUid :: "nat \<Rightarrow> string option"
  GetDualModeBundleInfo :: "string \<Rightarrow> nat \<Rightarrow> int option"
  param_mainmode :: int
  param_ispcmode :: bool

record AppAccountCallingInfo =
  ci_callingUid :: nat
  ci_bundleName :: string
  ci_appIndex :: u32

record AuthenticatorSessionRequest =
  rq_name :: string
  rq_owner :: string
  rq_authType :: string
  rq_token :: string
  rq_bundleName :: string
  rq_callerBundleName :: string
  rq_appIndex :: u32
  rq_isTokenVisible :: bool
  rq_callerUid :: nat

definition UID_TRANSFORM_DIVISOR :: nat where "UID_TRANSFORM_DIVISOR = 200000"
definition DUAL_MODE_APP_INDEX :: u32 where "DUAL_MODE_APP_INDEX = 10000"
definition ACCOUNT_MAX_SIZE :: nat where "ACCOUNT_MAX_SIZE = 1000"
definition ASSOCIATED_DATA_CACHE_MAX_SIZE :: nat where "ASSOCIATED_DATA_CACHE_MAX_SIZE = 5"
definition API_VERSION8 :: nat where "API_VERSION8 = 8"
definition EL2_DATA_STORE_PREFIX :: string where "EL2_DATA_STORE_PREFIX = ''account_''"
definition DATA_STORAGE_SUFFIX :: string where "DATA_STORAGE_SUFFIX = ''_sync''"

definition GetDataStorageByUserId :: "nat \<Rightarrow> bool \<Rightarrow> string" where
  "GetDataStorageByUserId userId autoSync =
     EL2_DATA_STORE_PREFIX @ to_string_nat userId @ (if autoSync then DATA_STORAGE_SUFFIX else [])"

definition GetDataStorage :: "nat \<Rightarrow> bool \<Rightarrow> string" where
  "GetDataStorage uid autoSync = GetDataStorageByUserId (uid div UID_TRANSFORM_DIVISOR) autoSync"

section \<open>Which clone of an application is meant\<close>

definition IsDualModeMainMode :: "'z app_env_scheme \<Rightarrow> ErrCode \<times> bool" where
  "IsDualModeMainMode E =
     (if param_mainmode E = -1 then (ERR_OK, True)
      else if param_mainmode E \<noteq> 0 \<and> param_mainmode E \<noteq> 1 then (ERR_ACCOUNT_COMMON_SYSTEM_SERVICE_EXCEPTION, True)
      else (ERR_OK, (if param_ispcmode E then 1 else 0) = param_mainmode E))"

definition GetMainAppIndex :: "'z app_env_scheme \<Rightarrow> string \<Rightarrow> nat \<Rightarrow> u32 option" where
  "GetMainAppIndex E bundleName userId = map_option word_of_int (GetDualModeBundleInfo E bundleName userId)"

definition QueryVisibleEnabledAppIndex :: "'z app_env_scheme \<Rightarrow> string \<Rightarrow> u32 \<Rightarrow> nat \<Rightarrow> ErrCode \<times> u32" where
  "QueryVisibleEnabledAppIndex E bundleName callerAppIndex osAccountId =
     (case GetMainAppIndex E bundleName osAccountId of
        None \<Rightarrow> (ERR_APPACCOUNT_SERVICE_GET_BUNDLE_INFO, 0)
      | Some i \<Rightarrow> (ERR_OK, i))"

definition GetDefaultAppIndex :: "'z app_env_scheme \<Rightarrow> ErrCode \<times> u32" where
  "GetDefaultAppIndex E =
     (let (ret, isMainMode) = IsDualModeMainMode E in
      if ret \<noteq> ERR_OK then (ret, - 1) else (ERR_OK, if isMainMode then 0 else DUAL_MODE_APP_INDEX))"

definition ResolveAppIndex :: "'z app_env_scheme \<Rightarrow> string \<Rightarrow> u32 \<Rightarrow> nat \<Rightarrow> ErrCode \<times> u32" where
  "ResolveAppIndex E bundleName callerAppIndex callerUid =
     (let (ret, appIndex) =
        QueryVisibleEnabledAppIndex E bundleName callerAppIndex (callerUid div UID_TRANSFORM_DIVISOR) in
      if ret \<noteq> ERR_OK then GetDefaultAppIndex E else (ret, appIndex))"

definition ResolveAndEncodeAuthorizedApp ::
  "'z app_env_scheme \<Rightarrow> string \<Rightarrow> u32 \<Rightarrow> nat \<Rightarrow> ErrCode \<times> string" where
  "ResolveAndEncodeAuthorizedApp E authorizedApp callerAppIndex callerUid =
     (let (ret, appIndex) = ResolveAppIndex E authorizedApp callerAppIndex callerUid in
      if ret \<noteq> ERR_OK then (ret, []) else (ERR_OK, EncodeAuthorizedApp E authorizedApp appIndex))"

definition GetBundleKeySuffix :: "'z app_env_scheme \<Rightarrow> u32 \<Rightarrow> string" where
  "GetBundleKeySuffix E appIndex =
     (if ENABLE_SUBSPACE E then HYPHEN @ to_string_u32 appIndex
      else if appIndex = 0 then [] else HYPHEN @ to_string_u32 appIndex)"

definition IsAppIndexVisibleToCaller ::
  "'z app_env_scheme \<Rightarrow> string \<Rightarrow> nat \<Rightarrow> u32 \<Rightarrow> u32 \<Rightarrow> bool \<Rightarrow> bool" where
  "IsAppIndexVisibleToCaller E accountOwner localId callerAppIndex targetAppIndex isCloneVisible =
     (let (ret, ownerVisibleAppIndex) = QueryVisibleEnabledAppIndex E accountOwner callerAppIndex localId in
      if ret \<noteq> ERR_OK then False
      else if ownerVisibleAppIndex = 0
      then (if isCloneVisible then targetAppIndex < DUAL_MODE_APP_INDEX else targetAppIndex = 0)
      else if ownerVisibleAppIndex = DUAL_MODE_APP_INDEX
      then (if isCloneVisible then targetAppIndex \<ge> DUAL_MODE_APP_INDEX else targetAppIndex = DUAL_MODE_APP_INDEX)
      else False)"

section \<open>The asset store\<close>

text \<open>
  An asset is found by its alias and user and carries two labels. A call fails with the code
  \<open>asset_status\<close> gives it, \<open>SEC_ASSET_NOT_FOUND\<close> when no asset fits.
\<close>

definition SEC_ASSET_NOT_FOUND :: ErrCode where "SEC_ASSET_NOT_FOUND = ERR_EXTERNAL 24000002"

datatype asset_label = SEC_ASSET_TAG_DATA_LABEL_NORMAL_1 | SEC_ASSET_TAG_DATA_LABEL_NORMAL_2

definition put_asset :: "nat \<Rightarrow> string \<Rightarrow> asset option \<Rightarrow> 'w app_ctl_scheme \<Rightarrow> 'w app_ctl_scheme" where
  "put_asset localId alias a st =
     st\<lparr>ctl_assets := (ctl_assets st)(localId := (ctl_assets st localId)(alias := a))\<rparr>"

definition tick_ctl :: "'w app_ctl_scheme \<Rightarrow> 'w app_ctl_scheme" where
  "tick_ctl st = st\<lparr>kv_tick := Suc (kv_tick st)\<rparr>"

definition SaveDataToAsset ::
  "'z app_env_scheme \<Rightarrow> nat \<Rightarrow> string \<Rightarrow> string \<Rightarrow> string \<Rightarrow> string \<Rightarrow> 'w app_ctl_scheme \<Rightarrow> ErrCode \<times> 'w app_ctl_scheme" where
  "SaveDataToAsset E localId hapLabel accountLabel alias val st =
     (if val = [] then (ERR_OK, st)
      else case asset_status E (kv_tick st) of Some c \<Rightarrow> (ERR_EXTERNAL c, tick_ctl st)
      | None \<Rightarrow>
          (case ctl_assets st localId alias of
             None \<Rightarrow> (ERR_OK, put_asset localId alias
                       (Some \<lparr>as_secret = val, as_label1 = hapLabel, as_label2 = accountLabel\<rparr>) (tick_ctl st))
           | Some a \<Rightarrow>
               (case asset_status E (kv_tick (tick_ctl st)) of Some c \<Rightarrow> (ERR_EXTERNAL c, tick_ctl (tick_ctl st))
                | None \<Rightarrow> (ERR_OK, put_asset localId alias (Some (a\<lparr>as_secret := val\<rparr>)) (tick_ctl (tick_ctl st))))))"

definition GetDataFromAsset ::
  "'z app_env_scheme \<Rightarrow> nat \<Rightarrow> string \<Rightarrow> string \<Rightarrow> 'w app_ctl_scheme \<Rightarrow> (ErrCode \<times> string) \<times> 'w app_ctl_scheme" where
  "GetDataFromAsset E localId alias val st =
     (case asset_status E (kv_tick st) of Some c \<Rightarrow> ((ERR_EXTERNAL c, val), tick_ctl st)
      | None \<Rightarrow> (case ctl_assets st localId alias of
                    None \<Rightarrow> ((SEC_ASSET_NOT_FOUND, val), tick_ctl st)
                  | Some a \<Rightarrow> ((ERR_OK, as_secret a), tick_ctl st)))"

definition RemoveDataFromAsset ::
  "'z app_env_scheme \<Rightarrow> nat \<Rightarrow> string \<Rightarrow> 'w app_ctl_scheme \<Rightarrow> ErrCode \<times> 'w app_ctl_scheme" where
  "RemoveDataFromAsset E localId alias st =
     (case asset_status E (kv_tick st) of Some c \<Rightarrow> (ERR_EXTERNAL c, tick_ctl st)
      | None \<Rightarrow> (if ctl_assets st localId alias = None then (SEC_ASSET_NOT_FOUND, tick_ctl st)
                 else (ERR_OK, put_asset localId alias None (tick_ctl st))))"

definition has_label :: "asset_label \<Rightarrow> string \<Rightarrow> asset \<Rightarrow> bool" where
  "has_label tag label a =
     (case tag of SEC_ASSET_TAG_DATA_LABEL_NORMAL_1 \<Rightarrow> as_label1 a = label
      | SEC_ASSET_TAG_DATA_LABEL_NORMAL_2 \<Rightarrow> as_label2 a = label)"

definition RemoveDataFromAssetByLabel ::
  "'z app_env_scheme \<Rightarrow> nat \<Rightarrow> asset_label \<Rightarrow> string \<Rightarrow> 'w app_ctl_scheme \<Rightarrow> 'w app_ctl_scheme" where
  "RemoveDataFromAssetByLabel E localId tag label st =
     (case asset_status E (kv_tick st) of Some c \<Rightarrow> tick_ctl st
      | None \<Rightarrow> (tick_ctl st)\<lparr>ctl_assets := (ctl_assets st)(localId := (\<lambda>alias.
          case ctl_assets st localId alias of None \<Rightarrow> None
          | Some a \<Rightarrow> if has_label tag label a then None else Some a))\<rparr>)"

section \<open>Accounts and the index in the stores\<close>

text \<open>Whether a change goes to the store that is synchronized between devices too.\<close>

definition NeedSyncDataStorage :: "'z app_env_scheme \<Rightarrow> AppAccountInfo \<Rightarrow> bool" where
  "NeedSyncDataStorage E info \<longleftrightarrow> DISTRIBUTED_FEATURE E \<and> ai_syncEnable info"

definition owner_key :: "string \<Rightarrow> u32 \<Rightarrow> string" where
  "owner_key owner appIndex = owner @ HYPHEN @ to_string_u32 appIndex"

definition AddAccountInfoIntoDataStorage ::
  "'z app_env_scheme \<Rightarrow> AppAccountInfo \<Rightarrow> string \<Rightarrow> nat \<Rightarrow> 'w app_ctl_scheme \<Rightarrow> ErrCode \<times> 'w app_ctl_scheme" where
  "AddAccountInfoIntoDataStorage E info ds uid st =
     (let ((result, accounts), st1) = LoadDataByLocalFuzzyQuery E ds (owner_key (ai_owner info) (ai_appIndex info)) st in
      if result \<noteq> ERR_OK then (result, st1)
      else if length accounts \<ge> ACCOUNT_MAX_SIZE then (ERR_APPACCOUNT_SERVICE_ACCOUNT_MAX_SIZE, st1)
      else let (result, st2) = AddAccountInfo E ds info st1 in
           if result \<noteq> ERR_OK then (result, st2)
           else if NeedSyncDataStorage E info then AddAccountInfo E (GetDataStorage uid True) info st2
           else (ERR_OK, st2))"

definition SaveAccountInfoIntoDataStorage ::
  "'z app_env_scheme \<Rightarrow> AppAccountInfo \<Rightarrow> string \<Rightarrow> nat \<Rightarrow> 'w app_ctl_scheme \<Rightarrow> ErrCode \<times> 'w app_ctl_scheme" where
  "SaveAccountInfoIntoDataStorage E info ds uid st =
     (let (result, st1) = SaveAccountInfo_db E ds info st in
      if result \<noteq> ERR_OK then (result, st1)
      else if NeedSyncDataStorage E info
      then let sync = GetDataStorage uid True;
               ((result, _), st2) = GetValueFromKvStore E sync (GetPrimeKey info) st1 in
           if result \<noteq> ERR_OK then AddAccountInfo E sync info st2 else SaveAccountInfo_db E sync info st2
      else (ERR_OK, st1))"

definition DeleteAccountInfoFromDataStorage_ctl ::
  "'z app_env_scheme \<Rightarrow> AppAccountInfo \<Rightarrow> string \<Rightarrow> nat \<Rightarrow> 'w app_ctl_scheme \<Rightarrow>
   (ErrCode \<times> AppAccountInfo) \<times> 'w app_ctl_scheme" where
  "DeleteAccountInfoFromDataStorage_ctl E info ds uid st =
     (let ((result, info), st1) = GetAccountInfoFromDataStorage E ds info st in
      if result \<noteq> ERR_OK then ((result, info), st1)
      else let (result, st2) = DeleteAccountInfoFromDataStorage E ds info st1 in
           if result \<noteq> ERR_OK then ((result, info), st2)
           else if NeedSyncDataStorage E info
           then ((ERR_OK, info), snd (DeleteAccountInfoFromDataStorage E (GetDataStorage uid True) info st2))
           else ((ERR_OK, info), st2))"

text \<open>The common body of the two updates of the index; a failed read is only logged.\<close>

definition update_authorized ::
  "'z app_env_scheme \<Rightarrow> (string list \<Rightarrow> string list) \<Rightarrow> string \<Rightarrow> string \<Rightarrow> 'w app_ctl_scheme \<Rightarrow> ErrCode \<times> 'w app_ctl_scheme" where
  "update_authorized E change bundleKey ds st =
     (let ((_, authorizedAccounts), st1) = GetValueFromKvStore E ds AUTHORIZED_ACCOUNTS st;
          (jsonObject, accessibleAccounts) = GetAccessibleAccountsFromAuthorizedAccounts E authorizedAccounts bundleKey;
          jsonObject = snd (AddVectorStringToJson jsonObject bundleKey (change accessibleAccounts));
          authorizedAccounts = PackJsonToString E jsonObject in
      if authorizedAccounts = [] then (ERR_ACCOUNT_COMMON_DUMP_JSON_ERROR, st1)
      else PutValueToKvStore E ds AUTHORIZED_ACCOUNTS authorizedAccounts st1)"

definition SaveAuthorizedAccountIntoDataStorage ::
  "'z app_env_scheme \<Rightarrow> string \<Rightarrow> AppAccountInfo \<Rightarrow> string \<Rightarrow> 'w app_ctl_scheme \<Rightarrow> ErrCode \<times> 'w app_ctl_scheme" where
  "SaveAuthorizedAccountIntoDataStorage E authorizedApp info ds st =
     update_authorized E (\<lambda>ids. if GetPrimeKey info \<in> set ids then ids else ids @ [GetPrimeKey info]) authorizedApp ds st"

definition RemoveAuthorizedAccountFromDataStorage ::
  "'z app_env_scheme \<Rightarrow> string \<Rightarrow> AppAccountInfo \<Rightarrow> string \<Rightarrow> 'w app_ctl_scheme \<Rightarrow> ErrCode \<times> 'w app_ctl_scheme" where
  "RemoveAuthorizedAccountFromDataStorage E authorizedApp info ds st =
     update_authorized E (remove1 (GetPrimeKey info)) authorizedApp ds st"

definition SaveAuthorizedAccount ::
  "'z app_env_scheme \<Rightarrow> string \<Rightarrow> AppAccountInfo \<Rightarrow> string \<Rightarrow> nat \<Rightarrow> 'w app_ctl_scheme \<Rightarrow> ErrCode \<times> 'w app_ctl_scheme" where
  "SaveAuthorizedAccount E bundleName info ds uid st =
     (let (result, st1) = SaveAuthorizedAccountIntoDataStorage E bundleName info ds st in
      if result \<noteq> ERR_OK then (result, st1)
      else if NeedSyncDataStorage E info
      then SaveAuthorizedAccountIntoDataStorage E bundleName info (GetDataStorage uid True) st1
      else (ERR_OK, st1))"

definition RemoveAuthorizedAccount ::
  "'z app_env_scheme \<Rightarrow> string \<Rightarrow> AppAccountInfo \<Rightarrow> string \<Rightarrow> nat \<Rightarrow> 'w app_ctl_scheme \<Rightarrow> ErrCode \<times> 'w app_ctl_scheme" where
  "RemoveAuthorizedAccount E bundleName info ds uid st =
     (let (result, st1) = RemoveAuthorizedAccountFromDataStorage E bundleName info ds st in
      if result \<noteq> ERR_OK then (result, st1)
      else if NeedSyncDataStorage E info
      then RemoveAuthorizedAccountFromDataStorage E bundleName info (GetDataStorage uid True) st1
      else (ERR_OK, st1))"

section \<open>Creating and deleting accounts\<close>

definition new_info :: "string \<Rightarrow> string \<Rightarrow> u32 \<Rightarrow> AppAccountInfo" where
  "new_info name bundleName appIndex = SetAppIndex appIndex (AppAccountInfo_new name bundleName)"

definition AddAccount ::
  "'z app_env_scheme \<Rightarrow> string \<Rightarrow> nat \<Rightarrow> AppAccountInfo \<Rightarrow> 'w app_ctl_scheme \<Rightarrow> ErrCode \<times> 'w app_ctl_scheme" where
  "AddAccount E extraInfo uid info st =
     (let ds = GetDataStorage uid False;
          ((result, info), st1) = GetAccountInfoFromDataStorage E ds info st in
      if result = ERR_OK then (ERR_APPACCOUNT_SERVICE_ADD_EXISTING_ACCOUNT, st1)
      else AddAccountInfoIntoDataStorage E (SetExtraInfo extraInfo info) ds uid st1)"

definition CreateAccount ::
  "'z app_env_scheme \<Rightarrow> (string, string) smap \<Rightarrow> nat \<Rightarrow> AppAccountInfo \<Rightarrow> 'w app_ctl_scheme \<Rightarrow> ErrCode \<times> 'w app_ctl_scheme" where
  "CreateAccount E customData uid info st =
     (let ds = GetDataStorage uid False;
          ((result, info), st1) = GetAccountInfoFromDataStorage E ds info st in
      if result = ERR_OK then (ERR_APPACCOUNT_SERVICE_ADD_EXISTING_ACCOUNT, st1)
      else let (result, info) = InitCustomData E customData info in
           if result \<noteq> ERR_OK then (ERR_APPACCOUNT_SERVICE_SET_ASSOCIATED_DATA, st1)
           else AddAccountInfoIntoDataStorage E info ds uid st1)"

definition RemoveAssociatedDataCacheByUid :: "nat \<Rightarrow> 'w app_ctl_scheme \<Rightarrow> 'w app_ctl_scheme" where
  "RemoveAssociatedDataCacheByUid uid st =
     st\<lparr>associatedDataCache := sm_erase uid (associatedDataCache st)\<rparr>"

definition RemoveAssociatedDataCacheByAccount :: "nat \<Rightarrow> string \<Rightarrow> 'w app_ctl_scheme \<Rightarrow> 'w app_ctl_scheme" where
  "RemoveAssociatedDataCacheByAccount uid name st =
     (case map_of (associatedDataCache st) uid of None \<Rightarrow> st
      | Some item \<Rightarrow> if ac_name item \<noteq> name then st
                    else st\<lparr>associatedDataCache := sm_erase uid (associatedDataCache st)\<rparr>)"

fun remove_authorizations ::
  "'z app_env_scheme \<Rightarrow> string list \<Rightarrow> AppAccountInfo \<Rightarrow> string \<Rightarrow> nat \<Rightarrow> 'w app_ctl_scheme \<Rightarrow> ErrCode \<times> 'w app_ctl_scheme" where
  "remove_authorizations E [] info ds uid st = (ERR_OK, st)"
| "remove_authorizations E (authorizedApp # apps) info ds uid st =
     (let (result, st1) = RemoveAuthorizedAccount E authorizedApp info ds uid st in
      if result \<noteq> ERR_OK then (result, st1) else remove_authorizations E apps info ds uid st1)"

definition delete_account_body ::
  "'z app_env_scheme \<Rightarrow> string \<Rightarrow> nat \<Rightarrow> AppAccountInfo \<Rightarrow> 'w app_ctl_scheme \<Rightarrow> ErrCode \<times> 'w app_ctl_scheme" where
  "delete_account_body E name uid info st =
     (let ds = GetDataStorage uid False;
          ((result, info), st1) = DeleteAccountInfoFromDataStorage_ctl E info ds uid st in
      if result \<noteq> ERR_OK then (result, st1)
      else let st2 = RemoveAssociatedDataCacheByAccount uid name st1;
               st3 = (if HAS_ASSET_PART E
                      then RemoveDataFromAssetByLabel E (uid div UID_TRANSFORM_DIVISOR) SEC_ASSET_TAG_DATA_LABEL_NORMAL_2
                             (GetPrimeKey info) st2
                      else st2)
           in remove_authorizations E (ai_authorizedApps info) info ds uid st3)"

definition DeleteAccount ::
  "'z app_env_scheme \<Rightarrow> string \<Rightarrow> nat \<Rightarrow> AppAccountInfo \<Rightarrow> 'w app_ctl_scheme \<Rightarrow> ErrCode \<times> 'w app_ctl_scheme" where
  "DeleteAccount E name uid info st =
     with_DbTransaction E (GetDataStorage uid False) (delete_account_body E name uid info) st"

section \<open>Changing one field\<close>

definition GetAccountExtraInfo ::
  "'z app_env_scheme \<Rightarrow> string \<Rightarrow> nat \<Rightarrow> string \<Rightarrow> u32 \<Rightarrow> 'w app_ctl_scheme \<Rightarrow> (ErrCode \<times> string) \<times> 'w app_ctl_scheme" where
  "GetAccountExtraInfo E name uid bundleName appIndex st =
     (let ((result, info), st1) =
        GetAccountInfoFromDataStorage E (GetDataStorage uid False) (new_info name bundleName appIndex) st in
      if result \<noteq> ERR_OK then ((result, []), st1) else ((ERR_OK, ai_extraInfo info), st1))"

definition SetAccountExtraInfo ::
  "'z app_env_scheme \<Rightarrow> string \<Rightarrow> nat \<Rightarrow> AppAccountInfo \<Rightarrow> 'w app_ctl_scheme \<Rightarrow> (ErrCode \<times> AppAccountInfo) \<times> 'w app_ctl_scheme" where
  "SetAccountExtraInfo E extraInfo uid info st =
     (let ds = GetDataStorage uid False;
          ((result, info), st1) = GetAccountInfoFromDataStorage E ds info st in
      if result \<noteq> ERR_OK then ((result, info), st1)
      else let info = SetExtraInfo extraInfo info;
               (result, st2) = SaveAccountInfoIntoDataStorage E info ds uid st1 in
           ((result, info), st2))"

definition CheckAppAccountSyncEnable ::
  "'z app_env_scheme \<Rightarrow> string \<Rightarrow> nat \<Rightarrow> string \<Rightarrow> u32 \<Rightarrow> 'w app_ctl_scheme \<Rightarrow> (ErrCode \<times> bool) \<times> 'w app_ctl_scheme" where
  "CheckAppAccountSyncEnable E name uid bundleName appIndex st =
     (let ((result, info), st1) =
        GetAccountInfoFromDataStorage E (GetDataStorage uid False) (new_info name bundleName appIndex) st in
      if result \<noteq> ERR_OK then ((result, False), st1) else ((ERR_OK, ai_syncEnable info), st1))"

definition SetAppAccountSyncEnable ::
  "'z app_env_scheme \<Rightarrow> bool \<Rightarrow> nat \<Rightarrow> AppAccountInfo \<Rightarrow> 'w app_ctl_scheme \<Rightarrow> ErrCode \<times> 'w app_ctl_scheme" where
  "SetAppAccountSyncEnable E syncEnable uid info st =
     (let ds = GetDataStorage uid False;
          ((result, info), st1) = GetAccountInfoFromDataStorage E ds info st in
      if result \<noteq> ERR_OK then (result, st1)
      else SaveAccountInfoIntoDataStorage E (SetSyncEnable syncEnable info) ds uid st1)"

section \<open>Access of other applications\<close>

definition enable_access_body ::
  "'z app_env_scheme \<Rightarrow> string \<Rightarrow> AppAccountInfo \<Rightarrow> nat \<Rightarrow> 'w app_ctl_scheme \<Rightarrow> ErrCode \<times> 'w app_ctl_scheme" where
  "enable_access_body E authorizedApp info uid st =
     (let ds = GetDataStorage uid False;
          (result, st1) = SaveAccountInfoIntoDataStorage E info ds uid st in
      if result \<noteq> ERR_OK then (result, st1) else SaveAuthorizedAccount E authorizedApp info ds uid st1)"

definition disable_access_body ::
  "'z app_env_scheme \<Rightarrow> string \<Rightarrow> AppAccountInfo \<Rightarrow> nat \<Rightarrow> 'w app_ctl_scheme \<Rightarrow> ErrCode \<times> 'w app_ctl_scheme" where
  "disable_access_body E authorizedApp info uid st =
     (let ds = GetDataStorage uid False;
          (result, st1) = SaveAccountInfoIntoDataStorage E info ds uid st in
      if result \<noteq> ERR_OK then (result, st1) else RemoveAuthorizedAccount E authorizedApp info ds uid st1)"

definition EnableAppAccess_ctl ::
  "'z app_env_scheme \<Rightarrow> string \<Rightarrow> nat \<Rightarrow> AppAccountInfo \<Rightarrow> nat \<Rightarrow> 'w app_ctl_scheme \<Rightarrow>
   (ErrCode \<times> AppAccountInfo) \<times> 'w app_ctl_scheme" where
  "EnableAppAccess_ctl E authorizedApp uid info apiVersion st =
     (let ds = GetDataStorage uid False;
          ((result, info), st1) = GetAccountInfoFromDataStorage E ds info st in
      if result \<noteq> ERR_OK then ((result, info), st1)
      else let (result, info) = EnableAppAccess authorizedApp apiVersion info in
           if result \<noteq> ERR_OK then ((result, info), st1)
           else let (result, st2) = with_DbTransaction E ds (enable_access_body E authorizedApp info uid) st1 in
                ((result, info), st2))"

definition DisableAppAccess_ctl ::
  "'z app_env_scheme \<Rightarrow> string \<Rightarrow> nat \<Rightarrow> AppAccountInfo \<Rightarrow> nat \<Rightarrow> 'w app_ctl_scheme \<Rightarrow>
   (ErrCode \<times> AppAccountInfo) \<times> 'w app_ctl_scheme" where
  "DisableAppAccess_ctl E authorizedApp uid info apiVersion st =
     (let ds = GetDataStorage uid False;
          ((result, info), st1) = GetAccountInfoFromDataStorage E ds info st in
      if result \<noteq> ERR_OK then ((result, info), st1)
      else let (result, info) = DisableAppAccess authorizedApp apiVersion info in
           if result \<noteq> ERR_OK then ((ERR_APPACCOUNT_SERVICE_DISABLE_APP_ACCESS_NOT_EXISTED, info), st1)
           else let (result, st2) = with_DbTransaction E ds (disable_access_body E authorizedApp info uid) st1 in
                ((result, info), st2))"

definition CheckAppAccess_ctl ::
  "'z app_env_scheme \<Rightarrow> string \<Rightarrow> string \<Rightarrow> AppAccountCallingInfo \<Rightarrow> 'w app_ctl_scheme \<Rightarrow> (ErrCode \<times> bool) \<times> 'w app_ctl_scheme" where
  "CheckAppAccess_ctl E name authorizedApp ci st =
     (let ((result, info), st1) = GetAccountInfoFromDataStorage E (GetDataStorage (ci_callingUid ci) False)
        (new_info name (ci_bundleName ci) (ci_appIndex ci)) st in
      if result \<noteq> ERR_OK then ((ERR_APPACCOUNT_SERVICE_ACCOUNT_NOT_EXIST, False), st1)
      else (CheckAppAccess authorizedApp info, st1))"

section \<open>Associated data and its cache\<close>

text \<open>
  The loop of \<open>PopDataFromAssociatedDataCache\<close>. The candidate is held as an iterator, so its count is
  read again in every round, after the round that chose it has set it to zero.
\<close>

fun pop_loop ::
  "nat \<Rightarrow> int \<Rightarrow> (nat, AssociatedDataCacheItem) smap \<Rightarrow> nat \<times> (nat, AssociatedDataCacheItem) smap" where
  "pop_loop toPoped freq [] = (toPoped, [])"
| "pop_loop toPoped freq ((uid, item) # its) =
     (let (toPoped, freq) = (if freq > ac_freq item then (uid, 0) else (toPoped, freq));
          (popped, its) = pop_loop toPoped freq its
      in (popped, (uid, item\<lparr>ac_freq := 0\<rparr>) # its))"

fun PopDataFromAssociatedDataCache ::
  "(nat, AssociatedDataCacheItem) smap \<Rightarrow> (nat, AssociatedDataCacheItem) smap" where
  "PopDataFromAssociatedDataCache [] = []"
| "PopDataFromAssociatedDataCache ((uid, item) # its) =
     (let (popped, its) = pop_loop uid (ac_freq item) its in sm_erase popped ((uid, item) # its))"

definition GetAssociatedDataFromStorage ::
  "'z app_env_scheme \<Rightarrow> string \<Rightarrow> string \<Rightarrow> nat \<Rightarrow> u32 \<Rightarrow> 'w app_ctl_scheme \<Rightarrow> (ErrCode \<times> string) \<times> 'w app_ctl_scheme" where
  "GetAssociatedDataFromStorage E name key uid appIndex st =
     (case GetNameForUid E uid of
        None \<Rightarrow> ((ERR_APPACCOUNT_SERVICE_GET_BUNDLE_NAME, []), st)
      | Some bundleName \<Rightarrow>
          let ((result, info), st1) =
            GetAccountInfoFromDataStorage E (GetDataStorage uid False) (new_info name bundleName appIndex) st in
          if result \<noteq> ERR_OK then ((result, []), st1)
          else let item = \<lparr>ac_data = snd (GetAllAssociatedData E info []), ac_name = name, ac_freq = 0\<rparr>;
                   answer = (case map_of (ac_data item) key of
                       Some v \<Rightarrow> (ERR_OK, v)
                     | None \<Rightarrow> (ERR_APPACCOUNT_SERVICE_ASSOCIATED_DATA_KEY_NOT_EXIST, []));
                   cache = associatedDataCache st1;
                   cache = (if length cache \<ge> ASSOCIATED_DATA_CACHE_MAX_SIZE
                            then PopDataFromAssociatedDataCache cache else cache)
               in (answer, st1\<lparr>associatedDataCache := sm_emplace uid item cache\<rparr>))"

text \<open>\<open>hapToken\<close> is the clone index that the access token kit gives for the caller, \<open>None\<close> when it fails.\<close>

definition GetAssociatedData_ctl ::
  "'z app_env_scheme \<Rightarrow> int option \<Rightarrow> string \<Rightarrow> string \<Rightarrow> nat \<Rightarrow> 'w app_ctl_scheme \<Rightarrow> (ErrCode \<times> string) \<times> 'w app_ctl_scheme" where
  "GetAssociatedData_ctl E hapToken name key uid st =
     (case map_of (associatedDataCache st) uid of
        Some item \<Rightarrow>
          if ac_name item = name
          then let st1 = st\<lparr>associatedDataCache :=
                           sm_put uid (item\<lparr>ac_freq := ac_freq item + 1\<rparr>) (associatedDataCache st)\<rparr> in
               (case map_of (ac_data item) key of
                  None \<Rightarrow> ((ERR_APPACCOUNT_SERVICE_ASSOCIATED_DATA_KEY_NOT_EXIST, []), st1)
                | Some v \<Rightarrow> ((ERR_OK, v), st1))
          else (case hapToken of
                  Some instIndex \<Rightarrow>
                    if instIndex < 0 then ((ERR_APPACCOUNT_SERVICE_GET_APP_INDEX, []), st)
                    else GetAssociatedDataFromStorage E name key uid (word_of_int instIndex)
                           (RemoveAssociatedDataCacheByUid uid st)
                | None \<Rightarrow> ((ERR_APPACCOUNT_SERVICE_GET_APP_INDEX, []), st))
      | None \<Rightarrow>
          (case hapToken of
             Some instIndex \<Rightarrow>
               if instIndex < 0 then ((ERR_APPACCOUNT_SERVICE_GET_APP_INDEX, []), st)
               else GetAssociatedDataFromStorage E name key uid (word_of_int instIndex)
                      (RemoveAssociatedDataCacheByUid uid st)
           | None \<Rightarrow> ((ERR_APPACCOUNT_SERVICE_GET_APP_INDEX, []), st)))"

definition SetAssociatedData_ctl ::
  "'z app_env_scheme \<Rightarrow> string \<Rightarrow> string \<Rightarrow> string \<Rightarrow> AppAccountCallingInfo \<Rightarrow> 'w app_ctl_scheme \<Rightarrow> ErrCode \<times> 'w app_ctl_scheme" where
  "SetAssociatedData_ctl E name key val ci st =
     (let ds = GetDataStorage (ci_callingUid ci) False;
          ((result, info), st1) = GetAccountInfoFromDataStorage E ds (new_info name (ci_bundleName ci) (ci_appIndex ci)) st in
      if result \<noteq> ERR_OK then (result, st1)
      else let (result, info) = SetAssociatedData E key val info in
           if result \<noteq> ERR_OK then (result, st1)
           else let (result, st2) = SaveAccountInfoIntoDataStorage E info ds (ci_callingUid ci) st1 in
                if result \<noteq> ERR_OK then (result, st2)
                else (ERR_OK,
                  case map_of (associatedDataCache st2) (ci_callingUid ci) of
                    Some item \<Rightarrow>
                      if ac_name item = name
                      then st2\<lparr>associatedDataCache := sm_put (ci_callingUid ci)
                             (item\<lparr>ac_data := sm_put key val (ac_data item)\<rparr>) (associatedDataCache st2)\<rparr>
                      else st2
                  | None \<Rightarrow> st2))"

section \<open>Credentials\<close>

definition GetAccountCredential_ctl ::
  "'z app_env_scheme \<Rightarrow> string \<Rightarrow> string \<Rightarrow> AppAccountCallingInfo \<Rightarrow> 'w app_ctl_scheme \<Rightarrow> (ErrCode \<times> string) \<times> 'w app_ctl_scheme" where
  "GetAccountCredential_ctl E name credentialType ci st =
     (let ds = GetDataStorage (ci_callingUid ci) False;
          ((result, info), st1) = GetAccountInfoFromDataStorage E ds (new_info name (ci_bundleName ci) (ci_appIndex ci)) st in
      if result \<noteq> ERR_OK then ((result, []), st1)
      else let (result, credential) = GetAccountCredential E credentialType info [] in
           if result \<noteq> ERR_OK then ((result, []), st1)
           else if HAS_ASSET_PART E
           then let ((_, credential), st2) =
                  GetDataFromAsset E (ci_callingUid ci div UID_TRANSFORM_DIVISOR) credential [] st1 in
                ((ERR_OK, credential), st2)
           else ((ERR_OK, credential), st1))"

definition SetAccountCredential_ctl ::
  "'z app_env_scheme \<Rightarrow> string \<Rightarrow> string \<Rightarrow> string \<Rightarrow> AppAccountCallingInfo \<Rightarrow> 'w app_ctl_scheme \<Rightarrow> ErrCode \<times> 'w app_ctl_scheme" where
  "SetAccountCredential_ctl E name credentialType credential ci st =
     (let ds = GetDataStorage (ci_callingUid ci) False;
          ((result, info), st1) = GetAccountInfoFromDataStorage E ds (new_info name (ci_bundleName ci) (ci_appIndex ci)) st in
      if result \<noteq> ERR_OK then (ERR_APPACCOUNT_SERVICE_ACCOUNT_NOT_EXIST, st1)
      else let (result, info) = SetAccountCredential E credentialType credential info in
           if result \<noteq> ERR_OK then (result, st1)
           else let (result, st2) = SaveAccountInfoIntoDataStorage E info ds (ci_callingUid ci) st1 in
                if result \<noteq> ERR_OK then (result, st2)
                else if HAS_ASSET_PART E
                then SaveDataToAsset E (ci_callingUid ci div UID_TRANSFORM_DIVISOR)
                       (owner_key (ci_bundleName ci) (ci_appIndex ci)) (fst (GetAlias E info))
                       (snd (GetAccountCredential E credentialType info [])) credential st2
                else (result, st2))"

definition DeleteAccountCredential_ctl ::
  "'z app_env_scheme \<Rightarrow> string \<Rightarrow> string \<Rightarrow> AppAccountCallingInfo \<Rightarrow> 'w app_ctl_scheme \<Rightarrow> ErrCode \<times> 'w app_ctl_scheme" where
  "DeleteAccountCredential_ctl E name credentialType ci st =
     (let ds = GetDataStorage (ci_callingUid ci) False;
          ((result, info), st1) = GetAccountInfoFromDataStorage E ds (new_info name (ci_bundleName ci) (ci_appIndex ci)) st in
      if result \<noteq> ERR_OK then (ERR_APPACCOUNT_SERVICE_ACCOUNT_NOT_EXIST, st1)
      else let st2 = (if HAS_ASSET_PART E
                      then snd (RemoveDataFromAsset E (ci_callingUid ci div UID_TRANSFORM_DIVISOR)
                             (snd (GetAccountCredential E credentialType info [])) st1)
                      else st1);
               (result, info) = DeleteAccountCredential E credentialType info in
           if result \<noteq> ERR_OK then (result, st2)
           else SaveAccountInfoIntoDataStorage E info ds (ci_callingUid ci) st2)"

section \<open>OAuth tokens\<close>

definition GetOAuthToken_ctl ::
  "'z app_env_scheme \<Rightarrow> AuthenticatorSessionRequest \<Rightarrow> nat \<Rightarrow> 'w app_ctl_scheme \<Rightarrow> (ErrCode \<times> string) \<times> 'w app_ctl_scheme" where
  "GetOAuthToken_ctl E rq apiVersion st =
     (let (appIdxRet, resolvedAppIndex) = ResolveAppIndex E (rq_owner rq) (rq_appIndex rq) (rq_callerUid rq) in
      if appIdxRet \<noteq> ERR_OK then ((appIdxRet, []), st)
      else let ((result, info), st1) = GetAccountInfoFromDataStorage E (GetDataStorage (rq_callerUid rq) False)
                 (new_info (rq_name rq) (rq_owner rq) resolvedAppIndex) st in
      if result \<noteq> ERR_OK then ((ERR_APPACCOUNT_SERVICE_ACCOUNT_NOT_EXIST, []), st1)
      else let (result, isVisible) = CheckOAuthTokenVisibility (rq_authType rq)
                 (rq_callerBundleName rq @ GetBundleKeySuffix E (rq_appIndex rq)) apiVersion info in
      if result \<noteq> ERR_OK \<or> \<not> isVisible then ((ERR_ACCOUNT_COMMON_PERMISSION_DENIED, []), st1)
      else let (result, token) = GetOAuthToken (rq_authType rq) apiVersion info in
      if result \<noteq> ERR_OK then ((result, []), st1)
      else if HAS_ASSET_PART E
      then let ((_, token), st2) = GetDataFromAsset E (rq_callerUid rq div UID_TRANSFORM_DIVISOR) token [] st1 in
           if token = [] \<and> apiVersion < API_VERSION9
           then ((ERR_APPACCOUNT_SERVICE_OAUTH_TOKEN_NOT_EXIST, []), st2) else ((ERR_OK, token), st2)
      else ((ERR_OK, token), st1))"

definition SetOAuthToken_ctl ::
  "'z app_env_scheme \<Rightarrow> AuthenticatorSessionRequest \<Rightarrow> 'w app_ctl_scheme \<Rightarrow> ErrCode \<times> 'w app_ctl_scheme" where
  "SetOAuthToken_ctl E rq st =
     (let (appIdxRet, resolvedAppIndex) = ResolveAppIndex E (rq_callerBundleName rq) (rq_appIndex rq) (rq_callerUid rq) in
      if appIdxRet \<noteq> ERR_OK then (appIdxRet, st)
      else let ds = GetDataStorage (rq_callerUid rq) False;
               ((result, info), st1) = GetAccountInfoFromDataStorage E ds
                 (new_info (rq_name rq) (rq_callerBundleName rq) resolvedAppIndex) st in
      if result \<noteq> ERR_OK then (ERR_APPACCOUNT_SERVICE_ACCOUNT_NOT_EXIST, st1)
      else let (result, info) = SetOAuthToken E (rq_authType rq) (rq_token rq) info in
      if result \<noteq> ERR_OK then (result, st1)
      else let (result, st2) = SaveAccountInfoIntoDataStorage E info ds (rq_callerUid rq) st1 in
      if result \<noteq> ERR_OK then (result, st2)
      else if HAS_ASSET_PART E
      then SaveDataToAsset E (rq_callerUid rq div UID_TRANSFORM_DIVISOR)
             (owner_key (rq_callerBundleName rq) (ai_appIndex info)) (fst (GetAlias E info))
             (snd (GetOAuthToken (rq_authType rq) API_VERSION8 info)) (rq_token rq) st2
      else (result, st2))"

definition DeleteOAuthToken_ctl ::
  "'z app_env_scheme \<Rightarrow> AuthenticatorSessionRequest \<Rightarrow> nat \<Rightarrow> 'w app_ctl_scheme \<Rightarrow> ErrCode \<times> 'w app_ctl_scheme" where
  "DeleteOAuthToken_ctl E rq apiVersion st =
     (let (appIdxRet, resolvedAppIndex) = ResolveAppIndex E (rq_owner rq) (rq_appIndex rq) (rq_callerUid rq) in
      if appIdxRet \<noteq> ERR_OK then (appIdxRet, st)
      else let localId = rq_callerUid rq div UID_TRANSFORM_DIVISOR;
               ds = GetDataStorage (rq_callerUid rq) False;
               ((ret, info), st1) = GetAccountInfoFromDataStorage E ds
                 (new_info (rq_name rq) (rq_owner rq) resolvedAppIndex) st in
      if ret \<noteq> ERR_OK then (ERR_APPACCOUNT_SERVICE_ACCOUNT_NOT_EXIST, st1)
      else let (ret, isVisible) = CheckOAuthTokenVisibility (rq_authType rq)
                 (rq_callerBundleName rq @ GetBundleKeySuffix E (rq_appIndex rq)) apiVersion info in
      if \<not> isVisible \<or> ret \<noteq> ERR_OK then (ERR_ACCOUNT_COMMON_PERMISSION_DENIED, st1)
      else let (ret, alias) = GetOAuthToken (rq_authType rq) apiVersion info;
               ((_, token), st2) = (if HAS_ASSET_PART E \<and> ret = ERR_OK
                  then GetDataFromAsset E localId alias (rq_token rq) st1 else ((ERR_OK, rq_token rq), st1)) in
      if HAS_ASSET_PART E \<and> ret \<noteq> ERR_OK then (if apiVersion \<ge> API_VERSION9 then ret else ERR_OK, st1)
      else if HAS_ASSET_PART E \<and> token \<noteq> rq_token rq then (ERR_OK, st2)
      else let st3 = (if HAS_ASSET_PART E then snd (RemoveDataFromAsset E localId alias st2) else st2);
               token = (if HAS_ASSET_PART E then alias else token);
               (ret, info) = (if apiVersion \<ge> API_VERSION9
                  then DeleteAuthToken (rq_authType rq) token (rq_owner rq = rq_callerBundleName rq) info
                  else DeleteOAuthToken E (rq_authType rq) token info) in
      if apiVersion \<ge> API_VERSION9 \<and> ret \<noteq> ERR_OK then (ret, st3)
      else if apiVersion < API_VERSION9 \<and> ret = ERR_APPACCOUNT_SERVICE_OAUTH_TOKEN_NOT_EXIST then (ERR_OK, st3)
      else SaveAccountInfoIntoDataStorage E info ds (rq_callerUid rq) st3)"

definition SetOAuthTokenVisibility_ctl ::
  "'z app_env_scheme \<Rightarrow> AuthenticatorSessionRequest \<Rightarrow> nat \<Rightarrow> 'w app_ctl_scheme \<Rightarrow> ErrCode \<times> 'w app_ctl_scheme" where
  "SetOAuthTokenVisibility_ctl E rq apiVersion st =
     (let (visRet, targetAppIndex) = ResolveAppIndex E (rq_bundleName rq) (rq_appIndex rq) (rq_callerUid rq) in
      if visRet \<noteq> ERR_OK then (visRet, st)
      else let ds = GetDataStorage (rq_callerUid rq) False;
               ((ret, info), st1) = GetAccountInfoFromDataStorage E ds
                 (new_info (rq_name rq) (rq_callerBundleName rq) (rq_appIndex rq)) st in
      if ret \<noteq> ERR_OK then (ERR_APPACCOUNT_SERVICE_ACCOUNT_NOT_EXIST, st1)
      else let (ret, info) = SetOAuthTokenVisibility (rq_authType rq)
                 (rq_bundleName rq @ GetBundleKeySuffix E targetAppIndex) (rq_isTokenVisible rq) apiVersion info in
      if ret \<noteq> ERR_OK then (ret, st1)
      else SaveAccountInfoIntoDataStorage E info ds (rq_callerUid rq) st1)"

definition CheckOAuthTokenVisibility_ctl ::
  "'z app_env_scheme \<Rightarrow> AuthenticatorSessionRequest \<Rightarrow> nat \<Rightarrow> 'w app_ctl_scheme \<Rightarrow> (ErrCode \<times> bool) \<times> 'w app_ctl_scheme" where
  "CheckOAuthTokenVisibility_ctl E rq apiVersion st =
     (let ((result, info), st1) = GetAccountInfoFromDataStorage E (GetDataStorage (rq_callerUid rq) False)
        (new_info (rq_name rq) (rq_owner rq) (rq_appIndex rq)) st in
      if result \<noteq> ERR_OK then ((ERR_APPACCOUNT_SERVICE_ACCOUNT_NOT_EXIST, False), st1)
      else let (visRet, targetAppIndex) = ResolveAppIndex E (rq_bundleName rq) (rq_appIndex rq) (rq_callerUid rq) in
      if visRet \<noteq> ERR_OK then ((visRet, False), st1)
      else (CheckOAuthTokenVisibility (rq_authType rq) (rq_bundleName rq @ GetBundleKeySuffix E targetAppIndex)
              apiVersion info, st1))"

fun visible_tokens ::
  "'z app_env_scheme \<Rightarrow> nat \<Rightarrow> bool \<Rightarrow> string \<Rightarrow> OAuthTokenInfo list \<Rightarrow> 'w app_ctl_scheme \<Rightarrow>
   OAuthTokenInfo list \<times> 'w app_ctl_scheme" where
  "visible_tokens E localId isSelf bundleKey [] st = ([], st)"
| "visible_tokens E localId isSelf bundleKey (tokenInfo # ts) st =
     (if \<not> isSelf \<and> bundleKey \<notin> set (ot_authList tokenInfo) then visible_tokens E localId isSelf bundleKey ts st
      else let ((_, token), st1) = (if HAS_ASSET_PART E then GetDataFromAsset E localId (ot_token tokenInfo) [] st
                                    else ((ERR_OK, ot_token tokenInfo), st));
               (tokenInfos, st2) = visible_tokens E localId isSelf bundleKey ts st1 in
           if token = [] \<and> ot_authList tokenInfo = [] then (tokenInfos, st2)
           else (tokenInfo\<lparr>ot_token := token, ot_authList := []\<rparr> # tokenInfos, st2))"

definition GetAllOAuthTokens_ctl ::
  "'z app_env_scheme \<Rightarrow> AuthenticatorSessionRequest \<Rightarrow> 'w app_ctl_scheme \<Rightarrow> (ErrCode \<times> OAuthTokenInfo list) \<times> 'w app_ctl_scheme" where
  "GetAllOAuthTokens_ctl E rq st =
     (let (appIdxRet, resolvedAppIndex) = ResolveAppIndex E (rq_owner rq) (rq_appIndex rq) (rq_callerUid rq) in
      if appIdxRet \<noteq> ERR_OK then ((appIdxRet, []), st)
      else let ((result, info), st1) = GetAccountInfoFromDataStorage E (GetDataStorage (rq_callerUid rq) False)
                 (new_info (rq_name rq) (rq_owner rq) resolvedAppIndex) st in
      if result \<noteq> ERR_OK then ((ERR_APPACCOUNT_SERVICE_ACCOUNT_NOT_EXIST, []), st1)
      else let isSelf = (rq_callerBundleName rq = rq_owner rq \<and> rq_appIndex rq = resolvedAppIndex);
               (result, allTokenInfos) = GetAllOAuthTokens info in
      if result \<noteq> ERR_OK then ((result, []), st1)
      else let (tokenInfos, st2) = visible_tokens E (rq_callerUid rq div UID_TRANSFORM_DIVISOR) isSelf
                 (rq_callerBundleName rq @ GetBundleKeySuffix E (rq_appIndex rq)) allTokenInfos st1 in
           ((ERR_OK, tokenInfos), st2))"

definition GetOAuthList_ctl ::
  "'z app_env_scheme \<Rightarrow> AuthenticatorSessionRequest \<Rightarrow> nat \<Rightarrow> 'w app_ctl_scheme \<Rightarrow> (ErrCode \<times> string sset) \<times> 'w app_ctl_scheme" where
  "GetOAuthList_ctl E rq apiVersion st =
     (let ((result, info), st1) = GetAccountInfoFromDataStorage E (GetDataStorage (rq_callerUid rq) False)
        (new_info (rq_name rq) (rq_callerBundleName rq) (rq_appIndex rq)) st in
      if result \<noteq> ERR_OK then ((ERR_APPACCOUNT_SERVICE_ACCOUNT_NOT_EXIST, []), st1)
      else let (result, oauthList) = GetOAuthList (rq_authType rq) apiVersion info in
           ((result, ss_of_list (map (\<lambda>entry. case ParseAuthorizedApp entry of
                Some (rawBundle, _) \<Rightarrow> rawBundle | None \<Rightarrow> entry) oauthList)), st1))"

section \<open>Listing accounts\<close>

definition GetAllAccountsFromDataStorage ::
  "'z app_env_scheme \<Rightarrow> string \<Rightarrow> string \<Rightarrow> 'w app_ctl_scheme \<Rightarrow> (ErrCode \<times> AppAccountInfo list) \<times> 'w app_ctl_scheme" where
  "GetAllAccountsFromDataStorage E owner ds st =
     (let ((result, accounts), st1) = LoadDataByLocalFuzzyQuery E ds owner st in
      if result \<noteq> ERR_OK then ((result, []), st1) else ((ERR_OK, map snd accounts), st1))"

text \<open>
  The two filters of the accounts an application was given access to; \<open>owner = None\<close> is the one that does
  not ask for the owner. A result is in \<open>Inl\<close> when the loop returns early.
\<close>

fun filter_accessible ::
  "'z app_env_scheme \<Rightarrow> string list \<Rightarrow> string option \<Rightarrow> u32 \<Rightarrow> nat \<Rightarrow> string \<Rightarrow> 'w app_ctl_scheme \<Rightarrow>
   (ErrCode + AppAccountInfo list) \<times> 'w app_ctl_scheme" where
  "filter_accessible E [] owner appIndex callingUid ds st = (Inr [], st)"
| "filter_accessible E (account # accounts) owner appIndex callingUid ds st =
     (let ((result, info), st1) = GetAccountInfoById E ds account AppAccountInfo_init st in
      if result \<noteq> ERR_OK then (Inl ERR_APPACCOUNT_SERVICE_GET_ACCOUNT_INFO_BY_ID, st1)
      else let (rest, st2) = filter_accessible E accounts owner appIndex callingUid ds st1;
               keep = ((case owner of None \<Rightarrow> True | Some own \<Rightarrow> ai_owner info = own)
                 \<and> IsAppIndexVisibleToCaller E (ai_owner info) (callingUid div UID_TRANSFORM_DIVISOR) appIndex
                     (ai_appIndex info) False)
           in ((case rest of Inl e \<Rightarrow> Inl e | Inr infos \<Rightarrow> Inr (if keep then info # infos else infos)), st2))"

definition FilterAccessibleAccountsByOwner ::
  "'z app_env_scheme \<Rightarrow> string list \<Rightarrow> string \<Rightarrow> u32 \<Rightarrow> nat \<Rightarrow> string \<Rightarrow> 'w app_ctl_scheme \<Rightarrow>
   (ErrCode \<times> AppAccountInfo list) \<times> 'w app_ctl_scheme" where
  "FilterAccessibleAccountsByOwner E accessibleAccounts owner appIndex callingUid ds st =
     (case filter_accessible E accessibleAccounts (Some owner) appIndex callingUid ds st of
        (Inl e, st1) \<Rightarrow> ((e, []), st1) | (Inr infos, st1) \<Rightarrow> ((ERR_OK, infos), st1))"

definition FilterAccessibleAccounts ::
  "'z app_env_scheme \<Rightarrow> string list \<Rightarrow> u32 \<Rightarrow> nat \<Rightarrow> string \<Rightarrow> 'w app_ctl_scheme \<Rightarrow>
   (ErrCode \<times> AppAccountInfo list) \<times> 'w app_ctl_scheme" where
  "FilterAccessibleAccounts E accessibleAccounts appIndex callingUid ds st =
     (case filter_accessible E accessibleAccounts None appIndex callingUid ds st of
        (Inl e, st1) \<Rightarrow> ((e, []), st1) | (Inr infos, st1) \<Rightarrow> ((ERR_OK, infos), st1))"

text \<open>\<open>permitted\<close> is whether the caller holds the permission \<open>GET_ALL_APP_ACCOUNTS\<close>.\<close>

definition GetAllAccounts ::
  "'z app_env_scheme \<Rightarrow> bool \<Rightarrow> string \<Rightarrow> nat \<Rightarrow> string \<Rightarrow> u32 \<Rightarrow> 'w app_ctl_scheme \<Rightarrow>
   (ErrCode \<times> AppAccountInfo list) \<times> 'w app_ctl_scheme" where
  "GetAllAccounts E permitted owner uid bundleName callerAppIndex st =
     (let (resolveRet, ownerAppIndex) = ResolveAppIndex E owner callerAppIndex uid in
      if resolveRet \<noteq> ERR_OK then ((resolveRet, []), st)
      else let ds = GetDataStorage uid False;
               isOwner = (bundleName = owner \<and> callerAppIndex = ownerAppIndex) in
      if isOwner \<or> permitted then GetAllAccountsFromDataStorage E (owner_key owner ownerAppIndex) ds st
      else let ((result, accessibleAccounts), st1) =
                 GetAccessibleAccountsFromDataStorage E ds (bundleName @ GetBundleKeySuffix E callerAppIndex) st in
           if result \<noteq> ERR_OK then ((result, []), st1)
           else FilterAccessibleAccountsByOwner E accessibleAccounts owner callerAppIndex uid ds st1)"

definition GetAllAccessibleAccountsByPermission ::
  "'z app_env_scheme \<Rightarrow> nat \<Rightarrow> u32 \<Rightarrow> string \<Rightarrow> 'w app_ctl_scheme \<Rightarrow> (ErrCode \<times> AppAccountInfo list) \<times> 'w app_ctl_scheme" where
  "GetAllAccessibleAccountsByPermission E osAccountId appIndex ds st =
     (let ((loadRet, infos), st1) = LoadAllData E ds st in
      if loadRet \<noteq> ERR_OK then ((loadRet, []), st1)
      else ((ERR_OK, map snd (filter (\<lambda>e. fst e \<noteq> AUTHORIZED_ACCOUNTS \<and>
              IsAppIndexVisibleToCaller E (ai_owner (snd e)) osAccountId appIndex (ai_appIndex (snd e)) True) infos)), st1))"

definition GetAllAccessibleAccountsFromDataStorage ::
  "'z app_env_scheme \<Rightarrow> string \<Rightarrow> nat \<Rightarrow> string \<Rightarrow> u32 \<Rightarrow> 'w app_ctl_scheme \<Rightarrow>
   (ErrCode \<times> AppAccountInfo list) \<times> 'w app_ctl_scheme" where
  "GetAllAccessibleAccountsFromDataStorage E bundleName callingUid ds appIndex st =
     (let ((result, accessibleAccounts), st1) =
        GetAccessibleAccountsFromDataStorage E ds (EncodeAuthorizedApp E bundleName appIndex) st in
      if result \<noteq> ERR_OK then ((result, []), st1)
      else let ((result, appAccounts), st2) = FilterAccessibleAccounts E accessibleAccounts appIndex callingUid ds st1 in
      if result \<noteq> ERR_OK then ((result, []), st2)
      else let ((result, currentAppAccounts), st3) =
             GetAllAccountsFromDataStorage E (owner_key bundleName appIndex) ds st2 in
      if result \<noteq> ERR_OK then ((result, []), st3) else ((ERR_OK, appAccounts @ currentAppAccounts), st3))"

definition GetAllAccessibleAccounts ::
  "'z app_env_scheme \<Rightarrow> bool \<Rightarrow> nat \<Rightarrow> string \<Rightarrow> u32 \<Rightarrow> 'w app_ctl_scheme \<Rightarrow> (ErrCode \<times> AppAccountInfo list) \<times> 'w app_ctl_scheme" where
  "GetAllAccessibleAccounts E permitted uid bundleName appIndex st =
     (let ds = GetDataStorage uid False in
      if permitted then GetAllAccessibleAccountsByPermission E (uid div UID_TRANSFORM_DIVISOR) appIndex ds st
      else GetAllAccessibleAccountsFromDataStorage E bundleName uid ds appIndex st)"

text \<open>
  The selection of accounts by owner and name; \<open>None\<close> is an option that is not set. The names and owners go
  to the callback; accounts with required labels go on to a session of the authenticator, which is not modelled.
\<close>

record SelectAccountsOptions =
  so_allowedAccounts :: "(string \<times> string) list option"
  so_allowedOwners :: "string list option"
  so_hasLabels :: bool
  so_requiredLabels :: "string list"

datatype selection = OnResult "(string \<times> string) list" | SelectByLabels "AppAccountInfo list"

definition candidate :: "SelectAccountsOptions \<Rightarrow> AppAccountInfo \<Rightarrow> bool" where
  "candidate options account \<longleftrightarrow>
     (case so_allowedOwners options of None \<Rightarrow> True | Some owners \<Rightarrow> ai_owner account \<in> set owners)
     \<and> (case so_allowedAccounts options of None \<Rightarrow> True
        | Some accounts \<Rightarrow> ai_owner account @ ''_'' @ ai_name account \<in> set (map (\<lambda>(o1, n). o1 @ ''_'' @ n) accounts))"

definition SelectAccountsByOptions ::
  "'z app_env_scheme \<Rightarrow> bool \<Rightarrow> SelectAccountsOptions \<Rightarrow> nat \<Rightarrow> string \<Rightarrow> u32 \<Rightarrow> 'w app_ctl_scheme \<Rightarrow>
   (ErrCode + selection) \<times> 'w app_ctl_scheme" where
  "SelectAccountsByOptions E permitted options uid bundleName appIndex st =
     (if so_allowedAccounts options = None \<and> so_allowedOwners options = None \<and> \<not> so_hasLabels options
      then (Inr (OnResult []), st)
      else let ((errCode, accessibleAccounts), st1) = GetAllAccessibleAccounts E permitted uid bundleName appIndex st in
           if errCode \<noteq> ERR_OK then (Inl errCode, st1)
           else let candidateAccounts = filter (candidate options) accessibleAccounts in
                (if so_requiredLabels options = []
                 then Inr (OnResult (map (\<lambda>a. (ai_name a, ai_owner a)) candidateAccounts))
                 else Inr (SelectByLabels candidateAccounts), st1))"

section \<open>Removed packages and users\<close>

definition SetOsAccountRemoved :: "nat \<Rightarrow> bool \<Rightarrow> 'w app_ctl_scheme \<Rightarrow> 'w app_ctl_scheme" where
  "SetOsAccountRemoved localId isRemoved st =
     st\<lparr>removedOsAccounts := (if isRemoved then ss_insert localId (removedOsAccounts st)
                              else ss_erase localId (removedOsAccounts st))\<rparr>"

definition IsOsAccountRemoved :: "nat \<Rightarrow> 'w app_ctl_scheme \<Rightarrow> bool" where
  "IsOsAccountRemoved localId st \<longleftrightarrow> localId \<in> set (removedOsAccounts st)"

definition remove_one_authorization ::
  "'z app_env_scheme \<Rightarrow> AppAccountInfo \<Rightarrow> string \<Rightarrow> string \<Rightarrow> string \<Rightarrow> 'w app_ctl_scheme \<Rightarrow> 'w app_ctl_scheme" where
  "remove_one_authorization E info ds sync authorizedApp st =
     (let st1 = snd (RemoveAuthorizedAccountFromDataStorage E authorizedApp info ds st) in
      if NeedSyncDataStorage E info then snd (RemoveAuthorizedAccountFromDataStorage E authorizedApp info sync st1) else st1)"

definition remove_one_account ::
  "'z app_env_scheme \<Rightarrow> u32 \<Rightarrow> string \<Rightarrow> string \<Rightarrow> AppAccountInfo \<Rightarrow> 'w app_ctl_scheme \<Rightarrow> 'w app_ctl_scheme" where
  "remove_one_account E appIndex ds sync account st =
     (let info = SetAppIndex appIndex account;
          st1 = fold (remove_one_authorization E info ds sync) (ai_authorizedApps account) st;
          st2 = snd (DeleteAccountInfoFromDataStorage E ds info st1) in
      if NeedSyncDataStorage E info then snd (DeleteAccountInfoFromDataStorage E sync info st2) else st2)"

definition remove_app_body ::
  "'z app_env_scheme \<Rightarrow> string \<Rightarrow> string \<Rightarrow> u32 \<Rightarrow> string \<Rightarrow> 'w app_ctl_scheme \<Rightarrow> ErrCode \<times> 'w app_ctl_scheme" where
  "remove_app_body E ds key appIndex sync st =
     (let ((result, accounts), st1) = LoadDataByLocalFuzzyQuery E ds key st in
      if result \<noteq> ERR_OK then (result, st1)
      else (ERR_OK, fold (remove_one_account E appIndex ds sync) (map snd accounts) st1))"

definition RemoveAppAccountDataFromDataStorage ::
  "'z app_env_scheme \<Rightarrow> string \<Rightarrow> string \<Rightarrow> u32 \<Rightarrow> string \<Rightarrow> 'w app_ctl_scheme \<Rightarrow> ErrCode \<times> 'w app_ctl_scheme" where
  "RemoveAppAccountDataFromDataStorage E ds key appIndex sync st =
     with_DbTransaction E ds (remove_app_body E ds key appIndex sync) st"

definition RemoveAppAccountData ::
  "'z app_env_scheme \<Rightarrow> nat \<Rightarrow> string \<Rightarrow> u32 \<Rightarrow> 'w app_ctl_scheme \<Rightarrow> ErrCode \<times> 'w app_ctl_scheme" where
  "RemoveAppAccountData E uid bundleName appIndex st =
     (let key = owner_key bundleName appIndex;
          (result, st1) = RemoveAppAccountDataFromDataStorage E (GetDataStorage uid False) key appIndex
            (GetDataStorage uid True) st in
      if result \<noteq> ERR_OK then (result, st1)
      else (ERR_OK, if HAS_ASSET_PART E
                    then RemoveDataFromAssetByLabel E (uid div UID_TRANSFORM_DIVISOR) SEC_ASSET_TAG_DATA_LABEL_NORMAL_1 key st1
                    else st1))"

text \<open>\<open>Close\<close> drops the pointer whatever the adapter answers, so closing every storage leaves none open.\<close>

definition CloseDataStorage :: "'w app_ctl_scheme \<Rightarrow> 'w app_ctl_scheme" where
  "CloseDataStorage st = st\<lparr>kv_open := (\<lambda>_. False)\<rparr>"

definition OnPackageRemoved_ctl ::
  "'z app_env_scheme \<Rightarrow> nat \<Rightarrow> string \<Rightarrow> u32 \<Rightarrow> 'w app_ctl_scheme \<Rightarrow> ErrCode \<times> 'w app_ctl_scheme" where
  "OnPackageRemoved_ctl E uid bundleName appIndex st =
     (let st1 = RemoveAssociatedDataCacheByUid uid st in
      if IsOsAccountRemoved (uid div UID_TRANSFORM_DIVISOR) st1 then (ERR_OK, st1)
      else let (errCode, st2) = RemoveAppAccountData E uid bundleName appIndex st1 in (errCode, CloseDataStorage st2))"

definition OnUserStopping :: "nat \<Rightarrow> 'w app_ctl_scheme \<Rightarrow> ErrCode \<times> 'w app_ctl_scheme" where
  "OnUserStopping userId st =
     (ERR_OK, st\<lparr>kv_open := (kv_open st)(GetDataStorageByUserId userId False := False,
                                        GetDataStorageByUserId userId True := False)\<rparr>)"

section \<open>Migration of the older stores\<close>

text \<open>
  Stores of older versions are copied into the store of the user and deleted. \<open>storeIdList\<close> is the answer of
  the key-value store to \<open>GetAllKvStoreId\<close>, \<open>None\<close> when it fails. The two storage objects of a round are new
  and closed when it ends, so they leave the open flags of the others alone.
\<close>

fun contains :: "string \<Rightarrow> string \<Rightarrow> bool" where
  "contains p [] = (p = [])"
| "contains p (c # s) = (starts_with p (c # s) \<or> contains p s)"

fun move_stores ::
  "'z app_env_scheme \<Rightarrow> string \<Rightarrow> string list \<Rightarrow> 'w app_ctl_scheme \<Rightarrow> 'w app_ctl_scheme" where
  "move_stores E userId [] st = st"
| "move_stores E userId (storeId # storeIds) st =
     (if contains EL2_DATA_STORE_PREFIX storeId \<or> \<not> contains userId storeId then move_stores E userId storeIds st
      else let newId = EL2_DATA_STORE_PREFIX @ userId;
               opened = kv_open st;
               (result, st1) = MoveData_storage E newId storeId (st\<lparr>kv_open := opened(newId := False, storeId := False)\<rparr>);
               st2 = (if result \<noteq> ERR_OK then st1 else snd (DeleteKvStore E storeId st1))
           in move_stores E userId storeIds (st2\<lparr>kv_open := opened\<rparr>))"

definition MoveData :: "'z app_env_scheme \<Rightarrow> string list option \<Rightarrow> 'w app_ctl_scheme \<Rightarrow> 'w app_ctl_scheme" where
  "MoveData E storeIdList st =
     (case storeIdList of None \<Rightarrow> st
      | Some ids \<Rightarrow> (fold (\<lambda>u. move_stores E (to_string_nat u) ids) (migratedAccounts st) st)\<lparr>migratedAccounts := []\<rparr>)"

definition AddMigratedAccount ::
  "'z app_env_scheme \<Rightarrow> string list option \<Rightarrow> nat \<Rightarrow> 'w app_ctl_scheme \<Rightarrow> 'w app_ctl_scheme" where
  "AddMigratedAccount E storeIdList localId st =
     MoveData E storeIdList (st\<lparr>migratedAccounts := ss_insert localId (migratedAccounts st)\<rparr>)"

end
