(* ===== verification/App_Account_Safety.thy ===== *)
theory App_Account_Safety
  imports App_Account_Control
begin

text \<open>
  What the control manager of the app accounts guarantees whatever the database does: the requests that
  change an account and the index together run in a transaction, so they change both or nothing, and they
  always give the transaction lock back. The guarded bodies are instances of the contract
  \<open>guarded_body\<close>. The theory also shows where a guarantee ends: the second store of the distributed feature and
  the asset store take no part in the transaction.
\<close>

section \<open>What the parts of a request keep\<close>

lemma update_authorized_frame [kv_frame, simp]:
  "kv_rest (snd (update_authorized E f app ds st)) = kv_rest st"
  "t \<noteq> ds \<Longrightarrow> kv_entries (snd (update_authorized E f app ds st)) t = kv_entries st t"
  by (simp_all add: update_authorized_def split_beta Let_def)

lemma authorized_frame [kv_frame, simp]:
  "kv_rest (snd (SaveAuthorizedAccountIntoDataStorage E app info ds st)) = kv_rest st"
  "kv_rest (snd (RemoveAuthorizedAccountFromDataStorage E app info ds st)) = kv_rest st"
  "kv_rest (snd (SaveAuthorizedAccount E app info ds uid st)) = kv_rest st"
  "kv_rest (snd (RemoveAuthorizedAccount E app info ds uid st)) = kv_rest st"
  by (simp_all add: SaveAuthorizedAccountIntoDataStorage_def RemoveAuthorizedAccountFromDataStorage_def
      SaveAuthorizedAccount_def RemoveAuthorizedAccount_def split_beta Let_def)

lemma account_store_frame [kv_frame, simp]:
  "kv_rest (snd (AddAccountInfoIntoDataStorage E info ds uid st)) = kv_rest st"
  "kv_rest (snd (SaveAccountInfoIntoDataStorage E info ds uid st)) = kv_rest st"
  "kv_rest (snd (DeleteAccountInfoFromDataStorage_ctl E info ds uid st)) = kv_rest st"
  by (simp_all add: AddAccountInfoIntoDataStorage_def SaveAccountInfoIntoDataStorage_def
      DeleteAccountInfoFromDataStorage_ctl_def split_beta Let_def)

lemma remove_authorizations_frame [kv_frame, simp]:
  "kv_rest (snd (remove_authorizations E apps info ds uid st)) = kv_rest st"
  by (induction apps arbitrary: st) (simp_all add: split_beta Let_def)

lemma access_body_frame [kv_frame, simp]:
  "kv_rest (snd (enable_access_body E app info uid st)) = kv_rest st"
  "kv_rest (snd (disable_access_body E app info uid st)) = kv_rest st"
  by (simp_all add: enable_access_body_def disable_access_body_def split_beta Let_def)

lemma cache_and_asset_frame [kv_frame, simp]:
  "kv_entries (RemoveAssociatedDataCacheByAccount uid name st) = kv_entries st"
  "kv_backup (RemoveAssociatedDataCacheByAccount uid name st) = kv_backup st"
  "kv_locks (RemoveAssociatedDataCacheByAccount uid name st) = kv_locks st"
  "kv_entries (RemoveDataFromAssetByLabel E u tag label st) = kv_entries st"
  "kv_backup (RemoveDataFromAssetByLabel E u tag label st) = kv_backup st"
  "kv_locks (RemoveDataFromAssetByLabel E u tag label st) = kv_locks st"
  by (simp_all add: RemoveAssociatedDataCacheByAccount_def RemoveDataFromAssetByLabel_def tick_ctl_def
      split: option.split)

lemma delete_account_body_frame:
  "kv_backup (snd (delete_account_body E name uid info st)) = kv_backup st"
  "kv_locks (snd (delete_account_body E name uid info st)) = kv_locks st"
  by (simp_all add: delete_account_body_def split_beta Let_def kv_rest_parts(1,2) [OF remove_authorizations_frame]
      kv_rest_parts(1,2) [OF account_store_frame(3)])

lemma remove_one_authorization_frame [kv_frame, simp]:
  "kv_rest (remove_one_authorization E info ds sync app st) = kv_rest st"
  by (simp add: remove_one_authorization_def Let_def)

lemma fold_frame: "(\<And>x st. x \<in> set xs \<Longrightarrow> P (f x st) = P st) \<Longrightarrow> P (fold f xs st) = P st"
  by (induction xs arbitrary: st) auto

lemma remove_one_account_frame [kv_frame, simp]:
  "kv_rest (remove_one_account E i ds sync a st) = kv_rest st"
  by (simp add: remove_one_account_def Let_def fold_frame [where P = kv_rest])

lemma remove_app_body_frame [kv_frame, simp]:
  "kv_rest (snd (remove_app_body E ds key i sync st)) = kv_rest st"
  by (simp add: remove_app_body_def split_beta Let_def fold_frame [where P = kv_rest])

section \<open>All or nothing\<close>

interpretation delete_tx: guarded_body E "GetDataStorage uid False" "delete_account_body E name uid info"
  for E :: "'z app_env_scheme" and uid name info
  by unfold_locales (rule delete_account_body_frame)+

interpretation enable_tx: guarded_body E "GetDataStorage uid False" "enable_access_body E app info uid"
  for E :: "'z app_env_scheme" and uid app info
  by unfold_locales (rule kv_rest_parts [OF access_body_frame(1)])+

interpretation disable_tx: guarded_body E "GetDataStorage uid False" "disable_access_body E app info uid"
  for E :: "'z app_env_scheme" and uid app info
  by unfold_locales (rule kv_rest_parts [OF access_body_frame(2)])+

interpretation remove_tx: guarded_body E ds "remove_app_body E ds key i sync"
  for E :: "'z app_env_scheme" and ds key i sync
  by unfold_locales (rule kv_rest_parts [OF remove_app_body_frame])+

definition safe_request :: "string \<Rightarrow> 'w kv_state_scheme \<Rightarrow> ErrCode \<Rightarrow> 'w kv_state_scheme \<Rightarrow> bool" where
  "safe_request ds st result st' \<longleftrightarrow>
     kv_locks st' = kv_locks st \<and> (result \<noteq> ERR_OK \<longrightarrow> rolled_back ds st st')"

context guarded_body
begin

lemma safe:
  "kv_backup st s = None \<Longrightarrow> safe_request s st (fst (with_DbTransaction E s body st)) (snd (with_DbTransaction E s body st))"
  using locks_released atomic by (metis prod.collapse safe_request_def)

end

text \<open>The request reads the account before it starts its transaction.\<close>

lemma safe_after_read:
  assumes "kv_rest st1 = kv_rest st" and "kv_entries st1 = kv_entries st" and "safe_request ds st1 r st'"
  shows "safe_request ds st r st'"
  using assms kv_rest_parts [OF assms(1)] by (simp add: safe_request_def rolled_back_def)

lemma safe_without_write:
  assumes "kv_rest st' = kv_rest st" and "kv_entries st' = kv_entries st" and "kv_backup st ds = None"
  shows "safe_request ds st r st'"
  using assms kv_rest_parts [OF assms(1)] by (simp add: safe_request_def rolled_back_def)

lemma access_request_safe:
  assumes "kv_backup st (GetDataStorage uid False) = None"
  shows "safe_request (GetDataStorage uid False) st (fst (fst (EnableAppAccess_ctl E app uid info v st)))
           (snd (EnableAppAccess_ctl E app uid info v st))"
    and "safe_request (GetDataStorage uid False) st (fst (fst (DisableAppAccess_ctl E app uid info v st)))
           (snd (DisableAppAccess_ctl E app uid info v st))"
proof -
  let ?ds = "GetDataStorage uid False"
  obtain r a st1 where st1: "GetAccountInfoFromDataStorage E ?ds info st = ((r, a), st1)" by (metis prod.collapse)
  have f: "kv_rest st1 = kv_rest st" "kv_entries st1 = kv_entries st"
    using account_read_frame(3,4) [of E ?ds info st] st1 by simp_all
  then have n: "kv_backup st1 ?ds = None" using assms kv_rest_parts(1) by metis
  show "safe_request ?ds st (fst (fst (EnableAppAccess_ctl E app uid info v st))) (snd (EnableAppAccess_ctl E app uid info v st))"
    using st1 safe_without_write [OF f assms] safe_after_read [OF f enable_tx.safe [OF n, of E app "snd (EnableAppAccess app v a)"]]
    by (simp add: EnableAppAccess_ctl_def split_beta Let_def)
  show "safe_request ?ds st (fst (fst (DisableAppAccess_ctl E app uid info v st))) (snd (DisableAppAccess_ctl E app uid info v st))"
    using st1 safe_without_write [OF f assms] safe_after_read [OF f disable_tx.safe [OF n, of E app "snd (DisableAppAccess app v a)"]]
    by (simp add: DisableAppAccess_ctl_def split_beta Let_def)
qed

lemma remove_request_safe:
  assumes "kv_backup st (GetDataStorage uid False) = None"
  shows "safe_request (GetDataStorage uid False) st (fst (RemoveAppAccountData E uid pkg i st))
           (snd (RemoveAppAccountData E uid pkg i st))"
  using remove_tx.safe [OF assms, of E "owner_key pkg i" i "GetDataStorage uid True"]
  by (auto simp: RemoveAppAccountData_def RemoveAppAccountDataFromDataStorage_def split_beta Let_def safe_request_def)


section \<open>A concrete environment\<close>

definition ref_app_env :: app_env where
  "ref_app_env = \<lparr>cj_parse = ref_read, cj_print = (\<lambda>j. Some (ref_print j)), HAS_ASSET_PART = False,
     ENABLE_SUBSPACE = False, DISTRIBUTED_FEATURE = False, sha256_hex = (\<lambda>s. s), kv_status = (\<lambda>_. KV_SUCCESS), kv_applied = (\<lambda>_. True),
     asset_status = (\<lambda>_. None), GetNameForUid = (\<lambda>_. Some ''com.mail''), GetDualModeBundleInfo = (\<lambda>_ _. Some 0),
     param_mainmode = -1, param_ispcmode = False\<rparr>"

definition empty_ctl :: app_ctl where
  "empty_ctl = \<lparr>kv_tick = 0, kv_open = (\<lambda>_. False), kv_entries = (\<lambda>_. []), kv_backup = (\<lambda>_. None), kv_locks = (\<lambda>_. 0),
     associatedDataCache = [], removedOsAccounts = [], migratedAccounts = [], ctl_assets = (\<lambda>_ _. None)\<rparr>"

lemma ref_app_env_ok [simp]: "kv_ok ref_app_env" "cjson_ok ref_app_env" "\<not> DISTRIBUTED_FEATURE ref_app_env"
  by (simp_all add: ref_app_env_def kv_ok_def ref_lib_ok)


end
