(* ===== verification/App_Account_Index.thy ===== *)
theory App_Account_Index
  imports App_Account_Safety
begin

text \<open>
  The database of the app accounts as a map from keys to accounts. The index \<open>authorizedAccounts\<close> is
  redundant: it is the inverse of the access lists of the accounts. The requests of the control manager
  keep it so, which makes each of them an operation on the map alone; that is what the refinement shows,
  on a database that answers and without the distributed feature.
\<close>

section \<open>The index entry\<close>

definition app_ok :: "string \<Rightarrow> bool" where
  "app_ok app \<longleftrightarrow> app \<noteq> [] \<and> nul_free app"

definition index_obj :: "'z kv_env_scheme \<Rightarrow> entries \<Rightarrow> json" where
  "index_obj E m = (case map_of m AUTHORIZED_ACCOUNTS of None \<Rightarrow> JObj []
     | Some v \<Rightarrow> (case CreateJsonFromString E v of None \<Rightarrow> JObj [] | Some j \<Rightarrow> j))"

definition index_wf :: "'z kv_env_scheme \<Rightarrow> entries \<Rightarrow> bool" where
  "index_wf E m \<longleftrightarrow> is_obj (index_obj E m) \<and> json_wf (index_obj E m)"

definition index_ids :: "'z kv_env_scheme \<Rightarrow> entries \<Rightarrow> string \<Rightarrow> string list" where
  "index_ids E m app = (case obj_item (index_obj E m) app of Some (JArr xs) \<Rightarrow> json_strings xs | _ \<Rightarrow> [])"

lemma index_other_key [simp]:
  "k \<noteq> AUTHORIZED_ACCOUNTS \<Longrightarrow> index_obj E (sm_put k v m) = index_obj E m"
  "k \<noteq> AUTHORIZED_ACCOUNTS \<Longrightarrow> index_obj E (sm_erase k m) = index_obj E m"
  by (simp_all add: index_obj_def)

lemma index_ids_cong: "index_obj E m = index_obj E m' \<Longrightarrow> index_ids E m = index_ids E m'"
  by (simp add: index_ids_def fun_eq_iff)

lemma index_ids_nul_free:
  assumes "index_wf E m"
  shows "\<forall>x \<in> set (index_ids E m app). nul_free x"
proof -
  have "\<forall>x \<in> set (json_strings xs). nul_free x" if "\<forall>x \<in> set xs. json_wf x" for xs
    using that by (induction xs rule: json_strings.induct) auto
  moreover have "\<forall>x \<in> set xs. json_wf x" if "obj_item (index_obj E m) app = Some (JArr xs)" for xs
    using json_wf_item [OF _ that] assms by (simp add: index_wf_def)
  ultimately show ?thesis by (auto simp: index_ids_def split: option.split json.split dest!: sym [of "Some _"])
qed

text \<open>What the code reads from the text of the index, and the object it writes back.\<close>

lemma accessible_of_text:
  assumes "app_ok app" and "index_wf E m" and "v = (case map_of m AUTHORIZED_ACCOUNTS of None \<Rightarrow> [] | Some v \<Rightarrow> v)"
  shows "snd (GetAccessibleAccountsFromAuthorizedAccounts E v app) = index_ids E m app"
    and "snd (AddVectorStringToJson (fst (GetAccessibleAccountsFromAuthorizedAccounts E v app)) app ids)
           = Some (obj_put (index_obj E m) app (JArr (map (\<lambda>s. JStr (c_str s)) ids)))"
proof -
  have put_put: "obj_put (obj_put j app x) app y = obj_put j app y" if "obj_item j app = None" "is_obj j" for j x y
  proof -
    obtain kvs where "j = JObj kvs" using \<open>is_obj j\<close> by (auto simp: is_obj_def)
    moreover have "replace_first app y (kvs @ [(app, x)]) = kvs @ [(app, y)]" if "map_of kvs app = None"
      using that by (induction kvs) auto
    ultimately show ?thesis using that by (auto simp: obj_put_def map_add_def)
  qed
  consider "CreateJsonFromString E v = None" "index_obj E m = JObj []"
    | j where "CreateJsonFromString E v = Some j" "index_obj E m = j"
    using assms(3) by (cases "CreateJsonFromString E v") (auto simp: index_obj_def CreateJsonFromString_def split: option.splits)
  then show "snd (GetAccessibleAccountsFromAuthorizedAccounts E v app) = index_ids E m app"
    and "snd (AddVectorStringToJson (fst (GetAccessibleAccountsFromAuthorizedAccounts E v app)) app ids)
           = Some (obj_put (index_obj E m) app (JArr (map (\<lambda>s. JStr (c_str s)) ids)))"
    using assms(1,2) put_put
    by (cases; auto simp: GetAccessibleAccountsFromAuthorizedAccounts_def index_ids_def app_ok_def IsKeyExist_def
        GetVectorStringFromJson_def GetItemFromJson_def AddObjToJson_def AddItem_def AddVectorStringToJson_def
        CreateJsonArray_def CreateJson_def index_wf_def split: option.split json.split)+
qed

lemma update_authorized_ok:
  assumes "kv_ok E" "cjson_ok E" "app_ok app" "index_wf E (kv_entries st ds)"
    and "\<And>ids. \<forall>x \<in> set ids. nul_free x \<Longrightarrow> \<forall>x \<in> set (f ids). nul_free x"
  obtains v where "update_authorized E f app ds st =
      (ERR_OK, snd (update_authorized E f app ds st))"
    "kv_entries (snd (update_authorized E f app ds st)) =
      (kv_entries st)(ds := sm_put AUTHORIZED_ACCOUNTS v (kv_entries st ds))"
    "index_wf E (sm_put AUTHORIZED_ACCOUNTS v (kv_entries st ds))"
    "\<forall>b. index_ids E (sm_put AUTHORIZED_ACCOUNTS v (kv_entries st ds)) b =
      (if b = app then f (index_ids E (kv_entries st ds) app) else index_ids E (kv_entries st ds) b)"
proof -
  let ?m = "kv_entries st ds" and ?ids = "f (index_ids E (kv_entries st ds) app)"
  let ?j = "obj_put (index_obj E ?m) app (JArr (map JStr ?ids))"
  have nf: "\<forall>x \<in> set ?ids. nul_free x" using assms(5) index_ids_nul_free [OF assms(4)] by blast
  then have eq: "map (\<lambda>s. JStr (c_str s)) ?ids = map JStr ?ids" by simp
  have wf: "json_wf ?j" "is_obj ?j"
    using assms(3,4) nf by (auto simp: index_wf_def app_ok_def intro!: json_wf_put)
  define v where "v = PackJsonToString E (Some ?j)"
  have v: "v \<noteq> []" "CreateJsonFromString E v = Some ?j"
    using pack_then_create [OF assms(2) wf(1)] by (simp_all add: v_def)
  let ?old = "case map_of ?m AUTHORIZED_ACCOUNTS of None \<Rightarrow> [] | Some v \<Rightarrow> v"
  have old: "snd (fst (GetValueFromKvStore E ds AUTHORIZED_ACCOUNTS st)) = ?old"
    using assms(1) by (simp split: option.split)
  have upd: "update_authorized E f app ds st = PutValueToKvStore E ds AUTHORIZED_ACCOUNTS v
      (snd (GetValueFromKvStore E ds AUTHORIZED_ACCOUNTS st))"
    using v(1) accessible_of_text(1) [OF assms(3,4) refl] accessible_of_text(2) [OF assms(3,4) refl, of ?ids]
    by (simp add: update_authorized_def split_beta Let_def old eq v_def)
  have io: "index_obj E (sm_put AUTHORIZED_ACCOUNTS v ?m) = ?j" using v(2) by (simp add: index_obj_def)
  show ?thesis
  proof (rule that [of v])
    show "update_authorized E f app ds st = (ERR_OK, snd (update_authorized E f app ds st))"
      using assms(1) upd by (simp add: prod_eq_iff)
    show "kv_entries (snd (update_authorized E f app ds st)) = (kv_entries st)(ds := sm_put AUTHORIZED_ACCOUNTS v ?m)"
      using assms(1) upd by simp
    show "index_wf E (sm_put AUTHORIZED_ACCOUNTS v ?m)" using wf io by (simp add: index_wf_def)
    show "\<forall>b. index_ids E (sm_put AUTHORIZED_ACCOUNTS v ?m) b = (if b = app then ?ids else index_ids E ?m b)"
      using io assms(4) json_strings_map [of "\<lambda>s. s" ?ids] by (simp add: index_ids_def obj_item_put index_wf_def)
  qed
qed

section \<open>The database as a map of accounts\<close>

type_synonym accounts = "string \<rightharpoonup> AppAccountInfo"

text \<open>Associated data is a JSON object of strings without duplicate keys, or not there at all.\<close>

definition data_ok :: "'z build_env_scheme \<Rightarrow> string \<Rightarrow> bool" where
  "data_ok E d \<longleftrightarrow> (\<exists>m. distinct (map fst m) \<and> (\<forall>e \<in> set m. nul_free (fst e) \<and> nul_free (snd e))
     \<and> stored_obj E d = JObj (map (\<lambda>(k, v). (k, JStr v)) m))"

definition acct_ok :: "'z build_env_scheme \<Rightarrow> AppAccountInfo \<Rightarrow> bool" where
  "acct_ok E a \<longleftrightarrow> info_wf a \<and> info_clean a \<and> CHR ''#'' \<notin> set (ai_owner a)
     \<and> (\<forall>x \<in> set (ai_authorizedApps a). x \<noteq> []) \<and> data_ok E (ai_associatedData a)"

definition holds :: "'z kv_env_scheme \<Rightarrow> entries \<Rightarrow> string \<Rightarrow> AppAccountInfo \<Rightarrow> bool" where
  "holds E m k a \<longleftrightarrow> (\<exists>b. acct_ok E b \<and> k = GetPrimeKey b \<and> a = persisted b \<and> map_of m k = Some (ToString E b))"

definition stored :: "'z kv_env_scheme \<Rightarrow> accounts \<Rightarrow> entries \<Rightarrow> bool" where
  "stored E M m \<longleftrightarrow> sm_wf m \<and> index_wf E m \<and> M AUTHORIZED_ACCOUNTS = None
     \<and> (\<forall>k. k \<noteq> AUTHORIZED_ACCOUNTS \<longrightarrow> (case M k of None \<Rightarrow> map_of m k = None | Some a \<Rightarrow> holds E m k a))"

definition granted :: "accounts \<Rightarrow> string \<Rightarrow> string set" where
  "granted M app = {k. \<exists>a. M k = Some a \<and> app \<in> set (ai_authorizedApps a)}"

definition indexed :: "'z kv_env_scheme \<Rightarrow> accounts \<Rightarrow> entries \<Rightarrow> bool" where
  "indexed E M m \<longleftrightarrow> (\<forall>app. app_ok app \<longrightarrow> distinct (index_ids E m app) \<and> set (index_ids E m app) = granted M app)"

definition app_db :: "'z kv_env_scheme \<Rightarrow> accounts \<Rightarrow> entries \<Rightarrow> bool" where
  "app_db E M m \<longleftrightarrow> stored E M m \<and> indexed E M m"

lemma prime_key_not_index [simp]: "GetPrimeKey a \<noteq> AUTHORIZED_ACCOUNTS" "AUTHORIZED_ACCOUNTS \<noteq> GetPrimeKey a"
proof -
  have "CHR ''#'' \<in> set (GetPrimeKey a)" by (simp add: GetPrimeKey_def)
  moreover have "CHR ''#'' \<notin> set AUTHORIZED_ACCOUNTS" by (simp add: AUTHORIZED_ACCOUNTS_def)
  ultimately show "GetPrimeKey a \<noteq> AUTHORIZED_ACCOUNTS" "AUTHORIZED_ACCOUNTS \<noteq> GetPrimeKey a" by metis+
qed

lemma persisted_fields [simp]:
  "GetPrimeKey (persisted a) = GetPrimeKey a" "ai_authorizedApps (persisted a) = ai_authorizedApps a"
  "ai_owner (persisted a) = ai_owner a" "ai_appIndex (persisted a) = ai_appIndex a" "ai_name (persisted a) = ai_name a"
  "ai_extraInfo (persisted a) = ai_extraInfo a" "ai_associatedData (persisted a) = ai_associatedData a"
  by (simp_all add: persisted_def GetPrimeKey_def)

lemma kept_tokens_clean: "\<forall>e \<in> set m. clean_token e \<Longrightarrow> \<forall>e \<in> set (kept_tokens m). clean_token e"
  by (auto simp: kept_tokens_def clean_token_def)

lemma acct_ok_persisted [simp]: "acct_ok E a \<Longrightarrow> acct_ok E (persisted a)"
  using kept_tokens_clean [of "ai_oauthTokens a"]
  by (auto simp: acct_ok_def info_wf_def info_clean_def persisted_def kept_tokens_wf)

lemma prime_key_nul_free: "acct_ok E a \<Longrightarrow> nul_free (GetPrimeKey a)"
  by (simp add: GetPrimeKey_def acct_ok_def info_clean_def)

lemma ToString_ok:
  assumes "cjson_ok E" and "acct_ok E a"
  shows "ToString E a \<noteq> []" and "CreateJsonFromString E (ToString E a) = Some (info_json a)"
  using assms pack_then_create [OF assms(1) json_wf_info_json]
  by (simp_all add: ToString_def ToJson_json acct_ok_def)

lemma stored_holds: "stored E M m \<Longrightarrow> M k = Some a \<Longrightarrow> holds E m k a"
  unfolding stored_def by (metis option.simps(3) option.simps(5))

lemma stored_absent: "stored E M m \<Longrightarrow> k \<noteq> AUTHORIZED_ACCOUNTS \<Longrightarrow> M k = None \<Longrightarrow> map_of m k = None"
  unfolding stored_def by (metis option.simps(4))

lemma stored_account:
  assumes "stored E M m" and "M k = Some a"
  shows "acct_ok E a" and "k = GetPrimeKey a" and "k \<noteq> AUTHORIZED_ACCOUNTS"
  using stored_holds [OF assms] by (auto simp: holds_def)

lemma holds_put_other: "k \<noteq> i \<Longrightarrow> holds E (sm_put i v m) k a = holds E m k a"
  by (simp add: holds_def)

lemma stored_put:
  assumes "stored E M m" and "acct_ok E b"
  shows "stored E (M(GetPrimeKey b \<mapsto> persisted b)) (sm_put (GetPrimeKey b) (ToString E b) m)"
proof -
  have "holds E (sm_put (GetPrimeKey b) (ToString E b) m) (GetPrimeKey b) (persisted b)"
    using assms(2) by (auto simp: holds_def)
  with assms(1) show ?thesis
    by (auto simp: stored_def index_wf_def holds_put_other [OF not_sym] split: option.split)
qed

lemma stored_erase:
  assumes "stored E M m" and "k \<noteq> AUTHORIZED_ACCOUNTS"
  shows "stored E (M(k := None)) (sm_erase k m)"
proof -
  have "holds E (sm_erase k m) i a = holds E m i a" if "i \<noteq> k" for i a using that by (simp add: holds_def)
  with assms show ?thesis
    by (auto simp: stored_def index_wf_def split: option.split)
qed

lemma stored_index:
  assumes "stored E M m" and "index_wf E (sm_put AUTHORIZED_ACCOUNTS v m)"
  shows "stored E M (sm_put AUTHORIZED_ACCOUNTS v m)"
proof -
  have "holds E (sm_put AUTHORIZED_ACCOUNTS v m) k a = holds E m k a" if "k \<noteq> AUTHORIZED_ACCOUNTS" for k a
    using that by (simp add: holds_put_other)
  with assms show ?thesis by (auto simp: stored_def split: option.split)
qed

lemma indexed_same_access:
  assumes "indexed E M m" and "\<And>app. granted M' app = granted M app" and "index_obj E m' = index_obj E m"
  shows "indexed E M' m'"
  using assms index_ids_cong [OF assms(3)] by (simp add: indexed_def)

section \<open>Reading an account\<close>

definition fresh_info :: "AppAccountInfo \<Rightarrow> bool" where
  "fresh_info a \<longleftrightarrow> ai_authorizedApps a = [] \<and> ai_oauthTokens a = []"

lemma fresh_new [simp]: "fresh_info (new_info name owner i)" "fresh_info AppAccountInfo_init"
  by (simp_all add: fresh_info_def new_info_def SetAppIndex_def AppAccountInfo_new_def AppAccountInfo_init_def)

lemma get_by_id_ok:
  assumes "kv_ok E" "cjson_ok E" "stored E M (kv_entries st ds)" "fresh_info a0" "k \<noteq> AUTHORIZED_ACCOUNTS"
  shows "fst (GetAccountInfoById E ds k a0 st) =
    (case M k of None \<Rightarrow> (ERR_OSACCOUNT_SERVICE_MANAGER_QUERY_DISTRIBUTE_DATA_ERROR, a0) | Some a \<Rightarrow> (ERR_OK, a))"
proof (cases "M k")
  case None
  then show ?thesis
    using assms stored_absent [OF assms(3,5)] by (simp add: GetAccountInfoById_def split_beta Let_def)
next
  case (Some a)
  then obtain b where b: "acct_ok E b" "a = persisted b" "map_of (kv_entries st ds) k = Some (ToString E b)"
    using stored_holds [OF assms(3)] by (auto simp: holds_def)
  then have "FromJson (Some (info_json b)) a0 = (True, a)"
    using assms(4) FromJson_info_json [of b a0] by (simp add: acct_ok_def fresh_info_def)
  then show ?thesis
    using Some b assms(1) ToString_ok [OF assms(2) b(1)]
    by (simp add: GetAccountInfoById_def split_beta Let_def IsStructured_def IsObject_def info_json_def)
qed

lemma read_ok:
  assumes "kv_ok E" "cjson_ok E" "stored E M (kv_entries st ds)" "fresh_info a0"
  shows "fst (GetAccountInfoFromDataStorage E ds a0 st) =
    (case M (GetPrimeKey a0) of None \<Rightarrow> (ERR_APPACCOUNT_SERVICE_GET_ACCOUNT_INFO_BY_ID, a0) | Some a \<Rightarrow> (ERR_OK, a))"
  using get_by_id_ok [OF assms, of "GetPrimeKey a0"]
  by (simp add: GetAccountInfoFromDataStorage_def split_beta Let_def split: option.split)

section \<open>Queries by prefix\<close>

definition info_of :: "'z kv_env_scheme \<Rightarrow> string \<Rightarrow> AppAccountInfo" where
  "info_of E v = snd (FromJson (CreateJsonFromString E v) AppAccountInfo_init)"

lemma SaveEntries_ok:
  assumes "\<forall>e \<in> set es. CreateJsonFromString E (snd e) \<noteq> None"
  shows "SaveEntries E s es infos st = (fold (\<lambda>e. sm_emplace (fst e) (snd e)) (map (\<lambda>e. (fst e, info_of E (snd e))) es) infos, st)"
  using assms by (induction es arbitrary: infos) (auto simp: info_of_def)

lemma sm_wf_map_snd: "sm_wf (map (\<lambda>e. (fst e, f (snd e))) m) = sm_wf m"
  by (simp add: sm_wf_def comp_def)

lemma stored_entry:
  assumes "cjson_ok E" "stored E M m" "(k, v) \<in> set m" "k \<noteq> AUTHORIZED_ACCOUNTS"
  shows "M k = Some (info_of E v)" and "CreateJsonFromString E v \<noteq> None"
proof -
  have mo: "map_of m k = Some v" using assms(2,3) by (simp add: stored_def sm_wf_distinct)
  then obtain a where a: "M k = Some a" using stored_absent [OF assms(2,4)] by (cases "M k") auto
  then obtain b where b: "acct_ok E b" "a = persisted b" "v = ToString E b"
    using stored_holds [OF assms(2) a] mo by (auto simp: holds_def)
  then have "FromJson (Some (info_json b)) AppAccountInfo_init = (True, a)"
    using FromJson_info_json [of b AppAccountInfo_init] fresh_new(2) by (simp add: acct_ok_def fresh_info_def)
  with a b ToString_ok [OF assms(1) b(1)] show "M k = Some (info_of E v)" "CreateJsonFromString E v \<noteq> None"
    by (simp_all add: info_of_def)
qed

lemma prefix_not_index: "CHR ''#'' \<in> set p \<Longrightarrow> \<not> starts_with p AUTHORIZED_ACCOUNTS"
proof
  assume "CHR ''#'' \<in> set p" and "starts_with p AUTHORIZED_ACCOUNTS"
  then have "CHR ''#'' \<in> set AUTHORIZED_ACCOUNTS" by (metis in_set_takeD starts_with_def)
  then show False by (simp add: AUTHORIZED_ACCOUNTS_def)
qed

lemma fuzzy_query_ok:
  assumes "kv_ok E" "cjson_ok E" "stored E M (kv_entries st ds)" "CHR ''#'' \<in> set p"
  defines "infos \<equiv> map (\<lambda>e. (fst e, info_of E (snd e))) (filter (\<lambda>e. starts_with p (fst e)) (kv_entries st ds))"
  shows "fst (LoadDataByLocalFuzzyQuery E ds p st) = (ERR_OK, infos)"
    and "kv_entries (snd (LoadDataByLocalFuzzyQuery E ds p st)) = kv_entries st"
    and "map_of infos = (\<lambda>k. if starts_with p k then M k else None)"
    and "sm_wf infos"
proof -
  let ?es = "filter (\<lambda>e. starts_with p (fst e)) (kv_entries st ds)"
  have ne: "k \<noteq> AUTHORIZED_ACCOUNTS" if "starts_with p k" for k using that prefix_not_index [OF assms(4)] by auto
  have json: "\<forall>e \<in> set ?es. CreateJsonFromString E (snd e) \<noteq> None"
    using stored_entry(2) [OF assms(2,3)] ne by (auto simp del: not_None_eq)
  have wf: "sm_wf infos" using assms(3) by (simp add: infos_def sm_wf_map_snd sm_wf_filter stored_def)
  then show "sm_wf infos" .
  have "SaveEntries E ds ?es [] st1 = (infos, st1)" for st1 :: "'b kv_state_scheme"
    using emplace_all_id [OF wf] by (subst SaveEntries_ok [OF json]) (simp add: infos_def)
  then show "fst (LoadDataByLocalFuzzyQuery E ds p st) = (ERR_OK, infos)"
    and "kv_entries (snd (LoadDataByLocalFuzzyQuery E ds p st)) = kv_entries st"
    using assms(1) by (simp_all add: LoadDataByLocalFuzzyQuery_def split_beta Let_def)
  show "map_of infos = (\<lambda>k. if starts_with p k then M k else None)"
  proof
    fix k
    have d: "distinct (map fst infos)" using wf by (rule sm_wf_distinct)
    show "map_of infos k = (if starts_with p k then M k else None)"
    proof (cases "map_of infos k")
      case (Some a)
      then obtain v where "(k, v) \<in> set (kv_entries st ds)" "starts_with p k" "a = info_of E v"
        by (auto simp: infos_def dest!: map_of_SomeD)
      with Some stored_entry(1) [OF assms(2,3)] ne show ?thesis by simp
    next
      case None
      have "M k = None" if "starts_with p k"
      proof (rule ccontr)
        assume "M k \<noteq> None"
        then obtain a v where "map_of (kv_entries st ds) k = Some v"
          using stored_holds [OF assms(3)] by (auto simp: holds_def)
        with that have "(k, info_of E v) \<in> set infos" by (force simp: infos_def dest: map_of_SomeD)
        with None d show False by (metis map_of_eq_Some_iff option.distinct(1))
      qed
      with None show ?thesis by simp
    qed
  qed
qed

end
