(* ===== verification/App_Account_Refinement.thy ===== *)
theory App_Account_Refinement
  imports App_Account_Index
begin

text \<open>
  The requests on app accounts as operations on a map of accounts. \<open>abs_request\<close> is the specification:
  it knows no database, no index and no transaction. The handlers of the control manager implement it on a
  database that answers, in the build without the distributed feature.
\<close>

section \<open>The specification\<close>

datatype app_request = AddReq string | DeleteReq | EnableReq string nat | DisableReq string nat
  | ExtraReq string | DataReq string string

definition abs_update ::
  "(AppAccountInfo \<Rightarrow> ErrCode \<times> AppAccountInfo) \<Rightarrow> string \<Rightarrow> accounts \<Rightarrow> ErrCode \<times> accounts" where
  "abs_update f k M =
     (case M k of None \<Rightarrow> (ERR_APPACCOUNT_SERVICE_GET_ACCOUNT_INFO_BY_ID, M)
      | Some a \<Rightarrow> let (r, b) = f a in if r \<noteq> ERR_OK then (r, M) else (ERR_OK, M(k \<mapsto> b)))"

fun abs_request :: "'z app_env_scheme \<Rightarrow> AppAccountInfo \<Rightarrow> app_request \<Rightarrow> accounts \<Rightarrow> ErrCode \<times> accounts" where
  "abs_request E a (AddReq extra) M =
     (if M (GetPrimeKey a) \<noteq> None then (ERR_APPACCOUNT_SERVICE_ADD_EXISTING_ACCOUNT, M)
      else if card {k. M k \<noteq> None \<and> starts_with (owner_key (ai_owner a) (ai_appIndex a)) k} \<ge> ACCOUNT_MAX_SIZE
      then (ERR_APPACCOUNT_SERVICE_ACCOUNT_MAX_SIZE, M)
      else (ERR_OK, M(GetPrimeKey a \<mapsto> SetExtraInfo extra a)))"
| "abs_request E a DeleteReq M =
     (if M (GetPrimeKey a) = None then (ERR_APPACCOUNT_SERVICE_GET_ACCOUNT_INFO_BY_ID, M)
      else (ERR_OK, M(GetPrimeKey a := None)))"
| "abs_request E a (EnableReq app v) M = abs_update (EnableAppAccess app v) (GetPrimeKey a) M"
| "abs_request E a (DisableReq app v) M = abs_update (DisableAppAccess app v) (GetPrimeKey a) M"
| "abs_request E a (ExtraReq extra) M = abs_update (\<lambda>a. (ERR_OK, SetExtraInfo extra a)) (GetPrimeKey a) M"
| "abs_request E a (DataReq key val) M = abs_update (SetAssociatedData E key val) (GetPrimeKey a) M"

fun run_request ::
  "'z app_env_scheme \<Rightarrow> nat \<Rightarrow> string \<Rightarrow> string \<Rightarrow> u32 \<Rightarrow> app_request \<Rightarrow> 'w app_ctl_scheme \<Rightarrow> ErrCode \<times> 'w app_ctl_scheme" where
  "run_request E uid name owner i (AddReq extra) st = AddAccount E extra uid (new_info name owner i) st"
| "run_request E uid name owner i DeleteReq st = DeleteAccount E name uid (new_info name owner i) st"
| "run_request E uid name owner i (EnableReq app v) st =
     (let ((r, _), st1) = EnableAppAccess_ctl E app uid (new_info name owner i) v st in (r, st1))"
| "run_request E uid name owner i (DisableReq app v) st =
     (let ((r, _), st1) = DisableAppAccess_ctl E app uid (new_info name owner i) v st in (r, st1))"
| "run_request E uid name owner i (ExtraReq extra) st =
     (let ((r, _), st1) = SetAccountExtraInfo E extra uid (new_info name owner i) st in (r, st1))"
| "run_request E uid name owner i (DataReq key val) st =
     SetAssociatedData_ctl E name key val \<lparr>ci_callingUid = uid, ci_bundleName = owner, ci_appIndex = i\<rparr> st"

fun valid_request :: "app_request \<Rightarrow> bool" where
  "valid_request (AddReq extra) = nul_free extra"
| "valid_request DeleteReq = True"
| "valid_request (EnableReq app v) = app_ok app"
| "valid_request (DisableReq app v) = app_ok app"
| "valid_request (ExtraReq extra) = nul_free extra"
| "valid_request (DataReq key val) = (key \<noteq> [] \<and> nul_free key \<and> nul_free val)"

section \<open>Access lists and the index\<close>

lemma granted_upd:
  "granted (M(k \<mapsto> b)) x = (if x \<in> set (ai_authorizedApps b) then insert k (granted M x) else granted M x - {k})"
  by (auto simp: granted_def)

lemma granted_del: "granted (M(k := None)) x = granted M x - {k}"
  by (auto simp: granted_def)

lemma in_granted: "M k = Some a \<Longrightarrow> k \<in> granted M x \<longleftrightarrow> x \<in> set (ai_authorizedApps a)"
  by (auto simp: granted_def)

lemma no_sync: "\<not> DISTRIBUTED_FEATURE E \<Longrightarrow> \<not> NeedSyncDataStorage E a"
  by (simp add: NeedSyncDataStorage_def)

lemma save_ok:
  assumes "kv_ok E" "cjson_ok E" "\<not> DISTRIBUTED_FEATURE E" "stored E M (kv_entries st ds)" "acct_ok E b"
    and "M (GetPrimeKey b) \<noteq> None"
  shows "fst (SaveAccountInfoIntoDataStorage E b ds uid st) = ERR_OK"
    and "kv_entries (snd (SaveAccountInfoIntoDataStorage E b ds uid st)) =
      (kv_entries st)(ds := sm_put (GetPrimeKey b) (ToString E b) (kv_entries st ds))"
proof -
  have "map_of (kv_entries st ds) (GetPrimeKey b) \<noteq> None"
    using assms(4,6) stored_holds by (fastforce simp: holds_def)
  from SaveAccountInfo_ok [OF assms(1) ToString_ok(1) [OF assms(2,5)] this] no_sync [OF assms(3)]
  show "fst (SaveAccountInfoIntoDataStorage E b ds uid st) = ERR_OK"
    "kv_entries (snd (SaveAccountInfoIntoDataStorage E b ds uid st)) =
      (kv_entries st)(ds := sm_put (GetPrimeKey b) (ToString E b) (kv_entries st ds))"
    by (simp_all add: SaveAccountInfoIntoDataStorage_def split_beta Let_def)
qed

lemma index_change_ok:
  assumes "kv_ok E" "cjson_ok E" "app_ok app" "stored E M (kv_entries st ds)"
    and "\<And>ids. \<forall>x \<in> set ids. nul_free x \<Longrightarrow> \<forall>x \<in> set (f ids). nul_free x"
  obtains m where "fst (update_authorized E f app ds st) = ERR_OK"
    "kv_entries (snd (update_authorized E f app ds st)) = (kv_entries st)(ds := m)" "stored E M m"
    "\<forall>b. index_ids E m b = (if b = app then f (index_ids E (kv_entries st ds) app) else index_ids E (kv_entries st ds) b)"
proof -
  have "index_wf E (kv_entries st ds)" using assms(4) by (simp add: stored_def)
  then obtain v where v: "update_authorized E f app ds st = (ERR_OK, snd (update_authorized E f app ds st))"
    "kv_entries (snd (update_authorized E f app ds st)) = (kv_entries st)(ds := sm_put AUTHORIZED_ACCOUNTS v (kv_entries st ds))"
    "index_wf E (sm_put AUTHORIZED_ACCOUNTS v (kv_entries st ds))"
    "\<forall>b. index_ids E (sm_put AUTHORIZED_ACCOUNTS v (kv_entries st ds)) b =
      (if b = app then f (index_ids E (kv_entries st ds) app) else index_ids E (kv_entries st ds) b)"
    by (rule update_authorized_ok [OF assms(1-3) _ assms(5)]) blast+
  have "fst (update_authorized E f app ds st) = ERR_OK" by (subst v(1)) simp
  from that [OF this v(2) stored_index [OF assms(4) v(3)] v(4)] show ?thesis .
qed

text \<open>Writing an account whose access list changed for one application, and then the index for it.\<close>

lemma save_and_index:
  assumes ok: "kv_ok E" "cjson_ok E" "\<not> DISTRIBUTED_FEATURE E" and db: "app_db E M (kv_entries st ds)"
    and "app_ok app" "acct_ok E b" "M (GetPrimeKey b) \<noteq> None"
    and nf: "\<And>ids. \<forall>x \<in> set ids. nul_free x \<Longrightarrow> \<forall>x \<in> set (f ids). nul_free x"
    and others: "\<And>x. x \<noteq> app \<Longrightarrow> granted (M(GetPrimeKey b \<mapsto> persisted b)) x = granted M x"
    and change: "\<And>ids. distinct ids \<Longrightarrow> set ids = granted M app \<Longrightarrow>
      distinct (f ids) \<and> set (f ids) = granted (M(GetPrimeKey b \<mapsto> persisted b)) app"
  obtains m where "fst (SaveAccountInfoIntoDataStorage E b ds uid st) = ERR_OK"
    "fst (update_authorized E f app ds (snd (SaveAccountInfoIntoDataStorage E b ds uid st))) = ERR_OK"
    "kv_entries (snd (update_authorized E f app ds (snd (SaveAccountInfoIntoDataStorage E b ds uid st)))) = (kv_entries st)(ds := m)"
    "app_db E (M(GetPrimeKey b \<mapsto> persisted b)) m"
proof -
  let ?k = "GetPrimeKey b"
  let ?M = "M(?k \<mapsto> persisted b)" and ?st = "snd (SaveAccountInfoIntoDataStorage E b ds uid st)"
  have st: "stored E M (kv_entries st ds)" and ix: "indexed E M (kv_entries st ds)"
    using db by (simp_all add: app_db_def)
  note sv = save_ok [OF ok st assms(6,7), of uid]
  have e: "kv_entries ?st ds = sm_put ?k (ToString E b) (kv_entries st ds)" using sv(2) by simp
  have st1: "stored E ?M (kv_entries ?st ds)" using stored_put [OF st assms(6)] e by simp
  obtain m where m: "fst (update_authorized E f app ds ?st) = ERR_OK"
    "kv_entries (snd (update_authorized E f app ds ?st)) = (kv_entries ?st)(ds := m)" "stored E ?M m"
    "\<forall>x. index_ids E m x = (if x = app then f (index_ids E (kv_entries ?st ds) app) else index_ids E (kv_entries ?st ds) x)"
    by (rule index_change_ok [OF ok(1,2) assms(5) st1 nf]) blast+
  have same: "index_ids E (kv_entries ?st ds) = index_ids E (kv_entries st ds)"
    by (rule index_ids_cong) (simp add: e)
  have "indexed E ?M m"
    unfolding indexed_def
  proof (intro allI impI)
    fix x assume "app_ok x"
    then have "distinct (index_ids E (kv_entries st ds) x)" "set (index_ids E (kv_entries st ds) x) = granted M x"
      using ix by (simp_all add: indexed_def)
    then show "distinct (index_ids E m x) \<and> set (index_ids E m x) = granted ?M x"
      using m(4) same change others [of x] by (cases "x = app") simp_all
  qed
  with m(3) have "app_db E ?M m" by (simp add: app_db_def)
  moreover have "kv_entries (snd (update_authorized E f app ds ?st)) = (kv_entries st)(ds := m)"
    using m(2) sv(2) by simp
  ultimately show ?thesis using that [of m] sv(1) m(1) by blast
qed

lemma enable_body_ok:
  assumes ok: "kv_ok E" "cjson_ok E" "\<not> DISTRIBUTED_FEATURE E" and db: "app_db E M (kv_entries st (GetDataStorage uid False))"
    and "app_ok app" "acct_ok E b" "M (GetPrimeKey b) = Some a"
    and "set (ai_authorizedApps b) = insert app (set (ai_authorizedApps a))"
  obtains m where "fst (enable_access_body E app b uid st) = ERR_OK"
    "kv_entries (snd (enable_access_body E app b uid st)) = (kv_entries st)(GetDataStorage uid False := m)"
    "app_db E (M(GetPrimeKey b \<mapsto> persisted b)) m"
proof -
  let ?ds = "GetDataStorage uid False" and ?k = "GetPrimeKey b"
  let ?f = "\<lambda>ids. if ?k \<in> set ids then ids else ids @ [?k]" and ?M = "M(?k \<mapsto> persisted b)"
  have some: "M ?k \<noteq> None" using assms(7) by simp
  have nf: "\<forall>x \<in> set (?f ids). nul_free x" if "\<forall>x \<in> set ids. nul_free x" for ids
    using that prime_key_nul_free [OF assms(6)] by auto
  have others: "granted ?M x = granted M x" if "x \<noteq> app" for x
    using that assms(8) in_granted [of M ?k a x, OF assms(7)] by (auto simp: granted_upd)
  have change: "distinct (?f ids) \<and> set (?f ids) = granted ?M app" if "distinct ids" "set ids = granted M app" for ids
    using that assms(8) by (auto simp: granted_upd)
  obtain m where m: "fst (SaveAccountInfoIntoDataStorage E b ?ds uid st) = ERR_OK"
    "fst (update_authorized E ?f app ?ds (snd (SaveAccountInfoIntoDataStorage E b ?ds uid st))) = ERR_OK"
    "kv_entries (snd (update_authorized E ?f app ?ds (snd (SaveAccountInfoIntoDataStorage E b ?ds uid st)))) = (kv_entries st)(?ds := m)"
    "app_db E ?M m"
    by (rule save_and_index [OF ok db assms(5,6) some nf others change]) blast+
  show ?thesis
    using that [OF _ _ m(4)] m(1-3) no_sync [OF ok(3)]
    by (simp add: enable_access_body_def SaveAuthorizedAccount_def SaveAuthorizedAccountIntoDataStorage_def split_beta Let_def)
qed

lemma disable_body_ok:
  assumes ok: "kv_ok E" "cjson_ok E" "\<not> DISTRIBUTED_FEATURE E" and db: "app_db E M (kv_entries st (GetDataStorage uid False))"
    and "app_ok app" "acct_ok E b" "M (GetPrimeKey b) = Some a"
    and "set (ai_authorizedApps b) = set (ai_authorizedApps a) - {app}"
  obtains m where "fst (disable_access_body E app b uid st) = ERR_OK"
    "kv_entries (snd (disable_access_body E app b uid st)) = (kv_entries st)(GetDataStorage uid False := m)"
    "app_db E (M(GetPrimeKey b \<mapsto> persisted b)) m"
proof -
  let ?ds = "GetDataStorage uid False" and ?k = "GetPrimeKey b"
  let ?M = "M(?k \<mapsto> persisted b)"
  have some: "M ?k \<noteq> None" using assms(7) by simp
  have nf: "\<forall>x \<in> set (remove1 ?k ids). nul_free x" if "\<forall>x \<in> set ids. nul_free x" for ids
    using that set_remove1_subset [of ?k ids] by blast
  have others: "granted ?M x = granted M x" if "x \<noteq> app" for x
    using that assms(8) in_granted [of M ?k a x, OF assms(7)] by (auto simp: granted_upd)
  have change: "distinct (remove1 ?k ids) \<and> set (remove1 ?k ids) = granted ?M app"
    if "distinct ids" "set ids = granted M app" for ids
    using that assms(8) by (auto simp: granted_upd)
  obtain m where m: "fst (SaveAccountInfoIntoDataStorage E b ?ds uid st) = ERR_OK"
    "fst (update_authorized E (remove1 ?k) app ?ds (snd (SaveAccountInfoIntoDataStorage E b ?ds uid st))) = ERR_OK"
    "kv_entries (snd (update_authorized E (remove1 ?k) app ?ds (snd (SaveAccountInfoIntoDataStorage E b ?ds uid st)))) = (kv_entries st)(?ds := m)"
    "app_db E ?M m"
    by (rule save_and_index [OF ok db assms(5,6) some nf others change]) blast+
  show ?thesis
    using that [OF _ _ m(4)] m(1-3) no_sync [OF ok(3)]
    by (simp add: disable_access_body_def RemoveAuthorizedAccount_def RemoveAuthorizedAccountFromDataStorage_def split_beta Let_def)
qed

section \<open>Withdrawing every access of one account\<close>

definition withdrawn :: "'z kv_env_scheme \<Rightarrow> string set \<Rightarrow> string \<Rightarrow> entries \<Rightarrow> entries \<Rightarrow> bool" where
  "withdrawn E apps k m m' \<longleftrightarrow> (\<forall>x. app_ok x \<longrightarrow> distinct (index_ids E m x) \<longrightarrow>
     distinct (index_ids E m' x) \<and> set (index_ids E m' x) = set (index_ids E m x) - (if x \<in> apps then {k} else {}))"

lemma withdrawn_trans:
  "withdrawn E A k m m1 \<Longrightarrow> withdrawn E B k m1 m2 \<Longrightarrow> withdrawn E (A \<union> B) k m m2"
  by (simp add: withdrawn_def)

lemma withdraw_one:
  assumes "kv_ok E" "cjson_ok E" "app_ok app" "stored E M (kv_entries st ds)"
  obtains m where "fst (update_authorized E (remove1 k) app ds st) = ERR_OK"
    "kv_entries (snd (update_authorized E (remove1 k) app ds st)) = (kv_entries st)(ds := m)" "stored E M m"
    "withdrawn E {app} k (kv_entries st ds) m"
proof -
  have nf: "\<forall>x \<in> set (remove1 k ids). nul_free x" if "\<forall>x \<in> set ids. nul_free x" for ids
    using that set_remove1_subset [of k ids] by blast
  obtain m where m: "fst (update_authorized E (remove1 k) app ds st) = ERR_OK"
    "kv_entries (snd (update_authorized E (remove1 k) app ds st)) = (kv_entries st)(ds := m)" "stored E M m"
    "\<forall>x. index_ids E m x = (if x = app then remove1 k (index_ids E (kv_entries st ds) app) else index_ids E (kv_entries st ds) x)"
    by (rule index_change_ok [OF assms(1-4) nf]) blast+
  then have "withdrawn E {app} k (kv_entries st ds) m" by (simp add: withdrawn_def)
  with that m(1-3) show ?thesis by blast
qed

lemma withdraw_all:
  assumes "kv_ok E" "cjson_ok E" "\<not> DISTRIBUTED_FEATURE E" "\<forall>x \<in> set apps. app_ok x" "stored E M (kv_entries st ds)"
  shows "\<exists>m. fst (remove_authorizations E apps b ds uid st) = ERR_OK
    \<and> kv_entries (snd (remove_authorizations E apps b ds uid st)) = (kv_entries st)(ds := m) \<and> stored E M m
    \<and> withdrawn E (set apps) (GetPrimeKey b) (kv_entries st ds) m"
  using assms(4,5)
proof (induction apps arbitrary: st)
  case Nil
  then show ?case by (intro exI [of _ "kv_entries st ds"]) (simp add: withdrawn_def)
next
  case (Cons app apps)
  let ?u = "update_authorized E (remove1 (GetPrimeKey b)) app ds st"
  have app: "app_ok app" using Cons.prems by simp
  obtain m1 where m1: "fst ?u = ERR_OK" "kv_entries (snd ?u) = (kv_entries st)(ds := m1)" "stored E M m1"
    "withdrawn E {app} (GetPrimeKey b) (kv_entries st ds) m1"
    by (rule withdraw_one [OF assms(1,2) app Cons.prems(2)]) blast+
  have r: "RemoveAuthorizedAccount E app b ds uid st = (ERR_OK, snd ?u)"
    using m1(1) no_sync [OF assms(3)]
    by (simp add: RemoveAuthorizedAccount_def RemoveAuthorizedAccountFromDataStorage_def split_beta Let_def)
  have st': "stored E M (kv_entries (snd ?u) ds)" using m1(2,3) by simp
  obtain m where m: "fst (remove_authorizations E apps b ds uid (snd ?u)) = ERR_OK"
    "kv_entries (snd (remove_authorizations E apps b ds uid (snd ?u))) = (kv_entries (snd ?u))(ds := m)" "stored E M m"
    "withdrawn E (set apps) (GetPrimeKey b) (kv_entries (snd ?u) ds) m"
    using Cons.IH [OF _ st'] Cons.prems(1) by force
  have "withdrawn E (set apps) (GetPrimeKey b) m1 m" using m(4) m1(2) by simp
  note w = withdrawn_trans [OF m1(4) this]
  have "fst (remove_authorizations E (app # apps) b ds uid st) = ERR_OK"
    "kv_entries (snd (remove_authorizations E (app # apps) b ds uid st)) = (kv_entries st)(ds := m)"
    using r m(1,2) m1(2) by simp_all
  with m(3) w show ?case by auto
qed

lemma app_ok_access: "acct_ok E a \<Longrightarrow> \<forall>x \<in> set (ai_authorizedApps a). app_ok x"
  by (auto simp: acct_ok_def info_clean_def app_ok_def)

lemma delete_body_ok:
  assumes ok: "kv_ok E" "cjson_ok E" "\<not> DISTRIBUTED_FEATURE E" and db: "app_db E M (kv_entries st (GetDataStorage uid False))"
    and "fresh_info a0" and "M (GetPrimeKey a0) = Some a"
  obtains m where "fst (delete_account_body E name uid a0 st) = ERR_OK"
    "kv_entries (snd (delete_account_body E name uid a0 st)) = (kv_entries st)(GetDataStorage uid False := m)"
    "app_db E (M(GetPrimeKey a0 := None)) m"
proof -
  let ?ds = "GetDataStorage uid False" and ?k = "GetPrimeKey a0"
  have st: "stored E M (kv_entries st ?ds)" and ix: "indexed E M (kv_entries st ?ds)"
    using db by (simp_all add: app_db_def)
  note a = stored_account [OF st assms(6)]
  let ?m1 = "sm_erase ?k (kv_entries st ?ds)" and ?M = "M(?k := None)"
  have st1: "stored E ?M ?m1" using stored_erase [OF st] by simp
  let ?d = "DeleteAccountInfoFromDataStorage_ctl E a0 ?ds uid st"
  have d: "fst ?d = (ERR_OK, a)" "kv_entries (snd ?d) = (kv_entries st)(?ds := ?m1)"
    using read_ok [OF ok(1,2) st assms(5)] assms(6) a(2) ok(1) no_sync [OF ok(3)]
    by (simp_all add: DeleteAccountInfoFromDataStorage_ctl_def DeleteAccountInfoFromDataStorage_def split_beta Let_def)
  define st2 where "st2 = (let s = RemoveAssociatedDataCacheByAccount uid name (snd ?d) in
      if HAS_ASSET_PART E then RemoveDataFromAssetByLabel E (uid div UID_TRANSFORM_DIVISOR)
        SEC_ASSET_TAG_DATA_LABEL_NORMAL_2 (GetPrimeKey a) s else s)"
  have e2: "kv_entries st2 = (kv_entries st)(?ds := ?m1)" using d(2) by (simp add: st2_def Let_def)
  have body: "delete_account_body E name uid a0 st = remove_authorizations E (ai_authorizedApps a) a ?ds uid st2"
    using d(1) by (simp add: delete_account_body_def split_beta Let_def st2_def)
  have st2: "stored E ?M (kv_entries st2 ?ds)" using st1 e2 by simp
  obtain m where m: "fst (remove_authorizations E (ai_authorizedApps a) a ?ds uid st2) = ERR_OK"
    "kv_entries (snd (remove_authorizations E (ai_authorizedApps a) a ?ds uid st2)) = (kv_entries st2)(?ds := m)"
    "stored E ?M m" "withdrawn E (set (ai_authorizedApps a)) (GetPrimeKey a) (kv_entries st2 ?ds) m"
    using withdraw_all [OF ok app_ok_access [OF a(1)] st2] by blast
  have same: "index_ids E (kv_entries st2 ?ds) = index_ids E (kv_entries st ?ds)"
    by (rule index_ids_cong) (simp add: e2)
  have "indexed E ?M m"
    unfolding indexed_def granted_del
  proof (intro allI impI)
    fix x assume "app_ok x"
    then show "distinct (index_ids E m x) \<and> set (index_ids E m x) = granted M x - {?k}"
      using m(4) ix in_granted [of M ?k a x, OF assms(6)] a(2) by (auto simp: withdrawn_def indexed_def same)
  qed
  with m(3) have "app_db E ?M m" by (simp add: app_db_def)
  with that [of m] m(1,2) body e2 show ?thesis by simp
qed

section \<open>Changed records stay well formed\<close>

lemma kept_tokens_idem: "kept_tokens (kept_tokens m) = kept_tokens m"
  by (induction m) (auto simp: kept_tokens_def)

lemma persisted_idem [simp]: "persisted (persisted a) = persisted a"
  by (simp add: persisted_def kept_tokens_idem)

lemma stored_persisted: "stored E M m \<Longrightarrow> M k = Some a \<Longrightarrow> persisted a = a"
  using stored_holds by (fastforce simp: holds_def)

lemma new_info_fields [simp]:
  "ai_owner (new_info name owner i) = owner" "ai_appIndex (new_info name owner i) = i" "ai_name (new_info name owner i) = name"
  by (simp_all add: new_info_def SetAppIndex_def AppAccountInfo_new_def)

lemma data_ok_Nil: "data_ok E []"
  by (auto simp: data_ok_def stored_obj_def CreateJsonFromString_def intro!: exI [of _ "[]"])

lemma new_acct_ok:
  assumes "nul_free name" "nul_free owner" "nul_free extra" "CHR ''#'' \<notin> set owner"
  shows "acct_ok E (SetExtraInfo extra (new_info name owner i))"
    and "persisted (SetExtraInfo extra (new_info name owner i)) = SetExtraInfo extra (new_info name owner i)"
    and "GetPrimeKey (SetExtraInfo extra a) = GetPrimeKey a"
  using assms
  by (simp_all add: acct_ok_def info_wf_def info_clean_def tokens_wf_def SetExtraInfo_def new_info_def SetAppIndex_def
      AppAccountInfo_new_def data_ok_Nil persisted_def kept_tokens_def GetPrimeKey_def)

lemma access_change_ok:
  assumes "acct_ok E a" "app_ok app" "persisted a = a"
  shows "acct_ok E (snd (EnableAppAccess app v a))" "persisted (snd (EnableAppAccess app v a)) = snd (EnableAppAccess app v a)"
    "GetPrimeKey (snd (EnableAppAccess app v a)) = GetPrimeKey a"
    "acct_ok E (snd (DisableAppAccess app v a))" "persisted (snd (DisableAppAccess app v a)) = snd (DisableAppAccess app v a)"
    "GetPrimeKey (snd (DisableAppAccess app v a)) = GetPrimeKey a"
proof -
  have wf: "info_wf (snd (EnableAppAccess app v a))" "info_wf (snd (DisableAppAccess app v a))"
    using assms(1) by (simp_all add: acct_ok_def info_wf_enable info_wf_disable)
  have keep: "kept_tokens (ai_oauthTokens a) = ai_oauthTokens a"
    using arg_cong [OF assms(3), of ai_oauthTokens] by (simp add: persisted_def)
  show "acct_ok E (snd (EnableAppAccess app v a))" "acct_ok E (snd (DisableAppAccess app v a))"
    using assms(1,2) wf
    by (auto simp: acct_ok_def info_clean_def app_ok_def EnableAppAccess_def DisableAppAccess_def Let_def split: if_splits)
  show "persisted (snd (EnableAppAccess app v a)) = snd (EnableAppAccess app v a)"
    "persisted (snd (DisableAppAccess app v a)) = snd (DisableAppAccess app v a)"
    using keep by (simp_all add: persisted_def EnableAppAccess_def DisableAppAccess_def Let_def)
  show "GetPrimeKey (snd (EnableAppAccess app v a)) = GetPrimeKey a" "GetPrimeKey (snd (DisableAppAccess app v a)) = GetPrimeKey a"
    by (simp_all add: GetPrimeKey_def EnableAppAccess_def DisableAppAccess_def Let_def)
qed

lemma replace_first_strings:
  assumes "distinct (map fst m)"
  shows "replace_first key (JStr val) (map (\<lambda>(k, v). (k, JStr v)) m)
    = map (\<lambda>(k, v). (k, JStr v)) (map (\<lambda>(k, v). (k, if k = key then val else v)) m)"
  using assms
proof (induction m)
  case (Cons e m)
  obtain k v where e: "e = (k, v)" by (cases e)
  show ?case
  proof (cases "k = key")
    case True
    then have "map (\<lambda>(k, v). (k, JStr v)) m = map (\<lambda>(k, v). (k, JStr v)) (map (\<lambda>(k, v). (k, if k = key then val else v)) m)"
      using Cons.prems e by (intro nth_equalityI) (auto simp: split_beta dest!: nth_mem)
    with True e show ?thesis by simp
  qed (use Cons e in auto)
qed simp

lemma data_put:
  assumes "distinct (map fst m)" "\<forall>e \<in> set m. nul_free (fst e) \<and> nul_free (snd e)" "nul_free key" "nul_free val"
  obtains m' where "distinct (map fst m')" "\<forall>e \<in> set m'. nul_free (fst e) \<and> nul_free (snd e)"
    "obj_put (JObj (map (\<lambda>(k, v). (k, JStr v)) m)) key (JStr val) = JObj (map (\<lambda>(k, v). (k, JStr v)) m')"
    "map_of m' = (map_of m)(key \<mapsto> val)"
proof -
  have mo: "map_of (map (\<lambda>(k, v). (k, JStr v)) m) key = map_option JStr (map_of m key)"
    by (simp add: map_of_map comp_def)
  show ?thesis
  proof (cases "map_of m key")
    case None
    then have "distinct (map fst (m @ [(key, val)]))" using assms(1) by (auto simp: map_of_eq_None_iff)
    with that [of "m @ [(key, val)]"] assms None mo show ?thesis
      by (auto simp: obj_put_def map_add_def fun_eq_iff split: option.split)
  next
    case (Some w)
    let ?m = "map (\<lambda>(k, v). (k, if k = key then val else v)) m"
    have mo': "map_of ?m x = map_option (\<lambda>v. if x = key then val else v) (map_of m x)" for x
      by (induction m) auto
    then have upd: "map_of ?m = (map_of m)(key \<mapsto> val)"
      using Some by (auto simp: fun_eq_iff option.map_ident)
    have keys: "map fst ?m = map fst m" by (simp add: comp_def split_beta)
    have nf: "\<forall>e \<in> set ?m. nul_free (fst e) \<and> nul_free (snd e)" using assms(2,4) by (auto simp: split_beta)
    have put: "obj_put (JObj (map (\<lambda>(k, v). (k, JStr v)) m)) key (JStr val) = JObj (map (\<lambda>(k, v). (k, JStr v)) ?m)"
      using Some mo replace_first_strings [OF assms(1)] by (simp add: obj_put_def)
    show ?thesis
      by (rule that [OF _ nf put upd]) (simp only: keys assms(1))
  qed
qed

lemma data_change_ok:
  assumes "cjson_ok E" "acct_ok E a" "persisted a = a" "valid_request (DataReq key val)"
  shows "acct_ok E (snd (SetAssociatedData E key val a))"
    and "persisted (snd (SetAssociatedData E key val a)) = snd (SetAssociatedData E key val a)"
    and "GetPrimeKey (snd (SetAssociatedData E key val a)) = GetPrimeKey a"
    and "ai_authorizedApps (snd (SetAssociatedData E key val a)) = ai_authorizedApps a"
proof -
  obtain m where m: "distinct (map fst m)" "\<forall>e \<in> set m. nul_free (fst e) \<and> nul_free (snd e)"
      "stored_obj E (ai_associatedData a) = JObj (map (\<lambda>(k, v). (k, JStr v)) m)"
    using assms(2) by (auto simp: acct_ok_def data_ok_def)
  then have wf: "json_wf (stored_obj E (ai_associatedData a))" by auto
  obtain m' where m': "distinct (map fst m')" "\<forall>e \<in> set m'. nul_free (fst e) \<and> nul_free (snd e)"
      "obj_put (stored_obj E (ai_associatedData a)) key (JStr val) = JObj (map (\<lambda>(k, v). (k, JStr v)) m')"
    using data_put [OF m(1,2)] assms(4) m(3) by (metis valid_request.simps(6))
  let ?d = "PackJsonToString E (Some (JObj (map (\<lambda>(k, v). (k, JStr v)) m')))"
  have wf': "json_wf (JObj (map (\<lambda>(k, v). (k, JStr v)) m'))" using m'(2) by auto
  have d: "data_ok E ?d" "nul_free ?d"
    using m' stored_obj_pack [OF assms(1) wf'] pack_then_create(2) [OF assms(1) wf'] by (auto simp: data_ok_def)
  have set: "snd (SetAssociatedData E key val a) \<in> {a, a\<lparr>ai_associatedData := ?d\<rparr>}"
    using SetAssociatedData_stored [OF assms(1) wf] assms(4) m'(3) by (simp add: Let_def)
  then show "acct_ok E (snd (SetAssociatedData E key val a))"
    using assms(2) d by (auto simp: acct_ok_def info_wf_def info_clean_def)
  show "persisted (snd (SetAssociatedData E key val a)) = snd (SetAssociatedData E key val a)"
    using set arg_cong [OF assms(3), of ai_oauthTokens] by (auto simp: persisted_def)
  show "GetPrimeKey (snd (SetAssociatedData E key val a)) = GetPrimeKey a"
    "ai_authorizedApps (snd (SetAssociatedData E key val a)) = ai_authorizedApps a"
    using set by (auto simp: GetPrimeKey_def)
qed

section \<open>The refinement\<close>

definition implements_request ::
  "'z app_env_scheme \<Rightarrow> nat \<Rightarrow> AppAccountInfo \<Rightarrow> app_request \<Rightarrow> accounts \<Rightarrow> 'w app_ctl_scheme \<Rightarrow> ErrCode \<times> 'w app_ctl_scheme \<Rightarrow> bool" where
  "implements_request E uid a req M st res \<longleftrightarrow>
     (\<exists>M'. abs_request E a req M = (fst res, M') \<and> app_db E M' (kv_entries (snd res) (GetDataStorage uid False))
       \<and> kv_backup (snd res) = kv_backup st
       \<and> (\<forall>t. t \<noteq> GetDataStorage uid False \<longrightarrow> kv_entries (snd res) t = kv_entries st t))"

lemma length_card_dom: "sm_wf m \<Longrightarrow> length m = card (dom (map_of m))"
  by (metis distinct_card dom_map_of_conv_image_fst length_map list.set_map sm_wf_distinct)

lemma add_refines:
  assumes ok: "kv_ok E" "cjson_ok E" "\<not> DISTRIBUTED_FEATURE E" and db: "app_db E M (kv_entries st (GetDataStorage uid False))"
    and valid: "nul_free name" "nul_free owner" "nul_free extra" "CHR ''#'' \<notin> set owner"
  shows "implements_request E uid (new_info name owner i) (AddReq extra) M st (AddAccount E extra uid (new_info name owner i) st)"
proof -
  let ?ds = "GetDataStorage uid False" and ?a = "new_info name owner i"
  let ?k = "GetPrimeKey ?a" and ?p = "owner_key owner i"
  have st: "stored E M (kv_entries st ?ds)" and ix: "indexed E M (kv_entries st ?ds)"
    using db by (simp_all add: app_db_def)
  note acct = new_acct_ok [OF valid]
  define st1 where "st1 = snd (GetAccountInfoFromDataStorage E ?ds ?a st)"
  have st1: "kv_entries st1 = kv_entries st" "kv_backup st1 = kv_backup st"
    using kv_rest_parts(1) [OF account_read_frame(3) [of E ?ds ?a st]] by (simp_all add: st1_def)
  note rd = read_ok [OF ok(1,2) st fresh_new(1) [of name owner i]]
  show ?thesis
  proof (cases "M ?k")
    case (Some b)
    then show ?thesis
      using rd db st1 by (simp add: implements_request_def AddAccount_def split_beta Let_def st1_def)
  next
    case None
    have p: "CHR ''#'' \<in> set ?p" by (simp add: owner_key_def)
    have st': "stored E M (kv_entries st1 ?ds)" using st st1 by simp
    note q = fuzzy_query_ok [OF ok(1,2) st' p]
    let ?infos = "map (\<lambda>e. (fst e, info_of E (snd e))) (filter (\<lambda>e. starts_with ?p (fst e)) (kv_entries st1 ?ds))"
    have len: "length ?infos = card {k. M k \<noteq> None \<and> starts_with ?p k}"
      unfolding length_card_dom [OF q(4)] q(3) by (rule arg_cong [of _ _ card]) (auto split: if_splits)
    define st2 where "st2 = snd (LoadDataByLocalFuzzyQuery E ?ds ?p st1)"
    have st2: "kv_entries st2 = kv_entries st" "kv_backup st2 = kv_backup st"
      using q(2) st1 kv_rest_parts(1) [OF Load_frame(1) [of E ?ds ?p st1]] by (simp_all add: st2_def)
    have ab: "map_of (kv_entries st2 ?ds) (GetPrimeKey (SetExtraInfo extra ?a)) = None"
      using stored_absent [OF st _ None] st2 acct(3) by simp
    note ad = AddAccountInfo_ok [OF ok(1) ToString_ok(1) [OF ok(2) acct(1) [of E i]], where s = ?ds and st = st2]
    have "indexed E (M(?k \<mapsto> SetExtraInfo extra ?a)) (sm_put ?k (ToString E (SetExtraInfo extra ?a)) (kv_entries st ?ds))"
    proof (rule indexed_same_access [OF ix])
      show "granted (M(?k \<mapsto> SetExtraInfo extra ?a)) x = granted M x" for x
        using None fresh_new(1) [of name owner i] by (auto simp: granted_def SetExtraInfo_def fresh_info_def)
    qed simp
    with stored_put [OF st acct(1) [of E i]] acct(2) [of i] acct(3) [of ?a]
    have "app_db E (M(?k \<mapsto> SetExtraInfo extra ?a)) (sm_put ?k (ToString E (SetExtraInfo extra ?a)) (kv_entries st ?ds))"
      by (simp add: app_db_def)
    moreover have "kv_backup (snd (AddAccountInfo E ?ds (SetExtraInfo extra ?a) st2)) = kv_backup st"
      using kv_rest_parts(1) [OF account_info_frame(1) [of E ?ds "SetExtraInfo extra ?a" st2]] st2 by simp
    ultimately show ?thesis
      using rd None db ad ab st2 q(1) len acct(3) no_sync [OF ok(3)]
      by (simp add: implements_request_def AddAccount_def AddAccountInfoIntoDataStorage_def split_beta Let_def
          st1_def [symmetric] st2_def [symmetric] SetExtraInfo_def [of extra])
  qed
qed

text \<open>A record that was read, changed and saved with the same access list.\<close>

lemma save_keeps_db:
  assumes ok: "kv_ok E" "cjson_ok E" "\<not> DISTRIBUTED_FEATURE E" and db: "app_db E M (kv_entries st ds)"
    and "acct_ok E b" "M (GetPrimeKey b) = Some a" "persisted b = b" "ai_authorizedApps b = ai_authorizedApps a"
  shows "fst (SaveAccountInfoIntoDataStorage E b ds uid st) = ERR_OK"
    and "app_db E (M(GetPrimeKey b \<mapsto> b)) (kv_entries (snd (SaveAccountInfoIntoDataStorage E b ds uid st)) ds)"
    and "kv_backup (snd (SaveAccountInfoIntoDataStorage E b ds uid st)) = kv_backup st"
    and "t \<noteq> ds \<Longrightarrow> kv_entries (snd (SaveAccountInfoIntoDataStorage E b ds uid st)) t = kv_entries st t"
proof -
  let ?k = "GetPrimeKey b" and ?m = "kv_entries st ds"
  have st: "stored E M ?m" and ix: "indexed E M ?m" using db by (simp_all add: app_db_def)
  have "M ?k \<noteq> None" using assms(6) by simp
  note sv = save_ok [OF ok st assms(5) this, of uid]
  have "indexed E (M(?k \<mapsto> b)) (sm_put ?k (ToString E b) ?m)"
  proof (rule indexed_same_access [OF ix])
    show "granted (M(?k \<mapsto> b)) x = granted M x" for x
      using assms(6,8) by (auto simp: granted_def)
  qed simp
  with stored_put [OF st assms(5)] assms(7) sv
  show "fst (SaveAccountInfoIntoDataStorage E b ds uid st) = ERR_OK"
    "app_db E (M(?k \<mapsto> b)) (kv_entries (snd (SaveAccountInfoIntoDataStorage E b ds uid st)) ds)"
    "t \<noteq> ds \<Longrightarrow> kv_entries (snd (SaveAccountInfoIntoDataStorage E b ds uid st)) t = kv_entries st t"
    by (simp_all add: app_db_def)
  show "kv_backup (snd (SaveAccountInfoIntoDataStorage E b ds uid st)) = kv_backup st"
    by (rule kv_rest_parts(1) [OF account_store_frame(2)])
qed

lemma read_state:
  assumes "app_db E M (kv_entries st ds)"
  shows "app_db E M (kv_entries (snd (GetAccountInfoFromDataStorage E ds a0 st)) ds)"
    and "kv_backup (snd (GetAccountInfoFromDataStorage E ds a0 st)) = kv_backup st"
  using assms kv_rest_parts(1) [OF account_read_frame(3) [of E ds a0 st]] by simp_all

lemma extra_refines:
  assumes ok: "kv_ok E" "cjson_ok E" "\<not> DISTRIBUTED_FEATURE E" and db: "app_db E M (kv_entries st (GetDataStorage uid False))"
    and "nul_free extra"
  shows "implements_request E uid (new_info name owner i) (ExtraReq extra) M st (run_request E uid name owner i (ExtraReq extra) st)"
proof -
  let ?ds = "GetDataStorage uid False" and ?a = "new_info name owner i"
  have st: "stored E M (kv_entries st ?ds)" using db by (simp add: app_db_def)
  note rd = read_ok [OF ok(1,2) st fresh_new(1) [of name owner i]] and rs = read_state [OF db, of ?a]
  show ?thesis
  proof (cases "M (GetPrimeKey ?a)")
    case (Some a)
    note a = stored_account [OF st Some] and pers = stored_persisted [OF st Some]
    have b: "acct_ok E (SetExtraInfo extra a)" "persisted (SetExtraInfo extra a) = SetExtraInfo extra a"
        "GetPrimeKey (SetExtraInfo extra a) = GetPrimeKey ?a" "ai_authorizedApps (SetExtraInfo extra a) = ai_authorizedApps a"
      using a assms(5) arg_cong [OF pers, of ai_oauthTokens]
      by (simp_all add: SetExtraInfo_def acct_ok_def info_wf_def info_clean_def persisted_def GetPrimeKey_def)
    from save_keeps_db [OF ok rs(1) b(1) _ b(2,4), where uid = uid] Some b(3) rd rs(2)
    show ?thesis
      by (simp add: implements_request_def abs_update_def SetAccountExtraInfo_def split_beta Let_def)
  qed (use rd rs in \<open>simp add: implements_request_def abs_update_def SetAccountExtraInfo_def split_beta Let_def\<close>)
qed

lemma data_refines:
  assumes ok: "kv_ok E" "cjson_ok E" "\<not> DISTRIBUTED_FEATURE E" and db: "app_db E M (kv_entries st (GetDataStorage uid False))"
    and "valid_request (DataReq key val)"
  shows "implements_request E uid (new_info name owner i) (DataReq key val) M st (run_request E uid name owner i (DataReq key val) st)"
proof -
  let ?ds = "GetDataStorage uid False" and ?a = "new_info name owner i"
  have st: "stored E M (kv_entries st ?ds)" using db by (simp add: app_db_def)
  note rd = read_ok [OF ok(1,2) st fresh_new(1) [of name owner i]] and rs = read_state [OF db, of ?a]
  show ?thesis
  proof (cases "M (GetPrimeKey ?a)")
    case (Some a)
    note a = stored_account [OF st Some] and pers = stored_persisted [OF st Some]
    note b = data_change_ok [OF ok(2) a(1) pers assms(5)]
    from save_keeps_db [OF ok rs(1) b(1) _ b(2,4), where uid = uid] Some b(3) rd rs a(2)
    show ?thesis
      by (simp add: implements_request_def abs_update_def SetAssociatedData_ctl_def split_beta Let_def split: option.split)
  qed (use rd rs in \<open>simp add: implements_request_def abs_update_def SetAssociatedData_ctl_def split_beta Let_def\<close>)
qed

lemma access_change_set:
  "fst (EnableAppAccess app v a) = ERR_OK \<Longrightarrow>
     set (ai_authorizedApps (snd (EnableAppAccess app v a))) = insert app (set (ai_authorizedApps a))"
  "fst (DisableAppAccess app v a) = ERR_OK \<Longrightarrow>
     set (ai_authorizedApps (snd (DisableAppAccess app v a))) = set (ai_authorizedApps a) - {app}"
  by (auto simp: EnableAppAccess_def DisableAppAccess_def Let_def split: if_splits)

text \<open>A transaction whose body turns the database of \<open>M\<close> into the database of \<open>M'\<close>.\<close>

context guarded_body
begin

lemma run_implements:
  assumes "kv_ok E" "kv_backup st s = None"
    and "\<And>st1. kv_entries st1 = kv_entries st \<Longrightarrow>
      \<exists>m. fst (body st1) = ERR_OK \<and> kv_entries (snd (body st1)) = (kv_entries st1)(s := m) \<and> P m"
  shows "fst (with_DbTransaction E s body st) = ERR_OK"
    and "P (kv_entries (snd (with_DbTransaction E s body st)) s)"
    and "kv_backup (snd (with_DbTransaction E s body st)) = kv_backup st"
    and "t \<noteq> s \<Longrightarrow> kv_entries (snd (with_DbTransaction E s body st)) t = kv_entries st t"
proof -
  obtain st1 where r: "kv_entries st1 = kv_entries st"
    "fst (with_DbTransaction E s body st) = fst (body st1)"
    "kv_backup (snd (with_DbTransaction E s body st)) = kv_backup st"
    "kv_entries (snd (with_DbTransaction E s body st)) =
       (if fst (body st1) = ERR_OK then kv_entries (snd (body st1)) else (kv_entries (snd (body st1)))(s := kv_entries st s))"
    by (rule run_ok [OF assms(1,2)]) blast
  with assms(3) [OF r(1)] show "fst (with_DbTransaction E s body st) = ERR_OK"
    "P (kv_entries (snd (with_DbTransaction E s body st)) s)"
    "t \<noteq> s \<Longrightarrow> kv_entries (snd (with_DbTransaction E s body st)) t = kv_entries st t"
    by auto
  show "kv_backup (snd (with_DbTransaction E s body st)) = kv_backup st" by (rule r(3))
qed

lemma run_refused:
  assumes "kv_ok E" "kv_backup st s = None" "r \<noteq> ERR_OK"
    and "\<And>st1. kv_entries st1 = kv_entries st \<Longrightarrow> fst (body st1) = r \<and> kv_entries (snd (body st1)) = kv_entries st1"
  shows "fst (with_DbTransaction E s body st) = r"
    and "kv_entries (snd (with_DbTransaction E s body st)) = kv_entries st"
    and "kv_backup (snd (with_DbTransaction E s body st)) = kv_backup st"
proof -
  obtain st1 where r: "kv_entries st1 = kv_entries st"
    "fst (with_DbTransaction E s body st) = fst (body st1)"
    "kv_backup (snd (with_DbTransaction E s body st)) = kv_backup st"
    "kv_entries (snd (with_DbTransaction E s body st)) =
       (if fst (body st1) = ERR_OK then kv_entries (snd (body st1)) else (kv_entries (snd (body st1)))(s := kv_entries st s))"
    by (rule run_ok [OF assms(1,2)]) blast
  with assms(3) assms(4) [OF r(1)] show "fst (with_DbTransaction E s body st) = r"
    "kv_entries (snd (with_DbTransaction E s body st)) = kv_entries st"
    "kv_backup (snd (with_DbTransaction E s body st)) = kv_backup st"
    by auto
qed

end

lemma enable_refines:
  assumes ok: "kv_ok E" "cjson_ok E" "\<not> DISTRIBUTED_FEATURE E" and db: "app_db E M (kv_entries st (GetDataStorage uid False))"
    and "kv_backup st (GetDataStorage uid False) = None" "app_ok app"
  shows "implements_request E uid (new_info name owner i) (EnableReq app v) M st (run_request E uid name owner i (EnableReq app v) st)"
proof -
  let ?ds = "GetDataStorage uid False" and ?a = "new_info name owner i"
  have st: "stored E M (kv_entries st ?ds)" using db by (simp add: app_db_def)
  note rd = read_ok [OF ok(1,2) st fresh_new(1) [of name owner i]] and rs = read_state [OF db, of ?a]
  define st1 where "st1 = snd (GetAccountInfoFromDataStorage E ?ds ?a st)"
  show ?thesis
  proof (cases "M (GetPrimeKey ?a)")
    case (Some a)
    let ?b = "snd (EnableAppAccess app v a)"
    note a = stored_account [OF st Some] and pers = stored_persisted [OF st Some]
    note b = access_change_ok(1-3) [OF a(1) assms(6) pers, of v]
    have body: "\<exists>m. fst (enable_access_body E app ?b uid st2) = ERR_OK
        \<and> kv_entries (snd (enable_access_body E app ?b uid st2)) = (kv_entries st2)(?ds := m) \<and> app_db E (M(GetPrimeKey ?a \<mapsto> ?b)) m"
      if "fst (EnableAppAccess app v a) = ERR_OK" "kv_entries st2 = kv_entries st1" for st2 :: "'b app_ctl_scheme"
    proof -
      have "M (GetPrimeKey ?b) = Some a" "app_db E M (kv_entries st2 ?ds)"
        using Some a(2) b(3) that(2) rs(1) by (simp_all add: st1_def)
      from enable_body_ok [OF ok this(2) assms(6) b(1) this(1) access_change_set(1) [OF that(1)]]
      show ?thesis using a(2) b(2,3) by (metis (lifting))
    qed
    have "kv_backup st1 ?ds = None" using assms(5) rs(2) by (simp add: st1_def)
    note tx = enable_tx.run_implements [OF ok(1) this body]
    show ?thesis
      using tx Some rd rs db
      by (simp add: implements_request_def abs_update_def EnableAppAccess_ctl_def split_beta Let_def st1_def)
  qed (use rd rs in \<open>simp add: implements_request_def abs_update_def EnableAppAccess_ctl_def split_beta Let_def\<close>)
qed

lemma disable_result: "fst (DisableAppAccess app v a) \<noteq> ERR_OK \<Longrightarrow>
    fst (DisableAppAccess app v a) = ERR_APPACCOUNT_SERVICE_DISABLE_APP_ACCESS_NOT_EXISTED"
  by (auto simp: DisableAppAccess_def Let_def split: if_splits)

lemma disable_refines:
  assumes ok: "kv_ok E" "cjson_ok E" "\<not> DISTRIBUTED_FEATURE E" and db: "app_db E M (kv_entries st (GetDataStorage uid False))"
    and "kv_backup st (GetDataStorage uid False) = None" "app_ok app"
  shows "implements_request E uid (new_info name owner i) (DisableReq app v) M st (run_request E uid name owner i (DisableReq app v) st)"
proof -
  let ?ds = "GetDataStorage uid False" and ?a = "new_info name owner i"
  have st: "stored E M (kv_entries st ?ds)" using db by (simp add: app_db_def)
  note rd = read_ok [OF ok(1,2) st fresh_new(1) [of name owner i]] and rs = read_state [OF db, of ?a]
  define st1 where "st1 = snd (GetAccountInfoFromDataStorage E ?ds ?a st)"
  show ?thesis
  proof (cases "M (GetPrimeKey ?a)")
    case (Some a)
    let ?b = "snd (DisableAppAccess app v a)"
    note a = stored_account [OF st Some] and pers = stored_persisted [OF st Some]
    note b = access_change_ok(4-6) [OF a(1) assms(6) pers, of v]
    have body: "\<exists>m. fst (disable_access_body E app ?b uid st2) = ERR_OK
        \<and> kv_entries (snd (disable_access_body E app ?b uid st2)) = (kv_entries st2)(?ds := m) \<and> app_db E (M(GetPrimeKey ?a \<mapsto> ?b)) m"
      if "fst (DisableAppAccess app v a) = ERR_OK" "kv_entries st2 = kv_entries st1" for st2 :: "'b app_ctl_scheme"
    proof -
      have "M (GetPrimeKey ?b) = Some a" "app_db E M (kv_entries st2 ?ds)"
        using Some a(2) b(3) that(2) rs(1) by (simp_all add: st1_def)
      from disable_body_ok [OF ok this(2) assms(6) b(1) this(1) access_change_set(2) [OF that(1)]]
      show ?thesis using a(2) b(2,3) by (metis (lifting))
    qed
    have "kv_backup st1 ?ds = None" using assms(5) rs(2) by (simp add: st1_def)
    note tx = disable_tx.run_implements [OF ok(1) this body]
    show ?thesis
      using tx Some rd rs db
      by (simp add: implements_request_def abs_update_def DisableAppAccess_ctl_def split_beta Let_def st1_def disable_result)
  qed (use rd rs in \<open>simp add: implements_request_def abs_update_def DisableAppAccess_ctl_def split_beta Let_def\<close>)
qed

lemma delete_refines:
  assumes ok: "kv_ok E" "cjson_ok E" "\<not> DISTRIBUTED_FEATURE E" and db: "app_db E M (kv_entries st (GetDataStorage uid False))"
    and none: "kv_backup st (GetDataStorage uid False) = None"
  shows "implements_request E uid (new_info name owner i) DeleteReq M st (run_request E uid name owner i DeleteReq st)"
proof -
  let ?ds = "GetDataStorage uid False" and ?a = "new_info name owner i"
  let ?body = "delete_account_body E name uid ?a"
  show ?thesis
  proof (cases "M (GetPrimeKey ?a)")
    case (Some a)
    have body: "\<exists>m. fst (?body st1) = ERR_OK \<and> kv_entries (snd (?body st1)) = (kv_entries st1)(?ds := m)
        \<and> app_db E (M(GetPrimeKey ?a := None)) m"
      if "kv_entries st1 = kv_entries st" for st1 :: "'b app_ctl_scheme"
    proof -
      have "app_db E M (kv_entries st1 ?ds)" using db that by simp
      from delete_body_ok [OF ok this fresh_new(1) Some, of name] show ?thesis by (metis (lifting))
    qed
    show ?thesis
      using delete_tx.run_implements [OF ok(1) none body] Some by (simp add: implements_request_def DeleteAccount_def)
  next
    case None
    have body: "fst (?body st1) = ERR_APPACCOUNT_SERVICE_GET_ACCOUNT_INFO_BY_ID \<and> kv_entries (snd (?body st1)) = kv_entries st1"
      if "kv_entries st1 = kv_entries st" for st1 :: "'b app_ctl_scheme"
    proof -
      have "stored E M (kv_entries st1 ?ds)" using db that by (simp add: app_db_def)
      from read_ok [OF ok(1,2) this fresh_new(1) [of name owner i]] None show ?thesis
        by (simp add: delete_account_body_def DeleteAccountInfoFromDataStorage_ctl_def split_beta Let_def)
    qed
    show ?thesis
      using delete_tx.run_refused [OF ok(1) none _ body] None db by (simp add: implements_request_def DeleteAccount_def)
  qed
qed

lemma request_refines:
  assumes ok: "kv_ok E" "cjson_ok E" "\<not> DISTRIBUTED_FEATURE E" and db: "app_db E M (kv_entries st (GetDataStorage uid False))"
    and none: "kv_backup st (GetDataStorage uid False) = None"
    and valid: "nul_free name" "nul_free owner" "CHR ''#'' \<notin> set owner" "valid_request req"
  shows "implements_request E uid (new_info name owner i) req M st (run_request E uid name owner i req st)"
  using add_refines [OF ok db valid(1,2) _ valid(3)] delete_refines [OF ok db none] enable_refines [OF ok db none]
    disable_refines [OF ok db none] extra_refines [OF ok db] data_refines [OF ok db] valid(4)
  by (cases req) simp_all

section \<open>Sequences of requests\<close>

record caller_request =
  cr_name :: string
  cr_owner :: string
  cr_index :: u32
  cr_request :: app_request

definition valid_caller :: "caller_request \<Rightarrow> bool" where
  "valid_caller c \<longleftrightarrow> nul_free (cr_name c) \<and> nul_free (cr_owner c) \<and> CHR ''#'' \<notin> set (cr_owner c) \<and> valid_request (cr_request c)"

fun abs_requests :: "'z app_env_scheme \<Rightarrow> caller_request list \<Rightarrow> accounts \<Rightarrow> ErrCode list \<times> accounts" where
  "abs_requests E [] M = ([], M)"
| "abs_requests E (c # cs) M =
     (let (r, M1) = abs_request E (new_info (cr_name c) (cr_owner c) (cr_index c)) (cr_request c) M;
          (rs, M2) = abs_requests E cs M1 in (r # rs, M2))"

fun run_requests ::
  "'z app_env_scheme \<Rightarrow> nat \<Rightarrow> caller_request list \<Rightarrow> 'w app_ctl_scheme \<Rightarrow> ErrCode list \<times> 'w app_ctl_scheme" where
  "run_requests E uid [] st = ([], st)"
| "run_requests E uid (c # cs) st =
     (let (r, st1) = run_request E uid (cr_name c) (cr_owner c) (cr_index c) (cr_request c) st;
          (rs, st2) = run_requests E uid cs st1 in (r # rs, st2))"

text \<open>
  C2 (refinement). On a database that answers, every sequence of requests of one user returns exactly the
  results of the specification on the map of accounts, and the database stays the one of that map: every
  account is stored under its key, and the index lists for each application exactly the accounts it was
  given access to, each once. The stores of the other users do not change.
\<close>

theorem app_requests_refine:
  assumes "kv_ok E" "cjson_ok E" "\<not> DISTRIBUTED_FEATURE E"
    and "app_db E M (kv_entries st (GetDataStorage uid False))" "kv_backup st (GetDataStorage uid False) = None"
    and "\<forall>c \<in> set cs. valid_caller c"
  shows "\<exists>M'. abs_requests E cs M = (fst (run_requests E uid cs st), M')
    \<and> app_db E M' (kv_entries (snd (run_requests E uid cs st)) (GetDataStorage uid False))
    \<and> (\<forall>s. s \<noteq> GetDataStorage uid False \<longrightarrow> kv_entries (snd (run_requests E uid cs st)) s = kv_entries st s)"
  using assms(4-)
proof (induction cs arbitrary: M st)
  case (Cons c cs)
  let ?r = "run_request E uid (cr_name c) (cr_owner c) (cr_index c) (cr_request c) st"
  have "valid_caller c" using Cons.prems(3) by simp
  then obtain M1 where M1: "abs_request E (new_info (cr_name c) (cr_owner c) (cr_index c)) (cr_request c) M = (fst ?r, M1)"
    "app_db E M1 (kv_entries (snd ?r) (GetDataStorage uid False))" "kv_backup (snd ?r) = kv_backup st"
    "\<forall>t. t \<noteq> GetDataStorage uid False \<longrightarrow> kv_entries (snd ?r) t = kv_entries st t"
    using request_refines [OF assms(1-3) Cons.prems(1,2), of "cr_name c" "cr_owner c" "cr_request c" "cr_index c"]
    by (auto simp: valid_caller_def implements_request_def)
  from Cons.IH [OF M1(2)] M1 Cons.prems(2,3) show ?case by (fastforce simp: split_beta Let_def)
qed simp

text \<open>The database of a user without accounts is an empty store.\<close>

lemma empty_db: "app_db E Map.empty []"
  by (simp add: app_db_def stored_def indexed_def index_wf_def index_obj_def index_ids_def is_obj_def granted_def
      sm_wf_def)

definition demo_requests :: "caller_request list" where
  "demo_requests = map (\<lambda>q. \<lparr>cr_name = ''alice'', cr_owner = ''com.mail'', cr_index = 0, cr_request = q\<rparr>)
     [AddReq ''x'', AddReq ''y'', EnableReq ''com.app'' 9, DataReq ''k'' ''v'', DeleteReq, DeleteReq]"

theorem app_requests_refine_witness:
  "\<exists>M'. abs_requests ref_app_env demo_requests Map.empty = (fst (run_requests ref_app_env 20000000 demo_requests empty_ctl), M')
    \<and> app_db ref_app_env M' (kv_entries (snd (run_requests ref_app_env 20000000 demo_requests empty_ctl)) (GetDataStorage 20000000 False))
    \<and> (\<forall>s. s \<noteq> GetDataStorage 20000000 False \<longrightarrow>
        kv_entries (snd (run_requests ref_app_env 20000000 demo_requests empty_ctl)) s = kv_entries empty_ctl s)"
  by (rule app_requests_refine)
    (simp_all add: empty_ctl_def empty_db demo_requests_def valid_caller_def app_ok_def)

end
