(* ===== verification/App_Account_Queries.thy ===== *)
theory App_Account_Queries
  imports App_Account_Refinement
begin

text \<open>
  What the queries of the control manager show of the map of accounts, and what the removal of a package
  takes away. The owner of accounts finds them by the prefix of their keys, other applications through the
  index. The prefix has no closing separator, so it also fits the clones whose index continues the digits of
  the one that was asked for; the theory states exactly which accounts that brings in, and shows that the
  removal of a package is not affected by it.
\<close>

section \<open>Keys and their prefixes\<close>

lemma starts_with_iff: "starts_with p s \<longleftrightarrow> (\<exists>t. s = p @ t)"
  unfolding starts_with_def by (metis append_eq_conv_conj append_take_drop_id)

lemma key_prefix:
  assumes "CHR ''#'' \<notin> set owner" and "CHR ''#'' \<notin> set (ai_owner a)"
  shows "starts_with (owner_key owner i) (GetPrimeKey a) \<longleftrightarrow>
    ai_owner a = owner \<and> starts_with (to_string_u32 i) (to_string_u32 (ai_appIndex a))"
proof
  assume "starts_with (owner_key owner i) (GetPrimeKey a)"
  then obtain t where "ai_owner a @ CHR ''#'' # (to_string_u32 (ai_appIndex a) @ CHR ''#'' # (ai_name a @ HYPHEN))
      = owner @ CHR ''#'' # (to_string_u32 i @ t)"
    by (auto simp: starts_with_iff owner_key_def GetPrimeKey_def)
  from sep_append_inject [OF assms(2,1) this]
  have own: "ai_owner a = owner" and
    eq: "to_string_u32 (ai_appIndex a) @ CHR ''#'' # (ai_name a @ HYPHEN) = to_string_u32 i @ t" by simp_all
  from eq obtain us where
    "to_string_u32 (ai_appIndex a) = to_string_u32 i @ us \<or>
     to_string_u32 i = to_string_u32 (ai_appIndex a) @ us \<and> CHR ''#'' # (ai_name a @ HYPHEN) = us @ t"
    unfolding append_eq_append_conv2 by metis
  then have "\<exists>us. to_string_u32 (ai_appIndex a) = to_string_u32 i @ us"
  proof
    assume us: "to_string_u32 i = to_string_u32 (ai_appIndex a) @ us \<and> CHR ''#'' # (ai_name a @ HYPHEN) = us @ t"
    have "CHR ''#'' \<notin> set us" using us hash_not_in_to_string [of "unat i"] by (metis Un_iff set_append)
    with us have "us = []" by (cases us) auto
    with us show ?thesis by simp
  qed auto
  with own show "ai_owner a = owner \<and> starts_with (to_string_u32 i) (to_string_u32 (ai_appIndex a))"
    by (simp add: starts_with_iff)
qed (auto simp: starts_with_iff owner_key_def GetPrimeKey_def)

lemma stored_prefix:
  assumes "stored E M m" "M k = Some a" "CHR ''#'' \<notin> set owner"
  shows "starts_with (owner_key owner i) k \<longleftrightarrow>
    ai_owner a = owner \<and> starts_with (to_string_u32 i) (to_string_u32 (ai_appIndex a))"
  using key_prefix [OF assms(3), of a i] stored_account [OF assms(1,2)] by (simp add: acct_ok_def)

section \<open>Lists of accounts\<close>

definition listed :: "accounts \<Rightarrow> (AppAccountInfo \<Rightarrow> bool) \<Rightarrow> AppAccountInfo list \<Rightarrow> bool" where
  "listed M P infos \<longleftrightarrow> distinct infos \<and> set infos = {a. \<exists>k. M k = Some a \<and> P a}"

lemma stored_inj: "stored E M m \<Longrightarrow> M k = Some a \<Longrightarrow> M k' = Some a \<Longrightarrow> k = k'"
  using stored_account(2) by metis

lemma owner_list_ok:
  assumes ok: "kv_ok E" "cjson_ok E" and st: "stored E M (kv_entries st ds)" and "CHR ''#'' \<notin> set owner"
  shows "\<exists>infos. fst (GetAllAccountsFromDataStorage E (owner_key owner i) ds st) = (ERR_OK, infos)
    \<and> listed M (\<lambda>a. ai_owner a = owner \<and> starts_with (to_string_u32 i) (to_string_u32 (ai_appIndex a))) infos"
proof -
  have "CHR ''#'' \<in> set (owner_key owner i)" by (simp add: owner_key_def)
  note q = fuzzy_query_ok [OF ok st this]
  let ?es = "map (\<lambda>e. (fst e, info_of E (snd e))) (filter (\<lambda>e. starts_with (owner_key owner i) (fst e)) (kv_entries st ds))"
  have d: "distinct (map fst ?es)" using q(4) by (rule sm_wf_distinct)
  have mo: "(k, a) \<in> set ?es \<longleftrightarrow> starts_with (owner_key owner i) k \<and> M k = Some a" for k a
    unfolding map_of_eq_Some_iff [OF d, symmetric] fun_cong [OF q(3)] by simp
  have "inj_on snd (set ?es)"
  proof (rule inj_onI)
    fix x y assume "x \<in> set ?es" "y \<in> set ?es" "snd x = snd y"
    then have "M (fst x) = Some (snd x)" "M (fst y) = Some (snd x)"
      using mo [of "fst x" "snd x"] mo [of "fst y" "snd y"] unfolding prod.collapse by (simp_all only:)
    then show "x = y" using \<open>snd x = snd y\<close> stored_inj [OF st] by (simp add: prod_eq_iff)
  qed
  then have "distinct (map snd ?es)" using distinct_map [of fst ?es] d distinct_map [of snd ?es] by blast
  moreover have "set (map snd ?es) = {a. \<exists>k. M k = Some a \<and> ai_owner a = owner
      \<and> starts_with (to_string_u32 i) (to_string_u32 (ai_appIndex a))}"
  proof (rule set_eqI)
    fix a
    have "a \<in> set (map snd ?es) \<longleftrightarrow> (\<exists>k. (k, a) \<in> set ?es)" unfolding set_map [of snd] by force
    also have "\<dots> \<longleftrightarrow> (\<exists>k. M k = Some a \<and> starts_with (owner_key owner i) k)" unfolding mo by blast
    also have "\<dots> \<longleftrightarrow> (\<exists>k. M k = Some a \<and> ai_owner a = owner \<and> starts_with (to_string_u32 i) (to_string_u32 (ai_appIndex a)))"
      using stored_prefix [OF st _ assms(4)] by blast
    finally show "a \<in> set (map snd ?es) \<longleftrightarrow> a \<in> {a. \<exists>k. M k = Some a \<and> ai_owner a = owner
      \<and> starts_with (to_string_u32 i) (to_string_u32 (ai_appIndex a))}" by simp
  qed
  ultimately show ?thesis
    using q(1) by (auto simp: GetAllAccountsFromDataStorage_def split_beta Let_def listed_def)
qed

lemma filter_accessible_ok:
  assumes ok: "kv_ok E" "cjson_ok E"
  shows "stored E M (kv_entries st ds) \<Longrightarrow> \<forall>k \<in> set ids. M k \<noteq> None \<Longrightarrow>
    fst (filter_accessible E ids owner i uid ds st) =
      Inr (filter (\<lambda>a. (case owner of None \<Rightarrow> True | Some own \<Rightarrow> ai_owner a = own)
        \<and> IsAppIndexVisibleToCaller E (ai_owner a) (uid div UID_TRANSFORM_DIVISOR) i (ai_appIndex a) False)
        (map (\<lambda>k. the (M k)) ids))"
proof (induction ids arbitrary: st)
  case (Cons k ids)
  then obtain a where a: "M k = Some a" by auto
  have ne: "k \<noteq> AUTHORIZED_ACCOUNTS" using stored_account(3) [OF Cons.prems(1) a] .
  have "kv_entries (snd (GetAccountInfoById E ds k AppAccountInfo_init st)) = kv_entries st" by simp
  with Cons get_by_id_ok [OF ok Cons.prems(1) fresh_new(2) ne] a show ?case
    by (auto simp: split_beta Let_def)
qed simp

lemma accessible_ids_ok:
  assumes ok: "kv_ok E" "cjson_ok E" and db: "app_db E M (kv_entries st ds)" and "app_ok app"
  obtains ids where "fst (GetAccessibleAccountsFromDataStorage E ds app st) = (ERR_OK, ids)"
    "distinct ids" "set ids = granted M app"
    "kv_entries (snd (GetAccessibleAccountsFromDataStorage E ds app st)) = kv_entries st"
proof -
  have ix: "index_wf E (kv_entries st ds)" "distinct (index_ids E (kv_entries st ds) app)"
    "set (index_ids E (kv_entries st ds) app) = granted M app"
    using db assms(4) by (simp_all add: app_db_def stored_def indexed_def)
  have "snd (fst (GetValueFromKvStore E ds AUTHORIZED_ACCOUNTS st)) =
      (case map_of (kv_entries st ds) AUTHORIZED_ACCOUNTS of None \<Rightarrow> [] | Some v \<Rightarrow> v)"
    using ok(1) by (simp split: option.split)
  with accessible_of_text(1) [OF assms(4) ix(1) refl] ok(1)
  have "fst (GetAccessibleAccountsFromDataStorage E ds app st) = (ERR_OK, index_ids E (kv_entries st ds) app)"
    "kv_entries (snd (GetAccessibleAccountsFromDataStorage E ds app st)) = kv_entries st"
    by (simp_all add: GetAccessibleAccountsFromDataStorage_def split_beta Let_def)
  with that ix show ?thesis by blast
qed

lemma granted_listed:
  assumes "stored E M m" "distinct ids" "set ids = granted M app"
  shows "listed M (\<lambda>a. app \<in> set (ai_authorizedApps a) \<and> P a) (filter P (map (\<lambda>k. the (M k)) ids))"
proof -
  have "inj_on (\<lambda>k. the (M k)) (set ids)"
    using assms(3) stored_inj [OF assms(1)] by (intro inj_onI) (fastforce simp: granted_def)
  with assms(2) have "distinct (map (\<lambda>k. the (M k)) ids)" by (simp add: distinct_map)
  with assms(3) show ?thesis by (force simp: listed_def granted_def)
qed


section \<open>The removal of a package\<close>

definition clone_key :: "u32 \<Rightarrow> AppAccountInfo \<Rightarrow> string" where
  "clone_key i a = GetPrimeKey (SetAppIndex i a)"

definition without_clone :: "string \<Rightarrow> u32 \<Rightarrow> accounts \<Rightarrow> accounts" where
  "without_clone owner i M = (\<lambda>k. case M k of None \<Rightarrow> None
     | Some a \<Rightarrow> if ai_owner a = owner \<and> ai_appIndex a = i then None else Some a)"

lemma withdraw_fold:
  assumes "kv_ok E" "cjson_ok E" "\<not> DISTRIBUTED_FEATURE E"
  shows "\<forall>x \<in> set apps. app_ok x \<Longrightarrow> stored E M (kv_entries st ds) \<Longrightarrow>
    \<exists>m. kv_entries (fold (remove_one_authorization E b ds sync) apps st) = (kv_entries st)(ds := m) \<and> stored E M m
      \<and> withdrawn E (set apps) (GetPrimeKey b) (kv_entries st ds) m"
proof (induction apps arbitrary: st)
  case Nil
  then show ?case by (intro exI [of _ "kv_entries st ds"]) (simp add: withdrawn_def)
next
  case (Cons app apps)
  let ?st = "remove_one_authorization E b ds sync app st"
  have app: "app_ok app" using Cons.prems by simp
  have one: "?st = snd (update_authorized E (remove1 (GetPrimeKey b)) app ds st)"
    using no_sync [OF assms(3)] by (simp add: remove_one_authorization_def RemoveAuthorizedAccountFromDataStorage_def)
  obtain m1 where m1: "kv_entries ?st = (kv_entries st)(ds := m1)" "stored E M m1"
    "withdrawn E {app} (GetPrimeKey b) (kv_entries st ds) m1"
    unfolding one by (rule withdraw_one [OF assms(1,2) app Cons.prems(2), of "GetPrimeKey b"]) blast
  have "stored E M (kv_entries ?st ds)" using m1 by simp
  from Cons.IH [OF _ this] Cons.prems(1) obtain m where m:
    "kv_entries (fold (remove_one_authorization E b ds sync) apps ?st) = (kv_entries ?st)(ds := m)" "stored E M m"
    "withdrawn E (set apps) (GetPrimeKey b) m1 m"
    using m1(1) by force
  from withdrawn_trans [OF m1(3) m(3)] m(1,2) m1(1) show ?case by auto
qed

lemma remove_one_ok:
  assumes "kv_ok E" "cjson_ok E" "\<not> DISTRIBUTED_FEATURE E" "\<forall>x \<in> set (ai_authorizedApps a). app_ok x"
    and "stored E M (kv_entries st ds)"
  obtains m where "kv_entries (remove_one_account E i ds sync a st) = (kv_entries st)(ds := m)"
    "stored E (M(clone_key i a := None)) m"
    "withdrawn E (set (ai_authorizedApps a)) (clone_key i a) (kv_entries st ds) m"
proof -
  let ?st = "fold (remove_one_authorization E (SetAppIndex i a) ds sync) (ai_authorizedApps a) st"
  obtain m1 where m1: "kv_entries ?st = (kv_entries st)(ds := m1)" "stored E M m1"
    "withdrawn E (set (ai_authorizedApps a)) (clone_key i a) (kv_entries st ds) m1"
    using withdraw_fold [OF assms] unfolding clone_key_def by blast
  let ?m = "sm_erase (clone_key i a) m1"
  have e: "kv_entries (remove_one_account E i ds sync a st) = (kv_entries st)(ds := ?m)"
    using assms(1) m1(1) no_sync [OF assms(3)]
    by (simp add: remove_one_account_def DeleteAccountInfoFromDataStorage_def Let_def clone_key_def)
  have ne: "clone_key i a \<noteq> AUTHORIZED_ACCOUNTS" by (simp add: clone_key_def)
  have "index_ids E ?m = index_ids E m1" by (rule index_ids_cong) (simp add: ne)
  with m1(3) have "withdrawn E (set (ai_authorizedApps a)) (clone_key i a) (kv_entries st ds) ?m"
    by (simp add: withdrawn_def)
  from that [OF e stored_erase [OF m1(2) ne] this] show ?thesis .
qed

definition withdrew :: "'z kv_env_scheme \<Rightarrow> (string \<Rightarrow> string set) \<Rightarrow> entries \<Rightarrow> entries \<Rightarrow> bool" where
  "withdrew E R m m' \<longleftrightarrow> (\<forall>x. app_ok x \<longrightarrow> distinct (index_ids E m x) \<longrightarrow>
     distinct (index_ids E m' x) \<and> set (index_ids E m' x) = set (index_ids E m x) - R x)"

lemma remove_accounts_ok:
  assumes "kv_ok E" "cjson_ok E" "\<not> DISTRIBUTED_FEATURE E"
  shows "\<forall>a \<in> set as. \<forall>x \<in> set (ai_authorizedApps a). app_ok x \<Longrightarrow> stored E M (kv_entries st ds) \<Longrightarrow>
    \<exists>m. kv_entries (fold (remove_one_account E i ds sync) as st) = (kv_entries st)(ds := m)
      \<and> stored E (\<lambda>k. if k \<in> clone_key i ` set as then None else M k) m
      \<and> withdrew E (\<lambda>x. clone_key i ` {a \<in> set as. x \<in> set (ai_authorizedApps a)}) (kv_entries st ds) m"
proof (induction as arbitrary: st M)
  case Nil
  then show ?case by (intro exI [of _ "kv_entries st ds"]) (simp add: withdrew_def)
next
  case (Cons a as)
  let ?st = "remove_one_account E i ds sync a st" and ?M = "M(clone_key i a := None)"
  have apps: "\<forall>x \<in> set (ai_authorizedApps a). app_ok x" using Cons.prems(1) by simp
  obtain m1 where m1: "kv_entries ?st = (kv_entries st)(ds := m1)" "stored E ?M m1"
    "withdrawn E (set (ai_authorizedApps a)) (clone_key i a) (kv_entries st ds) m1"
    by (rule remove_one_ok [OF assms apps Cons.prems(2)])
  have "stored E ?M (kv_entries ?st ds)" using m1 by simp
  from Cons.IH [OF _ this] Cons.prems(1) obtain m where m:
    "kv_entries (fold (remove_one_account E i ds sync) as ?st) = (kv_entries ?st)(ds := m)"
    "stored E (\<lambda>k. if k \<in> clone_key i ` set as then None else ?M k) m"
    "withdrew E (\<lambda>x. clone_key i ` {a \<in> set as. x \<in> set (ai_authorizedApps a)}) m1 m"
    using m1(1) by force
  have "(\<lambda>k. if k \<in> clone_key i ` set as then None else ?M k) = (\<lambda>k. if k \<in> clone_key i ` set (a # as) then None else M k)"
    by auto
  moreover have "withdrew E (\<lambda>x. clone_key i ` {b \<in> set (a # as). x \<in> set (ai_authorizedApps b)}) (kv_entries st ds) m"
    using m1(3) m(3) by (auto simp: withdrew_def withdrawn_def)
  ultimately show ?case using m(1,2) m1(1) by auto
qed

lemma clone_keys:
  assumes st: "stored E M m" and owner: "CHR ''#'' \<notin> set owner"
    and inf: "listed M (\<lambda>a. ai_owner a = owner \<and> starts_with (to_string_u32 i) (to_string_u32 (ai_appIndex a))) infos"
    and k: "M k = Some b"
  shows "a \<in> set infos \<Longrightarrow> k = clone_key i a \<Longrightarrow> ai_owner b = owner \<and> ai_appIndex b = i"
    and "ai_owner b = owner \<Longrightarrow> ai_appIndex b = i \<Longrightarrow> b \<in> set infos \<and> k = clone_key i b"
proof -
  note b = stored_account [OF st k]
  have nb: "CHR ''#'' \<notin> set (ai_owner b)" using b(1) by (simp add: acct_ok_def)
  assume a: "a \<in> set infos" "k = clone_key i a"
  then have "ai_owner (SetAppIndex i a) = owner" using inf by (auto simp: listed_def SetAppIndex_def)
  moreover have "GetPrimeKey b = GetPrimeKey (SetAppIndex i a)" using a b(2) by (simp add: clone_key_def)
  ultimately show "ai_owner b = owner \<and> ai_appIndex b = i"
    using GetPrimeKey_cong_iff [OF nb, of "SetAppIndex i a"] owner by (simp add: SetAppIndex_def)
next
  assume "ai_owner b = owner" "ai_appIndex b = i"
  with inf k stored_account(2) [OF st k] show "b \<in> set infos \<and> k = clone_key i b"
    by (auto simp: listed_def clone_key_def GetPrimeKey_def SetAppIndex_def starts_with_iff)
qed

lemma removed_clone_db:
  assumes db: "app_db E M m" and owner: "CHR ''#'' \<notin> set owner"
    and inf: "listed M (\<lambda>a. ai_owner a = owner \<and> starts_with (to_string_u32 i) (to_string_u32 (ai_appIndex a))) infos"
    and m': "stored E (\<lambda>k. if k \<in> clone_key i ` set infos then None else M k) m'"
    "withdrew E (\<lambda>x. clone_key i ` {a \<in> set infos. x \<in> set (ai_authorizedApps a)}) m m'"
  shows "app_db E (without_clone owner i M) m'"
proof -
  have st: "stored E M m" using db by (simp add: app_db_def)
  note keys = clone_keys [OF st owner inf]
  have eq: "(\<lambda>k. if k \<in> clone_key i ` set infos then None else M k) = without_clone owner i M"
  proof
    fix k show "(if k \<in> clone_key i ` set infos then None else M k) = without_clone owner i M k"
    proof (cases "M k")
      case (Some b)
      then show ?thesis using keys [OF Some] by (auto simp: without_clone_def)
    qed (simp add: without_clone_def)
  qed
  have "indexed E (without_clone owner i M) m'"
    unfolding indexed_def
  proof (intro allI impI)
    fix x assume x: "app_ok x"
    have "granted (without_clone owner i M) x = granted M x - clone_key i ` {a \<in> set infos. x \<in> set (ai_authorizedApps a)}"
    proof (intro set_eqI iffI)
      fix k assume "k \<in> granted (without_clone owner i M) x"
      then obtain b where "M k = Some b" "x \<in> set (ai_authorizedApps b)" "\<not> (ai_owner b = owner \<and> ai_appIndex b = i)"
        by (auto simp: granted_def without_clone_def split: option.splits if_splits)
      with keys(1) show "k \<in> granted M x - clone_key i ` {a \<in> set infos. x \<in> set (ai_authorizedApps a)}"
        by (auto simp: granted_def)
    next
      fix k assume k: "k \<in> granted M x - clone_key i ` {a \<in> set infos. x \<in> set (ai_authorizedApps a)}"
      then obtain b where "M k = Some b" "x \<in> set (ai_authorizedApps b)" by (auto simp: granted_def)
      with keys(2) k show "k \<in> granted (without_clone owner i M) x"
        by (auto simp: granted_def without_clone_def)
    qed
    with x db m'(2) show "distinct (index_ids E m' x) \<and> set (index_ids E m' x) = granted (without_clone owner i M) x"
      by (simp add: withdrew_def app_db_def indexed_def)
  qed
  with m'(1) eq show ?thesis by (simp add: app_db_def)
qed

lemma remove_body_ok:
  assumes ok: "kv_ok E" "cjson_ok E" "\<not> DISTRIBUTED_FEATURE E" and db: "app_db E M (kv_entries st ds)"
    and owner: "CHR ''#'' \<notin> set owner"
  shows "\<exists>m. fst (remove_app_body E ds (owner_key owner i) i sync st) = ERR_OK
    \<and> kv_entries (snd (remove_app_body E ds (owner_key owner i) i sync st)) = (kv_entries st)(ds := m)
    \<and> app_db E (without_clone owner i M) m"
proof -
  have st: "stored E M (kv_entries st ds)" using db by (simp add: app_db_def)
  obtain infos where inf: "fst (GetAllAccountsFromDataStorage E (owner_key owner i) ds st) = (ERR_OK, infos)"
    "listed M (\<lambda>a. ai_owner a = owner \<and> starts_with (to_string_u32 i) (to_string_u32 (ai_appIndex a))) infos"
    using owner_list_ok [OF ok(1,2) st owner] by blast
  define st1 where "st1 = snd (LoadDataByLocalFuzzyQuery E ds (owner_key owner i) st)"
  have "CHR ''#'' \<in> set (owner_key owner i)" by (simp add: owner_key_def)
  then have e: "kv_entries st1 = kv_entries st" unfolding st1_def by (rule fuzzy_query_ok(2) [OF ok(1,2) st])
  have body: "remove_app_body E ds (owner_key owner i) i sync st = (ERR_OK, fold (remove_one_account E i ds sync) infos st1)"
    using inf(1) by (auto simp: GetAllAccountsFromDataStorage_def remove_app_body_def split_beta Let_def st1_def split: if_splits)
  have apps: "\<forall>a \<in> set infos. \<forall>x \<in> set (ai_authorizedApps a). app_ok x"
    using inf(2) stored_account(1) [OF st] app_ok_access by (fastforce simp: listed_def)
  have "stored E M (kv_entries st1 ds)" using st e by simp
  from remove_accounts_ok [OF ok apps this, of i sync] obtain m where
    "kv_entries (fold (remove_one_account E i ds sync) infos st1) = (kv_entries st1)(ds := m)"
    "stored E (\<lambda>k. if k \<in> clone_key i ` set infos then None else M k) m"
    "withdrew E (\<lambda>x. clone_key i ` {a \<in> set infos. x \<in> set (ai_authorizedApps a)}) (kv_entries st1 ds) m"
    by blast
  with removed_clone_db [OF db owner inf(2)] body e show ?thesis by auto
qed

context guarded_body
begin

lemma run_keeps_more:
  assumes "kv_ok E" "kv_backup st s = None" "\<And>st. kv_state.more (snd (body st)) = kv_state.more st"
  shows "kv_state.more (snd (with_DbTransaction E s body st)) = kv_state.more st"
  by (rule run_ok [OF assms(1,2)]) (simp add: assms(3))

end

lemma cache_of_more:
  fixes st st' :: "'w app_ctl_scheme"
  shows "kv_state.more st = kv_state.more st' \<Longrightarrow> associatedDataCache st = associatedDataCache st'"
  by (cases st, cases st') simp

lemma asset_keeps_cache [simp]: "associatedDataCache (RemoveDataFromAssetByLabel E u tag label st) = associatedDataCache st"
  by (simp add: RemoveDataFromAssetByLabel_def tick_ctl_def split: option.split)

text \<open>
  C13 (functional). When an application is removed, exactly the accounts of its clone disappear, together
  with every access that was given to them, although the query that collects them also returns accounts of
  other clones. The accounts of other owners and clones, their accesses and the other stores stay, and the
  caller's cached data is dropped.
\<close>

theorem package_removal:
  assumes "kv_ok E" "cjson_ok E" "\<not> DISTRIBUTED_FEATURE E"
    and "app_db E M (kv_entries st (GetDataStorage uid False))" "kv_backup st (GetDataStorage uid False) = None"
    and "CHR ''#'' \<notin> set owner" "\<not> IsOsAccountRemoved (uid div UID_TRANSFORM_DIVISOR) st"
  shows "\<exists>st'. OnPackageRemoved_ctl E uid owner i st = (ERR_OK, st')
    \<and> app_db E (without_clone owner i M) (kv_entries st' (GetDataStorage uid False))
    \<and> (\<forall>s. s \<noteq> GetDataStorage uid False \<longrightarrow> kv_entries st' s = kv_entries st s)
    \<and> map_of (associatedDataCache st') uid = None"
proof -
  let ?ds = "GetDataStorage uid False" and ?st = "RemoveAssociatedDataCacheByUid uid st"
  let ?body = "remove_app_body E ?ds (owner_key owner i) i (GetDataStorage uid True)"
  have none: "kv_backup ?st ?ds = None" using assms(5) by (simp add: RemoveAssociatedDataCacheByUid_def)
  have body: "\<exists>m. fst (?body st1) = ERR_OK \<and> kv_entries (snd (?body st1)) = (kv_entries st1)(?ds := m)
      \<and> app_db E (without_clone owner i M) m" if "kv_entries st1 = kv_entries ?st" for st1 :: "'b app_ctl_scheme"
  proof -
    have "app_db E M (kv_entries st1 ?ds)" using assms(4) that by (simp add: RemoveAssociatedDataCacheByUid_def)
    from remove_body_ok [OF assms(1-3) this assms(6)] show ?thesis .
  qed
  note tx = remove_tx.run_implements [OF assms(1) none body]
  define st1 where "st1 = snd (with_DbTransaction E ?ds ?body ?st)"
  have st: "kv_entries ?st = kv_entries st" "IsOsAccountRemoved u ?st = IsOsAccountRemoved u st"
    "map_of (associatedDataCache ?st) uid = None" for u
    by (simp_all add: RemoveAssociatedDataCacheByUid_def IsOsAccountRemoved_def)
  have "associatedDataCache st1 = associatedDataCache ?st"
    unfolding st1_def by (rule cache_of_more [OF remove_tx.run_keeps_more [OF assms(1) none]]) (rule kv_rest_parts(3) [OF remove_app_body_frame])
  with st(3) tx have st1: "map_of (associatedDataCache st1) uid = None" "app_db E (without_clone owner i M) (kv_entries st1 ?ds)"
    "\<forall>s. s \<noteq> ?ds \<longrightarrow> kv_entries st1 s = kv_entries st s" "with_DbTransaction E ?ds ?body ?st = (ERR_OK, st1)"
    by (simp_all add: st1_def st(1) prod_eq_iff)
  then show ?thesis
    using assms(7) by (simp add: OnPackageRemoved_ctl_def RemoveAppAccountData_def RemoveAppAccountDataFromDataStorage_def
        Let_def CloseDataStorage_def st(2))
qed

section \<open>Witnesses\<close>

definition demo_ctl :: app_ctl where
  "demo_ctl = snd (AddAccount ref_app_env ''x'' 20000000 (new_info ''alice'' ''com.mail'' 0) empty_ctl)"

definition demo_accounts :: accounts where
  "demo_accounts = [GetPrimeKey (new_info ''alice'' ''com.mail'' 0) \<mapsto> SetExtraInfo ''x'' (new_info ''alice'' ''com.mail'' 0)]"

lemma AddAccount_frame: "kv_rest (snd (AddAccount E extra uid info st)) = kv_rest st"
  by (simp add: AddAccount_def split_beta Let_def)

lemma removed_of_more:
  fixes st st' :: "'w app_ctl_scheme"
  shows "kv_state.more st = kv_state.more st' \<Longrightarrow> removedOsAccounts st = removedOsAccounts st'"
  by (cases st, cases st') simp

lemma demo_db:
  "app_db ref_app_env demo_accounts (kv_entries demo_ctl (GetDataStorage 20000000 False))"
  "kv_backup demo_ctl (GetDataStorage 20000000 False) = None" "removedOsAccounts demo_ctl = []"
proof -
  have "implements_request ref_app_env 20000000 (new_info ''alice'' ''com.mail'' 0) (AddReq ''x'') Map.empty empty_ctl
      (AddAccount ref_app_env ''x'' 20000000 (new_info ''alice'' ''com.mail'' 0) empty_ctl)"
    by (rule add_refines) (simp_all add: empty_ctl_def empty_db)
  then show "app_db ref_app_env demo_accounts (kv_entries demo_ctl (GetDataStorage 20000000 False))"
    by (auto simp: implements_request_def demo_ctl_def demo_accounts_def ACCOUNT_MAX_SIZE_def)
  have "kv_rest demo_ctl = kv_rest empty_ctl" unfolding demo_ctl_def by (rule AddAccount_frame)
  from kv_rest_parts(1) [OF this] removed_of_more [OF kv_rest_parts(3) [OF this]]
  show "kv_backup demo_ctl (GetDataStorage 20000000 False) = None" "removedOsAccounts demo_ctl = []"
    by (simp_all add: empty_ctl_def)
qed


theorem package_removal_witness:
  "\<exists>st'. OnPackageRemoved_ctl ref_app_env 20000000 ''com.mail'' 0 demo_ctl = (ERR_OK, st')
    \<and> app_db ref_app_env (without_clone ''com.mail'' 0 demo_accounts) (kv_entries st' (GetDataStorage 20000000 False))
    \<and> (\<forall>s. s \<noteq> GetDataStorage 20000000 False \<longrightarrow> kv_entries st' s = kv_entries demo_ctl s)
    \<and> map_of (associatedDataCache st') 20000000 = None"
  by (rule package_removal) (simp_all add: demo_db IsOsAccountRemoved_def)

end
