(* ===== verification/App_Account_Cache.thy ===== *)
theory App_Account_Cache
  imports App_Account_Queries
begin

text \<open>
  The cache of associated data. The control manager keeps the associated data of a few callers, one account
  for each, and answers from it without asking the database. The theory shows that the cache never shows:
  along every sequence of requests it agrees with the database and stays within its bound.
\<close>

section \<open>The associated data of a record as a map\<close>

definition data_of :: "'z build_env_scheme \<Rightarrow> AppAccountInfo \<Rightarrow> (string, string) smap" where
  "data_of E a = snd (GetAllAssociatedData E a [])"

lemma data_of_strings:
  assumes "stored_obj E (ai_associatedData a) = JObj (map (\<lambda>(k, v). (k, JStr v)) m)" "distinct (map fst m)"
  shows "map_of (data_of E a) = map_of m" and "sm_wf (data_of E a)"
proof -
  have eq: "data_of E a = obj_strings (map (\<lambda>(k, v). (k, JStr v)) m) []"
    using assms(1)
    by (auto simp: data_of_def GetAllAssociatedData_def PackJsonToMap_def stored_obj_def IsObject_def split: option.splits)
  then show "map_of (data_of E a) = map_of m" using assms(2) by (simp add: obj_strings_map_of)
  show "sm_wf (data_of E a)" unfolding eq by (rule sm_wf_obj_strings) simp
qed

lemma data_of_cong: "ai_associatedData a = ai_associatedData b \<Longrightarrow> data_of E a = data_of E b"
  by (simp add: data_of_def GetAllAssociatedData_def)

lemma data_of_set:
  assumes "cjson_ok E" "acct_ok E a" "valid_request (DataReq key val)" "fst (SetAssociatedData E key val a) = ERR_OK"
  shows "data_of E (snd (SetAssociatedData E key val a)) = sm_put key val (data_of E a)"
proof -
  obtain m where m: "distinct (map fst m)" "\<forall>e \<in> set m. nul_free (fst e) \<and> nul_free (snd e)"
      "stored_obj E (ai_associatedData a) = JObj (map (\<lambda>(k, v). (k, JStr v)) m)"
    using assms(2) by (auto simp: acct_ok_def data_ok_def)
  then have wf: "json_wf (stored_obj E (ai_associatedData a))" by auto
  obtain m' where m': "distinct (map fst m')" "\<forall>e \<in> set m'. nul_free (fst e) \<and> nul_free (snd e)"
      "obj_put (stored_obj E (ai_associatedData a)) key (JStr val) = JObj (map (\<lambda>(k, v). (k, JStr v)) m')"
      "map_of m' = (map_of m)(key \<mapsto> val)"
    using data_put [OF m(1,2)] assms(3) m(3) by (metis valid_request.simps(6))
  have wf': "json_wf (JObj (map (\<lambda>(k, v). (k, JStr v)) m'))" using m'(2) by auto
  have "snd (SetAssociatedData E key val a) = a\<lparr>ai_associatedData := PackJsonToString E (Some (JObj (map (\<lambda>(k, v). (k, JStr v)) m')))\<rparr>"
    using SetAssociatedData_stored [OF assms(1) wf] assms(3,4) m'(3) by (auto simp: Let_def split: if_splits)
  then have "stored_obj E (ai_associatedData (snd (SetAssociatedData E key val a))) = JObj (map (\<lambda>(k, v). (k, JStr v)) m')"
    using stored_obj_pack [OF assms(1) wf'] by simp
  note new = data_of_strings [OF this m'(1)] and old = data_of_strings [OF m(3,1)]
  show ?thesis using new old m'(4) by (intro sm_wf_ext) simp_all
qed

section \<open>Eviction\<close>

definition same_items ::
  "(nat, AssociatedDataCacheItem) smap \<Rightarrow> (nat, AssociatedDataCacheItem) smap \<Rightarrow> bool" where
  "same_items c c' \<longleftrightarrow> (\<forall>u item'. map_of c' u = Some item' \<longrightarrow>
     (\<exists>item. map_of c u = Some item \<and> ac_name item = ac_name item' \<and> ac_data item = ac_data item'))"

lemma same_items_None: "same_items c c' \<Longrightarrow> map_of c u = None \<Longrightarrow> map_of c' u = None"
  unfolding same_items_def by (metis option.distinct(1) option.exhaust)

lemma pop_loop_keys: "pop_loop p f its = (q, its') \<Longrightarrow> map fst its' = map fst its \<and> (q = p \<or> q \<in> set (map fst its))"
  by (induction p f its arbitrary: q its' rule: pop_loop.induct) (auto simp: Let_def split: prod.splits if_splits)

lemma pop_loop_items: "pop_loop p f its = (q, its') \<Longrightarrow> same_items its its'"
  by (induction p f its arbitrary: q its' rule: pop_loop.induct)
    (fastforce simp: same_items_def Let_def split: prod.splits if_splits)+

lemma length_erase_present:
  assumes "distinct (map fst m)" "k \<in> set (map fst m)"
  shows "length (sm_erase k m) < length m"
  using assms by (auto simp: sm_erase_def intro!: length_filter_less)

lemma sm_wf_keys: "map fst m = map fst n \<Longrightarrow> sm_wf m \<Longrightarrow> sm_wf n"
  by (simp add: sm_wf_def)

lemma Pop_spec:
  assumes "sm_wf c"
  shows "sm_wf (PopDataFromAssociatedDataCache c)" "same_items c (PopDataFromAssociatedDataCache c)"
    "c \<noteq> [] \<Longrightarrow> length (PopDataFromAssociatedDataCache c) < length c"
proof -
  have "sm_wf (PopDataFromAssociatedDataCache c) \<and> same_items c (PopDataFromAssociatedDataCache c)
    \<and> (c \<noteq> [] \<longrightarrow> length (PopDataFromAssociatedDataCache c) < length c)"
  proof (cases c)
    case (Cons e its)
    obtain u item where e: "e = (u, item)" by (cases e)
    obtain q its' where q: "pop_loop u (ac_freq item) its = (q, its')" by force
    note keys = pop_loop_keys [OF q] and items = pop_loop_items [OF q]
    let ?c = "(u, item) # its'"
    have pop: "PopDataFromAssociatedDataCache c = sm_erase q ?c" using Cons e q by simp
    have mf: "map fst ?c = map fst c" using keys Cons e by simp
    have wf: "sm_wf ?c" by (rule sm_wf_keys [OF mf [symmetric] assms])
    have same: "same_items c ?c" using items Cons e by (auto simp: same_items_def)
    have len: "length ?c = length c" using mf by (metis length_map)
    have qin: "q \<in> set (map fst ?c)" using keys by auto
    have "same_items c (sm_erase q ?c)"
      using same by (auto simp: same_items_def split: if_splits)
    moreover have "length (sm_erase q ?c) < length c"
      using length_erase_present [OF sm_wf_distinct [OF wf] qin] len by simp
    ultimately show ?thesis using wf pop by simp
  qed (simp add: same_items_def)
  then show "sm_wf (PopDataFromAssociatedDataCache c)" "same_items c (PopDataFromAssociatedDataCache c)"
    "c \<noteq> [] \<Longrightarrow> length (PopDataFromAssociatedDataCache c) < length c" by simp_all
qed

section \<open>Agreement with the database\<close>

text \<open>
  Every caller is a clone of an application of a user: \<open>clone\<close> gives the index of the clone that the access
  token kit knows for a uid. Two uids of one user stand for different clones.
\<close>

definition identities_ok :: "'z app_env_scheme \<Rightarrow> (nat \<Rightarrow> u32) \<Rightarrow> bool" where
  "identities_ok E clone \<longleftrightarrow>
     (\<forall>u b. GetNameForUid E u = Some b \<longrightarrow> nul_free b \<and> CHR ''#'' \<notin> set b)
     \<and> (\<forall>u v. GetNameForUid E u \<noteq> None \<longrightarrow> GetNameForUid E u = GetNameForUid E v \<longrightarrow> clone u = clone v
          \<longrightarrow> GetDataStorage u False = GetDataStorage v False \<longrightarrow> u = v)"

abbreviation cached_key :: "nat \<Rightarrow> string \<Rightarrow> string \<Rightarrow> (nat \<Rightarrow> u32) \<Rightarrow> string" where
  "cached_key u name b clone \<equiv> GetPrimeKey (new_info name b (clone u))"

definition cached :: "'z app_env_scheme \<Rightarrow> (nat \<Rightarrow> u32) \<Rightarrow> (string \<Rightarrow> accounts) \<Rightarrow> nat \<Rightarrow> AssociatedDataCacheItem \<Rightarrow> bool" where
  "cached E clone Ms u item \<longleftrightarrow> (\<exists>b a. GetNameForUid E u = Some b
     \<and> Ms (GetDataStorage u False) (cached_key u (ac_name item) b clone) = Some a \<and> ac_data item = data_of E a)"

definition coherent ::
  "'z app_env_scheme \<Rightarrow> (nat \<Rightarrow> u32) \<Rightarrow> (string \<Rightarrow> accounts) \<Rightarrow> (nat, AssociatedDataCacheItem) smap \<Rightarrow> bool" where
  "coherent E clone Ms c \<longleftrightarrow> sm_wf c \<and> length c \<le> ASSOCIATED_DATA_CACHE_MAX_SIZE
     \<and> (\<forall>u item. map_of c u = Some item \<longrightarrow> cached E clone Ms u item)"

lemma coherent_items: "coherent E clone Ms c \<Longrightarrow> same_items c c' \<Longrightarrow> map_of c' u = Some item \<Longrightarrow> cached E clone Ms u item"
  unfolding coherent_def same_items_def cached_def by metis

lemma coherent_erase: "coherent E clone Ms c \<Longrightarrow> coherent E clone Ms (sm_erase u c)"
  by (auto simp: coherent_def split: if_splits intro: order_trans [OF length_sm_erase])

lemma coherent_put:
  assumes "coherent E clone Ms c" "map_of c u \<noteq> None" "cached E clone Ms u item"
  shows "coherent E clone Ms (sm_put u item c)"
  using assms by (auto simp: coherent_def length_sm_put_present split: if_splits)

lemma emplace_put: "map_of c u = None \<Longrightarrow> sm_emplace u item c = sm_put u item c"
  by (simp add: sm_emplace_def)

lemma coherent_insert:
  assumes "coherent E clone Ms c" "map_of c u = None" "cached E clone Ms u item"
  shows "coherent E clone Ms (sm_emplace u item
    (if length c \<ge> ASSOCIATED_DATA_CACHE_MAX_SIZE then PopDataFromAssociatedDataCache c else c))"
proof -
  let ?c = "if length c \<ge> ASSOCIATED_DATA_CACHE_MAX_SIZE then PopDataFromAssociatedDataCache c else c"
  have wf: "sm_wf c" and len: "length c \<le> ASSOCIATED_DATA_CACHE_MAX_SIZE" using assms(1) by (simp_all add: coherent_def)
  note pop = Pop_spec [OF wf]
  have same: "same_items c ?c" using pop(2) by (simp add: same_items_def)
  have "map_of ?c u = None" by (rule same_items_None [OF same assms(2)])
  moreover have "length ?c < ASSOCIATED_DATA_CACHE_MAX_SIZE"
    using pop(3) len by (cases c) (auto simp: ASSOCIATED_DATA_CACHE_MAX_SIZE_def)
  moreover have "sm_wf ?c" using wf pop(1) by simp
  ultimately show ?thesis
    using assms(3) coherent_items [OF assms(1) same] length_sm_put [of u item ?c]
    unfolding emplace_put [OF \<open>map_of ?c u = None\<close>]
    by (auto simp: coherent_def simp del: if_splits split: if_split_asm)
qed

section \<open>Reads\<close>

definition service_ok :: "'z app_env_scheme \<Rightarrow> (string \<Rightarrow> accounts) \<Rightarrow> 'w kv_state_scheme \<Rightarrow> bool" where
  "service_ok E Ms st \<longleftrightarrow> (\<forall>u. app_db E (Ms (GetDataStorage u False)) (kv_entries st (GetDataStorage u False))
     \<and> kv_backup st (GetDataStorage u False) = None)"

definition answer :: "(string, string) smap option \<Rightarrow> string \<Rightarrow> ErrCode \<times> string" where
  "answer data key = (case data of None \<Rightarrow> (ERR_APPACCOUNT_SERVICE_GET_ACCOUNT_INFO_BY_ID, [])
     | Some m \<Rightarrow> (case map_of m key of None \<Rightarrow> (ERR_APPACCOUNT_SERVICE_ASSOCIATED_DATA_KEY_NOT_EXIST, []) | Some v \<Rightarrow> (ERR_OK, v)))"

lemma storage_answer:
  assumes ok: "kv_ok E" "cjson_ok E" and s: "service_ok E Ms st" and b: "GetNameForUid E u = Some b"
  shows "fst (GetAssociatedDataFromStorage E name key u (clone u) st) =
      answer (map_option (data_of E) (Ms (GetDataStorage u False) (cached_key u name b clone))) key"
    and "kv_entries (snd (GetAssociatedDataFromStorage E name key u (clone u) st)) = kv_entries st"
    and "kv_backup (snd (GetAssociatedDataFromStorage E name key u (clone u) st)) = kv_backup st"
    and "coherent E clone Ms (associatedDataCache st) \<Longrightarrow> map_of (associatedDataCache st) u = None \<Longrightarrow>
      coherent E clone Ms (associatedDataCache (snd (GetAssociatedDataFromStorage E name key u (clone u) st)))"
proof -
  let ?ds = "GetDataStorage u False" and ?a = "new_info name b (clone u)"
  have st: "stored E (Ms ?ds) (kv_entries st ?ds)" using s by (simp add: service_ok_def app_db_def)
  note rd = read_ok [OF ok st fresh_new(1) [of name b "clone u"]]
  define st1 where "st1 = snd (GetAccountInfoFromDataStorage E ?ds ?a st)"
  have f: "kv_rest st1 = kv_rest st" "kv_entries st1 = kv_entries st" unfolding st1_def by (rule account_read_frame(3,4))+
  note f = f kv_rest_parts(1) [OF f(1)] cache_of_more [OF kv_rest_parts(3) [OF f(1)]]
  show "fst (GetAssociatedDataFromStorage E name key u (clone u) st) =
      answer (map_option (data_of E) (Ms ?ds (cached_key u name b clone))) key"
    and "kv_entries (snd (GetAssociatedDataFromStorage E name key u (clone u) st)) = kv_entries st"
    and "kv_backup (snd (GetAssociatedDataFromStorage E name key u (clone u) st)) = kv_backup st"
    using b rd f(2,3)
    by (auto simp: GetAssociatedDataFromStorage_def answer_def data_of_def split_beta Let_def st1_def split: option.splits)
  assume c: "coherent E clone Ms (associatedDataCache st)" "map_of (associatedDataCache st) u = None"
  show "coherent E clone Ms (associatedDataCache (snd (GetAssociatedDataFromStorage E name key u (clone u) st)))"
  proof (cases "Ms ?ds (cached_key u name b clone)")
    case None
    then show ?thesis
      using b rd c(1) f(4) by (simp add: GetAssociatedDataFromStorage_def split_beta Let_def st1_def [symmetric])
  next
    case (Some a)
    then have "cached E clone Ms u \<lparr>ac_data = data_of E a, ac_name = name, ac_freq = 0\<rparr>"
      using b by (simp add: cached_def)
    from coherent_insert [OF c this] Some b rd f(4) show ?thesis
      by (simp add: GetAssociatedDataFromStorage_def split_beta Let_def st1_def [symmetric] data_of_def split: if_splits)
  qed
qed

lemma erased_service: "service_ok E Ms (RemoveAssociatedDataCacheByUid u st) = service_ok E Ms st"
  "associatedDataCache (RemoveAssociatedDataCacheByUid u st) = sm_erase u (associatedDataCache st)"
  "kv_entries (RemoveAssociatedDataCacheByUid u st) = kv_entries st" "kv_backup (RemoveAssociatedDataCacheByUid u st) = kv_backup st"
  by (simp_all add: service_ok_def RemoveAssociatedDataCacheByUid_def)

lemma cached_answer:
  fixes name key :: string
  assumes ok: "kv_ok E" "cjson_ok E" and s: "service_ok E Ms st" and b: "GetNameForUid E u = Some b"
    and c: "coherent E clone Ms (associatedDataCache st)"
  defines "r \<equiv> GetAssociatedData_ctl E (Some (uint (clone u))) name key u st"
  shows "fst r = answer (map_option (data_of E) (Ms (GetDataStorage u False) (cached_key u name b clone))) key"
    and "kv_entries (snd r) = kv_entries st" and "kv_backup (snd r) = kv_backup st"
    and "coherent E clone Ms (associatedDataCache (snd r))"
proof -
  let ?st = "RemoveAssociatedDataCacheByUid u st"
  let ?Q = "\<lambda>r. fst r = answer (map_option (data_of E) (Ms (GetDataStorage u False) (cached_key u name b clone))) key
    \<and> kv_entries (snd r) = kv_entries st \<and> kv_backup (snd r) = kv_backup st
    \<and> coherent E clone Ms (associatedDataCache (snd r))"
  have s': "service_ok E Ms ?st" using s by (simp add: erased_service)
  note miss = storage_answer [OF ok s' b, where name = name and key = key and clone = clone]
  have miss': "?Q (GetAssociatedDataFromStorage E name key u (clone u) ?st)"
    using miss coherent_erase [OF c, of u] by (simp add: erased_service)
  have "?Q r"
  proof (cases "\<exists>item. map_of (associatedDataCache st) u = Some item \<and> ac_name item = name")
    case True
    then obtain item where item: "map_of (associatedDataCache st) u = Some item" "ac_name item = name" by blast
    then have ci: "cached E clone Ms u item" using c by (simp add: coherent_def)
    then have "cached E clone Ms u (item\<lparr>ac_freq := ac_freq item + 1\<rparr>)" by (simp add: cached_def)
    from coherent_put [OF c _ this] item ci b show ?thesis
      by (auto simp: r_def GetAssociatedData_ctl_def answer_def cached_def Let_def split: option.split)
  next
    case False
    then have "r = GetAssociatedDataFromStorage E name key u (clone u) ?st"
      by (auto simp: r_def GetAssociatedData_ctl_def split: option.split)
    with miss' show ?thesis by simp
  qed
  then show "fst r = answer (map_option (data_of E) (Ms (GetDataStorage u False) (cached_key u name b clone))) key"
    "kv_entries (snd r) = kv_entries st" "kv_backup (snd r) = kv_backup st"
    "coherent E clone Ms (associatedDataCache (snd r))" by blast+
qed

section \<open>Requests\<close>

text \<open>A request changes at most the account it names, in the map and in the cache.\<close>

lemma coherent_step:
  assumes c: "coherent E clone Ms c" and ids: "identities_ok E clone" and b: "GetNameForUid E u = Some b"
    and M': "\<forall>k. k \<noteq> cached_key u name b clone \<longrightarrow> M' k = Ms (GetDataStorage u False) k"
    and c': "sm_wf c'" "length c' \<le> ASSOCIATED_DATA_CACHE_MAX_SIZE" "\<forall>v. v \<noteq> u \<longrightarrow> map_of c' v = map_of c v"
    and own: "\<forall>item. map_of c' u = Some item \<longrightarrow>
      (if ac_name item = name then \<exists>a. M' (cached_key u name b clone) = Some a \<and> ac_data item = data_of E a
       else map_of c u = Some item)"
  shows "coherent E clone (Ms(GetDataStorage u False := M')) c'"
proof -
  let ?ds = "GetDataStorage u False"
  have nb: "CHR ''#'' \<notin> set x" if "GetNameForUid E v = Some x" for v x using ids that by (simp add: identities_ok_def)
  have "cached E clone (Ms(?ds := M')) v item" if v: "map_of c' v = Some item" for v item
  proof (cases "v = u \<and> ac_name item = name")
    case True
    then show ?thesis using own v b by (auto simp: cached_def)
  next
    case False
    then have "map_of c v = Some item" using v c'(3) own by (cases "v = u") auto
    then obtain x a where x: "GetNameForUid E v = Some x" "ac_data item = data_of E a"
      "Ms (GetDataStorage v False) (cached_key v (ac_name item) x clone) = Some a"
      using c unfolding coherent_def cached_def by blast
    have "(Ms(?ds := M')) (GetDataStorage v False) (cached_key v (ac_name item) x clone) = Some a"
    proof (cases "GetDataStorage v False = ?ds \<and> cached_key v (ac_name item) x clone = cached_key u name b clone")
      case True
      then have same: "x = b" "clone v = clone u" "ac_name item = name"
        using GetPrimeKey_cong_iff [of "new_info (ac_name item) x (clone v)" "new_info name b (clone u)"] nb b x(1) by simp_all
      have "v = u" using ids x(1) b same True by (simp add: identities_ok_def)
      with same False show ?thesis by simp
    qed (use x(3) M' in \<open>auto\<close>)
    with x(1,2) show ?thesis by (auto simp: cached_def)
  qed
  with c'(1,2) show ?thesis by (simp add: coherent_def)
qed

lemma access_keeps_cache:
  assumes "kv_ok E" "kv_backup st (GetDataStorage u False) = None"
  shows "associatedDataCache (snd (EnableAppAccess_ctl E app u info v st)) = associatedDataCache st"
    and "associatedDataCache (snd (DisableAppAccess_ctl E app u info v st)) = associatedDataCache st"
proof -
  let ?ds = "GetDataStorage u False"
  define st1 where "st1 = snd (GetAccountInfoFromDataStorage E ?ds info st)"
  have f: "kv_rest st1 = kv_rest st" unfolding st1_def by (rule account_read_frame(3))
  have none: "kv_backup st1 ?ds = None" using assms(2) kv_rest_parts(1) [OF f] by simp
  have c1: "associatedDataCache st1 = associatedDataCache st" by (rule cache_of_more [OF kv_rest_parts(3) [OF f]])
  have "associatedDataCache (snd (with_DbTransaction E ?ds (enable_access_body E app b u) st1)) = associatedDataCache st1" for b
    by (rule cache_of_more, rule enable_tx.run_keeps_more [OF assms(1) none], rule kv_rest_parts(3), rule access_body_frame(1))
  with c1 show "associatedDataCache (snd (EnableAppAccess_ctl E app u info v st)) = associatedDataCache st"
    by (simp add: EnableAppAccess_ctl_def split_beta Let_def st1_def)
  have "associatedDataCache (snd (with_DbTransaction E ?ds (disable_access_body E app b u) st1)) = associatedDataCache st1" for b
    by (rule cache_of_more, rule disable_tx.run_keeps_more [OF assms(1) none], rule kv_rest_parts(3), rule access_body_frame(2))
  with c1 show "associatedDataCache (snd (DisableAppAccess_ctl E app u info v st)) = associatedDataCache st"
    by (simp add: DisableAppAccess_ctl_def split_beta Let_def st1_def)
qed

definition drop_account :: "nat \<Rightarrow> string \<Rightarrow> (nat, AssociatedDataCacheItem) smap \<Rightarrow> (nat, AssociatedDataCacheItem) smap" where
  "drop_account u name c = (case map_of c u of None \<Rightarrow> c | Some item \<Rightarrow> if ac_name item \<noteq> name then c else sm_erase u c)"

lemma RemoveByAccount_cache: "associatedDataCache (RemoveAssociatedDataCacheByAccount u name st) = drop_account u name (associatedDataCache st)"
  by (simp add: RemoveAssociatedDataCacheByAccount_def drop_account_def split: option.split)

lemma delete_cache:
  assumes ok: "kv_ok E" "cjson_ok E" and st: "stored E M (kv_entries st (GetDataStorage u False))"
    and none: "kv_backup st (GetDataStorage u False) = None"
  shows "associatedDataCache (snd (DeleteAccount E name u (new_info name b i) st)) =
    (if M (GetPrimeKey (new_info name b i)) = None then associatedDataCache st else drop_account u name (associatedDataCache st))"
proof -
  let ?ds = "GetDataStorage u False" and ?a = "new_info name b i"
  let ?body = "delete_account_body E name u ?a"
  obtain st1 :: "'b app_ctl_scheme" where st1: "kv_entries st1 = kv_entries st" "kv_state.more st1 = kv_state.more st"
    "kv_state.more (snd (with_DbTransaction E ?ds ?body st)) = kv_state.more (snd (?body st1))"
    by (rule delete_tx.run_ok [OF ok(1) none])
  have st': "stored E M (kv_entries st1 ?ds)" using st st1(1) by simp
  note rd = read_ok [OF ok st' fresh_new(1) [of name b i]]
  define st2 where "st2 = snd (DeleteAccountInfoFromDataStorage_ctl E ?a ?ds u st1)"
  have c2: "associatedDataCache st2 = associatedDataCache st"
    unfolding st2_def using cache_of_more [OF st1(2)] cache_of_more [OF kv_rest_parts(3) [OF account_store_frame(3)]] by metis
  have rem: "associatedDataCache (snd (remove_authorizations E apps x ?ds u s)) = associatedDataCache s" for apps x and s :: "'b app_ctl_scheme"
    by (rule cache_of_more [OF kv_rest_parts(3) [OF remove_authorizations_frame]])
  have ex: "M (GetPrimeKey ?a) \<noteq> None \<longleftrightarrow> fst (fst (DeleteAccountInfoFromDataStorage_ctl E ?a ?ds u st1)) = ERR_OK"
    using rd ok(1)
    by (auto simp: DeleteAccountInfoFromDataStorage_ctl_def DeleteAccountInfoFromDataStorage_def split_beta Let_def split: option.splits)
  have "associatedDataCache (snd (?body st1)) =
      (if M (GetPrimeKey ?a) = None then associatedDataCache st else drop_account u name (associatedDataCache st))"
    using ex c2 by (auto simp: delete_account_body_def split_beta Let_def rem RemoveByAccount_cache st2_def)
  with cache_of_more [OF st1(3)] show ?thesis by (simp add: DeleteAccount_def)
qed

lemma plain_keeps_cache:
  "associatedDataCache (snd (AddAccount E extra u info st)) = associatedDataCache st"
  "associatedDataCache (snd (SetAccountExtraInfo E extra u info st)) = associatedDataCache st"
  by (rule cache_of_more [OF kv_rest_parts(3)], simp add: AddAccount_def SetAccountExtraInfo_def split_beta Let_def)+

lemma abs_update_other: "k' \<noteq> k \<Longrightarrow> snd (abs_update f k M) k' = M k'"
  by (simp add: abs_update_def split_beta Let_def split: option.split)

lemma abs_request_other: "k' \<noteq> GetPrimeKey a \<Longrightarrow> snd (abs_request E a req M) k' = M k'"
  by (cases req) (simp_all add: abs_update_other)

lemma abs_update_data:
  assumes "M k = Some a" "\<And>x. data_of E (snd (f x)) = data_of E x"
  shows "\<exists>b. snd (abs_update f k M) k = Some b \<and> data_of E b = data_of E a"
  using assms by (simp add: abs_update_def split_beta Let_def)

lemma access_data: "data_of E (snd (EnableAppAccess app v a)) = data_of E a" "data_of E (snd (DisableAppAccess app v a)) = data_of E a"
  "data_of E (SetExtraInfo x a) = data_of E a"
  by (rule data_of_cong, simp add: EnableAppAccess_def DisableAppAccess_def SetExtraInfo_def Let_def)+

text \<open>Requests other than a deletion and a change of the data leave the data of an account alone.\<close>

lemma abs_request_data:
  assumes "M (GetPrimeKey x) = Some a" "req \<noteq> DeleteReq" "\<forall>key val. req \<noteq> DataReq key val"
  shows "\<exists>b. snd (abs_request E x req M) (GetPrimeKey x) = Some b \<and> data_of E b = data_of E a"
  using assms abs_update_data [of M "GetPrimeKey x" a, OF assms(1), of E] by (cases req) (auto simp: access_data)

lemma data_cache:
  fixes st :: "'c app_ctl_scheme" and E :: "'z app_env_scheme" and u i key val name b
  defines "r \<equiv> run_request E u name b i (DataReq key val) st"
  shows "associatedDataCache (snd r) =
    (case map_of (associatedDataCache st) u of
       Some item \<Rightarrow> if fst r = ERR_OK \<and> ac_name item = name
         then sm_put u (item\<lparr>ac_data := sm_put key val (ac_data item)\<rparr>) (associatedDataCache st) else associatedDataCache st
     | None \<Rightarrow> associatedDataCache st)"
proof -
  let ?ds = "GetDataStorage u False"
  have rd: "associatedDataCache (snd (GetAccountInfoFromDataStorage E ?ds x s)) = associatedDataCache s" for x and s :: "'c app_ctl_scheme"
    by (rule cache_of_more [OF kv_rest_parts(3) [OF account_read_frame(3)]])
  have sv: "associatedDataCache (snd (SaveAccountInfoIntoDataStorage E x ?ds u s)) = associatedDataCache s" for x and s :: "'c app_ctl_scheme"
    by (rule cache_of_more [OF kv_rest_parts(3) [OF account_store_frame(2)]])
  show ?thesis
    by (auto simp: r_def SetAssociatedData_ctl_def split_beta Let_def rd sv split: option.splits)
qed

lemma request_coherent:
  assumes ok: "kv_ok E" "cjson_ok E" "\<not> DISTRIBUTED_FEATURE E" and ids: "identities_ok E clone"
    and s: "service_ok E Ms st" and c: "coherent E clone Ms (associatedDataCache st)"
    and b: "GetNameForUid E u = Some b" and v: "nul_free name" "valid_request req"
  shows "\<exists>Ms'. service_ok E Ms' (snd (run_request E u name b (clone u) req st))
    \<and> coherent E clone Ms' (associatedDataCache (snd (run_request E u name b (clone u) req st)))"
proof -
  let ?ds = "GetDataStorage u False" and ?a = "new_info name b (clone u)"
  let ?M = "Ms ?ds" and ?r = "run_request E u name b (clone u) req st" and ?c = "associatedDataCache st"
  have db: "app_db E ?M (kv_entries st ?ds)" and none: "kv_backup st ?ds = None" using s by (simp_all add: service_ok_def)
  have st: "stored E ?M (kv_entries st ?ds)" using db by (simp add: app_db_def)
  have nb: "nul_free b" "CHR ''#'' \<notin> set b" using ids b by (simp_all add: identities_ok_def)
  obtain M' where M': "abs_request E ?a req ?M = (fst ?r, M')" "app_db E M' (kv_entries (snd ?r) ?ds)"
    "kv_backup (snd ?r) = kv_backup st" "\<forall>t. t \<noteq> ?ds \<longrightarrow> kv_entries (snd ?r) t = kv_entries st t"
    using request_refines [OF ok db none v(1) nb v(2), of "clone u"] by (auto simp: implements_request_def)
  have serv: "service_ok E (Ms(?ds := M')) (snd ?r)" using s M' by (auto simp: service_ok_def)
  have other: "\<forall>k. k \<noteq> GetPrimeKey ?a \<longrightarrow> M' k = ?M k" using abs_request_other [of _ ?a E req ?M] M'(1) by auto
  have cwf: "sm_wf ?c" "length ?c \<le> ASSOCIATED_DATA_CACHE_MAX_SIZE" using c by (simp_all add: coherent_def)
  have own: "\<exists>a. ?M (GetPrimeKey ?a) = Some a \<and> ac_data item = data_of E a"
    if "map_of ?c u = Some item" "ac_name item = name" for item
    using c that b unfolding coherent_def cached_def by fastforce
  note step = coherent_step [OF c ids b other]
  have plain: "coherent E clone (Ms(?ds := M')) ?c" if nr: "req \<noteq> DeleteReq" "\<forall>key val. req \<noteq> DataReq key val"
  proof -
    have "\<exists>a. M' (GetPrimeKey ?a) = Some a \<and> ac_data item = data_of E a" if i: "map_of ?c u = Some item" "ac_name item = name" for item
    proof -
      obtain a where a: "?M (GetPrimeKey ?a) = Some a" "ac_data item = data_of E a" using own [OF i] by blast
      from abs_request_data [of ?M ?a a, OF a(1) nr, of E] a(2) M'(1) show ?thesis by auto
    qed
    then show ?thesis by (intro step) (use cwf in simp_all)
  qed
  have "coherent E clone (Ms(?ds := M')) (associatedDataCache (snd ?r))"
  proof (cases req)
    case DeleteReq
    have eq: "associatedDataCache (snd ?r) = (if ?M (GetPrimeKey ?a) = None then ?c else drop_account u name ?c)"
      using delete_cache [OF ok(1,2) st none] DeleteReq by simp
    show ?thesis
      unfolding eq
      by (rule step; use cwf own in \<open>auto simp: drop_account_def intro: order_trans [OF length_sm_erase] split: option.splits if_splits\<close>)
  next
    case (DataReq key val)
    define r where "r = ?r"
    have eq: "associatedDataCache (snd r) = (case map_of ?c u of
       Some item \<Rightarrow> if fst r = ERR_OK \<and> ac_name item = name
         then sm_put u (item\<lparr>ac_data := sm_put key val (ac_data item)\<rparr>) ?c else ?c | None \<Rightarrow> ?c)"
      unfolding r_def DataReq by (rule data_cache)
    have ab: "abs_request E ?a (DataReq key val) ?M = (fst r, M')" using M'(1) unfolding r_def DataReq .
    have put: "\<exists>a'. M' (GetPrimeKey ?a) = Some a' \<and> data_of E a' = (if fst r = ERR_OK then sm_put key val (data_of E a) else data_of E a)"
      if "?M (GetPrimeKey ?a) = Some a" for a
      using that ab data_of_set [OF ok(2) stored_account(1) [OF st that]] v(2) DataReq
      by (auto simp: abs_update_def split_beta Let_def split: if_splits)
    show ?thesis
    proof (cases "\<exists>item. map_of ?c u = Some item \<and> fst r = ERR_OK \<and> ac_name item = name")
      case True
      then obtain item where item: "map_of ?c u = Some item" "ac_name item = name" "fst r = ERR_OK" by blast
      obtain a a' where a: "ac_data item = data_of E a" "M' (GetPrimeKey ?a) = Some a'" "data_of E a' = sm_put key val (data_of E a)"
        using own [OF item(1,2)] put item(3) by metis
      have eq': "associatedDataCache (snd ?r) = sm_put u (item\<lparr>ac_data := sm_put key val (ac_data item)\<rparr>) ?c"
        using eq item by (simp add: r_def)
      show ?thesis
        unfolding eq' by (rule step) (use cwf item a in \<open>simp_all add: length_sm_put_present\<close>)
    next
      case False
      have eq': "associatedDataCache (snd ?r) = ?c" using eq False by (auto simp: r_def [symmetric] split: option.split)
      have "\<exists>a. M' (GetPrimeKey ?a) = Some a \<and> ac_data item = data_of E a" if "map_of ?c u = Some item" "ac_name item = name" for item
        using own [OF that] put False that by metis
      then show ?thesis
        unfolding eq' by (intro step) (use cwf in simp_all)
    qed
  next
    case (AddReq x)
    with plain show ?thesis by (simp add: plain_keeps_cache)
  next
    case (ExtraReq x)
    with plain show ?thesis by (simp add: plain_keeps_cache split_beta Let_def)
  next
    case (EnableReq x w)
    with plain access_keeps_cache(1) [OF ok(1) none] show ?thesis by (simp add: split_beta Let_def)
  next
    case (DisableReq x w)
    with plain access_keeps_cache(2) [OF ok(1) none] show ?thesis by (simp add: split_beta Let_def)
  qed
  with serv show ?thesis by blast
qed

section \<open>Sequences of reads and requests\<close>

datatype cache_op = ReadOp nat string string | RequestOp nat string app_request

fun valid_op :: "'z app_env_scheme \<Rightarrow> cache_op \<Rightarrow> bool" where
  "valid_op E (ReadOp u name key) = (GetNameForUid E u \<noteq> None)"
| "valid_op E (RequestOp u name req) = (GetNameForUid E u \<noteq> None \<and> nul_free name \<and> valid_request req)"

fun run_op :: "'z app_env_scheme \<Rightarrow> (nat \<Rightarrow> u32) \<Rightarrow> cache_op \<Rightarrow> 'w app_ctl_scheme \<Rightarrow> 'w app_ctl_scheme" where
  "run_op E clone (ReadOp u name key) st = snd (GetAssociatedData_ctl E (Some (uint (clone u))) name key u st)"
| "run_op E clone (RequestOp u name req) st = snd (run_request E u name (the (GetNameForUid E u)) (clone u) req st)"

lemma run_ops_coherent:
  assumes ok: "kv_ok E" "cjson_ok E" "\<not> DISTRIBUTED_FEATURE E" and ids: "identities_ok E clone"
  shows "\<forall>p \<in> set ops. valid_op E p \<Longrightarrow> service_ok E Ms st \<Longrightarrow> coherent E clone Ms (associatedDataCache st) \<Longrightarrow>
    \<exists>Ms'. service_ok E Ms' (fold (run_op E clone) ops st) \<and> coherent E clone Ms' (associatedDataCache (fold (run_op E clone) ops st))"
proof (induction ops arbitrary: st Ms)
  case (Cons p ops)
  have "\<exists>Ms'. service_ok E Ms' (run_op E clone p st) \<and> coherent E clone Ms' (associatedDataCache (run_op E clone p st))"
  proof (cases p)
    case (ReadOp u name key)
    then obtain b where "GetNameForUid E u = Some b" using Cons.prems(1) by auto
    from cached_answer [OF ok(1,2) Cons.prems(2) this Cons.prems(3), of name key] Cons.prems(2) ReadOp
    show ?thesis by (auto simp: service_ok_def)
  next
    case (RequestOp u name req)
    then obtain b where "GetNameForUid E u = Some b" "nul_free name" "valid_request req" using Cons.prems(1) by auto
    from request_coherent [OF ok ids Cons.prems(2,3) this] RequestOp \<open>GetNameForUid E u = Some b\<close> show ?thesis by simp
  qed
  with Cons.IH Cons.prems(1) show ?case by fastforce
qed auto

text \<open>
  C17 (equivalence). The cache of associated data never shows. Whatever reads and requests the callers made
  since the service started with an empty cache, a read through the cache gives the answer that the database
  gives, and the cache holds at most five entries.
\<close>

theorem cached_read_equals_storage:
  assumes "kv_ok E" "cjson_ok E" "\<not> DISTRIBUTED_FEATURE E" "identities_ok E clone"
    and "service_ok E Ms st" "associatedDataCache st = []"
    and "\<forall>p \<in> set ops. valid_op E p" "GetNameForUid E u \<noteq> None"
  shows "fst (GetAssociatedData_ctl E (Some (uint (clone u))) name key u (fold (run_op E clone) ops st))
      = fst (GetAssociatedDataFromStorage E name key u (clone u) (fold (run_op E clone) ops st))
    \<and> length (associatedDataCache (fold (run_op E clone) ops st)) \<le> ASSOCIATED_DATA_CACHE_MAX_SIZE"
proof -
  obtain b where b: "GetNameForUid E u = Some b" using assms(8) by auto
  have "coherent E clone Ms (associatedDataCache st)" using assms(6) by (simp add: coherent_def)
  from run_ops_coherent [OF assms(1-4,7,5) this] obtain Ms' where
    Ms: "service_ok E Ms' (fold (run_op E clone) ops st)" "coherent E clone Ms' (associatedDataCache (fold (run_op E clone) ops st))"
    by blast
  from cached_answer(1) [OF assms(1,2) Ms(1) b Ms(2), of name key] storage_answer(1) [OF assms(1,2) Ms(1) b, of name key clone] Ms(2)
  show ?thesis by (simp add: coherent_def)
qed

theorem cached_read_witness:
  "let ops = [RequestOp 20000000 ''alice'' (AddReq ''x''), ReadOp 20000000 ''alice'' ''k'',
        RequestOp 20000000 ''alice'' (DataReq ''k'' ''v''), ReadOp 20000000 ''alice'' ''k''];
       E = ref_app_env\<lparr>GetNameForUid := (\<lambda>u. if u = 20000000 then Some ''com.mail'' else None)\<rparr>;
       st = fold (run_op E (\<lambda>_. 0)) ops empty_ctl
   in fst (GetAssociatedData_ctl E (Some (uint (0 :: u32))) ''alice'' ''k'' 20000000 st)
        = fst (GetAssociatedDataFromStorage E ''alice'' ''k'' 20000000 0 st)
      \<and> length (associatedDataCache st) \<le> ASSOCIATED_DATA_CACHE_MAX_SIZE"
proof -
  let ?E = "ref_app_env\<lparr>GetNameForUid := (\<lambda>u. if u = 20000000 then Some ''com.mail'' else None)\<rparr>"
  have "kv_ok ?E" "cjson_ok ?E" "\<not> DISTRIBUTED_FEATURE ?E" by (simp_all add: ref_app_env_def kv_ok_def ref_lib_ok)
  moreover have "identities_ok ?E (\<lambda>_. 0)" by (auto simp: identities_ok_def)
  moreover have "service_ok ?E (\<lambda>_. Map.empty) empty_ctl" by (simp add: service_ok_def empty_ctl_def empty_db)
  moreover have "associatedDataCache empty_ctl = []" by (simp add: empty_ctl_def)
  ultimately show ?thesis
    using cached_read_equals_storage [of ?E "\<lambda>_. 0" "\<lambda>_. Map.empty" empty_ctl
        "[RequestOp 20000000 ''alice'' (AddReq ''x''), ReadOp 20000000 ''alice'' ''k'',
          RequestOp 20000000 ''alice'' (DataReq ''k'' ''v''), ReadOp 20000000 ''alice'' ''k'']" 20000000 "''alice''" "''k''"]
    by (simp add: Let_def)
qed

end
