(* ===== verification/Os_Account_Info.thy ===== *)
theory Os_Account_Info
  imports Os_Account_Ids
begin

text \<open>
  The record of an OS account (\<open>frameworks/osaccount/native/src/os_account_info.cpp\<close>), its JSON form
  (\<open>frameworks/common/json_utils/src/os_account_info_json_parser.cpp\<close>) and the file it is kept in: the
  operations of \<open>OsAccountControlFileManager\<close> that insert, update and read one account, over the file level
  of \<open>Os_Account_Ids\<close>. Enumerations are the integers of their C++ type. The length limit of account names
  is \<open>sysconf(_SC_LOGIN_NAME_MAX)\<close>, a parameter, as is \<open>db_os_account\<close>, the answer of the distributed
  database that the build with that feature asks when the file is missing or damaged. The build is the one without
  sub spaces and without the authorization part.
\<close>

section \<open>The records\<close>

record DomainAccountInfo =
  di_domain :: string
  di_accountName :: string
  di_accountId :: string
  di_status :: int
  di_isAuthenticated :: bool
  di_serverConfigId :: string
  di_additionInfo :: string

record OsAccountInfo =
  os_localId :: int
  os_localName :: string
  os_shortName :: string
  os_type :: int
  os_constraints :: "string list"
  os_photo :: string
  os_createTime :: int
  os_lastLoginTime :: int
  os_serialNumber :: int
  os_credentialId :: u64
  os_isVerified :: bool
  os_isActivated :: bool
  os_isCreateCompleted :: bool
  os_toBeRemoved :: bool
  os_domainInfo :: DomainAccountInfo
  os_displayId :: u64
  os_isForeground :: bool
  os_isLoggedIn :: bool
  os_isDataRemovable :: bool
  os_creatorType :: int
  os_version :: int

text \<open>\<open>OsAccountType\<close> and \<open>DomainAccountStatus\<close>, and the special display ids.\<close>

definition TYPE_ADMIN :: int where "TYPE_ADMIN = 0"
definition TYPE_MAINTENANCE :: int where "TYPE_MAINTENANCE = 512"
definition TYPE_PRIVATE :: int where "TYPE_PRIVATE = 1024"
definition DOMAIN_LOGOUT :: int where "DOMAIN_LOGOUT = 0"
definition DOMAIN_LOG_END :: int where "DOMAIN_LOG_END = 3"
definition DEFAULT_DISPLAY_ID :: u64 where "DEFAULT_DISPLAY_ID = 0"
definition INVALID_DISPLAY_ID :: u64 where "INVALID_DISPLAY_ID = -1"
definition DOMAIN_NAME_MAX_SIZE :: nat where "DOMAIN_NAME_MAX_SIZE = 128"

definition DomainAccountInfo_init :: DomainAccountInfo where
  "DomainAccountInfo_init = \<lparr>di_domain = [], di_accountName = [], di_accountId = [], di_status = DOMAIN_LOG_END,
     di_isAuthenticated = False, di_serverConfigId = [], di_additionInfo = []\<rparr>"

definition OsAccountInfo_init :: OsAccountInfo where
  "OsAccountInfo_init = \<lparr>os_localId = -1, os_localName = [], os_shortName = [], os_type = TYPE_ADMIN, os_constraints = [],
     os_photo = [], os_createTime = 0, os_lastLoginTime = 0, os_serialNumber = 0, os_credentialId = 0,
     os_isVerified = False, os_isActivated = False, os_isCreateCompleted = False, os_toBeRemoved = False,
     os_domainInfo = DomainAccountInfo_init, os_displayId = -1, os_isForeground = False, os_isLoggedIn = False,
     os_isDataRemovable = True, os_creatorType = 0, os_version = 0\<rparr>"

record osi_env = os_env +
  login_name_max :: nat
  db_os_account :: "nat \<Rightarrow> int \<Rightarrow> ErrCode \<times> OsAccountInfo"

definition SetDomainInfo :: "'z osi_env_scheme \<Rightarrow> DomainAccountInfo \<Rightarrow> OsAccountInfo \<Rightarrow> bool \<times> OsAccountInfo" where
  "SetDomainInfo E d a =
     (if length (di_accountName d) \<ge> login_name_max E then (False, a)
      else if length (di_domain d) > DOMAIN_NAME_MAX_SIZE then (False, a)
      else (True, a\<lparr>os_domainInfo := d\<rparr>))"

section \<open>The JSON form\<close>

definition DomainAccountInfo_ToJson :: "DomainAccountInfo \<Rightarrow> json option" where
  "DomainAccountInfo_ToJson d =
     (let (success, j) =
            also_add (\<lambda>j. AddStringToJson j ''domainAdditionInfo'' (di_additionInfo d))
            (also_add (\<lambda>j. AddStringToJson j ''domainServerConfigId'' (di_serverConfigId d))
            (also_add (\<lambda>j. AddIntToJson j ''domainAccountStatus'' (di_status d))
            (also_add (\<lambda>j. AddStringToJson j ''accountId'' (di_accountId d))
            (also_add (\<lambda>j. AddStringToJson j ''accountName'' (di_accountName d))
            (also_add (\<lambda>j. AddStringToJson j ''domain'' (di_domain d)) (True, CreateJson))))))
      in if \<not> success then None else j)"

text \<open>\<open>ToJson\<close> of an account writes the object of its domain in line with the same fields.\<close>

definition OsAccountInfo_ToJson :: "OsAccountInfo \<Rightarrow> json option" where
  "OsAccountInfo_ToJson a =
     (let (success, j) =
            also_add (\<lambda>j. AddIntToJson j ''version'' (os_version a))
            (also_add (\<lambda>j. AddIntToJson j ''creatorType'' (os_creatorType a))
            (also_add (\<lambda>j. AddBoolToJson j ''isDataRemovable'' (os_isDataRemovable a))
            (also_add (\<lambda>j. AddBoolToJson j ''isLoggedIn'' (os_isLoggedIn a))
            (also_add (\<lambda>j. AddBoolToJson j ''isForeground'' (os_isForeground a))
            (also_add (\<lambda>j. AddUint64ToJson j ''displayId'' (os_displayId a))
            (also_add (\<lambda>j. AddUint64ToJson j ''credentialId'' (os_credentialId a))
            (also_add (\<lambda>j. AddBoolToJson j ''toBeRemoved'' (os_toBeRemoved a))
            (also_add (\<lambda>j. AddBoolToJson j ''isCreateCompleted'' (os_isCreateCompleted a))
            (also_add (\<lambda>j. AddBoolToJson j ''isActived'' (os_isActivated a))
            (also_add (\<lambda>j. AddInt64ToJson j ''serialNumber'' (os_serialNumber a))
            (also_add (\<lambda>j. AddInt64ToJson j ''lastLoginTime'' (os_lastLoginTime a))
            (also_add (\<lambda>j. AddInt64ToJson j ''createTime'' (os_createTime a))
            (also_add (\<lambda>j. AddStringToJson j ''photo'' (os_photo a))
            (also_add (\<lambda>j. AddBoolToJson j ''isVerified'' (os_isVerified a))
            (also_add (\<lambda>j. AddVectorStringToJson j ''constraints'' (os_constraints a))
            (also_add (\<lambda>j. AddIntToJson j ''type'' (os_type a))
            (also_add (\<lambda>j. AddStringToJson j ''shortName'' (os_shortName a))
            (also_add (\<lambda>j. AddStringToJson j ''localName'' (os_localName a))
            (also_add (\<lambda>j. AddIntToJson j ''localId'' (os_localId a)) (True, CreateJson))))))))))))))))))));
          (success, j) = also_add (\<lambda>j. AddObjToJson j ''domainInfo'' (DomainAccountInfo_ToJson (os_domainInfo a))) (success, j)
      in if \<not> success then None else j)"

definition OsAccountInfo_ToString :: "'z osi_env_scheme \<Rightarrow> OsAccountInfo \<Rightarrow> string" where
  "OsAccountInfo_ToString E a = PackJsonToString E (OsAccountInfo_ToJson a)"

text \<open>The fields of the domain, read into the record they are found in.\<close>

definition domain_from_json :: "json option \<Rightarrow> DomainAccountInfo \<Rightarrow> DomainAccountInfo" where
  "domain_from_json j d =
     (if j = None then d
      else d\<lparr>di_domain := or_keep (GetStringFromJson j ''domain'') (di_domain d),
        di_accountName := or_keep (GetStringFromJson j ''accountName'') (di_accountName d),
        di_accountId := or_keep (GetStringFromJson j ''accountId'') (di_accountId d),
        di_status := or_keep (GetIntFromJson j ''domainAccountStatus'') (di_status d),
        di_serverConfigId := or_keep (GetStringFromJson j ''domainServerConfigId'') (di_serverConfigId d),
        di_additionInfo := or_keep (GetStringFromJson j ''domainAdditionInfo'') (di_additionInfo d)\<rparr>)"

definition OsAccountInfo_FromJson :: "json option \<Rightarrow> OsAccountInfo \<Rightarrow> bool \<times> OsAccountInfo" where
  "OsAccountInfo_FromJson j a =
     (if j = None then (False, a)
      else let localId = GetIntFromJson j ''localId'';
               completed = (if localId = None then None else GetBoolFromJson j ''isCreateCompleted'') in
       (localId \<noteq> None \<and> completed \<noteq> None,
        a\<lparr>os_localId := or_keep localId (os_localId a),
          os_localName := or_keep (GetStringFromJson j ''localName'') (os_localName a),
          os_shortName := or_keep (GetStringFromJson j ''shortName'') (os_shortName a),
          os_type := or_keep (GetIntFromJson j ''type'') (os_type a),
          os_constraints := snd (GetVectorStringFromJson j ''constraints'' (os_constraints a)),
          os_isVerified := or_keep (GetBoolFromJson j ''isVerified'') (os_isVerified a),
          os_photo := or_keep (GetStringFromJson j ''photo'') (os_photo a),
          os_createTime := or_keep (GetInt64FromJson j ''createTime'') (os_createTime a),
          os_lastLoginTime := or_keep (GetInt64FromJson j ''lastLoginTime'') (os_lastLoginTime a),
          os_serialNumber := or_keep (GetInt64FromJson j ''serialNumber'') (os_serialNumber a),
          os_isActivated := or_keep (GetBoolFromJson j ''isActived'') (os_isActivated a),
          os_isCreateCompleted := or_keep completed (os_isCreateCompleted a),
          os_toBeRemoved := or_keep (GetBoolFromJson j ''toBeRemoved'') (os_toBeRemoved a),
          os_credentialId := or_keep (GetUint64FromJson j ''credentialId'') (os_credentialId a),
          os_displayId := or_keep (GetUint64FromJson j ''displayId'') (os_displayId a),
          os_isForeground := or_keep (GetBoolFromJson j ''isForeground'') (os_isForeground a),
          os_isLoggedIn := or_keep (GetBoolFromJson j ''isLoggedIn'') (os_isLoggedIn a),
          os_isDataRemovable := or_keep (GetBoolFromJson j ''isDataRemovable'') (os_isDataRemovable a),
          os_creatorType := or_keep (GetIntFromJson j ''creatorType'') (os_creatorType a),
          os_version := or_keep (GetIntFromJson j ''version'') (os_version a),
          os_domainInfo := domain_from_json (snd (GetObjFromJson j ''domainInfo'' None)) (os_domainInfo a)\<rparr>))"

section \<open>The file of an account\<close>

definition InsertOsAccountInfo :: "'z osi_env_scheme \<Rightarrow> OsAccountInfo \<Rightarrow> fs_state \<Rightarrow> ErrCode \<times> fs_state" where
  "InsertOsAccountInfo E a = InsertOsAccount E (os_localId a) (OsAccountInfo_ToString E a)"

definition UpdateOsAccountInfo :: "'z osi_env_scheme \<Rightarrow> OsAccountInfo \<Rightarrow> fs_state \<Rightarrow> ErrCode \<times> fs_state" where
  "UpdateOsAccountInfo E a = UpdateOsAccount E (os_localId a) (OsAccountInfo_ToString E a)"

definition GetOsAccountFromDatabase ::
  "'z osi_env_scheme \<Rightarrow> int \<Rightarrow> OsAccountInfo \<Rightarrow> fs_state \<Rightarrow> ErrCode \<times> OsAccountInfo" where
  "GetOsAccountFromDatabase E i a fs =
     (if DISTRIBUTED E then db_os_account E (fs_tick fs) i else (ERR_ACCOUNT_COMMON_INTERFACE_NOT_SUPPORT_ERROR, a))"

definition GetOsAccountInfoById ::
  "'z osi_env_scheme \<Rightarrow> int \<Rightarrow> OsAccountInfo \<Rightarrow> fs_state \<Rightarrow> (ErrCode \<times> OsAccountInfo) \<times> fs_state" where
  "GetOsAccountInfoById E i a fs =
     (let path = account_path (to_string_int i);
          (err, fs1) = CheckFileExistence E path fs in
      if err \<noteq> ERR_OK
      then let (dbErr, dbInfo) = GetOsAccountFromDatabase E i a fs1 in
           if dbErr = ERR_OK then ((ERR_OK, dbInfo), snd (InsertOsAccountInfo E dbInfo fs1))
           else if err = ERR_ACCOUNT_COMMON_FILE_NOT_EXIST then ((ERR_ACCOUNT_COMMON_ACCOUNT_NOT_EXIST_ERROR, dbInfo), fs1)
           else ((err, dbInfo), fs1)
      else let ((readErr, accountInfoStr), fs2) = GetFileContentByPath E path [] fs1 in
           if readErr \<noteq> ERR_OK
           then let (dbErr, dbInfo) = GetOsAccountFromDatabase E i a fs2 in
                if dbErr = ERR_OK then ((ERR_OK, dbInfo), fs2) else ((readErr, dbInfo), fs2)
           else let (parsed, info) = OsAccountInfo_FromJson (CreateJsonFromString E accountInfoStr) a in
                if parsed then ((ERR_OK, info), fs2)
                else let (dbErr, dbInfo) = GetOsAccountFromDatabase E i info fs2 in
                     if dbErr \<noteq> ERR_OK then ((ERR_ACCOUNT_COMMON_ACCOUNT_NOT_EXIST_ERROR, dbInfo), fs2)
                     else ((ERR_OK, dbInfo), fs2))"

text \<open>\<open>GetOsAccountList\<close> with \<open>needPhoto = false\<close>, its loop over the ids in a function of its own.\<close>

fun account_infos ::
  "'z osi_env_scheme \<Rightarrow> string list \<Rightarrow> fs_state \<Rightarrow> OsAccountInfo list \<times> fs_state" where
  "account_infos E [] fs = ([], fs)"
| "account_infos E (s # ids) fs =
     (case StrToInt E s of
        None \<Rightarrow> account_infos E ids fs
      | Some i \<Rightarrow>
          let ((r, info), fs1) = GetOsAccountInfoById E i OsAccountInfo_init fs;
              (infos, fs2) = account_infos E ids fs1 in
          (if r = ERR_OK then info # infos else infos, fs2))"

definition GetOsAccountList :: "'z osi_env_scheme \<Rightarrow> fs_state \<Rightarrow> (ErrCode \<times> OsAccountInfo list) \<times> fs_state" where
  "GetOsAccountList E fs =
     (let ((r, j), fs1) = GetAccountListFromFile E fs;
          (r, j, fs2) =
            (if r = ERR_OK then (ERR_OK, j, fs1)
             else if \<not> DISTRIBUTED E then (r, j, fs1)
             else let (dbErr, dbList) = db_account_list E (fs_tick fs1) in
                  if dbErr = ERR_OK then (ERR_OK, dbList, snd (SaveAccountListToFile E dbList fs1)) else (r, j, fs1)) in
      if r \<noteq> ERR_OK then ((r, []), fs2)
      else let (infos, fs3) = account_infos E (snd (GetVectorStringFromJson j ACCOUNT_LIST [])) fs2 in
           ((ERR_OK, infos), fs3))"

section \<open>Reading what was written\<close>

definition domain_json :: "DomainAccountInfo \<Rightarrow> json" where
  "domain_json d = JObj [(''domain'', JStr (c_str (di_domain d))), (''accountName'', JStr (c_str (di_accountName d))),
     (''accountId'', JStr (c_str (di_accountId d))), (''domainAccountStatus'', JNum (di_status d)),
     (''domainServerConfigId'', JStr (c_str (di_serverConfigId d))), (''domainAdditionInfo'', JStr (c_str (di_additionInfo d)))]"

definition os_account_json :: "OsAccountInfo \<Rightarrow> json" where
  "os_account_json a = JObj [(''localId'', JNum (os_localId a)), (''localName'', JStr (c_str (os_localName a))),
     (''shortName'', JStr (c_str (os_shortName a))), (''type'', JNum (os_type a)),
     (''constraints'', JArr (map (\<lambda>s. JStr (c_str s)) (os_constraints a))), (''isVerified'', JBool (os_isVerified a)),
     (''photo'', JStr (c_str (os_photo a))), (''createTime'', JStr (to_string_int (os_createTime a))),
     (''lastLoginTime'', JStr (to_string_int (os_lastLoginTime a))), (''serialNumber'', JStr (to_string_int (os_serialNumber a))),
     (''isActived'', JBool (os_isActivated a)), (''isCreateCompleted'', JBool (os_isCreateCompleted a)),
     (''toBeRemoved'', JBool (os_toBeRemoved a)), (''credentialId'', JStr (to_string_nat (unat (os_credentialId a)))),
     (''displayId'', JStr (to_string_nat (unat (os_displayId a)))), (''isForeground'', JBool (os_isForeground a)),
     (''isLoggedIn'', JBool (os_isLoggedIn a)), (''isDataRemovable'', JBool (os_isDataRemovable a)),
     (''creatorType'', JNum (os_creatorType a)), (''version'', JNum (os_version a)),
     (''domainInfo'', domain_json (os_domainInfo a))]"

lemma domain_ToJson: "DomainAccountInfo_ToJson d = Some (domain_json d)"
  by (simp add: DomainAccountInfo_ToJson_def also_add_def AddStringToJson_def AddIntToJson_def
      AddItem_def CreateJson_def obj_put_def domain_json_def)

lemma os_account_ToJson: "OsAccountInfo_ToJson a = Some (os_account_json a)"
  by (simp add: OsAccountInfo_ToJson_def also_add_def AddStringToJson_def AddIntToJson_def AddInt64ToJson_def
      AddUint64ToJson_def AddBoolToJson_def AddVectorStringToJson_def AddObjToJson_def domain_ToJson
      AddItem_def CreateJson_def obj_put_def os_account_json_def)

text \<open>
  The values a record has in the program: strings without a NUL byte, 32 bit integers and enumerations, 64 bit times.
  Whether the domain account is authenticated is not stored.
\<close>

definition domain_ok :: "DomainAccountInfo \<Rightarrow> bool" where
  "domain_ok d \<longleftrightarrow> nul_free (di_domain d) \<and> nul_free (di_accountName d) \<and> nul_free (di_accountId d)
     \<and> nul_free (di_serverConfigId d) \<and> nul_free (di_additionInfo d) \<and> \<bar>di_status d\<bar> < 2 ^ 31 \<and> \<not> di_isAuthenticated d"

definition os_record_ok :: "OsAccountInfo \<Rightarrow> bool" where
  "os_record_ok a \<longleftrightarrow>
     nul_free (os_localName a) \<and> nul_free (os_shortName a) \<and> nul_free (os_photo a) \<and> (\<forall>s \<in> set (os_constraints a). nul_free s)
     \<and> \<bar>os_localId a\<bar> < 2 ^ 31 \<and> \<bar>os_type a\<bar> < 2 ^ 31 \<and> \<bar>os_creatorType a\<bar> < 2 ^ 31 \<and> \<bar>os_version a\<bar> < 2 ^ 31
     \<and> \<bar>os_createTime a\<bar> < 2 ^ 63 \<and> \<bar>os_lastLoginTime a\<bar> < 2 ^ 63 \<and> int64 (os_serialNumber a)
     \<and> domain_ok (os_domainInfo a)"

lemma os_account_json_wf: "os_record_ok a \<Longrightarrow> json_wf (os_account_json a)"
  by (auto simp: os_account_json_def domain_json_def os_record_ok_def domain_ok_def)

lemma read_domain_json:
  "domain_ok d \<Longrightarrow> domain_from_json (Some (domain_json d)) e = d\<lparr>di_isAuthenticated := di_isAuthenticated e\<rparr>"
  by (simp add: domain_from_json_def domain_json_def domain_ok_def GetStringFromJson_def GetIntFromJson_def or_keep_def)

lemma read_os_account_json:
  assumes "os_record_ok a" and "os_constraints b = []" and "\<not> di_isAuthenticated (os_domainInfo b)"
  shows "OsAccountInfo_FromJson (Some (os_account_json a)) b = (True, a)"
proof -
  let ?j = "os_account_json a"
  have items: "obj_item ?j ''createTime'' = Some (JStr (to_string_int (os_createTime a)))"
    "obj_item ?j ''lastLoginTime'' = Some (JStr (to_string_int (os_lastLoginTime a)))"
    "obj_item ?j ''serialNumber'' = Some (JStr (to_string_int (os_serialNumber a)))"
    "obj_item ?j ''credentialId'' = Some (JStr (to_string_nat (unat (os_credentialId a))))"
    "obj_item ?j ''displayId'' = Some (JStr (to_string_nat (unat (os_displayId a))))"
    "obj_item ?j ''domainInfo'' = Some (domain_json (os_domainInfo a))"
    by (simp_all add: os_account_json_def)
  have nums: "GetInt64FromJson (Some ?j) ''createTime'' = Some (os_createTime a)"
    "GetInt64FromJson (Some ?j) ''lastLoginTime'' = Some (os_lastLoginTime a)"
    "GetInt64FromJson (Some ?j) ''serialNumber'' = Some (os_serialNumber a)"
    "GetUint64FromJson (Some ?j) ''credentialId'' = Some (os_credentialId a)"
    "GetUint64FromJson (Some ?j) ''displayId'' = Some (os_displayId a)"
    using assms(1) by (auto intro!: GetInt64_text GetUint64_text simp: items os_record_ok_def)
  have dom: "domain_from_json (snd (GetObjFromJson (Some ?j) ''domainInfo'' None)) (os_domainInfo b) = os_domainInfo a"
    using assms(1,3) by (simp add: GetObjFromJson_def Let_def items read_domain_json os_record_ok_def)
      (simp add: domain_ok_def)
  have strings: "GetStringFromJson (Some ?j) ''localName'' = Some (os_localName a)"
    "GetStringFromJson (Some ?j) ''shortName'' = Some (os_shortName a)"
    "GetStringFromJson (Some ?j) ''photo'' = Some (os_photo a)"
    "GetVectorStringFromJson (Some ?j) ''constraints'' [] = (True, os_constraints a)"
    using assms(1) by (simp_all add: GetStringFromJson_def GetVectorStringFromJson_def IsKeyExist_def GetItemFromJson_def
        os_account_json_def os_record_ok_def)
  have ints: "GetIntFromJson (Some ?j) ''localId'' = Some (os_localId a)" "GetIntFromJson (Some ?j) ''type'' = Some (os_type a)"
    "GetIntFromJson (Some ?j) ''creatorType'' = Some (os_creatorType a)" "GetIntFromJson (Some ?j) ''version'' = Some (os_version a)"
    by (simp_all add: GetIntFromJson_def os_account_json_def)
  have bools: "GetBoolFromJson (Some ?j) ''isVerified'' = Some (os_isVerified a)"
    "GetBoolFromJson (Some ?j) ''isActived'' = Some (os_isActivated a)"
    "GetBoolFromJson (Some ?j) ''isCreateCompleted'' = Some (os_isCreateCompleted a)"
    "GetBoolFromJson (Some ?j) ''toBeRemoved'' = Some (os_toBeRemoved a)"
    "GetBoolFromJson (Some ?j) ''isForeground'' = Some (os_isForeground a)"
    "GetBoolFromJson (Some ?j) ''isLoggedIn'' = Some (os_isLoggedIn a)"
    "GetBoolFromJson (Some ?j) ''isDataRemovable'' = Some (os_isDataRemovable a)"
    by (simp_all add: GetBoolFromJson_def os_account_json_def)
  show ?thesis
    by (simp add: OsAccountInfo_FromJson_def nums dom strings ints bools assms(2) or_keep_def)
qed

section \<open>The stored accounts\<close>

text \<open>The account that the file of an id holds, as a successful read finds it.\<close>

definition stored_account :: "'z osi_env_scheme \<Rightarrow> fs_state \<Rightarrow> int \<Rightarrow> OsAccountInfo option" where
  "stored_account E fs i =
     (case fs_files fs (account_path (to_string_int i)) of
        None \<Rightarrow> None
      | Some s \<Rightarrow> (let (parsed, a) = OsAccountInfo_FromJson (CreateJsonFromString E s) OsAccountInfo_init in
                  if parsed then Some a else None))"

lemma account_path_inject [simp]: "account_path (to_string_int i) = account_path (to_string_int j) \<longleftrightarrow> i = j"
  by (auto simp: account_path_def)

lemma account_path_temp [simp]:
  "account_path (to_string_int i) \<noteq> GetTempFilePath (account_path (to_string_int j))"
proof
  assume "account_path (to_string_int i) = GetTempFilePath (account_path (to_string_int j))"
  then have "to_string_int i @ CHR ''/'' # ''account_info.json'' = to_string_int j @ CHR ''/'' # ''account_info.json.tmp''"
    by (simp add: account_path_def GetTempFilePath_def)
  from sep_append_inject [OF slash_free_to_string_int slash_free_to_string_int this] show False by simp
qed

lemma stored_account_files: "fs_files fs' = fs_files fs \<Longrightarrow> stored_account E fs' = stored_account E fs"
  by (simp add: stored_account_def fun_eq_iff)

lemma check_existence_files [simp]: "fs_files (snd (check_existence_loop E path n fs)) = fs_files fs"
proof (induction n arbitrary: fs)
  case (Suc n)
  have f: "fs_files (snd (sys_stat E path fs)) = fs_files fs" by simp
  show ?case
    using Suc [of "snd (sys_stat E path fs)"] f by (simp add: split_beta split: stat_result.split)
qed simp

lemma CheckFileExistence_files [simp]: "fs_files (snd (CheckFileExistence E path fs)) = fs_files fs"
  by (simp add: CheckFileExistence_def)

text \<open>Without the distributed database a read leaves the files alone and, when it succeeds, returns the stored account.\<close>

lemma GetById_files:
  assumes "\<not> DISTRIBUTED E" and "GetOsAccountInfoById E i a fs = (x, fs')"
  shows "fs_files fs' = fs_files fs"
proof -
  let ?p = "account_path (to_string_int i)"
  obtain r fs1 where 1: "CheckFileExistence E ?p fs = (r, fs1)" by (metis prod.collapse)
  obtain y fs2 where 2: "GetFileContentByPath E ?p [] fs1 = (y, fs2)" by (metis prod.collapse)
  have "fs_files fs1 = fs_files fs" "fs_files fs2 = fs_files fs1"
    using CheckFileExistence_files [of E ?p fs] GetFileContentByPath_files [of E ?p "[]" fs1] by (simp_all add: 1 2)
  with assms show ?thesis
    by (cases y) (auto simp: GetOsAccountInfoById_def GetOsAccountFromDatabase_def Let_def 1 2 split: if_splits prod.splits)
qed

lemma GetById_ok:
  assumes "\<not> DISTRIBUTED E" and "GetOsAccountInfoById E i OsAccountInfo_init fs = ((ERR_OK, a), fs')"
  shows "stored_account E fs i = Some a"
proof -
  let ?p = "account_path (to_string_int i)"
  obtain r fs1 where 1: "CheckFileExistence E ?p fs = (r, fs1)" by (metis prod.collapse)
  obtain rr s fs2 where 2: "GetFileContentByPath E ?p [] fs1 = ((rr, s), fs2)" by (metis prod.collapse)
  have f: "fs_files fs1 = fs_files fs" using CheckFileExistence_files [of E ?p fs] by (simp add: 1)
  have "r = ERR_OK" "rr = ERR_OK"
    using assms by (auto simp: GetOsAccountInfoById_def GetOsAccountFromDatabase_def Let_def 1 2 split: if_splits prod.splits)
  moreover from this have "fs_files fs ?p = Some s" using 2 f GetFileContent_ok by metis
  ultimately show ?thesis
    using assms by (auto simp: GetOsAccountInfoById_def GetOsAccountFromDatabase_def stored_account_def Let_def 1 2
        split: if_splits prod.splits)
qed

lemma ToString_read:
  assumes "cjson_ok E" and "os_record_ok a"
  shows "OsAccountInfo_FromJson (CreateJsonFromString E (OsAccountInfo_ToString E a)) OsAccountInfo_init = (True, a)"
proof -
  have "CreateJsonFromString E (OsAccountInfo_ToString E a) = Some (os_account_json a)"
    unfolding OsAccountInfo_ToString_def os_account_ToJson
    by (rule pack_then_create(3) [OF assms(1) os_account_json_wf [OF assms(2)]])
  then show ?thesis
    using read_os_account_json [OF assms(2), of OsAccountInfo_init]
    by (simp add: OsAccountInfo_init_def DomainAccountInfo_init_def)
qed

lemma UpdateOsAccount_files:
  assumes "UpdateOsAccount E i s fs = (r, fs')"
  shows "fs_files fs' (account_path (to_string_int j)) =
    (if r = ERR_OK \<and> j = i then Some s else fs_files fs (account_path (to_string_int j)))"
proof -
  let ?p = "account_path (to_string_int i)"
  obtain ex fs1 where 1: "IsExistFile E ?p fs = (ex, fs1)" by (metis prod.collapse)
  have f: "fs_files fs1 = fs_files fs" using IsExistFile_files [of E ?p fs] by (simp add: 1)
  show ?thesis
  proof (cases "ex \<and> s \<noteq> []")
    case True
    then have "InputFileByPathAndContent E ?p s fs1 = (r, fs')" using assms 1 by (simp add: UpdateOsAccount_def Let_def)
    from InputFile_spec [OF this] f show ?thesis by (cases "j = i") auto
  next
    case False
    with assms 1 f show ?thesis by (auto simp: UpdateOsAccount_def Let_def split: if_splits)
  qed
qed

lemma Update_stored:
  assumes "cjson_ok E" and "os_record_ok a" and "UpdateOsAccountInfo E a fs = (r, fs')"
  shows "stored_account E fs' = (if r = ERR_OK then (stored_account E fs)(os_localId a \<mapsto> a) else stored_account E fs)"
  using ToString_read [OF assms(1,2)] UpdateOsAccount_files [OF assms(3) [unfolded UpdateOsAccountInfo_def]]
  by (auto simp: stored_account_def fun_eq_iff)

text \<open>A successful parse does not depend on the id the record had before.\<close>

lemma FromJson_id:
  "fst (OsAccountInfo_FromJson j (a\<lparr>os_localId := x\<rparr>)) = fst (OsAccountInfo_FromJson j a)
   \<and> (fst (OsAccountInfo_FromJson j a) \<longrightarrow> OsAccountInfo_FromJson j (a\<lparr>os_localId := x\<rparr>) = OsAccountInfo_FromJson j a)"
proof (cases "j = None \<or> GetIntFromJson j ''localId'' = None")
  case False
  then obtain n where "GetIntFromJson j ''localId'' = Some n" by blast
  moreover from this have "or_keep (GetIntFromJson j ''localId'') y = n" for y by (simp add: or_keep_def)
  ultimately show ?thesis by (simp add: OsAccountInfo_FromJson_def)
qed (auto simp: OsAccountInfo_FromJson_def)

lemma GetById_from:
  assumes "\<not> DISTRIBUTED E" and "GetOsAccountInfoById E i (OsAccountInfo_init\<lparr>os_localId := x\<rparr>) fs = ((ERR_OK, a), fs')"
  shows "GetOsAccountInfoById E i OsAccountInfo_init fs = ((ERR_OK, a), fs')"
  using assms FromJson_id [where a = OsAccountInfo_init and x = x]
  by (auto simp: GetOsAccountInfoById_def GetOsAccountFromDatabase_def Let_def split: if_splits prod.splits)
    (metis fst_conv prod.inject)+

lemma quiet_GetById:
  assumes "os_quiet E" and "fs_files fs (account_path (to_string_int i)) = Some s" and "length s \<le> MAX_FILE_SIZE"
    and "OsAccountInfo_FromJson (CreateJsonFromString E s) b = (True, a)"
  shows "\<exists>fs'. GetOsAccountInfoById E i b fs = ((ERR_OK, a), fs')"
proof -
  let ?p = "account_path (to_string_int i)" let ?fs = "fs\<lparr>fs_tick := Suc (fs_tick fs)\<rparr>"
  have n: "?p \<noteq> []" by (simp add: account_path_def)
  have "sys_stat E ?p fs = (S_ISREG, ?fs)" using assms(2) by (simp add: sys_stat_def quiet_sys_call_eq [OF assms(1)])
  then have 1: "CheckFileExistence E ?p fs = (ERR_OK, ?fs)" using n by (simp add: CheckFileExistence_def RETRY_TIMES_def numeral_3_eq_3)
  obtain fs' where "GetFileContentByPath E ?p [] ?fs = ((ERR_OK, s), fs')"
    using quiet_read [OF assms(1) n, of ?fs s] assms(2,3) by auto
  with 1 assms(4) show ?thesis by (simp add: GetOsAccountInfoById_def Let_def)
qed

text \<open>
  C32 (roundtrip). The stored form of an account loses nothing: after an update, and whatever system call failed, a
  successful read of the account returns exactly the record that was written when the update reported success, and the record
  that was stored before when it reported an error; the other accounts are untouched. When no system call fails, the update
  of an existing account succeeds and the read succeeds.
\<close>

theorem os_account_update_read:
  assumes "cjson_ok E" and "\<not> DISTRIBUTED E" and "os_record_ok a" and "UpdateOsAccountInfo E a fs = (r, fs1)"
  shows "(\<forall>i b fs2. GetOsAccountInfoById E i OsAccountInfo_init fs1 = ((ERR_OK, b), fs2) \<longrightarrow>
      Some b = (if r = ERR_OK \<and> i = os_localId a then Some a else stored_account E fs i))
    \<and> (os_quiet E \<and> stored_account E fs (os_localId a) \<noteq> None \<and> length (OsAccountInfo_ToString E a) \<le> MAX_FILE_SIZE \<longrightarrow>
        r = ERR_OK \<and> (\<exists>fs2. GetOsAccountInfoById E (os_localId a) OsAccountInfo_init fs1 = ((ERR_OK, a), fs2)))"
proof (intro conjI allI impI)
  fix i b fs2
  assume "GetOsAccountInfoById E i OsAccountInfo_init fs1 = ((ERR_OK, b), fs2)"
  from GetById_ok [OF assms(2) this] Update_stored [OF assms(1,3,4)]
  show "Some b = (if r = ERR_OK \<and> i = os_localId a then Some a else stored_account E fs i)" by (simp split: if_splits)
next
  assume q: "os_quiet E \<and> stored_account E fs (os_localId a) \<noteq> None \<and> length (OsAccountInfo_ToString E a) \<le> MAX_FILE_SIZE"
  let ?p = "account_path (to_string_int (os_localId a))"
  have "fs_files fs ?p \<noteq> None" using q by (auto simp: stored_account_def split: option.splits)
  moreover have "?p \<noteq> []" by (simp add: account_path_def)
  moreover have "OsAccountInfo_ToString E a \<noteq> []"
    unfolding OsAccountInfo_ToString_def os_account_ToJson
    by (rule pack_then_create(1) [OF assms(1) os_account_json_wf [OF assms(3)]])
  ultimately show r: "r = ERR_OK"
    using assms(4) quiet_write(1) [of E ?p "OsAccountInfo_ToString E a"] q
    by (simp add: UpdateOsAccountInfo_def UpdateOsAccount_def Let_def IsExistFile_def quiet_exists) (metis fst_conv)
  have "fs_files fs1 ?p = Some (OsAccountInfo_ToString E a)"
    using UpdateOsAccount_files [OF assms(4) [unfolded UpdateOsAccountInfo_def], of "os_localId a"] r by simp
  then show "\<exists>fs2. GetOsAccountInfoById E (os_localId a) OsAccountInfo_init fs1 = ((ERR_OK, a), fs2)"
    using q ToString_read [OF assms(1,3)] by (intro quiet_GetById) auto
qed

section \<open>Witness\<close>

definition osi_ref_env :: osi_env where
  "osi_ref_env = \<lparr>cj_parse = ref_read, cj_print = (\<lambda>j. Some (ref_print j)), sys_errno = (\<lambda>_. None),
     sys_short = (\<lambda>_. 0), space_ok = (\<lambda>_ _. True), StrToInt = (\<lambda>_. None), DISTRIBUTED = False,
     db_account_list = (\<lambda>_. (ERR_OK, None)), login_name_max = 1024, db_os_account = (\<lambda>_ _. (ERR_OK, OsAccountInfo_init))\<rparr>"

lemma osi_ref_env_ok [simp]: "cjson_ok osi_ref_env" "os_quiet osi_ref_env" "\<not> DISTRIBUTED osi_ref_env"
  by (simp_all add: osi_ref_env_def ref_lib_ok os_quiet_def)

definition demo_user :: "int \<Rightarrow> OsAccountInfo" where
  "demo_user i = OsAccountInfo_init\<lparr>os_localId := i, os_localName := ''ann'', os_isCreateCompleted := True, os_displayId := 0\<rparr>"

lemma demo_user_ok: "\<bar>i\<bar> < 2 ^ 31 \<Longrightarrow> os_record_ok (demo_user i)"
  by (simp add: os_record_ok_def demo_user_def OsAccountInfo_init_def DomainAccountInfo_init_def domain_ok_def
      TYPE_ADMIN_def DOMAIN_LOG_END_def)

lemma demo_user_length: "length (OsAccountInfo_ToString osi_ref_env (demo_user 100)) \<le> MAX_FILE_SIZE"
proof -
  have n: "to_string_nat 0 = ''0''" "to_string_nat 3 = ''3''" "to_string_nat 100 = ''100''" by code_simp+
  show ?thesis
    by (simp add: OsAccountInfo_ToString_def os_account_ToJson os_account_json_def domain_json_def demo_user_def
        OsAccountInfo_init_def DomainAccountInfo_init_def PackJsonToString_def osi_ref_env_def ref_str_def to_string_int_def n
        TYPE_ADMIN_def DOMAIN_LOG_END_def MAX_FILE_SIZE_def nul_free_def)
qed

theorem os_account_update_read_witness:
  "\<exists>fs1 fs2. UpdateOsAccountInfo osi_ref_env (demo_user 100)
       (put_file (account_path ''100'') (Some (OsAccountInfo_ToString osi_ref_env (demo_user 100))) empty_fs) = (ERR_OK, fs1)
     \<and> GetOsAccountInfoById osi_ref_env 100 OsAccountInfo_init fs1 = ((ERR_OK, demo_user 100), fs2)"
proof -
  let ?a = "demo_user 100"
  let ?fs = "put_file (account_path ''100'') (Some (OsAccountInfo_ToString osi_ref_env ?a)) empty_fs"
  have i: "os_localId ?a = 100" "to_string_int 100 = ''100''" by (simp add: demo_user_def) code_simp
  have ok: "os_record_ok ?a" by (rule demo_user_ok) simp
  obtain r fs1 where u: "UpdateOsAccountInfo osi_ref_env ?a ?fs = (r, fs1)" by (metis prod.collapse)
  have "stored_account osi_ref_env ?fs 100 \<noteq> None"
    using ToString_read [OF osi_ref_env_ok(1) ok] by (simp add: stored_account_def i)
  with os_account_update_read [OF osi_ref_env_ok(1,3) ok u] demo_user_length u show ?thesis by (auto simp: i)
qed

end
