(* ===== verification/Service_Runs.thy ===== *)
theory Service_Runs
  imports Main
begin

text \<open>
  Runs of a service: requests with their answers, one after the other. An interface says that every request
  keeps an invariant; whatever a service guarantees at any time follows from it once.
\<close>

inductive service_run :: "('s \<Rightarrow> 'q \<Rightarrow> 'r \<Rightarrow> 's \<Rightarrow> bool) \<Rightarrow> 's \<Rightarrow> ('q \<times> 'r) list \<Rightarrow> 's \<Rightarrow> bool" for step s0 where
  no_request: "service_run step s0 [] s0"
| next_request: "service_run step s0 h s1 \<Longrightarrow> step s1 q r s2 \<Longrightarrow> service_run step s0 (h @ [(q, r)]) s2"

inductive_simps service_run_Nil [simp]: "service_run step s0 [] s"
inductive_cases service_run_snocE: "service_run step s0 (h @ [(q, r)]) s"

lemma service_run_snoc: "service_run step s0 (h @ [(q, r)]) s \<longleftrightarrow> (\<exists>s1. service_run step s0 h s1 \<and> step s1 q r s)"
  by (auto elim: service_run_snocE intro: next_request)

lemma service_run_append:
  "service_run step s0 (h @ h') s \<longleftrightarrow> (\<exists>s1. service_run step s0 h s1 \<and> service_run step s1 h' s)"
proof (induction h' arbitrary: s rule: rev_induct)
  case (snoc e h')
  then show ?case
    by (cases e) (auto simp: service_run_snoc append_assoc [symmetric] simp del: append_assoc)
qed simp

locale service_invariant =
  fixes step :: "'s \<Rightarrow> 'q \<Rightarrow> 'r \<Rightarrow> 's \<Rightarrow> bool" and inv :: "'s \<Rightarrow> bool"
  assumes step_inv: "step s q r s' \<Longrightarrow> inv s \<Longrightarrow> inv s'"
begin

lemma run_inv: "service_run step s0 h s \<Longrightarrow> inv s0 \<Longrightarrow> inv s"
  by (induction rule: service_run.induct) (auto intro: step_inv)

text \<open>Before and after every request of a run the invariant holds.\<close>

lemma step_of_run:
  assumes "service_run step s0 (h @ (q, r) # h') s" and "inv s0"
  shows "\<exists>s1 s2. service_run step s0 h s1 \<and> step s1 q r s2 \<and> service_run step s2 h' s \<and> inv s1 \<and> inv s2"
proof -
  from assms(1) obtain s2 where "service_run step s0 (h @ [(q, r)]) s2" "service_run step s2 h' s"
    using service_run_append [of step s0 "h @ [(q, r)]" h' s] by auto
  moreover from this obtain s1 where "service_run step s0 h s1" "step s1 q r s2" by (auto simp: service_run_snoc)
  ultimately show ?thesis using run_inv assms(2) step_inv by blast
qed

end

text \<open>A service whose requests act on an abstract state as \<open>astep\<close> says.\<close>

locale service_refinement = service_invariant +
  fixes view :: "'a \<Rightarrow> 'd" and astep :: "'b \<Rightarrow> 'c \<Rightarrow> 'd \<Rightarrow> 'd"
  assumes step_view: "step s q r s' \<Longrightarrow> inv s \<Longrightarrow> view s' = astep q r (view s)"
begin

lemma run_view: "service_run step s0 h s \<Longrightarrow> inv s0 \<Longrightarrow> view s = fold (\<lambda>(q, r). astep q r) h (view s0)"
  by (induction rule: service_run.induct) (auto dest: run_inv step_view)

end

end
