(* ===== verification/Display_User_Zones.thy ===== *)
theory Display_User_Zones
  imports Account_File_Operator Service_Runs
begin

text \<open>
  The configuration of user zones
  (\<open>services/accountmgr/src/osaccount/display_user_zone_config/display_user_zone_config_manager.cpp\<close>): which
  displays belong together and which of them is the primary one. The file is XML; libxml2 is a parameter that turns the
  text into a tree and gives the text content of a node. The configuration policy library, which may name
  another path, is a parameter too. The maps of the class are ordered maps; \<open>zone_state\<close> is the class.
\<close>

section \<open>The parameters and the state\<close>

datatype xml_node = XmlNode (is_element: bool) (xml_name: string) (xml_children: "xml_node list")

text \<open>\<open>xmlReadMemory\<close> answers \<open>None\<close> for no document and \<open>Some None\<close> for one without a root element.\<close>

record zone_env =
  xmlReadMemory :: "string \<Rightarrow> xml_node option option"
  xmlNodeGetContent :: "xml_node \<Rightarrow> string option"
  cfg_policy_path :: "string option"

record DisplayConfigInfo =
  dc_physicalId :: u64
  dc_logicalId :: u64
  dc_name :: string
  dc_userZone :: u64
  dc_userZoneId :: u64
  dc_hasPhysicalId :: bool
  dc_hasLogicalId :: bool
  dc_hasUserZoneId :: bool

definition DisplayConfigInfo_init :: DisplayConfigInfo where
  "DisplayConfigInfo_init = \<lparr>dc_physicalId = 0, dc_logicalId = 0, dc_name = [], dc_userZone = 0, dc_userZoneId = 0,
     dc_hasPhysicalId = False, dc_hasLogicalId = False, dc_hasUserZoneId = False\<rparr>"

record zone_state =
  logicalIdMap :: "(u64, DisplayConfigInfo) smap"
  userZoneMap :: "(u64, u64 list) smap"
  userZonePrimaryMap :: "(u64, u64) smap"
  configReadFailed :: bool
  configFormatError :: bool

definition ClearParsedData :: "zone_state \<Rightarrow> zone_state" where
  "ClearParsedData z = z\<lparr>logicalIdMap := [], userZoneMap := [], userZonePrimaryMap := []\<rparr>"

section \<open>Values in the file\<close>

definition white_space :: "char \<Rightarrow> bool" where
  "white_space c \<longleftrightarrow> of_char c \<in> {32, 9, 13, 10, 12, 11 :: nat}"

definition TrimConfigValue :: "string \<Rightarrow> string" where
  "TrimConfigValue value = rev (dropWhile white_space (rev (dropWhile white_space value)))"

definition ParseUInt64 :: "string \<Rightarrow> u64 \<Rightarrow> bool \<times> u64" where
  "ParseUInt64 value result =
     (let trimmed = TrimConfigValue value in
      if trimmed = [] then (False, result)
      else let (result, ok, n) = from_chars trimmed result in (ok \<and> n = length trimmed, result))"

section \<open>Reading the tree\<close>

definition FindDisplaysNode :: "xml_node option \<Rightarrow> xml_node option" where
  "FindDisplaysNode root =
     (case root of None \<Rightarrow> None
      | Some r \<Rightarrow> if xml_name r \<noteq> ''Configs'' then None
                  else find (\<lambda>n. is_element n \<and> xml_name n = ''displays'') (xml_children r))"

text \<open>\<open>ParseDisplayNodeAttributes\<close>: its loop over the children, then the check that both ids are there.\<close>

fun attribute_loop :: "zone_env \<Rightarrow> xml_node list \<Rightarrow> DisplayConfigInfo \<Rightarrow> ErrCode \<times> DisplayConfigInfo" where
  "attribute_loop Z [] info = (ERR_OK, info)"
| "attribute_loop Z (c # cs) info =
     (if \<not> is_element c then attribute_loop Z cs info
      else let name = xml_name c; value = or_keep (xmlNodeGetContent Z c) [] in
      if name = ''physicalId''
      then let (ok, v) = ParseUInt64 value (dc_physicalId info) in
           if dc_hasPhysicalId info \<or> \<not> ok then (ERR_ACCOUNT_COMMON_BAD_JSON_FORMAT_ERROR, info)
           else attribute_loop Z cs (info\<lparr>dc_physicalId := v, dc_hasPhysicalId := True\<rparr>)
      else if name = ''logicalId''
      then let (ok, v) = ParseUInt64 value (dc_logicalId info) in
           if dc_hasLogicalId info \<or> \<not> ok then (ERR_ACCOUNT_COMMON_BAD_JSON_FORMAT_ERROR, info)
           else attribute_loop Z cs (info\<lparr>dc_logicalId := v, dc_hasLogicalId := True\<rparr>)
      else if name = ''name'' then attribute_loop Z cs (info\<lparr>dc_name := value\<rparr>)
      else if name = ''userZoneId''
      then let (ok, v) = ParseUInt64 value (dc_userZoneId info) in
           if dc_hasUserZoneId info \<or> \<not> ok then (ERR_ACCOUNT_COMMON_BAD_JSON_FORMAT_ERROR, info)
           else attribute_loop Z cs (info\<lparr>dc_userZoneId := v, dc_hasUserZoneId := True\<rparr>)
      else attribute_loop Z cs info)"

definition ParseDisplayNodeAttributes :: "zone_env \<Rightarrow> xml_node \<Rightarrow> DisplayConfigInfo \<Rightarrow> ErrCode \<times> DisplayConfigInfo" where
  "ParseDisplayNodeAttributes Z node info =
     (let (errCode, info) = attribute_loop Z (xml_children node) info in
      if errCode \<noteq> ERR_OK then (errCode, info)
      else if \<not> dc_hasPhysicalId info \<or> \<not> dc_hasLogicalId info then (ERR_ACCOUNT_COMMON_BAD_JSON_FORMAT_ERROR, info)
      else (ERR_OK, info))"

text \<open>\<open>CollectDisplayNodes\<close> on the children of the node: the displays and the map from physical to logical ids.\<close>

fun CollectDisplayNodes ::
  "zone_env \<Rightarrow> xml_node list \<Rightarrow> DisplayConfigInfo list \<Rightarrow> (u64, u64) smap
     \<Rightarrow> ErrCode \<times> DisplayConfigInfo list \<times> (u64, u64) smap" where
  "CollectDisplayNodes Z [] displays physicalToLogical = (ERR_OK, displays, physicalToLogical)"
| "CollectDisplayNodes Z (node # nodes) displays physicalToLogical =
     (if \<not> is_element node \<or> xml_name node \<noteq> ''display'' then CollectDisplayNodes Z nodes displays physicalToLogical
      else let (errCode, info) = ParseDisplayNodeAttributes Z node DisplayConfigInfo_init in
      if errCode \<noteq> ERR_OK then (errCode, displays, physicalToLogical)
      else if map_of physicalToLogical (dc_physicalId info) \<noteq> None
      then (ERR_ACCOUNT_COMMON_BAD_JSON_FORMAT_ERROR, displays, physicalToLogical)
      else CollectDisplayNodes Z nodes (displays @ [info])
             (sm_put (dc_physicalId info) (dc_logicalId info) physicalToLogical))"

definition add_display :: "DisplayConfigInfo \<Rightarrow> zone_state \<Rightarrow> zone_state" where
  "add_display resolved z =
     (let z1 = z\<lparr>logicalIdMap := sm_put (dc_logicalId resolved) resolved (logicalIdMap z),
                 userZoneMap := sm_put (dc_userZone resolved)
                   (or_keep (map_of (userZoneMap z) (dc_userZone resolved)) [] @ [dc_logicalId resolved]) (userZoneMap z)\<rparr> in
      if dc_userZone resolved = dc_logicalId resolved
      then z1\<lparr>userZonePrimaryMap := sm_put (dc_userZone resolved) (dc_logicalId resolved) (userZonePrimaryMap z1)\<rparr>
      else z1)"

fun ResolveDisplayUserZones ::
  "(u64, u64) smap \<Rightarrow> DisplayConfigInfo list \<Rightarrow> zone_state \<Rightarrow> ErrCode \<times> zone_state" where
  "ResolveDisplayUserZones physicalToLogical [] z = (ERR_OK, z)"
| "ResolveDisplayUserZones physicalToLogical (info # infos) z =
     (if map_of (logicalIdMap z) (dc_logicalId info) \<noteq> None
      then (ERR_ACCOUNT_COMMON_BAD_JSON_FORMAT_ERROR, ClearParsedData z)
      else if dc_hasUserZoneId info
      then (case map_of physicalToLogical (dc_userZoneId info) of
              None \<Rightarrow> (ERR_ACCOUNT_COMMON_BAD_JSON_FORMAT_ERROR, ClearParsedData z)
            | Some l \<Rightarrow> ResolveDisplayUserZones physicalToLogical infos (add_display (info\<lparr>dc_userZone := l\<rparr>) z))
      else ResolveDisplayUserZones physicalToLogical infos (add_display (info\<lparr>dc_userZone := dc_logicalId info\<rparr>) z))"

definition ParseDisplayNodes :: "zone_env \<Rightarrow> xml_node \<Rightarrow> zone_state \<Rightarrow> ErrCode \<times> zone_state" where
  "ParseDisplayNodes Z root z =
     (let (errCode, displays, physicalToLogical) = CollectDisplayNodes Z (xml_children root) [] [] in
      if errCode \<noteq> ERR_OK then (errCode, ClearParsedData z)
      else ResolveDisplayUserZones physicalToLogical displays z)"

definition ValidateParsedConfig :: "zone_state \<Rightarrow> ErrCode" where
  "ValidateParsedConfig z =
     (if userZonePrimaryMap z = [] then ERR_ACCOUNT_COMMON_BAD_JSON_FORMAT_ERROR
      else if list_all (\<lambda>(_, info). dc_userZone info = dc_logicalId info
                \<or> (case map_of (logicalIdMap z) (dc_userZone info) of
                     None \<Rightarrow> False
                   | Some p \<Rightarrow> dc_userZone p = dc_logicalId p)) (logicalIdMap z)
      then ERR_OK else ERR_ACCOUNT_COMMON_BAD_JSON_FORMAT_ERROR)"

definition FinalizeParsedConfig :: "zone_state \<Rightarrow> ErrCode \<times> zone_state" where
  "FinalizeParsedConfig z =
     (let errCode = ValidateParsedConfig z in if errCode \<noteq> ERR_OK then (errCode, ClearParsedData z) else (ERR_OK, z))"

definition ParseDisplayConfig :: "zone_env \<Rightarrow> string \<Rightarrow> zone_state \<Rightarrow> ErrCode \<times> zone_state" where
  "ParseDisplayConfig Z content z =
     (case xmlReadMemory Z content of
        None \<Rightarrow> (ERR_ACCOUNT_COMMON_BAD_JSON_FORMAT_ERROR, ClearParsedData z)
      | Some doc \<Rightarrow>
          (case FindDisplaysNode doc of
             None \<Rightarrow> (ERR_ACCOUNT_COMMON_BAD_JSON_FORMAT_ERROR, ClearParsedData z)
           | Some displaysNode \<Rightarrow>
               let (errCode, z1) = ParseDisplayNodes Z displaysNode z in
               if errCode \<noteq> ERR_OK then (errCode, ClearParsedData z1) else FinalizeParsedConfig z1))"

section \<open>Loading and asking\<close>

definition DISPLAY_MANAGER_CONFIG_RELATIVE_PATH :: string where
  "DISPLAY_MANAGER_CONFIG_RELATIVE_PATH = ''etc/window/resources/display_manager_config.xml''"

definition zone_config_path :: "zone_env \<Rightarrow> string" where
  "zone_config_path Z =
     (case cfg_policy_path Z of
        Some path \<Rightarrow> if path \<noteq> [] then path else ''/system/'' @ DISPLAY_MANAGER_CONFIG_RELATIVE_PATH
      | None \<Rightarrow> ''/system/'' @ DISPLAY_MANAGER_CONFIG_RELATIVE_PATH)"

type_synonym 'a zone_op = "zone_state \<times> fs_state \<Rightarrow> 'a \<times> zone_state \<times> fs_state"

definition LoadConfigLocked :: "'z file_env_scheme \<Rightarrow> zone_env \<Rightarrow> ErrCode zone_op" where
  "LoadConfigLocked E Z = (\<lambda>(z, fs).
     let z0 = (ClearParsedData z)\<lparr>configReadFailed := False, configFormatError := False\<rparr>;
         ((errCode, content), fs1) = GetFileContentByPath E (zone_config_path Z) [] fs in
     if errCode \<noteq> ERR_OK then (errCode, (ClearParsedData z0)\<lparr>configReadFailed := True\<rparr>, fs1)
     else let (errCode, z1) = ParseDisplayConfig Z content z0 in
     if errCode \<noteq> ERR_OK then (errCode, z1\<lparr>configFormatError := True\<rparr>, fs1) else (ERR_OK, z1, fs1))"

definition Init_zones :: "'z file_env_scheme \<Rightarrow> zone_env \<Rightarrow> ErrCode zone_op" where
  "Init_zones E Z = (\<lambda>(z, fs). LoadConfigLocked E Z (z\<lparr>configReadFailed := False, configFormatError := False\<rparr>, fs))"

definition EnsureConfigReady :: "'z file_env_scheme \<Rightarrow> zone_env \<Rightarrow> ErrCode zone_op" where
  "EnsureConfigReady E Z = (\<lambda>(z, fs).
     if configFormatError z then (ERR_ACCOUNT_COMMON_BAD_JSON_FORMAT_ERROR, z, fs)
     else if \<not> configReadFailed z then (ERR_OK, z, fs)
     else let (errCode, z1, fs1) = LoadConfigLocked E Z (z, fs) in
     if errCode = ERR_OK then (ERR_OK, z1, fs1)
     else if configFormatError z1 then (ERR_ACCOUNT_COMMON_BAD_JSON_FORMAT_ERROR, z1, fs1)
     else (ERR_ACCOUNT_COMMON_FILE_READ_FAILED, z1, fs1))"

text \<open>A question returns its code and, when the output parameter was set, the answer.\<close>

definition IsDisplayPrimary :: "'z file_env_scheme \<Rightarrow> zone_env \<Rightarrow> u64 \<Rightarrow> (ErrCode \<times> bool option) zone_op" where
  "IsDisplayPrimary E Z d s =
     (let (errCode, z, fs) = EnsureConfigReady E Z s in
      if errCode \<noteq> ERR_OK then ((errCode, None), z, fs)
      else case map_of (logicalIdMap z) d of
             None \<Rightarrow> ((ERR_OK, Some True), z, fs)
           | Some info \<Rightarrow> ((ERR_OK, Some (dc_logicalId info = dc_userZone info)), z, fs))"

definition GetPrimaryDisplayId :: "'z file_env_scheme \<Rightarrow> zone_env \<Rightarrow> u64 \<Rightarrow> (ErrCode \<times> u64 option) zone_op" where
  "GetPrimaryDisplayId E Z d s =
     (let (errCode, z, fs) = EnsureConfigReady E Z s in
      if errCode \<noteq> ERR_OK then ((errCode, None), z, fs)
      else case map_of (logicalIdMap z) d of
             None \<Rightarrow> ((ERR_OK, Some d), z, fs)
           | Some info \<Rightarrow>
               (case map_of (userZonePrimaryMap z) (dc_userZone info) of
                  None \<Rightarrow> ((ERR_ACCOUNT_COMMON_DISPLAY_ID_NOT_EXIST_ERROR, None), z, fs)
                | Some p \<Rightarrow> if map_of (logicalIdMap z) p = None
                            then ((ERR_ACCOUNT_COMMON_DISPLAY_ID_NOT_EXIST_ERROR, None), z, fs)
                            else ((ERR_OK, Some p), z, fs)))"

definition GetDisplayIdsByLogicalId :: "'z file_env_scheme \<Rightarrow> zone_env \<Rightarrow> u64 \<Rightarrow> (ErrCode \<times> u64 list) zone_op" where
  "GetDisplayIdsByLogicalId E Z d s =
     (let (errCode, z, fs) = EnsureConfigReady E Z s in
      if errCode \<noteq> ERR_OK then ((errCode, []), z, fs)
      else case map_of (logicalIdMap z) d of
             None \<Rightarrow> ((ERR_OK, [d]), z, fs)
           | Some info \<Rightarrow>
               (case map_of (userZoneMap z) (dc_userZone info) of
                  None \<Rightarrow> ((ERR_OK, []), z, fs)
                | Some ds \<Rightarrow>
                    ((ERR_OK, List.map_filter (\<lambda>x. map_option dc_logicalId (map_of (logicalIdMap z) x)) ds), z, fs)))"

section \<open>Numbers\<close>

lemma ParseUInt64_iff:
  "fst (ParseUInt64 s v) \<longleftrightarrow> TrimConfigValue s \<noteq> [] \<and> list_all is_digit (TrimConfigValue s) \<and> dec_val (TrimConfigValue s) < 2 ^ 64"
proof -
  obtain w ok n where f: "from_chars (TrimConfigValue s) v = (w, ok, n)" by (metis prod_cases3)
  show ?thesis using from_chars_all [OF f] by (auto simp: ParseUInt64_def Let_def f)
qed

lemma ParseUInt64_value:
  assumes "fst (ParseUInt64 s v)"
  shows "snd (ParseUInt64 s v) = of_nat (dec_val (TrimConfigValue s))"
proof -
  from assms have "TrimConfigValue s \<noteq> []" "list_all is_digit (TrimConfigValue s)" "dec_val (TrimConfigValue s) < 2 ^ 64"
    by (simp_all add: ParseUInt64_iff)
  then show ?thesis by (simp add: ParseUInt64_def Let_def from_chars_def digits_all(1))
qed

lemma digit_not_white: "is_digit c \<Longrightarrow> \<not> white_space c"
  by (auto simp: is_digit_def white_space_def)

lemma Trim_padded:
  assumes "list_all white_space l" and "list_all white_space r" and "s \<noteq> []" and "list_all is_digit s"
  shows "TrimConfigValue (l @ s @ r) = s"
proof -
  have drop: "dropWhile white_space (xs @ ys) = ys" if "list_all white_space xs" "ys = [] \<or> \<not> white_space (hd ys)" for xs ys
    using that by (induction xs) (auto simp: dropWhile_eq_self_iff)
  have "\<not> white_space (hd (s @ r))" "\<not> white_space (hd (rev s))"
    using assms(3,4) digit_not_white by (simp_all add: list_all_iff hd_rev)
  then show ?thesis using drop [of l "s @ r"] drop [of "rev r" "rev s"] assms(1,2) by (simp add: TrimConfigValue_def)
qed

section \<open>The parsed zones\<close>

definition zone_members :: "zone_state \<Rightarrow> u64 \<Rightarrow> u64 set" where
  "zone_members z n = {d. \<exists>info. map_of (logicalIdMap z) d = Some info \<and> dc_userZone info = n}"

definition parsed_ok :: "zone_state \<Rightarrow> bool" where
  "parsed_ok z \<longleftrightarrow> (\<forall>d info. map_of (logicalIdMap z) d = Some info \<longrightarrow> dc_logicalId info = d)
     \<and> (\<forall>n p. map_of (userZonePrimaryMap z) n = Some p \<longleftrightarrow> p = n \<and> n \<in> zone_members z n)
     \<and> (\<forall>n. set (or_keep (map_of (userZoneMap z) n) []) = zone_members z n \<and> distinct (or_keep (map_of (userZoneMap z) n) []))"

text \<open>The invariant of the class: every display belongs to a zone whose primary display is in that zone.\<close>

definition zones_ok :: "zone_state \<Rightarrow> bool" where
  "zones_ok z \<longleftrightarrow> parsed_ok z
     \<and> (\<forall>d info. map_of (logicalIdMap z) d = Some info \<longrightarrow> dc_userZone info \<in> zone_members z (dc_userZone info))"

lemma zones_ok_empty [simp]:
  "logicalIdMap z = [] \<Longrightarrow> userZoneMap z = [] \<Longrightarrow> userZonePrimaryMap z = [] \<Longrightarrow> zones_ok z"
  by (simp add: zones_ok_def parsed_ok_def zone_members_def or_keep_def)

lemma cleared_ok [simp]: "zones_ok (ClearParsedData z)"
  by (simp add: ClearParsedData_def)

lemma zones_ok_flags [simp]:
  "zones_ok (z\<lparr>configReadFailed := a\<rparr>) = zones_ok z" "zones_ok (z\<lparr>configFormatError := a\<rparr>) = zones_ok z"
  by (simp_all add: zones_ok_def parsed_ok_def zone_members_def)

lemma add_display_members:
  assumes "map_of (logicalIdMap z) (dc_logicalId i) = None"
  shows "zone_members (add_display i z) n = (if n = dc_userZone i then insert (dc_logicalId i) (zone_members z n) else zone_members z n)"
  using assms by (auto simp: zone_members_def add_display_def Let_def simp del: map_of_eq_Some_iff)

lemma add_display_parsed:
  assumes "parsed_ok z" and "map_of (logicalIdMap z) (dc_logicalId i) = None"
  shows "parsed_ok (add_display i z)"
proof -
  have "dc_logicalId i \<notin> zone_members z n" for n using assms(2) by (simp add: zone_members_def)
  moreover have "map_of (userZoneMap (add_display i z)) n = (if n = dc_userZone i
      then Some (or_keep (map_of (userZoneMap z) n) [] @ [dc_logicalId i]) else map_of (userZoneMap z) n)" for n
    by (simp add: add_display_def Let_def)
  moreover have "map_of (userZonePrimaryMap (add_display i z)) n = (if n = dc_userZone i \<and> dc_userZone i = dc_logicalId i
      then Some n else map_of (userZonePrimaryMap z) n)" for n
    by (simp add: add_display_def Let_def)
  moreover have "map_of (logicalIdMap (add_display i z)) d = (if d = dc_logicalId i then Some i else map_of (logicalIdMap z) d)" for d
    by (simp add: add_display_def Let_def)
  ultimately show ?thesis
    using assms(1) unfolding parsed_ok_def add_display_members [OF assms(2)]
    by (auto simp: or_keep_def simp del: map_of_eq_Some_iff split: if_splits)
qed

lemma Resolve_spec:
  "parsed_ok z \<Longrightarrow> ResolveDisplayUserZones m infos z = (r, z') \<Longrightarrow> parsed_ok z'"
proof (induction infos arbitrary: z)
  case (Cons i infos)
  have "parsed_ok (ClearParsedData z)" using cleared_ok by (simp add: zones_ok_def)
  moreover have "parsed_ok (add_display (i\<lparr>dc_userZone := n\<rparr>) z)" if "map_of (logicalIdMap z) (dc_logicalId i) = None" for n
    using add_display_parsed [OF Cons.prems(1)] that by simp
  ultimately show ?case
    using Cons.prems(2) Cons.IH by (auto split: if_splits option.splits)
qed auto

lemma Validate_closed:
  assumes "parsed_ok z" and "ValidateParsedConfig z = ERR_OK"
  shows "zones_ok z"
proof -
  have "dc_userZone info \<in> zone_members z (dc_userZone info)" if i: "map_of (logicalIdMap z) d = Some info" for d info
  proof -
    have "(d, info) \<in> set (logicalIdMap z)" using i by (rule map_of_SomeD)
    then have "dc_userZone info = dc_logicalId info
      \<or> (\<exists>p. map_of (logicalIdMap z) (dc_userZone info) = Some p \<and> dc_userZone p = dc_logicalId p)"
      using assms(2) by (auto simp: ValidateParsedConfig_def list_all_iff split: if_splits option.splits)
    moreover have "dc_logicalId x = k" if "map_of (logicalIdMap z) k = Some x" for k x
      using assms(1) that unfolding parsed_ok_def by blast
    ultimately show ?thesis using i by (auto simp: zone_members_def simp del: map_of_eq_Some_iff)
  qed
  with assms(1) show ?thesis by (simp add: zones_ok_def)
qed

text \<open>Parsing answers with success or a format error and leaves the flags alone.\<close>

abbreviation format_code :: "ErrCode \<Rightarrow> bool" where
  "format_code r \<equiv> r = ERR_OK \<or> r = ERR_ACCOUNT_COMMON_BAD_JSON_FORMAT_ERROR"

abbreviation same_flags :: "zone_state \<Rightarrow> zone_state \<Rightarrow> bool" where
  "same_flags z z' \<equiv> configReadFailed z' = configReadFailed z \<and> configFormatError z' = configFormatError z"

lemma attribute_code: "format_code (fst (attribute_loop Z cs info))"
  by (induction Z cs info rule: attribute_loop.induct) (auto simp: Let_def split: prod.splits)

lemma Attributes_code: "ParseDisplayNodeAttributes Z n info = (r, i) \<Longrightarrow> format_code r"
  using attribute_code [of Z "xml_children n" info]
  by (auto simp: ParseDisplayNodeAttributes_def Let_def split: prod.splits if_splits)

lemma Collect_code: "CollectDisplayNodes Z ns ds m = (r, ds', m') \<Longrightarrow> format_code r"
  by (induction Z ns ds m rule: CollectDisplayNodes.induct)
    (auto simp: Let_def split: prod.splits if_splits dest: Attributes_code)

lemma cleared_flags [simp]: "same_flags z (ClearParsedData z)"
  by (simp add: ClearParsedData_def)

lemma Resolve_flags: "ResolveDisplayUserZones m infos z = (r, z') \<Longrightarrow> same_flags z z' \<and> format_code r"
proof (induction m infos z rule: ResolveDisplayUserZones.induct)
  case (2 m i infos z)
  have "same_flags z (add_display x z)" for x by (simp add: add_display_def Let_def)
  with 2 show ?case by (auto split: if_splits option.splits)
qed auto

lemma Parse_spec:
  assumes "zones_ok z" and "ParseDisplayConfig Z s z = (r, z')"
  shows "zones_ok z' \<and> same_flags z z' \<and> format_code r"
proof -
  have "parsed_ok z'' \<and> same_flags z z'' \<and> format_code e" if p: "ParseDisplayNodes Z n z = (e, z'')" for n e z''
  proof -
    obtain c ds m where c: "CollectDisplayNodes Z (xml_children n) [] [] = (c, ds, m)" by (metis prod_cases3)
    have "parsed_ok (ClearParsedData z)" "parsed_ok z" using assms(1) cleared_ok by (simp_all add: zones_ok_def)
    then show ?thesis
      using p Collect_code [OF c] Resolve_spec [of z m ds e z''] Resolve_flags [of m ds z e z'']
      by (auto simp: ParseDisplayNodes_def c split: if_splits)
  qed
  moreover have "format_code (ValidateParsedConfig y)" for y by (simp add: ValidateParsedConfig_def)
  ultimately show ?thesis
    using assms(2)
    by (auto simp: ParseDisplayConfig_def FinalizeParsedConfig_def Let_def intro: Validate_closed
        split: option.splits prod.splits if_splits)
qed

text \<open>The states of the class: the flags exclude each other, and a flag that is set leaves no zones.\<close>

definition zone_inv :: "zone_state \<Rightarrow> bool" where
  "zone_inv z \<longleftrightarrow> zones_ok z \<and> \<not> (configReadFailed z \<and> configFormatError z)"

lemma Load_spec:
  assumes "LoadConfigLocked E Z (z, fs) = (r, z', fs')"
  shows "zone_inv z' \<and> fs_files fs' = fs_files fs
    \<and> (r = ERR_OK \<longleftrightarrow> \<not> configReadFailed z' \<and> \<not> configFormatError z')"
proof -
  let ?z0 = "(ClearParsedData z)\<lparr>configReadFailed := False, configFormatError := False\<rparr>"
  obtain e s fs1 where 1: "GetFileContentByPath E (zone_config_path Z) [] fs = ((e, s), fs1)" by (metis prod.collapse)
  obtain e2 z2 where 2: "ParseDisplayConfig Z s ?z0 = (e2, z2)" by (metis prod.collapse)
  have "fs_files fs1 = fs_files fs" using GetFileContentByPath_files [of E "zone_config_path Z" "[]" fs] 1 by simp
  with Parse_spec [OF _ 2] assms show ?thesis
    by (auto simp: LoadConfigLocked_def 1 2 zone_inv_def Let_def split: if_splits)
qed

lemma Ensure_spec:
  assumes "zone_inv z" and "EnsureConfigReady E Z (z, fs) = (r, z', fs')"
  shows "zone_inv z' \<and> fs_files fs' = fs_files fs
    \<and> (if r = ERR_OK then \<not> configReadFailed z' \<and> \<not> configFormatError z'
       else r = (if configFormatError z' then ERR_ACCOUNT_COMMON_BAD_JSON_FORMAT_ERROR else ERR_ACCOUNT_COMMON_FILE_READ_FAILED))"
  using assms Load_spec [of E Z z fs]
  by (auto simp: EnsureConfigReady_def Let_def split: if_splits prod.splits)

lemma Ensure_again: "\<not> configReadFailed z \<Longrightarrow> \<not> configFormatError z \<Longrightarrow> EnsureConfigReady E Z (z, fs) = (ERR_OK, z, fs)"
  by (simp add: EnsureConfigReady_def)

section \<open>The answers\<close>

text \<open>What the configuration means: each display has a primary one, itself when the file does not name it.\<close>

definition primary_of :: "zone_state \<Rightarrow> u64 \<Rightarrow> u64" where
  "primary_of z d = (case map_of (logicalIdMap z) d of None \<Rightarrow> d | Some info \<Rightarrow> dc_userZone info)"

lemma zone_of_known:
  assumes "zones_ok z" and "map_of (logicalIdMap z) d = Some info"
  shows "dc_logicalId info = d" "map_of (userZonePrimaryMap z) (dc_userZone info) = Some (dc_userZone info)"
    and "\<exists>p. map_of (logicalIdMap z) (dc_userZone info) = Some p \<and> dc_userZone p = dc_userZone info"
    and "\<exists>ds. map_of (userZoneMap z) (dc_userZone info) = Some ds \<and> distinct ds \<and> set ds = zone_members z (dc_userZone info)"
proof -
  let ?u = "dc_userZone info"
  have u: "?u \<in> zone_members z ?u" using assms unfolding zones_ok_def by blast
  have p: "parsed_ok z" using assms(1) by (simp add: zones_ok_def)
  show "dc_logicalId info = d" using p assms(2) unfolding parsed_ok_def by blast
  show "map_of (userZonePrimaryMap z) ?u = Some ?u" using p u unfolding parsed_ok_def by blast
  show "\<exists>p. map_of (logicalIdMap z) ?u = Some p \<and> dc_userZone p = ?u" using u unfolding zone_members_def by blast
  have "set (or_keep (map_of (userZoneMap z) ?u) []) = zone_members z ?u \<and> distinct (or_keep (map_of (userZoneMap z) ?u) [])"
    using p unfolding parsed_ok_def by blast
  with u show "\<exists>ds. map_of (userZoneMap z) ?u = Some ds \<and> distinct ds \<and> set ds = zone_members z ?u"
    by (cases "map_of (userZoneMap z) ?u") (auto simp: or_keep_def)
qed

lemma primary_of_idem:
  assumes "zones_ok z"
  shows "primary_of z (primary_of z d) = primary_of z d"
proof (cases "map_of (logicalIdMap z) d")
  case (Some info)
  with zone_of_known(3) [OF assms Some] show ?thesis by (auto simp: primary_of_def)
qed (simp add: primary_of_def)

lemma map_filter_id: "(\<And>x. x \<in> set xs \<Longrightarrow> f x = Some x) \<Longrightarrow> List.map_filter f xs = xs"
  by (induction xs) (simp_all add: map_filter_simps)

lemma zone_answers:
  assumes "zones_ok z" and "EnsureConfigReady E Z s = (ERR_OK, z, fs)"
  shows "GetPrimaryDisplayId E Z d s = ((ERR_OK, Some (primary_of z d)), z, fs)"
    and "IsDisplayPrimary E Z d s = ((ERR_OK, Some (primary_of z d = d)), z, fs)"
    and "\<exists>ds. GetDisplayIdsByLogicalId E Z d s = ((ERR_OK, ds), z, fs) \<and> distinct ds
      \<and> set ds = (if map_of (logicalIdMap z) d = None then {d} else {x \<in> dom (map_of (logicalIdMap z)). primary_of z x = primary_of z d})"
proof -
  show "GetPrimaryDisplayId E Z d s = ((ERR_OK, Some (primary_of z d)), z, fs)"
    using zone_of_known [OF assms(1), of d] assms(2)
    by (cases "map_of (logicalIdMap z) d") (auto simp: GetPrimaryDisplayId_def primary_of_def)
  show "IsDisplayPrimary E Z d s = ((ERR_OK, Some (primary_of z d = d)), z, fs)"
    using zone_of_known(1) [OF assms(1), of d] assms(2)
    by (cases "map_of (logicalIdMap z) d") (auto simp: IsDisplayPrimary_def primary_of_def)
  show "\<exists>ds. GetDisplayIdsByLogicalId E Z d s = ((ERR_OK, ds), z, fs) \<and> distinct ds
      \<and> set ds = (if map_of (logicalIdMap z) d = None then {d} else {x \<in> dom (map_of (logicalIdMap z)). primary_of z x = primary_of z d})"
  proof (cases "map_of (logicalIdMap z) d")
    case None
    then show ?thesis using assms(2) by (simp add: GetDisplayIdsByLogicalId_def)
  next
    case (Some info)
    then obtain ds where ds: "map_of (userZoneMap z) (dc_userZone info) = Some ds" "distinct ds" "set ds = zone_members z (dc_userZone info)"
      using zone_of_known(4) [OF assms(1)] by blast
    have "map_option dc_logicalId (map_of (logicalIdMap z) x) = Some x" if "x \<in> set ds" for x
      using that ds(3) zone_of_known(1) [OF assms(1), of x] by (auto simp: zone_members_def simp del: map_of_eq_Some_iff)
    then have "List.map_filter (\<lambda>x. map_option dc_logicalId (map_of (logicalIdMap z) x)) ds = ds"
      by (rule map_filter_id)
    moreover have "set ds = {x \<in> dom (map_of (logicalIdMap z)). primary_of z x = primary_of z d}"
      using ds(3) Some by (auto simp: zone_members_def primary_of_def dom_def simp del: map_of_eq_Some_iff)
    ultimately show ?thesis using ds Some assms(2) by (simp add: GetDisplayIdsByLogicalId_def)
  qed
qed

lemma ParseUInt64_text:
  assumes "list_all white_space l" and "list_all white_space r" and "n < 2 ^ 64"
  shows "ParseUInt64 (l @ to_string_nat n @ r) v = (True, of_nat n)"
proof -
  have "TrimConfigValue (l @ to_string_nat n @ r) = to_string_nat n"
    using assms(1,2) by (rule Trim_padded) (auto simp: list_all_iff dest: to_string_digits)
  then show ?thesis
    using ParseUInt64_iff [of "l @ to_string_nat n @ r" v] ParseUInt64_value [of "l @ to_string_nat n @ r" v] assms(3)
    by (simp add: prod_eq_iff list_all_iff to_string_digits)
qed

section \<open>Runs\<close>

definition zone_init :: zone_state where
  "zone_init = \<lparr>logicalIdMap = [], userZoneMap = [], userZonePrimaryMap = [], configReadFailed = False, configFormatError = False\<rparr>"

datatype zone_request = Load | AskPrimary u64 | AskIfPrimary u64 | AskZone u64

fun run_zone_request :: "'z file_env_scheme \<Rightarrow> zone_env \<Rightarrow> zone_request \<Rightarrow> ErrCode zone_op" where
  "run_zone_request E Z Load s = Init_zones E Z s"
| "run_zone_request E Z (AskPrimary d) s = (let ((r, _), s') = GetPrimaryDisplayId E Z d s in (r, s'))"
| "run_zone_request E Z (AskIfPrimary d) s = (let ((r, _), s') = IsDisplayPrimary E Z d s in (r, s'))"
| "run_zone_request E Z (AskZone d) s = (let ((r, _), s') = GetDisplayIdsByLogicalId E Z d s in (r, s'))"

definition zone_step :: "'z file_env_scheme \<Rightarrow> zone_env \<Rightarrow> zone_state \<times> fs_state \<Rightarrow> zone_request \<Rightarrow> ErrCode
    \<Rightarrow> zone_state \<times> fs_state \<Rightarrow> bool" where
  "zone_step E Z s q r s' \<longleftrightarrow> run_zone_request E Z q s = (r, s')"

lemma zone_step_inv:
  assumes "zone_step E Z (z, fs) q r (z', fs')" and "zone_inv z"
  shows "zone_inv z' \<and> fs_files fs' = fs_files fs"
proof -
  obtain r1 z1 fs1 where 1: "Init_zones E Z (z, fs) = (r1, z1, fs1)" by (metis prod_cases3)
  obtain r2 z2 fs2 where 2: "EnsureConfigReady E Z (z, fs) = (r2, z2, fs2)" by (metis prod_cases3)
  have "zone_inv z1 \<and> fs_files fs1 = fs_files fs" using Load_spec [OF 1 [unfolded Init_zones_def, simplified]] by blast
  moreover have "zone_inv z2 \<and> fs_files fs2 = fs_files fs" using Ensure_spec [OF assms(2) 2] by blast
  ultimately show ?thesis
    using assms(1)
    by (cases q) (auto simp: zone_step_def 1 2 IsDisplayPrimary_def GetPrimaryDisplayId_def GetDisplayIdsByLogicalId_def
        split: option.splits if_splits)
qed

interpretation zone_config: service_invariant "zone_step E Z" "\<lambda>s. zone_inv (fst s) \<and> fs_files (snd s) = files"
  for E :: "'z file_env_scheme" and Z files
  by unfold_locales (use zone_step_inv in fastforce)

lemma zone_init_inv [simp]: "zone_inv zone_init" "zone_inv (zone_init\<lparr>configReadFailed := True\<rparr>)"
  by (simp_all add: zone_inv_def zone_init_def)

section \<open>Properties\<close>

text \<open>C34 (invariant). Loading the configuration, whatever the file holds and whichever call fails, and asking any of the three
  questions, in any order, leave the zones consistent: a display of the configuration is stored under its own id and is in
  the list of exactly one zone, that list holds it once, and the zone has a primary display that is in it. The files are not changed.\<close>

theorem zones_stay_consistent:
  assumes "service_run (zone_step E Z) (zone_init, fs) h (z, fs')"
  shows "fs_files fs' = fs_files fs
    \<and> (\<forall>d info. map_of (logicalIdMap z) d = Some info \<longrightarrow> dc_logicalId info = d
        \<and> (\<exists>ds. map_of (userZoneMap z) (dc_userZone info) = Some ds \<and> distinct ds \<and> d \<in> set ds \<and> dc_userZone info \<in> set ds)
        \<and> (\<forall>n ds. map_of (userZoneMap z) n = Some ds \<and> d \<in> set ds \<longrightarrow> n = dc_userZone info)
        \<and> map_of (userZonePrimaryMap z) (dc_userZone info) = Some (dc_userZone info))"
proof -
  have "zone_inv z \<and> fs_files fs' = fs_files fs" using zone_config.run_inv [OF assms, of "fs_files fs"] by simp
  then have inv: "zones_ok z" "fs_files fs' = fs_files fs" by (simp_all add: zone_inv_def)
  have zone: "set ds = zone_members z n" if "map_of (userZoneMap z) n = Some ds" for n ds
    using inv(1) that unfolding zones_ok_def parsed_ok_def by (metis or_keep_def option.simps(5))
  show ?thesis
  proof (intro conjI allI impI inv(2))
    fix d info assume i: "map_of (logicalIdMap z) d = Some info"
    note known = zone_of_known [OF inv(1) i]
    show "dc_logicalId info = d" "map_of (userZonePrimaryMap z) (dc_userZone info) = Some (dc_userZone info)" by (fact known(1,2))+
    show "\<exists>ds. map_of (userZoneMap z) (dc_userZone info) = Some ds \<and> distinct ds \<and> d \<in> set ds \<and> dc_userZone info \<in> set ds"
      using known(3,4) i by (auto simp: zone_members_def simp del: map_of_eq_Some_iff)
    fix n ds assume "map_of (userZoneMap z) n = Some ds \<and> d \<in> set ds"
    with zone i show "n = dc_userZone info" by (auto simp: zone_members_def simp del: map_of_eq_Some_iff)
  qed
qed

text \<open>C37 (functional). Once the configuration can be read, every display has a primary one: the question for it never
  fails, its answer is its own primary display, \<open>IsDisplayPrimary\<close> agrees with it, and the list of the
  zone holds the display and, of the displays in the configuration, those with the same primary display.\<close>

theorem zone_queries_agree:
  assumes "service_run (zone_step E Z) (zone_init, fs0) h (z, fs)" and "EnsureConfigReady E Z (z, fs) = (ERR_OK, z1, fs1)"
  shows "\<exists>p ds. GetPrimaryDisplayId E Z d (z, fs) = ((ERR_OK, Some p), z1, fs1)
    \<and> IsDisplayPrimary E Z d (z, fs) = ((ERR_OK, Some (p = d)), z1, fs1)
    \<and> GetPrimaryDisplayId E Z p (z1, fs1) = ((ERR_OK, Some p), z1, fs1)
    \<and> GetDisplayIdsByLogicalId E Z d (z, fs) = ((ERR_OK, ds), z1, fs1) \<and> distinct ds \<and> d \<in> set ds
    \<and> (\<forall>x. x \<in> set ds \<or> map_of (logicalIdMap z1) x \<noteq> None \<longrightarrow>
          (GetPrimaryDisplayId E Z x (z1, fs1) = ((ERR_OK, Some p), z1, fs1) \<longleftrightarrow> x \<in> set ds))"
proof -
  have "zone_inv z" using zone_config.run_inv [OF assms(1), of "fs_files fs0"] by simp
  from Ensure_spec [OF this assms(2)] have inv: "zones_ok z1" and flags: "\<not> configReadFailed z1" "\<not> configFormatError z1"
    by (simp_all add: zone_inv_def)
  note again = zone_answers(1) [OF inv Ensure_again [OF flags]]
  obtain ds where ds: "GetDisplayIdsByLogicalId E Z d (z, fs) = ((ERR_OK, ds), z1, fs1)" "distinct ds"
    "set ds = (if map_of (logicalIdMap z1) d = None then {d}
       else {x \<in> dom (map_of (logicalIdMap z1)). primary_of z1 x = primary_of z1 d})"
    using zone_answers(3) [OF inv assms(2)] by blast
  have unknown: "primary_of z1 x \<noteq> d" if "map_of (logicalIdMap z1) d = None" "map_of (logicalIdMap z1) x \<noteq> None" for x
    using zone_of_known(3) [OF inv, of x] that by (auto simp: primary_of_def simp del: map_of_eq_Some_iff)
  have "\<forall>x. x \<in> set ds \<or> map_of (logicalIdMap z1) x \<noteq> None \<longrightarrow> (primary_of z1 x = primary_of z1 d \<longleftrightarrow> x \<in> set ds)"
  proof (cases "map_of (logicalIdMap z1) d = None")
    case True
    then have "primary_of z1 d = d" by (simp add: primary_of_def)
    with True unknown [OF True] ds(3) show ?thesis by (metis insertI1 singletonD)
  next
    case False
    then have "set ds = {x \<in> dom (map_of (logicalIdMap z1)). primary_of z1 x = primary_of z1 d}" unfolding ds(3) by (rule if_not_P)
    then show ?thesis by (metis (mono_tags, lifting) domIff mem_Collect_eq)
  qed
  then have "\<forall>x. x \<in> set ds \<or> map_of (logicalIdMap z1) x \<noteq> None \<longrightarrow>
      (GetPrimaryDisplayId E Z x (z1, fs1) = ((ERR_OK, Some (primary_of z1 d)), z1, fs1) \<longleftrightarrow> x \<in> set ds)"
    unfolding again prod.inject option.inject by blast
  moreover have "d \<in> set ds" unfolding ds(3) by (simp add: domIff)
  moreover have "GetPrimaryDisplayId E Z (primary_of z1 d) (z1, fs1) = ((ERR_OK, Some (primary_of z1 d)), z1, fs1)"
    unfolding again primary_of_idem [OF inv] by (rule refl)
  ultimately show ?thesis using ds(1,2) zone_answers(1,2) [OF inv assms(2)] by blast
qed

section \<open>A configuration with two zones\<close>

abbreviation leaf :: "string \<Rightarrow> string \<Rightarrow> xml_node" where
  "leaf name text \<equiv> XmlNode True name [XmlNode False text []]"

definition demo_zones :: xml_node where
  "demo_zones = XmlNode True ''Configs'' [XmlNode True ''displays''
     [XmlNode True ''display'' [leaf ''physicalId'' ''10'', leaf ''logicalId'' '' 0 ''],
      XmlNode True ''display'' [leaf ''physicalId'' ''11'', leaf ''logicalId'' ''1'', leaf ''userZoneId'' ''10''],
      XmlNode True ''display'' [leaf ''physicalId'' ''12'', leaf ''logicalId'' ''2'', leaf ''name'' ''rear'']]]"

definition demo_zone_env :: zone_env where
  "demo_zone_env = \<lparr>xmlReadMemory = (\<lambda>s. if s = ''zones'' then Some (Some demo_zones) else None),
     xmlNodeGetContent = (\<lambda>n. case xml_children n of [t] \<Rightarrow> Some (xml_name t) | _ \<Rightarrow> None), cfg_policy_path = None\<rparr>"

definition demo_zone_fs :: fs_state where
  "demo_zone_fs = put_file (zone_config_path demo_zone_env) (Some ''zones'') empty_fs"

definition demo_parsed :: zone_state where
  "demo_parsed = snd (ParseDisplayConfig demo_zone_env ''zones'' zone_init)"

lemma demo_parse: "ParseDisplayConfig demo_zone_env ''zones'' zone_init = (ERR_OK, demo_parsed)"
proof -
  have "fst (ParseDisplayConfig demo_zone_env ''zones'' zone_init) = ERR_OK" by code_simp
  then show ?thesis by (simp add: demo_parsed_def prod_eq_iff)
qed

lemma demo_load: "\<exists>fs1. LoadConfigLocked quiet_env demo_zone_env (zone_init\<lparr>configReadFailed := b\<rparr>, demo_zone_fs) = (ERR_OK, demo_parsed, fs1)"
proof -
  have "\<exists>fs1. GetFileContentByPath quiet_env (zone_config_path demo_zone_env) [] demo_zone_fs = ((ERR_OK, ''zones''), fs1)"
    by (rule quiet_read)
      (simp_all add: os_quiet_def quiet_env_def demo_zone_fs_def zone_config_path_def demo_zone_env_def put_file_def MAX_FILE_SIZE_def)
  moreover have "(ClearParsedData (zone_init\<lparr>configReadFailed := b\<rparr>))\<lparr>configReadFailed := False, configFormatError := False\<rparr> = zone_init"
    by (simp add: zone_init_def ClearParsedData_def)
  ultimately show ?thesis by (auto simp: LoadConfigLocked_def demo_parse)
qed

lemma demo_zone_run:
  obtains fs1 where "service_run (zone_step quiet_env demo_zone_env) (zone_init, demo_zone_fs) [(Load, ERR_OK)] (demo_parsed, fs1)"
proof -
  obtain fs1 where "LoadConfigLocked quiet_env demo_zone_env (zone_init\<lparr>configReadFailed := False\<rparr>, demo_zone_fs) = (ERR_OK, demo_parsed, fs1)"
    using demo_load by blast
  then have "zone_step quiet_env demo_zone_env (zone_init, demo_zone_fs) Load ERR_OK (demo_parsed, fs1)"
    by (simp add: zone_step_def Init_zones_def zone_init_def)
  then have "service_run (zone_step quiet_env demo_zone_env) (zone_init, demo_zone_fs) ([] @ [(Load, ERR_OK)]) (demo_parsed, fs1)"
    unfolding service_run_snoc by auto
  then show ?thesis using that by simp
qed

theorem zones_stay_consistent_witness:
  "\<exists>ds. map fst (logicalIdMap demo_parsed) = [0, 1, 2] \<and> map_of (userZoneMap demo_parsed) 0 = Some ds \<and> distinct ds \<and> {0, 1} \<subseteq> set ds"
proof -
  obtain fs1 where run: "service_run (zone_step quiet_env demo_zone_env) (zone_init, demo_zone_fs) [(Load, ERR_OK)] (demo_parsed, fs1)"
    by (rule demo_zone_run)
  have keys: "map fst (logicalIdMap demo_parsed) = [0, 1, 2]"
    and u: "map_option dc_userZone (map_of (logicalIdMap demo_parsed) 1) = Some 0" by code_simp+
  from u obtain info where i: "map_of (logicalIdMap demo_parsed) 1 = Some info" "dc_userZone info = 0" by auto
  from zones_stay_consistent [OF run] i(1) have "\<exists>ds. map_of (userZoneMap demo_parsed) (dc_userZone info) = Some ds \<and> distinct ds
      \<and> 1 \<in> set ds \<and> dc_userZone info \<in> set ds" by blast
  with keys show ?thesis unfolding i(2) by auto
qed

theorem zone_queries_agree_witness:
  "\<exists>fs1. GetPrimaryDisplayId quiet_env demo_zone_env 1 (demo_parsed, fs1) = ((ERR_OK, Some 0), demo_parsed, fs1)
     \<and> GetDisplayIdsByLogicalId quiet_env demo_zone_env 1 (demo_parsed, fs1) = ((ERR_OK, [0, 1]), demo_parsed, fs1)"
proof -
  obtain fs1 where run: "service_run (zone_step quiet_env demo_zone_env) (zone_init, demo_zone_fs) [(Load, ERR_OK)] (demo_parsed, fs1)"
    by (rule demo_zone_run)
  have "configFormatError demo_parsed = False" "configReadFailed demo_parsed = False" by code_simp+
  then have e: "EnsureConfigReady quiet_env demo_zone_env (demo_parsed, fs1) = (ERR_OK, demo_parsed, fs1)" by (simp add: EnsureConfigReady_def)
  from zone_queries_agree [OF run this, of 1] obtain p ds where
    *: "GetPrimaryDisplayId quiet_env demo_zone_env 1 (demo_parsed, fs1) = ((ERR_OK, Some p), demo_parsed, fs1)"
    "GetDisplayIdsByLogicalId quiet_env demo_zone_env 1 (demo_parsed, fs1) = ((ERR_OK, ds), demo_parsed, fs1)" by blast
  have "map_option dc_userZone (map_of (logicalIdMap demo_parsed) 1) = Some 0" "map_of (userZonePrimaryMap demo_parsed) 0 = Some 0"
    "map_of (userZoneMap demo_parsed) 0 = Some [0, 1]"
    "List.map_filter (\<lambda>x. map_option dc_logicalId (map_of (logicalIdMap demo_parsed) x)) [0, 1] = [0, 1]" by code_simp+
  then have "p = 0" "ds = [0, 1]"
    using * e by (auto simp: GetPrimaryDisplayId_def GetDisplayIdsByLogicalId_def split: option.splits if_splits)
  with * show ?thesis by blast
qed

end
