(* ===== verification/Os_Account_Services.thy ===== *)
theory Os_Account_Services
  imports Os_Account_Info Display_User_Zones
begin

text \<open>
  The state of the manager of OS accounts (\<open>IInnerOsAccountManager\<close>) and its messages to other services
  (\<open>services/accountmgr/src/osaccount/os_account_interface.cpp\<close>). The ability manager, the storage manager, the
  identity manager, the domain account plugin, the display manager, the bundle manager and the plugin that locks an account are outside this
  part; each call to them is answered by a field of the environment at the number of calls made so far, so an answer may
  differ from one call to the next and any call may fail. The code waits until the ability manager calls back; that it
  does is assumed. Messages whose answer is dropped and whose
  effect is outside the service (\<open>SendToSamgrUserState\<close>, the notifications of the storage and bundle manager, the
  animation, traces, timers and reports) are left out. The waiting times between retries are left out too.
\<close>

section \<open>Environment and state\<close>

record osm_env = osi_env +
  MULTIPLE_ACTIVE :: bool
  MULTI_FOREGROUND :: bool
  STOP_MAIN :: bool
  U1_ACCOUNT :: bool
  ACTIVATE_LAST :: bool
  maxLoggedInOsAccountNum :: nat
  clock_s :: "nat \<Rightarrow> int"
  ams_start :: "int \<Rightarrow> u64 \<Rightarrow> bool \<Rightarrow> nat \<Rightarrow> ErrCode"
  ams_stop :: "int \<Rightarrow> nat \<Rightarrow> ErrCode"
  ams_logout :: "int \<Rightarrow> nat \<Rightarrow> ErrCode"
  ams_done :: "int \<Rightarrow> nat \<Rightarrow> int \<times> ErrCode"
  all_app_died :: "int \<Rightarrow> nat \<Rightarrow> bool"
  storage_ready :: "nat \<Rightarrow> bool"
  E_ACTIVE_EL2_FAILED :: ErrCode
  storage_encrypted :: "int \<Rightarrow> nat \<Rightarrow> ErrCode \<times> bool"
  storage_ActiveUserKey :: "int \<Rightarrow> nat \<Rightarrow> ErrCode"
  storage_PrepareStartUser :: "int \<Rightarrow> nat \<Rightarrow> ErrCode"
  storage_StopUser :: "int \<Rightarrow> nat \<Rightarrow> ErrCode"
  storage_InactiveUserKey :: "int \<Rightarrow> nat \<Rightarrow> ErrCode"
  storage_RemoveUser :: "int \<Rightarrow> nat \<Rightarrow> ErrCode"
  storage_CompleteAddUser :: "int \<Rightarrow> nat \<Rightarrow> ErrCode"
  idm_pin :: "int \<Rightarrow> nat \<Rightarrow> ErrCode \<times> bool"
  idm_EraseUser :: "int \<Rightarrow> nat \<Rightarrow> bool"
  domain_unlock :: "int \<Rightarrow> nat \<Rightarrow> ErrCode \<times> bool"
  bms_RemoveUser :: "int \<Rightarrow> nat \<Rightarrow> ErrCode"
  GetAllDisplayIds :: "nat \<Rightarrow> u64 list"
  zone_lib :: zone_env
  lock_plugin :: "nat \<Rightarrow> bool"
  activation_plugin :: "nat \<Rightarrow> (ErrCode \<times> bool) option"
  CheckSaCall :: bool
  maxOsAccountNum :: nat
  stack_serial :: int
  E_EXIST :: ErrCode
  storage_PrepareAddUser :: "int \<Rightarrow> nat \<Rightarrow> ErrCode"
  bms_CreateNewUser :: "int \<Rightarrow> string list \<Rightarrow> string list option \<Rightarrow> nat \<Rightarrow> ErrCode"
  bms_IsBundleInstalled :: "string \<Rightarrow> int \<Rightarrow> nat \<Rightarrow> ErrCode \<times> bool"
  lock_account :: "int \<Rightarrow> nat \<Rightarrow> ErrCode"

text \<open>What the manager publishes: common events, and state changes and switches to its subscribers.\<close>

datatype os_event =
    CommonEvent string int
  | StateEvent string int
  | SwitchEvent string int int u64
  | CleanGarbageStarted

text \<open>
  The members of the manager, apart from the files: \<open>SafeMap\<close> is an ordered map that a loop visits by ascending key.
\<close>

record os_memory =
  activeAccountId :: "int list"
  operatingId :: "int list"
  foregroundAccountMap :: "(u64, int) smap"
  verifiedAccounts :: "(int, bool) smap"
  loggedInAccounts :: "(int, bool) smap"
  deactivatingAccounts :: "(int, bool) smap"
  lockingAccounts :: "(int, bool) smap"
  defaultActivatedIds :: "(u64, int) smap"
  deviceOwnerId :: int

record osm_state =
  o_fs :: fs_state
  o_zones :: zone_state
  o_calls :: nat
  o_mem :: os_memory
  o_events :: "os_event list"

definition ask :: "(nat \<Rightarrow> 'a) \<Rightarrow> osm_state \<Rightarrow> 'a \<times> osm_state" where
  "ask f st = (f (o_calls st), st\<lparr>o_calls := Suc (o_calls st)\<rparr>)"

definition publish :: "os_event \<Rightarrow> osm_state \<Rightarrow> osm_state" where
  "publish e st = st\<lparr>o_events := o_events st @ [e]\<rparr>"

definition upd_mem :: "(os_memory \<Rightarrow> os_memory) \<Rightarrow> osm_state \<Rightarrow> osm_state" where
  "upd_mem f st = st\<lparr>o_mem := f (o_mem st)\<rparr>"

text \<open>An operation of the file manager, run on the files of the state.\<close>

definition on_files :: "(fs_state \<Rightarrow> 'a \<times> fs_state) \<Rightarrow> osm_state \<Rightarrow> 'a \<times> osm_state" where
  "on_files f st = (let (x, fs) = f (o_fs st) in (x, st\<lparr>o_fs := fs\<rparr>))"

text \<open>A question to the configuration of user zones, which may read its file again.\<close>

definition on_zones :: "'a zone_op \<Rightarrow> osm_state \<Rightarrow> 'a \<times> osm_state" where
  "on_zones f st = (let (x, z, fs) = f (o_zones st, o_fs st) in (x, st\<lparr>o_zones := z, o_fs := fs\<rparr>))"

definition MAX_RETRY_TIMES :: nat where "MAX_RETRY_TIMES = 10"

definition is_ipc_error :: "ErrCode \<Rightarrow> bool" where
  "is_ipc_error c \<longleftrightarrow> c = E_IPC_ERROR \<or> c = E_IPC_SA_DIED"

section \<open>The ability manager\<close>

text \<open>The loop of the three \<open>InnerSendToAMS\<close> functions: a call that died on the way is repeated.\<close>

fun ipc_loop :: "(nat \<Rightarrow> ErrCode) \<Rightarrow> nat \<Rightarrow> ErrCode \<Rightarrow> osm_state \<Rightarrow> ErrCode \<times> osm_state" where
  "ipc_loop call 0 code st = (code, st)"
| "ipc_loop call (Suc n) code st =
     (let (c, st1) = ask call st in if is_ipc_error c then ipc_loop call n c st1 else (c, st1))"

definition InnerSendToAMSAccountStart ::
  "'z osm_env_scheme \<Rightarrow> int \<Rightarrow> u64 \<Rightarrow> bool \<Rightarrow> osm_state \<Rightarrow> ErrCode \<times> osm_state" where
  "InnerSendToAMSAccountStart E i d rec = ipc_loop (ams_start E i d rec) MAX_RETRY_TIMES ERR_OK"

definition InnerSendToAMSAccountStop :: "'z osm_env_scheme \<Rightarrow> int \<Rightarrow> osm_state \<Rightarrow> ErrCode \<times> osm_state" where
  "InnerSendToAMSAccountStop E i = ipc_loop (ams_stop E i) MAX_RETRY_TIMES ERR_OK"

definition InnerSendToAMSAccountDeactivate :: "'z osm_env_scheme \<Rightarrow> int \<Rightarrow> osm_state \<Rightarrow> ErrCode \<times> osm_state" where
  "InnerSendToAMSAccountDeactivate E i = ipc_loop (ams_logout E i) MAX_RETRY_TIMES ERR_OK"

text \<open>\<open>OnUserCmdDone\<close>: the call back brings an id and a code; on success the start function runs on that id.\<close>

definition OnUserCmdDone ::
  "(int \<Rightarrow> osm_state \<Rightarrow> osm_state) option \<Rightarrow> int \<Rightarrow> ErrCode \<Rightarrow> osm_state \<Rightarrow> osm_state" where
  "OnUserCmdDone startUserCallbackFunc i errcode st =
     (case startUserCallbackFunc of Some f \<Rightarrow> if errcode = ERR_OK then f i st else st | None \<Rightarrow> st)"

definition SendToAMSAccountStart ::
  "'z osm_env_scheme \<Rightarrow> OsAccountInfo \<Rightarrow> u64 \<Rightarrow> (int \<Rightarrow> osm_state \<Rightarrow> osm_state) \<Rightarrow> bool \<Rightarrow> osm_state \<Rightarrow> ErrCode \<times> osm_state" where
  "SendToAMSAccountStart E a d callbackFunc isAppRecovery st =
     (let (code, st1) = InnerSendToAMSAccountStart E (os_localId a) d isAppRecovery st in
      if code \<noteq> ERR_OK then (code, st1)
      else let ((userId, resultCode), st2) = ask (ams_done E (os_localId a)) st1;
               st3 = OnUserCmdDone (Some callbackFunc) userId resultCode st2 in
           if resultCode \<noteq> ERR_OK then (ERR_OSACCOUNT_SERVICE_INTERFACE_TO_AM_ACCOUNT_START_ERROR, st3) else (code, st3))"

definition SendToAMSAccountStop :: "'z osm_env_scheme \<Rightarrow> OsAccountInfo \<Rightarrow> osm_state \<Rightarrow> ErrCode \<times> osm_state" where
  "SendToAMSAccountStop E a st =
     (let (code, st1) = InnerSendToAMSAccountStop E (os_localId a) st in
      if code \<noteq> ERR_OK then (code, st1)
      else let ((userId, resultCode), st2) = ask (ams_done E (os_localId a)) st1;
               st3 = OnUserCmdDone None userId resultCode st2 in
           if resultCode \<noteq> ERR_OK then (ERR_OSACCOUNT_SERVICE_INTERFACE_TO_AM_ACCOUNT_START_ERROR, st3) else (code, st3))"

definition SendToAMSAccountDeactivate :: "'z osm_env_scheme \<Rightarrow> OsAccountInfo \<Rightarrow> osm_state \<Rightarrow> ErrCode \<times> osm_state" where
  "SendToAMSAccountDeactivate E a st =
     (let (code, st1) = InnerSendToAMSAccountDeactivate E (os_localId a) st in
      if code \<noteq> ERR_OK then (code, st1)
      else let ((userId, resultCode), st2) = ask (ams_done E (os_localId a)) st1;
               st3 = OnUserCmdDone None userId resultCode st2 in
           if resultCode \<noteq> ERR_OK then (resultCode, st3) else (code, st3))"

definition DEAL_TIMES :: nat where "DEAL_TIMES = 100"

fun died_loop :: "'z osm_env_scheme \<Rightarrow> int \<Rightarrow> nat \<Rightarrow> osm_state \<Rightarrow> ErrCode \<times> osm_state" where
  "died_loop E i 0 st = (ERR_ACCOUNT_COMMON_OPERATION_TIMEOUT, st)"
| "died_loop E i (Suc n) st =
     (let (died, st1) = ask (all_app_died E i) st in if died then (ERR_OK, st1) else died_loop E i n st1)"

definition CheckAllAppDied :: "'z osm_env_scheme \<Rightarrow> int \<Rightarrow> osm_state \<Rightarrow> ErrCode \<times> osm_state" where
  "CheckAllAppDied E i = died_loop E i DEAL_TIMES"

section \<open>The storage manager\<close>

definition GetStorageProxy :: "'z osm_env_scheme \<Rightarrow> osm_state \<Rightarrow> ErrCode \<times> osm_state" where
  "GetStorageProxy E st =
     (let (ready, st1) = ask (storage_ready E) st in
      (if ready then ERR_OK else ERR_ACCOUNT_COMMON_GET_SYSTEM_ABILITY_MANAGER, st1))"

definition secret_flag_path :: "int \<Rightarrow> string" where
  "secret_flag_path i = USER_INFO_BASE @ ''/'' @ to_string_int i @ ''/iam_fault''"

definition IsSecretFlagExist :: "'z osm_env_scheme \<Rightarrow> int \<Rightarrow> osm_state \<Rightarrow> bool \<times> osm_state" where
  "IsSecretFlagExist E i = on_files (IsExistFile E (secret_flag_path i))"

definition DeleteSecretFlag :: "'z osm_env_scheme \<Rightarrow> int \<Rightarrow> osm_state \<Rightarrow> osm_state" where
  "DeleteSecretFlag E i st = snd (on_files (DeleteDirOrFile E (secret_flag_path i)) st)"

definition IsExistPIN :: "'z osm_env_scheme \<Rightarrow> int \<Rightarrow> osm_state \<Rightarrow> (ErrCode \<times> bool) \<times> osm_state" where
  "IsExistPIN E i st =
     (let ((ret, isExist), st1) = ask (idm_pin E i) st in
      if ret = ERR_IAM_NOT_ENROLLED then ((ERR_OK, False), st1)
      else if ret \<noteq> ERR_OK then ((ret, False), st1)
      else ((ret, isExist), st1))"

definition IsDomainUnlockEnabled :: "'z osm_env_scheme \<Rightarrow> int \<Rightarrow> osm_state \<Rightarrow> (ErrCode \<times> bool) \<times> osm_state" where
  "IsDomainUnlockEnabled E i st =
     (let ((errCode, enableUnlockDevice), st1) = ask (domain_unlock E i) st in
      if errCode \<noteq> ERR_OK then ((errCode, False), st1) else ((ERR_OK, enableUnlockDevice), st1))"

definition NeedSkipActiveUserKey :: "'z osm_env_scheme \<Rightarrow> int \<Rightarrow> osm_state \<Rightarrow> (ErrCode \<times> bool) \<times> osm_state" where
  "NeedSkipActiveUserKey E i st =
     (let (flag, st1) = IsSecretFlagExist E i st in
      if \<not> flag then ((ERR_OK, False), st1)
      else let (proxy, st2) = GetStorageProxy E st1 in
      if proxy \<noteq> ERR_OK then ((ERR_ACCOUNT_COMMON_GET_SYSTEM_ABILITY_MANAGER, False), st2)
      else let ((errCode, isFileEncrypt), st3) = ask (storage_encrypted E i) st2 in
      if errCode \<noteq> ERR_OK then ((errCode, False), st3)
      else if \<not> isFileEncrypt then ((ERR_OK, True), st3)
      else let ((errCode, isExistPIN), st4) = IsExistPIN E i st3;
               ((domainErrCode, isDomainUnlockEnabled), st5) = IsDomainUnlockEnabled E i st4 in
      if errCode \<noteq> ERR_OK \<or> domainErrCode \<noteq> ERR_OK
      then ((if errCode \<noteq> ERR_OK then errCode else domainErrCode, False), st5)
      else if \<not> isExistPIN \<and> \<not> isDomainUnlockEnabled then ((ERR_OK, False), DeleteSecretFlag E i st5)
      else ((ERR_ACCOUNT_COMMON_SECRET_CHECK, True), st5))"

fun unlock_loop :: "'z osm_env_scheme \<Rightarrow> int \<Rightarrow> bool \<Rightarrow> nat \<Rightarrow> ErrCode \<Rightarrow> osm_state \<Rightarrow> ErrCode \<times> osm_state" where
  "unlock_loop E i startUser 0 errCode st = (errCode, st)"
| "unlock_loop E i startUser (Suc n) errCode st =
     (let (proxy, st1) = GetStorageProxy E st in
      if proxy \<noteq> ERR_OK then unlock_loop E i startUser n ERR_ACCOUNT_COMMON_GET_SYSTEM_ABILITY_MANAGER st1
      else let ((errCode, isNeedSkip), st2) = NeedSkipActiveUserKey E i st1 in
      if isNeedSkip then (errCode, st2)
      else let (errCode, st3) = ask (storage_ActiveUserKey E i) st2;
               (errCode, st4) =
                 (if errCode = E_ACTIVE_EL2_FAILED E then (errCode, st3)
                  else if startUser then ask (storage_PrepareStartUser E i) st3 else (ERR_OK, st3)) in
           if is_ipc_error errCode then unlock_loop E i startUser n errCode st4 else (errCode, st4))"

definition UnlockUser :: "'z osm_env_scheme \<Rightarrow> int \<Rightarrow> bool \<Rightarrow> osm_state \<Rightarrow> ErrCode \<times> osm_state" where
  "UnlockUser E i startUser = unlock_loop E i startUser MAX_RETRY_TIMES ERR_OK"

text \<open>\<open>OsAccountInterface::SendToStorageAccountStart\<close>, which also updates the record it is given.\<close>

definition StorageAccountStart ::
  "'z osm_env_scheme \<Rightarrow> OsAccountInfo \<Rightarrow> osm_state \<Rightarrow> (ErrCode \<times> OsAccountInfo) \<times> osm_state" where
  "StorageAccountStart E a st =
     (let (err, st1) = UnlockUser E (os_localId a) (\<not> os_isVerified a) st in
      if err = ERR_ACCOUNT_COMMON_GET_SYSTEM_ABILITY_MANAGER then ((err, a), st1)
      else if \<not> os_isVerified a \<and> err = ERR_OK
      then let a1 = a\<lparr>os_isVerified := True\<rparr> in
           if os_credentialId a > 0 then ((ERR_OK, a1), st1)
           else let (now, st2) = ask (clock_s E) st1 in
                ((ERR_OK, a1\<lparr>os_isLoggedIn := True, os_lastLoginTime := now\<rparr>), st2)
      else ((ERR_OK, a), st1))"

definition SendToStorageAccountStop ::
  "'z osm_env_scheme \<Rightarrow> OsAccountInfo \<Rightarrow> osm_state \<Rightarrow> (ErrCode \<times> OsAccountInfo) \<times> osm_state" where
  "SendToStorageAccountStop E a st =
     (let (ready, st1) = ask (storage_ready E) st in
      if \<not> ready then ((ERR_ACCOUNT_COMMON_GET_SYSTEM_ABILITY_MANAGER, a), st1)
      else let a1 = a\<lparr>os_isVerified := False\<rparr>;
               (err, st2) = ask (storage_StopUser E (os_localId a)) st1 in
      if err \<noteq> ERR_OK then ((ERR_OSACCOUNT_SERVICE_STORAGE_STOP_USER_FAILED, a1), st2)
      else let (err, st3) = ask (storage_InactiveUserKey E (os_localId a)) st2 in
      if err \<noteq> ERR_OK then ((ERR_OSACCOUNT_SERVICE_STORAGE_STOP_USER_FAILED, a1), st3)
      else ((ERR_OK, a1), st3))"

definition SendToStorageAccountRemove :: "'z osm_env_scheme \<Rightarrow> OsAccountInfo \<Rightarrow> osm_state \<Rightarrow> ErrCode \<times> osm_state" where
  "SendToStorageAccountRemove E a st =
     (let (ready, st1) = ask (storage_ready E) st in
      if \<not> ready then (ERR_ACCOUNT_COMMON_GET_SYSTEM_ABILITY_MANAGER, st1)
      else ask (storage_RemoveUser E (os_localId a)) st1)"

definition InnerSendToStorageAccountCreateComplete :: "'z osm_env_scheme \<Rightarrow> int \<Rightarrow> osm_state \<Rightarrow> ErrCode \<times> osm_state" where
  "InnerSendToStorageAccountCreateComplete E i st =
     (let (proxy, st1) = GetStorageProxy E st in
      if proxy \<noteq> ERR_OK then (ERR_ACCOUNT_COMMON_GET_SYSTEM_ABILITY_MANAGER, st1)
      else ask (storage_CompleteAddUser E i) st1)"

fun complete_loop :: "'z osm_env_scheme \<Rightarrow> int \<Rightarrow> nat \<Rightarrow> ErrCode \<Rightarrow> osm_state \<Rightarrow> ErrCode \<times> osm_state" where
  "complete_loop E i 0 errCode st = (errCode, st)"
| "complete_loop E i (Suc n) errCode st =
     (let (errCode, st1) = InnerSendToStorageAccountCreateComplete E i st in
      if errCode = ERR_OK then (errCode, st1) else complete_loop E i n errCode st1)"

definition SendToStorageAccountCreateComplete :: "'z osm_env_scheme \<Rightarrow> int \<Rightarrow> osm_state \<Rightarrow> ErrCode \<times> osm_state" where
  "SendToStorageAccountCreateComplete E i = complete_loop E i MAX_RETRY_TIMES ERR_OK"

section \<open>The identity manager and the bundle manager\<close>

text \<open>\<open>idm_EraseUser\<close> is whether the erasure was accepted and the call back came in time with success or \<open>NOT_ENROLLED\<close>.\<close>

definition SendToIDMAccountDelete :: "'z osm_env_scheme \<Rightarrow> OsAccountInfo \<Rightarrow> osm_state \<Rightarrow> ErrCode \<times> osm_state" where
  "SendToIDMAccountDelete E a st =
     (let (erased, st1) = ask (idm_EraseUser E (os_localId a)) st in
      (if erased then ERR_OK else ERR_OSACCOUNT_SERVICE_IAM_ERASE_USER_FAILED, st1))"

definition SendToBMSAccountDelete :: "'z osm_env_scheme \<Rightarrow> OsAccountInfo \<Rightarrow> osm_state \<Rightarrow> ErrCode \<times> osm_state" where
  "SendToBMSAccountDelete E a = ask (bms_RemoveUser E (os_localId a))"

end
