(* ===== verification/Os_Account_Lifecycle.thy ===== *)
theory Os_Account_Lifecycle
  imports Os_Account_Services
begin

text \<open>
  The life cycle of OS accounts in the manager
  (\<open>services/accountmgr/src/osaccount/inner_os_account_manager.cpp\<close>): which accounts are active, which one is in
  front on which display, who is verified and logged in, and the requests that activate, deactivate, verify, log in and
  lock an account. Requests run one after the other; the locks taken inside a request are left out. The build
  switches are fields of the environment; sub spaces, the authorization part, backup and domain accounts are not part of the build.
\<close>

section \<open>The members of the manager\<close>

definition IsOsAccountIDInActiveList :: "int \<Rightarrow> os_memory \<Rightarrow> bool" where
  "IsOsAccountIDInActiveList i m \<longleftrightarrow> i \<in> set (activeAccountId m)"

definition PushIdIntoActiveList :: "'z osm_env_scheme \<Rightarrow> int \<Rightarrow> os_memory \<Rightarrow> os_memory" where
  "PushIdIntoActiveList E i m =
     m\<lparr>activeAccountId := i # (if MULTIPLE_ACTIVE E then removeAll i (activeAccountId m) else [])\<rparr>"

definition EraseIdFromActiveList :: "int \<Rightarrow> os_memory \<Rightarrow> os_memory" where
  "EraseIdFromActiveList i m =
     (if i \<in> set (activeAccountId m) then m\<lparr>activeAccountId := removeAll i (activeAccountId m)\<rparr> else m)"

definition CheckAndAddLocalIdOperating :: "int \<Rightarrow> osm_state \<Rightarrow> bool \<times> osm_state" where
  "CheckAndAddLocalIdOperating i st =
     (if i \<in> set (operatingId (o_mem st)) then (False, st)
      else (True, upd_mem (\<lambda>m. m\<lparr>operatingId := operatingId m @ [i]\<rparr>) st))"

definition RemoveLocalIdToOperating :: "int \<Rightarrow> osm_state \<Rightarrow> osm_state" where
  "RemoveLocalIdToOperating i = upd_mem (\<lambda>m. m\<lparr>operatingId := remove1 i (operatingId m)\<rparr>)"

definition CleanForegroundAccountMap :: "OsAccountInfo \<Rightarrow> os_memory \<Rightarrow> os_memory" where
  "CleanForegroundAccountMap a m =
     (if \<not> os_isForeground a then m
      else if map_of (foregroundAccountMap m) (os_displayId a) = Some (os_localId a)
      then m\<lparr>foregroundAccountMap := sm_erase (os_displayId a) (foregroundAccountMap m)\<rparr>
      else m)"

definition erase_logged_in :: "int \<Rightarrow> os_memory \<Rightarrow> os_memory" where
  "erase_logged_in i m = m\<lparr>loggedInAccounts := sm_erase i (loggedInAccounts m)\<rparr>"

definition erase_verified :: "int \<Rightarrow> os_memory \<Rightarrow> os_memory" where
  "erase_verified i m = m\<lparr>verifiedAccounts := sm_erase i (verifiedAccounts m)\<rparr>"

definition IsLoggedInAccountsOversize :: "'z osm_env_scheme \<Rightarrow> os_memory \<Rightarrow> bool" where
  "IsLoggedInAccountsOversize E m =
     (let size = length (loggedInAccounts m);
          size = (if U1_ACCOUNT E \<and> map_of (loggedInAccounts m) 1 = Some True then size - 1 else size)
      in size \<ge> maxLoggedInOsAccountNum E)"

definition IsValidOsAccount :: "OsAccountInfo \<Rightarrow> ErrCode" where
  "IsValidOsAccount a =
     (if \<not> os_isCreateCompleted a then ERR_OSACCOUNT_SERVICE_INNER_ACCOUNT_IS_UNCOMPLETED_ERROR
      else if os_toBeRemoved a then ERR_OSACCOUNT_SERVICE_INNER_ACCOUNT_TO_BE_REMOVED_ERROR
      else ERR_OK)"

text \<open>The lambda that looks for the display of an account keeps the last one it finds.\<close>

definition display_of :: "(u64, int) smap \<Rightarrow> int \<Rightarrow> u64" where
  "display_of fg i = foldl (\<lambda>d e. if snd e = i then fst e else d) INVALID_DISPLAY_ID fg"

definition real_info :: "int \<Rightarrow> os_memory \<Rightarrow> OsAccountInfo \<Rightarrow> OsAccountInfo" where
  "real_info i m a =
     (let a1 = a\<lparr>os_isVerified := (map_of (verifiedAccounts m) i = Some True),
                 os_isLoggedIn := (map_of (loggedInAccounts m) i = Some True),
                 os_isActivated := IsOsAccountIDInActiveList i m\<rparr> in
      if \<not> IsOsAccountIDInActiveList i m
      then a1\<lparr>os_displayId := INVALID_DISPLAY_ID, os_isForeground := False\<rparr>
      else let displayId = display_of (foregroundAccountMap m) i in
           a1\<lparr>os_displayId := displayId, os_isForeground := (displayId \<noteq> INVALID_DISPLAY_ID)\<rparr>)"

definition GetRealOsAccountInfoById ::
  "'z osm_env_scheme \<Rightarrow> int \<Rightarrow> osm_state \<Rightarrow> (ErrCode \<times> OsAccountInfo) \<times> osm_state" where
  "GetRealOsAccountInfoById E i st =
     (let ((errCode, a), st1) = on_files (GetOsAccountInfoById E i OsAccountInfo_init) st in
      if errCode \<noteq> ERR_OK then ((errCode, a), st1) else ((ERR_OK, real_info i (o_mem st1) a), st1))"

section \<open>Deactivation\<close>

definition DeactivateOsAccountByInfo ::
  "'z osm_env_scheme \<Rightarrow> OsAccountInfo \<Rightarrow> osm_state \<Rightarrow> (ErrCode \<times> OsAccountInfo) \<times> osm_state" where
  "DeactivateOsAccountByInfo E a st =
     (let i = os_localId a;
          st1 = upd_mem (\<lambda>m. EraseIdFromActiveList i (CleanForegroundAccountMap a (erase_verified i (erase_logged_in i m)))) st;
          a1 = snd (SetDomainInfo E ((os_domainInfo a)\<lparr>di_status := DOMAIN_LOGOUT\<rparr>) a);
          (errCode, st2) = on_files (UpdateOsAccountInfo E a1) st1 in
      if errCode \<noteq> ERR_OK \<and> errCode \<noteq> ERR_ACCOUNT_COMMON_DATA_NO_SPACE
      then ((ERR_OSACCOUNT_SERVICE_INNER_UPDATE_ACCOUNT_ERROR, a1), st2)
      else ((ERR_OK, a1), st2))"

definition DeactivateOsAccountById :: "'z osm_env_scheme \<Rightarrow> int \<Rightarrow> osm_state \<Rightarrow> ErrCode \<times> osm_state" where
  "DeactivateOsAccountById E i st =
     (let ((errCode, a), st1) = GetRealOsAccountInfoById E i st in
      if errCode \<noteq> ERR_OK then (ERR_ACCOUNT_COMMON_ACCOUNT_NOT_EXIST_ERROR, st1)
      else let ((r, _), st2) = DeactivateOsAccountByInfo E a st1 in (r, st2))"

definition SendMsgForAccountDeactivate ::
  "'z osm_env_scheme \<Rightarrow> OsAccountInfo \<Rightarrow> bool \<Rightarrow> osm_state \<Rightarrow> (ErrCode \<times> OsAccountInfo) \<times> osm_state" where
  "SendMsgForAccountDeactivate E a isStopStorage st =
     (let i = os_localId a;
          st1 = upd_mem (CleanForegroundAccountMap a) st;
          (errCode, st2) = SendToAMSAccountDeactivate E a st1 in
      if errCode \<noteq> ERR_OK then ((errCode, a), st2)
      else let st3 = publish (StateEvent ''STOPPING'' i) st2;
               ((errCode, a1), st4) = (if isStopStorage then SendToStorageAccountStop E a st3 else ((ERR_OK, a), st3)) in
      if errCode \<noteq> ERR_OK
      then ((errCode, a1), upd_mem (\<lambda>m. EraseIdFromActiveList i (erase_verified i (erase_logged_in i m))) st4)
      else DeactivateOsAccountByInfo E a1 st4)"

definition DeactivateOsAccount :: "'z osm_env_scheme \<Rightarrow> int \<Rightarrow> bool \<Rightarrow> osm_state \<Rightarrow> ErrCode \<times> osm_state" where
  "DeactivateOsAccount E i isStopStorage st =
     (let (added, st0) = CheckAndAddLocalIdOperating i st in
      if \<not> added then (ERR_OSACCOUNT_SERVICE_INNER_ACCOUNT_OPERATING_ERROR, st0)
      else let ((errCode, a), st1) = GetRealOsAccountInfoById E i st0 in
      if errCode \<noteq> ERR_OK then (ERR_ACCOUNT_COMMON_ACCOUNT_NOT_EXIST_ERROR, RemoveLocalIdToOperating i st1)
      else if \<not> os_isActivated a \<and> \<not> os_isVerified a then (ERR_OK, RemoveLocalIdToOperating i st1)
      else if IsValidOsAccount a \<noteq> ERR_OK then (IsValidOsAccount a, RemoveLocalIdToOperating i st1)
      else let st2 = upd_mem (\<lambda>m. m\<lparr>deactivatingAccounts := sm_put i True (deactivatingAccounts m)\<rparr>) st1;
               st3 = publish (CommonEvent ''USER_STOPPING'' i) st2;
               ((errCode, a1), st4) = SendMsgForAccountDeactivate E a isStopStorage st3;
               st5 = upd_mem (\<lambda>m. m\<lparr>deactivatingAccounts := sm_erase i (deactivatingAccounts m)\<rparr>) st4 in
      if errCode \<noteq> ERR_OK then (errCode, RemoveLocalIdToOperating i st5)
      else let st6 = publish (StateEvent ''STOPPED'' i) (publish (CommonEvent ''USER_STOPPED'' i) st5) in
           (ERR_OK, RemoveLocalIdToOperating i st6))"

section \<open>Activation\<close>

definition UpdateAccountToBackground :: "'z osm_env_scheme \<Rightarrow> int \<Rightarrow> osm_state \<Rightarrow> ErrCode \<times> osm_state" where
  "UpdateAccountToBackground E oldId st =
     (let st1 = publish (CommonEvent ''USER_BACKGROUND'' oldId) st;
          ((errCode, a), st2) =
            on_files (GetOsAccountInfoById E oldId (OsAccountInfo_init\<lparr>os_localId := oldId\<rparr>)) st1 in
      if errCode \<noteq> ERR_OK then (ERR_OK, st2)
      else if MULTIPLE_ACTIVE E
      then if \<not> STOP_MAIN E \<and> oldId = START_USER_ID then (ERR_OK, st2)
           else if os_type a \<noteq> TYPE_PRIVATE \<and> map_of (loggedInAccounts (o_mem st2)) oldId = None
           then (ERR_OK, snd (DeactivateOsAccount E oldId False st2))
           else (ERR_OK, st2)
      else (ERR_OK, snd (DeactivateOsAccountByInfo E a st2)))"

definition RollBackToEarlierAccount :: "int \<Rightarrow> int \<Rightarrow> u64 \<Rightarrow> osm_state \<Rightarrow> osm_state" where
  "RollBackToEarlierAccount fromId toId d st =
     (if fromId = toId then st
      else publish (SwitchEvent ''SWITCHED'' fromId toId d) (publish (CommonEvent ''USER_FOREGROUND'' toId)
             (publish (SwitchEvent ''SWITCHING'' fromId toId d) (publish (SwitchEvent ''SWITCHED'' toId fromId d) st))))"

text \<open>\<open>IInnerOsAccountManager::SendToStorageAccountStart\<close>.\<close>

definition SendToStorageAccountStart ::
  "'z osm_env_scheme \<Rightarrow> OsAccountInfo \<Rightarrow> osm_state \<Rightarrow> (ErrCode \<times> OsAccountInfo) \<times> osm_state" where
  "SendToStorageAccountStart E a st =
     (let preVerified = os_isVerified a; i = os_localId a;
          ((err, a1), st1) = StorageAccountStart E a st in
      if err \<noteq> ERR_OK then ((ERR_ACCOUNT_COMMON_GET_SYSTEM_ABILITY_MANAGER, a1), st1)
      else let st2 = (if os_isVerified a1 then upd_mem (\<lambda>m. m\<lparr>verifiedAccounts := sm_put i True (verifiedAccounts m)\<rparr>) st1 else st1);
               st3 = (if os_isLoggedIn a1 then upd_mem (\<lambda>m. m\<lparr>loggedInAccounts := sm_put i True (loggedInAccounts m)\<rparr>) st2 else st2) in
      if \<not> preVerified \<and> os_isVerified a1
      then let st4 = publish (StateEvent ''UNLOCKED'' i) (publish (CommonEvent ''USER_UNLOCKED'' i) st3) in
           if \<not> os_isCreateCompleted a1 then ((ERR_OK, a1), st4)
           else ((ERR_OK, a1), snd (on_files (UpdateOsAccountInfo E a1) st4))
      else ((ERR_OK, a1), st3))"

definition start_callback :: "'z osm_env_scheme \<Rightarrow> u64 \<Rightarrow> int \<Rightarrow> osm_state \<Rightarrow> osm_state" where
  "start_callback E d i st =
     (let st1 = (if MULTI_FOREGROUND E \<and> d \<noteq> DEFAULT_DISPLAY_ID
                 then upd_mem (\<lambda>m. m\<lparr>activeAccountId := activeAccountId m @ [i]\<rparr>) st
                 else upd_mem (PushIdIntoActiveList E i) st) in
      if d \<noteq> INVALID_DISPLAY_ID
      then upd_mem (\<lambda>m. m\<lparr>foregroundAccountMap := sm_put d i (foregroundAccountMap m)\<rparr>) st1
      else st1)"

definition SendToAMSAndSamgrAccountStart ::
  "'z osm_env_scheme \<Rightarrow> OsAccountInfo \<Rightarrow> u64 \<Rightarrow> bool \<Rightarrow> osm_state \<Rightarrow> ErrCode \<times> osm_state" where
  "SendToAMSAndSamgrAccountStart E a d isAppRecovery st = SendToAMSAccountStart E a d (start_callback E d) isAppRecovery st"

definition SendToStorageAndAMSAccountStart ::
  "'z osm_env_scheme \<Rightarrow> OsAccountInfo \<Rightarrow> bool \<Rightarrow> u64 \<Rightarrow> bool \<Rightarrow> int \<Rightarrow> osm_state \<Rightarrow> (ErrCode \<times> OsAccountInfo) \<times> osm_state" where
  "SendToStorageAndAMSAccountStart E a startStorage d isAppRecovery oldId st =
     (let i = os_localId a;
          ((errCode, a1), st1) = (if startStorage then SendToStorageAccountStart E a st else ((ERR_OK, a), st)) in
      if errCode \<noteq> ERR_OK \<and> \<not> isAppRecovery then ((errCode, a1), RollBackToEarlierAccount i oldId d st1)
      else let (errCode, st2) = SendToAMSAndSamgrAccountStart E a1 d isAppRecovery st1 in
      if errCode \<noteq> ERR_OK then ((errCode, a1), RollBackToEarlierAccount i oldId d st2)
      else ((ERR_OK, a1), st2))"

text \<open>\<open>oldId\<close> keeps its initial value \<open>-1\<close> when no account is in front on the display.\<close>

definition SendMsgForAccountActivate ::
  "'z osm_env_scheme \<Rightarrow> OsAccountInfo \<Rightarrow> bool \<Rightarrow> u64 \<Rightarrow> bool \<Rightarrow> osm_state \<Rightarrow> (ErrCode \<times> OsAccountInfo) \<times> osm_state" where
  "SendMsgForAccountActivate E a startStorage d isAppRecovery st =
     (let i = os_localId a;
          old = map_of (foregroundAccountMap (o_mem st)) d;
          oldId = or_keep old (-1);
          preActivated = os_isActivated a;
          switched = (oldId \<noteq> i);
          st1 = (if \<not> preActivated then publish (CommonEvent ''USER_STARTING'' i) st else st);
          st2 = (if switched then publish (SwitchEvent ''SWITCHING'' oldId i d) st1 else st1);
          ((errCode, a1), st3) = SendToStorageAndAMSAccountStart E a startStorage d isAppRecovery oldId st2 in
      if errCode \<noteq> ERR_OK then ((errCode, a1), st3)
      else let st4 = (if switched then publish (CommonEvent ''USER_FOREGROUND'' i) st3 else st3);
               st5 = (if ACTIVATE_LAST E \<and> os_isLoggedIn a1
                      then upd_mem (\<lambda>m. m\<lparr>defaultActivatedIds := sm_put d i (defaultActivatedIds m)\<rparr>)
                             (snd (on_files (SetDefaultActivatedOsAccount E (unat d) i) st4))
                      else st4);
               st6 = (if switched
                      then publish (SwitchEvent ''SWITCHED'' oldId i d) (publish (StateEvent ''ACTIVATED'' i)
                             (publish (CommonEvent ''USER_SWITCHED'' i) st5))
                      else st5);
               (errCode, st7) = (if old \<noteq> None \<and> switched then UpdateAccountToBackground E oldId st6 else (ERR_OK, st6)) in
      if errCode \<noteq> ERR_OK then ((errCode, a1), st7)
      else ((errCode, a1), if \<not> preActivated then publish (CommonEvent ''USER_STARTED'' i) st7 else st7))"

definition QueryAllDisplayIds :: "'z osm_env_scheme \<Rightarrow> osm_state \<Rightarrow> u64 list \<times> osm_state" where
  "QueryAllDisplayIds E = ask (GetAllDisplayIds E)"

definition ValidateDisplayId :: "'z osm_env_scheme \<Rightarrow> u64 \<Rightarrow> osm_state \<Rightarrow> ErrCode \<times> osm_state" where
  "ValidateDisplayId E d st =
     (if d = DEFAULT_DISPLAY_ID then (ERR_OK, st)
      else let (displayIds, st1) = QueryAllDisplayIds E st in
           if d \<notin> set displayIds then (ERR_ACCOUNT_COMMON_DISPLAY_ID_NOT_EXIST_ERROR, st1) else (ERR_OK, st1))"

definition ValidateDisplayPrimary :: "'z osm_env_scheme \<Rightarrow> u64 \<Rightarrow> osm_state \<Rightarrow> ErrCode \<times> osm_state" where
  "ValidateDisplayPrimary E d st =
     (if d = DEFAULT_DISPLAY_ID then (ERR_OK, st)
      else let (errCode, st1) = ValidateDisplayId E d st in
      if errCode \<noteq> ERR_OK then (errCode, st1)
      else let ((errCode, isPrimary), st2) = on_zones (IsDisplayPrimary E (zone_lib E) d) st1 in
      if errCode \<noteq> ERR_OK then (errCode, st2)
      else if \<not> or_keep isPrimary False then (ERR_ACCOUNT_COMMON_DISPLAY_NOT_PRIMARY_ERROR, st2) else (ERR_OK, st2))"

definition ValidateDisplayForActivation :: "'z osm_env_scheme \<Rightarrow> int \<Rightarrow> u64 \<Rightarrow> osm_state \<Rightarrow> ErrCode \<times> osm_state" where
  "ValidateDisplayForActivation E i d st =
     (let (errCode, st1) = (if d \<noteq> DEFAULT_DISPLAY_ID then ValidateDisplayPrimary E d st else (ERR_OK, st));
          errCode = (if errCode = ERR_ACCOUNT_COMMON_FILE_READ_FAILED \<or> errCode = ERR_ACCOUNT_COMMON_BAD_JSON_FORMAT_ERROR
                     then ERR_OK else errCode) in
      if errCode \<noteq> ERR_OK then (errCode, st1)
      else if list_ex (\<lambda>e. snd e = i \<and> fst e \<noteq> d) (foregroundAccountMap (o_mem st1))
      then (ERR_ACCOUNT_COMMON_CROSS_DISPLAY_ACTIVE_ERROR, st1) else (ERR_OK, st1))"

definition PrepareActivateOsAccount ::
  "'z osm_env_scheme \<Rightarrow> int \<Rightarrow> u64 \<Rightarrow> osm_state \<Rightarrow> (ErrCode \<times> OsAccountInfo \<times> int) \<times> osm_state" where
  "PrepareActivateOsAccount E i d st =
     (let ((errCode, a), st1) = GetRealOsAccountInfoById E i st;
          foreground = map_of (foregroundAccountMap (o_mem st1)) d;
          foregroundId = or_keep foreground (-1) in
      if foreground = Some i \<and> os_isVerified a
      then ((ERR_OSACCOUNT_SERVICE_INNER_ACCOUNT_ALREADY_ACTIVE_ERROR, a, foregroundId), st1)
      else if errCode = ERR_ACCOUNT_COMMON_FILE_ACCESS_DENIED \<and> foreground \<noteq> None
      then ((ERR_ACCOUNT_COMMON_FILE_ACCESS_DENIED, a, foregroundId), st1)
      else if errCode \<noteq> ERR_OK \<and> errCode \<noteq> ERR_ACCOUNT_COMMON_FILE_ACCESS_DENIED
      then ((ERR_ACCOUNT_COMMON_ACCOUNT_NOT_EXIST_ERROR, a, foregroundId), st1)
      else let skipValidityCheck = (errCode = ERR_ACCOUNT_COMMON_FILE_ACCESS_DENIED);
               a1 = (if skipValidityCheck then a\<lparr>os_localId := i\<rparr> else a);
               (errCode, st2) =
                 (if MULTI_FOREGROUND E then ValidateDisplayForActivation E i d st1
                  else if d \<noteq> DEFAULT_DISPLAY_ID \<and> d \<noteq> INVALID_DISPLAY_ID
                  then (ERR_ACCOUNT_COMMON_DISPLAY_ID_NOT_EXIST_ERROR, st1) else (ERR_OK, st1)) in
      if errCode \<noteq> ERR_OK then ((errCode, a1, foregroundId), st2)
      else if \<not> skipValidityCheck \<and> IsValidOsAccount a1 \<noteq> ERR_OK then ((IsValidOsAccount a1, a1, foregroundId), st2)
      else if \<not> os_isActivated a1 \<and> IsLoggedInAccountsOversize E (o_mem st2)
      then ((ERR_OSACCOUNT_SERVICE_LOGGED_IN_ACCOUNTS_OVERSIZE, a1, foregroundId), st2)
      else ((ERR_OK, a1, foregroundId), st2))"

definition SetAppRecovery :: "'z osm_env_scheme \<Rightarrow> bool \<Rightarrow> int list \<Rightarrow> bool" where
  "SetAppRecovery E isAppRecovery active =
     (if STOP_MAIN E \<and> \<not> isAppRecovery \<and> length active \<le> (if U1_ACCOUNT E then 1 else 0) then True else isAppRecovery)"

definition ActivateOsAccount ::
  "'z osm_env_scheme \<Rightarrow> int \<Rightarrow> bool \<Rightarrow> u64 \<Rightarrow> bool \<Rightarrow> osm_state \<Rightarrow> ErrCode \<times> osm_state" where
  "ActivateOsAccount E i startStorage d isAppRecovery st =
     (let (added, st0) = CheckAndAddLocalIdOperating i st in
      if \<not> added then (ERR_OSACCOUNT_SERVICE_INNER_ACCOUNT_OPERATING_ERROR, st0)
      else let ((errCode, a, foregroundId), st1) = PrepareActivateOsAccount E i d st0 in
      if errCode \<noteq> ERR_OK
      then (if errCode = ERR_OSACCOUNT_SERVICE_INNER_ACCOUNT_ALREADY_ACTIVE_ERROR then ERR_OK else errCode,
            RemoveLocalIdToOperating i st1)
      else let st2 = (if foregroundId \<noteq> i then publish (StateEvent ''ACTIVATING'' i) st1 else st1);
               isAppRecovery = (if map_of (defaultActivatedIds (o_mem st2)) d \<noteq> None
                                then SetAppRecovery E isAppRecovery (activeAccountId (o_mem st2)) else isAppRecovery);
               ((errCode, a1), st3) = SendMsgForAccountActivate E a startStorage d isAppRecovery st2 in
           (errCode, RemoveLocalIdToOperating i st3))"

section \<open>Verification, login and locking\<close>

definition SetOsAccountIsVerified :: "'z osm_env_scheme \<Rightarrow> int \<Rightarrow> bool \<Rightarrow> osm_state \<Rightarrow> ErrCode \<times> osm_state" where
  "SetOsAccountIsVerified E i isVerified st =
     (let ((errCode, a), st1) = GetRealOsAccountInfoById E i st in
      if errCode \<noteq> ERR_OK then (ERR_ACCOUNT_COMMON_ACCOUNT_NOT_EXIST_ERROR, st1)
      else if os_toBeRemoved a then (ERR_OSACCOUNT_SERVICE_INNER_ACCOUNT_TO_BE_REMOVED_ERROR, st1)
      else let st2 = upd_mem (\<lambda>m. if isVerified then m\<lparr>verifiedAccounts := sm_put i True (verifiedAccounts m)\<rparr>
                                  else erase_verified i m) st1 in
      if isVerified \<and> \<not> os_isVerified a
      then (ERR_OK, publish CleanGarbageStarted (publish (StateEvent ''UNLOCKED'' i)
              (publish (CommonEvent ''USER_UNLOCKED'' i) st2)))
      else (ERR_OK, st2))"

definition SetOsAccountIsLoggedIn :: "'z osm_env_scheme \<Rightarrow> int \<Rightarrow> bool \<Rightarrow> osm_state \<Rightarrow> ErrCode \<times> osm_state" where
  "SetOsAccountIsLoggedIn E i isLoggedIn st =
     (let ((errCode, a), st1) = GetRealOsAccountInfoById E i st in
      if errCode \<noteq> ERR_OK then (ERR_ACCOUNT_COMMON_ACCOUNT_NOT_EXIST_ERROR, st1)
      else if os_toBeRemoved a then (ERR_OSACCOUNT_SERVICE_INNER_ACCOUNT_TO_BE_REMOVED_ERROR, st1)
      else let st2 = upd_mem (\<lambda>m. if isLoggedIn then m\<lparr>loggedInAccounts := sm_put i True (loggedInAccounts m)\<rparr>
                                  else erase_logged_in i m) st1;
               st3 = (if \<not> os_isLoggedIn a \<and> ACTIVATE_LAST E \<and> os_displayId a \<noteq> INVALID_DISPLAY_ID
                      then upd_mem (\<lambda>m. m\<lparr>defaultActivatedIds := sm_put (os_displayId a) i (defaultActivatedIds m)\<rparr>)
                             (snd (on_files (SetDefaultActivatedOsAccount E (unat (os_displayId a)) i) st2))
                      else st2);
               (a1, st4) = (if \<not> os_isLoggedIn a
                            then let (now, st4) = ask (clock_s E) st3 in (a\<lparr>os_lastLoginTime := now\<rparr>, st4)
                            else (a, st3));
               (errCode, st5) = on_files (UpdateOsAccountInfo E a1) st4 in
      if errCode \<noteq> ERR_OK \<and> errCode \<noteq> ERR_ACCOUNT_COMMON_DATA_NO_SPACE
      then (ERR_OSACCOUNT_SERVICE_INNER_UPDATE_ACCOUNT_ERROR, st5) else (ERR_OK, st5))"

definition LockOsAccount :: "'z osm_env_scheme \<Rightarrow> int \<Rightarrow> osm_state \<Rightarrow> ErrCode \<times> osm_state" where
  "LockOsAccount E i st =
     (let (available, st0) = ask (lock_plugin E) st in
      if \<not> available then (ERR_OSACCOUNT_SERVICE_INNER_ACCOUNT_PLUGIN_NOT_EXIST_ERROR, st0)
      else let (added, st1) = CheckAndAddLocalIdOperating i st0 in
      if \<not> added then (ERR_OSACCOUNT_SERVICE_INNER_ACCOUNT_OPERATING_ERROR, st1)
      else let ((errCode, a), st2) = GetRealOsAccountInfoById E i st1 in
      if errCode \<noteq> ERR_OK then (ERR_ACCOUNT_COMMON_ACCOUNT_NOT_EXIST_ERROR, RemoveLocalIdToOperating i st2)
      else if IsValidOsAccount a \<noteq> ERR_OK then (IsValidOsAccount a, RemoveLocalIdToOperating i st2)
      else if \<not> os_isVerified a then (ERR_OK, RemoveLocalIdToOperating i st2)
      else let st3 = upd_mem (\<lambda>m. m\<lparr>lockingAccounts := sm_put i True (lockingAccounts m)\<rparr>) st2;
               (ret, st4) = ask (lock_account E i) st3;
               st5 = upd_mem (\<lambda>m. m\<lparr>lockingAccounts := sm_erase i (lockingAccounts m)\<rparr>) st4 in
      if ret \<noteq> ERR_OK then (ERR_OSACCOUNT_SERVICE_INNER_ACCOUNT_LOCK_ERROR, RemoveLocalIdToOperating i st5)
      else (ERR_OK, RemoveLocalIdToOperating i (upd_mem (erase_verified i) st5)))"

definition ResetDefaultActivatedAccount :: "'z osm_env_scheme \<Rightarrow> int \<Rightarrow> osm_state \<Rightarrow> ErrCode \<times> osm_state" where
  "ResetDefaultActivatedAccount E i st =
     (if map_of (defaultActivatedIds (o_mem st)) DEFAULT_DISPLAY_ID = Some i
      then let (err, st1) = on_files (SetDefaultActivatedOsAccount E (unat DEFAULT_DISPLAY_ID) START_USER_ID) st in
           if err \<noteq> ERR_OK then (err, st1)
           else (ERR_OK, upd_mem (\<lambda>m. m\<lparr>defaultActivatedIds := sm_put DEFAULT_DISPLAY_ID START_USER_ID (defaultActivatedIds m)\<rparr>) st1)
      else (ERR_OK, st))"

definition SetOsAccountToBeRemoved :: "'z osm_env_scheme \<Rightarrow> int \<Rightarrow> bool \<Rightarrow> osm_state \<Rightarrow> ErrCode \<times> osm_state" where
  "SetOsAccountToBeRemoved E i toBeRemoved st =
     (let (added, st0) = CheckAndAddLocalIdOperating i st in
      if \<not> added then (ERR_OSACCOUNT_SERVICE_INNER_ACCOUNT_OPERATING_ERROR, st0)
      else let ((errCode, a), st1) = on_files (GetOsAccountInfoById E i OsAccountInfo_init) st0 in
      if errCode \<noteq> ERR_OK then (ERR_ACCOUNT_COMMON_ACCOUNT_NOT_EXIST_ERROR, RemoveLocalIdToOperating i st1)
      else let (errCode, st2) = (if toBeRemoved then ResetDefaultActivatedAccount E i st1 else (ERR_OK, st1)) in
      if errCode \<noteq> ERR_OK then (errCode, RemoveLocalIdToOperating i st2)
      else let (errCode, st3) = on_files (UpdateOsAccountInfo E (a\<lparr>os_toBeRemoved := toBeRemoved\<rparr>)) st2 in
           (errCode, RemoveLocalIdToOperating i st3))"

definition SetDefaultActivated :: "'z osm_env_scheme \<Rightarrow> u64 \<Rightarrow> int \<Rightarrow> osm_state \<Rightarrow> ErrCode \<times> osm_state" where
  "SetDefaultActivated E d i st =
     (let (errCode, st1) =
            (if MULTI_FOREGROUND E then ValidateDisplayPrimary E d st
             else if d \<noteq> DEFAULT_DISPLAY_ID then (ERR_ACCOUNT_COMMON_DISPLAY_ID_NOT_EXIST_ERROR, st) else (ERR_OK, st)) in
      if errCode \<noteq> ERR_OK then (errCode, st1)
      else if map_of (defaultActivatedIds (o_mem st1)) d = Some i then (ERR_OK, st1)
      else let ((errCode, a), st2) = on_files (GetOsAccountInfoById E i OsAccountInfo_init) st1 in
      if errCode \<noteq> ERR_OK then (ERR_ACCOUNT_COMMON_ACCOUNT_NOT_EXIST_ERROR, st2)
      else if IsValidOsAccount a \<noteq> ERR_OK then (IsValidOsAccount a, st2)
      else let (errCode, st3) = on_files (SetDefaultActivatedOsAccount E (unat d) i) st2 in
      if errCode \<noteq> ERR_OK then (errCode, st3)
      else (ERR_OK, upd_mem (\<lambda>m. m\<lparr>defaultActivatedIds := sm_put d i (defaultActivatedIds m)\<rparr>) st3))"

section \<open>Questions\<close>

definition IsOsAccountActived :: "'z osm_env_scheme \<Rightarrow> int \<Rightarrow> osm_state \<Rightarrow> (ErrCode \<times> bool) \<times> osm_state" where
  "IsOsAccountActived E i st =
     (let ((errCode, a), st1) = GetRealOsAccountInfoById E i st in
      if errCode \<noteq> ERR_OK then ((ERR_ACCOUNT_COMMON_ACCOUNT_NOT_EXIST_ERROR, False), st1)
      else if i = ADMIN_LOCAL_ID then ((ERR_OK, True), st1) else ((ERR_OK, os_isActivated a), st1))"

definition IsOsAccountVerified :: "'z osm_env_scheme \<Rightarrow> int \<Rightarrow> osm_state \<Rightarrow> (ErrCode \<times> bool option) \<times> osm_state" where
  "IsOsAccountVerified E i st =
     (let ((errCode, a), st1) = GetRealOsAccountInfoById E i st in
      if errCode \<noteq> ERR_OK then ((ERR_ACCOUNT_COMMON_ACCOUNT_NOT_EXIST_ERROR, None), st1)
      else ((ERR_OK, Some (os_isVerified a)), st1))"

definition IsOsAccountDeactivating :: "int \<Rightarrow> os_memory \<Rightarrow> bool" where
  "IsOsAccountDeactivating i m = or_keep (map_of (deactivatingAccounts m) i) False"

definition IsOsAccountLocking :: "int \<Rightarrow> os_memory \<Rightarrow> bool" where
  "IsOsAccountLocking i m = or_keep (map_of (lockingAccounts m) i) False"

definition QueryActiveOsAccountIds :: "'z osm_env_scheme \<Rightarrow> os_memory \<Rightarrow> int list" where
  "QueryActiveOsAccountIds E m = (if U1_ACCOUNT E \<and> activeAccountId m = [1] then [] else activeAccountId m)"

definition GetUnlockedOsAccountLocalIds :: "os_memory \<Rightarrow> int list" where
  "GetUnlockedOsAccountLocalIds m = map fst (filter snd (verifiedAccounts m))"

text \<open>
  The display whose account is in front of a display: the primary one of its zone, or the display itself when the
  configuration cannot be read. The build without several foreground accounts takes the display as it is.
\<close>

definition primary_display :: "'z osm_env_scheme \<Rightarrow> u64 \<Rightarrow> osm_state \<Rightarrow> (ErrCode \<times> u64) \<times> osm_state" where
  "primary_display E d st =
     (if \<not> MULTI_FOREGROUND E then ((ERR_OK, d), st)
      else let ((errCode, primary), st1) = on_zones (GetPrimaryDisplayId E (zone_lib E) d) st in
      if errCode = ERR_ACCOUNT_COMMON_DISPLAY_ID_NOT_EXIST_ERROR then ((errCode, or_keep primary d), st1)
      else ((ERR_OK, or_keep primary d), st1))"

definition GetForegroundOsAccountLocalId :: "'z osm_env_scheme \<Rightarrow> u64 \<Rightarrow> osm_state \<Rightarrow> (ErrCode \<times> int option) \<times> osm_state" where
  "GetForegroundOsAccountLocalId E d st =
     (let ((errCode, primary), st1) = primary_display E d st in
      if errCode \<noteq> ERR_OK then ((errCode, None), st1)
      else case map_of (foregroundAccountMap (o_mem st1)) primary of
             None \<Rightarrow> ((ERR_ACCOUNT_COMMON_ACCOUNT_IN_DISPLAY_ID_NOT_FOUND_ERROR, None), st1)
           | Some i \<Rightarrow> ((ERR_OK, Some i), st1))"

definition IsOsAccountForeground :: "'z osm_env_scheme \<Rightarrow> int \<Rightarrow> u64 \<Rightarrow> osm_state \<Rightarrow> (ErrCode \<times> bool option) \<times> osm_state" where
  "IsOsAccountForeground E i d st =
     (if d = INVALID_DISPLAY_ID
      then ((ERR_OK, Some (list_ex (\<lambda>e. snd e = i) (foregroundAccountMap (o_mem st)))), st)
      else let (errCode, st1) =
                 (if MULTI_FOREGROUND E then ValidateDisplayId E d st
                  else if d \<noteq> DEFAULT_DISPLAY_ID then (ERR_ACCOUNT_COMMON_DISPLAY_ID_NOT_EXIST_ERROR, st) else (ERR_OK, st)) in
      if errCode \<noteq> ERR_OK then ((errCode, None), st1)
      else let ((errCode, x), st2) = GetForegroundOsAccountLocalId E d st1 in
           ((errCode, map_option (\<lambda>j. j = i) x), st2))"

definition GetForegroundOsAccountDisplayId :: "int \<Rightarrow> os_memory \<Rightarrow> ErrCode \<times> u64" where
  "GetForegroundOsAccountDisplayId i m =
     (let d = display_of (foregroundAccountMap m) i in
      (if d = INVALID_DISPLAY_ID then ERR_ACCOUNT_COMMON_ACCOUNT_IN_DISPLAY_ID_NOT_FOUND_ERROR else ERR_OK, d))"

definition GetForegroundOsAccountDisplayIds ::
  "'z osm_env_scheme \<Rightarrow> int \<Rightarrow> osm_state \<Rightarrow> (ErrCode \<times> u64 list) \<times> osm_state" where
  "GetForegroundOsAccountDisplayIds E i st =
     (let (ret, displayId) = GetForegroundOsAccountDisplayId i (o_mem st) in
      if ret \<noteq> ERR_OK then ((ret, []), st)
      else if \<not> MULTI_FOREGROUND E then ((ERR_OK, [displayId]), st)
      else let ((ret, displayIds), st1) = on_zones (GetDisplayIdsByLogicalId E (zone_lib E) displayId) st in
           if ret = ERR_OK then ((ERR_OK, displayIds), st1) else ((ERR_OK, displayIds @ [displayId]), st1))"

definition GetDefaultActivated :: "'z osm_env_scheme \<Rightarrow> u64 \<Rightarrow> osm_state \<Rightarrow> (ErrCode \<times> int option) \<times> osm_state" where
  "GetDefaultActivated E d st =
     (let ((errCode, primary), st1) = primary_display E d st in
      if errCode \<noteq> ERR_OK then ((errCode, None), st1)
      else case map_of (defaultActivatedIds (o_mem st1)) primary of
             None \<Rightarrow> ((ERR_ACCOUNT_COMMON_DISPLAY_ID_NOT_EXIST_ERROR, None), st1)
           | Some i \<Rightarrow> ((ERR_OK, Some i), st1))"

definition GetForegroundOsAccounts :: "os_memory \<Rightarrow> (u64 \<times> int) list" where
  "GetForegroundOsAccounts m = foregroundAccountMap m"

definition GetBackgroundOsAccountLocalIds :: "os_memory \<Rightarrow> int list" where
  "GetBackgroundOsAccountLocalIds m =
     filter (\<lambda>i. i \<notin> set (map snd (foregroundAccountMap m))) (activeAccountId m)"

end
