(* ===== verification/Os_Account_States.thy ===== *)
theory Os_Account_States
  imports Os_Account_Lifecycle
begin

text \<open>
  What the life cycle requests do to the members of the manager and to the stored accounts. The messages to
  other services change neither; a request is summed up by the memory it leaves. The members form an invariant: an account
  in front of a display is active and in front of one display only. The environment is arbitrary but for the hypotheses
  collected in \<open>osm_ok\<close>.
\<close>

section \<open>Hypotheses\<close>

text \<open>
  The ability manager calls back with the id it was given, the clock is a 64 bit number of seconds, and the build with several
  foreground accounts also allows several active ones.
\<close>

definition osm_ok :: "'z osm_env_scheme \<Rightarrow> bool" where
  "osm_ok E \<longleftrightarrow> cjson_ok E \<and> \<not> DISTRIBUTED E \<and> (\<forall>i n. fst (ams_done E i n) = i) \<and> (\<forall>n. \<bar>clock_s E n\<bar> < 2 ^ 63)
     \<and> (MULTI_FOREGROUND E \<longrightarrow> MULTIPLE_ACTIVE E)"

text \<open>Every stored account is kept under its own id and holds values of the program.\<close>

definition files_ok :: "'z osm_env_scheme \<Rightarrow> fs_state \<Rightarrow> bool" where
  "files_ok E fs \<longleftrightarrow> (\<forall>i a. stored_account E fs i = Some a \<longrightarrow> os_localId a = i \<and> os_record_ok a)"

section \<open>What stays the same\<close>

definition same_accounts :: "'z osm_env_scheme \<Rightarrow> osm_state \<Rightarrow> osm_state \<Rightarrow> bool" where
  "same_accounts E st st' \<longleftrightarrow> o_mem st' = o_mem st \<and> stored_account E (o_fs st') = stored_account E (o_fs st)"

lemma same_refl [simp, intro]: "same_accounts E st st"
  by (simp add: same_accounts_def)

lemma same_trans [trans]: "same_accounts E st st1 \<Longrightarrow> same_accounts E st1 st2 \<Longrightarrow> same_accounts E st st2"
  by (simp add: same_accounts_def)

lemma same_publish [simp]: "same_accounts E st (publish e st') = same_accounts E st st'"
  by (simp add: same_accounts_def publish_def)

lemma same_ask: "ask f st = (x, st') \<Longrightarrow> same_accounts E st st'"
  by (auto simp: same_accounts_def ask_def)

lemma same_on_files:
  "on_files f st = (x, st') \<Longrightarrow> (\<And>y fs'. f (o_fs st) = (y, fs') \<Longrightarrow> stored_account E fs' = stored_account E (o_fs st)) \<Longrightarrow>
   same_accounts E st st'"
  by (auto simp: same_accounts_def on_files_def split: prod.splits)

lemma same_files_ok: "same_accounts E st st' \<Longrightarrow> files_ok E (o_fs st') = files_ok E (o_fs st)"
  by (simp add: same_accounts_def files_ok_def)

lemma same_read:
  assumes "\<not> DISTRIBUTED E" and "on_files (GetOsAccountInfoById E i a) st = (x, st')"
  shows "same_accounts E st st'"
  using assms(2) by (rule same_on_files) (use GetById_files [OF assms(1)] in \<open>blast intro: stored_account_files\<close>)

text \<open>Writing the account list or deleting the secret flag touches no account file.\<close>

lemma account_path_not_list [simp]:
  "account_path (to_string_int i) \<noteq> ACCOUNT_LIST_FILE_JSON_PATH"
  "account_path (to_string_int i) \<noteq> GetTempFilePath ACCOUNT_LIST_FILE_JSON_PATH"
proof -
  have "CHR ''/'' \<in> set (to_string_int i @ ''/account_info.json'')" by simp
  moreover have "CHR ''/'' \<notin> set ''account_list.json''" "CHR ''/'' \<notin> set ''account_list.json.tmp''" by simp_all
  ultimately show "account_path (to_string_int i) \<noteq> ACCOUNT_LIST_FILE_JSON_PATH"
    "account_path (to_string_int i) \<noteq> GetTempFilePath ACCOUNT_LIST_FILE_JSON_PATH"
    by (auto simp: account_path_def ACCOUNT_LIST_FILE_JSON_PATH_def GetTempFilePath_def simp del: set_append set_simps)
qed

lemma list_save_frame:
  assumes "SaveAccountListToFileAndDataBase E j fs = (r, fs')"
  shows "stored_account F fs' = stored_account F fs"
proof -
  from assms have "InputFileByPathAndContent E ACCOUNT_LIST_FILE_JSON_PATH (PackJsonToString E j) fs = (r, fs')"
    by (simp add: os_file_defs json_to_file_def)
  from InputFile_spec [OF this] show ?thesis by (simp add: stored_account_def fun_eq_iff)
qed

lemma SetDefault_frame:
  assumes "SetDefaultActivatedOsAccount E d i fs = (r, fs')"
  shows "stored_account F fs' = stored_account F fs"
proof -
  obtain x fs1 where 1: "GetAccountListFromFile E fs = (x, fs1)" by (metis prod.collapse)
  have "stored_account F fs1 = stored_account F fs" using GetAccountList_frame [OF 1] by (rule stored_account_files)
  then show ?thesis
    using assms list_save_frame [of E _ fs1 _ _ F]
    by (auto simp: SetDefaultActivatedOsAccount_def 1 Let_def split: prod.splits if_splits option.splits)
qed

lemma same_set_default:
  "on_files (SetDefaultActivatedOsAccount E d i) st = (x, st') \<Longrightarrow> same_accounts E st st'"
  by (erule same_on_files) (rule SetDefault_frame)

lemma flag_not_account: "account_path (to_string_int j) \<noteq> secret_flag_path i" "\<not> below (secret_flag_path i) (account_path (to_string_int j))"
proof -
  have eq: "to_string_int j @ CHR ''/'' # x = to_string_int i @ CHR ''/'' # y \<Longrightarrow> x = y" for x y
    using sep_append_inject [OF slash_free_to_string_int slash_free_to_string_int, of j x i y] by blast
  show "account_path (to_string_int j) \<noteq> secret_flag_path i"
    using eq [of "''account_info.json''" "''iam_fault''"] by (auto simp: account_path_def secret_flag_path_def)
  show "\<not> below (secret_flag_path i) (account_path (to_string_int j))"
  proof
    assume "below (secret_flag_path i) (account_path (to_string_int j))"
    then obtain z where "account_path (to_string_int j) = secret_flag_path i @ ''/'' @ z"
      unfolding below_def by (metis append_assoc append_take_drop_id)
    then show False using eq [of "''account_info.json''" "''iam_fault/'' @ z"] by (simp add: account_path_def secret_flag_path_def)
  qed
qed

lemma DeleteSecretFlag_same: "same_accounts E st (DeleteSecretFlag F i st)"
proof -
  let ?p = "secret_flag_path i"
  obtain x st' where d: "on_files (DeleteDirOrFile F ?p) st = (x, st')" by (metis prod.collapse)
  have "stored_account E fs' = stored_account E fs" if del: "DeleteDirOrFile F ?p fs = (y, fs')" for y fs fs'
  proof -
    obtain isDir fs1 where 1: "IsExistDir F ?p fs = (isDir, fs1)" by (metis prod.collapse)
    obtain isFile fs2 where 2: "IsExistFile F ?p fs1 = (isFile, fs2)" by (metis prod.collapse)
    have "fs_files fs1 = fs_files fs" "fs_files fs2 = fs_files fs"
      using IsExistDir_files [of F ?p fs] IsExistFile_files [of F ?p fs1] by (simp_all add: 1 2)
    then have "fs_files fs' (account_path (to_string_int j)) = fs_files fs (account_path (to_string_int j))" for j
      using del flag_not_account
      by (auto simp: DeleteDirOrFile_def 1 2 DeleteDir_def DeleteFile_def sys_call_def Let_def split: if_splits)
    then show ?thesis by (simp add: stored_account_def fun_eq_iff)
  qed
  then have "same_accounts E st st'" using d by (blast intro: same_on_files)
  then show ?thesis by (simp add: DeleteSecretFlag_def d)
qed

section \<open>Messages\<close>

lemma same_ipc_loop: "ipc_loop call n code st = (x, st') \<Longrightarrow> same_accounts E st st'"
proof (induction n arbitrary: code st)
  case (Suc n)
  obtain c st1 where 1: "ask call st = (c, st1)" by (metis prod.collapse)
  with Suc same_ask [OF 1, of E] show ?case by (auto simp: Let_def split: if_splits intro: same_trans)
qed auto

lemma same_died_loop: "died_loop E i n st = (x, st') \<Longrightarrow> same_accounts F st st'"
proof (induction n arbitrary: st)
  case (Suc n)
  obtain c st1 where 1: "ask (all_app_died E i) st = (c, st1)" by (metis prod.collapse)
  with Suc same_ask [OF 1, of F] show ?case by (auto simp: Let_def split: if_splits intro: same_trans)
qed auto

lemma same_AMS_stop:
  assumes "SendToAMSAccountStop E a st = (r, st')"
  shows "same_accounts E st st'"
proof -
  obtain c st1 where 1: "InnerSendToAMSAccountStop E (os_localId a) st = (c, st1)" by (metis prod.collapse)
  obtain u rc st2 where 2: "ask (ams_done E (os_localId a)) st1 = ((u, rc), st2)" by (metis prod.collapse)
  show ?thesis
    using assms same_ipc_loop [OF 1 [unfolded InnerSendToAMSAccountStop_def], of E] same_ask [OF 2, of E]
    by (auto simp: SendToAMSAccountStop_def 1 2 OnUserCmdDone_def Let_def split: if_splits intro: same_trans)
qed

lemma same_AMS_deactivate:
  assumes "SendToAMSAccountDeactivate E a st = (r, st')"
  shows "same_accounts E st st'"
proof -
  obtain c st1 where 1: "InnerSendToAMSAccountDeactivate E (os_localId a) st = (c, st1)" by (metis prod.collapse)
  obtain u rc st2 where 2: "ask (ams_done E (os_localId a)) st1 = ((u, rc), st2)" by (metis prod.collapse)
  show ?thesis
    using assms same_ipc_loop [OF 1 [unfolded InnerSendToAMSAccountDeactivate_def], of E] same_ask [OF 2, of E]
    by (auto simp: SendToAMSAccountDeactivate_def 1 2 OnUserCmdDone_def Let_def split: if_splits intro: same_trans)
qed

text \<open>A start that succeeds has run the call back, on a state with the same accounts; one that fails has not.\<close>

lemma AMS_start:
  assumes "SendToAMSAccountStart E a d f rec st = (r, st')" and "osm_ok E"
  shows "if r = ERR_OK then \<exists>st1. same_accounts E st st1 \<and> st' = f (os_localId a) st1 else same_accounts E st st'"
proof -
  obtain c st1 where 1: "InnerSendToAMSAccountStart E (os_localId a) d rec st = (c, st1)" by (metis prod.collapse)
  obtain u rc st2 where 2: "ask (ams_done E (os_localId a)) st1 = ((u, rc), st2)" by (metis prod.collapse)
  have u: "u = os_localId a" using assms(2) 2 by (metis ask_def fst_conv osm_ok_def prod.inject)
  have s: "same_accounts E st st1" "same_accounts E st1 st2"
    using same_ipc_loop [OF 1 [unfolded InnerSendToAMSAccountStart_def], of E] same_ask [OF 2, of E] by auto
  show ?thesis
    using assms(1) u s same_trans [OF s]
    by (auto simp: SendToAMSAccountStart_def 1 2 OnUserCmdDone_def Let_def split: if_splits)
qed

lemma same_storage_proxy: "GetStorageProxy E st = (r, st') \<Longrightarrow> same_accounts F st st'"
  by (auto simp: GetStorageProxy_def split: prod.splits if_splits intro: same_ask)

lemma same_need_skip:
  assumes "NeedSkipActiveUserKey E i st = (x, st')"
  shows "same_accounts F st st'"
proof -
  obtain f st1 where 1: "IsSecretFlagExist E i st = (f, st1)" by (metis prod.collapse)
  obtain p st2 where 2: "GetStorageProxy E st1 = (p, st2)" by (metis prod.collapse)
  obtain e enc st3 where 3: "ask (storage_encrypted E i) st2 = ((e, enc), st3)" by (metis prod.collapse)
  obtain q pin st4 where 4: "IsExistPIN E i st3 = ((q, pin), st4)" by (metis prod.collapse)
  obtain de du st5 where 5: "IsDomainUnlockEnabled E i st4 = ((de, du), st5)" by (metis prod.collapse)
  have s1: "same_accounts F st st1"
    using 1 unfolding IsSecretFlagExist_def
    by (rule same_on_files) (metis IsExistFile_files snd_conv stored_account_files)
  have s2: "same_accounts F st1 st2" by (rule same_storage_proxy [OF 2])
  have s3: "same_accounts F st2 st3" by (rule same_ask [OF 3])
  have s4: "same_accounts F st3 st4" using 4 by (auto simp: IsExistPIN_def split: prod.splits if_splits intro: same_ask)
  have s5: "same_accounts F st4 st5" using 5 by (auto simp: IsDomainUnlockEnabled_def split: prod.splits if_splits intro: same_ask)
  note t2 = same_trans [OF s1 s2] and t3 = same_trans [OF same_trans [OF s1 s2] s3]
  note t5 = same_trans [OF same_trans [OF t3 s4] s5]
  show ?thesis
    using assms s1 t2 t3 t5 same_trans [OF t5 DeleteSecretFlag_same]
    by (auto simp: NeedSkipActiveUserKey_def 1 2 3 4 5 Let_def split: if_splits)
qed

lemma same_unlock_loop: "unlock_loop E i s n e st = (x, st') \<Longrightarrow> same_accounts F st st'"
proof (induction n arbitrary: e st)
  case (Suc n)
  obtain p st1 where 1: "GetStorageProxy E st = (p, st1)" by (metis prod.collapse)
  obtain e2 k st2 where 2: "NeedSkipActiveUserKey E i st1 = ((e2, k), st2)" by (metis prod.collapse)
  obtain e3 st3 where 3: "ask (storage_ActiveUserKey E i) st2 = (e3, st3)" by (metis prod.collapse)
  obtain e4 st4 where 4: "ask (storage_PrepareStartUser E i) st3 = (e4, st4)" by (metis prod.collapse)
  have s1: "same_accounts F st st1" by (rule same_storage_proxy [OF 1])
  have s2: "same_accounts F st st2" by (rule same_trans [OF s1 same_need_skip [OF 2]])
  have s3: "same_accounts F st st3" by (rule same_trans [OF s2 same_ask [OF 3]])
  have s4: "same_accounts F st st4" by (rule same_trans [OF s3 same_ask [OF 4]])
  from Suc.prems Suc.IH s1 s2 s3 s4 show ?case
    by (auto simp: 1 2 3 4 Let_def split: if_splits intro: same_trans)
qed auto

lemma StorageAccountStart_spec:
  assumes "StorageAccountStart E a st = ((r, a'), st')" and "osm_ok E"
  shows "same_accounts E st st' \<and> os_localId a' = os_localId a \<and> os_isActivated a' = os_isActivated a
    \<and> os_isCreateCompleted a' = os_isCreateCompleted a \<and> (os_record_ok a \<longrightarrow> os_record_ok a')"
proof -
  obtain e st1 where 1: "UnlockUser E (os_localId a) (\<not> os_isVerified a) st = (e, st1)" by (metis prod.collapse)
  obtain n st2 where 2: "ask (clock_s E) st1 = (n, st2)" by (metis prod.collapse)
  have "\<bar>n\<bar> < 2 ^ 63" using assms(2) 2 by (auto simp: osm_ok_def ask_def)
  then have ok: "os_record_ok a \<Longrightarrow> os_record_ok (a\<lparr>os_isVerified := True\<rparr>)"
    "os_record_ok a \<Longrightarrow> os_record_ok (a\<lparr>os_isVerified := True, os_isLoggedIn := True, os_lastLoginTime := n\<rparr>)"
    by (auto simp: os_record_ok_def)
  have s: "same_accounts E st st1" "same_accounts E st st2"
    using same_unlock_loop [OF 1 [unfolded UnlockUser_def], of E] same_ask [OF 2, of E] same_trans by blast+
  show ?thesis using assms(1) ok s by (auto simp: StorageAccountStart_def 1 2 Let_def split: if_splits)
qed

lemma StorageStop_spec:
  assumes "SendToStorageAccountStop E a st = ((r, a'), st')"
  shows "same_accounts F st st' \<and> (a' = a \<or> a' = a\<lparr>os_isVerified := False\<rparr>)"
proof -
  obtain r1 st1 where 1: "ask (storage_ready E) st = (r1, st1)" by (metis prod.collapse)
  obtain r2 st2 where 2: "ask (storage_StopUser E (os_localId a)) st1 = (r2, st2)" by (metis prod.collapse)
  obtain r3 st3 where 3: "ask (storage_InactiveUserKey E (os_localId a)) st2 = (r3, st3)" by (metis prod.collapse)
  show ?thesis
    using assms same_ask [OF 1, of F] same_ask [OF 2, of F] same_ask [OF 3, of F]
    by (auto simp: SendToStorageAccountStop_def 1 2 3 Let_def split: if_splits intro: same_trans)
qed

section \<open>The accounts in front\<close>

text \<open>
  The invariant of the members: the map of displays is ordered and has no entry for the invalid display; an account in
  front is active and in front of one display only; without several foreground accounts the default display is the only one and
  the active list has no duplicates.
\<close>

definition fg_inv :: "'z osm_env_scheme \<Rightarrow> (u64, int) smap \<Rightarrow> int list \<Rightarrow> bool" where
  "fg_inv E fg active \<longleftrightarrow> sm_wf fg
     \<and> (\<forall>d i. map_of fg d = Some i \<longrightarrow> d \<noteq> INVALID_DISPLAY_ID \<and> i \<in> set active \<and> (\<forall>d'. map_of fg d' = Some i \<longrightarrow> d' = d)
          \<and> (\<not> MULTI_FOREGROUND E \<longrightarrow> d = DEFAULT_DISPLAY_ID))
     \<and> (\<not> MULTI_FOREGROUND E \<longrightarrow> distinct active)"

abbreviation mem_inv :: "'z osm_env_scheme \<Rightarrow> os_memory \<Rightarrow> bool" where
  "mem_inv E m \<equiv> fg_inv E (foregroundAccountMap m) (activeAccountId m)"

definition without_fg :: "int \<Rightarrow> os_memory \<Rightarrow> os_memory" where
  "without_fg i m = m\<lparr>foregroundAccountMap := filter (\<lambda>e. snd e \<noteq> i) (foregroundAccountMap m)\<rparr>"

definition stopped :: "int \<Rightarrow> os_memory \<Rightarrow> os_memory" where
  "stopped i m = m\<lparr>foregroundAccountMap := filter (\<lambda>e. snd e \<noteq> i) (foregroundAccountMap m),
     activeAccountId := removeAll i (activeAccountId m), verifiedAccounts := sm_erase i (verifiedAccounts m),
     loggedInAccounts := sm_erase i (loggedInAccounts m)\<rparr>"

lemma map_of_filter_snd:
  "distinct (map fst fg) \<Longrightarrow> map_of (filter (\<lambda>e. snd e \<noteq> i) fg) d = (if map_of fg d = Some i then None else map_of fg d)"
proof (induction fg)
  case (Cons e fg)
  obtain k v where e: "e = (k, v)" by (cases e)
  have "map_of fg k = None" using Cons.prems e by (simp add: map_of_eq_None_iff)
  with Cons show ?case by (cases "d = k") (auto simp: e simp del: map_of_eq_Some_iff)
qed simp

lemma foldl_display:
  "\<forall>e \<in> set fg. snd e = i \<longrightarrow> fst e = d \<Longrightarrow>
   foldl (\<lambda>d e. if snd e = i then fst e else d) x fg = (if \<exists>e \<in> set fg. snd e = i then d else x)"
  by (induction fg arbitrary: x) auto

lemma display_of_in:
  assumes "fg_inv E fg active" and "map_of fg d = Some i"
  shows "display_of fg i = d"
proof -
  have "(d, i) \<in> set fg" using assms(2) by (rule map_of_SomeD)
  moreover have "\<forall>e \<in> set fg. snd e = i \<longrightarrow> fst e = d"
  proof (intro ballI impI)
    fix e assume "e \<in> set fg" "snd e = i"
    moreover have "distinct (map fst fg)" using assms(1) by (simp add: fg_inv_def sm_wf_distinct)
    ultimately have "map_of fg (fst e) = Some i" by (metis map_of_is_SomeI prod.collapse)
    with assms show "fst e = d" by (auto simp: fg_inv_def simp del: map_of_eq_Some_iff)
  qed
  ultimately show ?thesis using foldl_display [of fg i d INVALID_DISPLAY_ID] by (force simp: display_of_def)
qed

lemma erase_is_filter:
  assumes "fg_inv E fg active" and "map_of fg d = Some i"
  shows "sm_erase d fg = filter (\<lambda>e. snd e \<noteq> i) fg"
  using assms
  by (intro sm_wf_ext) (auto simp: fg_inv_def sm_wf_filter sm_wf_distinct map_of_filter_snd fun_eq_iff simp del: map_of_eq_Some_iff)

lemma no_fg_filter:
  "\<forall>d. map_of fg d \<noteq> Some i \<Longrightarrow> sm_wf fg \<Longrightarrow> filter (\<lambda>e. snd e \<noteq> i) fg = fg"
  by (intro sm_wf_ext sm_wf_filter) (simp_all add: map_of_filter_snd sm_wf_distinct fun_eq_iff)

lemma Clean_real:
  assumes "mem_inv E m" and "os_localId a = i" and "os_displayId a = os_displayId (real_info i m b)"
    and "os_isForeground a = os_isForeground (real_info i m b)"
  shows "CleanForegroundAccountMap a m = without_fg i m"
proof (cases "\<exists>d. map_of (foregroundAccountMap m) d = Some i")
  case True
  then obtain d where d: "map_of (foregroundAccountMap m) d = Some i" by blast
  then have "i \<in> set (activeAccountId m)" "d \<noteq> INVALID_DISPLAY_ID" using assms(1) by (auto simp: fg_inv_def)
  then have "os_displayId a = d" "os_isForeground a"
    using display_of_in [OF assms(1) d] assms(3,4) by (simp_all add: real_info_def IsOsAccountIDInActiveList_def Let_def)
  then show ?thesis
    using d assms(2) erase_is_filter [OF assms(1) d] by (simp add: CleanForegroundAccountMap_def without_fg_def)
next
  case False
  then have "filter (\<lambda>e. snd e \<noteq> i) (foregroundAccountMap m) = foregroundAccountMap m"
    using assms(1) by (intro no_fg_filter) (auto simp: fg_inv_def)
  then show ?thesis using False assms(2) by (simp add: CleanForegroundAccountMap_def without_fg_def)
qed

lemma Clean_absent:
  "\<forall>d. map_of (foregroundAccountMap m) d \<noteq> Some (os_localId a) \<Longrightarrow> CleanForegroundAccountMap a m = m"
  by (simp add: CleanForegroundAccountMap_def)

lemma without_fg_inv:
  assumes "mem_inv E m"
  shows "mem_inv E (without_fg i m)" and "\<forall>d. map_of (foregroundAccountMap (without_fg i m)) d \<noteq> Some i"
  using assms
  by (auto simp: fg_inv_def without_fg_def sm_wf_filter sm_wf_distinct map_of_filter_snd simp del: map_of_eq_Some_iff split: if_splits)

lemma stopped_inv:
  assumes "mem_inv E m"
  shows "mem_inv E (stopped i m)"
  using assms
  by (auto simp: fg_inv_def stopped_def sm_wf_filter sm_wf_distinct map_of_filter_snd distinct_removeAll
      simp del: map_of_eq_Some_iff split: if_splits)

lemma Erase_removeAll: "EraseIdFromActiveList i m = m\<lparr>activeAccountId := removeAll i (activeAccountId m)\<rparr>"
  by (simp add: EraseIdFromActiveList_def)

lemma stop_mem:
  assumes "\<forall>d. map_of (foregroundAccountMap m) d \<noteq> Some (os_localId a)" and "sm_wf (foregroundAccountMap m)"
  shows "EraseIdFromActiveList (os_localId a) (CleanForegroundAccountMap a
      (erase_verified (os_localId a) (erase_logged_in (os_localId a) m))) = stopped (os_localId a) m"
  using assms no_fg_filter [OF assms]
  by (simp add: Erase_removeAll Clean_absent erase_verified_def erase_logged_in_def stopped_def)

lemma stopped_without: "stopped i (without_fg i m) = stopped i m"
  by (simp add: stopped_def without_fg_def)

section \<open>Reading and writing an account\<close>

definition others_kept :: "'z osm_env_scheme \<Rightarrow> int \<Rightarrow> osm_state \<Rightarrow> osm_state \<Rightarrow> bool" where
  "others_kept E i st st' \<longleftrightarrow> (\<forall>j. j \<noteq> i \<longrightarrow> stored_account E (o_fs st') j = stored_account E (o_fs st) j)"

lemma others_same: "same_accounts E st st' \<Longrightarrow> others_kept E i st st'"
  by (simp add: same_accounts_def others_kept_def)

lemma others_trans [trans]: "others_kept E i st st1 \<Longrightarrow> others_kept E i st1 st2 \<Longrightarrow> others_kept E i st st2"
  by (simp add: others_kept_def)

lemma upd_mem_simps [simp]:
  "o_mem (upd_mem f st) = f (o_mem st)" "o_fs (upd_mem f st) = o_fs st" "o_calls (upd_mem f st) = o_calls st"
  by (simp_all add: upd_mem_def)

lemma publish_simps [simp]:
  "o_mem (publish e st) = o_mem st" "o_fs (publish e st) = o_fs st" "o_calls (publish e st) = o_calls st"
  by (simp_all add: publish_def)

lemma others_upd [simp]:
  "others_kept E i st (upd_mem f st') = others_kept E i st st'" "others_kept E i st (publish e st') = others_kept E i st st'"
  "others_kept E i (upd_mem f st) st' = others_kept E i st st'" "others_kept E i (publish e st) st' = others_kept E i st st'"
  by (simp_all add: others_kept_def)

lemma others_refl [simp]: "others_kept E i st st"
  by (simp add: others_kept_def)

lemma record_ok_upd [simp]:
  "os_record_ok (a\<lparr>os_isVerified := x\<rparr>) = os_record_ok a" "os_record_ok (a\<lparr>os_isLoggedIn := x\<rparr>) = os_record_ok a"
  "os_record_ok (a\<lparr>os_isActivated := x\<rparr>) = os_record_ok a" "os_record_ok (a\<lparr>os_toBeRemoved := x\<rparr>) = os_record_ok a"
  "os_record_ok (a\<lparr>os_displayId := d\<rparr>) = os_record_ok a" "os_record_ok (a\<lparr>os_isForeground := x\<rparr>) = os_record_ok a"
  by (simp_all add: os_record_ok_def)

lemma record_ok_time: "os_record_ok a \<Longrightarrow> \<bar>n\<bar> < 2 ^ 63 \<Longrightarrow> os_record_ok (a\<lparr>os_lastLoginTime := n\<rparr>)"
  by (simp add: os_record_ok_def)

lemma record_ok_domain: "os_record_ok a \<Longrightarrow> domain_ok d \<Longrightarrow> os_record_ok (a\<lparr>os_domainInfo := d\<rparr>)"
  by (simp add: os_record_ok_def)

lemma real_info_simps [simp]:
  "os_localId (real_info i m b) = os_localId b" "os_toBeRemoved (real_info i m b) = os_toBeRemoved b"
  "os_isCreateCompleted (real_info i m b) = os_isCreateCompleted b"
  "os_isVerified (real_info i m b) = (map_of (verifiedAccounts m) i = Some True)"
  "os_isLoggedIn (real_info i m b) = (map_of (loggedInAccounts m) i = Some True)"
  "os_isActivated (real_info i m b) = (i \<in> set (activeAccountId m))"
  "os_record_ok (real_info i m b) = os_record_ok b" "IsValidOsAccount (real_info i m b) = IsValidOsAccount b"
  by (simp_all add: real_info_def Let_def IsOsAccountIDInActiveList_def IsValidOsAccount_def)

lemma GetReal_spec:
  assumes "osm_ok E" and "GetRealOsAccountInfoById E i st = ((r, a), st')"
  shows "same_accounts E st st'
    \<and> (r = ERR_OK \<longrightarrow> (\<exists>b. stored_account E (o_fs st) i = Some b \<and> a = real_info i (o_mem st) b))"
proof -
  obtain r1 b st1 where 1: "on_files (GetOsAccountInfoById E i OsAccountInfo_init) st = ((r1, b), st1)" by (metis prod.collapse)
  have nd: "\<not> DISTRIBUTED E" using assms(1) by (simp add: osm_ok_def)
  have s: "same_accounts E st st1" by (rule same_read [OF nd 1])
  have "r1 = ERR_OK \<Longrightarrow> stored_account E (o_fs st) i = Some b"
    using 1 GetById_ok [OF nd] by (auto simp: on_files_def split: prod.splits)
  moreover have "o_mem st1 = o_mem st" using s by (simp add: same_accounts_def)
  ultimately show ?thesis
    using assms(2) s by (auto simp: GetRealOsAccountInfoById_def 1 split: if_splits)
qed

lemma update_spec:
  assumes "osm_ok E" and "files_ok E (o_fs st)" and "os_record_ok a" and "on_files (UpdateOsAccountInfo E a) st = (r, st')"
  shows "o_mem st' = o_mem st \<and> files_ok E (o_fs st') \<and> others_kept E (os_localId a) st st'
    \<and> stored_account E (o_fs st') (os_localId a) = (if r = ERR_OK then Some a else stored_account E (o_fs st) (os_localId a))"
proof -
  obtain fs' where u: "UpdateOsAccountInfo E a (o_fs st) = (r, fs')" and st': "st' = st\<lparr>o_fs := fs'\<rparr>"
    using assms(4) by (auto simp: on_files_def split: prod.splits)
  have "cjson_ok E" using assms(1) by (simp add: osm_ok_def)
  from Update_stored [OF this assms(3) u] show ?thesis
    using assms(2,3) by (auto simp: st' files_ok_def others_kept_def)
qed

lemma SetDomainInfo_spec:
  assumes "SetDomainInfo E d a = (x, a')" and "os_record_ok a" and "domain_ok d"
  shows "os_record_ok a' \<and> os_localId a' = os_localId a"
  using assms by (auto simp: SetDomainInfo_def record_ok_domain split: if_splits)

section \<open>Deactivation\<close>

lemma ByInfo_mem:
  assumes "osm_ok E" and "files_ok E (o_fs st)" and "os_record_ok a"
    and "EraseIdFromActiveList (os_localId a) (CleanForegroundAccountMap a
      (erase_verified (os_localId a) (erase_logged_in (os_localId a) (o_mem st)))) = stopped (os_localId a) (o_mem st)"
    and "DeactivateOsAccountByInfo E a st = ((r, a'), st')"
  shows "o_mem st' = stopped (os_localId a) (o_mem st) \<and> files_ok E (o_fs st') \<and> others_kept E (os_localId a) st st'
    \<and> os_localId a' = os_localId a"
proof -
  let ?i = "os_localId a"
  let ?st1 = "upd_mem (\<lambda>m. EraseIdFromActiveList ?i (CleanForegroundAccountMap a (erase_verified ?i (erase_logged_in ?i m)))) st"
  let ?d = "(os_domainInfo a)\<lparr>di_status := DOMAIN_LOGOUT\<rparr>"
  obtain x a1 where 1: "SetDomainInfo E ?d a = (x, a1)" by (metis prod.collapse)
  have "domain_ok ?d" using assms(3) by (simp add: os_record_ok_def domain_ok_def DOMAIN_LOGOUT_def)
  with SetDomainInfo_spec [OF 1 assms(3)] have a1: "os_record_ok a1" "os_localId a1 = ?i" by simp_all
  obtain r2 st2 where 2: "on_files (UpdateOsAccountInfo E a1) ?st1 = (r2, st2)" by (metis prod.collapse)
  have m: "o_mem ?st1 = stopped ?i (o_mem st)" using assms(4) by simp
  have "st' = st2" "a' = a1" using assms(5) by (auto simp: DeactivateOsAccountByInfo_def Let_def 1 2 split: if_splits)
  with update_spec [OF assms(1) _ a1(1) 2] assms(2) m a1(2) show ?thesis by simp
qed

lemma ByInfo_spec:
  assumes "osm_ok E" and "files_ok E (o_fs st)" and "os_record_ok a" and "sm_wf (foregroundAccountMap (o_mem st))"
    and "\<forall>d. map_of (foregroundAccountMap (o_mem st)) d \<noteq> Some (os_localId a)"
    and "DeactivateOsAccountByInfo E a st = ((r, a'), st')"
  shows "o_mem st' = stopped (os_localId a) (o_mem st) \<and> files_ok E (o_fs st') \<and> others_kept E (os_localId a) st st'"
  using ByInfo_mem [OF assms(1-3) stop_mem [OF assms(5,4)] assms(6)] by blast

lemma SendMsgDeactivate_spec:
  assumes "osm_ok E" and "files_ok E (o_fs st)" and "os_record_ok b" and "os_localId b = i" and "mem_inv E (o_mem st)"
    and "foregroundAccountMap m0 = foregroundAccountMap (o_mem st)" and "activeAccountId m0 = activeAccountId (o_mem st)"
    and "SendMsgForAccountDeactivate E (real_info i m0 b) s st = ((r, a'), st')"
  shows "(o_mem st' = stopped i (o_mem st) \<or> r \<noteq> ERR_OK \<and> o_mem st' = without_fg i (o_mem st))
    \<and> files_ok E (o_fs st') \<and> others_kept E i st st'"
proof -
  let ?a = "real_info i m0 b" let ?m = "without_fg i (o_mem st)"
  let ?st1 = "upd_mem (CleanForegroundAccountMap ?a) st"
  have c: "o_mem ?st1 = ?m"
    using assms(4-7) Clean_real [OF assms(5), of ?a i b]
    by (simp add: real_info_def IsOsAccountIDInActiveList_def Let_def)
  note inv = without_fg_inv [OF assms(5), of i]
  obtain r2 st2 where 2: "SendToAMSAccountDeactivate E ?a ?st1 = (r2, st2)" by (metis prod.collapse)
  let ?st3 = "publish (StateEvent ''STOPPING'' i) st2"
  obtain r4 a4 st4 where 4: "(if s then SendToStorageAccountStop E ?a ?st3 else ((ERR_OK, ?a), ?st3)) = ((r4, a4), st4)"
    by (metis prod.collapse)
  have s2: "same_accounts E ?st1 st2" by (rule same_AMS_deactivate [OF 2])
  have s4: "same_accounts E ?st3 st4 \<and> (a4 = ?a \<or> a4 = ?a\<lparr>os_isVerified := False\<rparr>)"
    using 4 StorageStop_spec [of E ?a ?st3] by (auto split: if_splits)
  have m: "o_mem st2 = ?m" "o_mem st4 = ?m" and f: "files_ok E (o_fs st2)" "files_ok E (o_fs st4)"
    and o: "others_kept E i st st2" "others_kept E i st st4"
    using s2 s4 c assms(2) by (auto simp: same_accounts_def files_ok_def others_kept_def)
  have a4: "os_record_ok a4" "os_localId a4 = i" using s4 assms(3,4) by auto
  have st: "EraseIdFromActiveList i (erase_verified i (erase_logged_in i ?m)) = stopped i (o_mem st)"
    by (simp add: Erase_removeAll erase_verified_def erase_logged_in_def stopped_def without_fg_def)
  show ?thesis
  proof (cases "r2 = ERR_OK \<and> r4 = ERR_OK")
    case True
    then have "DeactivateOsAccountByInfo E a4 st4 = ((r, a'), st')"
      using assms(4,8) by (simp add: SendMsgForAccountDeactivate_def Let_def 2 4)
    from ByInfo_spec [OF assms(1) f(2) a4(1) _ _ this] inv m(2) a4(2) o(2) show ?thesis
      by (auto simp: fg_inv_def stopped_without intro: others_trans simp del: map_of_eq_Some_iff)
  next
    case False
    with assms(4,8) m f o st show ?thesis by (auto simp: SendMsgForAccountDeactivate_def Let_def 2 4 split: if_splits)
  qed
qed

text \<open>The marker of a request in progress: a request that takes it gives it back.\<close>

definition marked :: "int \<Rightarrow> os_memory \<Rightarrow> os_memory" where
  "marked i m = m\<lparr>operatingId := operatingId m @ [i]\<rparr>"

lemma mark_spec:
  "CheckAndAddLocalIdOperating i st = (added, st0) \<Longrightarrow>
   (if added then i \<notin> set (operatingId (o_mem st)) \<and> st0 = upd_mem (marked i) st else st0 = st)"
  by (auto simp: CheckAndAddLocalIdOperating_def marked_def [abs_def] split: if_splits)

lemma marked_simps [simp]:
  "foregroundAccountMap (marked i m) = foregroundAccountMap m" "activeAccountId (marked i m) = activeAccountId m"
  "verifiedAccounts (marked i m) = verifiedAccounts m" "loggedInAccounts (marked i m) = loggedInAccounts m"
  "deactivatingAccounts (marked i m) = deactivatingAccounts m" "lockingAccounts (marked i m) = lockingAccounts m"
  "defaultActivatedIds (marked i m) = defaultActivatedIds m" "deviceOwnerId (marked i m) = deviceOwnerId m"
  "operatingId (marked i m) = operatingId m @ [i]"
  by (simp_all add: marked_def)

lemma unmark [simp]:
  "i \<notin> set (operatingId m) \<Longrightarrow> operatingId m' = operatingId m @ [i] \<Longrightarrow>
   m'\<lparr>operatingId := remove1 i (operatingId m')\<rparr> = m'\<lparr>operatingId := operatingId m\<rparr>"
  by (simp add: remove1_append)

lemma o_mem_unmark [simp]:
  "o_mem (RemoveLocalIdToOperating i st) = (o_mem st)\<lparr>operatingId := remove1 i (operatingId (o_mem st))\<rparr>"
  "o_fs (RemoveLocalIdToOperating i st) = o_fs st"
  "others_kept E j st0 (RemoveLocalIdToOperating i st) = others_kept E j st0 st"
  by (simp_all add: RemoveLocalIdToOperating_def)

lemma remove1_mark [simp]: "i \<notin> set xs \<Longrightarrow> remove1 i (xs @ [i]) = xs"
  by (simp add: remove1_append)

lemma marked_back [simp]:
  "(marked i m)\<lparr>operatingId := operatingId m\<rparr> = m"
  "(without_fg i m1)\<lparr>operatingId := x\<rparr> = without_fg i (m1\<lparr>operatingId := x\<rparr>)"
  "(stopped i m1)\<lparr>operatingId := x\<rparr> = stopped i (m1\<lparr>operatingId := x\<rparr>)"
  "operatingId (without_fg i m1) = operatingId m1" "operatingId (stopped i m1) = operatingId m1"
  by (simp_all add: marked_def without_fg_def stopped_def)

lemma pair3: obtains r a s where "x = ((r, a), s)"
  by (metis surj_pair)

lemma same_real: "same_accounts E st st' \<Longrightarrow> o_mem st' = o_mem st \<and> stored_account E (o_fs st') = stored_account E (o_fs st)"
  by (simp add: same_accounts_def)

lemma Deactivate_spec:
  assumes "osm_ok E" and "files_ok E (o_fs st)" and "mem_inv E (o_mem st)" and "deactivatingAccounts (o_mem st) = []"
    and "DeactivateOsAccount E i s st = (r, st')"
  shows "(o_mem st' = stopped i (o_mem st) \<or> r \<noteq> ERR_OK \<and> o_mem st' = without_fg i (o_mem st)
      \<or> o_mem st' = o_mem st \<and> (r = ERR_OK \<longrightarrow> i \<notin> set (activeAccountId (o_mem st)) \<and> map_of (verifiedAccounts (o_mem st)) i \<noteq> Some True))
    \<and> files_ok E (o_fs st') \<and> others_kept E i st st'"
proof -
  obtain added st0 where 0: "CheckAndAddLocalIdOperating i st = (added, st0)" by (metis prod.collapse)
  show ?thesis
  proof (cases added)
    case False
    with assms mark_spec [OF 0] show ?thesis by (auto simp: DeactivateOsAccount_def 0)
  next
    case True
    let ?m = "o_mem st"
    have n: "i \<notin> set (operatingId ?m)" and st0: "st0 = upd_mem (marked i) st" using mark_spec [OF 0] True by simp_all
    obtain r1 a st1 where 1: "GetRealOsAccountInfoById E i st0 = ((r1, a), st1)" by (metis prod.collapse)
    from GetReal_spec [OF assms(1) 1] have m1: "o_mem st1 = marked i ?m" and f1: "stored_account E (o_fs st1) = stored_account E (o_fs st)"
      by (simp_all add: same_accounts_def st0)
    then have o1: "others_kept E i st st1" and ok1: "files_ok E (o_fs st1)" using assms(2) by (simp_all add: others_kept_def files_ok_def)
    show ?thesis
    proof (cases "r1 = ERR_OK \<and> (os_isActivated a \<or> os_isVerified a) \<and> IsValidOsAccount a = ERR_OK")
      case False
      moreover have "r1 = ERR_OK \<Longrightarrow> (os_isActivated a = (i \<in> set (activeAccountId ?m))) \<and> (os_isVerified a = (map_of (verifiedAccounts ?m) i = Some True))"
        using GetReal_spec [OF assms(1) 1] by (auto simp: st0)
      ultimately show ?thesis
        using assms(5) True m1 o1 ok1 n by (auto simp: DeactivateOsAccount_def 0 1 Let_def split: if_splits)
    next
      case valid: True
      then obtain b where b: "stored_account E (o_fs st) i = Some b" "a = real_info i (marked i ?m) b"
        using GetReal_spec [OF assms(1) 1] by (auto simp: st0)
      let ?st3 = "publish (CommonEvent ''USER_STOPPING'' i)
          (upd_mem (\<lambda>m. m\<lparr>deactivatingAccounts := sm_put i True (deactivatingAccounts m)\<rparr>) st1)"
      obtain r4 a4 st4 where 4: "SendMsgForAccountDeactivate E a s ?st3 = ((r4, a4), st4)" by (rule pair3)
      have "os_localId b = i \<and> os_record_ok b" using b(1) assms(2) unfolding files_ok_def by blast
      moreover have "files_ok E (o_fs ?st3)" "mem_inv E (o_mem ?st3)" using ok1 assms(3) by (simp_all add: m1)
      ultimately have spec: "(o_mem st4 = stopped i (o_mem ?st3) \<or> r4 \<noteq> ERR_OK \<and> o_mem st4 = without_fg i (o_mem ?st3))
        \<and> files_ok E (o_fs st4) \<and> others_kept E i st1 st4"
        using SendMsgDeactivate_spec [OF assms(1) _ _ _ _ _ _ 4 [unfolded b(2)]] by (simp add: m1)
      have undo: "(stopped i (o_mem ?st3))\<lparr>deactivatingAccounts := [], operatingId := operatingId ?m\<rparr> = stopped i ?m"
        "(without_fg i (o_mem ?st3))\<lparr>deactivatingAccounts := [], operatingId := operatingId ?m\<rparr> = without_fg i ?m"
        using assms(4) by (simp_all add: m1 stopped_def without_fg_def marked_def)
      have "deactivatingAccounts (o_mem st4) = [(i, True)]" "operatingId (o_mem st4) = operatingId ?m @ [i]"
        using spec assms(4) by (auto simp: m1 stopped_def without_fg_def)
      moreover have "sm_erase i [(i, True)] = []" by (simp add: sm_erase_def)
      ultimately have "o_mem st' = (o_mem st4)\<lparr>deactivatingAccounts := [], operatingId := operatingId ?m\<rparr>"
        and "o_fs st' = o_fs st4" and "r = r4"
        using assms(5) True valid n by (auto simp: DeactivateOsAccount_def 0 1 4 Let_def split: if_splits)
      with spec undo o1 show ?thesis by (auto simp: others_kept_def)
    qed
  qed
qed

section \<open>Activation\<close>

text \<open>The part of the memory that says who is active, who is in front and which requests are under way.\<close>

definition same_front :: "os_memory \<Rightarrow> os_memory \<Rightarrow> bool" where
  "same_front m m' \<longleftrightarrow> foregroundAccountMap m' = foregroundAccountMap m \<and> activeAccountId m' = activeAccountId m
     \<and> operatingId m' = operatingId m \<and> deactivatingAccounts m' = deactivatingAccounts m
     \<and> lockingAccounts m' = lockingAccounts m"

lemma same_front_refl [simp, intro]: "same_front m m"
  by (simp add: same_front_def)

lemma same_front_trans [trans]: "same_front m m1 \<Longrightarrow> same_front m1 m2 \<Longrightarrow> same_front m m2"
  by (simp add: same_front_def)

lemma same_front_upd [simp]:
  "same_front m (m'\<lparr>verifiedAccounts := v\<rparr>) = same_front m m'" "same_front m (m'\<lparr>loggedInAccounts := v\<rparr>) = same_front m m'"
  "same_front m (m'\<lparr>defaultActivatedIds := w\<rparr>) = same_front m m'"
  by (simp_all add: same_front_def)

lemma same_front_inv: "same_front m m' \<Longrightarrow> mem_inv E m \<Longrightarrow> mem_inv E m'"
  by (simp add: same_front_def)

lemma same_accounts_front: "same_accounts E st st' \<Longrightarrow> same_front (o_mem st) (o_mem st') \<and> files_ok E (o_fs st') = files_ok E (o_fs st)"
  by (simp add: same_accounts_def files_ok_def)

lemma Background_spec:
  assumes "osm_ok E" and "files_ok E (o_fs st)" and "mem_inv E (o_mem st)" and "deactivatingAccounts (o_mem st) = []"
    and "\<forall>d. map_of (foregroundAccountMap (o_mem st)) d \<noteq> Some i" and "UpdateAccountToBackground E i st = (r, st')"
  shows "r = ERR_OK \<and> (o_mem st' = o_mem st \<or> o_mem st' = stopped i (o_mem st)) \<and> files_ok E (o_fs st')"
proof -
  let ?st1 = "publish (CommonEvent ''USER_BACKGROUND'' i) st"
  obtain r2 a st2 where 2: "on_files (GetOsAccountInfoById E i (OsAccountInfo_init\<lparr>os_localId := i\<rparr>)) ?st1 = ((r2, a), st2)"
    by (rule pair3)
  obtain r3 st3 where 3: "DeactivateOsAccount E i False st2 = (r3, st3)" by (metis prod.collapse)
  obtain r4 a4 st4 where 4: "DeactivateOsAccountByInfo E a st2 = ((r4, a4), st4)" by (rule pair3)
  have nd: "\<not> DISTRIBUTED E" using assms(1) by (simp add: osm_ok_def)
  from same_read [OF this 2] have same: "o_mem st2 = o_mem st" "files_ok E (o_fs st2)"
    using assms(2) by (simp_all add: same_accounts_def files_ok_def)
  have fg: "without_fg i (o_mem st) = o_mem st" using assms(3) no_fg_filter [OF assms(5)] by (simp add: without_fg_def fg_inv_def)
  have deact: "(o_mem st3 = o_mem st \<or> o_mem st3 = stopped i (o_mem st)) \<and> files_ok E (o_fs st3)"
    using Deactivate_spec [OF assms(1) _ _ _ 3] same assms(3,4) fg by auto
  show ?thesis
  proof (cases "r2 = ERR_OK \<and> \<not> MULTIPLE_ACTIVE E")
    case True
    then obtain fs' where "GetOsAccountInfoById E i (OsAccountInfo_init\<lparr>os_localId := i\<rparr>) (o_fs st) = ((ERR_OK, a), fs')"
      using 2 by (auto simp: on_files_def split: prod.splits)
    from GetById_ok [OF nd GetById_from [OF nd this]] have "os_localId a = i" "os_record_ok a"
      using assms(2) unfolding files_ok_def by blast+
    then show ?thesis
      using ByInfo_spec [OF assms(1) _ _ _ _ 4] True assms(3,5,6) same
      by (auto simp: UpdateAccountToBackground_def 2 4 Let_def fg_inv_def)
  next
    case False
    with deact same assms(6) show ?thesis
      by (auto simp: UpdateAccountToBackground_def 2 3 Let_def split: if_splits)
  qed
qed

lemma InnerStorageStart_spec:
  assumes "osm_ok E" and "files_ok E (o_fs st)" and "os_isCreateCompleted a \<longrightarrow> os_record_ok a"
    and "SendToStorageAccountStart E a st = ((r, a'), st')"
  shows "same_front (o_mem st) (o_mem st') \<and> files_ok E (o_fs st') \<and> os_localId a' = os_localId a"
proof -
  obtain e a1 st1 where 1: "StorageAccountStart E a st = ((e, a1), st1)" by (rule pair3)
  from StorageAccountStart_spec [OF 1 assms(1)] assms(2,3)
  have a1: "os_localId a1 = os_localId a" "os_isCreateCompleted a1 \<longrightarrow> os_record_ok a1"
    and st1: "o_mem st1 = o_mem st" "files_ok E (o_fs st1)"
    by (auto simp: same_accounts_def files_ok_def)
  define st3 where "st3 = (let i = os_localId a; st2 = (if os_isVerified a1 then upd_mem (\<lambda>m. m\<lparr>verifiedAccounts := sm_put i True (verifiedAccounts m)\<rparr>) st1 else st1) in
     (if os_isLoggedIn a1 then upd_mem (\<lambda>m. m\<lparr>loggedInAccounts := sm_put i True (loggedInAccounts m)\<rparr>) st2 else st2))"
  have st3: "same_front (o_mem st) (o_mem st3)" "files_ok E (o_fs st3)"
    using st1 by (simp_all add: st3_def Let_def)
  let ?st4 = "publish (StateEvent ''UNLOCKED'' (os_localId a)) (publish (CommonEvent ''USER_UNLOCKED'' (os_localId a)) st3)"
  obtain r5 st5 where 5: "on_files (UpdateOsAccountInfo E a1) ?st4 = (r5, st5)" by (metis prod.collapse)
  have up: "os_isCreateCompleted a1 \<Longrightarrow> o_mem st5 = o_mem st3 \<and> files_ok E (o_fs st5)"
    using update_spec [OF assms(1) _ _ 5] a1 st3 by auto
  show ?thesis
    using assms(4) a1 st1 st3 up by (auto simp: SendToStorageAccountStart_def 1 5 Let_def st3_def [symmetric, unfolded Let_def] split: if_splits)
qed

text \<open>What the call back of the ability manager does to the memory.\<close>

definition fronted :: "'z osm_env_scheme \<Rightarrow> u64 \<Rightarrow> int \<Rightarrow> os_memory \<Rightarrow> os_memory" where
  "fronted E d i m =
     (let m1 = (if MULTI_FOREGROUND E \<and> d \<noteq> DEFAULT_DISPLAY_ID then m\<lparr>activeAccountId := activeAccountId m @ [i]\<rparr>
                else PushIdIntoActiveList E i m) in
      if d \<noteq> INVALID_DISPLAY_ID then m1\<lparr>foregroundAccountMap := sm_put d i (foregroundAccountMap m1)\<rparr> else m1)"

lemma start_callback_mem: "start_callback E d i st = upd_mem (fronted E d i) st"
  by (simp add: start_callback_def fronted_def upd_mem_def Let_def)

lemma fronted_simps [simp]:
  "operatingId (fronted E d i m) = operatingId m" "deactivatingAccounts (fronted E d i m) = deactivatingAccounts m"
  "lockingAccounts (fronted E d i m) = lockingAccounts m" "verifiedAccounts (fronted E d i m) = verifiedAccounts m"
  "loggedInAccounts (fronted E d i m) = loggedInAccounts m" "i \<in> set (activeAccountId (fronted E d i m))"
  "map_of (foregroundAccountMap (fronted E d i m)) =
     (if d = INVALID_DISPLAY_ID then map_of (foregroundAccountMap m) else (map_of (foregroundAccountMap m))(d \<mapsto> i))"
  by (simp_all add: fronted_def PushIdIntoActiveList_def Let_def)

lemma fronted_active:
  "MULTIPLE_ACTIVE E \<Longrightarrow> set (activeAccountId (fronted E d i m)) = insert i (set (activeAccountId m))"
  by (auto simp: fronted_def PushIdIntoActiveList_def Let_def)

text \<open>A display an account may be brought to the front of.\<close>

definition display_free :: "'z osm_env_scheme \<Rightarrow> u64 \<Rightarrow> int \<Rightarrow> os_memory \<Rightarrow> bool" where
  "display_free E d i m \<longleftrightarrow>
     (if MULTI_FOREGROUND E then \<forall>d'. map_of (foregroundAccountMap m) d' = Some i \<longrightarrow> d' = d
      else d = DEFAULT_DISPLAY_ID \<or> d = INVALID_DISPLAY_ID)
     \<and> (MULTIPLE_ACTIVE E \<or> d \<noteq> INVALID_DISPLAY_ID)"

lemma fronted_inv:
  assumes "osm_ok E" and "mem_inv E m" and "display_free E d i m"
  shows "mem_inv E (fronted E d i m)"
proof -
  have wf: "sm_wf (foregroundAccountMap (fronted E d i m))"
    using assms(2) by (simp add: fronted_def PushIdIntoActiveList_def Let_def fg_inv_def)
  have dist: "\<not> MULTI_FOREGROUND E \<longrightarrow> distinct (activeAccountId (fronted E d i m))"
    using assms(2) by (auto simp: fronted_def PushIdIntoActiveList_def Let_def fg_inv_def distinct_removeAll)
  have "MULTIPLE_ACTIVE E \<or> set (activeAccountId (fronted E d i m)) = {i} \<and> \<not> MULTI_FOREGROUND E \<and> d = DEFAULT_DISPLAY_ID"
    using assms(1,3) by (auto simp: osm_ok_def display_free_def fronted_def PushIdIntoActiveList_def Let_def)
  then show ?thesis
    using assms(2,3) wf dist fronted_active [of E d i m]
    by (auto simp: fg_inv_def display_free_def simp del: map_of_eq_Some_iff split: if_splits)
qed

lemma fronted_same: "same_front m m1 \<Longrightarrow> same_front (fronted E d i m) (fronted E d i m1)"
  by (simp add: same_front_def fronted_def PushIdIntoActiveList_def Let_def)

lemma StorageAndAMS_spec:
  assumes "osm_ok E" and "files_ok E (o_fs st)" and "os_isCreateCompleted a \<longrightarrow> os_record_ok a"
    and "SendToStorageAndAMSAccountStart E a s d rec oldId st = ((r, a'), st')"
  shows "files_ok E (o_fs st')
    \<and> (if r = ERR_OK then \<exists>m. same_front (o_mem st) m \<and> o_mem st' = fronted E d (os_localId a) m
       else same_front (o_mem st) (o_mem st'))"
proof -
  obtain r1 a1 st1 where 1: "(if s then SendToStorageAccountStart E a st else ((ERR_OK, a), st)) = ((r1, a1), st1)" by (rule pair3)
  obtain r2 st2 where 2: "SendToAMSAndSamgrAccountStart E a1 d rec st1 = (r2, st2)" by (metis prod.collapse)
  have s1: "same_front (o_mem st) (o_mem st1)" "files_ok E (o_fs st1)" "os_localId a1 = os_localId a"
    using 1 InnerStorageStart_spec [OF assms(1-3)] assms(2) by (auto split: if_splits)
  have roll: "o_mem (RollBackToEarlierAccount x y z u) = o_mem u" "o_fs (RollBackToEarlierAccount x y z u) = o_fs u" for x y z u
    by (simp_all add: RollBackToEarlierAccount_def)
  have s2: "files_ok E (o_fs st2) \<and> (if r2 = ERR_OK then o_mem st2 = fronted E d (os_localId a) (o_mem st1) else o_mem st2 = o_mem st1)"
    using AMS_start [OF 2 [unfolded SendToAMSAndSamgrAccountStart_def] assms(1)] s1
    by (auto simp: start_callback_mem same_accounts_def files_ok_def split: if_splits)
  show ?thesis
    using assms(4) s1 s2 by (auto simp: SendToStorageAndAMSAccountStart_def 1 2 roll Let_def split: if_splits)
qed

lemma SendMsgActivate_spec:
  assumes "osm_ok E" and "files_ok E (o_fs st)" and "os_isCreateCompleted a \<longrightarrow> os_record_ok a"
    and "mem_inv E (o_mem st)" and "deactivatingAccounts (o_mem st) = []" and "display_free E d (os_localId a) (o_mem st)"
    and "SendMsgForAccountActivate E a s d rec st = ((r, a'), st')"
  shows "files_ok E (o_fs st')
    \<and> (if r = ERR_OK
       then \<exists>m j. same_front (fronted E d (os_localId a) (o_mem st)) m \<and> map_of (foregroundAccountMap (o_mem st)) d \<noteq> Some (os_localId a)
              \<and> map_of (foregroundAccountMap (o_mem st)) d = Some j \<and> o_mem st' = stopped j m
            \<or> same_front (fronted E d (os_localId a) (o_mem st)) (o_mem st')
       else same_front (o_mem st) (o_mem st'))"
proof -
  let ?i = "os_localId a"
  let ?old = "map_of (foregroundAccountMap (o_mem st)) d"
  let ?oldId = "or_keep ?old (-1)"
  define st2 where "st2 = (let st1 = (if \<not> os_isActivated a then publish (CommonEvent ''USER_STARTING'' ?i) st else st) in
     if ?oldId \<noteq> ?i then publish (SwitchEvent ''SWITCHING'' ?oldId ?i d) st1 else st1)"
  have same2: "o_mem st2 = o_mem st" "o_fs st2 = o_fs st" by (simp_all add: st2_def Let_def)
  obtain r3 a3 st3 where 3: "SendToStorageAndAMSAccountStart E a s d rec ?oldId st2 = ((r3, a3), st3)" by (rule pair3)
  note start = StorageAndAMS_spec [OF assms(1) _ assms(3) 3, unfolded same2, OF assms(2)]
  define st4 where "st4 = (if ?oldId \<noteq> ?i then publish (CommonEvent ''USER_FOREGROUND'' ?i) st3 else st3)"
  define st5 where "st5 = (if ACTIVATE_LAST E \<and> os_isLoggedIn a3
      then upd_mem (\<lambda>m. m\<lparr>defaultActivatedIds := sm_put d ?i (defaultActivatedIds m)\<rparr>)
             (snd (on_files (SetDefaultActivatedOsAccount E (unat d) ?i) st4)) else st4)"
  define st6 where "st6 = (if ?oldId \<noteq> ?i then publish (SwitchEvent ''SWITCHED'' ?oldId ?i d) (publish (StateEvent ''ACTIVATED'' ?i)
      (publish (CommonEvent ''USER_SWITCHED'' ?i) st5)) else st5)"
  obtain x s5 where s5: "on_files (SetDefaultActivatedOsAccount E (unat d) ?i) st4 = (x, s5)" by (metis prod.collapse)
  have same6: "same_front (o_mem st3) (o_mem st6) \<and> files_ok E (o_fs st6) = files_ok E (o_fs st3)"
    using same_set_default [OF s5] by (simp add: st6_def st5_def s5 same_accounts_def files_ok_def) (simp add: st4_def)
  obtain r7 st7 where 7: "(if ?old \<noteq> None \<and> ?oldId \<noteq> ?i then UpdateAccountToBackground E ?oldId st6 else (ERR_OK, st6)) = (r7, st7)"
    by (metis prod.collapse)
  have res: "if r3 = ERR_OK \<and> r7 = ERR_OK then r = ERR_OK \<and> o_mem st' = o_mem st7 \<and> o_fs st' = o_fs st7
    else if r3 = ERR_OK then r = r7 \<and> st' = st7 else r = r3 \<and> st' = st3"
    using assms(7) unfolding SendMsgForAccountActivate_def Let_def st2_def [unfolded Let_def, symmetric] 3 prod.case
      st4_def [symmetric] st5_def [symmetric] st6_def [symmetric] 7
    by (auto split: if_splits)
  show ?thesis
  proof (cases "r3 = ERR_OK")
    case True
    then have front: "same_front (fronted E d ?i (o_mem st)) (o_mem st3)"
      using start fronted_same by (metis (no_types))
    then have front6: "same_front (fronted E d ?i (o_mem st)) (o_mem st6)" and ok6: "files_ok E (o_fs st6)"
      using start same6 by (auto intro: same_front_trans)
    show ?thesis
    proof (cases "?old \<noteq> None \<and> ?oldId \<noteq> ?i")
      case switch: True
      then obtain j where j: "?old = Some j" "j \<noteq> ?i" by (auto simp: or_keep_def)
      have inv6: "mem_inv E (o_mem st6)" by (rule same_front_inv [OF front6 fronted_inv [OF assms(1,4,6)]])
      have "\<forall>d'. map_of (foregroundAccountMap (o_mem st6)) d' \<noteq> Some j"
        using front6 assms(4) j by (auto simp: same_front_def fg_inv_def simp del: map_of_eq_Some_iff)
      moreover have "deactivatingAccounts (o_mem st6) = []" using front6 assms(5) by (simp add: same_front_def)
      ultimately have "r7 = ERR_OK \<and> (o_mem st7 = o_mem st6 \<or> o_mem st7 = stopped j (o_mem st6)) \<and> files_ok E (o_fs st7)"
        using Background_spec [OF assms(1) ok6 inv6] 7 j switch by (simp add: or_keep_def)
      with True res front6 j show ?thesis by auto
    next
      case False
      with 7 True res front6 ok6 show ?thesis by auto
    qed
  next
    case False
    with start res show ?thesis by simp
  qed
qed

end
