(* ===== verification/Os_Account_Requests.thy ===== *)
theory Os_Account_Requests
  imports Os_Account_States
begin

text \<open>
  The requests to the manager of OS accounts as steps of a transition system: what an activation leaves, the other requests, and the
  invariant that holds after any sequence of requests.
\<close>

section \<open>What an activation checks first\<close>

lemma denied_unchanged:
  assumes "\<not> DISTRIBUTED E" and "GetOsAccountInfoById E i a fs = ((ERR_ACCOUNT_COMMON_FILE_ACCESS_DENIED, b), fs')"
  shows "b = a"
  using assms by (auto simp: GetOsAccountInfoById_def GetOsAccountFromDatabase_def Let_def split: if_splits prod.splits)

lemma GetReal_denied:
  assumes "osm_ok E" and "GetRealOsAccountInfoById E i st = ((ERR_ACCOUNT_COMMON_FILE_ACCESS_DENIED, a), st')"
  shows "a = OsAccountInfo_init"
proof -
  obtain r1 b st1 where 1: "on_files (GetOsAccountInfoById E i OsAccountInfo_init) st = ((r1, b), st1)" by (rule pair3)
  have "\<not> DISTRIBUTED E" using assms(1) by (simp add: osm_ok_def)
  from denied_unchanged [OF this] show ?thesis
    using 1 assms(2) by (auto simp: GetRealOsAccountInfoById_def on_files_def split: if_splits prod.splits)
qed

lemma same_validate_id: "ValidateDisplayId E d st = (r, st') \<Longrightarrow> same_accounts F st st'"
  by (auto simp: ValidateDisplayId_def QueryAllDisplayIds_def Let_def split: prod.splits if_splits intro: same_ask)

lemma Ensure_frame:
  assumes "EnsureConfigReady E Z (z, fs) = (r, z', fs')"
  shows "fs_files fs' = fs_files fs
    \<and> (r = ERR_OK \<or> r = ERR_ACCOUNT_COMMON_BAD_JSON_FORMAT_ERROR \<or> r = ERR_ACCOUNT_COMMON_FILE_READ_FAILED)"
  using assms Load_spec [of E Z z fs] by (auto simp: EnsureConfigReady_def Let_def split: if_splits prod.splits)

lemma same_primary:
  assumes "on_zones (IsDisplayPrimary E Z d) st = ((r, p), st')"
  shows "same_accounts F st st' \<and> r \<noteq> ERR_OSACCOUNT_SERVICE_INNER_ACCOUNT_ALREADY_ACTIVE_ERROR"
proof -
  obtain e z fs where 1: "EnsureConfigReady E Z (o_zones st, o_fs st) = (e, z, fs)" by (metis prod_cases3)
  show ?thesis
    using assms Ensure_frame [OF 1] stored_account_files [of fs "o_fs st" F]
    by (auto simp: on_zones_def IsDisplayPrimary_def 1 same_accounts_def split: if_splits option.splits)
qed

lemma same_validate_primary:
  assumes "ValidateDisplayPrimary E d st = (r, st')"
  shows "same_accounts F st st' \<and> r \<noteq> ERR_OSACCOUNT_SERVICE_INNER_ACCOUNT_ALREADY_ACTIVE_ERROR"
proof -
  obtain r1 st1 where 1: "ValidateDisplayId E d st = (r1, st1)" by (metis prod.collapse)
  obtain r2 p st2 where 2: "on_zones (IsDisplayPrimary E (zone_lib E) d) st1 = ((r2, p), st2)" by (rule pair3)
  have s: "same_accounts F st st1" "same_accounts F st1 st2" using same_validate_id [OF 1] same_primary [OF 2] by blast+
  have "r1 \<noteq> ERR_OSACCOUNT_SERVICE_INNER_ACCOUNT_ALREADY_ACTIVE_ERROR"
    using 1 by (auto simp: ValidateDisplayId_def split: prod.splits if_splits)
  with assms s same_trans [OF s] same_primary [OF 2] show ?thesis
    by (auto simp: ValidateDisplayPrimary_def 1 2 split: if_splits)
qed

lemma Validate_spec:
  assumes "ValidateDisplayForActivation E i d st = (r, st')"
  shows "same_accounts F st st' \<and> r \<noteq> ERR_OSACCOUNT_SERVICE_INNER_ACCOUNT_ALREADY_ACTIVE_ERROR
    \<and> (r = ERR_OK \<longrightarrow> (\<forall>d'. map_of (foregroundAccountMap (o_mem st)) d' = Some i \<longrightarrow> d' = d))"
proof -
  obtain r1 st1 where 1: "(if d \<noteq> DEFAULT_DISPLAY_ID then ValidateDisplayPrimary E d st else (ERR_OK, st)) = (r1, st1)"
    by (metis prod.collapse)
  have s: "same_accounts F st st1" "r1 \<noteq> ERR_OSACCOUNT_SERVICE_INNER_ACCOUNT_ALREADY_ACTIVE_ERROR"
    using 1 same_validate_primary [of E d st r1 st1 F] by (auto split: if_splits)
  have "st' = st1" using assms 1 by (auto simp: ValidateDisplayForActivation_def Let_def split: if_splits)
  moreover have "r = ERR_OK \<Longrightarrow> \<not> list_ex (\<lambda>e. snd e = i \<and> fst e \<noteq> d) (foregroundAccountMap (o_mem st1))"
    using assms 1 by (auto simp: ValidateDisplayForActivation_def Let_def split: if_splits)
  moreover have "r \<noteq> ERR_OSACCOUNT_SERVICE_INNER_ACCOUNT_ALREADY_ACTIVE_ERROR"
    using assms 1 s(2) by (auto simp: ValidateDisplayForActivation_def Let_def split: if_splits)
  ultimately show ?thesis
    using s by (fastforce simp: same_accounts_def list_ex_iff dest!: map_of_SomeD)
qed

text \<open>An account passes when its record is complete and not to be removed, or cannot be read while nobody is in front.\<close>

definition may_start :: "'z osm_env_scheme \<Rightarrow> int \<Rightarrow> u64 \<Rightarrow> osm_state \<Rightarrow> OsAccountInfo \<Rightarrow> bool" where
  "may_start E i d st a \<longleftrightarrow>
     (case stored_account E (o_fs st) i of Some b \<Rightarrow> IsValidOsAccount b = ERR_OK \<and> a = real_info i (o_mem st) b | None \<Rightarrow> False)
     \<or> map_of (foregroundAccountMap (o_mem st)) d = None \<and> a = OsAccountInfo_init\<lparr>os_localId := i\<rparr>"

lemma Prepare_spec:
  assumes "osm_ok E" and "files_ok E (o_fs st)" and "PrepareActivateOsAccount E i d st = ((r, a, f), st')"
  shows "same_accounts E st st' \<and> f = or_keep (map_of (foregroundAccountMap (o_mem st)) d) (-1)
    \<and> (r = ERR_OSACCOUNT_SERVICE_INNER_ACCOUNT_ALREADY_ACTIVE_ERROR \<longrightarrow> map_of (foregroundAccountMap (o_mem st)) d = Some i)
    \<and> (r = ERR_OK \<longrightarrow> may_start E i d st a \<and> (MULTIPLE_ACTIVE E \<or> d \<noteq> INVALID_DISPLAY_ID \<longrightarrow> display_free E d i (o_mem st)))"
proof -
  obtain e b st1 where 1: "GetRealOsAccountInfoById E i st = ((e, b), st1)" by (rule pair3)
  obtain e2 st2 where 2: "(if MULTI_FOREGROUND E then ValidateDisplayForActivation E i d st1
      else if d \<noteq> DEFAULT_DISPLAY_ID \<and> d \<noteq> INVALID_DISPLAY_ID then (ERR_ACCOUNT_COMMON_DISPLAY_ID_NOT_EXIST_ERROR, st1) else (ERR_OK, st1)) = (e2, st2)"
    by (metis prod.collapse)
  have s1: "same_accounts E st st1" and m1: "o_mem st1 = o_mem st"
    using GetReal_spec [OF assms(1) 1] by (simp_all add: same_accounts_def)
  have s2: "same_accounts E st1 st2 \<and> e2 \<noteq> ERR_OSACCOUNT_SERVICE_INNER_ACCOUNT_ALREADY_ACTIVE_ERROR
    \<and> (e2 = ERR_OK \<longrightarrow> MULTIPLE_ACTIVE E \<or> d \<noteq> INVALID_DISPLAY_ID \<longrightarrow> display_free E d i (o_mem st))"
    using 2 Validate_spec [of E i d st1 e2 st2 E] by (auto simp: display_free_def m1 split: if_splits)
  have valid: "IsValidOsAccount x \<noteq> ERR_OSACCOUNT_SERVICE_INNER_ACCOUNT_ALREADY_ACTIVE_ERROR" for x
    by (simp add: IsValidOsAccount_def)
  have start: "may_start E i d st b" if "e = ERR_OK" "IsValidOsAccount b = ERR_OK"
    using that GetReal_spec [OF assms(1) 1] by (auto simp: may_start_def)
  have denied: "may_start E i d st (b\<lparr>os_localId := i\<rparr>)"
    if "e = ERR_ACCOUNT_COMMON_FILE_ACCESS_DENIED" "map_of (foregroundAccountMap (o_mem st)) d = None"
    using that(2) GetReal_denied [OF assms(1) 1 [unfolded that(1)]] by (simp add: may_start_def)
  show ?thesis
    using assms(3) s1 s2 same_trans [OF s1] valid start denied
    by (auto simp: PrepareActivateOsAccount_def 1 2 m1 Let_def split: if_splits)
qed

section \<open>What an activation leaves\<close>

text \<open>
  An activation that succeeds found the account in front and verified already, or brought it to the front; the account that was in front
  before stays active in the background or is stopped.
\<close>

definition activated :: "'z osm_env_scheme \<Rightarrow> u64 \<Rightarrow> int \<Rightarrow> os_memory \<Rightarrow> os_memory \<Rightarrow> bool" where
  "activated E d i m m' \<longleftrightarrow>
     map_of (foregroundAccountMap m) d = Some i \<and> m' = m
     \<or> display_free E d i m \<and> (same_front (fronted E d i m) m'
         \<or> (\<exists>j m1. map_of (foregroundAccountMap m) d = Some j \<and> j \<noteq> i \<and> same_front (fronted E d i m) m1 \<and> m' = stopped j m1))"

lemma same_front_unmark:
  "same_front (marked i m) m' \<Longrightarrow> same_front m (m'\<lparr>operatingId := operatingId m\<rparr>)"
  "same_front (fronted E d i (marked j m)) m' \<Longrightarrow> same_front (fronted E d i m) (m'\<lparr>operatingId := operatingId m\<rparr>)"
  by (simp_all add: same_front_def) (simp add: fronted_def PushIdIntoActiveList_def Let_def)

lemma display_free_marked [simp]: "display_free E d i (marked j m) = display_free E d i m"
  by (simp add: display_free_def)

lemma may_start_ok:
  assumes "files_ok E (o_fs st)" and "may_start E i d st a"
  shows "os_localId a = i \<and> (os_isCreateCompleted a \<longrightarrow> os_record_ok a)"
proof (cases "stored_account E (o_fs st) i")
  case (Some b)
  then have "os_localId b = i \<and> os_record_ok b" using assms(1) unfolding files_ok_def by blast
  with Some assms(2) show ?thesis by (auto simp: may_start_def OsAccountInfo_init_def)
next
  case None
  with assms(2) show ?thesis by (simp add: may_start_def OsAccountInfo_init_def)
qed

text \<open>Such an account is stored, complete and not to be removed, or nobody was in front of the display.\<close>

definition may_begin :: "'z osm_env_scheme \<Rightarrow> int \<Rightarrow> u64 \<Rightarrow> osm_state \<Rightarrow> bool" where
  "may_begin E i d st \<longleftrightarrow>
     (\<exists>b. stored_account E (o_fs st) i = Some b \<and> os_isCreateCompleted b \<and> \<not> os_toBeRemoved b)
     \<or> map_of (foregroundAccountMap (o_mem st)) d = None"

lemma may_start_begin: "may_start E i d (upd_mem (marked j) st) a \<Longrightarrow> may_begin E i d st"
  by (auto simp: may_start_def may_begin_def IsValidOsAccount_def split: option.splits if_splits)

lemma Activate_spec:
  assumes "osm_ok E" and "files_ok E (o_fs st)" and "mem_inv E (o_mem st)" and "deactivatingAccounts (o_mem st) = []"
    and "MULTIPLE_ACTIVE E \<or> d \<noteq> INVALID_DISPLAY_ID" and "ActivateOsAccount E i s d rec st = (r, st')"
  shows "files_ok E (o_fs st')
    \<and> (if r = ERR_OK then activated E d i (o_mem st) (o_mem st') else same_front (o_mem st) (o_mem st'))
    \<and> (r = ERR_OK \<longrightarrow> map_of (foregroundAccountMap (o_mem st)) d = Some i \<or> may_begin E i d st)"
proof -
  let ?m = "o_mem st"
  obtain added st0 where 0: "CheckAndAddLocalIdOperating i st = (added, st0)" by (metis prod.collapse)
  show ?thesis
  proof (cases added)
    case False
    with assms mark_spec [OF 0] show ?thesis by (auto simp: ActivateOsAccount_def 0)
  next
    case True
    have n: "i \<notin> set (operatingId ?m)" and st0: "st0 = upd_mem (marked i) st" using mark_spec [OF 0] True by simp_all
    obtain r1 a f st1 where 1: "PrepareActivateOsAccount E i d st0 = ((r1, a, f), st1)" by (metis prod.collapse)
    have ok0: "files_ok E (o_fs st0)" using assms(2) by (simp add: st0)
    note prep = Prepare_spec [OF assms(1) ok0 1]
    have m1: "o_mem st1 = marked i ?m" "files_ok E (o_fs st1)"
      using prep ok0 by (simp_all add: same_accounts_def files_ok_def st0)
    show ?thesis
    proof (cases "r1 = ERR_OK")
      case False
      then have "st' = RemoveLocalIdToOperating i st1"
        and "r = ERR_OK \<longrightarrow> r1 = ERR_OSACCOUNT_SERVICE_INNER_ACCOUNT_ALREADY_ACTIVE_ERROR"
        using assms(6) True by (auto simp: ActivateOsAccount_def 0 1 Let_def split: if_splits)
      moreover have "r1 = ERR_OSACCOUNT_SERVICE_INNER_ACCOUNT_ALREADY_ACTIVE_ERROR \<longrightarrow> map_of (foregroundAccountMap ?m) d = Some i"
        using prep by (simp add: st0)
      ultimately show ?thesis using m1 n by (simp add: activated_def)
    next
      case ok: True
      define st2 where "st2 = (if f \<noteq> i then publish (StateEvent ''ACTIVATING'' i) st1 else st1)"
      define rec2 where "rec2 = (if map_of (defaultActivatedIds (o_mem st2)) d \<noteq> None
          then SetAppRecovery E rec (activeAccountId (o_mem st2)) else rec)"
      have m2: "o_mem st2 = marked i ?m" "files_ok E (o_fs st2)" using m1 by (simp_all add: st2_def)
      obtain r3 a3 st3 where 3: "SendMsgForAccountActivate E a s d rec2 st2 = ((r3, a3), st3)" by (rule pair3)
      have beg: "may_begin E i d st" using may_start_begin [of E i d i st a] prep ok unfolding st0 by blast
      have a: "os_localId a = i" "os_isCreateCompleted a \<longrightarrow> os_record_ok a"
        using may_start_ok [OF ok0, of i d a] prep ok by blast+
      have free: "display_free E d i ?m" using prep ok assms(5) by (simp add: st0)
      have st': "r = r3" "st' = RemoveLocalIdToOperating i st3"
        using assms(6) True ok
        unfolding ActivateOsAccount_def 0 1 Let_def prod.case st2_def [symmetric] rec2_def [symmetric] 3 by simp_all
      have spec: "files_ok E (o_fs st3)" and front: "if r3 = ERR_OK
         then \<exists>m j. same_front (fronted E d i (marked i ?m)) m \<and> map_of (foregroundAccountMap ?m) d \<noteq> Some i
                \<and> map_of (foregroundAccountMap ?m) d = Some j \<and> o_mem st3 = stopped j m
              \<or> same_front (fronted E d i (marked i ?m)) (o_mem st3)
         else same_front (marked i ?m) (o_mem st3)"
        using SendMsgActivate_spec [OF assms(1) m2(2) a(2) _ _ _ 3, unfolded m2(1) a(1) marked_simps display_free_marked,
            OF assms(3,4) free] by blast+
      have op: "operatingId (o_mem st3) = operatingId ?m @ [i]"
        using front by (auto simp: same_front_def split: if_splits)
      have m': "o_mem st' = (o_mem st3)\<lparr>operatingId := operatingId ?m\<rparr>" using st' op n by simp
      show ?thesis
      proof (cases "r3 = ERR_OK")
        case True
        with front consider m j where "same_front (fronted E d i (marked i ?m)) m" "map_of (foregroundAccountMap ?m) d = Some j"
            "j \<noteq> i" "o_mem st3 = stopped j m" | "same_front (fronted E d i (marked i ?m)) (o_mem st3)" by auto
        then have "activated E d i ?m (o_mem st')"
          using free by cases (use same_front_unmark(2) in \<open>fastforce simp: activated_def m'\<close>)+
        with True st' spec beg show ?thesis by simp
      next
        case False
        with front st' spec m' same_front_unmark(1) show ?thesis by simp
      qed
    qed
  qed
qed

lemma activated_front:
  assumes "osm_ok E" and "mem_inv E m" and "activated E d i m m'"
  shows "mem_inv E m' \<and> i \<in> set (activeAccountId m')
    \<and> (d \<noteq> INVALID_DISPLAY_ID \<longrightarrow> map_of (foregroundAccountMap m') d = Some i)
    \<and> (\<forall>d'. d' \<noteq> d \<longrightarrow> map_of (foregroundAccountMap m') d' = map_of (foregroundAccountMap m) d')
    \<and> operatingId m' = operatingId m \<and> deactivatingAccounts m' = deactivatingAccounts m \<and> lockingAccounts m' = lockingAccounts m
    \<and> (MULTIPLE_ACTIVE E \<longrightarrow> (\<forall>j. j \<noteq> i \<and> map_of (foregroundAccountMap m) d \<noteq> Some j \<longrightarrow>
          (j \<in> set (activeAccountId m') \<longleftrightarrow> j \<in> set (activeAccountId m))))"
proof -
  let ?m1 = "fronted E d i m"
  from assms(3)[unfolded activated_def] consider (already) "map_of (foregroundAccountMap m) d = Some i" "m' = m"
    | (front) "display_free E d i m" "same_front ?m1 m'"
    | (switched) j m1 where "display_free E d i m" "map_of (foregroundAccountMap m) d = Some j" "j \<noteq> i" "same_front ?m1 m1" "m' = stopped j m1"
    by blast
  then show ?thesis
  proof cases
    case already
    then have "i \<in> set (activeAccountId m)" using assms(2) unfolding fg_inv_def by blast
    with already assms(2) show ?thesis by simp
  next
    case front
    then show ?thesis
      using fronted_inv [OF assms(1,2)] fronted_active [of E d i m] by (auto simp: same_front_def)
  next
    case (switched j m1)
    have inv1: "mem_inv E m1" by (rule same_front_inv [OF switched(4) fronted_inv [OF assms(1,2) switched(1)]])
    then have wf: "distinct (map fst (foregroundAccountMap m1))" by (simp add: fg_inv_def sm_wf_distinct)
    have d: "d \<noteq> INVALID_DISPLAY_ID" "\<forall>d'. d' \<noteq> d \<longrightarrow> map_of (foregroundAccountMap m) d' \<noteq> Some j"
      using assms(2) switched(2) unfolding fg_inv_def by blast+
    have fg: "map_of (foregroundAccountMap m1) = (map_of (foregroundAccountMap m))(d \<mapsto> i)"
      using switched(4) d(1) by (simp add: same_front_def)
    have "map_of (foregroundAccountMap m') d' = (if d' = d then Some i else map_of (foregroundAccountMap m) d')" for d'
      using d(2) switched(3,5) by (simp add: stopped_def map_of_filter_snd [OF wf] fg)
    moreover have "set (activeAccountId m') = set (activeAccountId ?m1) - {j}" "operatingId m' = operatingId m"
      "deactivatingAccounts m' = deactivatingAccounts m" "lockingAccounts m' = lockingAccounts m"
      using switched(4,5) by (simp_all add: stopped_def same_front_def)
    ultimately show ?thesis
      using stopped_inv [OF inv1, of j] switched(2,3,5) fronted_active [of E d i m] by auto
  qed
qed

section \<open>The other requests\<close>

text \<open>They change neither who is active nor who is in front, and leave no marker behind.\<close>

definition front_kept :: "'z osm_env_scheme \<Rightarrow> osm_state \<Rightarrow> osm_state \<Rightarrow> bool" where
  "front_kept E st st' \<longleftrightarrow> same_front (o_mem st) (o_mem st') \<and> (files_ok E (o_fs st) \<longrightarrow> files_ok E (o_fs st'))"

lemma kept_refl [simp]: "front_kept E st st"
  by (simp add: front_kept_def)

lemma kept_same: "same_accounts E st st' \<Longrightarrow> front_kept E st st'"
  by (simp add: front_kept_def same_accounts_def files_ok_def)

lemma kept_trans [trans]: "front_kept E st st1 \<Longrightarrow> front_kept E st1 st2 \<Longrightarrow> front_kept E st st2"
  by (auto simp: front_kept_def intro: same_front_trans)

lemma kept_publish [simp]: "front_kept E st (publish e st') = front_kept E st st'"
  by (simp add: front_kept_def)

lemma kept_upd: "front_kept E st st' \<Longrightarrow> (\<And>m. same_front m (f m)) \<Longrightarrow> front_kept E st (upd_mem f st')"
  by (auto simp: front_kept_def intro: same_front_trans)

lemma kept_update:
  assumes "osm_ok E" and "os_record_ok a" and "on_files (UpdateOsAccountInfo E a) st = (r, st')"
  shows "front_kept E st st'"
  unfolding front_kept_def using update_spec [OF assms(1) _ assms(2,3)] assms(3)
  by (auto simp: on_files_def split: prod.splits)

lemma real_record_ok:
  assumes "osm_ok E" and "files_ok E (o_fs st)" and "GetRealOsAccountInfoById E i st = ((ERR_OK, a), st')"
  shows "os_record_ok a"
proof -
  obtain b where "stored_account E (o_fs st) i = Some b" "a = real_info i (o_mem st) b" using GetReal_spec [OF assms(1,3)] by blast
  with assms(2) show ?thesis unfolding files_ok_def by (metis real_info_simps(7))
qed

lemma SetVerified_kept:
  assumes "osm_ok E" and "SetOsAccountIsVerified E i v st = (r, st')"
  shows "front_kept E st st'"
proof -
  obtain e a st1 where 1: "GetRealOsAccountInfoById E i st = ((e, a), st1)" by (rule pair3)
  have k: "front_kept E st st1" using GetReal_spec [OF assms(1) 1] by (simp add: kept_same)
  have "front_kept E st (upd_mem (\<lambda>m. if v then m\<lparr>verifiedAccounts := sm_put i True (verifiedAccounts m)\<rparr> else erase_verified i m) st1)"
    using k by (rule kept_upd) (simp add: erase_verified_def)
  with k assms(2) show ?thesis by (auto simp: SetOsAccountIsVerified_def 1 Let_def split: if_splits)
qed

lemma SetLoggedIn_kept:
  assumes "osm_ok E" and "files_ok E (o_fs st)" and "SetOsAccountIsLoggedIn E i l st = (r, st')"
  shows "front_kept E st st'"
proof -
  obtain e a st1 where 1: "GetRealOsAccountInfoById E i st = ((e, a), st1)" by (rule pair3)
  define st2 where "st2 = upd_mem (\<lambda>m. if l then m\<lparr>loggedInAccounts := sm_put i True (loggedInAccounts m)\<rparr> else erase_logged_in i m) st1"
  obtain x s where d: "on_files (SetDefaultActivatedOsAccount E (unat (os_displayId a)) i) st2 = (x, s)" by (metis prod.collapse)
  define st3 where "st3 = (if \<not> os_isLoggedIn a \<and> ACTIVATE_LAST E \<and> os_displayId a \<noteq> INVALID_DISPLAY_ID
      then upd_mem (\<lambda>m. m\<lparr>defaultActivatedIds := sm_put (os_displayId a) i (defaultActivatedIds m)\<rparr>) s else st2)"
  obtain now st4 where 4: "ask (clock_s E) st3 = (now, st4)" by (metis prod.collapse)
  obtain a5 st5 where 5: "(if \<not> os_isLoggedIn a then (a\<lparr>os_lastLoginTime := now\<rparr>, st4) else (a, st3)) = (a5, st5)" by (metis prod.collapse)
  obtain u st6 where 6: "on_files (UpdateOsAccountInfo E a5) st5 = (u, st6)" by (metis prod.collapse)
  have k1: "front_kept E st st1" using GetReal_spec [OF assms(1) 1] by (simp add: kept_same)
  have k2: "front_kept E st st2" unfolding st2_def using k1 by (rule kept_upd) (simp add: erase_logged_in_def)
  have "front_kept E st s" using kept_trans [OF k2 kept_same [OF same_set_default [OF d]]] .
  then have k3: "front_kept E st st3" using k2 by (auto simp: st3_def intro!: kept_upd)
  then have k5: "front_kept E st st5" using kept_trans [OF k3 kept_same [OF same_ask [OF 4]]] 5 by (auto split: if_splits)
  show ?thesis
  proof (cases "e = ERR_OK \<and> \<not> os_toBeRemoved a")
    case True
    have "\<bar>now\<bar> < 2 ^ 63" using assms(1) 4 by (auto simp: osm_ok_def ask_def)
    moreover have "os_record_ok a" using real_record_ok [OF assms(1,2)] 1 True by blast
    ultimately have "os_record_ok a5" using 5 record_ok_time by (auto split: if_splits)
    from kept_trans [OF k5 kept_update [OF assms(1) this 6]] have "front_kept E st st6" .
    moreover have "st' = st6"
      using assms(3) True 5 6 unfolding SetOsAccountIsLoggedIn_def 1 Let_def prod.case st2_def [symmetric] d snd_conv st3_def [symmetric] 4
      by (auto split: if_splits)
    ultimately show ?thesis by simp
  next
    case False
    with k1 assms(3) show ?thesis by (auto simp: SetOsAccountIsLoggedIn_def 1 split: if_splits)
  qed
qed

lemma kept_unmark:
  assumes "CheckAndAddLocalIdOperating i st = (True, st0)" and "front_kept E st0 st1"
  shows "front_kept E st (RemoveLocalIdToOperating i st1)"
proof -
  have n: "i \<notin> set (operatingId (o_mem st))" "st0 = upd_mem (marked i) st" using mark_spec [OF assms(1)] by simp_all
  with assms(2) have s: "same_front (marked i (o_mem st)) (o_mem st1)" by (simp add: front_kept_def)
  then have "operatingId (o_mem st1) = operatingId (o_mem st) @ [i]" by (simp add: same_front_def)
  then have "o_mem (RemoveLocalIdToOperating i st1) = (o_mem st1)\<lparr>operatingId := operatingId (o_mem st)\<rparr>" using n(1) by simp
  with same_front_unmark(1) [OF s] assms(2) n(2) show ?thesis by (simp add: front_kept_def)
qed

lemma not_marked: "CheckAndAddLocalIdOperating i st = (False, st0) \<Longrightarrow> st0 = st"
  using mark_spec by fastforce

lemma Lock_kept:
  assumes "osm_ok E" and "lockingAccounts (o_mem st) = []" and "LockOsAccount E i st = (r, st')"
  shows "front_kept E st st'"
proof -
  obtain av st0 where 0: "ask (lock_plugin E) st = (av, st0)" by (metis prod.collapse)
  obtain added st1 where 1: "CheckAndAddLocalIdOperating i st0 = (added, st1)" by (metis prod.collapse)
  obtain e a st2 where 2: "GetRealOsAccountInfoById E i st1 = ((e, a), st2)" by (rule pair3)
  define st3 where "st3 = upd_mem (\<lambda>m. m\<lparr>lockingAccounts := sm_put i True (lockingAccounts m)\<rparr>) st2"
  obtain ret st4 where 4: "ask (lock_account E i) st3 = (ret, st4)" by (metis prod.collapse)
  define st5 where "st5 = upd_mem (\<lambda>m. m\<lparr>lockingAccounts := sm_erase i (lockingAccounts m)\<rparr>) st4"
  have k0: "front_kept E st st0" and l0: "lockingAccounts (o_mem st0) = []"
    using same_ask [OF 0, of E] assms(2) by (simp_all add: kept_same) (simp add: same_accounts_def)
  have s2: "same_accounts E st1 st2" using GetReal_spec [OF assms(1) 2] by blast
  have l2: "lockingAccounts (o_mem st2) = []"
    using s2 l0 mark_spec [OF 1] by (simp add: same_accounts_def split: if_splits)
  have "o_mem st4 = o_mem st3" "o_fs st4 = o_fs st3" using 4 by (auto simp: ask_def)
  then have "o_mem st5 = o_mem st2" "o_fs st5 = o_fs st2" using l2 by (simp_all add: st5_def st3_def sm_erase_def)
  then have k5: "front_kept E st1 st5" using kept_same [OF s2] by (simp add: front_kept_def)
  then have k6: "front_kept E st1 (upd_mem (erase_verified i) st5)" by (rule kept_upd) (simp add: erase_verified_def)
  show ?thesis
  proof (cases "av \<and> added")
    case True
    with 1 have marked: "CheckAndAddLocalIdOperating i st0 = (True, st1)" by simp
    have "front_kept E st0 (RemoveLocalIdToOperating i st2)" "front_kept E st0 (RemoveLocalIdToOperating i st5)"
      "front_kept E st0 (RemoveLocalIdToOperating i (upd_mem (erase_verified i) st5))"
      using kept_unmark [OF marked] kept_same [OF s2] k5 k6 by blast+
    moreover have "st' \<in> {RemoveLocalIdToOperating i st2, RemoveLocalIdToOperating i st5, RemoveLocalIdToOperating i (upd_mem (erase_verified i) st5)}"
      using assms(3) True unfolding LockOsAccount_def 0 1 2 Let_def prod.case st3_def [symmetric] 4 st5_def [symmetric]
      by (auto split: if_splits)
    ultimately show ?thesis using kept_trans [OF k0] by blast
  next
    case False
    then have "st' = st0" using assms(3) 1 not_marked [of i st0 st1] by (auto simp: LockOsAccount_def 0 split: if_splits)
    with k0 show ?thesis by simp
  qed
qed

lemma ResetDefault_kept:
  assumes "ResetDefaultActivatedAccount E i st = (r, st')"
  shows "front_kept E st st'"
proof -
  obtain x s where d: "on_files (SetDefaultActivatedOsAccount E (unat DEFAULT_DISPLAY_ID) START_USER_ID) st = (x, s)" by (metis prod.collapse)
  have "front_kept E st s" by (rule kept_same [OF same_set_default [OF d]])
  moreover from this have "front_kept E st (upd_mem (\<lambda>m. m\<lparr>defaultActivatedIds :=
      sm_put DEFAULT_DISPLAY_ID START_USER_ID (defaultActivatedIds m)\<rparr>) s)" by (rule kept_upd) simp
  ultimately show ?thesis using assms by (auto simp: ResetDefaultActivatedAccount_def d split: if_splits)
qed

lemma read_record_ok:
  assumes "osm_ok E" and "files_ok E (o_fs st)" and "on_files (GetOsAccountInfoById E i OsAccountInfo_init) st = ((ERR_OK, a), st')"
  shows "os_record_ok a"
proof -
  have "\<not> DISTRIBUTED E" using assms(1) by (simp add: osm_ok_def)
  then have "stored_account E (o_fs st) i = Some a"
    using assms(3) GetById_ok by (auto simp: on_files_def split: prod.splits)
  with assms(2) show ?thesis unfolding files_ok_def by blast
qed

lemma ToBeRemoved_kept:
  assumes "osm_ok E" and "files_ok E (o_fs st)" and "SetOsAccountToBeRemoved E i b st = (r, st')"
  shows "front_kept E st st'"
proof -
  obtain added st0 where 0: "CheckAndAddLocalIdOperating i st = (added, st0)" by (metis prod.collapse)
  obtain e a st1 where 1: "on_files (GetOsAccountInfoById E i OsAccountInfo_init) st0 = ((e, a), st1)" by (rule pair3)
  obtain e2 st2 where 2: "(if b then ResetDefaultActivatedAccount E i st1 else (ERR_OK, st1)) = (e2, st2)" by (metis prod.collapse)
  obtain e3 st3 where 3: "on_files (UpdateOsAccountInfo E (a\<lparr>os_toBeRemoved := b\<rparr>)) st2 = (e3, st3)" by (metis prod.collapse)
  have "\<not> DISTRIBUTED E" using assms(1) by (simp add: osm_ok_def)
  then have k1: "front_kept E st0 st1" using same_read 1 kept_same by blast
  have k2: "front_kept E st0 st2" using 2 k1 kept_trans [OF k1 ResetDefault_kept [of E i st1 e2 st2]] by (auto split: if_splits)
  have f0: "files_ok E (o_fs st0)" using mark_spec [OF 0] assms(2) by (auto split: if_splits)
  show ?thesis
  proof (cases added)
    case True
    with 0 have marked: "CheckAndAddLocalIdOperating i st = (True, st0)" by simp
    have "front_kept E st0 st3" if "e = ERR_OK"
      using kept_trans [OF k2 kept_update [OF assms(1) _ 3]] read_record_ok [OF assms(1) f0] 1 that by simp
    then show ?thesis
      using assms(3) True kept_unmark [OF marked k1] kept_unmark [OF marked k2] kept_unmark [OF marked, of E st3]
      by (auto simp: SetOsAccountToBeRemoved_def 0 1 2 3 split: if_splits)
  next
    case False
    then show ?thesis using assms(3) 0 not_marked [of i st st0] by (auto simp: SetOsAccountToBeRemoved_def)
  qed
qed

lemma SetDefault_kept:
  assumes "osm_ok E" and "SetDefaultActivated E d i st = (r, st')"
  shows "front_kept E st st'"
proof -
  obtain e1 st1 where 1: "(if MULTI_FOREGROUND E then ValidateDisplayPrimary E d st
      else if d \<noteq> DEFAULT_DISPLAY_ID then (ERR_ACCOUNT_COMMON_DISPLAY_ID_NOT_EXIST_ERROR, st) else (ERR_OK, st)) = (e1, st1)" by (metis prod.collapse)
  obtain e a st2 where 2: "on_files (GetOsAccountInfoById E i OsAccountInfo_init) st1 = ((e, a), st2)" by (rule pair3)
  obtain x st3 where 3: "on_files (SetDefaultActivatedOsAccount E (unat d) i) st2 = (x, st3)" by (metis prod.collapse)
  have nd: "\<not> DISTRIBUTED E" using assms(1) by (simp add: osm_ok_def)
  have s1: "same_accounts E st st1" using 1 same_validate_primary [of E d st e1 st1 E] by (auto split: if_splits)
  have s2: "same_accounts E st st2" by (rule same_trans [OF s1 same_read [OF nd 2]])
  have s3: "same_accounts E st st3" by (rule same_trans [OF s2 same_set_default [OF 3]])
  have "front_kept E st (upd_mem (\<lambda>m. m\<lparr>defaultActivatedIds := sm_put d i (defaultActivatedIds m)\<rparr>) st3)"
    using kept_same [OF s3] by (rule kept_upd) simp
  with kept_same [OF s1] kept_same [OF s2] kept_same [OF s3] assms(2) show ?thesis
    by (auto simp: SetDefaultActivated_def 1 2 3 split: if_splits)
qed

end
