(* ===== verification/Os_Account_Removal.thy ===== *)
theory Os_Account_Removal
  imports Os_Account_Requests
begin

text \<open>
  The removal of OS accounts and the cleaning of accounts that were not created or not removed completely
  (\<open>RemoveOsAccount\<close> and \<open>CleanGarbageOsAccounts\<close> of \<open>inner_os_account_manager.cpp\<close>), and what
  they leave of the account. Deleting the credentials in the identity manager is part of the build; the log out event of the
  distributed account, which only informs subscribers, is left out.
\<close>

section \<open>The operations\<close>

definition U1_ID :: int where "U1_ID = 1"
definition INVALID_OS_ACCOUNT_ID :: int where "INVALID_OS_ACCOUNT_ID = -1"

definition ResetForegroundBeforeRemove :: "'z osm_env_scheme \<Rightarrow> OsAccountInfo \<Rightarrow> int \<Rightarrow> osm_state \<Rightarrow> ErrCode \<times> osm_state" where
  "ResetForegroundBeforeRemove E a i st =
     (if \<not> os_isForeground a then (ERR_OK, st)
      else if \<not> MULTI_FOREGROUND E
      then let (errCode, st1) = ActivateOsAccount E START_USER_ID True DEFAULT_DISPLAY_ID False st in
           if errCode \<noteq> ERR_OK then (ERR_OSACCOUNT_SERVICE_INNER_REMOVE_ACCOUNT_ACTIVED_ERROR, st1) else (ERR_OK, st1)
      else SendToAMSAccountDeactivate E a st)"

definition SendMsgForAccountStop ::
  "'z osm_env_scheme \<Rightarrow> OsAccountInfo \<Rightarrow> osm_state \<Rightarrow> (ErrCode \<times> OsAccountInfo) \<times> osm_state" where
  "SendMsgForAccountStop E a st =
     (let (errCode, st1) = SendToAMSAccountStop E a st in
      if errCode \<noteq> ERR_OK then ((errCode, a), st1)
      else let (errCode, st2) = CheckAllAppDied E (os_localId a) st1 in
      if errCode \<noteq> ERR_OK then ((errCode, a), st2)
      else let ((errCode, a1), st3) = SendToStorageAccountStop E a st2 in
      if errCode \<noteq> ERR_OK \<and> errCode \<noteq> ERR_OSACCOUNT_SERVICE_STORAGE_STOP_USER_FAILED
      then ((ERR_ACCOUNT_COMMON_GET_SYSTEM_ABILITY_MANAGER, a1), st3)
      else DeactivateOsAccountByInfo E a1 st3)"

definition PrepareRemoveOsAccount ::
  "'z osm_env_scheme \<Rightarrow> OsAccountInfo \<Rightarrow> bool \<Rightarrow> osm_state \<Rightarrow> (ErrCode \<times> OsAccountInfo) \<times> osm_state" where
  "PrepareRemoveOsAccount E a isCleanGarbage st =
     (let i = os_localId a;
          (errCode, st1) = SendToIDMAccountDelete E a st in
      if errCode \<noteq> ERR_OK then ((errCode, a), st1)
      else if isCleanGarbage then ((ERR_OK, a), st1)
      else let (errCode, st2) = ResetForegroundBeforeRemove E a i st1 in
      if errCode \<noteq> ERR_OK then ((errCode, a), st2)
      else let st3 = upd_mem (\<lambda>m. erase_verified i (erase_logged_in i m)) st2;
               st4 = publish (StateEvent ''STOPPING'' i) (publish (CommonEvent ''USER_STOPPING'' i) st3);
               ((errCode, a1), st5) = SendMsgForAccountStop E a st4 in
      if errCode \<noteq> ERR_OK then ((errCode, a1), st5)
      else ((errCode, a1), publish (StateEvent ''STOPPED'' i) (publish (CommonEvent ''USER_STOPPED'' i) st5)))"

definition SendMsgForAccountRemove :: "'z osm_env_scheme \<Rightarrow> OsAccountInfo \<Rightarrow> osm_state \<Rightarrow> ErrCode \<times> osm_state" where
  "SendMsgForAccountRemove E a st =
     (let i = os_localId a;
          (errCode, st1) = SendToBMSAccountDelete E a st in
      if errCode \<noteq> ERR_OK then (errCode, st1)
      else let (errCode, st2) = SendToStorageAccountRemove E a st1 in
      if errCode \<noteq> ERR_OK then (ERR_ACCOUNT_COMMON_GET_SYSTEM_ABILITY_MANAGER, st2)
      else let (errCode, st3) = on_files (DelOsAccount E i) st2 in
      if errCode \<noteq> ERR_OK then (errCode, st3)
      else (errCode, publish (CommonEvent ''USER_REMOVED'' i) st3))"

text \<open>\<open>CheckAndRefreshLocalIdRecord\<close>: the displays whose default account is removed, then the owner of the device.\<close>

definition refresh_display :: "'z osm_env_scheme \<Rightarrow> u64 \<Rightarrow> osm_state \<Rightarrow> osm_state" where
  "refresh_display E d st =
     (let newId = (if d = DEFAULT_DISPLAY_ID then START_USER_ID else INVALID_OS_ACCOUNT_ID) in
      upd_mem (\<lambda>m. m\<lparr>defaultActivatedIds := sm_put d newId (defaultActivatedIds m)\<rparr>)
        (snd (on_files (SetDefaultActivatedOsAccount E (unat d) newId) st)))"

definition CheckAndRefreshLocalIdRecord :: "'z osm_env_scheme \<Rightarrow> int \<Rightarrow> osm_state \<Rightarrow> osm_state" where
  "CheckAndRefreshLocalIdRecord E i st =
     (let displays = map fst (filter (\<lambda>e. snd e = i) (defaultActivatedIds (o_mem st)));
          st1 = fold (refresh_display E) displays st in
      if i = deviceOwnerId (o_mem st1)
      then let (errCode, st2) = on_files (UpdateDeviceOwnerId E (-1)) st1 in
           if errCode \<noteq> ERR_OK then st2 else upd_mem (\<lambda>m. m\<lparr>deviceOwnerId := -1\<rparr>) st2
      else st1)"

definition RemoveOsAccountOperate ::
  "'z osm_env_scheme \<Rightarrow> int \<Rightarrow> OsAccountInfo \<Rightarrow> bool \<Rightarrow> osm_state \<Rightarrow> ErrCode \<times> osm_state" where
  "RemoveOsAccountOperate E i a isCleanGarbage st =
     (if isCleanGarbage \<and> \<not> os_isCreateCompleted a \<and> \<not> os_isDataRemovable a then (ERR_OK, st)
      else let ((errCode, a1), st1) = PrepareRemoveOsAccount E a isCleanGarbage st in
      if errCode \<noteq> ERR_OK then (errCode, st1)
      else let (errCode, st2) = SendMsgForAccountRemove E a1 st1 in
      if errCode \<noteq> ERR_OK then (errCode, st2)
      else let (errCode, st3) = on_files (RemoveOAConstraintsInfo E i) st2 in
      if errCode \<noteq> ERR_OK then (errCode, st3)
      else (errCode, publish (StateEvent ''REMOVED'' i) (CheckAndRefreshLocalIdRecord E i st3)))"

definition RemoveOsAccount :: "'z osm_env_scheme \<Rightarrow> int \<Rightarrow> osm_state \<Rightarrow> ErrCode \<times> osm_state" where
  "RemoveOsAccount E i st =
     (let (added, st0) = CheckAndAddLocalIdOperating i st in
      if \<not> added then (ERR_OSACCOUNT_SERVICE_INNER_ACCOUNT_OPERATING_ERROR, st0)
      else let ((errCode, a), st1) = GetRealOsAccountInfoById E i st0 in
      if errCode \<noteq> ERR_OK then (ERR_ACCOUNT_COMMON_ACCOUNT_NOT_EXIST_ERROR, RemoveLocalIdToOperating i st1)
      else let (errCode, st2) = SendToStorageAccountCreateComplete E i st1 in
      if errCode \<noteq> ERR_OK then (errCode, RemoveLocalIdToOperating i st2)
      else let a1 = a\<lparr>os_toBeRemoved := True\<rparr>;
               (errCode, st3) = on_files (UpdateOsAccountInfo E a1) st2 in
      if errCode \<noteq> ERR_OK then (errCode, RemoveLocalIdToOperating i st3)
      else let (errCode, st4) = RemoveOsAccountOperate E i a1 False st3 in
           (errCode, RemoveLocalIdToOperating i st4))"

text \<open>The loop of \<open>CleanGarbageOsAccounts\<close> over the ids of the account list, with its counter.\<close>

fun clean_loop :: "'z osm_env_scheme \<Rightarrow> int \<Rightarrow> int list \<Rightarrow> nat \<Rightarrow> osm_state \<Rightarrow> nat \<times> osm_state" where
  "clean_loop E excludeId [] removeNum st = (removeNum, st)"
| "clean_loop E excludeId (i # ids) removeNum st =
     (if i = START_USER_ID \<or> i = ADMIN_LOCAL_ID \<or> i = U1_ID \<or> i = excludeId then clean_loop E excludeId ids removeNum st
      else let (added, st0) = CheckAndAddLocalIdOperating i st in
      if \<not> added then clean_loop E excludeId ids removeNum st0
      else let ((ret, a), st1) = GetRealOsAccountInfoById E i st0 in
      if ret \<noteq> ERR_OK \<and> ret \<noteq> ERR_ACCOUNT_COMMON_ACCOUNT_NOT_EXIST_ERROR
      then clean_loop E excludeId ids removeNum (RemoveLocalIdToOperating i st1)
      else let a1 = a\<lparr>os_localId := i\<rparr> in
      if \<not> os_toBeRemoved a1 \<and> os_isCreateCompleted a1
      then clean_loop E excludeId ids removeNum (RemoveLocalIdToOperating i st1)
      else let (errCode, st2) = RemoveOsAccountOperate E i a1 True st1;
               st3 = RemoveLocalIdToOperating i st2 in
           clean_loop E excludeId ids (if errCode \<noteq> ERR_OK then removeNum else Suc removeNum) st3)"

definition CleanGarbageOsAccounts :: "'z osm_env_scheme \<Rightarrow> int \<Rightarrow> osm_state \<Rightarrow> nat \<times> osm_state" where
  "CleanGarbageOsAccounts E excludeId st =
     (let ((errCode, idList), st1) = on_files (GetOsAccountIdList E) st in
      if errCode \<noteq> ERR_OK then (0, st1) else clean_loop E excludeId idList 0 st1)"

section \<open>Files the removal touches\<close>

text \<open>The files of the service beside the account directories.\<close>

lemma account_path_not_top:
  assumes "CHR ''/'' \<notin> set name"
  shows "account_path (to_string_int i) \<noteq> USER_INFO_BASE @ ''/'' @ name"
    "account_path (to_string_int i) \<noteq> GetTempFilePath (USER_INFO_BASE @ ''/'' @ name)"
proof -
  have "CHR ''/'' \<in> set (to_string_int i @ ''/account_info.json'')" by simp
  moreover have "CHR ''/'' \<notin> set (name @ ''.tmp'')" using assms by simp
  ultimately show "account_path (to_string_int i) \<noteq> USER_INFO_BASE @ ''/'' @ name"
    "account_path (to_string_int i) \<noteq> GetTempFilePath (USER_INFO_BASE @ ''/'' @ name)"
    using assms by (auto simp: account_path_def GetTempFilePath_def simp del: set_append set_simps)
qed

lemma top_write_frame:
  assumes "json_to_file E (USER_INFO_BASE @ ''/'' @ name) j fs = (r, fs')" and "CHR ''/'' \<notin> set name"
  shows "stored_account F fs' = stored_account F fs"
  using InputFile_spec [OF assms(1) [unfolded json_to_file_def]] account_path_not_top [OF assms(2)]
  by (simp add: stored_account_def fun_eq_iff)

lemma rmw_accounts:
  assumes "rmw E (USER_INFO_BASE @ ''/'' @ name) f fs = (r, fs')" and "CHR ''/'' \<notin> set name"
  shows "stored_account F fs' = stored_account F fs"
proof -
  let ?p = "USER_INFO_BASE @ ''/'' @ name"
  obtain r1 x fs1 where 1: "constraints_from_file E ?p fs = ((r1, x), fs1)" by (metis prod.collapse)
  have "fs_files fs1 = fs_files fs"
    using 1 account_files.read_frame [of E ?p fs] by (auto simp: constraints_from_file_def Let_def split_beta split: if_splits)
  then have s1: "stored_account F fs1 = stored_account F fs" by (rule stored_account_files)
  show ?thesis
  proof (cases "r1 = ERR_OK")
    case True
    with assms(1) 1 have "json_to_file E ?p (f x) fs1 = (r, fs')" by (simp add: rmw_def)
    from top_write_frame [OF this assms(2), where F = F] s1 show ?thesis by simp
  next
    case False
    with assms(1) 1 s1 show ?thesis by (simp add: rmw_def)
  qed
qed

lemma constraint_removal_accounts:
  assumes "RemoveOAConstraintsInfo E i fs = (r, fs')"
  shows "stored_account F fs' = stored_account F fs"
proof -
  obtain r1 fs1 where 1: "RemoveOABaseConstraintsInfo E i fs = (r1, fs1)" by (metis prod.collapse)
  obtain r2 fs2 where 2: "RemoveOAGlobalConstraintsInfo E i fs1 = (r2, fs2)" by (metis prod.collapse)
  obtain r3 fs3 where 3: "RemoveOASpecificConstraintsInfo E i fs2 = (r3, fs3)" by (metis prod.collapse)
  have "stored_account F fs1 = stored_account F fs"
    using rmw_accounts [of E "''base_os_account_constraints.json''"] 1
    by (simp add: remove_rmw BASE_OSACCOUNT_CONSTRAINTS_JSON_PATH_def)
  moreover have "stored_account F fs2 = stored_account F fs1"
    using rmw_accounts [of E "''global_os_account_constraints.json''"] 2
    by (simp add: RemoveGlobal_rmw GLOBAL_OSACCOUNT_CONSTRAINTS_JSON_PATH_def)
  moreover have "stored_account F fs3 = stored_account F fs2"
    using rmw_accounts [of E "''specific_os_account_constraints.json''"] 3
    by (simp add: remove_rmw SPECIFIC_OSACCOUNT_CONSTRAINTS_JSON_PATH_def)
  ultimately show ?thesis using assms by (auto simp: RemoveOAConstraintsInfo_def 1 2 3 split: if_splits)
qed

lemma device_owner_accounts:
  assumes "UpdateDeviceOwnerId E x fs = (r, fs')"
  shows "stored_account F fs' = stored_account F fs"
proof -
  obtain r1 j fs1 where 1: "GetGlobalOAConstraintsFromFile E fs = ((r1, j), fs1)" by (metis prod.collapse)
  have "fs_files fs1 = fs_files fs"
    using 1 account_files.read_frame [of E global_path fs]
    by (auto simp: GetGlobalOAConstraintsFromFile_def constraints_from_file_def Let_def split_beta split: if_splits)
  then have "stored_account F fs1 = stored_account F fs" by (rule stored_account_files)
  with assms show ?thesis
    using top_write_frame [of E "''global_os_account_constraints.json''" _ fs1 r fs' F]
    by (auto simp: UpdateDeviceOwnerId_def 1 SaveGlobalOAConstraintsToFile_def GLOBAL_OSACCOUNT_CONSTRAINTS_JSON_PATH_def
        split: prod.splits if_splits)
qed

text \<open>Deleting an account takes at most its own record.\<close>

definition only_dropped :: "'z osm_env_scheme \<Rightarrow> int \<Rightarrow> fs_state \<Rightarrow> fs_state \<Rightarrow> bool" where
  "only_dropped E i fs fs' \<longleftrightarrow>
     (\<forall>j. stored_account E fs' j = stored_account E fs j \<or> j = i \<and> stored_account E fs' j = None)"

lemma account_below:
  assumes "below (USER_INFO_BASE @ ''/'' @ to_string_int i) (account_path (to_string_int j))"
  shows "j = i"
proof -
  obtain z where "account_path (to_string_int j) = (USER_INFO_BASE @ ''/'' @ to_string_int i) @ ''/'' @ z"
    using assms unfolding below_def by (metis append_assoc append_take_drop_id)
  then have "to_string_int j @ CHR ''/'' # ''account_info.json'' = to_string_int i @ CHR ''/'' # z" by (simp add: account_path_def)
  with sep_append_inject [OF slash_free_to_string_int slash_free_to_string_int] show ?thesis by (metis to_string_int_inject)
qed

lemma DelOsAccount_dropped:
  assumes "DelOsAccount E i fs = (r, fs')"
  shows "only_dropped F i fs fs'" and "r = ERR_OK \<Longrightarrow> START_USER_ID < i"
proof -
  define p where "p = USER_INFO_BASE @ ''/'' @ to_string_int i"
  obtain isDir fs1 where 1: "IsExistDir E p fs = (isDir, fs1)" by (metis prod.collapse)
  obtain isFile fs2 where 2: "IsExistFile E p fs1 = (isFile, fs2)" by (metis prod.collapse)
  obtain e fs3 where 3: "DeleteDirOrFile E p fs = (e, fs3)" by (metis prod.collapse)
  obtain r4 x fs4 where 4: "GetAccountListFromFile E fs3 = ((r4, x), fs4)" by (metis prod.collapse)
  have same: "fs_files fs1 = fs_files fs" "fs_files fs2 = fs_files fs"
    using IsExistDir_files [of E p fs] IsExistFile_files [of E p fs1] by (simp_all add: 1 2)
  have "account_path (to_string_int j) \<noteq> p" for j unfolding p_def by (rule account_path_not_top(1) [OF slash_free_to_string_int])
  then have "fs_files fs3 (account_path (to_string_int j)) = fs_files fs (account_path (to_string_int j))
      \<or> j = i \<and> fs_files fs3 (account_path (to_string_int j)) = None" for j
    using 3 same account_below [of i j, folded p_def]
    by (auto simp: DeleteDirOrFile_def 1 2 DeleteDir_def DeleteFile_def sys_call_def put_file_def Let_def split: if_splits)
  then have d3: "stored_account F fs3 j = stored_account F fs j \<or> j = i \<and> stored_account F fs3 j = None" for j
    by (metis (mono_tags, lifting) stored_account_def option.simps(4))
  have "stored_account F fs4 = stored_account F fs3" using GetAccountList_frame [OF 4] by (rule stored_account_files)
  moreover have "stored_account F fs5 = stored_account F fs4" if "SaveAccountListToFileAndDataBase E y fs4 = (r5, fs5)" for y r5 fs5
    using list_save_frame [OF that] .
  ultimately have "stored_account F fs' = stored_account F fs3 \<or> fs' = fs"
    using assms unfolding DelOsAccount_def p_def [symmetric] 3 by (auto simp: UpdateAccountList_def 4 Let_def split: prod.splits if_splits)
  then show "only_dropped F i fs fs'" using d3 unfolding only_dropped_def by metis
  show "r = ERR_OK \<Longrightarrow> START_USER_ID < i" using assms by (auto simp: DelOsAccount_def split: if_splits)
qed

section \<open>What a removal leaves in memory\<close>

text \<open>The record of an account names the display the account is in front of.\<close>

definition front_of :: "OsAccountInfo \<Rightarrow> (u64, int) smap \<Rightarrow> bool" where
  "front_of a fg \<longleftrightarrow> (\<forall>d. map_of fg d = Some (os_localId a) \<longrightarrow> os_isForeground a \<and> os_displayId a = d)"

lemma front_of_real:
  assumes "mem_inv E m" and "os_localId b = i"
  shows "front_of (real_info i m b) (foregroundAccountMap m)"
  unfolding front_of_def
proof (intro allI impI)
  fix d assume "map_of (foregroundAccountMap m) d = Some (os_localId (real_info i m b))"
  then have d: "map_of (foregroundAccountMap m) d = Some i" using assms(2) by simp
  then have "i \<in> set (activeAccountId m)" "d \<noteq> INVALID_DISPLAY_ID" using assms(1) unfolding fg_inv_def by blast+
  with display_of_in [OF assms(1) d] show "os_isForeground (real_info i m b) \<and> os_displayId (real_info i m b) = d"
    by (simp add: real_info_def IsOsAccountIDInActiveList_def Let_def)
qed

lemma Clean_front:
  assumes "mem_inv E m" and "front_of a (foregroundAccountMap m)"
  shows "CleanForegroundAccountMap a m = without_fg (os_localId a) m"
proof (cases "\<exists>d. map_of (foregroundAccountMap m) d = Some (os_localId a)")
  case True
  then obtain d where d: "map_of (foregroundAccountMap m) d = Some (os_localId a)" by blast
  moreover from this have "os_isForeground a" "os_displayId a = d" using assms(2) unfolding front_of_def by blast+
  ultimately show ?thesis using erase_is_filter [OF assms(1) d] by (simp add: CleanForegroundAccountMap_def without_fg_def)
next
  case False
  then show ?thesis
    using assms(1) no_fg_filter [of "foregroundAccountMap m" "os_localId a"] by (simp add: Clean_absent without_fg_def fg_inv_def)
qed

lemma stop_front:
  assumes "mem_inv E m" and "front_of a (foregroundAccountMap m)"
  shows "EraseIdFromActiveList (os_localId a) (CleanForegroundAccountMap a
      (erase_verified (os_localId a) (erase_logged_in (os_localId a) m))) = stopped (os_localId a) m"
  using Clean_front [of E "erase_verified (os_localId a) (erase_logged_in (os_localId a) m)" a] assms
  by (simp add: Erase_removeAll erase_verified_def erase_logged_in_def stopped_def without_fg_def)

lemma AccountStop_spec:
  assumes "osm_ok E" and "files_ok E (o_fs st)" and "os_record_ok a" and "mem_inv E (o_mem st)"
    and "front_of a (foregroundAccountMap (o_mem st))" and "SendMsgForAccountStop E a st = ((r, a'), st')"
  shows "files_ok E (o_fs st') \<and> os_localId a' = os_localId a
    \<and> (o_mem st' = stopped (os_localId a) (o_mem st) \<or> r \<noteq> ERR_OK \<and> o_mem st' = o_mem st)"
proof -
  obtain r1 st1 where 1: "SendToAMSAccountStop E a st = (r1, st1)" by (metis prod.collapse)
  obtain r2 st2 where 2: "CheckAllAppDied E (os_localId a) st1 = (r2, st2)" by (metis prod.collapse)
  obtain r3 a3 st3 where 3: "SendToStorageAccountStop E a st2 = ((r3, a3), st3)" by (rule pair3)
  have s1: "same_accounts E st st1" by (rule same_AMS_stop [OF 1])
  have s2: "same_accounts E st st2" by (rule same_trans [OF s1 same_died_loop [OF 2 [unfolded CheckAllAppDied_def]]])
  have s3: "same_accounts E st st3" and a3: "a3 = a \<or> a3 = a\<lparr>os_isVerified := False\<rparr>"
    using StorageStop_spec [OF 3, of E] same_trans [OF s2] by blast+
  have m: "o_mem st1 = o_mem st" "o_mem st2 = o_mem st" "o_mem st3 = o_mem st"
    and f: "files_ok E (o_fs st1)" "files_ok E (o_fs st2)" "files_ok E (o_fs st3)"
    using s1 s2 s3 assms(2) by (simp_all add: same_accounts_def files_ok_def)
  have a: "os_record_ok a3" "os_localId a3 = os_localId a" "front_of a3 (foregroundAccountMap (o_mem st3))"
    using a3 assms(3,5) by (auto simp: m front_of_def)
  show ?thesis
    using assms(6) m f a ByInfo_mem [OF assms(1) f(3) a(1) stop_front [OF _ a(3)], of E r a' st'] assms(4)
    by (auto simp: SendMsgForAccountStop_def 1 2 3 split: if_splits)
qed

lemma stopped_simps [simp]:
  "deactivatingAccounts (stopped i m) = deactivatingAccounts m" "lockingAccounts (stopped i m) = lockingAccounts m"
  "deactivatingAccounts (without_fg i m) = deactivatingAccounts m" "lockingAccounts (without_fg i m) = lockingAccounts m"
  by (simp_all add: stopped_def without_fg_def)

text \<open>What every step of a removal keeps: the invariant of the members and the markers.\<close>

definition steady :: "'z osm_env_scheme \<Rightarrow> osm_state \<Rightarrow> osm_state \<Rightarrow> bool" where
  "steady E st st' \<longleftrightarrow> (mem_inv E (o_mem st) \<longrightarrow> mem_inv E (o_mem st')) \<and> (files_ok E (o_fs st) \<longrightarrow> files_ok E (o_fs st'))
     \<and> operatingId (o_mem st') = operatingId (o_mem st) \<and> deactivatingAccounts (o_mem st') = deactivatingAccounts (o_mem st)
     \<and> lockingAccounts (o_mem st') = lockingAccounts (o_mem st)"

lemma steady_refl [simp]: "steady E st st"
  by (simp add: steady_def)

lemma steady_trans [trans]: "steady E st st1 \<Longrightarrow> steady E st1 st2 \<Longrightarrow> steady E st st2"
  by (simp add: steady_def)

lemma steady_kept: "front_kept E st st' \<Longrightarrow> steady E st st'"
  by (auto simp: steady_def front_kept_def same_front_def)

lemma steady_same: "same_accounts E st st' \<Longrightarrow> steady E st st'"
  by (simp add: kept_same steady_kept)

lemma steady_publish [simp]: "steady E st (publish e st') = steady E st st'"
  by (simp add: steady_def)

text \<open>An account that is in the background and neither verified nor logged in.\<close>

definition gone :: "int \<Rightarrow> os_memory \<Rightarrow> bool" where
  "gone i m \<longleftrightarrow> i \<notin> set (activeAccountId m) \<and> (\<forall>d. map_of (foregroundAccountMap m) d \<noteq> Some i)
     \<and> map_of (verifiedAccounts m) i = None \<and> map_of (loggedInAccounts m) i = None"

lemma stopped_gone: "mem_inv E m \<Longrightarrow> gone i (stopped i m)"
  by (simp add: gone_def stopped_def fg_inv_def sm_wf_distinct map_of_filter_snd)

lemma Reset_spec:
  assumes "osm_ok E" and "files_ok E (o_fs st)" and "mem_inv E (o_mem st)" and "deactivatingAccounts (o_mem st) = []"
    and "i \<in> set (operatingId (o_mem st))" and "os_localId a = i" and "front_of a (foregroundAccountMap (o_mem st))"
    and "ResetForegroundBeforeRemove E a i st = (r, st')"
  shows "steady E st st' \<and> (r = ERR_OK \<longrightarrow> front_of a (foregroundAccountMap (o_mem st')))"
proof (cases "os_isForeground a \<and> \<not> MULTI_FOREGROUND E")
  case True
  obtain r1 st1 where 1: "ActivateOsAccount E START_USER_ID True DEFAULT_DISPLAY_ID False st = (r1, st1)" by (metis prod.collapse)
  have d: "MULTIPLE_ACTIVE E \<or> DEFAULT_DISPLAY_ID \<noteq> INVALID_DISPLAY_ID" by (simp add: DEFAULT_DISPLAY_ID_def INVALID_DISPLAY_ID_def)
  note spec = Activate_spec [OF assms(1-4) d 1] and front = activated_front [OF assms(1,3), of DEFAULT_DISPLAY_ID START_USER_ID "o_mem st1"]
  have st': "st' = st1" "r = ERR_OK \<longrightarrow> r1 = ERR_OK" using True assms(8) by (auto simp: ResetForegroundBeforeRemove_def 1 split: if_splits)
  show ?thesis
  proof (cases "r1 = ERR_OK")
    case ok: True
    then have n: "START_USER_ID \<noteq> i" using 1 assms(5) by (auto simp: ActivateOsAccount_def CheckAndAddLocalIdOperating_def)
    have "front_of a (foregroundAccountMap (o_mem st1))"
      unfolding front_of_def
    proof (intro allI impI)
      fix d' assume d': "map_of (foregroundAccountMap (o_mem st1)) d' = Some (os_localId a)"
      have inv: "mem_inv E (o_mem st1)" and at: "map_of (foregroundAccountMap (o_mem st1)) DEFAULT_DISPLAY_ID = Some START_USER_ID"
        using spec front ok d by (auto simp: DEFAULT_DISPLAY_ID_def INVALID_DISPLAY_ID_def)
      have "d' = DEFAULT_DISPLAY_ID" using inv d' True unfolding fg_inv_def by blast
      with d' at n assms(6) have False by simp
      then show "os_isForeground a \<and> os_displayId a = d'" ..
    qed
    then show ?thesis using spec front ok assms(2) by (simp add: st' steady_def)
  next
    case False
    then have "front_kept E st st1" using spec assms(2) by (simp add: front_kept_def)
    with False st' show ?thesis by (simp add: steady_kept)
  qed
next
  case False
  then have "same_accounts E st st'"
    using assms(8) same_AMS_deactivate by (auto simp: ResetForegroundBeforeRemove_def split: if_splits)
  with assms(7) show ?thesis by (auto simp: steady_same) (simp add: same_accounts_def)
qed

lemma PrepareRemove_spec:
  assumes "osm_ok E" and "files_ok E (o_fs st)" and "mem_inv E (o_mem st)" and "deactivatingAccounts (o_mem st) = []"
    and "i \<in> set (operatingId (o_mem st))" and "os_localId a = i" and "os_record_ok a" and "front_of a (foregroundAccountMap (o_mem st))"
    and "PrepareRemoveOsAccount E a False st = ((r, a'), st')"
  shows "steady E st st' \<and> os_localId a' = i \<and> (r = ERR_OK \<longrightarrow> gone i (o_mem st'))"
proof -
  obtain r1 st1 where 1: "SendToIDMAccountDelete E a st = (r1, st1)" by (metis prod.collapse)
  obtain r2 st2 where 2: "ResetForegroundBeforeRemove E a i st1 = (r2, st2)" by (metis prod.collapse)
  define st4 where "st4 = publish (StateEvent ''STOPPING'' i) (publish (CommonEvent ''USER_STOPPING'' i)
      (upd_mem (\<lambda>m. erase_verified i (erase_logged_in i m)) st2))"
  obtain r5 a5 st5 where 5: "SendMsgForAccountStop E a st4 = ((r5, a5), st5)" by (rule pair3)
  have s1: "same_accounts E st st1" using 1 by (auto simp: SendToIDMAccountDelete_def split: prod.splits intro: same_ask)
  have m1: "o_mem st1 = o_mem st" "files_ok E (o_fs st1)" using s1 assms(2) by (simp_all add: same_accounts_def files_ok_def)
  have reset: "steady E st1 st2 \<and> (r2 = ERR_OK \<longrightarrow> front_of a (foregroundAccountMap (o_mem st2)))"
    using Reset_spec [OF assms(1) m1(2) _ _ _ assms(6) _ 2] assms(3-5,8) by (simp add: m1)
  have st2: "steady E st st2" using steady_trans [OF steady_same [OF s1]] reset by blast
  have st4: "steady E st st4"
    using st2 by (auto simp: steady_def st4_def erase_verified_def erase_logged_in_def)
  have st5: "steady E st st5 \<and> os_localId a5 = i \<and> (r5 = ERR_OK \<longrightarrow> gone i (o_mem st5))" if "r2 = ERR_OK"
  proof -
    have f: "files_ok E (o_fs st4)" "mem_inv E (o_mem st4)" using st4 assms(2,3) by (simp_all add: steady_def)
    have "front_of a (foregroundAccountMap (o_mem st4))"
      using reset that by (simp add: st4_def erase_verified_def erase_logged_in_def)
    from AccountStop_spec [OF assms(1) f(1) assms(7) f(2) this 5] st4 stopped_inv [OF f(2), of i] stopped_gone [OF f(2), of i] assms(6)
    show ?thesis by (auto simp: steady_def)
  qed
  have "steady E st st' \<and> (a' = a \<or> a' = a5 \<and> r2 = ERR_OK) \<and> (r = ERR_OK \<longrightarrow> gone i (o_mem st'))"
    using assms(9) steady_same [OF s1] st2 st5
    unfolding PrepareRemoveOsAccount_def Let_def assms(6) 1 2 prod.case st4_def [symmetric] 5
    by (auto split: if_splits)
  with st5 assms(6) show ?thesis by auto
qed

lemma steady_dropped:
  assumes "on_files f st = (x, st')" and "\<And>y fs'. f (o_fs st) = (y, fs') \<Longrightarrow> only_dropped E i (o_fs st) fs'"
  shows "steady E st st' \<and> o_mem st' = o_mem st"
proof -
  obtain fs' where fs': "f (o_fs st) = (x, fs')" "st' = st\<lparr>o_fs := fs'\<rparr>" using assms(1) by (auto simp: on_files_def split: prod.splits)
  have "stored_account E fs' j = Some a \<Longrightarrow> stored_account E (o_fs st) j = Some a" for j a
    using assms(2) [OF fs'(1)] unfolding only_dropped_def by (metis option.distinct(1))
  then have "files_ok E (o_fs st) \<longrightarrow> files_ok E fs'" unfolding files_ok_def by blast
  then show ?thesis by (simp add: fs'(2) steady_def)
qed

lemma AccountRemove_spec:
  assumes "SendMsgForAccountRemove E a st = (r, st')"
  shows "steady E st st' \<and> o_mem st' = o_mem st \<and> (r = ERR_OK \<longrightarrow> START_USER_ID < os_localId a)"
proof -
  let ?i = "os_localId a"
  obtain r1 st1 where 1: "SendToBMSAccountDelete E a st = (r1, st1)" by (metis prod.collapse)
  obtain r2 st2 where 2: "SendToStorageAccountRemove E a st1 = (r2, st2)" by (metis prod.collapse)
  obtain r3 st3 where 3: "on_files (DelOsAccount E ?i) st2 = (r3, st3)" by (metis prod.collapse)
  have s1: "same_accounts E st st1" using 1 same_ask by (auto simp: SendToBMSAccountDelete_def)
  have s2: "same_accounts E st1 st2"
    using 2 by (auto simp: SendToStorageAccountRemove_def split: prod.splits if_splits intro: same_ask same_trans)
  note s2 = same_trans [OF s1 s2]
  have s3: "steady E st2 st3 \<and> o_mem st3 = o_mem st2" using steady_dropped [OF 3] DelOsAccount_dropped(1) by blast
  have "r3 = ERR_OK \<Longrightarrow> START_USER_ID < ?i"
    using 3 DelOsAccount_dropped(2) by (auto simp: on_files_def split: prod.splits)
  moreover have "o_mem st1 = o_mem st" "o_mem st2 = o_mem st" using s1 s2 by (simp_all add: same_accounts_def)
  ultimately show ?thesis
    using assms steady_same [OF s1] steady_same [OF s2] steady_trans [OF steady_same [OF s2]] s3
    by (auto simp: SendMsgForAccountRemove_def 1 2 3 Let_def split: if_splits)
qed

text \<open>After the record of default accounts is refreshed, no display names the account.\<close>

lemma refresh_kept: "front_kept E st (refresh_display E d st)"
proof -
  let ?n = "if d = DEFAULT_DISPLAY_ID then START_USER_ID else INVALID_OS_ACCOUNT_ID"
  obtain x s where d: "on_files (SetDefaultActivatedOsAccount E (unat d) ?n) st = (x, s)" by (metis prod.collapse)
  have "front_kept E st s" by (rule kept_same [OF same_set_default [OF d]])
  then show ?thesis unfolding refresh_display_def Let_def d snd_conv by (rule kept_upd) simp
qed

lemma refresh_mem:
  "verifiedAccounts (o_mem (refresh_display E d st)) = verifiedAccounts (o_mem st)
    \<and> loggedInAccounts (o_mem (refresh_display E d st)) = loggedInAccounts (o_mem st)
    \<and> defaultActivatedIds (o_mem (refresh_display E d st)) =
        sm_put d (if d = DEFAULT_DISPLAY_ID then START_USER_ID else INVALID_OS_ACCOUNT_ID) (defaultActivatedIds (o_mem st))"
  by (simp add: refresh_display_def Let_def on_files_def split_beta)

lemma refresh_all:
  "front_kept E st (fold (refresh_display E) ds st)
    \<and> verifiedAccounts (o_mem (fold (refresh_display E) ds st)) = verifiedAccounts (o_mem st)
    \<and> loggedInAccounts (o_mem (fold (refresh_display E) ds st)) = loggedInAccounts (o_mem st)
    \<and> map_of (defaultActivatedIds (o_mem (fold (refresh_display E) ds st))) d =
        (if d \<in> set ds then Some (if d = DEFAULT_DISPLAY_ID then START_USER_ID else INVALID_OS_ACCOUNT_ID)
         else map_of (defaultActivatedIds (o_mem st)) d)"
proof (induction ds arbitrary: st)
  case (Cons x ds)
  have k: "front_kept E st (fold (refresh_display E) (x # ds) st)"
    using kept_trans [OF refresh_kept [of E st x], of "fold (refresh_display E) ds (refresh_display E x st)"]
      Cons.IH [of "refresh_display E x st"] by simp
  show ?case using k Cons.IH [of "refresh_display E x st"] refresh_mem [of E x st] by simp
qed simp

lemma Refresh_spec:
  assumes "START_USER_ID < i"
  shows "front_kept E st (CheckAndRefreshLocalIdRecord E i st)
    \<and> verifiedAccounts (o_mem (CheckAndRefreshLocalIdRecord E i st)) = verifiedAccounts (o_mem st)
    \<and> loggedInAccounts (o_mem (CheckAndRefreshLocalIdRecord E i st)) = loggedInAccounts (o_mem st)
    \<and> map_of (defaultActivatedIds (o_mem (CheckAndRefreshLocalIdRecord E i st))) d \<noteq> Some i"
proof -
  let ?ds = "map fst (filter (\<lambda>e. snd e = i) (defaultActivatedIds (o_mem st)))"
  define st1 where "st1 = fold (refresh_display E) ?ds st"
  obtain r st2 where 2: "on_files (UpdateDeviceOwnerId E (-1)) st1 = (r, st2)" by (metis prod.collapse)
  have all: "front_kept E st st1" "verifiedAccounts (o_mem st1) = verifiedAccounts (o_mem st)"
    "loggedInAccounts (o_mem st1) = loggedInAccounts (o_mem st)"
    "map_of (defaultActivatedIds (o_mem st1)) d = (if d \<in> set ?ds
       then Some (if d = DEFAULT_DISPLAY_ID then START_USER_ID else INVALID_OS_ACCOUNT_ID) else map_of (defaultActivatedIds (o_mem st)) d)"
    unfolding st1_def using refresh_all by blast+
  have "map_of (defaultActivatedIds (o_mem st)) d = Some i \<Longrightarrow> d \<in> set ?ds" by (force dest: map_of_SomeD)
  then have fresh: "map_of (defaultActivatedIds (o_mem st1)) d \<noteq> Some i"
    using all(4) assms by (auto simp: START_USER_ID_def INVALID_OS_ACCOUNT_ID_def)
  have "same_accounts E st1 st2" using 2 by (rule same_on_files) (rule device_owner_accounts)
  then have k2: "front_kept E st st2" and m2: "o_mem st2 = o_mem st1"
    using kept_trans [OF all(1) kept_same] by (simp_all add: same_accounts_def)
  then have "front_kept E st (upd_mem (\<lambda>m. m\<lparr>deviceOwnerId := -1\<rparr>) st2)" by (intro kept_upd) (simp_all add: same_front_def)
  with all k2 fresh show ?thesis
    unfolding CheckAndRefreshLocalIdRecord_def Let_def st1_def [symmetric] 2 by (auto simp: m2 split: if_splits)
qed

lemma RemoveOperate_spec:
  assumes "osm_ok E" and "files_ok E (o_fs st)" and "mem_inv E (o_mem st)" and "deactivatingAccounts (o_mem st) = []"
    and "i \<in> set (operatingId (o_mem st))" and "os_localId a = i" and "os_record_ok a" and "front_of a (foregroundAccountMap (o_mem st))"
    and "RemoveOsAccountOperate E i a False st = (r, st')"
  shows "steady E st st' \<and> (r = ERR_OK \<longrightarrow> gone i (o_mem st') \<and> START_USER_ID < i \<and> (\<forall>d. map_of (defaultActivatedIds (o_mem st')) d \<noteq> Some i))"
proof -
  obtain r1 a1 st1 where 1: "PrepareRemoveOsAccount E a False st = ((r1, a1), st1)" by (rule pair3)
  obtain r2 st2 where 2: "SendMsgForAccountRemove E a1 st1 = (r2, st2)" by (metis prod.collapse)
  obtain r3 st3 where 3: "on_files (RemoveOAConstraintsInfo E i) st2 = (r3, st3)" by (metis prod.collapse)
  let ?st4 = "CheckAndRefreshLocalIdRecord E i st3"
  note p1 = PrepareRemove_spec [OF assms(1-8) 1] and p2 = AccountRemove_spec [OF 2]
  have s2: "steady E st st2" using steady_trans p1 p2 by blast
  have same3: "same_accounts E st2 st3" using 3 by (rule same_on_files) (rule constraint_removal_accounts)
  have s3: "steady E st st3" by (rule steady_trans [OF s2 steady_same [OF same3]])
  have fin: "steady E st ?st4 \<and> gone i (o_mem ?st4) \<and> START_USER_ID < i \<and> (\<forall>d. map_of (defaultActivatedIds (o_mem ?st4)) d \<noteq> Some i)"
    if "r1 = ERR_OK" "r2 = ERR_OK"
  proof -
    have i: "START_USER_ID < i" using p1 p2 that by simp
    have g: "gone i (o_mem st3)" using p1 p2 that same3 by (simp add: same_accounts_def)
    note ref = Refresh_spec [OF i, of E st3]
    have "steady E st ?st4" using steady_trans [OF s3 steady_kept] ref by blast
    moreover have "gone i (o_mem ?st4)" using g ref by (auto simp: gone_def front_kept_def same_front_def)
    ultimately show ?thesis using i ref by blast
  qed
  show ?thesis
    using assms(9) p1 s2 s3 fin unfolding RemoveOsAccountOperate_def 1 2 3 Let_def prod.case
    by (auto split: if_splits)
qed

lemma steady_unmark:
  assumes "CheckAndAddLocalIdOperating i st = (True, st0)" and "steady E st0 st1"
  shows "steady E st (RemoveLocalIdToOperating i st1)"
proof -
  have n: "i \<notin> set (operatingId (o_mem st))" "st0 = upd_mem (marked i) st" using mark_spec [OF assms(1)] by simp_all
  with assms(2) have "operatingId (o_mem st1) = operatingId (o_mem st) @ [i]" by (simp add: steady_def)
  with assms(2) n show ?thesis by (simp add: steady_def)
qed

lemma gone_unmark [simp]: "gone j (m\<lparr>operatingId := x\<rparr>) = gone j m"
  by (simp add: gone_def)

lemma same_complete_loop: "complete_loop E i n e st = (x, st') \<Longrightarrow> same_accounts F st st'"
proof (induction n arbitrary: e st)
  case (Suc n)
  obtain e1 st1 where 1: "InnerSendToStorageAccountCreateComplete E i st = (e1, st1)" by (metis prod.collapse)
  obtain p st2 where 2: "GetStorageProxy E st = (p, st2)" by (metis prod.collapse)
  have "same_accounts F st st1"
    using 1 same_storage_proxy [OF 2, of F] by (auto simp: InnerSendToStorageAccountCreateComplete_def 2 split: if_splits intro: same_trans same_ask)
  with Suc 1 show ?case by (auto simp: Let_def split: if_splits intro: same_trans)
qed auto

lemma Remove_spec:
  assumes "osm_ok E" and "files_ok E (o_fs st)" and "mem_inv E (o_mem st)" and "deactivatingAccounts (o_mem st) = []"
    and "RemoveOsAccount E i st = (r, st')"
  shows "steady E st st' \<and> (r = ERR_OK \<longrightarrow> gone i (o_mem st') \<and> START_USER_ID < i \<and> (\<forall>d. map_of (defaultActivatedIds (o_mem st')) d \<noteq> Some i))"
proof -
  obtain added st0 where 0: "CheckAndAddLocalIdOperating i st = (added, st0)" by (metis prod.collapse)
  show ?thesis
  proof (cases added)
    case False
    then show ?thesis using assms(5) 0 not_marked [of i st st0] by (auto simp: RemoveOsAccount_def)
  next
    case True
    with 0 have mark: "CheckAndAddLocalIdOperating i st = (True, st0)" by simp
    have st0: "o_mem st0 = marked i (o_mem st)" "files_ok E (o_fs st0)" using mark_spec [OF mark] assms(2) by simp_all
    obtain r1 a st1 where 1: "GetRealOsAccountInfoById E i st0 = ((r1, a), st1)" by (rule pair3)
    obtain r2 st2 where 2: "SendToStorageAccountCreateComplete E i st1 = (r2, st2)" by (metis prod.collapse)
    let ?a = "a\<lparr>os_toBeRemoved := True\<rparr>"
    obtain r3 st3 where 3: "on_files (UpdateOsAccountInfo E ?a) st2 = (r3, st3)" by (metis prod.collapse)
    obtain r4 st4 where 4: "RemoveOsAccountOperate E i ?a False st3 = (r4, st4)" by (metis prod.collapse)
    have s1: "same_accounts E st0 st1" using GetReal_spec [OF assms(1) 1] by blast
    have s2: "same_accounts E st0 st2"
      by (rule same_trans [OF s1 same_complete_loop [OF 2 [unfolded SendToStorageAccountCreateComplete_def]]])
    note u1 = steady_unmark [OF mark steady_same [OF s1]] and u2 = steady_unmark [OF mark steady_same [OF s2]]
    have fin: "steady E st0 st3 \<and> steady E st0 st4 \<and> (r4 = ERR_OK \<longrightarrow> gone i (o_mem st4) \<and> START_USER_ID < i
        \<and> (\<forall>d. map_of (defaultActivatedIds (o_mem st4)) d \<noteq> Some i))" if "r1 = ERR_OK"
    proof -
      obtain b where b: "stored_account E (o_fs st0) i = Some b" "a = real_info i (o_mem st0) b"
        using GetReal_spec [OF assms(1) 1] \<open>r1 = ERR_OK\<close> by blast
      then have ok: "os_localId b = i" "os_record_ok b" using st0(2) unfolding files_ok_def by blast+
      have m2: "o_mem st2 = o_mem st0" "files_ok E (o_fs st2)" using s2 st0(2) by (simp_all add: same_accounts_def files_ok_def)
      have a: "os_localId ?a = i" "os_record_ok ?a" using b(2) ok by simp_all
      have k3: "front_kept E st0 st3"
        by (rule kept_trans [OF kept_same [OF s2] kept_update [OF assms(1) a(2) 3]])
      have m3: "o_mem st3 = marked i (o_mem st)" "files_ok E (o_fs st3)"
        using update_spec [OF assms(1) m2(2) a(2) 3] m2 st0 by simp_all
      have "front_of a (foregroundAccountMap (o_mem st0))" 
        unfolding b(2) by (rule front_of_real [where E = E, OF _ ok(1)]) (simp add: st0 assms(3))
      then have "front_of ?a (foregroundAccountMap (o_mem st3))" using m3 st0 by (simp add: front_of_def)
      from RemoveOperate_spec [OF assms(1) m3(2) _ _ _ a this 4] assms(3,4) m3(1) steady_trans [OF steady_kept [OF k3], of st4]
      show ?thesis using steady_kept [OF k3] by simp
    qed
    have u3: "steady E st (RemoveLocalIdToOperating i st3)" "steady E st (RemoveLocalIdToOperating i st4)" if "r1 = ERR_OK"
      using fin [OF that] steady_unmark [OF mark] by blast+
    show ?thesis
      using assms(5) True u1 u2 u3 fin unfolding RemoveOsAccount_def 0 1 2 3 4 Let_def prod.case
      by (auto split: if_splits)
  qed
qed

section \<open>Cleaning up\<close>

text \<open>Cleaning touches neither who is active nor who is in front.\<close>

lemma garbage_steady:
  assumes "RemoveOsAccountOperate E i a True st = (r, st')"
  shows "steady E st st' \<and> activeAccountId (o_mem st') = activeAccountId (o_mem st) \<and> foregroundAccountMap (o_mem st') = foregroundAccountMap (o_mem st)"
proof -
  obtain r0 st0 where 0: "SendToIDMAccountDelete E a st = (r0, st0)" by (metis prod.collapse)
  obtain r1 a1 st1 where 1: "PrepareRemoveOsAccount E a True st = ((r1, a1), st1)" by (rule pair3)
  obtain r2 st2 where 2: "SendMsgForAccountRemove E a1 st1 = (r2, st2)" by (metis prod.collapse)
  obtain r3 st3 where 3: "on_files (RemoveOAConstraintsInfo E i) st2 = (r3, st3)" by (metis prod.collapse)
  have "same_accounts E st st0" using 0 by (auto simp: SendToIDMAccountDelete_def split: prod.splits intro: same_ask)
  then have same1: "same_accounts E st st1" using 1 by (auto simp: PrepareRemoveOsAccount_def 0 Let_def split: if_splits)
  have same3: "same_accounts E st2 st3" using 3 by (rule same_on_files) (rule constraint_removal_accounts)
  have k: "front_kept E st3 (CheckAndRefreshLocalIdRecord E i st3)"
  proof -
    let ?ds = "map fst (filter (\<lambda>e. snd e = i) (defaultActivatedIds (o_mem st3)))"
    obtain x s where d: "on_files (UpdateDeviceOwnerId E (-1)) (fold (refresh_display E) ?ds st3) = (x, s)" by (metis prod.collapse)
    have f: "front_kept E st3 (fold (refresh_display E) ?ds st3)" using refresh_all by blast
    have "same_accounts E (fold (refresh_display E) ?ds st3) s" using d by (rule same_on_files) (rule device_owner_accounts)
    from kept_trans [OF f kept_same [OF this]] have g: "front_kept E st3 s" .
    then have "front_kept E st3 (upd_mem (\<lambda>m. m\<lparr>deviceOwnerId := -1\<rparr>) s)" by (rule kept_upd) (simp add: same_front_def)
    with f g show ?thesis unfolding CheckAndRefreshLocalIdRecord_def Let_def d by (auto split: if_splits)
  qed
  note s2 = steady_trans [OF steady_same [OF same1]] and p2 = AccountRemove_spec [OF 2]
  have s3: "steady E st st3" using steady_trans s2 p2 steady_same [OF same3] by blast
  have "steady E st (CheckAndRefreshLocalIdRecord E i st3)" by (rule steady_trans [OF s3 steady_kept [OF k]])
  moreover have "o_mem st1 = o_mem st" "o_mem st2 = o_mem st" "o_mem st3 = o_mem st"
    using same1 p2 same3 by (simp_all add: same_accounts_def)
  ultimately show ?thesis
    using assms s2 [of st2] p2 s3 steady_same [OF same1] k
    unfolding RemoveOsAccountOperate_def 1 2 3 Let_def prod.case
    by (auto simp: front_kept_def same_front_def split: if_splits)
qed

lemma clean_loop_steady:
  assumes "osm_ok E" and "clean_loop E x ids n st = (k, st')"
  shows "steady E st st' \<and> activeAccountId (o_mem st') = activeAccountId (o_mem st) \<and> foregroundAccountMap (o_mem st') = foregroundAccountMap (o_mem st)"
  using assms(2)
proof (induction ids arbitrary: n st)
  case (Cons i ids)
  obtain added st0 where 0: "CheckAndAddLocalIdOperating i st = (added, st0)" by (metis prod.collapse)
  obtain r a st1 where 1: "GetRealOsAccountInfoById E i st0 = ((r, a), st1)" by (rule pair3)
  obtain e st2 where 2: "RemoveOsAccountOperate E i (a\<lparr>os_localId := i\<rparr>) True st1 = (e, st2)" by (metis prod.collapse)
  have same1: "same_accounts E st0 st1" using GetReal_spec [OF assms(1) 1] by blast
  have step: "\<exists>m st3. clean_loop E x ids m st3 = (k, st') \<and> steady E st st3
      \<and> activeAccountId (o_mem st3) = activeAccountId (o_mem st) \<and> foregroundAccountMap (o_mem st3) = foregroundAccountMap (o_mem st)"
  proof (cases "added \<and> \<not> (i = START_USER_ID \<or> i = ADMIN_LOCAL_ID \<or> i = U1_ID \<or> i = x)")
    case True
    with 0 have mark: "CheckAndAddLocalIdOperating i st = (True, st0)" by simp
    have m1: "o_mem st1 = marked i (o_mem st)" using mark_spec [OF mark] same1 by (simp add: same_accounts_def)
    note g = garbage_steady [OF 2]
    have "steady E st (RemoveLocalIdToOperating i st1)" "steady E st (RemoveLocalIdToOperating i st2)"
      using steady_unmark [OF mark] steady_same [OF same1] steady_trans [OF steady_same [OF same1]] g by blast+
    moreover have "clean_loop E x ids n (RemoveLocalIdToOperating i st1) = (k, st')
        \<or> clean_loop E x ids (if e \<noteq> ERR_OK then n else Suc n) (RemoveLocalIdToOperating i st2) = (k, st')"
      using Cons.prems True unfolding clean_loop.simps 0 1 Let_def prod.case 2 by (simp split: if_splits)
    moreover have "activeAccountId (o_mem (RemoveLocalIdToOperating i s)) = activeAccountId (o_mem st)
        \<and> foregroundAccountMap (o_mem (RemoveLocalIdToOperating i s)) = foregroundAccountMap (o_mem st)" if "s = st1 \<or> s = st2" for s
      using that m1 g by auto
    ultimately show ?thesis by blast
  next
    case False
    then have "clean_loop E x ids n st = (k, st')" using Cons.prems 0 not_marked [of i st st0] by (auto split: if_splits)
    then show ?thesis using steady_refl by blast
  qed
  then obtain m st3 where "clean_loop E x ids m st3 = (k, st')" "steady E st st3"
    "activeAccountId (o_mem st3) = activeAccountId (o_mem st)" "foregroundAccountMap (o_mem st3) = foregroundAccountMap (o_mem st)" by blast
  with Cons.IH [of m st3] steady_trans [of E st st3 st'] show ?case by simp
qed simp

lemma Clean_steady:
  assumes "osm_ok E" and "CleanGarbageOsAccounts E x st = (k, st')"
  shows "steady E st st'"
proof -
  obtain r ids st1 where 1: "on_files (GetOsAccountIdList E) st = ((r, ids), st1)" by (rule pair3)
  have "same_accounts E st st1"
    using 1 by (rule same_on_files)
      (auto simp: GetOsAccountIdList_def split: prod.splits if_splits dest: GetAccountList_frame intro: stored_account_files)
  from steady_trans [OF steady_same [OF this]] steady_same [OF this] assms(2) clean_loop_steady [OF assms(1), of x ids 0 st1 k st']
  show ?thesis by (auto simp: CleanGarbageOsAccounts_def 1 split: if_splits)
qed

end
