(* ===== verification/Photo_Codec.thy ===== *)
theory Photo_Codec
  imports Os_Account_Info
begin

text \<open>
  The photo of an OS account (\<open>services/accountmgr/src/osaccount/os_account_photo_operator.cpp\<close> and the photo operations of
  \<open>os_account_control_file_manager.cpp\<close>): a base 64 code that breaks its lines, its decoder, and the file of a photo. Bytes
  are 8 bit words; the source computes in \<open>int\<close> and cuts every result to a byte, which is the same because it shifts to
  the right only what fits in a byte.
\<close>

unbundle bit_operations_syntax

section \<open>The code\<close>

definition baseChars :: string where
  "baseChars = ''ABCDEFGHIJKLMNOPQRSTUVWXYZabcdefghijklmnopqrstuvwxyz0123456789+/''"

definition base_char :: "u8 \<Rightarrow> char" where
  "base_char w = baseChars ! unat w"

definition line_break :: string where
  "line_break = [CHR 0x0D, CHR 0x0A]"

definition char_byte :: "char \<Rightarrow> u8" where
  "char_byte c = of_nat (of_char c)"

definition byte_char :: "u8 \<Rightarrow> char" where
  "byte_char w = char_of (unat w)"

text \<open>The loop over groups of three bytes with the length of the current line, and the last one or two bytes.\<close>

fun encode_loop :: "nat \<Rightarrow> string \<Rightarrow> string" where
  "encode_loop lineLength (x # y # z # data) =
     (let a = char_byte x; b = char_byte y; c = char_byte z in
      [base_char (drop_bit 2 a), base_char ((push_bit 4 a OR drop_bit 4 b) AND 0x3F),
       base_char ((push_bit 2 b OR drop_bit 6 c) AND 0x3F), base_char (c AND 0x3F)] @
      (if lineLength + 4 = 76 then line_break @ encode_loop 0 data else encode_loop (lineLength + 4) data))"
| "encode_loop lineLength [x] =
     (let a = char_byte x in
      [base_char (drop_bit 2 (a AND 0xFC)), base_char (push_bit 4 (a AND 0x03))] @ ''=='')"
| "encode_loop lineLength [x, y] =
     (let a = char_byte x; b = char_byte y in
      [base_char (drop_bit 2 (a AND 0xFC)), base_char (push_bit 4 (a AND 0x03) OR drop_bit 4 (b AND 0xF0)),
       base_char (push_bit 2 (b AND 0x0F))] @ ''='')"
| "encode_loop lineLength [] = []"

definition EnCode :: "string \<Rightarrow> string" where
  "EnCode data = encode_loop 0 data"

definition IsBase :: "char \<Rightarrow> bool" where
  "IsBase c \<longleftrightarrow> (CHR ''0'' \<le> c \<and> c \<le> CHR ''9'') \<or> (CHR ''A'' \<le> c \<and> c \<le> CHR ''Z'') \<or> (CHR ''a'' \<le> c \<and> c \<le> CHR ''z'')
     \<or> c = CHR ''+'' \<or> c = CHR ''/''"

text \<open>\<open>baseChars_.find\<close>, whose \<open>npos\<close> becomes 255 in a byte.\<close>

fun find_in :: "string \<Rightarrow> char \<Rightarrow> nat \<Rightarrow> u8" where
  "find_in [] c n = 255"
| "find_in (x # xs) c n = (if x = c then of_nat n else find_in xs c (Suc n))"

definition base_index :: "char \<Rightarrow> u8" where
  "base_index c = find_in baseChars c 0"

definition decode4 :: "u8 \<Rightarrow> u8 \<Rightarrow> u8 \<Rightarrow> u8 \<Rightarrow> string" where
  "decode4 a b c d =
     [byte_char (push_bit 2 a + drop_bit 4 (b AND 0x30)), byte_char (push_bit 4 (b AND 0xf) + drop_bit 2 (c AND 0x3c)),
      byte_char (push_bit 6 (c AND 0x3) + d)]"

text \<open>What is left when the loop ends is filled with zero characters, which are no base characters.\<close>

definition decode_rest :: "string \<Rightarrow> string" where
  "decode_rest pend =
     (if pend = [] then []
      else case map base_index (pend @ replicate (4 - length pend) (CHR 0x00)) of
             [a, b, c, d] \<Rightarrow> take (length pend - 1) (decode4 a b c d)
           | _ \<Rightarrow> [])"

fun decode_loop :: "string \<Rightarrow> string \<Rightarrow> string" where
  "decode_loop pend [] = decode_rest pend"
| "decode_loop pend (x # s) =
     (if x \<noteq> CHR ''='' \<and> IsBase x
      then case map base_index (pend @ [x]) of
             [a, b, c, d] \<Rightarrow> decode4 a b c d @ decode_loop [] s
           | _ \<Rightarrow> decode_loop (pend @ [x]) s
      else decode_rest pend)"

definition DeCode :: "string \<Rightarrow> string" where
  "DeCode baseStr = (if baseStr = [] then [] else decode_loop [] baseStr)"

section \<open>The file of a photo\<close>

definition USER_PHOTO_FILE_JPG_NAME :: string where "USER_PHOTO_FILE_JPG_NAME = ''fase.jpg''"
definition USER_PHOTO_FILE_PNG_NAME :: string where "USER_PHOTO_FILE_PNG_NAME = ''fase.png''"
definition USER_PHOTO_FILE_TXT_NAME :: string where "USER_PHOTO_FILE_TXT_NAME = ''photo.txt''"
definition USER_PHOTO_BASE_JPG_HEAD :: string where "USER_PHOTO_BASE_JPG_HEAD = ''data:image/jpeg;base64,''"
definition USER_PHOTO_BASE_PNG_HEAD :: string where "USER_PHOTO_BASE_PNG_HEAD = ''data:image/png;base64,''"

text \<open>The loop that erases the first line break until there is none.\<close>

fun erase_first :: "string \<Rightarrow> string option" where
  "erase_first (x # y # s) =
     (if x = CHR 0x0D \<and> y = CHR 0x0A then Some s else map_option (\<lambda>t. x # t) (erase_first (y # s)))"
| "erase_first _ = None"

lemma erase_first_length: "erase_first s = Some t \<Longrightarrow> length t < length s"
  by (induction s arbitrary: t rule: erase_first.induct) (auto split: if_splits)

function erase_breaks :: "string \<Rightarrow> string" where
  "erase_breaks s = (case erase_first s of None \<Rightarrow> s | Some t \<Rightarrow> erase_breaks t)"
  by auto
termination by (relation "measure length") (auto dest: erase_first_length)

declare erase_breaks.simps [simp del]

definition photo_path :: "int \<Rightarrow> string \<Rightarrow> string" where
  "photo_path i photo = USER_INFO_BASE @ ''/'' @ to_string_int i @ ''/'' @ photo"

definition GetPhotoById :: "'z file_env_scheme \<Rightarrow> int \<Rightarrow> string \<Rightarrow> fs_state \<Rightarrow> (ErrCode \<times> string) \<times> fs_state" where
  "GetPhotoById E i photo fs =
     (if photo \<noteq> USER_PHOTO_FILE_JPG_NAME \<and> photo \<noteq> USER_PHOTO_FILE_PNG_NAME \<and> photo \<noteq> USER_PHOTO_FILE_TXT_NAME
      then ((ERR_OK, photo), fs)
      else let ((errCode, byteStr), fs1) = GetFileContentByPath E (photo_path i photo) [] fs in
      if errCode \<noteq> ERR_OK then ((errCode, photo), fs1)
      else if photo = USER_PHOTO_FILE_TXT_NAME then ((ERR_OK, byteStr), fs1)
      else ((ERR_OK, erase_breaks ((if photo = USER_PHOTO_FILE_JPG_NAME then USER_PHOTO_BASE_JPG_HEAD else USER_PHOTO_BASE_PNG_HEAD)
                                   @ EnCode byteStr)), fs1))"

definition SetPhotoById :: "'z file_env_scheme \<Rightarrow> int \<Rightarrow> string \<Rightarrow> fs_state \<Rightarrow> ErrCode \<times> fs_state" where
  "SetPhotoById E i photo = InputFileByPathAndContentWithTransaction E (photo_path i USER_PHOTO_FILE_TXT_NAME) photo"

section \<open>Decoding what was encoded\<close>

lemma byte_eqI:
  fixes x y :: u8
  assumes "bit x 0 = bit y 0" "bit x 1 = bit y 1" "bit x 2 = bit y 2" "bit x 3 = bit y 3"
    "bit x 4 = bit y 4" "bit x 5 = bit y 5" "bit x 6 = bit y 6" "bit x 7 = bit y 7"
  shows "x = y"
proof (rule bit_word_eqI)
  fix n assume "n < LENGTH(8)"
  then have "n \<in> {0, 1, 2, 3, 4, 5, 6, 7}" by auto
  with assms show "bit x n = bit y n" by auto
qed

lemma sextets:
  fixes a b c :: u8
  shows "push_bit 2 (drop_bit 2 a) + drop_bit 4 (((push_bit 4 a OR drop_bit 4 b) AND 0x3F) AND 0x30) = a"
    and "push_bit 4 (((push_bit 4 a OR drop_bit 4 b) AND 0x3F) AND 0xf) + drop_bit 2 (((push_bit 2 b OR drop_bit 6 c) AND 0x3F) AND 0x3c) = b"
    and "push_bit 6 (((push_bit 2 b OR drop_bit 6 c) AND 0x3F) AND 0x3) + (c AND 0x3F) = c"
  by (subst disjunctive_add_eq_or; rule byte_eqI; simp add: bit_simps)+

lemma last_sextets:
  fixes a b c :: u8
  shows "push_bit 2 (drop_bit 2 (a AND 0xFC)) + drop_bit 4 (push_bit 4 (a AND 0x03) AND 0x30) = a"
    and "push_bit 2 (drop_bit 2 (a AND 0xFC)) + drop_bit 4 ((push_bit 4 (a AND 0x03) OR drop_bit 4 (b AND 0xF0)) AND 0x30) = a"
    and "push_bit 4 ((push_bit 4 (a AND 0x03) OR drop_bit 4 (b AND 0xF0)) AND 0xf) + drop_bit 2 (push_bit 2 (b AND 0x0F) AND 0x3c) = b"
  by (subst disjunctive_add_eq_or; rule byte_eqI; simp add: bit_simps)+

lemma byte_char_of [simp]: "byte_char (char_byte x) = x"
proof -
  have "(of_char x :: nat) < 256" by simp
  then show ?thesis by (simp add: byte_char_def char_byte_def unat_of_nat)
qed

lemma base_code: "n < 64 \<Longrightarrow> base_index (baseChars ! n) = of_nat n \<and> IsBase (baseChars ! n) \<and> baseChars ! n \<noteq> CHR ''=''
    \<and> baseChars ! n \<noteq> CHR 0x0D"
proof -
  have "\<forall>n \<in> set [0..<64]. base_index (baseChars ! n) = of_nat n \<and> IsBase (baseChars ! n) \<and> baseChars ! n \<noteq> CHR ''=''
    \<and> baseChars ! n \<noteq> CHR 0x0D" by code_simp
  then show "n < 64 \<Longrightarrow> ?thesis" by simp
qed

lemma base_char_code:
  assumes "w AND 0x3F = w"
  shows "base_index (base_char w) = w" "IsBase (base_char w)" "base_char w \<noteq> CHR ''=''" "base_char w \<noteq> CHR 0x0D"
proof -
  have "w AND 0x3F \<le> 0x3F" by (rule word_and_le1)
  then have "w \<le> 0x3F" using assms by simp
  then have "unat w < 64" by (simp add: word_le_nat_alt)
  from base_code [OF this] show "base_index (base_char w) = w" "IsBase (base_char w)" "base_char w \<noteq> CHR ''=''" "base_char w \<noteq> CHR 0x0D"
    by (simp_all add: base_char_def)
qed

text \<open>The code without line breaks.\<close>

fun plain_code :: "string \<Rightarrow> string" where
  "plain_code (x # y # z # data) = take 4 (encode_loop 0 [x, y, z]) @ plain_code data"
| "plain_code [x] = encode_loop 0 [x]"
| "plain_code [x, y] = encode_loop 0 [x, y]"
| "plain_code [] = []"

lemma sextet:
  fixes a b :: u8
  shows "drop_bit 2 a AND 0x3F = drop_bit 2 a" "(a AND 0x3F) AND 0x3F = a AND 0x3F"
    "push_bit 4 (a AND 0x03) AND 0x3F = push_bit 4 (a AND 0x03)" "push_bit 2 (b AND 0x0F) AND 0x3F = push_bit 2 (b AND 0x0F)"
    "(push_bit 4 (a AND 0x03) OR drop_bit 4 (b AND 0xF0)) AND 0x3F = push_bit 4 (a AND 0x03) OR drop_bit 4 (b AND 0xF0)"
  by (rule byte_eqI; auto simp: bit_simps dest: bit_imp_le_length)+

lemmas keep_bits = push_bit_and push_bit_or drop_bit_and drop_bit_or

lemma replicate_2: "replicate 2 x = [x, x]"
  by (simp add: numeral_2_eq_2)

lemma decode_plain: "decode_loop [] (plain_code data) = data"
proof (induction data rule: plain_code.induct)
  case (1 x y z data)
  then show ?case by (simp add: Let_def base_char_code sextet decode4_def sextets del: keep_bits)
next
  case (2 x)
  show ?case by (simp add: Let_def base_char_code sextet decode4_def last_sextets decode_rest_def replicate_2 del: keep_bits)
next
  case (3 x y)
  show ?case by (simp add: Let_def base_char_code sextet decode4_def last_sextets decode_rest_def replicate_2 del: keep_bits)
qed (simp add: decode_rest_def)

lemma erase_first_at:
  "CHR 0x0D \<notin> set p \<Longrightarrow> erase_first (p @ line_break @ s) = Some (p @ s)"
  by (induction p rule: induct_list012) (auto simp: line_break_def)

lemma erase_first_none: "CHR 0x0D \<notin> set s \<Longrightarrow> erase_first s = None"
  by (induction s rule: erase_first.induct) auto

lemma erase_breaks_code:
  assumes "CHR 0x0D \<notin> set p"
  shows "erase_breaks (p @ encode_loop n data) = p @ plain_code data"
  using assms
proof (induction data arbitrary: n p rule: plain_code.induct)
  case (1 x y z data)
  let ?q = "p @ take 4 (encode_loop 0 [x, y, z])"
  have q: "CHR 0x0D \<notin> set ?q" using 1(2) by (simp add: Let_def base_char_code(4) [THEN not_sym] sextet del: keep_bits)
  show ?case
  proof (cases "n + 4 = 76")
    case True
    then have "p @ encode_loop n (x # y # z # data) = ?q @ line_break @ encode_loop 0 data" by (simp add: Let_def)
    with 1(1) [OF q, of 0] erase_first_at [OF q, of "encode_loop 0 data"] show ?thesis by (simp add: erase_breaks.simps)
  next
    case False
    with 1(1) [OF q, of "n + 4"] show ?thesis by (simp add: Let_def)
  qed
qed (auto simp: Let_def base_char_code(4) [THEN not_sym] sextet erase_breaks.simps erase_first_none simp del: keep_bits)


end
