(* ===== verification/Os_Account_Creation.thy ===== *)
theory Os_Account_Creation
  imports Os_Account_Removal Photo_Codec
begin

text \<open>
  The creation of OS accounts (\<open>CreateOsAccount\<close> of \<open>inner_os_account_manager.cpp\<close>, with the messages to the storage and the bundle
  manager of \<open>os_account_interface.cpp\<close>). A result \<open>None\<close> is the search for a serial number that does not end. Additions that
  leave the 64 bits of \<open>int64_t\<close> wrap. The message to the static
  subscribers and the events of sub profiles, which only inform, are left out, as is the part for builds with the authorization service.
\<close>

section \<open>Constants and options\<close>

definition MAINTENANCE_MODE_ID :: int where "MAINTENANCE_MODE_ID = 10736"
definition TOKEN_NATIVE :: int where "TOKEN_NATIVE = 1"
definition MAX_PRIVATE_TYPE_NUMBER :: nat where "MAX_PRIVATE_TYPE_NUMBER = 1"
definition MAX_MAINTENANCE_TYPE_NUMBER :: nat where "MAX_MAINTENANCE_TYPE_NUMBER = 1"
definition OS_ACCOUNT_INFO_LATEST_VERSION :: int where "OS_ACCOUNT_INFO_LATEST_VERSION = 1"
definition OS_ACCOUNT_CONSTRAINT_CONFIG_PATH :: string where
  "OS_ACCOUNT_CONSTRAINT_CONFIG_PATH = ''/system/etc/account/os_account_constraint_config.json''"
definition KEY_TYPE_TO_CONSTRAINTS :: string where "KEY_TYPE_TO_CONSTRAINTS = ''Type2Constraints''"

record CreateOsAccountOptions =
  disallowedHapList :: "string list"
  allowedHapList :: "string list option"
  opt_shortName :: string
  opt_localId :: "int option"

definition CreateOsAccountOptions_init :: CreateOsAccountOptions where
  "CreateOsAccountOptions_init = \<lparr>disallowedHapList = [], allowedHapList = None, opt_shortName = [], opt_localId = None\<rparr>"

definition wrap64 :: "int \<Rightarrow> int" where
  "wrap64 n = sint (word_of_int n :: u64)"

section \<open>The files\<close>

definition GetSerialNumber :: "'z osi_env_scheme \<Rightarrow> int \<Rightarrow> fs_state \<Rightarrow> ((ErrCode \<times> int) \<times> fs_state) option" where
  "GetSerialNumber E serialNumber fs =
     (let ((result, j), fs1) = GetAccountListFromFile E fs in
      if result \<noteq> ERR_OK then Some ((result, serialNumber), fs1)
      else let serialNumber = or_keep (GetInt64FromJson j SERIAL_NUMBER_NUM) serialNumber;
               (ok, j1) = (if serialNumber = CARRY_NUM then AddBoolToJson j IS_SERIAL_NUMBER_FULL True else (True, j)) in
      if \<not> ok then Some ((ERR_ACCOUNT_COMMON_DUMP_JSON_ERROR, serialNumber), fs1)
      else let serialNumber = (if serialNumber = CARRY_NUM then SERIAL_NUMBER_NUM_START else serialNumber);
               isSerialNumberFull = or_keep (GetBoolFromJson j1 IS_SERIAL_NUMBER_FULL) False;
               ((result, osAccountInfos), fs2) = (if isSerialNumberFull then GetOsAccountList E fs1 else ((ERR_OK, []), fs1)) in
      if result \<noteq> ERR_OK then Some ((result, serialNumber), fs2)
      else case (if isSerialNumberFull then serial_loop (map os_serialNumber osAccountInfos) serialNumber else Some serialNumber) of
          None \<Rightarrow> None
        | Some serialNumber \<Rightarrow>
            let (ok, j2) = AddInt64ToJson j1 SERIAL_NUMBER_NUM (wrap64 (serialNumber + 1)) in
            if \<not> ok then Some ((ERR_ACCOUNT_COMMON_DUMP_JSON_ERROR, serialNumber), fs2)
            else let (result, fs3) = SaveAccountListToFileAndDataBase E j2 fs2 in
            if result \<noteq> ERR_OK then Some ((result, serialNumber), fs3)
            else Some ((ERR_OK, wrap64 (serialNumber + SERIAL_NUMBER_NUM_START_FOR_ADMIN * CARRY_NUM)), fs3))"

definition GetConstraintsByType :: "'z osi_env_scheme \<Rightarrow> int \<Rightarrow> fs_state \<Rightarrow> (ErrCode \<times> string list) \<times> fs_state" where
  "GetConstraintsByType E type fs =
     (let ((errCode, str), fs1) = GetFileContentByPath E OS_ACCOUNT_CONSTRAINT_CONFIG_PATH [] fs in
      if errCode \<noteq> ERR_OK then ((errCode, []), fs1)
      else let (ret, typeJson) = GetObjFromJson (CreateJsonFromString E str) KEY_TYPE_TO_CONSTRAINTS None in
      if \<not> ret then ((ERR_ACCOUNT_COMMON_BAD_JSON_FORMAT_ERROR, []), fs1)
      else ((ERR_OK, snd (GetVectorStringFromJson typeJson (to_string_int type) [])), fs1))"

definition IsOsAccountExists :: "'z osi_env_scheme \<Rightarrow> int \<Rightarrow> fs_state \<Rightarrow> (ErrCode \<times> bool) \<times> fs_state" where
  "IsOsAccountExists E i fs = (let (ex, fs1) = IsExistFile E (account_path (to_string_int i)) fs in ((ERR_OK, ex), fs1))"

section \<open>Counting and checking the accounts there are\<close>

text \<open>The plugin of the activation lock, where there is one, answers with a code and whether accounts may be created.\<close>

definition IsCreationAllowed :: "'z osm_env_scheme \<Rightarrow> osm_state \<Rightarrow> bool \<times> osm_state" where
  "IsCreationAllowed E st =
     (let (answer, st1) = ask (activation_plugin E) st in
      (case answer of None \<Rightarrow> True | Some (res, isAllowed) \<Rightarrow> res = ERR_OK \<and> isAllowed, st1))"

fun sa_created_num :: "'z osm_env_scheme \<Rightarrow> int list \<Rightarrow> osm_state \<Rightarrow> nat \<times> osm_state" where
  "sa_created_num E [] st = (0, st)"
| "sa_created_num E (i # ids) st =
     (let ((errCode, a), st1) = on_files (GetOsAccountInfoById E i OsAccountInfo_init) st;
          (n, st2) = sa_created_num E ids st1 in
      (if errCode = ERR_OK \<and> os_creatorType a = TOKEN_NATIVE then Suc n else n, st2))"

definition GetNonSACreatedOACount :: "'z osm_env_scheme \<Rightarrow> nat \<Rightarrow> osm_state \<Rightarrow> (ErrCode \<times> nat) \<times> osm_state" where
  "GetNonSACreatedOACount E count st =
     (let ((errCode, idList), st1) = on_files (GetOsAccountIdList E) st in
      if errCode \<noteq> ERR_OK then ((errCode, count), st1)
      else let (saCreatedNum, st2) = sa_created_num E idList st1 in ((ERR_OK, length idList - saCreatedNum), st2))"

definition CheckAndCleanOsAccounts :: "'z osm_env_scheme \<Rightarrow> osm_state \<Rightarrow> bool \<times> osm_state" where
  "CheckAndCleanOsAccounts E st =
     (let ((_, osAccountNum), st1) = GetNonSACreatedOACount E 0 st in
      if osAccountNum < maxOsAccountNum E then (True, st1)
      else let (removeNum, st2) = CleanGarbageOsAccounts E (-1) st1 in (0 < removeNum, st2))"

text \<open>The first account whose name or short name is taken decides.\<close>

fun name_taken :: "OsAccountInfo \<Rightarrow> OsAccountInfo list \<Rightarrow> ErrCode" where
  "name_taken a [] = ERR_OK"
| "name_taken a (info # infos) =
     (if os_type info = TYPE_PRIVATE \<or> os_localId info = os_localId a \<or> os_toBeRemoved info then name_taken a infos
      else if os_localName a = os_localName info then ERR_ACCOUNT_COMMON_NAME_HAD_EXISTED
      else if os_shortName a \<noteq> [] \<and> os_shortName a = os_shortName info then ERR_ACCOUNT_COMMON_SHORT_NAME_HAD_EXISTED
      else name_taken a infos)"

definition ValidateOsAccount :: "'z osm_env_scheme \<Rightarrow> OsAccountInfo \<Rightarrow> osm_state \<Rightarrow> ErrCode \<times> osm_state" where
  "ValidateOsAccount E a st =
     (if os_type a = TYPE_PRIVATE then (ERR_OK, st)
      else let ((result, osAccountInfos), st1) = on_files (GetOsAccountList E) st in
      if result \<noteq> ERR_OK then (result, st1) else (name_taken a osAccountInfos, st1))"

fun created_accounts :: "'z osm_env_scheme \<Rightarrow> int list \<Rightarrow> osm_state \<Rightarrow> OsAccountInfo list \<times> osm_state" where
  "created_accounts E [] st = ([], st)"
| "created_accounts E (i # ids) st =
     (let ((_, a), st1) = GetRealOsAccountInfoById E i st in
      if os_isCreateCompleted a \<and> \<not> os_toBeRemoved a
      then let ((_, photo), st2) = on_files (GetPhotoById E i (os_photo a)) st1;
               (infos, st3) = created_accounts E ids st2 in (a\<lparr>os_photo := photo\<rparr> # infos, st3)
      else created_accounts E ids st1)"

definition QueryAllCreatedOsAccounts :: "'z osm_env_scheme \<Rightarrow> osm_state \<Rightarrow> (ErrCode \<times> OsAccountInfo list) \<times> osm_state" where
  "QueryAllCreatedOsAccounts E st =
     (let ((errCode, allOsAccountIds), st1) = on_files (GetOsAccountIdList E) st in
      if errCode \<noteq> ERR_OK then ((errCode, []), st1)
      else let (infos, st2) = created_accounts E allOsAccountIds st1 in ((ERR_OK, infos), st2))"

definition GetTypeNumber :: "'z osm_env_scheme \<Rightarrow> int \<Rightarrow> osm_state \<Rightarrow> (ErrCode \<times> nat) \<times> osm_state" where
  "GetTypeNumber E type st =
     (let ((result, osAccountList), st1) = QueryAllCreatedOsAccounts E st in
      if result \<noteq> ERR_OK then ((result, 0), st1)
      else ((ERR_OK, length (filter (\<lambda>info. os_type info = type) osAccountList)), st1))"

definition CheckTypeNumber :: "'z osm_env_scheme \<Rightarrow> int \<Rightarrow> osm_state \<Rightarrow> ErrCode \<times> osm_state" where
  "CheckTypeNumber E type st =
     (if type \<noteq> TYPE_PRIVATE \<and> type \<noteq> TYPE_MAINTENANCE then (ERR_OK, st)
      else let ((result, typeNumber), st1) = GetTypeNumber E type st in
      if result \<noteq> ERR_OK then (result, st1)
      else if type = TYPE_PRIVATE \<and> typeNumber \<ge> MAX_PRIVATE_TYPE_NUMBER
      then (ERR_OSACCOUNT_SERVICE_CONTROL_MAX_TYPE_CAN_CREATE_ERROR, st1)
      else if type = TYPE_MAINTENANCE \<and> typeNumber \<ge> MAX_MAINTENANCE_TYPE_NUMBER
      then (ERR_OSACCOUNT_SERVICE_CONTROL_MAX_TYPE_CAN_CREATE_ERROR, st1)
      else (ERR_OK, st1))"

section \<open>The storage and the bundle manager\<close>

definition PrepareAddUser :: "'z osm_env_scheme \<Rightarrow> int \<Rightarrow> osm_state \<Rightarrow> ErrCode \<times> osm_state" where
  "PrepareAddUser E i st =
     (let (err, st1) = ask (storage_PrepareAddUser E i) st in
      (if err = ERR_OK \<or> err = E_EXIST E then ERR_OK else err, st1))"

definition InnerSendToStorageAccountCreate :: "'z osm_env_scheme \<Rightarrow> OsAccountInfo \<Rightarrow> osm_state \<Rightarrow> ErrCode \<times> osm_state" where
  "InnerSendToStorageAccountCreate E a st =
     (let (proxy, st1) = GetStorageProxy E st in
      if proxy \<noteq> ERR_OK then (ERR_ACCOUNT_COMMON_GET_SYSTEM_ABILITY_MANAGER, st1)
      else let (err, st2) = PrepareAddUser E (os_localId a) st1 in
      if err = ERR_OK then (ERR_OK, st2)
      else let (removeNum, st3) = CleanGarbageOsAccounts E (os_localId a) st2 in
      if removeNum \<le> 0 then (err, st3) else PrepareAddUser E (os_localId a) st3)"

fun storage_create_loop :: "'z osm_env_scheme \<Rightarrow> OsAccountInfo \<Rightarrow> nat \<Rightarrow> ErrCode \<Rightarrow> osm_state \<Rightarrow> ErrCode \<times> osm_state" where
  "storage_create_loop E a 0 errCode st = (errCode, st)"
| "storage_create_loop E a (Suc n) errCode st =
     (let (errCode, st1) = InnerSendToStorageAccountCreate E a st in
      if is_ipc_error errCode then storage_create_loop E a n errCode st1 else (errCode, st1))"

definition SendToStorageAccountCreate :: "'z osm_env_scheme \<Rightarrow> OsAccountInfo \<Rightarrow> osm_state \<Rightarrow> ErrCode \<times> osm_state" where
  "SendToStorageAccountCreate E a = storage_create_loop E a MAX_RETRY_TIMES ERR_OK"

definition SendToBMSAccountCreate ::
  "'z osm_env_scheme \<Rightarrow> OsAccountInfo \<Rightarrow> string list \<Rightarrow> string list option \<Rightarrow> osm_state \<Rightarrow> ErrCode \<times> osm_state" where
  "SendToBMSAccountCreate E a disallowed allowed =
     ipc_loop (bms_CreateNewUser E (os_localId a) disallowed allowed) MAX_RETRY_TIMES ERR_OK"

fun installed_loop :: "'z osm_env_scheme \<Rightarrow> string \<Rightarrow> int \<Rightarrow> nat \<Rightarrow> ErrCode \<Rightarrow> bool \<Rightarrow> osm_state \<Rightarrow> (ErrCode \<times> bool) \<times> osm_state" where
  "installed_loop E bundleName userId 0 errCode installed st = ((errCode, installed), st)"
| "installed_loop E bundleName userId (Suc n) errCode installed st =
     (let ((errCode, installed), st1) = ask (bms_IsBundleInstalled E bundleName userId) st in
      if is_ipc_error errCode then installed_loop E bundleName userId n errCode installed st1 else ((errCode, installed), st1))"

definition IsBundleInstalled :: "'z osm_env_scheme \<Rightarrow> string \<Rightarrow> int \<Rightarrow> osm_state \<Rightarrow> (ErrCode \<times> bool) \<times> osm_state" where
  "IsBundleInstalled E bundleName userId = installed_loop E bundleName userId MAX_RETRY_TIMES ERR_OK False"

section \<open>The record of the new account\<close>

definition AssignSpecifiedLocalId :: "'z osm_env_scheme \<Rightarrow> int \<Rightarrow> int \<Rightarrow> osm_state \<Rightarrow> (ErrCode \<times> int) \<times> osm_state" where
  "AssignSpecifiedLocalId E specifiedId i st =
     (if specifiedId < START_USER_ID \<or> specifiedId > MAX_CREATABLE_USER_ID then ((ERR_ACCOUNT_COMMON_INVALID_PARAMETER, i), st)
      else let ((errCode, a), st1) = GetRealOsAccountInfoById E specifiedId st in
      if errCode \<noteq> ERR_OK \<and> errCode \<noteq> ERR_ACCOUNT_COMMON_ACCOUNT_NOT_EXIST_ERROR then ((errCode, i), st1)
      else if errCode = ERR_OK \<and> \<not> os_toBeRemoved a \<and> os_isCreateCompleted a
      then ((ERR_OSACCOUNT_SERVICE_LOCAL_ID_ALREADY_EXISTS_ERROR, i), st1)
      else let st2 = snd (CleanGarbageOsAccounts E (-1) st1);
               ((errCode, isExists), st3) = on_files (IsOsAccountExists E specifiedId) st2 in
      if errCode \<noteq> ERR_OK then ((errCode, i), st3)
      else if isExists then ((ERR_OSACCOUNT_SERVICE_LOCAL_ID_ALREADY_EXISTS_ERROR, i), st3)
      else let (errCode, st4) = on_files (SetNextLocalId E (specifiedId + 1)) st3 in
      if errCode \<noteq> ERR_OK then ((errCode, specifiedId), st4) else ((ERR_OK, specifiedId), st4))"

definition created_info :: "int \<Rightarrow> string \<Rightarrow> string \<Rightarrow> int \<Rightarrow> int \<Rightarrow> OsAccountInfo" where
  "created_info i localName shortName type serialNumber =
     OsAccountInfo_init\<lparr>os_localId := i, os_localName := localName, os_shortName := shortName, os_type := type,
       os_serialNumber := serialNumber\<rparr>"

definition FillOsAccountInfo ::
  "'z osm_env_scheme \<Rightarrow> string \<Rightarrow> int \<Rightarrow> DomainAccountInfo \<Rightarrow> OsAccountInfo \<Rightarrow> CreateOsAccountOptions \<Rightarrow> osm_state
     \<Rightarrow> ((ErrCode \<times> OsAccountInfo) \<times> osm_state) option" where
  "FillOsAccountInfo E localName type domainInfo a options st =
     (case GetSerialNumber E (stack_serial E) (o_fs st) of None \<Rightarrow> None
      | Some ((errCode, serialNumber), fs) \<Rightarrow>
      let st1 = st\<lparr>o_fs := fs\<rparr> in
      if errCode \<noteq> ERR_OK then Some ((errCode, a), st1)
      else let ((errCode, i), st2) =
             (if type = TYPE_MAINTENANCE then ((ERR_OK, MAINTENANCE_MODE_ID), st1)
              else case opt_localId options of
                Some specified \<Rightarrow> AssignSpecifiedLocalId E specified 0 st1
              | None \<Rightarrow> on_files (GetAllowCreateId E 0) st1) in
      if errCode \<noteq> ERR_OK then Some ((errCode, a), st2)
      else let ((errCode, constraints), st3) = on_files (GetConstraintsByType E type) st2 in
      if errCode \<noteq> ERR_OK then Some ((errCode, a), st3)
      else let a1 = created_info i localName (opt_shortName options) type serialNumber;
               a2 = (if CheckSaCall E then a1\<lparr>os_creatorType := TOKEN_NATIVE\<rparr> else a1);
               (time, st4) = ask (clock_s E) st3;
               a3 = a2\<lparr>os_constraints := constraints, os_version := OS_ACCOUNT_INFO_LATEST_VERSION, os_createTime := time\<rparr>;
               (ok, a4) = SetDomainInfo E domainInfo a3 in
      if \<not> ok then Some ((ERR_OSACCOUNT_KIT_CREATE_OS_ACCOUNT_FOR_DOMAIN_ERROR, a4), st4)
      else Some ((ERR_OK, a4), st4))"

text \<open>The part of \<open>PrepareOsAccountInfo\<close> after the record is filled.\<close>

definition insert_prepared :: "'z osm_env_scheme \<Rightarrow> int \<Rightarrow> OsAccountInfo \<Rightarrow> osm_state \<Rightarrow> ErrCode \<times> osm_state" where
  "insert_prepared E type a st =
     (let (errCode, st1) = ValidateOsAccount E a st in
      if errCode \<noteq> ERR_OK then (errCode, st1)
      else let (errCode, st2) = CheckTypeNumber E type st1 in
      if errCode = ERR_OSACCOUNT_SERVICE_CONTROL_MAX_TYPE_CAN_CREATE_ERROR
      then (ERR_OSACCOUNT_SERVICE_CONTROL_MAX_CAN_CREATE_ERROR, st2)
      else if errCode \<noteq> ERR_OK then (errCode, st2)
      else let (added, st3) = CheckAndAddLocalIdOperating (os_localId a) st2 in
      if \<not> added then (ERR_OSACCOUNT_SERVICE_INNER_ACCOUNT_OPERATING_ERROR, st3)
      else let (errCode, st4) = on_files (InsertOsAccountInfo E a) st3 in
      if errCode \<noteq> ERR_OK then (errCode, st4)
      else on_files (UpdateBaseOAConstraints E (to_string_int (os_localId a)) (os_constraints a) True) st4)"

definition PrepareOsAccountInfo ::
  "'z osm_env_scheme \<Rightarrow> string \<Rightarrow> int \<Rightarrow> DomainAccountInfo \<Rightarrow> OsAccountInfo \<Rightarrow> CreateOsAccountOptions \<Rightarrow> osm_state
     \<Rightarrow> ((ErrCode \<times> OsAccountInfo) \<times> osm_state) option" where
  "PrepareOsAccountInfo E localName type domainInfo a options st =
     (case FillOsAccountInfo E localName type domainInfo a options st of None \<Rightarrow> None
      | Some ((errCode, a1), st1) \<Rightarrow>
      if errCode \<noteq> ERR_OK then Some ((errCode, a1), st1)
      else let (errCode, st2) = insert_prepared E type a1 st1 in Some ((errCode, a1), st2))"

section \<open>Creating\<close>

definition RollbackOsAccount :: "'z osm_env_scheme \<Rightarrow> OsAccountInfo \<Rightarrow> bool \<Rightarrow> bool \<Rightarrow> osm_state \<Rightarrow> osm_state" where
  "RollbackOsAccount E a needDelStorage needDelBms st =
     (if \<not> os_isDataRemovable a then snd (on_files (DelOsAccount E (os_localId a)) st)
      else let (errCode, st1) = (if needDelBms then SendToBMSAccountDelete E a st else (ERR_OK, st)) in
      if errCode \<noteq> ERR_OK then st1
      else let (errCode, st2) = (if needDelStorage then SendToStorageAccountRemove E a st1 else (ERR_OK, st1)) in
      if errCode \<noteq> ERR_OK then st2
      else if di_accountName (os_domainInfo a) = [] then snd (on_files (DelOsAccount E (os_localId a)) st2)
      else st2)"

definition CheckHighestHapInstallForCreate :: "'z osm_env_scheme \<Rightarrow> OsAccountInfo \<Rightarrow> osm_state \<Rightarrow> ErrCode \<times> osm_state" where
  "CheckHighestHapInstallForCreate E a st =
     (if os_localId a \<noteq> MAINTENANCE_MODE_ID then (ERR_OK, st)
      else let ((errCode, isInstalled), st1) = IsBundleInstalled E ''com.ohos.sceneboard'' (os_localId a) st in
      if errCode \<noteq> ERR_OK then (errCode, st1)
      else if \<not> isInstalled then (ERR_ACCOUNT_COMMON_CHECK_BUNDLE_INSTALLED_ERROR, st1)
      else (ERR_OK, st1))"

definition OsAccountCreateOnComplete :: "OsAccountInfo \<Rightarrow> osm_state \<Rightarrow> osm_state" where
  "OsAccountCreateOnComplete a st =
     publish (StateEvent ''CREATED'' (os_localId a)) (publish (CommonEvent ''USER_ADDED'' (os_localId a)) st)"

definition FinalizeAccountCreate :: "'z osm_env_scheme \<Rightarrow> OsAccountInfo \<Rightarrow> osm_state \<Rightarrow> (ErrCode \<times> OsAccountInfo) \<times> osm_state" where
  "FinalizeAccountCreate E a st =
     (let a1 = a\<lparr>os_isCreateCompleted := True\<rparr>;
          (errCode, st1) = on_files (UpdateOsAccountInfo E a1) st in
      if errCode \<noteq> ERR_OK
      then ((ERR_OSACCOUNT_SERVICE_INNER_UPDATE_ACCOUNT_ERROR, a1), RollbackOsAccount E a1 True True st1)
      else let (_, st2) = SendToStorageAccountCreateComplete E (os_localId a1) st1 in
           ((ERR_OK, a1), OsAccountCreateOnComplete a1 st2))"

definition SendMsgForAccountCreate ::
  "'z osm_env_scheme \<Rightarrow> OsAccountInfo \<Rightarrow> CreateOsAccountOptions \<Rightarrow> osm_state \<Rightarrow> (ErrCode \<times> OsAccountInfo) \<times> osm_state" where
  "SendMsgForAccountCreate E a options st =
     (let (errCode, st1) = SendToStorageAccountCreate E a st in
      if errCode \<noteq> ERR_OK
      then ((ERR_ACCOUNT_COMMON_GET_SYSTEM_ABILITY_MANAGER, a), RollbackOsAccount E a False False st1)
      else let (errCode, st2) = SendToBMSAccountCreate E a (disallowedHapList options) (allowedHapList options) st1 in
      if errCode \<noteq> ERR_OK then ((errCode, a), RollbackOsAccount E a True False st2)
      else let (errCode, st3) = CheckHighestHapInstallForCreate E a st2 in
      if errCode \<noteq> ERR_OK then ((errCode, a), RollbackOsAccount E a True True st3)
      else FinalizeAccountCreate E a st3)"

text \<open>What both functions \<open>CreateOsAccount\<close> do after they asked whether accounts may be created.\<close>

definition create_account ::
  "'z osm_env_scheme \<Rightarrow> string \<Rightarrow> int \<Rightarrow> OsAccountInfo \<Rightarrow> CreateOsAccountOptions \<Rightarrow> CreateOsAccountOptions \<Rightarrow> osm_state
     \<Rightarrow> ((ErrCode \<times> OsAccountInfo) \<times> osm_state) option" where
  "create_account E localName type a actualOptions options st =
     (let (clean, st1) = (if CheckSaCall E then (True, st) else CheckAndCleanOsAccounts E st) in
      if \<not> clean then Some ((ERR_OSACCOUNT_SERVICE_CONTROL_MAX_CAN_CREATE_ERROR, a), st1)
      else case PrepareOsAccountInfo E localName type DomainAccountInfo_init a actualOptions st1 of None \<Rightarrow> None
        | Some ((errCode, a1), st2) \<Rightarrow>
            if errCode \<noteq> ERR_OK then Some ((errCode, a1), RemoveLocalIdToOperating (os_localId a1) st2)
            else let ((errCode, a2), st3) = SendMsgForAccountCreate E a1 options st2 in
                 Some ((errCode, a2), RemoveLocalIdToOperating (os_localId a2) st3))"

definition CreateOsAccountByName ::
  "'z osm_env_scheme \<Rightarrow> string \<Rightarrow> int \<Rightarrow> OsAccountInfo \<Rightarrow> osm_state \<Rightarrow> ((ErrCode \<times> OsAccountInfo) \<times> osm_state) option" where
  "CreateOsAccountByName E name type a st =
     (let (allowed, st0) = IsCreationAllowed E st in
      if \<not> allowed then Some ((ERR_OSACCOUNT_SERVICE_INNER_ACCOUNT_PLUGIN_NOT_ALLOWED_CREATION_ERROR, a), st0)
      else create_account E name type a CreateOsAccountOptions_init CreateOsAccountOptions_init st0)"

definition CreateOsAccount ::
  "'z osm_env_scheme \<Rightarrow> string \<Rightarrow> string \<Rightarrow> int \<Rightarrow> OsAccountInfo \<Rightarrow> CreateOsAccountOptions \<Rightarrow> osm_state
     \<Rightarrow> ((ErrCode \<times> OsAccountInfo) \<times> osm_state) option" where
  "CreateOsAccount E localName shortName type a options st =
     (let (allowed, st0) = IsCreationAllowed E st in
      if \<not> allowed then Some ((ERR_OSACCOUNT_SERVICE_INNER_ACCOUNT_PLUGIN_NOT_ALLOWED_CREATION_ERROR, a), st0)
      else let actualOptions =
             (if opt_shortName options = [] \<and> shortName \<noteq> [] then options\<lparr>opt_shortName := shortName\<rparr> else options) in
           create_account E localName type (a\<lparr>os_localName := localName\<rparr>) actualOptions options st0)"

end
