(* ===== verification/Os_Account_Creation_Safety.thy ===== *)
theory Os_Account_Creation_Safety
  imports Os_Account_Creation
begin

text \<open>
  What the creation of an OS account does to the accounts there are: the usable ones, complete and not marked for removal, stay; the new
  one becomes usable as the last step and only when the creation reports success. Cleaning, which a creation may do on its way, removes
  only what is not usable. The system is assumed not to report a file that is there as missing (\<open>no_false_absence\<close>); any other
  failure of a system call or another service may happen at any time.
\<close>

section \<open>Usable accounts and the account list\<close>

definition usable :: "OsAccountInfo \<Rightarrow> bool" where
  "usable a \<longleftrightarrow> os_isCreateCompleted a \<and> \<not> os_toBeRemoved a"

definition no_false_absence :: "'z osm_env_scheme \<Rightarrow> bool" where
  "no_false_absence E \<longleftrightarrow> (\<forall>n. sys_errno E n \<noteq> Some ENOENT)"

text \<open>
  Every usable account beyond the first user is in the account list, which has at most \<open>n\<close> entries; so are the accounts \<open>Y\<close>,
  which are about to become usable.
\<close>

definition accounts_listed :: "nat \<Rightarrow> int set \<Rightarrow> 'z osm_env_scheme \<Rightarrow> fs_state \<Rightarrow> bool" where
  "accounts_listed n Y E fs \<longleftrightarrow>
     (\<forall>j. file_json E list_path fs = Some j \<longrightarrow> obj_ok j \<and> length (strs j ACCOUNT_LIST) \<le> n
        \<and> (\<forall>i a. stored_account E fs i = Some a \<and> usable a \<and> START_USER_ID < i \<longrightarrow> to_string_int i \<in> set (strs j ACCOUNT_LIST))
        \<and> (\<forall>i \<in> Y. to_string_int i \<in> set (strs j ACCOUNT_LIST)))"

text \<open>A step that removes accounts that are not usable, but none of \<open>X\<close>, and keeps the list complete.\<close>

definition cleaned :: "int set \<Rightarrow> 'z osm_env_scheme \<Rightarrow> fs_state \<Rightarrow> fs_state \<Rightarrow> bool" where
  "cleaned X E fs fs' \<longleftrightarrow>
     (\<forall>i. stored_account E fs' i = stored_account E fs i
        \<or> stored_account E fs' i = None \<and> (\<forall>a. stored_account E fs i = Some a \<longrightarrow> \<not> usable a))
     \<and> (\<forall>n < 2 ^ 40. \<forall>Y \<subseteq> X. accounts_listed n Y E fs \<longrightarrow> accounts_listed n Y E fs')"

lemma cleaned_refl [simp]: "cleaned X E fs fs"
  by (simp add: cleaned_def)

lemma cleaned_trans [trans]: "cleaned X E fs fs1 \<Longrightarrow> cleaned X E fs1 fs2 \<Longrightarrow> cleaned X E fs fs2"
  unfolding cleaned_def by (metis option.distinct(1))

lemma cleaned_files_ok: "cleaned X E fs fs' \<Longrightarrow> files_ok E fs \<Longrightarrow> files_ok E fs'"
  unfolding cleaned_def files_ok_def by (metis option.distinct(1))

lemma cleaned_usable: "cleaned X E fs fs' \<Longrightarrow> stored_account E fs i = Some a \<Longrightarrow> usable a \<Longrightarrow> stored_account E fs' i = Some a"
  unfolding cleaned_def by metis

lemma cleaned_back: "cleaned X E fs fs' \<Longrightarrow> stored_account E fs' i = Some a \<Longrightarrow> stored_account E fs i = Some a"
  unfolding cleaned_def by (metis option.distinct(1))

text \<open>Steps that write neither the list nor an account.\<close>

lemma cleaned_kept:
  assumes "stored_account E fs' = stored_account E fs" and "file_json E list_path fs' = file_json E list_path fs"
  shows "cleaned X E fs fs'"
  using assms by (simp add: cleaned_def accounts_listed_def)

lemma cleaned_files: "fs_files fs' = fs_files fs \<Longrightarrow> cleaned X E fs fs'"
  by (rule cleaned_kept [OF stored_account_files]) (simp_all add: file_json_def)

lemma cleaned_rmw:
  assumes "rmw E (USER_INFO_BASE @ ''/'' @ name) f fs = (r, fs')" and "CHR ''/'' \<notin> set name"
    and "''account_list.json'' \<noteq> name" and "''account_list.json'' \<noteq> name @ ''.tmp''"
  shows "cleaned X E fs fs'"
  using rmw_accounts [OF assms(1,2), of E] rmw_frame [OF assms(1), of list_path] assms(3,4)
  by (intro cleaned_kept) (simp_all add: ACCOUNT_LIST_FILE_JSON_PATH_def GetTempFilePath_def)

text \<open>Steps that write the list but not the ids in it.\<close>

lemma cleaned_list:
  assumes "stored_account E fs' = stored_account E fs"
    and "\<And>j. file_json E list_path fs = Some j \<Longrightarrow> obj_ok j \<Longrightarrow>
      \<exists>j'. file_json E list_path fs' = Some j' \<and> obj_ok j' \<and> strs j' ACCOUNT_LIST = strs j ACCOUNT_LIST"
    and "file_json E list_path fs = None \<Longrightarrow> file_json E list_path fs' = None"
  shows "cleaned X E fs fs'"
proof (cases "file_json E list_path fs")
  case None
  with assms(1,3) show ?thesis by (simp add: cleaned_def accounts_listed_def)
next
  case (Some j)
  with assms(1) assms(2) [OF Some] show ?thesis by (auto simp: cleaned_def accounts_listed_def)
qed

lemma cleaned_save:
  assumes "osm_ok E" and "file_json E list_path fs = Some j" and "SaveAccountListToFileAndDataBase E (Some j') fs = (r, fs')"
    and "obj_ok j \<Longrightarrow> obj_ok j' \<and> strs j' ACCOUNT_LIST = strs j ACCOUNT_LIST"
  shows "cleaned X E fs fs'"
proof -
  have E: "cjson_ok E" using assms(1) by (simp add: osm_ok_def)
  have save: "json_to_file E list_path (Some j') fs = (r, fs')" using assms(3) by (simp add: os_file_defs)
  show ?thesis
  proof (rule cleaned_list [OF list_save_frame [OF assms(3)]])
    fix k assume "file_json E list_path fs = Some k" and k: "obj_ok k"
    with assms(2) have "k = j" by simp
    with assms(4) k have "json_wf j'" "obj_ok j'" "strs j' ACCOUNT_LIST = strs k ACCOUNT_LIST" by (auto simp: obj_ok_def)
    moreover from this have "file_json E list_path fs' = Some (if r = ERR_OK then j' else j)"
      using json_to_file_ok [of E list_path j' fs fs'] json_to_file_err [OF save] save E assms(2) by simp
    ultimately show "\<exists>j'. file_json E list_path fs' = Some j' \<and> obj_ok j' \<and> strs j' ACCOUNT_LIST = strs k ACCOUNT_LIST"
      using k \<open>k = j\<close> by simp
  qed (use assms(2) in simp)
qed

text \<open>A read of the list that succeeds finds its object and leaves the files alone.\<close>

lemma list_read:
  assumes "osm_ok E" and "GetAccountListFromFile E fs = ((r, x), fs1)"
  shows "cleaned X E fs fs1" "r = ERR_OK \<Longrightarrow> \<exists>j. x = Some j \<and> file_json E list_path fs1 = Some j"
proof -
  have E: "\<not> DISTRIBUTED E" using assms(1) by (simp add: osm_ok_def)
  note f = GetAccountList_frame [OF assms(2)]
  show "cleaned X E fs fs1" by (rule cleaned_files [OF f])
  show "r = ERR_OK \<Longrightarrow> \<exists>j. x = Some j \<and> file_json E list_path fs1 = Some j"
    using GetAccountList_json [OF _ E, of fs x fs1] assms(2) f by (auto simp: file_json_def)
qed

section \<open>Cleaning removes only what is not usable\<close>

lemma list_path_not_account:
  "\<not> below (USER_INFO_BASE @ ''/'' @ to_string_int i) list_path" "list_path \<noteq> USER_INFO_BASE @ ''/'' @ to_string_int i"
proof -
  have name: "list_path = USER_INFO_BASE @ ''/'' @ ''account_list.json''" by (simp add: ACCOUNT_LIST_FILE_JSON_PATH_def)
  show "\<not> below (USER_INFO_BASE @ ''/'' @ to_string_int i) list_path"
  proof
    assume "below (USER_INFO_BASE @ ''/'' @ to_string_int i) list_path"
    then obtain z where "list_path = (USER_INFO_BASE @ ''/'' @ to_string_int i) @ ''/'' @ z"
      unfolding below_def by (metis append_assoc append_take_drop_id)
    then have "''account_list.json'' = to_string_int i @ ''/'' @ z" by (simp add: name)
    then have "CHR ''/'' \<in> set ''account_list.json''" by simp
    then show False by simp
  qed
  have "CHR ''j'' \<notin> set (to_string_int i)"
    using to_string_no_char [of "CHR ''j''"] by (simp add: to_string_int_def is_digit_def)
  then have "to_string_int i \<noteq> ''account_list.json''" by auto
  then show "list_path \<noteq> USER_INFO_BASE @ ''/'' @ to_string_int i" by (simp add: name not_sym)
qed

lemma delete_dir_list:
  assumes "DeleteDirOrFile E (USER_INFO_BASE @ ''/'' @ to_string_int i) fs = (e, fs')"
  shows "file_json F list_path fs' = file_json F list_path fs"
proof -
  define p where "p = USER_INFO_BASE @ ''/'' @ to_string_int i"
  obtain isDir fs1 where 1: "IsExistDir E p fs = (isDir, fs1)" by (metis prod.collapse)
  obtain isFile fs2 where 2: "IsExistFile E p fs1 = (isFile, fs2)" by (metis prod.collapse)
  have same: "fs_files fs1 = fs_files fs" "fs_files fs2 = fs_files fs"
    using IsExistDir_files [of E p fs] IsExistFile_files [of E p fs1] by (simp_all add: 1 2)
  then have "fs_files fs' list_path = fs_files fs list_path"
    using assms list_path_not_account [of i] unfolding p_def [symmetric]
    by (auto simp: DeleteDirOrFile_def 1 2 DeleteDir_def DeleteFile_def sys_call_def put_file_def Let_def split: if_splits)
  then show ?thesis by (simp add: file_json_def)
qed

lemma list_drop:
  assumes "osm_ok E" and "UpdateAccountList E (to_string_int i) False fs = (r, fs')"
    and "stored_account E fs' = stored_account E fs" and "\<forall>a. stored_account E fs i = Some a \<longrightarrow> \<not> usable a" and "i \<notin> X"
  shows "cleaned X E fs fs'"
proof -
  have E: "cjson_ok E" "\<not> DISTRIBUTED E" using assms(1) by (simp_all add: osm_ok_def)
  have "accounts_listed n Y E fs'" if l: "accounts_listed n Y E fs" and n: "n < 2 ^ 40" and Y: "Y \<subseteq> X" for n Y
  proof (cases "file_json E list_path fs")
    case None
    then have "fst (fst (GetAccountListFromFile E fs)) \<noteq> ERR_OK"
      using GetAccountList_json [of E fs, OF _ E(2)] by (metis prod.collapse)
    then have "fs' = snd (GetAccountListFromFile E fs)" using assms(2) by (auto simp: UpdateAccountList_def split: prod.splits)
    then have "file_json E list_path fs' = None"
      using None GetAccountList_frame [of E fs] by (metis file_json_def prod.collapse)
    then show ?thesis by (simp add: accounts_listed_def)
  next
    case (Some j)
    then have j: "obj_ok j" "length (strs j ACCOUNT_LIST) \<le> n"
      "\<And>k a. stored_account E fs k = Some a \<Longrightarrow> usable a \<Longrightarrow> START_USER_ID < k \<Longrightarrow> to_string_int k \<in> set (strs j ACCOUNT_LIST)"
      "\<And>k. k \<in> Y \<Longrightarrow> to_string_int k \<in> set (strs j ACCOUNT_LIST)"
      using l by (auto simp: accounts_listed_def)
    have "length (strs j ACCOUNT_LIST) < 2 ^ 52" using j(2) n by simp
    from UpdateAccountList_spec [OF E Some j(1) nul_free_to_string_int this assms(2)] obtain j' where j':
      "file_json E list_path fs' = Some j'" "obj_ok j'"
      "strs j' ACCOUNT_LIST = strs j ACCOUNT_LIST \<or> strs j' ACCOUNT_LIST = removeAll (to_string_int i) (strs j ACCOUNT_LIST)" by metis
    then have "length (strs j' ACCOUNT_LIST) \<le> n"
      using j(2) le_trans [OF length_removeAll_less_eq [of "to_string_int i" "strs j ACCOUNT_LIST"] j(2)] by auto
    moreover have "to_string_int k \<in> set (strs j' ACCOUNT_LIST)" if "stored_account E fs k = Some a" "usable a" "START_USER_ID < k" for k a
      using j(3) [OF that] j'(3) assms(4) that(1,2) by (cases "k = i") auto
    moreover have "to_string_int k \<in> set (strs j' ACCOUNT_LIST)" if "k \<in> Y" for k
      using j(4) [OF that] j'(3) assms(5) Y that by (cases "k = i") auto
    ultimately show ?thesis using j'(1,2) assms(3) unfolding accounts_listed_def by auto
  qed
  then show ?thesis using assms(3) by (simp add: cleaned_def)
qed

lemma DelOsAccount_cleaned:
  assumes "osm_ok E" and "DelOsAccount E i fs = (r, fs')" and "\<forall>a. stored_account E fs i = Some a \<longrightarrow> \<not> usable a" and "i \<notin> X"
  shows "cleaned X E fs fs'"
proof -
  obtain e fs1 where 1: "DeleteDirOrFile E (USER_INFO_BASE @ ''/'' @ to_string_int i) fs = (e, fs1)" by (metis prod.collapse)
  obtain r2 fs2 where 2: "UpdateAccountList E (to_string_int i) False fs1 = (r2, fs2)" by (metis prod.collapse)
  have s: "stored_account E fs2 = stored_account E fs1"
  proof -
    obtain r4 x fs4 where 4: "GetAccountListFromFile E fs1 = ((r4, x), fs4)" by (metis prod.collapse)
    have "stored_account E fs4 = stored_account E fs1" using GetAccountList_frame [OF 4] by (rule stored_account_files)
    with 2 show ?thesis by (auto simp: UpdateAccountList_def 4 Let_def dest: list_save_frame [where F = E] split: prod.splits if_splits)
  qed
  have "only_dropped E i fs fs'" by (rule DelOsAccount_dropped(1) [OF assms(2)])
  then have drop: "\<forall>k. stored_account E fs' k = stored_account E fs k \<or> stored_account E fs' k = None
      \<and> (\<forall>a. stored_account E fs k = Some a \<longrightarrow> \<not> usable a)"
    using assms(3) unfolding only_dropped_def by blast
  show ?thesis
  proof (cases "fs' = fs")
    case False
    then have c: "fs' = fs1 \<or> fs' = fs2" using assms(2) unfolding DelOsAccount_def 1 prod.case by (auto simp: 2 split: if_splits)
    with s have sd: "stored_account E fs1 = stored_account E fs'" by auto
    have "cleaned X E fs fs1"
      using drop unfolding sd [symmetric] cleaned_def accounts_listed_def delete_dir_list [OF 1] by (metis option.distinct(1))
    moreover have "cleaned X E fs1 fs2" using assms(3) drop sd by (intro list_drop [OF assms(1) 2 s _ assms(4)]) (metis option.distinct(1))
    ultimately show ?thesis using c cleaned_trans by blast
  qed simp
qed

lemma refresh_cleaned:
  assumes "osm_ok E" and "\<bar>i\<bar> < 2 ^ 31" and "SetDefaultActivatedOsAccount E d i fs = (r, fs')"
  shows "cleaned X E fs fs'"
proof -
  obtain r1 x fs1 where 1: "GetAccountListFromFile E fs = ((r1, x), fs1)" by (metis prod.collapse)
  note read = list_read [OF assms(1) 1]
  show ?thesis
  proof (cases "r1 = ERR_OK")
    case True
    then obtain j where j: "x = Some j" "file_json E list_path fs1 = Some j" using read(2) by blast
    note u = assms(3) [unfolded SetDefault_unfold [OF 1 [unfolded True j(1)]]]
    show ?thesis
    proof (cases "set_default j d i")
      case None
      with u read(1) show ?thesis by simp
    next
      case (Some j')
      then have save: "SaveAccountListToFileAndDataBase E (Some j') fs1 = (r, fs')" using u by simp
      have "strs j' ACCOUNT_LIST = strs j ACCOUNT_LIST" if "obj_ok j"
        using Some that by (auto simp: set_default_def strs_put_other list_key_defs split: option.splits json.splits)
      with set_default_spec [OF Some _ assms(2)] have "cleaned X E fs1 fs'" by (intro cleaned_save [OF assms(1) j(2) save]) auto
      with read(1) show ?thesis by (rule cleaned_trans)
    qed
  next
    case False
    with assms(3) read(1) show ?thesis by (auto simp: SetDefaultActivatedOsAccount_def 1)
  qed
qed

lemma owner_cleaned:
  assumes "UpdateDeviceOwnerId E x fs = (r, fs')"
  shows "cleaned X E fs fs'"
proof -
  obtain r1 j fs1 where 1: "GetGlobalOAConstraintsFromFile E fs = ((r1, j), fs1)" by (metis prod.collapse)
  have "fs_files fs1 = fs_files fs"
    using 1 account_files.read_frame [of E global_path fs]
    by (auto simp: GetGlobalOAConstraintsFromFile_def constraints_from_file_def Let_def split_beta split: if_splits)
  then have "file_json E list_path fs1 = file_json E list_path fs" by (simp add: file_json_def)
  with assms have "file_json E list_path fs' = file_json E list_path fs"
    using json_to_file_frame [of E global_path _ fs1 r fs' list_path]
    by (auto simp: UpdateDeviceOwnerId_def 1 SaveGlobalOAConstraintsToFile_def path_defs GetTempFilePath_def split: prod.splits if_splits)
  then show ?thesis by (rule cleaned_kept [OF device_owner_accounts [OF assms]])
qed

lemma constraint_removal_cleaned:
  assumes "RemoveOAConstraintsInfo E i fs = (r, fs')"
  shows "cleaned X E fs fs'"
proof -
  obtain r1 fs1 where 1: "RemoveOABaseConstraintsInfo E i fs = (r1, fs1)" by (metis prod.collapse)
  obtain r2 fs2 where 2: "RemoveOAGlobalConstraintsInfo E i fs1 = (r2, fs2)" by (metis prod.collapse)
  obtain r3 fs3 where 3: "RemoveOASpecificConstraintsInfo E i fs2 = (r3, fs3)" by (metis prod.collapse)
  have c: "cleaned X E fs fs1" "cleaned X E fs1 fs2" "cleaned X E fs2 fs3"
    using cleaned_rmw [of E "''base_os_account_constraints.json''"] 1 cleaned_rmw [of E "''global_os_account_constraints.json''"] 2
      cleaned_rmw [of E "''specific_os_account_constraints.json''"] 3
    by (simp_all add: remove_rmw RemoveGlobal_rmw BASE_OSACCOUNT_CONSTRAINTS_JSON_PATH_def GLOBAL_OSACCOUNT_CONSTRAINTS_JSON_PATH_def
        SPECIFIC_OSACCOUNT_CONSTRAINTS_JSON_PATH_def)
  note c12 = cleaned_trans [OF c(1,2)] and c13 = cleaned_trans [OF cleaned_trans [OF c(1,2)] c(3)]
  show ?thesis using assms c c12 c13 by (auto simp: RemoveOAConstraintsInfo_def 1 2 3 split: if_splits)
qed

lemma on_files_cleaned:
  assumes "on_files f st = (x, st')" and "\<And>fs y fs'. f fs = (y, fs') \<Longrightarrow> cleaned X E fs fs'"
  shows "cleaned X E (o_fs st) (o_fs st') \<and> o_mem st' = o_mem st"
  using assms by (auto simp: on_files_def split: prod.splits)

lemma ask_fs: "ask f st = (x, st') \<Longrightarrow> o_fs st' = o_fs st \<and> o_mem st' = o_mem st"
  by (auto simp: ask_def)

lemma Refresh_cleaned: "osm_ok E \<Longrightarrow> cleaned X E (o_fs st) (o_fs (CheckAndRefreshLocalIdRecord E i st))"
proof -
  assume E: "osm_ok E"
  have one: "cleaned X E (o_fs s) (o_fs (refresh_display E d s))" for d s
  proof -
    let ?n = "if d = DEFAULT_DISPLAY_ID then START_USER_ID else INVALID_OS_ACCOUNT_ID"
    obtain x s1 where 1: "on_files (SetDefaultActivatedOsAccount E (unat d) ?n) s = (x, s1)" by (metis prod.collapse)
    have "\<bar>?n\<bar> < 2 ^ 31" by (simp add: START_USER_ID_def INVALID_OS_ACCOUNT_ID_def)
    from on_files_cleaned [OF 1 refresh_cleaned [OF E this]] show ?thesis by (simp add: refresh_display_def Let_def 1)
  qed
  have all: "cleaned X E (o_fs s) (o_fs (fold (refresh_display E) ds s))" for ds s
    by (induction ds arbitrary: s) (simp, simp, blast intro: one cleaned_trans)
  let ?s1 = "fold (refresh_display E) (map fst (filter (\<lambda>e. snd e = i) (defaultActivatedIds (o_mem st)))) st"
  obtain x s2 where 2: "on_files (UpdateDeviceOwnerId E (-1)) ?s1 = (x, s2)" by (metis prod.collapse)
  have s2: "cleaned X E (o_fs ?s1) (o_fs s2)"
    by (rule conjunct1 [OF on_files_cleaned [OF 2]]) (rule owner_cleaned)
  show ?thesis
    using all cleaned_trans [OF all s2] unfolding CheckAndRefreshLocalIdRecord_def Let_def 2 by (auto split: if_splits)
qed

text \<open>A read that finds no account is right: there is no record that could be used.\<close>

lemma no_file:
  assumes "no_false_absence E" and "check_existence_loop E path n fs = (ERR_ACCOUNT_COMMON_FILE_NOT_EXIST, fs')"
  shows "fs_files fs path = None"
  using assms(2)
proof (induction n arbitrary: fs)
  case (Suc n)
  have errno: "sys_errno E (fs_tick fs) \<noteq> Some ENOENT" using assms(1) by (simp add: no_false_absence_def)
  show ?case
  proof (cases "sys_errno E (fs_tick fs)")
    case None
    with Suc.prems show ?thesis by (auto simp: sys_stat_def sys_call_def split: if_splits)
  next
    case (Some e)
    with errno have "e \<noteq> ENOENT" by simp
    with Some Suc.prems Suc.IH [of "fs\<lparr>fs_tick := Suc (fs_tick fs)\<rparr>"] show ?thesis
      by (auto simp: sys_stat_def sys_call_def split: if_splits)
  qed
qed simp

lemma read_code: "GetFileContentByPath E p c fs = ((r, s), fs') \<Longrightarrow> r \<noteq> ERR_ACCOUNT_COMMON_ACCOUNT_NOT_EXIST_ERROR"
  by (auto simp: GetFileContentByPath_def ReadFile_def Let_def split: prod.splits if_splits option.splits)

lemma check_code: "check_existence_loop E p n fs = (r, fs') \<Longrightarrow> r \<noteq> ERR_ACCOUNT_COMMON_ACCOUNT_NOT_EXIST_ERROR"
  by (induction n arbitrary: fs) (auto split: prod.splits stat_result.splits if_splits)

lemma absent_spec:
  assumes "osm_ok E" and "no_false_absence E"
    and "GetOsAccountInfoById E i OsAccountInfo_init fs = ((ERR_ACCOUNT_COMMON_ACCOUNT_NOT_EXIST_ERROR, a), fs')"
  shows "stored_account E fs i = None"
proof -
  let ?p = "account_path (to_string_int i)"
  have E: "\<not> DISTRIBUTED E" using assms(1) by (simp add: osm_ok_def)
  obtain r fs1 where 1: "CheckFileExistence E ?p fs = (r, fs1)" by (metis prod.collapse)
  obtain rr s fs2 where 2: "GetFileContentByPath E ?p [] fs1 = ((rr, s), fs2)" by (metis prod.collapse)
  have f: "fs_files fs1 = fs_files fs" using CheckFileExistence_files [of E ?p fs] by (simp add: 1)
  have p: "?p \<noteq> []" by (simp add: account_path_def)
  show ?thesis
  proof (cases "r = ERR_OK \<and> rr = ERR_OK")
    case True
    then have "fs_files fs ?p = Some s" using 2 f GetFileContent_ok by metis
    with assms(3) E True show ?thesis
      by (auto simp: GetOsAccountInfoById_def GetOsAccountFromDatabase_def stored_account_def Let_def 1 2 split: if_splits prod.splits)
  next
    case False
    moreover have "r \<noteq> ERR_ACCOUNT_COMMON_ACCOUNT_NOT_EXIST_ERROR"
      using 1 check_code [of E ?p] by (auto simp: CheckFileExistence_def split: if_splits)
    ultimately have "r = ERR_ACCOUNT_COMMON_FILE_NOT_EXIST"
      using assms(3) E read_code [OF 2]
      by (auto simp: GetOsAccountInfoById_def GetOsAccountFromDatabase_def Let_def 1 2 split: if_splits)
    then have "fs_files fs ?p = None" using no_file [OF assms(2)] 1 p by (auto simp: CheckFileExistence_def)
    then show ?thesis by (simp add: stored_account_def)
  qed
qed

lemma storage_remove_fs: "SendToStorageAccountRemove E a st = (r, st') \<Longrightarrow> o_fs st' = o_fs st \<and> o_mem st' = o_mem st"
  by (auto simp: SendToStorageAccountRemove_def ask_def Let_def split: if_splits)

lemma AccountRemove_cleaned:
  assumes "osm_ok E" and "SendMsgForAccountRemove E a st = (r, st')"
    and "\<forall>b. stored_account E (o_fs st) (os_localId a) = Some b \<longrightarrow> \<not> usable b" and "os_localId a \<notin> X"
  shows "cleaned X E (o_fs st) (o_fs st')"
proof -
  obtain r1 st1 where 1: "SendToBMSAccountDelete E a st = (r1, st1)" by (metis prod.collapse)
  obtain r2 st2 where 2: "SendToStorageAccountRemove E a st1 = (r2, st2)" by (metis prod.collapse)
  obtain r3 st3 where 3: "on_files (DelOsAccount E (os_localId a)) st2 = (r3, st3)" by (metis prod.collapse)
  have f: "o_fs st1 = o_fs st" "o_fs st2 = o_fs st"
    using ask_fs [OF 1 [unfolded SendToBMSAccountDelete_def]] storage_remove_fs [OF 2] by simp_all
  have "cleaned X E (o_fs st2) (o_fs st3)"
    using 3 assms(3,4) DelOsAccount_cleaned [OF assms(1)] by (auto simp: on_files_def f split: prod.splits)
  with f assms(2) show ?thesis by (auto simp: SendMsgForAccountRemove_def 1 2 3 Let_def publish_def split: if_splits)
qed

lemma garbage_cleaned:
  assumes "osm_ok E" and "RemoveOsAccountOperate E i a True st = (r, st')" and "os_localId a = i"
    and "\<forall>b. stored_account E (o_fs st) i = Some b \<longrightarrow> \<not> usable b" and "i \<notin> X"
  shows "cleaned X E (o_fs st) (o_fs st')"
proof -
  obtain r0 st0 where 0: "SendToIDMAccountDelete E a st = (r0, st0)" by (metis prod.collapse)
  obtain r1 a1 st1 where 1: "PrepareRemoveOsAccount E a True st = ((r1, a1), st1)" by (rule pair3)
  obtain r2 st2 where 2: "SendMsgForAccountRemove E a1 st1 = (r2, st2)" by (metis prod.collapse)
  obtain r3 st3 where 3: "on_files (RemoveOAConstraintsInfo E i) st2 = (r3, st3)" by (metis prod.collapse)
  have "o_fs st0 = o_fs st" using 0 by (auto simp: SendToIDMAccountDelete_def ask_def)
  then have f1: "o_fs st1 = o_fs st" "a1 = a" using 1 by (auto simp: PrepareRemoveOsAccount_def 0 Let_def split: if_splits)
  have c2: "cleaned X E (o_fs st) (o_fs st2)" using AccountRemove_cleaned [OF assms(1) 2] assms(3-5) by (simp add: f1)
  have c3: "cleaned X E (o_fs st2) (o_fs st3)"
    by (rule conjunct1 [OF on_files_cleaned [OF 3]]) (rule constraint_removal_cleaned)
  have c: "cleaned X E (o_fs st) (o_fs st3)" "cleaned X E (o_fs st) (o_fs (CheckAndRefreshLocalIdRecord E i st3))"
    using cleaned_trans [OF c2 c3] cleaned_trans [OF cleaned_trans [OF c2 c3] Refresh_cleaned [OF assms(1)]] by blast+
  show ?thesis
    using assms(2) f1 c c2 unfolding RemoveOsAccountOperate_def 1 2 3 Let_def prod.case
    by (auto simp: publish_def split: if_splits)
qed

lemma GetReal_cleaned:
  assumes "osm_ok E" and "GetRealOsAccountInfoById E i st = (x, st')"
  shows "cleaned X E (o_fs st) (o_fs st') \<and> o_mem st' = o_mem st"
proof -
  have "\<not> DISTRIBUTED E" using assms(1) by (simp add: osm_ok_def)
  then show ?thesis
    using assms(2) GetById_files [of E i OsAccountInfo_init "o_fs st"]
    by (auto simp: GetRealOsAccountInfoById_def on_files_def intro!: cleaned_files split: prod.splits if_splits)
qed

lemma GetReal_absent:
  assumes "osm_ok E" and "no_false_absence E"
    and "GetRealOsAccountInfoById E i st = ((ERR_ACCOUNT_COMMON_ACCOUNT_NOT_EXIST_ERROR, a), st')"
  shows "stored_account E (o_fs st) i = None"
  using assms(3) absent_spec [OF assms(1,2), of i "o_fs st"]
  by (auto simp: GetRealOsAccountInfoById_def on_files_def split: prod.splits if_splits)

lemma clean_loop_cleaned:
  assumes "osm_ok E" and "no_false_absence E" and "X \<subseteq> {x}" and "clean_loop E x ids n st = (k, st')"
  shows "cleaned X E (o_fs st) (o_fs st')"
  using assms(4)
proof (induction ids arbitrary: n st)
  case (Cons i ids)
  obtain added st0 where 0: "CheckAndAddLocalIdOperating i st = (added, st0)" by (metis prod.collapse)
  obtain r a st1 where 1: "GetRealOsAccountInfoById E i st0 = ((r, a), st1)" by (rule pair3)
  let ?a = "a\<lparr>os_localId := i\<rparr>"
  obtain e st2 where 2: "RemoveOsAccountOperate E i ?a True st1 = (e, st2)" by (metis prod.collapse)
  have f0: "o_fs st0 = o_fs st" using 0 by (auto simp: CheckAndAddLocalIdOperating_def upd_mem_def split: if_splits)
  have c1: "cleaned X E (o_fs st) (o_fs st1)" using GetReal_cleaned [OF assms(1) 1] f0 by simp
  have s1: "stored_account E (o_fs st1) = stored_account E (o_fs st0)"
    using GetReal_spec [OF assms(1) 1] by (simp add: same_accounts_def)
  have c2: "cleaned X E (o_fs st) (o_fs st2)"
    if "r = ERR_OK \<or> r = ERR_ACCOUNT_COMMON_ACCOUNT_NOT_EXIST_ERROR" "\<not> (\<not> os_toBeRemoved ?a \<and> os_isCreateCompleted ?a)" "i \<noteq> x"
  proof -
    have "\<forall>b. stored_account E (o_fs st1) i = Some b \<longrightarrow> \<not> usable b"
      using that GetReal_spec [OF assms(1) 1] GetReal_absent [OF assms(1,2)] 1 s1 by (auto simp: usable_def)
    moreover have "i \<notin> X" using that(3) assms(3) by blast
    ultimately show ?thesis using cleaned_trans [OF c1] garbage_cleaned [OF assms(1) 2] by simp
  qed
  have rest: "cleaned X E (o_fs s) (o_fs st')" if "clean_loop E x ids m s = (k, st')" for m s by (rule Cons.IH [OF that])
  have fs: "o_fs (RemoveLocalIdToOperating i s) = o_fs s" for s by (simp add: RemoveLocalIdToOperating_def upd_mem_def)
  have "\<exists>m s. clean_loop E x ids m s = (k, st') \<and> cleaned X E (o_fs st) (o_fs s)"
    using Cons.prems c1 c2 f0 unfolding clean_loop.simps 0 1 Let_def prod.case 2
    by (auto simp: fs split: if_splits) (metis cleaned_refl fs)+
  with rest cleaned_trans show ?case by blast
qed simp

lemma IdList_cleaned: "GetOsAccountIdList E fs = (x, fs') \<Longrightarrow> cleaned X E fs fs'"
  by (auto simp: GetOsAccountIdList_def split: prod.splits if_splits intro: cleaned_files dest: GetAccountList_frame)

lemma Clean_cleaned:
  assumes "osm_ok E" and "no_false_absence E" and "X \<subseteq> {x}" and "CleanGarbageOsAccounts E x st = (k, st')"
  shows "cleaned X E (o_fs st) (o_fs st')"
proof -
  obtain r ids st1 where 1: "on_files (GetOsAccountIdList E) st = ((r, ids), st1)" by (rule pair3)
  have "cleaned X E (o_fs st) (o_fs st1)" by (rule conjunct1 [OF on_files_cleaned [OF 1]]) (rule IdList_cleaned)
  with assms(4) clean_loop_cleaned [OF assms(1,2,3), of ids 0 st1 k st'] cleaned_trans show ?thesis
    by (auto simp: CleanGarbageOsAccounts_def 1 split: if_splits)
qed

lemma Clean_same_front:
  assumes "osm_ok E" and "CleanGarbageOsAccounts E x st = (k, st')"
  shows "same_front (o_mem st) (o_mem st')"
proof -
  obtain r ids st1 where 1: "on_files (GetOsAccountIdList E) st = ((r, ids), st1)" by (rule pair3)
  then have "o_mem st1 = o_mem st" by (auto simp: on_files_def split: prod.splits)
  moreover have "st' = st1 \<or> clean_loop E x ids 0 st1 = (k, st')" using assms(2) by (auto simp: CleanGarbageOsAccounts_def 1 split: if_splits)
  ultimately show ?thesis
    using clean_loop_steady [OF assms(1), of x ids 0 st1 k st'] by (auto simp: same_front_def steady_def)
qed

section \<open>The id and the serial number of the new account\<close>

text \<open>A step of the manager that removes only what is not usable and changes nothing about who is active or in front.\<close>

definition calm :: "int set \<Rightarrow> 'z osm_env_scheme \<Rightarrow> osm_state \<Rightarrow> osm_state \<Rightarrow> bool" where
  "calm X E st st' \<longleftrightarrow> cleaned X E (o_fs st) (o_fs st') \<and> same_front (o_mem st) (o_mem st')"

lemma calm_refl [simp]: "calm X E st st"
  by (simp add: calm_def)

lemma calm_trans [trans]: "calm X E st st1 \<Longrightarrow> calm X E st1 st2 \<Longrightarrow> calm X E st st2"
  unfolding calm_def using cleaned_trans same_front_trans by blast

lemma calm_ask: "ask f st = (x, st') \<Longrightarrow> calm X E st st'"
  using ask_fs [of f st x st'] by (simp add: calm_def)

lemma calm_on_files:
  assumes "on_files f st = (x, st')" and "\<And>fs y fs'. f fs = (y, fs') \<Longrightarrow> cleaned X E fs fs'"
  shows "calm X E st st'"
  using on_files_cleaned [OF assms] by (simp add: calm_def)

lemma calm_clean: "osm_ok E \<Longrightarrow> no_false_absence E \<Longrightarrow> X \<subseteq> {x} \<Longrightarrow> CleanGarbageOsAccounts E x st = (k, st') \<Longrightarrow> calm X E st st'"
  by (simp add: calm_def Clean_cleaned Clean_same_front)

lemma calm_real: "osm_ok E \<Longrightarrow> GetRealOsAccountInfoById E i st = (x, st') \<Longrightarrow> calm X E st st'"
  using GetReal_cleaned [of E i st x st' X] by (simp add: calm_def)

lemma GetById_cleaned: "osm_ok E \<Longrightarrow> GetOsAccountInfoById E i a fs = (x, fs') \<Longrightarrow> cleaned X E fs fs'"
  by (rule cleaned_files) (rule GetById_files, simp_all add: osm_ok_def)

lemma account_infos_files: "\<not> DISTRIBUTED E \<Longrightarrow> account_infos E ids fs = (x, fs') \<Longrightarrow> fs_files fs' = fs_files fs"
proof (induction ids arbitrary: fs x fs')
  case (Cons s ids)
  show ?case
  proof (cases "StrToInt E s")
    case None
    with Cons show ?thesis by simp
  next
    case (Some i)
    obtain y fs1 where 1: "GetOsAccountInfoById E i OsAccountInfo_init fs = (y, fs1)" by (metis prod.collapse)
    obtain z fs2 where 2: "account_infos E ids fs1 = (z, fs2)" by (metis prod.collapse)
    have "fs_files fs2 = fs_files fs" using Cons.IH [OF Cons.prems(1) 2] GetById_files [OF Cons.prems(1) 1] by simp
    with Cons.prems(2) Some 1 2 show ?thesis by (auto split: prod.splits)
  qed
qed simp

lemma AccountList_files:
  assumes "osm_ok E" and "GetOsAccountList E fs = (x, fs')"
  shows "fs_files fs' = fs_files fs"
proof -
  have E: "\<not> DISTRIBUTED E" using assms(1) by (simp add: osm_ok_def)
  obtain r j fs1 where 1: "GetAccountListFromFile E fs = ((r, j), fs1)" by (rule pair3)
  obtain infos fs2 where 2: "account_infos E (snd (GetVectorStringFromJson j ACCOUNT_LIST [])) fs1 = (infos, fs2)" by (metis prod.collapse)
  show ?thesis
    using assms(2) E 2 GetAccountList_frame [OF 1] account_infos_files [OF E 2]
    by (simp add: GetOsAccountList_def 1 Let_def split: if_splits)
qed

lemma int64_wrap: "int64 (wrap64 n)"
  using sint_range_size [of "word_of_int n :: u64"] by (simp add: wrap64_def word_size)

lemma GetSerialNumber_unfold:
  assumes "GetAccountListFromFile E fs = ((ERR_OK, Some j), fs1)"
  obtains j1 full s2 r2 infos fs2 where "j1 = j \<or> j1 = obj_put j IS_SERIAL_NUMBER_FULL (JBool True)"
    and "(if full then GetOsAccountList E fs1 else ((ERR_OK, []), fs1)) = ((r2, infos), fs2)"
    and "GetSerialNumber E s fs = (if r2 \<noteq> ERR_OK then Some ((r2, s2), fs2)
      else case (if full then serial_loop (map os_serialNumber infos) s2 else Some s2) of None \<Rightarrow> None
      | Some y \<Rightarrow> (case SaveAccountListToFileAndDataBase E
            (Some (obj_put j1 SERIAL_NUMBER_NUM (JStr (to_string_int (wrap64 (y + 1)))))) fs2 of
          (r, fs3) \<Rightarrow> if r \<noteq> ERR_OK then Some ((r, y), fs3)
          else Some ((ERR_OK, wrap64 (y + SERIAL_NUMBER_NUM_START_FOR_ADMIN * CARRY_NUM)), fs3)))"
proof -
  define s1 where "s1 = or_keep (GetInt64FromJson (Some j) SERIAL_NUMBER_NUM) s"
  define j1 where "j1 = (if s1 = CARRY_NUM then obj_put j IS_SERIAL_NUMBER_FULL (JBool True) else j)"
  have a1: "(if s1 = CARRY_NUM then AddBoolToJson (Some j) IS_SERIAL_NUMBER_FULL True else (True, Some j)) = (True, Some j1)"
    by (simp add: j1_def AddBoolToJson_def AddItem_def)
  define full where "full = or_keep (GetBoolFromJson (Some j1) IS_SERIAL_NUMBER_FULL) False"
  define s2 where "s2 = (if s1 = CARRY_NUM then SERIAL_NUMBER_NUM_START else s1)"
  obtain r2 infos fs2 where 2: "(if full then GetOsAccountList E fs1 else ((ERR_OK, []), fs1)) = ((r2, infos), fs2)" by (metis prod.collapse)
  have a3: "AddInt64ToJson (Some j1) SERIAL_NUMBER_NUM n = (True, Some (obj_put j1 SERIAL_NUMBER_NUM (JStr (to_string_int n))))" for n
    by (simp add: AddInt64ToJson_def AddStringToJson_def AddItem_def)
  show thesis
    by (rule that [OF _ 2, of j1 s2])
      (simp add: j1_def, simp only: GetSerialNumber_def assms Let_def prod.case s1_def [symmetric] a1 full_def [symmetric] s2_def [symmetric] 2
          a3 simp_thms if_True if_False)
qed

lemma GetSerialNumber_spec:
  assumes "osm_ok E" and "GetSerialNumber E s fs = Some ((r, n), fs')"
  shows "cleaned X E fs fs' \<and> (r = ERR_OK \<longrightarrow> int64 n)"
proof -
  obtain r1 x fs1 where 1: "GetAccountListFromFile E fs = ((r1, x), fs1)" by (metis prod.collapse)
  note read = list_read [OF assms(1) 1]
  show ?thesis
  proof (cases "r1 = ERR_OK")
    case False
    with assms(2) 1 read(1) show ?thesis by (auto simp: GetSerialNumber_def)
  next
    case True
    then obtain j where j: "x = Some j" "file_json E list_path fs1 = Some j" using read(2) by blast
    obtain j1 full s2 r2 infos fs2 where j1: "j1 = j \<or> j1 = obj_put j IS_SERIAL_NUMBER_FULL (JBool True)"
      and 2: "(if full then GetOsAccountList E fs1 else ((ERR_OK, []), fs1)) = ((r2, infos), fs2)"
      and eq: "GetSerialNumber E s fs = (if r2 \<noteq> ERR_OK then Some ((r2, s2), fs2)
        else case (if full then serial_loop (map os_serialNumber infos) s2 else Some s2) of None \<Rightarrow> None
        | Some y \<Rightarrow> (case SaveAccountListToFileAndDataBase E
              (Some (obj_put j1 SERIAL_NUMBER_NUM (JStr (to_string_int (wrap64 (y + 1)))))) fs2 of
            (r, fs3) \<Rightarrow> if r \<noteq> ERR_OK then Some ((r, y), fs3)
            else Some ((ERR_OK, wrap64 (y + SERIAL_NUMBER_NUM_START_FOR_ADMIN * CARRY_NUM)), fs3)))"
      by (rule GetSerialNumber_unfold [OF 1 [unfolded True j(1)]])
    have f2: "fs_files fs2 = fs_files fs1" using 2 AccountList_files [OF assms(1), of fs1] by (auto split: if_splits)
    have c2: "cleaned X E fs fs2" by (rule cleaned_trans [OF read(1) cleaned_files [OF f2]])
    have j2: "file_json E list_path fs2 = Some j" using j(2) f2 by (simp add: file_json_def)
    have c3: "cleaned X E fs fs3"
      if "SaveAccountListToFileAndDataBase E (Some (obj_put j1 SERIAL_NUMBER_NUM (JStr (to_string_int m)))) fs2 = (r3, fs3)" for m r3 fs3
      by (rule cleaned_trans [OF c2 cleaned_save [OF assms(1) j2 that]]) (use j1 in \<open>auto simp: strs_put_other list_key_defs intro!: obj_ok_put\<close>)
    show ?thesis using assms(2) c2 c3 int64_wrap unfolding eq by (auto split: if_splits option.splits prod.splits)
  qed
qed

lemma AllowCreate_cleaned:
  assumes "osm_ok E" and "GetAllowCreateId E i fs = ((r, k), fs')"
  shows "cleaned X E fs fs'"
    and "r = ERR_OK \<Longrightarrow> accounts_listed n Y E fs \<Longrightarrow> START_USER_ID \<le> k \<and> k \<le> MAX_CREATABLE_USER_ID
      \<and> (\<forall>a. stored_account E fs' k = Some a \<longrightarrow> \<not> usable a)"
proof -
  have E: "cjson_ok E" "\<not> DISTRIBUTED E" using assms(1) by (simp_all add: osm_ok_def)
  obtain r1 x fs1 where 1: "GetAccountListFromFile E fs = ((r1, x), fs1)" by (metis prod.collapse)
  note read = list_read [OF assms(1) 1]
  have "stored_account E fs1 = stored_account E fs" using GetAccountList_frame [OF 1] by (rule stored_account_files)
  then have s: "stored_account E fs' = stored_account E fs"
    using assms(2) list_save_frame [of E _ fs1 _ fs' E] by (auto simp: GetAllowCreateId_def 1 Let_def split: if_splits prod.splits)
  show c: "cleaned X E fs fs'"
  proof (cases "r1 = ERR_OK")
    case True
    then obtain j where "file_json E list_path fs1 = Some j" using read(2) by blast
    then have j: "file_json E list_path fs = Some j" using GetAccountList_frame [OF 1] by (simp add: file_json_def)
    show ?thesis
    proof (rule cleaned_list [OF s])
      fix k' assume k': "file_json E list_path fs = Some k'" "obj_ok k'"
      show "\<exists>j'. file_json E list_path fs' = Some j' \<and> obj_ok j' \<and> strs j' ACCOUNT_LIST = strs k' ACCOUNT_LIST"
        using AllowCreateId_spec [OF E k' assms(2)] k'(2) by (cases "r = ERR_OK") auto
    qed (use j in simp)
  next
    case False
    with assms(2) read(1) show ?thesis by (auto simp: GetAllowCreateId_def 1)
  qed
  assume r: "r = ERR_OK" and l: "accounts_listed n Y E fs"
  have "r1 = ERR_OK" using assms(2) r by (auto simp: GetAllowCreateId_def 1 split: if_splits)
  then obtain j where "file_json E list_path fs1 = Some j" using read(2) by blast
  then have j: "file_json E list_path fs = Some j" using GetAccountList_frame [OF 1] by (simp add: file_json_def)
  then have "obj_ok j" using l by (simp add: accounts_listed_def)
  from AllowCreateId_spec [OF E j this assms(2)] r
  have k: "101 \<le> k" "k \<le> 999" "to_string_int k \<notin> set (strs j ACCOUNT_LIST)" by auto
  then have "\<not> usable a" if "stored_account E fs k = Some a" for a
    using l j that by (force simp: accounts_listed_def START_USER_ID_def)
  with k s show "START_USER_ID \<le> k \<and> k \<le> MAX_CREATABLE_USER_ID \<and> (\<forall>a. stored_account E fs' k = Some a \<longrightarrow> \<not> usable a)"
    by (simp add: START_USER_ID_def MAX_CREATABLE_USER_ID_def)
qed

lemma SetNext_cleaned:
  assumes "osm_ok E" and "\<bar>i\<bar> < 2 ^ 31" and "SetNextLocalId E i fs = (r, fs')"
  shows "cleaned X E fs fs'"
proof -
  obtain r1 x fs1 where 1: "GetAccountListFromFile E fs = ((r1, x), fs1)" by (metis prod.collapse)
  note read = list_read [OF assms(1) 1]
  show ?thesis
  proof (cases "r1 = ERR_OK")
    case True
    then obtain j where j: "x = Some j" "file_json E list_path fs1 = Some j" using read(2) by blast
    define m where "m = max i (case GetIntFromJson x NEXT_LOCAL_ID of Some n \<Rightarrow> n | None \<Rightarrow> START_USER_ID + 1)"
    have save: "SaveAccountListToFileAndDataBase E (Some (obj_put j NEXT_LOCAL_ID (JNum m))) fs1 = (r, fs')"
      using assms(3) True by (simp add: SetNextLocalId_def 1 Let_def m_def j(1) AddInt_put)
    have "\<bar>m\<bar> < 2 ^ 53" if "obj_ok j"
      using GetInt_bound [of j NEXT_LOCAL_ID] that assms(2) by (auto simp: m_def j(1) obj_ok_def START_USER_ID_def split: option.splits)
    then have "cleaned X E fs1 fs'"
      by (intro cleaned_save [OF assms(1) j(2) save]) (auto simp: strs_put_other intro!: obj_ok_put)
    with read(1) show ?thesis by (rule cleaned_trans)
  next
    case False
    with assms(3) read(1) show ?thesis by (auto simp: SetNextLocalId_def 1)
  qed
qed

lemma Assign_spec:
  assumes "osm_ok E" and "no_false_absence E" and "AssignSpecifiedLocalId E s i st = ((r, k), st')"
  shows "calm {} E st st'" and "r = ERR_OK \<Longrightarrow> START_USER_ID \<le> k \<and> k \<le> MAX_CREATABLE_USER_ID
    \<and> (\<forall>a. stored_account E (o_fs st') k = Some a \<longrightarrow> \<not> usable a)"
proof -
  obtain r1 a st1 where 1: "GetRealOsAccountInfoById E s st = ((r1, a), st1)" by (rule pair3)
  obtain n st2 where 2: "CleanGarbageOsAccounts E (-1) st1 = (n, st2)" by (metis prod.collapse)
  obtain r3 ex st3 where 3: "on_files (IsOsAccountExists E s) st2 = ((r3, ex), st3)" by (rule pair3)
  obtain r4 st4 where 4: "on_files (SetNextLocalId E (s + 1)) st3 = (r4, st4)" by (metis prod.collapse)
  have c1: "calm {} E st st1" by (rule calm_real [OF assms(1) 1])
  have c2: "calm {} E st st2" by (rule calm_trans [OF c1 calm_clean [OF assms(1,2) _ 2]]) simp
  have c3: "calm {} E st2 st3"
    by (rule calm_on_files [OF 3])
      (auto simp: IsOsAccountExists_def split: prod.splits intro!: cleaned_files dest!: arg_cong [of _ _ snd] simp: sym [OF IsExistFile_files])
  have c4: "calm {} E st3 st4" if "\<bar>s + 1\<bar> < 2 ^ 31"
    by (rule calm_on_files [OF 4]) (rule SetNext_cleaned [OF assms(1) that])
  note all = c1 c2 calm_trans [OF c2 c3] calm_trans [OF calm_trans [OF c2 c3] c4]
  show "calm {} E st st'"
    using assms(3) all
    unfolding AssignSpecifiedLocalId_def 1 Let_def prod.case 2 snd_conv 3 4
    by (auto simp: START_USER_ID_def MAX_CREATABLE_USER_ID_def split: if_splits)
  assume r: "r = ERR_OK"
  then have k: "k = s" "START_USER_ID \<le> s" "s \<le> MAX_CREATABLE_USER_ID" "st' = st4"
    and r1: "r1 = ERR_OK \<and> \<not> usable a \<or> r1 = ERR_ACCOUNT_COMMON_ACCOUNT_NOT_EXIST_ERROR"
    using assms(3) unfolding AssignSpecifiedLocalId_def 1 Let_def prod.case 2 snd_conv 3 4
    by (auto simp: usable_def split: if_splits)
  have "\<forall>b. stored_account E (o_fs st) s = Some b \<longrightarrow> \<not> usable b"
    using r1 GetReal_spec [OF assms(1) 1] GetReal_absent [OF assms(1,2)] 1 by (auto simp: usable_def)
  moreover have "cleaned {} E (o_fs st) (o_fs st4)" using all(4) k(2,3)
    by (auto simp: calm_def START_USER_ID_def MAX_CREATABLE_USER_ID_def)
  ultimately show "START_USER_ID \<le> k \<and> k \<le> MAX_CREATABLE_USER_ID \<and> (\<forall>a. stored_account E (o_fs st') k = Some a \<longrightarrow> \<not> usable a)"
    using k cleaned_back by metis
qed

section \<open>The record of the new account\<close>

text \<open>cJSON reads a text without NUL bytes, so the strings in the tree have none either.\<close>

fun no_nul :: "json \<Rightarrow> bool" where
  "no_nul (JStr s) = nul_free s"
| "no_nul (JArr xs) = (\<forall>x \<in> set xs. no_nul x)"
| "no_nul (JObj kvs) = (\<forall>e \<in> set kvs. no_nul (snd e))"
| "no_nul _ = True"

definition c_strings :: "'z osm_env_scheme \<Rightarrow> bool" where
  "c_strings E \<longleftrightarrow> (\<forall>s j. nul_free s \<and> cj_parse E s = Some j \<longrightarrow> no_nul j)"

lemma no_nul_item: "no_nul j \<Longrightarrow> obj_item j k = Some x \<Longrightarrow> no_nul x"
  by (cases j) (auto dest!: map_of_SomeD)

lemma no_nul_strings: "\<forall>x \<in> set xs. no_nul x \<Longrightarrow> s \<in> set (json_strings xs) \<Longrightarrow> nul_free s"
  by (induction xs rule: json_strings.induct) auto

lemma Constraints_spec:
  assumes "c_strings E" and "GetConstraintsByType E type fs = ((r, cs), fs')"
  shows "fs_files fs' = fs_files fs \<and> (\<forall>s \<in> set cs. nul_free s)"
proof -
  obtain r1 str fs1 where 1: "GetFileContentByPath E OS_ACCOUNT_CONSTRAINT_CONFIG_PATH [] fs = ((r1, str), fs1)" by (rule pair3)
  obtain ret x where 2: "GetObjFromJson (CreateJsonFromString E str) KEY_TYPE_TO_CONSTRAINTS None = (ret, x)" by (metis prod.collapse)
  have f: "fs_files fs1 = fs_files fs" using GetFileContentByPath_files [of E OS_ACCOUNT_CONSTRAINT_CONFIG_PATH "[]" fs] by (simp add: 1)
  have "no_nul j" if "CreateJsonFromString E str = Some j" for j
    using that assms(1) unfolding c_strings_def CreateJsonFromString_def by (metis nul_free_c_str option.distinct(1))
  then have x: "no_nul y" if "x = Some y" for y
    using 2 that no_nul_item by (auto simp: GetObjFromJson_def Let_def split: option.splits if_splits)
  have "nul_free s" if "s \<in> set (snd (GetVectorStringFromJson x (to_string_int type) []))" for s
    using that x no_nul_item no_nul_strings
    by (auto simp: GetVectorStringFromJson_def GetItemFromJson_def split: option.splits json.splits if_splits)
      (metis no_nul.simps(2) no_nul_item no_nul_strings)
  with assms(2) f show ?thesis by (auto simp: GetConstraintsByType_def 1 2 split: if_splits)
qed

definition new_record :: "string \<Rightarrow> string \<Rightarrow> int \<Rightarrow> OsAccountInfo \<Rightarrow> bool" where
  "new_record localName shortName type a \<longleftrightarrow>
     os_record_ok a \<and> os_localName a = localName \<and> os_shortName a = shortName \<and> os_type a = type
     \<and> \<not> os_isCreateCompleted a \<and> \<not> os_toBeRemoved a
     \<and> START_USER_ID \<le> os_localId a \<and> os_localId a \<le> MAX_USER_ID
     \<and> (if type = TYPE_MAINTENANCE then os_localId a = MAINTENANCE_MODE_ID else os_localId a \<le> MAX_CREATABLE_USER_ID)"

definition names_ok :: "string \<Rightarrow> string \<Rightarrow> int \<Rightarrow> bool" where
  "names_ok localName shortName type \<longleftrightarrow> nul_free localName \<and> nul_free shortName \<and> \<bar>type\<bar> < 2 ^ 31"

lemma created_info_ok:
  assumes "names_ok localName shortName type" and "int64 serial" and "\<forall>s \<in> set cs. nul_free s" and "\<bar>time\<bar> < 2 ^ 63"
    and "START_USER_ID \<le> i" and "i \<le> MAX_USER_ID"
    and "if type = TYPE_MAINTENANCE then i = MAINTENANCE_MODE_ID else i \<le> MAX_CREATABLE_USER_ID"
    and "a2 = created_info i localName shortName type serial \<or> a2 = (created_info i localName shortName type serial)\<lparr>os_creatorType := TOKEN_NATIVE\<rparr>"
    and "SetDomainInfo E DomainAccountInfo_init (a2\<lparr>os_constraints := cs, os_version := OS_ACCOUNT_INFO_LATEST_VERSION,
      os_createTime := time\<rparr>) = (True, a)"
  shows "new_record localName shortName type a \<and> os_localId a = i"
proof -
  let ?a = "a2\<lparr>os_constraints := cs, os_version := OS_ACCOUNT_INFO_LATEST_VERSION, os_createTime := time\<rparr>"
  have "a = ?a\<lparr>os_domainInfo := DomainAccountInfo_init\<rparr>" using assms(9) by (simp add: SetDomainInfo_def split: if_splits)
  moreover have "\<bar>i\<bar> < 2 ^ 31" using assms(5,6) by (simp add: START_USER_ID_def MAX_USER_ID_def)
  moreover have "os_record_ok (?a\<lparr>os_domainInfo := DomainAccountInfo_init\<rparr>)"
    using assms(8,1-4) calculation(2)
    by (elim disjE) (simp_all add: os_record_ok_def names_ok_def created_info_def OsAccountInfo_init_def domain_ok_def DomainAccountInfo_init_def
        TOKEN_NATIVE_def OS_ACCOUNT_INFO_LATEST_VERSION_def DOMAIN_LOG_END_def)
  ultimately show ?thesis using assms(8,5-7)
    by (elim disjE) (simp_all add: new_record_def created_info_def OsAccountInfo_init_def)
qed

lemma id_spec:
  assumes "osm_ok E" and "no_false_absence E"
    and "(if type = TYPE_MAINTENANCE then ((ERR_OK, MAINTENANCE_MODE_ID), st)
          else case given of Some specified \<Rightarrow> AssignSpecifiedLocalId E specified 0 st
               | None \<Rightarrow> on_files (GetAllowCreateId E 0) st) = ((r, i), st')"
  shows "calm {} E st st'"
    and "r = ERR_OK \<Longrightarrow> accounts_listed n {} E (o_fs st) \<Longrightarrow> START_USER_ID \<le> i \<and> i \<le> MAX_USER_ID
      \<and> (if type = TYPE_MAINTENANCE then i = MAINTENANCE_MODE_ID
         else i \<le> MAX_CREATABLE_USER_ID \<and> (\<forall>a. stored_account E (o_fs st') i = Some a \<longrightarrow> \<not> usable a))"
proof -
  consider (maint) "type = TYPE_MAINTENANCE" "r = ERR_OK" "i = MAINTENANCE_MODE_ID" "st' = st"
    | (given) s where "type \<noteq> TYPE_MAINTENANCE" "AssignSpecifiedLocalId E s 0 st = ((r, i), st')"
    | (fresh) fs' where "type \<noteq> TYPE_MAINTENANCE" "GetAllowCreateId E 0 (o_fs st) = ((r, i), fs')" "st' = st\<lparr>o_fs := fs'\<rparr>"
    using assms(3) by (auto simp: on_files_def split: if_splits option.splits prod.splits)
  note cases = this
  from cases show "calm {} E st st'"
  proof cases
    case given
    from Assign_spec(1) [OF assms(1,2) given(2)] show ?thesis .
  next
    case fresh
    with AllowCreate_cleaned(1) [OF assms(1) fresh(2)] show ?thesis by (simp add: calm_def)
  qed simp
  assume r: "r = ERR_OK" and l: "accounts_listed n {} E (o_fs st)"
  have top: "MAX_CREATABLE_USER_ID \<le> MAX_USER_ID" by (simp add: MAX_CREATABLE_USER_ID_def MAX_USER_ID_def)
  from cases show "START_USER_ID \<le> i \<and> i \<le> MAX_USER_ID \<and> (if type = TYPE_MAINTENANCE then i = MAINTENANCE_MODE_ID
         else i \<le> MAX_CREATABLE_USER_ID \<and> (\<forall>a. stored_account E (o_fs st') i = Some a \<longrightarrow> \<not> usable a))"
  proof cases
    case maint
    then show ?thesis by (simp add: MAINTENANCE_MODE_ID_def START_USER_ID_def MAX_USER_ID_def)
  next
    case given
    with Assign_spec(2) [OF assms(1,2) given(2) r] top show ?thesis by auto
  next
    case fresh
    with AllowCreate_cleaned(2) [OF assms(1) fresh(2) r l] top show ?thesis by auto
  qed
qed

lemma Fill_spec:
  assumes "osm_ok E" and "no_false_absence E" and "c_strings E" and "names_ok localName (opt_shortName options) type"
    and "FillOsAccountInfo E localName type DomainAccountInfo_init a options st = Some ((r, a'), st')"
  shows "calm {} E st st'"
    and "r = ERR_OK \<Longrightarrow> n < 2 ^ 40 \<Longrightarrow> accounts_listed n {} E (o_fs st) \<Longrightarrow> new_record localName (opt_shortName options) type a'
      \<and> (type \<noteq> TYPE_MAINTENANCE \<longrightarrow> (\<forall>b. stored_account E (o_fs st') (os_localId a') = Some b \<longrightarrow> \<not> usable b))"
proof -
  obtain r1 serial fs where 1: "GetSerialNumber E (stack_serial E) (o_fs st) = Some ((r1, serial), fs)"
    using assms(5) by (auto simp: FillOsAccountInfo_def split: option.splits)
  define st1 where "st1 = st\<lparr>o_fs := fs\<rparr>"
  obtain r2 i st2 where 2: "(if type = TYPE_MAINTENANCE then ((ERR_OK, MAINTENANCE_MODE_ID), st1)
              else case opt_localId options of
                Some specified \<Rightarrow> AssignSpecifiedLocalId E specified 0 st1
              | None \<Rightarrow> on_files (GetAllowCreateId E 0) st1) = ((r2, i), st2)" by (rule pair3)
  obtain r3 cs st3 where 3: "on_files (GetConstraintsByType E type) st2 = ((r3, cs), st3)" by (rule pair3)
  obtain time st4 where 4: "ask (clock_s E) st3 = (time, st4)" by (metis prod.collapse)
  define a2 where "a2 = (if CheckSaCall E then (created_info i localName (opt_shortName options) type serial)\<lparr>os_creatorType := TOKEN_NATIVE\<rparr>
    else created_info i localName (opt_shortName options) type serial)"
  obtain ok a4 where 5: "SetDomainInfo E DomainAccountInfo_init (a2\<lparr>os_constraints := cs, os_version := OS_ACCOUNT_INFO_LATEST_VERSION,
      os_createTime := time\<rparr>) = (ok, a4)" by (metis prod.collapse)
  note s = GetSerialNumber_spec [OF assms(1) 1]
  have c1: "calm X E st st1" for X using s by (simp add: calm_def st1_def)
  note id = id_spec [OF assms(1,2) 2]
  note c2 = id(1)
  obtain fs3 where fs3: "GetConstraintsByType E type (o_fs st2) = ((r3, cs), fs3)" "st3 = st2\<lparr>o_fs := fs3\<rparr>"
    using 3 by (auto simp: on_files_def split: prod.splits)
  have f3: "fs_files (o_fs st3) = fs_files (o_fs st2)" using Constraints_spec [OF assms(3) fs3(1)] fs3(2) by simp
  have c3: "calm {} E st2 st3" using cleaned_files [OF f3, of "{}" E] fs3(2) by (simp add: calm_def)
  have c4: "calm {} E st3 st4" by (rule calm_ask [OF 4])
  note c = c1 [of "{}"] calm_trans [OF c1 c2] calm_trans [OF calm_trans [OF c1 c2] c3] calm_trans [OF calm_trans [OF calm_trans [OF c1 c2] c3] c4]
  have eq: "Some ((r, a'), st') = (if r1 \<noteq> ERR_OK then Some ((r1, a), st1) else if r2 \<noteq> ERR_OK then Some ((r2, a), st2)
      else if r3 \<noteq> ERR_OK then Some ((r3, a), st3)
      else if \<not> ok then Some ((ERR_OSACCOUNT_KIT_CREATE_OS_ACCOUNT_FOR_DOMAIN_ERROR, a4), st4) else Some ((ERR_OK, a4), st4))"
    unfolding assms(5) [symmetric] FillOsAccountInfo_def 1 option.case prod.case Let_def st1_def [symmetric] 2 3 4
      a2_def [symmetric] 5 by simp
  show "calm {} E st st'" using eq c by (auto split: if_splits)
  assume r: "r = ERR_OK" and n: "n < 2 ^ 40" "accounts_listed n {} E (o_fs st)"
  then have ok: "r1 = ERR_OK" "r2 = ERR_OK" "r3 = ERR_OK" "ok" "a' = a4" "st' = st4" using eq by (auto split: if_splits)
  have "accounts_listed n {} E (o_fs st1)" using c1 [of "{}"] n by (simp add: calm_def cleaned_def)
  note i = id(2) [OF ok(2) this]
  have cs: "\<forall>s \<in> set cs. nul_free s" using Constraints_spec [OF assms(3) fs3(1)] by blast
  have time: "\<bar>time\<bar> < 2 ^ 63" using 4 assms(1) by (auto simp: ask_def osm_ok_def)
  have dom: "SetDomainInfo E DomainAccountInfo_init (a2\<lparr>os_constraints := cs, os_version := OS_ACCOUNT_INFO_LATEST_VERSION,
      os_createTime := time\<rparr>) = (True, a4)" using 5 ok(4) by simp
  have "new_record localName (opt_shortName options) type a4 \<and> os_localId a4 = i"
    using i s [of UNIV] ok(1) by (intro created_info_ok [of localName _ type serial cs time i a2 E a4, OF assms(4) _ cs time _ _ _ _ dom])
      (auto simp: a2_def split: if_splits)
  moreover have "stored_account E (o_fs st') = stored_account E (o_fs st2)" using stored_account_files [OF f3] 4 ok(6) by (auto simp: ask_def)
  ultimately show "new_record localName (opt_shortName options) type a'
      \<and> (type \<noteq> TYPE_MAINTENANCE \<longrightarrow> (\<forall>b. stored_account E (o_fs st') (os_localId a') = Some b \<longrightarrow> \<not> usable b))"
    using i ok(5) by (auto split: if_splits)
qed

section \<open>Storing the record\<close>

lemma list_add:
  assumes "osm_ok E" and "UpdateAccountList E (to_string_int i) True fs = (r, fs')"
    and "accounts_listed n Y E fs" and "n < 2 ^ 40"
  shows "stored_account E fs' = stored_account E fs \<and> accounts_listed (Suc n) Y E fs'
    \<and> (r = ERR_OK \<longrightarrow> accounts_listed (Suc n) (insert i Y) E fs')"
proof -
  have E: "cjson_ok E" "\<not> DISTRIBUTED E" using assms(1) by (simp_all add: osm_ok_def)
  obtain r1 x fs1 where 1: "GetAccountListFromFile E fs = ((r1, x), fs1)" by (metis prod.collapse)
  note read = list_read [OF assms(1) 1]
  have "stored_account E fs1 = stored_account E fs" using GetAccountList_frame [OF 1] by (rule stored_account_files)
  then have s: "stored_account E fs' = stored_account E fs"
    using assms(2) by (auto simp: UpdateAccountList_def 1 Let_def dest: list_save_frame [where F = E] split: prod.splits if_splits)
  show ?thesis
  proof (cases "r1 = ERR_OK")
    case False
    with assms(2) have "fs' = fs1" "r \<noteq> ERR_OK" by (auto simp: UpdateAccountList_def 1)
    moreover have "accounts_listed n Y E fs1" using read(1) [of UNIV] assms(3,4) by (simp add: cleaned_def)
    then have "accounts_listed (Suc n) Y E fs1" by (auto simp: accounts_listed_def)
    ultimately show ?thesis using s by simp
  next
    case True
    then obtain j where "file_json E list_path fs1 = Some j" using read(2) by blast
    then have j: "file_json E list_path fs = Some j" using GetAccountList_frame [OF 1] by (simp add: file_json_def)
    with assms(3) have l: "obj_ok j" "length (strs j ACCOUNT_LIST) \<le> n"
      "\<And>k a. stored_account E fs k = Some a \<Longrightarrow> usable a \<Longrightarrow> START_USER_ID < k \<Longrightarrow> to_string_int k \<in> set (strs j ACCOUNT_LIST)"
      "\<And>k. k \<in> Y \<Longrightarrow> to_string_int k \<in> set (strs j ACCOUNT_LIST)" by (auto simp: accounts_listed_def)
    have "length (strs j ACCOUNT_LIST) < 2 ^ 52" using l(2) assms(4) by simp
    from UpdateAccountList_spec [OF E j l(1) nul_free_to_string_int this assms(2)] obtain j' where
      j': "file_json E list_path fs' = Some j'" "obj_ok j'" and
      new: "if r \<noteq> ERR_OK then j' = j else set (strs j' ACCOUNT_LIST) = insert (to_string_int i) (set (strs j ACCOUNT_LIST))
        \<and> length (strs j' ACCOUNT_LIST) \<le> Suc (length (strs j ACCOUNT_LIST))" by (auto simp: insert_absorb split: if_splits)
    show ?thesis using s j' new l unfolding accounts_listed_def by (cases "r = ERR_OK") auto
  qed
qed

text \<open>Writing the record of an account changes neither the list nor another account.\<close>

lemma list_path_not_temp: "list_path \<noteq> GetTempFilePath (account_path (to_string_int i))"
proof -
  have "CHR ''/'' \<in> set (to_string_int i @ ''/account_info.json.tmp'')" "CHR ''/'' \<notin> set ''account_list.json''" by simp_all
  then show ?thesis
    by (auto simp: account_path_def ACCOUNT_LIST_FILE_JSON_PATH_def GetTempFilePath_def simp del: set_append set_simps)
qed

lemma account_write:
  assumes "osm_ok E" and "os_record_ok a"
    and "InputFileByPathAndContent E (account_path (to_string_int (os_localId a))) (OsAccountInfo_ToString E a) fs = (r, fs')"
  shows "stored_account E fs' = (if r = ERR_OK then (stored_account E fs)(os_localId a \<mapsto> a) else stored_account E fs)
    \<and> file_json E list_path fs' = file_json E list_path fs"
proof -
  let ?p = "account_path (to_string_int (os_localId a))"
  have E: "cjson_ok E" using assms(1) by (simp add: osm_ok_def)
  note spec = InputFile_spec [OF assms(3)]
  have "fs_files fs' list_path = fs_files fs list_path"
    by (rule spec [THEN conjunct2, rule_format, OF conjI [OF not_sym [OF account_path_not_list(1)] list_path_not_temp]])
  then have l: "file_json E list_path fs' = file_json E list_path fs" by (simp add: file_json_def)
  have "fs_files fs' (account_path (to_string_int j)) =
      (if r = ERR_OK \<and> j = os_localId a then Some (OsAccountInfo_ToString E a) else fs_files fs (account_path (to_string_int j)))" for j
    using spec by (cases "j = os_localId a") auto
  then have "stored_account E fs' j = (if r = ERR_OK \<and> j = os_localId a then Some a else stored_account E fs j)" for j
    using ToString_read [OF E assms(2)] by (simp add: stored_account_def)
  with l show ?thesis by (simp add: fun_eq_iff)
qed

lemma ready_files: "IsJsonFileReady E p fs = (x, fs') \<Longrightarrow> fs_files fs' = fs_files fs"
proof -
  obtain ex fs1 where 1: "IsExistFile E p fs = (ex, fs1)" by (metis prod.collapse)
  obtain r s fs2 where 2: "GetFileContentByPath E p [] fs1 = ((r, s), fs2)" by (rule pair3)
  have "fs_files fs1 = fs_files fs" "fs_files fs2 = fs_files fs1"
    using IsExistFile_files [of E p fs] GetFileContentByPath_files [of E p "[]" fs1] by (simp_all add: 1 2)
  then show "IsJsonFileReady E p fs = (x, fs') \<Longrightarrow> fs_files fs' = fs_files fs"
    by (auto simp: IsJsonFileReady_def IsJsonFormat_def 1 2 split: if_splits)
qed

lemma Insert_spec:
  assumes "osm_ok E" and "os_record_ok a" and "\<not> usable a" and "START_USER_ID \<le> os_localId a" and "InsertOsAccountInfo E a fs = (r, fs')"
    and "\<forall>b. stored_account E fs (os_localId a) = Some b \<longrightarrow> \<not> usable b" and "accounts_listed n {} E fs" and "n < 2 ^ 40"
  shows "stored_account E fs' = (if r = ERR_OK then (stored_account E fs)(os_localId a \<mapsto> a) else stored_account E fs)
    \<and> accounts_listed (Suc n) {} E fs' \<and> (r = ERR_OK \<longrightarrow> accounts_listed (Suc n) {os_localId a} E fs')"
proof -
  let ?i = "os_localId a" let ?p = "account_path (to_string_int ?i)"
  obtain ready fs1 where 1: "IsJsonFileReady E ?p fs = (ready, fs1)" by (metis prod.collapse)
  obtain r2 fs2 where 2: "UpdateAccountList E (to_string_int ?i) True fs1 = (r2, fs2)" by (metis prod.collapse)
  obtain r3 fs3 where 3: "InputFileByPathAndContent E ?p (OsAccountInfo_ToString E a) fs2 = (r3, fs3)" by (metis prod.collapse)
  have f1: "fs_files fs1 = fs_files fs" by (rule ready_files [OF 1])
  have s1: "stored_account E fs1 = stored_account E fs" by (rule stored_account_files [OF f1])
  have l1: "accounts_listed n {} E fs1" using cleaned_files [OF f1, of UNIV E] assms(7,8) by (simp add: cleaned_def)
  then have l1': "accounts_listed (Suc n) {} E fs1" by (auto simp: accounts_listed_def)
  note l2 = list_add [OF assms(1) 2 l1 assms(8)]
  note w = account_write [OF assms(1,2) 3]
  have l3: "accounts_listed (Suc n) Y E fs3" if "accounts_listed (Suc n) Y E fs2" for Y
    using that w assms(3) by (auto simp: accounts_listed_def split: if_splits)
  have eq: "(r, fs') = (if ready then (ERR_OSACCOUNT_SERVICE_CONTROL_INSERT_FILE_EXISTS_ERROR, fs1)
      else if OsAccountInfo_ToString E a = [] then (ERR_OSACCOUNT_SERVICE_ACCOUNT_INFO_EMPTY_ERROR, fs1)
      else if r2 \<noteq> ERR_OK then (r2, fs2) else (r3, fs3))"
    using assms(4) unfolding assms(5) [symmetric]
    by (simp add: InsertOsAccountInfo_def InsertOsAccount_def Let_def 1 2 3 START_USER_ID_def ADMIN_LOCAL_ID_def)
  show ?thesis using eq s1 l1' l2 l3 w by (auto split: if_splits)
qed

text \<open>The base constraints of the new account are written to a file of their own.\<close>

lemma base_constraints_cleaned:
  assumes "UpdateBaseOAConstraints E i cs isAdd fs = (r, fs')"
  shows "cleaned X E fs fs'"
proof -
  obtain r1 j fs1 where 1: "GetBaseOAConstraintsFromFile E fs = ((r1, j), fs1)" by (rule pair3)
  have f: "fs_files fs1 = fs_files fs"
    using 1 account_files.read_frame [of E base_path fs]
    by (auto simp: GetBaseOAConstraintsFromFile_def constraints_from_file_def Let_def split_beta split: if_splits)
  have tr: "cleaned X E fs fs2" if "SaveBaseOAConstraintsToFile E x fs1 = (r2, fs2)" for x r2 fs2
    using that top_write_frame [of E "''base_os_account_constraints.json''" x fs1 r2 fs2 E] json_to_file_frame [of E base_path x fs1 r2 fs2 list_path]
    by (intro cleaned_trans [OF cleaned_files [OF f] cleaned_kept]) (simp_all add: SaveBaseOAConstraintsToFile_def path_defs GetTempFilePath_def)
  with cleaned_files [OF f, of X E] assms show ?thesis
    by (auto simp: UpdateBaseOAConstraints_def 1 Let_def split: prod.splits if_splits)
qed

section \<open>The map of usable accounts\<close>

text \<open>What the rest of the system means by the accounts there are: cleaning and preparing do not change it.\<close>

definition usable_accounts :: "'z osm_env_scheme \<Rightarrow> fs_state \<Rightarrow> int \<rightharpoonup> OsAccountInfo" where
  "usable_accounts E fs i = (case stored_account E fs i of None \<Rightarrow> None | Some a \<Rightarrow> if usable a then Some a else None)"

lemma not_usable: "(\<forall>b. stored_account E fs i = Some b \<longrightarrow> \<not> usable b) \<longleftrightarrow> usable_accounts E fs i = None"
  by (auto simp: usable_accounts_def split: option.splits)

lemma cleaned_view:
  assumes "cleaned X E fs fs'"
  shows "usable_accounts E fs' = usable_accounts E fs"
proof (rule ext)
  fix i
  have "stored_account E fs' i = stored_account E fs i
      \<or> stored_account E fs' i = None \<and> (\<forall>a. stored_account E fs i = Some a \<longrightarrow> \<not> usable a)"
    using assms unfolding cleaned_def by blast
  then show "usable_accounts E fs' i = usable_accounts E fs i" by (cases "stored_account E fs i") (auto simp: usable_accounts_def)
qed

lemma stored_view: "stored_account E fs' = (stored_account E fs)(i \<mapsto> a) \<Longrightarrow>
    usable_accounts E fs' = (usable_accounts E fs)(i := if usable a then Some a else None)"
  by (rule ext) (simp add: usable_accounts_def)

text \<open>A step of a creation of the account \<open>i\<close>: the usable accounts stay, the marker of \<open>i\<close> may be set.\<close>

definition marker :: "int \<Rightarrow> os_memory \<Rightarrow> os_memory \<Rightarrow> bool" where
  "marker i m m' \<longleftrightarrow> same_front m m' \<or> same_front (marked i m) m'"

lemma marker_trans: "marker i m m1 \<Longrightarrow> same_front m1 m' \<Longrightarrow> marker i m m'"
  unfolding marker_def using same_front_trans by blast

definition preparing :: "nat \<Rightarrow> int \<Rightarrow> 'z osm_env_scheme \<Rightarrow> osm_state \<Rightarrow> osm_state \<Rightarrow> bool" where
  "preparing n i E st st' \<longleftrightarrow>
     usable_accounts E (o_fs st') = usable_accounts E (o_fs st) \<and> accounts_listed n {} E (o_fs st')
     \<and> (files_ok E (o_fs st) \<longrightarrow> files_ok E (o_fs st')) \<and> marker i (o_mem st) (o_mem st')"

lemma preparing_calm:
  assumes "preparing n i E st st1" and "calm {} E st1 st'" and "n < 2 ^ 40"
  shows "preparing n i E st st'"
proof -
  have c: "cleaned {} E (o_fs st1) (o_fs st')" and m: "same_front (o_mem st1) (o_mem st')" using assms(2) by (simp_all add: calm_def)
  then have "accounts_listed n {} E (o_fs st')" using assms(1,3) by (simp add: cleaned_def preparing_def)
  with assms(1) cleaned_view [OF c] cleaned_files_ok [OF c] marker_trans [OF _ m] show ?thesis by (auto simp: preparing_def)
qed

lemma calm_mono: "calm X E st st' \<Longrightarrow> Y \<subseteq> X \<Longrightarrow> calm Y E st st'"
  by (auto simp: calm_def cleaned_def)

lemma Validate_calm:
  assumes "osm_ok E" and "ValidateOsAccount E a st = (r, st')"
  shows "calm X E st st'"
proof -
  obtain r1 infos st1 where 1: "on_files (GetOsAccountList E) st = ((r1, infos), st1)" by (rule pair3)
  have "calm X E st st1" by (rule calm_on_files [OF 1]) (rule cleaned_files, rule AccountList_files [OF assms(1)])
  with assms(2) show ?thesis by (auto simp: ValidateOsAccount_def 1 split: if_splits)
qed

lemma Photo_cleaned:
  assumes "GetPhotoById E i p fs = (x, fs')"
  shows "cleaned X E fs fs'"
proof -
  obtain r s fs1 where 1: "GetFileContentByPath E (photo_path i p) [] fs = ((r, s), fs1)" by (rule pair3)
  have "fs_files fs1 = fs_files fs" using GetFileContentByPath_files [of E "photo_path i p" "[]" fs] by (simp add: 1)
  then have "cleaned X E fs fs1" by (rule cleaned_files)
  with assms show ?thesis by (auto simp: GetPhotoById_def 1 split: if_splits)
qed

lemma created_calm: "osm_ok E \<Longrightarrow> created_accounts E ids st = (x, st') \<Longrightarrow> calm X E st st'"
proof (induction ids arbitrary: st x)
  case (Cons i ids)
  obtain r a st1 where 1: "GetRealOsAccountInfoById E i st = ((r, a), st1)" by (rule pair3)
  obtain e p st2 where 2: "on_files (GetPhotoById E i (os_photo a)) st1 = ((e, p), st2)" by (rule pair3)
  have c1: "calm X E st st1" by (rule calm_real [OF Cons.prems(1) 1])
  have c2: "calm X E st st2" by (rule calm_trans [OF c1 calm_on_files [OF 2]]) (rule Photo_cleaned)
  show ?case
    using Cons.prems(2) Cons.IH [OF Cons.prems(1), of st1] Cons.IH [OF Cons.prems(1), of st2] c1 c2
    by (auto simp: 1 2 split: if_splits prod.splits intro: calm_trans)
qed simp

lemma TypeNumber_calm:
  assumes "osm_ok E" and "CheckTypeNumber E type st = (r, st')"
  shows "calm X E st st'"
proof -
  obtain r1 ids st1 where 1: "on_files (GetOsAccountIdList E) st = ((r1, ids), st1)" by (rule pair3)
  obtain infos st2 where 2: "created_accounts E ids st1 = (infos, st2)" by (metis prod.collapse)
  have c1: "calm X E st st1" by (rule calm_on_files [OF 1]) (rule IdList_cleaned)
  have c2: "calm X E st st2" by (rule calm_trans [OF c1 created_calm [OF assms(1) 2]])
  have "st' = st \<or> st' = st1 \<or> st' = st2"
    using assms(2) by (auto simp: CheckTypeNumber_def GetTypeNumber_def QueryAllCreatedOsAccounts_def 1 2 split: if_splits)
  with c1 c2 show ?thesis by auto
qed

lemma Count_calm:
  assumes "osm_ok E" and "CheckAndCleanOsAccounts E st = (ok, st')" and "no_false_absence E"
  shows "calm {} E st st'"
proof -
  have num: "calm {} E s s'" if "sa_created_num E ids s = (x, s')" for ids s x s'
    using that
  proof (induction ids arbitrary: s x)
    case (Cons i ids)
    obtain r a s1 where 1: "on_files (GetOsAccountInfoById E i OsAccountInfo_init) s = ((r, a), s1)" by (rule pair3)
    have "calm {} E s s1" by (rule calm_on_files [OF 1]) (rule GetById_cleaned [OF assms(1)])
    with Cons show ?case by (auto simp: 1 split: prod.splits intro: calm_trans)
  qed simp
  obtain r1 ids st1 where 1: "on_files (GetOsAccountIdList E) st = ((r1, ids), st1)" by (rule pair3)
  obtain k st2 where 2: "sa_created_num E ids st1 = (k, st2)" by (metis prod.collapse)
  obtain r3 n st3 where 3: "GetNonSACreatedOACount E 0 st = ((r3, n), st3)" by (rule pair3)
  obtain m st4 where 4: "CleanGarbageOsAccounts E (-1) st3 = (m, st4)" by (metis prod.collapse)
  have c1: "calm {} E st st1" by (rule calm_on_files [OF 1]) (rule IdList_cleaned)
  have c3: "calm {} E st st3"
    using 3 c1 calm_trans [OF c1 num [OF 2]] by (auto simp: GetNonSACreatedOACount_def 1 2 split: if_splits)
  have c4: "calm {} E st st4" by (rule calm_trans [OF c3 calm_clean [OF assms(1,3) _ 4]]) simp
  show ?thesis using assms(2) c3 c4 by (auto simp: CheckAndCleanOsAccounts_def 3 4 split: if_splits)
qed

section \<open>All or nothing\<close>

lemma preparing_refl: "accounts_listed n {} E (o_fs st) \<Longrightarrow> preparing n i E st st"
  by (simp add: preparing_def marker_def)

lemma mark_front: "CheckAndAddLocalIdOperating i st = (b, st') \<Longrightarrow> o_fs st' = o_fs st
    \<and> (if b then o_mem st' = marked i (o_mem st) else st' = st)"
  by (auto simp: CheckAndAddLocalIdOperating_def marked_def split: if_splits)

lemma same_front_marked: "same_front m m' \<Longrightarrow> marker i m (marked i m')"
  by (simp add: marker_def same_front_def marked_def)

lemma insert_prepared_spec:
  assumes "osm_ok E" and "new_record localName shortName type a" and "insert_prepared E type a st = (r, st')"
    and "usable_accounts E (o_fs st) (os_localId a) = None" and "accounts_listed n {} E (o_fs st)" and "n < 2 ^ 39"
  shows "preparing (Suc n) (os_localId a) E st st' \<and> (r = ERR_OK \<longrightarrow> accounts_listed (Suc n) {os_localId a} E (o_fs st'))"
proof -
  let ?i = "os_localId a" let ?n = "Suc n"
  obtain r1 st1 where 1: "ValidateOsAccount E a st = (r1, st1)" by (metis prod.collapse)
  obtain r2 st2 where 2: "CheckTypeNumber E type st1 = (r2, st2)" by (metis prod.collapse)
  obtain b st3 where 3: "CheckAndAddLocalIdOperating ?i st2 = (b, st3)" by (metis prod.collapse)
  obtain r4 st4 where 4: "on_files (InsertOsAccountInfo E a) st3 = (r4, st4)" by (metis prod.collapse)
  obtain r5 st5 where 5: "on_files (UpdateBaseOAConstraints E (to_string_int ?i) (os_constraints a) True) st4 = (r5, st5)" by (metis prod.collapse)
  have n: "n < 2 ^ 40" "?n < 2 ^ 40" using assms(6) by simp_all
  have a: "os_record_ok a" "\<not> usable a" "START_USER_ID \<le> ?i" using assms(2) by (simp_all add: new_record_def usable_def)
  have c1: "calm {} E st st1" by (rule Validate_calm [OF assms(1) 1])
  have c2: "calm {} E st st2" by (rule calm_trans [OF c1 TypeNumber_calm [OF assms(1) 2]])
  have "accounts_listed ?n {} E (o_fs st)" using assms(5) by (auto simp: accounts_listed_def)
  note p0 = preparing_refl [OF this, of ?i]
  have p1: "preparing ?n ?i E st st1" and p2: "preparing ?n ?i E st st2" using preparing_calm [OF p0 _ n(2)] c1 c2 by blast+
  have f3: "o_fs st3 = o_fs st2" and m3: "b \<Longrightarrow> o_mem st3 = marked ?i (o_mem st2)" using mark_front [OF 3] by (simp_all split: if_splits)
  have c2': "cleaned {} E (o_fs st) (o_fs st2)" "same_front (o_mem st) (o_mem st2)" using c2 by (simp_all add: calm_def)
  then have l2: "accounts_listed n {} E (o_fs st2)" using assms(5) n by (simp add: cleaned_def)
  have u2: "\<forall>b. stored_account E (o_fs st2) ?i = Some b \<longrightarrow> \<not> usable b" using assms(4) cleaned_view [OF c2'(1)] by (simp add: not_usable)
  obtain fs4 where fs4: "InsertOsAccountInfo E a (o_fs st2) = (r4, fs4)" "st4 = st3\<lparr>o_fs := fs4\<rparr>"
    using 4 f3 by (auto simp: on_files_def split: prod.splits)
  note ins = Insert_spec [OF assms(1) a fs4(1) u2 l2 n(1)]
  have v4: "usable_accounts E fs4 = usable_accounts E (o_fs st2)"
  proof (cases "r4 = ERR_OK")
    case True
    with ins stored_view [of E fs4 "o_fs st2" ?i a] a(2) u2 show ?thesis by (simp add: not_usable fun_upd_idem)
  qed (use ins in \<open>simp add: usable_accounts_def fun_eq_iff\<close>)
  have k4: "files_ok E (o_fs st2) \<longrightarrow> files_ok E fs4" using ins a(1) by (auto simp: files_ok_def split: if_splits)
  have p4: "preparing ?n ?i E st st4" if b
  proof -
    have "marker ?i (o_mem st) (o_mem st4)" using same_front_marked [OF c2'(2)] m3 [OF that] fs4(2) by simp
    then show ?thesis using p2 v4 k4 ins fs4(2) by (auto simp: preparing_def)
  qed
  have c5: "calm UNIV E st4 st5" by (rule calm_on_files [OF 5]) (rule base_constraints_cleaned)
  then have p5: "preparing ?n ?i E st st5" if b by (rule preparing_calm [OF p4 [OF that] calm_mono n(2)]) simp
  have l5: "accounts_listed ?n {?i} E (o_fs st5)" if "r4 = ERR_OK"
    using c5 ins that n(2) fs4(2) by (simp add: calm_def cleaned_def)
  have p3: "preparing ?n ?i E st st3" if "\<not> b" using mark_front [OF 3] that p2 by simp
  have eq: "(r, st') = (if r1 \<noteq> ERR_OK then (r1, st1)
      else if r2 = ERR_OSACCOUNT_SERVICE_CONTROL_MAX_TYPE_CAN_CREATE_ERROR then (ERR_OSACCOUNT_SERVICE_CONTROL_MAX_CAN_CREATE_ERROR, st2)
      else if r2 \<noteq> ERR_OK then (r2, st2) else if \<not> b then (ERR_OSACCOUNT_SERVICE_INNER_ACCOUNT_OPERATING_ERROR, st3)
      else if r4 \<noteq> ERR_OK then (r4, st4) else (r5, st5))"
    unfolding assms(3) [symmetric] insert_prepared_def 1 Let_def prod.case 2 3 4 5 by simp
  show ?thesis using eq p1 p2 p3 p4 p5 l5 by (auto split: if_splits)
qed

lemma PrepareInfo_spec:
  assumes "osm_ok E" and "no_false_absence E" and "c_strings E" and "names_ok localName (opt_shortName options) type"
    and "type \<noteq> TYPE_MAINTENANCE" and "accounts_listed n {} E (o_fs st)" and "n < 2 ^ 39"
    and "PrepareOsAccountInfo E localName type DomainAccountInfo_init a options st = Some ((r, a'), st')"
  shows "preparing (Suc n) (os_localId a') E st st'"
    and "r = ERR_OK \<Longrightarrow> new_record localName (opt_shortName options) type a' \<and> accounts_listed (Suc n) {os_localId a'} E (o_fs st')
      \<and> usable_accounts E (o_fs st') (os_localId a') = None"
proof -
  obtain r1 a1 st1 where 1: "FillOsAccountInfo E localName type DomainAccountInfo_init a options st = Some ((r1, a1), st1)"
    using assms(8) by (auto simp: PrepareOsAccountInfo_def split: option.splits)
  have n: "n < 2 ^ 40" "Suc n < 2 ^ 40" using assms(7) by simp_all
  note fill = Fill_spec [OF assms(1-4) 1]
  have c: "cleaned {} E (o_fs st) (o_fs st1)" using fill(1) by (simp add: calm_def)
  have l: "accounts_listed n {} E (o_fs st1)" using c assms(6) n by (simp add: cleaned_def)
  have "accounts_listed (Suc n) {} E (o_fs st)" using assms(6) by (auto simp: accounts_listed_def)
  note p1 = preparing_calm [OF preparing_refl [OF this] fill(1) n(2)]
  show "preparing (Suc n) (os_localId a') E st st'"
    and "r = ERR_OK \<Longrightarrow> new_record localName (opt_shortName options) type a' \<and> accounts_listed (Suc n) {os_localId a'} E (o_fs st')
      \<and> usable_accounts E (o_fs st') (os_localId a') = None"
  proof (atomize (full), cases "r1 = ERR_OK")
    case False
    then have "r = r1" "st' = st1" using assms(8) by (auto simp: PrepareOsAccountInfo_def 1)
    with False p1 show "preparing (Suc n) (os_localId a') E st st' \<and> (r = ERR_OK \<longrightarrow> new_record localName (opt_shortName options) type a'
        \<and> accounts_listed (Suc n) {os_localId a'} E (o_fs st') \<and> usable_accounts E (o_fs st') (os_localId a') = None)" by simp
  next
    case True
    then have ins: "insert_prepared E type a1 st1 = (r, st')" "a' = a1" using assms(8) by (auto simp: PrepareOsAccountInfo_def 1 split: prod.splits)
    have rec: "new_record localName (opt_shortName options) type a1" and u: "usable_accounts E (o_fs st1) (os_localId a1) = None"
      using fill(2) [OF True n(1) assms(6)] assms(5) by (simp_all add: not_usable)
    note i = insert_prepared_spec [OF assms(1) rec ins(1) u l assms(7)]
    have m: "same_front (o_mem st) (o_mem st1)" using fill(1) by (simp add: calm_def)
    then have "marker k (o_mem st) m'" if "marker k (o_mem st1) m'" for k m'
      using that by (auto simp: marker_def same_front_def marked_def)
    then have "preparing (Suc n) (os_localId a1) E st st'" using i cleaned_view [OF c] cleaned_files_ok [OF c] by (auto simp: preparing_def)
    with ins(2) rec i u show "preparing (Suc n) (os_localId a') E st st' \<and> (r = ERR_OK \<longrightarrow> new_record localName (opt_shortName options) type a'
        \<and> accounts_listed (Suc n) {os_localId a'} E (o_fs st') \<and> usable_accounts E (o_fs st') (os_localId a') = None)"
      by (auto simp: preparing_def)
  qed
qed

lemma ipc_loop_fs: "ipc_loop call n code st = (x, st') \<Longrightarrow> o_fs st' = o_fs st \<and> o_mem st' = o_mem st"
  by (induction n arbitrary: code st) (auto simp: ask_def Let_def split: if_splits)

lemma complete_loop_fs: "complete_loop E i n code st = (x, st') \<Longrightarrow> o_fs st' = o_fs st \<and> o_mem st' = o_mem st"
proof (induction n arbitrary: code st)
  case (Suc n)
  obtain e st1 where 1: "InnerSendToStorageAccountCreateComplete E i st = (e, st1)" by (metis prod.collapse)
  have "o_fs st1 = o_fs st" "o_mem st1 = o_mem st"
    using 1 by (auto simp: InnerSendToStorageAccountCreateComplete_def GetStorageProxy_def ask_def Let_def split: if_splits)
  with Suc 1 show ?case by (auto simp: Let_def split: if_splits)
qed simp

lemma calm_same: "o_fs st' = o_fs st \<Longrightarrow> o_mem st' = o_mem st \<Longrightarrow> calm X E st st'"
  by (simp add: calm_def)

text \<open>The storage manager may ask for room; the cleaning leaves out the account that is being created.\<close>

lemma storage_create_calm:
  assumes "osm_ok E" and "no_false_absence E" and "SendToStorageAccountCreate E a st = (r, st')"
  shows "calm {os_localId a} E st st'"
proof -
  let ?i = "os_localId a"
  have add: "calm {?i} E s s'" if "PrepareAddUser E ?i s = (e, s')" for s s' e
    using that by (auto simp: PrepareAddUser_def split: prod.splits intro: calm_ask)
  have inner: "calm {?i} E s s'" if "InnerSendToStorageAccountCreate E a s = (e, s')" for s s' e
  proof -
    obtain p s1 where 1: "GetStorageProxy E s = (p, s1)" by (metis prod.collapse)
    obtain e2 s2 where 2: "PrepareAddUser E ?i s1 = (e2, s2)" by (metis prod.collapse)
    obtain k s3 where 3: "CleanGarbageOsAccounts E ?i s2 = (k, s3)" by (metis prod.collapse)
    obtain e4 s4 where 4: "PrepareAddUser E ?i s3 = (e4, s4)" by (metis prod.collapse)
    have c1: "calm {?i} E s s1" using 1 by (auto simp: GetStorageProxy_def split: prod.splits intro: calm_ask)
    have c2: "calm {?i} E s s2" by (rule calm_trans [OF c1 add [OF 2]])
    have c3: "calm {?i} E s s3" by (rule calm_trans [OF c2 calm_clean [OF assms(1,2) _ 3]]) simp
    have c4: "calm {?i} E s s4" by (rule calm_trans [OF c3 add [OF 4]])
    have "s' = s1 \<or> s' = s2 \<or> s' = s3 \<or> s' = s4"
      using that by (auto simp: InnerSendToStorageAccountCreate_def 1 2 3 4 Let_def split: if_splits)
    with c1 c2 c3 c4 show ?thesis by auto
  qed
  have "calm {?i} E s s'" if "storage_create_loop E a n e s = (x, s')" for n e s x s'
    using that
  proof (induction n arbitrary: e s)
    case (Suc n)
    obtain e1 s1 where 1: "InnerSendToStorageAccountCreate E a s = (e1, s1)" by (metis prod.collapse)
    with Suc inner [OF 1] show ?case by (auto simp: Let_def split: if_splits intro: calm_trans)
  qed simp
  with assms(3) show ?thesis by (simp add: SendToStorageAccountCreate_def)
qed

lemma Rollback_calm:
  assumes "osm_ok E" and "usable_accounts E (o_fs st) (os_localId a) = None"
  shows "calm {} E st (RollbackOsAccount E a delStorage delBms st)"
proof -
  have del: "calm {} E s (snd (on_files (DelOsAccount E (os_localId a)) s))" if "o_fs s = o_fs st" "o_mem s = o_mem st" for s
  proof -
    obtain x fs' where x: "DelOsAccount E (os_localId a) (o_fs s) = (x, fs')" by (metis prod.collapse)
    have "cleaned {} E (o_fs s) fs'" using DelOsAccount_cleaned [OF assms(1) x] assms(2) that(1) by (simp add: not_usable)
    then show ?thesis by (simp add: on_files_def x calm_def)
  qed
  obtain r1 st1 where 1: "(if delBms then SendToBMSAccountDelete E a st else (ERR_OK, st)) = (r1, st1)" by (metis prod.collapse)
  obtain r2 st2 where 2: "(if delStorage then SendToStorageAccountRemove E a st1 else (ERR_OK, st1)) = (r2, st2)" by (metis prod.collapse)
  have f1: "o_fs st1 = o_fs st" "o_mem st1 = o_mem st" using 1 by (auto simp: SendToBMSAccountDelete_def ask_def split: if_splits)
  have "o_fs st2 = o_fs st1 \<and> o_mem st2 = o_mem st1" using 2 by (cases delStorage) (auto dest: storage_remove_fs)
  then have f2: "o_fs st2 = o_fs st" "o_mem st2 = o_mem st" using f1 by simp_all
  have c2: "calm {} E st (snd (on_files (DelOsAccount E (os_localId a)) st2))"
    by (rule calm_trans [OF calm_same [OF f2] del [OF f2]])
  show ?thesis
    using del [OF refl refl] calm_same [OF f1, of "{}" E] calm_same [OF f2, of "{}" E] c2
    unfolding RollbackOsAccount_def 1 Let_def prod.case 2 by simp
qed

lemma Update_write:
  assumes "osm_ok E" and "os_record_ok a" and "UpdateOsAccountInfo E a fs = (r, fs')"
  shows "stored_account E fs' = (if r = ERR_OK then (stored_account E fs)(os_localId a \<mapsto> a) else stored_account E fs)
    \<and> file_json E list_path fs' = file_json E list_path fs"
proof -
  let ?p = "account_path (to_string_int (os_localId a))"
  obtain ex fs1 where 1: "IsExistFile E ?p fs = (ex, fs1)" by (metis prod.collapse)
  obtain r2 fs2 where 2: "InputFileByPathAndContent E ?p (OsAccountInfo_ToString E a) fs1 = (r2, fs2)" by (metis prod.collapse)
  have f: "fs_files fs1 = fs_files fs" using IsExistFile_files [of E ?p fs] by (simp add: 1)
  have s: "stored_account E fs1 = stored_account E fs" by (rule stored_account_files [OF f])
  have l: "file_json E list_path fs1 = file_json E list_path fs" using f by (simp add: file_json_def)
  have "(r, fs') = (if \<not> ex then (ERR_OSACCOUNT_SERVICE_CONTROL_UPDATE_FILE_NOT_EXISTS_ERROR, fs1)
      else if OsAccountInfo_ToString E a = [] then (ERR_OSACCOUNT_SERVICE_ACCOUNT_INFO_EMPTY_ERROR, fs1) else (r2, fs2))"
    unfolding assms(3) [symmetric] UpdateOsAccountInfo_def UpdateOsAccount_def Let_def 1 prod.case 2 by simp
  with account_write [OF assms(1,2) 2] s l show ?thesis by (auto split: if_splits)
qed

text \<open>What a creation makes of the usable accounts.\<close>

definition creation_effect ::
  "'z osm_env_scheme \<Rightarrow> string \<Rightarrow> string \<Rightarrow> int \<Rightarrow> ErrCode \<Rightarrow> OsAccountInfo \<Rightarrow> fs_state \<Rightarrow> fs_state \<Rightarrow> bool" where
  "creation_effect E localName shortName type r a fs fs' \<longleftrightarrow>
     (if r = ERR_OK
      then usable a \<and> os_localName a = localName \<and> os_shortName a = shortName \<and> os_type a = type
        \<and> START_USER_ID \<le> os_localId a \<and> os_localId a \<le> MAX_CREATABLE_USER_ID
        \<and> usable_accounts E fs (os_localId a) = None
        \<and> usable_accounts E fs' = (usable_accounts E fs)(os_localId a \<mapsto> a)
      else usable_accounts E fs' = usable_accounts E fs)"

lemma effect_from:
  "usable_accounts E fs1 = usable_accounts E fs \<Longrightarrow> creation_effect E localName shortName type r a fs1 fs'
    \<Longrightarrow> creation_effect E localName shortName type r a fs fs'"
  by (cases "r = ERR_OK") (simp_all add: creation_effect_def)

lemma Finalize_spec:
  assumes "osm_ok E" and "new_record localName shortName type a" and "type \<noteq> TYPE_MAINTENANCE"
    and "usable_accounts E (o_fs st) (os_localId a) = None" and "accounts_listed n {os_localId a} E (o_fs st)" and "n < 2 ^ 40"
    and "FinalizeAccountCreate E a st = ((r, a'), st')"
  shows "os_localId a' = os_localId a \<and> creation_effect E localName shortName type r a' (o_fs st) (o_fs st')
    \<and> accounts_listed n {} E (o_fs st') \<and> (files_ok E (o_fs st) \<longrightarrow> files_ok E (o_fs st')) \<and> same_front (o_mem st) (o_mem st')"
proof -
  let ?a = "a\<lparr>os_isCreateCompleted := True\<rparr>" let ?i = "os_localId a"
  obtain r1 fs1 where 1: "UpdateOsAccountInfo E ?a (o_fs st) = (r1, fs1)" by (metis prod.collapse)
  define st1 where "st1 = st\<lparr>o_fs := fs1\<rparr>"
  have on: "on_files (UpdateOsAccountInfo E ?a) st = (r1, st1)" by (simp add: on_files_def 1 st1_def)
  obtain x st2 where 2: "SendToStorageAccountCreateComplete E ?i st1 = (x, st2)" by (metis prod.collapse)
  have f2: "o_fs st2 = fs1" "o_mem st2 = o_mem st" 
    using complete_loop_fs [OF 2 [unfolded SendToStorageAccountCreateComplete_def]] by (simp_all add: st1_def)
  have "os_record_ok a" using assms(2) by (simp add: new_record_def)
  then have rec: "os_record_ok ?a" by (simp add: os_record_ok_def)
  have a: "os_record_ok ?a" "usable ?a" "START_USER_ID \<le> ?i" "?i \<le> MAX_CREATABLE_USER_ID" "os_localName ?a = localName"
    "os_shortName ?a = shortName" "os_type ?a = type" "os_localId ?a = ?i"
    using assms(2,3) rec by (simp_all add: new_record_def usable_def)
  note w = Update_write [OF assms(1) a(1) 1, unfolded a(8)]
  have l0: "accounts_listed n {} E (o_fs st)" using assms(5) by (auto simp: accounts_listed_def)
  show ?thesis
  proof (cases "r1 = ERR_OK")
    case True
    then have e: "r = ERR_OK" "a' = ?a" "o_fs st' = fs1" "o_mem st' = o_mem st"
      using assms(7) f2 unfolding FinalizeAccountCreate_def Let_def on prod.case a(8) 2
      by (auto simp: OsAccountCreateOnComplete_def publish_def)
    have s: "stored_account E fs1 = (stored_account E (o_fs st))(?i \<mapsto> ?a)" using w True by simp
    then have "creation_effect E localName shortName type r a' (o_fs st) (o_fs st')"
      using e a assms(4) stored_view [OF s] by (simp add: creation_effect_def)
    moreover have "accounts_listed n {} E fs1" using assms(5) w True by (auto simp: accounts_listed_def)
    moreover have "files_ok E (o_fs st) \<longrightarrow> files_ok E fs1" using s a by (auto simp: files_ok_def)
    ultimately show ?thesis using e a by simp
  next
    case False
    then have s: "stored_account E fs1 = stored_account E (o_fs st)" using w by simp
    have c1: "calm {} E st st1" using cleaned_kept [OF s, of "{}"] w by (simp add: calm_def st1_def)
    have "usable_accounts E (o_fs st1) (os_localId ?a) = None" using assms(4) s by (simp add: st1_def usable_accounts_def)
    note c = calm_trans [OF c1 Rollback_calm [OF assms(1) this]]
    have e: "r \<noteq> ERR_OK" "a' = ?a" "st' = RollbackOsAccount E ?a True True st1"
      using assms(7) False unfolding FinalizeAccountCreate_def Let_def on prod.case by auto
    with c have cl: "cleaned {} E (o_fs st) (o_fs st')" "same_front (o_mem st) (o_mem st')" by (simp_all add: calm_def)
    then have "accounts_listed n {} E (o_fs st')" using l0 assms(6) by (simp add: cleaned_def)
    then show ?thesis using e cl cleaned_view [OF cl(1)] cleaned_files_ok [OF cl(1)] by (simp add: creation_effect_def)
  qed
qed

lemma SendMsg_spec:
  assumes "osm_ok E" and "no_false_absence E" and "new_record localName shortName type a" and "type \<noteq> TYPE_MAINTENANCE"
    and "usable_accounts E (o_fs st) (os_localId a) = None" and "accounts_listed n {os_localId a} E (o_fs st)" and "n < 2 ^ 40"
    and "SendMsgForAccountCreate E a options st = ((r, a'), st')"
  shows "os_localId a' = os_localId a \<and> creation_effect E localName shortName type r a' (o_fs st) (o_fs st')
    \<and> accounts_listed n {} E (o_fs st') \<and> (files_ok E (o_fs st) \<longrightarrow> files_ok E (o_fs st')) \<and> same_front (o_mem st) (o_mem st')"
proof -
  let ?i = "os_localId a"
  obtain r1 st1 where 1: "SendToStorageAccountCreate E a st = (r1, st1)" by (metis prod.collapse)
  obtain r2 st2 where 2: "SendToBMSAccountCreate E a (disallowedHapList options) (allowedHapList options) st1 = (r2, st2)" by (metis prod.collapse)
  have hap: "CheckHighestHapInstallForCreate E a st2 = (ERR_OK, st2)"
    using assms(3,4) by (simp add: CheckHighestHapInstallForCreate_def new_record_def MAINTENANCE_MODE_ID_def MAX_CREATABLE_USER_ID_def)
  have c1: "calm {?i} E st st1" by (rule storage_create_calm [OF assms(1,2) 1])
  have c2: "calm {?i} E st st2"
    using ipc_loop_fs [OF 2 [unfolded SendToBMSAccountCreate_def]] by (intro calm_trans [OF c1 calm_same]) simp_all
  have view: "usable_accounts E (o_fs s) = usable_accounts E (o_fs st)" "accounts_listed n {?i} E (o_fs s)"
    "files_ok E (o_fs st) \<longrightarrow> files_ok E (o_fs s)" "same_front (o_mem st) (o_mem s)" if "calm {?i} E st s" for s
    using that assms(6,7) cleaned_view [of "{?i}" E "o_fs st" "o_fs s"] cleaned_files_ok [of "{?i}" E "o_fs st" "o_fs s"]
    by (auto simp: calm_def cleaned_def)
  have undone: ?thesis if s: "calm {?i} E st s" and "r \<noteq> ERR_OK" "a' = a" "st' = RollbackOsAccount E a x y s" for s x y
  proof -
    have s0: "calm {} E st s" by (rule calm_mono [OF s]) simp
    have "calm {} E s st'" using Rollback_calm [OF assms(1), of s a x y] view(1) [OF s] assms(5) that(4) by simp
    from calm_trans [OF s0 this] have c: "calm {} E st st'" .
    then have cl: "cleaned {} E (o_fs st) (o_fs st')" "same_front (o_mem st) (o_mem st')" by (simp_all add: calm_def)
    have "accounts_listed n {} E (o_fs st)" using assms(6) by (auto simp: accounts_listed_def)
    then have "accounts_listed n {} E (o_fs st')" using cl(1) assms(7) by (simp add: cleaned_def)
    with that cl cleaned_view [OF cl(1)] cleaned_files_ok [OF cl(1)] show ?thesis by (simp add: creation_effect_def)
  qed
  consider (storage) "r1 \<noteq> ERR_OK" | (bms) "r1 = ERR_OK" "r2 \<noteq> ERR_OK" | (final) "r1 = ERR_OK" "r2 = ERR_OK" by blast
  then show ?thesis
  proof cases
    case storage
    with assms(8) show ?thesis by (intro undone [OF c1]) (auto simp: SendMsgForAccountCreate_def 1)
  next
    case bms
    with assms(8) show ?thesis by (intro undone [OF c2]) (auto simp: SendMsgForAccountCreate_def 1 2)
  next
    case final
    then have f: "FinalizeAccountCreate E a st2 = ((r, a'), st')" using assms(8) by (simp add: SendMsgForAccountCreate_def 1 2 hap)
    have "usable_accounts E (o_fs st2) ?i = None" using view(1) [OF c2] assms(5) by simp
    from Finalize_spec [OF assms(1,3,4) this view(2) [OF c2] assms(7) f] effect_from [OF view(1) [OF c2]] view(3,4) [OF c2]
    show ?thesis using same_front_trans [of "o_mem st" "o_mem st2"] by simp
  qed
qed

lemma unmark_front:
  assumes "marker i m m'" and "operatingId m = []"
  shows "same_front m (m'\<lparr>operatingId := remove1 i (operatingId m')\<rparr>)"
  using assms by (auto simp: marker_def same_front_def marked_def)

lemma create_account_spec:
  assumes "osm_ok E" and "no_false_absence E" and "c_strings E" and "names_ok localName (opt_shortName options) type"
    and "type \<noteq> TYPE_MAINTENANCE" and "accounts_listed n {} E (o_fs st)" and "n < 2 ^ 39" and "operatingId (o_mem st) = []"
    and "create_account E localName type a options opts st = Some ((r, a'), st')"
  shows "creation_effect E localName (opt_shortName options) type r a' (o_fs st) (o_fs st') \<and> accounts_listed (Suc n) {} E (o_fs st')
    \<and> (files_ok E (o_fs st) \<longrightarrow> files_ok E (o_fs st')) \<and> same_front (o_mem st) (o_mem st')"
proof -
  have n: "n < 2 ^ 40" "Suc n < 2 ^ 40" using assms(7) by simp_all
  obtain ok st1 where 1: "(if CheckSaCall E then (True, st) else CheckAndCleanOsAccounts E st) = (ok, st1)" by (metis prod.collapse)
  have c1: "calm {} E st st1" using 1 Count_calm [OF assms(1) _ assms(2)] by (auto split: if_splits)
  then have cl: "cleaned {} E (o_fs st) (o_fs st1)" "same_front (o_mem st) (o_mem st1)" by (simp_all add: calm_def)
  have l1: "accounts_listed n {} E (o_fs st1)" using cl(1) assms(6) n by (simp add: cleaned_def)
  have l1': "accounts_listed (Suc n) {} E (o_fs st1)" using l1 by (auto simp: accounts_listed_def)
  have o1: "operatingId (o_mem st1) = []" using cl(2) assms(8) by (simp add: same_front_def)
  have view: "usable_accounts E (o_fs st1) = usable_accounts E (o_fs st)" "files_ok E (o_fs st) \<longrightarrow> files_ok E (o_fs st1)"
    using cleaned_view [OF cl(1)] cleaned_files_ok [OF cl(1)] by auto
  show ?thesis
  proof (cases ok)
    case False
    then have "r \<noteq> ERR_OK" "st' = st1" using assms(9) unfolding create_account_def 1 by auto
    with l1' view cl(2) show ?thesis by (simp add: creation_effect_def)
  next
    case True
    then obtain r2 a2 st2 where 2: "PrepareOsAccountInfo E localName type DomainAccountInfo_init a options st1 = Some ((r2, a2), st2)"
      using assms(9) unfolding create_account_def 1 by (auto split: option.splits)
    note prep = PrepareInfo_spec [OF assms(1-5) l1 assms(7) 2]
    have p: "usable_accounts E (o_fs st2) = usable_accounts E (o_fs st)" "accounts_listed (Suc n) {} E (o_fs st2)"
      "files_ok E (o_fs st) \<longrightarrow> files_ok E (o_fs st2)" "marker (os_localId a2) (o_mem st1) (o_mem st2)"
      using prep(1) view by (auto simp: preparing_def)
    have unmark: "same_front (o_mem st) (o_mem (RemoveLocalIdToOperating (os_localId a2) s))" if "same_front (o_mem st2) (o_mem s)" for s
      using same_front_trans [OF cl(2) unmark_front [OF marker_trans [OF p(4) that] o1]] by (simp add: RemoveLocalIdToOperating_def upd_mem_def)
    have fs: "o_fs (RemoveLocalIdToOperating i s) = o_fs s" for i s by (simp add: RemoveLocalIdToOperating_def upd_mem_def)
    show ?thesis
    proof (cases "r2 = ERR_OK")
      case False
      then have "r \<noteq> ERR_OK" "st' = RemoveLocalIdToOperating (os_localId a2) st2"
        using assms(9) True unfolding create_account_def 1 by (auto simp: 2)
      with p unmark [OF same_front_refl] show ?thesis by (simp add: creation_effect_def fs)
    next
      case ok2: True
      obtain r3 a3 st3 where 3: "SendMsgForAccountCreate E a2 opts st2 = ((r3, a3), st3)" by (rule pair3)
      have e: "r = r3" "a' = a3" "st' = RemoveLocalIdToOperating (os_localId a3) st3"
        using assms(9) True ok2 unfolding create_account_def 1 by (auto simp: 2 3)
      note rec = prep(2) [OF ok2]
      then have "new_record localName (opt_shortName options) type a2" "usable_accounts E (o_fs st2) (os_localId a2) = None"
        "accounts_listed (Suc n) {os_localId a2} E (o_fs st2)" by blast+
      note send = SendMsg_spec [OF assms(1,2) this(1) assms(5) this(2,3) n(2) 3]
      have "os_localId a3 = os_localId a2" using send by blast
      then show ?thesis using send effect_from [OF p(1)] p(3) unmark [of st3] unfolding e by (simp add: fs)
    qed
  qed
qed

section \<open>A creation returns\<close>

lemma serial_loop_returns:
  assumes "int (length infos) < CARRY_NUM - 1"
  shows "serial_loop infos s \<noteq> None"
proof -
  have up: "serial_loop infos s \<noteq> None" if "1 \<le> s" for s
  proof (cases "s < CARRY_NUM")
    case True
    with that free_serial [OF assms] serial_loop_finds show ?thesis by blast
  next
    case False
    then show ?thesis by (simp add: serial_loop.simps [of infos s])
  qed
  show ?thesis
  proof (induction "nat (1 - s)" arbitrary: s rule: less_induct)
    case less
    show ?case
    proof (cases "1 \<le> s")
      case True
      then show ?thesis by (rule up)
    next
      case False
      then have "s < CARRY_NUM" "s + 1 \<noteq> CARRY_NUM" "nat (1 - (s + 1)) < nat (1 - s)" by (simp_all add: CARRY_NUM_def)
      with less [of "s + 1"] show ?thesis by (simp add: serial_loop.simps [of infos s])
    qed
  qed
qed

lemma account_infos_length: "account_infos E ids fs = (infos, fs') \<Longrightarrow> length infos \<le> length ids"
proof (induction ids arbitrary: infos fs fs')
  case (Cons s ids)
  show ?case
  proof (cases "StrToInt E s")
    case None
    with Cons.IH [of fs infos fs'] Cons.prems show ?thesis by simp
  next
    case (Some i)
    obtain r a fs1 where 1: "GetOsAccountInfoById E i OsAccountInfo_init fs = ((r, a), fs1)" by (rule pair3)
    obtain rest fs2 where 2: "account_infos E ids fs1 = (rest, fs2)" by (metis prod.collapse)
    with Cons.IH [OF 2] Cons.prems Some 1 show ?thesis by (auto split: if_splits)
  qed
qed simp

lemma AccountList_length:
  assumes "osm_ok E" and "GetOsAccountList E fs = ((r, infos), fs')" and "accounts_listed n Y E fs"
  shows "length infos \<le> n"
proof -
  have E: "\<not> DISTRIBUTED E" using assms(1) by (simp add: osm_ok_def)
  obtain r1 j fs1 where 1: "GetAccountListFromFile E fs = ((r1, j), fs1)" by (rule pair3)
  obtain rest fs2 where 2: "account_infos E (snd (GetVectorStringFromJson j ACCOUNT_LIST [])) fs1 = (rest, fs2)" by (metis prod.collapse)
  show ?thesis
  proof (cases "r1 = ERR_OK")
    case True
    then obtain k where k: "j = Some k" "file_json E list_path fs1 = Some k" using list_read(2) [OF assms(1) 1] by blast
    then have "file_json E list_path fs = Some k" using GetAccountList_frame [OF 1] by (simp add: file_json_def)
    then have "length (strs k ACCOUNT_LIST) \<le> n" using assms(3) by (simp add: accounts_listed_def)
    moreover have "snd (GetVectorStringFromJson j ACCOUNT_LIST []) = strs k ACCOUNT_LIST" using k(1) GetVector_strs [of ACCOUNT_LIST k] by simp
    moreover have "infos = rest" using assms(2) True by (simp add: GetOsAccountList_def 1 2)
    ultimately show ?thesis using account_infos_length [OF 2] by simp
  next
    case False
    with assms(2) E show ?thesis by (simp add: GetOsAccountList_def 1)
  qed
qed

lemma GetSerialNumber_returns:
  assumes "osm_ok E" and "accounts_listed n {} E fs" and "int n < CARRY_NUM - 1"
  shows "GetSerialNumber E s fs \<noteq> None"
proof -
  obtain r1 x fs1 where 1: "GetAccountListFromFile E fs = ((r1, x), fs1)" by (rule pair3 [of "GetAccountListFromFile E fs"])
  note read = list_read [OF assms(1) 1]
  have l: "accounts_listed n {} E fs1" using read(1) [of "{}"] assms(2,3) by (simp add: cleaned_def CARRY_NUM_def)
  have loop: "serial_loop (map os_serialNumber infos) k \<noteq> None" if "GetOsAccountList E fs1 = ((r, infos), fs2)" for r infos fs2 k
    using AccountList_length [OF assms(1) that l] assms(3) by (intro serial_loop_returns) simp
  show ?thesis
  proof (cases "r1 = ERR_OK")
    case False
    then show ?thesis by (simp add: GetSerialNumber_def 1)
  next
    case True
    then obtain j where j: "x = Some j" using read(2) by blast
    show ?thesis
      by (rule GetSerialNumber_unfold [OF 1 [unfolded True j], of s])
        (use loop in \<open>auto split: if_splits option.splits prod.splits\<close>)
  qed
qed

lemma create_account_returns:
  assumes "osm_ok E" and "no_false_absence E" and "accounts_listed n {} E (o_fs st)" and "int n < CARRY_NUM - 1"
  shows "create_account E localName type a options opts st \<noteq> None"
proof -
  obtain ok st1 where 1: "(if CheckSaCall E then (True, st) else CheckAndCleanOsAccounts E st) = (ok, st1)" by (metis prod.collapse)
  have "calm {} E st st1" using 1 Count_calm [OF assms(1) _ assms(2)] by (auto split: if_splits)
  then have "accounts_listed n {} E (o_fs st1)" using assms(3,4) by (simp add: calm_def cleaned_def CARRY_NUM_def)
  from GetSerialNumber_returns [OF assms(1) this assms(4)] obtain x fs where "GetSerialNumber E (stack_serial E) (o_fs st1) = Some (x, fs)" by fastforce
  then have "FillOsAccountInfo E localName type DomainAccountInfo_init a options st1 \<noteq> None"
    by (cases x) (simp add: FillOsAccountInfo_def Let_def split: prod.splits)
  then have "PrepareOsAccountInfo E localName type DomainAccountInfo_init a options st1 \<noteq> None"
    by (auto simp: PrepareOsAccountInfo_def split: prod.splits)
  then show ?thesis unfolding create_account_def 1 by (auto split: prod.splits)
qed

end
