(* ===== verification/Os_Account_Runs.thy ===== *)
theory Os_Account_Runs
  imports Os_Account_Removal Service_Runs
begin

text \<open>
  The manager of OS accounts as a service: its requests as steps, the invariant that every request keeps, and what holds at
  any time of a run that starts with an empty memory. The other services answer as they like within \<open>osm_ok\<close>.
\<close>

section \<open>Runs of the manager\<close>

datatype os_request =
    Activate int bool u64 bool
  | Deactivate int bool
  | SetVerified int bool
  | SetLoggedIn int bool
  | Lock int
  | SetToBeRemoved int bool
  | SetDefault u64 int
  | Remove int
  | CleanGarbage int

fun run_request :: "'z osm_env_scheme \<Rightarrow> os_request \<Rightarrow> osm_state \<Rightarrow> ErrCode \<times> osm_state" where
  "run_request E (Activate i s d rec) st = ActivateOsAccount E i s d rec st"
| "run_request E (Deactivate i s) st = DeactivateOsAccount E i s st"
| "run_request E (SetVerified i v) st = SetOsAccountIsVerified E i v st"
| "run_request E (SetLoggedIn i l) st = SetOsAccountIsLoggedIn E i l st"
| "run_request E (Lock i) st = LockOsAccount E i st"
| "run_request E (SetToBeRemoved i b) st = SetOsAccountToBeRemoved E i b st"
| "run_request E (SetDefault d i) st = SetDefaultActivated E d i st"
| "run_request E (Remove i) st = RemoveOsAccount E i st"
| "run_request E (CleanGarbage x) st = (ERR_OK, snd (CleanGarbageOsAccounts E x st))"

text \<open>In the build with one active account an activation names a display.\<close>

fun request_ok :: "'z osm_env_scheme \<Rightarrow> os_request \<Rightarrow> bool" where
  "request_ok E (Activate i s d rec) = (MULTIPLE_ACTIVE E \<or> d \<noteq> INVALID_DISPLAY_ID)"
| "request_ok E _ = True"

definition manager_step :: "'z osm_env_scheme \<Rightarrow> osm_state \<Rightarrow> os_request \<Rightarrow> ErrCode \<Rightarrow> osm_state \<Rightarrow> bool" where
  "manager_step E st q r st' \<longleftrightarrow> request_ok E q \<and> run_request E q st = (r, st')"

definition manager_inv :: "'z osm_env_scheme \<Rightarrow> osm_state \<Rightarrow> bool" where
  "manager_inv E st \<longleftrightarrow> mem_inv E (o_mem st) \<and> operatingId (o_mem st) = [] \<and> deactivatingAccounts (o_mem st) = []
     \<and> lockingAccounts (o_mem st) = [] \<and> files_ok E (o_fs st)"

definition fresh_manager :: "'z osm_env_scheme \<Rightarrow> osm_state \<Rightarrow> bool" where
  "fresh_manager E st \<longleftrightarrow> activeAccountId (o_mem st) = [] \<and> foregroundAccountMap (o_mem st) = [] \<and> operatingId (o_mem st) = []
     \<and> deactivatingAccounts (o_mem st) = [] \<and> lockingAccounts (o_mem st) = [] \<and> files_ok E (o_fs st)"

lemma fresh_inv: "fresh_manager E st \<Longrightarrow> manager_inv E st"
  by (simp add: fresh_manager_def manager_inv_def fg_inv_def)

lemma kept_manager_inv: "manager_inv E st \<Longrightarrow> front_kept E st st' \<Longrightarrow> manager_inv E st'"
  by (simp add: manager_inv_def front_kept_def same_front_def)

lemma steady_manager_inv: "manager_inv E st \<Longrightarrow> steady E st st' \<Longrightarrow> manager_inv E st'"
  by (simp add: manager_inv_def steady_def)

lemma activate_manager_inv:
  assumes "osm_ok E" and "manager_inv E st" and "request_ok E (Activate i s d rec)" and "ActivateOsAccount E i s d rec st = (r, st')"
  shows "manager_inv E st'"
proof -
  have "mem_inv E (o_mem st)" "deactivatingAccounts (o_mem st) = []" "files_ok E (o_fs st)"
    using assms(2) by (simp_all add: manager_inv_def)
  note spec = Activate_spec [OF assms(1) this(3,1,2) _ assms(4)] and front = activated_front [OF assms(1) this(1), of d i "o_mem st'"]
  show ?thesis
  proof (cases "r = ERR_OK")
    case True
    with spec front assms(2,3) show ?thesis by (simp add: manager_inv_def)
  next
    case False
    with spec assms(3) have "front_kept E st st'" by (simp add: front_kept_def)
    with assms(2) show ?thesis by (rule kept_manager_inv)
  qed
qed

lemma deactivate_manager_inv:
  assumes "osm_ok E" and "manager_inv E st" and "DeactivateOsAccount E i s st = (r, st')"
  shows "manager_inv E st'"
proof -
  have "files_ok E (o_fs st)" "mem_inv E (o_mem st)" "deactivatingAccounts (o_mem st) = []"
    using assms(2) by (simp_all add: manager_inv_def)
  from Deactivate_spec [OF assms(1) this assms(3)] stopped_inv [OF this(2), of i] without_fg_inv(1) [OF this(2), of i]
  show ?thesis using assms(2) unfolding manager_inv_def by auto
qed

lemma request_manager_inv:
  assumes "osm_ok E" and "manager_inv E st" and "request_ok E q" and "run_request E q st = (r, st')"
  shows "manager_inv E st'"
proof -
  have "files_ok E (o_fs st)" "lockingAccounts (o_mem st) = []" using assms(2) by (simp_all add: manager_inv_def)
  note kept = SetVerified_kept [OF assms(1)] SetLoggedIn_kept [OF assms(1) this(1)] Lock_kept [OF assms(1) this(2)]
    ToBeRemoved_kept [OF assms(1) this(1)] SetDefault_kept [OF assms(1)]
  show ?thesis
  proof (cases q)
    case (Activate i s d rec)
    then show ?thesis using activate_manager_inv [OF assms(1,2)] assms(3,4) by (simp only: run_request.simps)
  next
    case (Deactivate i s)
    then show ?thesis using deactivate_manager_inv [OF assms(1,2)] assms(4) by simp
  next
    case (Remove i)
    then show ?thesis using steady_manager_inv [OF assms(2)] Remove_spec [OF assms(1)] assms(2,4) by (auto simp: manager_inv_def)
  next
    case (CleanGarbage x)
    then show ?thesis using steady_manager_inv [OF assms(2)] Clean_steady [OF assms(1)] assms(4) by (metis prod.collapse run_request.simps(9) snd_conv)
  qed (use assms(4) kept_manager_inv [OF assms(2)] kept in \<open>auto\<close>)
qed

interpretation os_manager: service_invariant "manager_step E" "\<lambda>st. osm_ok E \<and> manager_inv E st" for E :: "'z osm_env_scheme"
  by unfold_locales (auto simp: manager_step_def intro: request_manager_inv)

section \<open>Properties\<close>



text \<open>C9 (error). While an account is in front of a display, no other account takes its place unless it is stored,
  completely created and not about to be removed: for an incomplete account, one marked for removal and one whose file cannot
  be read the activation reports an error.\<close>

theorem only_valid_accounts_take_over:
  assumes "osm_ok E" and "fresh_manager E st0" and "service_run (manager_step E) st0 h st"
    and "MULTIPLE_ACTIVE E \<or> d \<noteq> INVALID_DISPLAY_ID" and "map_of (foregroundAccountMap (o_mem st)) d = Some j" and "j \<noteq> i"
    and "\<forall>a. stored_account E (o_fs st) i = Some a \<longrightarrow> \<not> os_isCreateCompleted a \<or> os_toBeRemoved a"
  shows "fst (ActivateOsAccount E i s d rec st) \<noteq> ERR_OK"
proof
  assume ok: "fst (ActivateOsAccount E i s d rec st) = ERR_OK"
  obtain st' where a: "ActivateOsAccount E i s d rec st = (ERR_OK, st')" using ok by (metis prod.collapse)
  have "manager_inv E st" using os_manager.run_inv [OF assms(3)] assms(1) fresh_inv [OF assms(2)] by blast
  then have "files_ok E (o_fs st)" "mem_inv E (o_mem st)" "deactivatingAccounts (o_mem st) = []" by (simp_all add: manager_inv_def)
  from Activate_spec [OF assms(1) this assms(4) a] assms(5,6,7) show False by (auto simp: may_begin_def)
qed

text \<open>C10 (safety). A deactivation that reports success leaves the account inactive, in front of no display and not verified; a
  deactivation, whatever it reports, changes nothing of any other account: not whether it is active, in front, verified or
  logged in, nor its stored record.\<close>

theorem deactivation_affects_one_account:
  assumes "osm_ok E" and "fresh_manager E st0" and "service_run (manager_step E) st0 h st"
    and "DeactivateOsAccount E i s st = (r, st')"
  shows "(r = ERR_OK \<longrightarrow> i \<notin> set (activeAccountId (o_mem st')) \<and> (\<forall>d. map_of (foregroundAccountMap (o_mem st')) d \<noteq> Some i)
      \<and> map_of (verifiedAccounts (o_mem st')) i \<noteq> Some True)
    \<and> (\<forall>j. j \<noteq> i \<longrightarrow> (j \<in> set (activeAccountId (o_mem st')) \<longleftrightarrow> j \<in> set (activeAccountId (o_mem st)))
        \<and> (\<forall>d. map_of (foregroundAccountMap (o_mem st')) d = Some j \<longleftrightarrow> map_of (foregroundAccountMap (o_mem st)) d = Some j)
        \<and> map_of (verifiedAccounts (o_mem st')) j = map_of (verifiedAccounts (o_mem st)) j
        \<and> map_of (loggedInAccounts (o_mem st')) j = map_of (loggedInAccounts (o_mem st)) j
        \<and> stored_account E (o_fs st') j = stored_account E (o_fs st) j)"
proof -
  have "manager_inv E st" using os_manager.run_inv [OF assms(3)] assms(1) fresh_inv [OF assms(2)] by blast
  then have inv: "files_ok E (o_fs st)" "mem_inv E (o_mem st)" "deactivatingAccounts (o_mem st) = []" by (simp_all add: manager_inv_def)
  have wf: "distinct (map fst (foregroundAccountMap (o_mem st)))" using inv(2) by (simp add: fg_inv_def sm_wf_distinct)
  have fg: "map_of (foregroundAccountMap (o_mem st)) d = Some i \<Longrightarrow> i \<in> set (activeAccountId (o_mem st))" for d
    using inv(2) unfolding fg_inv_def by blast
  from Deactivate_spec [OF assms(1) inv assms(4)]
  consider "o_mem st' = stopped i (o_mem st)" | "r \<noteq> ERR_OK" "o_mem st' = without_fg i (o_mem st)"
    | "o_mem st' = o_mem st" "r = ERR_OK \<longrightarrow> i \<notin> set (activeAccountId (o_mem st)) \<and> map_of (verifiedAccounts (o_mem st)) i \<noteq> Some True"
    by blast
  then show ?thesis
    using Deactivate_spec [OF assms(1) inv assms(4)] fg
    by cases (auto simp: others_kept_def stopped_def without_fg_def map_of_filter_snd [OF wf] simp del: map_of_eq_Some_iff split: if_splits)
qed


section \<open>A device with one user\<close>

text \<open>Every service answers with success; the build allows several active accounts but one in front.\<close>

definition demo_osm_env :: osm_env where
  "demo_osm_env = \<lparr>cj_parse = ref_read, cj_print = (\<lambda>j. Some (ref_print j)), sys_errno = (\<lambda>_. None),
     sys_short = (\<lambda>_. 0), space_ok = (\<lambda>_ _. True), StrToInt = (\<lambda>_. None), DISTRIBUTED = False,
     db_account_list = (\<lambda>_. (ERR_OK, None)), login_name_max = 1024, db_os_account = (\<lambda>_ _. (ERR_OK, OsAccountInfo_init)),
     MULTIPLE_ACTIVE = True, MULTI_FOREGROUND = False, STOP_MAIN = False, U1_ACCOUNT = False, ACTIVATE_LAST = False,
     maxLoggedInOsAccountNum = 3, clock_s = (\<lambda>_. 0), ams_start = (\<lambda>_ _ _ _. ERR_OK), ams_stop = (\<lambda>_ _. ERR_OK),
     ams_logout = (\<lambda>_ _. ERR_OK), ams_done = (\<lambda>i _. (i, ERR_OK)), all_app_died = (\<lambda>_ _. True), storage_ready = (\<lambda>_. True),
     E_ACTIVE_EL2_FAILED = E_IPC_ERROR, storage_encrypted = (\<lambda>_ _. (ERR_OK, False)), storage_ActiveUserKey = (\<lambda>_ _. ERR_OK),
     storage_PrepareStartUser = (\<lambda>_ _. ERR_OK), storage_StopUser = (\<lambda>_ _. ERR_OK), storage_InactiveUserKey = (\<lambda>_ _. ERR_OK),
     storage_RemoveUser = (\<lambda>_ _. ERR_OK), storage_CompleteAddUser = (\<lambda>_ _. ERR_OK), idm_pin = (\<lambda>_ _. (ERR_OK, False)),
     idm_EraseUser = (\<lambda>_ _. True), domain_unlock = (\<lambda>_ _. (ERR_OK, False)), bms_RemoveUser = (\<lambda>_ _. ERR_OK),
     GetAllDisplayIds = (\<lambda>_. [0]), zone_lib = demo_zone_env, lock_plugin = (\<lambda>_. True), activation_plugin = (\<lambda>_. None), CheckSaCall = False, maxOsAccountNum = 10,
     stack_serial = 0, E_EXIST = E_IPC_ERROR, storage_PrepareAddUser = (\<lambda>_ _. ERR_OK), bms_CreateNewUser = (\<lambda>_ _ _ _. ERR_OK),
     bms_IsBundleInstalled = (\<lambda>_ _ _. (ERR_OK, True)), lock_account = (\<lambda>_ _. ERR_OK)\<rparr>"

lemma demo_osm_ok [simp]: "osm_ok demo_osm_env" "cjson_ok demo_osm_env" "os_quiet demo_osm_env" "MULTIPLE_ACTIVE demo_osm_env"
  by (simp_all add: osm_ok_def demo_osm_env_def ref_lib_ok os_quiet_def)

definition demo_memory :: os_memory where
  "demo_memory = \<lparr>activeAccountId = [], operatingId = [], foregroundAccountMap = [], verifiedAccounts = [], loggedInAccounts = [],
     deactivatingAccounts = [], lockingAccounts = [], defaultActivatedIds = [(0, 100)], deviceOwnerId = -1\<rparr>"

definition demo_manager :: osm_state where
  "demo_manager = \<lparr>o_fs = put_file (account_path ''100'') (Some (OsAccountInfo_ToString demo_osm_env (demo_user 100))) empty_fs,
     o_zones = zone_init, o_calls = 0, o_mem = demo_memory, o_events = []\<rparr>"

lemma demo_ToString: "OsAccountInfo_ToString demo_osm_env a = OsAccountInfo_ToString osi_ref_env a"
  by (simp add: OsAccountInfo_ToString_def PackJsonToString_def demo_osm_env_def osi_ref_env_def split: option.split)

lemma demo_id: "to_string_int 100 = ''100''"
  by code_simp

lemma demo_stored:
  "stored_account demo_osm_env (o_fs demo_manager) i = (if i = 100 then Some (demo_user 100) else None)"
proof -
  have "os_record_ok (demo_user 100)" by (rule demo_user_ok) simp
  note read = ToString_read [OF demo_osm_ok(2) this]
  have "account_path (to_string_int i) = account_path ''100'' \<longleftrightarrow> i = 100"
    by (metis demo_id account_path_inject)
  then show ?thesis using read by (simp add: stored_account_def demo_manager_def empty_fs_def put_file_def)
qed

lemma demo_fresh: "fresh_manager demo_osm_env demo_manager"
proof -
  have "os_record_ok (demo_user 100)" by (rule demo_user_ok) simp
  then show ?thesis
    by (auto simp: fresh_manager_def files_ok_def demo_stored split: if_splits) (simp_all add: demo_manager_def demo_memory_def demo_user_def)
qed

lemma demo_read: "\<exists>fs'. GetOsAccountInfoById demo_osm_env 100 OsAccountInfo_init (o_fs demo_manager) = ((ERR_OK, demo_user 100), fs')"
proof -
  have "os_record_ok (demo_user 100)" by (rule demo_user_ok) simp
  note read = ToString_read [OF demo_osm_ok(2) this]
  show ?thesis
    by (rule quiet_GetById [OF demo_osm_ok(3) _ _ read])
      (simp_all add: demo_manager_def demo_id demo_ToString demo_user_length put_file_def)
qed

lemma demo_ams_start:
  "\<exists>n. SendToAMSAccountStart demo_osm_env a d f rec st = (ERR_OK, f (os_localId a) (st\<lparr>o_calls := n\<rparr>))"
proof -
  have retry: "MAX_RETRY_TIMES = Suc 9" by (simp add: MAX_RETRY_TIMES_def)
  have env: "ams_start demo_osm_env x y z n = ERR_OK" "ams_done demo_osm_env x n = (x, ERR_OK)" for x y z n
    by (simp_all add: demo_osm_env_def)
  have "ipc_loop (ams_start demo_osm_env (os_localId a) d rec) MAX_RETRY_TIMES ERR_OK st = (ERR_OK, st\<lparr>o_calls := Suc (o_calls st)\<rparr>)"
    unfolding retry ipc_loop.simps by (simp add: ask_def env is_ipc_error_def)
  then show ?thesis
    by (auto simp: SendToAMSAccountStart_def InnerSendToAMSAccountStart_def ask_def OnUserCmdDone_def env)
qed

lemma demo_activation:
  "\<exists>st1. ActivateOsAccount demo_osm_env 100 False 0 False demo_manager = (ERR_OK, st1)
     \<and> o_mem st1 = demo_memory\<lparr>activeAccountId := [100], foregroundAccountMap := [(0, 100)]\<rparr>
     \<and> stored_account demo_osm_env (o_fs st1) 101 = None"
proof -
  obtain fs' where read: "GetOsAccountInfoById demo_osm_env 100 OsAccountInfo_init (o_fs demo_manager) = ((ERR_OK, demo_user 100), fs')"
    using demo_read by blast
  let ?m = "demo_memory\<lparr>operatingId := [100]\<rparr>"
  define st0 where "st0 = upd_mem (\<lambda>m. m\<lparr>operatingId := operatingId m @ [100]\<rparr>) demo_manager"
  have 0: "CheckAndAddLocalIdOperating 100 demo_manager = (True, st0)"
    by (simp add: CheckAndAddLocalIdOperating_def demo_manager_def demo_memory_def st0_def)
  have m0: "o_mem st0 = ?m" "o_fs st0 = o_fs demo_manager" by (simp_all add: st0_def) (simp add: demo_manager_def demo_memory_def)
  define st1 where "st1 = st0\<lparr>o_fs := fs'\<rparr>"
  have "\<not> DISTRIBUTED demo_osm_env" by (simp add: demo_osm_env_def)
  from stored_account_files [OF GetById_files [OF this read], of demo_osm_env]
  have f: "stored_account demo_osm_env (o_fs st1) 101 = None" by (simp add: st1_def demo_stored)
  have m1: "o_mem st1 = ?m" by (simp add: st1_def m0)
  define a where "a = real_info 100 ?m (demo_user 100)"
  have 1: "GetRealOsAccountInfoById demo_osm_env 100 st0 = ((ERR_OK, a), st1)"
    using read by (simp add: GetRealOsAccountInfoById_def on_files_def m0 st1_def a_def)
  have a: "os_isVerified a = False" "os_isActivated a = False" "IsValidOsAccount a = ERR_OK" "os_localId a = 100"
    by (simp_all add: a_def demo_memory_def) (simp_all add: IsValidOsAccount_def demo_user_def OsAccountInfo_init_def)
  have env: "\<not> MULTI_FOREGROUND demo_osm_env" "maxLoggedInOsAccountNum demo_osm_env = 3" "\<not> U1_ACCOUNT demo_osm_env"
    "\<not> ACTIVATE_LAST demo_osm_env" "\<not> STOP_MAIN demo_osm_env" by (simp_all add: demo_osm_env_def)
  have 2: "PrepareActivateOsAccount demo_osm_env 100 0 st0 = ((ERR_OK, a, -1), st1)"
    unfolding PrepareActivateOsAccount_def 1
    by (simp add: a m1 or_keep_def IsLoggedInAccountsOversize_def env DEFAULT_DISPLAY_ID_def demo_memory_def)
  have front: "fronted demo_osm_env 0 100 ?m = ?m\<lparr>activeAccountId := [100], foregroundAccountMap := [(0, 100)]\<rparr>"
    by (simp add: fronted_def env PushIdIntoActiveList_def Let_def demo_memory_def INVALID_DISPLAY_ID_def)
  define st2 where "st2 = publish (SwitchEvent ''SWITCHING'' (-1) 100 0) (publish (CommonEvent ''USER_STARTING'' 100) (publish (StateEvent ''ACTIVATING'' 100) st1))"
  have m2: "o_mem st2 = ?m" "o_fs st2 = o_fs st1" by (simp_all add: st2_def m1)
  obtain n where n: "SendToAMSAndSamgrAccountStart demo_osm_env a 0 False st2 = (ERR_OK, start_callback demo_osm_env 0 100 (st2\<lparr>o_calls := n\<rparr>))"
    using demo_ams_start [of a 0 "start_callback demo_osm_env 0" False st2] by (auto simp: SendToAMSAndSamgrAccountStart_def a)
  have 3: "SendToStorageAndAMSAccountStart demo_osm_env a False 0 False (-1) st2
      = ((ERR_OK, a), start_callback demo_osm_env 0 100 (st2\<lparr>o_calls := n\<rparr>))"
    by (simp add: SendToStorageAndAMSAccountStart_def n Let_def)
  show ?thesis
    unfolding ActivateOsAccount_def 0 Let_def prod.case 2
    using 3 f by (auto simp: SendMsgForAccountActivate_def Let_def a m1 m2 env or_keep_def demo_memory_def SetAppRecovery_def
        st2_def [symmetric] start_callback_mem front [unfolded demo_memory_def, simplified])
qed

lemma demo_run:
  obtains st1 where "service_run (manager_step demo_osm_env) demo_manager [(Activate 100 False 0 False, ERR_OK)] st1"
    and "o_mem st1 = demo_memory\<lparr>activeAccountId := [100], foregroundAccountMap := [(0, 100)]\<rparr>"
    and "stored_account demo_osm_env (o_fs st1) 101 = None"
proof -
  obtain st1 where a: "ActivateOsAccount demo_osm_env 100 False 0 False demo_manager = (ERR_OK, st1)"
    and m: "o_mem st1 = demo_memory\<lparr>activeAccountId := [100], foregroundAccountMap := [(0, 100)]\<rparr>"
      "stored_account demo_osm_env (o_fs st1) 101 = None" using demo_activation by blast
  have "manager_step demo_osm_env demo_manager (Activate 100 False 0 False) ERR_OK st1" by (simp add: manager_step_def a)
  then have "service_run (manager_step demo_osm_env) demo_manager ([] @ [(Activate 100 False 0 False, ERR_OK)]) st1"
    unfolding service_run_snoc by auto
  then show ?thesis using m that by simp
qed



theorem only_valid_accounts_take_over_witness:
  "\<exists>st1. service_run (manager_step demo_osm_env) demo_manager [(Activate 100 False 0 False, ERR_OK)] st1
     \<and> fst (ActivateOsAccount demo_osm_env 101 False 0 False st1) \<noteq> ERR_OK"
proof -
  obtain st1 where run: "service_run (manager_step demo_osm_env) demo_manager [(Activate 100 False 0 False, ERR_OK)] st1"
    and m: "o_mem st1 = demo_memory\<lparr>activeAccountId := [100], foregroundAccountMap := [(0, 100)]\<rparr>"
      "stored_account demo_osm_env (o_fs st1) 101 = None" by (rule demo_run)
  have "fst (ActivateOsAccount demo_osm_env 101 False 0 False st1) \<noteq> ERR_OK"
    by (rule only_valid_accounts_take_over [OF demo_osm_ok(1) demo_fresh run disjI1 [OF demo_osm_ok(4)], where j = 100])
      (simp_all add: m)
  with run show ?thesis by blast
qed

theorem deactivation_affects_one_account_witness:
  "\<exists>st1 r st2. service_run (manager_step demo_osm_env) demo_manager [(Activate 100 False 0 False, ERR_OK)] st1
     \<and> DeactivateOsAccount demo_osm_env 101 False st1 = (r, st2) \<and> map_of (foregroundAccountMap (o_mem st2)) 0 = Some 100
     \<and> 100 \<in> set (activeAccountId (o_mem st2))"
proof -
  obtain st1 where run: "service_run (manager_step demo_osm_env) demo_manager [(Activate 100 False 0 False, ERR_OK)] st1"
    and m: "o_mem st1 = demo_memory\<lparr>activeAccountId := [100], foregroundAccountMap := [(0, 100)]\<rparr>" by (rule demo_run)
  obtain r st2 where d: "DeactivateOsAccount demo_osm_env 101 False st1 = (r, st2)" by (metis prod.collapse)
  have "100 \<noteq> (101::int)" by simp
  with deactivation_affects_one_account [OF demo_osm_ok(1) demo_fresh run d]
  have "map_of (foregroundAccountMap (o_mem st2)) 0 = Some 100 \<longleftrightarrow> map_of (foregroundAccountMap (o_mem st1)) 0 = Some 100"
    "100 \<in> set (activeAccountId (o_mem st2)) \<longleftrightarrow> 100 \<in> set (activeAccountId (o_mem st1))" by blast+
  with run d show ?thesis by (intro exI [of _ st1] exI [of _ r] exI [of _ st2]) (simp add: m)
qed


end
