(* ===== verification/Os_Account_Creation_Runs.thy ===== *)
theory Os_Account_Creation_Runs
  imports Os_Account_Creation_Safety Os_Account_Runs
begin

text \<open>
  Creations at any time of a run of the manager: what one makes of the usable accounts and of the memory, that it returns, and a device
  on which one succeeds.
\<close>

section \<open>Creating in a run\<close>

text \<open>The short name the new account gets: the one of the options, where there is one.\<close>

definition actual_shortName :: "string \<Rightarrow> CreateOsAccountOptions \<Rightarrow> string" where
  "actual_shortName shortName options = (if opt_shortName options = [] then shortName else opt_shortName options)"

lemma IsCreationAllowed_kept: "IsCreationAllowed E st = (ok, st0) \<Longrightarrow> o_fs st0 = o_fs st \<and> o_mem st0 = o_mem st"
  by (auto simp: IsCreationAllowed_def split: prod.splits dest: ask_fs)

lemma Create_cases:
  assumes "CreateOsAccount E localName shortName type a options st = x"
  obtains (refused) st0 where "x = Some ((ERR_OSACCOUNT_SERVICE_INNER_ACCOUNT_PLUGIN_NOT_ALLOWED_CREATION_ERROR, a), st0)"
      "o_fs st0 = o_fs st" "o_mem st0 = o_mem st"
    | (allowed) st0 b opts where "o_fs st0 = o_fs st" "o_mem st0 = o_mem st" "opt_shortName opts = actual_shortName shortName options"
      "create_account E localName type b opts options st0 = x"
proof -
  obtain ok st0 where 1: "IsCreationAllowed E st = (ok, st0)" by (metis prod.collapse)
  note kept = IsCreationAllowed_kept [OF 1]
  define opts where "opts = (if opt_shortName options = [] \<and> shortName \<noteq> [] then options\<lparr>opt_shortName := shortName\<rparr> else options)"
  have short: "opt_shortName opts = actual_shortName shortName options" by (auto simp: opts_def actual_shortName_def)
  show thesis
  proof (cases ok)
    case False
    with assms kept show thesis by (intro refused [of st0]) (auto simp: CreateOsAccount_def 1)
  next
    case True
    with assms kept short show thesis
      by (intro allowed [of st0 opts "a\<lparr>os_localName := localName\<rparr>"]) (auto simp: CreateOsAccount_def 1 opts_def Let_def)
  qed
qed

lemma same_front_manager_inv:
  "manager_inv E st \<Longrightarrow> same_front (o_mem st) (o_mem st') \<Longrightarrow> files_ok E (o_fs st') \<Longrightarrow> manager_inv E st'"
  by (simp add: manager_inv_def same_front_def)

lemma Create_spec:
  assumes "osm_ok E" and "no_false_absence E" and "c_strings E" and "manager_inv E st" and "accounts_listed n {} E (o_fs st)"
    and "n < 2 ^ 31" and "names_ok localName (actual_shortName shortName options) type" and "type \<noteq> TYPE_MAINTENANCE"
    and "CreateOsAccount E localName shortName type a options st = Some ((r, a'), st')"
  shows "creation_effect E localName (actual_shortName shortName options) type r a' (o_fs st) (o_fs st')
    \<and> accounts_listed (Suc n) {} E (o_fs st') \<and> manager_inv E st' \<and> same_front (o_mem st) (o_mem st')"
  using assms(9)
proof (cases rule: Create_cases)
  case (refused st0)
  moreover have "accounts_listed (Suc n) {} E (o_fs st)" using assms(5) by (auto simp: accounts_listed_def)
  ultimately show ?thesis using assms(4) same_front_manager_inv [OF assms(4), of st'] by (simp add: creation_effect_def manager_inv_def)
next
  case (allowed st0 b opts)
  have m: "operatingId (o_mem st) = []" "files_ok E (o_fs st)" using assms(4) by (simp_all add: manager_inv_def)
  have "n < 2 ^ 39" using assms(6) by simp
  from create_account_spec [OF assms(1-3) _ assms(8) _ this _ allowed(4)] allowed(1-3) assms(5,7) m
  show ?thesis using same_front_manager_inv [OF assms(4), of st'] by simp
qed

section \<open>Properties\<close>

text \<open>C4 (refinement). Creating an account is all or nothing. A creation that reports success adds one account to the usable ones,
  complete, with the names and the type asked for, under an id of the creatable range that no usable account had; one that fails, at
  whatever step, leaves the usable accounts as they were. The account list still names every usable account, nothing is in front of a
  display, active or marked as being operated on that was not before, and every stored account is still kept under its own id.\<close>

theorem creation_all_or_nothing:
  assumes "osm_ok E" and "no_false_absence E" and "c_strings E" and "fresh_manager E st0" and "service_run (manager_step E) st0 h st"
    and "accounts_listed n {} E (o_fs st)" and "n < 2 ^ 31"
    and "names_ok localName (actual_shortName shortName options) type" and "type \<noteq> TYPE_MAINTENANCE"
    and "CreateOsAccount E localName shortName type a options st = Some ((r, a'), st')"
  shows "(r = ERR_OK \<longrightarrow> usable a' \<and> os_localName a' = localName \<and> os_shortName a' = actual_shortName shortName options \<and> os_type a' = type
        \<and> START_USER_ID \<le> os_localId a' \<and> os_localId a' \<le> MAX_CREATABLE_USER_ID \<and> usable_accounts E (o_fs st) (os_localId a') = None
        \<and> usable_accounts E (o_fs st') = (usable_accounts E (o_fs st))(os_localId a' \<mapsto> a'))
    \<and> (r \<noteq> ERR_OK \<longrightarrow> usable_accounts E (o_fs st') = usable_accounts E (o_fs st))
    \<and> accounts_listed (Suc n) {} E (o_fs st')
    \<and> foregroundAccountMap (o_mem st') = foregroundAccountMap (o_mem st) \<and> activeAccountId (o_mem st') = activeAccountId (o_mem st)
    \<and> operatingId (o_mem st') = [] \<and> (\<forall>i b. stored_account E (o_fs st') i = Some b \<longrightarrow> os_localId b = i)"
proof -
  have "manager_inv E st" using os_manager.run_inv [OF assms(5)] assms(1) fresh_inv [OF assms(4)] by blast
  from Create_spec [OF assms(1-3) this assms(6-10)] show ?thesis
    unfolding creation_effect_def same_front_def manager_inv_def files_ok_def by (auto split: if_splits)
qed

text \<open>C19 (termination). A creation returns, whatever the other services answer, as long as the account list has fewer entries than there
  are serial numbers: the search for a free one, a loop without a bound of its own, finds one or reaches the end of the numbers.\<close>

theorem creation_returns:
  assumes "osm_ok E" and "no_false_absence E" and "accounts_listed n {} E (o_fs st)" and "int n < CARRY_NUM - 1"
  shows "\<exists>r a' st'. CreateOsAccount E localName shortName type a options st = Some ((r, a'), st')"
proof -
  have "CreateOsAccount E localName shortName type a options st \<noteq> None"
    by (rule Create_cases [OF refl, of E localName shortName type a options st])
      (simp, metis assms(3) create_account_returns [OF assms(1,2) _ assms(4)])
  then show ?thesis by fastforce
qed


section \<open>A device on which a creation succeeds\<close>

text \<open>The strings that the reference reader returns are made of characters of its input.\<close>

lemma parse_str_no_nul: "parse_str s = Some (x, r) \<Longrightarrow> nul_free s \<Longrightarrow> nul_free x \<and> nul_free r"
proof (induction s arbitrary: x r rule: parse_str.induct)
  case (2 c s)
  then show ?case by (cases s) (auto split: if_splits option.splits)
qed simp

lemma parse_num_no_nul: "parse_num s = Some (n, r) \<Longrightarrow> nul_free s \<Longrightarrow> nul_free r"
  by (auto simp: parse_num_def Let_def nul_free_def split: list.splits if_splits dest!: arg_cong [of _ _ set] dest: set_dropWhileD)

lemma ref_parse_no_nul:
  shows "ref_parse f s = Some (j, r) \<Longrightarrow> nul_free s \<Longrightarrow> no_nul j \<and> nul_free r"
    and "ref_parse_arr f s = Some (js, r) \<Longrightarrow> nul_free s \<Longrightarrow> (\<forall>j \<in> set js. no_nul j) \<and> nul_free r"
    and "ref_parse_obj f s = Some (kvs, r) \<Longrightarrow> nul_free s \<Longrightarrow> (\<forall>e \<in> set kvs. no_nul (snd e)) \<and> nul_free r"
proof (induction f s and f s and f s arbitrary: j r and js r and kvs r rule: ref_parse_ref_parse_arr_ref_parse_obj.induct)
  case (2 f s)
  show ?case
  proof (cases s)
    case (Cons c t)
    then have t: "nul_free t" using 2(4) by simp
    have arr: "c = CHR ''a'' \<Longrightarrow> ref_parse_arr f t = Some (xs, r) \<Longrightarrow> (\<forall>x \<in> set xs. no_nul x) \<and> nul_free r" for xs
      using 2(1) [OF Cons] t by simp
    have obj: "c = CHR ''o'' \<Longrightarrow> ref_parse_obj f t = Some (xs, r) \<Longrightarrow> (\<forall>e \<in> set xs. no_nul (snd e)) \<and> nul_free r" for xs
      using 2(2) [OF Cons] t by simp
    from 2(3) have "ref_parse (Suc f) (c # t) = Some (j, r)" by (simp add: Cons)
    then show ?thesis
      unfolding ref_parse.simps list.case
      by (simp split: if_split_asm) (use parse_str_no_nul [of t _ r] parse_num_no_nul [of t _ r] t arr obj in auto)
  qed (use 2 in simp)
next
  case (4 f s)
  then show ?case by (cases s) (auto split: if_splits option.splits)
next
  case (6 f s)
  show ?case
  proof (cases s)
    case (Cons c t)
    then have t: "nul_free t" "c = CHR ''}'' \<Longrightarrow> kvs = [] \<and> r = t" using 6 by simp_all
    show ?thesis
    proof (cases "c = CHR ''}''")
      case False
      with 6(3) Cons obtain k r1 x r2 rest where p: "c = CHR ''k''" "parse_str t = Some (k, r1)" "ref_parse f r1 = Some (x, r2)"
        "ref_parse_obj f r2 = Some (rest, r)" "kvs = (k, x) # rest" by (auto split: if_splits option.splits)
      have "nul_free r1" using parse_str_no_nul [OF p(2) t(1)] by simp
      moreover have "no_nul x \<and> nul_free r2" by (rule 6(1) [OF Cons False p(1,2) refl p(3) \<open>nul_free r1\<close>])
      moreover have "(\<forall>e \<in> set rest. no_nul (snd e)) \<and> nul_free r"
        by (rule 6(2) [OF Cons False p(1,2) refl p(3) refl p(4)]) (use calculation(2) in simp)
      ultimately show ?thesis using p(5) by simp
    qed (use t in simp)
  qed (use 6 in simp)
qed simp_all

lemma ref_read_no_nul: "ref_read s = Some j \<Longrightarrow> nul_free s \<Longrightarrow> no_nul j"
  using ref_parse_no_nul(1) by (fastforce simp: ref_read_def split: option.splits prod.splits list.splits)

lemma demo_osm_read: "cj_parse demo_osm_env = ref_read" "sys_errno demo_osm_env n = None"
  by (simp_all add: demo_osm_env_def)

lemma demo_ready: "no_false_absence demo_osm_env" "c_strings demo_osm_env"
  by (auto simp: no_false_absence_def c_strings_def demo_osm_read dest: ref_read_no_nul)

text \<open>An empty account list, no base constraints and no constraints of the types beside the first user.\<close>

definition listed :: "json \<Rightarrow> fs_state \<Rightarrow> bool" where
  "listed j fs \<longleftrightarrow> fs_files fs list_path = Some (ref_print j)
     \<and> fs_files fs OS_ACCOUNT_CONSTRAINT_CONFIG_PATH = Some (ref_print (JObj [(KEY_TYPE_TO_CONSTRAINTS, JObj [])]))
     \<and> fs_files fs base_path = Some (ref_print (JObj []))"

definition new_list :: json where
  "new_list = JObj [(ACCOUNT_LIST, JArr []), (SERIAL_NUMBER_NUM, JStr ''1'')]"

definition roomy_device :: osm_state where
  "roomy_device = demo_manager\<lparr>o_fs := put_file list_path (Some (ref_print new_list))
     (put_file OS_ACCOUNT_CONSTRAINT_CONFIG_PATH (Some (ref_print (JObj [(KEY_TYPE_TO_CONSTRAINTS, JObj [])])))
     (put_file base_path (Some (ref_print (JObj []))) (o_fs demo_manager)))\<rparr>"

lemma file_names:
  "OS_ACCOUNT_CONSTRAINT_CONFIG_PATH \<noteq> list_path" "OS_ACCOUNT_CONSTRAINT_CONFIG_PATH \<noteq> GetTempFilePath list_path"
  "OS_ACCOUNT_CONSTRAINT_CONFIG_PATH \<noteq> base_path" "list_path \<noteq> OS_ACCOUNT_CONSTRAINT_CONFIG_PATH" "base_path \<noteq> OS_ACCOUNT_CONSTRAINT_CONFIG_PATH"
  "base_path \<noteq> list_path" "base_path \<noteq> GetTempFilePath list_path" "list_path \<noteq> base_path"
  "account_path s \<noteq> OS_ACCOUNT_CONSTRAINT_CONFIG_PATH"
  by (simp_all add: OS_ACCOUNT_CONSTRAINT_CONFIG_PATH_def path_defs GetTempFilePath_def account_path_def)

lemma account_names:
  "account_path (to_string_int i) \<noteq> list_path" "account_path (to_string_int i) \<noteq> base_path"
  "account_path (to_string_int i) \<noteq> GetTempFilePath list_path" "account_path (to_string_int i) \<noteq> GetTempFilePath base_path"
  using account_path_not_top [of "''account_list.json''" i] account_path_not_top [of "''base_os_account_constraints.json''" i]
  by (simp_all add: ACCOUNT_LIST_FILE_JSON_PATH_def BASE_OSACCOUNT_CONSTRAINTS_JSON_PATH_def)

lemma roomy_listed: "listed new_list (o_fs roomy_device)"
  by (simp add: listed_def roomy_device_def put_file_def file_names not_sym)

lemma roomy_stored: "stored_account demo_osm_env (o_fs roomy_device) i = (if i = 100 then Some (demo_user 100) else None)"
  using demo_stored [of i] account_names [of i] file_names
  by (simp add: stored_account_def roomy_device_def put_file_def)

lemma roomy_fresh: "fresh_manager demo_osm_env roomy_device"
  using demo_fresh by (simp add: fresh_manager_def files_ok_def roomy_stored demo_stored) (simp add: roomy_device_def)

lemma demo_create_json: "json_wf j \<Longrightarrow> CreateJsonFromString demo_osm_env (ref_print j) = Some j"
  using pack_then_create(3) [OF demo_osm_ok(2), of j] by (simp add: PackJsonToString_def) (simp add: demo_osm_env_def)

lemma roomy_accounts: "accounts_listed 0 {} demo_osm_env (o_fs roomy_device)"
proof -
  have j: "obj_ok new_list" "strs new_list ACCOUNT_LIST = []" by (simp_all add: obj_ok_def new_list_def list_key_defs strs_def)
  have "file_json demo_osm_env list_path (o_fs roomy_device) = Some new_list"
    using roomy_listed demo_create_json [OF obj_ok_wf [OF j(1)]] by (simp add: file_json_def listed_def)
  with j show ?thesis by (auto simp: accounts_listed_def roomy_stored START_USER_ID_def split: if_splits)
qed

text \<open>The steps of a creation on this device. \<open>disk\<close> also says what the file of the new account holds.\<close>

definition disk :: "json \<Rightarrow> string option \<Rightarrow> fs_state \<Rightarrow> bool" where
  "disk j s fs \<longleftrightarrow> listed j fs \<and> fs_files fs (account_path (to_string_int 101)) = s"

definition list_1 :: json where
  "list_1 = JObj [(ACCOUNT_LIST, JArr []), (SERIAL_NUMBER_NUM, JStr ''2'')]"
definition list_2 :: json where
  "list_2 = JObj [(ACCOUNT_LIST, JArr []), (SERIAL_NUMBER_NUM, JStr ''2''), (NEXT_LOCAL_ID, JNum 102)]"
definition list_3 :: json where
  "list_3 = JObj [(ACCOUNT_LIST, JArr [JStr ''101'']), (SERIAL_NUMBER_NUM, JStr ''2''), (NEXT_LOCAL_ID, JNum 102), (COUNT_ACCOUNT_NUM, JNum 1)]"

definition small :: "json \<Rightarrow> bool" where
  "small j \<longleftrightarrow> json_wf j \<and> length (ref_print j) \<le> MAX_FILE_SIZE"

lemma small_lists: "small new_list" "small list_1" "small list_2" "small (JObj [])" "small (JObj [(KEY_TYPE_TO_CONSTRAINTS, JObj [])])"
proof -
  have "length (ref_print j) < 300 \<Longrightarrow> length (ref_print j) \<le> MAX_FILE_SIZE" for j by (simp add: MAX_FILE_SIZE_def)
  moreover have "length (ref_print new_list) < 300" "length (ref_print list_1) < 300" "length (ref_print list_2) < 300"
    "length (ref_print (JObj [])) < 300" "length (ref_print (JObj [(KEY_TYPE_TO_CONSTRAINTS, JObj [])])) < 300" by code_simp+
  moreover have "obj_ok new_list" "obj_ok list_1" "obj_ok list_2" "obj_ok (JObj [])"
    by (simp_all add: obj_ok_def new_list_def list_1_def list_2_def list_key_defs)
  moreover have "json_wf (JObj [(KEY_TYPE_TO_CONSTRAINTS, JObj [])])" by (simp add: KEY_TYPE_TO_CONSTRAINTS_def)
  ultimately show "small new_list" "small list_1" "small list_2" "small (JObj [])" "small (JObj [(KEY_TYPE_TO_CONSTRAINTS, JObj [])])"
    unfolding small_def using obj_ok_wf by blast+
qed

lemma disk_same: "fs_files fs' = fs_files fs \<Longrightarrow> disk j s fs' = disk j s fs"
  by (simp add: disk_def listed_def)

lemma demo_content:
  assumes "small j" and "fs_files fs p = Some (ref_print j)" and "p \<noteq> []"
  shows "\<exists>fs'. GetFileContentByPath demo_osm_env p [] fs = ((ERR_OK, ref_print j), fs') \<and> fs_files fs' = fs_files fs
    \<and> CreateJsonFromString demo_osm_env (ref_print j) = Some j"
proof -
  have j: "json_wf j" "length (ref_print j) \<le> MAX_FILE_SIZE" using assms(1) by (simp_all add: small_def)
  obtain fs' where 1: "GetFileContentByPath demo_osm_env p [] fs = ((ERR_OK, ref_print j), fs')"
    using quiet_read [OF demo_osm_ok(3) assms(3,2) j(2)] by blast
  then show ?thesis using account_files.read_keeps [OF 1] demo_create_json [OF j(1)] by blast
qed

lemma disk_list_read:
  assumes "disk j s fs" and "small j"
  obtains fs' where "GetAccountListFromFile demo_osm_env fs = ((ERR_OK, Some j), fs')" "disk j s fs'"
proof -
  have "fs_files fs list_path = Some (ref_print j)" using assms(1) by (simp add: disk_def listed_def)
  from demo_content [OF assms(2) this] obtain fs' where
    1: "GetFileContentByPath demo_osm_env list_path [] fs = ((ERR_OK, ref_print j), fs')" "fs_files fs' = fs_files fs"
    "CreateJsonFromString demo_osm_env (ref_print j) = Some j" by (auto simp: ACCOUNT_LIST_FILE_JSON_PATH_def)
  show thesis by (rule that [of fs']) (use assms(1) in \<open>simp_all add: GetAccountListFromFile_def 1(1,3) disk_same [OF 1(2)]\<close>)
qed

lemma demo_pack: "PackJsonToString demo_osm_env (Some j) = ref_print j"
  by (simp add: PackJsonToString_def demo_osm_env_def)

lemma disk_list_save:
  assumes "disk j s fs"
  obtains fs' where "SaveAccountListToFileAndDataBase demo_osm_env (Some j') fs = (ERR_OK, fs')" "disk j' s fs'"
proof -
  obtain fs' where 1: "InputFileByPathAndContent demo_osm_env list_path (ref_print j') fs = (ERR_OK, fs')"
    using quiet_write(1) [OF demo_osm_ok(3)] by (metis prod.collapse)
  with InputFile_spec [OF 1] show thesis
    using that [of fs'] assms file_names account_names [of 101] by (simp add: disk_def listed_def os_file_defs json_to_file_def demo_pack)
qed

lemma disk_write:
  assumes "disk j s fs"
  obtains fs' where "InputFileByPathAndContent demo_osm_env (account_path (to_string_int 101)) c fs = (ERR_OK, fs')" "disk j (Some c) fs'"
proof -
  have n: "x \<noteq> GetTempFilePath (account_path (to_string_int 101))" if "x \<in> {list_path, base_path, OS_ACCOUNT_CONSTRAINT_CONFIG_PATH}" for x
    using that by (auto simp: path_defs account_path_def GetTempFilePath_def OS_ACCOUNT_CONSTRAINT_CONFIG_PATH_def to_string_int_def)
  obtain fs' where 1: "InputFileByPathAndContent demo_osm_env (account_path (to_string_int 101)) c fs = (ERR_OK, fs')"
    using quiet_write(1) [OF demo_osm_ok(3)] by (metis prod.collapse)
  with InputFile_spec [OF 1] n show thesis
    using that [of fs'] assms file_names account_names [of 101] by (simp add: disk_def listed_def not_sym)
qed

lemma step_clean:
  assumes "disk new_list s (o_fs st)"
  obtains st' where "CheckAndCleanOsAccounts demo_osm_env st = (True, st')" "disk new_list s (o_fs st')" "o_mem st' = o_mem st"
proof -
  obtain fs1 where 1: "GetAccountListFromFile demo_osm_env (o_fs st) = ((ERR_OK, Some new_list), fs1)" "disk new_list s fs1"
    by (rule disk_list_read [OF assms small_lists(1)])
  have 2: "get_strings (Some new_list) ACCOUNT_LIST = []" by code_simp
  have 3: "maxOsAccountNum demo_osm_env = 10" by (simp add: demo_osm_env_def)
  show thesis
    by (rule that [of "st\<lparr>o_fs := fs1\<rparr>"])
      (use 1(2) in \<open>simp_all add: CheckAndCleanOsAccounts_def GetNonSACreatedOACount_def on_files_def GetOsAccountIdList_def 1(1) 2 3 map_filter_simps\<close>)
qed

lemma step_serial:
  assumes "disk new_list s fs"
  obtains n fs' where "GetSerialNumber demo_osm_env k fs = Some ((ERR_OK, n), fs')" "disk list_1 s fs'"
proof -
  obtain fs1 where 1: "GetAccountListFromFile demo_osm_env fs = ((ERR_OK, Some new_list), fs1)" "disk new_list s fs1"
    by (rule disk_list_read [OF assms small_lists(1)])
  have 2: "or_keep (GetInt64FromJson (Some new_list) SERIAL_NUMBER_NUM) k = 1" "or_keep (GetBoolFromJson (Some new_list) IS_SERIAL_NUMBER_FULL) False = False"
    "AddInt64ToJson (Some new_list) SERIAL_NUMBER_NUM (wrap64 2) = (True, Some list_1)" by code_simp+
  obtain fs2 where 3: "SaveAccountListToFileAndDataBase demo_osm_env (Some list_1) fs1 = (ERR_OK, fs2)" "disk list_1 s fs2"
    by (rule disk_list_save [OF 1(2)])
  show thesis
    by (rule that [OF _ 3(2)]) (simp add: GetSerialNumber_def 1(1) 2 3(1) CARRY_NUM_def)
qed

lemma step_id:
  assumes "disk list_1 s fs"
  obtains fs' where "GetAllowCreateId demo_osm_env k fs = ((ERR_OK, 101), fs')" "disk list_2 s fs'"
proof -
  obtain fs1 where 1: "GetAccountListFromFile demo_osm_env fs = ((ERR_OK, Some list_1), fs1)" "disk list_1 s fs1"
    by (rule disk_list_read [OF assms small_lists(2)])
  have 2: "GetVectorStringFromJson (Some list_1) ACCOUNT_LIST [] = (True, [])" "GetIntFromJson (Some list_1) NEXT_LOCAL_ID = None"
    "GetNextLocalId [] (START_USER_ID + 1) = 101" "AddIntToJson (Some list_1) NEXT_LOCAL_ID (101 + 1) = (True, Some list_2)"
    "(101 > MAX_CREATABLE_USER_ID) = False" by code_simp+
  obtain fs2 where 3: "SaveAccountListToFileAndDataBase demo_osm_env (Some list_2) fs1 = (ERR_OK, fs2)" "disk list_2 s fs2"
    by (rule disk_list_save [OF 1(2)])
  show thesis
    by (rule that [OF _ 3(2)]) (use 2(4) in \<open>simp add: GetAllowCreateId_def 1(1) 2 3(1)\<close>)
qed

lemma step_constraints:
  assumes "disk j s fs"
  obtains fs' where "GetConstraintsByType demo_osm_env 1 fs = ((ERR_OK, []), fs')" "disk j s fs'"
proof -
  let ?c = "JObj [(KEY_TYPE_TO_CONSTRAINTS, JObj [])]"
  have "fs_files fs OS_ACCOUNT_CONSTRAINT_CONFIG_PATH = Some (ref_print ?c)" using assms by (simp add: disk_def listed_def)
  from demo_content [OF small_lists(5) this] obtain fs' where
    1: "GetFileContentByPath demo_osm_env OS_ACCOUNT_CONSTRAINT_CONFIG_PATH [] fs = ((ERR_OK, ref_print ?c), fs')" "fs_files fs' = fs_files fs"
    "CreateJsonFromString demo_osm_env (ref_print ?c) = Some ?c" by (auto simp: OS_ACCOUNT_CONSTRAINT_CONFIG_PATH_def)
  have 2: "GetObjFromJson (Some ?c) KEY_TYPE_TO_CONSTRAINTS None = (True, Some (JObj []))"
    "GetVectorStringFromJson (Some (JObj [])) (to_string_int 1) [] = (False, [])" by code_simp+
  show thesis by (rule that [of fs']) (use assms in \<open>simp_all add: GetConstraintsByType_def 1(1,3) 2 disk_same [OF 1(2)] del: ref_print.simps\<close>)
qed

lemma step_validate:
  assumes "disk list_2 s (o_fs st)"
  obtains st' where "ValidateOsAccount demo_osm_env a st = (ERR_OK, st')" "disk list_2 s (o_fs st')" "o_mem st' = o_mem st"
proof -
  obtain fs1 where 1: "GetAccountListFromFile demo_osm_env (o_fs st) = ((ERR_OK, Some list_2), fs1)" "disk list_2 s fs1"
    by (rule disk_list_read [OF assms small_lists(3)])
  have 2: "GetVectorStringFromJson (Some list_2) ACCOUNT_LIST [] = (True, [])" by code_simp
  have 3: "GetOsAccountList demo_osm_env (o_fs st) = ((ERR_OK, []), fs1)" by (simp add: GetOsAccountList_def 1(1) 2)
  show thesis
    by (rule that [of "if os_type a = TYPE_PRIVATE then st else st\<lparr>o_fs := fs1\<rparr>"])
      (use assms 1(2) in \<open>simp_all add: ValidateOsAccount_def on_files_def 3\<close>)
qed

lemma step_add:
  assumes "disk list_2 s fs"
  obtains fs' where "UpdateAccountList demo_osm_env (to_string_int 101) True fs = (ERR_OK, fs')" "disk list_3 s fs'"
proof -
  obtain fs1 where 1: "GetAccountListFromFile demo_osm_env fs = ((ERR_OK, Some list_2), fs1)" "disk list_2 s fs1"
    by (rule disk_list_read [OF assms small_lists(3)])
  let ?j = "Some (JObj [(ACCOUNT_LIST, JArr [JStr ''101'']), (SERIAL_NUMBER_NUM, JStr ''2''), (NEXT_LOCAL_ID, JNum 102)])"
  have 2: "get_strings (Some list_2) ACCOUNT_LIST = []"
    "AddVectorStringToJson (Some list_2) ACCOUNT_LIST ([] @ [to_string_int 101]) = (True, ?j)"
    "AddIntToJson ?j COUNT_ACCOUNT_NUM (int (length ([] @ [to_string_int 101]))) = (True, Some list_3)"
    by code_simp+
  obtain fs2 where 3: "SaveAccountListToFileAndDataBase demo_osm_env (Some list_3) fs1 = (ERR_OK, fs2)" "disk list_3 s fs2"
    by (rule disk_list_save [OF 1(2)])
  show thesis
    by (rule that [OF _ 3(2)]) (use 2(2,3) in \<open>simp add: UpdateAccountList_def 1(1) 2(1) 3(1)\<close>)
qed

lemma step_insert:
  assumes "disk list_2 None fs" and "os_localId a = 101" and "OsAccountInfo_ToString demo_osm_env a \<noteq> []"
  obtains fs' where "InsertOsAccountInfo demo_osm_env a fs = (ERR_OK, fs')" "disk list_3 (Some (OsAccountInfo_ToString demo_osm_env a)) fs'"
proof -
  let ?p = "account_path (to_string_int 101)"
  obtain ex fs1 where 1: "IsExistFile demo_osm_env ?p fs = (ex, fs1)" by (metis prod.collapse)
  have "fs_files fs ?p = None" using assms(1) by (simp add: disk_def)
  with FileExists_true [of demo_osm_env ?p fs] 1 have ex: "ex = False" by (auto simp: IsExistFile_def account_path_def split: if_splits)
  have f1: "disk list_2 None fs1" using assms(1) IsExistFile_files [of demo_osm_env ?p fs] disk_same [of fs1 fs] by (simp add: 1)
  obtain fs2 where 2: "UpdateAccountList demo_osm_env (to_string_int 101) True fs1 = (ERR_OK, fs2)" "disk list_3 None fs2" by (rule step_add [OF f1])
  obtain fs3 where 3: "InputFileByPathAndContent demo_osm_env ?p (OsAccountInfo_ToString demo_osm_env a) fs2 = (ERR_OK, fs3)"
    "disk list_3 (Some (OsAccountInfo_ToString demo_osm_env a)) fs3" by (rule disk_write [OF 2(2)])
  show thesis
    by (rule that [OF _ 3(2)])
      (use assms(2,3) in \<open>simp add: InsertOsAccountInfo_def InsertOsAccount_def IsJsonFileReady_def 1 ex 2(1) 3(1) ADMIN_LOCAL_ID_def START_USER_ID_def\<close>)
qed

lemma step_base:
  assumes "disk j s fs"
  obtains fs' where "UpdateBaseOAConstraints demo_osm_env (to_string_int 101) cs True fs = (ERR_OK, fs')"
    "fs_files fs' (account_path (to_string_int 101)) = s"
proof -
  let ?c = "ref_print (JObj [])" 
  have "fs_files fs base_path = Some ?c" using assms by (simp add: disk_def listed_def)
  from demo_content [OF small_lists(4) this] obtain fs1 where
    1: "GetFileContentByPath demo_osm_env base_path [] fs = ((ERR_OK, ?c), fs1)" "fs_files fs1 = fs_files fs"
    "CreateJsonFromString demo_osm_env ?c = Some (JObj [])" by (auto simp: BASE_OSACCOUNT_CONSTRAINTS_JSON_PATH_def simp del: ref_print.simps)
  have 2: "GetBaseOAConstraintsFromFile demo_osm_env fs = ((ERR_OK, Some (JObj [])), fs1)"
    by (simp add: GetBaseOAConstraintsFromFile_def constraints_from_file_def 1(1,3) del: ref_print.simps)
  have 3: "IsKeyExist (Some (JObj [])) (to_string_int 101) = False" by code_simp
  let ?w = "PackJsonToString demo_osm_env (add_strings (Some (JObj [])) (to_string_int 101) cs)"
  obtain fs2 where 4: "InputFileByPathAndContent demo_osm_env base_path ?w fs1 = (ERR_OK, fs2)"
    using quiet_write(1) [OF demo_osm_ok(3)] by (metis prod.collapse)
  have "fs_files fs2 (account_path (to_string_int 101)) = s"
    using InputFile_spec [OF 4] account_names [of 101] 1(2) assms by (simp add: disk_def)
  with 4 show thesis
    by (intro that [of fs2]) (simp_all add: UpdateBaseOAConstraints_def 2 3 SaveBaseOAConstraintsToFile_def json_to_file_def)
qed

lemma demo_proxy: "GetStorageProxy demo_osm_env st = (ERR_OK, st\<lparr>o_calls := Suc (o_calls st)\<rparr>)"
  by (simp add: GetStorageProxy_def ask_def demo_osm_env_def)

lemma max_retry_Suc: "MAX_RETRY_TIMES = Suc 9"
  by (simp add: MAX_RETRY_TIMES_def)

lemma step_services:
  "\<exists>n. SendToStorageAccountCreate demo_osm_env a st = (ERR_OK, st\<lparr>o_calls := n\<rparr>)"
  "\<exists>n. SendToBMSAccountCreate demo_osm_env a x y st = (ERR_OK, st\<lparr>o_calls := n\<rparr>)"
  "\<exists>n. SendToStorageAccountCreateComplete demo_osm_env i st = (ERR_OK, st\<lparr>o_calls := n\<rparr>)"
proof -
  have env: "storage_PrepareAddUser demo_osm_env i n = ERR_OK" "bms_CreateNewUser demo_osm_env i x y n = ERR_OK"
    "storage_CompleteAddUser demo_osm_env i n = ERR_OK" for i x y n by (simp_all add: demo_osm_env_def)
  note defs = max_retry_Suc ask_def env is_ipc_error_def demo_proxy
  show "\<exists>n. SendToStorageAccountCreate demo_osm_env a st = (ERR_OK, st\<lparr>o_calls := n\<rparr>)"
    unfolding SendToStorageAccountCreate_def max_retry_Suc storage_create_loop.simps
    by (auto simp: InnerSendToStorageAccountCreate_def PrepareAddUser_def defs)
  show "\<exists>n. SendToBMSAccountCreate demo_osm_env a x y st = (ERR_OK, st\<lparr>o_calls := n\<rparr>)"
    unfolding SendToBMSAccountCreate_def max_retry_Suc ipc_loop.simps by (auto simp: defs)
  show "\<exists>n. SendToStorageAccountCreateComplete demo_osm_env i st = (ERR_OK, st\<lparr>o_calls := n\<rparr>)"
    unfolding SendToStorageAccountCreateComplete_def max_retry_Suc complete_loop.simps
    by (auto simp: InnerSendToStorageAccountCreateComplete_def defs)
qed

lemma account_text: "OsAccountInfo_ToString demo_osm_env a \<noteq> []"
  using ref_print_cons [of "os_account_json a"] by (auto simp: OsAccountInfo_ToString_def os_account_ToJson demo_pack)

lemma step_send:
  assumes "os_localId a = 101" and "fs_files (o_fs st) (account_path (to_string_int 101)) = Some s"
  obtains st' where "SendMsgForAccountCreate demo_osm_env a options st = ((ERR_OK, a\<lparr>os_isCreateCompleted := True\<rparr>), st')"
proof -
  let ?a = "a\<lparr>os_isCreateCompleted := True\<rparr>" let ?p = "account_path (to_string_int 101)"
  obtain n1 where 1: "SendToStorageAccountCreate demo_osm_env a st = (ERR_OK, st\<lparr>o_calls := n1\<rparr>)" using step_services(1) by blast
  let ?s1 = "st\<lparr>o_calls := n1\<rparr>"
  obtain n2 where 2: "SendToBMSAccountCreate demo_osm_env a (disallowedHapList options) (allowedHapList options) ?s1 = (ERR_OK, ?s1\<lparr>o_calls := n2\<rparr>)"
    using step_services(2) by blast
  let ?s2 = "?s1\<lparr>o_calls := n2\<rparr>"
  have hap: "CheckHighestHapInstallForCreate demo_osm_env a s = (ERR_OK, s)" for s
    by (simp add: CheckHighestHapInstallForCreate_def assms(1) MAINTENANCE_MODE_ID_def)
  have ex: "IsExistFile demo_osm_env ?p (o_fs st) = (True, (o_fs st)\<lparr>fs_tick := Suc (fs_tick (o_fs st))\<rparr>)"
    using assms(2) by (simp add: IsExistFile_def account_path_def quiet_exists [OF demo_osm_ok(3)])
  obtain fs3 where "InputFileByPathAndContent demo_osm_env ?p (OsAccountInfo_ToString demo_osm_env ?a)
      ((o_fs st)\<lparr>fs_tick := Suc (fs_tick (o_fs st))\<rparr>) = (ERR_OK, fs3)"
    using quiet_write(1) [OF demo_osm_ok(3)] by (metis prod.collapse)
  then have 3: "UpdateOsAccountInfo demo_osm_env ?a (o_fs st) = (ERR_OK, fs3)"
    using account_text [of ?a] assms(1) by (simp add: UpdateOsAccountInfo_def UpdateOsAccount_def ex)
  obtain n4 where 4: "SendToStorageAccountCreateComplete demo_osm_env 101 (?s2\<lparr>o_fs := fs3\<rparr>) = (ERR_OK, ?s2\<lparr>o_fs := fs3, o_calls := n4\<rparr>)"
    using step_services(3) [of 101 "?s2\<lparr>o_fs := fs3\<rparr>"] by auto
  show thesis
    by (rule that) (simp add: SendMsgForAccountCreate_def 1 2 hap FinalizeAccountCreate_def Let_def on_files_def 3 4 [simplified] assms(1))
qed

lemma step_prepare:
  assumes "disk new_list None (o_fs s1)" and "operatingId (o_mem s1) = []"
    and o: "opt_localId o1 = None" "opt_shortName o1 = ''b''"
  obtains a s9 where "PrepareOsAccountInfo demo_osm_env ''bob'' 1 DomainAccountInfo_init b o1 s1 = Some ((ERR_OK, a), s9)"
    and "os_localId a = 101" and "fs_files (o_fs s9) (account_path (to_string_int 101)) = Some (OsAccountInfo_ToString demo_osm_env a)"
proof -
  have sa: "CheckSaCall demo_osm_env = False" "clock_s demo_osm_env n = 0" for n by (simp_all add: demo_osm_env_def)
  obtain serial fs2 where 2: "GetSerialNumber demo_osm_env (stack_serial demo_osm_env) (o_fs s1) = Some ((ERR_OK, serial), fs2)"
    "disk list_1 None fs2" by (rule step_serial [OF assms(1)])
  obtain fs3 where 3: "GetAllowCreateId demo_osm_env 0 fs2 = ((ERR_OK, 101), fs3)" "disk list_2 None fs3" by (rule step_id [OF 2(2)])
  obtain fs4 where 4: "GetConstraintsByType demo_osm_env 1 fs3 = ((ERR_OK, []), fs4)" "disk list_2 None fs4" by (rule step_constraints [OF 3(2)])
  define a where "a = (created_info 101 ''bob'' ''b'' 1 serial)\<lparr>os_constraints := [], os_version := OS_ACCOUNT_INFO_LATEST_VERSION,
      os_createTime := 0, os_domainInfo := DomainAccountInfo_init\<rparr>"
  have a: "os_localId a = 101" "os_type a = 1" "os_constraints a = []" by (simp_all add: a_def created_info_def)
  have dom: "SetDomainInfo demo_osm_env DomainAccountInfo_init b = (True, b\<lparr>os_domainInfo := DomainAccountInfo_init\<rparr>)" for b
    by (simp add: SetDomainInfo_def DomainAccountInfo_init_def demo_osm_env_def)
  define s5 where "s5 = s1\<lparr>o_fs := fs4, o_calls := Suc (o_calls s1)\<rparr>"
  have type: "(1 = TYPE_MAINTENANCE) = False" by (simp add: TYPE_MAINTENANCE_def)
  have 5: "FillOsAccountInfo demo_osm_env ''bob'' 1 DomainAccountInfo_init b o1 s1 = Some ((ERR_OK, a), s5)"
    by (simp add: FillOsAccountInfo_def 2(1) type o on_files_def 3(1) 4(1) sa ask_def dom a_def s5_def)
  have d5: "disk list_2 None (o_fs s5)" "operatingId (o_mem s5) = []" using 4(2) assms(2) by (simp_all add: s5_def)
  obtain s6 where 6: "ValidateOsAccount demo_osm_env a s5 = (ERR_OK, s6)" "disk list_2 None (o_fs s6)" "o_mem s6 = o_mem s5"
    by (rule step_validate [OF d5(1)])
  have number: "CheckTypeNumber demo_osm_env 1 s6 = (ERR_OK, s6)" by (simp add: CheckTypeNumber_def TYPE_PRIVATE_def TYPE_MAINTENANCE_def)
  define s7 where "s7 = upd_mem (\<lambda>m. m\<lparr>operatingId := operatingId m @ [101]\<rparr>) s6"
  have 7: "CheckAndAddLocalIdOperating 101 s6 = (True, s7)" using d5(2) 6(3) by (simp add: CheckAndAddLocalIdOperating_def s7_def)
  have d7: "disk list_2 None (o_fs s7)" using 6(2) by (simp add: s7_def upd_mem_def)
  obtain fs8 where 8: "InsertOsAccountInfo demo_osm_env a (o_fs s7) = (ERR_OK, fs8)" "disk list_3 (Some (OsAccountInfo_ToString demo_osm_env a)) fs8"
    by (rule step_insert [OF d7 a(1) account_text])
  obtain fs9 where 9: "UpdateBaseOAConstraints demo_osm_env (to_string_int 101) [] True fs8 = (ERR_OK, fs9)"
    "fs_files fs9 (account_path (to_string_int 101)) = Some (OsAccountInfo_ToString demo_osm_env a)" by (rule step_base [OF 8(2)])
  show thesis
    by (rule that [of a "s7\<lparr>o_fs := fs9\<rparr>"])
      (simp_all add: PrepareOsAccountInfo_def 5 insert_prepared_def 6(1) number a 7 on_files_def 8(1) 9)
qed

lemma demo_creation:
  obtains a st' where "CreateOsAccount demo_osm_env ''bob'' ''b'' 1 OsAccountInfo_init CreateOsAccountOptions_init roomy_device
      = Some ((ERR_OK, a), st')" and "os_localId a = 101"
proof -
  define s0 where "s0 = roomy_device\<lparr>o_calls := Suc (o_calls roomy_device)\<rparr>"
  have allowed: "IsCreationAllowed demo_osm_env roomy_device = (True, s0)"
    by (simp add: IsCreationAllowed_def ask_def s0_def) (simp add: demo_osm_env_def)
  have "fs_files (o_fs roomy_device) (account_path (to_string_int 101)) = None"
    using file_names account_names [of 101] account_path_inject [of 101 100]
    by (simp add: roomy_device_def demo_manager_def put_file_def empty_fs_def demo_id [symmetric])
  with roomy_listed have d0: "disk new_list None (o_fs s0)" "operatingId (o_mem s0) = []"
    by (simp_all add: disk_def s0_def roomy_device_def demo_manager_def demo_memory_def)
  obtain s1 where 1: "CheckAndCleanOsAccounts demo_osm_env s0 = (True, s1)" "disk new_list None (o_fs s1)" "o_mem s1 = o_mem s0"
    by (rule step_clean [OF d0(1)])
  let ?o = "CreateOsAccountOptions_init\<lparr>opt_shortName := ''b''\<rparr>"
  have opts: "opt_shortName CreateOsAccountOptions_init = []" "opt_localId ?o = None" "opt_shortName ?o = ''b''"
    by (simp_all add: CreateOsAccountOptions_init_def)
  have o1: "operatingId (o_mem s1) = []" using d0(2) 1(3) by simp
  obtain a s9 where prep: "PrepareOsAccountInfo demo_osm_env ''bob'' 1 DomainAccountInfo_init (OsAccountInfo_init\<lparr>os_localName := ''bob''\<rparr>) ?o s1
      = Some ((ERR_OK, a), s9)" and a: "os_localId a = 101"
    and s: "fs_files (o_fs s9) (account_path (to_string_int 101)) = Some (OsAccountInfo_ToString demo_osm_env a)"
    by (rule step_prepare [OF 1(2) o1 opts(2,3)])
  obtain s10 where "SendMsgForAccountCreate demo_osm_env a CreateOsAccountOptions_init s9 = ((ERR_OK, a\<lparr>os_isCreateCompleted := True\<rparr>), s10)"
    by (rule step_send [OF a s])
  moreover have "CheckSaCall demo_osm_env = False" by (simp add: demo_osm_env_def)
  ultimately show thesis
    by (intro that [of "a\<lparr>os_isCreateCompleted := True\<rparr>"]) (simp_all add: CreateOsAccount_def allowed create_account_def 1(1) prep a opts)
qed

theorem creation_all_or_nothing_witness:
  "\<exists>a st'. CreateOsAccount demo_osm_env ''bob'' ''b'' 1 OsAccountInfo_init CreateOsAccountOptions_init roomy_device = Some ((ERR_OK, a), st')
     \<and> usable_accounts demo_osm_env (o_fs st') 101 = Some a \<and> os_localName a = ''bob''
     \<and> usable_accounts demo_osm_env (o_fs st') 100 = Some (demo_user 100)"
proof -
  obtain a st' where c: "CreateOsAccount demo_osm_env ''bob'' ''b'' 1 OsAccountInfo_init CreateOsAccountOptions_init roomy_device = Some ((ERR_OK, a), st')"
    and a: "os_localId a = 101" by (rule demo_creation)
  have "usable_accounts demo_osm_env (o_fs roomy_device) 100 = Some (demo_user 100)"
    by (simp add: usable_accounts_def roomy_stored usable_def demo_user_def OsAccountInfo_init_def)
  with creation_all_or_nothing [OF demo_osm_ok(1) demo_ready roomy_fresh service_run.intros(1) roomy_accounts _ _ _ c] c a
  show ?thesis by (auto simp: names_ok_def actual_shortName_def TYPE_MAINTENANCE_def CreateOsAccountOptions_init_def)
qed


theorem creation_returns_witness:
  "\<exists>r a' st'. CreateOsAccount demo_osm_env ''bob'' ''b'' 1 OsAccountInfo_init CreateOsAccountOptions_init roomy_device = Some ((r, a'), st')"
  by (rule creation_returns [OF demo_osm_ok(1) demo_ready(1) roomy_accounts]) (simp add: CARRY_NUM_def)

end
