(* ===== verification/Privilege_Cache.thy ===== *)
theory Privilege_Cache
  imports Os_Account_Files
begin

text \<open>
  The cache of granted privileges (\<open>authorization_manager/privilege_cache_manager.cpp\<close> with
  \<open>privilege_utils.cpp\<close> and \<open>frameworks/common/privileges/src/privileges_map.cpp\<close>). A process that was granted a
  privilege has a record with the time it expires; the records of all processes are written to one file, with the time of the
  write and a digest, and are read back when the service starts again. Privileges that the kernel enforces have a record that does not
  expire: it is unconfirmed until the kernel has accepted it.

  Parameters are the generated list of privileges, the boot clock, the trusted environment that is asked close to the time
  a record expires, the descriptor of a process, death notifications, the digest, and the kernel devices. Each of their calls is
  numbered and may answer differently. The files of \<open>/proc\<close> are files of the file system. A shared record is stored once,
  in the map, and changed there; the clean task, a thread of its own in the code, is counted and runs later.
  Times are milliseconds since boot, far below the range of their 64 bits; a period is multiplied in 32 bits.
\<close>

section \<open>Parameters and state\<close>

text \<open>The description of a privilege is not read.\<close>

record PrivilegeBriefDef =
  bd_privilegeName :: string
  bd_timeout :: u32
  bd_kernelPermission :: string

record priv_env = file_env +
  g_privilegeList :: "PrivilegeBriefDef list"
  stack_timeout :: u32
  GetBootTimeMs :: "nat \<Rightarrow> ErrCode \<times> int"
  CheckTimestampExpired :: "u32 \<Rightarrow> u32 \<Rightarrow> nat \<Rightarrow> ErrCode \<times> int \<times> bool"
  pidfd_open :: "int \<Rightarrow> nat \<Rightarrow> nat option"
  AddDeathRecipient :: "int \<Rightarrow> nat \<Rightarrow> bool"
  HAS_HUKS_PART :: bool
  GenerateAccountInfoDigest :: "string \<Rightarrow> nat \<Rightarrow> ErrCode \<times> u8 list"
  SetKernelAuthorization :: "int \<Rightarrow> string \<Rightarrow> nat \<Rightarrow> ErrCode"
  QueryKernelAuthorization :: "int \<Rightarrow> string \<Rightarrow> nat \<Rightarrow> ErrCode \<times> bool"
  encaps_open :: "nat \<Rightarrow> nat option"
  encaps_ioctl :: "int \<Rightarrow> nat \<Rightarrow> int"

datatype PrivilegeAuthStatus = NOT_REQUIRED | UNCONFIRMED | AUTHORIZED

record PrivilegeRecord =
  pv_privilegeIdx :: u32
  pv_expiredTime :: int
  pv_safeStartTime :: u32
  pv_authStatus :: PrivilegeAuthStatus

record AuthenCallerInfo =
  ci_pid :: int
  ci_uid :: int
  ci_privilegeIdx :: u32
  ci_remoteObject :: bool

record ProcessPrivilegeRecord =
  privilegeRecordMap :: "(u32, PrivilegeRecord) smap"
  pp_pid :: int
  pp_uid :: int
  processStartTime :: int

record priv_state =
  pc_fs :: fs_state
  processPrivilegeMap :: "(int, ProcessPrivilegeRecord) smap"
  pc_calls :: nat
  pc_tasks :: nat

definition pask :: "(nat \<Rightarrow> 'a) \<Rightarrow> priv_state \<Rightarrow> 'a \<times> priv_state" where
  "pask f st = (f (pc_calls st), st\<lparr>pc_calls := Suc (pc_calls st)\<rparr>)"

definition on_fs :: "(fs_state \<Rightarrow> 'a \<times> fs_state) \<Rightarrow> priv_state \<Rightarrow> 'a \<times> priv_state" where
  "on_fs f st = (let (x, fs) = f (pc_fs st) in (x, st\<lparr>pc_fs := fs\<rparr>))"

definition EXPIRED_TIME_OFFSET :: u32 where "EXPIRED_TIME_OFFSET = 2"
definition UID_TRANSFORM_DIVISOR :: int where "UID_TRANSFORM_DIVISOR = 200000"
definition MS_TO_SECOND :: int where "MS_TO_SECOND = 1000"
definition MILLI_SECONDS_PER_SECOND :: u32 where "MILLI_SECONDS_PER_SECOND = 1000"
definition START_TIME_INDEX :: nat where "START_TIME_INDEX = 19"
definition INT32_MAX :: int where "INT32_MAX = 2147483647"
definition INT64_MAX :: int where "INT64_MAX = 9223372036854775807"

definition PRIVILEGE_CACHE_FILE_PATH :: string where
  "PRIVILEGE_CACHE_FILE_PATH = USER_INFO_BASE @ ''/privilege_cache.json''"

section \<open>The list of privileges\<close>

text \<open>\<open>InitMap\<close> enters the privileges in order, so that the last of two equal names counts.\<close>

definition InitMap :: "'z priv_env_scheme \<Rightarrow> (string, u32) smap" where
  "InitMap E = fold (\<lambda>(i, d). sm_put (c_str (bd_privilegeName d)) (of_nat i))
     (List.enumerate 0 (g_privilegeList E)) []"

definition TransferPrivilegeToCode :: "'z priv_env_scheme \<Rightarrow> string \<Rightarrow> u32 option" where
  "TransferPrivilegeToCode E privilegeName = map_of (InitMap E) (c_str privilegeName)"

definition TransferCodeToPrivilege :: "'z priv_env_scheme \<Rightarrow> u32 \<Rightarrow> string" where
  "TransferCodeToPrivilege E code =
     (if unat code \<ge> length (g_privilegeList E) then [] else c_str (bd_privilegeName (g_privilegeList E ! unat code)))"

definition GetPrivilegeBriefDef :: "'z priv_env_scheme \<Rightarrow> u32 \<Rightarrow> PrivilegeBriefDef option" where
  "GetPrivilegeBriefDef E code =
     (if unat code \<ge> length (g_privilegeList E) then None else Some (g_privilegeList E ! unat code))"

text \<open>The callers ignore the result; of an unknown privilege they read what the variable on the stack holds.\<close>

definition timeout_of :: "'z priv_env_scheme \<Rightarrow> u32 \<Rightarrow> u32" where
  "timeout_of E code = (case GetPrivilegeBriefDef E code of None \<Rightarrow> stack_timeout E | Some d \<Rightarrow> bd_timeout d)"

section \<open>Clock and processes\<close>

definition GetUptimeMs :: "'z priv_env_scheme \<Rightarrow> priv_state \<Rightarrow> (ErrCode \<times> int) \<times> priv_state" where
  "GetUptimeMs E = pask (GetBootTimeMs E)"

definition AddTimePeriod :: "int \<Rightarrow> u32 \<Rightarrow> int" where
  "AddTimePeriod bootTimeStampMs period = bootTimeStampMs + uint (period * MILLI_SECONDS_PER_SECOND)"

definition DecTimePeriod :: "int \<Rightarrow> u32 \<Rightarrow> int" where
  "DecTimePeriod bootTimeStampMs period = bootTimeStampMs - uint (period * MILLI_SECONDS_PER_SECOND)"

definition OpenSmartPidFd :: "'z priv_env_scheme \<Rightarrow> int \<Rightarrow> priv_state \<Rightarrow> ErrCode \<times> priv_state" where
  "OpenSmartPidFd E pid st =
     (let (err, st1) = pask (pidfd_open E pid) st in
      case err of Some n \<Rightarrow> (ERR_EXTERNAL n, st1) | None \<Rightarrow> (ERR_OK, st1))"

text \<open>The parts of a line between the delimiters, empty ones left out; \<open>item\<close> holds the characters read so far.\<close>

fun split_loop :: "char \<Rightarrow> string \<Rightarrow> string \<Rightarrow> string list" where
  "split_loop delimiter item [] = (if item = [] then [] else [item])"
| "split_loop delimiter item (c # s) =
     (if c = delimiter then (if item = [] then [] else [item]) @ split_loop delimiter [] s
      else split_loop delimiter (item @ [c]) s)"

definition SplitString :: "string \<Rightarrow> char \<Rightarrow> string list" where
  "SplitString str delimiter = split_loop delimiter [] str"

definition GetStatInfo :: "'z priv_env_scheme \<Rightarrow> string \<Rightarrow> fs_state \<Rightarrow> (ErrCode \<times> string list) \<times> fs_state" where
  "GetStatInfo E path fs =
     (let (e, fs1) = sys_call E fs in
      case (e, fs_files fs1 path) of
        (None, Some statInfo) \<Rightarrow>
          let statInfo = (if CHR '')'' \<in> set statInfo then tl (dropWhile (\<lambda>c. c \<noteq> CHR '')'') statInfo) else statInfo) in
          ((ERR_OK, SplitString statInfo (CHR '' '')), fs1)
      | _ \<Rightarrow> ((ERR_ACCOUNT_COMMON_FILE_OPEN_FAILED, []), fs1))"

definition stat_path :: "int \<Rightarrow> string" where
  "stat_path pid = ''/proc/'' @ to_string_int pid @ ''/stat''"

text \<open>\<open>std::errc\<close>: no digit at all is 22, a number out of range 34.\<close>

definition GetProcessStartTime :: "'z priv_env_scheme \<Rightarrow> int \<Rightarrow> fs_state \<Rightarrow> (ErrCode \<times> int) \<times> fs_state" where
  "GetProcessStartTime E pid fs =
     (let (err, fs1) = CheckFileExistence E (stat_path pid) fs in
      if err \<noteq> ERR_OK then ((err, 0), fs1)
      else let ((err, statInfo), fs2) = GetStatInfo E (stat_path pid) fs1 in
      if err \<noteq> ERR_OK then ((err, 0), fs2)
      else if length statInfo \<le> START_TIME_INDEX then ((ERR_ACCOUNT_COMMON_FILE_READ_FAILED, 0), fs2)
      else let (timeStamp, ok, n) = from_chars (statInfo ! START_TIME_INDEX) 0 in
      if \<not> ok then ((ERR_EXTERNAL (if n = 0 then 22 else 34), 0), fs2)
      else ((ERR_OK, sint timeStamp), fs2))"

definition GetAcl :: "'z priv_env_scheme \<Rightarrow> int \<Rightarrow> priv_state \<Rightarrow> (ErrCode \<times> int) \<times> priv_state" where
  "GetAcl E pid st =
     (let (err, st1) = pask (encaps_open E) st in
      case err of
        Some n \<Rightarrow> if n = ENOENT then ((ERR_OK, -1), st1) else ((ERR_EXTERNAL n, -1), st1)
      | None \<Rightarrow> let (aclLevel, st2) = pask (encaps_ioctl E pid) st1 in ((ERR_OK, aclLevel), st2))"

section \<open>The record of a privilege\<close>

definition PrivilegeAuthStatusToString :: "PrivilegeAuthStatus \<Rightarrow> string" where
  "PrivilegeAuthStatusToString authType =
     (case authType of NOT_REQUIRED \<Rightarrow> ''NOT_REQUIRED'' | UNCONFIRMED \<Rightarrow> ''UNCONFIRMED'' | AUTHORIZED \<Rightarrow> ''AUTHORIZED'')"

definition StringToPrivilegeAuthStatus :: "string \<Rightarrow> PrivilegeAuthStatus" where
  "StringToPrivilegeAuthStatus s =
     (if s = ''AUTHORIZED'' then AUTHORIZED else if s = ''UNCONFIRMED'' then UNCONFIRMED else NOT_REQUIRED)"

definition PrivilegeRecord_FromJson :: "'z priv_env_scheme \<Rightarrow> json \<Rightarrow> PrivilegeRecord option" where
  "PrivilegeRecord_FromJson E j =
     (if \<not> IsObject (Some j) then None
      else case GetStringFromJson (Some j) ''privilegeName'' of None \<Rightarrow> None
      | Some privilegeName \<Rightarrow>
     (case TransferPrivilegeToCode E privilegeName of None \<Rightarrow> None
      | Some privilegeIdx \<Rightarrow>
     (case GetInt64FromJson (Some j) ''expiredTimeStamp'' of None \<Rightarrow> None
      | Some expiredTime \<Rightarrow>
     (case GetInt64FromJson (Some j) ''safeStartTime'' of None \<Rightarrow> None
      | Some safeStartTime \<Rightarrow>
          Some \<lparr>pv_privilegeIdx = privilegeIdx, pv_expiredTime = expiredTime, pv_safeStartTime = word_of_int safeStartTime,
                pv_authStatus = StringToPrivilegeAuthStatus (or_keep (GetStringFromJson (Some j) ''authStatus'') ''NOT_REQUIRED'')\<rparr>))))"

definition PrivilegeRecord_ToJson :: "'z priv_env_scheme \<Rightarrow> PrivilegeRecord \<Rightarrow> json option \<Rightarrow> ErrCode \<times> json option" where
  "PrivilegeRecord_ToJson E r arr =
     (if arr = None then (ERR_ACCOUNT_COMMON_NULL_PTR_ERROR, arr)
      else let (success, cur) =
             also_add (\<lambda>j. AddStringToJson j ''authStatus'' (PrivilegeAuthStatusToString (pv_authStatus r)))
             (also_add (\<lambda>j. AddInt64ToJson j ''safeStartTime'' (uint (pv_safeStartTime r)))
             (also_add (\<lambda>j. AddInt64ToJson j ''expiredTimeStamp'' (pv_expiredTime r))
             (also_add (\<lambda>j. AddStringToJson j ''privilegeName'' (TransferCodeToPrivilege E (pv_privilegeIdx r)))
             (True, CreateJson)))) in
      if \<not> success then (ERR_ACCOUNT_COMMON_DUMP_JSON_ERROR, arr)
      else let (added, arr1) = AddObjToArray arr cur in
      if \<not> added then (ERR_ACCOUNT_COMMON_DUMP_JSON_ERROR, arr) else (ERR_OK, arr1))"

definition GetRemainTimeSec ::
  "'z priv_env_scheme \<Rightarrow> PrivilegeRecord \<Rightarrow> int \<Rightarrow> priv_state \<Rightarrow> (ErrCode \<times> int) \<times> priv_state" where
  "GetRemainTimeSec E r currentTimeStamp st =
     (if currentTimeStamp < DecTimePeriod (pv_expiredTime r) EXPIRED_TIME_OFFSET
      then ((ERR_OK, sint (word_of_int ((pv_expiredTime r - currentTimeStamp) div MS_TO_SECOND) :: u32)), st)
      else if currentTimeStamp \<le> AddTimePeriod (pv_expiredTime r) EXPIRED_TIME_OFFSET
      then let ((ret, remainTimeSec, isValid), st1) =
             pask (CheckTimestampExpired E (pv_safeStartTime r) (timeout_of E (pv_privilegeIdx r))) st in
           if ret \<noteq> ERR_OK then ((ret, 0), st1)
           else if \<not> isValid then ((ERR_OK, 0), st1) else ((ERR_OK, remainTimeSec), st1)
      else ((ERR_OK, 0), st))"

definition NeedClean :: "PrivilegeRecord \<Rightarrow> int \<Rightarrow> bool" where
  "NeedClean r currentTimeStamp \<longleftrightarrow>
     pv_authStatus r = NOT_REQUIRED \<and> \<not> currentTimeStamp \<le> AddTimePeriod (pv_expiredTime r) EXPIRED_TIME_OFFSET"

section \<open>The records of a process\<close>

definition CreateEmptyProcessPrivilegeRecord ::
  "'z priv_env_scheme \<Rightarrow> AuthenCallerInfo \<Rightarrow> priv_state \<Rightarrow> (ErrCode \<times> ProcessPrivilegeRecord option) \<times> priv_state" where
  "CreateEmptyProcessPrivilegeRecord E callerInfo st =
     (if \<not> ci_remoteObject callerInfo then ((ERR_ACCOUNT_COMMON_NULL_PTR_ERROR, None), st)
      else let ((ret, startTime), st1) = on_fs (GetProcessStartTime E (ci_pid callerInfo)) st in
      if ret \<noteq> ERR_OK then ((ret, None), st1)
      else let (ret, st2) = OpenSmartPidFd E (ci_pid callerInfo) st1 in
      if ret \<noteq> ERR_OK then ((ret, None), st2)
      else let (added, st3) = pask (AddDeathRecipient E (ci_pid callerInfo)) st2 in
      if \<not> added then ((ERR_ACCOUNT_COMMON_ADD_DEATH_RECIPIENT, None), st3)
      else ((ERR_OK, Some \<lparr>privilegeRecordMap = [], pp_pid = ci_pid callerInfo, pp_uid = ci_uid callerInfo,
                           processStartTime = startTime\<rparr>), st3))"

fun ParsePrivilegeRecordJsonArray ::
  "'z priv_env_scheme \<Rightarrow> int \<Rightarrow> json list \<Rightarrow> (u32, PrivilegeRecord) smap \<Rightarrow> ErrCode \<times> (u32, PrivilegeRecord) smap" where
  "ParsePrivilegeRecordJsonArray E currentTime [] m = (ERR_OK, m)"
| "ParsePrivilegeRecordJsonArray E currentTime (item # items) m =
     (case PrivilegeRecord_FromJson E item of
        None \<Rightarrow> (ERR_ACCOUNT_COMMON_BAD_JSON_FORMAT_ERROR, m)
      | Some r \<Rightarrow>
          ParsePrivilegeRecordJsonArray E currentTime items
            (if NeedClean r currentTime then m else sm_put (pv_privilegeIdx r) r m))"

definition CheckProcessAlive :: "'z priv_env_scheme \<Rightarrow> ProcessPrivilegeRecord \<Rightarrow> priv_state \<Rightarrow> bool \<times> priv_state" where
  "CheckProcessAlive E p st =
     (if pp_pid p \<le> 0 then (False, st)
      else let ((ret, startTime), st1) = on_fs (GetProcessStartTime E (pp_pid p)) st in
           if ret \<noteq> ERR_OK then (False, st1) else (startTime = processStartTime p, st1))"

definition ProcessPrivilegeRecord_FromJson ::
  "'z priv_env_scheme \<Rightarrow> int \<Rightarrow> json \<Rightarrow> priv_state \<Rightarrow> (ErrCode \<times> ProcessPrivilegeRecord option) \<times> priv_state" where
  "ProcessPrivilegeRecord_FromJson E currTime j st =
     (case GetIntFromJson (Some j) ''pid'' of None \<Rightarrow> ((ERR_ACCOUNT_COMMON_BAD_JSON_FORMAT_ERROR, None), st)
      | Some pid \<Rightarrow>
     (case GetIntFromJson (Some j) ''uid'' of None \<Rightarrow> ((ERR_ACCOUNT_COMMON_BAD_JSON_FORMAT_ERROR, None), st)
      | Some uid \<Rightarrow>
     (case GetInt64FromJson (Some j) ''processStartTime'' of None \<Rightarrow> ((ERR_ACCOUNT_COMMON_BAD_JSON_FORMAT_ERROR, None), st)
      | Some startTime \<Rightarrow>
          let p = \<lparr>privilegeRecordMap = [], pp_pid = pid, pp_uid = uid, processStartTime = startTime\<rparr>;
              (alive, st1) = CheckProcessAlive E p st in
          if \<not> alive then ((ERR_AUTHORIZATION_CHECK_TIME_FAILED, None), st1)
          else let (ret, st2) = OpenSmartPidFd E pid st1 in
          if ret \<noteq> ERR_OK then ((ret, None), st2)
          else (case GetJsonArrayFromJson (Some j) ''privilegeRecords'' of
                  Some (JArr items) \<Rightarrow>
                    let (ret, m) = ParsePrivilegeRecordJsonArray E currTime items [] in
                    if ret \<noteq> ERR_OK then ((ret, None), st2)
                    else if m = [] then ((ERR_OK, None), st2)
                    else ((ERR_OK, Some (p\<lparr>privilegeRecordMap := m\<rparr>)), st2)
                | _ \<Rightarrow> ((ERR_ACCOUNT_COMMON_BAD_JSON_FORMAT_ERROR, None), st2)))))"

fun records_to_json :: "'z priv_env_scheme \<Rightarrow> (u32, PrivilegeRecord) smap \<Rightarrow> json option \<Rightarrow> ErrCode \<times> json option" where
  "records_to_json E [] arr = (ERR_OK, arr)"
| "records_to_json E ((key, value) # m) arr =
     (let (ret, arr1) = PrivilegeRecord_ToJson E value arr in
      if ret \<noteq> ERR_OK then (ret, arr1) else records_to_json E m arr1)"

definition ProcessPrivilegeRecord_ToJson :: "'z priv_env_scheme \<Rightarrow> ProcessPrivilegeRecord \<Rightarrow> ErrCode \<times> json option" where
  "ProcessPrivilegeRecord_ToJson E p =
     (if privilegeRecordMap p = [] then (ERR_OK, None)
      else let (success, j) =
             also_add (\<lambda>j. AddInt64ToJson j ''processStartTime'' (processStartTime p))
             (also_add (\<lambda>j. AddIntToJson j ''uid'' (pp_uid p))
             (also_add (\<lambda>j. AddIntToJson j ''pid'' (pp_pid p)) (True, CreateJson))) in
      if \<not> success then (ERR_ACCOUNT_COMMON_DUMP_JSON_ERROR, None)
      else let (ret, privilegesArray) = records_to_json E (privilegeRecordMap p) CreateJsonArray in
      if ret \<noteq> ERR_OK then (ret, None)
      else let (added, j1) = AddObjToJson j ''privilegeRecords'' privilegesArray in
      if \<not> added then (ERR_ACCOUNT_COMMON_DUMP_JSON_ERROR, None) else (ERR_OK, j1))"

definition Process_CheckPrivilege ::
  "'z priv_env_scheme \<Rightarrow> ProcessPrivilegeRecord \<Rightarrow> u32 \<Rightarrow> int \<Rightarrow> priv_state \<Rightarrow> (ErrCode \<times> int) \<times> priv_state" where
  "Process_CheckPrivilege E p privilegeIdx remainTime st =
     (let ((ret, currTime), st1) = GetUptimeMs E st in
      if ret \<noteq> ERR_OK then ((ret, remainTime), st1)
      else case map_of (privilegeRecordMap p) privilegeIdx of
             None \<Rightarrow> ((ERR_AUTHORIZATION_PRIVILEGE_DENIED, remainTime), st1)
           | Some r \<Rightarrow>
               if pv_authStatus r = AUTHORIZED then ((ERR_OK, INT32_MAX), st1)
               else if pv_authStatus r = UNCONFIRMED then ((ERR_AUTHORIZATION_PRIVILEGE_DENIED, remainTime), st1)
               else let ((ret, remainTimeTmp), st2) = GetRemainTimeSec E r currTime st1 in
               if ret \<noteq> ERR_OK then ((ret, remainTime), st2)
               else if remainTimeTmp = 0 then ((ERR_AUTHORIZATION_PRIVILEGE_DENIED, remainTime), st2)
               else ((ERR_OK, remainTimeTmp), st2))"

definition AddOrUpdatePrivilege ::
  "'z priv_env_scheme \<Rightarrow> u32 \<Rightarrow> u32 \<Rightarrow> ProcessPrivilegeRecord \<Rightarrow> priv_state \<Rightarrow> (ErrCode \<times> ProcessPrivilegeRecord) \<times> priv_state" where
  "AddOrUpdatePrivilege E privilegeIdx safeStartTime p st =
     (let ((ret, currTime), st1) = GetUptimeMs E st in
      if ret \<noteq> ERR_OK then ((ret, p), st1)
      else let newRecord = \<lparr>pv_privilegeIdx = privilegeIdx, pv_expiredTime = AddTimePeriod currTime (timeout_of E privilegeIdx),
                            pv_safeStartTime = safeStartTime, pv_authStatus = NOT_REQUIRED\<rparr> in
      ((ERR_OK, p\<lparr>privilegeRecordMap := sm_put privilegeIdx newRecord (privilegeRecordMap p)\<rparr>), st1))"

definition RemovePrivilege :: "u32 \<Rightarrow> ProcessPrivilegeRecord \<Rightarrow> PrivilegeRecord option \<times> ProcessPrivilegeRecord" where
  "RemovePrivilege privilegeIdx p =
     (case map_of (privilegeRecordMap p) privilegeIdx of
        None \<Rightarrow> (None, p)
      | Some r \<Rightarrow> (Some r, p\<lparr>privilegeRecordMap := sm_erase privilegeIdx (privilegeRecordMap p)\<rparr>))"

definition RollbackPrivilege :: "PrivilegeRecord option \<Rightarrow> ProcessPrivilegeRecord \<Rightarrow> ProcessPrivilegeRecord" where
  "RollbackPrivilege removedRecord p =
     (case removedRecord of None \<Rightarrow> p
      | Some r \<Rightarrow> p\<lparr>privilegeRecordMap := sm_put (pv_privilegeIdx r) r (privilegeRecordMap p)\<rparr>)"

definition CleanCurrentExpiredPrivileges :: "int \<Rightarrow> ProcessPrivilegeRecord \<Rightarrow> ProcessPrivilegeRecord" where
  "CleanCurrentExpiredPrivileges currentTimeStamp p =
     p\<lparr>privilegeRecordMap := filter (\<lambda>e. \<not> NeedClean (snd e) currentTimeStamp) (privilegeRecordMap p)\<rparr>"

text \<open>The user of a process; integer division of C++ rounds towards zero.\<close>

definition GetProcessLocalId :: "ProcessPrivilegeRecord \<Rightarrow> int" where
  "GetProcessLocalId p = sgn (pp_uid p) * (\<bar>pp_uid p\<bar> div UID_TRANSFORM_DIVISOR)"

section \<open>The file\<close>

definition GenerateDigestFromHuks ::
  "'z priv_env_scheme \<Rightarrow> int \<Rightarrow> string \<Rightarrow> priv_state \<Rightarrow> (ErrCode \<times> u8 list) \<times> priv_state" where
  "GenerateDigestFromHuks E updateTime jsonStr st =
     (if \<not> HAS_HUKS_PART E then ((ERR_OK, []), st)
      else let ((ret, digest), st1) = pask (GenerateAccountInfoDigest E (to_string_int updateTime @ '':'' @ jsonStr)) st in
           if ret \<noteq> ERR_OK then ((ret, []), st1) else ((ERR_OK, digest), st1))"

fun processes_to_json :: "'z priv_env_scheme \<Rightarrow> (int, ProcessPrivilegeRecord) smap \<Rightarrow> json option \<Rightarrow> json option option" where
  "processes_to_json E [] arr = Some arr"
| "processes_to_json E ((key, value) # m) arr =
     (let (ret, obj) = ProcessPrivilegeRecord_ToJson E value in
      if ret \<noteq> ERR_OK then None
      else case obj of None \<Rightarrow> processes_to_json E m arr
           | Some j \<Rightarrow> let (added, arr1) = AddObjToArray arr (Some j) in
                       if \<not> added then None else processes_to_json E m arr1)"

definition MapToJsonString :: "'z priv_env_scheme \<Rightarrow> (int, ProcessPrivilegeRecord) smap \<Rightarrow> string option" where
  "MapToJsonString E m =
     (case processes_to_json E m CreateJsonArray of None \<Rightarrow> None
      | Some processArray \<Rightarrow>
          let jsonStr = PackJsonToString E processArray in if jsonStr = [] then None else Some jsonStr)"

definition ToJsonString :: "'z priv_env_scheme \<Rightarrow> int \<Rightarrow> string \<Rightarrow> u8 list \<Rightarrow> ErrCode \<times> string" where
  "ToJsonString E currTime recordStr digest =
     (let (success, j) =
        also_add (\<lambda>j. AddStringToJson j ''processRecords'' recordStr)
        (also_add (\<lambda>j. AddVectorUint8ToJson j ''digest'' digest)
        (also_add (\<lambda>j. AddInt64ToJson j ''updateTime'' currTime) (True, CreateJson))) in
      if \<not> success then (ERR_ACCOUNT_COMMON_DUMP_JSON_ERROR, [])
      else let persistStr = PackJsonToString E j in
      if persistStr = [] then (ERR_ACCOUNT_COMMON_DUMP_JSON_ERROR, []) else (ERR_OK, persistStr))"

definition ToPersistFile :: "'z priv_env_scheme \<Rightarrow> int \<Rightarrow> priv_state \<Rightarrow> ErrCode \<times> priv_state" where
  "ToPersistFile E currTime st =
     (if processPrivilegeMap st = [] then (ERR_OK, snd (on_fs (DeleteFile E PRIVILEGE_CACHE_FILE_PATH) st))
      else case MapToJsonString E (processPrivilegeMap st) of
             None \<Rightarrow> (ERR_ACCOUNT_COMMON_DUMP_JSON_ERROR, st)
           | Some jsonStr \<Rightarrow>
               let ((ret, digest), st1) = GenerateDigestFromHuks E currTime jsonStr st in
               if ret \<noteq> ERR_OK then (ret, st1)
               else let (ret, persistStr) = ToJsonString E currTime jsonStr digest in
               if ret \<noteq> ERR_OK then (ret, st1)
               else on_fs (InputFileByPathAndContentWithTransaction E PRIVILEGE_CACHE_FILE_PATH persistStr) st1)"

definition CleanExpiredPrivilegesAndSaveToFile :: "'z priv_env_scheme \<Rightarrow> priv_state \<Rightarrow> ErrCode \<times> priv_state" where
  "CleanExpiredPrivilegesAndSaveToFile E st =
     (let ((ret, currTime), st1) = GetUptimeMs E st in
      if ret \<noteq> ERR_OK then (ret, st1)
      else ToPersistFile E currTime (st1\<lparr>processPrivilegeMap :=
             filter (\<lambda>e. privilegeRecordMap (snd e) \<noteq> [])
               (map (\<lambda>e. (fst e, CleanCurrentExpiredPrivileges currTime (snd e))) (processPrivilegeMap st1))\<rparr>))"

text \<open>\<open>CheckUpdateTimeValid\<close>; a file with a bad time is deleted.\<close>

definition CheckUpdateTimeValid ::
  "'z priv_env_scheme \<Rightarrow> json option \<Rightarrow> int \<Rightarrow> priv_state \<Rightarrow> (ErrCode \<times> int) \<times> priv_state" where
  "CheckUpdateTimeValid E j currTime st =
     (case GetInt64FromJson j ''updateTime'' of
        None \<Rightarrow> ((ERR_ACCOUNT_COMMON_BAD_JSON_FORMAT_ERROR, -1), snd (on_fs (DeleteFile E PRIVILEGE_CACHE_FILE_PATH) st))
      | Some updateTime \<Rightarrow>
          if updateTime \<ge> currTime
          then ((ERR_AUTHORIZATION_CHECK_TIME_FAILED, updateTime), snd (on_fs (DeleteFile E PRIVILEGE_CACHE_FILE_PATH) st))
          else ((ERR_OK, updateTime), st))"

definition CheckPersistDigestValid ::
  "'z priv_env_scheme \<Rightarrow> int \<Rightarrow> string \<Rightarrow> u8 list \<Rightarrow> priv_state \<Rightarrow> bool \<times> priv_state" where
  "CheckPersistDigestValid E updateTime processRecordsStr storedDigest st =
     (let ((ret, calculatedDigest), st1) = GenerateDigestFromHuks E updateTime processRecordsStr st in
      if ret \<noteq> ERR_OK then (False, st1)
      else if storedDigest \<noteq> calculatedDigest then (False, snd (on_fs (DeleteFile E PRIVILEGE_CACHE_FILE_PATH) st1))
      else (True, st1))"

text \<open>The text of the records, \<open>None\<close> when loading is to be skipped.\<close>

definition ReadAndCheckPersistRecordValid :: "'z priv_env_scheme \<Rightarrow> int \<Rightarrow> priv_state \<Rightarrow> string option \<times> priv_state" where
  "ReadAndCheckPersistRecordValid E currTime st =
     (let (ex, st1) = on_fs (IsExistFile E PRIVILEGE_CACHE_FILE_PATH) st in
      if \<not> ex then (None, st1)
      else let ((ret, fileContent), st2) = on_fs (GetFileContentByPath E PRIVILEGE_CACHE_FILE_PATH []) st1 in
      if ret \<noteq> ERR_OK then (None, st2)
      else let j = CreateJsonFromString E fileContent in
      if \<not> IsObject j then (None, st2)
      else let ((ret, updateTime), st3) = CheckUpdateTimeValid E j currTime st2 in
      if ret \<noteq> ERR_OK then (None, st3)
      else let storedDigest = GetVectorUint8FromJson j ''digest'' in
      case GetStringFromJson j ''processRecords'' of
        None \<Rightarrow> (None, st3)
      | Some processRecordsStr \<Rightarrow>
          let (valid, st4) = CheckPersistDigestValid E updateTime processRecordsStr storedDigest st3 in
          if \<not> valid then (None, st4) else (Some processRecordsStr, st4))"

fun load_loop :: "'z priv_env_scheme \<Rightarrow> int \<Rightarrow> json list \<Rightarrow> priv_state \<Rightarrow> priv_state" where
  "load_loop E currentTime [] st = st"
| "load_loop E currentTime (item # items) st =
     (let ((ret, p), st1) = ProcessPrivilegeRecord_FromJson E currentTime item st in
      load_loop E currentTime items
        (if ret \<noteq> ERR_OK then st1
         else case p of None \<Rightarrow> st1
              | Some p \<Rightarrow> st1\<lparr>processPrivilegeMap := sm_put (pp_pid p) p (processPrivilegeMap st1)\<rparr>))"

definition FromPersistFile :: "'z priv_env_scheme \<Rightarrow> priv_state \<Rightarrow> ErrCode \<times> priv_state" where
  "FromPersistFile E st =
     (let ((ret, currentTime), st1) = GetUptimeMs E st in
      if ret \<noteq> ERR_OK then (ret, st1)
      else let (recordStr, st2) = ReadAndCheckPersistRecordValid E currentTime st1 in
      case recordStr of None \<Rightarrow> (ERR_OK, st2)
      | Some s \<Rightarrow>
          (case CreateJsonFromString E s of
             Some (JArr items) \<Rightarrow> (ERR_OK, load_loop E currentTime items st2)
           | _ \<Rightarrow> (ERR_ACCOUNT_COMMON_BAD_JSON_FORMAT_ERROR, st2)))"

section \<open>Requests\<close>

text \<open>The thread is started here and runs \<open>RunCleanTask\<close> at a later time.\<close>

definition StartCleanTask :: "priv_state \<Rightarrow> priv_state" where
  "StartCleanTask st = st\<lparr>pc_tasks := Suc (pc_tasks st)\<rparr>"

definition RunCleanTask :: "'z priv_env_scheme \<Rightarrow> priv_state \<Rightarrow> ErrCode \<times> priv_state" where
  "RunCleanTask E st =
     (if pc_tasks st = 0 then (ERR_OK, st)
      else (ERR_OK, snd (CleanExpiredPrivilegesAndSaveToFile E (st\<lparr>pc_tasks := pc_tasks st - 1\<rparr>))))"

text \<open>The first step of \<open>CheckPrivilege\<close>, the answer of the cache when it is final.\<close>

definition check_cache ::
  "'z priv_env_scheme \<Rightarrow> AuthenCallerInfo \<Rightarrow> int \<Rightarrow> priv_state \<Rightarrow> (ErrCode \<times> int) option \<times> priv_state" where
  "check_cache E callerInfo remainTime st =
     (case map_of (processPrivilegeMap st) (ci_pid callerInfo) of
        None \<Rightarrow> (None, st)
      | Some p \<Rightarrow>
          let ((ret, remainTime), st1) = Process_CheckPrivilege E p (ci_privilegeIdx callerInfo) remainTime st in
          if ret \<noteq> ERR_AUTHORIZATION_PRIVILEGE_DENIED then (Some (ret, remainTime), st1)
          else case map_of (privilegeRecordMap p) (ci_privilegeIdx callerInfo) of
                 Some r \<Rightarrow> if pv_authStatus r \<noteq> NOT_REQUIRED
                           then (Some (ERR_AUTHORIZATION_PRIVILEGE_DENIED, remainTime), st1) else (None, st1)
               | None \<Rightarrow> (None, st1))"

definition CheckPrivilege ::
  "'z priv_env_scheme \<Rightarrow> AuthenCallerInfo \<Rightarrow> int \<Rightarrow> priv_state \<Rightarrow> (ErrCode \<times> int) \<times> priv_state" where
  "CheckPrivilege E callerInfo remainTime st =
     (case check_cache E callerInfo remainTime st of
        (Some answer, st1) \<Rightarrow> (answer, st1)
      | (None, st1) \<Rightarrow>
          let ((ret, aclLevel), st2) = GetAcl E (ci_pid callerInfo) st1 in
          if ret \<noteq> ERR_OK then ((ret, -1), st2)
          else if aclLevel \<ge> 1 then ((ERR_OK, -1), st2)
          else ((ERR_AUTHORIZATION_PRIVILEGE_DENIED, -1), StartCleanTask st2))"

text \<open>
  \<open>RollbackDelSingleRecord\<close>: the process is still in the map, or it was taken out because it had no record left; its
  shared record then holds no privilege.
\<close>

definition RollbackDelSingleRecord :: "ProcessPrivilegeRecord \<Rightarrow> PrivilegeRecord option \<Rightarrow> priv_state \<Rightarrow> priv_state" where
  "RollbackDelSingleRecord p removedRecord st =
     (if removedRecord = None then st
      else let p1 = (case map_of (processPrivilegeMap st) (pp_pid p) of
                       None \<Rightarrow> p\<lparr>privilegeRecordMap := []\<rparr> | Some q \<Rightarrow> q) in
      st\<lparr>processPrivilegeMap := sm_put (pp_pid p) (RollbackPrivilege removedRecord p1) (processPrivilegeMap st)\<rparr>)"

definition RemoveSingle :: "'z priv_env_scheme \<Rightarrow> AuthenCallerInfo \<Rightarrow> priv_state \<Rightarrow> ErrCode \<times> priv_state" where
  "RemoveSingle E callerInfo st =
     (case map_of (processPrivilegeMap st) (ci_pid callerInfo) of
        None \<Rightarrow> (ERR_OK, st)
      | Some p \<Rightarrow>
          let (removedRecord, p1) = RemovePrivilege (ci_privilegeIdx callerInfo) p;
              st1 = st\<lparr>processPrivilegeMap :=
                (if privilegeRecordMap p1 = [] then sm_erase (ci_pid callerInfo) (processPrivilegeMap st)
                 else sm_put (ci_pid callerInfo) p1 (processPrivilegeMap st))\<rparr>;
              (ret, st2) = CleanExpiredPrivilegesAndSaveToFile E st1 in
          if ret \<noteq> ERR_OK then (ret, RollbackDelSingleRecord p1 removedRecord st2) else (ret, st2))"

definition AddNewProcessCacheInner ::
  "'z priv_env_scheme \<Rightarrow> AuthenCallerInfo \<Rightarrow> u32 \<Rightarrow> priv_state \<Rightarrow> ErrCode \<times> priv_state" where
  "AddNewProcessCacheInner E callerInfo safeStartTime st =
     (case CreateEmptyProcessPrivilegeRecord E callerInfo st of
        ((ret, Some p), st1) \<Rightarrow>
          let ((ret, p1), st2) = AddOrUpdatePrivilege E (ci_privilegeIdx callerInfo) safeStartTime p st1 in
          if ret \<noteq> ERR_OK then (ret, st2)
          else (ERR_OK, snd (CleanExpiredPrivilegesAndSaveToFile E
                 (st2\<lparr>processPrivilegeMap := sm_put (ci_pid callerInfo) p1 (processPrivilegeMap st2)\<rparr>)))
      | ((ret, None), st1) \<Rightarrow> (ret, st1))"

definition AddCache :: "'z priv_env_scheme \<Rightarrow> AuthenCallerInfo \<Rightarrow> u32 \<Rightarrow> priv_state \<Rightarrow> ErrCode \<times> priv_state" where
  "AddCache E callerInfo safeStartTime st =
     (case map_of (processPrivilegeMap st) (ci_pid callerInfo) of
        None \<Rightarrow> AddNewProcessCacheInner E callerInfo safeStartTime st
      | Some p \<Rightarrow>
          let ((ret, p1), st1) = AddOrUpdatePrivilege E (ci_privilegeIdx callerInfo) safeStartTime p st in
          if ret \<noteq> ERR_OK then (ret, st1)
          else (ERR_OK, snd (CleanExpiredPrivilegesAndSaveToFile E
                 (st1\<lparr>processPrivilegeMap := sm_put (ci_pid callerInfo) p1 (processPrivilegeMap st1)\<rparr>))))"

definition SetAuthStatusForRecord ::
  "int \<Rightarrow> u32 \<Rightarrow> PrivilegeAuthStatus \<Rightarrow> priv_state \<Rightarrow> ErrCode \<times> priv_state" where
  "SetAuthStatusForRecord pid privilegeIdx authType st =
     (case map_of (processPrivilegeMap st) pid of
        None \<Rightarrow> (ERR_AUTHORIZATION_NO_CACHE, st)
      | Some p \<Rightarrow>
     (case map_of (privilegeRecordMap p) privilegeIdx of
        None \<Rightarrow> (ERR_AUTHORIZATION_NO_CACHE, st)
      | Some r \<Rightarrow>
          (ERR_OK, st\<lparr>processPrivilegeMap := sm_put pid
             (p\<lparr>privilegeRecordMap := sm_put privilegeIdx (r\<lparr>pv_authStatus := authType\<rparr>) (privilegeRecordMap p)\<rparr>)
             (processPrivilegeMap st)\<rparr>)))"

definition PrepareKernelAuthCache ::
  "'z priv_env_scheme \<Rightarrow> AuthenCallerInfo \<Rightarrow> priv_state \<Rightarrow> (ErrCode \<times> int) \<times> priv_state" where
  "PrepareKernelAuthCache E callerInfo st =
     (let ((ret, p), st1) =
            (case map_of (processPrivilegeMap st) (ci_pid callerInfo) of
               None \<Rightarrow> CreateEmptyProcessPrivilegeRecord E callerInfo st
             | Some p \<Rightarrow> ((ERR_OK, Some p), st)) in
      case p of None \<Rightarrow> ((ret, 0), st1)
      | Some p \<Rightarrow>
          let newRecord = \<lparr>pv_privilegeIdx = ci_privilegeIdx callerInfo, pv_expiredTime = INT64_MAX, pv_safeStartTime = 0,
                           pv_authStatus = UNCONFIRMED\<rparr>;
              p1 = p\<lparr>privilegeRecordMap := sm_put (ci_privilegeIdx callerInfo) newRecord (privilegeRecordMap p)\<rparr>;
              st2 = st1\<lparr>processPrivilegeMap := sm_put (ci_pid callerInfo) p1 (processPrivilegeMap st1)\<rparr>;
              ((ret, time), st3) = GetUptimeMs E st2;
              currTime = (if ret \<noteq> ERR_OK then 0 else time);
              (ret, st4) = ToPersistFile E currTime st3 in
          if ret \<noteq> ERR_OK then ((ret, currTime), snd (RemoveSingle E callerInfo st4)) else ((ERR_OK, currTime), st4))"

definition AddCacheAndNotifyKernel ::
  "'z priv_env_scheme \<Rightarrow> AuthenCallerInfo \<Rightarrow> string \<Rightarrow> priv_state \<Rightarrow> ErrCode \<times> priv_state" where
  "AddCacheAndNotifyKernel E callerInfo kernelPermission st =
     (let ((ret, currTime), st1) = PrepareKernelAuthCache E callerInfo st in
      if ret \<noteq> ERR_OK then (ret, st1)
      else let (ret, st2) = pask (SetKernelAuthorization E (ci_pid callerInfo) kernelPermission) st1 in
      if ret = ERR_AUTHORIZATION_KERNEL_DEVICE_NOT_FOUND
      then (ERR_AUTHORIZATION_KERNEL_DEVICE_NOT_FOUND, snd (RemoveSingle E callerInfo st2))
      else if ret \<noteq> ERR_OK then (ERR_AUTHORIZATION_KERNEL_NOTIFY_FAILED, snd (RemoveSingle E callerInfo st2))
      else let (ret, st3) = SetAuthStatusForRecord (ci_pid callerInfo) (ci_privilegeIdx callerInfo) AUTHORIZED st2 in
      if ret \<noteq> ERR_OK then (ERR_OK, st3)
      else let (ret, st4) = ToPersistFile E currTime st3 in
      if ret \<noteq> ERR_OK
      then (ERR_OK, snd (SetAuthStatusForRecord (ci_pid callerInfo) (ci_privilegeIdx callerInfo) UNCONFIRMED st4))
      else (ERR_OK, st4))"

text \<open>The record is shared with the map, where it is changed.\<close>

definition UpdateToAuthorized :: "'z priv_env_scheme \<Rightarrow> int \<Rightarrow> u32 \<Rightarrow> priv_state \<Rightarrow> priv_state" where
  "UpdateToAuthorized E pid privilegeIdx st =
     (let ((uptimeRet, currTime), st1) = GetUptimeMs E st in
      if uptimeRet \<noteq> ERR_OK then st1
      else let st2 = snd (SetAuthStatusForRecord pid privilegeIdx AUTHORIZED st1);
               (persistRet, st3) = ToPersistFile E currTime st2 in
      if persistRet \<noteq> ERR_OK then snd (SetAuthStatusForRecord pid privilegeIdx UNCONFIRMED st3) else st3)"

definition HasKernelAuthorization ::
  "'z priv_env_scheme \<Rightarrow> int \<Rightarrow> u32 \<Rightarrow> string \<Rightarrow> priv_state \<Rightarrow> (ErrCode \<times> bool) \<times> priv_state" where
  "HasKernelAuthorization E pid privilegeIdx kernelPermission st =
     (case map_of (processPrivilegeMap st) pid of
        None \<Rightarrow> ((ERR_OK, False), st)
      | Some p \<Rightarrow>
     (case map_of (privilegeRecordMap p) privilegeIdx of
        None \<Rightarrow> ((ERR_OK, False), st)
      | Some r \<Rightarrow>
          if pv_authStatus r = AUTHORIZED then ((ERR_OK, True), st)
          else if pv_authStatus r = NOT_REQUIRED then ((ERR_OK, False), st)
          else let ((ret, kernelAuthorized), st1) = pask (QueryKernelAuthorization E pid kernelPermission) st in
          if ret = ERR_AUTHORIZATION_KERNEL_DEVICE_NOT_FOUND then ((ERR_AUTHORIZATION_KERNEL_DEVICE_NOT_FOUND, False), st1)
          else if ret \<noteq> ERR_OK then ((ERR_ACCOUNT_COMMON_SYSTEM_SERVICE_EXCEPTION, False), st1)
          else if kernelAuthorized then ((ERR_OK, True), UpdateToAuthorized E pid privilegeIdx st1)
          else ((ERR_OK, False), snd (RemoveSingle E
                 \<lparr>ci_pid = pid, ci_uid = 0, ci_privilegeIdx = privilegeIdx, ci_remoteObject = False\<rparr> st1))))"

definition RemoveUser :: "'z priv_env_scheme \<Rightarrow> int \<Rightarrow> priv_state \<Rightarrow> ErrCode \<times> priv_state" where
  "RemoveUser E localId st =
     (ERR_OK, snd (CleanExpiredPrivilegesAndSaveToFile E
        (st\<lparr>processPrivilegeMap := filter (\<lambda>e. GetProcessLocalId (snd e) \<noteq> localId) (processPrivilegeMap st)\<rparr>)))"

definition RemoveProcess :: "'z priv_env_scheme \<Rightarrow> int \<Rightarrow> priv_state \<Rightarrow> ErrCode \<times> priv_state" where
  "RemoveProcess E pid st =
     (case map_of (processPrivilegeMap st) pid of
        None \<Rightarrow> (ERR_OK, st)
      | Some _ \<Rightarrow> (ERR_OK, snd (CleanExpiredPrivilegesAndSaveToFile E
                    (st\<lparr>processPrivilegeMap := sm_erase pid (processPrivilegeMap st)\<rparr>))))"

definition OnRemoteDied :: "'z priv_env_scheme \<Rightarrow> int \<Rightarrow> priv_state \<Rightarrow> priv_state" where
  "OnRemoteDied E pid st = snd (RemoveProcess E pid st)"

end
