(* ===== verification/Privilege_File.thy ===== *)
theory Privilege_File
  imports Privilege_Cache
begin

text \<open>
  What the file of the privilege cache holds and what is read back from it: the JSON form of a cache, and that loading it gives the
  cache without the records that have expired and the processes that are gone.
\<close>

section \<open>The list of privileges\<close>

text \<open>The generated list: names are C strings, each is listed once, and a 32-bit index is enough.\<close>

definition privileges_ok :: "'z priv_env_scheme \<Rightarrow> bool" where
  "privileges_ok E \<longleftrightarrow> distinct (map bd_privilegeName (g_privilegeList E)) \<and> length (g_privilegeList E) < 2 ^ 32
     \<and> (\<forall>d \<in> set (g_privilegeList E). nul_free (bd_privilegeName d))"

abbreviation init_step :: "nat \<times> PrivilegeBriefDef \<Rightarrow> (string, u32) smap \<Rightarrow> (string, u32) smap" where
  "init_step \<equiv> \<lambda>(i, d). sm_put (c_str (bd_privilegeName d)) (of_nat i)"

lemma init_other:
  "nm \<notin> (\<lambda>d. c_str (bd_privilegeName d)) ` set ds \<Longrightarrow> map_of (fold init_step (List.enumerate n ds) m) nm = map_of m nm"
  by (induction ds arbitrary: n m) auto

lemma init_found:
  assumes "distinct (map bd_privilegeName ds)" and "\<forall>d \<in> set ds. nul_free (bd_privilegeName d)" and "i < length ds"
  shows "map_of (fold init_step (List.enumerate n ds) m) (bd_privilegeName (ds ! i)) = Some (of_nat (n + i))"
  using assms
proof (induction ds arbitrary: n m i)
  case (Cons d ds)
  show ?case
  proof (cases i)
    case 0
    have "c_str (bd_privilegeName d) \<notin> (\<lambda>d. c_str (bd_privilegeName d)) ` set ds" using Cons.prems by (auto simp: image_iff)
    with 0 Cons.prems show ?thesis by (simp add: init_other)
  next
    case (Suc j)
    have "bd_privilegeName (ds ! j) \<noteq> bd_privilegeName d" using Cons.prems Suc by (metis Suc_less_eq distinct.simps(2) length_Cons length_map list.simps(9) nth_map nth_mem)
    with Suc Cons show ?thesis by simp
  qed
qed simp

lemma code_name_code:
  assumes "privileges_ok E" and "unat idx < length (g_privilegeList E)"
  shows "TransferPrivilegeToCode E (TransferCodeToPrivilege E idx) = Some idx"
    and "nul_free (TransferCodeToPrivilege E idx)"
proof -
  have "nul_free (bd_privilegeName (g_privilegeList E ! unat idx))" using assms by (simp add: privileges_ok_def)
  then show "TransferPrivilegeToCode E (TransferCodeToPrivilege E idx) = Some idx"
    using init_found [of "g_privilegeList E" "unat idx" 0 "[]"] assms
    by (simp add: TransferPrivilegeToCode_def TransferCodeToPrivilege_def InitMap_def privileges_ok_def)
qed (use assms in \<open>simp add: TransferCodeToPrivilege_def\<close>)

section \<open>The JSON form\<close>

definition record_json :: "'z priv_env_scheme \<Rightarrow> PrivilegeRecord \<Rightarrow> json" where
  "record_json E r = JObj [(''privilegeName'', JStr (TransferCodeToPrivilege E (pv_privilegeIdx r))),
     (''expiredTimeStamp'', JStr (to_string_int (pv_expiredTime r))),
     (''safeStartTime'', JStr (to_string_int (uint (pv_safeStartTime r)))),
     (''authStatus'', JStr (PrivilegeAuthStatusToString (pv_authStatus r)))]"

definition process_json :: "'z priv_env_scheme \<Rightarrow> ProcessPrivilegeRecord \<Rightarrow> json" where
  "process_json E p = JObj [(''pid'', JNum (pp_pid p)), (''uid'', JNum (pp_uid p)),
     (''processStartTime'', JStr (to_string_int (processStartTime p))),
     (''privilegeRecords'', JArr (map (\<lambda>e. record_json E (snd e)) (privilegeRecordMap p)))]"

definition cache_json :: "'z priv_env_scheme \<Rightarrow> (int, ProcessPrivilegeRecord) smap \<Rightarrow> json" where
  "cache_json E m = JArr (map (\<lambda>e. process_json E (snd e)) m)"

definition file_json :: "'z priv_env_scheme \<Rightarrow> int \<Rightarrow> string \<Rightarrow> u8 list \<Rightarrow> json" where
  "file_json E t s digest = JObj [(''updateTime'', JStr (to_string_int t)), (''digest'', JArr (map (\<lambda>b. JNum (uint b)) digest)),
     (''processRecords'', JStr (c_str s))]"

text \<open>The records that the service makes: an index of the list, times and ids in the range of their type.\<close>

definition record_wf :: "'z priv_env_scheme \<Rightarrow> u32 \<Rightarrow> PrivilegeRecord \<Rightarrow> bool" where
  "record_wf E idx r \<longleftrightarrow> pv_privilegeIdx r = idx \<and> unat idx < length (g_privilegeList E) \<and> int64 (pv_expiredTime r)"

definition process_wf :: "'z priv_env_scheme \<Rightarrow> int \<Rightarrow> ProcessPrivilegeRecord \<Rightarrow> bool" where
  "process_wf E pid p \<longleftrightarrow> pp_pid p = pid \<and> int32 pid \<and> int32 (pp_uid p) \<and> int64 (processStartTime p)
     \<and> sm_wf (privilegeRecordMap p) \<and> privilegeRecordMap p \<noteq> []
     \<and> (\<forall>idx r. map_of (privilegeRecordMap p) idx = Some r \<longrightarrow> record_wf E idx r)"

definition cache_wf :: "'z priv_env_scheme \<Rightarrow> (int, ProcessPrivilegeRecord) smap \<Rightarrow> bool" where
  "cache_wf E m \<longleftrightarrow> sm_wf m \<and> (\<forall>pid p. map_of m pid = Some p \<longrightarrow> process_wf E pid p)"

lemma smap_forall: "sm_wf m \<Longrightarrow> (\<forall>k v. map_of m k = Some v \<longrightarrow> P k v) \<longleftrightarrow> (\<forall>e \<in> set m. P (fst e) (snd e))"
  using map_of_eq_Some_iff [OF sm_wf_distinct, of m] by fastforce

lemmas add_json_defs = also_add_def AddStringToJson_def AddInt64ToJson_def AddIntToJson_def AddVectorUint8ToJson_def AddItem_def
  CreateJson_def obj_put_def AddObjToArray_def AddObjToJson_def CreateJsonArray_def

lemma record_ToJson:
  assumes "privileges_ok E" and "record_wf E idx r"
  shows "PrivilegeRecord_ToJson E r (Some (JArr xs)) = (ERR_OK, Some (JArr (xs @ [record_json E r])))"
proof -
  have "nul_free (TransferCodeToPrivilege E (pv_privilegeIdx r))" using code_name_code(2) assms by (auto simp: record_wf_def)
  moreover have "nul_free (PrivilegeAuthStatusToString s)" for s by (cases s) (simp_all add: PrivilegeAuthStatusToString_def)
  ultimately show ?thesis by (simp add: PrivilegeRecord_ToJson_def add_json_defs record_json_def)
qed

lemma records_to_json:
  assumes "privileges_ok E" and "\<forall>e \<in> set m. record_wf E (fst e) (snd e)"
  shows "records_to_json E m (Some (JArr xs)) = (ERR_OK, Some (JArr (xs @ map (\<lambda>e. record_json E (snd e)) m)))"
  using assms(2)
proof (induction m arbitrary: xs)
  case (Cons e m)
  obtain k r where e: "e = (k, r)" by (cases e)
  with Cons.prems have "record_wf E k r" by simp
  from record_ToJson [OF assms(1) this] Cons show ?case by (simp add: e)
qed simp

lemma process_ToJson:
  assumes "privileges_ok E" and "process_wf E pid p"
  shows "ProcessPrivilegeRecord_ToJson E p = (ERR_OK, Some (process_json E p))"
proof -
  have "\<forall>e \<in> set (privilegeRecordMap p). record_wf E (fst e) (snd e)" "privilegeRecordMap p \<noteq> []"
    using assms(2) smap_forall [of "privilegeRecordMap p" "record_wf E"] by (simp_all add: process_wf_def)
  then show ?thesis
    using records_to_json [OF assms(1), of "privilegeRecordMap p" "[]"]
    by (simp add: ProcessPrivilegeRecord_ToJson_def add_json_defs process_json_def)
qed

lemma processes_to_json:
  assumes "privileges_ok E" and "\<forall>e \<in> set m. process_wf E (fst e) (snd e)"
  shows "processes_to_json E m (Some (JArr xs)) = Some (Some (JArr (xs @ map (\<lambda>e. process_json E (snd e)) m)))"
  using assms(2)
proof (induction m arbitrary: xs)
  case (Cons e m)
  obtain k p where e: "e = (k, p)" by (cases e)
  with Cons.prems have "process_wf E k p" by simp
  from process_ToJson [OF assms(1) this] Cons show ?case by (simp add: e AddObjToArray_def)
qed simp

lemma record_json_wf: "privileges_ok E \<Longrightarrow> record_wf E idx r \<Longrightarrow> json_wf (record_json E r)"
  using code_name_code(2) [of E "pv_privilegeIdx r"]
  by (cases "pv_authStatus r") (auto simp: record_json_def record_wf_def PrivilegeAuthStatusToString_def)

lemma process_json_wf:
  assumes "privileges_ok E" and "process_wf E pid p"
  shows "json_wf (process_json E p)"
proof -
  have "\<forall>e \<in> set (privilegeRecordMap p). record_wf E (fst e) (snd e)"
    using assms(2) smap_forall [of "privilegeRecordMap p" "record_wf E"] by (simp add: process_wf_def)
  then have "\<forall>e \<in> set (privilegeRecordMap p). json_wf (record_json E (snd e))" using record_json_wf [OF assms(1)] by blast
  then show ?thesis using assms(2) by (auto simp: process_json_def process_wf_def)
qed

lemma MapToJson:
  assumes "privileges_ok E" and "cjson_ok E" and "cache_wf E m"
  shows "\<exists>s. MapToJsonString E m = Some s \<and> nul_free s \<and> CreateJsonFromString E s = Some (cache_json E m)"
proof -
  have ok: "\<forall>e \<in> set m. process_wf E (fst e) (snd e)" using assms(3) smap_forall [of m "process_wf E"] by (simp add: cache_wf_def)
  then have wf: "json_wf (cache_json E m)" using process_json_wf [OF assms(1)] by (auto simp: cache_json_def)
  show ?thesis
    using pack_then_create [OF assms(2) wf] processes_to_json [OF assms(1) ok, of "[]"]
    by (simp add: MapToJsonString_def CreateJsonArray_def cache_json_def)
qed

lemma ToJsonString_text:
  assumes "cjson_ok E" and "ToJsonString E t s digest = (r, c)"
  shows "r = ERR_OK \<and> CreateJsonFromString E c = Some (file_json E t s digest)"
proof -
  have "\<bar>uint b\<bar> < 9007199254740992" for b :: u8 using uint_lt2p [of b] by simp
  then have "json_wf (file_json E t s digest)" by (auto simp: file_json_def)
  from pack_then_create [OF assms(1) this] assms(2) show ?thesis
    by (auto simp: ToJsonString_def add_json_defs file_json_def)
qed

section \<open>Reading a record\<close>

lemma status_roundtrip [simp]: "StringToPrivilegeAuthStatus (PrivilegeAuthStatusToString s) = s"
  by (cases s) (simp_all add: StringToPrivilegeAuthStatus_def PrivilegeAuthStatusToString_def)

lemma record_FromJson:
  assumes "privileges_ok E" and "record_wf E idx r"
  shows "PrivilegeRecord_FromJson E (record_json E r) = Some r"
proof -
  have u: "int64 (uint w)" for w :: u32 using uint_lt2p [of w] by (auto intro: order_trans [of _ 0])
  have "TransferPrivilegeToCode E (TransferCodeToPrivilege E (pv_privilegeIdx r)) = Some (pv_privilegeIdx r)"
    using code_name_code(1) assms by (auto simp: record_wf_def)
  moreover have "GetInt64FromJson (Some (record_json E r)) ''expiredTimeStamp'' = Some (pv_expiredTime r)"
    by (rule GetInt64_text) (use assms(2) in \<open>simp_all add: record_json_def record_wf_def\<close>)
  moreover have "GetInt64FromJson (Some (record_json E r)) ''safeStartTime'' = Some (uint (pv_safeStartTime r))"
    by (rule GetInt64_text) (use u in \<open>simp_all add: record_json_def\<close>)
  moreover have "GetStringFromJson (Some (record_json E r)) ''privilegeName'' = Some (TransferCodeToPrivilege E (pv_privilegeIdx r))"
    "GetStringFromJson (Some (record_json E r)) ''authStatus'' = Some (PrivilegeAuthStatusToString (pv_authStatus r))"
    "IsObject (Some (record_json E r))" by (simp_all add: GetStringFromJson_def record_json_def IsObject_def)
  ultimately show ?thesis by (simp add: PrivilegeRecord_FromJson_def or_keep_def)
qed

abbreviation live_records :: "int \<Rightarrow> (u32, PrivilegeRecord) smap \<Rightarrow> (u32, PrivilegeRecord) smap" where
  "live_records t m \<equiv> filter (\<lambda>e. \<not> NeedClean (snd e) t) m"

lemma put_last: "sm_wf (m @ [(k, v)]) \<Longrightarrow> sm_put k v m = m @ [(k, v)]"
  by (induction m) (auto simp: sm_wf_def dest: order.asym)

lemma ParseArray:
  assumes "privileges_ok E" and "sm_wf (acc @ m)" and "\<forall>e \<in> set m. record_wf E (fst e) (snd e)"
  shows "ParsePrivilegeRecordJsonArray E t (map (\<lambda>e. record_json E (snd e)) m) acc = (ERR_OK, acc @ live_records t m)"
  using assms(2,3)
proof (induction m arbitrary: acc)
  case (Cons e m)
  obtain k r where e: "e = (k, r)" by (cases e)
  with Cons.prems have r: "record_wf E k r" "pv_privilegeIdx r = k" by (simp_all add: record_wf_def)
  have wf: "sm_wf (acc @ [(k, r)])" "sm_wf (acc @ m)" "sm_wf ((acc @ [(k, r)]) @ m)"
    using Cons.prems(1) by (auto simp: sm_wf_def sorted_wrt_append e)
  show ?case
    using Cons.IH [OF wf(2)] Cons.IH [OF wf(3)] Cons.prems(2) put_last [OF wf(1)]
    by (simp add: e record_FromJson [OF assms(1) r(1)] r(2))
qed simp

section \<open>What the calls leave alone\<close>

abbreviation cache_file :: "priv_state \<Rightarrow> string option" where
  "cache_file st \<equiv> fs_files (pc_fs st) PRIVILEGE_CACHE_FILE_PATH"

definition unchanged :: "priv_state \<Rightarrow> priv_state \<Rightarrow> bool" where
  "unchanged st st' \<longleftrightarrow> processPrivilegeMap st' = processPrivilegeMap st \<and> fs_files (pc_fs st') = fs_files (pc_fs st)
     \<and> pc_calls st \<le> pc_calls st' \<and> pc_tasks st' = pc_tasks st"

lemma unchanged_refl [simp]: "unchanged st st"
  by (simp add: unchanged_def)

lemma unchanged_trans [trans]: "unchanged a b \<Longrightarrow> unchanged b c \<Longrightarrow> unchanged a c"
  by (auto simp: unchanged_def)

lemma pask_unchanged: "pask f st = (x, st') \<Longrightarrow> unchanged st st'"
  by (auto simp: pask_def unchanged_def)

lemma pask_snd [simp]: "unchanged st (snd (pask f st))"
  by (simp add: pask_def unchanged_def)

lemma uptime_unchanged: "GetUptimeMs E st = (x, st') \<Longrightarrow> unchanged st st'"
  by (auto simp: GetUptimeMs_def dest: pask_unchanged)

lemma on_fs_unchanged:
  assumes "on_fs f st = (x, st')" and "\<And>fs. fs_files (snd (f fs)) = fs_files fs"
  shows "unchanged st st'"
  using assms(1) assms(2) [of "pc_fs st"] by (auto simp: on_fs_def unchanged_def split_beta)

lemma GetStatInfo_files [simp]: "fs_files (snd (GetStatInfo E path fs)) = fs_files fs"
proof -
  obtain e fs1 where 1: "sys_call E fs = (e, fs1)" by (cases "sys_call E fs")
  then have "fs_files fs1 = fs_files fs" by (metis snd_conv sys_call_files)
  then show ?thesis by (auto simp: GetStatInfo_def 1 Let_def split: option.splits)
qed

lemma existence_loop_files: "fs_files (snd (check_existence_loop E path n fs)) = fs_files fs"
proof (induction n arbitrary: fs)
  case (Suc n)
  obtain e fs1 where 1: "sys_stat E path fs = (e, fs1)" by (cases "sys_stat E path fs")
  then have "fs_files fs1 = fs_files fs" by (metis snd_conv sys_stat_files)
  with Suc show ?case by (auto simp: 1 split: stat_result.splits)
qed simp

lemma StartTime_files [simp]: "fs_files (snd (GetProcessStartTime E pid fs)) = fs_files fs"
proof -
  obtain e fs1 where 1: "CheckFileExistence E (stat_path pid) fs = (e, fs1)" by (cases "CheckFileExistence E (stat_path pid) fs")
  then have f1: "fs_files fs1 = fs_files fs"
    by (auto simp: CheckFileExistence_def split: if_splits) (metis existence_loop_files snd_conv)
  obtain x fs2 where 2: "GetStatInfo E (stat_path pid) fs1 = (x, fs2)" by (cases "GetStatInfo E (stat_path pid) fs1")
  then have "fs_files fs2 = fs_files fs" by (metis GetStatInfo_files snd_conv f1)
  with f1 show ?thesis by (simp add: GetProcessStartTime_def 1 2 split_beta Let_def)
qed

lemma PidFd_unchanged: "OpenSmartPidFd E pid st = (r, st') \<Longrightarrow> unchanged st st'"
  by (auto simp: OpenSmartPidFd_def split_beta split: option.splits)

lemma Alive_unchanged: "CheckProcessAlive E p st = (r, st') \<Longrightarrow> unchanged st st'"
proof -
  assume a: "CheckProcessAlive E p st = (r, st')"
  obtain ret t st1 where 1: "on_fs (GetProcessStartTime E (pp_pid p)) st = ((ret, t), st1)" by (metis prod.exhaust)
  then have "unchanged st st1" by (rule on_fs_unchanged) simp
  with a 1 show ?thesis by (auto simp: CheckProcessAlive_def split: if_splits)
qed

lemma Create_unchanged:
  assumes "CreateEmptyProcessPrivilegeRecord E ci st = ((r, p), st')"
  shows "unchanged st st'" and "r = ERR_OK \<longleftrightarrow> p \<noteq> None"
    and "p = Some q \<Longrightarrow> privilegeRecordMap q = [] \<and> pp_pid q = ci_pid ci \<and> pp_uid q = ci_uid ci \<and> int64 (processStartTime q)"
proof -
  obtain ret t st1 where 1: "on_fs (GetProcessStartTime E (ci_pid ci)) st = ((ret, t), st1)" by (metis prod.exhaust)
  then have u1: "unchanged st st1" by (rule on_fs_unchanged) simp
  have range: "int64 (sint w)" for w :: u64 using sint_range_size [of w] by (simp add: word_size)
  have t: "int64 t" if "ret = ERR_OK"
    using 1 that range by (auto simp: on_fs_def GetProcessStartTime_def Let_def split_beta split: if_splits)
  obtain r2 st2 where 2: "OpenSmartPidFd E (ci_pid ci) st1 = (r2, st2)" by (cases "OpenSmartPidFd E (ci_pid ci) st1")
  note u2 = unchanged_trans [OF u1 PidFd_unchanged [OF 2]]
  obtain d st3 where 3: "pask (AddDeathRecipient E (ci_pid ci)) st2 = (d, st3)" by (cases "pask (AddDeathRecipient E (ci_pid ci)) st2")
  note u3 = unchanged_trans [OF u2 pask_unchanged [OF 3]]
  show "unchanged st st'" "r = ERR_OK \<longleftrightarrow> p \<noteq> None"
    "p = Some q \<Longrightarrow> privilegeRecordMap q = [] \<and> pp_pid q = ci_pid ci \<and> pp_uid q = ci_uid ci \<and> int64 (processStartTime q)"
    using assms u1 u2 u3 t by (auto simp: CreateEmptyProcessPrivilegeRecord_def 1 2 3 split: if_splits)
qed

section \<open>Writing the cache\<close>

text \<open>The text that a cache is stored as, with the time and a digest of the time and the records.\<close>

definition digest_of :: "'z priv_env_scheme \<Rightarrow> int \<Rightarrow> string \<Rightarrow> u8 list \<Rightarrow> bool" where
  "digest_of E t s digest \<longleftrightarrow> (if HAS_HUKS_PART E
     then \<exists>k. GenerateAccountInfoDigest E (to_string_int t @ '':'' @ s) k = (ERR_OK, digest) else digest = [])"

lemma GenerateDigest_spec:
  assumes "GenerateDigestFromHuks E t s st = ((r, digest), st')"
  shows "unchanged st st'" and "r = ERR_OK \<Longrightarrow> digest_of E t s digest"
  using assms by (auto simp: GenerateDigestFromHuks_def digest_of_def split_beta Let_def split: if_splits)
    (metis pask_def fst_conv prod.collapse)

definition cache_text :: "'z priv_env_scheme \<Rightarrow> int \<Rightarrow> (int, ProcessPrivilegeRecord) smap \<Rightarrow> string \<Rightarrow> bool" where
  "cache_text E t m c \<longleftrightarrow> (\<exists>s digest. MapToJsonString E m = Some s \<and> digest_of E t s digest
     \<and> ToJsonString E t s digest = (ERR_OK, c))"

lemma temp_not_stat: "GetTempFilePath PRIVILEGE_CACHE_FILE_PATH \<noteq> stat_path pid" "PRIVILEGE_CACHE_FILE_PATH \<noteq> stat_path pid"
  by (simp_all add: GetTempFilePath_def PRIVILEGE_CACHE_FILE_PATH_def stat_path_def USER_INFO_BASE_def)

lemma delete_cache_file:
  assumes "on_fs (DeleteFile E PRIVILEGE_CACHE_FILE_PATH) st = (r, st')"
  shows "processPrivilegeMap st' = processPrivilegeMap st \<and> pc_calls st' = pc_calls st \<and> pc_tasks st' = pc_tasks st
    \<and> cache_file st' \<in> {None, cache_file st} \<and> (\<forall>p. p \<noteq> PRIVILEGE_CACHE_FILE_PATH \<longrightarrow> fs_files (pc_fs st') p = fs_files (pc_fs st) p)"
  using assms by (auto simp: on_fs_def DeleteFile_def Let_def split_beta)

lemma ToPersistFile_spec:
  assumes "ToPersistFile E t st = (r, st')"
  shows "processPrivilegeMap st' = processPrivilegeMap st \<and> pc_calls st \<le> pc_calls st' \<and> pc_tasks st' = pc_tasks st
    \<and> (if r = ERR_OK \<and> processPrivilegeMap st \<noteq> []
       then \<exists>c. cache_file st' = Some c \<and> cache_text E t (processPrivilegeMap st) c
       else cache_file st' \<in> {None, cache_file st} \<and> (r \<noteq> ERR_OK \<longrightarrow> cache_file st' = cache_file st))"
proof (cases "processPrivilegeMap st = []")
  case True
  obtain r1 st1 where "on_fs (DeleteFile E PRIVILEGE_CACHE_FILE_PATH) st = (r1, st1)"
    by (cases "on_fs (DeleteFile E PRIVILEGE_CACHE_FILE_PATH) st")
  with assms True delete_cache_file [OF this] show ?thesis by (auto simp: ToPersistFile_def)
next
  case False
  show ?thesis
  proof (cases "MapToJsonString E (processPrivilegeMap st)")
    case None
    with assms False show ?thesis by (auto simp: ToPersistFile_def)
  next
    case (Some s)
    obtain r1 dig st1 where 1: "GenerateDigestFromHuks E t s st = ((r1, dig), st1)" by (metis prod.exhaust)
    note u = GenerateDigest_spec [OF 1]
    obtain r2 c where 2: "ToJsonString E t s dig = (r2, c)" by (cases "ToJsonString E t s dig")
    obtain r3 fs3 where 3: "InputFileByPathAndContentWithTransaction E PRIVILEGE_CACHE_FILE_PATH c (pc_fs st1) = (r3, fs3)"
      by (cases "InputFileByPathAndContentWithTransaction E PRIVILEGE_CACHE_FILE_PATH c (pc_fs st1)")
    have "cache_text E t (processPrivilegeMap st) c" if "r1 = ERR_OK" "r2 = ERR_OK"
      using u(2) 2 Some that unfolding cache_text_def by blast
    with InputFileTransaction_spec [OF 3] u(1) assms False Some show ?thesis
      by (auto simp: ToPersistFile_def 1 2 3 on_fs_def unchanged_def split: if_splits)
  qed
qed

lemma quiet_persist:
  assumes "privileges_ok E" and "cjson_ok E" and "cache_wf E (processPrivilegeMap st)" and "os_quiet E"
    and "\<forall>s k. fst (GenerateAccountInfoDigest E s k) = ERR_OK"
  shows "fst (ToPersistFile E t st) = ERR_OK"
proof (cases "processPrivilegeMap st = []")
  case False
  obtain s where s: "MapToJsonString E (processPrivilegeMap st) = Some s" using MapToJson [OF assms(1-3)] by blast
  obtain r digest st1 where d: "GenerateDigestFromHuks E t s st = ((r, digest), st1)" by (metis prod.exhaust)
  then have r: "r = ERR_OK" using assms(5) by (auto simp: GenerateDigestFromHuks_def pask_def split_beta split: if_splits)
  obtain c where c: "ToJsonString E t s digest = (ERR_OK, c)" using ToJsonString_text [OF assms(2)] by (metis prod.exhaust)
  show ?thesis using False quiet_write(2) [OF assms(4)] by (simp add: ToPersistFile_def s d r c on_fs_def split_beta)
qed (simp add: ToPersistFile_def)

section \<open>Loading the cache\<close>

abbreviation live_process :: "int \<Rightarrow> ProcessPrivilegeRecord \<Rightarrow> ProcessPrivilegeRecord" where
  "live_process t p \<equiv> p\<lparr>privilegeRecordMap := live_records t (privilegeRecordMap p)\<rparr>"

lemma process_json_fields:
  assumes "process_wf E pid p"
  shows "GetIntFromJson (Some (process_json E p)) ''pid'' = Some (pp_pid p)" "GetIntFromJson (Some (process_json E p)) ''uid'' = Some (pp_uid p)"
    "GetInt64FromJson (Some (process_json E p)) ''processStartTime'' = Some (processStartTime p)"
    "GetJsonArrayFromJson (Some (process_json E p)) ''privilegeRecords'' = Some (JArr (map (\<lambda>e. record_json E (snd e)) (privilegeRecordMap p)))"
proof -
  show "GetInt64FromJson (Some (process_json E p)) ''processStartTime'' = Some (processStartTime p)"
    by (rule GetInt64_text) (use assms in \<open>simp_all add: process_json_def process_wf_def\<close>)
qed (simp_all add: process_json_def GetIntFromJson_def GetJsonArrayFromJson_def IsArray_def)

lemma process_FromJson:
  assumes "privileges_ok E" and "process_wf E pid p"
  obtains alive r st1 st2 where "CheckProcessAlive E (p\<lparr>privilegeRecordMap := []\<rparr>) st = (alive, st1)" "OpenSmartPidFd E pid st1 = (r, st2)"
    and "ProcessPrivilegeRecord_FromJson E t (process_json E p) st =
      (if \<not> alive then ((ERR_AUTHORIZATION_CHECK_TIME_FAILED, None), st1) else if r \<noteq> ERR_OK then ((r, None), st2)
       else ((ERR_OK, if live_records t (privilegeRecordMap p) = [] then None else Some (live_process t p)), st2))"
proof -
  obtain alive st1 where 1: "CheckProcessAlive E (p\<lparr>privilegeRecordMap := []\<rparr>) st = (alive, st1)"
    by (cases "CheckProcessAlive E (p\<lparr>privilegeRecordMap := []\<rparr>) st")
  obtain r st2 where 2: "OpenSmartPidFd E pid st1 = (r, st2)" by (cases "OpenSmartPidFd E pid st1")
  have m: "\<forall>e \<in> set (privilegeRecordMap p). record_wf E (fst e) (snd e)" "sm_wf (privilegeRecordMap p)" "pp_pid p = pid"
    using assms(2) smap_forall [of "privilegeRecordMap p" "record_wf E"] by (simp_all add: process_wf_def)
  note parse = ParseArray [OF assms(1), of "[]" "privilegeRecordMap p" t, simplified, OF m(2,1)]
  have p: "p\<lparr>privilegeRecordMap := []\<rparr> = \<lparr>privilegeRecordMap = [], pp_pid = pid, pp_uid = pp_uid p, processStartTime = processStartTime p\<rparr>"
    using m(3) by simp
  have "ProcessPrivilegeRecord_FromJson E t (process_json E p) st =
      (if \<not> alive then ((ERR_AUTHORIZATION_CHECK_TIME_FAILED, None), st1) else if r \<noteq> ERR_OK then ((r, None), st2)
       else ((ERR_OK, if live_records t (privilegeRecordMap p) = [] then None else Some (live_process t p)), st2))"
    using 1 2 m(3) unfolding p
    by (simp add: ProcessPrivilegeRecord_FromJson_def process_json_fields [OF assms(2)] parse)
  then show ?thesis using 1 2 that by blast
qed

lemma load_loop_spec:
  assumes "privileges_ok E" and "\<forall>e \<in> set m. process_wf E (fst e) (snd e)"
    and "load_loop E t (map (\<lambda>e. process_json E (snd e)) m) st = st'"
  shows "fs_files (pc_fs st') = fs_files (pc_fs st) \<and> pc_calls st \<le> pc_calls st' \<and> pc_tasks st' = pc_tasks st
    \<and> (sm_wf (processPrivilegeMap st) \<longrightarrow> sm_wf (processPrivilegeMap st'))
    \<and> (\<forall>pid q. map_of (processPrivilegeMap st') pid = Some q \<longrightarrow> map_of (processPrivilegeMap st) pid = Some q
        \<or> (\<exists>p. (pid, p) \<in> set m \<and> q = live_process t p \<and> privilegeRecordMap q \<noteq> []))"
  using assms(2,3)
proof (induction m arbitrary: st)
  case (Cons e m)
  obtain pid p where e: "e = (pid, p)" by (cases e)
  with Cons.prems have wf: "process_wf E pid p" by simp
  obtain alive r st1 st2 where 1: "CheckProcessAlive E (p\<lparr>privilegeRecordMap := []\<rparr>) st = (alive, st1)" "OpenSmartPidFd E pid st1 = (r, st2)"
    and 2: "ProcessPrivilegeRecord_FromJson E t (process_json E p) st =
      (if \<not> alive then ((ERR_AUTHORIZATION_CHECK_TIME_FAILED, None), st1) else if r \<noteq> ERR_OK then ((r, None), st2)
       else ((ERR_OK, if live_records t (privilegeRecordMap p) = [] then None else Some (live_process t p)), st2))"
    by (rule process_FromJson [OF assms(1) wf])
  have u: "unchanged st st1" "unchanged st st2"
    using Alive_unchanged [OF 1(1)] PidFd_unchanged [OF 1(2)] unchanged_trans by blast+
  define st3 where "st3 = (if alive \<and> r = ERR_OK \<and> live_records t (privilegeRecordMap p) \<noteq> []
    then st2\<lparr>processPrivilegeMap := sm_put pid (live_process t p) (processPrivilegeMap st2)\<rparr> else if alive then st2 else st1)"
  have "pp_pid p = pid" using wf by (simp add: process_wf_def)
  then have "load_loop E t (map (\<lambda>e. process_json E (snd e)) m) st3 = st'"
    using Cons.prems(2) by (auto simp: e 2 st3_def split: if_splits)
  note IH = Cons.IH [OF _ this]
  have 3: "fs_files (pc_fs st3) = fs_files (pc_fs st)" "pc_calls st \<le> pc_calls st3" "pc_tasks st3 = pc_tasks st"
    "sm_wf (processPrivilegeMap st) \<Longrightarrow> sm_wf (processPrivilegeMap st3)" using u by (auto simp: st3_def unchanged_def)
  have 4: "map_of (processPrivilegeMap st) k = Some q \<or> (k = pid \<and> q = live_process t p \<and> privilegeRecordMap q \<noteq> [])"
    if "map_of (processPrivilegeMap st3) k = Some q" for k q
    using that u by (auto simp: st3_def unchanged_def simp del: map_of_eq_Some_iff split: if_splits)
  have "\<forall>e \<in> set m. process_wf E (fst e) (snd e)" using Cons.prems(1) by simp
  note IH = IH [OF this]
  show ?case
  proof (intro conjI allI impI)
    fix k q assume "map_of (processPrivilegeMap st') k = Some q"
    with IH have "map_of (processPrivilegeMap st3) k = Some q
      \<or> (\<exists>p. (k, p) \<in> set m \<and> q = live_process t p \<and> privilegeRecordMap q \<noteq> [])" by blast
    with 4 [of k q] show "map_of (processPrivilegeMap st) k = Some q
      \<or> (\<exists>p. (k, p) \<in> set (e # m) \<and> q = live_process t p \<and> privilegeRecordMap q \<noteq> [])"
      unfolding e by (metis list.set_intros)
  qed (use IH 3 in auto)
qed simp

text \<open>When every process is alive and can be opened, every record that has not expired comes back.\<close>

definition running :: "'z priv_env_scheme \<Rightarrow> (string \<Rightarrow> string option) \<Rightarrow> ProcessPrivilegeRecord \<Rightarrow> bool" where
  "running E files p \<longleftrightarrow> 0 < pp_pid p \<and> (\<forall>k. pidfd_open E (pp_pid p) k = None)
     \<and> (\<forall>fs. fs_files fs = files \<longrightarrow> fst (GetProcessStartTime E (pp_pid p) fs) = (ERR_OK, processStartTime p))"

abbreviation live_cache :: "int \<Rightarrow> (int, ProcessPrivilegeRecord) smap \<Rightarrow> (int, ProcessPrivilegeRecord) smap" where
  "live_cache t m \<equiv> filter (\<lambda>e. privilegeRecordMap (snd e) \<noteq> []) (map (\<lambda>e. (fst e, live_process t (snd e))) m)"

lemma load_running:
  assumes "privileges_ok E" and "\<forall>e \<in> set m. process_wf E (fst e) (snd e) \<and> running E (fs_files (pc_fs st)) (snd e)"
    and "sm_wf (processPrivilegeMap st @ live_cache t m)"
  shows "processPrivilegeMap (load_loop E t (map (\<lambda>e. process_json E (snd e)) m) st) = processPrivilegeMap st @ live_cache t m"
  using assms(2,3)
proof (induction m arbitrary: st)
  case (Cons e m)
  obtain pid p where e: "e = (pid, p)" by (cases e)
  with Cons.prems have wf: "process_wf E pid p" and run: "running E (fs_files (pc_fs st)) p" by simp_all
  obtain alive r st1 st2 where 1: "CheckProcessAlive E (p\<lparr>privilegeRecordMap := []\<rparr>) st = (alive, st1)" "OpenSmartPidFd E pid st1 = (r, st2)"
    and 2: "ProcessPrivilegeRecord_FromJson E t (process_json E p) st =
      (if \<not> alive then ((ERR_AUTHORIZATION_CHECK_TIME_FAILED, None), st1) else if r \<noteq> ERR_OK then ((r, None), st2)
       else ((ERR_OK, if live_records t (privilegeRecordMap p) = [] then None else Some (live_process t p)), st2))"
    by (rule process_FromJson [OF assms(1) wf])
  have pid: "pp_pid p = pid" using wf by (simp add: process_wf_def)
  have ok: "alive" "r = ERR_OK"
    using 1 run pid by (auto simp: CheckProcessAlive_def OpenSmartPidFd_def running_def on_fs_def pask_def split_beta split: if_splits)
  have u: "unchanged st st2" using Alive_unchanged [OF 1(1)] PidFd_unchanged [OF 1(2)] unchanged_trans by blast
  show ?case
  proof (cases "live_records t (privilegeRecordMap p) = []")
    case True
    with Cons.IH [of st2] Cons.prems u show ?thesis by (simp add: e 2 ok unchanged_def)
  next
    case False
    let ?st3 = "st2\<lparr>processPrivilegeMap := sm_put pid (live_process t p) (processPrivilegeMap st2)\<rparr>"
    have wf2: "sm_wf ((processPrivilegeMap st @ [(pid, live_process t p)]) @ live_cache t m)" using Cons.prems(2) False by (simp add: e)
    then have "sm_wf (processPrivilegeMap st @ [(pid, live_process t p)])" by (simp add: sm_wf_def sorted_wrt_append)
    then have "processPrivilegeMap ?st3 = processPrivilegeMap st @ [(pid, live_process t p)]" using put_last u by (simp add: unchanged_def)
    with Cons.IH [of ?st3] wf2 Cons.prems u False pid show ?thesis by (simp add: e 2 ok unchanged_def)
  qed
qed simp

section \<open>Starting again\<close>

text \<open>Nothing but the cache file changes, and that at most by being deleted.\<close>

definition file_kept :: "priv_state \<Rightarrow> priv_state \<Rightarrow> bool" where
  "file_kept st st' \<longleftrightarrow> processPrivilegeMap st' = processPrivilegeMap st \<and> pc_calls st \<le> pc_calls st' \<and> pc_tasks st' = pc_tasks st
     \<and> cache_file st' \<in> {None, cache_file st}"

lemma kept_unchanged: "unchanged st st' \<Longrightarrow> file_kept st st'"
  by (simp add: unchanged_def file_kept_def)

lemma file_kept_trans: "file_kept a b \<Longrightarrow> file_kept b c \<Longrightarrow> file_kept a c"
  by (auto simp: file_kept_def)

lemma file_kept_delete: "file_kept st (snd (on_fs (DeleteFile E PRIVILEGE_CACHE_FILE_PATH) st))"
  using delete_cache_file [of E st, OF prod.collapse [symmetric]] by (simp add: file_kept_def)

lemma CheckUpdateTime_spec:
  assumes "CheckUpdateTimeValid E j t st = ((r, u), st')"
  shows "file_kept st st'" and "r = ERR_OK \<Longrightarrow> st' = st \<and> GetInt64FromJson j ''updateTime'' = Some u \<and> u < t"
  using assms file_kept_delete
  by (auto simp: CheckUpdateTimeValid_def kept_unchanged split: option.splits if_splits)

lemma CheckDigest_spec:
  assumes "CheckPersistDigestValid E u s digest st = (r, st')"
  shows "file_kept st st'" and "r \<Longrightarrow> unchanged st st' \<and> digest_of E u s digest"
proof -
  obtain r1 d st1 where 1: "GenerateDigestFromHuks E u s st = ((r1, d), st1)" by (metis prod.exhaust)
  note d = GenerateDigest_spec [OF 1]
  show "file_kept st st'" using assms d file_kept_trans [OF kept_unchanged [OF d(1)] file_kept_delete]
    by (auto simp: CheckPersistDigestValid_def 1 kept_unchanged split: if_splits)
  show "r \<Longrightarrow> unchanged st st' \<and> digest_of E u s digest" using assms d by (auto simp: CheckPersistDigestValid_def 1 split: if_splits)
qed

lemma ReadAndCheck_spec:
  assumes "ReadAndCheckPersistRecordValid E t st = (rs, st')"
  shows "file_kept st st'"
    and "rs = Some s \<Longrightarrow> unchanged st st' \<and> (\<exists>c j u. cache_file st = Some c \<and> CreateJsonFromString E c = Some j
      \<and> GetStringFromJson (Some j) ''processRecords'' = Some s \<and> GetInt64FromJson (Some j) ''updateTime'' = Some u \<and> u < t
      \<and> digest_of E u s (GetVectorUint8FromJson (Some j) ''digest''))"
proof -
  let ?p = PRIVILEGE_CACHE_FILE_PATH
  obtain ex st1 where 1: "on_fs (IsExistFile E ?p) st = (ex, st1)" by (cases "on_fs (IsExistFile E ?p) st")
  then have u1: "unchanged st st1" by (rule on_fs_unchanged) simp
  obtain r2 c st2 where 2: "on_fs (GetFileContentByPath E ?p []) st1 = ((r2, c), st2)" by (metis prod.exhaust)
  then have u2: "unchanged st st2" using unchanged_trans [OF u1 on_fs_unchanged [OF 2]] by simp
  have c: "cache_file st = Some c" if "r2 = ERR_OK"
    using 2 u1 GetFileContent_ok [of E ?p "[]" "pc_fs st1" c] that by (auto simp: on_fs_def unchanged_def split: prod.splits)
  let ?j = "CreateJsonFromString E c"
  obtain r3 u st3 where 3: "CheckUpdateTimeValid E ?j t st2 = ((r3, u), st3)" by (metis prod.exhaust)
  note t = CheckUpdateTime_spec [OF 3]
  note k3 = file_kept_trans [OF kept_unchanged [OF u2] t(1)]
  show "file_kept st st'"
  proof (cases "GetStringFromJson ?j ''processRecords''")
    case None
    with assms u1 u2 k3 show ?thesis by (auto simp: ReadAndCheckPersistRecordValid_def Let_def 1 2 3 kept_unchanged split: if_splits)
  next
    case (Some s)
    obtain v st4 where 4: "CheckPersistDigestValid E u s (GetVectorUint8FromJson ?j ''digest'') st3 = (v, st4)"
      by (cases "CheckPersistDigestValid E u s (GetVectorUint8FromJson ?j ''digest'') st3")
    from assms u1 u2 k3 file_kept_trans [OF k3 CheckDigest_spec(1) [OF 4]] Some show ?thesis
      by (auto simp: ReadAndCheckPersistRecordValid_def Let_def 1 2 3 4 kept_unchanged split: if_splits)
  qed
  assume rs: "rs = Some s"
  then have ok: "ex" "r2 = ERR_OK" "IsObject ?j" "r3 = ERR_OK" "GetStringFromJson ?j ''processRecords'' = Some s"
    and v: "CheckPersistDigestValid E u s (GetVectorUint8FromJson ?j ''digest'') st3 = (True, st')"
    using assms by (auto simp: ReadAndCheckPersistRecordValid_def Let_def 1 2 3 split: if_splits option.splits prod.splits)
  obtain j where j: "?j = Some j" using ok(3) by (cases ?j) (auto simp: IsObject_def)
  show "unchanged st st' \<and> (\<exists>c j u. cache_file st = Some c \<and> CreateJsonFromString E c = Some j
      \<and> GetStringFromJson (Some j) ''processRecords'' = Some s \<and> GetInt64FromJson (Some j) ''updateTime'' = Some u \<and> u < t
      \<and> digest_of E u s (GetVectorUint8FromJson (Some j) ''digest''))"
    using c [OF ok(2)] j ok(5) [unfolded j] t(2) [unfolded j, OF ok(4)] CheckDigest_spec(2) [OF v [unfolded j] TrueI] u2 unchanged_trans
    by blast
qed

lemma cache_text_read:
  assumes "privileges_ok E" and "cjson_ok E" and "cache_wf E m" and "cache_text E u m c"
  shows "\<exists>s digest. digest_of E u s digest \<and> CreateJsonFromString E c = Some (file_json E u s digest)
    \<and> GetStringFromJson (Some (file_json E u s digest)) ''processRecords'' = Some s
    \<and> CreateJsonFromString E s = Some (cache_json E m)"
proof -
  obtain s where s: "MapToJsonString E m = Some s" "nul_free s" "CreateJsonFromString E s = Some (cache_json E m)"
    using MapToJson [OF assms(1-3)] by blast
  with assms(4) obtain digest where d: "digest_of E u s digest" "ToJsonString E u s digest = (ERR_OK, c)" by (auto simp: cache_text_def)
  have "GetStringFromJson (Some (file_json E u s digest)) ''processRecords'' = Some s"
    using s(2) by (simp add: GetStringFromJson_def file_json_def)
  with d s(3) ToJsonString_text [OF assms(2) d(2)] show ?thesis by blast
qed

lemma CheckDigest_accepts:
  assumes "digest_of E u s digest" and "\<forall>s k l. GenerateAccountInfoDigest E s k = GenerateAccountInfoDigest E s l"
  shows "fst (CheckPersistDigestValid E u s digest st)"
proof (cases "HAS_HUKS_PART E")
  case True
  with assms have "GenerateAccountInfoDigest E (to_string_int u @ '':'' @ s) (pc_calls st) = (ERR_OK, digest)"
    unfolding digest_of_def by metis
  with True show ?thesis by (simp add: CheckPersistDigestValid_def GenerateDigestFromHuks_def pask_def)
qed (use assms(1) in \<open>simp add: CheckPersistDigestValid_def GenerateDigestFromHuks_def digest_of_def\<close>)

lemma ReadAndCheck_accepts:
  assumes "os_quiet E" and "cache_file st = Some c" and "length c \<le> MAX_FILE_SIZE"
    and "CreateJsonFromString E c = Some (file_json E u s digest)"
    and "GetStringFromJson (Some (file_json E u s digest)) ''processRecords'' = Some s" and "int64 u" and "u < now"
    and "digest_of E u s digest" and "\<forall>s k l. GenerateAccountInfoDigest E s k = GenerateAccountInfoDigest E s l"
  shows "fst (ReadAndCheckPersistRecordValid E now st) = Some s"
proof -
  let ?p = PRIVILEGE_CACHE_FILE_PATH and ?j = "file_json E u s digest"
  have p: "?p \<noteq> []" by (simp add: PRIVILEGE_CACHE_FILE_PATH_def)
  define st1 where "st1 = st\<lparr>pc_fs := (pc_fs st)\<lparr>fs_tick := Suc (fs_tick (pc_fs st))\<rparr>\<rparr>"
  have 1: "on_fs (IsExistFile E ?p) st = (True, st1)" using assms(1,2) p by (simp add: on_fs_def IsExistFile_def quiet_exists st1_def)
  have "cache_file st1 = Some c" using assms(2) by (simp add: st1_def)
  then obtain st2 where 2: "on_fs (GetFileContentByPath E ?p []) st1 = ((ERR_OK, c), st2)"
    using quiet_read [OF assms(1) p _ assms(3), of "pc_fs st1" "[]"] by (auto simp: on_fs_def)
  have "GetInt64FromJson (Some ?j) ''updateTime'' = Some u"
    by (rule GetInt64_text) (use assms(6) in \<open>simp_all add: file_json_def\<close>)
  then have 3: "CheckUpdateTimeValid E (Some ?j) now st2 = ((ERR_OK, u), st2)" using assms(7) by (simp add: CheckUpdateTimeValid_def)
  have "GetVectorUint8FromJson (Some ?j) ''digest'' = digest"
    by (simp add: GetVectorUint8FromJson_def IsKeyExist_def GetItemFromJson_def file_json_def)
  moreover have "IsObject (Some ?j)" by (simp add: IsObject_def file_json_def)
  ultimately show ?thesis using CheckDigest_accepts [OF assms(8,9), of st2] assms(4,5)
    by (simp add: ReadAndCheckPersistRecordValid_def 1 2 3 split_beta Let_def)
qed

lemma restore_cache:
  assumes "privileges_ok E" and "cjson_ok E" and "cache_wf E m" and "cache_text E u m c" and "os_quiet E"
    and "\<forall>s k l. GenerateAccountInfoDigest E s k = GenerateAccountInfoDigest E s l" and "cache_file st = Some c"
    and "length c \<le> MAX_FILE_SIZE" and "processPrivilegeMap st = []" and "GetBootTimeMs E (pc_calls st) = (ERR_OK, now)"
    and "int64 u" and "u < now" and "\<forall>e \<in> set m. running E (fs_files (pc_fs st)) (snd e)"
  shows "\<exists>st'. FromPersistFile E st = (ERR_OK, st') \<and> processPrivilegeMap st' = live_cache now m"
proof -
  from cache_text_read [OF assms(1-4)] obtain s digest where d: "digest_of E u s digest" "CreateJsonFromString E c = Some (file_json E u s digest)"
    "GetStringFromJson (Some (file_json E u s digest)) ''processRecords'' = Some s" "CreateJsonFromString E s = Some (cache_json E m)" by blast
  define st1 where "st1 = st\<lparr>pc_calls := Suc (pc_calls st)\<rparr>"
  have 1: "GetUptimeMs E st = ((ERR_OK, now), st1)" using assms(10) by (simp add: GetUptimeMs_def pask_def st1_def)
  have c1: "cache_file st1 = Some c" using assms(7) by (simp add: st1_def)
  obtain st2 where 2: "ReadAndCheckPersistRecordValid E now st1 = (Some s, st2)"
    using ReadAndCheck_accepts [OF assms(5) c1 assms(8) d(2,3) assms(11,12) d(1) assms(6)] by (metis prod.collapse)
  have u2: "unchanged st st2"
    using ReadAndCheck_spec(2) [OF 2] unchanged_trans uptime_unchanged [OF 1] by blast
  have wf: "\<forall>e \<in> set m. process_wf E (fst e) (snd e)" "sm_wf m"
    using assms(3) smap_forall [of m "process_wf E"] by (simp_all add: cache_wf_def)
  have "sm_wf (live_cache now m)" using wf(2) by (simp add: sm_wf_def sorted_wrt_map sorted_wrt_filter comp_def)
  then have "processPrivilegeMap (load_loop E now (map (\<lambda>e. process_json E (snd e)) m) st2) = live_cache now m"
    using load_running [OF assms(1), of m st2 now] wf(1) assms(9,13) u2 by (simp add: unchanged_def)
  with d(4) show ?thesis by (simp add: FromPersistFile_def 1 2 cache_json_def)
qed

text \<open>A process in the cache after a start was in it before, or comes from the file, with its records that have not expired.\<close>

lemma FromPersistFile_spec:
  assumes "privileges_ok E" and "cjson_ok E" and "FromPersistFile E st = (r, st')"
    and "\<forall>c. cache_file st = Some c \<longrightarrow> (\<exists>u m. cache_text E u m c \<and> cache_wf E m \<and> Q m)"
  shows "pc_calls st \<le> pc_calls st' \<and> pc_tasks st' = pc_tasks st \<and> cache_file st' \<in> {None, cache_file st}
    \<and> (sm_wf (processPrivilegeMap st) \<longrightarrow> sm_wf (processPrivilegeMap st'))
    \<and> (\<forall>pid q. map_of (processPrivilegeMap st') pid = Some q \<longrightarrow> map_of (processPrivilegeMap st) pid = Some q
        \<or> (\<exists>m p t. cache_wf E m \<and> Q m \<and> map_of m pid = Some p \<and> q = live_process t p \<and> privilegeRecordMap q \<noteq> []))"
proof -
  obtain r1 t st1 where 1: "GetUptimeMs E st = ((r1, t), st1)" by (metis prod.exhaust)
  note u1 = uptime_unchanged [OF 1]
  obtain rs st2 where 2: "ReadAndCheckPersistRecordValid E t st1 = (rs, st2)" by (cases "ReadAndCheckPersistRecordValid E t st1")
  note k2 = file_kept_trans [OF kept_unchanged [OF u1] ReadAndCheck_spec(1) [OF 2]]
  show ?thesis
  proof (cases "st' = st1 \<or> st' = st2")
    case True
    with u1 k2 show ?thesis by (auto simp: unchanged_def file_kept_def)
  next
    case False
    with assms(3) obtain s items where s: "rs = Some s" "CreateJsonFromString E s = Some (JArr items)" "st' = load_loop E t items st2"
      by (auto simp: FromPersistFile_def 1 2 split: if_splits option.splits json.splits)
    from ReadAndCheck_spec(2) [OF 2 s(1)] obtain c j where u2: "unchanged st1 st2" and c: "cache_file st1 = Some c"
      and j: "CreateJsonFromString E c = Some j" "GetStringFromJson (Some j) ''processRecords'' = Some s" by blast
    have c: "cache_file st = Some c" using c u1 by (simp add: unchanged_def)
    with assms(4) obtain u m where m: "cache_text E u m c" "cache_wf E m" "Q m" by blast
    from cache_text_read [OF assms(1,2) m(2,1)] j s(2) have items: "items = map (\<lambda>e. process_json E (snd e)) m"
      by (auto simp: cache_json_def)
    have wf: "\<forall>e \<in> set m. process_wf E (fst e) (snd e)" "sm_wf m"
      using m(2) smap_forall [of m "process_wf E"] by (simp_all add: cache_wf_def)
    have u: "unchanged st st2" using u1 u2 by (rule unchanged_trans)
    have in_m: "map_of m pid = Some p" if "(pid, p) \<in> set m" for pid p
      using that sm_wf_distinct [OF wf(2)] by simp
    from load_loop_spec [OF assms(1) wf(1), of t st2 st'] s(3) items u
    have L: "fs_files (pc_fs st') = fs_files (pc_fs st) \<and> pc_calls st \<le> pc_calls st' \<and> pc_tasks st' = pc_tasks st
      \<and> (sm_wf (processPrivilegeMap st) \<longrightarrow> sm_wf (processPrivilegeMap st'))"
      and entries: "\<forall>pid q. map_of (processPrivilegeMap st') pid = Some q \<longrightarrow> map_of (processPrivilegeMap st) pid = Some q
        \<or> (\<exists>p. (pid, p) \<in> set m \<and> q = live_process t p \<and> privilegeRecordMap q \<noteq> [])"
      unfolding unchanged_def by auto
    show ?thesis
    proof (intro conjI allI impI)
      fix pid q assume "map_of (processPrivilegeMap st') pid = Some q"
      with entries consider "map_of (processPrivilegeMap st) pid = Some q"
        | p where "(pid, p) \<in> set m" "q = live_process t p" "privilegeRecordMap q \<noteq> []" by blast
      then show "map_of (processPrivilegeMap st) pid = Some q
        \<or> (\<exists>m p t. cache_wf E m \<and> Q m \<and> map_of m pid = Some p \<and> q = live_process t p \<and> privilegeRecordMap q \<noteq> [])"
        using m(2,3) in_m by cases blast+
    qed (use L in auto)
  qed
qed

end
