(* ===== verification/Privilege_Runs.thy ===== *)
theory Privilege_Runs
  imports Privilege_File Service_Runs
begin

text \<open>
  The privilege cache as a service: its requests, the end of processes, the clean task and restarts of the service as steps of a run, and
  what holds at any time of a run that starts with an empty cache. Every record of the cache, and of the file it is loaded from, was
  granted by a request of the run and expires as the clock said then.
\<close>

section \<open>Where a record comes from\<close>

text \<open>A grant is a process, a privilege and whether the kernel enforces it.\<close>

type_synonym grant = "int \<times> u32 \<times> bool"

definition dated :: "'z priv_env_scheme \<Rightarrow> nat \<Rightarrow> u32 \<Rightarrow> PrivilegeRecord \<Rightarrow> bool" where
  "dated E n idx r \<longleftrightarrow> (pv_authStatus r = NOT_REQUIRED \<longrightarrow>
     (\<exists>k<n. \<exists>t. GetBootTimeMs E k = (ERR_OK, t) \<and> pv_expiredTime r = AddTimePeriod t (timeout_of E idx)))"

definition entry_ok :: "'z priv_env_scheme \<Rightarrow> grant set \<Rightarrow> nat \<Rightarrow> int \<Rightarrow> u32 \<Rightarrow> PrivilegeRecord \<Rightarrow> bool" where
  "entry_ok E G n pid idx r \<longleftrightarrow> record_wf E idx r \<and> (pid, idx, pv_authStatus r \<noteq> NOT_REQUIRED) \<in> G \<and> dated E n idx r"

definition proc_ok :: "'z priv_env_scheme \<Rightarrow> grant set \<Rightarrow> nat \<Rightarrow> int \<Rightarrow> ProcessPrivilegeRecord \<Rightarrow> bool" where
  "proc_ok E G n pid p \<longleftrightarrow> pp_pid p = pid \<and> int32 pid \<and> int32 (pp_uid p) \<and> int64 (processStartTime p)
     \<and> sm_wf (privilegeRecordMap p) \<and> (\<forall>idx r. map_of (privilegeRecordMap p) idx = Some r \<longrightarrow> entry_ok E G n pid idx r)"

definition cache_ok :: "'z priv_env_scheme \<Rightarrow> grant set \<Rightarrow> nat \<Rightarrow> (int, ProcessPrivilegeRecord) smap \<Rightarrow> bool" where
  "cache_ok E G n m \<longleftrightarrow> sm_wf m \<and> (\<forall>pid p. map_of m pid = Some p \<longrightarrow> proc_ok E G n pid p \<and> privilegeRecordMap p \<noteq> [])"

definition cache_inv :: "'z priv_env_scheme \<Rightarrow> grant set \<Rightarrow> priv_state \<Rightarrow> bool" where
  "cache_inv E G st \<longleftrightarrow> cache_ok E G (pc_calls st) (processPrivilegeMap st)
     \<and> (\<forall>c. cache_file st = Some c \<longrightarrow> (\<exists>u m. cache_text E u m c \<and> cache_ok E G (pc_calls st) m))"

lemma cache_ok_wf: "cache_ok E G n m \<Longrightarrow> cache_wf E m"
  by (auto simp: cache_ok_def cache_wf_def proc_ok_def process_wf_def entry_ok_def simp del: map_of_eq_Some_iff)

lemma entry_ok_mono: "entry_ok E G n pid idx r \<Longrightarrow> G \<subseteq> G' \<Longrightarrow> n \<le> n' \<Longrightarrow> entry_ok E G' n' pid idx r"
  unfolding entry_ok_def dated_def by (metis order_less_le_trans subsetD)

lemma proc_ok_mono: "proc_ok E G n pid p \<Longrightarrow> G \<subseteq> G' \<Longrightarrow> n \<le> n' \<Longrightarrow> proc_ok E G' n' pid p"
  unfolding proc_ok_def using entry_ok_mono by blast

lemma cache_ok_mono: "cache_ok E G n m \<Longrightarrow> G \<subseteq> G' \<Longrightarrow> n \<le> n' \<Longrightarrow> cache_ok E G' n' m"
  unfolding cache_ok_def using proc_ok_mono by blast

lemma cache_inv_mono: "cache_inv E G st \<Longrightarrow> G \<subseteq> G' \<Longrightarrow> cache_inv E G' st"
  unfolding cache_inv_def using cache_ok_mono by blast

lemma cache_ok_put: "cache_ok E G n m \<Longrightarrow> proc_ok E G n pid p \<Longrightarrow> privilegeRecordMap p \<noteq> [] \<Longrightarrow> cache_ok E G n (sm_put pid p m)"
  by (auto simp: cache_ok_def simp del: map_of_eq_Some_iff)

lemma cache_ok_filter:
  assumes "cache_ok E G n m"
  shows "cache_ok E G n (filter P m)"
proof -
  have "distinct (map fst m)" "distinct (map fst (filter P m))"
    using assms sm_wf_distinct sm_wf_filter unfolding cache_ok_def by blast+
  then show ?thesis using assms by (auto simp: cache_ok_def sm_wf_filter)
qed

lemma cache_ok_erase: "cache_ok E G n m \<Longrightarrow> cache_ok E G n (sm_erase pid m)"
  by (auto simp: cache_ok_def simp del: map_of_eq_Some_iff split: if_splits)

lemma proc_ok_filter:
  assumes "proc_ok E G n pid p"
  shows "proc_ok E G n pid (p\<lparr>privilegeRecordMap := filter P (privilegeRecordMap p)\<rparr>)"
proof -
  have "distinct (map fst (privilegeRecordMap p))" "distinct (map fst (filter P (privilegeRecordMap p)))"
    using assms sm_wf_distinct sm_wf_filter unfolding proc_ok_def by blast+
  then show ?thesis using assms by (auto simp: proc_ok_def sm_wf_filter)
qed

lemma proc_ok_put:
  "proc_ok E G n pid p \<Longrightarrow> entry_ok E G n pid idx r \<Longrightarrow>
   proc_ok E G n pid (p\<lparr>privilegeRecordMap := sm_put idx r (privilegeRecordMap p)\<rparr>)"
  by (auto simp: proc_ok_def simp del: map_of_eq_Some_iff)

lemma put_not_Nil [simp]: "sm_put k v m \<noteq> []"
  by (cases m) auto

lemma map_live:
  "sm_wf (map (\<lambda>e. (fst e, live_process t (snd e))) m) = sm_wf m"
  "map_of (map (\<lambda>e. (fst e, live_process t (snd e))) m) k = map_option (live_process t) (map_of m k)"
  by (simp add: sm_wf_def comp_def) (induction m, auto)

lemma cache_ok_live:
  assumes "cache_ok E G n m"
  shows "cache_ok E G n (live_cache t m)"
proof -
  have wf: "sm_wf (map (\<lambda>e. (fst e, live_process t (snd e))) m)" using assms by (simp add: map_live cache_ok_def)
  have "proc_ok E G n pid p \<and> privilegeRecordMap p \<noteq> []" if "map_of (live_cache t m) pid = Some p" for pid p
  proof -
    from that sm_wf_distinct [OF wf] sm_wf_distinct [OF sm_wf_filter [OF wf]]
    have "map_of (map (\<lambda>e. (fst e, live_process t (snd e))) m) pid = Some p" "privilegeRecordMap p \<noteq> []" by auto
    then obtain q where "map_of m pid = Some q" "p = live_process t q" by (auto simp: map_live simp del: map_of_eq_Some_iff)
    with assms proc_ok_filter \<open>privilegeRecordMap p \<noteq> []\<close> show ?thesis unfolding cache_ok_def by blast
  qed
  then show ?thesis using sm_wf_filter [OF wf] unfolding cache_ok_def by blast
qed

section \<open>The steps keep it\<close>

lemma inv_unchanged: "cache_inv E G st \<Longrightarrow> unchanged st st' \<Longrightarrow> cache_inv E G st'"
  unfolding cache_inv_def unchanged_def using cache_ok_mono [OF _ order_refl] by metis

lemma inv_map: "cache_inv E G st \<Longrightarrow> cache_ok E G (pc_calls st) m \<Longrightarrow> cache_inv E G (st\<lparr>processPrivilegeMap := m\<rparr>)"
  by (simp add: cache_inv_def)

lemma inv_tasks [simp]: "cache_inv E G (st\<lparr>pc_tasks := n\<rparr>) = cache_inv E G st"
  by (simp add: cache_inv_def)

lemma inv_persist:
  assumes "cache_inv E G st" and "ToPersistFile E t st = (r, st')"
  shows "cache_inv E G st'" and "processPrivilegeMap st' = processPrivilegeMap st" and "pc_calls st \<le> pc_calls st'"
proof -
  note P = ToPersistFile_spec [OF assms(2)]
  then show "processPrivilegeMap st' = processPrivilegeMap st" "pc_calls st \<le> pc_calls st'" by simp_all
  have ok: "cache_ok E G (pc_calls st') m" if "cache_ok E G (pc_calls st) m" for m using cache_ok_mono [OF that] P by blast
  show "cache_inv E G st'"
  proof (cases "r = ERR_OK \<and> processPrivilegeMap st \<noteq> []")
    case True
    then obtain c where "cache_file st' = Some c" "cache_text E t (processPrivilegeMap st) c" using P by (auto split: if_splits)
    with P assms(1) ok show ?thesis unfolding cache_inv_def by (metis option.inject)
  next
    case False
    with P have "cache_file st' \<in> {None, cache_file st}" by (auto split: if_splits)
    with P assms(1) ok show ?thesis unfolding cache_inv_def by (metis empty_iff insert_iff option.distinct(1))
  qed
qed

lemma inv_clean:
  assumes "cache_inv E G st" and "CleanExpiredPrivilegesAndSaveToFile E st = (r, st')"
  shows "cache_inv E G st'" and "pc_calls st \<le> pc_calls st'"
    and "processPrivilegeMap st' = processPrivilegeMap st
      \<or> (\<exists>t. GetBootTimeMs E (pc_calls st) = (ERR_OK, t) \<and> processPrivilegeMap st' = live_cache t (processPrivilegeMap st))"
    and "r = ERR_OK \<Longrightarrow> processPrivilegeMap st' \<noteq> [] \<Longrightarrow> \<exists>c u. cache_file st' = Some c \<and> cache_text E u (processPrivilegeMap st') c"
proof -
  obtain r1 t st1 where 1: "GetUptimeMs E st = ((r1, t), st1)" by (metis prod.exhaust)
  note u = uptime_unchanged [OF 1]
  let ?st2 = "st1\<lparr>processPrivilegeMap := live_cache t (processPrivilegeMap st1)\<rparr>"
  have eq: "(r, st') = (if r1 \<noteq> ERR_OK then (r1, st1) else ToPersistFile E t ?st2)"
    using assms(2) unfolding CleanExpiredPrivilegesAndSaveToFile_def 1 CleanCurrentExpiredPrivileges_def by simp
  have i1: "cache_inv E G st1" using assms(1) u by (rule inv_unchanged)
  then have i2: "cache_inv E G ?st2" by (intro inv_map cache_ok_live) (simp_all add: cache_inv_def)
  obtain r3 st3 where 3: "ToPersistFile E t ?st2 = (r3, st3)" by (cases "ToPersistFile E t ?st2")
  note P = inv_persist [OF i2 3]
  from eq have eq: "st' = (if r1 \<noteq> ERR_OK then st1 else st3)" "r = (if r1 \<noteq> ERR_OK then r1 else r3)"
    unfolding 3 by (auto split: if_splits)
  have t: "r1 = ERR_OK \<Longrightarrow> GetBootTimeMs E (pc_calls st) = (ERR_OK, t)" using 1 by (auto simp: GetUptimeMs_def pask_def)
  show "cache_inv E G st'" using eq i1 P(1) by simp
  show "pc_calls st \<le> pc_calls st'" using eq u P(3) by (auto simp: unchanged_def)
  show "processPrivilegeMap st' = processPrivilegeMap st
      \<or> (\<exists>t. GetBootTimeMs E (pc_calls st) = (ERR_OK, t) \<and> processPrivilegeMap st' = live_cache t (processPrivilegeMap st))"
    using eq u P(2) t by (auto simp: unchanged_def)
  show "\<exists>c u. cache_file st' = Some c \<and> cache_text E u (processPrivilegeMap st') c" if "r = ERR_OK" "processPrivilegeMap st' \<noteq> []"
    using ToPersistFile_spec [OF 3] eq that P(2) by (auto split: if_splits)
qed

lemma inv_clean_snd: "cache_inv E G st \<Longrightarrow> cache_inv E G (snd (CleanExpiredPrivilegesAndSaveToFile E st))"
  using inv_clean(1) [OF _ prod.collapse [symmetric]] by blast

definition held :: "priv_state \<Rightarrow> int \<Rightarrow> u32 \<Rightarrow> PrivilegeRecord option" where
  "held st pid idx = (case map_of (processPrivilegeMap st) pid of None \<Rightarrow> None | Some p \<Rightarrow> map_of (privilegeRecordMap p) idx)"

lemma held_ok:
  assumes "cache_inv E G st" and "held st pid idx = Some r"
  shows "entry_ok E G (pc_calls st) pid idx r"
  using assms by (auto simp: held_def cache_inv_def cache_ok_def proc_ok_def split: option.splits)

text \<open>Revoking takes the record out, cleans and saves, and puts the record back when saving failed.\<close>

lemma RemoveSingle_steps:
  assumes "cache_inv E G st" and "map_of (processPrivilegeMap st) (ci_pid ci) = Some p"
  obtains st1 st2 r2 p1 where "cache_inv E G st1" and "pc_calls st1 = pc_calls st" and "proc_ok E G (pc_calls st) (ci_pid ci) p1"
    and "\<forall>q i. held st1 q i = (if q = ci_pid ci \<and> i = ci_privilegeIdx ci then None else held st q i)"
    and "CleanExpiredPrivilegesAndSaveToFile E st1 = (r2, st2)"
    and "RemoveSingle E ci st = (r2, if r2 \<noteq> ERR_OK then RollbackDelSingleRecord p1 (held st (ci_pid ci) (ci_privilegeIdx ci)) st2 else st2)"
proof -
  let ?pid = "ci_pid ci" and ?idx = "ci_privilegeIdx ci"
  obtain rem p1 where 1: "RemovePrivilege ?idx p = (rem, p1)" by (cases "RemovePrivilege ?idx p")
  have ok: "cache_ok E G (pc_calls st) (processPrivilegeMap st)" using assms(1) by (simp add: cache_inv_def)
  with assms(2) have p: "proc_ok E G (pc_calls st) ?pid p" "privilegeRecordMap p \<noteq> []" by (auto simp: cache_ok_def)
  have p1: "p1 = (if rem = None then p else p\<lparr>privilegeRecordMap := sm_erase ?idx (privilegeRecordMap p)\<rparr>)"
    and rem: "rem = map_of (privilegeRecordMap p) ?idx" using 1 by (auto simp: RemovePrivilege_def split: option.splits)
  have ok1: "proc_ok E G (pc_calls st) ?pid p1" using p(1) proc_ok_filter [OF p(1)] by (simp add: p1 sm_erase_def)
  have look: "map_of (privilegeRecordMap p1) i = (if i = ?idx then None else map_of (privilegeRecordMap p) i)" for i
    using rem by (simp add: p1)
  define st1 where "st1 = st\<lparr>processPrivilegeMap := (if privilegeRecordMap p1 = [] then sm_erase ?pid (processPrivilegeMap st)
    else sm_put ?pid p1 (processPrivilegeMap st))\<rparr>"
  have i1: "cache_inv E G st1" unfolding st1_def
    using inv_map [OF assms(1)] cache_ok_erase [OF ok] cache_ok_put [OF ok ok1] by simp
  have "held st1 q i = (if q = ?pid \<and> i = ?idx then None else held st q i)" for q i
    using assms(2) look [of i] by (auto simp: held_def st1_def)
  moreover obtain r2 st2 where 2: "CleanExpiredPrivilegesAndSaveToFile E st1 = (r2, st2)" by (cases "CleanExpiredPrivilegesAndSaveToFile E st1")
  moreover have "RemoveSingle E ci st = (r2, if r2 \<noteq> ERR_OK then RollbackDelSingleRecord p1 (held st ?pid ?idx) st2 else st2)"
    using assms(2) 1 2 rem by (simp add: RemoveSingle_def st1_def Let_def held_def)
  moreover have "pc_calls st1 = pc_calls st" by (simp add: st1_def)
  ultimately show ?thesis using that i1 ok1 by blast
qed

lemma rollback_ok:
  assumes "cache_inv E G st" and "proc_ok E G (pc_calls st) pid p" and "entry_ok E G (pc_calls st) pid idx x"
  shows "cache_inv E G (RollbackDelSingleRecord p (Some x) st)"
    and "held (RollbackDelSingleRecord p (Some x) st) q i = (if q = pid \<and> i = idx then Some x else held st q i)"
proof -
  have ok: "cache_ok E G (pc_calls st) (processPrivilegeMap st)" using assms(1) by (simp add: cache_inv_def)
  have pid: "pp_pid p = pid" "pv_privilegeIdx x = idx" using assms(2,3) by (simp_all add: proc_ok_def entry_ok_def record_wf_def)
  define q1 where "q1 = (case map_of (processPrivilegeMap st) pid of None \<Rightarrow> p\<lparr>privilegeRecordMap := []\<rparr> | Some q \<Rightarrow> q)"
  have eq: "RollbackDelSingleRecord p (Some x) st = st\<lparr>processPrivilegeMap :=
      sm_put pid (q1\<lparr>privilegeRecordMap := sm_put idx x (privilegeRecordMap q1)\<rparr>) (processPrivilegeMap st)\<rparr>"
    by (simp add: RollbackDelSingleRecord_def RollbackPrivilege_def pid q1_def Let_def)
  have "proc_ok E G (pc_calls st) pid q1"
    using ok assms(2) by (auto simp: q1_def cache_ok_def proc_ok_def split: option.splits)
  from proc_ok_put [OF this assms(3)] show "cache_inv E G (RollbackDelSingleRecord p (Some x) st)"
    unfolding eq by (intro inv_map [OF assms(1)] cache_ok_put [OF ok]) simp_all
  show "held (RollbackDelSingleRecord p (Some x) st) q i = (if q = pid \<and> i = idx then Some x else held st q i)"
    unfolding eq by (auto simp: held_def q1_def split: option.splits)
qed

lemma inv_remove:
  assumes "cache_inv E G st" and "RemoveSingle E ci st = (r, st')"
  shows "cache_inv E G st'"
proof (cases "map_of (processPrivilegeMap st) (ci_pid ci)")
  case None
  with assms show ?thesis by (simp add: RemoveSingle_def)
next
  case (Some p)
  obtain st1 st2 r2 p1 where i1: "cache_inv E G st1" "pc_calls st1 = pc_calls st" and p1: "proc_ok E G (pc_calls st) (ci_pid ci) p1"
    and 2: "CleanExpiredPrivilegesAndSaveToFile E st1 = (r2, st2)"
    and e: "RemoveSingle E ci st = (r2, if r2 \<noteq> ERR_OK then RollbackDelSingleRecord p1 (held st (ci_pid ci) (ci_privilegeIdx ci)) st2 else st2)"
    by (rule RemoveSingle_steps [OF assms(1) Some])
  note C = inv_clean [OF i1(1) 2]
  have n: "pc_calls st \<le> pc_calls st2" using C(2) i1(2) by simp
  have "cache_inv E G (RollbackDelSingleRecord p1 (held st (ci_pid ci) (ci_privilegeIdx ci)) st2)"
  proof (cases "held st (ci_pid ci) (ci_privilegeIdx ci)")
    case None
    with C(1) show ?thesis by (simp add: RollbackDelSingleRecord_def)
  next
    case (Some x)
    show ?thesis unfolding Some
      by (rule rollback_ok(1) [OF C(1) proc_ok_mono [OF p1 order_refl n] entry_ok_mono [OF held_ok [OF assms(1) Some] order_refl n]])
  qed
  with assms(2) e C(1) show ?thesis by auto
qed

lemma inv_remove_snd: "cache_inv E G st \<Longrightarrow> cache_inv E G (snd (RemoveSingle E ci st))"
  using inv_remove [OF _ prod.collapse [symmetric]] by blast

text \<open>What the callers pass: ids of processes and users, and a privilege of the list. The clock counts milliseconds since boot and does not run backwards.\<close>

definition caller_ok :: "'z priv_env_scheme \<Rightarrow> AuthenCallerInfo \<Rightarrow> bool" where
  "caller_ok E ci \<longleftrightarrow> int32 (ci_pid ci) \<and> int32 (ci_uid ci) \<and> unat (ci_privilegeIdx ci) < length (g_privilegeList E)"

definition clock_ok :: "'z priv_env_scheme \<Rightarrow> bool" where
  "clock_ok E \<longleftrightarrow> (\<forall>k t. GetBootTimeMs E k = (ERR_OK, t) \<longrightarrow> 0 \<le> t \<and> t < 2 ^ 62
     \<and> (\<forall>l s. k \<le> l \<and> GetBootTimeMs E l = (ERR_OK, s) \<longrightarrow> t \<le> s))"

lemma AddTimePeriod_range: "0 \<le> t \<Longrightarrow> t < 2 ^ 62 \<Longrightarrow> int64 (AddTimePeriod t d)"
  using uint_lt2p [of "d * MILLI_SECONDS_PER_SECOND"] by (auto simp: AddTimePeriod_def intro: order_trans [of _ 0])

lemma AddOrUpdate_ok:
  assumes "clock_ok E" and "unat idx < length (g_privilegeList E)" and "proc_ok E G (pc_calls st) pid p"
    and "AddOrUpdatePrivilege E idx s p st = ((r, p'), st')"
  shows "unchanged st st'"
    and "r = ERR_OK \<Longrightarrow> proc_ok E (insert (pid, idx, False) G) (pc_calls st') pid p' \<and> privilegeRecordMap p' \<noteq> []"
proof -
  obtain r1 t st1 where 1: "GetUptimeMs E st = ((r1, t), st1)" by (metis prod.exhaust)
  note u = uptime_unchanged [OF 1]
  show "unchanged st st'" using assms(4) u by (auto simp: AddOrUpdatePrivilege_def 1 Let_def split: if_splits)
  assume "r = ERR_OK"
  then have r1: "r1 = ERR_OK" and st': "st' = st1"
    and p': "p' = p\<lparr>privilegeRecordMap := sm_put idx \<lparr>pv_privilegeIdx = idx, pv_expiredTime = AddTimePeriod t (timeout_of E idx),
      pv_safeStartTime = s, pv_authStatus = NOT_REQUIRED\<rparr> (privilegeRecordMap p)\<rparr>"
    using assms(4) by (auto simp: AddOrUpdatePrivilege_def 1 Let_def split: if_splits)
  have t: "GetBootTimeMs E (pc_calls st) = (ERR_OK, t)" "pc_calls st' = Suc (pc_calls st)"
    using 1 by (auto simp: GetUptimeMs_def pask_def r1 st')
  have "dated E (pc_calls st') idx \<lparr>pv_privilegeIdx = idx, pv_expiredTime = AddTimePeriod t (timeout_of E idx),
      pv_safeStartTime = s, pv_authStatus = NOT_REQUIRED\<rparr>"
    using t by (auto simp: dated_def intro!: exI [of _ "pc_calls st"])
  moreover have "int64 (AddTimePeriod t (timeout_of E idx))" using assms(1) t(1) AddTimePeriod_range unfolding clock_ok_def by blast
  moreover have "proc_ok E (insert (pid, idx, False) G) (pc_calls st') pid p"
    by (rule proc_ok_mono [OF assms(3)]) (auto simp: t(2))
  ultimately show "proc_ok E (insert (pid, idx, False) G) (pc_calls st') pid p' \<and> privilegeRecordMap p' \<noteq> []"
    using assms(2) unfolding p' by (auto intro!: proc_ok_put simp: entry_ok_def record_wf_def)
qed

lemma new_proc_ok:
  assumes "caller_ok E ci" and "CreateEmptyProcessPrivilegeRecord E ci st = ((r, Some p), st')"
  shows "proc_ok E G n (ci_pid ci) p"
  using Create_unchanged(3) [OF assms(2) refl] assms(1) by (simp add: proc_ok_def caller_ok_def)

lemma inv_add:
  assumes "clock_ok E" and "caller_ok E ci" and "cache_inv E G st" and "AddCache E ci s st = (r, st')"
  shows "cache_inv E (if r = ERR_OK then insert (ci_pid ci, ci_privilegeIdx ci, False) G else G) st'"
proof -
  let ?pid = "ci_pid ci" and ?idx = "ci_privilegeIdx ci"
  let ?G = "insert (?pid, ?idx, False) G"
  have idx: "unat ?idx < length (g_privilegeList E)" using assms(2) by (simp add: caller_ok_def)
  have added: "cache_inv E (if r = ERR_OK then ?G else G) st'"
    if i: "cache_inv E G st1" and p: "proc_ok E G (pc_calls st1) ?pid p"
      and a: "AddOrUpdatePrivilege E ?idx s p st1 = ((r1, p1), st2)"
      and e: "(r, st') = (if r1 \<noteq> ERR_OK then (r1, st2) else (ERR_OK, snd (CleanExpiredPrivilegesAndSaveToFile E
          (st2\<lparr>processPrivilegeMap := sm_put ?pid p1 (processPrivilegeMap st2)\<rparr>))))" for st1 st2 p p1 r1
  proof -
    note A = AddOrUpdate_ok [OF assms(1) idx p a]
    have i2: "cache_inv E G st2" using i A(1) by (rule inv_unchanged)
    show ?thesis
    proof (cases "r1 = ERR_OK")
      case True
      have "cache_inv E ?G st2" using i2 by (rule cache_inv_mono) blast
      then have "cache_inv E ?G (st2\<lparr>processPrivilegeMap := sm_put ?pid p1 (processPrivilegeMap st2)\<rparr>)"
        by (rule inv_map) (use A(2) [OF True] \<open>cache_inv E ?G st2\<close> in \<open>auto intro: cache_ok_put simp: cache_inv_def\<close>)
      from inv_clean_snd [OF this] e True show ?thesis by simp
    qed (use e i2 in simp)
  qed
  show ?thesis
  proof (cases "map_of (processPrivilegeMap st) ?pid")
    case None
    obtain r0 p st1 where 1: "CreateEmptyProcessPrivilegeRecord E ci st = ((r0, p), st1)" by (metis prod.exhaust)
    note C = Create_unchanged [OF 1]
    have i1: "cache_inv E G st1" using assms(3) C(1) by (rule inv_unchanged)
    show ?thesis
    proof (cases p)
      case None
      with assms(4) \<open>map_of (processPrivilegeMap st) ?pid = None\<close> i1 C(2) show ?thesis
        by (auto simp: AddCache_def AddNewProcessCacheInner_def 1)
    next
      case (Some q)
      obtain r1 p1 st2 where 2: "AddOrUpdatePrivilege E ?idx s q st1 = ((r1, p1), st2)" by (metis prod.exhaust)
      have "proc_ok E G (pc_calls st1) ?pid q" using 1 unfolding Some by (rule new_proc_ok [OF assms(2)])
      from added [OF i1 this 2] assms(4) None Some show ?thesis by (simp add: AddCache_def AddNewProcessCacheInner_def 1 2)
    qed
  next
    case (Some p)
    obtain r1 p1 st2 where 2: "AddOrUpdatePrivilege E ?idx s p st = ((r1, p1), st2)" by (metis prod.exhaust)
    have "proc_ok E G (pc_calls st) ?pid p" using assms(3) Some by (simp add: cache_inv_def cache_ok_def)
    from added [OF assms(3) this 2] assms(4) Some show ?thesis by (simp add: AddCache_def 2)
  qed
qed

lemma inv_status:
  assumes "cache_inv E G st" and "s \<noteq> NOT_REQUIRED" and "(pid, idx, True) \<in> G"
  shows "cache_inv E G (snd (SetAuthStatusForRecord pid idx s st))"
proof (cases "\<exists>p r. map_of (processPrivilegeMap st) pid = Some p \<and> map_of (privilegeRecordMap p) idx = Some r")
  case True
  then obtain p r where p: "map_of (processPrivilegeMap st) pid = Some p" "map_of (privilegeRecordMap p) idx = Some r" by blast
  have ok: "cache_ok E G (pc_calls st) (processPrivilegeMap st)" using assms(1) by (simp add: cache_inv_def)
  with p have q: "proc_ok E G (pc_calls st) pid p" by (simp add: cache_ok_def)
  with p have "entry_ok E G (pc_calls st) pid idx (r\<lparr>pv_authStatus := s\<rparr>)"
    using assms(2,3) by (auto simp: proc_ok_def entry_ok_def record_wf_def dated_def)
  from proc_ok_put [OF q this] p show ?thesis
    by (simp add: SetAuthStatusForRecord_def) (intro inv_map [OF assms(1)] cache_ok_put [OF ok], simp_all)
next
  case False
  then show ?thesis using assms(1) by (auto simp: SetAuthStatusForRecord_def split: option.splits)
qed

lemma inv_prepare:
  assumes "caller_ok E ci" and "cache_inv E G st" and "(ci_pid ci, ci_privilegeIdx ci, True) \<in> G"
    and "PrepareKernelAuthCache E ci st = ((r, t), st')"
  shows "cache_inv E G st'"
proof -
  let ?pid = "ci_pid ci" and ?idx = "ci_privilegeIdx ci"
  define new where "new = \<lparr>pv_privilegeIdx = ?idx, pv_expiredTime = INT64_MAX, pv_safeStartTime = (0 :: u32), pv_authStatus = UNCONFIRMED\<rparr>"
  obtain r0 p st1 where 1: "(case map_of (processPrivilegeMap st) ?pid of None \<Rightarrow> CreateEmptyProcessPrivilegeRecord E ci st
      | Some p \<Rightarrow> ((ERR_OK, Some p), st)) = ((r0, p), st1)" by (metis prod.exhaust)
  have i1: "cache_inv E G st1" and ok1: "p = Some q \<Longrightarrow> proc_ok E G (pc_calls st1) ?pid q" for q
  proof -
    have "cache_inv E G st1 \<and> (\<forall>q. p = Some q \<longrightarrow> proc_ok E G (pc_calls st1) ?pid q)"
    proof (cases "map_of (processPrivilegeMap st) ?pid")
      case None
      with 1 have c: "CreateEmptyProcessPrivilegeRecord E ci st = ((r0, p), st1)" by simp
      with inv_unchanged [OF assms(2) Create_unchanged(1) [OF c]] new_proc_ok [OF assms(1)] show ?thesis by blast
    next
      case (Some x)
      with 1 assms(2) show ?thesis by (auto simp: cache_inv_def cache_ok_def)
    qed
    then show "cache_inv E G st1" "p = Some q \<Longrightarrow> proc_ok E G (pc_calls st1) ?pid q" for q by blast+
  qed
  show ?thesis
  proof (cases p)
    case None
    with assms(4) i1 show ?thesis unfolding PrepareKernelAuthCache_def 1 by simp
  next
    case (Some q)
    have "entry_ok E G (pc_calls st1) ?pid ?idx new"
      using assms(1,3) by (simp add: new_def entry_ok_def record_wf_def dated_def caller_ok_def INT64_MAX_def)
    note q1 = proc_ok_put [OF ok1 [OF Some] this]
    define st2 where "st2 = st1\<lparr>processPrivilegeMap := sm_put ?pid (q\<lparr>privilegeRecordMap := sm_put ?idx new (privilegeRecordMap q)\<rparr>)
      (processPrivilegeMap st1)\<rparr>"
    have i2: "cache_inv E G st2" unfolding st2_def
      by (rule inv_map [OF i1]) (use i1 q1 in \<open>auto intro: cache_ok_put simp: cache_inv_def\<close>)
    obtain r3 t3 st3 where 3: "GetUptimeMs E st2 = ((r3, t3), st3)" by (metis prod.exhaust)
    have i3: "cache_inv E G st3" using i2 uptime_unchanged [OF 3] by (rule inv_unchanged)
    define t4 where "t4 = (if r3 \<noteq> ERR_OK then 0 else t3)"
    obtain r4 st4 where 4: "ToPersistFile E t4 st3 = (r4, st4)" by (cases "ToPersistFile E t4 st3")
    have i4: "cache_inv E G st4" using inv_persist(1) [OF i3 4] .
    have "((r, t), st') = (if r4 \<noteq> ERR_OK then ((r4, t4), snd (RemoveSingle E ci st4)) else ((ERR_OK, t4), st4))"
      using assms(4) unfolding PrepareKernelAuthCache_def 1 Let_def prod.case Some option.case new_def [symmetric] st2_def [symmetric] 3
        t4_def [symmetric] 4 by (rule sym)
    with i4 inv_remove_snd [OF i4] show ?thesis by (auto split: if_splits)
  qed
qed

lemma inv_kernel:
  assumes "caller_ok E ci" and "cache_inv E G st" and "AddCacheAndNotifyKernel E ci perm st = (r, st')"
  shows "cache_inv E (insert (ci_pid ci, ci_privilegeIdx ci, True) G) st'"
proof -
  let ?G = "insert (ci_pid ci, ci_privilegeIdx ci, True) G" and ?set = "\<lambda>s. SetAuthStatusForRecord (ci_pid ci) (ci_privilegeIdx ci) s"
  have "cache_inv E ?G st" using assms(2) by (rule cache_inv_mono) blast
  obtain r1 t st1 where 1: "PrepareKernelAuthCache E ci st = ((r1, t), st1)" by (metis prod.exhaust)
  have i1: "cache_inv E ?G st1" by (rule inv_prepare [OF assms(1) \<open>cache_inv E ?G st\<close> _ 1]) simp
  obtain r2 st2 where 2: "pask (SetKernelAuthorization E (ci_pid ci) perm) st1 = (r2, st2)"
    by (cases "pask (SetKernelAuthorization E (ci_pid ci) perm) st1")
  have i2: "cache_inv E ?G st2" using i1 pask_unchanged [OF 2] by (rule inv_unchanged)
  obtain r3 st3 where 3: "?set AUTHORIZED st2 = (r3, st3)" by (cases "?set AUTHORIZED st2")
  have i3: "cache_inv E ?G st3" using inv_status [OF i2, of AUTHORIZED] 3 by (metis PrivilegeAuthStatus.distinct(3) insertI1 snd_conv)
  obtain r4 st4 where 4: "ToPersistFile E t st3 = (r4, st4)" by (cases "ToPersistFile E t st3")
  have i4: "cache_inv E ?G st4" using inv_persist(1) [OF i3 4] .
  have i5: "cache_inv E ?G (snd (?set UNCONFIRMED st4))" by (rule inv_status [OF i4]) simp_all
  show ?thesis using assms(3) i1 inv_remove_snd [OF i2] i3 i4 i5
    by (auto simp: AddCacheAndNotifyKernel_def 1 2 3 4 split: if_splits)
qed

lemma inv_ask:
  assumes "cache_inv E G st" and "HasKernelAuthorization E pid idx perm st = (r, st')"
  shows "cache_inv E G st'"
proof (cases "\<exists>p x. map_of (processPrivilegeMap st) pid = Some p \<and> map_of (privilegeRecordMap p) idx = Some x \<and> pv_authStatus x = UNCONFIRMED")
  case False
  have "st' = st"
  proof (cases "map_of (processPrivilegeMap st) pid")
    case (Some p)
    then show ?thesis
    proof (cases "map_of (privilegeRecordMap p) idx")
      case (Some x)
      with False \<open>map_of (processPrivilegeMap st) pid = Some p\<close> assms(2) show ?thesis
        by (cases "pv_authStatus x") (simp_all add: HasKernelAuthorization_def)
    qed (use assms(2) in \<open>simp add: HasKernelAuthorization_def\<close>)
  qed (use assms(2) in \<open>simp add: HasKernelAuthorization_def\<close>)
  then show ?thesis using assms(1) by simp
next
  case True
  then obtain p x where p: "map_of (processPrivilegeMap st) pid = Some p" "map_of (privilegeRecordMap p) idx = Some x" "pv_authStatus x = UNCONFIRMED"
    by blast
  have "cache_ok E G (pc_calls st) (processPrivilegeMap st)" using assms(1) by (simp add: cache_inv_def)
  with p(1) have "proc_ok E G (pc_calls st) pid p" by (simp add: cache_ok_def)
  with p(2) have "entry_ok E G (pc_calls st) pid idx x" by (simp add: proc_ok_def)
  with p(3) have G: "(pid, idx, True) \<in> G" by (simp add: entry_ok_def)
  obtain r1 b st1 where 1: "pask (QueryKernelAuthorization E pid perm) st = ((r1, b), st1)" by (metis prod.exhaust)
  have i1: "cache_inv E G st1" using assms(1) pask_unchanged [OF 1] by (rule inv_unchanged)
  have "cache_inv E G (UpdateToAuthorized E pid idx st1)"
  proof -
    obtain r2 t st2 where 2: "GetUptimeMs E st1 = ((r2, t), st2)" by (metis prod.exhaust)
    have i2: "cache_inv E G st2" using i1 uptime_unchanged [OF 2] by (rule inv_unchanged)
    have i3: "cache_inv E G (snd (SetAuthStatusForRecord pid idx AUTHORIZED st2))" by (rule inv_status [OF i2 _ G]) simp
    obtain r4 st4 where 4: "ToPersistFile E t (snd (SetAuthStatusForRecord pid idx AUTHORIZED st2)) = (r4, st4)"
      by (cases "ToPersistFile E t (snd (SetAuthStatusForRecord pid idx AUTHORIZED st2))")
    have i4: "cache_inv E G st4" using inv_persist(1) [OF i3 4] .
    have "cache_inv E G (snd (SetAuthStatusForRecord pid idx UNCONFIRMED st4))" by (rule inv_status [OF i4 _ G]) simp
    with i2 i4 show ?thesis by (simp add: UpdateToAuthorized_def 2 4)
  qed
  with assms(2) p i1 inv_remove_snd [OF i1] show ?thesis by (auto simp: HasKernelAuthorization_def 1 split: if_splits)
qed

section \<open>Runs\<close>

text \<open>
  The requests of the service and what happens around it: a process ends, the clean task runs, the service starts again with an empty
  memory, and the kernel changes the status file of a process. A request answers with a code and a number, the
  remaining time or whether the kernel has the privilege.
\<close>

datatype priv_request =
    Check AuthenCallerInfo int
  | Grant AuthenCallerInfo u32
  | GrantKernel AuthenCallerInfo string
  | AskKernel int u32 string
  | Revoke AuthenCallerInfo
  | UserRemoved int
  | ProcessDied int
  | CleanTask
  | Restart
  | ProcStat int "string option"

fun run_priv_request :: "'z priv_env_scheme \<Rightarrow> priv_request \<Rightarrow> priv_state \<Rightarrow> (ErrCode \<times> int) \<times> priv_state" where
  "run_priv_request E (Check ci remain) st = CheckPrivilege E ci remain st"
| "run_priv_request E (Grant ci s) st = (let (r, st') = AddCache E ci s st in ((r, 0), st'))"
| "run_priv_request E (GrantKernel ci perm) st = (let (r, st') = AddCacheAndNotifyKernel E ci perm st in ((r, 0), st'))"
| "run_priv_request E (AskKernel pid idx perm) st =
     (let ((r, b), st') = HasKernelAuthorization E pid idx perm st in ((r, if b then 1 else 0), st'))"
| "run_priv_request E (Revoke ci) st = (let (r, st') = RemoveSingle E ci st in ((r, 0), st'))"
| "run_priv_request E (UserRemoved i) st = (let (r, st') = RemoveUser E i st in ((r, 0), st'))"
| "run_priv_request E (ProcessDied pid) st = ((ERR_OK, 0), OnRemoteDied E pid st)"
| "run_priv_request E CleanTask st = (let (r, st') = RunCleanTask E st in ((r, 0), st'))"
| "run_priv_request E Restart st =
     (let (r, st') = FromPersistFile E (st\<lparr>processPrivilegeMap := [], pc_tasks := 0\<rparr>) in ((r, 0), st'))"
| "run_priv_request E (ProcStat pid c) st = ((ERR_OK, 0), st\<lparr>pc_fs := put_file (stat_path pid) c (pc_fs st)\<rparr>)"

fun priv_request_ok :: "'z priv_env_scheme \<Rightarrow> priv_request \<Rightarrow> bool" where
  "priv_request_ok E (Grant ci s) = caller_ok E ci"
| "priv_request_ok E (GrantKernel ci perm) = caller_ok E ci"
| "priv_request_ok E _ = True"

definition priv_step :: "'z priv_env_scheme \<Rightarrow> priv_state \<Rightarrow> priv_request \<Rightarrow> ErrCode \<times> int \<Rightarrow> priv_state \<Rightarrow> bool" where
  "priv_step E st q r st' \<longleftrightarrow> priv_request_ok E q \<and> run_priv_request E q st = (r, st')"

fun grants :: "priv_request \<times> ErrCode \<times> int \<Rightarrow> grant set" where
  "grants (Grant ci s, r) = (if fst r = ERR_OK then {(ci_pid ci, ci_privilegeIdx ci, False)} else {})"
| "grants (GrantKernel ci perm, r) = {(ci_pid ci, ci_privilegeIdx ci, True)}"
| "grants _ = {}"

definition granted :: "(priv_request \<times> ErrCode \<times> int) list \<Rightarrow> grant set" where
  "granted h = (\<Union>e \<in> set h. grants e)"

definition fresh_cache :: "priv_state \<Rightarrow> bool" where
  "fresh_cache st \<longleftrightarrow> processPrivilegeMap st = [] \<and> cache_file st = None"

definition priv_env_ok :: "'z priv_env_scheme \<Rightarrow> bool" where
  "priv_env_ok E \<longleftrightarrow> cjson_ok E \<and> privileges_ok E \<and> clock_ok E"

lemma check_cache_unchanged: "check_cache E ci x st = (a, st') \<Longrightarrow> unchanged st st'"
proof -
  have R: "unchanged st1 st2" if "GetRemainTimeSec E r t st1 = (x, st2)" for r t st1 x st2
    using that by (auto simp: GetRemainTimeSec_def Let_def split_beta split: if_splits)
  have P: "unchanged st1 st2" if a: "Process_CheckPrivilege E p i x st1 = (y, st2)" for p i x y st1 st2
  proof -
    obtain r0 t st3 where 1: "GetUptimeMs E st1 = ((r0, t), st3)" by (metis prod.exhaust)
    note u = uptime_unchanged [OF 1]
    show ?thesis using a u unchanged_trans [OF u R]
      by (auto simp: Process_CheckPrivilege_def 1 Let_def split: if_splits option.splits prod.splits)
  qed
  assume "check_cache E ci x st = (a, st')"
  then show ?thesis by (auto simp: check_cache_def split: option.splits prod.splits if_splits dest: P)
qed

lemma inv_check:
  assumes "cache_inv E G st" and "CheckPrivilege E ci x st = (r, st')"
  shows "cache_inv E G st'"
proof -
  obtain a st1 where 1: "check_cache E ci x st = (a, st1)" by (cases "check_cache E ci x st")
  have i1: "cache_inv E G st1" using assms(1) check_cache_unchanged [OF 1] by (rule inv_unchanged)
  obtain r2 l st2 where 2: "GetAcl E (ci_pid ci) st1 = ((r2, l), st2)" by (metis prod.exhaust)
  have "unchanged st1 st2"
    using 2 unchanged_trans [OF pask_snd pask_snd] by (auto simp: GetAcl_def split_beta split: option.splits if_splits)
  with i1 have "cache_inv E G st2" by (rule inv_unchanged)
  with assms(2) i1 show ?thesis by (auto simp: CheckPrivilege_def 1 2 StartCleanTask_def split: option.splits if_splits)
qed

lemma inv_restart:
  assumes "priv_env_ok E" and "cache_inv E G st" and "FromPersistFile E (st\<lparr>processPrivilegeMap := [], pc_tasks := 0\<rparr>) = (r, st')"
  shows "cache_inv E G st'"
proof -
  let ?st = "st\<lparr>processPrivilegeMap := [], pc_tasks := 0\<rparr>"
  have i: "cache_inv E G ?st" using inv_map [OF assms(2), of "[]"] by (simp add: cache_ok_def cache_inv_def)
  have "\<forall>c. cache_file ?st = Some c \<longrightarrow> (\<exists>u m. cache_text E u m c \<and> cache_wf E m \<and> cache_ok E G (pc_calls ?st) m)"
    using i cache_ok_wf unfolding cache_inv_def by blast
  note spec = FromPersistFile_spec [OF _ _ assms(3) this]
  have env: "privileges_ok E" "cjson_ok E" using assms(1) by (simp_all add: priv_env_ok_def)
  have L: "pc_calls ?st \<le> pc_calls st'" "cache_file st' \<in> {None, cache_file ?st}" "sm_wf (processPrivilegeMap st')"
    and M: "\<And>pid q. map_of (processPrivilegeMap st') pid = Some q \<Longrightarrow>
      \<exists>m p t. cache_ok E G (pc_calls ?st) m \<and> map_of m pid = Some p \<and> q = live_process t p \<and> privilegeRecordMap q \<noteq> []"
    using spec [OF env] by (simp_all del: map_of_eq_Some_iff) blast
  have "proc_ok E G (pc_calls st') pid q \<and> privilegeRecordMap q \<noteq> []" if q: "map_of (processPrivilegeMap st') pid = Some q" for pid q
  proof -
    obtain m p t where "cache_ok E G (pc_calls ?st) m" "map_of m pid = Some p" "q = live_process t p" "privilegeRecordMap q \<noteq> []"
      using M [OF q] by blast
    moreover have "proc_ok E G (pc_calls ?st) pid p" using calculation(1,2) by (simp add: cache_ok_def)
    ultimately show ?thesis using proc_ok_mono [OF proc_ok_filter order_refl L(1)] by blast
  qed
  with L(3) have "cache_ok E G (pc_calls st') (processPrivilegeMap st')" unfolding cache_ok_def by blast
  moreover have "\<exists>u m. cache_text E u m c \<and> cache_ok E G (pc_calls st') m" if "cache_file st' = Some c" for c
    using i that L(2) cache_ok_mono [OF _ order_refl L(1)] unfolding cache_inv_def by force
  ultimately show ?thesis unfolding cache_inv_def by blast
qed

lemma priv_step_inv:
  assumes "priv_env_ok E" and "cache_inv E G st" and "priv_step E st q r st'"
  shows "cache_inv E (G \<union> grants (q, r)) st'"
proof -
  have run: "priv_request_ok E q" "run_priv_request E q st = (r, st')" using assms(3) by (simp_all add: priv_step_def)
  have clock: "clock_ok E" using assms(1) by (simp add: priv_env_ok_def)
  have ok: "cache_ok E G (pc_calls st) (processPrivilegeMap st)" using assms(2) by (simp add: cache_inv_def)
  note clean = inv_clean_snd [OF inv_map [OF assms(2)]]
  show ?thesis
  proof (cases q)
    case (Check ci x)
    then show ?thesis using run inv_check [OF assms(2)] by simp
  next
    case (Grant ci s)
    then show ?thesis using run inv_add [OF clock _ assms(2)] by (fastforce split: prod.splits if_splits)
  next
    case (GrantKernel ci perm)
    then show ?thesis using run inv_kernel [OF _ assms(2)] by (fastforce split: prod.splits)
  next
    case (AskKernel pid idx perm)
    then show ?thesis using run inv_ask [OF assms(2)] by (fastforce split: prod.splits)
  next
    case (Revoke ci)
    then show ?thesis using run inv_remove [OF assms(2)] by (fastforce split: prod.splits)
  next
    case (UserRemoved i)
    then show ?thesis using run clean [OF cache_ok_filter [OF ok]] by (auto simp: RemoveUser_def)
  next
    case (ProcessDied pid)
    then show ?thesis using run assms(2) clean [OF cache_ok_erase [OF ok]]
      by (auto simp: OnRemoteDied_def RemoveProcess_def split: option.splits)
  next
    case CleanTask
    then show ?thesis using run assms(2) inv_clean_snd [of E G "st\<lparr>pc_tasks := pc_tasks st - 1\<rparr>"]
      by (auto simp: RunCleanTask_def split: if_splits)
  next
    case Restart
    then show ?thesis using run inv_restart [OF assms(1,2)] by (fastforce split: prod.splits)
  next
    case (ProcStat pid c)
    then show ?thesis using run assms(2) temp_not_stat(2) [of pid] by (auto simp: cache_inv_def)
  qed
qed

lemma run_cache_inv:
  assumes "priv_env_ok E" and "service_run (priv_step E) st0 h st" and "fresh_cache st0"
  shows "cache_inv E (granted h) st"
  using assms(2)
proof (induction rule: service_run.induct)
  case no_request
  then show ?case using assms(3) by (simp add: fresh_cache_def cache_inv_def cache_ok_def)
next
  case (next_request h s1 q r s2)
  have "granted (h @ [(q, r)]) = granted h \<union> grants (q, r)" by (auto simp: granted_def)
  with priv_step_inv [OF assms(1) next_request.IH next_request.hyps(2)] show ?case by simp
qed

end
