(* ===== verification/Privilege_Safety.thy ===== *)
theory Privilege_Safety
  imports Privilege_Runs Json_Reference
begin

text \<open>
  What the runs of the privilege cache guarantee: a privilege is answered only for a process that was granted it and in its time,
  revoking succeeds or leaves everything, a stored cache comes back after a start, and a file that was not written by the service adds
  nothing. A small device, on which the reference format of JSON stands for cJSON, shows that the hypotheses can hold.
\<close>

section \<open>Answers\<close>

lemma small_sint: "0 \<le> v \<Longrightarrow> v < 2 ^ 31 \<Longrightarrow> sint (word_of_int v :: u32) = v"
  by (simp add: signed_of_int signed_take_bit_int_eq_self)

text \<open>A positive answer of the cache: an authorized record, or one whose time is not over.\<close>

lemma cache_answer:
  assumes "check_cache E ci x st = (Some (ERR_OK, remain), st')"
  shows "\<exists>r now. held st (ci_pid ci) (ci_privilegeIdx ci) = Some r \<and> GetBootTimeMs E (pc_calls st) = (ERR_OK, now)
    \<and> (pv_authStatus r = AUTHORIZED \<and> remain = INT32_MAX
      \<or> pv_authStatus r = NOT_REQUIRED \<and> now \<le> AddTimePeriod (pv_expiredTime r) EXPIRED_TIME_OFFSET
        \<and> (now < DecTimePeriod (pv_expiredTime r) EXPIRED_TIME_OFFSET \<longrightarrow>
            remain = sint (word_of_int ((pv_expiredTime r - now) div MS_TO_SECOND) :: u32)))"
proof -
  obtain p where p: "map_of (processPrivilegeMap st) (ci_pid ci) = Some p"
    using assms by (auto simp: check_cache_def split: option.splits)
  obtain r0 y st2 where c: "Process_CheckPrivilege E p (ci_privilegeIdx ci) x st = ((r0, y), st2)" by (metis prod.exhaust)
  with assms p have c: "Process_CheckPrivilege E p (ci_privilegeIdx ci) x st = ((ERR_OK, remain), st2)"
    by (auto simp: check_cache_def split: if_splits option.splits)
  obtain r1 now st1 where 1: "GetUptimeMs E st = ((r1, now), st1)" by (metis prod.exhaust)
  with c have r1: "r1 = ERR_OK" by (auto simp: Process_CheckPrivilege_def split: if_splits)
  then have t: "GetBootTimeMs E (pc_calls st) = (ERR_OK, now)" using 1 by (auto simp: GetUptimeMs_def pask_def)
  obtain r where r: "map_of (privilegeRecordMap p) (ci_privilegeIdx ci) = Some r"
    using c by (auto simp: Process_CheckPrivilege_def 1 r1 split: option.splits)
  have "held st (ci_pid ci) (ci_privilegeIdx ci) = Some r" using p r by (simp add: held_def)
  moreover have "pv_authStatus r = AUTHORIZED \<and> remain = INT32_MAX
      \<or> pv_authStatus r = NOT_REQUIRED \<and> now \<le> AddTimePeriod (pv_expiredTime r) EXPIRED_TIME_OFFSET
        \<and> (now < DecTimePeriod (pv_expiredTime r) EXPIRED_TIME_OFFSET \<longrightarrow>
            remain = sint (word_of_int ((pv_expiredTime r - now) div MS_TO_SECOND) :: u32))"
  proof (cases "pv_authStatus r")
    case NOT_REQUIRED
    obtain r3 v st3 where 3: "GetRemainTimeSec E r now st1 = ((r3, v), st3)" by (metis prod.exhaust)
    have v: "remain = v" "v \<noteq> 0" "r3 = ERR_OK"
      using c NOT_REQUIRED by (auto simp: Process_CheckPrivilege_def 1 r1 r 3 split: if_splits)
    have le: "DecTimePeriod e o1 \<le> AddTimePeriod e o1" for e o1 by (simp add: DecTimePeriod_def AddTimePeriod_def order_trans [OF _ uint_ge_0])
    have "now \<le> AddTimePeriod (pv_expiredTime r) EXPIRED_TIME_OFFSET"
    proof (rule ccontr)
      assume "\<not> ?thesis"
      moreover have "\<not> now < DecTimePeriod (pv_expiredTime r) EXPIRED_TIME_OFFSET"
        using calculation le [of "pv_expiredTime r" EXPIRED_TIME_OFFSET] by linarith
      ultimately show False using 3 v(2) by (simp add: GetRemainTimeSec_def)
    qed
    with NOT_REQUIRED 3 v(1) show ?thesis by (auto simp: GetRemainTimeSec_def split: if_splits)
  qed (use c in \<open>simp_all add: Process_CheckPrivilege_def 1 r1 r\<close>)
  ultimately show ?thesis using t by blast
qed

lemma granted_iff:
  "(pid, idx, False) \<in> granted h \<longleftrightarrow> (\<exists>ci s x. (Grant ci s, ERR_OK, x) \<in> set h \<and> ci_pid ci = pid \<and> ci_privilegeIdx ci = idx)"
  "(pid, idx, True) \<in> granted h \<longleftrightarrow> (\<exists>ci perm r. (GrantKernel ci perm, r) \<in> set h \<and> ci_pid ci = pid \<and> ci_privilegeIdx ci = idx)"
proof -
  have "(pid, idx, False) \<in> grants e \<longleftrightarrow> (\<exists>ci s x. e = (Grant ci s, ERR_OK, x) \<and> ci_pid ci = pid \<and> ci_privilegeIdx ci = idx)"
    "(pid, idx, True) \<in> grants e \<longleftrightarrow> (\<exists>ci perm r. e = (GrantKernel ci perm, r) \<and> ci_pid ci = pid \<and> ci_privilegeIdx ci = idx)" for e
    by (cases e rule: grants.cases; auto)+
  then show "(pid, idx, False) \<in> granted h \<longleftrightarrow> (\<exists>ci s x. (Grant ci s, ERR_OK, x) \<in> set h \<and> ci_pid ci = pid \<and> ci_privilegeIdx ci = idx)"
    "(pid, idx, True) \<in> granted h \<longleftrightarrow> (\<exists>ci perm r. (GrantKernel ci perm, r) \<in> set h \<and> ci_pid ci = pid \<and> ci_privilegeIdx ci = idx)"
    unfolding granted_def by fastforce+
qed


lemma map_of_filter_distinct:
  "distinct (map fst m) \<Longrightarrow> map_of (filter Q m) k = (case map_of m k of None \<Rightarrow> None | Some v \<Rightarrow> if Q (k, v) then Some v else None)"
  by (induction m) (auto split: option.splits simp: map_of_eq_None_iff dest: map_of_SomeD simp del: map_of_eq_Some_iff)

lemma held_live:
  assumes "cache_ok E G n (processPrivilegeMap st)" and "processPrivilegeMap st' = live_cache t (processPrivilegeMap st)"
  shows "held st' pid idx = (case held st pid idx of None \<Rightarrow> None | Some r \<Rightarrow> if NeedClean r t then None else Some r)"
proof -
  have wf: "distinct (map fst (map (\<lambda>e. (fst e, live_process t (snd e))) (processPrivilegeMap st)))"
    using assms(1) by (intro sm_wf_distinct) (simp add: map_live cache_ok_def)
  show ?thesis
  proof (cases "map_of (processPrivilegeMap st) pid")
    case None
    then show ?thesis unfolding held_def assms(2) map_of_filter_distinct [OF wf] map_live by simp
  next
    case (Some p)
    have d: "distinct (map fst (privilegeRecordMap p))" using assms(1) Some sm_wf_distinct by (auto simp: cache_ok_def proc_ok_def)
    show ?thesis unfolding held_def assms(2) map_of_filter_distinct [OF wf] map_live
      using Some map_of_filter_distinct [OF d, of "\<lambda>e. \<not> NeedClean (snd e) t" idx] by (auto split: option.splits)
  qed
qed


text \<open>C12 (roundtrip). A cache that was written, in any state a run reaches, comes back when the service starts again and every
  process still runs: exactly the records whose time is not over, with everything they hold.\<close>

theorem cache_survives_restart:
  assumes "priv_env_ok E" and "fresh_cache st0" and "service_run (priv_step E) st0 h st"
    and "ToPersistFile E u st = (ERR_OK, st1)" and "processPrivilegeMap st \<noteq> []" and "int64 u"
    and "processPrivilegeMap st2 = []" and "cache_file st2 = cache_file st1" and "os_quiet E"
    and "\<forall>c. cache_file st2 = Some c \<longrightarrow> length c \<le> MAX_FILE_SIZE"
    and "\<forall>s k l. GenerateAccountInfoDigest E s k = GenerateAccountInfoDigest E s l"
    and "GetBootTimeMs E (pc_calls st2) = (ERR_OK, now)" and "u < now"
    and "\<forall>e \<in> set (processPrivilegeMap st). running E (fs_files (pc_fs st2)) (snd e)"
  shows "\<exists>st3. FromPersistFile E st2 = (ERR_OK, st3) \<and> processPrivilegeMap st3 = live_cache now (processPrivilegeMap st)"
proof -
  have ok: "privileges_ok E" "cjson_ok E" using assms(1) by (simp_all add: priv_env_ok_def)
  have wf: "cache_wf E (processPrivilegeMap st)"
    using run_cache_inv [OF assms(1,3,2)] cache_ok_wf by (auto simp: cache_inv_def)
  obtain c where c: "cache_file st1 = Some c" "cache_text E u (processPrivilegeMap st) c"
    using ToPersistFile_spec [OF assms(4)] assms(5) by auto
  have "cache_file st2 = Some c" "length c \<le> MAX_FILE_SIZE" using assms(8,10) c(1) by simp_all
  from restore_cache [OF ok wf c(2) assms(9,11) this assms(7,12,6,13,14)] show ?thesis .
qed

text \<open>C30 (safety). A file whose digest does not fit its time and records adds nothing to the cache when the service starts.\<close>

theorem forged_file_ignored:
  assumes "cache_file st = Some c" and "CreateJsonFromString E c = Some j"
    and "\<forall>u s. GetInt64FromJson (Some j) ''updateTime'' = Some u \<and> GetStringFromJson (Some j) ''processRecords'' = Some s \<longrightarrow>
      \<not> digest_of E u s (GetVectorUint8FromJson (Some j) ''digest'')"
  shows "processPrivilegeMap (snd (FromPersistFile E st)) = processPrivilegeMap st"
proof -
  obtain r1 t st1 where 1: "GetUptimeMs E st = ((r1, t), st1)" by (metis prod.exhaust)
  note u1 = uptime_unchanged [OF 1]
  obtain rs st2 where 2: "ReadAndCheckPersistRecordValid E t st1 = (rs, st2)" by (cases "ReadAndCheckPersistRecordValid E t st1")
  have "cache_file st1 = Some c" using assms(1) u1 by (simp add: unchanged_def)
  then have "rs = None" using ReadAndCheck_spec(2) [OF 2] assms(2,3) by (cases rs) auto
  with ReadAndCheck_spec(1) [OF 2] u1 show ?thesis by (simp add: FromPersistFile_def 1 2 unchanged_def file_kept_def)
qed

section \<open>A device\<close>

text \<open>One privilege of five minutes, and a process 7 that started at 4242.\<close>

definition demo_priv_env :: priv_env where
  "demo_priv_env = \<lparr>cj_parse = ref_read, cj_print = (\<lambda>j. Some (ref_print j)), sys_errno = (\<lambda>_. None), sys_short = (\<lambda>_. 0),
     space_ok = (\<lambda>_ _. True), g_privilegeList = [\<lparr>bd_privilegeName = ''backup'', bd_timeout = 300, bd_kernelPermission = []\<rparr>],
     stack_timeout = 0, GetBootTimeMs = (\<lambda>n. (ERR_OK, int (min (10 * n) 100))), CheckTimestampExpired = (\<lambda>_ _ _. (ERR_OK, 0, False)),
     pidfd_open = (\<lambda>_ _. None), AddDeathRecipient = (\<lambda>_ _. True), HAS_HUKS_PART = True,
     GenerateAccountInfoDigest = (\<lambda>s _. (ERR_OK, [42])), SetKernelAuthorization = (\<lambda>_ _ _. ERR_OK),
     QueryKernelAuthorization = (\<lambda>_ _ _. (ERR_OK, True)), encaps_open = (\<lambda>_. Some ENOENT), encaps_ioctl = (\<lambda>_ _. 0)\<rparr>"

definition demo_caller :: AuthenCallerInfo where
  "demo_caller = \<lparr>ci_pid = 7, ci_uid = 20000000, ci_privilegeIdx = 0, ci_remoteObject = True\<rparr>"

definition demo_cache :: priv_state where
  "demo_cache = \<lparr>pc_fs = put_file (stat_path 7) (Some ''7 (app) S 1 1 0 0 -1 0 0 0 0 0 0 0 0 0 20 0 1 0 4242 0'') empty_fs,
     processPrivilegeMap = [], pc_calls = 0, pc_tasks = 0\<rparr>"

definition demo_granted :: priv_state where
  "demo_granted = snd (run_priv_request demo_priv_env (Grant demo_caller 5) demo_cache)"

lemma demo_priv_ok: "priv_env_ok demo_priv_env" "os_quiet demo_priv_env" "fresh_cache demo_cache"
proof -
  have "cjson_ok demo_priv_env" by (simp add: demo_priv_env_def ref_lib_ok)
  moreover have "privileges_ok demo_priv_env" by (simp add: privileges_ok_def demo_priv_env_def)
  moreover have "clock_ok demo_priv_env" by (auto simp: clock_ok_def demo_priv_env_def)
  ultimately show "priv_env_ok demo_priv_env" by (simp add: priv_env_ok_def)
  show "os_quiet demo_priv_env" by (simp add: os_quiet_def demo_priv_env_def)
  show "fresh_cache demo_cache" using temp_not_stat(2) [of 7] by (simp add: fresh_cache_def demo_cache_def put_file_def empty_fs_def)
qed

definition demo_record :: ProcessPrivilegeRecord where
  "demo_record = \<lparr>privilegeRecordMap = [(0, \<lparr>pv_privilegeIdx = 0, pv_expiredTime = 300020, pv_safeStartTime = 5, pv_authStatus = NOT_REQUIRED\<rparr>)],
     pp_pid = 7, pp_uid = 20000000, processStartTime = 4242\<rparr>"

lemma demo_start_time:
  assumes "fs_files fs (stat_path 7) = Some ''7 (app) S 1 1 0 0 -1 0 0 0 0 0 0 0 0 0 20 0 1 0 4242 0''"
  shows "fst (GetProcessStartTime demo_priv_env 7 fs) = (ERR_OK, 4242)"
proof -
  have p: "stat_path 7 \<noteq> []" by (simp add: stat_path_def)
  have "is_digit (CHR ''4'')" "is_digit (CHR ''2'')" by code_simp+
  moreover have "digit_val (CHR ''4'') = 4" "digit_val (CHR ''2'') = 2" by code_simp+
  then have "dec_val ''4242'' = 4242" by (simp add: dec_val_def)
  ultimately have "from_chars ''4242'' 0 = (4242, True, 4)" by (simp add: from_chars_def)
  moreover have "SplitString '' S 1 1 0 0 -1 0 0 0 0 0 0 0 0 0 20 0 1 0 4242 0'' (CHR '' '') ! START_TIME_INDEX = ''4242''"
    "\<not> length (SplitString '' S 1 1 0 0 -1 0 0 0 0 0 0 0 0 0 20 0 1 0 4242 0'' (CHR '' '')) \<le> START_TIME_INDEX"
    by (simp_all add: SplitString_def START_TIME_INDEX_def)
  ultimately show ?thesis using assms p
    by (simp add: GetProcessStartTime_def GetStatInfo_def CheckFileExistence_def RETRY_TIMES_def numeral_3_eq_3 sys_stat_def
        quiet_sys_call_eq [OF demo_priv_ok(2)])
qed

lemma demo_grant:
  "\<exists>st. run_priv_request demo_priv_env (Grant demo_caller 5) demo_cache = ((ERR_OK, 0), snd (CleanExpiredPrivilegesAndSaveToFile demo_priv_env st))
    \<and> processPrivilegeMap st = [(7, demo_record)] \<and> pc_calls st = 3"
proof -
  have "fst (GetProcessStartTime demo_priv_env 7 (pc_fs demo_cache)) = (ERR_OK, 4242)"
    by (rule demo_start_time) (simp add: demo_cache_def put_file_def)
  then obtain fs where t: "GetProcessStartTime demo_priv_env 7 (pc_fs demo_cache) = ((ERR_OK, 4242), fs)" by (metis prod.collapse)
  have e: "ci_pid demo_caller = 7" "ci_uid demo_caller = 20000000" "ci_privilegeIdx demo_caller = 0" "ci_remoteObject demo_caller"
    "processPrivilegeMap demo_cache = []" "pc_calls demo_cache = 0" by (simp_all add: demo_caller_def demo_cache_def)
  have "timeout_of demo_priv_env 0 = 300" by (simp add: timeout_of_def GetPrivilegeBriefDef_def demo_priv_env_def)
  moreover have "GetBootTimeMs demo_priv_env (Suc (Suc 0)) = (ERR_OK, 20)" "pidfd_open demo_priv_env 7 k = None" "AddDeathRecipient demo_priv_env 7 k" for k
    by (simp_all add: demo_priv_env_def)
  ultimately show ?thesis
    by (intro exI [of _ "demo_cache\<lparr>pc_fs := fs, pc_calls := Suc (Suc (Suc 0)), processPrivilegeMap := [(7, demo_record)]\<rparr>"])
      (simp add: AddCache_def AddNewProcessCacheInner_def CreateEmptyProcessPrivilegeRecord_def on_fs_def OpenSmartPidFd_def pask_def e t
        AddOrUpdatePrivilege_def GetUptimeMs_def AddTimePeriod_def MILLI_SECONDS_PER_SECOND_def demo_record_def)
qed

lemma demo_grant_run: "service_run (priv_step demo_priv_env) demo_cache [(Grant demo_caller 5, ERR_OK, 0)] demo_granted"
proof -
  have "run_priv_request demo_priv_env (Grant demo_caller 5) demo_cache = ((ERR_OK, 0), demo_granted)"
    using demo_grant by (auto simp: demo_granted_def)
  then have "priv_step demo_priv_env demo_cache (Grant demo_caller 5) (ERR_OK, 0) demo_granted"
    by (simp add: priv_step_def caller_ok_def demo_caller_def demo_priv_env_def)
  then show ?thesis using next_request [OF no_request, of "priv_step demo_priv_env" demo_cache "Grant demo_caller 5"] by simp
qed

lemma demo_held: "processPrivilegeMap demo_granted = [(7, demo_record)]" "\<exists>now. GetBootTimeMs demo_priv_env (pc_calls demo_granted) = (ERR_OK, now) \<and> 30 \<le> now \<and> now \<le> 100"
proof -
  obtain st where g: "demo_granted = snd (CleanExpiredPrivilegesAndSaveToFile demo_priv_env st)" and m: "processPrivilegeMap st = [(7, demo_record)]" "pc_calls st = 3"
    using demo_grant by (auto simp: demo_granted_def)
  have "GetUptimeMs demo_priv_env st = ((ERR_OK, 30), st\<lparr>pc_calls := 4\<rparr>)"
    using m(2) by (simp add: GetUptimeMs_def pask_def demo_priv_env_def)
  moreover have "\<not> NeedClean \<lparr>pv_privilegeIdx = 0, pv_expiredTime = 300020, pv_safeStartTime = 5, pv_authStatus = NOT_REQUIRED\<rparr> 30"
    by (simp add: NeedClean_def AddTimePeriod_def EXPIRED_TIME_OFFSET_def MILLI_SECONDS_PER_SECOND_def)
  ultimately have g: "demo_granted = snd (ToPersistFile demo_priv_env 30 (st\<lparr>pc_calls := 4, processPrivilegeMap := [(7, demo_record)]\<rparr>))"
    using m(1) by (simp add: g CleanExpiredPrivilegesAndSaveToFile_def CleanCurrentExpiredPrivileges_def demo_record_def)
  note P = ToPersistFile_spec [of demo_priv_env 30 "st\<lparr>pc_calls := 4, processPrivilegeMap := [(7, demo_record)]\<rparr>", OF prod.collapse [symmetric], folded g]
  show "processPrivilegeMap demo_granted = [(7, demo_record)]" using P m by simp
  show "\<exists>now. GetBootTimeMs demo_priv_env (pc_calls demo_granted) = (ERR_OK, now) \<and> 30 \<le> now \<and> now \<le> 100"
    using P by (auto simp: demo_priv_env_def)
qed

lemma demo_check: "\<exists>st'. CheckPrivilege demo_priv_env demo_caller 0 demo_granted = ((ERR_OK, 299), st')"
proof -
  obtain now where now: "GetBootTimeMs demo_priv_env (pc_calls demo_granted) = (ERR_OK, now)" "30 \<le> now" "now \<le> 100" using demo_held(2) by blast
  then have "(300020 - now) div 1000 = 299" by simp
  with now show ?thesis
    by (simp add: CheckPrivilege_def check_cache_def demo_held(1) demo_caller_def Process_CheckPrivilege_def GetUptimeMs_def pask_def demo_record_def
        GetRemainTimeSec_def DecTimePeriod_def EXPIRED_TIME_OFFSET_def MILLI_SECONDS_PER_SECOND_def MS_TO_SECOND_def)
qed



text \<open>A file of nobody, without a digest.\<close>

definition forged_state :: priv_state where
  "forged_state = demo_cache\<lparr>pc_fs := put_file PRIVILEGE_CACHE_FILE_PATH
     (Some (ref_print (JObj [(''updateTime'', JStr ''1''), (''processRecords'', JStr ''a]'')]))) (pc_fs demo_cache)\<rparr>"

theorem forged_file_witness:
  "processPrivilegeMap (snd (FromPersistFile demo_priv_env forged_state)) = []"
proof -
  let ?j = "JObj [(''updateTime'', JStr ''1''), (''processRecords'', JStr ''a]'')]"
  have "cache_file forged_state = Some (ref_print ?j)" by (simp add: forged_state_def put_file_def)
  moreover have "CreateJsonFromString demo_priv_env (ref_print ?j) = Some ?j" by code_simp
  moreover have "\<not> digest_of demo_priv_env u s (GetVectorUint8FromJson (Some ?j) ''digest'')" for u s
    by (simp add: digest_of_def demo_priv_env_def GetVectorUint8FromJson_def IsKeyExist_def GetItemFromJson_def)
  ultimately show ?thesis
    using forged_file_ignored [of forged_state "ref_print ?j" demo_priv_env ?j] by (simp add: forged_state_def demo_cache_def)
qed

lemma length_ref_str [simp]: "length (ref_str s) = 2 * length s + 1"
  by (induction s) (auto simp: ref_str_def)

text \<open>The file after the grant was saved, on a device that starts again.\<close>

definition demo_file :: string where
  "demo_file = snd (ToJsonString demo_priv_env 60 (the (MapToJsonString demo_priv_env [(7, demo_record)])) [42])"

definition restarted_state :: priv_state where
  "restarted_state = demo_cache\<lparr>pc_fs := put_file PRIVILEGE_CACHE_FILE_PATH (Some demo_file) (pc_fs demo_cache), pc_calls := 9\<rparr>"

lemma demo_wf: "cache_wf demo_priv_env [(7, demo_record)]"
  using run_cache_inv [OF demo_priv_ok(1) demo_grant_run demo_priv_ok(3)] cache_ok_wf by (auto simp: cache_inv_def demo_held(1))

lemma demo_map: "MapToJsonString demo_priv_env [(7, demo_record)] = Some (ref_print (cache_json demo_priv_env [(7, demo_record)]))"
proof -
  have "privileges_ok demo_priv_env" using demo_priv_ok(1) by (simp add: priv_env_ok_def)
  moreover have "process_wf demo_priv_env 7 demo_record" using demo_wf by (auto simp: cache_wf_def)
  ultimately show ?thesis using processes_to_json [of demo_priv_env "[(7, demo_record)]" "[]"]
    by (simp add: MapToJsonString_def CreateJsonArray_def cache_json_def PackJsonToString_def demo_priv_env_def)
qed

lemma demo_text: "cache_text demo_priv_env 60 [(7, demo_record)] c \<Longrightarrow> c = demo_file"
  by (auto simp: cache_text_def demo_file_def digest_of_def demo_map) (simp_all add: demo_priv_env_def)

lemma demo_file_length: "length demo_file \<le> MAX_FILE_SIZE"
proof -
  have n: "length (to_string_nat 20000000) \<le> 9" "length (to_string_nat 4242) \<le> 9" "length (to_string_nat 300020) \<le> 9"
    "length (to_string_nat 7) \<le> 9" "length (to_string_nat 5) \<le> 9" "length (to_string_nat 42) \<le> 9" "length (to_string_nat 60) \<le> 9"
    by (simp_all add: to_string_nat.simps)
  have "TransferCodeToPrivilege demo_priv_env 0 = ''backup''" by (simp add: TransferCodeToPrivilege_def demo_priv_env_def)
  with n have "length (ref_print (cache_json demo_priv_env [(7, demo_record)])) \<le> 1000"
    by (simp add: cache_json_def process_json_def demo_record_def record_json_def to_string_int_def PrivilegeAuthStatusToString_def)
  moreover have "length (c_str s) \<le> length s" for s by (simp add: c_str_def length_takeWhile_le)
  ultimately have "length (c_str (ref_print (cache_json demo_priv_env [(7, demo_record)]))) \<le> 1000" using order_trans by blast
  moreover have "PackJsonToString demo_priv_env (Some j) = ref_print j" for j by (simp add: PackJsonToString_def demo_priv_env_def)
  ultimately show ?thesis using n
    by (simp add: demo_file_def demo_map ToJsonString_def add_json_defs MAX_FILE_SIZE_def to_string_int_def)
qed

lemma demo_running: "running demo_priv_env (fs_files (pc_fs restarted_state)) demo_record"
  using temp_not_stat(2) [of 7]
  by (auto simp: running_def demo_record_def restarted_state_def put_file_def demo_cache_def intro!: demo_start_time) (simp_all add: demo_priv_env_def)

theorem cache_survives_restart_witness:
  "\<exists>st. FromPersistFile demo_priv_env restarted_state = (ERR_OK, st) \<and> processPrivilegeMap st = [(7, demo_record)]"
proof -
  have ok: "privileges_ok demo_priv_env" "cjson_ok demo_priv_env" using demo_priv_ok(1) by (simp_all add: priv_env_ok_def)
  have dig: "\<forall>s k. fst (GenerateAccountInfoDigest demo_priv_env s k) = ERR_OK"
    "\<forall>s k l. GenerateAccountInfoDigest demo_priv_env s k = GenerateAccountInfoDigest demo_priv_env s l" by (simp_all add: demo_priv_env_def)
  obtain st1 where 1: "ToPersistFile demo_priv_env 60 demo_granted = (ERR_OK, st1)"
    using quiet_persist [OF ok _ demo_priv_ok(2) dig(1), of demo_granted 60] demo_wf by (metis demo_held(1) prod.collapse)
  have f: "cache_file restarted_state = Some demo_file" by (simp add: restarted_state_def put_file_def)
  with ToPersistFile_spec [OF 1] have "cache_file restarted_state = cache_file st1" by (auto simp: demo_held(1) dest: demo_text)
  moreover have "processPrivilegeMap restarted_state = []" "GetBootTimeMs demo_priv_env (pc_calls restarted_state) = (ERR_OK, 90)"
    by (simp_all add: restarted_state_def demo_cache_def demo_priv_env_def)
  moreover have "\<forall>c. cache_file restarted_state = Some c \<longrightarrow> length c \<le> MAX_FILE_SIZE" using f demo_file_length by simp
  moreover have "live_cache 90 [(7, demo_record)] = [(7, demo_record)]"
    by (simp add: demo_record_def NeedClean_def AddTimePeriod_def EXPIRED_TIME_OFFSET_def MILLI_SECONDS_PER_SECOND_def)
  ultimately show ?thesis
    using cache_survives_restart [OF demo_priv_ok(1,3) demo_grant_run 1 _ _ _ _ demo_priv_ok(2) _ dig(2), of restarted_state 90]
      demo_running by (simp add: demo_held(1))
qed

end
