(* ===== verification/Event_Subscriptions.thy ===== *)
theory Event_Subscriptions
  imports Prelude Service_Runs
begin

text \<open>
  Two subscription tables of the account service (\<open>services/accountmgr/src\<close>): \<open>distributed_account_subscribe_manager.cpp\<close>
  (events of distributed accounts) and \<open>osaccount/os_account_constraint_subscribe_manager.cpp\<close> (changes of constraints). A
  listener is a remote object, here a number; \<open>None\<close> is \<open>nullptr\<close>. The notifications, which the code sends from threads of their own, are
  sent one after the other, as in the code's fuzz build; each attempt may fail. The listener of a process that died is unsubscribed.
\<close>

section \<open>Notifying a listener\<close>

type_synonym listener = nat

record event_env =
  is_event_proxy :: "listener \<Rightarrow> bool"
  notify :: "listener \<Rightarrow> nat \<Rightarrow> ErrCode"

definition EVENT_RETRY_TIMES :: nat where "EVENT_RETRY_TIMES = 10"

text \<open>The calls of other processes that a table made: the listener, what it was told and the answer, in their order.\<close>

type_synonym 'e calls = "(listener \<times> 'e \<times> ErrCode) list"

fun SendNotify :: "event_env \<Rightarrow> listener \<Rightarrow> 'e \<Rightarrow> nat \<Rightarrow> ErrCode \<Rightarrow> 'e calls \<Rightarrow> ErrCode \<times> 'e calls" where
  "SendNotify E l e 0 result log = (result, log)"
| "SendNotify E l e (Suc n) result log =
     (let result = notify E l (length log); log = log @ [(l, e, result)] in
      if result = ERR_OK \<or> result \<noteq> E_IPC_ERROR \<and> result \<noteq> E_IPC_SA_DIED then (result, log)
      else SendNotify E l e n result log)"

text \<open>The listeners a table called, each with what it was told.\<close>

definition told :: "'e calls \<Rightarrow> (listener \<times> 'e) set" where
  "told log = {(l, e). \<exists>answer. (l, e, answer) \<in> set log}"

lemma told_simps [simp]: "told [] = {}" "told (log @ log') = told log \<union> told log'"
  by (auto simp: told_def)

lemma SendNotify_log: "SendNotify E l e n r log = (r', log') \<Longrightarrow> \<exists>ext. log' = log @ ext \<and> (\<forall>c \<in> set ext. fst c = l \<and> fst (snd c) = e)
    \<and> length ext \<le> n \<and> (0 < n \<longrightarrow> ext \<noteq> [])"
proof (induction n arbitrary: r log)
  case (Suc n)
  let ?r = "notify E l (length log)" let ?log = "log @ [(l, e, ?r)]"
  show ?case
  proof (cases "?r = ERR_OK \<or> ?r \<noteq> E_IPC_ERROR \<and> ?r \<noteq> E_IPC_SA_DIED")
    case True
    with Suc.prems show ?thesis by (auto simp: Let_def split: if_splits)
  next
    case False
    then have "SendNotify E l e n ?r ?log = (r', log')" using Suc.prems by (auto simp: Let_def split: if_splits)
    from Suc.IH [OF this] show ?thesis by auto
  qed
qed simp

lemma SendNotify_told: "told (snd (SendNotify E l e EVENT_RETRY_TIMES r log)) = insert (l, e) (told log)"
proof -
  obtain r' log' where s: "SendNotify E l e EVENT_RETRY_TIMES r log = (r', log')" by (metis prod.collapse)
  from SendNotify_log [OF s] obtain ext where ext: "log' = log @ ext" "\<forall>c \<in> set ext. fst c = l \<and> fst (snd c) = e" "ext \<noteq> []"
    by (auto simp: EVENT_RETRY_TIMES_def)
  then have "told ext = {(l, e)}" by (cases ext) (force simp: told_def)+
  with s ext(1) show ?thesis by simp
qed

text \<open>A table of subscriptions stands for the pairs of a listener and what it asked for; a subscription may replace what its
  listener asked for before.\<close>

definition now_wants :: "listener \<Rightarrow> string set \<Rightarrow> (listener \<times> string) set \<Rightarrow> (listener \<times> string) set" where
  "now_wants l cs R = {e \<in> R. fst e \<noteq> l} \<union> {l} \<times> cs"

section \<open>Events of distributed accounts\<close>

text \<open>The set of types of a record, without its order. The fields \<open>localId_\<close> and \<open>isNotifyAllUsers_\<close>, which no one reads, are left out.\<close>

record DistributedSubscribeRecord =
  dr_listener :: listener
  dr_types :: "DISTRIBUTED_ACCOUNT_SUBSCRIBE_TYPE list"

record DistributedAccountEventData =
  ed_id :: int
  ed_type :: DISTRIBUTED_ACCOUNT_SUBSCRIBE_TYPE
  ed_subspaceId :: int

record dist_subs =
  dist_records :: "DistributedSubscribeRecord list"
  dist_calls :: "DistributedAccountEventData calls"

definition FindSubscribeRecordByEventListener :: "listener \<Rightarrow> DistributedSubscribeRecord list \<Rightarrow> DistributedSubscribeRecord option" where
  "FindSubscribeRecordByEventListener l rs = List.find (\<lambda>r. dr_listener r = l) rs"

definition set_insert :: "'a \<Rightarrow> 'a list \<Rightarrow> 'a list" where
  "set_insert x xs = (if x \<in> set xs then xs else xs @ [x])"

fun add_type :: "DISTRIBUTED_ACCOUNT_SUBSCRIBE_TYPE \<Rightarrow> listener \<Rightarrow> DistributedSubscribeRecord list \<Rightarrow> DistributedSubscribeRecord list option" where
  "add_type t l [] = None"
| "add_type t l (r # rs) =
     (if dr_listener r = l then Some (r\<lparr>dr_types := set_insert t (dr_types r)\<rparr> # rs) else map_option ((#) r) (add_type t l rs))"

definition SubscribeDistributedAccountEvent ::
  "DISTRIBUTED_ACCOUNT_SUBSCRIBE_TYPE \<Rightarrow> listener option \<Rightarrow> dist_subs \<Rightarrow> ErrCode \<times> dist_subs" where
  "SubscribeDistributedAccountEvent t eventListener st =
     (case eventListener of None \<Rightarrow> (ERR_ACCOUNT_COMMON_NULL_PTR_ERROR, st)
      | Some l \<Rightarrow> (case add_type t l (dist_records st) of
          Some rs \<Rightarrow> (ERR_OK, st\<lparr>dist_records := rs\<rparr>)
        | None \<Rightarrow> (ERR_OK, st\<lparr>dist_records := dist_records st @ [\<lparr>dr_listener = l, dr_types = [t]\<rparr>]\<rparr>)))"

fun drop_type :: "DISTRIBUTED_ACCOUNT_SUBSCRIBE_TYPE \<Rightarrow> listener \<Rightarrow> DistributedSubscribeRecord list \<Rightarrow> DistributedSubscribeRecord list option" where
  "drop_type t l [] = None"
| "drop_type t l (r # rs) =
     (if dr_listener r = l
      then let r1 = r\<lparr>dr_types := removeAll t (dr_types r)\<rparr> in Some (if dr_types r1 \<noteq> [] then r1 # rs else rs)
      else map_option ((#) r) (drop_type t l rs))"

definition UnsubscribeDistributedAccountEvent ::
  "DISTRIBUTED_ACCOUNT_SUBSCRIBE_TYPE \<Rightarrow> listener option \<Rightarrow> dist_subs \<Rightarrow> ErrCode \<times> dist_subs" where
  "UnsubscribeDistributedAccountEvent t eventListener st =
     (case eventListener of None \<Rightarrow> (ERR_ACCOUNT_COMMON_NULL_PTR_ERROR, st)
      | Some l \<Rightarrow> (case drop_type t l (dist_records st) of
          Some rs \<Rightarrow> (ERR_OK, st\<lparr>dist_records := rs\<rparr>)
        | None \<Rightarrow> (ERR_OHOSACCOUNT_KIT_NO_SPECIFIED_CALLBACK_HAS_BEEN_REGISTERED, st)))"

fun drop_listener :: "listener \<Rightarrow> DistributedSubscribeRecord list \<Rightarrow> DistributedSubscribeRecord list" where
  "drop_listener l [] = []"
| "drop_listener l (r # rs) = (if dr_listener r = l then rs else r # drop_listener l rs)"

definition UnsubscribeAllDistributedAccountEvents :: "listener option \<Rightarrow> dist_subs \<Rightarrow> ErrCode \<times> dist_subs" where
  "UnsubscribeAllDistributedAccountEvents eventListener st =
     (case eventListener of None \<Rightarrow> (ERR_ACCOUNT_COMMON_NULL_PTR_ERROR, st)
      | Some l \<Rightarrow> (ERR_OK, st\<lparr>dist_records := drop_listener l (dist_records st)\<rparr>))"

definition Distributed_OnAccountsChanged ::
  "event_env \<Rightarrow> listener \<Rightarrow> int \<Rightarrow> DISTRIBUTED_ACCOUNT_SUBSCRIBE_TYPE \<Rightarrow> int \<Rightarrow> DistributedAccountEventData calls
     \<Rightarrow> bool \<times> DistributedAccountEventData calls" where
  "Distributed_OnAccountsChanged E l i t subProfileId log =
     (let (result, log1) = SendNotify E l \<lparr>ed_id = i, ed_type = t, ed_subspaceId = subProfileId\<rparr> EVENT_RETRY_TIMES ERR_OK log in
      (result = ERR_OK, log1))"

fun publish_records ::
  "event_env \<Rightarrow> int \<Rightarrow> DISTRIBUTED_ACCOUNT_SUBSCRIBE_TYPE \<Rightarrow> int \<Rightarrow> DistributedSubscribeRecord list
     \<Rightarrow> DistributedAccountEventData calls \<Rightarrow> DistributedAccountEventData calls" where
  "publish_records E i t p [] log = log"
| "publish_records E i t p (r # rs) log =
     (if t \<in> set (dr_types r) \<and> is_event_proxy E (dr_listener r)
      then publish_records E i t p rs (snd (Distributed_OnAccountsChanged E (dr_listener r) i t p log))
      else publish_records E i t p rs log)"

definition Publish_distributed ::
  "event_env \<Rightarrow> int \<Rightarrow> DISTRIBUTED_ACCOUNT_SUBSCRIBE_TYPE \<Rightarrow> int \<Rightarrow> dist_subs \<Rightarrow> ErrCode \<times> dist_subs" where
  "Publish_distributed E i t subProfileId st =
     (ERR_OK, st\<lparr>dist_calls := publish_records E i t subProfileId (dist_records st) (dist_calls st)\<rparr>)"

subsection \<open>Runs\<close>

datatype dist_request =
    DSubscribe DISTRIBUTED_ACCOUNT_SUBSCRIBE_TYPE "listener option"
  | DUnsubscribe DISTRIBUTED_ACCOUNT_SUBSCRIBE_TYPE "listener option"
  | DUnsubscribeAll "listener option"
  | DPublish int DISTRIBUTED_ACCOUNT_SUBSCRIBE_TYPE int

fun run_dist :: "event_env \<Rightarrow> dist_request \<Rightarrow> dist_subs \<Rightarrow> ErrCode \<times> dist_subs" where
  "run_dist E (DSubscribe t l) st = SubscribeDistributedAccountEvent t l st"
| "run_dist E (DUnsubscribe t l) st = UnsubscribeDistributedAccountEvent t l st"
| "run_dist E (DUnsubscribeAll l) st = UnsubscribeAllDistributedAccountEvents l st"
| "run_dist E (DPublish i t p) st = Publish_distributed E i t p st"

definition dist_step :: "event_env \<Rightarrow> dist_subs \<Rightarrow> dist_request \<Rightarrow> ErrCode \<Rightarrow> dist_subs \<Rightarrow> bool" where
  "dist_step E st q r st' \<longleftrightarrow> run_dist E q st = (r, st')"

text \<open>The abstract table: who wants to hear of what.\<close>

fun dist_effect :: "dist_request \<Rightarrow> (listener \<times> DISTRIBUTED_ACCOUNT_SUBSCRIBE_TYPE) set \<Rightarrow> (listener \<times> DISTRIBUTED_ACCOUNT_SUBSCRIBE_TYPE) set" where
  "dist_effect (DSubscribe t (Some l)) R = insert (l, t) R"
| "dist_effect (DUnsubscribe t (Some l)) R = R - {(l, t)}"
| "dist_effect (DUnsubscribeAll (Some l)) R = {e \<in> R. fst e \<noteq> l}"
| "dist_effect _ R = R"

definition dist_rel :: "DistributedSubscribeRecord list \<Rightarrow> (listener \<times> DISTRIBUTED_ACCOUNT_SUBSCRIBE_TYPE) set" where
  "dist_rel rs = {(l, t). \<exists>r \<in> set rs. dr_listener r = l \<and> t \<in> set (dr_types r)}"

definition dist_ok :: "DistributedSubscribeRecord list \<Rightarrow> bool" where
  "dist_ok rs \<longleftrightarrow> distinct (map dr_listener rs) \<and> (\<forall>r \<in> set rs. dr_types r \<noteq> [])"

lemma dist_rel_simps [simp]:
  "dist_rel [] = {}" "dist_rel (r # rs) = {dr_listener r} \<times> set (dr_types r) \<union> dist_rel rs" "dist_rel (rs @ rs') = dist_rel rs \<union> dist_rel rs'"
  by (auto simp: dist_rel_def)

lemma dist_ok_Cons: "dist_ok (r # rs) \<longleftrightarrow> dr_types r \<noteq> [] \<and> dr_listener r \<notin> dr_listener ` set rs \<and> dist_ok rs"
  by (auto simp: dist_ok_def)

lemma dist_rel_fst: "(l, t) \<in> dist_rel rs \<Longrightarrow> l \<in> dr_listener ` set rs"
  by (auto simp: dist_rel_def)

lemma set_insert_set [simp]: "set (set_insert x xs) = insert x (set xs)" "set_insert x xs \<noteq> []"
  by (auto simp: set_insert_def)

lemma add_type_None: "add_type t l rs = None \<longleftrightarrow> l \<notin> dr_listener ` set rs"
  by (induction rs) auto

lemma add_type_Some:
  "add_type t l rs = Some rs' \<Longrightarrow> dist_ok rs \<Longrightarrow> dist_ok rs' \<and> dr_listener ` set rs' = dr_listener ` set rs \<and> dist_rel rs' = insert (l, t) (dist_rel rs)"
proof (induction rs arbitrary: rs')
  case (Cons r rs)
  show ?case
  proof (cases "dr_listener r = l")
    case True
    with Cons.prems show ?thesis by (auto simp: dist_ok_Cons)
  next
    case False
    then obtain rs1 where r: "add_type t l rs = Some rs1" "rs' = r # rs1" using Cons.prems(1) by auto
    have "dist_ok rs" using Cons.prems(2) by (simp add: dist_ok_Cons)
    from Cons.IH [OF r(1) this] Cons.prems(2) r(2) False show ?thesis by (simp add: dist_ok_Cons)
  qed
qed simp

lemma removeAll_Nil_iff: "removeAll t xs = [] \<longleftrightarrow> set xs \<subseteq> {t}"
  by (induction xs) auto

lemma drop_type_None: "drop_type t l rs = None \<longleftrightarrow> l \<notin> dr_listener ` set rs"
  by (induction rs) (auto simp: Let_def)

lemma drop_type_Some:
  "drop_type t l rs = Some rs' \<Longrightarrow> dist_ok rs \<Longrightarrow> dist_ok rs' \<and> dr_listener ` set rs' \<subseteq> dr_listener ` set rs \<and> dist_rel rs' = dist_rel rs - {(l, t)}"
proof (induction rs arbitrary: rs')
  case (Cons r rs)
  show ?case
  proof (cases "dr_listener r = l")
    case True
    then have "\<forall>t. (l, t) \<notin> dist_rel rs" using Cons.prems(2) dist_rel_fst by (fastforce simp: dist_ok_Cons)
    with True Cons.prems show ?thesis by (auto simp: dist_ok_Cons Let_def removeAll_Nil_iff split: if_splits)
  next
    case False
    then obtain rs1 where r: "drop_type t l rs = Some rs1" "rs' = r # rs1" using Cons.prems(1) by auto
    have "dist_ok rs" using Cons.prems(2) by (simp add: dist_ok_Cons)
    from Cons.IH [OF r(1) this] Cons.prems(2) r(2) False show ?thesis by (auto simp: dist_ok_Cons)
  qed
qed simp

lemma drop_listener_spec:
  "dist_ok rs \<Longrightarrow> dist_ok (drop_listener l rs) \<and> dr_listener ` set (drop_listener l rs) \<subseteq> dr_listener ` set rs
     \<and> dist_rel (drop_listener l rs) = {e \<in> dist_rel rs. fst e \<noteq> l}"
proof (induction rs)
  case (Cons r rs)
  have "dist_ok rs" using Cons.prems by (simp add: dist_ok_Cons)
  note IH = Cons.IH [OF this]
  show ?case
  proof (cases "dr_listener r = l")
    case True
    then have "\<forall>t. (l, t) \<notin> dist_rel rs" using Cons.prems dist_rel_fst by (fastforce simp: dist_ok_Cons)
    with True \<open>dist_ok rs\<close> show ?thesis by auto
  next
    case False
    with IH Cons.prems show ?thesis by (auto simp: dist_ok_Cons)
  qed
qed (simp add: dist_ok_def)

lemma run_dist_rel:
  assumes "run_dist E q st = (r, st')" and "dist_ok (dist_records st)"
  shows "dist_ok (dist_records st') \<and> dist_rel (dist_records st') = dist_effect q (dist_rel (dist_records st))"
proof (cases q)
  case (DSubscribe t l)
  with assms show ?thesis
    by (cases l) (auto simp: SubscribeDistributedAccountEvent_def add_type_None dist_ok_def split: option.splits dest: add_type_Some [unfolded dist_ok_def])
next
  case (DUnsubscribe t l)
  have "x \<notin> dr_listener ` set (dist_records st) \<Longrightarrow> (x, t) \<notin> dist_rel (dist_records st)" for x using dist_rel_fst by blast
  with DUnsubscribe assms show ?thesis
    by (cases l) (auto simp: UnsubscribeDistributedAccountEvent_def drop_type_None split: option.splits dest: drop_type_Some)
next
  case (DUnsubscribeAll l)
  with assms drop_listener_spec [OF assms(2)] show ?thesis by (cases l) (auto simp: UnsubscribeAllDistributedAccountEvents_def)
next
  case (DPublish i t p)
  with assms show ?thesis by (auto simp: Publish_distributed_def)
qed

interpretation dist_table: service_refinement "dist_step E" "\<lambda>st. dist_ok (dist_records st)" "\<lambda>st. dist_rel (dist_records st)" "\<lambda>q _. dist_effect q"
  for E
  by unfold_locales (auto simp: dist_step_def dest: run_dist_rel)

lemma publish_records_told:
  "dist_ok rs \<Longrightarrow> \<exists>ext. publish_records E i t p rs log = log @ ext
     \<and> told ext = {(l, \<lparr>ed_id = i, ed_type = t, ed_subspaceId = p\<rparr>) | l. (l, t) \<in> dist_rel rs \<and> is_event_proxy E l}"
proof (induction rs arbitrary: log)
  case (Cons r rs)
  let ?e = "\<lparr>ed_id = i, ed_type = t, ed_subspaceId = p\<rparr>" let ?l = "dr_listener r"
  have ok: "dist_ok rs" using Cons.prems by (simp add: dist_ok_Cons)
  show ?case
  proof (cases "t \<in> set (dr_types r) \<and> is_event_proxy E ?l")
    case True
    obtain r1 log1 where s: "SendNotify E ?l ?e EVENT_RETRY_TIMES ERR_OK log = (r1, log1)" by (metis prod.collapse)
    from SendNotify_log [OF s] obtain ext1 where ext1: "log1 = log @ ext1" "\<forall>c \<in> set ext1. fst c = ?l \<and> fst (snd c) = ?e" "ext1 \<noteq> []"
      by (auto simp: EVENT_RETRY_TIMES_def)
    then have t1: "told ext1 = {(?l, ?e)}" by (cases ext1) (force simp: told_def)+
    from Cons.IH [OF ok, of log1] obtain ext2 where ext2: "publish_records E i t p rs log1 = log1 @ ext2"
      "told ext2 = {(l, ?e) | l. (l, t) \<in> dist_rel rs \<and> is_event_proxy E l}" by blast
    show ?thesis
      by (intro exI [of _ "ext1 @ ext2"]) (use True t1 ext1(1) ext2 s in \<open>auto simp: Distributed_OnAccountsChanged_def\<close>)
  next
    case False
    with Cons.IH [OF ok, of log] show ?thesis by auto
  qed
qed simp

text \<open>C23 (refinement). The table of listeners for the events of distributed accounts implements the relation between listeners
  and the types they asked for: after any sequence of requests, whatever the listeners answer, it holds just the pairs
  subscribed and not unsubscribed since, an event is sent to the listeners of its type and to no other, and only an
  unsubscription of a listener that holds nothing is refused.\<close>

theorem distributed_events_routed:
  assumes "service_run (dist_step E) \<lparr>dist_records = [], dist_calls = log0\<rparr> h st"
  shows "dist_rel (dist_records st) = fold (\<lambda>(q, r). dist_effect q) h {}
    \<and> (\<forall>i t p. \<exists>ext. Publish_distributed E i t p st = (ERR_OK, st\<lparr>dist_calls := dist_calls st @ ext\<rparr>)
        \<and> told ext = {(l, \<lparr>ed_id = i, ed_type = t, ed_subspaceId = p\<rparr>) | l. (l, t) \<in> dist_rel (dist_records st) \<and> is_event_proxy E l})
    \<and> (\<forall>l t. fst (UnsubscribeDistributedAccountEvent t (Some l) st) = ERR_OK \<longleftrightarrow> (\<exists>t'. (l, t') \<in> dist_rel (dist_records st)))"
proof (intro conjI allI)
  let ?st0 = "\<lparr>dist_records = [], dist_calls = log0\<rparr>"
  have ok0: "dist_ok (dist_records ?st0)" by (simp add: dist_ok_def)
  show "dist_rel (dist_records st) = fold (\<lambda>(q, r). dist_effect q) h {}"
    using dist_table.run_view [OF assms ok0] by simp
  have ok: "dist_ok (dist_records st)" by (rule dist_table.run_inv [OF assms ok0])
  show "\<exists>ext. Publish_distributed E i t p st = (ERR_OK, st\<lparr>dist_calls := dist_calls st @ ext\<rparr>)
        \<and> told ext = {(l, \<lparr>ed_id = i, ed_type = t, ed_subspaceId = p\<rparr>) | l. (l, t) \<in> dist_rel (dist_records st) \<and> is_event_proxy E l}" for i t p
    using publish_records_told [OF ok, of E i t p "dist_calls st"] by (auto simp: Publish_distributed_def)
  show "fst (UnsubscribeDistributedAccountEvent t (Some l) st) = ERR_OK \<longleftrightarrow> (\<exists>t'. (l, t') \<in> dist_rel (dist_records st))" for l t
  proof -
    have "\<exists>t'. (l, t') \<in> dist_rel (dist_records st)" if l: "l \<in> dr_listener ` set (dist_records st)"
    proof -
      obtain x where x: "x \<in> set (dist_records st)" "dr_listener x = l" using l by auto
      then obtain t' where "t' \<in> set (dr_types x)" using ok unfolding dist_ok_def by (metis list.set_intros(1) neq_Nil_conv)
      with x show ?thesis by (auto simp: dist_rel_def)
    qed
    then have "(\<exists>t'. (l, t') \<in> dist_rel (dist_records st)) \<longleftrightarrow> l \<in> dr_listener ` set (dist_records st)" using dist_rel_fst by blast
    then show ?thesis
      using drop_type_None [of t l "dist_records st"] by (auto simp: UnsubscribeDistributedAccountEvent_def split: option.splits)
  qed
qed

section \<open>A run\<close>

definition calm_listeners :: event_env where
  "calm_listeners = \<lparr>is_event_proxy = (\<lambda>_. True), notify = (\<lambda>_ _. ERR_OK)\<rparr>"

lemma run_dist_append:
  "service_run (dist_step E) st0 (h @ [(q, r)]) st \<longleftrightarrow> (\<exists>st1. service_run (dist_step E) st0 h st1 \<and> run_dist E q st1 = (r, st))"
  by (simp add: service_run_snoc dist_step_def)

theorem distributed_events_routed_witness:
  "\<exists>st ext. service_run (dist_step calm_listeners) \<lparr>dist_records = [], dist_calls = []\<rparr>
      [(DSubscribe LOGIN (Some 7), ERR_OK), (DSubscribe LOGOUT (Some 7), ERR_OK), (DUnsubscribe LOGIN (Some 7), ERR_OK)] st
    \<and> Publish_distributed calm_listeners 100 LOGOUT (-1) st = (ERR_OK, st\<lparr>dist_calls := dist_calls st @ ext\<rparr>)
    \<and> told ext = {(7, \<lparr>ed_id = 100, ed_type = LOGOUT, ed_subspaceId = -1\<rparr>)}"
proof -
  let ?h = "[(DSubscribe LOGIN (Some 7), ERR_OK), (DSubscribe LOGOUT (Some 7), ERR_OK), (DUnsubscribe LOGIN (Some 7), ERR_OK)]"
  let ?st = "\<lparr>dist_records = [\<lparr>dr_listener = 7, dr_types = [LOGOUT]\<rparr>], dist_calls = []\<rparr>"
  have run: "service_run (dist_step calm_listeners) \<lparr>dist_records = [], dist_calls = []\<rparr> ([] @ [(DSubscribe LOGIN (Some 7), ERR_OK)]
      @ [(DSubscribe LOGOUT (Some 7), ERR_OK)] @ [(DUnsubscribe LOGIN (Some 7), ERR_OK)]) ?st"
    unfolding append_assoc [symmetric] run_dist_append
    by (simp add: SubscribeDistributedAccountEvent_def UnsubscribeDistributedAccountEvent_def set_insert_def)
  then have run: "service_run (dist_step calm_listeners) \<lparr>dist_records = [], dist_calls = []\<rparr> ?h ?st" by simp
  have "dist_rel (dist_records ?st) = {(7, LOGOUT)}" "is_event_proxy calm_listeners l" for l by (auto simp: calm_listeners_def)
  with distributed_events_routed [OF run] run show ?thesis by fastforce
qed

end
