(* ===== verification/Constraint_Subscriptions.thy ===== *)
theory Constraint_Subscriptions
  imports Event_Subscriptions
begin

text \<open>
  The table of \<open>services/accountmgr/src/osaccount/os_account_constraint_subscribe_manager.cpp\<close>: who hears of which constraints. The
  records are shared between the set of records and the index from constraints to records, so they live in a store and both hold their
  addresses; a record that left the set lives on while the index still names it.
\<close>

record OsAccountConstraintSubscribeRecord =
  constraintSet :: "string sset"
  cr_listener :: listener
  cr_callingUid :: int

type_synonym ConstraintEvent = "int \<times> string sset \<times> bool"

record constraint_subs =
  cs_store :: "nat \<Rightarrow> OsAccountConstraintSubscribeRecord"
  cs_next :: nat
  constraintRecords :: "nat sset"
  userListenerMap :: "(listener, int) smap"
  constraint2RecordMap :: "(string, nat sset) smap"
  cs_calls :: "ConstraintEvent calls"

text \<open>\<open>operator[]\<close> of the index makes an empty entry where there is none.\<close>

definition index_of :: "(string, nat sset) smap \<Rightarrow> string \<Rightarrow> nat sset" where
  "index_of m c = (case map_of m c of None \<Rightarrow> [] | Some ps \<Rightarrow> ps)"

definition unindex :: "nat \<Rightarrow> string \<Rightarrow> (string, nat sset) smap \<Rightarrow> (string, nat sset) smap" where
  "unindex p c m = (let ps = ss_erase p (index_of m c) in if ps = [] then sm_erase c m else sm_put c ps m)"

definition set_record :: "nat \<Rightarrow> string sset \<Rightarrow> constraint_subs \<Rightarrow> constraint_subs" where
  "set_record p cs st = st\<lparr>cs_store := (cs_store st)(p := (cs_store st p)\<lparr>constraintSet := cs\<rparr>)\<rparr>"

definition RemoveConstraintFromSubscribeRecord :: "nat \<Rightarrow> string sset \<Rightarrow> constraint_subs \<Rightarrow> constraint_subs" where
  "RemoveConstraintFromSubscribeRecord p constraints st =
     (let st1 = fold (\<lambda>c st. set_record p (ss_erase c (constraintSet (cs_store st p)))
                  (st\<lparr>constraint2RecordMap := unindex p c (constraint2RecordMap st)\<rparr>)) constraints st in
      if constraintSet (cs_store st1 p) = [] then st1\<lparr>constraintRecords := ss_erase p (constraintRecords st1)\<rparr> else st1)"

definition InsertSubscribeRecord :: "nat \<Rightarrow> constraint_subs \<Rightarrow> constraint_subs" where
  "InsertSubscribeRecord p st =
     st\<lparr>constraintRecords := ss_insert p (constraintRecords st),
       constraint2RecordMap := fold (\<lambda>c m. sm_put c (ss_insert p (index_of m c)) m) (constraintSet (cs_store st p)) (constraint2RecordMap st)\<rparr>"

definition find_record :: "listener \<Rightarrow> constraint_subs \<Rightarrow> nat option" where
  "find_record l st = List.find (\<lambda>p. cr_listener (cs_store st p) = l) (constraintRecords st)"

definition make_record :: "string sset \<Rightarrow> listener \<Rightarrow> int \<Rightarrow> constraint_subs \<Rightarrow> constraint_subs" where
  "make_record constraints l uid st =
     InsertSubscribeRecord (cs_next st)
       (st\<lparr>cs_store := (cs_store st)(cs_next st := \<lparr>constraintSet = constraints, cr_listener = l, cr_callingUid = uid\<rparr>),
          cs_next := Suc (cs_next st)\<rparr>)"

definition SubscribeOsAccountConstraints :: "string sset \<Rightarrow> int \<Rightarrow> listener option \<Rightarrow> constraint_subs \<Rightarrow> ErrCode \<times> constraint_subs" where
  "SubscribeOsAccountConstraints constraints uid eventListener st =
     (case eventListener of None \<Rightarrow> (ERR_ACCOUNT_COMMON_NULL_PTR_ERROR, st)
      | Some l \<Rightarrow> (case find_record l st of
          Some p \<Rightarrow> (ERR_OK, InsertSubscribeRecord p (set_record p constraints st))
        | None \<Rightarrow> (ERR_OK, make_record constraints l uid st)))"

definition SubscribeUserConstraints :: "int \<Rightarrow> string sset \<Rightarrow> int \<Rightarrow> listener option \<Rightarrow> constraint_subs \<Rightarrow> ErrCode \<times> constraint_subs" where
  "SubscribeUserConstraints localId constraints uid eventListener st =
     (case eventListener of None \<Rightarrow> (ERR_ACCOUNT_COMMON_NULL_PTR_ERROR, st)
      | Some l \<Rightarrow> (case find_record l st of
          Some p \<Rightarrow> (ERR_OK, InsertSubscribeRecord p (set_record p constraints st))
        | None \<Rightarrow> (ERR_OK, make_record constraints l uid (st\<lparr>userListenerMap := sm_put l localId (userListenerMap st)\<rparr>))))"

definition UnsubscribeAllConstraints :: "listener option \<Rightarrow> constraint_subs \<Rightarrow> ErrCode \<times> constraint_subs" where
  "UnsubscribeAllConstraints eventListener st =
     (case eventListener of None \<Rightarrow> (ERR_ACCOUNT_COMMON_NULL_PTR_ERROR, st)
      | Some l \<Rightarrow>
          let st1 = st\<lparr>userListenerMap := sm_erase l (userListenerMap st)\<rparr> in
          (case find_record l st1 of
             Some p \<Rightarrow> (ERR_OK, RemoveConstraintFromSubscribeRecord p (constraintSet (cs_store st1 p)) st1)
           | None \<Rightarrow> (ERR_ACCOUNT_COMMON_ACCOUNT_SUBSCRIBE_NOT_FOUND_ERROR, st1)))"

definition unsubscribe_some :: "string sset \<Rightarrow> listener \<Rightarrow> constraint_subs \<Rightarrow> ErrCode \<times> constraint_subs" where
  "unsubscribe_some constraints l st =
     (case find_record l st of
        Some p \<Rightarrow>
          if \<not> list_all (\<lambda>c. c \<in> set (constraintSet (cs_store st p))) constraints
          then (ERR_ACCOUNT_COMMON_ACCOUNT_SUBSCRIBE_NOT_FOUND_ERROR, st)
          else (ERR_OK, RemoveConstraintFromSubscribeRecord p constraints st)
      | None \<Rightarrow> (ERR_ACCOUNT_COMMON_ACCOUNT_SUBSCRIBE_NOT_FOUND_ERROR, st))"

definition UnsubscribeOsAccountConstraints :: "string sset \<Rightarrow> listener option \<Rightarrow> constraint_subs \<Rightarrow> ErrCode \<times> constraint_subs" where
  "UnsubscribeOsAccountConstraints constraints eventListener st =
     (case eventListener of None \<Rightarrow> (ERR_ACCOUNT_COMMON_NULL_PTR_ERROR, st) | Some l \<Rightarrow> unsubscribe_some constraints l st)"

definition UnsubscribeUserConstraints :: "int \<Rightarrow> string sset \<Rightarrow> listener option \<Rightarrow> constraint_subs \<Rightarrow> ErrCode \<times> constraint_subs" where
  "UnsubscribeUserConstraints localId constraints eventListener st =
     (case eventListener of None \<Rightarrow> (ERR_ACCOUNT_COMMON_NULL_PTR_ERROR, st)
      | Some l \<Rightarrow> unsubscribe_some constraints l (st\<lparr>userListenerMap := sm_erase l (userListenerMap st)\<rparr>))"

definition PublishToSubscriber ::
  "event_env \<Rightarrow> OsAccountConstraintSubscribeRecord \<Rightarrow> int \<Rightarrow> string sset \<Rightarrow> bool \<Rightarrow> ConstraintEvent calls \<Rightarrow> ConstraintEvent calls" where
  "PublishToSubscriber E r localId constraints isEnabled log =
     (if \<not> is_event_proxy E (cr_listener r) then log
      else snd (SendNotify E (cr_listener r) (localId, constraints, isEnabled) EVENT_RETRY_TIMES ERR_OK log))"

definition receivers :: "string sset \<Rightarrow> constraint_subs \<Rightarrow> nat sset" where
  "receivers constraints st = fold (\<lambda>c ps. fold ss_insert (index_of (constraint2RecordMap st) c) ps) constraints []"

definition publish_one ::
  "event_env \<Rightarrow> int \<Rightarrow> string sset \<Rightarrow> bool \<Rightarrow> constraint_subs \<Rightarrow> nat \<Rightarrow> ConstraintEvent calls \<Rightarrow> ConstraintEvent calls" where
  "publish_one E localId constraints isEnabled st p log =
     (let r = cs_store st p in
      case map_of (userListenerMap st) (cr_listener r) of
        Some u \<Rightarrow> if u \<noteq> localId then log else PublishToSubscriber E r localId constraints isEnabled log
      | None \<Rightarrow> PublishToSubscriber E r localId constraints isEnabled log)"

definition Publish_constraints :: "event_env \<Rightarrow> int \<Rightarrow> string sset \<Rightarrow> bool \<Rightarrow> constraint_subs \<Rightarrow> constraint_subs" where
  "Publish_constraints E localId constraints isEnabled st =
     st\<lparr>cs_calls := fold (publish_one E localId constraints isEnabled st) (receivers constraints st) (cs_calls st)\<rparr>"

section \<open>Who is told\<close>

lemma set_receivers: "set (receivers cs st) = (\<Union>c \<in> set cs. set (index_of (constraint2RecordMap st) c))"
proof -
  have "set (fold (\<lambda>c ps. fold ss_insert (index_of m c) ps) cs acc) = set acc \<union> (\<Union>c \<in> set cs. set (index_of m c))" for m acc
    by (induction cs arbitrary: acc) (auto simp: set_fold_insert)
  then show ?thesis by (simp add: receivers_def)
qed

definition listens :: "event_env \<Rightarrow> int \<Rightarrow> constraint_subs \<Rightarrow> listener \<Rightarrow> bool" where
  "listens E localId st l \<longleftrightarrow> is_event_proxy E l \<and> (\<forall>u. map_of (userListenerMap st) l = Some u \<longrightarrow> u = localId)"

lemma publish_one_told:
  "\<exists>ext. publish_one E i cs en st p log = log @ ext \<and>
     told ext = (if listens E i st (cr_listener (cs_store st p)) then {(cr_listener (cs_store st p), (i, cs, en))} else {})"
proof -
  let ?l = "cr_listener (cs_store st p)" let ?e = "(i, cs, en)"
  obtain r1 log1 where s: "SendNotify E ?l ?e EVENT_RETRY_TIMES ERR_OK log = (r1, log1)" by (metis prod.collapse)
  from SendNotify_log [OF s] obtain ext where ext: "log1 = log @ ext" "\<forall>c \<in> set ext. fst c = ?l \<and> fst (snd c) = ?e" "ext \<noteq> []"
    by (auto simp: EVENT_RETRY_TIMES_def)
  then have "told ext = {(?l, ?e)}" by (cases ext) (force simp: told_def)+
  then show ?thesis
    by (intro exI [of _ "if listens E i st ?l then ext else []"])
      (use ext(1) s in \<open>auto simp: publish_one_def Let_def PublishToSubscriber_def listens_def split: option.splits\<close>)
qed

lemma publish_told:
  "\<exists>ext. cs_calls (Publish_constraints E i cs en st) = cs_calls st @ ext
     \<and> told ext = {(l, (i, cs, en)) | l. listens E i st l \<and> (\<exists>p \<in> set (receivers cs st). cr_listener (cs_store st p) = l)}"
proof -
  have "\<exists>ext. fold (publish_one E i cs en st) ps log = log @ ext
      \<and> told ext = {(l, (i, cs, en)) | l. listens E i st l \<and> (\<exists>p \<in> set ps. cr_listener (cs_store st p) = l)}" for ps log
  proof (induction ps arbitrary: log)
    case (Cons p ps)
    obtain ext1 where 1: "publish_one E i cs en st p log = log @ ext1"
      "told ext1 = (if listens E i st (cr_listener (cs_store st p)) then {(cr_listener (cs_store st p), (i, cs, en))} else {})"
      using publish_one_told by blast
    obtain ext2 where 2: "fold (publish_one E i cs en st) ps (log @ ext1) = (log @ ext1) @ ext2"
      "told ext2 = {(l, (i, cs, en)) | l. listens E i st l \<and> (\<exists>p \<in> set ps. cr_listener (cs_store st p) = l)}" using Cons.IH by blast
    show ?case by (intro exI [of _ "ext1 @ ext2"]) (use 1 2 in \<open>auto split: if_splits\<close>)
  qed simp
  then show ?thesis by (simp add: Publish_constraints_def)
qed

section \<open>The index follows the records\<close>

lemma index_of_unindex: "index_of (unindex p c m) c' = (if c' = c then ss_erase p (index_of m c) else index_of m c')"
  by (simp add: unindex_def index_of_def Let_def)

lemma index_of_fold_unindex:
  "set (index_of (fold (unindex p) cs m) c) = set (index_of m c) - (if c \<in> set cs then {p} else {})"
  by (induction cs arbitrary: m) (auto simp: index_of_unindex split: if_splits)

lemma index_of_fold_insert:
  "set (index_of (fold (\<lambda>c m. sm_put c (ss_insert p (index_of m c)) m) cs m) c) = (if c \<in> set cs then {p} else {}) \<union> set (index_of m c)"
proof (induction cs arbitrary: m)
  case (Cons d cs)
  have "index_of (sm_put d v m) c = (if c = d then v else index_of m c)" for v by (simp add: index_of_def)
  with Cons.IH show ?case by auto
qed simp

lemma set_fold_erase: "set (fold ss_erase cs s) = set s - set cs"
  by (induction cs arbitrary: s) auto

lemma remove_fold:
  "fold (\<lambda>c st. set_record p (ss_erase c (constraintSet (cs_store st p))) (st\<lparr>constraint2RecordMap := unindex p c (constraint2RecordMap st)\<rparr>)) cs st
    = st\<lparr>cs_store := (cs_store st)(p := (cs_store st p)\<lparr>constraintSet := fold ss_erase cs (constraintSet (cs_store st p))\<rparr>),
         constraint2RecordMap := fold (unindex p) cs (constraint2RecordMap st)\<rparr>"
proof (induction cs arbitrary: st)
  case (Cons c cs)
  show ?case unfolding fold_simps Cons.IH comp_def by (rule constraint_subs.equality) (simp_all add: set_record_def fun_eq_iff)
qed simp

definition known :: "nat \<Rightarrow> constraint_subs \<Rightarrow> bool" where
  "known p st \<longleftrightarrow> p \<in> set (constraintRecords st)"

definition wants :: "constraint_subs \<Rightarrow> nat \<Rightarrow> string set" where
  "wants st p = set (constraintSet (cs_store st p))"

definition indexed :: "constraint_subs \<Rightarrow> string \<Rightarrow> nat set" where
  "indexed st c = set (index_of (constraint2RecordMap st) c)"

definition owner :: "constraint_subs \<Rightarrow> nat \<Rightarrow> listener" where
  "owner st p = cr_listener (cs_store st p)"

lemma Remove_view:
  assumes "st' = RemoveConstraintFromSubscribeRecord p cs st"
  shows "wants st' = (wants st)(p := wants st p - set cs)" "owner st' = owner st" "cs_next st' = cs_next st"
    "known q st' \<longleftrightarrow> known q st \<and> (q = p \<longrightarrow> wants st p - set cs \<noteq> {})"
    "indexed st' c = indexed st c - (if c \<in> set cs then {p} else {})" "userListenerMap st' = userListenerMap st"
  using assms set_fold_erase [of cs "constraintSet (cs_store st p)"]
  by (auto simp: RemoveConstraintFromSubscribeRecord_def remove_fold Let_def wants_def owner_def known_def indexed_def index_of_fold_unindex
      fun_eq_iff simp flip: set_empty split: if_splits)

lemma Insert_view:
  assumes "st' = InsertSubscribeRecord p st"
  shows "wants st' = wants st" "owner st' = owner st" "cs_next st' = cs_next st" "known q st' \<longleftrightarrow> q = p \<or> known q st"
    "indexed st' c = (if c \<in> wants st p then {p} else {}) \<union> indexed st c" "userListenerMap st' = userListenerMap st"
  using assms by (auto simp: InsertSubscribeRecord_def wants_def owner_def known_def indexed_def index_of_fold_insert fun_eq_iff split: if_splits)

text \<open>Every record is found in the index under each of its constraints, and no listener has two records.\<close>

definition complete :: "constraint_subs \<Rightarrow> bool" where
  "complete st \<longleftrightarrow> (\<forall>p. known p st \<longrightarrow> (\<forall>c \<in> wants st p. p \<in> indexed st c))"

definition in_range :: "constraint_subs \<Rightarrow> bool" where
  "in_range st \<longleftrightarrow> (\<forall>p. known p st \<longrightarrow> p < cs_next st) \<and> (\<forall>c. \<forall>p \<in> indexed st c. p < cs_next st)"

definition one_each :: "constraint_subs \<Rightarrow> bool" where
  "one_each st \<longleftrightarrow> (\<forall>p q. known p st \<longrightarrow> known q st \<longrightarrow> owner st p = owner st q \<longrightarrow> p = q)"

definition subs_inv :: "constraint_subs \<Rightarrow> bool" where
  "subs_inv st \<longleftrightarrow> complete st \<and> in_range st \<and> one_each st"

lemma subs_invI: "complete st \<Longrightarrow> in_range st \<Longrightarrow> one_each st \<Longrightarrow> subs_inv st"
  by (simp add: subs_inv_def)

lemma one_record: "subs_inv st \<Longrightarrow> known p st \<Longrightarrow> owner st p = l \<Longrightarrow> known q st \<Longrightarrow> owner st q = l \<Longrightarrow> q = p"
  unfolding subs_inv_def one_each_def by blast

text \<open>The index holds nothing else.\<close>

definition index_exact :: "constraint_subs \<Rightarrow> bool" where
  "index_exact st \<longleftrightarrow> (\<forall>c. \<forall>p \<in> indexed st c. known p st \<and> c \<in> wants st p)"

definition subs_rel :: "constraint_subs \<Rightarrow> (listener \<times> string) set" where
  "subs_rel st = {(l, c). \<exists>p. (known p st \<and> c \<in> wants st p) \<and> owner st p = l}"

lemma find_record_Some: "find_record l st = Some p \<Longrightarrow> known p st \<and> owner st p = l"
  by (auto simp: find_record_def find_Some_iff known_def owner_def)

lemma find_record_None: "find_record l st = None \<longleftrightarrow> (\<forall>p. known p st \<longrightarrow> owner st p \<noteq> l)"
  by (auto simp: find_record_def find_None_iff known_def owner_def)

lemma set_record_view:
  "wants (set_record p cs st) = (wants st)(p := set cs)" "owner (set_record p cs st) = owner st" "cs_next (set_record p cs st) = cs_next st"
  "known q (set_record p cs st) = known q st" "indexed (set_record p cs st) c = indexed st c"
  "userListenerMap (set_record p cs st) = userListenerMap st"
  by (auto simp: set_record_def wants_def owner_def known_def indexed_def fun_eq_iff)

lemma users_view:
  "wants (st\<lparr>userListenerMap := u\<rparr>) = wants st" "owner (st\<lparr>userListenerMap := u\<rparr>) = owner st"
  "known q (st\<lparr>userListenerMap := u\<rparr>) = known q st" "indexed (st\<lparr>userListenerMap := u\<rparr>) c = indexed st c"
  "find_record l (st\<lparr>userListenerMap := u\<rparr>) = find_record l st"
  by (simp_all add: wants_def owner_def known_def indexed_def find_record_def fun_eq_iff)

lemma users_inv:
  "subs_inv (st\<lparr>userListenerMap := u\<rparr>) = subs_inv st" "index_exact (st\<lparr>userListenerMap := u\<rparr>) = index_exact st"
  "subs_rel (st\<lparr>userListenerMap := u\<rparr>) = subs_rel st"
  by (simp_all add: subs_inv_def complete_def in_range_def one_each_def index_exact_def subs_rel_def users_view)

lemma resubscribe_spec:
  assumes "subs_inv st" and "find_record l st = Some p" and "st' = InsertSubscribeRecord p (set_record p cs st)"
  shows "subs_inv st' \<and> subs_rel st' = now_wants l (set cs) (subs_rel st)"
proof -
  note v = Insert_view [OF assms(3)] set_record_view
  have p: "known p st" "owner st p = l" using find_record_Some [OF assms(2)] by simp_all
  have inv: "complete st" "in_range st" "one_each st" using assms(1) by (simp_all add: subs_inv_def)
  have "complete st'" using inv(1) unfolding complete_def v by auto
  moreover have "in_range st'" using inv(2) p(1) unfolding in_range_def v by auto
  moreover have "one_each st'" using inv(3) p unfolding one_each_def v by blast
  moreover have "subs_rel st' = now_wants l (set cs) (subs_rel st)"
  proof (rule set_eqI)
    fix e :: "listener \<times> string"
    obtain x c where e: "e = (x, c)" by fastforce
    have at: "known q st' \<and> c \<in> wants st' q \<longleftrightarrow> (if q = p then c \<in> set cs else known q st \<and> c \<in> wants st q)" for q
      using p(1) unfolding v by auto
    have other: "owner st q \<noteq> l" if "q \<noteq> p" "known q st" for q using one_record [OF assms(1) p that(2)] that(1) by blast
    have "(x, c) \<in> subs_rel st' \<longleftrightarrow> (\<exists>q. (if q = p then c \<in> set cs else known q st \<and> c \<in> wants st q) \<and> owner st q = x)"
      unfolding subs_rel_def mem_Collect_eq case_prod_conv at by (simp only: v(2) set_record_view(2))
    also have "\<dots> \<longleftrightarrow> (if x = l then c \<in> set cs else \<exists>q. (known q st \<and> c \<in> wants st q) \<and> owner st q = x)"
      using p(2) other by (metis (full_types))
    finally show "e \<in> subs_rel st' \<longleftrightarrow> e \<in> now_wants l (set cs) (subs_rel st)"
      by (auto simp: e subs_rel_def now_wants_def)
  qed
  ultimately show ?thesis by (simp add: subs_inv_def)
qed

lemma new_spec:
  assumes "subs_inv st" and "find_record l st = None" and "st' = make_record cs l uid st"
  shows "subs_inv st' \<and> subs_rel st' = now_wants l (set cs) (subs_rel st) \<and> (index_exact st \<longrightarrow> index_exact st')"
proof -
  let ?p = "cs_next st"
  define s1 where "s1 = st\<lparr>cs_store := (cs_store st)(?p := \<lparr>constraintSet = cs, cr_listener = l, cr_callingUid = uid\<rparr>), cs_next := Suc ?p\<rparr>"
  have w: "wants s1 = (wants st)(?p := set cs)" "owner s1 = (owner st)(?p := l)" "cs_next s1 = Suc ?p" "known q s1 = known q st"
    "indexed s1 c = indexed st c" for q c
    by (auto simp: s1_def wants_def owner_def known_def indexed_def fun_eq_iff)
  have "st' = InsertSubscribeRecord ?p s1" using assms(3) by (simp add: make_record_def s1_def)
  note v = Insert_view [OF this] w
  have inv: "complete st" "in_range st" "one_each st" using assms(1) by (simp_all add: subs_inv_def)
  have ne: "known q st \<Longrightarrow> q \<noteq> ?p" "q \<in> indexed st c \<Longrightarrow> q \<noteq> ?p" for q c using inv(2) unfolding in_range_def by blast+
  have l: "known q st \<Longrightarrow> owner st q \<noteq> l" for q using assms(2) by (simp add: find_record_None)
  have "complete st'" using inv(1) ne(1) unfolding complete_def v by auto
  moreover have "in_range st'" using inv(2) unfolding in_range_def v by (auto intro: less_SucI split: if_splits)
  moreover have "one_each st'" unfolding one_each_def v
  proof (intro allI impI)
    fix q q' assume q: "q = ?p \<or> known q st" "q' = ?p \<or> known q' st" "((owner st)(?p := l)) q = ((owner st)(?p := l)) q'"
    show "q = q'"
    proof (cases "q = ?p \<or> q' = ?p")
      case True
      with q l ne(1) show ?thesis by (metis fun_upd_apply)
    next
      case False
      with q inv(3) show ?thesis unfolding one_each_def by auto
    qed
  qed
  moreover have "subs_rel st' = now_wants l (set cs) (subs_rel st)"
  proof (rule set_eqI)
    fix e :: "listener \<times> string"
    show "e \<in> subs_rel st' \<longleftrightarrow> e \<in> now_wants l (set cs) (subs_rel st)"
      using l ne(1) unfolding subs_rel_def now_wants_def v by (cases e) (auto split: if_splits)
  qed
  moreover have "index_exact st'" if "index_exact st" using that ne(2) unfolding index_exact_def v by (auto split: if_splits)
  ultimately show ?thesis by (simp add: subs_inv_def)
qed

lemma remove_spec:
  assumes "subs_inv st" and "find_record l st = Some p" and "st' = RemoveConstraintFromSubscribeRecord p cs st"
  shows "subs_inv st' \<and> subs_rel st' = subs_rel st - {l} \<times> set cs \<and> (index_exact st \<longrightarrow> index_exact st')"
proof -
  note v = Remove_view [OF assms(3)]
  have p: "known p st" "owner st p = l" using find_record_Some [OF assms(2)] by simp_all
  have inv: "complete st" "in_range st" "one_each st" using assms(1) by (simp_all add: subs_inv_def)
  have "complete st'" using inv(1) unfolding complete_def v by auto
  moreover have "in_range st'" using inv(2) unfolding in_range_def v by (auto split: if_splits)
  moreover have "one_each st'" using inv(3) unfolding one_each_def v by blast
  moreover have "subs_rel st' = subs_rel st - {l} \<times> set cs"
  proof (rule set_eqI)
    fix e :: "listener \<times> string"
    obtain x c where e: "e = (x, c)" by fastforce
    have at: "known q st' \<and> c \<in> wants st' q \<longleftrightarrow> (known q st \<and> c \<in> wants st q) \<and> (owner st q = l \<longrightarrow> c \<notin> set cs)" for q
    proof (cases "q = p")
      case True
      with p show ?thesis unfolding v by auto
    next
      case False
      with one_record [OF assms(1) p, of q] have "known q st \<Longrightarrow> owner st q \<noteq> l" by blast
      with False show ?thesis unfolding v by (simp add: conj_commute cong: conj_cong)
    qed
    have "(x, c) \<in> subs_rel st' \<longleftrightarrow> (\<exists>q. ((known q st \<and> c \<in> wants st q) \<and> (owner st q = l \<longrightarrow> c \<notin> set cs)) \<and> owner st q = x)"
      by (simp only: subs_rel_def mem_Collect_eq case_prod_conv at v(2))
    also have "\<dots> \<longleftrightarrow> (\<exists>q. (known q st \<and> c \<in> wants st q) \<and> owner st q = x) \<and> \<not> (x = l \<and> c \<in> set cs)"
      (is "?a \<longleftrightarrow> ?b \<and> \<not> ?d")
    proof
      assume ?a
      then obtain q where q: "known q st" "c \<in> wants st q" "owner st q = l \<longrightarrow> c \<notin> set cs" "owner st q = x" by (elim exE conjE)
      then have ?b by (intro exI [of _ q] conjI)
      moreover have "\<not> ?d" using q(3,4) by simp
      ultimately show "?b \<and> \<not> ?d" ..
    next
      assume b: "?b \<and> \<not> ?d"
      then obtain q where "known q st" "c \<in> wants st q" "owner st q = x" by (elim exE conjE)
      then show ?a using b by (intro exI [of _ q]) simp
    qed
    finally show "e \<in> subs_rel st' \<longleftrightarrow> e \<in> subs_rel st - {l} \<times> set cs"
      unfolding e Diff_iff subs_rel_def mem_Collect_eq case_prod_conv mem_Sigma_iff singleton_iff .
  qed
  moreover have "index_exact st'" if "index_exact st" using that unfolding index_exact_def v by (auto split: if_splits)
  ultimately show ?thesis by (simp add: subs_inv_def)
qed

section \<open>Runs\<close>

datatype subs_request =
    CSubscribe "string sset" int "listener option"
  | CSubscribeUser int "string sset" int "listener option"
  | CUnsubscribeAll "listener option"
  | CUnsubscribe "string sset" "listener option"
  | CUnsubscribeUser int "string sset" "listener option"
  | CPublish int "string sset" bool

fun run_subs :: "event_env \<Rightarrow> subs_request \<Rightarrow> constraint_subs \<Rightarrow> ErrCode \<times> constraint_subs" where
  "run_subs E (CSubscribe cs uid l) st = SubscribeOsAccountConstraints cs uid l st"
| "run_subs E (CSubscribeUser i cs uid l) st = SubscribeUserConstraints i cs uid l st"
| "run_subs E (CUnsubscribeAll l) st = UnsubscribeAllConstraints l st"
| "run_subs E (CUnsubscribe cs l) st = UnsubscribeOsAccountConstraints cs l st"
| "run_subs E (CUnsubscribeUser i cs l) st = UnsubscribeUserConstraints i cs l st"
| "run_subs E (CPublish i cs en) st = (ERR_OK, Publish_constraints E i cs en st)"

definition subs_step :: "event_env \<Rightarrow> constraint_subs \<Rightarrow> subs_request \<Rightarrow> ErrCode \<Rightarrow> constraint_subs \<Rightarrow> bool" where
  "subs_step E st q r st' \<longleftrightarrow> run_subs E q st = (r, st')"

text \<open>The requests on the relation between listeners and constraints.\<close>

fun subs_effect :: "subs_request \<Rightarrow> ErrCode \<Rightarrow> (listener \<times> string) set \<Rightarrow> (listener \<times> string) set" where
  "subs_effect (CSubscribe cs _ (Some l)) r R = now_wants l (set cs) R"
| "subs_effect (CSubscribeUser _ cs _ (Some l)) r R = now_wants l (set cs) R"
| "subs_effect (CUnsubscribeAll (Some l)) r R = {e \<in> R. fst e \<noteq> l}"
| "subs_effect (CUnsubscribe cs (Some l)) r R = (if r = ERR_OK then R - {l} \<times> set cs else R)"
| "subs_effect (CUnsubscribeUser _ cs (Some l)) r R = (if r = ERR_OK then R - {l} \<times> set cs else R)"
| "subs_effect _ r R = R"

text \<open>A subscription of a listener that is already there asks for at least what it has.\<close>

definition keeps_own :: "string sset \<Rightarrow> listener option \<Rightarrow> constraint_subs \<Rightarrow> bool" where
  "keeps_own cs l st \<longleftrightarrow> (case Option.bind l (\<lambda>l. find_record l st) of None \<Rightarrow> True | Some p \<Rightarrow> wants st p \<subseteq> set cs)"

fun growing :: "subs_request \<Rightarrow> constraint_subs \<Rightarrow> bool" where
  "growing (CSubscribe cs _ l) st = keeps_own cs l st"
| "growing (CSubscribeUser _ cs _ l) st = keeps_own cs l st"
| "growing _ st = True"

definition growing_step :: "event_env \<Rightarrow> constraint_subs \<Rightarrow> subs_request \<Rightarrow> ErrCode \<Rightarrow> constraint_subs \<Rightarrow> bool" where
  "growing_step E st q r st' \<longleftrightarrow> growing q st \<and> subs_step E st q r st'"

lemma resubscribe_exact:
  assumes "index_exact st" and "find_record l st = Some p" and "st' = InsertSubscribeRecord p (set_record p cs st)" and "wants st p \<subseteq> set cs"
  shows "index_exact st'"
proof -
  note v = Insert_view [OF assms(3)] set_record_view
  have "known p st" using find_record_Some [OF assms(2)] by simp
  with assms(1,4) show ?thesis unfolding index_exact_def v by (auto split: if_splits)
qed

definition good_table :: "constraint_subs \<Rightarrow> bool" where
  "good_table st \<longleftrightarrow> subs_inv st \<and> index_exact st"

definition implements :: "constraint_subs \<Rightarrow> (listener \<times> string) set \<Rightarrow> bool \<Rightarrow> constraint_subs \<Rightarrow> bool" where
  "implements st R grows st' \<longleftrightarrow> subs_inv st' \<and> subs_rel st' = R \<and> (index_exact st \<longrightarrow> grows \<longrightarrow> index_exact st')"

lemma implements_users: "implements (st\<lparr>userListenerMap := u\<rparr>) R g st' = implements st R g st'"
  by (simp add: implements_def users_inv)

lemma implements_refl: "subs_inv st \<Longrightarrow> implements st (subs_rel st) g st"
  by (simp add: implements_def)

lemma resubscribe_implements:
  assumes "subs_inv st" and "find_record l st = Some p" and "keeps_own cs (Some l) st = g"
  shows "implements st (now_wants l (set cs) (subs_rel st)) g (InsertSubscribeRecord p (set_record p cs st))"
  using resubscribe_spec [OF assms(1,2) refl, of cs] resubscribe_exact [OF _ assms(2) refl, of cs] assms(2,3)
  by (auto simp: implements_def keeps_own_def)

lemma make_implements:
  "subs_inv st \<Longrightarrow> find_record l st = None \<Longrightarrow> implements st (now_wants l (set cs) (subs_rel st)) g (make_record cs l uid st)"
  using new_spec [OF _ _ refl, of st l cs uid] by (simp add: implements_def)

lemma remove_implements:
  "subs_inv st \<Longrightarrow> find_record l st = Some p
    \<Longrightarrow> implements st (subs_rel st - {l} \<times> set cs) g (RemoveConstraintFromSubscribeRecord p cs st)"
  using remove_spec [OF _ _ refl, of st l p cs] by (simp add: implements_def)

lemma unsubscribe_some_implements:
  "subs_inv st \<Longrightarrow> unsubscribe_some cs l st = (r, st') \<Longrightarrow> implements st (if r = ERR_OK then subs_rel st - {l} \<times> set cs else subs_rel st) g st'"
  by (auto simp: unsubscribe_some_def implements_refl remove_implements split: option.splits if_splits)

lemma of_listener:
  assumes "subs_inv st"
  shows "find_record l st = None \<Longrightarrow> {e \<in> subs_rel st. fst e \<noteq> l} = subs_rel st"
    and "find_record l st = Some p \<Longrightarrow> {e \<in> subs_rel st. fst e \<noteq> l} = subs_rel st - {l} \<times> set (constraintSet (cs_store st p))"
proof -
  show "find_record l st = None \<Longrightarrow> {e \<in> subs_rel st. fst e \<noteq> l} = subs_rel st"
    by (auto simp: find_record_None subs_rel_def)
  assume "find_record l st = Some p"
  then have p: "known p st" "owner st p = l" using find_record_Some by simp_all
  have "(l, c) \<in> subs_rel st \<Longrightarrow> c \<in> wants st p" for c
    using one_record [OF assms p] unfolding subs_rel_def by blast
  then show "{e \<in> subs_rel st. fst e \<noteq> l} = subs_rel st - {l} \<times> set (constraintSet (cs_store st p))"
    unfolding wants_def by auto
qed

lemma calls_inv:
  "subs_inv (st\<lparr>cs_calls := u\<rparr>) = subs_inv st" "index_exact (st\<lparr>cs_calls := u\<rparr>) = index_exact st" "subs_rel (st\<lparr>cs_calls := u\<rparr>) = subs_rel st"
  by (simp_all add: subs_inv_def complete_def in_range_def one_each_def index_exact_def subs_rel_def wants_def owner_def known_def indexed_def)

lemma run_subs_implements:
  assumes "subs_inv st" and "run_subs E q st = (r, st')"
  shows "implements st (subs_effect q r (subs_rel st)) (growing q st) st'"
proof (cases q)
  case (CSubscribe cs uid l)
  with assms show ?thesis
    by (cases l) (auto simp: SubscribeOsAccountConstraints_def implements_refl resubscribe_implements make_implements split: option.splits)
next
  case (CSubscribeUser i cs uid l)
  have "implements st (now_wants x (set cs) (subs_rel st)) g (make_record cs x uid (st\<lparr>userListenerMap := u\<rparr>))" if "find_record x st = None" for x g u
    using make_implements [of "st\<lparr>userListenerMap := u\<rparr>" x cs g uid] assms(1) that by (simp add: users_inv users_view implements_users)
  with CSubscribeUser assms show ?thesis
    by (cases l) (auto simp: SubscribeUserConstraints_def implements_refl resubscribe_implements split: option.splits)
next
  case (CUnsubscribeAll l)
  have "implements st {e \<in> subs_rel st. fst e \<noteq> x} True (st\<lparr>userListenerMap := u\<rparr>)" if "find_record x st = None" for x u
    using of_listener(1) [OF assms(1) that] assms(1) by (simp add: implements_def users_inv)
  moreover have "implements st {e \<in> subs_rel st. fst e \<noteq> x} True
      (RemoveConstraintFromSubscribeRecord p (constraintSet (cs_store st p)) (st\<lparr>userListenerMap := u\<rparr>))" if "find_record x st = Some p" for x p u
    using remove_implements [of "st\<lparr>userListenerMap := u\<rparr>" x p "constraintSet (cs_store st p)" True] of_listener(2) [OF assms(1) that] assms(1) that
    by (simp add: users_inv users_view implements_users)
  ultimately show ?thesis using CUnsubscribeAll assms
    by (cases l) (auto simp: UnsubscribeAllConstraints_def Let_def users_view implements_refl split: option.splits)
next
  case (CUnsubscribe cs l)
  with assms show ?thesis
    by (cases l) (auto simp: UnsubscribeOsAccountConstraints_def implements_refl dest: unsubscribe_some_implements)
next
  case (CUnsubscribeUser i cs l)
  have "implements st (if r = ERR_OK then subs_rel st - {x} \<times> set cs else subs_rel st) True st'"
    if "unsubscribe_some cs x (st\<lparr>userListenerMap := u\<rparr>) = (r, st')" for x u
    using unsubscribe_some_implements [OF _ that, of True] assms(1)
    by (simp add: users_inv implements_users split: if_splits)
  with CUnsubscribeUser assms show ?thesis
    by (cases l) (auto simp: UnsubscribeUserConstraints_def implements_refl)
next
  case (CPublish i cs en)
  with assms show ?thesis by (auto simp: implements_def Publish_constraints_def calls_inv)
qed

interpretation constraint_table: service_refinement "subs_step E" subs_inv subs_rel subs_effect for E
  by unfold_locales (auto simp: subs_step_def implements_def dest: run_subs_implements)

interpretation growing_table: service_invariant "growing_step E" good_table for E
  by unfold_locales (auto simp: growing_step_def subs_step_def good_table_def implements_def dest: run_subs_implements)

definition no_subs :: "ConstraintEvent calls \<Rightarrow> constraint_subs" where
  "no_subs log = \<lparr>cs_store = (\<lambda>_. \<lparr>constraintSet = [], cr_listener = 0, cr_callingUid = 0\<rparr>), cs_next = 0, constraintRecords = [],
     userListenerMap = [], constraint2RecordMap = [], cs_calls = log\<rparr>"

lemma no_subs_good: "good_table (no_subs log)" "subs_inv (no_subs log)" "subs_rel (no_subs log) = {}"
  by (simp_all add: good_table_def no_subs_def subs_inv_def complete_def in_range_def one_each_def index_exact_def subs_rel_def
      known_def indexed_def index_of_def)

lemma indexed_receiver:
  "(\<exists>p \<in> set (receivers cs st). cr_listener (cs_store st p) = l) \<longleftrightarrow> (\<exists>c \<in> set cs. \<exists>p \<in> indexed st c. owner st p = l)"
  by (auto simp: set_receivers indexed_def owner_def)

lemma complete_receiver:
  assumes "subs_inv st" and "(l, c) \<in> subs_rel st"
  shows "\<exists>p \<in> indexed st c. owner st p = l"
  using assms unfolding subs_inv_def complete_def subs_rel_def by blast

lemma exact_receiver:
  assumes "good_table st"
  shows "(\<exists>p \<in> indexed st c. owner st p = l) \<longleftrightarrow> (l, c) \<in> subs_rel st"
proof
  show "\<exists>p \<in> indexed st c. owner st p = l \<Longrightarrow> (l, c) \<in> subs_rel st"
    using assms unfolding good_table_def index_exact_def subs_rel_def by blast
qed (use assms complete_receiver in \<open>simp add: good_table_def\<close>)

text \<open>C24 (refinement). After any sequence of subscriptions, unsubscriptions and publications, whatever the listeners answer, the table
  of constraint listeners stands for the relation between listeners and constraints that the requests describe, a subscription replacing what
  its listener had, and a change of constraints is told to every listener of one of them that is not bound to another
  user; a listener that is bound to another user is never told.\<close>

theorem constraint_subscribers_told:
  assumes "service_run (subs_step E) (no_subs log0) h st"
  shows "subs_rel st = fold (\<lambda>(q, r). subs_effect q r) h {}
    \<and> (\<forall>i cs en. \<exists>ext. cs_calls (Publish_constraints E i cs en st) = cs_calls st @ ext
        \<and> {(l, (i, cs, en)) | l. listens E i st l \<and> (\<exists>c \<in> set cs. (l, c) \<in> subs_rel st)} \<subseteq> told ext
        \<and> told ext \<subseteq> {(l, (i, cs, en)) | l. listens E i st l})"
proof (intro conjI allI)
  show "subs_rel st = fold (\<lambda>(q, r). subs_effect q r) h {}"
    using constraint_table.run_view [OF assms no_subs_good(2)] by (simp add: no_subs_good(3))
  have inv: "subs_inv st" by (rule constraint_table.run_inv [OF assms no_subs_good(2)])
  fix i cs en
  obtain ext where ext: "cs_calls (Publish_constraints E i cs en st) = cs_calls st @ ext"
    "told ext = {(l, (i, cs, en)) | l. listens E i st l \<and> (\<exists>c \<in> set cs. \<exists>p \<in> indexed st c. owner st p = l)}"
    using publish_told [of E i cs en st] unfolding indexed_receiver by blast
  show "\<exists>ext. cs_calls (Publish_constraints E i cs en st) = cs_calls st @ ext
        \<and> {(l, (i, cs, en)) | l. listens E i st l \<and> (\<exists>c \<in> set cs. (l, c) \<in> subs_rel st)} \<subseteq> told ext
        \<and> told ext \<subseteq> {(l, (i, cs, en)) | l. listens E i st l}"
  proof (intro exI [of _ ext] conjI)
    show "{(l, (i, cs, en)) | l. listens E i st l \<and> (\<exists>c \<in> set cs. (l, c) \<in> subs_rel st)} \<subseteq> told ext"
      unfolding ext(2) using complete_receiver [OF inv] by blast
  qed (use ext in auto)
qed

text \<open>C25 (safety). As long as no listener that is in the table subscribes to less than it has, a change of constraints is told to the
  subscribers of one of them and to nobody else: after an unsubscription no event arrives.\<close>

theorem constraint_events_exact:
  assumes "service_run (growing_step E) (no_subs log0) h st"
  shows "\<exists>ext. cs_calls (Publish_constraints E i cs en st) = cs_calls st @ ext
        \<and> told ext = {(l, (i, cs, en)) | l. listens E i st l \<and> (\<exists>c \<in> set cs. (l, c) \<in> subs_rel st)}"
proof -
  have good: "good_table st" by (rule growing_table.run_inv [OF assms no_subs_good(1)])
  show ?thesis using publish_told [of E i cs en st] unfolding indexed_receiver exact_receiver [OF good] .
qed

lemma subscribed_first:
  assumes "subs_inv st" and "find_record l st = None" and "st' = make_record cs l uid st"
  shows "find_record l st' = Some (cs_next st)" "constraintSet (cs_store st' (cs_next st)) = cs" "userListenerMap st' = userListenerMap st"
    "c \<in> set cs \<Longrightarrow> cs_next st \<in> indexed st' c" "owner st' (cs_next st) = l"
proof -
  show v: "constraintSet (cs_store st' (cs_next st)) = cs" "userListenerMap st' = userListenerMap st" "owner st' (cs_next st) = l"
    by (simp_all add: assms(3) make_record_def InsertSubscribeRecord_def owner_def)
  show "c \<in> set cs \<Longrightarrow> cs_next st \<in> indexed st' c"
    by (simp add: assms(3) make_record_def InsertSubscribeRecord_def indexed_def index_of_fold_insert)
  have k: "known (cs_next st) st'" by (simp add: assms(3) make_record_def InsertSubscribeRecord_def known_def)
  then obtain q where q: "find_record l st' = Some q" using v(3) find_record_None [of l st'] by (cases "find_record l st'") auto
  have "subs_inv st'" using new_spec [OF assms] by simp
  from one_record [OF this k v(3)] find_record_Some [OF q] q show "find_record l st' = Some (cs_next st)" by simp
qed

lemma told_of_index:
  assumes "p \<in> indexed st c" and "owner st p = l" and "listens E i st l"
  shows "(l, (i, [c], en)) \<in> told (cs_calls (Publish_constraints E i [c] en st))"
proof -
  obtain ext where "cs_calls (Publish_constraints E i [c] en st) = cs_calls st @ ext"
    "told ext = {(l, (i, [c], en)) | l. listens E i st l \<and> (\<exists>c \<in> set [c]. \<exists>p \<in> indexed st c. owner st p = l)}"
    using publish_told [of E i "[c]" en st] unfolding indexed_receiver by blast
  with assms show ?thesis by auto
qed

text \<open>C27 (error). A listener that subscribes again with another constraint leaves its first one in the index: after it has
  unsubscribed from everything, with success, and is not in the table any more, it is still told of the first constraint.\<close>

theorem stale_constraint_subscription:
  assumes "subs_inv st" and "find_record l st = None" and "is_event_proxy E l" and "c \<noteq> d"
    and "SubscribeOsAccountConstraints [c] uid (Some l) st = (r1, st1)"
    and "SubscribeOsAccountConstraints [d] uid (Some l) st1 = (r2, st2)"
    and "UnsubscribeAllConstraints (Some l) st2 = (r3, st3)"
  shows "r1 = ERR_OK \<and> r2 = ERR_OK \<and> r3 = ERR_OK \<and> find_record l st3 = None
    \<and> (l, (i, [c], en)) \<in> told (cs_calls (Publish_constraints E i [c] en st3))"
proof -
  let ?p = "cs_next st" let ?u = "sm_erase l (userListenerMap st2)"
  have 1: "r1 = ERR_OK" "st1 = make_record [c] l uid st" using assms(2,5) by (simp_all add: SubscribeOsAccountConstraints_def)
  note s1 = subscribed_first [OF assms(1,2) 1(2)]
  have inv1: "subs_inv st1" using new_spec [OF assms(1,2) 1(2)] by simp
  have 2: "r2 = ERR_OK" "st2 = InsertSubscribeRecord ?p (set_record ?p [d] st1)"
    using assms(6) s1(1) by (simp_all add: SubscribeOsAccountConstraints_def)
  note v2 = Insert_view [OF 2(2)] set_record_view
  have inv2: "subs_inv st2" using resubscribe_spec [OF inv1 s1(1) 2(2)] by simp
  have k: "known ?p st2" "owner st2 ?p = l" "?p \<in> indexed st2 c" using s1(4,5) unfolding v2 by simp_all
  then obtain q where q: "find_record l st2 = Some q" using find_record_None [of l st2] by (cases "find_record l st2") auto
  have f2: "find_record l st2 = Some ?p" using one_record [OF inv2 k(1,2)] find_record_Some [OF q] q by simp
  have c2: "constraintSet (cs_store st2 ?p) = [d]" by (simp add: 2(2) InsertSubscribeRecord_def set_record_def)
  have 3: "r3 = ERR_OK" "st3 = RemoveConstraintFromSubscribeRecord ?p [d] (st2\<lparr>userListenerMap := ?u\<rparr>)"
    using assms(7) f2 c2 by (simp_all add: UnsubscribeAllConstraints_def Let_def users_view)
  note v3 = Remove_view [OF 3(2)] users_view
  have "wants st2 ?p = {d}" using c2 by (simp add: wants_def)
  then have "find_record l st3 = None"
    using one_record [OF inv2 k(1,2)] unfolding find_record_None v3 by auto
  moreover have "?p \<in> indexed st3 c" "owner st3 ?p = l" using k assms(4) unfolding v3 by simp_all
  moreover have "listens E i st3 l" using assms(3) v3(6) by (simp add: listens_def)
  ultimately show ?thesis using told_of_index 1(1) 2(1) 3(1) by blast
qed

text \<open>A refused unsubscription of a listener that is bound to a user ends the binding: from then on it hears of every user.\<close>

lemma refused_unsubscription_unbinds:
  assumes "subs_inv st" and "find_record l st = None" and "is_event_proxy E l" and "c \<noteq> d" and "i \<noteq> j"
    and "SubscribeUserConstraints i [c] uid (Some l) st = (r1, st1)"
    and "UnsubscribeUserConstraints i [d] (Some l) st1 = (r2, st2)"
  shows "r2 = ERR_ACCOUNT_COMMON_ACCOUNT_SUBSCRIBE_NOT_FOUND_ERROR \<and> \<not> listens E j st1 l
    \<and> (l, (j, [c], en)) \<in> told (cs_calls (Publish_constraints E j [c] en st2))"
proof -
  let ?st = "st\<lparr>userListenerMap := sm_put l i (userListenerMap st)\<rparr>"
  have 1: "st1 = make_record [c] l uid ?st" using assms(2,6) by (simp add: SubscribeUserConstraints_def)
  have inv: "subs_inv ?st" "find_record l ?st = None" using assms(1,2) by (simp_all add: users_inv users_view)
  note s1 = subscribed_first [OF inv 1]
  have 2: "r2 = ERR_ACCOUNT_COMMON_ACCOUNT_SUBSCRIBE_NOT_FOUND_ERROR" "st2 = st1\<lparr>userListenerMap := sm_erase l (userListenerMap st1)\<rparr>"
    using assms(4,7) s1(1,2) by (simp_all add: UnsubscribeUserConstraints_def unsubscribe_some_def users_view)
  have "\<not> listens E j st1 l" using s1(3) assms(5) by (simp add: listens_def)
  moreover have "listens E j st2 l" using assms(3) by (simp add: 2(2) listens_def)
  moreover have "cs_next st \<in> indexed st2 c" "owner st2 (cs_next st) = l" using s1(4) [of c] s1(5) by (simp_all add: 2(2) users_view)
  ultimately show ?thesis using told_of_index 2(1) by blast
qed

section \<open>Witnesses\<close>

lemmas subs_eval = SubscribeOsAccountConstraints_def SubscribeUserConstraints_def UnsubscribeOsAccountConstraints_def UnsubscribeAllConstraints_def
  unsubscribe_some_def make_record_def InsertSubscribeRecord_def RemoveConstraintFromSubscribeRecord_def find_record_def set_record_def
  unindex_def index_of_def no_subs_def ss_erase_def Let_def

lemma subs_run_three:
  assumes "run_subs E q1 st0 = (r1, st1)" and "run_subs E q2 st1 = (r2, st2)" and "run_subs E q3 st2 = (r3, st3)"
  shows "service_run (subs_step E) st0 [(q1, r1), (q2, r2), (q3, r3)] st3"
    and "growing q1 st0 \<Longrightarrow> growing q2 st1 \<Longrightarrow> growing q3 st2 \<Longrightarrow> service_run (growing_step E) st0 [(q1, r1), (q2, r2), (q3, r3)] st3"
proof -
  have "service_run (subs_step E) st0 ([] @ [(q1, r1)] @ [(q2, r2)] @ [(q3, r3)]) st3"
    unfolding append_assoc [symmetric] service_run_snoc using assms by (auto simp: subs_step_def)
  then show "service_run (subs_step E) st0 [(q1, r1), (q2, r2), (q3, r3)] st3" by simp
  assume "growing q1 st0" "growing q2 st1" "growing q3 st2"
  then have "service_run (growing_step E) st0 ([] @ [(q1, r1)] @ [(q2, r2)] @ [(q3, r3)]) st3"
    unfolding append_assoc [symmetric] service_run_snoc using assms by (auto simp: subs_step_def growing_step_def)
  then show "service_run (growing_step E) st0 [(q1, r1), (q2, r2), (q3, r3)] st3" by simp
qed

text \<open>Listeners 7, for any user, and 8, for user 100, hear of printing; the change is one of user 101.\<close>

theorem constraint_subscribers_told_witness:
  "\<exists>st ext. service_run (subs_step calm_listeners) (no_subs [])
      [(CSubscribe [''print''] 5 (Some 7), ERR_OK), (CSubscribeUser 100 [''print''] 6 (Some 8), ERR_OK), (CPublish 100 [''wifi''] True, ERR_OK)] st
    \<and> subs_rel st = {(7, ''print''), (8, ''print'')}
    \<and> cs_calls (Publish_constraints calm_listeners 101 [''print''] False st) = cs_calls st @ ext
    \<and> (7, (101, [''print''], False)) \<in> told ext \<and> (8, (101, [''print''], False)) \<notin> told ext"
proof -
  let ?E = calm_listeners let ?q1 = "CSubscribe [''print''] 5 (Some 7)" let ?q2 = "CSubscribeUser 100 [''print''] 6 (Some 8)"
  let ?q3 = "CPublish 100 [''wifi''] True"
  define st1 where "st1 = snd (run_subs ?E ?q1 (no_subs []))"
  define st2 where "st2 = snd (run_subs ?E ?q2 st1)"
  define st where "st = snd (run_subs ?E ?q3 st2)"
  have 1: "run_subs ?E ?q1 (no_subs []) = (ERR_OK, st1)" by (simp add: st1_def subs_eval)
  have 2: "run_subs ?E ?q2 st1 = (ERR_OK, st2)" by (simp add: st2_def st1_def subs_eval)
  have 3: "run_subs ?E ?q3 st2 = (ERR_OK, st)" by (simp add: st_def)
  have u: "map_of (userListenerMap st) = [8 \<mapsto> 100]"
    by (simp add: st_def Publish_constraints_def) (simp add: st2_def st1_def subs_eval)
  have l: "listens ?E 101 st 7" "\<not> listens ?E 101 st 8" by (simp_all add: listens_def calm_listeners_def u)
  note run = subs_run_three(1) [OF 1 2 3]
  note spec = constraint_subscribers_told [OF run]
  have rel: "subs_rel st = {(7, ''print''), (8, ''print'')}" 
    unfolding spec [THEN conjunct1] by (auto simp: now_wants_def)
  from spec [THEN conjunct2, rule_format, of 101 "[''print'']" False] obtain ext where
    ext: "cs_calls (Publish_constraints ?E 101 [''print''] False st) = cs_calls st @ ext"
      "{(l, (101, [''print''], False)) | l. listens ?E 101 st l \<and> (\<exists>c \<in> set [''print'']. (l, c) \<in> subs_rel st)} \<subseteq> told ext"
      "told ext \<subseteq> {(l, (101, [''print''], False)) | l. listens ?E 101 st l}" by blast
  have "(7, (101, [''print''], False)) \<in> told ext" using ext(2) l(1) rel by auto
  moreover have "(8, (101, [''print''], False)) \<notin> told ext" using ext(3) l(2) by auto
  ultimately show ?thesis using run rel ext(1) by blast
qed

text \<open>Listeners 7 and 8 hear of printing, and 7 gives it up.\<close>

theorem constraint_events_exact_witness:
  "\<exists>st ext. service_run (growing_step calm_listeners) (no_subs [])
      [(CSubscribe [''print''] 5 (Some 7), ERR_OK), (CSubscribe [''print''] 6 (Some 8), ERR_OK), (CUnsubscribe [''print''] (Some 7), ERR_OK)] st
    \<and> cs_calls (Publish_constraints calm_listeners 101 [''print''] False st) = cs_calls st @ ext
    \<and> told ext = {(8, (101, [''print''], False))}"
proof -
  let ?E = calm_listeners let ?q1 = "CSubscribe [''print''] 5 (Some 7)" let ?q2 = "CSubscribe [''print''] 6 (Some 8)"
  let ?q3 = "CUnsubscribe [''print''] (Some 7)"
  define st1 where "st1 = snd (run_subs ?E ?q1 (no_subs []))"
  define st2 where "st2 = snd (run_subs ?E ?q2 st1)"
  define st where "st = snd (run_subs ?E ?q3 st2)"
  have 1: "run_subs ?E ?q1 (no_subs []) = (ERR_OK, st1)" by (simp add: st1_def subs_eval)
  have 2: "run_subs ?E ?q2 st1 = (ERR_OK, st2)" by (simp add: st2_def st1_def subs_eval)
  have 3: "run_subs ?E ?q3 st2 = (ERR_OK, st)" by (simp add: st_def st2_def st1_def subs_eval)
  have g: "growing ?q1 (no_subs [])" "growing ?q2 st1" "growing ?q3 st2"
    by (simp_all add: keeps_own_def st1_def subs_eval)
  have u: "userListenerMap st = []" by (simp add: st_def st2_def st1_def subs_eval)
  have l: "listens ?E 101 st l" for l by (simp add: listens_def calm_listeners_def u)
  note run = subs_run_three(1) [OF 1 2 3] subs_run_three(2) [OF 1 2 3 g]
  have rel: "subs_rel st = {(8, ''print'')}"
    unfolding constraint_table.run_view [OF run(1) no_subs_good(2)] no_subs_good(3) by (auto simp: now_wants_def)
  from constraint_events_exact [OF run(2), of 101 "[''print'']" False] obtain ext where
    ext: "cs_calls (Publish_constraints ?E 101 [''print''] False st) = cs_calls st @ ext"
      "told ext = {(l, (101, [''print''], False)) | l. listens ?E 101 st l \<and> (\<exists>c \<in> set [''print'']. (l, c) \<in> subs_rel st)}" by blast
  have "told ext = {(8, (101, [''print''], False))}" unfolding ext(2) rel by (simp add: l)
  with run(2) ext(1) show ?thesis by blast
qed

theorem stale_constraint_subscription_witness:
  "\<exists>st1 st2 st3. SubscribeOsAccountConstraints [''print''] 5 (Some 7) (no_subs []) = (ERR_OK, st1)
    \<and> SubscribeOsAccountConstraints [''wifi''] 5 (Some 7) st1 = (ERR_OK, st2)
    \<and> UnsubscribeAllConstraints (Some 7) st2 = (ERR_OK, st3)
    \<and> (7, (100, [''print''], True)) \<in> told (cs_calls (Publish_constraints calm_listeners 100 [''print''] True st3))"
proof -
  obtain r1 st1 where 1: "SubscribeOsAccountConstraints [''print''] 5 (Some 7) (no_subs []) = (r1, st1)" by fastforce
  obtain r2 st2 where 2: "SubscribeOsAccountConstraints [''wifi''] 5 (Some 7) st1 = (r2, st2)" by fastforce
  obtain r3 st3 where 3: "UnsubscribeAllConstraints (Some 7) st2 = (r3, st3)" by fastforce
  have "find_record 7 (no_subs []) = None" "is_event_proxy calm_listeners 7" "''print'' \<noteq> ''wifi''"
    by (simp_all add: find_record_def no_subs_def calm_listeners_def)
  from stale_constraint_subscription [OF no_subs_good(2) this 1 2 3, of 100 True] 1 2 3 show ?thesis by blast
qed

end
