(* ===== verification/App_Account_Subscriptions.thy ===== *)
theory App_Account_Subscriptions
  imports App_Account_Queries Event_Subscriptions
begin

text \<open>
  The subscriptions to app accounts (\<open>services/accountmgr/src/appaccount/app_account_subscribe_manager.cpp\<close>). The records are shared
  between the vector of records and the multisets kept for each owner, so they live in a store and both hold their addresses;
  a record that was given up has the listener \<open>None\<close>. A change is published in the database of the control manager:
  each receiver is sent the accounts that it may see. \<open>threadUid\<close> is what the IPC layer gives as the calling
  user in the thread that publishes. The field \<open>subscribedAppIndex\<close>, which no one reads, is left out.
\<close>

record AppAccountSubscribeRecord =
  sr_owners :: "string list"
  sr_listener :: "listener option"
  sr_bundleName :: string
  sr_appIndex :: u32

type_synonym AppEvent = "AppAccountInfo list \<times> string"

record app_subs =
  as_store :: "nat \<Rightarrow> AppAccountSubscribeRecord"
  as_next :: nat
  ownerSubscribeRecords :: "(string, nat list) smap"
  app_records :: "nat list"
  as_calls :: "AppEvent calls"

definition owner_records :: "string \<Rightarrow> app_subs \<Rightarrow> nat list" where
  "owner_records owner s = (case map_of (ownerSubscribeRecords s) owner of None \<Rightarrow> [] | Some ps \<Rightarrow> ps)"

definition put_owner :: "string \<Rightarrow> nat list \<Rightarrow> app_subs \<Rightarrow> app_subs" where
  "put_owner owner ps s = s\<lparr>ownerSubscribeRecords := sm_put owner ps (ownerSubscribeRecords s)\<rparr>"

definition lose_listener :: "nat \<Rightarrow> app_subs \<Rightarrow> app_subs" where
  "lose_listener p s = s\<lparr>as_store := (as_store s)(p := (as_store s p)\<lparr>sr_listener := None\<rparr>)\<rparr>"

definition SetOwners :: "nat \<Rightarrow> string list \<Rightarrow> app_subs \<Rightarrow> app_subs" where
  "SetOwners p owners s = s\<lparr>as_store := (as_store s)(p := (as_store s p)\<lparr>sr_owners := owners\<rparr>)\<rparr>"

text \<open>The test of the loops that look for the record of a listener: records without one also fit.\<close>

definition fits :: "app_subs \<Rightarrow> listener \<Rightarrow> nat \<Rightarrow> bool" where
  "fits s l p \<longleftrightarrow> sr_listener (as_store s p) = Some l \<or> sr_listener (as_store s p) = None"

section \<open>Subscribing and unsubscribing\<close>

definition ClearOldData :: "listener \<Rightarrow> string \<Rightarrow> app_subs \<Rightarrow> app_subs" where
  "ClearOldData l owner s =
     (case List.find (fits s l) (owner_records owner s) of None \<Rightarrow> s
      | Some p \<Rightarrow> let s1 = lose_listener p s in put_owner owner (remove1 p (owner_records owner s1)) s1)"

definition insert_owner :: "listener \<Rightarrow> nat \<Rightarrow> string \<Rightarrow> app_subs \<Rightarrow> app_subs" where
  "insert_owner l p owner s =
     (case map_of (ownerSubscribeRecords s) owner of
        Some _ \<Rightarrow> let s1 = ClearOldData l owner s in put_owner owner (insort p (owner_records owner s1)) s1
      | None \<Rightarrow> put_owner owner [p] s)"

definition replace_record :: "listener \<Rightarrow> nat \<Rightarrow> app_subs \<Rightarrow> app_subs" where
  "replace_record l p s =
     (case List.find (fits s l) (app_records s) of
        None \<Rightarrow> s\<lparr>app_records := app_records s @ [p]\<rparr>
      | Some q \<Rightarrow> let s1 = lose_listener q s in s1\<lparr>app_records := remove1 q (app_records s1) @ [p]\<rparr>)"

text \<open>\<open>InsertSubscribeRecord\<close> on a record at the address \<open>p\<close> whose listener is \<open>l\<close>.\<close>

definition Insert_app_record :: "string list \<Rightarrow> listener \<Rightarrow> nat \<Rightarrow> app_subs \<Rightarrow> ErrCode \<times> app_subs" where
  "Insert_app_record owners l p s =
     (if owners = [] then (ERR_APPACCOUNT_SERVICE_OWNERS_SIZE_IS_ZERO, s)
      else (ERR_OK, replace_record l p (fold (insert_owner l p) owners s)))"

definition RefreshOldData :: "listener \<Rightarrow> string list \<Rightarrow> string list \<Rightarrow> string \<Rightarrow> app_subs \<Rightarrow> app_subs" where
  "RefreshOldData l ownerList newOwners owner s =
     (case List.find (fits s l) (owner_records owner s) of
        None \<Rightarrow> put_owner owner (owner_records owner s) s
      | Some p \<Rightarrow>
          if ownerList \<noteq> [] \<and> owner \<notin> set ownerList then SetOwners p newOwners (put_owner owner (owner_records owner s) s)
          else let s1 = lose_listener p s in put_owner owner (remove1 p (owner_records owner s1)) s1)"

definition refresh_owner :: "listener \<Rightarrow> string list \<Rightarrow> string list \<Rightarrow> string \<Rightarrow> app_subs \<Rightarrow> app_subs" where
  "refresh_owner l ownerList newOwners owner s =
     (let s1 = RefreshOldData l ownerList newOwners owner s in
      if owner_records owner s1 = [] then s1\<lparr>ownerSubscribeRecords := sm_erase owner (ownerSubscribeRecords s1)\<rparr> else s1)"

text \<open>\<open>std::set_difference\<close> of two sorted ranges.\<close>

fun set_difference :: "'a::linorder list \<Rightarrow> 'a list \<Rightarrow> 'a list" where
  "set_difference [] ys = []"
| "set_difference (x # xs) [] = x # xs"
| "set_difference (x # xs) (y # ys) =
     (if x < y then x # set_difference xs (y # ys)
      else if y < x then set_difference (x # xs) ys else set_difference xs ys)"

definition Remove_app_record :: "listener \<Rightarrow> string list \<Rightarrow> app_subs \<Rightarrow> ErrCode \<times> app_subs" where
  "Remove_app_record l ownerList s =
     (case List.find (\<lambda>p. sr_listener (as_store s p) = Some l) (app_records s) of
        None \<Rightarrow> (ERR_OK, s)
      | Some p \<Rightarrow>
          if ownerList \<noteq> []
          then let owners = sort (sr_owners (as_store s p)); ownerList = sort ownerList;
                   newOwners = set_difference owners ownerList in
               (ERR_OK, fold (refresh_owner l ownerList newOwners) owners (SetOwners p newOwners s))
          else (ERR_OK, fold (refresh_owner l [] []) (sr_owners (as_store s p)) (s\<lparr>app_records := remove1 p (app_records s)\<rparr>)))"

definition UnsubscribeAppAccount :: "listener option \<Rightarrow> string list \<Rightarrow> app_subs \<Rightarrow> ErrCode \<times> app_subs" where
  "UnsubscribeAppAccount eventListener owners s =
     (case eventListener of None \<Rightarrow> (ERR_ACCOUNT_COMMON_NULL_PTR_ERROR, s) | Some l \<Rightarrow> Remove_app_record l owners s)"

definition CheckOwnersAccessible :: "string list \<Rightarrow> string \<Rightarrow> string list \<Rightarrow> ErrCode" where
  "CheckOwnersAccessible owners bundleKey accessibleAccounts =
     (if list_all (\<lambda>owner. owner = bundleKey \<or> list_ex (starts_with owner) accessibleAccounts) owners then ERR_OK
      else ERR_ACCOUNT_COMMON_PERMISSION_DENIED)"

definition CheckAppAccess_subs ::
  "'z app_env_scheme \<Rightarrow> string list \<Rightarrow> nat \<Rightarrow> string \<Rightarrow> u32 \<Rightarrow> 'w app_ctl_scheme \<Rightarrow> ErrCode \<times> 'w app_ctl_scheme" where
  "CheckAppAccess_subs E owners uid bundleName appIndex st =
     (let bundleKey = EncodeAuthorizedApp E bundleName appIndex;
          ((ret, accessibleAccounts), st1) = GetAccessibleAccountsFromDataStorage E (GetDataStorage uid False) bundleKey st in
      if ret \<noteq> ERR_OK then (ret, st1) else (CheckOwnersAccessible owners bundleKey accessibleAccounts, st1))"

text \<open>\<open>subscribeInfoPtr\<close> is the list of owners; \<open>None\<close> is \<open>nullptr\<close>.\<close>

definition SubscribeAppAccount ::
  "'z app_env_scheme \<Rightarrow> string list option \<Rightarrow> listener option \<Rightarrow> nat \<Rightarrow> string \<Rightarrow> u32 \<Rightarrow> app_subs \<times> 'w app_ctl_scheme
     \<Rightarrow> ErrCode \<times> app_subs \<times> 'w app_ctl_scheme" where
  "SubscribeAppAccount E subscribeInfoPtr eventListener uid bundleName appIndex ss =
     (case subscribeInfoPtr of None \<Rightarrow> (ERR_ACCOUNT_COMMON_NULL_PTR_ERROR, ss)
      | Some owners \<Rightarrow> (case eventListener of None \<Rightarrow> (ERR_ACCOUNT_COMMON_NULL_PTR_ERROR, ss)
        | Some l \<Rightarrow>
            if owners = [] then (ERR_APPACCOUNT_SERVICE_OWNERS_SIZE_IS_ZERO, ss)
            else let (s, st) = ss; (result, st1) = CheckAppAccess_subs E owners uid bundleName appIndex st in
                 if result \<noteq> ERR_OK then (result, s, st1)
                 else let p = as_next s;
                          record = \<lparr>sr_owners = owners, sr_listener = Some l, sr_bundleName = bundleName, sr_appIndex = appIndex\<rparr>;
                          (r, s1) = Insert_app_record owners l p (s\<lparr>as_store := (as_store s)(p := record), as_next := Suc p\<rparr>) in
                      (r, s1, st1)))"

section \<open>Publishing\<close>

fun GetSubscribeRecords_loop :: "app_subs \<Rightarrow> string \<Rightarrow> nat list \<Rightarrow> nat list" where
  "GetSubscribeRecords_loop s owner [] = []"
| "GetSubscribeRecords_loop s owner (p # ps) =
     (if owner \<notin> set (sr_owners (as_store s p)) then [] else p # GetSubscribeRecords_loop s owner ps)"

definition GetSubscribeRecords :: "string \<Rightarrow> app_subs \<Rightarrow> nat list" where
  "GetSubscribeRecords owner s = GetSubscribeRecords_loop s owner (owner_records owner s)"

definition IsReceiverAuthorizedApp :: "'z app_env_scheme \<Rightarrow> AppAccountInfo \<Rightarrow> AppAccountSubscribeRecord \<Rightarrow> bool" where
  "IsReceiverAuthorizedApp E info receiver = snd (CheckAppAccess (EncodeAuthorizedApp E (sr_bundleName receiver) (sr_appIndex receiver)) info)"

definition GetAccessibleAccountsBySubscribeInfo ::
  "'z app_env_scheme \<Rightarrow> string list \<Rightarrow> AppAccountInfo list \<Rightarrow> AppAccountInfo list" where
  "GetAccessibleAccountsBySubscribeInfo E owners accessibleAccounts =
     filter (\<lambda>a. EncodeAuthorizedApp E (ai_owner a) (ai_appIndex a) \<in> set owners) accessibleAccounts"

fun SendAppNotify :: "event_env \<Rightarrow> listener \<Rightarrow> AppEvent \<Rightarrow> nat \<Rightarrow> AppEvent calls \<Rightarrow> AppEvent calls" where
  "SendAppNotify V l e 0 log = log"
| "SendAppNotify V l e (Suc n) log =
     (let errCode = notify V l (length log); log = log @ [(l, e, errCode)] in
      if errCode \<noteq> BR_FAILED_REPLY then log else SendAppNotify V l e n log)"

fun notify_receivers ::
  "'z app_env_scheme \<Rightarrow> event_env \<Rightarrow> AppAccountInfo \<Rightarrow> string \<Rightarrow> nat \<Rightarrow> app_subs \<Rightarrow> nat list \<Rightarrow> AppEvent calls \<times> 'w app_ctl_scheme
     \<Rightarrow> ErrCode \<times> AppEvent calls \<times> 'w app_ctl_scheme" where
  "notify_receivers E V info ds threadUid s [] ls = (ERR_OK, ls)"
| "notify_receivers E V info ds threadUid s (p # ps) ls =
     (let receiver = as_store s p; (log, st) = ls in
      if \<not> IsReceiverAuthorizedApp E info receiver \<and> sr_bundleName receiver \<noteq> ai_owner info
      then notify_receivers E V info ds threadUid s ps ls
      else let ((result, accessibleAccounts), st1) = GetAllAccessibleAccountsFromDataStorage E (sr_bundleName receiver) threadUid ds
                 (sr_appIndex receiver) st in
           if result \<noteq> ERR_OK then (result, log, st1)
           else let appAccounts = GetAccessibleAccountsBySubscribeInfo E (sr_owners receiver) accessibleAccounts;
                    log1 = (case sr_listener receiver of None \<Rightarrow> log
                      | Some l \<Rightarrow> if \<not> is_event_proxy V l then log
                          else SendAppNotify V l (appAccounts, ai_owner info) EVENT_RETRY_TIMES log) in
                notify_receivers E V info ds threadUid s ps (log1, st1))"

definition App_OnAccountsChanged ::
  "'z app_env_scheme \<Rightarrow> event_env \<Rightarrow> AppAccountInfo \<Rightarrow> nat list \<Rightarrow> nat \<Rightarrow> nat \<Rightarrow> app_subs \<times> 'w app_ctl_scheme
     \<Rightarrow> ErrCode \<times> app_subs \<times> 'w app_ctl_scheme" where
  "App_OnAccountsChanged E V info receivers uid threadUid ss =
     (let (s, st) = ss; (r, log, st1) = notify_receivers E V info (GetDataStorage uid False) threadUid s receivers (as_calls s, st) in
      (r, s\<lparr>as_calls := log\<rparr>, st1))"

definition PublishAccount ::
  "'z app_env_scheme \<Rightarrow> event_env \<Rightarrow> AppAccountInfo \<Rightarrow> nat \<Rightarrow> string \<Rightarrow> nat \<Rightarrow> app_subs \<times> 'w app_ctl_scheme
     \<Rightarrow> bool \<times> app_subs \<times> 'w app_ctl_scheme" where
  "PublishAccount E V info uid bundleName threadUid ss =
     (let bundleKey = EncodeAuthorizedApp E bundleName (ai_appIndex info);
          (_, ss1) = App_OnAccountsChanged E V info (GetSubscribeRecords bundleKey (fst ss)) uid threadUid ss in (True, ss1))"

section \<open>Who is told, and of what\<close>

definition bundle_ok :: "string \<Rightarrow> bool" where
  "bundle_ok b \<longleftrightarrow> b \<noteq> [] \<and> nul_free b \<and> CHR ''#'' \<notin> set b"

definition authorized_receiver :: "'z app_env_scheme \<Rightarrow> AppAccountInfo \<Rightarrow> AppAccountSubscribeRecord \<Rightarrow> bool" where
  "authorized_receiver E info r \<longleftrightarrow> EncodeAuthorizedApp E (sr_bundleName r) (sr_appIndex r) \<in> set (ai_authorizedApps info) \<or> sr_bundleName r = ai_owner info"

text \<open>The accounts a subscriber may see: those given to it, of a visible clone, and its own.\<close>

definition receiver_view :: "'z app_env_scheme \<Rightarrow> accounts \<Rightarrow> nat \<Rightarrow> AppAccountSubscribeRecord \<Rightarrow> AppAccountInfo set" where
  "receiver_view E M threadUid r =
     {a. (\<exists>k. M k = Some a) \<and> EncodeAuthorizedApp E (ai_owner a) (ai_appIndex a) \<in> set (sr_owners r)
        \<and> (EncodeAuthorizedApp E (sr_bundleName r) (sr_appIndex r) \<in> set (ai_authorizedApps a)
             \<and> IsAppIndexVisibleToCaller E (ai_owner a) (threadUid div UID_TRANSFORM_DIVISOR) (sr_appIndex r) (ai_appIndex a) False
           \<or> ai_owner a = sr_bundleName r \<and> starts_with (to_string_u32 (sr_appIndex r)) (to_string_u32 (ai_appIndex a)))}"

lemma encode_app_ok: "bundle_ok b \<Longrightarrow> app_ok (EncodeAuthorizedApp E b i)"
  by (auto simp: bundle_ok_def app_ok_def EncodeAuthorizedApp_def nul_free_to_string)

lemma filter_accessible_entries [simp]: "kv_entries (snd (filter_accessible E ids owner i uid ds st)) = kv_entries st"
  by (induction ids arbitrary: st) (auto simp: split_beta Let_def)

lemma all_accessible_ok:
  assumes ok: "kv_ok E" "cjson_ok E" and db: "app_db E M (kv_entries st ds)" and b: "bundle_ok b"
  obtains infos st1 where "GetAllAccessibleAccountsFromDataStorage E b uid ds i st = ((ERR_OK, infos), st1)" "kv_entries st1 = kv_entries st"
    "set infos = {a. (\<exists>k. M k = Some a) \<and> (EncodeAuthorizedApp E b i \<in> set (ai_authorizedApps a)
         \<and> IsAppIndexVisibleToCaller E (ai_owner a) (uid div UID_TRANSFORM_DIVISOR) i (ai_appIndex a) False
       \<or> ai_owner a = b \<and> starts_with (to_string_u32 i) (to_string_u32 (ai_appIndex a)))}"
proof -
  let ?app = "EncodeAuthorizedApp E b i"
  let ?P = "\<lambda>a. IsAppIndexVisibleToCaller E (ai_owner a) (uid div UID_TRANSFORM_DIVISOR) i (ai_appIndex a) False"
  obtain ids where ids: "fst (GetAccessibleAccountsFromDataStorage E ds ?app st) = (ERR_OK, ids)" "distinct ids" "set ids = granted M ?app"
    "kv_entries (snd (GetAccessibleAccountsFromDataStorage E ds ?app st)) = kv_entries st"
    by (rule accessible_ids_ok [OF ok db encode_app_ok [OF b]])
  obtain st1 where st1: "GetAccessibleAccountsFromDataStorage E ds ?app st = ((ERR_OK, ids), st1)" "kv_entries st1 = kv_entries st"
    using ids(1,4) by (cases "GetAccessibleAccountsFromDataStorage E ds ?app st") simp
  have s1: "stored E M (kv_entries st1 ds)" using db st1(2) by (simp add: app_db_def)
  have "\<forall>k \<in> set ids. M k \<noteq> None" using ids(3) by (auto simp: granted_def)
  note f = filter_accessible_ok [OF ok s1 this, of None i uid]
  obtain st2 where st2: "filter_accessible E ids None i uid ds st1 = (Inr (filter ?P (map (\<lambda>k. the (M k)) ids)), st2)" "kv_entries st2 = kv_entries st1"
    using f filter_accessible_entries [of E ids None i uid ds st1] by (cases "filter_accessible E ids None i uid ds st1") simp
  have s2: "stored E M (kv_entries st2 ds)" using s1 st2(2) by simp
  have h: "CHR ''#'' \<notin> set b" using b by (simp add: bundle_ok_def)
  obtain own where own: "fst (GetAllAccountsFromDataStorage E (owner_key b i) ds st2) = (ERR_OK, own)"
    "listed M (\<lambda>a. ai_owner a = b \<and> starts_with (to_string_u32 i) (to_string_u32 (ai_appIndex a))) own"
    using owner_list_ok [OF ok s2 h] by blast
  obtain st3 where st3: "GetAllAccountsFromDataStorage E (owner_key b i) ds st2 = ((ERR_OK, own), st3)"
    using own(1) by (cases "GetAllAccountsFromDataStorage E (owner_key b i) ds st2") simp
  have "CHR ''#'' \<in> set (owner_key b i)" by (simp add: owner_key_def)
  note q = fuzzy_query_ok(2) [OF ok s2 this]
  have "kv_entries (snd (GetAllAccountsFromDataStorage E (owner_key b i) ds st2)) = kv_entries st2"
    by (simp add: GetAllAccountsFromDataStorage_def split_beta Let_def q)
  then have "kv_entries st3 = kv_entries st2" by (simp add: st3)
  moreover have "listed M (\<lambda>a. ?app \<in> set (ai_authorizedApps a) \<and> ?P a) (filter ?P (map (\<lambda>k. the (M k)) ids))"
    using granted_listed [OF s1 ids(2,3)] .
  moreover have "GetAllAccessibleAccountsFromDataStorage E b uid ds i st = ((ERR_OK, filter ?P (map (\<lambda>k. the (M k)) ids) @ own), st3)"
    by (simp add: GetAllAccessibleAccountsFromDataStorage_def st1(1) FilterAccessibleAccounts_def st2(1) st3)
  ultimately show ?thesis using that own(2) st1(2) st2(2) by (auto simp: listed_def)
qed

lemma SendAppNotify_log:
  "\<exists>ext. SendAppNotify V l e n log = log @ ext \<and> (\<forall>c \<in> set ext. fst c = l \<and> fst (snd c) = e) \<and> (0 < n \<longrightarrow> ext \<noteq> [])"
proof (induction n arbitrary: log)
  case (Suc n)
  from Suc.IH [of "log @ [(l, e, notify V l (length log))]"] show ?case by (auto simp: Let_def)
qed simp

lemma SendAppNotify_told: "\<exists>ext. SendAppNotify V l e EVENT_RETRY_TIMES log = log @ ext \<and> told ext = {(l, e)}"
proof -
  obtain ext where ext: "SendAppNotify V l e EVENT_RETRY_TIMES log = log @ ext" "\<forall>c \<in> set ext. fst c = l \<and> fst (snd c) = e" "ext \<noteq> []"
    using SendAppNotify_log [of V l e EVENT_RETRY_TIMES log] by (auto simp: EVENT_RETRY_TIMES_def)
  then have "told ext = {(l, e)}" by (cases ext) (force simp: told_def)+
  with ext(1) show ?thesis by blast
qed

text \<open>A log without the order of the accounts in it.\<close>

definition told_sets :: "AppEvent calls \<Rightarrow> (listener \<times> AppAccountInfo set \<times> string) set" where
  "told_sets log = (\<lambda>(l, as, o'). (l, set as, o')) ` told log"

lemma told_sets_simps [simp]: "told_sets [] = {}" "told_sets (log @ log') = told_sets log \<union> told_sets log'"
  by (simp_all add: told_sets_def image_Un)

lemma notify_receivers_told:
  assumes ok: "kv_ok E" "cjson_ok E"
  shows "app_db E M (kv_entries st ds) \<Longrightarrow> \<forall>p \<in> set ps. bundle_ok (sr_bundleName (as_store s p))
    \<Longrightarrow> \<exists>ext st'. notify_receivers E V info ds threadUid s ps (log, st) = (ERR_OK, log @ ext, st')
      \<and> told_sets ext = {(l, receiver_view E M threadUid (as_store s p), ai_owner info) | l p. p \<in> set ps
            \<and> sr_listener (as_store s p) = Some l \<and> is_event_proxy V l \<and> authorized_receiver E info (as_store s p)}"
proof (induction ps arbitrary: log st)
  case (Cons p ps)
  let ?r = "as_store s p"
  have rest: "\<forall>p \<in> set ps. bundle_ok (sr_bundleName (as_store s p))" using Cons.prems(2) by simp
  show ?case
  proof (cases "authorized_receiver E info ?r")
    case False
    have "notify_receivers E V info ds threadUid s (p # ps) (log, st) = notify_receivers E V info ds threadUid s ps (log, st)"
      using False by (simp add: authorized_receiver_def IsReceiverAuthorizedApp_def CheckAppAccess_def)
    moreover have "{(l, receiver_view E M threadUid (as_store s q), ai_owner info) | l q. q \<in> set (p # ps)
            \<and> sr_listener (as_store s q) = Some l \<and> is_event_proxy V l \<and> authorized_receiver E info (as_store s q)}
        = {(l, receiver_view E M threadUid (as_store s q), ai_owner info) | l q. q \<in> set ps
            \<and> sr_listener (as_store s q) = Some l \<and> is_event_proxy V l \<and> authorized_receiver E info (as_store s q)}"
      using False by auto
    ultimately show ?thesis using Cons.IH [OF Cons.prems(1) rest, of log] by (simp only:)
  next
    case True
    obtain infos st1 where a: "GetAllAccessibleAccountsFromDataStorage E (sr_bundleName ?r) threadUid ds (sr_appIndex ?r) st = ((ERR_OK, infos), st1)"
      "kv_entries st1 = kv_entries st"
      "set infos = {a. (\<exists>k. M k = Some a) \<and> (EncodeAuthorizedApp E (sr_bundleName ?r) (sr_appIndex ?r) \<in> set (ai_authorizedApps a)
           \<and> IsAppIndexVisibleToCaller E (ai_owner a) (threadUid div UID_TRANSFORM_DIVISOR) (sr_appIndex ?r) (ai_appIndex a) False
         \<or> ai_owner a = sr_bundleName ?r \<and> starts_with (to_string_u32 (sr_appIndex ?r)) (to_string_u32 (ai_appIndex a)))}"
      using Cons.prems(2) by (auto intro: all_accessible_ok [OF ok Cons.prems(1), of "sr_bundleName ?r" threadUid "sr_appIndex ?r"])
    let ?as = "GetAccessibleAccountsBySubscribeInfo E (sr_owners ?r) infos"
    have v: "set ?as = receiver_view E M threadUid ?r"
      unfolding receiver_view_def GetAccessibleAccountsBySubscribeInfo_def set_filter a(3) by blast
    have db1: "app_db E M (kv_entries st1 ds)" using Cons.prems(1) a(2) by simp
    let ?one = "{(l, receiver_view E M threadUid ?r, ai_owner info) | l. sr_listener ?r = Some l \<and> is_event_proxy V l}"
    obtain ext1 where e1: "(case sr_listener ?r of None \<Rightarrow> log | Some l \<Rightarrow> if \<not> is_event_proxy V l then log
        else SendAppNotify V l (?as, ai_owner info) EVENT_RETRY_TIMES log) = log @ ext1" "told_sets ext1 = ?one"
    proof (cases "\<exists>l. sr_listener ?r = Some l \<and> is_event_proxy V l")
      case True
      then obtain l where l: "sr_listener ?r = Some l" "is_event_proxy V l" by blast
      obtain ext where "SendAppNotify V l (?as, ai_owner info) EVENT_RETRY_TIMES log = log @ ext" "told ext = {(l, (?as, ai_owner info))}"
        using SendAppNotify_told by blast
      with l show ?thesis by (intro that [of ext]) (auto simp: told_sets_def v)
    next
      case False
      then show ?thesis by (intro that [of "[]"]) (auto split: option.split)
    qed
    obtain ext2 st2 where e2: "notify_receivers E V info ds threadUid s ps (log @ ext1, st1) = (ERR_OK, (log @ ext1) @ ext2, st2)"
      "told_sets ext2 = {(l, receiver_view E M threadUid (as_store s p), ai_owner info) | l p. p \<in> set ps
            \<and> sr_listener (as_store s p) = Some l \<and> is_event_proxy V l \<and> authorized_receiver E info (as_store s p)}"
      using Cons.IH [OF db1 rest, of "log @ ext1"] by blast
    have "\<not> (\<not> IsReceiverAuthorizedApp E info ?r \<and> sr_bundleName ?r \<noteq> ai_owner info)"
      using True by (auto simp: authorized_receiver_def IsReceiverAuthorizedApp_def CheckAppAccess_def)
    then have "notify_receivers E V info ds threadUid s (p # ps) (log, st) = (ERR_OK, log @ (ext1 @ ext2), st2)"
      by (simp add: a(1) e1(1) e2(1) Let_def del: de_Morgan_conj)
    moreover have "told_sets (ext1 @ ext2) = {(l, receiver_view E M threadUid (as_store s q), ai_owner info) | l q. q \<in> set (p # ps)
            \<and> sr_listener (as_store s q) = Some l \<and> is_event_proxy V l \<and> authorized_receiver E info (as_store s q)}"
      unfolding told_sets_simps e1(2) e2(2) using True by auto
    ultimately show ?thesis by blast
  qed
qed simp

text \<open>C14 (safety). Whatever the table of subscriptions looks like, a change of an account is told to the subscribers of its application that
  own it or that it was given to, and to nobody else; each is sent just the accounts that it subscribed to and
  may see: those given to it, of a visible clone, and its own.\<close>

theorem app_events_keep_secrets:
  assumes "kv_ok E" and "cjson_ok E" and "app_db E M (kv_entries st (GetDataStorage uid False))"
    and "\<forall>p \<in> set (GetSubscribeRecords (EncodeAuthorizedApp E bundleName (ai_appIndex info)) s). bundle_ok (sr_bundleName (as_store s p))"
    and "PublishAccount E V info uid bundleName threadUid (s, st) = (b, s', st')"
  shows "\<exists>log. as_calls s' = as_calls s @ log
    \<and> told_sets log = {(l, receiver_view E M threadUid (as_store s p), ai_owner info) | l p.
         p \<in> set (GetSubscribeRecords (EncodeAuthorizedApp E bundleName (ai_appIndex info)) s)
         \<and> sr_listener (as_store s p) = Some l \<and> is_event_proxy V l \<and> authorized_receiver E info (as_store s p)}"
  using notify_receivers_told [OF assms(1-4), of V info threadUid "as_calls s"] assms(5)
  by (auto simp: PublishAccount_def App_OnAccountsChanged_def Let_def)

section \<open>The table\<close>

lemma put_owner_view [simp]:
  "owner_records o' (put_owner o1 ps s) = (if o' = o1 then ps else owner_records o' s)" "as_store (put_owner o1 ps s) = as_store s"
  "app_records (put_owner o1 ps s) = app_records s" "as_next (put_owner o1 ps s) = as_next s" "as_calls (put_owner o1 ps s) = as_calls s"
  by (simp_all add: put_owner_def owner_records_def)

lemma lose_listener_view [simp]:
  "owner_records o' (lose_listener p s) = owner_records o' s" "sr_owners (as_store (lose_listener p s) q) = sr_owners (as_store s q)"
  "sr_bundleName (as_store (lose_listener p s) q) = sr_bundleName (as_store s q)"
  "sr_listener (as_store (lose_listener p s) q) = (if q = p then None else sr_listener (as_store s q))"
  "app_records (lose_listener p s) = app_records s" "as_next (lose_listener p s) = as_next s" "as_calls (lose_listener p s) = as_calls s"
  by (simp_all add: lose_listener_def owner_records_def)

lemma owner_records_other [simp]:
  "owner_records o' (s\<lparr>app_records := ps\<rparr>) = owner_records o' s" "owner_records o' (s\<lparr>as_calls := cs\<rparr>) = owner_records o' s"
  "owner_records o' (s\<lparr>as_store := m, as_next := n\<rparr>) = owner_records o' s"
  by (simp_all add: owner_records_def)

lemma owner_records_erase:
  "owner_records o' (s\<lparr>ownerSubscribeRecords := sm_erase o1 (ownerSubscribeRecords s)\<rparr>) = (if o' = o1 then [] else owner_records o' s)"
  by (simp add: owner_records_def)

text \<open>Only records of the listener \<open>l\<close>, and those that have no listener, are given up.\<close>

definition store_kept :: "listener \<Rightarrow> app_subs \<Rightarrow> app_subs \<Rightarrow> bool" where
  "store_kept l s s' \<longleftrightarrow> app_records s' = app_records s \<and> as_next s' = as_next s \<and> as_calls s' = as_calls s
     \<and> (\<forall>q. sr_owners (as_store s' q) = sr_owners (as_store s q) \<and> sr_bundleName (as_store s' q) = sr_bundleName (as_store s q)
         \<and> (sr_listener (as_store s' q) = sr_listener (as_store s q) \<or> fits s l q \<and> sr_listener (as_store s' q) = None))"

definition lists_kept :: "listener \<Rightarrow> app_subs \<Rightarrow> app_subs \<Rightarrow> bool" where
  "lists_kept l s s' \<longleftrightarrow> (\<forall>o1. set (owner_records o1 s') \<subseteq> set (owner_records o1 s))
     \<and> (\<forall>o1. \<forall>q \<in> set (owner_records o1 s). \<not> fits s l q \<longrightarrow> q \<in> set (owner_records o1 s'))"

definition gives_up :: "listener \<Rightarrow> app_subs \<Rightarrow> app_subs \<Rightarrow> bool" where
  "gives_up l s s' \<longleftrightarrow> store_kept l s s' \<and> lists_kept l s s'"

lemma gives_up_refl: "gives_up l s s"
  by (simp add: gives_up_def store_kept_def lists_kept_def)

lemma store_kept_fits: "store_kept l s s' \<Longrightarrow> fits s' l q \<Longrightarrow> fits s l q"
  unfolding store_kept_def fits_def by metis

lemma store_kept_trans: "store_kept l s s1 \<Longrightarrow> store_kept l s1 s2 \<Longrightarrow> store_kept l s s2"
  using store_kept_fits [of l s s1] unfolding store_kept_def by metis

lemma gives_up_trans:
  assumes "gives_up l s s1" and "gives_up l s1 s2"
  shows "gives_up l s s2"
proof -
  have "store_kept l s s1" "store_kept l s1 s2" using assms by (simp_all add: gives_up_def)
  moreover have "lists_kept l s s2"
    using assms store_kept_fits [of l s s1] unfolding gives_up_def lists_kept_def by blast
  ultimately show ?thesis using store_kept_trans by (simp add: gives_up_def)
qed

lemma find_fits: "List.find P xs = Some x \<Longrightarrow> x \<in> set xs \<and> P x"
  by (auto simp: find_Some_iff)

lemma drop_first_gives_up:
  assumes "fits s l p"
  shows "gives_up l s (put_owner o1 (remove1 p (owner_records o1 s)) (lose_listener p s))"
proof -
  have "q \<in> set (remove1 p xs)" if "q \<in> set xs" "\<not> fits s l q" for q xs
    using that assms by (cases "q = p") auto
  moreover have "set (remove1 p xs) \<subseteq> set xs" for xs by (rule set_remove1_subset)
  ultimately show ?thesis using assms by (auto simp: gives_up_def store_kept_def lists_kept_def)
qed

lemma ClearOldData_gives_up: "gives_up l s (ClearOldData l o1 s)"
  by (auto simp: ClearOldData_def Let_def gives_up_refl dest: find_fits intro: drop_first_gives_up split: option.split)

lemma ClearOldData_other:
  "o' \<noteq> o1 \<Longrightarrow> owner_records o' (ClearOldData l o1 s) = owner_records o' s"
  "q \<notin> set (owner_records o1 s) \<Longrightarrow> as_store (ClearOldData l o1 s) q = as_store s q"
proof -
  show "o' \<noteq> o1 \<Longrightarrow> owner_records o' (ClearOldData l o1 s) = owner_records o' s"
    by (auto simp: ClearOldData_def Let_def split: option.split)
  show "q \<notin> set (owner_records o1 s) \<Longrightarrow> as_store (ClearOldData l o1 s) q = as_store s q"
    using find_fits [of "fits s l" "owner_records o1 s"]
    by (auto simp: ClearOldData_def Let_def lose_listener_def split: option.split)
qed

lemma RefreshOldData_gives_up: "gives_up l s (RefreshOldData l [] [] o1 s)"
proof (cases "List.find (fits s l) (owner_records o1 s)")
  case None
  then show ?thesis by (simp add: RefreshOldData_def gives_up_def store_kept_def lists_kept_def)
next
  case (Some p)
  with drop_first_gives_up find_fits [OF Some] show ?thesis by (simp add: RefreshOldData_def Let_def)
qed

lemma refresh_all_gives_up: "gives_up l s (refresh_owner l [] [] o1 s)"
proof -
  have "gives_up l s1 (s1\<lparr>ownerSubscribeRecords := sm_erase o1 (ownerSubscribeRecords s1)\<rparr>)" if "owner_records o1 s1 = []" for s1
    using that by (simp add: gives_up_def store_kept_def lists_kept_def owner_records_erase fits_def)
  from this [of "RefreshOldData l [] [] o1 s"] gives_up_trans [OF RefreshOldData_gives_up [of l s o1]] RefreshOldData_gives_up [of l s o1]
  show ?thesis by (simp add: refresh_owner_def Let_def)
qed

lemma refresh_fold_gives_up: "gives_up l s (fold (refresh_owner l [] []) os s)"
  by (induction os arbitrary: s) (auto intro: gives_up_refl gives_up_trans refresh_all_gives_up)

lemma insert_owner_store: "as_store (insert_owner l p o1 s) = as_store (ClearOldData l o1 s)"
  by (auto simp: insert_owner_def Let_def ClearOldData_def owner_records_def split: option.split)

lemma insert_owner_view:
  assumes "s' = insert_owner l p o1 s"
  shows "app_records s' = app_records s" "as_next s' = as_next s" "as_calls s' = as_calls s"
    "o' \<noteq> o1 \<Longrightarrow> owner_records o' s' = owner_records o' s" "set (owner_records o1 s') = insert p (set (owner_records o1 (ClearOldData l o1 s)))"
proof -
  have c: "app_records (ClearOldData l o1 s) = app_records s" "as_next (ClearOldData l o1 s) = as_next s" "as_calls (ClearOldData l o1 s) = as_calls s"
    using ClearOldData_gives_up [of l s o1] by (simp_all add: gives_up_def store_kept_def)
  show "app_records s' = app_records s" "as_next s' = as_next s" "as_calls s' = as_calls s"
    "o' \<noteq> o1 \<Longrightarrow> owner_records o' s' = owner_records o' s"
    using assms c by (auto simp: insert_owner_def Let_def ClearOldData_other(1) split: option.splits)
  show "set (owner_records o1 s') = insert p (set (owner_records o1 (ClearOldData l o1 s)))"
  proof (cases "map_of (ownerSubscribeRecords s) o1")
    case None
    then have "owner_records o1 s = []" by (simp add: owner_records_def)
    with None show ?thesis by (simp add: assms insert_owner_def ClearOldData_def)
  next
    case (Some ps)
    then show ?thesis by (simp add: assms insert_owner_def Let_def set_insort_key)
  qed
qed

text \<open>Inserting the new record \<open>p\<close>, which is in no list yet, under its owners.\<close>

definition entered :: "listener \<Rightarrow> nat \<Rightarrow> string set \<Rightarrow> app_subs \<Rightarrow> app_subs \<Rightarrow> bool" where
  "entered l p os s s' \<longleftrightarrow> store_kept l s s' \<and> as_store s' p = as_store s p
     \<and> (\<forall>o1. o1 \<notin> os \<longrightarrow> owner_records o1 s' = owner_records o1 s)
     \<and> (\<forall>o1 \<in> os. p \<in> set (owner_records o1 s') \<and> set (owner_records o1 s') \<subseteq> insert p (set (owner_records o1 s))
         \<and> (\<forall>q \<in> set (owner_records o1 s). \<not> fits s l q \<longrightarrow> q \<in> set (owner_records o1 s')))"

lemma insert_owner_entered:
  assumes "p \<notin> set (owner_records o1 s)"
  shows "entered l p {o1} s (insert_owner l p o1 s)"
proof -
  note v = insert_owner_view [OF refl, where l = l and p = p and ?o1.0 = o1 and s = s]
  have g: "store_kept l s (ClearOldData l o1 s)" "lists_kept l s (ClearOldData l o1 s)"
    using ClearOldData_gives_up [of l s o1] by (simp_all add: gives_up_def)
  have "store_kept l s (insert_owner l p o1 s)" using g(1) v(1-3) by (simp add: store_kept_def insert_owner_store)
  moreover have "as_store (insert_owner l p o1 s) p = as_store s p"
    using ClearOldData_other(2) [OF assms] by (simp add: insert_owner_store)
  ultimately show ?thesis using g(2) v(4,5) unfolding entered_def lists_kept_def by auto
qed

lemma entered_trans:
  assumes "entered l p os s s1" and "entered l p os' s1 s2" and "os \<inter> os' = {}"
  shows "entered l p (os \<union> os') s s2"
proof -
  have k: "store_kept l s s1" "store_kept l s1 s2" using assms(1,2) by (simp_all add: entered_def)
  have f: "\<not> fits s l q \<Longrightarrow> \<not> fits s1 l q" for q using store_kept_fits [OF k(1)] by blast
  have "p \<in> set (owner_records o1 s2) \<and> set (owner_records o1 s2) \<subseteq> insert p (set (owner_records o1 s))
         \<and> (\<forall>q \<in> set (owner_records o1 s). \<not> fits s l q \<longrightarrow> q \<in> set (owner_records o1 s2))" if "o1 \<in> os \<union> os'" for o1
  proof (cases "o1 \<in> os")
    case True
    then have "o1 \<notin> os'" using assms(3) by blast
    then have "owner_records o1 s2 = owner_records o1 s1" using assms(2) by (simp add: entered_def)
    with True assms(1) show ?thesis by (simp add: entered_def)
  next
    case False
    then have "owner_records o1 s1 = owner_records o1 s" "o1 \<in> os'" using assms(1) that by (simp_all add: entered_def)
    with assms(2) f show ?thesis unfolding entered_def by (metis (no_types, lifting))
  qed
  with store_kept_trans [OF k] assms(1,2) show ?thesis unfolding entered_def by simp
qed

lemma insert_fold_entered:
  "distinct os \<Longrightarrow> \<forall>o1 \<in> set os. p \<notin> set (owner_records o1 s) \<Longrightarrow> entered l p (set os) s (fold (insert_owner l p) os s)"
proof (induction os arbitrary: s)
  case Nil
  then show ?case by (simp add: entered_def store_kept_def)
next
  case (Cons o1 os)
  have 1: "entered l p {o1} s (insert_owner l p o1 s)" using Cons.prems(2) by (intro insert_owner_entered) simp
  have "owner_records o2 (insert_owner l p o1 s) = owner_records o2 s" if "o2 \<in> set os" for o2
    using that Cons.prems(1) insert_owner_view(4) [OF refl, of o2 o1] by auto
  then have "entered l p (set os) (insert_owner l p o1 s) (fold (insert_owner l p) os (insert_owner l p o1 s))"
    using Cons.prems by (intro Cons.IH) auto
  from entered_trans [OF 1 this] Cons.prems(1) show ?case by simp
qed

text \<open>The table between requests: every record stands under its owners, and a record of the vector has a listener of its own.\<close>

definition tidy :: "app_subs \<Rightarrow> bool" where
  "tidy s \<longleftrightarrow> (\<forall>o1. \<forall>p \<in> set (owner_records o1 s). o1 \<in> set (sr_owners (as_store s p)) \<and> p < as_next s)
     \<and> distinct (app_records s) \<and> inj_on (\<lambda>p. sr_listener (as_store s p)) (set (app_records s))
     \<and> (\<forall>p \<in> set (app_records s). p < as_next s \<and> sr_listener (as_store s p) \<noteq> None
          \<and> (\<forall>o1 \<in> set (sr_owners (as_store s p)). p \<in> set (owner_records o1 s)))
     \<and> (\<forall>p < as_next s. bundle_ok (sr_bundleName (as_store s p)))"

definition want :: "app_subs \<Rightarrow> (listener \<times> string) set" where
  "want s = {(l, o1). \<exists>p \<in> set (app_records s). sr_listener (as_store s p) = Some l \<and> o1 \<in> set (sr_owners (as_store s p))}"

lemma tidyD:
  assumes "tidy s"
  shows "p \<in> set (owner_records o1 s) \<Longrightarrow> o1 \<in> set (sr_owners (as_store s p))" "p \<in> set (owner_records o1 s) \<Longrightarrow> p < as_next s"
    "distinct (app_records s)" "p \<in> set (app_records s) \<Longrightarrow> p < as_next s" "p \<in> set (app_records s) \<Longrightarrow> sr_listener (as_store s p) \<noteq> None"
    "p \<in> set (app_records s) \<Longrightarrow> o1 \<in> set (sr_owners (as_store s p)) \<Longrightarrow> p \<in> set (owner_records o1 s)"
    "p < as_next s \<Longrightarrow> bundle_ok (sr_bundleName (as_store s p))"
    "p \<in> set (app_records s) \<Longrightarrow> q \<in> set (app_records s) \<Longrightarrow> sr_listener (as_store s p) = sr_listener (as_store s q) \<Longrightarrow> p = q"
  using assms unfolding tidy_def inj_on_def by blast+

text \<open>What remains of the vector when the records of a listener are given up.\<close>

lemma others_stay:
  assumes "store_kept l s s'" and "\<not> fits s l p"
  shows "sr_listener (as_store s' p) = sr_listener (as_store s p)"
  using assms unfolding store_kept_def by blast

lemma unsubscribe_all_spec:
  assumes "tidy s" and "Remove_app_record l [] s = (r, s')"
  shows "tidy s' \<and> want s' = {e \<in> want s. fst e \<noteq> l} \<and> r = ERR_OK"
proof (cases "List.find (\<lambda>p. sr_listener (as_store s p) = Some l) (app_records s)")
  case None
  then have "\<forall>p \<in> set (app_records s). sr_listener (as_store s p) \<noteq> Some l" by (auto simp: find_None_iff)
  then show ?thesis using assms None by (auto simp: Remove_app_record_def want_def)
next
  case (Some p)
  note t = tidyD [OF assms(1)]
  from find_fits [OF Some] have p: "p \<in> set (app_records s)" "sr_listener (as_store s p) = Some l" by simp_all
  let ?s0 = "s\<lparr>app_records := remove1 p (app_records s)\<rparr>"
  have s': "s' = fold (refresh_owner l [] []) (sr_owners (as_store s p)) ?s0" "r = ERR_OK"
    using assms(2) Some by (simp_all add: Remove_app_record_def)
  have k: "store_kept l ?s0 s'" "lists_kept l ?s0 s'" using refresh_fold_gives_up s'(1) by (simp_all add: gives_up_def)
  have recs: "set (app_records s') = set (app_records s) - {p}" "distinct (app_records s')"
    using k(1) t(3) by (simp_all add: store_kept_def)
  have same: "as_next s' = as_next s" "sr_owners (as_store s' q) = sr_owners (as_store s q)" "sr_bundleName (as_store s' q) = sr_bundleName (as_store s q)" for q
    using k(1) by (simp_all add: store_kept_def)
  have nofit: "\<not> fits ?s0 l q" if "q \<in> set (app_records s')" for q
    using that recs(1) t(5)[of q] t(8)[of q p] p by (auto simp: fits_def)
  have lis: "sr_listener (as_store s' q) = sr_listener (as_store s q)" if "q \<in> set (app_records s')" for q
    using others_stay [OF k(1) nofit [OF that]] by simp
  have "tidy s'"
    unfolding tidy_def
  proof (intro conjI ballI allI impI)
    fix o1 q assume "q \<in> set (owner_records o1 s')"
    then have "q \<in> set (owner_records o1 s)" using k(2) by (auto simp: lists_kept_def)
    then show "o1 \<in> set (sr_owners (as_store s' q))" "q < as_next s'" using t(1,2) by (simp_all add: same)
  next
    show "distinct (app_records s')" by (rule recs(2))
    show "inj_on (\<lambda>p. sr_listener (as_store s' p)) (set (app_records s'))"
      using t(8) lis recs(1) unfolding inj_on_def by (metis DiffD1)
  next
    fix q assume q: "q \<in> set (app_records s')"
    then have q0: "q \<in> set (app_records s)" using recs(1) by simp
    show "q < as_next s'" "sr_listener (as_store s' q) \<noteq> None" using t(4,5) [OF q0] lis [OF q] same(1) by simp_all
    show "q \<in> set (owner_records o1 s')" if "o1 \<in> set (sr_owners (as_store s' q))" for o1
      using that t(6) [OF q0] k(2) nofit [OF q] by (simp add: lists_kept_def same)
  next
    show "q < as_next s' \<Longrightarrow> bundle_ok (sr_bundleName (as_store s' q))" for q using t(7) by (simp add: same)
  qed
  moreover have "want s' = {e \<in> want s. fst e \<noteq> l}"
  proof (rule set_eqI)
    fix e :: "listener \<times> string"
    obtain x o1 where e: "e = (x, o1)" by fastforce
    have "e \<in> want s' \<longleftrightarrow> (\<exists>q \<in> set (app_records s) - {p}. sr_listener (as_store s q) = Some x \<and> o1 \<in> set (sr_owners (as_store s q)))"
      unfolding want_def e mem_Collect_eq case_prod_conv recs(1) same
      using lis recs(1) by (intro bex_cong refl) simp
    also have "\<dots> \<longleftrightarrow> x \<noteq> l \<and> e \<in> want s"
      using p t(8) unfolding want_def e by (auto; metis)
    finally show "e \<in> want s' \<longleftrightarrow> e \<in> {e \<in> want s. fst e \<noteq> l}" by (auto simp: e)
  qed
  ultimately show ?thesis using s'(2) by simp
qed

lemma replace_record_view:
  assumes "s' = replace_record l p s" and "distinct (app_records s)" and "p \<notin> set (app_records s)"
    and "\<forall>q \<in> set (app_records s). \<forall>q' \<in> set (app_records s). fits s l q \<longrightarrow> fits s l q' \<longrightarrow> q = q'"
  shows "set (app_records s') = insert p {q \<in> set (app_records s). \<not> fits s l q}" "distinct (app_records s')"
    "owner_records o1 s' = owner_records o1 s" "as_next s' = as_next s" "sr_owners (as_store s' q) = sr_owners (as_store s q)"
    "sr_bundleName (as_store s' q) = sr_bundleName (as_store s q)" "as_calls s' = as_calls s"
    "q \<notin> set (app_records s) \<or> \<not> fits s l q \<Longrightarrow> sr_listener (as_store s' q) = sr_listener (as_store s q)"
proof -
  have "set (app_records s') = insert p {q \<in> set (app_records s). \<not> fits s l q} \<and> distinct (app_records s')"
  proof (cases "List.find (fits s l) (app_records s)")
    case None
    then have "\<forall>q \<in> set (app_records s). \<not> fits s l q" by (auto simp: find_None_iff)
    with None assms(1-3) show ?thesis by (auto simp: replace_record_def)
  next
    case (Some q)
    note f = find_fits [OF Some]
    have "set (remove1 q (app_records s)) = {q \<in> set (app_records s). \<not> fits s l q}"
      using f assms(2,4) by auto
    with Some assms(1-3) show ?thesis by (simp add: replace_record_def Let_def)
  qed
  then show "set (app_records s') = insert p {q \<in> set (app_records s). \<not> fits s l q}" "distinct (app_records s')" by simp_all
  show "owner_records o1 s' = owner_records o1 s" "as_next s' = as_next s" "sr_owners (as_store s' q) = sr_owners (as_store s q)"
    "sr_bundleName (as_store s' q) = sr_bundleName (as_store s q)" "as_calls s' = as_calls s"
    by (simp_all add: assms(1) replace_record_def Let_def split: option.split)
  show "q \<notin> set (app_records s) \<or> \<not> fits s l q \<Longrightarrow> sr_listener (as_store s' q) = sr_listener (as_store s q)"
    using find_fits [of "fits s l" "app_records s"] by (auto simp: assms(1) replace_record_def Let_def split: option.split)
qed

lemma subscribe_spec:
  assumes "tidy s" and "os \<noteq> []" and "distinct os" and "bundle_ok b"
    and "s0 = s\<lparr>as_store := (as_store s)(as_next s := \<lparr>sr_owners = os, sr_listener = Some l, sr_bundleName = b, sr_appIndex = i\<rparr>),
      as_next := Suc (as_next s)\<rparr>"
    and "Insert_app_record os l (as_next s) s0 = (r, s')"
  shows "tidy s' \<and> want s' = now_wants l (set os) (want s) \<and> r = ERR_OK"
proof -
  let ?p = "as_next s"
  note t = tidyD [OF assms(1)]
  have s0: "owner_records o1 s0 = owner_records o1 s" "app_records s0 = app_records s" "as_next s0 = Suc ?p"
    "as_store s0 q = (if q = ?p then \<lparr>sr_owners = os, sr_listener = Some l, sr_bundleName = b, sr_appIndex = i\<rparr> else as_store s q)" for o1 q
    by (simp_all add: assms(5))
  have old: "q \<in> set (app_records s) \<Longrightarrow> q \<noteq> ?p" "q \<in> set (owner_records o1 s) \<Longrightarrow> q \<noteq> ?p" for q o1 using t(2,4) by blast+
  define s1 where "s1 = fold (insert_owner l ?p) os s0"
  have e: "entered l ?p (set os) s0 s1" unfolding s1_def by (rule insert_fold_entered [OF assms(3)]) (use old(2) in \<open>auto simp: s0\<close>)
  then have k: "store_kept l s0 s1" and p1: "as_store s1 ?p = as_store s0 ?p" by (simp_all add: entered_def)
  have s1: "app_records s1 = app_records s" "as_next s1 = Suc ?p" "sr_owners (as_store s1 q) = sr_owners (as_store s0 q)"
    "sr_bundleName (as_store s1 q) = sr_bundleName (as_store s0 q)" for q
    using k by (simp_all add: store_kept_def s0)
  have fits1: "fits s1 l q \<longleftrightarrow> sr_listener (as_store s q) = Some l" if "q \<in> set (app_records s)" for q
  proof -
    have "fits s0 l q \<longleftrightarrow> sr_listener (as_store s q) = Some l" using t(5) [OF that] old(1) [OF that] by (auto simp: fits_def s0)
    moreover have "fits s0 l q \<Longrightarrow> fits s1 l q" using k unfolding store_kept_def fits_def by metis
    ultimately show ?thesis using store_kept_fits [OF k] by blast
  qed
  have r: "r = ERR_OK" "s' = replace_record l ?p s1" using assms(2,6) by (auto simp: Insert_app_record_def s1_def)
  have "\<forall>q \<in> set (app_records s1). \<forall>q' \<in> set (app_records s1). fits s1 l q \<longrightarrow> fits s1 l q' \<longrightarrow> q = q'"
    unfolding s1(1) using fits1 t(8) by auto
  note v = replace_record_view [OF r(2) _ _ this, unfolded s1(1), OF t(3)]
  have np: "?p \<notin> set (app_records s)" using old(1) by blast
  note v = v [OF np]
  have recs: "set (app_records s') = insert ?p {q \<in> set (app_records s). sr_listener (as_store s q) \<noteq> Some l}"
    unfolding v(1) using fits1 by auto
  have own: "sr_owners (as_store s' q) = (if q = ?p then os else sr_owners (as_store s q))"
    "sr_bundleName (as_store s' q) = (if q = ?p then b else sr_bundleName (as_store s q))" for q
    by (simp_all add: v(5,6) s1(3,4) s0)
  have lis: "sr_listener (as_store s' ?p) = Some l" using v(8) [of ?p] np p1 by (simp add: s0)
  have lis': "sr_listener (as_store s' q) = sr_listener (as_store s q)" if "q \<in> set (app_records s)" "sr_listener (as_store s q) \<noteq> Some l" for q
  proof -
    have "\<not> fits s1 l q" using fits1 that by blast
    moreover have "\<not> fits s0 l q" using that t(5) [OF that(1)] old(1) [OF that(1)] by (simp add: fits_def s0)
    ultimately show ?thesis using v(8) [of q] others_stay [OF k, of q] old(1) [OF that(1)] by (simp add: s0)
  qed
  have inlists: "q \<in> set (owner_records o1 s')" if "q \<in> set (app_records s)" "sr_listener (as_store s q) \<noteq> Some l" "o1 \<in> set (sr_owners (as_store s q))" for q o1
  proof -
    have "\<not> fits s0 l q" using that t(5) [OF that(1)] old(1) [OF that(1)] by (simp add: fits_def s0)
    moreover have "q \<in> set (owner_records o1 s0)" using t(6) [OF that(1,3)] by (simp add: s0)
    ultimately show ?thesis using e unfolding v(3) entered_def by (cases "o1 \<in> set os") auto
  qed
  have "tidy s'"
    unfolding tidy_def
  proof (intro conjI ballI allI impI)
    fix o1 q assume "q \<in> set (owner_records o1 s')"
    then have "q \<in> set (owner_records o1 s) \<or> q = ?p \<and> o1 \<in> set os"
      using e unfolding v(3) entered_def by (cases "o1 \<in> set os") (auto simp: s0)
    then show "o1 \<in> set (sr_owners (as_store s' q))" "q < as_next s'" using t(1,2) old(2) by (auto simp: own v(4) s1(2) less_SucI)
  next
    show "distinct (app_records s')" by (rule v(2))
    show "inj_on (\<lambda>p. sr_listener (as_store s' p)) (set (app_records s'))"
      unfolding inj_on_def recs using lis lis' t(8) by auto
  next
    fix q assume "q \<in> set (app_records s')"
    then have q: "q = ?p \<or> q \<in> set (app_records s) \<and> sr_listener (as_store s q) \<noteq> Some l" using recs by auto
    then show "q < as_next s'" "sr_listener (as_store s' q) \<noteq> None" using t(4,5) lis lis' by (auto simp: v(4) s1(2) less_SucI)
    show "q \<in> set (owner_records o1 s')" if "o1 \<in> set (sr_owners (as_store s' q))" for o1
    proof (cases "q = ?p")
      case True
      with that e show ?thesis unfolding v(3) entered_def by (simp add: own)
    next
      case False
      with q that inlists show ?thesis by (simp add: own)
    qed
  next
    show "q < as_next s' \<Longrightarrow> bundle_ok (sr_bundleName (as_store s' q))" for q
      using t(7) assms(4) by (auto simp: v(4) s1(2) own less_Suc_eq)
  qed
  moreover have "want s' = now_wants l (set os) (want s)"
  proof (rule set_eqI)
    fix e :: "listener \<times> string"
    obtain x o1 where e: "e = (x, o1)" by fastforce
    let ?Q = "\<lambda>s q. sr_listener (as_store s q) = Some x \<and> o1 \<in> set (sr_owners (as_store s q))"
    have "e \<in> want s' \<longleftrightarrow> ?Q s' ?p \<or> (\<exists>q \<in> set (app_records s). sr_listener (as_store s q) \<noteq> Some l \<and> ?Q s' q)"
      unfolding want_def e mem_Collect_eq case_prod_conv recs by blast
    also have "?Q s' ?p \<longleftrightarrow> x = l \<and> o1 \<in> set os" using lis own(1) by auto
    also have "(\<exists>q \<in> set (app_records s). sr_listener (as_store s q) \<noteq> Some l \<and> ?Q s' q)
        \<longleftrightarrow> (\<exists>q \<in> set (app_records s). sr_listener (as_store s q) \<noteq> Some l \<and> ?Q s q)"
      using lis' own(1) old(1) by (intro bex_cong refl) auto
    also have "\<dots> \<longleftrightarrow> x \<noteq> l \<and> e \<in> want s" unfolding want_def e mem_Collect_eq case_prod_conv by (metis (lifting) option.inject)
    finally show "e \<in> want s' \<longleftrightarrow> e \<in> now_wants l (set os) (want s)" by (auto simp: e now_wants_def)
  qed
  ultimately show ?thesis using r(1) by simp
qed

section \<open>Runs\<close>

datatype app_sub_request =
    ASubscribe "string list option" "listener option" nat string u32
  | AUnsubscribe "listener option" "string list"
  | APublish AppAccountInfo nat string nat

fun run_app_subs :: "'z app_env_scheme \<Rightarrow> event_env \<Rightarrow> app_sub_request \<Rightarrow> app_subs \<times> app_ctl \<Rightarrow> ErrCode \<times> app_subs \<times> app_ctl" where
  "run_app_subs E V (ASubscribe os l uid b i) ss = SubscribeAppAccount E os l uid b i ss"
| "run_app_subs E V (AUnsubscribe l os) ss = (let (r, s) = UnsubscribeAppAccount l os (fst ss) in (r, s, snd ss))"
| "run_app_subs E V (APublish info uid b threadUid) ss = (ERR_OK, snd (PublishAccount E V info uid b threadUid ss))"

text \<open>Requests as they come: owners are named once, and an unsubscription is from all of them.\<close>

fun whole_request :: "app_sub_request \<Rightarrow> bool" where
  "whole_request (ASubscribe (Some os) l uid b i) = (distinct os \<and> bundle_ok b)"
| "whole_request (AUnsubscribe l os) = (os = [])"
| "whole_request _ = True"

text \<open>The database may be any at each request.\<close>

definition app_subs_step :: "'z app_env_scheme \<Rightarrow> event_env \<Rightarrow> app_subs \<Rightarrow> app_sub_request \<Rightarrow> ErrCode \<Rightarrow> app_subs \<Rightarrow> bool" where
  "app_subs_step E V s q r s' \<longleftrightarrow> whole_request q \<and> (\<exists>st st'. run_app_subs E V q (s, st) = (r, s', st'))"

fun app_subs_effect :: "app_sub_request \<Rightarrow> ErrCode \<Rightarrow> (listener \<times> string) set \<Rightarrow> (listener \<times> string) set" where
  "app_subs_effect (ASubscribe (Some os) (Some l) uid b i) r R = (if r = ERR_OK then now_wants l (set os) R else R)"
| "app_subs_effect (AUnsubscribe (Some l) os) r R = {e \<in> R. fst e \<noteq> l}"
| "app_subs_effect _ r R = R"

definition no_app_subs :: "AppEvent calls \<Rightarrow> app_subs" where
  "no_app_subs log = \<lparr>as_store = (\<lambda>_. \<lparr>sr_owners = [], sr_listener = None, sr_bundleName = [], sr_appIndex = 0\<rparr>), as_next = 0,
     ownerSubscribeRecords = [], app_records = [], as_calls = log\<rparr>"

lemma no_app_subs_tidy: "tidy (no_app_subs log)" "want (no_app_subs log) = {}"
  by (simp_all add: tidy_def want_def no_app_subs_def owner_records_def)

lemma app_calls_tidy [simp]: "tidy (s\<lparr>as_calls := cs\<rparr>) = tidy s" "want (s\<lparr>as_calls := cs\<rparr>) = want s"
  by (simp_all add: tidy_def want_def)

lemma publish_table: "\<exists>cs. fst (snd (PublishAccount E V info uid b threadUid (s, st))) = s\<lparr>as_calls := cs\<rparr>"
  by (auto simp: PublishAccount_def App_OnAccountsChanged_def Let_def split: prod.split)

lemma run_app_subs_effect:
  assumes "tidy s" and "whole_request q" and "run_app_subs E V q (s, st) = (r, s', st')"
  shows "tidy s' \<and> want s' = app_subs_effect q r (want s)"
proof (cases q)
  case (ASubscribe os l uid b i)
  show ?thesis
  proof (cases "\<exists>os1 l1 st1. os = Some os1 \<and> l = Some l1 \<and> os1 \<noteq> [] \<and> CheckAppAccess_subs E os1 uid b i st = (ERR_OK, st1)")
    case False
    then have "s' = s \<and> (os = None \<or> l = None \<or> r \<noteq> ERR_OK)"
      using assms(3) ASubscribe by (auto simp: SubscribeAppAccount_def Let_def split: option.splits if_splits prod.splits)
    with assms(1) ASubscribe show ?thesis by (cases os; cases l) auto
  next
    case True
    then obtain os1 l1 st1 where q: "os = Some os1" "l = Some l1" "os1 \<noteq> []" "CheckAppAccess_subs E os1 uid b i st = (ERR_OK, st1)" by blast
    let ?s0 = "s\<lparr>as_store := (as_store s)(as_next s := \<lparr>sr_owners = os1, sr_listener = Some l1, sr_bundleName = b, sr_appIndex = i\<rparr>),
      as_next := Suc (as_next s)\<rparr>"
    have "Insert_app_record os1 l1 (as_next s) ?s0 = (r, s')"
      using assms(3) ASubscribe q by (auto simp: SubscribeAppAccount_def Let_def split: prod.splits)
    from subscribe_spec [OF assms(1) q(3) _ _ refl this] assms(2) ASubscribe q(1,2) show ?thesis by auto
  qed
next
  case (AUnsubscribe l os)
  with assms unsubscribe_all_spec [OF assms(1)] show ?thesis
    by (cases l) (auto simp: UnsubscribeAppAccount_def split: prod.splits)
next
  case (APublish info uid b threadUid)
  with assms publish_table [of E V info uid b threadUid s st] show ?thesis by auto
qed

interpretation app_sub_table: service_refinement "app_subs_step E V" tidy want app_subs_effect for E V
  by unfold_locales (auto simp: app_subs_step_def dest: run_app_subs_effect)

lemma GetSubscribeRecords_tidy:
  assumes "tidy s"
  shows "GetSubscribeRecords owner s = owner_records owner s"
proof -
  have "GetSubscribeRecords_loop s owner ps = ps" if "\<forall>p \<in> set ps. owner \<in> set (sr_owners (as_store s p))" for ps
    using that by (induction ps) auto
  with tidyD(1) [OF assms] show ?thesis by (simp add: GetSubscribeRecords_def)
qed

text \<open>C15 (refinement). As long as owners are named once and listeners unsubscribe from all at once, the table of subscriptions to app
  accounts stands for the relation between listeners and owners that the requests describe, whatever the database and the
  listeners answer; and a change of an account is told to every subscriber of its application that owns it or that
  it was given to, with all accounts it subscribed to and may see.\<close>

theorem app_subscribers_told:
  assumes "service_run (app_subs_step E V) (no_app_subs log0) h s"
  shows "want s = fold (\<lambda>(q, r). app_subs_effect q r) h {}
    \<and> (\<forall>M st uid info b threadUid s' st'. kv_ok E \<longrightarrow> cjson_ok E \<longrightarrow> app_db E M (kv_entries st (GetDataStorage uid False))
        \<longrightarrow> PublishAccount E V info uid b threadUid (s, st :: app_ctl) = (True, s', st')
        \<longrightarrow> (\<forall>l. (l, EncodeAuthorizedApp E b (ai_appIndex info)) \<in> want s \<longrightarrow> is_event_proxy V l
              \<longrightarrow> (\<exists>p \<in> set (app_records s). sr_listener (as_store s p) = Some l
                    \<and> (authorized_receiver E info (as_store s p)
                         \<longrightarrow> (l, receiver_view E M threadUid (as_store s p), ai_owner info) \<in> told_sets (drop (length (as_calls s)) (as_calls s'))))))"
proof (intro conjI allI impI)
  show "want s = fold (\<lambda>(q, r). app_subs_effect q r) h {}"
    using app_sub_table.run_view [OF assms no_app_subs_tidy(1)] by (simp add: no_app_subs_tidy(2))
  have ok: "tidy s" by (rule app_sub_table.run_inv [OF assms no_app_subs_tidy(1)])
  note t = tidyD [OF ok]
  fix M uid info b threadUid s' l and st st' :: app_ctl
  assume a: "kv_ok E" "cjson_ok E" "app_db E M (kv_entries st (GetDataStorage uid False))"
    "PublishAccount E V info uid b threadUid (s, st) = (True, s', st')"
    "(l, EncodeAuthorizedApp E b (ai_appIndex info)) \<in> want s" "is_event_proxy V l"
  let ?key = "EncodeAuthorizedApp E b (ai_appIndex info)"
  from a(5) obtain p where p: "p \<in> set (app_records s)" "sr_listener (as_store s p) = Some l" "?key \<in> set (sr_owners (as_store s p))"
    by (auto simp: want_def)
  have "\<forall>p \<in> set (GetSubscribeRecords ?key s). bundle_ok (sr_bundleName (as_store s p))"
    unfolding GetSubscribeRecords_tidy [OF ok] using t(2,7) by blast
  from notify_receivers_told [OF a(1-3) this, of V info threadUid "as_calls s"] a(4) obtain log where
    log: "as_calls s' = as_calls s @ log"
      "told_sets log = {(l, receiver_view E M threadUid (as_store s p), ai_owner info) | l p. p \<in> set (owner_records ?key s)
         \<and> sr_listener (as_store s p) = Some l \<and> is_event_proxy V l \<and> authorized_receiver E info (as_store s p)}"
    unfolding GetSubscribeRecords_tidy [OF ok] by (auto simp: PublishAccount_def App_OnAccountsChanged_def Let_def GetSubscribeRecords_tidy [OF ok])
  have "p \<in> set (owner_records ?key s)" using t(6) p(1,3) by blast
  then have "authorized_receiver E info (as_store s p) \<Longrightarrow> (l, receiver_view E M threadUid (as_store s p), ai_owner info) \<in> told_sets log"
    unfolding log(2) using p(2) a(6) by blast
  then show "\<exists>p \<in> set (app_records s). sr_listener (as_store s p) = Some l
      \<and> (authorized_receiver E info (as_store s p)
           \<longrightarrow> (l, receiver_view E M threadUid (as_store s p), ai_owner info) \<in> told_sets (drop (length (as_calls s)) (as_calls s')))"
    using p(1,2) log(1) by auto
qed

section \<open>Records without a listener\<close>

lemma notify_receivers_log:
  "notify_receivers E V info ds threadUid s ps (log, st) = (r, log', st')
    \<Longrightarrow> \<exists>ext. log' = log @ ext \<and> (\<forall>c \<in> told ext. \<exists>p \<in> set ps. sr_listener (as_store s p) = Some (fst c))"
proof (induction ps arbitrary: log st)
  case (Cons p ps)
  have IH: "\<exists>ext. log' = log @ ext \<and> (\<forall>c \<in> told ext. \<exists>p \<in> set (p # ps). sr_listener (as_store s p) = Some (fst c))"
    if n: "notify_receivers E V info ds threadUid s ps (log @ ext1, st1) = (r, log', st')"
      and e: "\<forall>c \<in> told ext1. sr_listener (as_store s p) = Some (fst c)" for ext1 st1
  proof -
    obtain ext2 where "log' = (log @ ext1) @ ext2" "\<forall>c \<in> told ext2. \<exists>p \<in> set ps. sr_listener (as_store s p) = Some (fst c)"
      using Cons.IH [OF n] by blast
    with e show ?thesis by (intro exI [of _ "ext1 @ ext2"]) auto
  qed
  let ?r = "as_store s p"
  show ?case
  proof (cases "\<not> IsReceiverAuthorizedApp E info ?r \<and> sr_bundleName ?r \<noteq> ai_owner info")
    case True
    then show ?thesis using Cons.prems IH [of "[]"] by simp
  next
    case False
    obtain res infos st1 where a: "GetAllAccessibleAccountsFromDataStorage E (sr_bundleName ?r) threadUid ds (sr_appIndex ?r) st = ((res, infos), st1)"
      by (metis prod.collapse)
    show ?thesis
    proof (cases "res \<noteq> ERR_OK")
      case True
      with False Cons.prems a have "log' = log" by (auto simp: Let_def)
      then show ?thesis by auto
    next
      case ok: False
      let ?as = "GetAccessibleAccountsBySubscribeInfo E (sr_owners ?r) infos"
      obtain ext1 where e1: "(case sr_listener ?r of None \<Rightarrow> log | Some l \<Rightarrow> if \<not> is_event_proxy V l then log
          else SendAppNotify V l (?as, ai_owner info) EVENT_RETRY_TIMES log) = log @ ext1" "\<forall>c \<in> told ext1. sr_listener ?r = Some (fst c)"
      proof (cases "sr_listener ?r")
        case None
        then show ?thesis by (intro that [of "[]"]) auto
      next
        case (Some l)
        obtain ext where "SendAppNotify V l (?as, ai_owner info) EVENT_RETRY_TIMES log = log @ ext" "told ext = {(l, (?as, ai_owner info))}"
          using SendAppNotify_told by blast
        with Some show ?thesis by (cases "is_event_proxy V l") (auto intro: that [of ext] that [of "[]"])
      qed
      have "notify_receivers E V info ds threadUid s (p # ps) (log, st) = notify_receivers E V info ds threadUid s ps (log @ ext1, st1)"
        using False ok by (simp add: a e1(1) Let_def del: de_Morgan_conj)
      with Cons.prems have "notify_receivers E V info ds threadUid s ps (log @ ext1, st1) = (r, log', st')" by (simp only:)
      from IH [OF this e1(2)] show ?thesis .
    qed
  qed
qed auto

lemma set_difference_set:
  "sorted xs \<Longrightarrow> distinct xs \<Longrightarrow> sorted ys \<Longrightarrow> set (set_difference xs ys) = set xs - set ys"
  by (induction xs ys rule: set_difference.induct) auto

lemma refresh_listener:
  "sr_listener (as_store (refresh_owner l g n o1 s) q) = sr_listener (as_store s q) \<or> sr_listener (as_store (refresh_owner l g n o1 s) q) = None"
  "sr_owners (as_store (refresh_owner l g n o1 s) q) = sr_owners (as_store s q) \<or> sr_owners (as_store (refresh_owner l g n o1 s) q) = n"
  "app_records (refresh_owner l g n o1 s) = app_records s" "as_calls (refresh_owner l g n o1 s) = as_calls s"
  by (auto simp: refresh_owner_def RefreshOldData_def Let_def SetOwners_def split: option.split)

lemma option_kept_trans: "x \<in> {y, None} \<Longrightarrow> y \<in> {z, None} \<Longrightarrow> x \<in> {z, None}"
  by auto

lemma refresh_fold_listener:
  "sr_listener (as_store (fold (refresh_owner l g n) os s) q) \<in> {sr_listener (as_store s q), None}"
proof (induction os arbitrary: s)
  case (Cons o1 os)
  have "sr_listener (as_store (refresh_owner l g n o1 s) q) \<in> {sr_listener (as_store s q), None}" using refresh_listener(1) by blast
  with Cons.IH [of "refresh_owner l g n o1 s"] show ?case unfolding fold_simps by (rule option_kept_trans)
qed simp

lemma refresh_fold_owners: "sr_owners (as_store s q) = n \<Longrightarrow> sr_owners (as_store (fold (refresh_owner l g n) os s) q) = n"
proof (induction os arbitrary: s)
  case (Cons o1 os)
  then have "sr_owners (as_store (refresh_owner l g n o1 s) q) = n" using refresh_listener(2) [of l g n o1 s q] by simp
  from Cons.IH [OF this] show ?case by simp
qed simp

lemma refresh_fold_records: "app_records (fold (refresh_owner l g n) os s) = app_records s"
  by (induction os arbitrary: s) (simp_all add: refresh_listener(3))

lemma refresh_silences:
  assumes "g \<noteq> []"
  shows "\<forall>q. q \<noteq> p \<longrightarrow> sr_listener (as_store s q) \<noteq> Some l \<Longrightarrow> fits s l p
    \<Longrightarrow> \<forall>o1 \<in> set os. p \<in> set (owner_records o1 s) \<and> (\<forall>q \<in> set (owner_records o1 s). q = p \<or> sr_listener (as_store s q) \<noteq> None)
    \<Longrightarrow> \<exists>o1 \<in> set os. o1 \<in> set g \<Longrightarrow> sr_listener (as_store (fold (refresh_owner l g n) os s) p) = None"
proof (induction os arbitrary: s)
  case (Cons o1 os)
  let ?s = "refresh_owner l g n o1 s"
  have rec: "p \<in> set (owner_records o1 s)" "\<forall>q \<in> set (owner_records o1 s). q = p \<or> sr_listener (as_store s q) \<noteq> None"
    using Cons.prems(3) by simp_all
  have f: "List.find (fits s l) (owner_records o1 s) = Some p"
  proof (cases "List.find (fits s l) (owner_records o1 s)")
    case None
    with rec(1) Cons.prems(2) show ?thesis by (auto simp: find_None_iff)
  next
    case (Some q)
    with find_fits [OF Some] rec(2) Cons.prems(1) show ?thesis by (auto simp: fits_def)
  qed
  show ?case
  proof (cases "o1 \<in> set g")
    case True
    then have "sr_listener (as_store ?s p) = None" using f by (simp add: refresh_owner_def RefreshOldData_def Let_def)
    with refresh_fold_listener [of l g n os ?s p] show ?thesis by simp
  next
    case False
    let ?t = "SetOwners p n (put_owner o1 (owner_records o1 s) s)"
    have t: "sr_listener (as_store ?t q) = sr_listener (as_store s q)" "owner_records o2 ?t = owner_records o2 s" for q o2
      by (auto simp: SetOwners_def owner_records_def put_owner_def)
    have "owner_records o1 ?t \<noteq> []" using rec(1) unfolding t(2) by auto
    then have s: "?s = ?t" using f False assms by (simp add: refresh_owner_def RefreshOldData_def Let_def)
    have "sr_listener (as_store (fold (refresh_owner l g n) os ?t) p) = None"
      using Cons.prems False by (intro Cons.IH) (auto simp: t fits_def)
    then show ?thesis by (simp add: s)
  qed
qed simp


text \<open>A record without a listener that stands before the one of the listener hides it from an unsubscription.\<close>

lemma hidden_from_unsubscription:
  assumes "List.find (\<lambda>p. sr_listener (as_store s p) = Some l) (app_records s) = Some p" and "sr_owners (as_store s p) = [o1]"
    and "List.find (fits s l) (owner_records o1 s) = Some q" and "q \<noteq> p" and "p \<in> set (owner_records o1 s)"
    and "UnsubscribeAppAccount (Some l) [] s = (r, s')"
  shows "r = ERR_OK \<and> p \<in> set (owner_records o1 s') \<and> sr_listener (as_store s' p) = Some l"
proof -
  let ?s = "s\<lparr>app_records := remove1 p (app_records s)\<rparr>"
  have s': "r = ERR_OK" "s' = refresh_owner l [] [] o1 ?s" using assms(1,2,6) by (simp_all add: UnsubscribeAppAccount_def Remove_app_record_def)
  have "fits ?s l = fits s l" by (simp add: fits_def fun_eq_iff)
  then have 1: "RefreshOldData l [] [] o1 ?s = put_owner o1 (remove1 q (owner_records o1 s)) (lose_listener q ?s)"
    using assms(3) by (simp add: RefreshOldData_def Let_def)
  have in_list: "p \<in> set (remove1 q (owner_records o1 s))" using assms(4,5) by simp
  then have "remove1 q (owner_records o1 s) \<noteq> []" by auto
  with in_list show ?thesis using s' find_fits [OF assms(1)] assms(4) by (simp add: refresh_owner_def Let_def 1)
qed

section \<open>Witnesses\<close>

text \<open>The account of alice is shared with \<open>com.chat\<close>, whose listener 7 subscribes to both applications.\<close>

definition shared_ctl :: app_ctl where
  "shared_ctl = snd (run_request ref_app_env 20000000 ''alice'' ''com.mail'' 0 (EnableReq ''com.chat'' 9) demo_ctl)"

definition shared_alice :: AppAccountInfo where
  "shared_alice = snd (EnableAppAccess ''com.chat'' 9 (SetExtraInfo ''x'' (new_info ''alice'' ''com.mail'' 0)))"

definition shared_accounts :: accounts where
  "shared_accounts = demo_accounts(GetPrimeKey (new_info ''alice'' ''com.mail'' 0) \<mapsto> shared_alice)"

lemma new_info_access: "ai_authorizedApps (new_info name owner i) = []"
  by (simp add: new_info_def SetAppIndex_def AppAccountInfo_new_def)

lemma shared_alice_fields: "ai_owner shared_alice = ''com.mail''" "ai_appIndex shared_alice = 0" "ai_authorizedApps shared_alice = [''com.chat'']"
  by (simp_all add: shared_alice_def EnableAppAccess_def Let_def MAX_APP_AUTH_LIST_SIZE_def SetExtraInfo_def new_info_access)

lemma shared_accounts_view: "shared_accounts k = (if k = GetPrimeKey (new_info ''alice'' ''com.mail'' 0) then Some shared_alice else None)"
  by (simp add: shared_accounts_def demo_accounts_def)

lemma shared_db: "app_db ref_app_env shared_accounts (kv_entries shared_ctl (GetDataStorage 20000000 False))"
proof -
  let ?a = "new_info ''alice'' ''com.mail'' 0"
  have "implements_request ref_app_env 20000000 ?a (EnableReq ''com.chat'' 9) demo_accounts demo_ctl
      (run_request ref_app_env 20000000 ''alice'' ''com.mail'' 0 (EnableReq ''com.chat'' 9) demo_ctl)"
    by (rule request_refines) (simp_all add: demo_db app_ok_def)
  moreover have "abs_request ref_app_env ?a (EnableReq ''com.chat'' 9) demo_accounts = (ERR_OK, shared_accounts)"
    by (simp add: abs_update_def shared_accounts_def shared_alice_def demo_accounts_def EnableAppAccess_def Let_def SetExtraInfo_def
        MAX_APP_AUTH_LIST_SIZE_def new_info_access)
  ultimately show ?thesis by (auto simp: implements_request_def shared_ctl_def)
qed

lemma ref_encode: "EncodeAuthorizedApp ref_app_env b 0 = b"
  by (simp add: EncodeAuthorizedApp_def ref_app_env_def)

lemma shared_check: "\<exists>st1. CheckAppAccess_subs ref_app_env [''com.chat'', ''com.mail''] 20000000 ''com.chat'' 0 shared_ctl = (ERR_OK, st1)"
proof -
  have "app_ok ''com.chat''" by (simp add: app_ok_def)
  from accessible_ids_ok [OF ref_app_env_ok(1,2) shared_db this] obtain ids where ids: "fst (GetAccessibleAccountsFromDataStorage ref_app_env (GetDataStorage 20000000 False) ''com.chat'' shared_ctl) = (ERR_OK, ids)"
    "set ids = granted shared_accounts ''com.chat''"
    by metis
  have "GetPrimeKey (new_info ''alice'' ''com.mail'' 0) \<in> set ids"
    unfolding ids(2) granted_def by (simp add: shared_accounts_view shared_alice_fields)
  moreover have "starts_with ''com.mail'' (GetPrimeKey (new_info ''alice'' ''com.mail'' 0))" by (simp add: starts_with_def GetPrimeKey_def)
  ultimately have "CheckOwnersAccessible [''com.chat'', ''com.mail''] ''com.chat'' ids = ERR_OK"
    by (auto simp: CheckOwnersAccessible_def list_ex_iff)
  then show ?thesis using ids(1)
    by (cases "GetAccessibleAccountsFromDataStorage ref_app_env (GetDataStorage 20000000 False) ''com.chat'' shared_ctl")
      (simp add: CheckAppAccess_subs_def ref_encode)
qed

definition chat_record :: AppAccountSubscribeRecord where
  "chat_record = \<lparr>sr_owners = [''com.chat'', ''com.mail''], sr_listener = Some 7, sr_bundleName = ''com.chat'', sr_appIndex = 0\<rparr>"

lemma chat_subscribes:
  obtains s1 st1 where "SubscribeAppAccount ref_app_env (Some [''com.chat'', ''com.mail'']) (Some 7) 20000000 ''com.chat'' 0 (no_app_subs [], shared_ctl)
      = (ERR_OK, s1, st1)" "tidy s1" "as_store s1 0 = chat_record" "app_records s1 = [0]"
proof -
  let ?os = "[''com.chat'', ''com.mail'']" let ?s = "no_app_subs []"
  let ?t = "?s\<lparr>as_store := (as_store ?s)(as_next ?s := chat_record), as_next := Suc (as_next ?s)\<rparr>"
  obtain st1 where st1: "CheckAppAccess_subs ref_app_env ?os 20000000 ''com.chat'' 0 shared_ctl = (ERR_OK, st1)" using shared_check by blast
  obtain r s1 where i: "Insert_app_record ?os 7 (as_next ?s) ?t = (r, s1)" by fastforce
  have ok: "tidy s1" "r = ERR_OK"
    using subscribe_spec [OF no_app_subs_tidy(1) _ _ _ refl i [unfolded chat_record_def]] by (simp_all add: bundle_ok_def)
  have e: "entered 7 (as_next ?s) (set ?os) ?t (fold (insert_owner 7 (as_next ?s)) ?os ?t)"
    by (rule insert_fold_entered) (simp_all add: no_app_subs_def owner_records_def)
  then have "as_store (fold (insert_owner 7 (as_next ?s)) ?os ?t) (as_next ?s) = chat_record"
    "app_records (fold (insert_owner 7 (as_next ?s)) ?os ?t) = []"
    unfolding entered_def store_kept_def by (simp_all add: no_app_subs_def del: fold_simps)
  then have "as_store s1 0 = chat_record" "app_records s1 = [0]"
    using i by (auto simp: Insert_app_record_def replace_record_def no_app_subs_def [THEN arg_cong [of _ _ as_next]] simp del: fold_simps)
  moreover have "SubscribeAppAccount ref_app_env (Some ?os) (Some 7) 20000000 ''com.chat'' 0 (?s, shared_ctl) = (ERR_OK, s1, st1)"
    using st1 i ok(2) by (simp add: SubscribeAppAccount_def chat_record_def Let_def del: fold_simps)
  ultimately show ?thesis using that ok(1) by blast
qed

lemma chat_view: "receiver_view ref_app_env shared_accounts 20000000 chat_record = {shared_alice}"
  by (auto simp: receiver_view_def shared_accounts_view shared_alice_fields ref_encode chat_record_def IsAppIndexVisibleToCaller_def
      QueryVisibleEnabledAppIndex_def GetMainAppIndex_def ref_app_env_def [THEN arg_cong [of _ _ GetDualModeBundleInfo]])

lemma chat_authorized: "authorized_receiver ref_app_env shared_alice chat_record"
  by (simp add: authorized_receiver_def shared_alice_fields chat_record_def ref_encode)

lemma chat_receives:
  assumes "tidy s" and "as_store s 0 = chat_record" and "app_records s = [0]"
  shows "0 \<in> set (GetSubscribeRecords ''com.mail'' s)" "\<forall>p \<in> set (GetSubscribeRecords ''com.mail'' s). bundle_ok (sr_bundleName (as_store s p))"
    "(7, ''com.mail'') \<in> want s"
  using tidyD(2,6,7) [OF assms(1)] assms by (auto simp: GetSubscribeRecords_tidy chat_record_def want_def)

lemma publish_true: "\<exists>s' st'. PublishAccount E V info uid b threadUid ss = (True, s', st')"
  by (cases ss) (auto simp: PublishAccount_def Let_def split: prod.split)

theorem app_events_keep_secrets_witness:
  "\<exists>s s' st'. PublishAccount ref_app_env calm_listeners shared_alice 20000000 ''com.mail'' 20000000 (s, shared_ctl) = (True, s', st')
    \<and> (7, {shared_alice}, ''com.mail'') \<in> told_sets (as_calls s')"
proof -
  obtain s where s: "tidy s" "as_store s 0 = chat_record" "app_records s = [0]" by (rule chat_subscribes)
  obtain s' st' where p: "PublishAccount ref_app_env calm_listeners shared_alice 20000000 ''com.mail'' 20000000 (s, shared_ctl) = (True, s', st')"
    using publish_true by blast
  have key: "EncodeAuthorizedApp ref_app_env ''com.mail'' (ai_appIndex shared_alice) = ''com.mail''" by (simp add: ref_encode shared_alice_fields)
  note r = chat_receives [OF s]
  obtain log where log: "as_calls s' = as_calls s @ log" "told_sets log = {(l, receiver_view ref_app_env shared_accounts 20000000 (as_store s p), ai_owner shared_alice)
      | l p. p \<in> set (GetSubscribeRecords ''com.mail'' s) \<and> sr_listener (as_store s p) = Some l \<and> is_event_proxy calm_listeners l
          \<and> authorized_receiver ref_app_env shared_alice (as_store s p)}"
    using app_events_keep_secrets [OF ref_app_env_ok(1,2) shared_db _ p, unfolded key, OF r(2)] by blast
  have "sr_listener (as_store s 0) = Some 7" "is_event_proxy calm_listeners 7" "authorized_receiver ref_app_env shared_alice (as_store s 0)"
    using chat_authorized by (simp_all add: s(2) chat_record_def calm_listeners_def)
  with r(1) have "(7, receiver_view ref_app_env shared_accounts 20000000 (as_store s 0), ai_owner shared_alice) \<in> told_sets log"
    unfolding log(2) by blast
  then have "(7, {shared_alice}, ''com.mail'') \<in> told_sets (as_calls s')" by (simp add: log(1) s(2) chat_view shared_alice_fields(1))
  with p show ?thesis by blast
qed

theorem app_subscribers_told_witness:
  "\<exists>s s' st'. service_run (app_subs_step ref_app_env calm_listeners) (no_app_subs [])
      [(ASubscribe (Some [''com.chat'', ''com.mail'']) (Some 7) 20000000 ''com.chat'' 0, ERR_OK)] s
    \<and> PublishAccount ref_app_env calm_listeners shared_alice 20000000 ''com.mail'' 20000000 (s, shared_ctl) = (True, s', st')
    \<and> (7, {shared_alice}, ''com.mail'') \<in> told_sets (drop (length (as_calls s)) (as_calls s'))"
proof -
  let ?q = "ASubscribe (Some [''com.chat'', ''com.mail'']) (Some 7) 20000000 ''com.chat'' 0"
  obtain s st1 where s: "SubscribeAppAccount ref_app_env (Some [''com.chat'', ''com.mail'']) (Some 7) 20000000 ''com.chat'' 0 (no_app_subs [], shared_ctl)
      = (ERR_OK, s, st1)" "tidy s" "as_store s 0 = chat_record" "app_records s = [0]" by (rule chat_subscribes)
  have "app_subs_step ref_app_env calm_listeners (no_app_subs []) ?q ERR_OK s"
    using s(1) by (auto simp: app_subs_step_def bundle_ok_def)
  then have run: "service_run (app_subs_step ref_app_env calm_listeners) (no_app_subs []) [(?q, ERR_OK)] s"
    using next_request [OF no_request] by fastforce
  obtain s' st' where p: "PublishAccount ref_app_env calm_listeners shared_alice 20000000 ''com.mail'' 20000000 (s, shared_ctl) = (True, s', st')"
    using publish_true by blast
  have w: "(7, EncodeAuthorizedApp ref_app_env ''com.mail'' (ai_appIndex shared_alice)) \<in> want s"
    using chat_receives(3) [OF s(2-4)] by (simp add: ref_encode shared_alice_fields)
  have l: "is_event_proxy calm_listeners 7" by (simp add: calm_listeners_def)
  from app_subscribers_told [OF run, THEN conjunct2, rule_format, OF ref_app_env_ok(1,2) shared_db p w l] s(3,4)
  have "(7, {shared_alice}, ''com.mail'') \<in> told_sets (drop (length (as_calls s)) (as_calls s'))"
    using chat_authorized chat_view by (simp add: shared_alice_fields)
  with run p show ?thesis by blast
qed


end
