(* ===== verification/Spec2Isabelle.thy ===== *)
theory Spec2Isabelle
  imports App_Account_Parcel Os_Account_Ids Ohos_Account_Manager App_Account_Cache Os_Account_Creation_Runs Photo_Codec Privilege_Safety Constraint_Subscriptions App_Account_Subscriptions
begin

text \<open>
  A verification library of the account subsystem.

  \<^bold>\<open>The program.\<close> The account service keeps three kinds of accounts. OS accounts are the users of the
  device, numbered by local ids; the service stores their list, their records and the constraints that bind them in
  JSON files and brings them to the front of the displays. A distributed (OHOS) account is the cloud identity bound to an
  OS account; it is logged in and out by events, checked by a state machine and stored in one JSON file per user. App accounts
  belong to an application: a record of tokens, credentials, associated data and authorizations that is
  stored as JSON text in a key-value database and sent to clients in parcels. All of them sit on a small JSON layer over
  cJSON and on a file operator that replaces files through a temporary file and a rename. The service also keeps which process
  was granted which privilege and until when.

  \<^bold>\<open>The theories\<close>, from the bottom, with the sources under \<open>src/\<close>.
  \<^item> \<open>Prelude\<close>: error codes, decimal conversion, \<open>std::map\<close> and \<open>std::set\<close> as sorted lists. The locale
    \<open>std_map\<close> states the laws of a map (lookup after insert and erase) and is interpreted as \<open>smap\<close>.
    \<open>Service_Runs\<close>: runs of a service as an inductive relation over its requests and answers; the locale
    \<open>service_invariant\<close> proves that what every request keeps holds at any time of a run, its extension \<open>service_refinement\<close> that the
    state follows an abstract one.
  \<^item> \<open>Json_Utils\<close>: \<open>frameworks/common/json_utils/src/json_utils.cpp\<close>, getters and setters on the cJSON tree.
    \<open>Json_Reference\<close> is a concrete text format with the one promise the code needs of cJSON.
  \<^item> \<open>Account_File_Operator\<close>: \<open>frameworks/common/file_operator/src/account_file_operator.cpp\<close>. The state
    \<open>fs_state\<close> holds files, directories and the count of system calls; each call may fail with an errno. The
    lemmas show atomic replacement under every failure pattern and that what was stored is loaded. The locale
    \<open>file_store\<close>, interpreted as \<open>account_files\<close>, is the contract the storage theories build on.
  \<^item> \<open>Os_Account_Files\<close>, \<open>Os_Account_Constraints\<close>, \<open>Os_Account_Ids\<close>:
    \<open>services/accountmgr/src/osaccount/os_account_control_file_manager.cpp\<close> and
    \<open>os_account_file_operator.cpp\<close>. The constraint files refine a relation between constraints and the accounts
    that impose them; the locale \<open>source_table\<close> is that abstract table, interpreted on the JSON updates of the
    global (\<open>global_tab\<close>) and the specific (\<open>specific_tab\<close>) file. The id theory covers the account list, the
    circular search for local ids and the search for serial numbers.
  \<^item> \<open>Os_Account_Info\<close>: the record of an OS account, its JSON form (\<open>os_account_info_json_parser.cpp\<close>) and its
    file; an update is read back. \<open>Photo_Codec\<close>: \<open>os_account_photo_operator.cpp\<close> and the file of a photo; what is handed out
    for a picture decodes to its bytes. \<open>Display_User_Zones\<close>: \<open>display_user_zone_config_manager.cpp\<close>, the configuration of
    display zones from the XML file to the three questions; \<open>zone_config\<close> interprets \<open>service_invariant\<close>.
  \<^item> \<open>Os_Account_Services\<close>, \<open>Os_Account_Lifecycle\<close>, \<open>Os_Account_Removal\<close>: \<open>os_account_interface.cpp\<close> and
    \<open>inner_os_account_manager.cpp\<close>. The state \<open>osm_state\<close> is the file system, the display zones, the members of the manager
    (active list, foreground map, markers of running operations, verified and logged in accounts), the count of
    calls to other services and the published events. \<open>Os_Account_States\<close> and \<open>Os_Account_Requests\<close> hold the
    specification of each step, \<open>Os_Account_Runs\<close> the requests as steps of a service (\<open>os_manager\<close>) and the
    properties of its runs.
  \<^item> \<open>Os_Account_Creation\<close>: the creation of OS accounts in the same two files, from the question to the lock plugin over the
    choice of id and serial number to the messages and the rollback. \<open>Os_Account_Creation_Safety\<close> relates each step to the map of
    the usable accounts, those completely created and not to be removed, and keeps the account list complete;
    \<open>Os_Account_Creation_Runs\<close> shows that a creation at any time of a run is all or nothing and returns.
  \<^item> \<open>Account_State_Machine\<close>, \<open>Ohos_Account_Data\<close>, \<open>Ohos_Account_Manager\<close>: \<open>account_state_machine.cpp\<close>,
    \<open>ohos_account_data_deal.cpp\<close> and \<open>ohos_account_manager.cpp\<close> of \<open>services/accountmgr/src\<close>. The table is an
    inductive step relation with its reachable states; the manager implements the abstract account
    \<open>account_step\<close> with its result codes, stored account and published events.
  \<^item> \<open>App_Account_Info\<close>, \<open>App_Account_Json\<close>, \<open>App_Account_Parcel\<close>:
    \<open>frameworks/appaccount/native/src/app_account_info.cpp\<close> and
    \<open>frameworks/common/json_utils/src/app_account_info_json_parser.cpp\<close>. Limits and sortedness are an invariant of
    the inductive relation \<open>info_step\<close>; storing and sending a record are round trips.
  \<^item> \<open>Account_Data_Storage\<close>: \<open>kvstore_adapter_impl.cpp\<close>, \<open>account_data_storage.cpp\<close> and
    \<open>app_account_data_storage.cpp\<close>, with retries, transactions and their lock.
    \<open>App_Account_Control\<close>: \<open>app_account_control_manager.cpp\<close>, every request on stored accounts.
    \<open>App_Account_Safety\<close> shows that a failed request changes nothing: the locale \<open>guarded_body\<close> is a body inside a
    transaction, interpreted for deletion, both changes of access and the removal of a package. \<open>App_Account_Index\<close>
    and \<open>App_Account_Refinement\<close> relate the database to a map of accounts and the index of who may see them,
    \<open>App_Account_Queries\<close> covers the lists and the removal of packages, \<open>App_Account_Cache\<close> the cache of associated data.
  \<^item> \<open>Privilege_Cache\<close>: \<open>authorization_manager/privilege_cache_manager.cpp\<close>, \<open>privilege_utils.cpp\<close> and
    \<open>frameworks/common/privileges/src/privileges_map.cpp\<close>. \<open>Privilege_File\<close> relates the cache to the text of its file,
    \<open>Privilege_Runs\<close> gives the requests, restarts and ends of processes as steps of a service and the invariant that every record,
    in memory and in the file, was granted, \<open>Privilege_Safety\<close> the properties of the runs.
  \<^item> \<open>Event_Subscriptions\<close>, \<open>Constraint_Subscriptions\<close>: \<open>distributed_account_subscribe_manager.cpp\<close> and
    \<open>os_account_constraint_subscribe_manager.cpp\<close>, the tables of listeners. The locale \<open>service_refinement\<close> carries the effect of each
    request on an abstract relation over the runs; the records of the second table are shared, so they live in a store.
    \<open>App_Account_Subscriptions\<close>: \<open>app_account_subscribe_manager.cpp\<close>, on the database of \<open>App_Account_Control\<close>: who is told of a
    change of an account, and which accounts a subscriber gets to see.

  \<^bold>\<open>Parameters.\<close> Code outside the repository is a field of an environment record: the text format of cJSON
  (\<open>cjson_ok\<close>), the outcome of each system call, the parcel (\<open>parcel_ok\<close>), SHA-256 and PBKDF2, the clock, the
  conversion of a double to \<open>int\<close>, \<open>StrToInt\<close>, the key-value store and the asset store, the bundle manager, the ability manager,
  the storage, identity, display and lock services (each call may answer differently), libxml2 and the configuration
  policy, the list of privileges, the boot clock (\<open>clock_ok\<close>), the trusted environment and the kernel devices. The hypotheses on them are the named predicates, each with a concrete instance that the witnesses use.
  Two more are about creations: \<open>no_false_absence\<close>, no system call reports a file that is there as missing, and \<open>c_strings\<close>, cJSON
  finds no NUL byte in a text without one. The account of the maintenance mode, whose id is fixed, is outside of what is proved of creations.

  \<^bold>\<open>Bounds.\<close> A JSON number is an integer; round trips assume \<open>|n| < 2^53\<close>, where a double is exact. 32-bit counts in
  parcels and display ids are words. Loops are structural recursion except the search for a serial number, a partial function
  proved to end; retries of the file operator and of calls to other services are bounded as in the code.

  \<^bold>\<open>Build.\<close> The switches of the asset store, of several active and several foreground accounts, of the distributed
  feature are fields of the environment where the modelled code depends on them; sub spaces are off, and the managers of
  accounts are those of a build without the authorization part. The file watcher, which only compares digests and reports, and logs, traces and event reports change no
  result and are left out, as are locks released in the same call. Requests run one after the other: the markers of running
  operations, which the code uses to keep threads apart, are state, and a request that meets one is refused.

  \<^bold>\<open>Not modelled.\<close> The client proxies and stubs and the language bindings, which forward calls; the service classes in
  front of the managers (permissions); domain accounts and identity management, whose work is
  done in plugins and services outside the repository; the dialogs of the authorization service, sub profiles and backup; creation of OS
  accounts with full information and for domains; the notification of the subscribers of OS accounts.
\<close>

end
